(* ===== verification/VCam_Prelude.thy ===== *)
theory VCam_Prelude
  imports Main "HOL-Library.Word"
begin

text \<open>
  Shared vocabulary of the development: the kernel services the HAL calls but does not
  implement (file descriptors and sync fences), the laws their documentation promises,
  the ownership relation \<open>fd_exchange\<close> in which the fd theorems are stated, the status
  and error types, and the generic lemmas and named collections the components share.
\<close>

named_theorems vcam_defs
  \<open>definitions of the model that a component proof unfolds as a group\<close>

named_theorems fd_intros
  \<open>introduction rules for \<open>fd_exchange\<close>\<close>

section \<open>Status values\<close>

text \<open>
  \<open>ndk::ScopedAStatus\<close>: a Binder method returns ok or a service-specific code.
\<close>

datatype status = Ok | ServiceSpecific int

text \<open>
  \<open>camera::common::Status\<close>, the codes the sources use. The generated enum is not
  under src/, so the values stay symbolic.
\<close>

datatype camera_status = CS_OK | ILLEGAL_ARGUMENT | INTERNAL_ERROR | OPERATION_NOT_SUPPORTED

text \<open>What a C++ standard library call can throw in the modelled code.\<close>

datatype cxx_exception = StdOutOfRange

definition INT32_MAX :: int where
  "INT32_MAX = 2147483647"

definition INT64_MAX :: int where
  "INT64_MAX = 9223372036854775807"

lemma unat_inc: "x \<noteq> -1 \<Longrightarrow> unat (x + 1) = Suc (unat x)" for x :: "'a::len word"
proof -
  assume "x \<noteq> -1"
  then have "1 + x \<noteq> 0" by (simp add: eq_neg_iff_add_eq_0 add.commute)
  then show ?thesis by (simp add: unatSuc add.commute [of x 1])
qed

lemma word_less_inc: "x \<noteq> -1 \<Longrightarrow> x < x + 1" for x :: "'a::len word"
  by (simp add: unat_inc word_less_nat_alt)

section \<open>Kernel services\<close>

text \<open>
  \<open>dup\<close>, \<open>close\<close>, \<open>sync_wait\<close> and \<open>sync_merge\<close> are calls into libc and
  libsync. They are parameters of the model: each takes the state \<open>'w\<close> of the world
  outside the HAL and returns it changed, so an answer may depend on time and on
  everything that happened before. A negative result is a failure.
\<close>

record 'w sys =
  sys_dup :: "int \<Rightarrow> 'w \<Rightarrow> int \<times> 'w"
  sys_close :: "int \<Rightarrow> 'w \<Rightarrow> 'w"
  sys_sync_wait :: "int \<Rightarrow> int \<Rightarrow> 'w \<Rightarrow> int \<times> 'w"
  sys_sync_merge :: "int \<Rightarrow> int \<Rightarrow> 'w \<Rightarrow> int \<times> 'w"

text \<open>
  What a theorem about descriptors observes of the world: the open descriptors, the GPU
  operations each fence descriptor stands for, and the operations still running.
\<close>

record ('w, 'd) fd_view =
  live :: "'w \<Rightarrow> int set"
  covers :: "'w \<Rightarrow> int \<Rightarrow> 'd set"
  running :: "'w \<Rightarrow> 'd set"

text \<open>
  The documented behaviour of the four calls: a wait never opens or closes a
  descriptor and returns 0 only when everything the fence stands for has completed; a
  successful merge or dup returns a new descriptor that stands for both or the same
  operations; closing removes one descriptor and leaves the others alone; operations only
  ever complete.
\<close>

definition wait_law :: "'w sys \<Rightarrow> ('w, 'd) fd_view \<Rightarrow> bool" where
  "wait_law S V \<longleftrightarrow> (\<forall>fd t w r w'. sys_sync_wait S fd t w = (r, w') \<longrightarrow>
     live V w' = live V w \<and> covers V w' = covers V w \<and> running V w' \<subseteq> running V w \<and>
     (r = 0 \<longrightarrow> fd \<in> live V w \<longrightarrow> covers V w fd \<inter> running V w' = {}))"

definition close_law :: "'w sys \<Rightarrow> ('w, 'd) fd_view \<Rightarrow> bool" where
  "close_law S V \<longleftrightarrow> (\<forall>fd w.
     live V (sys_close S fd w) = live V w - {fd} \<and>
     (\<forall>x. x \<noteq> fd \<longrightarrow> covers V (sys_close S fd w) x = covers V w x) \<and>
     running V (sys_close S fd w) \<subseteq> running V w)"

definition merge_law :: "'w sys \<Rightarrow> ('w, 'd) fd_view \<Rightarrow> bool" where
  "merge_law S V \<longleftrightarrow> (\<forall>a b w c w'. sys_sync_merge S a b w = (c, w') \<longrightarrow>
     running V w' \<subseteq> running V w \<and> (\<forall>x \<in> live V w. covers V w' x = covers V w x) \<and>
     (if c < 0 then live V w' = live V w
      else c \<notin> live V w \<and> live V w' = insert c (live V w) \<and>
           (a \<in> live V w \<longrightarrow> b \<in> live V w \<longrightarrow> covers V w' c = covers V w a \<union> covers V w b)))"

definition dup_law :: "'w sys \<Rightarrow> ('w, 'd) fd_view \<Rightarrow> bool" where
  "dup_law S V \<longleftrightarrow> (\<forall>a w c w'. sys_dup S a w = (c, w') \<longrightarrow>
     running V w' \<subseteq> running V w \<and> (\<forall>x \<in> live V w. covers V w' x = covers V w x) \<and>
     (if c < 0 then live V w' = live V w
      else c \<notin> live V w \<and> live V w' = insert c (live V w) \<and>
           (a \<in> live V w \<longrightarrow> covers V w' c = covers V w a)))"

definition sync_laws :: "'w sys \<Rightarrow> ('w, 'd) fd_view \<Rightarrow> bool" where
  "sync_laws S V \<longleftrightarrow> wait_law S V \<and> close_law S V \<and> merge_law S V \<and> dup_law S V \<and>
     (\<forall>w. \<forall>fd \<in> live V w. 0 \<le> fd)"

lemma sync_closeD:
  assumes "sync_laws S V"
  shows "live V (sys_close S fd w) = live V w - {fd}"
    and "x \<noteq> fd \<Longrightarrow> covers V (sys_close S fd w) x = covers V w x"
    and "running V (sys_close S fd w) \<subseteq> running V w"
  using assms by (simp_all add: sync_laws_def close_law_def)

lemma sync_waitD:
  assumes "sync_laws S V" and "sys_sync_wait S fd t w = (r, w')"
  shows "live V w' = live V w" and "covers V w' = covers V w" and "running V w' \<subseteq> running V w"
    and "r = 0 \<Longrightarrow> fd \<in> live V w \<Longrightarrow> covers V w fd \<inter> running V w' = {}"
  using assms unfolding sync_laws_def wait_law_def by simp_all

lemma sync_mergeD:
  assumes laws: "sync_laws S V" and m: "sys_sync_merge S a b w = (c, w')"
  shows "running V w' \<subseteq> running V w"
    and "x \<in> live V w \<Longrightarrow> covers V w' x = covers V w x"
    and "c < 0 \<Longrightarrow> live V w' = live V w"
    and "0 \<le> c \<Longrightarrow> c \<notin> live V w" and "0 \<le> c \<Longrightarrow> live V w' = insert c (live V w)"
    and "0 \<le> c \<Longrightarrow> a \<in> live V w \<Longrightarrow> b \<in> live V w \<Longrightarrow>
      covers V w' c = covers V w a \<union> covers V w b"
proof -
  have *: "running V w' \<subseteq> running V w \<and> (\<forall>x \<in> live V w. covers V w' x = covers V w x) \<and>
     (if c < 0 then live V w' = live V w
      else c \<notin> live V w \<and> live V w' = insert c (live V w) \<and>
           (a \<in> live V w \<longrightarrow> b \<in> live V w \<longrightarrow> covers V w' c = covers V w a \<union> covers V w b))"
    using laws m unfolding sync_laws_def merge_law_def by (elim conjE allE) (erule (1) mp)
  from * show "running V w' \<subseteq> running V w" by (elim conjE)
  from * show "x \<in> live V w \<Longrightarrow> covers V w' x = covers V w x" by (elim conjE) (erule (1) bspec)
  from * show "c < 0 \<Longrightarrow> live V w' = live V w" by simp
  from * show "0 \<le> c \<Longrightarrow> c \<notin> live V w" by simp
  from * show "0 \<le> c \<Longrightarrow> live V w' = insert c (live V w)" by simp
  from * show "0 \<le> c \<Longrightarrow> a \<in> live V w \<Longrightarrow> b \<in> live V w \<Longrightarrow>
      covers V w' c = covers V w a \<union> covers V w b" by simp
qed

lemma sync_dupD:
  assumes laws: "sync_laws S V" and m: "sys_dup S a w = (c, w')"
  shows "running V w' \<subseteq> running V w"
    and "x \<in> live V w \<Longrightarrow> covers V w' x = covers V w x"
    and "c < 0 \<Longrightarrow> live V w' = live V w"
    and "0 \<le> c \<Longrightarrow> c \<notin> live V w" and "0 \<le> c \<Longrightarrow> live V w' = insert c (live V w)"
    and "0 \<le> c \<Longrightarrow> a \<in> live V w \<Longrightarrow> covers V w' c = covers V w a"
proof -
  have *: "running V w' \<subseteq> running V w \<and> (\<forall>x \<in> live V w. covers V w' x = covers V w x) \<and>
     (if c < 0 then live V w' = live V w
      else c \<notin> live V w \<and> live V w' = insert c (live V w) \<and>
           (a \<in> live V w \<longrightarrow> covers V w' c = covers V w a))"
    using laws m unfolding sync_laws_def dup_law_def by (elim conjE allE) (erule (1) mp)
  from * show "running V w' \<subseteq> running V w" by (elim conjE)
  from * show "x \<in> live V w \<Longrightarrow> covers V w' x = covers V w x" by (elim conjE) (erule (1) bspec)
  from * show "c < 0 \<Longrightarrow> live V w' = live V w" by simp
  from * show "0 \<le> c \<Longrightarrow> c \<notin> live V w" by simp
  from * show "0 \<le> c \<Longrightarrow> live V w' = insert c (live V w)" by simp
  from * show "0 \<le> c \<Longrightarrow> a \<in> live V w \<Longrightarrow> covers V w' c = covers V w a" by simp
qed

section \<open>Exchanging one owned set of descriptors for another\<close>

text \<open>
  \<open>fd_own V w fs w' fs'\<close> is the ownership half of this relation. In full,
  \<open>fd_exchange V w fs w' fs'\<close>: going from \<open>w\<close> to \<open>w'\<close> the owner of the list
  \<open>fs\<close> now owns \<open>fs'\<close> instead. Nothing else was opened or closed (no leak, no double
  close, no descriptor owned twice), foreign descriptors stand for what they stood for,
  and every operation that \<open>fs\<close> stood for and that is still running is covered by
  \<open>fs'\<close> (no dependency is lost).
\<close>

definition fd_own ::
  "('w, 'd) fd_view \<Rightarrow> 'w \<Rightarrow> int list \<Rightarrow> 'w \<Rightarrow> int list \<Rightarrow> bool" where
  "fd_own V w fs w' fs' \<longleftrightarrow>
     distinct fs' \<and>
     live V w' = (live V w - set fs) \<union> set fs' \<and>
     set fs' \<inter> (live V w - set fs) = {} \<and>
     running V w' \<subseteq> running V w \<and>
     (\<forall>x \<in> live V w - set fs. covers V w' x = covers V w x)"

definition fd_exchange ::
  "('w, 'd) fd_view \<Rightarrow> 'w \<Rightarrow> int list \<Rightarrow> 'w \<Rightarrow> int list \<Rightarrow> bool" where
  "fd_exchange V w fs w' fs' \<longleftrightarrow> fd_own V w fs w' fs' \<and>
     (\<forall>d \<in> running V w'. \<forall>x \<in> set fs. d \<in> covers V w x \<longrightarrow> (\<exists>y \<in> set fs'. d \<in> covers V w' y))"

text \<open>Ownership alone composes, and frames by any list of untouched descriptors.\<close>

lemma fd_exchange_own: "fd_exchange V w fs w' fs' \<Longrightarrow> fd_own V w fs w' fs'"
  by (simp add: fd_exchange_def)

lemma fd_own_refl: "distinct fs \<Longrightarrow> set fs \<subseteq> live V w \<Longrightarrow> fd_own V w fs w fs"
  by (auto simp: fd_own_def)

lemma fd_own_live: "fd_own V w fs w' fs' \<Longrightarrow> set fs' \<subseteq> live V w'"
  by (auto simp: fd_own_def)

lemma fd_own_distinct: "fd_own V w fs w' fs' \<Longrightarrow> distinct fs'"
  by (simp add: fd_own_def)

lemma fd_own_trans [trans]:
  assumes "fd_own V w fs w1 fs1" and "fd_own V w1 fs1 w2 fs2"
  shows "fd_own V w fs w2 fs2"
proof -
  have out: "live V w1 - set fs1 = live V w - set fs"
    using assms(1) by (auto simp: fd_own_def)
  show ?thesis
    using assms out unfolding fd_own_def by auto
qed

lemma fd_own_append_left:
  assumes own: "fd_own V w fs w' fs'" and gs: "distinct (gs @ fs)" "set gs \<subseteq> live V w"
  shows "fd_own V w (gs @ fs) w' (gs @ fs')"
proof -
  have "set gs \<subseteq> live V w - set fs" using gs by auto
  then show ?thesis using own gs unfolding fd_own_def by auto
qed

lemma fd_own_cong_set:
  "fd_own V w fs w' fs' \<Longrightarrow> set gs = set fs \<Longrightarrow> set gs' = set fs' \<Longrightarrow> distinct gs' \<Longrightarrow>
   fd_own V w gs w' gs'"
  by (simp add: fd_own_def)

lemma fd_exchange_refl [fd_intros]:
  "distinct fs \<Longrightarrow> set fs \<subseteq> live V w \<Longrightarrow> fd_exchange V w fs w fs"
  by (auto simp: fd_exchange_def fd_own_def)

lemma fd_exchange_live: "fd_exchange V w fs w' fs' \<Longrightarrow> set fs' \<subseteq> live V w'"
  by (auto simp: fd_exchange_def fd_own_def)

lemma fd_exchange_distinct: "fd_exchange V w fs w' fs' \<Longrightarrow> distinct fs'"
  by (simp add: fd_exchange_def fd_own_def)

lemma fd_exchange_outside:
  "fd_exchange V w fs w' fs' \<Longrightarrow> live V w' - set fs' = live V w - set fs"
  by (auto simp: fd_exchange_def fd_own_def)

lemma fd_exchange_trans [trans]:
  assumes "fd_exchange V w fs w1 fs1" and "fd_exchange V w1 fs1 w2 fs2"
  shows "fd_exchange V w fs w2 fs2"
proof -
  have "\<exists>z \<in> set fs2. d \<in> covers V w2 z"
    if d: "d \<in> running V w2" and x: "x \<in> set fs" "d \<in> covers V w x" for d x
  proof -
    have "d \<in> running V w1" using d assms(2) by (auto simp: fd_exchange_def fd_own_def)
    then obtain y where "y \<in> set fs1" "d \<in> covers V w1 y"
      using x assms(1) unfolding fd_exchange_def by blast
    then show ?thesis using d assms(2) unfolding fd_exchange_def by blast
  qed
  then show ?thesis
    using fd_own_trans assms by (auto simp: fd_exchange_def)
qed

text \<open>An owned descriptor that a step does not touch can be added on the left.\<close>

lemma fd_exchange_Cons [fd_intros]:
  assumes ex: "fd_exchange V w fs w' fs'" and g: "g \<in> live V w" "g \<notin> set fs"
  shows "fd_exchange V w (g # fs) w' (g # fs')"
proof -
  have mem: "g \<in> live V w - set fs" using g by simp
  then have cov: "covers V w' g = covers V w g" and "g \<notin> set fs'"
    using ex by (auto simp: fd_exchange_def fd_own_def)
  then show ?thesis using ex g mem unfolding fd_exchange_def fd_own_def by auto
qed

lemma fd_exchange_append_left:
  assumes "fd_exchange V w fs w' fs'" and "distinct (gs @ fs)" and "set gs \<subseteq> live V w"
  shows "fd_exchange V w (gs @ fs) w' (gs @ fs')"
  using assms(2,3)
proof (induction gs)
  case Nil
  then show ?case using assms(1) by simp
next
  case (Cons g gs)
  then show ?case by (auto intro!: fd_exchange_Cons)
qed

lemma fd_exchange_cong_set:
  "fd_exchange V w fs w' fs' \<Longrightarrow> set gs = set fs \<Longrightarrow> set gs' = set fs' \<Longrightarrow> distinct gs' \<Longrightarrow>
   fd_exchange V w gs w' gs'"
  by (simp add: fd_exchange_def fd_own_def)

text \<open>The single kernel calls as exchanges.\<close>

lemma fd_exchange_wait:
  assumes "sync_laws S V" and "sys_sync_wait S fd t w = (r, w')"
    and "distinct fs" "set fs \<subseteq> live V w"
  shows "fd_exchange V w fs w' fs"
proof -
  have "live V w' = live V w \<and> covers V w' = covers V w \<and> running V w' \<subseteq> running V w"
    using assms(1,2) unfolding sync_laws_def wait_law_def by blast
  then show ?thesis using assms(3,4) by (auto simp: fd_exchange_def fd_own_def)
qed

lemma fd_exchange_wait_close:
  assumes laws: "sync_laws S V" and wait: "sys_sync_wait S fd t w = (0, w1)"
    and fd: "fd \<in> live V w" "fd \<notin> set fs"
    and fs: "distinct fs" "set fs \<subseteq> live V w"
  shows "fd_exchange V w (fd # fs) (sys_close S fd w1) fs"
proof -
  have w1: "live V w1 = live V w" "covers V w1 = covers V w" "running V w1 \<subseteq> running V w"
      "covers V w fd \<inter> running V w1 = {}"
    using laws wait fd(1) unfolding sync_laws_def wait_law_def by blast+
  have w2: "live V (sys_close S fd w1) = live V w - {fd}"
      "\<And>x. x \<noteq> fd \<Longrightarrow> covers V (sys_close S fd w1) x = covers V w x"
      "running V (sys_close S fd w1) \<subseteq> running V w1"
    using laws w1 unfolding sync_laws_def close_law_def by simp_all
  have cov: "x \<in> set fs \<Longrightarrow> covers V (sys_close S fd w1) x = covers V w x" for x
    using w2(2) fd(2) by metis
  show ?thesis
    unfolding fd_exchange_def fd_own_def using w1 w2 fd fs cov by auto
qed

lemma fd_exchange_close:
  assumes laws: "sync_laws S V" and fd: "fd \<in> live V w"
    and fin: "covers V w fd \<inter> running V w = {}"
  shows "fd_exchange V w [fd] (sys_close S fd w) []"
proof -
  have w': "live V (sys_close S fd w) = live V w - {fd}"
      "\<And>x. x \<noteq> fd \<Longrightarrow> covers V (sys_close S fd w) x = covers V w x"
      "running V (sys_close S fd w) \<subseteq> running V w"
    using laws unfolding sync_laws_def close_law_def by simp_all
  have "d \<notin> covers V w fd" if "d \<in> running V (sys_close S fd w)" for d
    using that w'(3) fin by blast
  with w' show ?thesis unfolding fd_exchange_def fd_own_def by simp
qed

section \<open>A fence world for the witnesses\<close>

text \<open>
  A concrete kernel that satisfies the laws, in the shape of the repository's own fault
  model (\<open>tests/ReadFenceSetTest.cpp\<close>, struct \<open>Fences\<close>): every descriptor number is
  used once, a fence stands for a set of operations and has completed when all of them
  are signaled.
\<close>

record fence_world =
  fw_next :: nat
  fw_live :: "nat list"
  fw_deps :: "(nat \<times> nat list) list"
  fw_signaled :: "nat list"
  fw_fail_merge :: bool
  fw_fail_dup :: bool

definition fw_deps_of :: "fence_world \<Rightarrow> int \<Rightarrow> nat list" where
  "fw_deps_of w fd = (case map_of (fw_deps w) (nat fd) of None \<Rightarrow> [] | Some ds \<Rightarrow> ds)"

definition fw_open :: "fence_world \<Rightarrow> int \<Rightarrow> bool" where
  "fw_open w fd \<longleftrightarrow> 0 \<le> fd \<and> nat fd \<in> set (fw_live w) \<and> nat fd < fw_next w"

definition fw_make :: "nat list \<Rightarrow> fence_world \<Rightarrow> int \<times> fence_world" where
  "fw_make ds w = (int (fw_next w),
     w\<lparr>fw_next := Suc (fw_next w), fw_live := fw_next w # fw_live w,
       fw_deps := (fw_next w, ds) # fw_deps w\<rparr>)"

definition demo_sys :: "fence_world sys" where
  "demo_sys = \<lparr>
     sys_dup = (\<lambda>fd w. if fw_fail_dup w then (-1, w) else fw_make (fw_deps_of w fd) w),
     sys_close = (\<lambda>fd w. w\<lparr>fw_live := filter (\<lambda>x. int x \<noteq> fd) (fw_live w)\<rparr>),
     sys_sync_wait = (\<lambda>fd t w.
       (if set (fw_deps_of w fd) \<subseteq> set (fw_signaled w) then 0 else -1, w)),
     sys_sync_merge = (\<lambda>a b w. if fw_fail_merge w then (-1, w)
       else fw_make (fw_deps_of w a @ fw_deps_of w b) w)\<rparr>"

definition demo_view :: "(fence_world, nat) fd_view" where
  "demo_view = \<lparr>
     live = (\<lambda>w. {fd. fw_open w fd}),
     covers = (\<lambda>w fd. set (fw_deps_of w fd)),
     running = (\<lambda>w. - set (fw_signaled w))\<rparr>"

lemmas demo_defs = demo_sys_def demo_view_def fw_open_def fw_make_def fw_deps_of_def

lemma demo_wait_law: "wait_law demo_sys demo_view"
  by (auto simp: wait_law_def demo_defs split: if_splits)

lemma demo_close_law: "close_law demo_sys demo_view"
  by (auto simp: close_law_def demo_defs)

lemma demo_merge_law: "merge_law demo_sys demo_view"
  by (auto simp: merge_law_def demo_defs split: if_splits option.splits)

lemma demo_dup_law: "dup_law demo_sys demo_view"
  by (auto simp: dup_law_def demo_defs split: if_splits option.splits)

lemma demo_sync_laws: "sync_laws demo_sys demo_view"
  using demo_wait_law demo_close_law demo_merge_law demo_dup_law
  by (auto simp: sync_laws_def demo_view_def fw_open_def)

text \<open>Three open fences 10, 11, 12 for the operations 1, 2, 3.\<close>

definition demo_world :: fence_world where
  "demo_world = \<lparr>fw_next = 13, fw_live = [10, 11, 12],
     fw_deps = [(10, [1]), (11, [2]), (12, [3])], fw_signaled = [],
     fw_fail_merge = False, fw_fail_dup = False\<rparr>"

end
