(* ===== verification/Interfaces.thy ===== *)
theory Interfaces
  imports VCam_Prelude
begin

text \<open>
  The contracts components rely on, as locales: a supply of identities that are never handed
  out twice, and a bounded first-in first-out channel between two processes. Each is
  interpreted on the model's own definitions in the theory of the component that provides
  it.
\<close>

section \<open>Identities that are never handed out twice\<close>

text \<open>
  \<open>step\<close> is what the rest of the system may do between two allocations, \<open>mark\<close> a
  value no allocation so far exceeded, \<open>good\<close> an invariant. \<open>alloc\<close> answers \<open>None\<close>
  when it refuses.
\<close>

locale token_supply =
  fixes step :: "'s \<Rightarrow> 's \<Rightarrow> bool"
    and good :: "'s \<Rightarrow> bool"
    and mark :: "'s \<Rightarrow> int"
    and alloc :: "'r \<Rightarrow> 's \<Rightarrow> int option \<times> 's"
  assumes step_good: "good s \<Longrightarrow> step s s' \<Longrightarrow> good s'"
    and step_mark: "good s \<Longrightarrow> step s s' \<Longrightarrow> mark s \<le> mark s'"
    and alloc_step: "good s \<Longrightarrow> alloc r s = (Some t, s') \<Longrightarrow> step s s'"
    and alloc_fresh: "good s \<Longrightarrow> alloc r s = (Some t, s') \<Longrightarrow> mark s < t \<and> t \<le> mark s'"
begin

lemma run_good:
  assumes "step\<^sup>*\<^sup>* s s'" and "good s"
  shows "good s' \<and> mark s \<le> mark s'"
  using assms(1)
proof (induction rule: rtranclp_induct)
  case base
  then show ?case using assms(2) by simp
next
  case (step y z)
  then show ?case using step_good step_mark order_trans by blast
qed

lemma never_reused:
  assumes good: "good s" and first: "alloc r s = (Some t, s1)" and run: "step\<^sup>*\<^sup>* s1 s2"
    and second: "alloc r' s2 = (Some t', s3)"
  shows "t < t'"
proof -
  have "good s1" using good alloc_step [OF good first] step_good by blast
  then have s2: "good s2" "mark s1 \<le> mark s2" using run_good [OF run] by auto
  have "t \<le> mark s1" using alloc_fresh [OF good first] by simp
  also have "\<dots> \<le> mark s2" by (rule s2)
  also have "\<dots> < t'" using alloc_fresh [OF s2(1) second] by simp
  finally show ?thesis .
qed

text \<open>A refused or unused token value stays below every later one.\<close>

lemma later_exceeds:
  assumes "good s" "step\<^sup>*\<^sup>* s s1" "alloc r s1 = (Some t, s2)"
  shows "mark s < t"
  using run_good [OF assms(2,1)] alloc_fresh [OF _ assms(3)] by auto

end

section \<open>A bounded first-in first-out channel\<close>

text \<open>
  One writer and one reader. \<open>put\<close> answers whether there was room, or \<open>None\<close> when it is
  called outside its contract (\<open>fits\<close>); \<open>get\<close> answers the oldest message. \<open>left\<close> is
  how many more messages the representation can number.
\<close>

datatype 'a channel_op = Put 'a | Get

fun channel_run :: "('a \<Rightarrow> 's \<Rightarrow> (bool \<times> 's) option) \<Rightarrow> ('s \<Rightarrow> 'a option \<times> 's) \<Rightarrow>
    'a channel_op list \<Rightarrow> 's \<Rightarrow> ('a list \<times> 'a list \<times> 's) option" where
  "channel_run put get [] s = Some ([], [], s)"
| "channel_run put get (Put a # ops) s = (case put a s of
       None \<Rightarrow> None
     | Some (b, s') \<Rightarrow> map_option (\<lambda>(acc, del, t). (if b then a # acc else acc, del, t))
         (channel_run put get ops s'))"
| "channel_run put get (Get # ops) s =
     (let (r, s') = get s in map_option (\<lambda>(acc, del, t). (acc, (case r of None \<Rightarrow> del | Some a \<Rightarrow> a # del), t))
        (channel_run put get ops s'))"

fun puts :: "'a channel_op list \<Rightarrow> 'a list" where
  "puts [] = []"
| "puts (Put a # ops) = a # puts ops"
| "puts (Get # ops) = puts ops"

locale bounded_fifo =
  fixes good :: "'s \<Rightarrow> bool"
    and left :: "'s \<Rightarrow> nat"
    and size' :: nat
    and contents :: "'s \<Rightarrow> 'a list"
    and fits :: "'a \<Rightarrow> 's \<Rightarrow> bool"
    and put :: "'a \<Rightarrow> 's \<Rightarrow> (bool \<times> 's) option"
    and get :: "'s \<Rightarrow> 'a option \<times> 's"
  assumes bounded: "good s \<Longrightarrow> length (contents s) \<le> size'"
    and put_defined: "good s \<Longrightarrow> fits a s \<Longrightarrow> put a s \<noteq> None"
    and put_law: "good s \<Longrightarrow> 0 < left s \<Longrightarrow> fits a s \<Longrightarrow> put a s = Some (b, s') \<Longrightarrow>
      good s' \<and> left s \<le> left s' + 1 \<and> (\<forall>x. fits x s' = fits x s) \<and>
      b = (length (contents s) < size') \<and> contents s' = contents s @ (if b then [a] else [])"
    and get_law: "good s \<Longrightarrow> get s = (r, s') \<Longrightarrow>
      good s' \<and> left s' = left s \<and> (\<forall>x. fits x s' = fits x s) \<and>
      (case contents s of [] \<Rightarrow> r = None \<and> s' = s | x # xs \<Rightarrow> r = Some x \<and> contents s' = xs)"
begin

text \<open>
  Whatever the order of the calls, the messages read so far followed by those in the
  channel are the initial contents followed by the accepted messages.
\<close>

lemma run_in_order:
  "good s \<Longrightarrow> list_all (\<lambda>a. fits a s) (puts ops) \<Longrightarrow> length (puts ops) \<le> left s \<Longrightarrow>
   \<exists>acc del t. channel_run put get ops s = Some (acc, del, t) \<and> good t \<and>
     contents s @ acc = del @ contents t"
proof (induction ops arbitrary: s)
  case Nil
  then show ?case by simp
next
  case (Cons op ops)
  show ?case
  proof (cases op)
    case (Put a)
    then have "fits a s" "0 < left s" using Cons.prems by auto
    then obtain b s' where put: "put a s = Some (b, s')" using put_defined Cons.prems(1) by fastforce
    note law = put_law [OF Cons.prems(1) \<open>0 < left s\<close> \<open>fits a s\<close> put]
    have "length (puts ops) \<le> left s'" using law Put Cons.prems(3) by simp
    then obtain acc del t where rest: "channel_run put get ops s' = Some (acc, del, t)" "good t"
        "contents s' @ acc = del @ contents t"
      using Cons.IH [of s'] law Put Cons.prems(2) by auto
    then show ?thesis using Put put law by (cases b) auto
  next
    case Get
    obtain r s' where get: "get s = (r, s')" by fastforce
    note law = get_law [OF Cons.prems(1) get]
    obtain acc del t where rest: "channel_run put get ops s' = Some (acc, del, t)" "good t"
        "contents s' @ acc = del @ contents t"
      using Cons.IH [of s'] law Get Cons.prems(2,3) by auto
    then show ?thesis using Get get law by (cases "contents s") auto
  qed
qed

text \<open>Reading until the channel is empty yields its contents.\<close>

lemma drain:
  "good s \<Longrightarrow> length (contents s) = n \<Longrightarrow>
   \<exists>t. channel_run put get (replicate n Get) s = Some ([], contents s, t) \<and> good t \<and> contents t = []"
proof (induction n arbitrary: s)
  case 0
  then show ?case by simp
next
  case (Suc n)
  obtain r s' where get: "get s = (r, s')" by fastforce
  note law = get_law [OF Suc.prems(1) get]
  obtain x xs where xs: "contents s = x # xs" using Suc.prems(2) by (cases "contents s") auto
  then obtain t where "channel_run put get (replicate n Get) s' = Some ([], xs, t)" "good t" "contents t = []"
    using Suc.IH [of s'] law Suc.prems(2) by auto
  then show ?case using get law xs by simp
qed

end

end
