(* ===== verification/Slots.thy ===== *)
theory Slots
  imports VCam_Prelude
begin

text \<open>
  \<open>hal/core/VirtualCameraSlots.h\<close>: slot numbers and the Camera2 device ids they are
  exposed as. \<open>std::to_string\<close> and \<open>std::stoi\<close> are standard-library code the
  source uses, written out here for the arguments it passes.
\<close>

section \<open>Decimal strings\<close>

definition digit_char :: "nat \<Rightarrow> char" where
  "digit_char d = char_of (48 + d)"

definition is_digit :: "char \<Rightarrow> bool" where
  "is_digit c \<longleftrightarrow> 48 \<le> (of_char c :: nat) \<and> (of_char c :: nat) \<le> 57"

definition digit_val :: "char \<Rightarrow> nat" where
  "digit_val c = of_char c - 48"

fun nat_digits :: "nat \<Rightarrow> string" where
  "nat_digits n = (if n < 10 then [digit_char n]
     else nat_digits (n div 10) @ [digit_char (n mod 10)])"

declare nat_digits.simps [simp del]

definition to_string :: "int \<Rightarrow> string" where
  "to_string i = (if i < 0 then CHR ''-'' # nat_digits (nat (- i)) else nat_digits (nat i))"

definition digits_value :: "string \<Rightarrow> nat" where
  "digits_value s = fold (\<lambda>c n. 10 * n + digit_val c) s 0"

text \<open>
  \<open>std::stoi\<close> on a non-empty string of digits: the value, or \<open>std::out_of_range\<close>
  when it does not fit an \<open>int\<close>.
\<close>

definition stoi_digits :: "string \<Rightarrow> cxx_exception + int" where
  "stoi_digits s = (if INT32_MAX < int (digits_value s) then Inl StdOutOfRange
     else Inr (int (digits_value s)))"

section \<open>Slots\<close>

definition kMaxVirtualCameras :: int where
  "kMaxVirtualCameras = 4"

definition kFirstVirtualCameraNumber :: int where
  "kFirstVirtualCameraNumber = 100"

definition device_prefix :: string where
  "device_prefix = ''device@1.0/virtual_renderer/''"

definition deviceIdForSlot :: "int \<Rightarrow> string" where
  "deviceIdForSlot slot = device_prefix @ to_string (kFirstVirtualCameraNumber + slot)"

definition slotForDeviceId :: "string \<Rightarrow> cxx_exception + int" where
  "slotForDeviceId ident =
     (if take (length device_prefix) ident \<noteq> device_prefix then Inr (-1)
      else let num = drop (length device_prefix) ident in
        if num = [] \<or> \<not> list_all is_digit num then Inr (-1)
        else case stoi_digits num of
            Inl e \<Rightarrow> Inl e
          | Inr v \<Rightarrow> let n = v - kFirstVirtualCameraNumber in
              Inr (if 0 \<le> n \<and> n < kMaxVirtualCameras then n else -1))"

definition validSlot :: "int \<Rightarrow> bool" where
  "validSlot slot \<longleftrightarrow> 0 \<le> slot \<and> slot < kMaxVirtualCameras"

lemma validSlot_cases: "validSlot s \<Longrightarrow> s = 0 \<or> s = 1 \<or> s = 2 \<or> s = 3"
  by (auto simp: validSlot_def kMaxVirtualCameras_def)

lemma digit_char_props [simp]:
  "d < 10 \<Longrightarrow> is_digit (digit_char d)" "d < 10 \<Longrightarrow> digit_val (digit_char d) = d"
  by (simp_all add: is_digit_def digit_char_def digit_val_def of_char_of take_bit_eq_mod)

lemma nat_digits_not_Nil [simp]: "nat_digits n \<noteq> []"
  by (subst nat_digits.simps) simp

lemma nat_digits_digits: "list_all is_digit (nat_digits n)"
proof (induction n rule: nat_digits.induct)
  case (1 n)
  then show ?case by (subst nat_digits.simps) (simp add: list_all_iff)
qed

lemma digits_value_nat_digits [simp]: "digits_value (nat_digits n) = n"
proof (induction n rule: nat_digits.induct)
  case (1 n)
  then show ?case by (subst nat_digits.simps) (auto simp: digits_value_def)
qed

lemma slotForDeviceId_deviceIdForSlot:
  assumes "0 \<le> kFirstVirtualCameraNumber + slot" and "kFirstVirtualCameraNumber + slot \<le> INT32_MAX"
  shows "slotForDeviceId (deviceIdForSlot slot) = Inr (if validSlot slot then slot else -1)"
proof -
  have "stoi_digits (nat_digits (nat (100 + slot))) = Inr (100 + slot)"
    using assms by (simp add: stoi_digits_def kFirstVirtualCameraNumber_def)
  then show ?thesis
    using assms nat_digits_digits [of "nat (100 + slot)"]
    by (auto simp: slotForDeviceId_def deviceIdForSlot_def to_string_def validSlot_def
        kFirstVirtualCameraNumber_def Let_def)
qed

text \<open>
  The device id of a slot names that slot again, for every slot the HAL exposes, and a
  slot outside 0..3 never comes back from an id.
\<close>

theorem slot_roundtrip:
  assumes "0 \<le> kFirstVirtualCameraNumber + slot" and "kFirstVirtualCameraNumber + slot \<le> INT32_MAX"
  shows "slotForDeviceId (deviceIdForSlot slot) = Inr (if validSlot slot then slot else -1)"
  using assms by (rule slotForDeviceId_deviceIdForSlot)

theorem slot_roundtrip_witness:
  "slotForDeviceId (deviceIdForSlot 3) = Inr 3 \<and> slotForDeviceId (deviceIdForSlot 4) = Inr (-1)"
  using slot_roundtrip [of 3] slot_roundtrip [of 4]
  by (simp add: kFirstVirtualCameraNumber_def INT32_MAX_def validSlot_def kMaxVirtualCameras_def)

lemma slotForDeviceId_range:
  "slotForDeviceId ident = Inr s \<Longrightarrow> s = -1 \<or> validSlot s"
  by (auto simp: slotForDeviceId_def validSlot_def Let_def split: if_splits sum.splits)

end
