(* ===== verification/Read_Fences.thy ===== *)
theory Read_Fences
  imports VCam_Prelude
begin

text \<open>
  \<open>hal/core/ReadFenceSet.h\<close> and \<open>hal/core/AcquireFenceWait.h\<close>: the templates that
  own the read fences of a frame. Their callables (\<open>wait\<close>, \<open>merge\<close>, \<open>close\<close>,
  \<open>duplicate\<close>) are the kernel services of the prelude. The theorems are stated with
  \<open>fd_exchange\<close>: descriptors are neither leaked nor closed twice, and no GPU read that
  is still running loses its fence.
\<close>

section \<open>The operations\<close>

fun pruneReadFences :: "'w sys \<Rightarrow> int list \<Rightarrow> 'w \<Rightarrow> int list \<times> 'w" where
  "pruneReadFences S [] w = ([], w)"
| "pruneReadFences S (fd # fds) w =
     (let (r, w1) = sys_sync_wait S fd 0 w in
      if r = 0 then pruneReadFences S fds (sys_close S fd w1)
      else let (fds', w2) = pruneReadFences S fds w1 in (fd # fds', w2))"

text \<open>
  The \<open>while\<close> loop of \<open>consolidateReadFences\<close>: merge the first and the last fence
  into the first until at most one is left or a merge fails.
\<close>

function mergeLoop :: "'w sys \<Rightarrow> int list \<Rightarrow> 'w \<Rightarrow> bool \<times> int list \<times> 'w" where
  "mergeLoop S (f # g # fds) w =
     (let back = last (g # fds); (combined, w1) = sys_sync_merge S f back w in
      if combined < 0 then (False, f # g # fds, w1)
      else mergeLoop S (combined # butlast (g # fds)) (sys_close S back (sys_close S f w1)))"
| "mergeLoop S [] w = (True, [], w)"
| "mergeLoop S [f] w = (True, [f], w)"
  by pat_completeness auto
termination
  by (relation "measure (\<lambda>(S, fds, w). length fds)") auto

definition consolidateReadFences :: "'w sys \<Rightarrow> int list \<Rightarrow> 'w \<Rightarrow> bool \<times> int list \<times> 'w" where
  "consolidateReadFences S fences w =
     (let (fences', w1) = pruneReadFences S fences w in mergeLoop S fences' w1)"

definition retiredFrameReady :: "'w sys \<Rightarrow> int \<Rightarrow> int list \<Rightarrow> 'w \<Rightarrow> bool \<times> int list \<times> 'w" where
  "retiredFrameReady S inflight fences w =
     (let (fences', w1) = pruneReadFences S fences w in
      (inflight = 0 \<and> fences' = [], fences', w1))"

text \<open>
  \<open>duplicateAcquireFence\<close>: the result and the value left in \<open>*output\<close>.
\<close>

definition duplicateAcquireFence :: "'w sys \<Rightarrow> int \<Rightarrow> 'w \<Rightarrow> bool \<times> int \<times> 'w" where
  "duplicateAcquireFence S fd w =
     (if fd < 0 then (True, -1, w)
      else let (out, w1) = sys_dup S fd w in (0 \<le> out, out, w1))"

text \<open>
  \<open>acquireFenceReady\<close>: a source may be read when there is no fence, when the GPU
  accepted the dependency, or when a CPU wait of at most 100 ms succeeded.
\<close>

definition acquireFenceReady ::
  "int \<Rightarrow> (int \<Rightarrow> 'w \<Rightarrow> bool \<times> 'w) \<Rightarrow> (int \<Rightarrow> int \<Rightarrow> 'w \<Rightarrow> int \<times> 'w) \<Rightarrow> 'w \<Rightarrow> bool \<times> 'w" where
  "acquireFenceReady fd gpuWait cpuWait w =
     (if fd < 0 then (True, w)
      else let (g, w1) = gpuWait fd w in
        if g then (True, w1)
        else let (r, w2) = cpuWait fd 100 w1 in (r = 0, w2))"

section \<open>Pruning\<close>

lemma pruneReadFences_subset: "pruneReadFences S fds w = (fds', w') \<Longrightarrow> set fds' \<subseteq> set fds"
proof (induction fds arbitrary: w fds' w')
  case Nil
  then show ?case by simp
next
  case (Cons fd fds)
  then show ?case by (force simp: Let_def split: prod.splits if_splits)
qed

lemma pruneReadFences_length: "pruneReadFences S fds w = (fds', w') \<Longrightarrow> length fds' \<le> length fds"
proof (induction fds arbitrary: w fds' w')
  case Nil
  then show ?case by simp
next
  case (Cons fd fds)
  then show ?case by (force simp: Let_def split: prod.splits if_splits)
qed

lemma pruneReadFences_exchange:
  assumes laws: "sync_laws S V"
  shows "pruneReadFences S fds w = (fds', w') \<Longrightarrow> distinct fds \<Longrightarrow> set fds \<subseteq> live V w \<Longrightarrow>
    fd_exchange V w fds w' fds'"
proof (induction fds arbitrary: w fds' w')
  case Nil
  then show ?case by (simp add: fd_exchange_refl)
next
  case (Cons fd fds)
  obtain r w1 where wait: "sys_sync_wait S fd 0 w = (r, w1)" by fastforce
  have keep: "fd_exchange V w (fd # fds) w1 (fd # fds)"
    using fd_exchange_wait [OF laws wait, of "fd # fds"] Cons.prems by simp
  show ?case
  proof (cases "r = 0")
    case True
    have drop: "fd_exchange V w (fd # fds) (sys_close S fd w1) fds"
      using fd_exchange_wait_close [OF laws] wait True Cons.prems by auto
    have "fd_exchange V (sys_close S fd w1) fds w' fds'"
      using Cons.IH [of "sys_close S fd w1"] Cons.prems wait True fd_exchange_live [OF drop]
      by simp
    with drop show ?thesis by (rule fd_exchange_trans)
  next
    case False
    then obtain rest where rest: "pruneReadFences S fds w1 = (rest, w')" "fds' = fd # rest"
      using Cons.prems(1) wait by (auto split: prod.splits)
    have "fd_exchange V w1 fds w' rest"
      using Cons.IH [OF rest(1)] Cons.prems fd_exchange_live [OF keep] by simp
    then have "fd_exchange V w1 (fd # fds) w' fds'"
      using rest(2) Cons.prems fd_exchange_live [OF keep] by (auto intro: fd_exchange_Cons)
    with keep show ?thesis by (rule fd_exchange_trans)
  qed
qed

section \<open>Merging\<close>

lemma fd_exchange_merge:
  assumes laws: "sync_laws S V" and merge: "sys_sync_merge S f b w = (c, w1)" "0 \<le> c"
    and fs: "distinct (f # b # fds)" "set (f # b # fds) \<subseteq> live V w"
  shows "fd_exchange V w (f # b # fds) (sys_close S b (sys_close S f w1)) (c # fds)"
proof -
  let ?w2 = "sys_close S f w1" let ?w3 = "sys_close S b ?w2"
  note m = sync_mergeD [OF laws merge(1)]
  have c: "live V ?w3 = live V w1 - {f, b}"
      "\<And>x. x \<noteq> f \<Longrightarrow> x \<noteq> b \<Longrightarrow> covers V ?w3 x = covers V w1 x"
      "running V ?w3 \<subseteq> running V w1"
    using sync_closeD [OF laws] by (simp add: Diff_insert2 [symmetric] insert_commute, simp,
      meson subset_trans)
  have fl: "f \<in> live V w" "b \<in> live V w" "c \<noteq> f" "c \<noteq> b" "c \<notin> set fds"
    using fs m(4) merge(2) by auto
  have cov: "x \<in> live V w \<Longrightarrow> x \<noteq> f \<Longrightarrow> x \<noteq> b \<Longrightarrow> covers V ?w3 x = covers V w x" for x
    using c(2) m(2) by simp
  have covc: "covers V ?w3 c = covers V w f \<union> covers V w b"
    using c(2) [of c] m(6) fl merge(2) by simp
  have "distinct (c # fds)" using fs fl by simp
  moreover have "live V ?w3 = (live V w - set (f # b # fds)) \<union> set (c # fds)"
    using c(1) m(5) [OF merge(2)] fs fl by auto
  moreover have "set (c # fds) \<inter> (live V w - set (f # b # fds)) = {}"
    using m(4) [OF merge(2)] by auto
  moreover have "running V ?w3 \<subseteq> running V w"
    using c(3) m(1) by blast
  moreover have "\<forall>x \<in> live V w - set (f # b # fds). covers V ?w3 x = covers V w x"
    using cov by simp
  moreover have "\<exists>y \<in> set (c # fds). d \<in> covers V ?w3 y"
    if "x \<in> set (f # b # fds)" "d \<in> covers V w x" for d x
  proof (cases "x \<in> set fds")
    case True
    then have "covers V ?w3 x = covers V w x" using cov fs by auto
    then show ?thesis using True that by auto
  next
    case False
    then show ?thesis using that covc by auto
  qed
  ultimately show ?thesis unfolding fd_exchange_def fd_own_def by blast
qed

lemma fd_exchange_merge_failed:
  assumes "sync_laws S V" and "sys_sync_merge S f b w = (c, w1)" "c < 0"
    and "distinct fds" "set fds \<subseteq> live V w"
  shows "fd_exchange V w fds w1 fds"
proof -
  note m = sync_mergeD [OF assms(1,2)]
  have "x \<in> set fds \<Longrightarrow> covers V w1 x = covers V w x" for x
    using assms(5) m(2) by blast
  then show ?thesis using assms(3-5) m(1-3) unfolding fd_exchange_def fd_own_def by auto
qed

lemma two_elements: "\<not> length fds < 2 \<Longrightarrow> \<exists>f m b. fds = f # m @ [b]"
  by (cases fds; cases "tl fds" rule: rev_cases) auto

lemma mergeLoop_step:
  "mergeLoop S (f # m @ [b]) w =
     (let (combined, w1) = sys_sync_merge S f b w in
      if combined < 0 then (False, f # m @ [b], w1)
      else mergeLoop S (combined # m) (sys_close S b (sys_close S f w1)))"
proof -
  obtain g gs where g: "m @ [b] = g # gs" by (cases "m @ [b]") auto
  have "last (g # gs) = b" "butlast (g # gs) = m"
    unfolding g [symmetric] by simp_all
  then show ?thesis by (simp only: g mergeLoop.simps Let_def)
qed

lemma mergeLoop_exchange:
  assumes laws: "sync_laws S V"
  shows "mergeLoop S fds w = (ok, fds', w') \<Longrightarrow> distinct fds \<Longrightarrow> set fds \<subseteq> live V w \<Longrightarrow>
    fd_exchange V w fds w' fds' \<and> (ok \<longrightarrow> length fds' \<le> 1)"
proof (induction "length fds" arbitrary: fds w rule: less_induct)
  case less
  show ?case
  proof (cases "length fds < 2")
    case True
    then have "fds = [] \<or> (\<exists>f. fds = [f])" by (cases fds) auto
    then show ?thesis using less.prems by (auto simp: fd_exchange_refl)
  next
    case False
    then obtain f m b where fds: "fds = f # m @ [b]" using two_elements by blast
    obtain c w1 where merge: "sys_sync_merge S f b w = (c, w1)" by fastforce
    show ?thesis
    proof (cases "c < 0")
      case True
      then show ?thesis
        using less.prems merge fds fd_exchange_merge_failed [OF laws merge]
        by (simp add: mergeLoop_step)
    next
      case False
      have setm: "set (f # b # m) = set fds" "distinct (f # b # m)"
        using less.prems(2) fds by auto
      let ?w2 = "sys_close S b (sys_close S f w1)"
      have "fd_exchange V w (f # b # m) ?w2 (c # m)"
        using fd_exchange_merge [OF laws merge, of m] False setm less.prems(3) by auto
      moreover from this have "distinct (c # m)" by (rule fd_exchange_distinct)
      ultimately have step: "fd_exchange V w fds ?w2 (c # m)"
        using setm less.prems(2) by (blast intro: fd_exchange_cong_set)
      have "mergeLoop S (c # m) ?w2 = (ok, fds', w')"
        using less.prems(1) merge False fds by (simp add: mergeLoop_step)
      then have "fd_exchange V ?w2 (c # m) w' fds' \<and> (ok \<longrightarrow> length fds' \<le> 1)"
        using less.hyps [of "c # m" ?w2] fds fd_exchange_distinct [OF step]
          fd_exchange_live [OF step] by simp
      then show ?thesis using fd_exchange_trans [OF step] by simp
    qed
  qed
qed

section \<open>What the operations promise\<close>

lemma consolidateReadFences_exchange:
  assumes laws: "sync_laws S V"
    and owned: "distinct fences" "set fences \<subseteq> live V w"
    and run: "consolidateReadFences S fences w = (ok, fences', w')"
  shows "fd_exchange V w fences w' fences' \<and> (ok \<longrightarrow> length fences' \<le> 1)"
proof -
  obtain fs w1 where prune: "pruneReadFences S fences w = (fs, w1)" by fastforce
  then have loop: "mergeLoop S fs w1 = (ok, fences', w')"
    using run by (simp add: consolidateReadFences_def)
  have one: "fd_exchange V w fences w1 fs"
    using pruneReadFences_exchange [OF laws prune owned] .
  have "fd_exchange V w1 fs w' fences' \<and> (ok \<longrightarrow> length fences' \<le> 1)"
    using mergeLoop_exchange [OF laws loop] one by (simp add: fd_exchange_distinct fd_exchange_live)
  then show ?thesis using fd_exchange_trans [OF one] by simp
qed

text \<open>
  Consolidating the read fences of a frame, whether or not every merge
  succeeds, closes exactly the descriptors it replaces, opens none it does not keep, and
  keeps a fence for every GPU read that has not completed; when it reports success at
  most one fence is left.
\<close>

theorem consolidate_exchange:
  assumes laws: "sync_laws S V"
    and owned: "distinct fences" "set fences \<subseteq> live V w"
    and run: "consolidateReadFences S fences w = (ok, fences', w')"
  shows "fd_exchange V w fences w' fences' \<and> (ok \<longrightarrow> length fences' \<le> 1)"
  using assms by (rule consolidateReadFences_exchange)

theorem consolidate_exchange_witness:
  "\<exists>w'. consolidateReadFences demo_sys [10, 11, 12] demo_world = (True, [14], w') \<and>
     fd_exchange demo_view demo_world [10, 11, 12] w' [14]"
proof -
  obtain w' where run: "consolidateReadFences demo_sys [10, 11, 12] demo_world = (True, [14], w')"
    by (simp add: consolidateReadFences_def demo_sys_def demo_world_def fw_deps_of_def fw_make_def
        mergeLoop.simps)
  have "set [10, 11, 12 :: int] \<subseteq> live demo_view demo_world"
    by (simp add: demo_view_def fw_open_def demo_world_def)
  then show ?thesis
    using consolidate_exchange [OF demo_sync_laws _ _ run] run by auto
qed

text \<open>
  A retired frame is declared reclaimable only when no reader is in flight
  and every GPU read recorded for it has completed; all its read fences are closed then.
\<close>

theorem retired_frame_safe:
  assumes laws: "sync_laws S V"
    and owned: "distinct fences" "set fences \<subseteq> live V w"
    and run: "retiredFrameReady S inflight fences w = (True, fences', w')"
  shows "inflight = 0 \<and> fences' = [] \<and> live V w' = live V w - set fences \<and>
    (\<forall>fd \<in> set fences. covers V w fd \<inter> running V w' = {})"
proof -
  have prune: "pruneReadFences S fences w = ([], w')" and "inflight = 0" "fences' = []"
    using run by (auto simp: retiredFrameReady_def split: prod.splits)
  moreover have "fd_exchange V w fences w' []"
    using pruneReadFences_exchange [OF laws prune owned] .
  ultimately show ?thesis by (auto simp: fd_exchange_def fd_own_def)
qed

theorem retired_frame_safe_witness:
  "\<exists>w'. retiredFrameReady demo_sys 0 [10, 12] (demo_world\<lparr>fw_signaled := [1, 3]\<rparr>) = (True, [], w') \<and>
     10 \<notin> live demo_view w' \<and> 11 \<in> live demo_view w'"
proof -
  let ?w = "demo_world\<lparr>fw_signaled := [1, 3]\<rparr>"
  obtain w' where run: "retiredFrameReady demo_sys 0 [10, 12] ?w = (True, [], w')"
    by (simp add: retiredFrameReady_def demo_sys_def demo_world_def fw_deps_of_def)
  have "set [10, 12 :: int] \<subseteq> live demo_view ?w" "11 \<in> live demo_view ?w"
    by (simp_all add: demo_view_def fw_open_def demo_world_def)
  then show ?thesis
    using retired_frame_safe [OF demo_sync_laws _ _ run] run by auto
qed

lemma retiredFrameReady_exchange:
  assumes laws: "sync_laws S V" and owned: "distinct fences" "set fences \<subseteq> live V w"
    and run: "retiredFrameReady S inflight fences w = (ready, fences', w')"
  shows "fd_exchange V w fences w' fences'"
  using pruneReadFences_exchange [OF laws _ owned] run
  by (auto simp: retiredFrameReady_def split: prod.splits)

lemma duplicateAcquireFence_result:
  assumes "duplicateAcquireFence S fd w = (ok, out, w')"
  shows "fd < 0 \<Longrightarrow> ok \<and> out = -1 \<and> w' = w" and "0 \<le> fd \<Longrightarrow> ok = (0 \<le> out)"
  using assms by (auto simp: duplicateAcquireFence_def split: prod.splits if_splits)

lemma duplicateAcquireFence_exchange:
  assumes laws: "sync_laws S V" and run: "duplicateAcquireFence S fd w = (ok, out, w')"
  shows "fd_exchange V w [] w' (if 0 \<le> out then [out] else [])"
proof (cases "fd < 0")
  case True
  then show ?thesis
    using duplicateAcquireFence_result(1) [OF run] by (simp add: fd_exchange_refl)
next
  case False
  then have dup: "sys_dup S fd w = (out, w')"
    using run by (auto simp: duplicateAcquireFence_def split: prod.splits)
  note d = sync_dupD [OF laws dup]
  show ?thesis using d(1-5) by (auto simp: fd_exchange_def fd_own_def)
qed

text \<open>
  A CPU read of a source frame (the callers pass a GPU wait that
  always declines) is permitted only if there is no acquire fence or everything the
  producer's fence stands for has completed; the fence itself stays open.
\<close>

theorem cpu_read_waits_for_fence:
  assumes laws: "sync_laws S V" and fd: "0 \<le> fd \<longrightarrow> fd \<in> live V w"
    and run: "acquireFenceReady fd (\<lambda>_ w. (False, w)) (sys_sync_wait S) w = (True, w')"
  shows "live V w' = live V w \<and> (0 \<le> fd \<longrightarrow> covers V w fd \<inter> running V w' = {})"
proof (cases "fd < 0")
  case True
  then show ?thesis using run by (simp add: acquireFenceReady_def)
next
  case False
  then have "sys_sync_wait S fd 100 w = (0, w')"
    using run by (auto simp: acquireFenceReady_def split: prod.splits)
  from sync_waitD [OF laws this] fd False show ?thesis by simp
qed

theorem cpu_read_waits_for_fence_witness:
  "acquireFenceReady 10 (\<lambda>_ w. (False, w)) (sys_sync_wait demo_sys)
     (demo_world\<lparr>fw_signaled := [1]\<rparr>) = (True, demo_world\<lparr>fw_signaled := [1]\<rparr>) \<and>
   covers demo_view (demo_world\<lparr>fw_signaled := [1]\<rparr>) 10
     \<inter> running demo_view (demo_world\<lparr>fw_signaled := [1]\<rparr>) = {}"
proof -
  let ?w = "demo_world\<lparr>fw_signaled := [1]\<rparr>"
  have run: "acquireFenceReady 10 (\<lambda>_ w. (False, w)) (sys_sync_wait demo_sys) ?w = (True, ?w)"
    by (simp add: acquireFenceReady_def demo_sys_def demo_world_def fw_deps_of_def)
  have "0 \<le> (10 :: int) \<longrightarrow> 10 \<in> live demo_view ?w"
    by (simp add: demo_view_def fw_open_def demo_world_def)
  from cpu_read_waits_for_fence [OF demo_sync_laws this run] run show ?thesis by simp
qed

end
