(* ===== verification/Producer_Caps.thy ===== *)
theory Producer_Caps
  imports VCam_Prelude
begin

text \<open>
  \<open>hal/core/ProducerCapabilities.h\<close>: the declared modes of a producer, their
  validation, and the selection of the one source mode that serves a set of outputs.
  The fields are \<open>int\<close> values that arrive as \<open>int32_t\<close>; the products are computed
  in \<open>int64_t\<close>, where \<open>|a * b| \<le> 2 ^ 62\<close> cannot overflow, so \<open>int\<close> is exact.
\<close>

section \<open>Data\<close>

record ProducerMode =
  m_id :: int
  m_width :: int
  m_height :: int
  m_minFps :: int
  m_maxFps :: int
  m_formats :: "int list"
  m_downscale :: bool

record ProducerCapabilities =
  registration :: int
  facing :: int
  orientation :: int
  maxStreams :: int
  modes :: "ProducerMode list"

record Output =
  o_format :: int
  o_width :: int
  o_height :: int

abbreviation mode_area :: "ProducerMode \<Rightarrow> int" where
  "mode_area m \<equiv> m_width m * m_height m"

section \<open>Validation\<close>

text \<open>
  The loop over the formats of a mode with its \<open>std::set\<close> of formats already seen, and
  the loop over the modes with the set of ids. Formats: 1 RGBA_8888, 0x21 BLOB,
  0x22 IMPLEMENTATION_DEFINED, 0x23 YCbCr_420_888.
\<close>

fun formats_valid :: "int set \<Rightarrow> int list \<Rightarrow> bool" where
  "formats_valid seen [] = True"
| "formats_valid seen (f # fs) =
     (if (f \<noteq> 1 \<and> f \<noteq> 0x22 \<and> f \<noteq> 0x23 \<and> f \<noteq> 0x21) \<or> f \<in> seen then False
      else formats_valid (insert f seen) fs)"

fun modes_valid :: "int set \<Rightarrow> ProducerMode list \<Rightarrow> bool" where
  "modes_valid ids [] = True"
| "modes_valid ids (m # ms) =
     (if m_id m \<le> 0 \<or> m_id m \<in> ids \<or> m_width m < 16 \<or> m_height m < 16 \<or>
         m_width m > 8192 \<or> m_height m > 8192 \<or> odd (m_width m) \<or> odd (m_height m) \<or>
         m_width m * m_height m > 3840 * 2160 \<or> m_minFps m < 1 \<or>
         m_maxFps m < m_minFps m \<or> m_maxFps m > 120 \<or> m_formats m = [] \<or>
         length (m_formats m) > 4 then False
      else if \<not> formats_valid {} (m_formats m) then False
      else modes_valid (insert (m_id m) ids) ms)"

definition caps_valid :: "ProducerCapabilities \<Rightarrow> bool" where
  "caps_valid c =
     (if registration c \<le> 0 \<or> modes c = [] \<or> length (modes c) > 32 \<or> facing c < 0 \<or>
         facing c > 2 \<or>
         (orientation c \<noteq> 0 \<and> orientation c \<noteq> 90 \<and> orientation c \<noteq> 180 \<and> orientation c \<noteq> 270) \<or>
         maxStreams c < 1 \<or> maxStreams c > 3 then False
      else modes_valid {} (modes c))"

section \<open>Frame-rate ranges\<close>

text \<open>\<open>std::clamp\<close>.\<close>

definition std_clamp :: "int \<Rightarrow> int \<Rightarrow> int \<Rightarrow> int" where
  "std_clamp v lo hi = (if v < lo then lo else if hi < v then hi else v)"

fun range_scan :: "int \<times> int \<times> int \<times> int \<Rightarrow> ProducerMode list \<Rightarrow> int \<times> int \<times> int \<times> int" where
  "range_scan acc [] = acc"
| "range_scan (commonLow, commonHigh, globalLow, globalHigh) (m # ms) =
     range_scan (max commonLow (m_minFps m), min commonHigh (m_maxFps m),
                 min globalLow (m_minFps m), max globalHigh (m_maxFps m)) ms"

definition defaultRange :: "ProducerCapabilities \<Rightarrow> int \<times> int" where
  "defaultRange c =
     (let (commonLow, commonHigh, globalLow, globalHigh) = range_scan (1, 120, 120, 1) (modes c) in
      if commonLow \<le> commonHigh then
        let fps = std_clamp 30 commonLow commonHigh in (fps, fps)
      else (globalLow, globalHigh))"

definition mode_ranges :: "ProducerMode \<Rightarrow> (int \<times> int) set" where
  "mode_ranges m = {(m_minFps m, m_maxFps m), (m_minFps m, m_minFps m), (m_maxFps m, m_maxFps m)} \<union>
     (if m_minFps m \<le> 30 \<and> 30 \<le> m_maxFps m
      then {(30, 30), (m_minFps m, 30), (30, m_maxFps m)} else {})"

definition fpsRanges :: "ProducerCapabilities \<Rightarrow> (int \<times> int) set" where
  "fpsRanges c = fold (\<lambda>m R. R \<union> mode_ranges m) (modes c) {defaultRange c}"

section \<open>Selection\<close>

definition advertised :: "ProducerCapabilities \<Rightarrow> Output \<Rightarrow> bool" where
  "advertised c o' = list_ex (\<lambda>m. m_width m = o_width o' \<and> m_height m = o_height o' \<and>
     o_format o' \<in> set (m_formats m)) (modes c)"

text \<open>One output fits a source mode: the negated condition of the inner loop.\<close>

definition output_fits :: "ProducerMode \<Rightarrow> Output \<Rightarrow> bool" where
  "output_fits m o' = (\<not> (o_format o' \<notin> set (m_formats m) \<or>
     o_width o' > m_width m \<or> o_height o' > m_height m \<or>
     ((o_width o' \<noteq> m_width m \<or> o_height o' \<noteq> m_height m) \<and>
      (\<not> m_downscale m \<or> o_width o' * m_height m \<noteq> o_height o' * m_width m))))"

definition rate_skipped :: "int \<Rightarrow> int \<Rightarrow> ProducerMode \<Rightarrow> bool" where
  "rate_skipped low high m =
     (high \<noteq> 0 \<and> (low < 1 \<or> low > high \<or> high < m_minFps m \<or> low > m_maxFps m))"

definition candidate :: "Output list \<Rightarrow> int \<Rightarrow> int \<Rightarrow> ProducerMode \<Rightarrow> bool" where
  "candidate outs low high m = (\<not> rate_skipped low high m \<and> list_all (output_fits m) outs)"

definition better :: "ProducerMode \<Rightarrow> ProducerMode option \<Rightarrow> bool" where
  "better m best = (case best of None \<Rightarrow> True
     | Some b \<Rightarrow> mode_area m < mode_area b \<or>
         (m_width m = m_width b \<and> m_height m = m_height b \<and> m_id m < m_id b))"

fun select_loop :: "Output list \<Rightarrow> int \<Rightarrow> int \<Rightarrow> ProducerMode option \<Rightarrow> ProducerMode list \<Rightarrow>
    ProducerMode option" where
  "select_loop outs low high best [] = best"
| "select_loop outs low high best (m # ms) =
     select_loop outs low high
       (if candidate outs low high m \<and> better m best then Some m else best) ms"

definition jpeg_count :: "Output list \<Rightarrow> nat" where
  "jpeg_count outs = length (filter (\<lambda>o'. o_format o' = 0x21) outs)"

definition select :: "ProducerCapabilities \<Rightarrow> Output list \<Rightarrow> int \<Rightarrow> int \<Rightarrow> ProducerMode option" where
  "select c outs low high =
     (if \<not> caps_valid c \<or> outs = [] \<or> int (length outs) > maxStreams c then None
      else if high \<noteq> 0 \<and> (low, high) \<notin> fpsRanges c then None
      else if \<not> list_all (advertised c) outs then None
      else if jpeg_count outs > 1 \<or> int (length outs) - int (jpeg_count outs) > 2 then None
      else select_loop outs low high None (modes c))"

definition diagnostic :: ProducerCapabilities where
  "diagnostic = \<lparr>registration = 1, facing = 2, orientation = 0, maxStreams = 3,
     modes = map (\<lambda>(i, w, h). \<lparr>m_id = i, m_width = w, m_height = h, m_minFps = 15, m_maxFps = 60,
         m_formats = [1, 0x22, 0x23, 0x21], m_downscale = True\<rparr>)
       [(1, 3840, 2160), (2, 1920, 1080), (3, 1280, 720), (4, 640, 480)]\<rparr>"

section \<open>Validated capabilities\<close>

definition mode_ok :: "ProducerMode \<Rightarrow> bool" where
  "mode_ok m \<longleftrightarrow> 0 < m_id m \<and> 16 \<le> m_width m \<and> m_width m \<le> 8192 \<and> 16 \<le> m_height m \<and>
     m_height m \<le> 8192 \<and> even (m_width m) \<and> even (m_height m) \<and> mode_area m \<le> 8294400 \<and>
     1 \<le> m_minFps m \<and> m_minFps m \<le> m_maxFps m \<and> m_maxFps m \<le> 120 \<and>
     m_formats m \<noteq> [] \<and> distinct (m_formats m) \<and> set (m_formats m) \<subseteq> {1, 0x21, 0x22, 0x23}"

lemma formats_valid_iff:
  "formats_valid seen fs \<longleftrightarrow>
     distinct fs \<and> set fs \<inter> seen = {} \<and> set fs \<subseteq> {1, 0x21, 0x22, 0x23}"
  by (induction fs arbitrary: seen) auto

lemma modes_valid_iff:
  "modes_valid ids ms \<longleftrightarrow> distinct (map m_id ms) \<and> set (map m_id ms) \<inter> ids = {} \<and>
     (\<forall>m \<in> set ms. mode_ok m \<and> length (m_formats m) \<le> 4)"
  by (induction ms arbitrary: ids) (auto simp: formats_valid_iff mode_ok_def)

lemma caps_validD:
  assumes "caps_valid c"
  shows "0 < registration c" "modes c \<noteq> []" "length (modes c) \<le> 32" "distinct (map m_id (modes c))"
    and "m \<in> set (modes c) \<Longrightarrow> mode_ok m" and "1 \<le> maxStreams c" "maxStreams c \<le> 3"
  using assms by (auto simp: caps_valid_def modes_valid_iff split: if_splits)

lemma fpsRanges_eq: "fpsRanges c = insert (defaultRange c) (\<Union>m \<in> set (modes c). mode_ranges m)"
proof -
  have "fold (\<lambda>m R. R \<union> mode_ranges m) ms A = A \<union> (\<Union>m \<in> set ms. mode_ranges m)" for ms A
    by (induction ms arbitrary: A) auto
  then show ?thesis by (simp add: fpsRanges_def)
qed

lemma finite_fpsRanges [simp]: "finite (fpsRanges c)"
  by (auto simp: fpsRanges_eq mode_ranges_def)

lemma range_scan_bounds:
  assumes "range_scan (cl, ch, gl, gh) ms = (cl', ch', gl', gh')"
    and "\<forall>m \<in> set ms. 1 \<le> m_minFps m \<and> m_minFps m \<le> m_maxFps m \<and> m_maxFps m \<le> 120"
    and "1 \<le> cl" "ch \<le> 120" "1 \<le> gl" "gh \<le> 120"
  shows "1 \<le> cl' \<and> ch' \<le> 120 \<and> 1 \<le> gl' \<and> gh' \<le> 120 \<and> gl' \<le> gl \<and> gh \<le> gh' \<and>
    (\<forall>m \<in> set ms. gl' \<le> m_minFps m \<and> m_maxFps m \<le> gh' \<and> m_minFps m \<le> cl' \<and> ch' \<le> m_maxFps m)
    \<and> cl \<le> cl' \<and> ch' \<le> ch"
  using assms
proof (induction ms arbitrary: cl ch gl gh)
  case Nil
  then show ?case by simp
next
  case (Cons m ms)
  from Cons.prems Cons.IH [of "max cl (m_minFps m)" "min ch (m_maxFps m)"
      "min gl (m_minFps m)" "max gh (m_maxFps m)"]
  show ?case by auto
qed

lemma defaultRange_bounds:
  assumes "caps_valid c"
  shows "1 \<le> fst (defaultRange c) \<and> fst (defaultRange c) \<le> snd (defaultRange c) \<and>
    snd (defaultRange c) \<le> 120"
proof -
  obtain cl ch gl gh where scan: "range_scan (1, 120, 120, 1) (modes c) = (cl, ch, gl, gh)"
    by (metis prod_cases4)
  have ok: "\<forall>m \<in> set (modes c). 1 \<le> m_minFps m \<and> m_minFps m \<le> m_maxFps m \<and> m_maxFps m \<le> 120"
    using caps_validD(5) [OF assms] by (auto simp: mode_ok_def)
  note b = range_scan_bounds [OF scan ok]
  obtain m where "m \<in> set (modes c)" using caps_validD(2) [OF assms] by (cases "modes c") auto
  then have "gl \<le> gh" using b ok by force
  then show ?thesis using scan b by (auto simp: defaultRange_def std_clamp_def Let_def)
qed

section \<open>Selection is sound, complete and minimal\<close>

text \<open>
  \<open>best_so_far outs low high ms b\<close>: the answer \<open>b\<close> is right for the modes seen so far.
\<close>

definition best_so_far :: "Output list \<Rightarrow> int \<Rightarrow> int \<Rightarrow> ProducerMode set \<Rightarrow> ProducerMode option \<Rightarrow> bool" where
  "best_so_far outs low high M b \<longleftrightarrow> (case b of
       None \<Rightarrow> \<forall>m \<in> M. \<not> candidate outs low high m
     | Some x \<Rightarrow> x \<in> M \<and> candidate outs low high x \<and>
         (\<forall>m \<in> M. candidate outs low high m \<longrightarrow> mode_area x \<le> mode_area m \<and>
            (m_width m = m_width x \<and> m_height m = m_height x \<longrightarrow> m_id x \<le> m_id m)))"

lemma best_so_far_step:
  assumes "best_so_far outs low high M b"
  shows "best_so_far outs low high (insert m M)
    (if candidate outs low high m \<and> better m b then Some m else b)"
proof (cases b)
  case None
  then show ?thesis using assms by (auto simp: best_so_far_def better_def)
next
  case (Some x)
  have old: "x \<in> M" "candidate outs low high x"
      "\<And>m. m \<in> M \<Longrightarrow> candidate outs low high m \<Longrightarrow> mode_area x \<le> mode_area m"
      "\<And>m. m \<in> M \<Longrightarrow> candidate outs low high m \<Longrightarrow> m_width m = m_width x \<Longrightarrow>
         m_height m = m_height x \<Longrightarrow> m_id x \<le> m_id m"
    using assms Some by (auto simp: best_so_far_def)
  show ?thesis
  proof (cases "candidate outs low high m \<and> better m b")
    case True
    then consider (smaller) "mode_area m < mode_area x"
      | (same) "m_width m = m_width x" "m_height m = m_height x" "m_id m < m_id x"
      using Some by (auto simp: better_def)
    then show ?thesis
    proof cases
      case smaller
      have "mode_area m \<le> mode_area m' \<and>
          \<not> (m_width m' = m_width m \<and> m_height m' = m_height m)"
        if "m' \<in> M" "candidate outs low high m'" for m'
        using old(3) [OF that] smaller by auto
      then show ?thesis using True by (auto simp: best_so_far_def)
    next
      case same
      have "mode_area m \<le> mode_area m' \<and>
          (m_width m' = m_width m \<and> m_height m' = m_height m \<longrightarrow> m_id m \<le> m_id m')"
        if "m' \<in> M" "candidate outs low high m'" for m'
        using old(3) [OF that] old(4) [OF that] same by auto
      then show ?thesis using True by (auto simp: best_so_far_def)
    qed
  next
    case False
    then show ?thesis using assms Some by (auto simp: best_so_far_def better_def not_less)
  qed
qed

lemma select_loop_best:
  "best_so_far outs low high M b \<Longrightarrow>
   best_so_far outs low high (M \<union> set ms) (select_loop outs low high b ms)"
proof (induction ms arbitrary: b M)
  case Nil
  then show ?case by simp
next
  case (Cons m ms)
  from Cons.IH [OF best_so_far_step [OF Cons.prems, of m]] show ?case by simp
qed

lemma select_best:
  assumes "caps_valid c" "outs \<noteq> []" "int (length outs) \<le> maxStreams c"
    "high = 0 \<or> (low, high) \<in> fpsRanges c" "list_all (advertised c) outs"
    "jpeg_count outs \<le> 1" "int (length outs) - int (jpeg_count outs) \<le> 2"
  shows "best_so_far outs low high (set (modes c)) (select c outs low high)"
proof -
  have "best_so_far outs low high {} None" by (simp add: best_so_far_def)
  from select_loop_best [OF this, of "modes c"] show ?thesis
    using assms by (auto simp: select_def)
qed

lemma select_SomeD:
  assumes "select c outs low high = Some m"
  shows "caps_valid c" "outs \<noteq> []" "int (length outs) \<le> maxStreams c"
    "high = 0 \<or> (low, high) \<in> fpsRanges c" "list_all (advertised c) outs"
    "jpeg_count outs \<le> 1" "int (length outs) - int (jpeg_count outs) \<le> 2"
    "m \<in> set (modes c)" "candidate outs low high m"
proof -
  show pre: "caps_valid c" "outs \<noteq> []" "int (length outs) \<le> maxStreams c"
    "high = 0 \<or> (low, high) \<in> fpsRanges c" "list_all (advertised c) outs"
    "jpeg_count outs \<le> 1" "int (length outs) - int (jpeg_count outs) \<le> 2"
    using assms by (auto simp: select_def split: if_splits)
  from select_best [OF pre] show "m \<in> set (modes c)" "candidate outs low high m"
    using assms by (auto simp: best_so_far_def)
qed

lemma select_mode_ok: "select c outs low high = Some m \<Longrightarrow> mode_ok m"
  using select_SomeD(1,8) caps_validD(5) by blast

text \<open>
  C10: the selected mode is one of the declared modes, serves every requested
  output (declared format, no upscale, and a smaller size only where the mode allows
  downscaling at the same aspect ratio), and is a smallest such mode; among modes of its
  size it has the smallest id.
\<close>

theorem select_minimal:
  assumes "select c outs low high = Some m"
  shows "m \<in> set (modes c) \<and>
    (\<forall>x \<in> set outs. o_format x \<in> set (m_formats m) \<and> o_width x \<le> m_width m \<and>
       o_height x \<le> m_height m \<and>
       (o_width x = m_width m \<and> o_height x = m_height m \<or>
        m_downscale m \<and> o_width x * m_height m = o_height x * m_width m)) \<and>
    (\<forall>m' \<in> set (modes c). candidate outs low high m' \<longrightarrow> mode_area m \<le> mode_area m' \<and>
       (m_width m' = m_width m \<and> m_height m' = m_height m \<longrightarrow> m_id m \<le> m_id m'))"
  using select_best [OF select_SomeD(1-7) [OF assms]] assms
  by (auto simp: best_so_far_def candidate_def list_all_iff output_fits_def)

theorem select_minimal_witness:
  "select diagnostic [\<lparr>o_format = 0x23, o_width = 640, o_height = 480\<rparr>] 0 0 = Some (modes diagnostic ! 3)
   \<and> modes diagnostic ! 3 \<in> set (modes diagnostic)"
proof -
  have run: "select diagnostic [\<lparr>o_format = 0x23, o_width = 640, o_height = 480\<rparr>] 0 0 =
      Some (modes diagnostic ! 3)"
    by (simp add: select_def diagnostic_def caps_valid_def advertised_def jpeg_count_def
        candidate_def rate_skipped_def output_fits_def better_def)
  show ?thesis using select_minimal [OF run] run by blast
qed

text \<open>
  Whenever the guards admit the request and some declared mode can serve all
  outputs at the requested rates, a mode is selected; otherwise none is.
\<close>

theorem select_complete:
  "(select c outs low high = None) =
     (\<not> caps_valid c \<or> outs = [] \<or> maxStreams c < int (length outs) \<or>
      high \<noteq> 0 \<and> (low, high) \<notin> fpsRanges c \<or> \<not> list_all (advertised c) outs \<or>
      1 < jpeg_count outs \<or> 2 < int (length outs) - int (jpeg_count outs) \<or>
      (\<forall>m \<in> set (modes c). \<not> candidate outs low high m))" (is "_ = ?rejected")
proof
  assume none: "select c outs low high = None"
  show ?rejected
  proof (rule ccontr)
    assume "\<not> ?rejected"
    then show False
      using none select_best [of c outs high low] by (auto simp: best_so_far_def not_less)
  qed
next
  assume rejected: ?rejected
  show "select c outs low high = None"
  proof (cases "select c outs low high")
    case (Some m)
    from select_SomeD [OF this] rejected show ?thesis by auto
  qed
qed

text \<open>No mode of the diagnostic producer serves two JPEG outputs.\<close>

theorem select_complete_witness:
  "select diagnostic [\<lparr>o_format = 33, o_width = 640, o_height = 480\<rparr>,
     \<lparr>o_format = 33, o_width = 640, o_height = 480\<rparr>] 0 0 = None"
  using select_complete [of diagnostic "[\<lparr>o_format = 33, o_width = 640, o_height = 480\<rparr>,
     \<lparr>o_format = 33, o_width = 640, o_height = 480\<rparr>]" 0 0]
  by (simp add: jpeg_count_def)

text \<open>
  With a requested frame-rate range the selected mode overlaps it, and the rate
  the session then adopts, the smaller of the requested maximum and the mode's maximum,
  lies in both ranges.
\<close>

theorem selected_rate:
  assumes "select c outs low high = Some m" and "high \<noteq> 0"
  shows "1 \<le> low \<and> low \<le> min high (m_maxFps m) \<and> m_minFps m \<le> min high (m_maxFps m) \<and>
    min high (m_maxFps m) \<le> 120"
  using select_SomeD(9) [OF assms(1)] select_mode_ok [OF assms(1)] assms(2)
  by (auto simp: candidate_def rate_skipped_def mode_ok_def min_def)

theorem selected_rate_witness:
  "select diagnostic [\<lparr>o_format = 1, o_width = 1280, o_height = 720\<rparr>] 30 60 = Some (modes diagnostic ! 2)
   \<and> m_minFps (modes diagnostic ! 2) \<le> min 60 (m_maxFps (modes diagnostic ! 2))"
proof -
  have rng: "(30, 60) \<in> fpsRanges diagnostic"
    by (simp add: fpsRanges_def diagnostic_def mode_ranges_def)
  have run: "select diagnostic [\<lparr>o_format = 1, o_width = 1280, o_height = 720\<rparr>] 30 60 =
      Some (modes diagnostic ! 2)"
    using rng by (simp add: select_def diagnostic_def caps_valid_def advertised_def jpeg_count_def
        candidate_def rate_skipped_def output_fits_def better_def)
  show ?thesis using selected_rate [OF run] run by simp
qed

lemma fpsRanges_ordered:
  assumes "caps_valid c" and "(l, h) \<in> fpsRanges c"
  shows "1 \<le> l \<and> l \<le> h \<and> h \<le> 120"
proof -
  have ok: "1 \<le> m_minFps m \<and> m_minFps m \<le> m_maxFps m \<and> m_maxFps m \<le> 120"
    if "m \<in> set (modes c)" for m
    using caps_validD(5) [OF assms(1) that] by (simp add: mode_ok_def)
  from assms(2) consider "(l, h) = defaultRange c"
    | m where "m \<in> set (modes c)" "(l, h) \<in> mode_ranges m"
    by (auto simp: fpsRanges_eq)
  then show ?thesis
  proof cases
    case 1
    then show ?thesis using defaultRange_bounds [OF assms(1)] by (metis fst_conv snd_conv)
  next
    case 2
    then show ?thesis using ok [OF 2(1)] by (auto simp: mode_ranges_def split: if_splits)
  qed
qed

text \<open>
  Every advertised frame-rate range of a validated producer is a
  proper range within 1..120 frames per second, and the default range of the request
  templates is one of the advertised ranges.
\<close>

theorem advertised_ranges_bounded:
  assumes "caps_valid c"
  shows "defaultRange c \<in> fpsRanges c \<and>
    (\<forall>(l, h) \<in> fpsRanges c. 1 \<le> l \<and> l \<le> h \<and> h \<le> 120)"
proof -
  have "defaultRange c \<in> fpsRanges c" by (simp add: fpsRanges_eq)
  then show ?thesis using fpsRanges_ordered [OF assms] by blast
qed

lemma diagnostic_valid [simp]: "caps_valid diagnostic"
  by (simp add: caps_valid_def diagnostic_def)

theorem advertised_ranges_bounded_witness:
  "caps_valid diagnostic \<and> defaultRange diagnostic \<in> fpsRanges diagnostic \<and>
   defaultRange diagnostic = (30, 30)"
  using advertised_ranges_bounded [OF diagnostic_valid] diagnostic_valid
  by (simp add: defaultRange_def diagnostic_def std_clamp_def)

end
