(* ===== verification/Provider.thy ===== *)
theory Provider
  imports Slots
begin

text \<open>
  \<open>hal/aidl-v1/VirtualCameraProvider.{h,cpp}\<close>: which virtual cameras exist. The stable
  (VINTF) build is modelled: it starts no socket sources and no availability bridge, and
  presence is driven by the stable HAL through \<open>setSlotPresent\<close>. Calls to the framework
  are returned as a list of events, in the order they are made.
\<close>

section \<open>State and operations\<close>

record provider =
  p_callback :: "nat option"
  mProducerPresent :: bool
  mSlotPresent :: "int \<Rightarrow> bool"

datatype device_status = PRESENT | NOT_PRESENT

datatype provider_event = CameraDeviceStatusChange nat string device_status

text \<open>The constructor in the stable build: every camera is hidden.\<close>

definition provider_init :: provider where
  "provider_init = \<lparr>p_callback = None, mProducerPresent = False, mSlotPresent = (\<lambda>_. False)\<rparr>"

definition provider_setCallback :: "nat option \<Rightarrow> provider \<Rightarrow> camera_status \<times> provider" where
  "provider_setCallback callback p = (case callback of
       None \<Rightarrow> (ILLEGAL_ARGUMENT, p)
     | Some cb \<Rightarrow> (CS_OK, p\<lparr>p_callback := Some cb\<rparr>))"

definition getCameraIdList :: "provider \<Rightarrow> string list" where
  "getCameraIdList p = map deviceIdForSlot (filter (mSlotPresent p) [0..kMaxVirtualCameras - 1])"

definition setSlotPresent :: "int \<Rightarrow> bool \<Rightarrow> provider \<Rightarrow> provider \<times> provider_event list" where
  "setSlotPresent slot present p =
     (if \<not> validSlot slot then (p, [])
      else
        let prev = mSlotPresent p slot;
            p1 = p\<lparr>mSlotPresent := (mSlotPresent p)(slot := present)\<rparr>;
            p2 = (if slot = 0 then p1\<lparr>mProducerPresent := present\<rparr> else p1) in
        if prev = present then (p2, [])
        else (p2, case p_callback p2 of
            None \<Rightarrow> []
          | Some cb \<Rightarrow> [CameraDeviceStatusChange cb (deviceIdForSlot slot)
                          (if present then PRESENT else NOT_PRESENT)]))"

definition setProducerPresent :: "bool \<Rightarrow> provider \<Rightarrow> provider \<times> provider_event list" where
  "setProducerPresent present p = setSlotPresent 0 present p"

definition notifyDeviceStateChange :: "int \<Rightarrow> provider \<Rightarrow> camera_status \<times> provider" where
  "notifyDeviceStateChange deviceState p = (CS_OK, p)"

text \<open>The lists and flags returned through the out-parameters.\<close>

definition getConcurrentCameraIds :: "provider \<Rightarrow> camera_status \<times> string list list" where
  "getConcurrentCameraIds p = (CS_OK, [])"

definition isConcurrentStreamCombinationSupported :: "provider \<Rightarrow> camera_status \<times> bool" where
  "isConcurrentStreamCombinationSupported p = (CS_OK, False)"

text \<open>A sequence of presence updates, with the events it sends.\<close>

fun presence_run :: "(int \<times> bool) list \<Rightarrow> provider \<Rightarrow> provider \<times> provider_event list" where
  "presence_run [] p = (p, [])"
| "presence_run ((slot, present) # us) p =
     (let (p1, es) = setSlotPresent slot present p; (p2, es') = presence_run us p1 in (p2, es @ es'))"

section \<open>The framework's view\<close>

text \<open>
  What camera service knows: the set of ids it was told are present. A well-formed stream
  never announces a camera that is already there and never removes one that is not.
\<close>

fun framework_view :: "provider_event list \<Rightarrow> string set \<Rightarrow> string set" where
  "framework_view [] known = known"
| "framework_view (CameraDeviceStatusChange cb i PRESENT # es) known = framework_view es (insert i known)"
| "framework_view (CameraDeviceStatusChange cb i NOT_PRESENT # es) known = framework_view es (known - {i})"

fun well_formed :: "provider_event list \<Rightarrow> string set \<Rightarrow> bool" where
  "well_formed [] known = True"
| "well_formed (CameraDeviceStatusChange cb i PRESENT # es) known =
     (i \<notin> known \<and> well_formed es (insert i known))"
| "well_formed (CameraDeviceStatusChange cb i NOT_PRESENT # es) known =
     (i \<in> known \<and> well_formed es (known - {i}))"

definition present_ids :: "provider \<Rightarrow> string set" where
  "present_ids p = deviceIdForSlot ` {s. validSlot s \<and> mSlotPresent p s}"

lemma deviceIdForSlot_inj:
  assumes "validSlot s" "validSlot t" "deviceIdForSlot s = deviceIdForSlot t"
  shows "s = t"
proof -
  have rt: "slotForDeviceId (deviceIdForSlot u) = Inr u" if v: "validSlot u" for u
  proof -
    have "0 \<le> kFirstVirtualCameraNumber + u" "kFirstVirtualCameraNumber + u \<le> INT32_MAX"
      using v by (simp_all add: validSlot_def kFirstVirtualCameraNumber_def kMaxVirtualCameras_def
          INT32_MAX_def)
    from slotForDeviceId_deviceIdForSlot [OF this] v show ?thesis by simp
  qed
  have "(Inr s :: cxx_exception + int) = Inr t"
    using rt [OF assms(1)] rt [OF assms(2)] unfolding assms(3) by (rule subst)
  then show ?thesis by simp
qed

lemma set_getCameraIdList: "set (getCameraIdList p) = present_ids p"
  by (auto simp: getCameraIdList_def present_ids_def validSlot_def)

lemma framework_view_append:
  "framework_view (es @ es') known = framework_view es' (framework_view es known)"
  by (induction es known rule: framework_view.induct) auto

lemma well_formed_append:
  "well_formed (es @ es') known = (well_formed es known \<and> well_formed es' (framework_view es known))"
  by (induction es known rule: framework_view.induct) auto

lemma setSlotPresent_callback: "p_callback (fst (setSlotPresent slot present p)) = p_callback p"
  by (simp add: setSlotPresent_def Let_def)

lemma present_ids_update:
  assumes "validSlot slot"
  shows "present_ids (p\<lparr>mSlotPresent := (mSlotPresent p)(slot := b)\<rparr>) =
    (if b then insert (deviceIdForSlot slot) (present_ids p)
     else present_ids p - {deviceIdForSlot slot})"
  using assms deviceIdForSlot_inj by (auto simp: present_ids_def image_iff split: if_splits)

lemma present_ids_mem: "validSlot s \<Longrightarrow> deviceIdForSlot s \<in> present_ids p \<longleftrightarrow> mSlotPresent p s"
  using deviceIdForSlot_inj by (auto simp: present_ids_def)

lemma setSlotPresent_view:
  assumes cb: "p_callback p = Some cb" and run: "setSlotPresent slot present p = (p', es)"
  shows "framework_view es (present_ids p) = present_ids p' \<and> well_formed es (present_ids p)"
proof (cases "validSlot slot")
  case False
  then show ?thesis using run by (simp add: setSlotPresent_def)
next
  case True
  have ids: "present_ids p' = present_ids (p\<lparr>mSlotPresent := (mSlotPresent p)(slot := present)\<rparr>)"
    using run True by (auto simp: setSlotPresent_def present_ids_def Let_def split: if_splits)
  show ?thesis
  proof (cases "mSlotPresent p slot = present")
    case same: True
    then have "es = []" using run True by (auto simp: setSlotPresent_def Let_def)
    moreover have "present_ids p' = present_ids p"
      using ids same by (simp add: fun_upd_idem)
    ultimately show ?thesis by simp
  next
    case False
    have es: "es = [CameraDeviceStatusChange cb (deviceIdForSlot slot)
        (if present then PRESENT else NOT_PRESENT)]"
      using run True False cb by (auto simp: setSlotPresent_def Let_def split: if_splits)
    then show ?thesis
      using ids False present_ids_update [OF True] present_ids_mem [OF True, of p]
      by (cases present) simp_all
  qed
qed

text \<open>
  C11: for any sequence of presence updates, the events sent to camera
  service never repeat an announcement or a removal, and replaying them gives exactly the
  cameras that \<open>getCameraIdList\<close> then reports.
\<close>

theorem framework_tracks_presence:
  assumes "p_callback p = Some cb" and "presence_run us p = (p', es)"
  shows "framework_view es (set (getCameraIdList p)) = set (getCameraIdList p') \<and>
    well_formed es (set (getCameraIdList p))"
  using assms
proof (induction us arbitrary: p es)
  case Nil
  then show ?case by simp
next
  case (Cons u us)
  obtain slot present where u: "u = (slot, present)" by fastforce
  obtain p1 es1 where one: "setSlotPresent slot present p = (p1, es1)" by fastforce
  obtain es2 where rest: "presence_run us p1 = (p', es2)" "es = es1 @ es2"
    using Cons.prems(2) u one by (auto split: prod.splits)
  have cb1: "p_callback p1 = Some cb"
    using setSlotPresent_callback [of slot present p] one Cons.prems(1) by simp
  show ?case
    using Cons.IH [OF cb1 rest(1)] setSlotPresent_view [OF Cons.prems(1) one] rest(2)
    by (simp add: set_getCameraIdList framework_view_append well_formed_append)
qed

theorem framework_tracks_presence_witness:
  "\<exists>p' es. presence_run [(0, True), (2, True), (2, True), (7, True), (0, False)]
       (provider_init\<lparr>p_callback := Some 1\<rparr>) = (p', es) \<and>
     getCameraIdList p' = [deviceIdForSlot 2] \<and> length es = 3 \<and>
     framework_view es {} = {deviceIdForSlot 2}"
proof -
  let ?us = "[(0, True), (2, True), (2, True), (7, True), (0, False)]"
  let ?p = "provider_init\<lparr>p_callback := Some 1\<rparr>"
  have range: "[0..3] = [0, 1, 2, 3 :: int]" by code_simp
  obtain p' es where run: "presence_run ?us ?p = (p', es)" by fastforce
  then have "getCameraIdList p' = [deviceIdForSlot 2]" "length es = 3"
    by (auto simp: setSlotPresent_def provider_init_def validSlot_def kMaxVirtualCameras_def
        getCameraIdList_def range)
  moreover have "getCameraIdList ?p = []"
    by (simp add: getCameraIdList_def provider_init_def)
  ultimately show ?thesis
    using framework_tracks_presence [of ?p 1, OF _ run] run by auto
qed

lemma getCameraIdList_distinct: "distinct (getCameraIdList p)"
proof -
  have "inj_on deviceIdForSlot (set (filter (mSlotPresent p) [0..kMaxVirtualCameras - 1]))"
    by (rule inj_onI, rule deviceIdForSlot_inj) (auto simp: validSlot_def)
  then show ?thesis by (simp add: getCameraIdList_def distinct_map)
qed

end
