(* ===== verification/Stable_Hal.thy ===== *)
theory Stable_Hal
  imports Read_Fences Producer_Caps Provider
begin

text \<open>
  \<open>hal/aidl-v1/VirtualCameraStableHal.{h,cpp}\<close>: the vendor endpoint of the stable AIDL
  boundary. One record holds the fields of the class; each method is one definition that
  takes the state and the world and returns them changed, with the calls it makes on the
  platform callback and on the camera provider as lists of events.

  Concurrency. Every method body runs under \<open>mLock\<close>, so a method is one atomic step,
  with one exception: \<open>enqueue\<close> gives the lock up while it waits for readers
  (\<open>mCv.wait_for\<close>). What other threads do during that wait is the parameter
  \<open>intf\<close> of \<open>enqueue\<close>. The presence updates of \<open>setCallback\<close>, \<open>registerProducer\<close> and
  \<open>removeProducer\<close> come after \<open>mLock\<close> is given up but still under \<open>mPresenceLock\<close>, which
  the three methods hold throughout; no other method reads or writes presence, so running
  them as part of the same step loses no behaviour. Callbacks made after the unlock touch
  no field that \<open>mLock\<close> protects.
\<close>

section \<open>State\<close>

type_synonym ahb = nat

record frame =
  f_ahb :: "ahb option"
  f_timestampNs :: int
  f_sequence :: "64 word"
  f_configurationToken :: int
  f_acquireFence :: int
  f_readFences :: "int list"
  f_inflight :: int
  f_retiring :: bool

definition empty_frame :: frame where
  "empty_frame = \<lparr>f_ahb = None, f_timestampNs = 0, f_sequence = 0, f_configurationToken = 0,
     f_acquireFence = -1, f_readFences = [], f_inflight = 0, f_retiring = False\<rparr>"

text \<open>
  The platform callback: the identity of its binder and what \<open>getInterfaceVersion\<close>
  answers (\<open>None\<close> when that call fails).
\<close>

record hal_callback =
  cb_binder :: nat
  cb_version :: "int option"

record hal =
  mProvider :: "provider option"
  mCallback :: "hal_callback option"
  mCallbackVersion :: int
  mLatest :: "int \<Rightarrow> frame"
  mFramesReceived :: "64 word"
  mNextIdentity :: int
  mSessionOwners :: "int \<Rightarrow> int"
  mConfigurations :: "int \<Rightarrow> int"
  mOwnerClosed :: "int \<Rightarrow> bool"
  mCapabilities :: "int \<Rightarrow> ProducerCapabilities option"
  mReady :: "int \<Rightarrow> bool"
  mSourceWidths :: "int \<Rightarrow> int"
  mSourceHeights :: "int \<Rightarrow> int"

definition hal_init :: "provider option \<Rightarrow> hal" where
  "hal_init p = \<lparr>mProvider = p, mCallback = None, mCallbackVersion = 0,
     mLatest = (\<lambda>_. empty_frame), mFramesReceived = 0, mNextIdentity = 0,
     mSessionOwners = (\<lambda>_. 0), mConfigurations = (\<lambda>_. 0), mOwnerClosed = (\<lambda>_. False),
     mCapabilities = (\<lambda>_. None), mReady = (\<lambda>_. False),
     mSourceWidths = (\<lambda>_. 0), mSourceHeights = (\<lambda>_. 0)\<rparr>"

text \<open>
  \<open>VirtualCameraStableHal::init\<close>: the instance is published only when the service
  manager accepts it (\<open>registered\<close>, the result of \<open>AServiceManager_addService\<close>).
\<close>

definition stable_hal_init :: "hal option \<Rightarrow> provider option \<Rightarrow> bool \<Rightarrow> bool \<times> hal option" where
  "stable_hal_init instance_opt p registered = (case instance_opt of
       Some h \<Rightarrow> (True, Some h)
     | None \<Rightarrow> if registered then (True, Some (hal_init p)) else (False, None))"

text \<open>Calls made on the registered platform callback.\<close>

datatype hal_call =
    OnStreamsConfiguredForProducer int int int int int int
  | OnStreamsConfiguredForConfiguration int int int int int
  | OnCameraClosedForProducer int int int
  | OnCameraClosedForConfiguration int int

text \<open>
  Graphics services outside the HAL: reference counts of an \<open>AHardwareBuffer\<close>, and
  importing a buffer from a parcelled native handle.
\<close>

record frame_msg =
  q_buffer :: nat
  q_width :: int
  q_height :: int
  q_stride :: int
  q_format :: int
  q_usage :: int
  q_timestampNs :: int

record 'w gfx =
  gfx_acquire :: "ahb \<Rightarrow> 'w \<Rightarrow> 'w"
  gfx_release :: "ahb \<Rightarrow> 'w \<Rightarrow> 'w"
  gfx_dupFromAidl :: "nat \<Rightarrow> 'w \<Rightarrow> nat option \<times> 'w"
  gfx_createFromHandle :: "frame_msg \<Rightarrow> nat \<Rightarrow> 'w \<Rightarrow> int \<times> ahb option \<times> 'w"
  gfx_closeHandle :: "nat \<Rightarrow> 'w \<Rightarrow> 'w"

definition kMaxPendingReads :: int where
  "kMaxPendingReads = 16"

abbreviation set_frame :: "hal \<Rightarrow> int \<Rightarrow> frame \<Rightarrow> hal" where
  "set_frame h slot f \<equiv> h\<lparr>mLatest := (mLatest h)(slot := f)\<rparr>"

section \<open>Retiring a frame\<close>

definition closeFd :: "'w sys \<Rightarrow> int \<Rightarrow> 'w \<Rightarrow> 'w" where
  "closeFd S fd w = (if 0 \<le> fd then sys_close S fd w else w)"

definition release_opt :: "'w gfx \<Rightarrow> ahb option \<Rightarrow> 'w \<Rightarrow> 'w" where
  "release_opt G a w = (case a of None \<Rightarrow> w | Some x \<Rightarrow> gfx_release G x w)"

definition reapRetiringLocked ::
  "'w sys \<Rightarrow> 'w gfx \<Rightarrow> int \<Rightarrow> hal \<Rightarrow> 'w \<Rightarrow> bool \<times> hal \<times> 'w" where
  "reapRetiringLocked S G slot h w =
     (let cur = mLatest h slot in
      if \<not> f_retiring cur then (True, h, w)
      else
        let (ready, fences, w1) = retiredFrameReady S (f_inflight cur) (f_readFences cur) w in
        if \<not> ready then (False, set_frame h slot (cur\<lparr>f_readFences := fences\<rparr>), w1)
        else
          let w2 = release_opt G (f_ahb cur) w1;
              w3 = closeFd S (f_acquireFence cur) w2 in
          (True, set_frame h slot empty_frame, w3))"

definition dropLatestLocked :: "'w sys \<Rightarrow> 'w gfx \<Rightarrow> int \<Rightarrow> hal \<Rightarrow> 'w \<Rightarrow> hal \<times> 'w" where
  "dropLatestLocked S G slot h w =
     snd (reapRetiringLocked S G slot (set_frame h slot ((mLatest h slot)\<lparr>f_retiring := True\<rparr>)) w)"

section \<open>Registration\<close>

text \<open>The body of the loop over the slots in \<open>setCallback\<close> when the callback is replaced.\<close>

definition invalidate_slot :: "'w sys \<Rightarrow> 'w gfx \<Rightarrow> int \<Rightarrow> hal \<times> 'w \<Rightarrow> hal \<times> 'w" where
  "invalidate_slot S G slot hw =
     (let (h, w) = hw;
          h1 = h\<lparr>mConfigurations := (mConfigurations h)(slot := 0),
                 mOwnerClosed := (mOwnerClosed h)(slot := True),
                 mReady := (mReady h)(slot := False),
                 mCapabilities := (mCapabilities h)(slot := None)\<rparr>;
          (h2, w1) = dropLatestLocked S G slot h1 w in
      (if mNextIdentity h2 < INT64_MAX
       then h2\<lparr>mNextIdentity := mNextIdentity h2 + 1,
               mSessionOwners := (mSessionOwners h2)(slot := mNextIdentity h2 + 1)\<rparr>
       else h2, w1))"

definition all_slots :: "int list" where
  "all_slots = [0..kMaxVirtualCameras - 1]"

text \<open>\<open>mProvider->setSlotPresent(slot, present)\<close> when there is a provider.\<close>

definition hal_setSlotPresent :: "int \<Rightarrow> bool \<Rightarrow> hal \<Rightarrow> hal \<times> provider_event list" where
  "hal_setSlotPresent slot present h = (case mProvider h of
       None \<Rightarrow> (h, [])
     | Some p \<Rightarrow> let (p', es) = setSlotPresent slot present p in (h\<lparr>mProvider := Some p'\<rparr>, es))"

fun hide_slots :: "int list \<Rightarrow> hal \<Rightarrow> hal \<times> provider_event list" where
  "hide_slots [] h = (h, [])"
| "hide_slots (slot # slots) h =
     (let (h1, es) = hal_setSlotPresent slot False h; (h2, es') = hide_slots slots h1 in (h2, es @ es'))"

definition callback_version :: "hal_callback option \<Rightarrow> int" where
  "callback_version callback = (case callback of None \<Rightarrow> 0
     | Some cb \<Rightarrow> (case cb_version cb of None \<Rightarrow> 1 | Some v \<Rightarrow> v))"

definition callback_replaced :: "hal_callback option \<Rightarrow> hal \<Rightarrow> bool" where
  "callback_replaced callback h = (case mCallback h of None \<Rightarrow> False
     | Some old \<Rightarrow> map_option cb_binder callback \<noteq> Some (cb_binder old))"

definition hal_setCallback ::
  "'w sys \<Rightarrow> 'w gfx \<Rightarrow> hal_callback option \<Rightarrow> hal \<Rightarrow> 'w \<Rightarrow> status \<times> hal \<times> 'w \<times> provider_event list" where
  "hal_setCallback S G callback h w =
     (let ver = callback_version callback in
      if callback \<noteq> None \<and> ver < 6 then (ServiceSpecific 7, h, w, [])
      else
        let replaced = callback_replaced callback h;
            (h1, w1) = (if replaced then fold (invalidate_slot S G) all_slots (h, w) else (h, w));
            h2 = h1\<lparr>mCallback := callback, mCallbackVersion := ver\<rparr>;
            (h3, es) = (if replaced \<and> mProvider h2 \<noteq> None then hide_slots all_slots h2 else (h2, [])) in
        (Ok, h3, w1, es))"

definition hal_capabilities :: "int \<Rightarrow> hal \<Rightarrow> ProducerCapabilities option" where
  "hal_capabilities slot h = (if validSlot slot then mCapabilities h slot else None)"

definition registrationCurrent :: "int \<Rightarrow> int \<Rightarrow> hal \<Rightarrow> bool" where
  "registrationCurrent slot reg h = (case hal_capabilities slot h of
       None \<Rightarrow> False | Some c \<Rightarrow> registration c = reg)"

text \<open>The parcelable \<open>ProducerDescriptor\<close> and its conversion.\<close>

record AidlProducerMode =
  d_id :: int
  d_width :: int
  d_height :: int
  d_minFps :: int
  d_maxFps :: int
  d_outputFormats :: "int list"
  d_allowDownscale :: bool

record ProducerDescriptor =
  d_registration :: int
  d_facing :: int
  d_orientation :: int
  d_maxOutputStreams :: int
  d_modes :: "AidlProducerMode list"

definition mode_of_aidl :: "AidlProducerMode \<Rightarrow> ProducerMode" where
  "mode_of_aidl m = \<lparr>m_id = d_id m, m_width = d_width m, m_height = d_height m,
     m_minFps = d_minFps m, m_maxFps = d_maxFps m, m_formats = d_outputFormats m,
     m_downscale = d_allowDownscale m\<rparr>"

definition caps_of_descriptor :: "ProducerDescriptor \<Rightarrow> ProducerCapabilities" where
  "caps_of_descriptor d = \<lparr>registration = d_registration d, facing = d_facing d,
     orientation = d_orientation d, maxStreams = d_maxOutputStreams d,
     modes = map mode_of_aidl (d_modes d)\<rparr>"

definition callback_is :: "hal_callback option \<Rightarrow> hal_callback \<Rightarrow> bool" where
  "callback_is cb owner = (case cb of None \<Rightarrow> False | Some c \<Rightarrow> cb_binder c = cb_binder owner)"

definition registerProducer ::
  "int \<Rightarrow> ProducerDescriptor \<Rightarrow> hal_callback option \<Rightarrow> hal \<Rightarrow> status \<times> hal \<times> provider_event list" where
  "registerProducer slot d owner h =
     (let c = caps_of_descriptor d in
      case owner of
        None \<Rightarrow> (ServiceSpecific 8, h, [])
      | Some own \<Rightarrow>
        if \<not> validSlot slot \<or> \<not> caps_valid c then (ServiceSpecific 8, h, [])
        else if \<not> callback_is (mCallback h) own \<or> mCapabilities h slot \<noteq> None
          then (ServiceSpecific 8, h, [])
        else
          let h1 = h\<lparr>mCapabilities := (mCapabilities h)(slot := Some c),
                     mReady := (mReady h)(slot := False),
                     mConfigurations := (mConfigurations h)(slot := 0)\<rparr>;
              (h2, es) = hal_setSlotPresent slot True h1 in
          (Ok, h2, es))"

definition removeProducer ::
  "'w sys \<Rightarrow> 'w gfx \<Rightarrow> int \<Rightarrow> int \<Rightarrow> hal_callback option \<Rightarrow> hal \<Rightarrow> 'w \<Rightarrow>
    status \<times> hal \<times> 'w \<times> provider_event list" where
  "removeProducer S G slot reg owner h w =
     (case owner of
        None \<Rightarrow> (ServiceSpecific 8, h, w, [])
      | Some own \<Rightarrow>
        if \<not> validSlot slot then (ServiceSpecific 8, h, w, [])
        else if \<not> callback_is (mCallback h) own \<or>
            map_option registration (mCapabilities h slot) \<noteq> Some reg
          then (ServiceSpecific 8, h, w, [])
        else
          let (h1, w1) = invalidate_slot S G slot (h, w);
              (h2, es) = hal_setSlotPresent slot False h1 in
          (Ok, h2, w1, es))"

definition setConfigurationReady ::
  "'w sys \<Rightarrow> 'w gfx \<Rightarrow> int \<Rightarrow> int \<Rightarrow> bool \<Rightarrow> hal \<Rightarrow> 'w \<Rightarrow> status \<times> hal \<times> 'w" where
  "setConfigurationReady S G slot token ready h w =
     (if \<not> validSlot slot \<or> token \<le> 0 \<or> mConfigurations h slot \<noteq> token \<or>
         mCapabilities h slot = None \<or> mOwnerClosed h slot
      then (ServiceSpecific 8, h, w)
      else
        let h1 = h\<lparr>mReady := (mReady h)(slot := ready)\<rparr> in
        if ready then (Ok, h1, w)
        else
          let (h2, w1) = dropLatestLocked S G slot
                (h1\<lparr>mConfigurations := (mConfigurations h1)(slot := 0)\<rparr>) w in
          (Ok, h2, w1))"

definition getMaxCameras :: "status \<times> int" where
  "getMaxCameras = (Ok, kMaxVirtualCameras)"

definition setCameraPresent ::
  "'w sys \<Rightarrow> 'w gfx \<Rightarrow> int \<Rightarrow> bool \<Rightarrow> hal \<Rightarrow> 'w \<Rightarrow> status \<times> hal \<times> 'w \<times> provider_event list" where
  "setCameraPresent S G slot present h w =
     (if \<not> validSlot slot then (ServiceSpecific 3, h, w, [])
      else if mProvider h \<noteq> None then (ServiceSpecific 8, h, w, [])
      else
        let (h1, w1) =
          (if present then (h, w)
           else
             let h0 = h\<lparr>mConfigurations := (mConfigurations h)(slot := 0),
                        mReady := (mReady h)(slot := False),
                        mOwnerClosed := (mOwnerClosed h)(slot := True)\<rparr>;
                 h0' = (if 0 < mSessionOwners h0 slot \<and> mNextIdentity h0 < INT64_MAX
                   then h0\<lparr>mNextIdentity := mNextIdentity h0 + 1,
                           mSessionOwners := (mSessionOwners h0)(slot := mNextIdentity h0 + 1)\<rparr>
                   else h0) in
             dropLatestLocked S G slot h0' w);
            (h2, es) = hal_setSlotPresent slot present h1 in
        (Ok, h2, w1, es))"

definition setProducerAvailable ::
  "'w sys \<Rightarrow> 'w gfx \<Rightarrow> bool \<Rightarrow> hal \<Rightarrow> 'w \<Rightarrow> status \<times> hal \<times> 'w \<times> provider_event list" where
  "setProducerAvailable S G available h w = setCameraPresent S G 0 available h w"

section \<open>Frame delivery\<close>

text \<open>
  The guard \<open>admitted\<close> of \<open>enqueue\<close>, evaluated before and after the wait.
\<close>

definition admitted :: "int \<Rightarrow> frame_msg \<Rightarrow> int \<Rightarrow> hal \<Rightarrow> bool" where
  "admitted slot q token h =
     (if 0 < token
      then mConfigurations h slot = token \<and>
        (mCapabilities h slot = None \<or>
         (mReady h slot \<and> q_width q = mSourceWidths h slot \<and> q_height q = mSourceHeights h slot \<and>
          q_format q = 1))
      else mSessionOwners h slot = 0 \<and> mProvider h = None \<and> mCapabilities h slot = None)"

text \<open>
  Lines 268 to 295: import the parcelled handle. \<open>Inl\<close> is the error code returned
  after the acquire fence was closed.
\<close>

definition enqueue_import ::
  "'w sys \<Rightarrow> 'w gfx \<Rightarrow> frame_msg \<Rightarrow> int \<Rightarrow> 'w \<Rightarrow> (int + ahb) \<times> 'w" where
  "enqueue_import S G q acquireFenceFd w =
     (let (handle, w1) = gfx_dupFromAidl G (q_buffer q) w in
      case handle of
        None \<Rightarrow> (Inl 1, closeFd S acquireFenceFd w1)
      | Some hdl \<Rightarrow>
        let (rc, buf, w2) = gfx_createFromHandle G q hdl w1;
            w3 = gfx_closeHandle G hdl w2 in
        (case buf of
           None \<Rightarrow> (Inl 2, closeFd S acquireFenceFd w3)
         | Some a \<Rightarrow> if rc \<noteq> 0 then (Inl 2, closeFd S acquireFenceFd w3) else (Inr a, w3)))"

text \<open>
  Lines 299 to 326: the checks before the incoming frame may replace the current one. The
  first block is everything up to the wait; \<open>Wait\<close> says that readers are in flight and
  the thread gives the lock up. \<open>wait_for\<close> returns whether no reader is in flight when it
  takes the lock back.
\<close>

datatype admission = Rejected int | Wait | Clear

definition enqueue_enter ::
  "'w sys \<Rightarrow> 'w gfx \<Rightarrow> int \<Rightarrow> frame_msg \<Rightarrow> int \<Rightarrow> hal \<Rightarrow> 'w \<Rightarrow> admission \<times> hal \<times> 'w" where
  "enqueue_enter S G slot q token h w =
     (if \<not> admitted slot q token h then (Rejected 7, h, w)
      else
        let (free, h1, w1) = reapRetiringLocked S G slot h w in
        (if \<not> free then Rejected 4
         else if f_ahb (mLatest h1 slot) \<noteq> None \<and> 0 < f_inflight (mLatest h1 slot) then Wait
         else Clear, h1, w1))"

text \<open>\<open>Some code\<close> rejects the frame.\<close>

definition enqueue_admit ::
  "'w sys \<Rightarrow> 'w gfx \<Rightarrow> (hal \<times> 'w \<Rightarrow> hal \<times> 'w) \<Rightarrow> int \<Rightarrow> frame_msg \<Rightarrow> int \<Rightarrow> hal \<Rightarrow> 'w \<Rightarrow>
    int option \<times> hal \<times> 'w" where
  "enqueue_admit S G intf slot q token h w =
     (let (adm, h1, w1) = enqueue_enter S G slot q token h w in
      case adm of
        Rejected code \<Rightarrow> (Some code, h1, w1)
      | Clear \<Rightarrow> (None, h1, w1)
      | Wait \<Rightarrow>
          let (h2, w2) = intf (h1, w1) in
          if f_inflight (mLatest h2 slot) \<noteq> 0 then (Some 4, h2, w2) else (None, h2, w2))"

text \<open>
  Lines 327 to 362: the checks repeated after the wait, then the swap. The result is the
  error code or the retired frame's read fence, which the caller now owns.
\<close>

definition enqueue_commit ::
  "'w sys \<Rightarrow> 'w gfx \<Rightarrow> int \<Rightarrow> frame_msg \<Rightarrow> int \<Rightarrow> int \<Rightarrow> ahb \<Rightarrow> hal \<Rightarrow> 'w \<Rightarrow>
    (int + int) \<times> hal \<times> 'w" where
  "enqueue_commit S G slot q acquireFenceFd token a h w =
     (let reject = (\<lambda>code h w. (Inl code, h, closeFd S acquireFenceFd (gfx_release G a w))) in
      if \<not> admitted slot q token h then reject 7 h w
      else
        let (free, h1, w1) = reapRetiringLocked S G slot h w in
        if \<not> free then reject 4 h1 w1
        else
          let cur = mLatest h1 slot;
              (merged, fences, w2) = consolidateReadFences S (f_readFences cur) w1 in
          if \<not> merged then reject 6 (set_frame h1 slot (cur\<lparr>f_readFences := fences\<rparr>)) w2
          else
            let retired = (if fences = [] then -1 else last fences);
                received = mFramesReceived h1 + 1;
                new = \<lparr>f_ahb = Some a, f_timestampNs = q_timestampNs q, f_sequence = received,
                       f_configurationToken = token, f_acquireFence = acquireFenceFd,
                       f_readFences = [], f_inflight = 0, f_retiring = False\<rparr>;
                h2 = (set_frame h1 slot new)\<lparr>mFramesReceived := received\<rparr>;
                w3 = closeFd S (f_acquireFence cur) (release_opt G (f_ahb cur) w2) in
            (Inr retired, h2, w3))"

definition enqueue ::
  "'w sys \<Rightarrow> 'w gfx \<Rightarrow> (hal \<times> 'w \<Rightarrow> hal \<times> 'w) \<Rightarrow> int \<Rightarrow> frame_msg \<Rightarrow> int \<Rightarrow> int \<Rightarrow> hal \<Rightarrow> 'w \<Rightarrow>
    status \<times> int \<times> hal \<times> 'w" where
  "enqueue S G intf slot q acquireFenceFd token h w =
     (case enqueue_import S G q acquireFenceFd w of
        (Inl code, w1) \<Rightarrow> (ServiceSpecific code, -1, h, w1)
      | (Inr a, w1) \<Rightarrow>
        let (rejected, h1, w2) = enqueue_admit S G intf slot q token h w1 in
        case rejected of
          Some code \<Rightarrow> (ServiceSpecific code, -1, h1,
            closeFd S acquireFenceFd (gfx_release G a w2))
        | None \<Rightarrow>
          let (result, h2, w3) = enqueue_commit S G slot q acquireFenceFd token a h1 w2 in
          case result of
            Inl code \<Rightarrow> (ServiceSpecific code, -1, h2, w3)
          | Inr retired \<Rightarrow> (Ok, retired, h2, w3))"

definition queueFrame ::
  "'w sys \<Rightarrow> 'w gfx \<Rightarrow> (hal \<times> 'w \<Rightarrow> hal \<times> 'w) \<Rightarrow> frame_msg \<Rightarrow> hal \<Rightarrow> 'w \<Rightarrow> status \<times> hal \<times> 'w" where
  "queueFrame S G intf q h w =
     (let (st, retired, h1, w1) = enqueue S G intf 0 q (-1) 0 h w in
      (st, h1, closeFd S retired w1))"

text \<open>The \<open>int\<close> in the result is the value of the \<open>releaseFence\<close> out-parameter.\<close>

definition queueFrameFenced ::
  "'w sys \<Rightarrow> 'w gfx \<Rightarrow> (hal \<times> 'w \<Rightarrow> hal \<times> 'w) \<Rightarrow> frame_msg \<Rightarrow> int \<Rightarrow> hal \<Rightarrow> 'w \<Rightarrow>
    status \<times> int \<times> hal \<times> 'w" where
  "queueFrameFenced S G intf q acquireFence h w =
     (let (preserved, acq, w1) = duplicateAcquireFence S acquireFence w in
      if \<not> preserved then (ServiceSpecific 5, -1, h, w1)
      else enqueue S G intf 0 q acq 0 h w1)"

definition queueFrameForCamera ::
  "'w sys \<Rightarrow> 'w gfx \<Rightarrow> (hal \<times> 'w \<Rightarrow> hal \<times> 'w) \<Rightarrow> int \<Rightarrow> frame_msg \<Rightarrow> int \<Rightarrow> hal \<Rightarrow> 'w \<Rightarrow>
    status \<times> int \<times> hal \<times> 'w" where
  "queueFrameForCamera S G intf slot q acquireFence h w =
     (if \<not> validSlot slot then (ServiceSpecific 3, -1, h, w)
      else
        let (preserved, acq, w1) = duplicateAcquireFence S acquireFence w in
        if \<not> preserved then (ServiceSpecific 5, -1, h, w1)
        else enqueue S G intf slot q acq 0 h w1)"

definition queueFrameForConfiguration ::
  "'w sys \<Rightarrow> 'w gfx \<Rightarrow> (hal \<times> 'w \<Rightarrow> hal \<times> 'w) \<Rightarrow> int \<Rightarrow> int \<Rightarrow> frame_msg \<Rightarrow> int \<Rightarrow> hal \<Rightarrow> 'w \<Rightarrow>
    status \<times> int \<times> hal \<times> 'w" where
  "queueFrameForConfiguration S G intf slot token q acquireFence h w =
     (if \<not> validSlot slot \<or> token \<le> 0 then (ServiceSpecific 7, -1, h, w)
      else
        let (preserved, acq, w1) = duplicateAcquireFence S acquireFence w in
        if \<not> preserved then (ServiceSpecific 5, -1, h, w1)
        else enqueue S G intf slot q acq token h w1)"

section \<open>Hooks for the camera session\<close>

record acquired =
  a_ahb :: ahb
  a_timestampNs :: int
  a_sequence :: "64 word"

text \<open>
  \<open>acquireLatest\<close>. \<open>want_fd\<close> and \<open>want_seq\<close> say whether the pointers
  \<open>acquireFenceFd\<close> and \<open>sequence\<close> are given; the \<open>int\<close> is the value left in
  \<open>*acquireFenceFd\<close>.
\<close>

definition acquireLatest ::
  "'w sys \<Rightarrow> 'w gfx \<Rightarrow> int \<Rightarrow> bool \<Rightarrow> bool \<Rightarrow> 64 word \<Rightarrow> int \<Rightarrow> hal \<Rightarrow> 'w \<Rightarrow>
    acquired option \<times> int \<times> hal \<times> 'w" where
  "acquireLatest S G slot want_fd want_seq afterSequence token h w =
     (if \<not> validSlot slot then (None, -1, h, w)
      else
        let cur = mLatest h slot in
        if f_configurationToken cur \<noteq> token \<or> (0 < token \<and> mConfigurations h slot \<noteq> token)
          then (None, -1, h, w)
        else case f_ahb cur of
          None \<Rightarrow> (None, -1, h, w)
        | Some a \<Rightarrow>
          if f_retiring cur then (None, -1, h, w)
          else if want_seq \<and> f_sequence cur \<le> afterSequence then (None, -1, h, w)
          else
            let (merged, fences, w1) = consolidateReadFences S (f_readFences cur) w;
                cur1 = cur\<lparr>f_readFences := fences\<rparr>;
                h1 = set_frame h slot cur1 in
            if kMaxPendingReads \<le> int (length fences) + f_inflight cur1 then (None, -1, h1, w1)
            else
              let (preserved, fd, w2) =
                (if f_acquireFence cur1 < 0 then (True, -1, w1)
                 else if \<not> want_fd then (False, -1, w1)
                 else duplicateAcquireFence S (f_acquireFence cur1) w1) in
              if \<not> preserved then (None, fd, h1, w2)
              else
                (Some \<lparr>a_ahb = a, a_timestampNs = f_timestampNs cur1, a_sequence = f_sequence cur1\<rparr>,
                 fd, set_frame h1 slot (cur1\<lparr>f_inflight := f_inflight cur1 + 1\<rparr>), gfx_acquire G a w2))"

definition releaseFrame ::
  "'w sys \<Rightarrow> 'w gfx \<Rightarrow> int \<Rightarrow> ahb option \<Rightarrow> int list \<Rightarrow> hal \<Rightarrow> 'w \<Rightarrow> hal \<times> 'w" where
  "releaseFrame S G slot a readFences h w =
     (if validSlot slot \<and> f_ahb (mLatest h slot) = a then
        let cur = mLatest h slot;
            (merged, fences, w1) = consolidateReadFences S (f_readFences cur @ readFences) w;
            cur1 = cur\<lparr>f_readFences := fences,
              f_inflight := (if 0 < f_inflight cur then f_inflight cur - 1 else f_inflight cur)\<rparr>;
            h1 = set_frame h slot cur1;
            (h2, w2) = (if f_retiring cur1 then snd (reapRetiringLocked S G slot h1 w1) else (h1, w1)) in
        (h2, release_opt G a w2)
      else (h, release_opt G a (fold (closeFd S) readFences w)))"

text \<open>The overload with one fence, -1 when the read already completed on the CPU.\<close>

definition releaseFrame_fd ::
  "'w sys \<Rightarrow> 'w gfx \<Rightarrow> int \<Rightarrow> ahb option \<Rightarrow> int \<Rightarrow> hal \<Rightarrow> 'w \<Rightarrow> hal \<times> 'w" where
  "releaseFrame_fd S G slot a readFenceFd h w =
     releaseFrame S G slot a (if 0 \<le> readFenceFd then [readFenceFd] else []) h w"

definition hasFrame :: "int \<Rightarrow> hal \<Rightarrow> bool" where
  "hasFrame slot h = (validSlot slot \<and> f_ahb (mLatest h slot) \<noteq> None \<and> \<not> f_retiring (mLatest h slot))"

definition isFrameCurrent :: "int \<Rightarrow> ahb option \<Rightarrow> 64 word \<Rightarrow> int \<Rightarrow> hal \<Rightarrow> bool" where
  "isFrameCurrent slot buffer seq token h =
     (validSlot slot \<and>
      (let fr = mLatest h slot in
       \<not> f_retiring fr \<and> f_ahb fr = buffer \<and> f_sequence fr = seq \<and>
       f_configurationToken fr = token \<and> (token = 0 \<or> mConfigurations h slot = token)))"

definition allocateSessionIdentity :: "hal \<Rightarrow> int \<times> hal" where
  "allocateSessionIdentity h =
     (if mNextIdentity h = INT64_MAX then (0, h)
      else (mNextIdentity h + 1, h\<lparr>mNextIdentity := mNextIdentity h + 1\<rparr>))"

definition registration_of :: "int \<Rightarrow> hal \<Rightarrow> int" where
  "registration_of slot h = (case mCapabilities h slot of None \<Rightarrow> 0 | Some c \<Rightarrow> registration c)"

definition notifyStreamsConfigured ::
  "'w sys \<Rightarrow> 'w gfx \<Rightarrow> int \<Rightarrow> int \<Rightarrow> int \<Rightarrow> int \<Rightarrow> int \<Rightarrow> hal \<Rightarrow> 'w \<Rightarrow>
    int \<times> hal \<times> 'w \<times> hal_call list" where
  "notifyStreamsConfigured S G slot owner width height fps h w =
     (if \<not> validSlot slot \<or> owner \<le> 0 \<or> owner < mSessionOwners h slot \<or>
         (owner = mSessionOwners h slot \<and> mOwnerClosed h slot) \<or> mNextIdentity h = INT64_MAX
      then (0, h, w, [])
      else
        let token = mNextIdentity h + 1;
            h1 = h\<lparr>mSessionOwners := (mSessionOwners h)(slot := owner),
                   mOwnerClosed := (mOwnerClosed h)(slot := False),
                   mNextIdentity := token,
                   mConfigurations := (mConfigurations h)(slot := token),
                   mReady := (mReady h)(slot := (mCapabilities h slot = None)),
                   mSourceWidths := (mSourceWidths h)(slot := width),
                   mSourceHeights := (mSourceHeights h)(slot := height)\<rparr>;
            (h2, w1) = dropLatestLocked S G slot h1 w;
            reg = registration_of slot h2 in
        (token, h2, w1,
         if mCallback h2 = None then []
         else if reg \<noteq> 0 then [OnStreamsConfiguredForProducer slot reg token width height fps]
         else [OnStreamsConfiguredForConfiguration slot token width height fps]))"

definition notifyCameraClosed ::
  "'w sys \<Rightarrow> 'w gfx \<Rightarrow> int \<Rightarrow> int \<Rightarrow> int \<Rightarrow> hal \<Rightarrow> 'w \<Rightarrow> hal \<times> 'w \<times> hal_call list" where
  "notifyCameraClosed S G slot owner token h w =
     (if \<not> validSlot slot \<or> owner \<le> 0 \<or> token \<le> 0 \<or> mSessionOwners h slot \<noteq> owner \<or>
         mConfigurations h slot \<noteq> token
      then (h, w, [])
      else
        let h1 = h\<lparr>mConfigurations := (mConfigurations h)(slot := 0),
                   mReady := (mReady h)(slot := False),
                   mOwnerClosed := (mOwnerClosed h)(slot := True)\<rparr>;
            reg = registration_of slot h1;
            (h2, w1) = dropLatestLocked S G slot h1 w in
        (h2, w1,
         if mCallback h2 = None then []
         else if reg \<noteq> 0 then [OnCameraClosedForProducer slot reg token]
         else [OnCameraClosedForConfiguration slot token]))"

end
