(* ===== verification/Hal_Invariants.thy ===== *)
theory Hal_Invariants
  imports Stable_Hal
begin

text \<open>
  The invariant of the stable HAL and its preservation by every method, by sequences of
  methods, and by \<open>enqueue\<close> with arbitrary other methods running while it waits.
\<close>

section \<open>What a helper does to the state\<close>

lemma mergeLoop_length: "mergeLoop S fds w = (ok, fds', w') \<Longrightarrow> length fds' \<le> length fds"
proof (induction "length fds" arbitrary: fds w rule: less_induct)
  case less
  show ?case
  proof (cases "length fds < 2")
    case True
    then have "fds = [] \<or> (\<exists>f. fds = [f])" by (cases fds) auto
    then show ?thesis using less.prems by auto
  next
    case False
    then obtain f m b where fds: "fds = f # m @ [b]" using two_elements by blast
    obtain c w1 where merge: "sys_sync_merge S f b w = (c, w1)" by fastforce
    show ?thesis
    proof (cases "c < 0")
      case True
      then show ?thesis using less.prems fds merge by (auto simp: mergeLoop_step)
    next
      case False
      then have "mergeLoop S (c # m) (sys_close S b (sys_close S f w1)) = (ok, fds', w')"
        using less.prems fds merge by (simp add: mergeLoop_step)
      from less.hyps [OF _ this] fds show ?thesis by simp
    qed
  qed
qed

lemma consolidate_length:
  "consolidateReadFences S fds w = (ok, fds', w') \<Longrightarrow> length fds' \<le> length fds"
  by (fastforce simp: consolidateReadFences_def split: prod.splits
      dest: mergeLoop_length pruneReadFences_length)

text \<open>
  A frame is well formed for at most \<open>K\<close> read fences per reader: no negative reader
  count, a slot without a buffer is completely empty, and the fences recorded plus the
  ones the readers in flight may still record stay within \<open>16 * K\<close>.
\<close>

definition frame_inv :: "int \<Rightarrow> frame \<Rightarrow> bool" where
  "frame_inv K f \<longleftrightarrow> 0 \<le> f_inflight f \<and> (f_ahb f = None \<longrightarrow> f = empty_frame) \<and>
     int (length (f_readFences f)) + K * f_inflight f \<le> K * kMaxPendingReads"

lemma frame_inv_empty [simp]: "0 \<le> K \<Longrightarrow> frame_inv K empty_frame"
  by (simp add: frame_inv_def empty_frame_def kMaxPendingReads_def)

lemma frame_inv_fences:
  "frame_inv K f \<Longrightarrow> length fs \<le> length (f_readFences f) \<Longrightarrow> f_ahb f \<noteq> None \<Longrightarrow>
   frame_inv K (f\<lparr>f_readFences := fs\<rparr>)"
  by (auto simp: frame_inv_def)

lemma frame_inv_retiring: "frame_inv K f \<Longrightarrow> f_ahb f \<noteq> None \<Longrightarrow> frame_inv K (f\<lparr>f_retiring := b\<rparr>)"
  by (auto simp: frame_inv_def)

lemma reapE:
  assumes "reapRetiringLocked S G slot h w = (free, h', w')"
  obtains (idle) "\<not> f_retiring (mLatest h slot)" "free" "h' = h" "w' = w"
  | (busy) fs where "f_retiring (mLatest h slot)" "\<not> free"
      "length fs \<le> length (f_readFences (mLatest h slot))"
      "f_inflight (mLatest h slot) \<noteq> 0 \<or> fs \<noteq> []"
      "h' = set_frame h slot ((mLatest h slot)\<lparr>f_readFences := fs\<rparr>)"
  | (freed) "f_retiring (mLatest h slot)" "free" "f_inflight (mLatest h slot) = 0"
      "h' = set_frame h slot empty_frame"
proof (cases "f_retiring (mLatest h slot)")
  case False
  then have "free" "h' = h" "w' = w" using assms by (simp_all add: reapRetiringLocked_def)
  with False show thesis by (rule idle)
next
  case True
  let ?cur = "mLatest h slot"
  obtain fs w1 where prune: "pruneReadFences S (f_readFences ?cur) w = (fs, w1)" by fastforce
  have len: "length fs \<le> length (f_readFences ?cur)" using pruneReadFences_length [OF prune] .
  show thesis
  proof (cases "f_inflight ?cur = 0 \<and> fs = []")
    case ready: True
    then have "free" "f_inflight ?cur = 0" "h' = set_frame h slot empty_frame"
      using assms True prune by (simp_all add: reapRetiringLocked_def retiredFrameReady_def Let_def)
    with True show thesis by (rule freed)
  next
    case False
    then have "\<not> free" "h' = set_frame h slot (?cur\<lparr>f_readFences := fs\<rparr>)"
      using assms True prune by (auto simp: reapRetiringLocked_def retiredFrameReady_def Let_def)
    then show thesis using busy [OF True] len False by blast
  qed
qed

lemma dropE:
  assumes "dropLatestLocked S G slot h w = (h', w')"
  obtains (busy) fs where "length fs \<le> length (f_readFences (mLatest h slot))"
      "f_inflight (mLatest h slot) \<noteq> 0 \<or> fs \<noteq> []"
      "h' = set_frame h slot ((mLatest h slot)\<lparr>f_retiring := True, f_readFences := fs\<rparr>)"
  | (freed) "f_inflight (mLatest h slot) = 0" "h' = set_frame h slot empty_frame"
proof -
  let ?h = "set_frame h slot ((mLatest h slot)\<lparr>f_retiring := True\<rparr>)"
  obtain free where "reapRetiringLocked S G slot ?h w = (free, h', w')"
    using assms unfolding dropLatestLocked_def by (metis prod.collapse snd_conv)
  then show thesis
    by (cases rule: reapE) (auto intro: that)
qed

text \<open>
  Both helpers replace the frame of one slot by one that is still well formed and carries
  the same configuration token or none.
\<close>

definition same_frame :: "frame \<Rightarrow> frame \<Rightarrow> bool" where
  "same_frame f f' \<longleftrightarrow> f_ahb f' = f_ahb f \<and> f_timestampNs f' = f_timestampNs f \<and>
     f_sequence f' = f_sequence f \<and> f_configurationToken f' = f_configurationToken f \<and>
     (f_retiring f \<longrightarrow> f_retiring f')"

definition frame_step :: "int \<Rightarrow> frame \<Rightarrow> frame \<Rightarrow> bool" where
  "frame_step K f f' \<longleftrightarrow> (frame_inv K f \<longrightarrow> frame_inv K f') \<and>
     (same_frame f f' \<or> f' = empty_frame)"

lemma frame_step_refl [simp]: "frame_step K f f"
  by (simp add: frame_step_def same_frame_def)

lemma frame_step_empty [simp]: "0 \<le> K \<Longrightarrow> frame_step K f empty_frame"
  by (simp add: frame_step_def)

lemma reap_frame:
  assumes "reapRetiringLocked S G slot h w = (free, h', w')" and "0 \<le> K"
  shows "\<exists>f. h' = set_frame h slot f \<and> frame_step K (mLatest h slot) f \<and>
    (free \<longrightarrow> \<not> f_retiring f)"
  using assms(1)
proof (cases rule: reapE)
  case idle
  then show ?thesis by (intro exI [of _ "mLatest h slot"]) simp
next
  case (busy fs)
  have "frame_step K (mLatest h slot) ((mLatest h slot)\<lparr>f_readFences := fs\<rparr>)"
    using busy by (auto simp: frame_step_def same_frame_def frame_inv_def empty_frame_def)
  with busy show ?thesis by blast
next
  case freed
  then show ?thesis using assms(2)
    by (intro exI [of _ empty_frame]) (simp, simp add: empty_frame_def)
qed

lemma drop_frame:
  assumes "dropLatestLocked S G slot h w = (h', w')" and "0 \<le> K"
  shows "\<exists>f. h' = set_frame h slot f \<and> frame_step K (mLatest h slot) f \<and>
    (f_retiring f \<or> f = empty_frame)"
  using assms(1)
proof (cases rule: dropE)
  case (busy fs)
  have "frame_step K (mLatest h slot) ((mLatest h slot)\<lparr>f_retiring := True, f_readFences := fs\<rparr>)"
    using busy by (auto simp: frame_step_def same_frame_def frame_inv_def empty_frame_def)
  with busy show ?thesis by (intro exI conjI) auto
next
  case freed
  then show ?thesis using assms(2) by (intro exI [of _ empty_frame]) simp
qed

section \<open>The invariant\<close>

text \<open>
  Identities and tokens stay within \<open>int64_t\<close>; every configuration token and session
  owner was handed out before (so a fresh one is new); two slots never share a live
  token; a slot is ready only while configured; a registered producer passed validation;
  and camera service sees a camera exactly in the slots that have a registered producer.
\<close>

definition within :: "int \<Rightarrow> (int \<Rightarrow> int) \<Rightarrow> bool" where
  "within b f \<longleftrightarrow> (\<forall>s. 0 \<le> f s \<and> f s \<le> b)"

definition unshared :: "(int \<Rightarrow> int) \<Rightarrow> bool" where
  "unshared f \<longleftrightarrow> (\<forall>s t. f s = f t \<longrightarrow> f s \<noteq> 0 \<longrightarrow> s = t)"

definition ready_configured :: "(int \<Rightarrow> bool) \<Rightarrow> (int \<Rightarrow> int) \<Rightarrow> bool" where
  "ready_configured r f \<longleftrightarrow> (\<forall>s. r s \<longrightarrow> f s \<noteq> 0)"

definition identity_inv :: "hal \<Rightarrow> bool" where
  "identity_inv h \<longleftrightarrow> 0 \<le> mNextIdentity h \<and> mNextIdentity h \<le> INT64_MAX \<and>
     within (mNextIdentity h) (mConfigurations h) \<and> within (mNextIdentity h) (mSessionOwners h) \<and>
     unshared (mConfigurations h) \<and> ready_configured (mReady h) (mConfigurations h)"

lemma within_upd: "within b f \<Longrightarrow> b \<le> b' \<Longrightarrow> 0 \<le> x \<Longrightarrow> x \<le> b' \<Longrightarrow> within b' (f(s := x))"
  unfolding within_def by (metis fun_upd_apply order_trans)

lemma within_mono: "within b f \<Longrightarrow> b \<le> b' \<Longrightarrow> within b' f"
  unfolding within_def by (metis order_trans)

lemma unshared_clear: "unshared f \<Longrightarrow> unshared (f(s := 0))"
  unfolding unshared_def by (metis fun_upd_apply)

lemma unshared_fresh: "unshared f \<Longrightarrow> within b f \<Longrightarrow> b < x \<Longrightarrow> unshared (f(s := x))"
  unfolding unshared_def within_def by (metis fun_upd_apply not_less)

lemma ready_upd: "ready_configured r f \<Longrightarrow> (b \<longrightarrow> x \<noteq> 0) \<Longrightarrow> ready_configured (r(s := b)) (f(s := x))"
  unfolding ready_configured_def by (metis fun_upd_apply)

lemma within_const [simp]: "0 \<le> b \<Longrightarrow> within b (\<lambda>_. 0)"
  and unshared_const [simp]: "unshared (\<lambda>_. 0)"
  and ready_const [simp]: "ready_configured (\<lambda>_. False) f"
  by (simp_all add: within_def unshared_def ready_configured_def)

definition presence_inv :: "hal \<Rightarrow> bool" where
  "presence_inv h \<longleftrightarrow>
     (\<forall>s c. mCapabilities h s = Some c \<longrightarrow> validSlot s \<and> caps_valid c) \<and>
     (\<forall>p s. mProvider h = Some p \<longrightarrow> validSlot s \<longrightarrow>
        (mSlotPresent p s \<longleftrightarrow> mCapabilities h s \<noteq> None))"

definition frames_inv :: "int \<Rightarrow> hal \<Rightarrow> bool" where
  "frames_inv K h \<longleftrightarrow> (\<forall>s. frame_inv K (mLatest h s))"

text \<open>
  A frame that carries the live configuration token of a slot with a registered producer
  is there only while that producer is ready, and no frame carries a token that was never
  handed out.
\<close>

definition delivery_ok :: "hal \<Rightarrow> int \<Rightarrow> bool" where
  "delivery_ok h s \<longleftrightarrow>
     0 \<le> f_configurationToken (mLatest h s) \<and> f_configurationToken (mLatest h s) \<le> mNextIdentity h \<and>
     (f_configurationToken (mLatest h s) = mConfigurations h s \<longrightarrow> mConfigurations h s \<noteq> 0 \<longrightarrow>
      mCapabilities h s \<noteq> None \<longrightarrow> mReady h s)"

definition delivery_inv :: "hal \<Rightarrow> bool" where
  "delivery_inv h \<longleftrightarrow> (\<forall>s. delivery_ok h s)"

definition core_inv :: "int \<Rightarrow> hal \<Rightarrow> bool" where
  "core_inv K h \<longleftrightarrow> identity_inv h \<and> frames_inv K h \<and> delivery_inv h"

definition hal_inv :: "int \<Rightarrow> hal \<Rightarrow> bool" where
  "hal_inv K h \<longleftrightarrow> core_inv K h \<and> presence_inv h"

text \<open>
  How the state may develop: identities and the frame counter only grow; a slot keeps its
  configuration, loses it, or gets a token never handed out before; and a slot keeps its
  frame, loses it, or gets one with a sequence number never used before.
\<close>

definition slot_le :: "hal \<Rightarrow> hal \<Rightarrow> int \<Rightarrow> bool" where
  "slot_le h h' s \<longleftrightarrow>
     (mConfigurations h' s = mConfigurations h s \<or> mConfigurations h' s = 0 \<or>
      mNextIdentity h < mConfigurations h' s) \<and>
     (f_ahb (mLatest h' s) = None \<or> same_frame (mLatest h s) (mLatest h' s) \<or>
      mFramesReceived h < f_sequence (mLatest h' s))"

definition hal_le :: "hal \<Rightarrow> hal \<Rightarrow> bool" where
  "hal_le h h' \<longleftrightarrow> mNextIdentity h \<le> mNextIdentity h' \<and> mFramesReceived h \<le> mFramesReceived h' \<and>
     (\<forall>s. slot_le h h' s)"

lemma same_frame_refl [simp]: "same_frame f f"
  by (simp add: same_frame_def)

lemma hal_le_refl [simp]: "hal_le h h"
  by (simp add: hal_le_def slot_le_def)

lemma slot_le_trans:
  assumes "slot_le h h1 s" "slot_le h1 h2 s" "mNextIdentity h \<le> mNextIdentity h1"
    "mFramesReceived h \<le> mFramesReceived h1"
  shows "slot_le h h2 s"
proof -
  have "mConfigurations h2 s = mConfigurations h s \<or> mConfigurations h2 s = 0 \<or>
      mNextIdentity h < mConfigurations h2 s"
    using assms(1-3) unfolding slot_le_def by auto
  moreover have "f_ahb (mLatest h2 s) = None \<or> same_frame (mLatest h s) (mLatest h2 s) \<or>
      mFramesReceived h < f_sequence (mLatest h2 s)"
    using assms(1,2,4) unfolding slot_le_def same_frame_def by auto
  ultimately show ?thesis unfolding slot_le_def ..
qed

lemma hal_le_trans [trans]:
  assumes "hal_le h h1" "hal_le h1 h2"
  shows "hal_le h h2"
  using assms slot_le_trans [of h h1 _ h2] unfolding hal_le_def by (meson order_trans)

text \<open>
  \<open>develops K h h'\<close>: the part of the invariant that does not mention presence is kept,
  and the state develops as above. Every method is a chain of such steps.
\<close>

definition develops :: "int \<Rightarrow> hal \<Rightarrow> hal \<Rightarrow> bool" where
  "develops K h h' \<longleftrightarrow> (core_inv K h \<longrightarrow> core_inv K h' \<and> hal_le h h')"

lemma develops_refl [simp]: "develops K h h"
  by (simp add: develops_def)

lemma develops_trans [trans]: "develops K h h1 \<Longrightarrow> develops K h1 h2 \<Longrightarrow> develops K h h2"
  unfolding develops_def using hal_le_trans by blast

lemmas core_inv_defs = core_inv_def identity_inv_def frames_inv_def delivery_inv_def

lemma developsI:
  assumes "core_inv K h \<Longrightarrow> identity_inv h'"
    and "\<And>s. core_inv K h \<Longrightarrow> frame_inv K (mLatest h' s)"
    and "\<And>s. core_inv K h \<Longrightarrow> delivery_ok h' s"
    and "core_inv K h \<Longrightarrow> mNextIdentity h \<le> mNextIdentity h' \<and> mFramesReceived h \<le> mFramesReceived h'"
    and "\<And>s. core_inv K h \<Longrightarrow> slot_le h h' s"
  shows "develops K h h'"
  using assms by (simp add: develops_def core_inv_def frames_inv_def delivery_inv_def hal_le_def)

lemma core_invD:
  assumes "core_inv K h"
  shows "identity_inv h" "frame_inv K (mLatest h s)" "delivery_ok h s"
    "0 \<le> mNextIdentity h" "mNextIdentity h \<le> INT64_MAX"
    "0 \<le> mConfigurations h s" "mConfigurations h s \<le> mNextIdentity h"
  using assms by (simp_all add: core_inv_defs within_def)

lemma empty_frame_simps [simp]:
  "f_ahb empty_frame = None" "f_configurationToken empty_frame = 0" "f_inflight empty_frame = 0"
  "f_retiring empty_frame = False" "f_readFences empty_frame = []" "f_sequence empty_frame = 0"
  "f_acquireFence empty_frame = -1"
  by (simp_all add: empty_frame_def)

lemma core_inv_init: "0 \<le> K \<Longrightarrow> core_inv K (hal_init p)"
  by (simp add: core_inv_defs hal_init_def INT64_MAX_def delivery_ok_def)

lemma hal_inv_init [simp]:
  "0 \<le> K \<Longrightarrow> hal_inv K (hal_init None)"
  "0 \<le> K \<Longrightarrow> hal_inv K (hal_init (Some provider_init))"
  by (simp_all add: hal_inv_def core_inv_init)
    (simp_all add: presence_inv_def hal_init_def provider_init_def)

section \<open>The single steps\<close>

lemma frame_step_keeps:
  assumes "frame_step K f f'" and "frame_inv K f"
  shows "frame_inv K f'" "f_configurationToken f' = f_configurationToken f \<or> f_configurationToken f' = 0"
    "f_ahb f' = None \<or> same_frame f f'"
  using assms by (auto simp: frame_step_def same_frame_def)

lemma develops_frame:
  assumes "frame_step K (mLatest h slot) f"
  shows "develops K h (set_frame h slot f)"
proof (rule developsI)
  fix s assume inv: "core_inv K h"
  note keep = frame_step_keeps [OF assms core_invD(2) [OF inv]]
  show "frame_inv K (mLatest (set_frame h slot f) s)"
    using keep(1) core_invD(2) [OF inv] by simp
  show "delivery_ok (set_frame h slot f) s"
    using keep(2) core_invD(3) [OF inv, of s] core_invD(4) [OF inv]
    by (auto simp: delivery_ok_def)
  show "slot_le h (set_frame h slot f) s"
    using keep(3) by (auto simp: slot_le_def)
qed (simp_all add: core_inv_defs)

text \<open>A slot loses its configuration; its producer may be removed or replaced meanwhile.\<close>

lemma develops_deconfigure:
  assumes "mNextIdentity h' = mNextIdentity h" "mFramesReceived h' = mFramesReceived h"
    "mLatest h' = mLatest h" "mConfigurations h' = (mConfigurations h)(slot := 0)"
    "mSessionOwners h' = mSessionOwners h" "mReady h' = (mReady h)(slot := b)" "\<not> b"
    "\<And>s. mCapabilities h' s \<noteq> None \<Longrightarrow> s \<noteq> slot \<Longrightarrow> mCapabilities h s \<noteq> None"
  shows "develops K h h'"
proof (rule developsI)
  assume "core_inv K h"
  then show "identity_inv h'" using assms(1-7)
    by (simp add: core_inv_defs within_upd [of "mNextIdentity h"] unshared_clear ready_upd)
next
  fix s assume inv: "core_inv K h"
  show "frame_inv K (mLatest h' s)" using core_invD(2) [OF inv] assms(3) by simp
  show "delivery_ok h' s" using core_invD(3) [OF inv, of s] assms by (auto simp: delivery_ok_def)
  show "slot_le h h' s" using assms by (simp add: slot_le_def)
qed (simp_all add: assms)

lemma develops_owner:
  assumes "mNextIdentity h < INT64_MAX"
  shows "develops K h (h\<lparr>mNextIdentity := mNextIdentity h + 1,
     mSessionOwners := (mSessionOwners h)(slot := mNextIdentity h + 1)\<rparr>)" (is "develops K h ?h'")
proof (rule developsI)
  assume "core_inv K h"
  then show "identity_inv ?h'" using assms
    by (simp add: core_inv_defs within_upd [of "mNextIdentity h"] within_mono [of "mNextIdentity h"])
next
  fix s assume inv: "core_inv K h"
  show "frame_inv K (mLatest ?h' s)" using core_invD(2) [OF inv] by simp
  show "delivery_ok ?h' s" using core_invD(3) [OF inv, of s] by (simp add: delivery_ok_def)
  show "slot_le h ?h' s" by (simp add: slot_le_def)
qed simp_all

lemma develops_identity:
  assumes "mNextIdentity h < INT64_MAX"
  shows "develops K h (h\<lparr>mNextIdentity := mNextIdentity h + 1\<rparr>)" (is "develops K h ?h'")
proof (rule developsI)
  assume "core_inv K h"
  then show "identity_inv ?h'" using assms
    by (simp add: core_inv_defs within_mono [of "mNextIdentity h"])
next
  fix s assume inv: "core_inv K h"
  show "frame_inv K (mLatest ?h' s)" using core_invD(2) [OF inv] by simp
  show "delivery_ok ?h' s" using core_invD(3) [OF inv, of s] by (simp add: delivery_ok_def)
  show "slot_le h ?h' s" by (simp add: slot_le_def)
qed simp_all

lemma develops_same:
  assumes "mNextIdentity h' = mNextIdentity h" "mFramesReceived h' = mFramesReceived h"
    "mLatest h' = mLatest h" "mConfigurations h' = mConfigurations h"
    "mSessionOwners h' = mSessionOwners h" "mReady h' = mReady h"
    "\<And>s. mCapabilities h' s \<noteq> None \<Longrightarrow> mCapabilities h s \<noteq> None"
  shows "develops K h h'"
  using assms
  by (auto simp: develops_def core_inv_defs hal_le_def slot_le_def delivery_ok_def)

section \<open>Presence updates\<close>

lemma mSlotPresent_setSlotPresent:
  "mSlotPresent (fst (setSlotPresent slot b p)) =
     (if validSlot slot then (mSlotPresent p)(slot := b) else mSlotPresent p)"
  by (simp add: setSlotPresent_def Let_def)

lemma hal_setSlotPresent_eq:
  "fst (hal_setSlotPresent slot b h) =
     h\<lparr>mProvider := map_option (\<lambda>p. fst (setSlotPresent slot b p)) (mProvider h)\<rparr>"
  by (auto simp: hal_setSlotPresent_def split: option.splits prod.splits)

lemma hal_setSlotPresentE:
  assumes "hal_setSlotPresent slot b h = (h', es)"
  shows "h' = h\<lparr>mProvider := map_option (\<lambda>p. fst (setSlotPresent slot b p)) (mProvider h)\<rparr>"
  using hal_setSlotPresent_eq [of slot b h] assms by simp

text \<open>The parts of the invariant that do not mention the provider ignore it.\<close>

lemma develops_provider [simp]: "develops K h (h\<lparr>mProvider := p\<rparr>)"
  by (rule develops_same) simp_all

text \<open>Presence after a loop that hides a list of slots.\<close>

lemma hide_slots_effect:
  assumes "hide_slots slots h = (h', es)"
  shows "\<exists>p'. h' = h\<lparr>mProvider := p'\<rparr> \<and> (p' = None \<longleftrightarrow> mProvider h = None) \<and>
    (\<forall>p q. mProvider h = Some p \<longrightarrow> p' = Some q \<longrightarrow>
       (\<forall>s. mSlotPresent q s \<longleftrightarrow> mSlotPresent p s \<and> \<not> (s \<in> set slots \<and> validSlot s)))"
  using assms
proof (induction slots arbitrary: h es)
  case Nil
  then show ?case by (intro exI [of _ "mProvider h"]) auto
next
  case (Cons slot slots)
  obtain h1 es1 es2 where one: "hal_setSlotPresent slot False h = (h1, es1)"
    and rest: "hide_slots slots h1 = (h', es2)"
    using Cons.prems by (auto split: prod.splits)
  note h1 = hal_setSlotPresentE [OF one]
  from Cons.IH [OF rest] obtain p' where all: "h' = h1\<lparr>mProvider := p'\<rparr> \<and>
      (p' = None \<longleftrightarrow> mProvider h1 = None) \<and>
      (\<forall>p q. mProvider h1 = Some p \<longrightarrow> p' = Some q \<longrightarrow>
        (\<forall>s. mSlotPresent q s \<longleftrightarrow> mSlotPresent p s \<and> \<not> (s \<in> set slots \<and> validSlot s)))" ..
  then have p': "h' = h1\<lparr>mProvider := p'\<rparr>" "p' = None \<longleftrightarrow> mProvider h1 = None"
    "\<And>p q s. mProvider h1 = Some p \<Longrightarrow> p' = Some q \<Longrightarrow>
       mSlotPresent q s \<longleftrightarrow> mSlotPresent p s \<and> \<not> (s \<in> set slots \<and> validSlot s)"
    by simp_all
  have "mSlotPresent q s \<longleftrightarrow> mSlotPresent p s \<and> \<not> (s \<in> set (slot # slots) \<and> validSlot s)"
    if "mProvider h = Some p" "p' = Some q" for p q s
    using p'(3) [of "fst (setSlotPresent slot False p)" q s] that h1
    by (auto simp: mSlotPresent_setSlotPresent split: if_splits)
  then show ?case using p'(1,2) h1 by (intro exI [of _ p']) auto
qed


lemma develops_ready:
  assumes "b \<longrightarrow> mConfigurations h slot \<noteq> 0" and "b"
  shows "develops K h (h\<lparr>mReady := (mReady h)(slot := b)\<rparr>)"
proof (rule developsI)
  assume "core_inv K h"
  then show "identity_inv (h\<lparr>mReady := (mReady h)(slot := b)\<rparr>)" using assms
    by (simp add: core_inv_defs ready_configured_def)
next
  fix s assume inv: "core_inv K h"
  show "frame_inv K (mLatest (h\<lparr>mReady := (mReady h)(slot := b)\<rparr>) s)"
    using core_invD(2) [OF inv] by simp
  show "delivery_ok (h\<lparr>mReady := (mReady h)(slot := b)\<rparr>) s"
    using core_invD(3) [OF inv, of s] assms by (auto simp: delivery_ok_def)
  show "slot_le h (h\<lparr>mReady := (mReady h)(slot := b)\<rparr>) s" by (simp add: slot_le_def)
qed simp_all

text \<open>A slot gets a fresh configuration token.\<close>

lemma develops_configure:
  assumes "mNextIdentity h < INT64_MAX" "0 < owner" "owner \<le> mNextIdentity h"
    "mNextIdentity h' = mNextIdentity h + 1" "mFramesReceived h' = mFramesReceived h"
    "mLatest h' = mLatest h" "mConfigurations h' = (mConfigurations h)(slot := mNextIdentity h + 1)"
    "mSessionOwners h' = (mSessionOwners h)(slot := owner)" "mReady h' = (mReady h)(slot := b)"
    "mCapabilities h' = mCapabilities h"
  shows "develops K h h'"
proof (rule developsI)
  assume inv: "core_inv K h"
  then show "identity_inv h'" using assms
    by (simp add: core_inv_defs within_upd [of "mNextIdentity h"] ready_upd
        unshared_fresh [of _ "mNextIdentity h"])
next
  fix s assume inv: "core_inv K h"
  show "frame_inv K (mLatest h' s)" using core_invD(2) [OF inv] assms by simp
  show "delivery_ok h' s" using core_invD(3) [OF inv, of s] assms by (auto simp: delivery_ok_def)
  show "slot_le h h' s" using assms by (simp add: slot_le_def)
qed (simp_all add: assms)

lemma develops_drop:
  assumes "dropLatestLocked S G slot h w = (h', w')" and "0 \<le> K"
  shows "develops K h h'"
  using drop_frame [OF assms] develops_frame by blast

lemma develops_reap:
  assumes "reapRetiringLocked S G slot h w = (free, h', w')" and "0 \<le> K"
  shows "develops K h h'"
  using reap_frame [OF assms] develops_frame by blast

section \<open>Every method develops the state\<close>

lemma develops_invalidate_slot:
  assumes "invalidate_slot S G slot (h, w) = (h', w')" and "0 \<le> K"
  shows "develops K h h'"
proof -
  let ?h1 = "h\<lparr>mConfigurations := (mConfigurations h)(slot := 0),
                 mOwnerClosed := (mOwnerClosed h)(slot := True),
                 mReady := (mReady h)(slot := False),
                 mCapabilities := (mCapabilities h)(slot := None)\<rparr>"
  obtain h2 w1 where drop: "dropLatestLocked S G slot ?h1 w = (h2, w1)" by fastforce
  have "develops K h ?h1" by (rule develops_deconfigure [of _ _ slot False]) simp_all
  also have "develops K ?h1 h2" using drop assms(2) by (rule develops_drop)
  also have "develops K h2 h'"
    using assms(1) drop develops_owner [of h2 K slot]
    by (auto simp: invalidate_slot_def Let_def split: if_splits)
  finally show ?thesis .
qed

lemma drop_fields:
  assumes "dropLatestLocked S G slot h w = (h', w')"
  shows "mProvider h' = mProvider h" "mCallback h' = mCallback h"
    "mCapabilities h' = mCapabilities h" "mConfigurations h' = mConfigurations h"
    "mNextIdentity h' = mNextIdentity h" "mOwnerClosed h' = mOwnerClosed h"
    "mSessionOwners h' = mSessionOwners h"
  using drop_frame [OF assms, of 0] by auto

lemma reap_fields:
  assumes "reapRetiringLocked S G slot h w = (free, h', w')"
  shows "mProvider h' = mProvider h" "mFramesReceived h' = mFramesReceived h"
    "mCapabilities h' = mCapabilities h" "mConfigurations h' = mConfigurations h"
    "mNextIdentity h' = mNextIdentity h" "mReady h' = mReady h"
    "mSessionOwners h' = mSessionOwners h"
    "admitted slot q token h' = admitted slot q token h"
  using reap_frame [OF assms, of 0] by (auto simp: admitted_def)

lemma invalidate_slot_fields:
  assumes "invalidate_slot S G slot (h, w) = (h', w')"
  shows "mProvider h' = mProvider h" "mCallback h' = mCallback h"
    "mCapabilities h' = (mCapabilities h)(slot := None)"
    "mConfigurations h' = (mConfigurations h)(slot := 0)"
proof -
  let ?h1 = "h\<lparr>mConfigurations := (mConfigurations h)(slot := 0),
                 mOwnerClosed := (mOwnerClosed h)(slot := True),
                 mReady := (mReady h)(slot := False),
                 mCapabilities := (mCapabilities h)(slot := None)\<rparr>"
  obtain h2 w1 where drop: "dropLatestLocked S G slot ?h1 w = (h2, w1)" by fastforce
  note fields = drop_fields [OF drop]
  show "mProvider h' = mProvider h" "mCallback h' = mCallback h"
    "mCapabilities h' = (mCapabilities h)(slot := None)"
    "mConfigurations h' = (mConfigurations h)(slot := 0)"
    using assms drop fields by (auto simp: invalidate_slot_def Let_def split: if_splits)
qed

lemma fold_invalidate:
  assumes "fold (invalidate_slot S G) slots (h, w) = (h', w')" and "0 \<le> K"
  shows "develops K h h' \<and> mProvider h' = mProvider h \<and>
    (\<forall>s. mCapabilities h' s = (if s \<in> set slots then None else mCapabilities h s))"
  using assms(1)
proof (induction slots arbitrary: h w)
  case Nil
  then show ?case by simp
next
  case (Cons slot slots)
  obtain h1 w1 where one: "invalidate_slot S G slot (h, w) = (h1, w1)" by fastforce
  have "fold (invalidate_slot S G) slots (h1, w1) = (h', w')"
    using Cons.prems one by simp
  from Cons.IH [OF this] invalidate_slot_fields [OF one]
    develops_trans [OF develops_invalidate_slot [OF one assms(2)]]
  show ?case by auto
qed

lemma set_all_slots [simp]: "s \<in> set all_slots \<longleftrightarrow> validSlot s"
  by (auto simp: all_slots_def validSlot_def)

section \<open>Presence follows registration\<close>

lemma presence_inv_same:
  "mCapabilities h' = mCapabilities h \<Longrightarrow> mProvider h' = mProvider h \<Longrightarrow>
   presence_inv h' = presence_inv h"
  by (simp add: presence_inv_def)

lemma presence_inv_update:
  assumes inv: "presence_inv h" and slot: "validSlot slot"
    and c: "\<And>x. c = Some x \<Longrightarrow> caps_valid x"
    and h1: "mCapabilities h1 = (mCapabilities h)(slot := c)" "mProvider h1 = mProvider h"
    and set: "hal_setSlotPresent slot (c \<noteq> None) h1 = (h', es)"
  shows "presence_inv h'"
  using assms hal_setSlotPresentE [OF set]
  by (auto simp: presence_inv_def mSlotPresent_setSlotPresent split: if_splits)

lemma hal_setSlotPresent_develops:
  assumes "hal_setSlotPresent slot b h = (h', es)"
  shows "develops K h h'"
  unfolding hal_setSlotPresentE [OF assms] by (rule develops_provider)

lemma hide_slots_develops:
  assumes "hide_slots slots h = (h', es)"
  shows "develops K h h'"
  using hide_slots_effect [OF assms] by auto

section \<open>The methods\<close>

text \<open>What a method promises: the invariant is kept and the state develops.\<close>

definition hal_ok :: "int \<Rightarrow> hal \<Rightarrow> hal \<Rightarrow> bool" where
  "hal_ok K h h' \<longleftrightarrow> develops K h h' \<and> (presence_inv h \<longrightarrow> presence_inv h')"

lemma hal_ok_refl [simp]: "hal_ok K h h"
  by (simp add: hal_ok_def)

lemma hal_ok_trans [trans]: "hal_ok K h h1 \<Longrightarrow> hal_ok K h1 h2 \<Longrightarrow> hal_ok K h h2"
  unfolding hal_ok_def using develops_trans by blast

lemma hal_okI:
  "develops K h h' \<Longrightarrow> mCapabilities h' = mCapabilities h \<Longrightarrow> mProvider h' = mProvider h \<Longrightarrow>
   hal_ok K h h'"
  unfolding hal_ok_def using presence_inv_same [of h' h] by simp

lemma hal_okD: "hal_ok K h h' \<Longrightarrow> hal_inv K h \<Longrightarrow> hal_inv K h' \<and> hal_le h h'"
  by (simp add: hal_ok_def hal_inv_def develops_def)

lemma hal_setCallback_ok:
  assumes run: "hal_setCallback S G callback h w = (st, h', w', es)" and K: "0 \<le> K"
  shows "hal_ok K h h'"
proof (cases "callback \<noteq> None \<and> callback_version callback < 6 \<or> \<not> callback_replaced callback h")
  case True
  then have "h' = h \<or> h' = h\<lparr>mCallback := callback, mCallbackVersion := callback_version callback\<rparr>"
    using run by (auto simp: hal_setCallback_def Let_def split: if_splits)
  then have "develops K h h'" and "mCapabilities h' = mCapabilities h" "mProvider h' = mProvider h"
    by (auto intro: develops_same)
  then show ?thesis by (rule hal_okI)
next
  case False
  obtain h1 w1 where fold: "fold (invalidate_slot S G) all_slots (h, w) = (h1, w1)" by fastforce
  let ?h2 = "h1\<lparr>mCallback := callback, mCallbackVersion := callback_version callback\<rparr>"
  note e = fold_invalidate [OF fold K]
  have dev: "develops K h ?h2"
    by (rule develops_trans [of _ _ h1]) (use e in simp, auto intro: develops_same)
  have caps: "mCapabilities ?h2 s = None" if "presence_inv h" for s
    using e that by (cases "mCapabilities h s") (auto simp: presence_inv_def)
  show ?thesis
  proof (cases "mProvider ?h2 = None")
    case True
    then have "h' = ?h2" using run False fold by (auto simp: hal_setCallback_def Let_def)
    then show ?thesis using dev caps True by (simp add: hal_ok_def presence_inv_def)
  next
    case prov: False
    then obtain es' where hide: "hide_slots all_slots ?h2 = (h', es')"
      using run False fold by (auto simp: hal_setCallback_def Let_def split: prod.splits)
    from hide_slots_effect [OF hide] obtain p' where p': "h' = ?h2\<lparr>mProvider := p'\<rparr> \<and>
      (p' = None \<longleftrightarrow> mProvider ?h2 = None) \<and>
      (\<forall>p q. mProvider ?h2 = Some p \<longrightarrow> p' = Some q \<longrightarrow>
        (\<forall>s. mSlotPresent q s \<longleftrightarrow> mSlotPresent p s \<and> \<not> (s \<in> set all_slots \<and> validSlot s)))" ..
    have "\<not> mSlotPresent q s" if "p' = Some q" "validSlot s" for q s
      using p' that prov by auto
    then have "presence_inv h \<longrightarrow> presence_inv h'"
      using p' caps by (auto simp: presence_inv_def)
    moreover have "develops K h h'" using dev hide_slots_develops [OF hide] by (rule develops_trans)
    ultimately show ?thesis by (simp add: hal_ok_def)
  qed
qed

lemma registerProducer_ok:
  assumes "registerProducer slot d owner h = (st, h', es)"
  shows "hal_ok K h h'"
proof (cases "st = Ok")
  case False
  then have "h' = h" using assms
    by (auto simp: registerProducer_def Let_def split: option.splits if_splits prod.splits)
  then show ?thesis by simp
next
  case True
  let ?c = "caps_of_descriptor d"
  let ?h1 = "h\<lparr>mCapabilities := (mCapabilities h)(slot := Some ?c),
                mReady := (mReady h)(slot := False),
                mConfigurations := (mConfigurations h)(slot := 0)\<rparr>"
  have ok: "validSlot slot" "caps_valid ?c" "hal_setSlotPresent slot True ?h1 = (h', es)"
    using assms True
    by (auto simp: registerProducer_def Let_def split: option.splits if_splits prod.splits)
  have "develops K h ?h1" by (rule develops_deconfigure [of _ _ slot False]) auto
  then have "develops K h h'" using hal_setSlotPresent_develops [OF ok(3)] by (rule develops_trans)
  moreover have "presence_inv h \<Longrightarrow> presence_inv h'"
    using presence_inv_update [of h slot "Some ?c" ?h1 h' es] ok by simp
  ultimately show ?thesis by (simp add: hal_ok_def)
qed

lemma removeProducer_ok:
  assumes "removeProducer S G slot reg owner h w = (st, h', w', es)" and K: "0 \<le> K"
  shows "hal_ok K h h'"
proof (cases "st = Ok")
  case False
  then have "h' = h" using assms
    by (auto simp: removeProducer_def Let_def split: option.splits if_splits prod.splits)
  then show ?thesis by simp
next
  case True
  obtain h1 w1 where inval: "invalidate_slot S G slot (h, w) = (h1, w1)" by fastforce
  have ok: "validSlot slot" "hal_setSlotPresent slot False h1 = (h', es)"
    using assms True inval
    by (auto simp: removeProducer_def Let_def split: option.splits if_splits prod.splits)
  have "develops K h h'"
    using develops_invalidate_slot [OF inval K] hal_setSlotPresent_develops [OF ok(2)]
    by (rule develops_trans)
  moreover have "presence_inv h \<Longrightarrow> presence_inv h'"
    using presence_inv_update [of h slot None h1 h' es] ok invalidate_slot_fields [OF inval] by simp
  ultimately show ?thesis by (simp add: hal_ok_def)
qed

lemma setConfigurationReady_ok:
  assumes run: "setConfigurationReady S G slot token ready h w = (st, h', w')" and K: "0 \<le> K"
  shows "hal_ok K h h'"
proof (cases "st = Ok")
  case False
  then have "h' = h" using run
    by (auto simp: setConfigurationReady_def Let_def split: if_splits prod.splits)
  then show ?thesis by simp
next
  case True
  let ?h1 = "h\<lparr>mReady := (mReady h)(slot := ready)\<rparr>"
  let ?h2 = "?h1\<lparr>mConfigurations := (mConfigurations ?h1)(slot := 0)\<rparr>"
  have guard: "0 < token" "mConfigurations h slot = token"
    using run True by (auto simp: setConfigurationReady_def split: if_splits)
  show ?thesis
  proof (cases ready)
    case r: True
    then have "h' = ?h1" using run True by (auto simp: setConfigurationReady_def split: if_splits)
    then show ?thesis using develops_ready [of True h slot] r guard by (auto intro: hal_okI)
  next
    case r: False
    then have drop: "dropLatestLocked S G slot ?h2 w = (h', w')"
      using run True by (auto simp: setConfigurationReady_def Let_def split: if_splits prod.splits)
    have "develops K h ?h2" using r by (intro develops_deconfigure [of _ _ slot False]) auto
    then have "develops K h h'" using develops_drop [OF drop K] by (rule develops_trans)
    then show ?thesis by (rule hal_okI) (simp_all add: drop_fields [OF drop])
  qed
qed

lemma setCameraPresent_ok:
  assumes run: "setCameraPresent S G slot present h w = (st, h', w', es)" and K: "0 \<le> K"
  shows "hal_ok K h h'"
proof (cases "st = Ok \<and> \<not> present")
  case False
  then have "h' = h" using run
    by (auto simp: setCameraPresent_def hal_setSlotPresent_def Let_def
        split: if_splits option.splits prod.splits)
  then show ?thesis by simp
next
  case True
  let ?h0 = "h\<lparr>mConfigurations := (mConfigurations h)(slot := 0),
               mReady := (mReady h)(slot := False),
               mOwnerClosed := (mOwnerClosed h)(slot := True)\<rparr>"
  let ?h0' = "if 0 < mSessionOwners ?h0 slot \<and> mNextIdentity ?h0 < INT64_MAX
    then ?h0\<lparr>mNextIdentity := mNextIdentity ?h0 + 1,
             mSessionOwners := (mSessionOwners ?h0)(slot := mNextIdentity ?h0 + 1)\<rparr> else ?h0"
  obtain h2 w1 where drop: "dropLatestLocked S G slot ?h0' w = (h2, w1)" by fastforce
  have p: "mProvider h = None"
    using run True by (auto simp: setCameraPresent_def split: if_splits)
  then have "mProvider h2 = None" using drop_fields(1) [OF drop] by (simp split: if_splits)
  moreover have "snd (setCameraPresent S G slot present h w) =
      (let (h2, es) = hal_setSlotPresent slot present h2 in (h2, w1, es))"
    using run True p drop unfolding setCameraPresent_def
    by (simp add: Let_def split: if_splits prod.splits)
  ultimately have h': "h' = h2" using run by (simp add: hal_setSlotPresent_def)
  have "develops K h ?h0" by (rule develops_deconfigure [of _ _ slot False]) simp_all
  also have "develops K ?h0 ?h0'" using develops_owner [of ?h0 K slot] by auto
  also have "develops K ?h0' h2" using drop K by (rule develops_drop)
  finally have "develops K h h'" using h' by simp
  then show ?thesis by (rule hal_okI) (use h' drop_fields [OF drop] in \<open>simp_all split: if_splits\<close>)
qed

lemma allocateSessionIdentity_ok:
  "allocateSessionIdentity h = (t, h') \<Longrightarrow> hal_inv K h \<Longrightarrow> hal_ok K h h'"
  using develops_identity [of h K]
  by (auto simp: allocateSessionIdentity_def hal_inv_def core_inv_defs split: if_splits intro: hal_okI)

lemma notifyStreamsConfigured_ok:
  assumes run: "notifyStreamsConfigured S G slot owner width height fps h w = (t, h', w', es)"
    and K: "0 \<le> K" and inv: "hal_inv K h" and owner: "owner \<le> mNextIdentity h"
  shows "hal_ok K h h'"
proof (cases "t = 0")
  case True
  have "0 \<le> mNextIdentity h" using inv by (simp add: hal_inv_def core_inv_defs)
  then have "h' = h" using run True
    by (auto simp: notifyStreamsConfigured_def Let_def split: if_splits prod.splits)
  then show ?thesis by simp
next
  case False
  let ?h1 = "h\<lparr>mSessionOwners := (mSessionOwners h)(slot := owner),
                   mOwnerClosed := (mOwnerClosed h)(slot := False),
                   mNextIdentity := mNextIdentity h + 1,
                   mConfigurations := (mConfigurations h)(slot := mNextIdentity h + 1),
                   mReady := (mReady h)(slot := (mCapabilities h slot = None)),
                   mSourceWidths := (mSourceWidths h)(slot := width),
                   mSourceHeights := (mSourceHeights h)(slot := height)\<rparr>"
  have guard: "0 < owner" "mNextIdentity h \<noteq> INT64_MAX"
    and drop: "dropLatestLocked S G slot ?h1 w = (h', w')"
    using run False by (auto simp: notifyStreamsConfigured_def Let_def split: if_splits prod.splits)
  have "mNextIdentity h < INT64_MAX" using guard(2) inv by (simp add: hal_inv_def core_inv_defs)
  then have "develops K h ?h1"
    using guard owner
    by (intro develops_configure [of h owner ?h1 slot "mCapabilities h slot = None"]) simp_all
  also have "develops K ?h1 h'" using drop K by (rule develops_drop)
  finally show ?thesis by (rule hal_okI) (simp_all add: drop_fields [OF drop])
qed

lemma notifyCameraClosed_ok:
  assumes run: "notifyCameraClosed S G slot owner token h w = (h', w', es)" and K: "0 \<le> K"
  shows "hal_ok K h h'"
proof (cases "\<not> validSlot slot \<or> owner \<le> 0 \<or> token \<le> 0 \<or> mSessionOwners h slot \<noteq> owner \<or>
    mConfigurations h slot \<noteq> token")
  case True
  then have "h' = h" using run by (auto simp: notifyCameraClosed_def)
  then show ?thesis by simp
next
  case False
  let ?h1 = "h\<lparr>mConfigurations := (mConfigurations h)(slot := 0),
                   mReady := (mReady h)(slot := False),
                   mOwnerClosed := (mOwnerClosed h)(slot := True)\<rparr>"
  have drop: "dropLatestLocked S G slot ?h1 w = (h', w')"
    using run False by (auto simp: notifyCameraClosed_def Let_def split: prod.splits)
  have "develops K h ?h1" by (rule develops_deconfigure [of _ _ slot False]) simp_all
  also have "develops K ?h1 h'" using drop K by (rule develops_drop)
  finally show ?thesis by (rule hal_okI) (simp_all add: drop_fields [OF drop])
qed

lemma enqueue_enter_ok:
  assumes run: "enqueue_enter S G slot q token h w = (adm, h', w')" and K: "0 \<le> K"
  shows "hal_ok K h h'"
proof (cases "admitted slot q token h")
  case False
  then show ?thesis using run by (simp add: enqueue_enter_def)
next
  case True
  obtain free h1 w1 where reap: "reapRetiringLocked S G slot h w = (free, h1, w1)"
    by (metis prod_cases3)
  then have "h' = h1" using run True by (simp add: enqueue_enter_def)
  then show ?thesis
    using develops_reap [OF reap K] reap_fields [OF reap] by (auto intro: hal_okI)
qed

text \<open>A frame with a new sequence number takes the slot.\<close>

lemma develops_new_frame:
  assumes tok: "0 \<le> token" "admitted slot q token h" and f: "f_configurationToken f = token"
      "f_sequence f = mFramesReceived h + 1" "frame_inv K f" and room: "mFramesReceived h \<noteq> -1"
  shows "develops K h ((set_frame h slot f)\<lparr>mFramesReceived := mFramesReceived h + 1\<rparr>)"
    (is "develops K h ?h'")
proof (rule developsI)
  have up: "mFramesReceived h < mFramesReceived h + 1" using room by (rule word_less_inc)
  then show "mNextIdentity h \<le> mNextIdentity ?h' \<and> mFramesReceived h \<le> mFramesReceived ?h'" by simp
  fix s
  show "slot_le h ?h' s" using up f by (cases "s = slot") (simp_all add: slot_le_def)
  assume inv: "core_inv K h"
  show "frame_inv K (mLatest ?h' s)" using core_invD(2) [OF inv] f by simp
  have "token \<le> mNextIdentity h"
    using tok core_invD(4) [OF inv] core_invD(7) [OF inv, of slot]
    by (cases "0 < token") (simp_all add: admitted_def)
  moreover have "mConfigurations h slot = token \<Longrightarrow> token \<noteq> 0 \<Longrightarrow> mCapabilities h slot \<noteq> None \<Longrightarrow>
      mReady h slot"
    using tok by (auto simp: admitted_def split: if_splits)
  ultimately have "delivery_ok ?h' slot" using tok(1) f(1) by (simp add: delivery_ok_def)
  then show "delivery_ok ?h' s"
    using core_invD(3) [OF inv, of s] by (cases "s = slot") (auto simp: delivery_ok_def)
qed (simp add: core_inv_defs)

lemma enqueue_commit_ok:
  assumes run: "enqueue_commit S G slot q acq token a h w = (res, h', w')" and K: "0 \<le> K"
    and inv: "hal_inv K h" and tok: "0 \<le> token"
    and room: "\<And>r. res = Inr r \<Longrightarrow> mFramesReceived h \<noteq> -1"
  shows "hal_ok K h h'"
proof (cases "admitted slot q token h")
  case False
  then show ?thesis using run by (simp add: enqueue_commit_def Let_def)
next
  case adm: True
  obtain free h1 w1 where reap: "reapRetiringLocked S G slot h w = (free, h1, w1)"
    by (metis prod_cases3)
  note fields = reap_fields [OF reap]
  have dev1: "develops K h h1" using reap K by (rule develops_reap)
  have keep: "hal_ok K h h2" if "develops K h1 h2" "mCapabilities h2 = mCapabilities h1"
      "mProvider h2 = mProvider h1" for h2
    using develops_trans [OF dev1 that(1)] that fields by (auto intro: hal_okI)
  show ?thesis
  proof (cases free)
    case False
    then have "h' = h1" using run adm reap by (simp add: enqueue_commit_def Let_def)
    then show ?thesis using keep [of h1] by simp
  next
    case True
    let ?cur = "mLatest h1 slot"
    obtain ok fences w2 where cons: "consolidateReadFences S (f_readFences ?cur) w1 = (ok, fences, w2)"
      by (metis prod_cases3)
    show ?thesis
    proof (cases ok)
      case False
      have "core_inv K h1" using dev1 inv by (simp add: develops_def hal_inv_def)
      then have "f_ahb ?cur = None \<Longrightarrow> f_readFences ?cur = []"
        using core_invD(2) [of K h1 slot] by (auto simp: frame_inv_def)
      then have "frame_step K ?cur (?cur\<lparr>f_readFences := fences\<rparr>)"
        using consolidate_length [OF cons]
        by (auto simp: frame_step_def same_frame_def frame_inv_def empty_frame_def)
      then have "develops K h1 (set_frame h1 slot (?cur\<lparr>f_readFences := fences\<rparr>))"
        by (rule develops_frame)
      then have "develops K h1 h'"
        using run adm reap True False cons by (simp add: enqueue_commit_def Let_def)
      then show ?thesis
        by (rule keep) (use run adm reap True False cons in \<open>auto simp: enqueue_commit_def Let_def\<close>)
    next
      case merged: True
      let ?new = "\<lparr>f_ahb = Some a, f_timestampNs = q_timestampNs q,
         f_sequence = mFramesReceived h1 + 1, f_configurationToken = token, f_acquireFence = acq,
         f_readFences = [], f_inflight = 0, f_retiring = False\<rparr>"
      have h': "h' = (set_frame h1 slot ?new)\<lparr>mFramesReceived := mFramesReceived h1 + 1\<rparr>"
        using run adm reap True merged cons by (simp add: enqueue_commit_def Let_def)
      have "mFramesReceived h \<noteq> -1"
        using run adm reap True merged cons
        by (intro room [of "if fences = [] then -1 else last fences"])
          (simp add: enqueue_commit_def Let_def)
      moreover have "frame_inv K ?new" using K by (simp add: frame_inv_def kMaxPendingReads_def)
      ultimately have "develops K h1 h'"
        unfolding h' using tok adm fields
        by (intro develops_new_frame [of token slot q]) simp_all
      then show ?thesis by (rule keep) (simp_all add: h')
    qed
  qed
qed

lemma acquireLatest_frame_step:
  assumes "frame_inv K f" "length fs \<le> length (f_readFences f)" "f_ahb f \<noteq> None"
  shows "frame_step K f (f\<lparr>f_readFences := fs\<rparr>)"
  using assms by (auto simp: frame_step_def same_frame_def frame_inv_def)

text \<open>Below the limit there is room for the fences of one more reader.\<close>

lemma frame_inv_acquire:
  assumes inv: "frame_inv K f" and K: "1 \<le> K" and a: "f_ahb f \<noteq> None"
    and room: "int (length (f_readFences f)) + f_inflight f < kMaxPendingReads"
  shows "frame_inv K (f\<lparr>f_inflight := f_inflight f + 1\<rparr>)"
proof -
  let ?n = "int (length (f_readFences f))"
  have "?n \<le> K * ?n" using K mult_right_mono [of 1 K ?n] by simp
  then have "?n + K * (f_inflight f + 1) \<le> K * (?n + f_inflight f + 1)"
    by (simp add: distrib_left)
  also have "\<dots> \<le> K * kMaxPendingReads" using room K by (intro mult_left_mono) auto
  finally show ?thesis using inv a by (auto simp: frame_inv_def)
qed

text \<open>The three outcomes of \<open>acquireLatest\<close>.\<close>

lemma acquireLatestE:
  assumes run: "acquireLatest S G slot want_fd want_seq after token h w = (r, fd, h', w')"
  obtains (refused) "r = None" "h' = h"
  | (full) fences where "r = None" "f_ahb (mLatest h slot) \<noteq> None"
      "length fences \<le> length (f_readFences (mLatest h slot))"
      "h' = set_frame h slot ((mLatest h slot)\<lparr>f_readFences := fences\<rparr>)"
  | (taken) a fences where "r = Some \<lparr>a_ahb = a, a_timestampNs = f_timestampNs (mLatest h slot),
        a_sequence = f_sequence (mLatest h slot)\<rparr>"
      "validSlot slot" "f_ahb (mLatest h slot) = Some a" "\<not> f_retiring (mLatest h slot)"
      "f_configurationToken (mLatest h slot) = token" "0 < token \<longrightarrow> mConfigurations h slot = token"
      "want_seq \<longrightarrow> after < f_sequence (mLatest h slot)"
      "length fences \<le> length (f_readFences (mLatest h slot))"
      "int (length fences) + f_inflight (mLatest h slot) < kMaxPendingReads"
      "h' = set_frame h slot ((mLatest h slot)\<lparr>f_readFences := fences,
         f_inflight := f_inflight (mLatest h slot) + 1\<rparr>)"
proof -
  let ?cur = "mLatest h slot"
  show thesis
  proof (cases "validSlot slot \<and> f_configurationToken ?cur = token \<and>
      (0 < token \<longrightarrow> mConfigurations h slot = token) \<and> f_ahb ?cur \<noteq> None \<and> \<not> f_retiring ?cur \<and>
      (want_seq \<longrightarrow> after < f_sequence ?cur)")
    case False
    then have "r = None" "h' = h"
      using run by (auto simp: acquireLatest_def Let_def split: if_splits option.splits)
    then show thesis by (rule refused)
  next
    case True
    then obtain a where a: "f_ahb ?cur = Some a" by blast
    obtain ok fences w1 where cons: "consolidateReadFences S (f_readFences ?cur) w = (ok, fences, w1)"
      by (metis prod_cases3)
    note len = consolidate_length [OF cons]
    show thesis
    proof (cases "r = None")
      case none: True
      then have "h' = set_frame h slot (?cur\<lparr>f_readFences := fences\<rparr>)"
        using run True a cons unfolding acquireLatest_def
        by (auto simp: Let_def not_le split: if_splits prod.splits)
      with none a len show thesis by (intro full) simp_all
    next
      case False
      then have "int (length fences) + f_inflight ?cur < kMaxPendingReads"
        "r = Some \<lparr>a_ahb = a, a_timestampNs = f_timestampNs ?cur, a_sequence = f_sequence ?cur\<rparr>"
        "h' = set_frame h slot (?cur\<lparr>f_readFences := fences, f_inflight := f_inflight ?cur + 1\<rparr>)"
        using run True a cons unfolding acquireLatest_def
        by (auto simp: Let_def not_le split: if_splits prod.splits)
      with True a len show thesis by (intro taken [of a fences]) simp_all
    qed
  qed
qed

lemma acquireLatest_ok:
  assumes run: "acquireLatest S G slot want_fd want_seq after token h w = (r, fd, h', w')"
    and K: "1 \<le> K" and inv: "hal_inv K h"
  shows "hal_ok K h h'"
  using run
proof (cases rule: acquireLatestE)
  case refused
  then show ?thesis by simp
next
  case (full fences)
  have "frame_inv K (mLatest h slot)" using inv core_invD(2) by (simp add: hal_inv_def)
  then have "develops K h h'"
    unfolding full(4) using full by (intro develops_frame acquireLatest_frame_step) simp_all
  then show ?thesis by (rule hal_okI) (simp_all add: full(4))
next
  case (taken a fences)
  let ?cur = "mLatest h slot"
  have "frame_inv K ?cur" using inv core_invD(2) by (simp add: hal_inv_def)
  then have "frame_inv K (?cur\<lparr>f_readFences := fences\<rparr>)"
    using taken by (intro frame_inv_fences) simp_all
  from frame_inv_acquire [OF this K] taken
  have "frame_inv K (?cur\<lparr>f_readFences := fences, f_inflight := f_inflight ?cur + 1\<rparr>)" by simp
  then have "frame_step K ?cur (?cur\<lparr>f_readFences := fences, f_inflight := f_inflight ?cur + 1\<rparr>)"
    by (simp add: frame_step_def same_frame_def)
  then have "develops K h h'" unfolding taken(10) by (rule develops_frame)
  then show ?thesis by (rule hal_okI) (simp_all add: taken(10))
qed

text \<open>A reader that gives its frame back adds at most \<open>K\<close> fences.\<close>

lemma frame_inv_release:
  assumes "frame_inv K f" "f_ahb f \<noteq> None" "0 < f_inflight f"
    and "int (length fs) \<le> int (length (f_readFences f)) + K"
  shows "frame_inv K (f\<lparr>f_readFences := fs, f_inflight := f_inflight f - 1\<rparr>)"
  using assms by (auto simp: frame_inv_def right_diff_distrib)

lemma releaseFrame_ok:
  assumes run: "releaseFrame S G slot a fs h w = (h', w')" and K: "0 \<le> K" and inv: "hal_inv K h"
    and a: "a \<noteq> None"
    and held: "validSlot slot \<and> f_ahb (mLatest h slot) = a \<longrightarrow>
      0 < f_inflight (mLatest h slot) \<and> int (length fs) \<le> K"
  shows "hal_ok K h h'"
proof (cases "validSlot slot \<and> f_ahb (mLatest h slot) = a")
  case False
  then show ?thesis using run by (auto simp: releaseFrame_def)
next
  case True
  let ?cur = "mLatest h slot"
  obtain ok fences w1 where
    cons: "consolidateReadFences S (f_readFences ?cur @ fs) w = (ok, fences, w1)"
    by (metis prod_cases3)
  let ?cur1 = "?cur\<lparr>f_readFences := fences, f_inflight := f_inflight ?cur - 1\<rparr>"
  have "frame_inv K ?cur" using inv core_invD(2) by (simp add: hal_inv_def)
  then have "frame_inv K ?cur1"
    using True a held consolidate_length [OF cons] by (intro frame_inv_release) simp_all
  then have "frame_step K ?cur ?cur1" by (simp add: frame_step_def same_frame_def)
  then have dev: "develops K h (set_frame h slot ?cur1)" by (rule develops_frame)
  show ?thesis
  proof (cases "f_retiring ?cur")
    case False
    then have "h' = set_frame h slot ?cur1"
      using run True held cons by (simp add: releaseFrame_def Let_def)
    then show ?thesis using dev by (auto intro: hal_okI)
  next
    case retiring: True
    obtain free h2 w2 where reap: "reapRetiringLocked S G slot (set_frame h slot ?cur1) w1 = (free, h2, w2)"
      by (metis prod_cases3)
    then have "h' = h2" using run True held cons retiring by (simp add: releaseFrame_def Let_def)
    moreover have "develops K h h2" using dev develops_reap [OF reap K] by (rule develops_trans)
    ultimately show ?thesis using reap_fields [OF reap] by (auto intro: hal_okI)
  qed
qed

end
