(* ===== verification/Hal_Runs.thy ===== *)
theory Hal_Runs
  imports Hal_Invariants
begin

text \<open>
  The stable HAL as a transition system. \<open>hal_step\<close> is one critical section of
  \<open>mLock\<close>: a whole method, or one of the two critical sections of \<open>enqueue\<close> (up to the
  wait, and from the end of the wait). \<open>hal_run\<close> is any number of them in any order, so it
  contains every interleaving of binder threads and camera sessions, several waiting
  \<open>enqueue\<close> calls included.
\<close>

section \<open>Methods as values\<close>

datatype hal_op =
    SetCallback "hal_callback option"
  | RegisterProducer int ProducerDescriptor "hal_callback option"
  | RemoveProducer int int "hal_callback option"
  | SetConfigurationReady int int bool
  | SetCameraPresent int bool
  | AcquireLatest int bool bool "64 word" int
  | ReleaseFrame int ahb "int list"
  | AllocateSessionIdentity
  | NotifyStreamsConfigured int int int int int
  | NotifyCameraClosed int int int

fun hal_exec :: "'w sys \<Rightarrow> 'w gfx \<Rightarrow> hal_op \<Rightarrow> hal \<Rightarrow> 'w \<Rightarrow> hal \<times> 'w" where
  "hal_exec S G (SetCallback cb) h w =
     (let (st, h', w', es) = hal_setCallback S G cb h w in (h', w'))"
| "hal_exec S G (RegisterProducer slot d owner) h w =
     (let (st, h', es) = registerProducer slot d owner h in (h', w))"
| "hal_exec S G (RemoveProducer slot reg owner) h w =
     (let (st, h', w', es) = removeProducer S G slot reg owner h w in (h', w'))"
| "hal_exec S G (SetConfigurationReady slot token ready) h w =
     (let (st, h', w') = setConfigurationReady S G slot token ready h w in (h', w'))"
| "hal_exec S G (SetCameraPresent slot present) h w =
     (let (st, h', w', es) = setCameraPresent S G slot present h w in (h', w'))"
| "hal_exec S G (AcquireLatest slot want_fd want_seq after token) h w =
     (let (r, fd, h', w') = acquireLatest S G slot want_fd want_seq after token h w in (h', w'))"
| "hal_exec S G (ReleaseFrame slot a fences) h w = releaseFrame S G slot (Some a) fences h w"
| "hal_exec S G AllocateSessionIdentity h w = (snd (allocateSessionIdentity h), w)"
| "hal_exec S G (NotifyStreamsConfigured slot owner width height fps) h w =
     (let (t, h', w', es) = notifyStreamsConfigured S G slot owner width height fps h w in (h', w'))"
| "hal_exec S G (NotifyCameraClosed slot owner token) h w =
     (let (h', w', es) = notifyCameraClosed S G slot owner token h w in (h', w'))"

text \<open>
  What the HAL relies on from the camera sessions, its only callers of these two methods:
  a frame is given back only by a reader that holds it, with at most \<open>K\<close> read fences, and
  a session configures with an identity that \<open>allocateSessionIdentity\<close> handed out.
\<close>

fun op_allowed :: "int \<Rightarrow> hal_op \<Rightarrow> hal \<Rightarrow> bool" where
  "op_allowed K (ReleaseFrame slot a fences) h =
     (validSlot slot \<and> f_ahb (mLatest h slot) = Some a \<longrightarrow>
       0 < f_inflight (mLatest h slot) \<and> int (length fences) \<le> K)"
| "op_allowed K (NotifyStreamsConfigured slot owner width height fps) h = (owner \<le> mNextIdentity h)"
| "op_allowed K _ h = True"

inductive hal_step :: "'w sys \<Rightarrow> 'w gfx \<Rightarrow> int \<Rightarrow> hal \<times> 'w \<Rightarrow> hal \<times> 'w \<Rightarrow> bool"
  for S G K where
  call: "op_allowed K op h \<Longrightarrow> hal_exec S G op h w = (h', w') \<Longrightarrow> hal_step S G K (h, w) (h', w')"
| world: "hal_step S G K (h, w) (h, w')"
| provider: "mProvider h = Some p \<Longrightarrow> provider_setCallback cb p = (st, p') \<Longrightarrow>
    hal_step S G K (h, w) (h\<lparr>mProvider := Some p'\<rparr>, w)"
| enter: "enqueue_enter S G slot q token h w = (adm, h', w') \<Longrightarrow> hal_step S G K (h, w) (h', w')"
| commit: "0 \<le> token \<Longrightarrow> f_inflight (mLatest h slot) = 0 \<Longrightarrow>
    enqueue_commit S G slot q acq token a h w = (res, h', w') \<Longrightarrow>
    (\<And>r. res = Inr r \<Longrightarrow> mFramesReceived h \<noteq> -1) \<Longrightarrow> hal_step S G K (h, w) (h', w')"

text \<open>
  The frame counter is a \<open>uint64_t\<close>; a run stops short of the frame that would make it wrap
  (the side condition of \<open>commit\<close>).
\<close>

inductive_cases hal_stepE: "hal_step S G K (h, w) (h', w')"

abbreviation hal_run :: "'w sys \<Rightarrow> 'w gfx \<Rightarrow> int \<Rightarrow> hal \<times> 'w \<Rightarrow> hal \<times> 'w \<Rightarrow> bool" where
  "hal_run S G K \<equiv> (hal_step S G K)\<^sup>*\<^sup>*"

section \<open>The invariant over runs\<close>

lemma hal_exec_ok:
  assumes "hal_exec S G op h w = (h', w')" "op_allowed K op h" "1 \<le> K" "hal_inv K h"
  shows "hal_ok K h h'"
proof -
  have K: "0 \<le> K" using assms(3) by simp
  show ?thesis
  proof (cases op)
    case (SetCallback cb)
    then show ?thesis using assms(1) K by (auto split: prod.splits intro: hal_setCallback_ok)
  next
    case (RegisterProducer slot d owner)
    then show ?thesis using assms(1) by (auto split: prod.splits intro: registerProducer_ok)
  next
    case (RemoveProducer slot reg owner)
    then show ?thesis using assms(1) K by (auto split: prod.splits intro: removeProducer_ok)
  next
    case (SetConfigurationReady slot token ready)
    then show ?thesis using assms(1) K by (auto split: prod.splits intro: setConfigurationReady_ok)
  next
    case (SetCameraPresent slot present)
    then show ?thesis using assms(1) K by (auto split: prod.splits intro: setCameraPresent_ok)
  next
    case (AcquireLatest slot want_fd want_seq after token)
    then show ?thesis using assms by (auto split: prod.splits intro: acquireLatest_ok)
  next
    case (ReleaseFrame slot a fences)
    then show ?thesis using assms K by (intro releaseFrame_ok [of S G slot "Some a" fences h w]) auto
  next
    case AllocateSessionIdentity
    then show ?thesis using assms by (auto intro: allocateSessionIdentity_ok [OF surjective_pairing])
  next
    case (NotifyStreamsConfigured slot owner width height fps)
    then show ?thesis using assms K by (auto split: prod.splits intro: notifyStreamsConfigured_ok)
  next
    case (NotifyCameraClosed slot owner token)
    then show ?thesis using assms(1) K by (auto split: prod.splits intro: notifyCameraClosed_ok)
  qed
qed

lemma hal_step_ok:
  assumes "hal_step S G K (h, w) (h', w')" and K: "1 \<le> K" and inv: "hal_inv K h"
  shows "hal_ok K h h'"
  using assms(1)
proof (rule hal_stepE)
  fix op assume "op_allowed K op h" "hal_exec S G op h w = (h', w')"
  then show ?thesis using K inv by (intro hal_exec_ok)
next
  fix p cb st p'
  assume p: "mProvider h = Some p" "provider_setCallback cb p = (st, p')"
    and h': "h' = h\<lparr>mProvider := Some p'\<rparr>"
  have "presence_inv h \<longrightarrow> presence_inv h'"
    using p h' by (auto simp: presence_inv_def provider_setCallback_def split: option.splits)
  then show ?thesis using h' by (simp add: hal_ok_def)
next
  fix slot q token adm
  assume "enqueue_enter S G slot q token h w = (adm, h', w')"
  then show ?thesis using K by (intro enqueue_enter_ok) auto
next
  fix token slot q acq a res
  assume "0 \<le> token" "\<And>r. res = Inr r \<Longrightarrow> mFramesReceived h \<noteq> -1"
    "enqueue_commit S G slot q acq token a h w = (res, h', w')"
  then show ?thesis using K inv by (intro enqueue_commit_ok) auto
qed simp

lemma hal_run_ok:
  assumes "hal_run S G K x y" "1 \<le> K" "hal_inv K (fst x)"
  shows "hal_inv K (fst y) \<and> hal_le (fst x) (fst y)"
  using assms(1)
proof (induction rule: rtranclp_induct)
  case base
  then show ?case using assms(3) by simp
next
  case (step y z)
  have "hal_ok K (fst y) (fst z)"
    using step.hyps(2) step.IH assms(2) by (intro hal_step_ok [of S G K _ "snd y" _ "snd z"]) simp_all
  then show ?case using step.IH hal_okD hal_le_trans by blast
qed

lemmas hal_run_inv = hal_run_ok [THEN conjunct1] and hal_run_le = hal_run_ok [THEN conjunct2]

section \<open>Frames and their readers\<close>

text \<open>
  A frame with readers in flight is left alone: same buffer, same time stamp, sequence and
  token, same acquire fence, and no reader is forgotten.
\<close>

definition holds_frame :: "frame \<Rightarrow> frame \<Rightarrow> bool" where
  "holds_frame f f' \<longleftrightarrow> same_frame f f' \<and> f_acquireFence f' = f_acquireFence f \<and>
     f_inflight f \<le> f_inflight f'"

definition readers_keep :: "hal \<Rightarrow> hal \<Rightarrow> bool" where
  "readers_keep h h' \<longleftrightarrow> (\<forall>s. 0 < f_inflight (mLatest h s) \<longrightarrow> holds_frame (mLatest h s) (mLatest h' s))"

lemma holds_frame_refl [simp]: "holds_frame f f"
  by (simp add: holds_frame_def)

lemma readers_keep_same: "mLatest h' = mLatest h \<Longrightarrow> readers_keep h h'"
  by (simp add: readers_keep_def)

lemma readers_keep_trans [trans]:
  assumes "readers_keep h h1" "readers_keep h1 h2"
  shows "readers_keep h h2"
  unfolding readers_keep_def
proof (intro allI impI)
  fix s assume pos: "0 < f_inflight (mLatest h s)"
  then have one: "holds_frame (mLatest h s) (mLatest h1 s)" using assms(1) by (simp add: readers_keep_def)
  then have "0 < f_inflight (mLatest h1 s)" using pos by (simp add: holds_frame_def)
  then have "holds_frame (mLatest h1 s) (mLatest h2 s)" using assms(2) by (simp add: readers_keep_def)
  with one show "holds_frame (mLatest h s) (mLatest h2 s)" by (auto simp: holds_frame_def same_frame_def)
qed

lemma readers_keep_frame:
  "(0 < f_inflight (mLatest h slot) \<Longrightarrow> holds_frame (mLatest h slot) f) \<Longrightarrow>
   readers_keep h (set_frame h slot f)"
  by (simp add: readers_keep_def)

lemma reap_keep:
  assumes "reapRetiringLocked S G slot h w = (free, h', w')"
  shows "readers_keep h h'"
  using assms
  by (cases rule: reapE) (auto intro!: readers_keep_frame simp: holds_frame_def same_frame_def readers_keep_same)

lemma drop_keep:
  assumes "dropLatestLocked S G slot h w = (h', w')"
  shows "readers_keep h h'"
  using assms
  by (cases rule: dropE) (auto intro!: readers_keep_frame simp: holds_frame_def same_frame_def)

lemma drop_after_keep:
  assumes "dropLatestLocked S G slot h1 w = (h', w')" and "mLatest h1 = mLatest h"
  shows "readers_keep h h'"
  using readers_keep_trans [OF readers_keep_same [OF assms(2)] drop_keep [OF assms(1)]] .

lemma invalidate_slot_keep:
  assumes "invalidate_slot S G slot (h, w) = (h', w')"
  shows "readers_keep h h'"
proof -
  let ?h1 = "h\<lparr>mConfigurations := (mConfigurations h)(slot := 0),
                 mOwnerClosed := (mOwnerClosed h)(slot := True),
                 mReady := (mReady h)(slot := False),
                 mCapabilities := (mCapabilities h)(slot := None)\<rparr>"
  obtain h2 w1 where drop: "dropLatestLocked S G slot ?h1 w = (h2, w1)" by fastforce
  have "readers_keep h h2" using drop by (rule drop_after_keep) simp
  also have "readers_keep h2 h'" using assms drop
    by (intro readers_keep_same) (auto simp: invalidate_slot_def Let_def split: if_splits)
  finally show ?thesis .
qed

lemma fold_invalidate_keep:
  "fold (invalidate_slot S G) slots (h, w) = (h', w') \<Longrightarrow> readers_keep h h'"
proof (induction slots arbitrary: h w)
  case Nil
  then show ?case by (simp add: readers_keep_same)
next
  case (Cons slot slots)
  obtain h1 w1 where one: "invalidate_slot S G slot (h, w) = (h1, w1)" by fastforce
  then have "readers_keep h1 h'" using Cons by simp
  with invalidate_slot_keep [OF one] show ?case by (rule readers_keep_trans)
qed

lemma hal_setSlotPresent_latest: "hal_setSlotPresent slot b h = (h', es) \<Longrightarrow> mLatest h' = mLatest h"
  by (drule hal_setSlotPresentE) simp

lemma hide_slots_latest: "hide_slots slots h = (h', es) \<Longrightarrow> mLatest h' = mLatest h"
  by (drule hide_slots_effect) auto

lemma hal_setCallback_keep:
  assumes "hal_setCallback S G callback h w = (st, h', w', es)"
  shows "readers_keep h h'"
proof -
  obtain h1 w1 where fold: "fold (invalidate_slot S G) all_slots (h, w) = (h1, w1)" by fastforce
  have "mLatest h' = mLatest h \<or> mLatest h' = mLatest h1"
    using assms fold
    by (auto simp: hal_setCallback_def Let_def dest!: hide_slots_latest split: if_splits prod.splits)
  then show ?thesis
    using fold_invalidate_keep [OF fold] by (auto simp: readers_keep_def)
qed

lemma setCameraPresent_keep:
  assumes "setCameraPresent S G slot present h w = (st, h', w', es)"
  shows "readers_keep h h'"
proof -
  let ?h0 = "h\<lparr>mConfigurations := (mConfigurations h)(slot := 0),
               mReady := (mReady h)(slot := False),
               mOwnerClosed := (mOwnerClosed h)(slot := True)\<rparr>"
  let ?h0' = "if 0 < mSessionOwners ?h0 slot \<and> mNextIdentity ?h0 < INT64_MAX
    then ?h0\<lparr>mNextIdentity := mNextIdentity ?h0 + 1,
             mSessionOwners := (mSessionOwners ?h0)(slot := mNextIdentity ?h0 + 1)\<rparr> else ?h0"
  obtain h2 w1 where drop: "dropLatestLocked S G slot ?h0' w = (h2, w1)" by fastforce
  have "readers_keep h h2" using drop by (rule drop_after_keep) simp
  moreover have "mLatest h' = mLatest h \<or> mLatest h' = mLatest h2"
    using assms drop unfolding setCameraPresent_def
    by (simp add: Let_def split: if_splits prod.splits) (auto dest!: hal_setSlotPresent_latest)
  ultimately show ?thesis by (auto simp: readers_keep_def)
qed

lemma acquireLatest_keep:
  assumes "acquireLatest S G slot want_fd want_seq after token h w = (r, fd, h', w')"
  shows "readers_keep h h'"
  using assms
  by (cases rule: acquireLatestE)
    (auto intro!: readers_keep_frame simp: holds_frame_def same_frame_def readers_keep_same)

lemma removeProducer_keep:
  assumes "removeProducer S G slot reg owner h w = (st, h', w', es)"
  shows "readers_keep h h'"
proof -
  obtain h1 w1 where inval: "invalidate_slot S G slot (h, w) = (h1, w1)" by fastforce
  have "mLatest h' = mLatest h \<or> mLatest h' = mLatest h1"
    using assms inval
    by (auto simp: removeProducer_def Let_def dest!: hal_setSlotPresent_latest
        split: option.splits if_splits prod.splits)
  then show ?thesis using invalidate_slot_keep [OF inval] by (auto simp: readers_keep_def)
qed

lemma setConfigurationReady_keep:
  assumes "setConfigurationReady S G slot token ready h w = (st, h', w')"
  shows "readers_keep h h'"
  using assms
  by (auto simp: setConfigurationReady_def Let_def readers_keep_same
      split: if_splits prod.splits intro: drop_after_keep)

lemma notifyStreamsConfigured_keep:
  assumes "notifyStreamsConfigured S G slot owner width height fps h w = (t, h', w', es)"
  shows "readers_keep h h'"
  using assms
  by (auto simp: notifyStreamsConfigured_def Let_def readers_keep_same
      split: if_splits prod.splits intro: drop_after_keep)

lemma notifyCameraClosed_keep:
  assumes "notifyCameraClosed S G slot owner token h w = (h', w', es)"
  shows "readers_keep h h'"
  using assms
  by (auto simp: notifyCameraClosed_def Let_def readers_keep_same
      split: if_splits prod.splits intro: drop_after_keep)

lemma enqueue_enter_keep:
  assumes "enqueue_enter S G slot q token h w = (adm, h', w')"
  shows "readers_keep h h'"
  using assms
  by (auto simp: enqueue_enter_def readers_keep_same split: if_splits prod.splits intro: reap_keep)

lemma enqueue_commit_keep:
  assumes run: "enqueue_commit S G slot q acq token a h w = (res, h', w')"
    and free: "f_inflight (mLatest h slot) = 0"
  shows "readers_keep h h'"
proof (cases "admitted slot q token h")
  case False
  then show ?thesis using run by (simp add: enqueue_commit_def Let_def readers_keep_same)
next
  case True
  obtain ok h1 w1 where reap: "reapRetiringLocked S G slot h w = (ok, h1, w1)"
    by (metis prod_cases3)
  have "mLatest h' s = mLatest h1 s" if "s \<noteq> slot" for s
    using run True reap that
    by (auto simp: enqueue_commit_def Let_def split: if_splits prod.splits)
  moreover have "s \<noteq> slot" if "0 < f_inflight (mLatest h s)" for s using that free by auto
  ultimately show ?thesis using reap_keep [OF reap] unfolding readers_keep_def by metis
qed

text \<open>Giving a frame back is the one method that forgets a reader, and frees the frame after the last.\<close>

definition reader_leaves :: "frame \<Rightarrow> frame \<Rightarrow> bool" where
  "reader_leaves f f' \<longleftrightarrow>
     (same_frame f f' \<and> f_acquireFence f' = f_acquireFence f \<and> f_inflight f' = f_inflight f - 1) \<or>
     (f_inflight f = 1 \<and> f_retiring f \<and> f' = empty_frame)"

lemma releaseFrame_readers:
  assumes run: "releaseFrame S G slot a fs h w = (h', w')"
  shows "s \<noteq> slot \<Longrightarrow> mLatest h' s = mLatest h s"
    and "0 < f_inflight (mLatest h slot) \<Longrightarrow>
      holds_frame (mLatest h slot) (mLatest h' slot) \<or> reader_leaves (mLatest h slot) (mLatest h' slot)"
proof -
  let ?cur = "mLatest h slot"
  obtain ok fences w1 where
    cons: "consolidateReadFences S (f_readFences ?cur @ fs) w = (ok, fences, w1)"
    by (metis prod_cases3)
  let ?cur1 = "?cur\<lparr>f_readFences := fences,
      f_inflight := (if 0 < f_inflight ?cur then f_inflight ?cur - 1 else f_inflight ?cur)\<rparr>"
  obtain free h2 w2 where reap: "reapRetiringLocked S G slot (set_frame h slot ?cur1) w1 = (free, h2, w2)"
    by (metis prod_cases3)
  have h': "h' = (if validSlot slot \<and> f_ahb ?cur = a
      then if f_retiring ?cur then h2 else set_frame h slot ?cur1 else h)"
    using run cons reap by (auto simp: releaseFrame_def Let_def split: if_splits)
  have h2: "s \<noteq> slot \<Longrightarrow> mLatest h2 s = mLatest h s"
    using reap by (cases rule: reapE) auto
  show "s \<noteq> slot \<Longrightarrow> mLatest h' s = mLatest h s" using h' h2 by auto
  assume pos: "0 < f_inflight ?cur"
  have "reader_leaves ?cur (mLatest h2 slot)"
    using reap by (cases rule: reapE) (use pos in \<open>auto simp: reader_leaves_def same_frame_def\<close>)
  moreover have "reader_leaves ?cur ?cur1" using pos by (simp add: reader_leaves_def same_frame_def)
  ultimately show "holds_frame ?cur (mLatest h' slot) \<or> reader_leaves ?cur (mLatest h' slot)"
    using h' by auto
qed

lemma hal_exec_readers:
  assumes run: "hal_exec S G op h w = (h', w')" and pos: "0 < f_inflight (mLatest h s)"
  shows "holds_frame (mLatest h s) (mLatest h' s) \<or>
    (\<exists>a fs. op = ReleaseFrame s a fs) \<and> reader_leaves (mLatest h s) (mLatest h' s)"
proof (cases op)
  case (ReleaseFrame slot a fs)
  then show ?thesis using run releaseFrame_readers [of S G slot "Some a" fs h w h' w'] pos
    by (cases "s = slot") auto
next
  case (RegisterProducer slot d owner)
  then have "mLatest h' = mLatest h" using run
    by (auto simp: registerProducer_def Let_def dest!: hal_setSlotPresent_latest
        split: option.splits if_splits prod.splits)
  then show ?thesis by simp
next
  case AllocateSessionIdentity
  then have "mLatest h' = mLatest h" using run by (auto simp: allocateSessionIdentity_def)
  then show ?thesis by simp
qed (use run pos in \<open>auto simp: readers_keep_def split: prod.splits
      dest!: hal_setCallback_keep removeProducer_keep setConfigurationReady_keep setCameraPresent_keep
        acquireLatest_keep notifyStreamsConfigured_keep notifyCameraClosed_keep\<close>)

lemma hal_step_readers:
  assumes step: "hal_step S G K (h, w) (h', w')" and pos: "0 < f_inflight (mLatest h s)"
  shows "holds_frame (mLatest h s) (mLatest h' s) \<or> reader_leaves (mLatest h s) (mLatest h' s)"
  using step
proof (rule hal_stepE)
  fix op assume "hal_exec S G op h w = (h', w')"
  from hal_exec_readers [OF this pos] show ?thesis by auto
qed (use pos in \<open>auto dest!: enqueue_enter_keep enqueue_commit_keep simp: readers_keep_def\<close>)

section \<open>The states of the running service\<close>

text \<open>
  \<open>service.cpp\<close> starts the HAL with a new provider, and the standalone build without one.
\<close>

definition hal_start :: "hal \<Rightarrow> bool" where
  "hal_start h \<longleftrightarrow> h = hal_init None \<or> h = hal_init (Some provider_init)"

lemma hal_start_inv: "hal_start h \<Longrightarrow> 1 \<le> K \<Longrightarrow> hal_inv K h"
  by (auto simp: hal_start_def)

lemma reachable_inv:
  "hal_run S G K (h0, w0) (h, w) \<Longrightarrow> hal_start h0 \<Longrightarrow> 1 \<le> K \<Longrightarrow> hal_inv K h"
  using hal_run_inv [of S G K "(h0, w0)" "(h, w)"] hal_start_inv by simp

section \<open>Executing a list of methods\<close>

fun exec_ops :: "'w sys \<Rightarrow> 'w gfx \<Rightarrow> int \<Rightarrow> hal_op list \<Rightarrow> hal \<Rightarrow> 'w \<Rightarrow> (hal \<times> 'w) option" where
  "exec_ops S G K [] h w = Some (h, w)"
| "exec_ops S G K (op # ops) h w =
     (if op_allowed K op h then let (h', w') = hal_exec S G op h w in exec_ops S G K ops h' w'
      else None)"

lemma exec_ops_run: "exec_ops S G K ops h w = Some (h', w') \<Longrightarrow> hal_run S G K (h, w) (h', w')"
proof (induction ops arbitrary: h w)
  case Nil
  then show ?case by simp
next
  case (Cons op ops)
  obtain h1 w1 where one: "hal_exec S G op h w = (h1, w1)" by fastforce
  then have "hal_step S G K (h, w) (h1, w1)" "hal_run S G K (h1, w1) (h', w')"
    using Cons by (auto intro: hal_step.call split: if_splits)
  then show ?case by (rule converse_rtranclp_into_rtranclp)
qed

text \<open>Graphics services that only count: enough to run the methods on a fence world.\<close>

definition demo_gfx :: "fence_world gfx" where
  "demo_gfx = \<lparr>gfx_acquire = (\<lambda>_ w. w), gfx_release = (\<lambda>_ w. w),
     gfx_dupFromAidl = (\<lambda>b w. (Some b, w)),
     gfx_createFromHandle = (\<lambda>q hdl w. (0, Some hdl, w)), gfx_closeHandle = (\<lambda>_ w. w)\<rparr>"

definition demo_callback :: hal_callback where
  "demo_callback = \<lparr>cb_binder = 7, cb_version = Some 6\<rparr>"

definition demo_descriptor :: ProducerDescriptor where
  "demo_descriptor = \<lparr>d_registration = 5, d_facing = 1, d_orientation = 90, d_maxOutputStreams = 2,
     d_modes = [\<lparr>d_id = 1, d_width = 640, d_height = 480, d_minFps = 15, d_maxFps = 30,
       d_outputFormats = [34, 35], d_allowDownscale = True\<rparr>]\<rparr>"

text \<open>
  A platform registers a producer for slot 2, a session gets the identity 1 and configures
  the slot with token 2, and the platform reports it ready.
\<close>

definition demo_ops :: "hal_op list" where
  "demo_ops = [SetCallback (Some demo_callback), RegisterProducer 2 demo_descriptor (Some demo_callback),
     AllocateSessionIdentity, NotifyStreamsConfigured 2 1 640 480 30, SetConfigurationReady 2 2 True]"

definition demo_hal :: hal where
  "demo_hal = fst (the (exec_ops demo_sys demo_gfx 1 demo_ops (hal_init (Some provider_init)) demo_world))"

end
