(* ===== verification/Hal_Theorems.thy ===== *)
theory Hal_Theorems
  imports Hal_Runs Interfaces
begin

text \<open>
  What the stable HAL promises its callers, for every state the service can reach.
\<close>

section \<open>Identities and tokens\<close>

text \<open>
  Session identities and configuration tokens come from one counter. Both methods provide
  the interface \<open>token_supply\<close>.
\<close>

type_synonym 'w config = "hal \<times> 'w"

definition hal_good :: "int \<Rightarrow> 'w config \<Rightarrow> bool" where
  "hal_good K x \<longleftrightarrow> 1 \<le> K \<and> hal_inv K (fst x)"

definition hal_mark :: "'w config \<Rightarrow> int" where
  "hal_mark x = mNextIdentity (fst x)"

definition alloc_identity :: "unit \<Rightarrow> 'w config \<Rightarrow> int option \<times> 'w config" where
  "alloc_identity r x = (let (t, h') = allocateSessionIdentity (fst x) in
     (if t = 0 then None else Some t, (h', snd x)))"

text \<open>The request is slot, owner, width, height and frame rate.\<close>

type_synonym configure_request = "int \<times> int \<times> int \<times> int \<times> int"

definition alloc_configuration ::
  "'w sys \<Rightarrow> 'w gfx \<Rightarrow> configure_request \<Rightarrow> 'w config \<Rightarrow> int option \<times> 'w config" where
  "alloc_configuration S G r x = (let (slot, owner, width, height, fps) = r in
     if mNextIdentity (fst x) < owner then (None, x)
     else
       let (t, h', w', es) = notifyStreamsConfigured S G slot owner width height fps (fst x) (snd x) in
       (if t = 0 then None else Some t, (h', w')))"

lemma hal_good_step: "hal_good K x \<Longrightarrow> hal_step S G K x y \<Longrightarrow> hal_good K y \<and> hal_le (fst x) (fst y)"
  using hal_run_ok [of S G K x y] by (auto simp: hal_good_def)

lemma alloc_identity_step:
  "alloc_identity r x = (Some t, y) \<Longrightarrow> hal_step S G K x y"
  using hal_step.call [of K AllocateSessionIdentity "fst x" S G "snd x" "fst y" "snd y"]
  by (auto simp: alloc_identity_def split: prod.splits if_splits)

lemma alloc_configuration_step:
  assumes "alloc_configuration S G r x = (Some t, y)"
  shows "hal_step S G K x y"
proof -
  obtain slot owner width height fps where r: "r = (slot, owner, width, height, fps)"
    by (metis prod_cases5)
  have "owner \<le> mNextIdentity (fst x)"
    "hal_exec S G (NotifyStreamsConfigured slot owner width height fps) (fst x) (snd x) = y"
    using assms r by (auto simp: alloc_configuration_def split: prod.splits if_splits)
  then show ?thesis
    using hal_step.call [of K "NotifyStreamsConfigured slot owner width height fps" "fst x" S G "snd x"
        "fst y" "snd y"] by simp
qed

lemma notifyStreamsConfigured_token:
  assumes "notifyStreamsConfigured S G slot owner width height fps h w = (t, h', w', es)" "t \<noteq> 0"
  shows "t = mNextIdentity h + 1" "mNextIdentity h' = t" "mConfigurations h' slot = t"
    "mSessionOwners h' slot = owner"
  using assms
  by (auto simp: notifyStreamsConfigured_def Let_def drop_fields split: if_splits prod.splits)

interpretation session_identities:
  token_supply "hal_step S G K" "hal_good K" hal_mark alloc_identity for S G K
proof
  fix s s' :: "'a config" assume "hal_good K s" "hal_step S G K s s'"
  from hal_good_step [OF this] show "hal_good K s'" "hal_mark s \<le> hal_mark s'"
    by (auto simp: hal_le_def hal_mark_def)
next
  fix r t and s s' :: "'a config" assume a: "alloc_identity r s = (Some t, s')"
  then show "hal_step S G K s s'" by (rule alloc_identity_step)
  show "hal_mark s < t \<and> t \<le> hal_mark s'" using a
    by (auto simp: alloc_identity_def allocateSessionIdentity_def hal_mark_def split: if_splits)
qed

interpretation configuration_tokens:
  token_supply "hal_step S G K" "hal_good K" hal_mark "alloc_configuration S G" for S G K
proof
  fix s s' :: "'a config" assume "hal_good K s" "hal_step S G K s s'"
  from hal_good_step [OF this] show "hal_good K s'" "hal_mark s \<le> hal_mark s'"
    by (auto simp: hal_le_def hal_mark_def)
next
  fix r t and s s' :: "'a config" assume a: "alloc_configuration S G r s = (Some t, s')"
  then show "hal_step S G K s s'" by (rule alloc_configuration_step)
  show "hal_mark s < t \<and> t \<le> hal_mark s'" using a notifyStreamsConfigured_token
    by (fastforce simp: alloc_configuration_def hal_mark_def split: prod.splits if_splits)
qed

text \<open>
  C6: a configuration token that \<open>notifyStreamsConfigured\<close> hands out is
  larger than every token handed out before, for any slot, whatever binder threads and
  sessions do in between; so a token names one configuration for ever.
\<close>

theorem configuration_token_fresh:
  assumes "hal_start h0" and "1 \<le> K" and "hal_run S G K (h0, w0) (h, w)"
    and "owner \<le> mNextIdentity h"
    and "notifyStreamsConfigured S G slot owner width height fps h w = (t, h1, w1, es)" and "t \<noteq> 0"
    and "hal_run S G K (h1, w1) (h2, w2)"
    and "owner' \<le> mNextIdentity h2"
    and "notifyStreamsConfigured S G slot' owner' width' height' fps' h2 w2 = (t', h3, w3, es')"
    and "t' \<noteq> 0"
  shows "t < t'"
proof (rule configuration_tokens.never_reused)
  show "hal_good K (h, w)" using assms reachable_inv by (auto simp: hal_good_def)
  show "alloc_configuration S G (slot, owner, width, height, fps) (h, w) = (Some t, (h1, w1))"
    using assms by (simp add: alloc_configuration_def)
  show "alloc_configuration S G (slot', owner', width', height', fps') (h2, w2) = (Some t', (h3, w3))"
    using assms by (simp add: alloc_configuration_def)
qed (rule assms)

text \<open>The demo run of \<open>Hal_Runs\<close>, as facts about its states.\<close>

lemma demo_start [simp]: "hal_start (hal_init (Some provider_init))" "hal_start (hal_init None)"
  by (simp_all add: hal_start_def)

lemma demo_exec:
  "exec_ops demo_sys demo_gfx 1 demo_ops (hal_init (Some provider_init)) demo_world =
     Some (demo_hal, demo_world)"
proof -
  have "map_option snd (exec_ops demo_sys demo_gfx 1 demo_ops (hal_init (Some provider_init)) demo_world) =
      Some demo_world"
    by code_simp
  then show ?thesis by (auto simp: demo_hal_def)
qed

lemma demo_run: "hal_run demo_sys demo_gfx 1 (hal_init (Some provider_init), demo_world) (demo_hal, demo_world)"
  using demo_exec by (rule exec_ops_run)

lemma demo_fields:
  "mNextIdentity demo_hal = 2" "mConfigurations demo_hal 2 = 2" "mReady demo_hal 2"
  "mConfigurations demo_hal 3 = 0" "mLatest demo_hal 2 = empty_frame"
  "mCapabilities demo_hal 2 = Some (caps_of_descriptor demo_descriptor)"
  "mSessionOwners demo_hal 2 = 1" "mSourceWidths demo_hal 2 = 640" "mSourceHeights demo_hal 2 = 480"
  "mFramesReceived demo_hal = 0" "mProvider demo_hal \<noteq> None"
  "mCallback demo_hal = Some demo_callback"
  by code_simp+

lemma configuration_token_fresh_witness:
  "fst (notifyStreamsConfigured demo_sys demo_gfx 2 1 640 480 30 demo_hal demo_world) <
   fst (notifyStreamsConfigured demo_sys demo_gfx 2 1 320 240 15
      (fst (snd (notifyStreamsConfigured demo_sys demo_gfx 2 1 640 480 30 demo_hal demo_world)))
      (fst (snd (snd (notifyStreamsConfigured demo_sys demo_gfx 2 1 640 480 30 demo_hal demo_world)))))"
proof -
  let ?r = "notifyStreamsConfigured demo_sys demo_gfx 2 1 640 480 30 demo_hal demo_world"
  let ?r' = "notifyStreamsConfigured demo_sys demo_gfx 2 1 320 240 15 (fst (snd ?r)) (fst (snd (snd ?r)))"
  have r: "?r = (fst ?r, fst (snd ?r), fst (snd (snd ?r)), snd (snd (snd ?r)))"
    and r': "?r' = (fst ?r', fst (snd ?r'), fst (snd (snd ?r')), snd (snd (snd ?r')))" by simp_all
  have nz: "fst ?r = 3" "mNextIdentity (fst (snd ?r)) = 3" "fst ?r' = 4" by code_simp+
  show ?thesis
    by (rule configuration_token_fresh [OF demo_start(1) _ demo_run _ r _ rtranclp.rtrancl_refl _ r'])
      (simp_all add: nz demo_fields)
qed

section \<open>A stale configuration\<close>

text \<open>A token that was handed out and is not the slot's configuration never becomes it again.\<close>

lemma stale_stays_stale:
  assumes "hal_inv K h" "1 \<le> K" "hal_run S G K (h, w) (h', w')"
    and "0 < token" "token \<le> mNextIdentity h" "mConfigurations h slot \<noteq> token"
  shows "mConfigurations h' slot \<noteq> token"
proof -
  have "hal_le h h'" using hal_run_le [OF assms(3,2)] assms(1) by simp
  then have "slot_le h h' slot" by (simp add: hal_le_def)
  then show ?thesis using assms(4-6) by (auto simp: slot_le_def)
qed

lemma acquireLatest_stale:
  assumes "0 < token" "mConfigurations h slot \<noteq> token"
  shows "acquireLatest S G slot want_fd want_seq after token h w = (None, -1, h, w)"
  using assms by (simp add: acquireLatest_def)

lemma queueFrameForConfiguration_stale:
  assumes "0 < token" "mConfigurations h slot \<noteq> token"
  shows "\<exists>code w'. queueFrameForConfiguration S G intf slot token q fence h w =
     (ServiceSpecific code, -1, h, w')"
  using assms
  by (auto simp: queueFrameForConfiguration_def enqueue_def enqueue_admit_def enqueue_enter_def
      admitted_def Let_def split: prod.splits sum.splits)

text \<open>
  C1: once a slot is not configured with a token that was handed
  out, because its session was closed or reconfigured, its producer removed or the platform
  replaced, then for ever after the frames of that configuration are neither handed out nor
  called current, and frames queued for it are rejected without touching the HAL's state.
\<close>

theorem stale_configuration_never_served:
  assumes "hal_start h0" and "1 \<le> K" and "hal_run S G K (h0, w0) (h, w)"
    and "0 < token" and "token \<le> mNextIdentity h" and "mConfigurations h slot \<noteq> token"
    and "hal_run S G K (h, w) (h', w')"
  shows "acquireLatest S G slot want_fd want_seq after token h' w' = (None, -1, h', w') \<and>
    \<not> isFrameCurrent slot b seq token h' \<and>
    (\<exists>code w''. queueFrameForConfiguration S G intf slot token q fence h' w' =
       (ServiceSpecific code, -1, h', w''))"
proof -
  have stale: "mConfigurations h' slot \<noteq> token"
    using stale_stays_stale [OF reachable_inv [OF assms(3,1,2)] assms(2,7,4-6)] .
  have "\<not> isFrameCurrent slot b seq token h'"
    using stale assms(4) by (simp add: isFrameCurrent_def Let_def)
  then show ?thesis
    using acquireLatest_stale [OF assms(4) stale] queueFrameForConfiguration_stale [OF assms(4) stale]
    by (intro conjI)
qed

lemma stale_configuration_never_served_witness:
  "acquireLatest demo_sys demo_gfx 3 True True 0 2 demo_hal demo_world = (None, -1, demo_hal, demo_world)"
  using stale_configuration_never_served
    [OF demo_start(1) _ demo_run, of 2 3 demo_hal demo_world True True 0 None 0 id undefined 0]
  by (simp add: demo_fields)

section \<open>Presence\<close>



section \<open>Frames\<close>

text \<open>The demo HAL with one frame queued for the configuration, and with one reader on it.\<close>

definition demo_frame :: frame_msg where
  "demo_frame = \<lparr>q_buffer = 9, q_width = 640, q_height = 480, q_stride = 640, q_format = 1,
     q_usage = 0, q_timestampNs = 1000\<rparr>"

definition demo_hal_frame :: hal where
  "demo_hal_frame = fst (snd (enqueue_commit demo_sys demo_gfx 2 demo_frame (-1) 2 9 demo_hal demo_world))"

definition demo_hal_read :: hal where
  "demo_hal_read =
     fst (hal_exec demo_sys demo_gfx (AcquireLatest 2 True True 0 2) demo_hal_frame demo_world)"

lemma demo_frame_fields:
  "fst (enqueue_commit demo_sys demo_gfx 2 demo_frame (-1) 2 9 demo_hal demo_world) = Inr (-1)"
  "snd (snd (enqueue_commit demo_sys demo_gfx 2 demo_frame (-1) 2 9 demo_hal demo_world)) = demo_world"
  "mLatest demo_hal_frame 2 = \<lparr>f_ahb = Some 9, f_timestampNs = 1000, f_sequence = 1,
     f_configurationToken = 2, f_acquireFence = -1, f_readFences = [], f_inflight = 0,
     f_retiring = False\<rparr>"
  "mConfigurations demo_hal_frame 2 = 2" "mNextIdentity demo_hal_frame = 2"
  "mCapabilities demo_hal_frame 2 = Some (caps_of_descriptor demo_descriptor)"
  "mFramesReceived demo_hal_frame = 1"
  by code_simp+

lemma demo_commit:
  "enqueue_commit demo_sys demo_gfx 2 demo_frame (-1) 2 9 demo_hal demo_world =
     (Inr (-1), demo_hal_frame, demo_world)"
  using demo_frame_fields(1,2)
  by (cases "enqueue_commit demo_sys demo_gfx 2 demo_frame (-1) 2 9 demo_hal demo_world")
    (auto simp: demo_hal_frame_def)

lemma demo_frame_run:
  "hal_run demo_sys demo_gfx 1 (hal_init (Some provider_init), demo_world) (demo_hal_frame, demo_world)"
proof -
  have "hal_step demo_sys demo_gfx 1 (demo_hal, demo_world) (demo_hal_frame, demo_world)"
    by (rule hal_step.commit [OF _ _ demo_commit]) (simp_all add: demo_fields)
  with demo_run show ?thesis by (rule rtranclp.rtrancl_into_rtrancl)
qed

lemma demo_read:
  "acquireLatest demo_sys demo_gfx 2 True True 0 2 demo_hal_frame demo_world =
     (Some \<lparr>a_ahb = 9, a_timestampNs = 1000, a_sequence = 1\<rparr>, -1, demo_hal_read, demo_world)"
proof -
  have "(\<lambda>(r, fd, h, w). (r, fd, w)) (acquireLatest demo_sys demo_gfx 2 True True 0 2 demo_hal_frame demo_world) =
      (Some \<lparr>a_ahb = 9, a_timestampNs = 1000, a_sequence = 1\<rparr>, -1, demo_world)"
    by code_simp
  then show ?thesis by (auto simp: demo_hal_read_def split: prod.splits)
qed

lemma demo_read_fields: "f_inflight (mLatest demo_hal_read 2) = 1" "f_ahb (mLatest demo_hal_read 2) = Some 9"
  "f_sequence (mLatest demo_hal_read 2) = 1"
  by code_simp+



text \<open>
  C9: however many capture requests read frames and however their fences fail
  to merge, the read fences a slot holds plus those its readers in flight may still record
  never exceed 16 times the number \<open>K\<close> of fences one reader records.
\<close>

theorem pending_reads_bounded:
  assumes "hal_start h0" and "1 \<le> K" and "hal_run S G K (h0, w0) (h, w)"
  shows "int (length (f_readFences (mLatest h slot))) + K * f_inflight (mLatest h slot) \<le>
    K * kMaxPendingReads"
  using reachable_inv [OF assms(3,1,2)] core_invD(2) [of K h slot]
  by (simp add: hal_inv_def frame_inv_def)

lemma pending_reads_bounded_witness:
  "int (length (f_readFences (mLatest demo_hal_frame 2))) + f_inflight (mLatest demo_hal_frame 2) \<le> 16"
  using pending_reads_bounded [OF demo_start(1) _ demo_frame_run, of 2]
  by (simp add: kMaxPendingReads_def)

text \<open>
  C7: a frame that \<open>acquireLatest\<close> hands out for a configuration belongs to the
  slot's live configuration, is not being retired, is newer than the caller's last frame,
  and, when a producer is registered, that producer has been reported ready for it; the
  reader is counted and no other slot changes.
\<close>

theorem served_frame:
  assumes "hal_start h0" and "1 \<le> K" and "hal_run S G K (h0, w0) (h, w)" and "0 < token"
    and "acquireLatest S G slot want_fd True after token h w = (Some r, fd, h', w')"
  shows "f_ahb (mLatest h slot) = Some (a_ahb r) \<and> f_configurationToken (mLatest h slot) = token \<and>
    mConfigurations h slot = token \<and> \<not> f_retiring (mLatest h slot) \<and> after < a_sequence r \<and>
    (hal_capabilities slot h \<noteq> None \<longrightarrow> mReady h slot) \<and>
    f_inflight (mLatest h' slot) = f_inflight (mLatest h slot) + 1 \<and>
    (\<forall>s. s \<noteq> slot \<longrightarrow> mLatest h' s = mLatest h s)"
  using assms(5)
proof (cases rule: acquireLatestE)
  case (taken a fences)
  have "delivery_ok h slot"
    using reachable_inv [OF assms(3,1,2)] by (simp add: hal_inv_def core_inv_def delivery_inv_def)
  then have "mCapabilities h slot \<noteq> None \<longrightarrow> mReady h slot"
    using taken assms(4) by (auto simp: delivery_ok_def)
  with taken assms(4) show ?thesis by (auto simp: hal_capabilities_def)
qed simp_all

lemma served_frame_witness: "mReady demo_hal_frame 2 \<and> (0 :: 64 word) < 1"
  using served_frame [OF demo_start(1) _ demo_frame_run _ demo_read] 
  by (simp add: hal_capabilities_def demo_frame_fields validSlot_def kMaxVirtualCameras_def)

text \<open>
  If a session later finds its buffer and sequence number current
  (\<open>isFrameCurrent\<close>), then the slot held that very frame all along: a slot that lost a
  frame never gets its sequence number back, so a stale frame cannot be mistaken for the
  current one even when the platform queues the same buffer again.
\<close>

theorem current_frame_never_replaced:
  assumes "hal_start h0" and "1 \<le> K" and "hal_run S G K (h0, w0) (h, w)"
    and "hal_run S G K (h, w) (h', w')"
    and "isFrameCurrent slot (Some a) seq token h'" and "seq \<le> mFramesReceived h"
  shows "f_ahb (mLatest h slot) = Some a \<and> f_sequence (mLatest h slot) = seq \<and>
    \<not> f_retiring (mLatest h slot)"
proof -
  have "hal_le h h'" using hal_run_le [OF assms(4,2)] reachable_inv [OF assms(3,1,2)] by simp
  then have "slot_le h h' slot" by (simp add: hal_le_def)
  moreover have "f_ahb (mLatest h' slot) = Some a" "f_sequence (mLatest h' slot) = seq"
    "\<not> f_retiring (mLatest h' slot)"
    using assms(5) by (auto simp: isFrameCurrent_def Let_def)
  ultimately show ?thesis using assms(6) by (auto simp: slot_le_def same_frame_def)
qed

lemma current_frame_never_replaced_witness: "f_sequence (mLatest demo_hal_frame 2) = 1"
  using current_frame_never_replaced [OF demo_start(1) _ demo_frame_run, of demo_hal_frame demo_world 2 9 1 2]
  by (simp add: isFrameCurrent_def demo_frame_fields validSlot_def kMaxVirtualCameras_def)

section \<open>Queueing a frame\<close>

lemma enqueue_commit_accepted:
  assumes "enqueue_commit S G slot q acq token a h w = (Inr r, h', w')"
  shows "mFramesReceived h' = mFramesReceived h + 1"
    and "mLatest h' slot = \<lparr>f_ahb = Some a, f_timestampNs = q_timestampNs q,
       f_sequence = mFramesReceived h + 1, f_configurationToken = token, f_acquireFence = acq,
       f_readFences = [], f_inflight = 0, f_retiring = False\<rparr>"
    and "admitted slot q token h"
proof -
  obtain free h1 w1 where reap: "reapRetiringLocked S G slot h w = (free, h1, w1)"
    by (metis prod_cases3)
  show "mFramesReceived h' = mFramesReceived h + 1"
    "mLatest h' slot = \<lparr>f_ahb = Some a, f_timestampNs = q_timestampNs q,
       f_sequence = mFramesReceived h + 1, f_configurationToken = token, f_acquireFence = acq,
       f_readFences = [], f_inflight = 0, f_retiring = False\<rparr>"
    "admitted slot q token h"
    using assms reap reap_fields(2) [OF reap]
    by (auto simp: enqueue_commit_def Let_def split: if_splits prod.splits)
qed

text \<open>Where \<open>enqueue\<close> gives the lock up the slot's frame is left with no reader.\<close>

lemma enqueue_admit_run:
  assumes run: "enqueue_admit S G intf slot q token h w = (rejected, h', w')"
    and intf: "\<And>y. hal_run S G K y (intf y)" and inv: "hal_inv K h" and K: "1 \<le> K"
  shows "hal_run S G K (h, w) (h', w')"
    and "rejected = None \<Longrightarrow> f_inflight (mLatest h' slot) = 0"
proof -
  obtain adm h1 w1 where enter: "enqueue_enter S G slot q token h w = (adm, h1, w1)"
    by (metis prod_cases3)
  have "hal_step S G K (h, w) (h1, w1)" using enter by (rule hal_step.enter)
  then have one: "hal_run S G K (h, w) (h1, w1)" by blast
  show "hal_run S G K (h, w) (h', w')"
    using run enter one rtranclp_trans [OF one intf]
    by (auto simp: enqueue_admit_def split: admission.splits prod.splits if_splits)
  assume none: "rejected = None"
  have "frame_inv K (mLatest h1 slot)"
    using hal_run_inv [OF one K] inv core_invD(2) by (simp add: hal_inv_def)
  then have "adm = Clear \<Longrightarrow> f_inflight (mLatest h1 slot) = 0"
    using enter by (auto simp: enqueue_enter_def frame_inv_def split: if_splits prod.splits)
  with none run enter show "f_inflight (mLatest h' slot) = 0"
    by (auto simp: enqueue_admit_def split: admission.splits prod.splits if_splits)
qed



end
