(* ===== verification/Hal_Fds.thy ===== *)
theory Hal_Fds
  imports Hal_Theorems
begin

text \<open>
  Descriptors and fences of the stable HAL: each operation on a frame takes over the
  descriptors it is given, leaks none, closes none twice, and passes every GPU read that
  is still running on to whoever may reuse the buffer.
\<close>

definition fd_list :: "int \<Rightarrow> int list" where
  "fd_list fd = (if 0 \<le> fd then [fd] else [])"

definition frame_fds :: "frame \<Rightarrow> int list" where
  "frame_fds f = fd_list (f_acquireFence f) @ f_readFences f"

text \<open>
  The graphics services are not the owner of any descriptor the HAL sees: they open and
  close none of them, and fences keep what they stand for.
\<close>

definition gfx_neutral :: "'w gfx \<Rightarrow> ('w, 'd) fd_view \<Rightarrow> bool" where
  "gfx_neutral G V \<longleftrightarrow> (\<forall>a w.
     live V (gfx_release G a w) = live V w \<and> covers V (gfx_release G a w) = covers V w \<and>
     running V (gfx_release G a w) \<subseteq> running V w \<and>
     live V (gfx_acquire G a w) = live V w \<and> covers V (gfx_acquire G a w) = covers V w \<and>
     running V (gfx_acquire G a w) \<subseteq> running V w)"

lemma gfx_neutralD:
  assumes "gfx_neutral G V"
  shows "live V (gfx_release G a w) = live V w" "covers V (gfx_release G a w) = covers V w"
    "running V (gfx_release G a w) \<subseteq> running V w"
    "live V (gfx_acquire G a w) = live V w" "covers V (gfx_acquire G a w) = covers V w"
    "running V (gfx_acquire G a w) \<subseteq> running V w"
  using assms by (simp_all add: gfx_neutral_def)

text \<open>
  \<open>dependencies_kept V w rs w' rs'\<close>: every operation that a fence of \<open>rs\<close> stood for and
  that is still running is one that a fence of \<open>rs'\<close> stands for.
\<close>

definition dependencies_kept ::
  "('w, 'd) fd_view \<Rightarrow> 'w \<Rightarrow> int list \<Rightarrow> 'w \<Rightarrow> int list \<Rightarrow> bool" where
  "dependencies_kept V w rs w' rs' \<longleftrightarrow> running V w' \<subseteq> running V w \<and>
     (\<forall>d \<in> running V w'. \<forall>x \<in> set rs. d \<in> covers V w x \<longrightarrow> (\<exists>y \<in> set rs'. d \<in> covers V w' y))"

lemma dependencies_kept_trans [trans]:
  assumes "dependencies_kept V w rs w1 rs1" "dependencies_kept V w1 rs1 w2 rs2"
  shows "dependencies_kept V w rs w2 rs2"
  unfolding dependencies_kept_def
proof (intro conjI ballI impI)
  show "running V w2 \<subseteq> running V w" using assms unfolding dependencies_kept_def by blast
  fix d x assume d: "d \<in> running V w2" and x: "x \<in> set rs" "d \<in> covers V w x"
  then have "d \<in> running V w1" using assms(2) unfolding dependencies_kept_def by blast
  then obtain y where "y \<in> set rs1" "d \<in> covers V w1 y"
    using assms(1) x unfolding dependencies_kept_def by blast
  then show "\<exists>y \<in> set rs2. d \<in> covers V w2 y"
    using assms(2) d unfolding dependencies_kept_def by blast
qed

lemma fd_exchange_iff: "fd_exchange V w fs w' fs' \<longleftrightarrow> fd_own V w fs w' fs' \<and> dependencies_kept V w fs w' fs'"
  by (auto simp: fd_exchange_def fd_own_def dependencies_kept_def)

lemma dependencies_kept_same:
  assumes "running V w' \<subseteq> running V w" "\<And>x. x \<in> set rs \<Longrightarrow> covers V w' x = covers V w x"
  shows "dependencies_kept V w rs w' rs"
  using assms unfolding dependencies_kept_def by (metis (no_types, lifting))

section \<open>Single calls\<close>

lemma closeFd_own:
  assumes laws: "sync_laws S V" and fs: "distinct (fd_list fd @ fs)" "set (fd_list fd @ fs) \<subseteq> live V w"
  shows "fd_own V w (fd_list fd @ fs) (closeFd S fd w) fs"
    and "\<And>x. x \<noteq> fd \<Longrightarrow> covers V (closeFd S fd w) x = covers V w x"
    and "running V (closeFd S fd w) \<subseteq> running V w"
proof -
  have neg: "fd < 0 \<Longrightarrow> closeFd S fd w = w" by (simp add: closeFd_def)
  show cov: "\<And>x. x \<noteq> fd \<Longrightarrow> covers V (closeFd S fd w) x = covers V w x"
    and run: "running V (closeFd S fd w) \<subseteq> running V w"
    using sync_closeD [OF laws] by (simp_all add: closeFd_def)
  have "live V (closeFd S fd w) = live V w - set (fd_list fd)"
    using sync_closeD(1) [OF laws] by (simp add: closeFd_def fd_list_def)
  then show "fd_own V w (fd_list fd @ fs) (closeFd S fd w) fs"
    using fs cov run neg unfolding fd_own_def by (cases "fd < 0") (auto simp: fd_list_def)
qed

lemma closeFd_drop:
  assumes "sync_laws S V" "distinct (fd_list fd @ fs)" "set (fd_list fd @ fs) \<subseteq> live V w"
    and "set rs \<subseteq> set fs"
  shows "dependencies_kept V w rs (closeFd S fd w) rs"
proof (rule dependencies_kept_same)
  show "running V (closeFd S fd w) \<subseteq> running V w" using closeFd_own(3) [OF assms(1-3)] .
  show "covers V (closeFd S fd w) x = covers V w x" if "x \<in> set rs" for x
  proof (cases "0 \<le> fd")
    case True
    then have "x \<noteq> fd" using that assms(2,4) by (auto simp: fd_list_def)
    then show ?thesis using closeFd_own(2) [OF assms(1-3)] by simp
  qed (simp add: closeFd_def)
qed

lemma release_opt_own:
  assumes "gfx_neutral G V" "distinct fs" "set fs \<subseteq> live V w"
  shows "fd_own V w fs (release_opt G a w) fs" "dependencies_kept V w rs (release_opt G a w) rs"
  using assms gfx_neutralD [OF assms(1)]
  by (auto simp: release_opt_def fd_own_def dependencies_kept_def split: option.splits)

lemma gfx_release_own:
  assumes "gfx_neutral G V" "distinct fs" "set fs \<subseteq> live V w"
  shows "fd_own V w fs (gfx_release G a w) fs" "dependencies_kept V w rs (gfx_release G a w) rs"
  using release_opt_own [OF assms, where a = "Some a"] by (simp_all add: release_opt_def)

section \<open>Freeing a frame\<close>

text \<open>Adding the untouched acquire fence to an exchange of the read fences.\<close>

lemma exchange_frame:
  assumes ex: "fd_exchange V w rs w' rs'" and owned: "distinct (gs @ rs)" "set (gs @ rs) \<subseteq> live V w"
  shows "fd_own V w (gs @ rs) w' (gs @ rs')" "dependencies_kept V w rs w' rs'"
  using fd_exchange_append_left [OF ex owned(1)] owned(2) ex by (auto simp: fd_exchange_iff)

lemma fd_own_owned: "fd_own V w fs w' fs' \<Longrightarrow> distinct fs' \<and> set fs' \<subseteq> live V w'"
  by (auto simp: fd_own_def)

lemma frame_fds_empty [simp]: "frame_fds empty_frame = []"
  by (simp add: frame_fds_def fd_list_def)

lemma reap_fds:
  assumes laws: "sync_laws S V" and neutral: "gfx_neutral G V"
    and owned: "distinct (frame_fds (mLatest h slot))" "set (frame_fds (mLatest h slot)) \<subseteq> live V w"
    and run: "reapRetiringLocked S G slot h w = (free, h', w')"
  shows "fd_own V w (frame_fds (mLatest h slot)) w' (frame_fds (mLatest h' slot)) \<and>
    dependencies_kept V w (f_readFences (mLatest h slot)) w' (f_readFences (mLatest h' slot))"
proof -
  let ?cur = "mLatest h slot"
  let ?acq = "fd_list (f_acquireFence ?cur)"
  obtain ready fences w1 where ret:
    "retiredFrameReady S (f_inflight ?cur) (f_readFences ?cur) w = (ready, fences, w1)"
    by (metis prod_cases3)
  have own: "distinct (f_readFences ?cur)" "set (f_readFences ?cur) \<subseteq> live V w"
    using owned by (simp_all add: frame_fds_def)
  note ex = exchange_frame [OF retiredFrameReady_exchange [OF laws own ret], of ?acq]
  have one: "fd_own V w (?acq @ f_readFences ?cur) w1 (?acq @ fences)"
    "dependencies_kept V w (f_readFences ?cur) w1 fences"
    using ex owned by (simp_all add: frame_fds_def)
  show ?thesis
  proof (cases "f_retiring ?cur")
    case False
    then have "h' = h" "w' = w" using run by (simp_all add: reapRetiringLocked_def)
    then show ?thesis using owned by (auto simp: fd_own_refl dependencies_kept_def)
  next
    case retiring: True
    show ?thesis
    proof (cases ready)
      case False
      then have "mLatest h' slot = ?cur\<lparr>f_readFences := fences\<rparr>" "w' = w1"
        using run retiring ret by (auto simp: reapRetiringLocked_def Let_def)
      then show ?thesis using one by (simp add: frame_fds_def)
    next
      case True
      then have none: "fences = []" using ret by (auto simp: retiredFrameReady_def split: prod.splits)
      let ?w2 = "release_opt G (f_ahb ?cur) w1"
      have end_: "mLatest h' slot = empty_frame" "w' = closeFd S (f_acquireFence ?cur) ?w2"
        using run retiring ret True by (auto simp: reapRetiringLocked_def Let_def)
      have acq: "distinct ?acq" "set ?acq \<subseteq> live V w1" using fd_own_owned [OF one(1)] none by auto
      note rel = release_opt_own(1) [OF neutral acq, where a = "f_ahb ?cur"]
        release_opt_own(2) [OF neutral acq, where a = "f_ahb ?cur" and rs = "[]"]
      have "distinct (?acq @ [])" "set (?acq @ []) \<subseteq> live V ?w2" using fd_own_owned [OF rel(1)] by auto
      note cl = closeFd_own(1) [OF laws this] closeFd_drop [OF laws this, of "[]"]
      have "fd_own V w (?acq @ f_readFences ?cur) w' []"
        using fd_own_trans [OF one(1)] fd_own_trans [OF rel(1)] cl(1) none end_ by simp
      moreover have "dependencies_kept V w (f_readFences ?cur) w' []"
        using dependencies_kept_trans [OF one(2)] dependencies_kept_trans [OF rel(2)] cl(2) none end_ by simp
      ultimately show ?thesis using end_ by (simp add: frame_fds_def fd_list_def [of "-1"])
    qed
  qed
qed

section \<open>Replacing a frame\<close>

text \<open>Replacing the owned list by a permutation, on either side.\<close>

lemma fd_own_permute:
  assumes "fd_own V w fs w' fs'" "distinct gs" "set gs = set fs" "distinct gs'" "set gs' = set fs'"
  shows "fd_own V w gs w' gs'"
  using assms(1,3-5) by (intro fd_own_cong_set [OF assms(1)]) simp_all

lemma enqueue_commit_fds:
  assumes laws: "sync_laws S V" and neutral: "gfx_neutral G V"
    and owned: "distinct (fd_list acq @ frame_fds (mLatest h slot))"
      "set (fd_list acq @ frame_fds (mLatest h slot)) \<subseteq> live V w"
    and run: "enqueue_commit S G slot q acq token a h w = (res, h', w')"
  shows "case res of
      Inl code \<Rightarrow> fd_own V w (fd_list acq @ frame_fds (mLatest h slot)) w' (frame_fds (mLatest h' slot))
    | Inr retired \<Rightarrow>
        fd_own V w (fd_list acq @ frame_fds (mLatest h slot)) w'
          (fd_list retired @ frame_fds (mLatest h' slot)) \<and>
        dependencies_kept V w (f_readFences (mLatest h slot)) w' (fd_list retired)"
proof -
  let ?old = "frame_fds (mLatest h slot)" let ?a = "fd_list acq"
  have reject: "fd_own V w (?a @ ?old) (closeFd S acq (gfx_release G a w1)) fs"
    if "fd_own V w (?a @ ?old) w1 (?a @ fs)" for w1 fs
  proof -
    note o1 = fd_own_owned [OF that]
    note rel = gfx_release_own(1) [OF neutral conjunct1 [OF o1] conjunct2 [OF o1], of a]
    note o2 = fd_own_owned [OF rel]
    show ?thesis
      using fd_own_trans [OF that fd_own_trans [OF rel closeFd_own(1) [OF laws]]] o2 by blast
  qed
  show ?thesis
  proof (cases "admitted slot q token h")
    case False
    then show ?thesis
      using run reject [OF fd_own_refl [OF owned]] by (auto simp: enqueue_commit_def Let_def)
  next
    case adm: True
    obtain free h1 w1 where reap: "reapRetiringLocked S G slot h w = (free, h1, w1)"
      by (metis prod_cases3)
    have old: "distinct ?old" "set ?old \<subseteq> live V w" using owned by auto
    note rp = reap_fds [OF laws neutral old reap]
    let ?cur = "mLatest h1 slot"
    have own1: "fd_own V w (?a @ ?old) w1 (?a @ frame_fds ?cur)"
      using fd_own_append_left [OF conjunct1 [OF rp], of ?a] owned by simp
    show ?thesis
    proof (cases free)
      case False
      then show ?thesis
        using run reject [OF own1] adm reap by (auto simp: enqueue_commit_def Let_def)
    next
      case True
      obtain ok fences w2 where
        cons: "consolidateReadFences S (f_readFences ?cur) w1 = (ok, fences, w2)"
        by (metis prod_cases3)
      let ?b = "fd_list (f_acquireFence ?cur)"
      have live1: "distinct ((?a @ ?b) @ f_readFences ?cur)" "set ((?a @ ?b) @ f_readFences ?cur) \<subseteq> live V w1"
        using fd_own_owned [OF own1] by (simp_all add: frame_fds_def)
      then have rs: "distinct (f_readFences ?cur)" "set (f_readFences ?cur) \<subseteq> live V w1" by simp_all
      note ce = consolidateReadFences_exchange [OF laws rs cons]
      note ex = exchange_frame [OF conjunct1 [OF ce] live1]
      have own2: "fd_own V w (?a @ ?old) w2 ((?a @ ?b) @ fences)"
        using fd_own_trans [OF own1] ex(1) by (simp add: frame_fds_def)
      have dep2: "dependencies_kept V w (f_readFences (mLatest h slot)) w2 fences"
        using dependencies_kept_trans [OF conjunct2 [OF rp] ex(2)] .
      show ?thesis
      proof (cases ok)
        case False
        have "fd_own V w (?a @ ?old) w2 (?a @ frame_fds (?cur\<lparr>f_readFences := fences\<rparr>))"
          using own2 by (simp add: frame_fds_def)
        from reject [OF this] show ?thesis
          using run adm reap True cons False by (auto simp: enqueue_commit_def Let_def)
      next
        case merged: True
        let ?retired = "if fences = [] then -1 else last fences"
        have one: "length fences \<le> 1" using ce merged by simp
        have nonneg: "\<forall>x \<in> set fences. 0 \<le> x"
          using fd_own_owned [OF own2] laws unfolding sync_laws_def by auto
        have fences: "fd_list ?retired = fences"
          using one nonneg by (cases fences) (auto simp: fd_list_def)
        let ?w3 = "release_opt G (f_ahb ?cur) w2"
        have end_: "res = Inr ?retired" "f_acquireFence (mLatest h' slot) = acq"
          "f_readFences (mLatest h' slot) = []" "w' = closeFd S (f_acquireFence ?cur) ?w3"
          using run adm reap True cons merged by (auto simp: enqueue_commit_def Let_def)
        have ord: "distinct (?b @ fences @ ?a)" "set (?b @ fences @ ?a) \<subseteq> live V w2"
          using fd_own_owned [OF own2] by auto
        then have own2': "fd_own V w (?a @ ?old) w2 (?b @ fences @ ?a)"
          by (intro fd_own_permute [OF own2 owned(1) refl]) auto
        note rel = release_opt_own [OF neutral ord, where a = "f_ahb ?cur"]
        note o3 = fd_own_owned [OF rel(1)]
        note cl = closeFd_own(1) [OF laws conjunct1 [OF o3] conjunct2 [OF o3]]
          closeFd_drop [OF laws conjunct1 [OF o3] conjunct2 [OF o3], of fences]
        have "fd_own V w (?a @ ?old) w' (fences @ ?a)"
          using fd_own_trans [OF own2' fd_own_trans [OF rel(1) cl(1)]] end_ by simp
        moreover have "dependencies_kept V w (f_readFences (mLatest h slot)) w' fences"
          using dependencies_kept_trans [OF dep2 dependencies_kept_trans [OF rel(2) cl(2)]] end_ by simp
        ultimately show ?thesis using end_ fences by (simp add: frame_fds_def)
      qed
    qed
  qed
qed


lemma demo_gfx_neutral: "gfx_neutral demo_gfx V"
  by (simp add: gfx_neutral_def demo_gfx_def)

text \<open>Slot 2 holds a frame with the two read fences 10 and 11; the next frame comes with fence 12.\<close>

definition demo_hal_fenced :: hal where
  "demo_hal_fenced = set_frame demo_hal_frame 2 ((mLatest demo_hal_frame 2)\<lparr>f_readFences := [10, 11]\<rparr>)"


section \<open>Readers\<close>

lemma releaseFrame_fds:
  assumes laws: "sync_laws S V" and neutral: "gfx_neutral G V"
    and held: "validSlot slot" "f_ahb (mLatest h slot) = a"
    and owned: "distinct (frame_fds (mLatest h slot) @ fs)" "set (frame_fds (mLatest h slot) @ fs) \<subseteq> live V w"
    and run: "releaseFrame S G slot a fs h w = (h', w')"
  shows "fd_own V w (frame_fds (mLatest h slot) @ fs) w' (frame_fds (mLatest h' slot)) \<and>
    dependencies_kept V w (f_readFences (mLatest h slot) @ fs) w' (f_readFences (mLatest h' slot))"
proof -
  let ?cur = "mLatest h slot" let ?b = "fd_list (f_acquireFence ?cur)"
  obtain ok fences w1 where cons: "consolidateReadFences S (f_readFences ?cur @ fs) w = (ok, fences, w1)"
    by (metis prod_cases3)
  have rs: "distinct (f_readFences ?cur @ fs)" "set (f_readFences ?cur @ fs) \<subseteq> live V w"
    using owned by (auto simp: frame_fds_def)
  have all: "distinct (?b @ (f_readFences ?cur @ fs))" "set (?b @ (f_readFences ?cur @ fs)) \<subseteq> live V w"
    using owned by (auto simp: frame_fds_def)
  note ex = exchange_frame [OF conjunct1 [OF consolidateReadFences_exchange [OF laws rs cons]] all]
  let ?cur1 = "?cur\<lparr>f_readFences := fences,
      f_inflight := (if 0 < f_inflight ?cur then f_inflight ?cur - 1 else f_inflight ?cur)\<rparr>"
  let ?h1 = "set_frame h slot ?cur1"
  have one: "fd_own V w (frame_fds ?cur @ fs) w1 (frame_fds (mLatest ?h1 slot))"
    "dependencies_kept V w (f_readFences ?cur @ fs) w1 (f_readFences (mLatest ?h1 slot))"
    using ex by (simp_all add: frame_fds_def)
  obtain h2 w2 where step: "(if f_retiring ?cur then snd (reapRetiringLocked S G slot ?h1 w1) else (?h1, w1)) = (h2, w2)"
    by fastforce
  note o1 = fd_own_owned [OF one(1)]
  have two: "fd_own V w1 (frame_fds (mLatest ?h1 slot)) w2 (frame_fds (mLatest h2 slot)) \<and>
      dependencies_kept V w1 (f_readFences (mLatest ?h1 slot)) w2 (f_readFences (mLatest h2 slot))"
  proof (cases "f_retiring ?cur")
    case True
    then have "reapRetiringLocked S G slot ?h1 w1 = (fst (reapRetiringLocked S G slot ?h1 w1), h2, w2)"
      using step by (simp add: prod_eq_iff)
    from reap_fds [OF laws neutral conjunct1 [OF o1] conjunct2 [OF o1] this] show ?thesis .
  next
    case False
    then have "h2 = ?h1" "w2 = w1" using step by auto
    then show ?thesis using fd_own_refl [OF conjunct1 [OF o1] conjunct2 [OF o1]]
      by (simp add: dependencies_kept_def)
  qed
  note o2 = fd_own_owned [OF conjunct1 [OF two]]
  note rel = release_opt_own(1) [OF neutral conjunct1 [OF o2] conjunct2 [OF o2], of a]
    release_opt_own(2) [OF neutral conjunct1 [OF o2] conjunct2 [OF o2], of "f_readFences (mLatest h2 slot)" a]
  have "h' = h2" "w' = release_opt G a w2"
    using run held cons step by (auto simp: releaseFrame_def Let_def)
  then show ?thesis
    using fd_own_trans [OF one(1) fd_own_trans [OF conjunct1 [OF two] rel(1)]]
      dependencies_kept_trans [OF one(2) dependencies_kept_trans [OF conjunct2 [OF two] rel(2)]]
    by simp
qed

text \<open>
  C8: a capture request that gives its frame back hands its read fences over:
  each is recorded, merged or, when its read has completed, closed, and every read still
  running, its own and the earlier ones, stays recorded with the frame.
\<close>

theorem release_records_reads:
  assumes "sync_laws S V" and "gfx_neutral G V"
    and "validSlot slot" and "f_ahb (mLatest h slot) = a"
    and "distinct (frame_fds (mLatest h slot) @ fs)"
    and "set (frame_fds (mLatest h slot) @ fs) \<subseteq> live V w"
    and "releaseFrame S G slot a fs h w = (h', w')"
  shows "fd_own V w (frame_fds (mLatest h slot) @ fs) w' (frame_fds (mLatest h' slot)) \<and>
    dependencies_kept V w (f_readFences (mLatest h slot) @ fs) w' (f_readFences (mLatest h' slot))"
  using assms by (rule releaseFrame_fds)

lemma release_records_reads_witness:
  "\<exists>h' w'. releaseFrame demo_sys demo_gfx 2 (Some 9) [12] demo_hal_fenced demo_world = (h', w') \<and>
    dependencies_kept demo_view demo_world ([10, 11] @ [12]) w' (f_readFences (mLatest h' 2))"
proof -
  obtain h' w' where r: "releaseFrame demo_sys demo_gfx 2 (Some 9) [12] demo_hal_fenced demo_world = (h', w')"
    by fastforce
  have fr: "f_ahb (mLatest demo_hal_fenced 2) = Some 9" "f_readFences (mLatest demo_hal_fenced 2) = [10, 11]"
    "frame_fds (mLatest demo_hal_fenced 2) = [10, 11]"
    by (simp_all add: demo_hal_fenced_def demo_frame_fields frame_fds_def fd_list_def)
  have "set ([10, 11] @ [12 :: int]) \<subseteq> live demo_view demo_world"
    by (simp add: demo_view_def fw_open_def demo_world_def)
  then show ?thesis
    using release_records_reads [OF demo_sync_laws demo_gfx_neutral _ fr(1) _ _ r] r fr
    by (simp add: validSlot_def kMaxVirtualCameras_def)
qed

end
