(* ===== verification/Metadata.thy ===== *)
theory Metadata
  imports Producer_Caps "HOL-Library.Product_Lexorder"
begin

text \<open>
  \<open>hal/core/MetadataBuilder.cpp\<close> and \<open>hal/core/VendorTags.cpp\<close>: the static characteristics of
  a camera, the default request settings, the metadata of one result, and the vendor tag
  section. The \<open>camera_metadata\<close> library is not under src/; a metadata buffer is the list of
  the entries added to it, in order, with the tag, and the values with their type. Numeric
  constants of \<open>system/camera_metadata.h\<close> stay symbolic as constructors.
\<close>

section \<open>Entries\<close>

datatype md_tag =
    LENS_FACING | SENSOR_ORIENTATION | SCALER_AVAILABLE_STREAM_CONFIGURATIONS
  | SCALER_AVAILABLE_MIN_FRAME_DURATIONS | SCALER_AVAILABLE_STALL_DURATIONS
  | INFO_SUPPORTED_HARDWARE_LEVEL | REQUEST_AVAILABLE_CAPABILITIES
  | REQUEST_PARTIAL_RESULT_COUNT | CONTROL_AVAILABLE_MODES | CONTROL_AE_AVAILABLE_MODES
  | CONTROL_AWB_AVAILABLE_MODES | CONTROL_AF_AVAILABLE_MODES | SCALER_CROPPING_TYPE
  | JPEG_MAX_SIZE | JPEG_AVAILABLE_THUMBNAIL_SIZES | CONTROL_ZOOM_RATIO_RANGE
  | SENSOR_INFO_ACTIVE_ARRAY_SIZE | SCALER_AVAILABLE_MAX_DIGITAL_ZOOM | SCALER_CROP_REGION
  | CONTROL_AE_AVAILABLE_TARGET_FPS_RANGES | SENSOR_INFO_PIXEL_ARRAY_SIZE
  | SENSOR_INFO_MAX_FRAME_DURATION | REQUEST_MAX_NUM_OUTPUT_STREAMS
  | REQUEST_AVAILABLE_REQUEST_KEYS | REQUEST_AVAILABLE_RESULT_KEYS
  | REQUEST_AVAILABLE_CHARACTERISTICS_KEYS | CONTROL_MODE | CONTROL_AE_MODE | CONTROL_AWB_MODE
  | CONTROL_AE_TARGET_FPS_RANGE | CONTROL_ZOOM_RATIO | JPEG_QUALITY | JPEG_ORIENTATION
  | SENSOR_TIMESTAMP | SENSOR_FRAME_DURATION | VENDOR_TAG int

datatype md_enum =
    STREAM_CONFIGURATIONS_OUTPUT | HARDWARE_LEVEL_EXTERNAL | CAPABILITIES_BACKWARD_COMPATIBLE
  | MODE_OFF | MODE_AUTO | AE_MODE_ON | AWB_MODE_AUTO | AF_MODE_OFF | CROPPING_TYPE_CENTER_ONLY

text \<open>
  \<open>I32\<close> and \<open>I64\<close> are the integer types, \<open>U8\<close> a byte, \<open>Enums\<close> symbolic byte
  values, \<open>Keys\<close> a list of tags. \<open>Floats\<close> holds the whole numbers the code writes as
  \<open>1.0f\<close>. A stream configuration is three numbers and the symbolic direction.
\<close>

datatype md_values =
    U8 "int list" | I32 "int list" | I64 "int list" | Floats "int list" | Enums "md_enum list"
  | Keys "md_tag list" | Configurations "(int \<times> int \<times> int \<times> md_enum) list"

type_synonym metadata = "(md_tag \<times> md_values) list"

definition find_entry :: "metadata \<Rightarrow> md_tag \<Rightarrow> md_values option" where
  "find_entry md tag = map_of md tag"

section \<open>Vendor tags\<close>

definition kSection :: int where "kSection = 0x8000"

definition kProducerTimestampNs :: int where
  "kProducerTimestampNs = kSection * 2 ^ 16"

datatype md_type = TYPE_INT64

type_synonym tag_def = "int \<times> string \<times> md_type"

definition kSectionName :: string where "kSectionName = ''com.virtualcamera''"

definition kTags :: "tag_def list" where
  "kTags = [(kProducerTimestampNs, ''producerTimestampNs'', TYPE_INT64)]"

fun find_tag :: "tag_def list \<Rightarrow> int \<Rightarrow> tag_def option" where
  "find_tag [] tag = None"
| "find_tag (d # ds) tag = (if fst d = tag then Some d else find_tag ds tag)"

definition getTagCount :: int where "getTagCount = int (length kTags)"

definition getAllTags :: "int list" where "getAllTags = map fst kTags"

definition getSectionName :: "int \<Rightarrow> string option" where
  "getSectionName tag = (if find_tag kTags tag \<noteq> None then Some kSectionName else None)"

definition getTagName :: "int \<Rightarrow> string option" where
  "getTagName tag = map_option (\<lambda>d. fst (snd d)) (find_tag kTags tag)"

text \<open>\<open>None\<close> is the answer -1.\<close>

definition getTagType :: "int \<Rightarrow> md_type option" where
  "getTagType tag = map_option (\<lambda>d. snd (snd d)) (find_tag kTags tag)"

text \<open>\<open>ICameraProvider.getVendorTags\<close>: the one section with its tags.\<close>

definition getVendorTags :: "(string \<times> tag_def list) list" where
  "getVendorTags = [(kSectionName, map (\<lambda>(i, n, t). (i, n, t)) kTags)]"

section \<open>Characteristics\<close>

definition capabilities_or_diagnostic :: "ProducerCapabilities option \<Rightarrow> ProducerCapabilities" where
  "capabilities_or_diagnostic c = (case c of None \<Rightarrow> diagnostic | Some x \<Rightarrow> x)"

text \<open>The first loop: array size, most pixels, and whether any mode has BLOB output.\<close>

fun scan_modes :: "int \<times> int \<times> int \<times> bool \<Rightarrow> ProducerMode list \<Rightarrow> int \<times> int \<times> int \<times> bool" where
  "scan_modes acc [] = acc"
| "scan_modes (aw, ah, px, jpeg) (m # ms) =
     scan_modes (max aw (m_width m), max ah (m_height m), max px (m_width m * m_height m),
       jpeg \<or> list_ex (\<lambda>f. f = 0x21) (m_formats m)) ms"

text \<open>
  The map from (format, width, height) to the fastest declared rate, \<open>outputs[key] =
  max(outputs[key], maxFps)\<close>, iterated in key order. A new key starts at 0.
\<close>

definition output_keys :: "ProducerCapabilities \<Rightarrow> (int \<times> int \<times> int) list" where
  "output_keys c = sort (remdups (concat (map (\<lambda>m. map (\<lambda>f. (f, m_width m, m_height m)) (m_formats m))
     (modes c))))"

definition output_rate :: "ProducerCapabilities \<Rightarrow> int \<times> int \<times> int \<Rightarrow> int" where
  "output_rate c key = fold (\<lambda>m r. if list_ex (\<lambda>f. (f, m_width m, m_height m) = key) (m_formats m)
     then max r (m_maxFps m) else r) (modes c) 0"

definition stream_configurations :: "ProducerCapabilities \<Rightarrow> (int \<times> int \<times> int \<times> md_enum) list" where
  "stream_configurations c = map (\<lambda>(f, w, h). (f, w, h, STREAM_CONFIGURATIONS_OUTPUT)) (output_keys c)"

definition min_frame_durations :: "ProducerCapabilities \<Rightarrow> int list" where
  "min_frame_durations c = concat (map (\<lambda>(f, w, h).
     [f, w, h, (1000000000 + output_rate c (f, w, h) - 1) div output_rate c (f, w, h)]) (output_keys c))"

definition stall_durations :: "ProducerCapabilities \<Rightarrow> int list" where
  "stall_durations c = concat (map (\<lambda>(f, w, h). [f, w, h, if f = 0x21 then 100000000 else 0]) (output_keys c))"

definition rate_list :: "ProducerCapabilities \<Rightarrow> int list" where
  "rate_list c = concat (map (\<lambda>(l, h). [l, h]) (sorted_list_of_set (fpsRanges c)))"

definition request_keys :: "bool \<Rightarrow> md_tag list" where
  "request_keys jpeg = filter (\<lambda>k. jpeg \<or> k \<noteq> JPEG_QUALITY \<and> k \<noteq> JPEG_ORIENTATION)
     [CONTROL_MODE, CONTROL_AE_MODE, CONTROL_AWB_MODE, CONTROL_AE_TARGET_FPS_RANGE,
      CONTROL_ZOOM_RATIO, JPEG_QUALITY, JPEG_ORIENTATION]"

definition characteristics_keys :: "bool \<Rightarrow> md_tag list" where
  "characteristics_keys jpeg =
     filter (\<lambda>k. jpeg \<or> k \<noteq> JPEG_MAX_SIZE \<and> k \<noteq> JPEG_AVAILABLE_THUMBNAIL_SIZES)
     [LENS_FACING, SENSOR_ORIENTATION, SCALER_AVAILABLE_STREAM_CONFIGURATIONS,
      SCALER_AVAILABLE_MIN_FRAME_DURATIONS, SCALER_AVAILABLE_STALL_DURATIONS,
      INFO_SUPPORTED_HARDWARE_LEVEL, REQUEST_AVAILABLE_CAPABILITIES, REQUEST_PARTIAL_RESULT_COUNT,
      CONTROL_AVAILABLE_MODES, CONTROL_AE_AVAILABLE_MODES, CONTROL_AWB_AVAILABLE_MODES,
      CONTROL_AF_AVAILABLE_MODES, CONTROL_AE_AVAILABLE_TARGET_FPS_RANGES, CONTROL_ZOOM_RATIO_RANGE,
      SCALER_AVAILABLE_MAX_DIGITAL_ZOOM, SCALER_CROPPING_TYPE, SENSOR_INFO_ACTIVE_ARRAY_SIZE,
      JPEG_MAX_SIZE, JPEG_AVAILABLE_THUMBNAIL_SIZES] @
     [SENSOR_INFO_PIXEL_ARRAY_SIZE, SENSOR_INFO_MAX_FRAME_DURATION, REQUEST_MAX_NUM_OUTPUT_STREAMS]"

definition min_fps :: "ProducerCapabilities \<Rightarrow> int" where
  "min_fps c = fold (\<lambda>m r. min r (m_minFps m)) (modes c) 120"

definition buildCameraCharacteristics :: "ProducerCapabilities option \<Rightarrow> metadata" where
  "buildCameraCharacteristics capabilities =
     (let c = capabilities_or_diagnostic capabilities in
      if \<not> caps_valid c then []
      else
        let (aw, ah, px, jpeg) = scan_modes (0, 0, 0, False) (modes c) in
        [(LENS_FACING, U8 [facing c]), (SENSOR_ORIENTATION, I32 [orientation c]),
         (SCALER_AVAILABLE_STREAM_CONFIGURATIONS, Configurations (stream_configurations c)),
         (SCALER_AVAILABLE_MIN_FRAME_DURATIONS, I64 (min_frame_durations c)),
         (SCALER_AVAILABLE_STALL_DURATIONS, I64 (stall_durations c)),
         (INFO_SUPPORTED_HARDWARE_LEVEL, Enums [HARDWARE_LEVEL_EXTERNAL]),
         (REQUEST_AVAILABLE_CAPABILITIES, Enums (if jpeg then [CAPABILITIES_BACKWARD_COMPATIBLE] else [])),
         (REQUEST_PARTIAL_RESULT_COUNT, I32 [1]),
         (CONTROL_AVAILABLE_MODES, Enums [MODE_OFF, MODE_AUTO]),
         (CONTROL_AE_AVAILABLE_MODES, Enums [AE_MODE_ON]),
         (CONTROL_AWB_AVAILABLE_MODES, Enums [AWB_MODE_AUTO]),
         (CONTROL_AF_AVAILABLE_MODES, Enums [AF_MODE_OFF]),
         (SCALER_CROPPING_TYPE, Enums [CROPPING_TYPE_CENTER_ONLY])] @
        (if jpeg then [(JPEG_MAX_SIZE, I32 [px * 4 + 65536]), (JPEG_AVAILABLE_THUMBNAIL_SIZES, I32 [0, 0])]
         else []) @
        [(CONTROL_ZOOM_RATIO_RANGE, Floats [1, 1]),
         (SENSOR_INFO_ACTIVE_ARRAY_SIZE, I32 [0, 0, aw, ah]),
         (SCALER_AVAILABLE_MAX_DIGITAL_ZOOM, Floats [1]),
         (SCALER_CROP_REGION, I32 [0, 0, aw, ah]),
         (CONTROL_AE_AVAILABLE_TARGET_FPS_RANGES, I32 (rate_list c)),
         (SENSOR_INFO_PIXEL_ARRAY_SIZE, I32 [aw, ah]),
         (SENSOR_INFO_MAX_FRAME_DURATION, I64 [1000000000 div min_fps c]),
         (REQUEST_MAX_NUM_OUTPUT_STREAMS, I32 [0, min 2 (maxStreams c), if jpeg then 1 else 0]),
         (REQUEST_AVAILABLE_REQUEST_KEYS, Keys (request_keys jpeg)),
         (REQUEST_AVAILABLE_RESULT_KEYS, Keys [SENSOR_TIMESTAMP, SENSOR_FRAME_DURATION,
            CONTROL_ZOOM_RATIO, SCALER_CROP_REGION, VENDOR_TAG kProducerTimestampNs]),
         (REQUEST_AVAILABLE_CHARACTERISTICS_KEYS, Keys (characteristics_keys jpeg))])"

section \<open>Stream combinations, request templates and results\<close>

record StreamDesc =
  sd_format :: int
  sd_width :: int
  sd_height :: int
  sd_useCase :: int
  sd_input :: bool
  sd_rotation :: int

definition output_of_desc :: "StreamDesc \<Rightarrow> Output" where
  "output_of_desc s = \<lparr>o_format = sd_format s, o_width = sd_width s, o_height = sd_height s\<rparr>"

fun collect_outputs :: "StreamDesc list \<Rightarrow> Output list option" where
  "collect_outputs [] = Some []"
| "collect_outputs (s # ss) =
     (if sd_input s \<or> sd_useCase s \<noteq> 0 \<or> sd_rotation s \<noteq> 0 then None
      else map_option (Cons (output_of_desc s)) (collect_outputs ss))"

definition isStreamCombinationSupported :: "StreamDesc list \<Rightarrow> ProducerCapabilities option \<Rightarrow> bool" where
  "isStreamCombinationSupported streams capabilities =
     (let c = capabilities_or_diagnostic capabilities in
      case collect_outputs streams of
        None \<Rightarrow> False
      | Some outs \<Rightarrow> select c outs 0 0 \<noteq> None)"

definition kJpegMaxSize :: int where
  "kJpegMaxSize = 3840 * 2160 * 4 + 65536"

definition buildDefaultRequestSettings :: "ProducerCapabilities option \<Rightarrow> metadata" where
  "buildDefaultRequestSettings capabilities =
     (let (low, high) = (case capabilities of None \<Rightarrow> (30, 30) | Some c \<Rightarrow> defaultRange c);
          jpeg = (case capabilities of None \<Rightarrow> True
            | Some c \<Rightarrow> list_ex (\<lambda>m. list_ex (\<lambda>f. f = 0x21) (m_formats m)) (modes c)) in
      [(CONTROL_MODE, Enums [MODE_AUTO]), (CONTROL_AE_MODE, Enums [AE_MODE_ON]),
       (CONTROL_AWB_MODE, Enums [AWB_MODE_AUTO]), (CONTROL_AE_TARGET_FPS_RANGE, I32 [low, high])] @
      (if jpeg then [(JPEG_QUALITY, U8 [90]), (JPEG_ORIENTATION, I32 [0])] else []) @
      [(CONTROL_ZOOM_RATIO, Floats [1])])"

definition buildResultMetadata :: "int \<Rightarrow> int \<Rightarrow> int \<Rightarrow> int \<Rightarrow> int \<Rightarrow> metadata" where
  "buildResultMetadata timestamp frameDurationNs producerTimestampNs width height =
     [(SENSOR_TIMESTAMP, I64 [timestamp]), (SENSOR_FRAME_DURATION, I64 [frameDurationNs])] @
     (if 0 < producerTimestampNs then [(VENDOR_TAG kProducerTimestampNs, I64 [producerTimestampNs])] else []) @
     [(CONTROL_ZOOM_RATIO, Floats [1]), (SCALER_CROP_REGION, I32 [0, 0, width, height])]"

section \<open>What is advertised is supported\<close>

lemma set_output_keys:
  "(f, w, h) \<in> set (output_keys c) \<longleftrightarrow>
     (\<exists>m \<in> set (modes c). f \<in> set (m_formats m) \<and> m_width m = w \<and> m_height m = h)"
  by (auto simp: output_keys_def)

lemma select_single:
  assumes valid: "caps_valid c" and m: "m \<in> set (modes c)" "f \<in> set (m_formats m)"
  shows "select c [\<lparr>o_format = f, o_width = m_width m, o_height = m_height m\<rparr>] 0 0 \<noteq> None"
proof
  let ?outs = "[\<lparr>o_format = f, o_width = m_width m, o_height = m_height m\<rparr>]"
  assume none: "select c ?outs 0 0 = None"
  have adv: "list_all (advertised c) ?outs" using m by (auto simp: advertised_def list_ex_iff)
  have jpeg: "jpeg_count ?outs \<le> 1" "int (length ?outs) - int (jpeg_count ?outs) \<le> 2"
    by (simp_all add: jpeg_count_def)
  have "best_so_far ?outs 0 0 (set (modes c)) None"
    using select_best [OF valid _ _ _ adv jpeg, of 0 0] caps_validD(6) [OF valid] none by simp
  then have "\<not> candidate ?outs 0 0 m" using m by (simp add: best_so_far_def)
  then show False using m by (simp add: candidate_def rate_skipped_def output_fits_def)
qed

definition plain_output :: "int \<Rightarrow> int \<Rightarrow> int \<Rightarrow> StreamDesc" where
  "plain_output f w h = \<lparr>sd_format = f, sd_width = w, sd_height = h, sd_useCase = 0, sd_input = False,
     sd_rotation = 0\<rparr>"

text \<open>
  C14: every stream configuration in a camera's characteristics is one
  that the device and the session accept as a stream of its own.
\<close>

theorem advertised_configs_supported:
  assumes "caps_valid c"
    and "find_entry (buildCameraCharacteristics (Some c)) SCALER_AVAILABLE_STREAM_CONFIGURATIONS =
      Some (Configurations cfgs)"
    and "(f, w, h, d) \<in> set cfgs"
  shows "isStreamCombinationSupported [plain_output f w h] (Some c)"
proof -
  have "cfgs = stream_configurations c"
    using assms(1,2) by (auto simp: find_entry_def buildCameraCharacteristics_def
        capabilities_or_diagnostic_def split: prod.splits)
  then have "(f, w, h) \<in> set (output_keys c)"
    using assms(3) by (auto simp: stream_configurations_def)
  then obtain m where "m \<in> set (modes c)" "f \<in> set (m_formats m)" "m_width m = w" "m_height m = h"
    by (auto simp: set_output_keys)
  then show ?thesis
    using select_single [OF assms(1), of m f]
    by (simp add: isStreamCombinationSupported_def capabilities_or_diagnostic_def plain_output_def
        output_of_desc_def)
qed

theorem advertised_configs_supported_witness:
  "isStreamCombinationSupported [plain_output 33 640 480] (Some diagnostic)"
proof -
  have cfgs: "find_entry (buildCameraCharacteristics (Some diagnostic)) SCALER_AVAILABLE_STREAM_CONFIGURATIONS =
      Some (Configurations (stream_configurations diagnostic))"
    by (simp add: find_entry_def buildCameraCharacteristics_def capabilities_or_diagnostic_def
        split: prod.splits)
  have "(33, 640, 480) \<in> set (output_keys diagnostic)"
    unfolding set_output_keys by (simp add: diagnostic_def)
  then have "(33, 640, 480, STREAM_CONFIGURATIONS_OUTPUT) \<in> set (stream_configurations diagnostic)"
    by (force simp: stream_configurations_def)
  from advertised_configs_supported [OF diagnostic_valid cfgs this] show ?thesis .
qed

section \<open>The default request settings\<close>

lemma defaultRange_overlaps:
  assumes valid: "caps_valid c" and m: "m \<in> set (modes c)"
  shows "\<not> rate_skipped (fst (defaultRange c)) (snd (defaultRange c)) m"
proof -
  obtain cl ch gl gh where scan: "range_scan (1, 120, 120, 1) (modes c) = (cl, ch, gl, gh)"
    by (metis prod_cases4)
  have ok: "\<forall>m \<in> set (modes c). 1 \<le> m_minFps m \<and> m_minFps m \<le> m_maxFps m \<and> m_maxFps m \<le> 120"
    using caps_validD(5) [OF valid] by (auto simp: mode_ok_def)
  note b = range_scan_bounds [OF scan ok]
  have mb: "gl \<le> m_minFps m" "m_maxFps m \<le> gh" "m_minFps m \<le> cl" "ch \<le> m_maxFps m" "m_minFps m \<le> m_maxFps m"
    using b m ok by auto
  have "1 \<le> fst (defaultRange c)" "fst (defaultRange c) \<le> snd (defaultRange c)"
    using defaultRange_bounds [OF valid] by auto
  moreover have "m_minFps m \<le> snd (defaultRange c)" "fst (defaultRange c) \<le> m_maxFps m"
    using mb scan by (auto simp: defaultRange_def std_clamp_def Let_def)
  ultimately show ?thesis by (simp add: rate_skipped_def)
qed

lemma select_default_range:
  assumes "select c outs 0 0 = Some m"
  shows "\<exists>m'. select c outs (fst (defaultRange c)) (snd (defaultRange c)) = Some m'"
proof -
  note D = select_SomeD [OF assms]
  have "(fst (defaultRange c), snd (defaultRange c)) \<in> fpsRanges c" by (simp add: fpsRanges_eq)
  then have "best_so_far outs (fst (defaultRange c)) (snd (defaultRange c)) (set (modes c))
      (select c outs (fst (defaultRange c)) (snd (defaultRange c)))"
    using D by (intro select_best) auto
  moreover have "candidate outs (fst (defaultRange c)) (snd (defaultRange c)) m"
    using D(9) defaultRange_overlaps [OF D(1,8)] by (simp add: candidate_def)
  ultimately show ?thesis using D(8) by (auto simp: best_so_far_def split: option.splits)
qed

text \<open>
  The frame-rate range of the default request settings is one for
  which a source mode exists, whatever supported streams were configured; so a client that
  sends the template back is never refused because of its rate.
\<close>

theorem default_settings_accepted:
  assumes "select c outs 0 0 = Some m"
    and "find_entry (buildDefaultRequestSettings (Some c)) CONTROL_AE_TARGET_FPS_RANGE = Some (I32 [low, high])"
  shows "\<exists>m'. select c outs low high = Some m'"
proof -
  have "(low, high) = defaultRange c"
    using assms(2) by (auto simp: find_entry_def buildDefaultRequestSettings_def split: prod.splits)
  then show ?thesis using select_default_range [OF assms(1)] by (metis fst_conv snd_conv)
qed

theorem default_settings_accepted_witness:
  "\<exists>m'. select diagnostic [\<lparr>o_format = 35, o_width = 1280, o_height = 720\<rparr>] 30 30 = Some m'"
proof -
  have "select diagnostic [\<lparr>o_format = 35, o_width = 1280, o_height = 720\<rparr>] 0 0 = Some (modes diagnostic ! 2)"
    by (simp add: select_def diagnostic_def caps_valid_def advertised_def jpeg_count_def
        candidate_def rate_skipped_def output_fits_def better_def)
  moreover have "find_entry (buildDefaultRequestSettings (Some diagnostic)) CONTROL_AE_TARGET_FPS_RANGE =
      Some (I32 [30, 30])"
    by (simp add: find_entry_def buildDefaultRequestSettings_def defaultRange_def diagnostic_def std_clamp_def)
  ultimately show ?thesis by (rule default_settings_accepted)
qed

section \<open>The metadata fits its buffer\<close>

text \<open>
  \<open>add_camera_metadata_entry\<close> fails, and the sources ignore it, when the buffer made by
  \<open>allocate_camera_metadata(128, 32768)\<close> is full. An entry takes no data bytes when its
  values fit four bytes, and otherwise their size rounded up to a multiple of eight.
\<close>

fun values_size :: "md_values \<Rightarrow> nat" where
  "values_size (U8 xs) = length xs"
| "values_size (I32 xs) = 4 * length xs"
| "values_size (I64 xs) = 8 * length xs"
| "values_size (Floats xs) = 4 * length xs"
| "values_size (Enums xs) = length xs"
| "values_size (Keys xs) = 4 * length xs"
| "values_size (Configurations xs) = 16 * length xs"

definition data_bytes :: "md_values \<Rightarrow> nat" where
  "data_bytes v = (if values_size v \<le> 4 then 0 else (values_size v + 7) div 8 * 8)"

definition metadata_bytes :: "metadata \<Rightarrow> nat" where
  "metadata_bytes md = sum_list (map (\<lambda>(t, v). data_bytes v) md)"

lemma data_bytes_le: "values_size v \<le> n \<Longrightarrow> data_bytes v \<le> n + 7"
  unfolding data_bytes_def by (auto intro: order_trans [OF div_times_less_eq_dividend])

lemma length_output_keys:
  assumes "caps_valid c"
  shows "length (output_keys c) \<le> 128"
proof -
  have four: "length (m_formats m) \<le> 4" if "m \<in> set (modes c)" for m
    using assms that by (auto simp: caps_valid_def modes_valid_iff split: if_splits)
  have "length (concat (map (\<lambda>m. map (\<lambda>f. (f, m_width m, m_height m)) (m_formats m)) ms)) \<le> 4 * length ms"
    if "set ms \<subseteq> set (modes c)" for ms
    using that four by (induction ms) (fastforce)+
  from this [of "modes c"] have "length (output_keys c) \<le> 4 * length (modes c)"
    unfolding output_keys_def by (simp add: order_trans [OF length_remdups_leq])
  then show ?thesis using caps_validD(3) [OF assms] by simp
qed

lemma card_mode_ranges: "card (mode_ranges m) \<le> 6"
proof -
  have "mode_ranges m \<subseteq> set [(m_minFps m, m_maxFps m), (m_minFps m, m_minFps m), (m_maxFps m, m_maxFps m),
      (30, 30), (m_minFps m, 30), (30, m_maxFps m)]"
    by (auto simp: mode_ranges_def)
  then have "card (mode_ranges m) \<le> card (set [(m_minFps m, m_maxFps m), (m_minFps m, m_minFps m),
      (m_maxFps m, m_maxFps m), (30, 30), (m_minFps m, 30), (30, m_maxFps m)])"
    by (intro card_mono) simp_all
  also have "\<dots> \<le> 6" by (rule order_trans [OF card_length]) simp
  finally show ?thesis .
qed

lemma length_rate_list:
  assumes "caps_valid c"
  shows "length (rate_list c) \<le> 386"
proof -
  have "card (\<Union>m \<in> set ms. mode_ranges m) \<le> 6 * length ms" for ms
  proof (induction ms)
    case (Cons m ms)
    have "card (mode_ranges m \<union> (\<Union>m \<in> set ms. mode_ranges m)) \<le> 6 + 6 * length ms"
      using card_Un_le [of "mode_ranges m" "\<Union>m \<in> set ms. mode_ranges m"] card_mode_ranges [of m] Cons
      by linarith
    then show ?case by simp
  qed simp
  from this [of "modes c"] have "card (fpsRanges c) \<le> 193"
    using caps_validD(3) [OF assms] card_insert_le_m1 [of 193 "\<Union>m \<in> set (modes c). mode_ranges m" "defaultRange c"]
    by (simp add: fpsRanges_eq)
  moreover have "length (concat (map (\<lambda>(l, h). [l, h]) xs)) = 2 * length xs" for xs :: "(int \<times> int) list"
    by (induction xs) auto
  ultimately show ?thesis by (simp add: rate_list_def)
qed

lemma data_bytes_keys:
  "length (request_keys jpeg) \<le> 7" "length (characteristics_keys jpeg) \<le> 22"
  by (simp_all add: request_keys_def characteristics_keys_def)

lemma quad_length: "length (concat (map (\<lambda>(f, w, h). [f, w, h, g f w h]) xs)) = 4 * length xs"
  by (induction xs) auto

lemma metadata_bytes_append [simp]: "metadata_bytes (xs @ ys) = metadata_bytes xs + metadata_bytes ys"
  and metadata_bytes_Cons [simp]: "metadata_bytes ((t, v) # xs) = data_bytes v + metadata_bytes xs"
  and metadata_bytes_Nil [simp]: "metadata_bytes [] = 0"
  by (simp_all add: metadata_bytes_def)

text \<open>
  No entry of a camera's characteristics is dropped for lack of
  room, for any set of producer modes: at most 128 entries and 32768 bytes of data are added.
\<close>

theorem characteristics_fit_buffer:
  "length (buildCameraCharacteristics c) \<le> 128 \<and> metadata_bytes (buildCameraCharacteristics c) \<le> 32768"
proof (cases "caps_valid (capabilities_or_diagnostic c)")
  case False
  then show ?thesis by (simp add: buildCameraCharacteristics_def Let_def)
next
  case valid: True
  let ?c = "capabilities_or_diagnostic c"
  obtain aw ah px jpeg where scan: "scan_modes (0, 0, 0, False) (modes ?c) = (aw, ah, px, jpeg)"
    by (metis prod_cases4)
  note n = length_output_keys [OF valid]
  have cfg: "data_bytes (Configurations (stream_configurations ?c)) \<le> 2055"
    using n by (intro order_trans [OF data_bytes_le [of _ 2048]]) (simp_all add: stream_configurations_def)
  have dur: "data_bytes (I64 (min_frame_durations ?c)) \<le> 4103"
    using n by (intro order_trans [OF data_bytes_le [of _ 4096]]) (simp_all add: min_frame_durations_def quad_length)
  have stall: "data_bytes (I64 (stall_durations ?c)) \<le> 4103"
    using n by (intro order_trans [OF data_bytes_le [of _ 4096]]) (simp_all add: stall_durations_def quad_length)
  have rates: "data_bytes (I32 (rate_list ?c)) \<le> 1551"
    using length_rate_list [OF valid]
    by (intro order_trans [OF data_bytes_le [of _ 1544]]) simp_all
  have req: "data_bytes (Keys (request_keys j)) \<le> 35" for j
    using data_bytes_keys(1) [of j] by (intro order_trans [OF data_bytes_le [of _ 28]]) simp_all
  have ch: "data_bytes (Keys (characteristics_keys j)) \<le> 95" for j
    using data_bytes_keys(2) [of j] by (intro order_trans [OF data_bytes_le [of _ 88]]) simp_all
  have const: "data_bytes (U8 [x]) = 0" "data_bytes (I32 [x]) = 0" "data_bytes (I32 [x, y]) = 8"
    "data_bytes (I32 [x, y, z]) = 16" "data_bytes (I32 [x, y, z, u]) = 16" "data_bytes (I64 [x]) = 8"
    "data_bytes (Floats [x]) = 0" "data_bytes (Floats [x, y]) = 8" "data_bytes (Enums [a]) = 0"
    "data_bytes (Enums [a, b]) = 0" "data_bytes (Enums []) = 0"
    "data_bytes (Keys [k1, k2, k3, k4, k5]) = 24" for x y z u a b k1 k2 k3 k4 k5
    by (simp_all add: data_bytes_def)
  have bytes: "metadata_bytes (buildCameraCharacteristics c) \<le> 32768"
    using valid scan cfg dur stall rates req [of True] req [of False] ch [of True] ch [of False]
    by (cases jpeg) (simp_all add: buildCameraCharacteristics_def const Let_def)
  have "length (buildCameraCharacteristics c) \<le> 128"
    using valid scan by (simp add: buildCameraCharacteristics_def Let_def)
  then show ?thesis using bytes ..
qed

text \<open>The JPEG buffer size never overflows and is at most the session's default.\<close>

lemma scan_modes_bounds:
  assumes "scan_modes (aw, ah, px, jpeg) ms = (aw', ah', px', jpeg')"
    and "\<forall>m \<in> set ms. 16 \<le> m_width m \<and> 16 \<le> m_height m \<and> mode_area m \<le> 8294400"
    and "0 \<le> px" "px \<le> 8294400"
  shows "0 \<le> px' \<and> px' \<le> 8294400 \<and> (\<forall>m \<in> set ms. m_width m \<le> aw' \<and> m_height m \<le> ah' \<and> mode_area m \<le> px')
    \<and> aw \<le> aw' \<and> ah \<le> ah' \<and> px \<le> px'"
  using assms
proof (induction ms arbitrary: aw ah px jpeg)
  case Nil
  then show ?case by simp
next
  case (Cons m ms)
  from Cons.prems Cons.IH [of "max aw (m_width m)" "max ah (m_height m)" "max px (m_width m * m_height m)"]
  show ?case by (auto simp: mult.commute)
qed

text \<open>
  The advertised maximum JPEG size leaves four bytes for every pixel of
  every declared mode plus the trailer, does not overflow an \<open>int32_t\<close>, and is at most
  the size the session assumes when a stream brings none.
\<close>

theorem jpeg_size_covers_modes:
  assumes "caps_valid c"
    and "find_entry (buildCameraCharacteristics (Some c)) JPEG_MAX_SIZE = Some (I32 [n])"
  shows "n \<le> kJpegMaxSize \<and> n \<le> INT32_MAX \<and> (\<forall>m \<in> set (modes c). 4 * mode_area m + 65536 \<le> n)"
proof -
  obtain aw ah px jpeg where scan: "scan_modes (0, 0, 0, False) (modes c) = (aw, ah, px, jpeg)"
    by (metis prod_cases4)
  have n: "n = px * 4 + 65536"
    using assms scan
    by (auto simp: find_entry_def buildCameraCharacteristics_def capabilities_or_diagnostic_def split: if_splits)
  have "\<forall>m \<in> set (modes c). 16 \<le> m_width m \<and> 16 \<le> m_height m \<and> mode_area m \<le> 8294400"
    using caps_validD(5) [OF assms(1)] by (auto simp: mode_ok_def)
  from scan_modes_bounds [OF scan this] n show ?thesis
    by (auto simp: kJpegMaxSize_def INT32_MAX_def)
qed

theorem jpeg_size_covers_modes_witness:
  "find_entry (buildCameraCharacteristics (Some diagnostic)) JPEG_MAX_SIZE = Some (I32 [kJpegMaxSize]) \<and>
   kJpegMaxSize \<le> INT32_MAX"
proof -
  have e: "find_entry (buildCameraCharacteristics (Some diagnostic)) JPEG_MAX_SIZE = Some (I32 [kJpegMaxSize])"
    by (simp add: find_entry_def buildCameraCharacteristics_def capabilities_or_diagnostic_def)
      (simp add: diagnostic_def kJpegMaxSize_def)
  show ?thesis using jpeg_size_covers_modes [OF diagnostic_valid e] e by simp
qed

end
