(* ===== verification/Session.thy ===== *)
theory Session
  imports Hal_Fds Metadata "HOL-Library.State_Monad"
begin

text \<open>
  \<open>hal/aidl-v1/VirtualCameraSession.{h,cpp}\<close>, the camera session of the stable build
  (\<open>VCAM_STABLE_AIDL\<close> and \<open>VCAM_GPU_COMPOSITOR\<close>): stream configuration, the buffer cache, frame
  pacing, and capture requests. The code runs in the state monad over a record of the
  session, the stable HAL it shares with every other thread, the world, and the callbacks
  it has sent to camera service.

  Concurrency. A request holds \<open>mRequestLock\<close>, so everything but \<open>mClosed\<close> and
  \<open>mCancelEpoch\<close> is touched by one thread. Before each read of those two atomics and
  before each call into the HAL stands \<open>others\<close>: whatever other threads did since, binder
  calls into the HAL and \<open>close\<close> or \<open>flush\<close> of this session included.

  The socket sources are null in the stable build, so the lines that publish a format to
  them are not reached. The opt-in profile (\<open>FrameProfile\<close>) only observes.
\<close>

section \<open>State\<close>

record stream =
  st_id :: int
  st_format :: int
  st_width :: int
  st_height :: int
  st_useCase :: int
  st_input :: bool
  st_rotation :: int
  st_dataSpace :: int
  st_bufferSize :: int

datatype buffer_usage = CAMERA_OUTPUT | GPU_RENDER_TARGET | CPU_WRITE_OFTEN

record hal_stream =
  hs_id :: int
  hs_overrideFormat :: int
  hs_producerUsage :: "buffer_usage list"
  hs_maxBuffers :: int
  hs_overrideDataSpace :: int

text \<open>A parcelled native handle: its file descriptors and integers.\<close>

record native_handle =
  nh_fds :: "int list"
  nh_ints :: "int list"

record stream_buffer =
  sb_streamId :: int
  sb_bufferId :: int
  sb_buffer :: native_handle
  sb_acquireFence :: native_handle

text \<open>
  Request settings: absent, a buffer that fails validation, or the two entries the session
  reads (each with its values when present).
\<close>

datatype settings = NoSettings | Malformed | Settings "int list option" "int list option"

record capture_request =
  rq_frameNumber :: int
  rq_outputBuffers :: "stream_buffer list"
  rq_inputStreamId :: int
  rq_settings :: settings
  rq_fmqSettingsSize :: int

record session =
  s_closed :: bool
  s_cancelEpoch :: "64 word"
  s_flushing :: bool
  s_slot :: int
  s_capabilities :: ProducerCapabilities
  s_enforce :: bool
  s_outputs :: "Output list"
  s_sourceMode :: ProducerMode
  s_streams :: "int \<Rightarrow> stream option"
  s_bufferCache :: "int \<times> int \<Rightarrow> nat option"
  s_identity :: int
  s_token :: int
  s_lastSequence :: "64 word"
  s_startupWaitPending :: bool
  s_targetFps :: int
  s_nextFrameNs :: int
  s_jpegQuality :: int
  s_haveSettings :: bool
  s_forceCpuYuv :: bool
  s_deadlineFrames :: int
  s_frameCounter :: "32 word"
  s_renderAttempts :: "64 word"

text \<open>What is sent to camera service.\<close>

datatype notify_msg = Shutter int int int | ErrorRequest int | ErrorBuffer int int

record out_buffer =
  ob_streamId :: int
  ob_bufferId :: int
  ob_ok :: bool
  ob_releaseFence :: int

record capture_result =
  cr_frameNumber :: int
  cr_outputBuffers :: "out_buffer list"
  cr_partialResult :: int
  cr_metadata :: metadata

datatype camera_event = Notify "notify_msg list" | CaptureResult capture_result

record 'w sstate =
  x_session :: session
  x_hal :: "hal option"
  x_world :: 'w
  x_events :: "camera_event list"

type_synonym ('w, 'a) sm = "('w sstate, 'a) state"

text \<open>
  Services outside the session: kernel and graphics calls, other threads, the steady clock
  and the timed wait, the gralloc mapper, and the renderers, which get the source, its
  acquire fence, and the target.
\<close>

record 'w env =
  e_sys :: "'w sys"
  e_gfx :: "'w gfx"
  e_others :: "'w sstate \<Rightarrow> 'w sstate"
  e_now :: "'w \<Rightarrow> int \<times> 'w"
  e_waitUntil :: "int \<Rightarrow> 'w \<Rightarrow> 'w"
  e_makeFromAidl :: "native_handle \<Rightarrow> 'w \<Rightarrow> (nat \<times> int) option \<times> 'w"
  e_deleteHandle :: "nat \<Rightarrow> 'w \<Rightarrow> 'w"
  e_importBuffer :: "nat \<Rightarrow> 'w \<Rightarrow> nat option \<times> 'w"
  e_freeBuffer :: "nat \<Rightarrow> 'w \<Rightarrow> 'w"
  e_lock :: "nat \<Rightarrow> int \<Rightarrow> 'w \<Rightarrow> bool \<times> 'w"
  e_unlock :: "nat \<Rightarrow> 'w \<Rightarrow> 'w"
  e_lockYCbCr :: "nat \<Rightarrow> int \<Rightarrow> int \<Rightarrow> 'w \<Rightarrow> bool \<times> 'w"
  e_encodeToBlob :: "ahb \<Rightarrow> int \<Rightarrow> int \<Rightarrow> int \<Rightarrow> int \<Rightarrow> nat \<Rightarrow> int \<Rightarrow> 'w \<Rightarrow> int \<times> 'w"
  e_compositeToYcbcr :: "ahb \<Rightarrow> int \<Rightarrow> nat \<Rightarrow> int \<Rightarrow> int \<Rightarrow> 'w \<Rightarrow> bool \<times> 'w"
  e_composite :: "ahb \<Rightarrow> int \<Rightarrow> nat \<Rightarrow> int \<Rightarrow> int \<Rightarrow> int \<Rightarrow> 'w \<Rightarrow> bool \<times> int \<times> 'w"
  e_fillFromAHardwareBuffer :: "nat \<Rightarrow> int \<Rightarrow> int \<Rightarrow> ahb \<Rightarrow> 'w \<Rightarrow> bool \<times> 'w"

section \<open>Primitive actions\<close>

abbreviation ret :: "'a \<Rightarrow> ('w, 'a) sm" where
  "ret \<equiv> State_Monad.return"

definition session :: "('w, session) sm" where
  "session = State (\<lambda>x. (x_session x, x))"

definition modify_session :: "(session \<Rightarrow> session) \<Rightarrow> ('w, unit) sm" where
  "modify_session f = State (\<lambda>x. ((), x\<lparr>x_session := f (x_session x)\<rparr>))"

definition in_world :: "('w \<Rightarrow> 'a \<times> 'w) \<Rightarrow> ('w, 'a) sm" where
  "in_world f = State (\<lambda>x. let (a, w) = f (x_world x) in (a, x\<lparr>x_world := w\<rparr>))"

definition on_world :: "('w \<Rightarrow> 'w) \<Rightarrow> ('w, unit) sm" where
  "on_world f = State (\<lambda>x. ((), x\<lparr>x_world := f (x_world x)\<rparr>))"

text \<open>A call into the HAL, \<open>dflt\<close> when there is none.\<close>

definition in_hal :: "'a \<Rightarrow> (hal \<Rightarrow> 'w \<Rightarrow> 'a \<times> hal \<times> 'w) \<Rightarrow> ('w, 'a) sm" where
  "in_hal dflt f = State (\<lambda>x. case x_hal x of
       None \<Rightarrow> (dflt, x)
     | Some h \<Rightarrow> let (a, h', w') = f h (x_world x) in (a, x\<lparr>x_hal := Some h', x_world := w'\<rparr>))"

definition has_hal :: "('w, bool) sm" where
  "has_hal = State (\<lambda>x. (x_hal x \<noteq> None, x))"

definition emit :: "camera_event \<Rightarrow> ('w, unit) sm" where
  "emit e = State (\<lambda>x. ((), x\<lparr>x_events := x_events x @ [e]\<rparr>))"

definition others :: "'w env \<Rightarrow> ('w, unit) sm" where
  "others E = State (\<lambda>x. ((), e_others E x))"

fun each :: "('a \<Rightarrow> ('w, unit) sm) \<Rightarrow> 'a list \<Rightarrow> ('w, unit) sm" where
  "each f [] = ret ()"
| "each f (a # as) = do { f a; each f as }"

definition close_fd :: "'w env \<Rightarrow> int \<Rightarrow> ('w, unit) sm" where
  "close_fd E fd = on_world (closeFd (e_sys E) fd)"

text \<open>\<open>mClosed || mCancelEpoch.load() != cancelEpoch\<close>\<close>

definition cancelled :: "'w env \<Rightarrow> 64 word \<Rightarrow> ('w, bool) sm" where
  "cancelled E epoch = do {
     others E;
     s \<leftarrow> session;
     ret (s_closed s \<or> s_cancelEpoch s \<noteq> epoch) }"

section \<open>Construction and closing\<close>

definition session_init :: "int \<Rightarrow> ProducerCapabilities option \<Rightarrow> bool \<Rightarrow> int \<Rightarrow> session" where
  "session_init slot capabilities forceCpuYuv identity = \<lparr>
     s_closed = False, s_cancelEpoch = 0, s_flushing = False, s_slot = slot,
     s_capabilities = capabilities_or_diagnostic capabilities, s_enforce = (capabilities \<noteq> None),
     s_outputs = [], s_sourceMode = \<lparr>m_id = 0, m_width = 0, m_height = 0, m_minFps = 0, m_maxFps = 0,
       m_formats = [], m_downscale = False\<rparr>,
     s_streams = (\<lambda>_. None), s_bufferCache = (\<lambda>_. None), s_identity = identity, s_token = 0,
     s_lastSequence = 0, s_startupWaitPending = True, s_targetFps = 30, s_nextFrameNs = 0,
     s_jpegQuality = 90, s_haveSettings = False, s_forceCpuYuv = forceCpuYuv, s_deadlineFrames = 1,
     s_frameCounter = 0, s_renderAttempts = 0\<rparr>"

text \<open>The constructor takes its identity from the HAL, 0 without one.\<close>

definition session_create :: "int \<Rightarrow> ProducerCapabilities option \<Rightarrow> bool \<Rightarrow> hal option \<Rightarrow> session \<times> hal option" where
  "session_create slot capabilities forceCpuYuv hal_opt = (case hal_opt of
       None \<Rightarrow> (session_init slot capabilities forceCpuYuv 0, None)
     | Some h \<Rightarrow> let (identity, h') = allocateSessionIdentity h in
         (session_init slot capabilities forceCpuYuv identity, Some h'))"

definition session_close :: "'w env \<Rightarrow> ('w, unit) sm" where
  "session_close E = do {
     others E;
     s \<leftarrow> session;
     modify_session (\<lambda>s. s\<lparr>s_closed := True, s_cancelEpoch := s_cancelEpoch s + 1\<rparr>);
     others E;
     if s_closed s then ret ()
     else in_hal () (\<lambda>h w. let (h', w', es) = notifyCameraClosed (e_sys E) (e_gfx E) (s_slot s)
       (s_identity s) (s_token s) h w in ((), h', w')) }"

definition session_flush :: "'w env \<Rightarrow> ('w, unit) sm" where
  "session_flush E = do {
     modify_session (\<lambda>s. s\<lparr>s_flushing := True, s_cancelEpoch := s_cancelEpoch s + 1\<rparr>);
     others E;
     modify_session (\<lambda>s. s\<lparr>s_nextFrameNs := 0, s_flushing := False\<rparr>) }"

section \<open>The buffer cache\<close>

definition importBuffer :: "'w env \<Rightarrow> stream_buffer \<Rightarrow> ('w, nat option) sm" where
  "importBuffer E b = do {
     s \<leftarrow> session;
     case s_bufferCache s (sb_streamId b, sb_bufferId b) of
       Some handle \<Rightarrow> ret (Some handle)
     | None \<Rightarrow>
         if nh_fds (sb_buffer b) = [] then ret None
         else do {
           made \<leftarrow> in_world (e_makeFromAidl E (sb_buffer b));
           case made of
             None \<Rightarrow> ret None
           | Some (native, numFds) \<Rightarrow>
               if numFds < 1 then do { on_world (e_deleteHandle E native); ret None }
               else do {
                 imported \<leftarrow> in_world (e_importBuffer E native);
                 on_world (e_deleteHandle E native);
                 case imported of
                   None \<Rightarrow> ret None
                 | Some handle \<Rightarrow> do {
                     modify_session (\<lambda>s. s\<lparr>s_bufferCache := (s_bufferCache s)
                       ((sb_streamId b, sb_bufferId b) \<mapsto> handle)\<rparr>);
                     ret (Some handle) } } } }"

definition removeOne :: "'w env \<Rightarrow> int \<times> int \<Rightarrow> ('w, unit) sm" where
  "removeOne E key = do {
     s \<leftarrow> session;
     case s_bufferCache s key of
       None \<Rightarrow> ret ()
     | Some handle \<Rightarrow> do {
         on_world (e_freeBuffer E handle);
         modify_session (\<lambda>s. s\<lparr>s_bufferCache := (s_bufferCache s)(key := None)\<rparr>) } }"

definition removeBuffersFromCache :: "'w env \<Rightarrow> (int \<times> int) list \<Rightarrow> ('w, unit) sm" where
  "removeBuffersFromCache E keys = each (removeOne E) keys"

text \<open>
  \<open>configureStreams\<close> and the destructor free every cached handle and clear the cache. The
  hash map is iterated in some order \<open>keys\<close> of its keys.
\<close>

definition clearBufferCache :: "'w env \<Rightarrow> (int \<times> int) list \<Rightarrow> ('w, unit) sm" where
  "clearBufferCache E keys = do {
     s \<leftarrow> session;
     each (\<lambda>k. case s_bufferCache s k of None \<Rightarrow> ret () | Some hd' \<Rightarrow> on_world (e_freeBuffer E hd')) keys;
     modify_session (\<lambda>s. s\<lparr>s_bufferCache := (\<lambda>_. None)\<rparr>) }"

section \<open>Configuring streams\<close>

fun stream_ids_ok :: "int list \<Rightarrow> stream list \<Rightarrow> bool" where
  "stream_ids_ok seen [] = True"
| "stream_ids_ok seen (s # ss) =
     (if st_id s < 0 \<or> st_id s \<in> set seen then False else stream_ids_ok (st_id s # seen) ss)"

definition desc_of_stream :: "stream \<Rightarrow> StreamDesc" where
  "desc_of_stream s = \<lparr>sd_format = st_format s, sd_width = st_width s, sd_height = st_height s,
     sd_useCase = st_useCase s, sd_input = st_input s, sd_rotation = st_rotation s\<rparr>"

definition output_of_stream :: "stream \<Rightarrow> Output" where
  "output_of_stream s = \<lparr>o_format = st_format s, o_width = st_width s, o_height = st_height s\<rparr>"

text \<open>\<open>IMPLEMENTATION_DEFINED\<close> (0x22) becomes \<open>RGBA_8888\<close> (1); \<open>BLOB\<close> is 0x21.\<close>

definition resolve_format :: "int \<Rightarrow> int" where
  "resolve_format f = (if f = 0x22 then 1 else f)"

definition hal_stream_of :: "stream \<Rightarrow> hal_stream" where
  "hal_stream_of s =
     (let resolved = resolve_format (st_format s) in
      \<lparr>hs_id = st_id s, hs_overrideFormat = resolved,
       hs_producerUsage = [CAMERA_OUTPUT, if resolved = 1 then GPU_RENDER_TARGET else CPU_WRITE_OFTEN],
       hs_maxBuffers = (if resolved = 0x21 then 2 else 4), hs_overrideDataSpace = st_dataSpace s\<rparr>)"

definition store_streams :: "stream list \<Rightarrow> int \<Rightarrow> stream option" where
  "store_streams ss = fold (\<lambda>s m. m(st_id s \<mapsto> s\<lparr>st_format := resolve_format (st_format s)\<rparr>)) ss (\<lambda>_. None)"

definition hal_registrationCurrent :: "int \<Rightarrow> int \<Rightarrow> ('w, bool) sm" where
  "hal_registrationCurrent slot reg = in_hal False (\<lambda>h w. (registrationCurrent slot reg h, h, w))"

definition hal_notifyStreamsConfigured ::
  "'w env \<Rightarrow> int \<Rightarrow> int \<Rightarrow> int \<Rightarrow> int \<Rightarrow> int \<Rightarrow> ('w, int) sm" where
  "hal_notifyStreamsConfigured E slot owner width height fps =
     in_hal 0 (\<lambda>h w. let (t, h', w', es) =
       notifyStreamsConfigured (e_sys E) (e_gfx E) slot owner width height fps h w in (t, h', w'))"

definition configureStreams ::
  "'w env \<Rightarrow> (int \<times> int) list \<Rightarrow> stream list \<Rightarrow> ('w, camera_status \<times> hal_stream list) sm" where
  "configureStreams E keys streams = do {
     others E;
     s0 \<leftarrow> session;
     if s_closed s0 then ret (INTERNAL_ERROR, [])
     else if \<not> stream_ids_ok [] streams then ret (ILLEGAL_ARGUMENT, [])
     else if \<not> isStreamCombinationSupported (map desc_of_stream streams) (Some (s_capabilities s0))
       then ret (ILLEGAL_ARGUMENT, [])
     else do {
       modify_session (\<lambda>s. s\<lparr>s_streams := (\<lambda>_. None), s_haveSettings := False, s_startupWaitPending := True\<rparr>);
       clearBufferCache E keys;
       let outs = map output_of_stream streams;
       modify_session (\<lambda>s. s\<lparr>s_outputs := outs\<rparr>);
       case select (s_capabilities s0) outs 0 0 of
         None \<Rightarrow> ret (ILLEGAL_ARGUMENT, [])
       | Some m \<Rightarrow> do {
           let fps = std_clamp 30 (m_minFps m) (m_maxFps m);
           modify_session (\<lambda>s. s\<lparr>s_sourceMode := m, s_targetFps := fps, s_nextFrameNs := 0\<rparr>);
           others E;
           current \<leftarrow> (if s_enforce s0
              then hal_registrationCurrent (s_slot s0) (registration (s_capabilities s0)) else ret True);
           if \<not> current then ret (INTERNAL_ERROR, [])
           else do {
             modify_session (\<lambda>s. s\<lparr>s_streams := store_streams streams\<rparr>);
             let hs = map hal_stream_of streams;
             others E;
             present \<leftarrow> has_hal;
             if streams = [] \<or> \<not> present then ret (CS_OK, hs)
             else do {
               token \<leftarrow> hal_notifyStreamsConfigured E (s_slot s0) (s_identity s0) (m_width m) (m_height m) fps;
               modify_session (\<lambda>s. s\<lparr>s_token := token\<rparr>);
               ret (if token \<le> 0 then INTERNAL_ERROR else CS_OK, hs) } } } } }"

definition constructDefaultRequestSettings :: "session \<Rightarrow> metadata" where
  "constructDefaultRequestSettings s = buildDefaultRequestSettings (Some (s_capabilities s))"

section \<open>Request settings and pacing\<close>

text \<open>
  \<open>updateTargetFps\<close>. A frame-rate entry must have two values. When the rate or the source
  mode changes, the source is configured again.
\<close>

definition requested_mode :: "session \<Rightarrow> int list option \<Rightarrow> (ProducerMode \<times> int) option" where
  "requested_mode s rate = (case rate of
       None \<Rightarrow> Some (s_sourceMode s, s_targetFps s)
     | Some [low, high] \<Rightarrow> (case select (s_capabilities s) (s_outputs s) low high of
           None \<Rightarrow> None
         | Some m \<Rightarrow> Some (m, min high (m_maxFps m)))
     | Some _ \<Rightarrow> None)"

definition finish_settings :: "int list option \<Rightarrow> ('w, bool) sm" where
  "finish_settings quality = do {
     modify_session (\<lambda>s. s\<lparr>s_jpegQuality := (case quality of Some (q # _) \<Rightarrow> q | _ \<Rightarrow> s_jpegQuality s),
       s_haveSettings := True\<rparr>);
     ret True }"

definition updateTargetFps :: "'w env \<Rightarrow> settings \<Rightarrow> ('w, bool) sm" where
  "updateTargetFps E st = do {
     others E;
     s \<leftarrow> session;
     present \<leftarrow> has_hal;
     current \<leftarrow> (if s_enforce s then hal_registrationCurrent (s_slot s) (registration (s_capabilities s))
        else ret True);
     if \<not> current then ret False
     else case st of
       NoSettings \<Rightarrow> ret True
     | Malformed \<Rightarrow> ret False
     | Settings rate quality \<Rightarrow>
         (case requested_mode s rate of
            None \<Rightarrow> ret False
          | Some (m, fps) \<Rightarrow>
              if fps = s_targetFps s \<and> m_id m = m_id (s_sourceMode s) then finish_settings quality
              else if \<not> present then ret False
              else do {
                others E;
                token \<leftarrow> hal_notifyStreamsConfigured E (s_slot s) (s_identity s) (m_width m) (m_height m) fps;
                if token \<le> 0 then ret False
                else do {
                  modify_session (\<lambda>s. s\<lparr>s_token := token, s_sourceMode := m, s_targetFps := fps,
                    s_nextFrameNs := 0, s_startupWaitPending := True\<rparr>);
                  finish_settings quality } }) }"

definition frame_interval :: "int \<Rightarrow> int" where
  "frame_interval fps = (1000000000 + fps - 1) div fps"

definition paceFrame :: "'w env \<Rightarrow> 64 word \<Rightarrow> ('w, int) sm" where
  "paceFrame E epoch = do {
     s \<leftarrow> session;
     let interval = frame_interval (s_targetFps s);
     now \<leftarrow> in_world (e_now E);
     modify_session (\<lambda>s. if s_nextFrameNs s = 0 \<or> s_nextFrameNs s + interval < now
       then s\<lparr>s_nextFrameNs := now\<rparr> else s);
     s1 \<leftarrow> session;
     (if now < s_nextFrameNs s1 then on_world (e_waitUntil E (s_nextFrameNs s1)) else ret ());
     stop \<leftarrow> cancelled E epoch;
     if stop then ret 0
     else do {
       let slot = s_nextFrameNs s1;
       modify_session (\<lambda>s. s\<lparr>s_nextFrameNs := s_nextFrameNs s + interval\<rparr>);
       ret slot } }"

section \<open>One capture request\<close>

text \<open>
  Duplicate the acquire fences of the output buffers, -1 where there is none. On a failed
  dup the fences duplicated so far are returned, for the vector's destructor to close.
\<close>

fun dupFences :: "'w env \<Rightarrow> stream_buffer list \<Rightarrow> ('w, bool \<times> int list) sm" where
  "dupFences E [] = ret (True, [])"
| "dupFences E (b # bs) =
     (case nh_fds (sb_acquireFence b) of
        [] \<Rightarrow> do { (ok, fds) \<leftarrow> dupFences E bs; ret (ok, -1 # fds) }
      | fd # _ \<Rightarrow> do {
          dup \<leftarrow> in_world (sys_dup (e_sys E) fd);
          if dup < 0 then ret (False, [])
          else do { (ok, fds) \<leftarrow> dupFences E bs; ret (ok, dup # fds) } })"

fun importAll :: "'w env \<Rightarrow> stream_buffer list \<Rightarrow> ('w, bool) sm" where
  "importAll E [] = ret True"
| "importAll E (b # bs) = do {
     handle \<leftarrow> importBuffer E b;
     if handle = None then ret False else importAll E bs }"

text \<open>
  \<open>failUntouched\<close>: the whole request failed and no target was written; each buffer goes
  back with the acquire fence it still waits for, if any.
\<close>

definition untouched_buffers :: "capture_request \<Rightarrow> int list \<Rightarrow> out_buffer list" where
  "untouched_buffers rq pending = map (\<lambda>(b, fd). \<lparr>ob_streamId = sb_streamId b, ob_bufferId = sb_bufferId b,
     ob_ok = False, ob_releaseFence = fd\<rparr>) (zip (rq_outputBuffers rq) pending)"

definition failUntouched :: "capture_request \<Rightarrow> int list \<Rightarrow> ('w, unit) sm" where
  "failUntouched rq pending = do {
     emit (Notify [ErrorRequest (rq_frameNumber rq)]);
     emit (CaptureResult \<lparr>cr_frameNumber = rq_frameNumber rq,
       cr_outputBuffers = untouched_buffers rq pending, cr_partialResult = 0, cr_metadata = []\<rparr>) }"

text \<open>
  Wait for each target's fence. \<open>Some left\<close> is the failure, with the fences not yet
  closed in their positions and -1 for the others.
\<close>

fun waitDestinations :: "'w env \<Rightarrow> 64 word \<Rightarrow> int list \<Rightarrow> ('w, int list option) sm" where
  "waitDestinations E epoch [] = ret None"
| "waitDestinations E epoch (fd # fds) = do {
     stop \<leftarrow> cancelled E epoch;
     bad \<leftarrow> (if stop then ret True else if fd < 0 then ret False
        else do { r \<leftarrow> in_world (sys_sync_wait (e_sys E) fd 100); ret (r \<noteq> 0) });
     if bad then ret (Some (fd # fds))
     else do {
       close_fd E fd;
       rest \<leftarrow> waitDestinations E epoch fds;
       ret (map_option (Cons (-1)) rest) } }"

definition hal_acquireLatest :: "'w env \<Rightarrow> session \<Rightarrow> ('w, acquired option \<times> int) sm" where
  "hal_acquireLatest E s = in_hal (None, -1) (\<lambda>h w.
     let (r, fd, h', w') = acquireLatest (e_sys E) (e_gfx E) (s_slot s) True True (s_lastSequence s)
       (s_token s) h w in ((r, fd), h', w'))"

definition hal_isFrameCurrent :: "'w env \<Rightarrow> session \<Rightarrow> ahb \<Rightarrow> 64 word \<Rightarrow> ('w, bool) sm" where
  "hal_isFrameCurrent E s a seq = do {
     others E;
     in_hal False (\<lambda>h w. (isFrameCurrent (s_slot s) (Some a) seq (s_token s) h, h, w)) }"

text \<open>
  The poll for a new frame until the deadline. \<open>None\<close>: the fuel ran out. Otherwise the
  frame, when there was one, and the fence descriptor left by the last call.
\<close>

definition poll_pause :: "'w env \<Rightarrow> int \<Rightarrow> ('w, unit) sm" where
  "poll_pause E deadline = do {
     now \<leftarrow> in_world (e_now E);
     on_world (e_waitUntil E (min deadline (now + 2000000))) }"

fun acquireLoop :: "'w env \<Rightarrow> nat \<Rightarrow> 64 word \<Rightarrow> session \<Rightarrow> int \<Rightarrow> int \<Rightarrow>
    ('w, (acquired option \<times> int) option) sm" where
  "acquireLoop E 0 epoch s deadline fence = ret None"
| "acquireLoop E (Suc fuel) epoch s deadline fence = do {
     stop \<leftarrow> cancelled E epoch;
     if stop then ret (Some (None, fence))
     else do {
       others E;
       (r, fd) \<leftarrow> hal_acquireLatest E s;
       if r \<noteq> None then ret (Some (r, fd))
       else do {
         now \<leftarrow> in_world (e_now E);
         if deadline \<le> now then ret (Some (None, fd))
         else do {
           poll_pause E deadline;
           acquireLoop E fuel epoch s deadline fd } } } }"

text \<open>
  The poll for the source's acquire fence. \<open>Some True\<close>: it has signaled, or there is
  none. \<open>Some False\<close>: cancelled, stale, or too late.
\<close>

fun fenceLoop :: "'w env \<Rightarrow> nat \<Rightarrow> 64 word \<Rightarrow> session \<Rightarrow> int \<Rightarrow> ahb \<Rightarrow> 64 word \<Rightarrow> int \<Rightarrow>
    ('w, bool option) sm" where
  "fenceLoop E 0 epoch s deadline a seq fence = ret None"
| "fenceLoop E (Suc fuel) epoch s deadline a seq fence =
     (if fence < 0 then ret (Some True)
      else do {
        r \<leftarrow> in_world (sys_sync_wait (e_sys E) fence 0);
        if r = 0 then ret (Some True)
        else do {
          stop \<leftarrow> cancelled E epoch;
          current \<leftarrow> (if stop then ret False else hal_isFrameCurrent E s a seq);
          late \<leftarrow> (if stop \<or> \<not> current then ret True
             else do { now \<leftarrow> in_world (e_now E); ret (deadline \<le> now) });
          if late then ret (Some False)
          else do {
            poll_pause E deadline;
            fenceLoop E fuel epoch s deadline a seq fence } } })"

text \<open>
  One target: a JPEG for a BLOB stream; otherwise the GPU conversion to planes for
  YCbCr_420_888 (0x23), then the GPU blit, then the CPU converter, until one succeeds. The
  result is whether it was filled and the GPU's completion fence, -1 without one.
\<close>

definition renderBlob :: "'w env \<Rightarrow> session \<Rightarrow> stream \<Rightarrow> nat \<Rightarrow> ahb \<Rightarrow> int \<Rightarrow> ('w, bool) sm" where
  "renderBlob E s st handle a fence = do {
     let cap = (if 0 < st_bufferSize st then st_bufferSize st else kJpegMaxSize);
     locked \<leftarrow> in_world (e_lock E handle cap);
     if \<not> locked then ret False
     else do {
       n \<leftarrow> in_world (e_encodeToBlob E a fence (st_width st) (st_height st) (s_jpegQuality s) handle cap);
       on_world (e_unlock E handle);
       ret (0 < n) } }"

definition renderYcbcr :: "'w env \<Rightarrow> stream \<Rightarrow> nat \<Rightarrow> ahb \<Rightarrow> int \<Rightarrow> ('w, bool) sm" where
  "renderYcbcr E st handle a fence = do {
     locked \<leftarrow> in_world (e_lockYCbCr E handle (st_width st) (st_height st));
     if \<not> locked then ret False
     else do {
       filled \<leftarrow> in_world (e_compositeToYcbcr E a fence handle (st_width st) (st_height st));
       on_world (e_unlock E handle);
       ret filled } }"

definition renderCpu :: "'w env \<Rightarrow> stream \<Rightarrow> nat \<Rightarrow> ahb \<Rightarrow> int \<Rightarrow> ('w, bool) sm" where
  "renderCpu E st handle a fence = do {
     ready \<leftarrow> in_world (acquireFenceReady fence (\<lambda>_ w. (False, w)) (sys_sync_wait (e_sys E)));
     if ready then in_world (e_fillFromAHardwareBuffer E handle (st_width st) (st_height st) a)
     else ret False }"

definition renderTarget ::
  "'w env \<Rightarrow> session \<Rightarrow> stream \<Rightarrow> nat \<Rightarrow> ahb \<Rightarrow> int \<Rightarrow> ('w, bool \<times> int) sm" where
  "renderTarget E s st handle a fence =
     (if st_format st = 0x21 then do { filled \<leftarrow> renderBlob E s st handle a fence; ret (filled, -1) }
      else do {
        yuv \<leftarrow> (if st_format st = 0x23 \<and> \<not> s_forceCpuYuv s then renderYcbcr E st handle a fence
           else ret False);
        (gpu, doneFence) \<leftarrow> (if yuv then ret (True, -1)
           else in_world (\<lambda>w. let (filled, doneFence, w') =
             e_composite E a fence handle (st_width st) (st_height st) (st_format st) w
             in ((filled, doneFence), w')));
        cpu \<leftarrow> (if gpu then ret True else renderCpu E st handle a fence);
        ret (cpu, doneFence) })"

definition processOutput ::
  "'w env \<Rightarrow> 64 word \<Rightarrow> session \<Rightarrow> ahb \<Rightarrow> 64 word \<Rightarrow> stream_buffer \<Rightarrow> ('w, out_buffer \<times> int list) sm" where
  "processOutput E epoch s a seq b = do {
     handle \<leftarrow> importBuffer E b;
     s1 \<leftarrow> session;
     (filled, release, done') \<leftarrow> (case (s_streams s1 (sb_streamId b), handle) of
        (Some st, Some hd') \<Rightarrow> do {
          stop \<leftarrow> cancelled E epoch;
          current \<leftarrow> (if stop then ret False else hal_isFrameCurrent E s a seq);
          if stop \<or> \<not> current then ret (False, -1, [])
          else do {
            modify_session (\<lambda>s. s\<lparr>s_renderAttempts := s_renderAttempts s + 1\<rparr>);
            (filled, doneFence) \<leftarrow> renderTarget E s st hd' a (-1);
            if doneFence < 0 then ret (filled, -1, [])
            else do {
              release \<leftarrow> in_world (sys_dup (e_sys E) doneFence);
              ret (filled, release, [doneFence]) } } }
      | _ \<Rightarrow> ret (False, -1, []));
     modify_session (\<lambda>s. s\<lparr>s_frameCounter := s_frameCounter s + 1\<rparr>);
     ret (\<lparr>ob_streamId = sb_streamId b, ob_bufferId = sb_bufferId b, ob_ok = filled,
       ob_releaseFence = (if 0 \<le> release then release else -1)\<rparr>, done') }"

fun processOutputs ::
  "'w env \<Rightarrow> 64 word \<Rightarrow> session \<Rightarrow> ahb \<Rightarrow> 64 word \<Rightarrow> stream_buffer list \<Rightarrow>
    ('w, out_buffer list \<times> int list) sm" where
  "processOutputs E epoch s a seq [] = ret ([], [])"
| "processOutputs E epoch s a seq (b # bs) = do {
     (ob, fences) \<leftarrow> processOutput E epoch s a seq b;
     (obs, rest) \<leftarrow> processOutputs E epoch s a seq bs;
     ret (ob # obs, fences @ rest) }"

text \<open>
  The callbacks of a request whose targets were visited. Without a filled target it is a
  whole-request failure; otherwise a shutter, one error for each stream that failed, and
  the result metadata.
\<close>

definition sendResult ::
  "capture_request \<Rightarrow> out_buffer list \<Rightarrow> int \<Rightarrow> int \<Rightarrow> int \<Rightarrow> ProducerMode \<Rightarrow> ('w, unit) sm" where
  "sendResult rq obs timestamp duration producerTs mode = do {
     let any_filled = list_ex ob_ok obs;
     let n = rq_frameNumber rq;
     emit (Notify (if any_filled
       then Shutter n timestamp timestamp # map (\<lambda>b. ErrorBuffer n (ob_streamId b)) (filter (\<lambda>b. \<not> ob_ok b) obs)
       else [ErrorRequest n]));
     emit (CaptureResult \<lparr>cr_frameNumber = n, cr_outputBuffers = obs,
       cr_partialResult = (if any_filled then 1 else 0),
       cr_metadata = (if any_filled
         then buildResultMetadata timestamp duration producerTs (m_width mode) (m_height mode) else [])\<rparr>) }"

text \<open>
  The destructor of \<open>CaptureSource\<close>: give the frame back with the completion fences of
  all targets, and with its acquire fence when that was not waited for.
\<close>

definition releaseSource :: "'w env \<Rightarrow> session \<Rightarrow> acquired option \<Rightarrow> int \<Rightarrow> int list \<Rightarrow> ('w, unit) sm" where
  "releaseSource E s r acquire fences = (case r of
       None \<Rightarrow> ret ()
     | Some q \<Rightarrow> do {
         others E;
         in_hal () (\<lambda>h w. let (h', w') = releaseFrame (e_sys E) (e_gfx E) (s_slot s) (Some (a_ahb q))
           (fences @ fd_list acquire) h w in ((), h', w')) })"

text \<open>
  From the moment the source budget is set: take a frame, wait for it, fill the targets,
  report, release. \<open>None\<close> when the fuel ran out.
\<close>

definition withFrame :: "'w env \<Rightarrow> nat \<Rightarrow> 64 word \<Rightarrow> session \<Rightarrow> int \<Rightarrow> capture_request \<Rightarrow> int \<Rightarrow> int list \<Rightarrow>
    acquired \<Rightarrow> int \<Rightarrow> ('w, camera_status option) sm" where
  "withFrame E fuel epoch s deadline rq timestamp pending q fence = do {
     modify_session (\<lambda>s. s\<lparr>s_lastSequence := a_sequence q\<rparr>);
     waited \<leftarrow> fenceLoop E fuel epoch s deadline (a_ahb q) (a_sequence q) fence;
     case waited of
       None \<Rightarrow> ret None
     | Some False \<Rightarrow> do {
         failUntouched rq pending;
         releaseSource E s (Some q) fence [];
         ret (Some CS_OK) }
     | Some True \<Rightarrow> do {
         stop \<leftarrow> cancelled E epoch;
         current \<leftarrow> (if stop then ret False else hal_isFrameCurrent E s (a_ahb q) (a_sequence q));
         if stop \<or> \<not> current then do {
           failUntouched rq pending;
           releaseSource E s (Some q) fence [];
           ret (Some CS_OK) }
         else do {
           close_fd E fence;
           (obs, fences) \<leftarrow> processOutputs E epoch s (a_ahb q) (a_sequence q) (rq_outputBuffers rq);
           sendResult rq obs timestamp (frame_interval (s_targetFps s)) (a_timestampNs q) (s_sourceMode s);
           releaseSource E s (Some q) (-1) fences;
           ret (Some CS_OK) } } }"

definition captureSource :: "'w env \<Rightarrow> nat \<Rightarrow> 64 word \<Rightarrow> capture_request \<Rightarrow> int \<Rightarrow> int list \<Rightarrow>
    ('w, camera_status option) sm" where
  "captureSource E fuel epoch rq timestamp pending = do {
     s \<leftarrow> session;
     present \<leftarrow> has_hal;
     if \<not> present \<or> s_token s \<le> 0 then do { failUntouched rq pending; ret (Some CS_OK) }
     else do {
       let budget = frame_interval (s_targetFps s) * s_deadlineFrames s;
       modify_session (\<lambda>s. s\<lparr>s_startupWaitPending := False\<rparr>);
       now \<leftarrow> in_world (e_now E);
       let deadline = now + (if s_startupWaitPending s then max budget 200000000 else budget);
       got \<leftarrow> acquireLoop E fuel epoch s deadline (-1);
       case got of
         None \<Rightarrow> ret None
       | Some (None, fence) \<Rightarrow> do { failUntouched rq pending; ret (Some CS_OK) }
       | Some (Some q, fence) \<Rightarrow> do {
           stop \<leftarrow> cancelled E epoch;
           if stop then do {
             failUntouched rq pending;
             releaseSource E s (Some q) fence [];
             ret (Some CS_OK) }
           else withFrame E fuel epoch s deadline rq timestamp pending q fence } } }"

definition processSingleRequest ::
  "'w env \<Rightarrow> nat \<Rightarrow> capture_request \<Rightarrow> 64 word \<Rightarrow> ('w, camera_status option) sm" where
  "processSingleRequest E fuel rq epoch = do {
     (preserved, fds) \<leftarrow> dupFences E (rq_outputBuffers rq);
     if \<not> preserved then do { session_close E; each (close_fd E) fds; ret (Some INTERNAL_ERROR) }
     else do {
       imported \<leftarrow> importAll E (rq_outputBuffers rq);
       if \<not> imported then do { each (close_fd E) fds; ret (Some ILLEGAL_ARGUMENT) }
       else do {
         failed \<leftarrow> waitDestinations E epoch fds;
         case failed of
           Some left \<Rightarrow> do { failUntouched rq left; ret (Some CS_OK) }
         | None \<Rightarrow> do {
             let pending = map (\<lambda>_. -1) fds;
             timestamp \<leftarrow> paceFrame E epoch;
             stop \<leftarrow> cancelled E epoch;
             if stop then do { failUntouched rq pending; ret (Some CS_OK) }
             else captureSource E fuel epoch rq timestamp pending } } } }"

section \<open>The binder entry point\<close>

text \<open>The validation of a request before any callback fires.\<close>

definition fence_ok :: "native_handle \<Rightarrow> bool" where
  "fence_ok f = (\<not> (nh_ints f \<noteq> [] \<or> 1 < length (nh_fds f) \<or>
     (nh_fds f \<noteq> [] \<and> hd (nh_fds f) < 0)))"

definition buffer_ok :: "session \<Rightarrow> stream_buffer \<Rightarrow> bool" where
  "buffer_ok s b = (fence_ok (sb_acquireFence b) \<and> s_streams s (sb_streamId b) \<noteq> None \<and>
     \<not> (nh_fds (sb_buffer b) = [] \<and> s_bufferCache s (sb_streamId b, sb_bufferId b) = None))"

definition request_ok :: "session \<Rightarrow> capture_request \<Rightarrow> bool" where
  "request_ok s rq = (rq_outputBuffers rq \<noteq> [] \<and> rq_inputStreamId rq = -1 \<and>
     \<not> (rq_settings rq = NoSettings \<and> rq_fmqSettingsSize rq = 0 \<and> \<not> s_haveSettings s) \<and>
     list_all (buffer_ok s) (rq_outputBuffers rq))"

text \<open>The loop over the requests; the \<open>int\<close> is \<open>*numRequestsProcessed\<close>.\<close>

fun processRequests :: "'w env \<Rightarrow> nat \<Rightarrow> 64 word \<Rightarrow> int \<Rightarrow> capture_request list \<Rightarrow>
    ('w, (camera_status \<times> int) option) sm" where
  "processRequests E fuel epoch n [] = ret (Some (CS_OK, n))"
| "processRequests E fuel epoch n (rq # rqs) = do {
     s \<leftarrow> session;
     if \<not> request_ok s rq then ret (Some (ILLEGAL_ARGUMENT, n))
     else do {
       updated \<leftarrow> updateTargetFps E (rq_settings rq);
       if \<not> updated then ret (Some (ILLEGAL_ARGUMENT, n))
       else do {
         st \<leftarrow> processSingleRequest E fuel rq epoch;
         case st of
           None \<Rightarrow> ret None
         | Some CS_OK \<Rightarrow> processRequests E fuel epoch (n + 1) rqs
         | Some code \<Rightarrow> ret (Some (code, n)) } } }"

definition processCaptureRequest ::
  "'w env \<Rightarrow> nat \<Rightarrow> capture_request list \<Rightarrow> (int \<times> int) list \<Rightarrow> ('w, (camera_status \<times> int) option) sm" where
  "processCaptureRequest E fuel rqs cachesToRemove = do {
     others E;
     s \<leftarrow> session;
     if s_closed s \<or> s_flushing s then ret (Some (INTERNAL_ERROR, 0))
     else do {
       removeBuffersFromCache E cachesToRemove;
       others E;
       s1 \<leftarrow> session;
       processRequests E fuel (s_cancelEpoch s1) 0 rqs } }"

text \<open>The remaining entry points keep no state.\<close>

definition signalStreamFlush :: "int list \<Rightarrow> int \<Rightarrow> session \<Rightarrow> camera_status \<times> session" where
  "signalStreamFlush streamIds counter s = (CS_OK, s)"

definition switchToOffline :: "int list \<Rightarrow> session \<Rightarrow> camera_status \<times> session" where
  "switchToOffline streamsToKeep s = (OPERATION_NOT_SUPPORTED, s)"

definition repeatingRequestEnd :: "int \<Rightarrow> int list \<Rightarrow> session \<Rightarrow> camera_status \<times> session" where
  "repeatingRequestEnd frameNumber streamIds s = (CS_OK, s)"

definition isReconfigurationRequired :: "session \<Rightarrow> camera_status \<times> bool \<times> session" where
  "isReconfigurationRequired s = (CS_OK, False, s)"

definition getCaptureRequestMetadataQueue :: "session \<Rightarrow> camera_status \<times> session" where
  "getCaptureRequestMetadataQueue s = (CS_OK, s)"

definition getCaptureResultMetadataQueue :: "session \<Rightarrow> camera_status \<times> session" where
  "getCaptureResultMetadataQueue s = (CS_OK, s)"

text \<open>The destructor closes the session and then frees the cached handles.\<close>

definition session_destroy :: "'w env \<Rightarrow> (int \<times> int) list \<Rightarrow> ('w, unit) sm" where
  "session_destroy E keys = do { session_close E; clearBufferCache E keys }"

end
