(* ===== verification/Session_Logic.thy ===== *)
theory Session_Logic
  imports Session
begin

text \<open>
  A small Hoare logic for the state monad, and what the session relies on from the other
  threads. \<open>triple P m Q\<close>: started where \<open>P\<close> holds, \<open>m\<close> ends with an answer and a
  state for which \<open>Q\<close> holds.
\<close>

definition triple :: "('s \<Rightarrow> bool) \<Rightarrow> ('s, 'a) state \<Rightarrow> ('a \<Rightarrow> 's \<Rightarrow> bool) \<Rightarrow> bool" where
  "triple P m Q \<longleftrightarrow> (\<forall>x. P x \<longrightarrow> (case run_state m x of (a, x') \<Rightarrow> Q a x'))"

named_theorems triple_rules \<open>structural rules, applied by \<open>intro\<close>\<close>

lemma tripleI: "(\<And>x a x'. P x \<Longrightarrow> run_state m x = (a, x') \<Longrightarrow> Q a x') \<Longrightarrow> triple P m Q"
  by (auto simp: triple_def)

lemma tripleD: "triple P m Q \<Longrightarrow> run_state m x = (a, x') \<Longrightarrow> P x \<Longrightarrow> Q a x'"
  by (fastforce simp: triple_def)

lemma triple_return: "(\<And>x. P x \<Longrightarrow> Q a x) \<Longrightarrow> triple P (State_Monad.return a) Q"
  by (auto simp: triple_def)

lemma triple_bind:
  "triple P m R \<Longrightarrow> (\<And>a. triple (R a) (f a) Q) \<Longrightarrow> triple P (State_Monad.bind m f) Q"
  by (fastforce simp: triple_def split: prod.splits)

lemma triple_conseq:
  "triple P m Q \<Longrightarrow> (\<And>x. P' x \<Longrightarrow> P x) \<Longrightarrow> (\<And>a x. Q a x \<Longrightarrow> Q' a x) \<Longrightarrow> triple P' m Q'"
  by (fastforce simp: triple_def split: prod.splits)

lemma triple_pre: "triple P m Q \<Longrightarrow> (\<And>x. P' x \<Longrightarrow> P x) \<Longrightarrow> triple P' m Q"
  by (rule triple_conseq)

lemma triple_post: "triple P m Q \<Longrightarrow> (\<And>a x. Q a x \<Longrightarrow> Q' a x) \<Longrightarrow> triple P m Q'"
  by (rule triple_conseq)

lemma triple_if:
  "(b \<Longrightarrow> triple P m Q) \<Longrightarrow> (\<not> b \<Longrightarrow> triple P n Q) \<Longrightarrow> triple P (if b then m else n) Q"
  by simp

lemma triple_pure: "(c \<Longrightarrow> triple P m Q) \<Longrightarrow> triple (\<lambda>x. c \<and> P x) m Q"
  by (auto simp: triple_def)

lemma triple_session: "triple P session (\<lambda>s x. P x \<and> s = x_session x)"
  by (simp add: triple_def session_def)

section \<open>Invariants of an action\<close>

text \<open>
  \<open>stable I m\<close>: the action keeps \<open>I\<close>. For a property that no primitive action touches,
  the structural rules prove it for any composed action.
\<close>

definition stable :: "('s \<Rightarrow> bool) \<Rightarrow> ('s, 'a) state \<Rightarrow> bool" where
  "stable I m \<longleftrightarrow> triple I m (\<lambda>_. I)"

named_theorems stable_rules

lemma stableD: "stable I m \<Longrightarrow> run_state m x = (a, x') \<Longrightarrow> I x \<Longrightarrow> I x'"
  unfolding stable_def by (rule tripleD)

lemma stable_triple: "stable I m \<Longrightarrow> triple I m (\<lambda>_. I)"
  by (simp add: stable_def)

lemma stable_return [stable_rules]: "stable I (State_Monad.return a)"
  by (simp add: stable_def triple_return)

lemma stable_bind [stable_rules]:
  "stable I m \<Longrightarrow> (\<And>a. stable I (f a)) \<Longrightarrow> stable I (State_Monad.bind m f)"
  unfolding stable_def by (rule triple_bind)

lemma stable_if [stable_rules]: "(b \<Longrightarrow> stable I m) \<Longrightarrow> (\<not> b \<Longrightarrow> stable I n) \<Longrightarrow> stable I (if b then m else n)"
  by simp

lemma stable_let [stable_rules]: "(\<And>x. stable I (f x)) \<Longrightarrow> stable I (let x = t in f x)"
  by (simp add: Let_def)

lemma stable_option [stable_rules]:
  "(v = None \<Longrightarrow> stable I m) \<Longrightarrow> (\<And>a. v = Some a \<Longrightarrow> stable I (f a)) \<Longrightarrow>
   stable I (case v of None \<Rightarrow> m | Some a \<Rightarrow> f a)"
  by (cases v) auto

lemma stable_prod [stable_rules]: "(\<And>a b. stable I (f a b)) \<Longrightarrow> stable I (case p of (a, b) \<Rightarrow> f a b)"
  by (cases p) auto

lemma stable_list [stable_rules]:
  "stable I m \<Longrightarrow> (\<And>a as. stable I (f a as)) \<Longrightarrow> stable I (case xs of [] \<Rightarrow> m | a # as \<Rightarrow> f a as)"
  by (cases xs) auto

lemma stable_bool [stable_rules]:
  "stable I m \<Longrightarrow> stable I n \<Longrightarrow> stable I (case b of True \<Rightarrow> m | False \<Rightarrow> n)"
  by (cases b) auto

lemma stable_session [stable_rules]: "stable I session"
  by (simp add: stable_def triple_def session_def)

lemma stable_has_hal [stable_rules]: "stable I has_hal"
  by (simp add: stable_def triple_def has_hal_def)

lemma stable_each [stable_rules]: "(\<And>a. stable I (f a)) \<Longrightarrow> stable I (each f as)"
  by (induction as) (auto intro!: stable_rules)

text \<open>A kept property in front of the action that establishes the result.\<close>

lemma triple_skip [triple_rules]:
  "stable I m \<Longrightarrow> (\<And>a. triple I (f a) Q) \<Longrightarrow> triple I (State_Monad.bind m f) Q"
  unfolding stable_def by (rule triple_bind)

lemma triple_let [triple_rules]: "(\<And>x. triple P (f x) Q) \<Longrightarrow> triple P (let x = t in f x) Q"
  by (simp add: Let_def)

lemma triple_if' [triple_rules]: "triple P m Q \<Longrightarrow> triple P n Q \<Longrightarrow> triple P (if b then m else n) Q"
  by simp

lemma triple_option [triple_rules]:
  "triple P m Q \<Longrightarrow> (\<And>a. triple P (f a) Q) \<Longrightarrow> triple P (case v of None \<Rightarrow> m | Some a \<Rightarrow> f a) Q"
  by (cases v) auto

lemma triple_prod [triple_rules]: "(\<And>a b. triple P (f a b) Q) \<Longrightarrow> triple P (case p of (a, b) \<Rightarrow> f a b) Q"
  by (cases p) auto

lemma triple_bool [triple_rules]:
  "triple P m Q \<Longrightarrow> triple P n Q \<Longrightarrow> triple P (case b of True \<Rightarrow> m | False \<Rightarrow> n) Q"
  by (cases b) auto

text \<open>An action that establishes \<open>J\<close>, and then only actions that keep it.\<close>

lemma triple_then:
  "triple P m (\<lambda>_. J) \<Longrightarrow> (\<And>a. triple J (f a) Q) \<Longrightarrow> triple P (State_Monad.bind m f) Q"
  by (rule triple_bind)

section \<open>The other threads\<close>

text \<open>
  What the session relies on: others change no field of the session but the three atomics,
  send nothing on its callback, and neither make the HAL appear nor disappear.
\<close>

definition private_same :: "session \<Rightarrow> session \<Rightarrow> bool" where
  "private_same s t \<longleftrightarrow> (\<exists>c e f. t = s\<lparr>s_closed := c, s_cancelEpoch := e, s_flushing := f\<rparr>)"

definition others_private :: "'w env \<Rightarrow> bool" where
  "others_private E \<longleftrightarrow> (\<forall>x. private_same (x_session x) (x_session (e_others E x)) \<and>
     x_events (e_others E x) = x_events x \<and> (x_hal (e_others E x) = None \<longleftrightarrow> x_hal x = None))"

lemma private_same_refl [simp]: "private_same s s"
  unfolding private_same_def
  by (intro exI [of _ "s_closed s"] exI [of _ "s_cancelEpoch s"] exI [of _ "s_flushing s"]) simp

lemma private_same_fields:
  assumes "private_same s t"
  shows "s_slot t = s_slot s" "s_streams t = s_streams s" "s_bufferCache t = s_bufferCache s"
    "s_identity t = s_identity s" "s_token t = s_token s" "s_lastSequence t = s_lastSequence s"
    "s_targetFps t = s_targetFps s" "s_nextFrameNs t = s_nextFrameNs s"
    "s_capabilities t = s_capabilities s" "s_outputs t = s_outputs s"
    "s_sourceMode t = s_sourceMode s" "s_enforce t = s_enforce s"
  using assms by (auto simp: private_same_def)

section \<open>Properties of a request that its phases keep\<close>

text \<open>
  The phases of a request between the calls that take and give back a frame touch only the
  world, the buffer cache, the pacing slot and two counters. Whatever is insensitive to
  those, and to the other threads, is kept by each phase.
\<close>

locale session_base =
  fixes E :: "'w env" and I :: "'w sstate \<Rightarrow> bool"
  assumes world: "I x \<Longrightarrow> I (x\<lparr>x_world := w\<rparr>)"
    and others_keep: "I x \<Longrightarrow> I (e_others E x)"
    and cache: "I x \<Longrightarrow> I (x\<lparr>x_session := (x_session x)\<lparr>s_bufferCache := c\<rparr>\<rparr>)"
    and pace: "I x \<Longrightarrow> I (x\<lparr>x_session := (x_session x)\<lparr>s_nextFrameNs := t\<rparr>\<rparr>)"
    and attempts: "I x \<Longrightarrow> I (x\<lparr>x_session := (x_session x)\<lparr>s_renderAttempts := n\<rparr>\<rparr>)"
    and counter: "I x \<Longrightarrow> I (x\<lparr>x_session := (x_session x)\<lparr>s_frameCounter := k\<rparr>\<rparr>)"
begin

lemma in_world_stable [stable_rules]: "stable I (in_world f)"
  by (auto simp: stable_def triple_def in_world_def world split: prod.splits)

lemma on_world_stable [stable_rules]: "stable I (on_world f)"
  by (auto simp: stable_def triple_def on_world_def world)

lemma close_fd_stable [stable_rules]: "stable I (close_fd E fd)"
  unfolding close_fd_def by (rule on_world_stable)

lemma others_stable [stable_rules]: "stable I (others E)"
  by (auto simp: stable_def triple_def others_def others_keep)

lemma query_stable [stable_rules]: "stable I (in_hal d (\<lambda>h w. (f h, h, w)))"
proof (unfold stable_def, rule tripleI)
  fix x :: "'w sstate" and a x'
  assume I: "I x" and run: "run_state (in_hal d (\<lambda>h w. (f h, h, w))) x = (a, x')"
  have "x' = x" using run by (auto simp: in_hal_def split: option.splits)
  with I show "I x'" by simp
qed

lemma cancelled_stable [stable_rules]: "stable I (cancelled E epoch)"
  unfolding cancelled_def by (intro stable_rules)

lemma current_stable [stable_rules]: "stable I (hal_isFrameCurrent E s a seq)"
  unfolding hal_isFrameCurrent_def by (intro stable_rules)

lemma pause_stable [stable_rules]: "stable I (poll_pause E deadline)"
  unfolding poll_pause_def by (intro stable_rules)

lemma cache_stable: "stable I (modify_session (\<lambda>s. s\<lparr>s_bufferCache := (g s)\<rparr>))"
  by (auto simp: stable_def triple_def modify_session_def cache)

lemma importBuffer_stable [stable_rules]: "stable I (importBuffer E b)"
  unfolding importBuffer_def by (intro stable_rules cache_stable)

lemma removeOne_stable [stable_rules]: "stable I (removeOne E key)"
  unfolding removeOne_def by (intro stable_rules cache_stable)

lemma removeBuffersFromCache_stable [stable_rules]: "stable I (removeBuffersFromCache E keys)"
  unfolding removeBuffersFromCache_def by (intro stable_rules)

lemma dupFences_stable [stable_rules]: "stable I (dupFences E bs)"
  by (induction bs) (auto intro!: stable_rules)

lemma importAll_stable [stable_rules]: "stable I (importAll E bs)"
  by (induction bs) (auto intro!: stable_rules)

lemma waitDestinations_stable [stable_rules]: "stable I (waitDestinations E epoch fds)"
  by (induction fds) (auto intro!: stable_rules)

lemma modify_pace_stable:
  "stable I (modify_session (\<lambda>s. s\<lparr>s_nextFrameNs := g s\<rparr>))"
  "stable I (modify_session (\<lambda>s. if b s then s\<lparr>s_nextFrameNs := g s\<rparr> else s))"
  by (auto simp: stable_def triple_def modify_session_def pace)

lemma paceFrame_stable [stable_rules]: "stable I (paceFrame E epoch)"
  unfolding paceFrame_def by (intro stable_rules modify_pace_stable)

lemma fenceLoop_stable [stable_rules]: "stable I (fenceLoop E fuel epoch s deadline a seq fence)"
  by (induction fuel) (auto intro!: stable_rules)

lemma renderTarget_stable [stable_rules]: "stable I (renderTarget E s st handle a fence)"
  unfolding renderTarget_def renderBlob_def renderYcbcr_def renderCpu_def by (intro stable_rules)

lemma modify_counters_stable:
  "stable I (modify_session (\<lambda>s. s\<lparr>s_renderAttempts := s_renderAttempts s + 1\<rparr>))"
  "stable I (modify_session (\<lambda>s. s\<lparr>s_frameCounter := s_frameCounter s + 1\<rparr>))"
  by (auto simp: stable_def triple_def modify_session_def attempts counter)

lemma processOutput_stable [stable_rules]: "stable I (processOutput E epoch s a seq b)"
  unfolding processOutput_def by (intro stable_rules modify_counters_stable)

lemma processOutputs_stable [stable_rules]: "stable I (processOutputs E epoch s a seq bs)"
  by (induction bs) (auto intro!: stable_rules)

end

text \<open>
  A property of neither the session's fields nor the HAL is kept by the calls into the HAL
  and by configuration as well: only sending a callback can change it.
\<close>

locale session_silent = session_base +
  assumes hal_any: "I x \<Longrightarrow> I (x\<lparr>x_hal := h, x_world := w\<rparr>)"
    and session_any: "I x \<Longrightarrow> I (x\<lparr>x_session := s\<rparr>)"
begin

lemma in_hal_stable [stable_rules]: "stable I (in_hal d f)"
  by (auto simp: stable_def triple_def in_hal_def hal_any split: prod.splits option.splits)

lemma modify_session_stable [stable_rules]: "stable I (modify_session g)"
  by (simp add: stable_def triple_def modify_session_def session_any)

lemma acquireLoop_stable [stable_rules]: "stable I (acquireLoop E fuel epoch s deadline fence)"
  by (induction fuel arbitrary: fence) (auto intro!: stable_rules simp: hal_acquireLatest_def)

lemma releaseSource_stable [stable_rules]: "stable I (releaseSource E s r acquire fences)"
  unfolding releaseSource_def by (intro stable_rules)

lemma session_close_stable [stable_rules]: "stable I (session_close E)"
  unfolding session_close_def by (intro stable_rules)

lemma finish_settings_stable [stable_rules]: "stable I (finish_settings quality)"
  unfolding finish_settings_def by (intro stable_rules)

lemma stable_settings:
  "stable I a \<Longrightarrow> stable I b \<Longrightarrow> (\<And>rate q. stable I (c rate q)) \<Longrightarrow>
   stable I (case st of NoSettings \<Rightarrow> a | Malformed \<Rightarrow> b | Settings rate q \<Rightarrow> c rate q)"
  by (cases st) auto

lemma updateTargetFps_stable [stable_rules]: "stable I (updateTargetFps E st)"
  unfolding updateTargetFps_def hal_registrationCurrent_def hal_notifyStreamsConfigured_def
  by (intro stable_rules stable_settings)

lemma clearBufferCache_stable [stable_rules]: "stable I (clearBufferCache E keys)"
  unfolding clearBufferCache_def by (intro stable_rules)

lemma configureStreams_stable [stable_rules]: "stable I (configureStreams E keys streams)"
  unfolding configureStreams_def hal_registrationCurrent_def hal_notifyStreamsConfigured_def
  by (intro stable_rules)

end

lemma others_private_events: "others_private E \<Longrightarrow> x_events (e_others E x) = x_events x"
  by (simp add: others_private_def)

text \<open>What was sent so far is such a property.\<close>

definition sent :: "'w env \<Rightarrow> camera_event list \<Rightarrow> 'w sstate \<Rightarrow> bool" where
  "sent E es x \<longleftrightarrow> (others_private E \<longrightarrow> x_events x = es)"

interpretation sent: session_silent E "sent E es" for E es
  by unfold_locales (auto simp: sent_def others_private_events)

end
