(* ===== verification/Session_Results.thy ===== *)
theory Session_Results
  imports Session_Logic
begin

text \<open>
  What camera service sees of a capture request: exactly one notification and one result,
  which agree with each other and with the request, or nothing at all.
\<close>

definition buffer_id :: "out_buffer \<Rightarrow> int \<times> int" where
  "buffer_id b = (ob_streamId b, ob_bufferId b)"

definition request_buffers :: "capture_request \<Rightarrow> (int \<times> int) list" where
  "request_buffers rq = map (\<lambda>b. (sb_streamId b, sb_bufferId b)) (rq_outputBuffers rq)"

text \<open>
  A whole-request failure: no shutter, no metadata, every buffer in error. A capture: a
  shutter, an error for exactly the streams whose buffer was not filled, at least one
  filled buffer, and the metadata.
\<close>

definition failure_report :: "capture_request \<Rightarrow> notify_msg list \<Rightarrow> capture_result \<Rightarrow> bool" where
  "failure_report rq notes r \<longleftrightarrow> notes = [ErrorRequest (rq_frameNumber rq)] \<and>
     \<not> list_ex ob_ok (cr_outputBuffers r) \<and> cr_partialResult r = 0 \<and> cr_metadata r = []"

definition capture_report :: "capture_request \<Rightarrow> notify_msg list \<Rightarrow> capture_result \<Rightarrow> bool" where
  "capture_report rq notes r \<longleftrightarrow>
     (\<exists>t. notes = Shutter (rq_frameNumber rq) t t #
        map (\<lambda>b. ErrorBuffer (rq_frameNumber rq) (ob_streamId b))
          (filter (\<lambda>b. \<not> ob_ok b) (cr_outputBuffers r)) \<and>
        find_entry (cr_metadata r) SENSOR_TIMESTAMP = Some (I64 [t])) \<and>
     list_ex ob_ok (cr_outputBuffers r) \<and> cr_partialResult r = 1"

definition report_ok :: "capture_request \<Rightarrow> camera_event list \<Rightarrow> bool" where
  "report_ok rq es \<longleftrightarrow> (\<exists>notes r. es = [Notify notes, CaptureResult r] \<and>
     cr_frameNumber r = rq_frameNumber rq \<and>
     map buffer_id (cr_outputBuffers r) = request_buffers rq \<and>
     (failure_report rq notes r \<or> capture_report rq notes r))"

definition reported :: "'w env \<Rightarrow> camera_event list \<Rightarrow> capture_request \<Rightarrow> 'w sstate \<Rightarrow> bool" where
  "reported E es rq x \<longleftrightarrow> (others_private E \<longrightarrow> (\<exists>fs. x_events x = es @ fs \<and> report_ok rq fs))"

interpretation reported: session_silent E "reported E es rq" for E es rq
  by unfold_locales (auto simp: reported_def others_private_events)

lemma run_emit: "run_state (emit e) x = ((), x\<lparr>x_events := x_events x @ [e]\<rparr>)"
  by (simp add: emit_def)

lemma untouched_ids:
  assumes "length pending = length (rq_outputBuffers rq)"
  shows "map buffer_id (untouched_buffers rq pending) = request_buffers rq"
proof -
  have "map (\<lambda>(b, fd). (sb_streamId b, sb_bufferId b)) (zip bs ps) =
      map (\<lambda>b. (sb_streamId b, sb_bufferId b)) bs" if "length ps = length bs" for ps :: "int list" and bs
    using that by (induction ps bs rule: list_induct2) auto
  then show ?thesis using assms
    by (simp add: untouched_buffers_def request_buffers_def buffer_id_def split_def comp_def)
qed

lemma failUntouched_reports:
  assumes "length pending = length (rq_outputBuffers rq)"
  shows "triple (sent E es) (failUntouched rq pending) (\<lambda>_. reported E es rq)"
proof (rule tripleI)
  fix x a x' assume sent: "sent E es x" and run: "run_state (failUntouched rq pending) x = (a, x')"
  let ?obs = "untouched_buffers rq pending"
  have ids: "map buffer_id ?obs = request_buffers rq" using assms by (rule untouched_ids)
  have bad: "\<not> list_ex ob_ok ?obs"
    by (auto simp: untouched_buffers_def list_ex_iff)
  have "x_events x' = x_events x @ [Notify [ErrorRequest (rq_frameNumber rq)],
      CaptureResult \<lparr>cr_frameNumber = rq_frameNumber rq, cr_outputBuffers = ?obs,
        cr_partialResult = 0, cr_metadata = []\<rparr>]"
    using run by (auto simp: failUntouched_def run_emit)
  then show "reported E es rq x'"
    using sent ids bad by (auto simp: reported_def sent_def report_ok_def failure_report_def)
qed

lemma sendResult_reports:
  assumes "map buffer_id obs = request_buffers rq"
  shows "triple (sent E es) (sendResult rq obs timestamp duration producerTs mode) (\<lambda>_. reported E es rq)"
proof (rule tripleI)
  fix x a x' assume sent: "sent E es x"
    and run: "run_state (sendResult rq obs timestamp duration producerTs mode) x = (a, x')"
  let ?any = "list_ex ob_ok obs" let ?n = "rq_frameNumber rq"
  let ?notes = "if ?any then Shutter ?n timestamp timestamp #
      map (\<lambda>b. ErrorBuffer ?n (ob_streamId b)) (filter (\<lambda>b. \<not> ob_ok b) obs) else [ErrorRequest ?n]"
  let ?r = "\<lparr>cr_frameNumber = ?n, cr_outputBuffers = obs, cr_partialResult = (if ?any then 1 else 0),
     cr_metadata = (if ?any
       then buildResultMetadata timestamp duration producerTs (m_width mode) (m_height mode) else [])\<rparr>"
  have ev: "x_events x' = x_events x @ [Notify ?notes, CaptureResult ?r]"
    using run by (auto simp: sendResult_def run_emit Let_def)
  have "failure_report rq ?notes ?r \<or> capture_report rq ?notes ?r"
    by (simp add: failure_report_def capture_report_def find_entry_def buildResultMetadata_def)
  then have "report_ok rq [Notify ?notes, CaptureResult ?r]"
    unfolding report_ok_def using assms by (intro exI [of _ ?notes] exI [of _ ?r]) simp
  then show "reported E es rq x'" using sent ev by (simp only: reported_def sent_def) blast
qed

section \<open>The lists of fences and buffers\<close>

lemma triple_answer:
  assumes "stable I m" and "\<And>x a x'. run_state m x = (a, x') \<Longrightarrow> R a"
  shows "triple I m (\<lambda>a x. R a \<and> I x)"
proof (rule tripleI)
  fix x a x' assume "I x" "run_state m x = (a, x')"
  then show "R a \<and> I x'" using assms(2) stableD [OF assms(1)] by simp
qed

lemma dupFences_length: "run_state (dupFences E bs) x = ((True, fds), x') \<Longrightarrow> length fds = length bs"
  by (induction bs arbitrary: x fds) (fastforce split: list.splits prod.splits if_splits)+

lemma waitDestinations_length:
  "run_state (waitDestinations E epoch fds) x = (Some left, x') \<Longrightarrow> length left = length fds"
  by (induction fds arbitrary: x left) (fastforce split: prod.splits if_splits option.splits)+

lemma processOutput_id:
  "run_state (processOutput E epoch s a seq b) x = ((ob, fences), x') \<Longrightarrow>
   buffer_id ob = (sb_streamId b, sb_bufferId b)"
  by (auto simp: processOutput_def buffer_id_def split: prod.splits option.splits)

lemma processOutputs_ids:
  "run_state (processOutputs E epoch s a seq bs) x = ((obs, fences), x') \<Longrightarrow>
   map buffer_id obs = map (\<lambda>b. (sb_streamId b, sb_bufferId b)) bs"
proof (induction bs arbitrary: x obs fences)
  case Nil
  then show ?case by simp
next
  case (Cons b bs)
  then show ?case using processOutput_id by (fastforce split: prod.splits)
qed

section \<open>Every accepted request is reported once\<close>

text \<open>
  The answer of a phase: out of fuel, refused with nothing sent, or accepted and reported.
\<close>

definition answered :: "'w env \<Rightarrow> camera_event list \<Rightarrow> capture_request \<Rightarrow> camera_status option \<Rightarrow>
    'w sstate \<Rightarrow> bool" where
  "answered E es rq r x \<longleftrightarrow> (case r of
       None \<Rightarrow> True
     | Some st \<Rightarrow> if st = CS_OK then reported E es rq x else sent E es x)"

lemma answered_ok: "triple (reported E es rq) (ret (Some CS_OK)) (answered E es rq)"
  by (rule triple_return) (simp add: answered_def)

lemma answered_refused: "st \<noteq> CS_OK \<Longrightarrow> triple (sent E es) (ret (Some st)) (answered E es rq)"
  by (rule triple_return) (simp add: answered_def)

lemma answered_fuel: "triple I (ret None) (answered E es rq)"
  by (rule triple_return) (simp add: answered_def)

lemma fail_answers:
  assumes "length pending = length (rq_outputBuffers rq)"
  shows "triple (sent E es) (do { failUntouched rq pending; ret (Some CS_OK) }) (answered E es rq)"
    and "triple (sent E es) (do { failUntouched rq pending; releaseSource E s r f fs; ret (Some CS_OK) })
      (answered E es rq)"
proof -
  note fail = failUntouched_reports [OF assms]
  show "triple (sent E es) (do { failUntouched rq pending; ret (Some CS_OK) }) (answered E es rq)"
    by (rule triple_then [OF fail]) (rule answered_ok)
  show "triple (sent E es) (do { failUntouched rq pending; releaseSource E s r f fs; ret (Some CS_OK) })
      (answered E es rq)"
    by (rule triple_then [OF fail]) (intro triple_skip reported.releaseSource_stable answered_ok)
qed

lemma withFrame_answers:
  assumes "length pending = length (rq_outputBuffers rq)"
  shows "triple (sent E es) (withFrame E fuel epoch s deadline rq timestamp pending q fence) (answered E es rq)"
proof -
  have obs: "triple (sent E es)
      (processOutputs E epoch s (a_ahb q) (a_sequence q) (rq_outputBuffers rq))
      (\<lambda>p x. map buffer_id (fst p) = request_buffers rq \<and> sent E es x)"
    by (rule triple_answer [OF sent.processOutputs_stable])
      (use processOutputs_ids in \<open>fastforce simp: request_buffers_def\<close>)
  have send: "triple (\<lambda>x. map buffer_id o' = request_buffers rq \<and> sent E es x)
      (do { sendResult rq o' timestamp (frame_interval (s_targetFps s)) (a_timestampNs q) (s_sourceMode s);
            releaseSource E s (Some q) (-1) fences; ret (Some CS_OK) }) (answered E es rq)" for o' fences
    by (rule triple_pure, rule triple_then [OF sendResult_reports])
      (assumption, intro triple_skip reported.releaseSource_stable answered_ok)
  have fill: "triple (sent E es) (do {
      close_fd E fence;
      (obs, fences) \<leftarrow> processOutputs E epoch s (a_ahb q) (a_sequence q) (rq_outputBuffers rq);
      sendResult rq obs timestamp (frame_interval (s_targetFps s)) (a_timestampNs q) (s_sourceMode s);
      releaseSource E s (Some q) (-1) fences;
      ret (Some CS_OK) }) (answered E es rq)"
    by (rule triple_skip [OF sent.close_fd_stable], rule triple_bind [OF obs])
      (auto simp: split_def intro: send)
  show ?thesis
    unfolding withFrame_def
    by (intro fill fail_answers [OF assms] answered_fuel triple_option triple_bool triple_if'
        triple_skip [OF sent.modify_session_stable] triple_skip [OF sent.fenceLoop_stable]
        triple_skip [OF sent.cancelled_stable] triple_skip [OF stable_if] stable_return
        sent.current_stable)
qed

lemma captureSource_answers:
  assumes "length pending = length (rq_outputBuffers rq)"
  shows "triple (sent E es) (captureSource E fuel epoch rq timestamp pending) (answered E es rq)"
  unfolding captureSource_def
  by (intro triple_rules stable_session stable_has_hal sent.modify_session_stable sent.in_world_stable
      sent.acquireLoop_stable sent.cancelled_stable answered_fuel fail_answers [OF assms]
      withFrame_answers [OF assms])

lemma waited_fails:
  assumes "length fds = length (rq_outputBuffers rq)"
  shows "triple (sent E es) (waitDestinations E epoch fds)
    (\<lambda>r x. (r = None \<or> length (the r) = length (rq_outputBuffers rq)) \<and> sent E es x)"
proof (rule triple_answer [OF sent.waitDestinations_stable])
  fix x r x' assume "run_state (waitDestinations E epoch fds) x = (r, x')"
  then show "r = None \<or> length (the r) = length (rq_outputBuffers rq)"
    using waitDestinations_length [of E epoch fds x _ x'] assms by (cases r) auto
qed

lemma processSingleRequest_answers:
  "triple (sent E es) (processSingleRequest E fuel rq epoch) (answered E es rq)"
proof -
  have dup: "triple (sent E es) (dupFences E (rq_outputBuffers rq))
      (\<lambda>p x. (fst p \<longrightarrow> length (snd p) = length (rq_outputBuffers rq)) \<and> sent E es x)"
    by (rule triple_answer [OF sent.dupFences_stable]) (use dupFences_length in fastforce)
  have pace: "triple (sent E es) (do {
       timestamp \<leftarrow> paceFrame E epoch;
       stop \<leftarrow> cancelled E epoch;
       if stop then do { failUntouched rq pending; ret (Some CS_OK) }
       else captureSource E fuel epoch rq timestamp pending }) (answered E es rq)"
    if "length pending = length (rq_outputBuffers rq)" for pending
    by (intro triple_skip [OF sent.paceFrame_stable] triple_skip [OF sent.cancelled_stable] triple_if'
        fail_answers(1) captureSource_answers that)
  have go: "triple (\<lambda>x. (fst p \<longrightarrow> length (snd p) = length (rq_outputBuffers rq)) \<and> sent E es x)
     (case p of (preserved, fds) \<Rightarrow>
       if \<not> preserved then do { session_close E; each (close_fd E) fds; ret (Some INTERNAL_ERROR) }
       else do {
         imported \<leftarrow> importAll E (rq_outputBuffers rq);
         if \<not> imported then do { each (close_fd E) fds; ret (Some ILLEGAL_ARGUMENT) }
         else do {
           failed \<leftarrow> waitDestinations E epoch fds;
           case failed of
             Some left \<Rightarrow> do { failUntouched rq left; ret (Some CS_OK) }
           | None \<Rightarrow> do {
               let pending = map (\<lambda>_. -1) fds;
               timestamp \<leftarrow> paceFrame E epoch;
               stop \<leftarrow> cancelled E epoch;
               if stop then do { failUntouched rq pending; ret (Some CS_OK) }
               else captureSource E fuel epoch rq timestamp pending } } }) (answered E es rq)" for p
  proof (cases p)
    case (Pair preserved fds)
    have cases: "triple (\<lambda>x. (r = None \<or> length (the r) = length (rq_outputBuffers rq)) \<and> sent E es x)
       (case r of
             Some left \<Rightarrow> do { failUntouched rq left; ret (Some CS_OK) }
           | None \<Rightarrow> do {
               let pending = map (\<lambda>_. -1) fds;
               timestamp \<leftarrow> paceFrame E epoch;
               stop \<leftarrow> cancelled E epoch;
               if stop then do { failUntouched rq pending; ret (Some CS_OK) }
               else captureSource E fuel epoch rq timestamp pending }) (answered E es rq)"
      if "length fds = length (rq_outputBuffers rq)" for r
      by (rule triple_pure) (cases r, auto simp: Let_def that intro!: fail_answers(1) pace)
    show ?thesis
    proof (cases preserved)
      case True
      then show ?thesis
        unfolding Pair
        by (auto intro!: triple_pure triple_skip [OF sent.importAll_stable] triple_if'
            triple_skip [OF stable_each [OF sent.close_fd_stable]] answered_refused
            triple_bind [OF waited_fails] cases)
    next
      case False
      then show ?thesis
        unfolding Pair
        by (auto intro!: triple_pure triple_skip [OF sent.session_close_stable]
            triple_skip [OF stable_each [OF sent.close_fd_stable]] answered_refused)
    qed
  qed
  show ?thesis unfolding processSingleRequest_def by (rule triple_bind [OF dup go])
qed

text \<open>
  C12: a capture request that the session accepts produces exactly one
  notification and one result, for its frame number and for its buffers in their order:
  either a whole-request failure that returns every buffer in error without shutter or
  metadata, or a capture with a shutter, metadata of the same time stamp, at least one
  filled buffer, and an error message for exactly the streams whose buffer was not filled.
  A request it refuses produces no callback at all.
\<close>

theorem one_result_per_request:
  assumes "others_private E"
    and "run_state (processSingleRequest E fuel rq epoch) x = (Some st, x')"
  shows "if st = CS_OK then \<exists>es. x_events x' = x_events x @ es \<and> report_ok rq es
    else x_events x' = x_events x"
proof -
  have "sent E (x_events x) x" by (simp add: sent_def)
  from tripleD [OF processSingleRequest_answers assms(2) this] assms(1)
  show ?thesis by (auto simp: answered_def reported_def sent_def)
qed

section \<open>A demo session\<close>

text \<open>
  On the fence world, a session on slot 2 with the demo configuration (token 2) and one
  640x480 RGBA stream; the GPU fills every target.
\<close>

definition demo_env :: "fence_world env" where
  "demo_env = \<lparr>e_sys = demo_sys, e_gfx = demo_gfx, e_others = (\<lambda>x. x),
     e_now = (\<lambda>w. (5000000000, w)), e_waitUntil = (\<lambda>_ w. w),
     e_makeFromAidl = (\<lambda>_ w. (Some (7, 1), w)), e_deleteHandle = (\<lambda>_ w. w),
     e_importBuffer = (\<lambda>n w. (Some (n + 70), w)), e_freeBuffer = (\<lambda>_ w. w),
     e_lock = (\<lambda>_ _ w. (True, w)), e_unlock = (\<lambda>_ w. w), e_lockYCbCr = (\<lambda>_ _ _ w. (True, w)),
     e_encodeToBlob = (\<lambda>_ _ _ _ _ _ _ w. (100, w)), e_compositeToYcbcr = (\<lambda>_ _ _ _ _ w. (True, w)),
     e_composite = (\<lambda>_ _ _ _ _ _ w. (True, -1, w)),
     e_fillFromAHardwareBuffer = (\<lambda>_ _ _ _ w. (True, w))\<rparr>"

definition demo_stream :: stream where
  "demo_stream = \<lparr>st_id = 0, st_format = 1, st_width = 640, st_height = 480, st_useCase = 0,
     st_input = False, st_rotation = 0, st_dataSpace = 0, st_bufferSize = 0\<rparr>"

definition demo_session :: session where
  "demo_session = (session_init 2 (Some (caps_of_descriptor demo_descriptor)) False 1)
     \<lparr>s_token := 2, s_streams := (\<lambda>i. if i = 0 then Some demo_stream else None),
      s_haveSettings := True\<rparr>"

definition demo_buffer :: stream_buffer where
  "demo_buffer = \<lparr>sb_streamId = 0, sb_bufferId = 4, sb_buffer = \<lparr>nh_fds = [30], nh_ints = []\<rparr>,
     sb_acquireFence = \<lparr>nh_fds = [], nh_ints = []\<rparr>\<rparr>"

definition demo_request :: capture_request where
  "demo_request = \<lparr>rq_frameNumber = 12, rq_outputBuffers = [demo_buffer], rq_inputStreamId = -1,
     rq_settings = NoSettings, rq_fmqSettingsSize = 0\<rparr>"

definition demo_state :: "fence_world sstate" where
  "demo_state = \<lparr>x_session = demo_session, x_hal = Some demo_hal_frame, x_world = demo_world, x_events = []\<rparr>"

lemma demo_env_private: "others_private demo_env"
  by (simp add: others_private_def demo_env_def)

lemma one_result_per_request_witness:
  "fst (run_state (processSingleRequest demo_env 3 demo_request 0) demo_state) = Some CS_OK \<and>
   (\<exists>es. x_events (snd (run_state (processSingleRequest demo_env 3 demo_request 0) demo_state)) = [] @ es \<and>
     report_ok demo_request es)"
proof -
  obtain r x' where run: "run_state (processSingleRequest demo_env 3 demo_request 0) demo_state = (r, x')"
    by (cases "run_state (processSingleRequest demo_env 3 demo_request 0) demo_state")
  have "fst (run_state (processSingleRequest demo_env 3 demo_request 0) demo_state) = Some CS_OK"
    by code_simp
  then have r: "r = Some CS_OK" using run by simp
  have "x_events demo_state = []" by (simp add: demo_state_def)
  then show ?thesis
    using one_result_per_request [OF demo_env_private run [unfolded r]] run r by simp
qed

end
