(* ===== verification/Session_Guarantee.thy ===== *)
theory Session_Guarantee
  imports Session_Results Hal_Theorems
begin

text \<open>
  The session as a client of the stable HAL: whatever it does, the HAL sees one of its runs
  (\<open>hal_run\<close>), in which every frame the session takes it gives back, with no more read
  fences than the HAL provides for. The HAL's guarantees therefore hold under the session.
\<close>

text \<open>
  What the session relies on: the other threads, too, only make runs of the HAL, and none of
  them reads frames of the session's slot (a device has one session at a time).
\<close>

definition others_readers :: "'w env \<Rightarrow> int \<Rightarrow> bool" where
  "others_readers E K \<longleftrightarrow> (\<forall>x h. x_hal x = Some h \<longrightarrow> (\<exists>h'. x_hal (e_others E x) = Some h' \<and>
     hal_run (e_sys E) (e_gfx E) K (h, x_world x) (h', x_world (e_others E x)) \<and>
     f_inflight (mLatest h' (s_slot (x_session x))) = f_inflight (mLatest h (s_slot (x_session x))) \<and>
     (0 < f_inflight (mLatest h (s_slot (x_session x))) \<longrightarrow>
        f_ahb (mLatest h' (s_slot (x_session x))) = f_ahb (mLatest h (s_slot (x_session x))))))"

text \<open>
  \<open>reading E K slot owner start held x\<close>: since \<open>start\<close> the HAL made a run, and the only
  read in flight on the slot is the one of \<open>held\<close>.
\<close>

definition reads_of :: "int \<Rightarrow> hal \<Rightarrow> ahb option \<Rightarrow> bool" where
  "reads_of slot h held \<longleftrightarrow> (case held of
       None \<Rightarrow> f_inflight (mLatest h slot) = 0
     | Some a \<Rightarrow> f_inflight (mLatest h slot) = 1 \<and> f_ahb (mLatest h slot) = Some a \<and> validSlot slot)"

definition reading_now :: "'w env \<Rightarrow> int \<Rightarrow> int \<Rightarrow> int \<Rightarrow> hal \<times> 'w \<Rightarrow> ahb option \<Rightarrow> 'w sstate \<Rightarrow> bool" where
  "reading_now E K slot owner start held x \<longleftrightarrow> (\<exists>h. x_hal x = Some h \<and>
     hal_run (e_sys E) (e_gfx E) K start (h, x_world x) \<and> s_slot (x_session x) = slot \<and>
     s_identity (x_session x) = owner \<and> reads_of slot h held)"

definition relied :: "'w env \<Rightarrow> int \<Rightarrow> int \<Rightarrow> hal \<times> 'w \<Rightarrow> bool" where
  "relied E K owner start \<longleftrightarrow> others_private E \<and> others_readers E K \<and> 1 \<le> K \<and>
     hal_inv K (fst start) \<and> owner \<le> mNextIdentity (fst start)"

definition reading :: "'w env \<Rightarrow> int \<Rightarrow> int \<Rightarrow> int \<Rightarrow> hal \<times> 'w \<Rightarrow> ahb option \<Rightarrow> 'w sstate \<Rightarrow> bool" where
  "reading E K slot owner start held x \<longleftrightarrow> (relied E K owner start \<longrightarrow> reading_now E K slot owner start held x)"

lemma reading_cong:
  "x_hal x' = x_hal x \<Longrightarrow> x_world x' = x_world x \<Longrightarrow> s_slot (x_session x') = s_slot (x_session x) \<Longrightarrow>
   s_identity (x_session x') = s_identity (x_session x) \<Longrightarrow>
   reading E K slot owner start held x \<Longrightarrow> reading E K slot owner start held x'"
  by (simp add: reading_def reading_now_def)

lemma reading_world:
  "reading E K slot owner start held x \<Longrightarrow> reading E K slot owner start held (x\<lparr>x_world := w\<rparr>)"
  by (auto simp: reading_def reading_now_def intro: rtranclp.rtrancl_into_rtrancl hal_step.world)

lemma reading_others:
  assumes "reading E K slot owner start held x"
  shows "reading E K slot owner start held (e_others E x)"
  unfolding reading_def
proof
  assume rely: "relied E K owner start"
  then obtain h where h: "x_hal x = Some h" "hal_run (e_sys E) (e_gfx E) K start (h, x_world x)"
      "s_slot (x_session x) = slot" "s_identity (x_session x) = owner" "reads_of slot h held"
    using assms by (auto simp: reading_def reading_now_def)
  have "private_same (x_session x) (x_session (e_others E x))"
    using rely by (simp add: relied_def others_private_def)
  note same = private_same_fields [OF this]
  from rely h(1) obtain h' where h': "x_hal (e_others E x) = Some h'"
      "hal_run (e_sys E) (e_gfx E) K (h, x_world x) (h', x_world (e_others E x))"
      "f_inflight (mLatest h' slot) = f_inflight (mLatest h slot)"
      "0 < f_inflight (mLatest h slot) \<longrightarrow> f_ahb (mLatest h' slot) = f_ahb (mLatest h slot)"
    using h(3) by (auto simp: relied_def others_readers_def)
  have "reads_of slot h' held"
    using h(5) h'(3,4) by (auto simp: reads_of_def split: option.splits)
  then show "reading_now E K slot owner start held (e_others E x)"
    using h h' same unfolding reading_now_def by (intro exI [of _ h']) (auto intro: rtranclp_trans)
qed

interpretation reading: session_base E "reading E K slot owner start held" for E K slot owner start held
  by unfold_locales (auto intro: reading_world reading_others reading_cong)

lemma reading_modify:
  assumes "\<And>s. s_slot (g s) = s_slot s \<and> s_identity (g s) = s_identity s"
  shows "stable (reading E K slot owner start held) (modify_session g)"
  using assms by (auto simp: stable_def triple_def modify_session_def elim!: reading_cong [rotated 4])

lemma reading_emit: "stable (reading E K slot owner start held) (emit e)"
  by (auto simp: stable_def triple_def emit_def elim!: reading_cong [rotated 4])

text \<open>The value of the session a phase works with.\<close>

lemma reading_session:
  "triple (reading E K slot owner start held) session
    (\<lambda>s x. (relied E K owner start \<longrightarrow> s_slot s = slot \<and> s_identity s = owner) \<and>
       reading E K slot owner start held x)"
  by (rule tripleI) (auto simp: session_def reading_def reading_now_def)

section \<open>Calls into the HAL\<close>

text \<open>A call that is one of the HAL's methods, and what it does to the reads on the slot.\<close>

lemma reading_call:
  assumes exec: "\<And>h w. snd (f h w) = hal_exec (e_sys E) (e_gfx E) op h w"
    and allowed: "\<And>h w. relied E K owner start \<Longrightarrow> hal_run (e_sys E) (e_gfx E) K start (h, w) \<Longrightarrow>
      reads_of slot h held \<Longrightarrow> op_allowed K op h"
    and reads: "\<And>h w a h' w'. f h w = (a, h', w') \<Longrightarrow> relied E K owner start \<Longrightarrow>
      reads_of slot h held \<Longrightarrow> reads_of slot h' (held' a)"
  shows "triple (reading E K slot owner start held) (in_hal d f)
    (\<lambda>a. reading E K slot owner start (held' a))"
proof (rule tripleI)
  fix x a x' assume pre: "reading E K slot owner start held x" and run: "run_state (in_hal d f) x = (a, x')"
  show "reading E K slot owner start (held' a) x'"
    unfolding reading_def
  proof
    assume rely: "relied E K owner start"
    then obtain h where h: "x_hal x = Some h" "hal_run (e_sys E) (e_gfx E) K start (h, x_world x)"
        "s_slot (x_session x) = slot" "s_identity (x_session x) = owner" "reads_of slot h held"
      using pre by (auto simp: reading_def reading_now_def)
    obtain h' w' where f: "f h (x_world x) = (a, h', w')" and x': "x' = x\<lparr>x_hal := Some h', x_world := w'\<rparr>"
      using run h(1) by (auto simp: in_hal_def split: prod.splits)
    have "hal_step (e_sys E) (e_gfx E) K (h, x_world x) (h', w')"
      using allowed [OF rely h(2,5)] exec [of h "x_world x"] f by (intro hal_step.call) simp_all
    then show "reading_now E K slot owner start (held' a) x'"
      using h reads [OF f rely h(5)] x' unfolding reading_now_def
      by (auto intro: rtranclp.rtrancl_into_rtrancl)
  qed
qed

text \<open>Withdrawing an idle frame leaves no reads.\<close>

lemma drop_idle:
  assumes "dropLatestLocked S G slot h w = (h', w')" "f_inflight (mLatest h s) = 0"
  shows "f_inflight (mLatest h' s) = 0"
  using assms(1) by (cases rule: dropE) (use assms(2) in auto)

lemma configure_idle:
  assumes "notifyStreamsConfigured S G slot owner width height fps h w = (t, h', w', es)"
    "f_inflight (mLatest h s) = 0"
  shows "f_inflight (mLatest h' s) = 0"
  using assms by (auto simp: notifyStreamsConfigured_def Let_def split: if_splits prod.splits elim!: drop_idle)

lemma closed_idle:
  assumes "notifyCameraClosed S G slot owner token h w = (h', w', es)" "f_inflight (mLatest h s) = 0"
  shows "f_inflight (mLatest h' s) = 0"
  using assms by (auto simp: notifyCameraClosed_def Let_def split: if_splits prod.splits elim!: drop_idle)

lemma reading_configure:
  assumes "relied E K owner start \<longrightarrow> identity = owner"
  shows "stable (reading E K slot owner start None) (hal_notifyStreamsConfigured E sl identity wd ht fps)"
  unfolding stable_def hal_notifyStreamsConfigured_def
proof (rule reading_call [where op = "NotifyStreamsConfigured sl identity wd ht fps"])
  fix h w assume rely: "relied E K owner start" and run: "hal_run (e_sys E) (e_gfx E) K start (h, w)"
  have "hal_le (fst start) h" using hal_run_le [OF run] rely by (simp add: relied_def)
  then have "mNextIdentity (fst start) \<le> mNextIdentity h" by (simp add: hal_le_def)
  then show "op_allowed K (NotifyStreamsConfigured sl identity wd ht fps) h"
    using rely assms by (simp add: relied_def)
qed (auto simp: reads_of_def split: prod.splits elim!: configure_idle)

lemma reading_closed:
  "stable (reading E K slot owner start None) (in_hal () (\<lambda>h w.
     let (h', w', es) = notifyCameraClosed (e_sys E) (e_gfx E) sl identity token h w in ((), h', w')))"
  unfolding stable_def
  by (rule reading_call [where op = "NotifyCameraClosed sl identity token"])
    (auto simp: reads_of_def split: prod.splits elim!: closed_idle)

text \<open>Taking a frame and giving it back.\<close>

definition held_of :: "acquired option \<times> int \<Rightarrow> ahb option" where
  "held_of p = map_option a_ahb (fst p)"

lemma reading_acquire:
  assumes "relied E K owner start \<longrightarrow> s_slot s = slot"
  shows "triple (reading E K slot owner start None) (hal_acquireLatest E s)
    (\<lambda>p. reading E K slot owner start (held_of p))"
  unfolding hal_acquireLatest_def
proof (rule reading_call [where op = "AcquireLatest (s_slot s) True True (s_lastSequence s) (s_token s)"])
  fix h w a h' w'
  assume rely: "relied E K owner start" and idle: "reads_of slot h None"
    and run: "(let (r, fd, h', w') = acquireLatest (e_sys E) (e_gfx E) (s_slot s) True True
       (s_lastSequence s) (s_token s) h w in ((r, fd), h', w')) = (a, h', w')"
  then obtain r fd where a: "a = (r, fd)" and
    acq: "acquireLatest (e_sys E) (e_gfx E) slot True True (s_lastSequence s) (s_token s) h w = (r, fd, h', w')"
    using assms by (auto split: prod.splits)
  from acq show "reads_of slot h' (held_of a)"
    by (cases rule: acquireLatestE) (use idle in \<open>auto simp: reads_of_def held_of_def a\<close>)
qed (auto split: prod.splits)

lemma release_reads:
  assumes "releaseFrame S G slot (Some a) fs h w = (h', w')" "f_inflight (mLatest h slot) = 1"
    "f_ahb (mLatest h slot) = Some a" "validSlot slot"
  shows "f_inflight (mLatest h' slot) = 0"
proof -
  let ?cur = "mLatest h slot"
  obtain ok fences w1 where
    cons: "consolidateReadFences S (f_readFences ?cur @ fs) w = (ok, fences, w1)"
    by (metis prod_cases3)
  let ?cur1 = "?cur\<lparr>f_readFences := fences, f_inflight := f_inflight ?cur - 1\<rparr>"
  obtain free h2 w2 where reap: "reapRetiringLocked S G slot (set_frame h slot ?cur1) w1 = (free, h2, w2)"
    by (metis prod_cases3)
  have "h' = (if f_retiring ?cur then h2 else set_frame h slot ?cur1)"
    using assms cons reap by (auto simp: releaseFrame_def Let_def split: if_splits)
  moreover have "f_inflight (mLatest h2 slot) = 0"
    using reap by (cases rule: reapE) (use assms in auto)
  ultimately show ?thesis using assms by auto
qed

lemma reading_release:
  assumes fences: "int (length (fences @ fd_list acquire)) \<le> K"
    and slot: "relied E K owner start \<longrightarrow> s_slot s = slot"
  shows "triple (reading E K slot owner start (Some (a_ahb q))) (releaseSource E s (Some q) acquire fences)
    (\<lambda>_. reading E K slot owner start None)"
proof -
  let ?fs = "fences @ fd_list acquire"
  have "triple (reading E K slot owner start (Some (a_ahb q)))
    (in_hal () (\<lambda>h w. let (h', w') = releaseFrame (e_sys E) (e_gfx E) (s_slot s) (Some (a_ahb q)) ?fs h w
       in ((), h', w'))) (\<lambda>_. reading E K slot owner start None)"
  proof (rule reading_call [where op = "ReleaseFrame (s_slot s) (a_ahb q) ?fs"])
    fix h w a h' w'
    assume rely: "relied E K owner start" and held: "reads_of slot h (Some (a_ahb q))"
      and run: "(let (h', w') = releaseFrame (e_sys E) (e_gfx E) (s_slot s) (Some (a_ahb q)) ?fs h w
       in ((), h', w')) = (a, h', w')"
    have "releaseFrame (e_sys E) (e_gfx E) slot (Some (a_ahb q)) ?fs h w = (h', w')"
      using run slot rely by (auto split: prod.splits)
    then show "reads_of slot h' None"
      using release_reads held by (auto simp: reads_of_def)
  next
    fix h w assume "relied E K owner start" "reads_of slot h (Some (a_ahb q))"
    then show "op_allowed K (ReleaseFrame (s_slot s) (a_ahb q) ?fs) h"
      using fences slot by (auto simp: reads_of_def)
  qed (auto split: prod.splits)
  then show ?thesis
    unfolding releaseSource_def option.case by (intro triple_skip [OF reading.others_stable])
qed

section \<open>The phases of a request\<close>

lemma reading_acquireLoop:
  assumes "relied E K owner start \<longrightarrow> s_slot s = slot"
  shows "triple (reading E K slot owner start None) (acquireLoop E fuel epoch s deadline fence)
    (\<lambda>r x. r \<noteq> None \<longrightarrow> reading E K slot owner start (held_of (the r)) x)"
proof (induction fuel arbitrary: fence)
  case 0
  show ?case by (simp add: triple_return)
next
  case (Suc fuel)
  have poll: "triple (reading E K slot owner start None) (do {
         now \<leftarrow> in_world (e_now E);
         if deadline \<le> now then ret (Some (None, fd))
         else do { poll_pause E deadline; acquireLoop E fuel epoch s deadline fd } })
      (\<lambda>r x. r \<noteq> None \<longrightarrow> reading E K slot owner start (held_of (the r)) x)" for fd
    by (intro triple_skip [OF reading.in_world_stable] triple_if triple_skip [OF reading.pause_stable]
        triple_return Suc.IH) (simp add: held_of_def)
  have got: "triple (reading E K slot owner start (held_of p)) (case p of (r, fd) \<Rightarrow>
       if r \<noteq> None then ret (Some (r, fd))
       else do {
         now \<leftarrow> in_world (e_now E);
         if deadline \<le> now then ret (Some (None, fd))
         else do { poll_pause E deadline; acquireLoop E fuel epoch s deadline fd } })
    (\<lambda>r x. r \<noteq> None \<longrightarrow> reading E K slot owner start (held_of (the r)) x)" for p
  proof (cases "fst p")
    case (Some q)
    then show ?thesis by (cases p) (simp add: triple_return)
  next
    case None
    then obtain fd where p: "p = (None, fd)" by (cases p) auto
    show ?thesis using poll [of fd] by (simp add: p held_of_def)
  qed
  show ?case
    unfolding acquireLoop.simps
    by (intro triple_skip [OF reading.cancelled_stable] triple_skip [OF reading.others_stable] triple_if
        triple_return triple_bind [OF reading_acquire [OF assms] got]) (simp add: held_of_def)
qed

lemma reading_fail: "stable (reading E K slot owner start held) (failUntouched rq pending)"
  unfolding failUntouched_def by (intro stable_rules reading_emit)

lemma reading_result: "stable (reading E K slot owner start held) (sendResult rq obs ts dur pts mode)"
  unfolding sendResult_def by (intro stable_rules reading_emit)

text \<open>At most one completion fence for each target.\<close>

lemma processOutput_fences:
  "run_state (processOutput E epoch s a seq b) x = ((ob, fences), x') \<Longrightarrow> length fences \<le> 1"
  by (auto simp: processOutput_def split: prod.splits option.splits if_splits)

lemma processOutputs_fences:
  "run_state (processOutputs E epoch s a seq bs) x = ((obs, fences), x') \<Longrightarrow> length fences \<le> length bs"
proof (induction bs arbitrary: x obs fences)
  case Nil
  then show ?case by simp
next
  case (Cons b bs)
  then show ?case using processOutput_fences by (fastforce split: prod.splits)
qed

text \<open>
  The answer of a phase: out of fuel, or every frame given back.
\<close>

definition idle_after :: "'w env \<Rightarrow> int \<Rightarrow> int \<Rightarrow> int \<Rightarrow> hal \<times> 'w \<Rightarrow> 'b option \<Rightarrow> 'w sstate \<Rightarrow> bool" where
  "idle_after E K slot owner start r x \<longleftrightarrow> (r \<noteq> None \<longrightarrow> reading E K slot owner start None x)"

lemma idle_return: "triple (reading E K slot owner start None) (ret r) (idle_after E K slot owner start)"
  by (rule triple_return) (simp add: idle_after_def)

lemma idle_fuel: "triple I (ret None) (idle_after E K slot owner start)"
  by (rule triple_return) (simp add: idle_after_def)

lemma idle_fail:
  "triple (reading E K slot owner start None) (do { failUntouched rq pending; ret (Some CS_OK) })
     (idle_after E K slot owner start)"
  by (intro triple_skip [OF reading_fail] idle_return)

lemma give_back:
  assumes slot: "relied E K owner start \<longrightarrow> s_slot s = slot" and K: "1 \<le> K"
  shows "triple (reading E K slot owner start (Some (a_ahb q)))
    (do { failUntouched rq pending; releaseSource E s (Some q) fence []; ret (Some CS_OK) })
    (idle_after E K slot owner start)"
proof -
  have len: "int (length ([] @ fd_list fence)) \<le> K" using K by (simp add: fd_list_def)
  show ?thesis
    by (rule triple_skip [OF reading_fail]) (rule triple_then [OF reading_release [OF len slot] idle_return])
qed

lemma withFrame_reading:
  assumes slot: "relied E K owner start \<longrightarrow> s_slot s = slot" and K: "1 \<le> K"
    and bs: "int (length (rq_outputBuffers rq)) \<le> K"
  shows "triple (reading E K slot owner start (Some (a_ahb q)))
    (withFrame E fuel epoch s deadline rq timestamp pending q fence) (idle_after E K slot owner start)"
proof -
  let ?held = "reading E K slot owner start (Some (a_ahb q))"
  have obs: "triple ?held (processOutputs E epoch s (a_ahb q) (a_sequence q) (rq_outputBuffers rq))
      (\<lambda>p x. int (length (snd p)) \<le> K \<and> ?held x)"
    by (rule triple_answer [OF reading.processOutputs_stable]) (use processOutputs_fences bs in fastforce)
  have send: "triple (\<lambda>x. int (length fences) \<le> K \<and> ?held x)
      (do { sendResult rq o' timestamp (frame_interval (s_targetFps s)) (a_timestampNs q) (s_sourceMode s);
            releaseSource E s (Some q) (-1) fences; ret (Some CS_OK) }) (idle_after E K slot owner start)"
    for o' and fences :: "int list"
  proof (rule triple_pure)
    assume "int (length fences) \<le> K"
    then have "int (length (fences @ fd_list (-1))) \<le> K" by (simp add: fd_list_def)
    note rel = triple_then [OF reading_release [OF this slot] idle_return]
    show "triple ?held (do { sendResult rq o' timestamp (frame_interval (s_targetFps s)) (a_timestampNs q)
        (s_sourceMode s); releaseSource E s (Some q) (-1) fences; ret (Some CS_OK) })
      (idle_after E K slot owner start)"
      by (rule triple_skip [OF reading_result rel])
  qed
  have fill: "triple ?held (do {
      close_fd E fence;
      (obs, fences) \<leftarrow> processOutputs E epoch s (a_ahb q) (a_sequence q) (rq_outputBuffers rq);
      sendResult rq obs timestamp (frame_interval (s_targetFps s)) (a_timestampNs q) (s_sourceMode s);
      releaseSource E s (Some q) (-1) fences;
      ret (Some CS_OK) }) (idle_after E K slot owner start)"
    by (rule triple_skip [OF reading.close_fd_stable], rule triple_bind [OF obs])
      (auto simp: split_def intro: send)
  note gave = give_back [OF slot K]
  show ?thesis
    unfolding withFrame_def
    by (intro fill gave idle_fuel triple_option triple_bool triple_if'
        triple_skip [OF reading_modify] triple_skip [OF reading.fenceLoop_stable]
        triple_skip [OF reading.cancelled_stable] triple_skip [OF stable_if] stable_return
        reading.current_stable) simp_all
qed

lemma captureSource_reading:
  assumes K: "1 \<le> K" and bs: "int (length (rq_outputBuffers rq)) \<le> K"
  shows "triple (reading E K slot owner start None) (captureSource E fuel epoch rq timestamp pending)
    (idle_after E K slot owner start)"
proof -
  have got: "triple (\<lambda>x. r \<noteq> None \<longrightarrow> reading E K slot owner start (held_of (the r)) x)
      (case r of
         None \<Rightarrow> ret None
       | Some (None, fence) \<Rightarrow> do { failUntouched rq pending; ret (Some CS_OK) }
       | Some (Some q, fence) \<Rightarrow> do {
           stop \<leftarrow> cancelled E epoch;
           if stop then do {
             failUntouched rq pending;
             releaseSource E s (Some q) fence [];
             ret (Some CS_OK) }
           else withFrame E fuel epoch s deadline rq timestamp pending q fence })
      (idle_after E K slot owner start)"
    if slot: "relied E K owner start \<longrightarrow> s_slot s = slot" for r deadline and s
  proof (cases r)
    case None
    then show ?thesis by (simp add: idle_fuel)
  next
    case (Some p)
    show ?thesis
    proof (cases "fst p")
      case None
      then obtain fence where "r = Some (None, fence)" using Some by (cases p) auto
      then show ?thesis by (simp add: held_of_def idle_fail)
    next
      case (Some q)
      then obtain fence where r: "r = Some (Some q, fence)" using \<open>r = Some p\<close> by (cases p) auto
      have "triple (reading E K slot owner start (Some (a_ahb q))) (do {
           stop \<leftarrow> cancelled E epoch;
           if stop then do {
             failUntouched rq pending;
             releaseSource E s (Some q) fence [];
             ret (Some CS_OK) }
           else withFrame E fuel epoch s deadline rq timestamp pending q fence })
        (idle_after E K slot owner start)"
        by (intro triple_skip [OF reading.cancelled_stable] triple_if' give_back withFrame_reading slot K bs)
      then show ?thesis by (simp add: r held_of_def)
    qed
  qed
  have go: "triple (reading E K slot owner start None) (do {
     present \<leftarrow> has_hal;
     if \<not> present \<or> s_token s \<le> 0 then do { failUntouched rq pending; ret (Some CS_OK) }
     else do {
       let budget = frame_interval (s_targetFps s) * s_deadlineFrames s;
       modify_session (\<lambda>s. s\<lparr>s_startupWaitPending := False\<rparr>);
       now \<leftarrow> in_world (e_now E);
       let deadline = now + (if s_startupWaitPending s then max budget 200000000 else budget);
       got \<leftarrow> acquireLoop E fuel epoch s deadline (-1);
       case got of
         None \<Rightarrow> ret None
       | Some (None, fence) \<Rightarrow> do { failUntouched rq pending; ret (Some CS_OK) }
       | Some (Some q, fence) \<Rightarrow> do {
           stop \<leftarrow> cancelled E epoch;
           if stop then do {
             failUntouched rq pending;
             releaseSource E s (Some q) fence [];
             ret (Some CS_OK) }
           else withFrame E fuel epoch s deadline rq timestamp pending q fence } } })
    (idle_after E K slot owner start)" if slot: "relied E K owner start \<longrightarrow> s_slot s = slot" for s
    by (intro triple_skip [OF stable_has_hal] triple_if' idle_fail triple_let triple_skip [OF reading_modify]
        triple_skip [OF reading.in_world_stable] triple_bind [OF reading_acquireLoop [OF slot] got] slot) simp_all
  show ?thesis
    unfolding captureSource_def
    by (rule triple_bind [OF reading_session]) (rule triple_pure, rule go, simp)
qed

lemma idle_stable: "stable (reading E K slot owner start None) m \<Longrightarrow>
  triple (reading E K slot owner start None) m (\<lambda>_. reading E K slot owner start None)"
  by (rule stable_triple)

lemma reading_close: "stable (reading E K slot owner start None) (session_close E)"
  unfolding session_close_def
  by (intro stable_rules reading.others_stable reading_modify reading_closed) simp_all

lemma processSingleRequest_reading:
  assumes K: "1 \<le> K" and bs: "int (length (rq_outputBuffers rq)) \<le> K"
  shows "triple (reading E K slot owner start None) (processSingleRequest E fuel rq epoch)
    (idle_after E K slot owner start)"
  unfolding processSingleRequest_def
  by (intro triple_rules reading.dupFences_stable reading_close reading.importAll_stable
      reading.waitDestinations_stable reading.paceFrame_stable reading.cancelled_stable
      stable_each reading.close_fd_stable idle_return idle_fail captureSource_reading K bs)

lemma reading_current: "stable (reading E K slot owner start held) (hal_registrationCurrent sl reg)"
  unfolding hal_registrationCurrent_def by (rule reading.query_stable)

lemma reading_finish: "stable (reading E K slot owner start held) (finish_settings quality)"
  unfolding finish_settings_def by (intro stable_rules reading_modify) simp

lemma stable_session_bind:
  assumes "\<And>s. (relied E K owner start \<longrightarrow> s_slot s = slot \<and> s_identity s = owner) \<Longrightarrow>
    stable (reading E K slot owner start held) (f s)"
  shows "stable (reading E K slot owner start held) (State_Monad.bind session f)"
  unfolding stable_def
  by (rule triple_bind [OF reading_session], rule triple_pure) (use assms in \<open>simp add: stable_def\<close>)

lemma stable_settings_case:
  "stable I a \<Longrightarrow> stable I b \<Longrightarrow> (\<And>rate q. stable I (c rate q)) \<Longrightarrow>
   stable I (case st of NoSettings \<Rightarrow> a | Malformed \<Rightarrow> b | Settings rate q \<Rightarrow> c rate q)"
  by (cases st) auto

lemma reading_settings: "stable (reading E K slot owner start None) (updateTargetFps E st)"
  unfolding updateTargetFps_def
proof (rule stable_bind [OF reading.others_stable], rule stable_session_bind)
  fix s :: session
  assume s: "relied E K owner start \<longrightarrow> s_slot s = slot \<and> s_identity s = owner"
  then have owner: "relied E K owner start \<longrightarrow> s_identity s = owner" by simp
  show "stable (reading E K slot owner start None) (do {
     present \<leftarrow> has_hal;
     current \<leftarrow> (if s_enforce s then hal_registrationCurrent (s_slot s) (registration (s_capabilities s))
        else ret True);
     if \<not> current then ret False
     else case st of
       NoSettings \<Rightarrow> ret True
     | Malformed \<Rightarrow> ret False
     | Settings rate quality \<Rightarrow>
         (case requested_mode s rate of
            None \<Rightarrow> ret False
          | Some (m, fps) \<Rightarrow>
              if fps = s_targetFps s \<and> m_id m = m_id (s_sourceMode s) then finish_settings quality
              else if \<not> present then ret False
              else do {
                others E;
                token \<leftarrow> hal_notifyStreamsConfigured E (s_slot s) (s_identity s) (m_width m) (m_height m) fps;
                if token \<le> 0 then ret False
                else do {
                  modify_session (\<lambda>s. s\<lparr>s_token := token, s_sourceMode := m, s_targetFps := fps,
                    s_nextFrameNs := 0, s_startupWaitPending := True\<rparr>);
                  finish_settings quality } }) })"
    by (intro stable_rules stable_settings_case reading_current reading.others_stable reading_finish
        reading_modify reading_configure owner) simp_all
qed

lemma processRequests_reading:
  assumes K: "1 \<le> K" and bs: "\<And>rq. rq \<in> set rqs \<Longrightarrow> int (length (rq_outputBuffers rq)) \<le> K"
  shows "triple (reading E K slot owner start None) (processRequests E fuel epoch n rqs)
    (idle_after E K slot owner start)"
  using bs
proof (induction rqs arbitrary: n)
  case Nil
  show ?case by (simp add: idle_return)
next
  case (Cons rq rqs)
  note rest = Cons.IH [OF Cons.prems [OF list.set_intros(2)]]
  have next': "triple (idle_after E K slot owner start st) (case st of
           None \<Rightarrow> ret None
         | Some CS_OK \<Rightarrow> processRequests E fuel epoch (n + 1) rqs
         | Some code \<Rightarrow> ret (Some (code, n))) (idle_after E K slot owner start)" for st
  proof (cases st)
    case None
    then show ?thesis by (simp add: idle_fuel)
  next
    case (Some code)
    then have "idle_after E K slot owner start st = reading E K slot owner start None"
      by (simp add: idle_after_def fun_eq_iff)
    then show ?thesis using Some rest idle_return by (cases code) simp_all
  qed
  have one: "int (length (rq_outputBuffers rq)) \<le> K" using Cons.prems by simp
  show ?case
    unfolding processRequests.simps
    by (intro triple_skip [OF stable_session] triple_if' idle_return triple_skip [OF reading_settings]
        triple_bind [OF processSingleRequest_reading [OF K one] next'])
qed

text \<open>A new token for the session's identity, and everything else of a configuration.\<close>

lemma reading_streams: "stable (reading E K slot owner start None) (configureStreams E keys streams)"
  unfolding configureStreams_def
proof (rule stable_bind [OF reading.others_stable], rule stable_session_bind)
  fix s0 :: session
  assume s: "relied E K owner start \<longrightarrow> s_slot s0 = slot \<and> s_identity s0 = owner"
  then have owner: "relied E K owner start \<longrightarrow> s_identity s0 = owner" by simp
  have clear: "stable (reading E K slot owner start None) (clearBufferCache E keys)"
    unfolding clearBufferCache_def by (intro stable_rules reading.on_world_stable reading_modify) simp
  show "stable (reading E K slot owner start None) (if s_closed s0 then ret (INTERNAL_ERROR, [])
     else if \<not> stream_ids_ok [] streams then ret (ILLEGAL_ARGUMENT, [])
     else if \<not> isStreamCombinationSupported (map desc_of_stream streams) (Some (s_capabilities s0))
       then ret (ILLEGAL_ARGUMENT, [])
     else do {
       modify_session (\<lambda>s. s\<lparr>s_streams := (\<lambda>_. None), s_haveSettings := False, s_startupWaitPending := True\<rparr>);
       clearBufferCache E keys;
       let outs = map output_of_stream streams;
       modify_session (\<lambda>s. s\<lparr>s_outputs := outs\<rparr>);
       case select (s_capabilities s0) outs 0 0 of
         None \<Rightarrow> ret (ILLEGAL_ARGUMENT, [])
       | Some m \<Rightarrow> do {
           let fps = std_clamp 30 (m_minFps m) (m_maxFps m);
           modify_session (\<lambda>s. s\<lparr>s_sourceMode := m, s_targetFps := fps, s_nextFrameNs := 0\<rparr>);
           others E;
           current \<leftarrow> (if s_enforce s0
              then hal_registrationCurrent (s_slot s0) (registration (s_capabilities s0)) else ret True);
           if \<not> current then ret (INTERNAL_ERROR, [])
           else do {
             modify_session (\<lambda>s. s\<lparr>s_streams := store_streams streams\<rparr>);
             let hs = map hal_stream_of streams;
             others E;
             present \<leftarrow> has_hal;
             if streams = [] \<or> \<not> present then ret (CS_OK, hs)
             else do {
               token \<leftarrow> hal_notifyStreamsConfigured E (s_slot s0) (s_identity s0) (m_width m) (m_height m) fps;
               modify_session (\<lambda>s. s\<lparr>s_token := token\<rparr>);
               ret (if token \<le> 0 then INTERNAL_ERROR else CS_OK, hs) } } } })"
    by (intro stable_rules clear reading_current reading.others_stable reading_modify
        reading_configure owner) simp_all
qed

lemma reading_start:
  assumes "x_hal x = Some h" "f_inflight (mLatest h (s_slot (x_session x))) = 0"
  shows "reading E K (s_slot (x_session x)) (s_identity (x_session x)) (h, x_world x) None x"
  using assms by (simp add: reading_def reading_now_def reads_of_def)

lemma readingD:
  assumes "reading E K slot owner start None x" "relied E K owner start"
  shows "\<exists>h. x_hal x = Some h \<and> hal_run (e_sys E) (e_gfx E) K start (h, x_world x) \<and>
    f_inflight (mLatest h slot) = 0"
  using assms by (auto simp: reading_def reading_now_def reads_of_def)

text \<open>
  C13: a session that shares the HAL with threads that only make runs of
  the HAL, and that is the only reader of its slot, itself only makes a run of the HAL while
  it processes a batch of requests, whatever the requests hold and whenever it is cancelled:
  every frame it takes it gives back while it still holds it, with at most as many read
  fences as the largest request has buffers, every configuration uses the session's own
  identity, and at the end no read is in flight.
\<close>

theorem requests_are_hal_runs:
  assumes rely: "others_private E" "others_readers E K"
    and bounds: "1 \<le> K" "list_all (\<lambda>rq. int (length (rq_outputBuffers rq)) \<le> K) rqs"
    and hal: "x_hal x = Some h" "hal_inv K h" "s_identity (x_session x) \<le> mNextIdentity h"
    and idle: "f_inflight (mLatest h (s_slot (x_session x))) = 0"
    and run: "run_state (processCaptureRequest E fuel rqs keys) x = (Some r, x')"
  shows "\<exists>h'. x_hal x' = Some h' \<and>
    hal_run (e_sys E) (e_gfx E) K (h, x_world x) (h', x_world x') \<and>
    f_inflight (mLatest h' (s_slot (x_session x))) = 0"
proof -
  let ?slot = "s_slot (x_session x)" and ?owner = "s_identity (x_session x)" and ?start = "(h, x_world x)"
  have bs: "\<And>rq. rq \<in> set rqs \<Longrightarrow> int (length (rq_outputBuffers rq)) \<le> K"
    using bounds(2) by (simp add: list_all_iff)
  note batch = processRequests_reading [OF bounds(1) bs]
  have "triple (reading E K ?slot ?owner ?start None) (processCaptureRequest E fuel rqs keys)
      (idle_after E K ?slot ?owner ?start)"
    unfolding processCaptureRequest_def
    by (intro triple_skip [OF reading.others_stable] triple_skip [OF stable_session] triple_if' idle_return
        triple_skip [OF reading.removeBuffersFromCache_stable] batch)
  from tripleD [OF this run reading_start [OF hal(1) idle]]
  have "reading E K ?slot ?owner ?start None x'" by (simp add: idle_after_def)
  then show ?thesis
    by (rule readingD) (use assms in \<open>simp add: relied_def\<close>)
qed

lemma requests_are_hal_runs_witness:
  "\<exists>h'. x_hal (snd (run_state (processCaptureRequest demo_env 3 [demo_request] []) demo_state)) = Some h' \<and>
    f_inflight (mLatest h' 2) = 0"
proof -
  obtain r x' where run: "run_state (processCaptureRequest demo_env 3 [demo_request] []) demo_state = (r, x')"
    by (cases "run_state (processCaptureRequest demo_env 3 [demo_request] []) demo_state")
  have "fst (run_state (processCaptureRequest demo_env 3 [demo_request] []) demo_state) = Some (CS_OK, 1)"
    by code_simp
  then have r: "r = Some (CS_OK, 1)" using run by simp
  have quiet: "others_readers demo_env 1" by (simp add: others_readers_def demo_env_def)
  have inv: "hal_inv 1 demo_hal_frame"
    using hal_run_inv [OF demo_frame_run] by (simp add: hal_start_inv hal_start_def)
  have "x_hal demo_state = Some demo_hal_frame" "s_slot (x_session demo_state) = 2"
      "s_identity (x_session demo_state) = 1"
    by (simp_all add: demo_state_def demo_session_def session_init_def)
  moreover have "list_all (\<lambda>rq. int (length (rq_outputBuffers rq)) \<le> 1) [demo_request]"
    by (simp add: demo_request_def)
  ultimately show ?thesis
    using requests_are_hal_runs [OF demo_env_private quiet _ _ _ inv _ _ run [unfolded r]] run
    by (auto simp: demo_frame_fields)
qed

end
