(* ===== verification/Control_Ring.thy ===== *)
theory Control_Ring
  imports Interfaces
begin

text \<open>
  \<open>v2-shared-memory/SharedBufferPool.h\<close>, struct \<open>ControlRing\<close>: the memory that renderer
  and HAL share. Two rings of 16 slots, submissions from the renderer and releases back to
  it, and one ownership byte for each buffer. Indices are \<open>uint32_t\<close> and wrap around.

  Each ring has one writer and one reader. The relaxed loads read the caller's own index,
  and the acquire load of the other index is paired with its release store, so a whole
  call is one step on the shared state.
\<close>

section \<open>The shared memory\<close>

definition MAX_BUFFERS :: int where "MAX_BUFFERS = 4"

definition RING_SIZE :: nat where "RING_SIZE = 16"

record ring_slot =
  rs_bufferIndex :: "32 word"
  rs_fenceFd :: int
  rs_timestampNs :: int
  rs_flags :: "32 word"

record control_ring =
  writeIndex :: "32 word"
  readIndex :: "32 word"
  slots :: "ring_slot list"
  releaseWriteIndex :: "32 word"
  releaseReadIndex :: "32 word"
  releaseSlots :: "32 word list"
  bufferState :: "8 word list"
  neg_seq :: "32 word"
  neg_format :: int
  neg_width :: int
  neg_height :: int
  neg_usage :: "64 word"

text \<open>A new ring, as the placement new of \<open>allocate\<close> leaves it.\<close>

definition empty_slot :: ring_slot where
  "empty_slot = \<lparr>rs_bufferIndex = 0, rs_fenceFd = 0, rs_timestampNs = 0, rs_flags = 0\<rparr>"

definition new_ring :: control_ring where
  "new_ring = \<lparr>writeIndex = 0, readIndex = 0, slots = replicate RING_SIZE empty_slot,
     releaseWriteIndex = 0, releaseReadIndex = 0, releaseSlots = replicate RING_SIZE 0,
     bufferState = replicate (nat MAX_BUFFERS) 0,
     neg_seq = 0, neg_format = 0, neg_width = 0, neg_height = 0, neg_usage = 0\<rparr>"

definition slot_index :: "32 word \<Rightarrow> nat" where
  "slot_index i = unat i mod RING_SIZE"

section \<open>The submit ring\<close>

definition tryWrite :: "32 word \<Rightarrow> int \<Rightarrow> int \<Rightarrow> control_ring \<Rightarrow> bool \<times> control_ring" where
  "tryWrite bufferIdx fenceFd timestamp r =
     (let wr = writeIndex r; rd = readIndex r in
      if of_nat RING_SIZE \<le> wr - rd then (False, r)
      else (True, r\<lparr>slots := (slots r)[slot_index wr := \<lparr>rs_bufferIndex = bufferIdx,
          rs_fenceFd = fenceFd, rs_timestampNs = timestamp, rs_flags = 0\<rparr>],
        writeIndex := wr + 1\<rparr>))"

definition tryRead :: "control_ring \<Rightarrow> ring_slot option \<times> control_ring" where
  "tryRead r =
     (let rd = readIndex r; wr = writeIndex r in
      if wr \<le> rd then (None, r)
      else (Some (slots r ! slot_index rd), r\<lparr>readIndex := rd + 1\<rparr>))"

definition ring_peek :: "control_ring \<Rightarrow> ring_slot option" where
  "ring_peek r =
     (if writeIndex r \<le> readIndex r then None else Some (slots r ! slot_index (readIndex r)))"

definition available :: "control_ring \<Rightarrow> 32 word" where
  "available r = writeIndex r - readIndex r"

section \<open>The release ring\<close>

text \<open>
  A release stores the buffer's ownership byte. The index comes from shared memory:
  \<open>None\<close> is the write past the end of \<open>bufferState\<close> for an index out of range, undefined
  in C++.
\<close>

definition tryWriteRelease :: "32 word \<Rightarrow> control_ring \<Rightarrow> (bool \<times> control_ring) option" where
  "tryWriteRelease bufferIdx r =
     (let wr = releaseWriteIndex r; rd = releaseReadIndex r in
      if of_nat RING_SIZE \<le> wr - rd then Some (False, r)
      else if length (bufferState r) \<le> unat bufferIdx then None
      else Some (True, r\<lparr>releaseSlots := (releaseSlots r)[slot_index wr := bufferIdx],
        bufferState := (bufferState r)[unat bufferIdx := 0], releaseWriteIndex := wr + 1\<rparr>))"

definition tryReadRelease :: "control_ring \<Rightarrow> 32 word option \<times> control_ring" where
  "tryReadRelease r =
     (let rd = releaseReadIndex r; wr = releaseWriteIndex r in
      if wr \<le> rd then (None, r)
      else (Some (releaseSlots r ! slot_index rd), r\<lparr>releaseReadIndex := rd + 1\<rparr>))"

definition releasesAvailable :: "control_ring \<Rightarrow> 32 word" where
  "releasesAvailable r = releaseWriteIndex r - releaseReadIndex r"

section \<open>Ring arithmetic\<close>

text \<open>
  The elements between two indices, as long as neither has wrapped around: \<open>lo\<close> to
  \<open>lo + n\<close>, each in its slot.
\<close>

definition window :: "'a list \<Rightarrow> nat \<Rightarrow> nat \<Rightarrow> 'a list" where
  "window xs lo n = map (\<lambda>i. xs ! (i mod RING_SIZE)) [lo..<lo + n]"

lemma length_window [simp]: "length (window xs lo n) = n"
  by (simp add: window_def)

lemma window_0 [simp]: "window xs lo 0 = []"
  by (simp add: window_def)

lemma window_Suc: "window xs lo (Suc n) = xs ! (lo mod RING_SIZE) # window xs (Suc lo) n"
  by (simp add: window_def upt_conv_Cons del: upt_Suc)

lemma mod_distinct:
  assumes "lo \<le> i" "i < lo + n" "n < RING_SIZE"
  shows "i mod RING_SIZE \<noteq> (lo + n) mod RING_SIZE"
proof
  assume "i mod RING_SIZE = (lo + n) mod RING_SIZE"
  then have "RING_SIZE dvd lo + n - i" using assms mod_eq_dvd_iff_nat [of i "lo + n" RING_SIZE] by simp
  then show False using assms by (auto dest!: dvd_imp_le)
qed

lemma window_snoc:
  assumes "n < RING_SIZE" "length xs = RING_SIZE"
  shows "window (xs[(lo + n) mod RING_SIZE := x]) lo (Suc n) = window xs lo n @ [x]"
proof -
  have "(lo + n) mod RING_SIZE < length xs" using assms by (simp add: RING_SIZE_def)
  moreover have "\<And>i. lo \<le> i \<Longrightarrow> i < lo + n \<Longrightarrow> (lo + n) mod RING_SIZE \<noteq> i mod RING_SIZE"
    using mod_distinct assms(1) by metis
  ultimately show ?thesis by (simp add: window_def)
qed

text \<open>
  Two indices that have not wrapped: the reader behind the writer, by at most the size of
  the ring.
\<close>

definition indices_ok :: "32 word \<Rightarrow> 32 word \<Rightarrow> bool" where
  "indices_ok rd wr \<longleftrightarrow> rd \<le> wr \<and> unat wr \<le> unat rd + RING_SIZE"

lemma indices_fill: "indices_ok rd wr \<Longrightarrow> unat (wr - rd) = unat wr - unat rd"
  by (simp add: indices_ok_def unat_sub)

lemma indices_full: "indices_ok rd wr \<Longrightarrow> of_nat RING_SIZE \<le> wr - rd \<longleftrightarrow> unat wr - unat rd = RING_SIZE"
  using indices_fill [of rd wr] by (auto simp: word_le_nat_alt indices_ok_def RING_SIZE_def)

lemma indices_write:
  assumes "indices_ok rd wr" "unat wr - unat rd < RING_SIZE" "wr \<noteq> - 1"
  shows "indices_ok rd (wr + 1)" and "unat (wr + 1) = Suc (unat wr)"
proof -
  show s: "unat (wr + 1) = Suc (unat wr)" using assms(3) by (rule unat_inc)
  have "unat rd \<le> unat (wr + 1)" using s assms(1) by (simp add: indices_ok_def word_le_nat_alt)
  then show "indices_ok rd (wr + 1)"
    using s assms(1,2) by (auto simp: indices_ok_def word_le_nat_alt)
qed

lemma indices_read:
  assumes "indices_ok rd wr" "rd < wr"
  shows "indices_ok (rd + 1) wr" and "unat (rd + 1) = Suc (unat rd)"
proof -
  have "rd \<noteq> - 1" using assms(2) word_n1_ge by (metis not_less)
  then show s: "unat (rd + 1) = Suc (unat rd)" by (rule unat_inc)
  then show "indices_ok (rd + 1) wr"
    using assms by (auto simp: indices_ok_def word_le_nat_alt word_less_nat_alt)
qed

section \<open>Both rings are bounded channels\<close>

definition submitted :: "control_ring \<Rightarrow> ring_slot list" where
  "submitted r = window (slots r) (unat (readIndex r)) (unat (writeIndex r) - unat (readIndex r))"

definition released :: "control_ring \<Rightarrow> 32 word list" where
  "released r = window (releaseSlots r) (unat (releaseReadIndex r))
     (unat (releaseWriteIndex r) - unat (releaseReadIndex r))"

definition ring_ok :: "control_ring \<Rightarrow> bool" where
  "ring_ok r \<longleftrightarrow> length (slots r) = RING_SIZE \<and> length (releaseSlots r) = RING_SIZE \<and>
     length (bufferState r) = nat MAX_BUFFERS \<and>
     indices_ok (readIndex r) (writeIndex r) \<and> indices_ok (releaseReadIndex r) (releaseWriteIndex r)"

lemma new_ring_ok [simp]: "ring_ok new_ring"
  by (simp add: ring_ok_def new_ring_def indices_ok_def)

lemma new_ring_empty [simp]: "submitted new_ring = []" "released new_ring = []"
  by (simp_all add: submitted_def released_def new_ring_def)

text \<open>The messages an index can still number before it wraps.\<close>

definition numbers_left :: "32 word \<Rightarrow> nat" where
  "numbers_left w = unat (- 1 :: 32 word) - unat w"

lemma numbers_left_pos: "0 < numbers_left w \<longleftrightarrow> w \<noteq> - 1"
  by (metis numbers_left_def word_less_nat_alt word_order.not_eq_extremum zero_less_diff)

lemma numbers_left_inc: "w \<noteq> - 1 \<Longrightarrow> numbers_left w = numbers_left (w + 1) + 1"
  using numbers_left_pos [of w] by (simp add: numbers_left_def unat_inc)

lemma numbers_left_le: "numbers_left w \<le> numbers_left w + 1"
  by simp

lemma tryWriteE:
  assumes "tryWrite b fd t r = (ok, r')" "ring_ok r"
  obtains (full) "\<not> ok" "r' = r" "length (submitted r) = RING_SIZE"
  | (written) "ok" "length (submitted r) < RING_SIZE"
    "r' = r\<lparr>slots := (slots r)[slot_index (writeIndex r) := \<lparr>rs_bufferIndex = b,
          rs_fenceFd = fd, rs_timestampNs = t, rs_flags = 0\<rparr>], writeIndex := writeIndex r + 1\<rparr>"
proof -
  have ix: "indices_ok (readIndex r) (writeIndex r)" using assms(2) by (simp add: ring_ok_def)
  note full = indices_full [OF ix]
  have "length (submitted r) \<le> RING_SIZE" using ix by (auto simp: submitted_def indices_ok_def)
  then show thesis
    using assms(1) full that by (auto simp: tryWrite_def Let_def submitted_def split: if_splits)
qed

lemma tryReadE:
  assumes "tryRead r = (s, r')" "ring_ok r"
  obtains (empty) "s = None" "r' = r" "submitted r = []"
  | (read) x where "s = Some x" "submitted r = x # submitted r'" "readIndex r < writeIndex r"
    "r' = r\<lparr>readIndex := readIndex r + 1\<rparr>"
proof (cases "writeIndex r \<le> readIndex r")
  case True
  then have "submitted r = []" by (simp add: submitted_def word_le_nat_alt)
  then show thesis using True assms(1) that(1) by (simp add: tryRead_def Let_def)
next
  case False
  let ?rd = "readIndex r" and ?wr = "writeIndex r"
  have lt: "?rd < ?wr" using False by simp
  have ix: "indices_ok ?rd ?wr" using assms(2) by (simp add: ring_ok_def)
  note next' = indices_read [OF ix lt]
  obtain n where n: "unat ?wr - unat ?rd = Suc n"
    using lt by (metis word_less_nat_alt Suc_diff_Suc)
  have "submitted r = slots r ! slot_index ?rd # window (slots r) (Suc (unat ?rd)) n"
    by (simp add: submitted_def n window_Suc slot_index_def)
  moreover have "n = unat ?wr - unat (?rd + 1)" using n next'(2) by simp
  ultimately show thesis
    using that(2) [of "slots r ! slot_index ?rd"] assms(1) False lt next'(2)
    by (simp add: tryRead_def Let_def submitted_def)
qed

lemma tryWrite_ok:
  assumes "tryWrite b fd t r = (ok, r')" "ring_ok r" "writeIndex r \<noteq> - 1"
  shows "ring_ok r' \<and> ok = (length (submitted r) < RING_SIZE) \<and>
    submitted r' = submitted r @ (if ok then [\<lparr>rs_bufferIndex = b, rs_fenceFd = fd,
      rs_timestampNs = t, rs_flags = 0\<rparr>] else []) \<and>
    released r' = released r \<and> bufferState r' = bufferState r \<and> releaseWriteIndex r' = releaseWriteIndex r"
  using assms(1,2)
proof (cases rule: tryWriteE)
  case full
  then show ?thesis using assms(2) by simp
next
  case written
  let ?n = "unat (writeIndex r) - unat (readIndex r)"
  have ix: "indices_ok (readIndex r) (writeIndex r)" and len: "length (slots r) = RING_SIZE"
    using assms(2) by (simp_all add: ring_ok_def)
  have n: "?n < RING_SIZE" using written(2) by (simp add: submitted_def)
  note wr = indices_write [OF ix n assms(3)]
  have "unat (writeIndex r) = unat (readIndex r) + ?n" using ix by (simp add: indices_ok_def word_le_nat_alt)
  then have "slot_index (writeIndex r) = (unat (readIndex r) + ?n) mod RING_SIZE" by (simp add: slot_index_def)
  moreover have "unat (writeIndex r + 1) - unat (readIndex r) = Suc ?n"
    using wr(2) ix by (simp add: indices_ok_def word_le_nat_alt Suc_diff_le)
  ultimately have "submitted r' = submitted r @ [\<lparr>rs_bufferIndex = b, rs_fenceFd = fd,
      rs_timestampNs = t, rs_flags = 0\<rparr>]"
    unfolding written(3) submitted_def by (simp add: window_snoc [OF n len])
  then show ?thesis using written wr(1) assms(2) by (simp add: ring_ok_def released_def)
qed

lemma tryRead_ok:
  assumes "tryRead r = (s, r')" "ring_ok r"
  shows "ring_ok r' \<and> writeIndex r' = writeIndex r \<and> released r' = released r \<and>
    bufferState r' = bufferState r \<and> releaseWriteIndex r' = releaseWriteIndex r \<and>
    (case submitted r of [] \<Rightarrow> s = None \<and> r' = r | x # xs \<Rightarrow> s = Some x \<and> submitted r' = xs)"
  using assms
proof (cases rule: tryReadE)
  case empty
  then show ?thesis using assms(2) by simp
next
  case (read x)
  have "indices_ok (readIndex r + 1) (writeIndex r)"
    using indices_read(1) [OF _ read(3)] assms(2) by (simp add: ring_ok_def)
  then show ?thesis using read assms(2) by (simp add: ring_ok_def released_def)
qed

lemma tryWriteReleaseE:
  assumes "tryWriteRelease b r = Some (ok, r')" "ring_ok r"
  obtains (full) "\<not> ok" "r' = r" "length (released r) = RING_SIZE"
  | (written) "ok" "length (released r) < RING_SIZE" "unat b < nat MAX_BUFFERS"
    "r' = r\<lparr>releaseSlots := (releaseSlots r)[slot_index (releaseWriteIndex r) := b],
       bufferState := (bufferState r)[unat b := 0], releaseWriteIndex := releaseWriteIndex r + 1\<rparr>"
proof -
  have ix: "indices_ok (releaseReadIndex r) (releaseWriteIndex r)" using assms(2) by (simp add: ring_ok_def)
  note full = indices_full [OF ix]
  have "length (released r) \<le> RING_SIZE" using ix by (auto simp: released_def indices_ok_def)
  then show thesis
    using assms full that by (auto simp: tryWriteRelease_def Let_def released_def ring_ok_def split: if_splits)
qed

lemma tryWriteRelease_defined:
  "ring_ok r \<Longrightarrow> unat b < nat MAX_BUFFERS \<Longrightarrow> tryWriteRelease b r \<noteq> None"
  by (auto simp: tryWriteRelease_def Let_def ring_ok_def)

lemma tryWriteRelease_ok:
  assumes "tryWriteRelease b r = Some (ok, r')" "ring_ok r" "releaseWriteIndex r \<noteq> - 1"
  shows "ring_ok r' \<and> ok = (length (released r) < RING_SIZE) \<and>
    released r' = released r @ (if ok then [b] else []) \<and>
    submitted r' = submitted r \<and> writeIndex r' = writeIndex r \<and>
    bufferState r' = (if ok then (bufferState r)[unat b := 0] else bufferState r)"
  using assms(1,2)
proof (cases rule: tryWriteReleaseE)
  case full
  then show ?thesis using assms(2) by simp
next
  case written
  let ?rd = "releaseReadIndex r" and ?wr = "releaseWriteIndex r"
  let ?n = "unat ?wr - unat ?rd"
  have ix: "indices_ok ?rd ?wr" and len: "length (releaseSlots r) = RING_SIZE"
    using assms(2) by (simp_all add: ring_ok_def)
  have n: "?n < RING_SIZE" using written(2) by (simp add: released_def)
  note wr = indices_write [OF ix n assms(3)]
  have "unat ?wr = unat ?rd + ?n" using ix by (simp add: indices_ok_def word_le_nat_alt)
  then have "slot_index ?wr = (unat ?rd + ?n) mod RING_SIZE" by (simp add: slot_index_def)
  moreover have "unat (?wr + 1) - unat ?rd = Suc ?n"
    using wr(2) ix by (simp add: indices_ok_def word_le_nat_alt Suc_diff_le)
  ultimately have "released r' = released r @ [b]"
    unfolding written(4) released_def by (simp add: window_snoc [OF n len])
  then show ?thesis using written wr(1) assms(2) by (simp add: ring_ok_def submitted_def)
qed

lemma tryReadRelease_ok:
  assumes "tryReadRelease r = (s, r')" "ring_ok r"
  shows "ring_ok r' \<and> releaseWriteIndex r' = releaseWriteIndex r \<and> submitted r' = submitted r \<and>
    writeIndex r' = writeIndex r \<and> bufferState r' = bufferState r \<and>
    (case released r of [] \<Rightarrow> s = None \<and> r' = r | x # xs \<Rightarrow> s = Some x \<and> released r' = xs)"
proof (cases "releaseWriteIndex r \<le> releaseReadIndex r")
  case True
  then have "released r = []" by (simp add: released_def word_le_nat_alt)
  then show ?thesis using True assms by (simp add: tryReadRelease_def Let_def)
next
  case False
  let ?rd = "releaseReadIndex r" and ?wr = "releaseWriteIndex r"
  have lt: "?rd < ?wr" using False by simp
  have ix: "indices_ok ?rd ?wr" using assms(2) by (simp add: ring_ok_def)
  note next' = indices_read [OF ix lt]
  obtain n where n: "unat ?wr - unat ?rd = Suc n"
    using lt by (metis word_less_nat_alt Suc_diff_Suc)
  have "released r = releaseSlots r ! slot_index ?rd # window (releaseSlots r) (Suc (unat ?rd)) n"
    by (simp add: released_def n window_Suc slot_index_def)
  moreover have "n = unat ?wr - unat (?rd + 1)" using n next'(2) by simp
  ultimately show ?thesis
    using assms False lt next'
    by (simp add: tryReadRelease_def Let_def released_def ring_ok_def submitted_def) (auto simp: released_def)
qed

text \<open>The two rings as instances of the channel contract.\<close>

definition put_submit :: "ring_slot \<Rightarrow> control_ring \<Rightarrow> (bool \<times> control_ring) option" where
  "put_submit s r = Some (tryWrite (rs_bufferIndex s) (rs_fenceFd s) (rs_timestampNs s) r)"

definition plain_slot :: "ring_slot \<Rightarrow> control_ring \<Rightarrow> bool" where
  "plain_slot s r = (rs_flags s = 0)"

definition pool_index :: "32 word \<Rightarrow> control_ring \<Rightarrow> bool" where
  "pool_index b r = (unat b < nat MAX_BUFFERS)"

lemma ring_bounded: "ring_ok r \<Longrightarrow> length (submitted r) \<le> RING_SIZE \<and> length (released r) \<le> RING_SIZE"
  by (auto simp: ring_ok_def submitted_def released_def indices_ok_def)

lemma put_submit_law:
  assumes "ring_ok r" "0 < numbers_left (writeIndex r)" "plain_slot a r" "put_submit a r = Some (b, r')"
  shows "ring_ok r' \<and> numbers_left (writeIndex r) \<le> numbers_left (writeIndex r') + 1 \<and>
    b = (length (submitted r) < RING_SIZE) \<and> submitted r' = submitted r @ (if b then [a] else [])"
proof -
  have put: "tryWrite (rs_bufferIndex a) (rs_fenceFd a) (rs_timestampNs a) r = (b, r')"
    using assms(4) by (simp add: put_submit_def)
  have pos: "writeIndex r \<noteq> - 1" using assms(2) by (simp add: numbers_left_pos)
  have "writeIndex r' = writeIndex r \<or> writeIndex r' = writeIndex r + 1"
    using put assms(1) by (cases rule: tryWriteE) auto
  then have "numbers_left (writeIndex r) \<le> numbers_left (writeIndex r') + 1"
    using numbers_left_inc [OF pos] by auto
  moreover have "\<lparr>rs_bufferIndex = rs_bufferIndex a, rs_fenceFd = rs_fenceFd a,
      rs_timestampNs = rs_timestampNs a, rs_flags = 0\<rparr> = a"
    using assms(3) by (simp add: plain_slot_def)
  ultimately show ?thesis using tryWrite_ok [OF put assms(1) pos] by simp
qed

lemma put_release_law:
  assumes "ring_ok r" "0 < numbers_left (releaseWriteIndex r)" "tryWriteRelease a r = Some (b, r')"
  shows "ring_ok r' \<and> numbers_left (releaseWriteIndex r) \<le> numbers_left (releaseWriteIndex r') + 1 \<and>
    b = (length (released r) < RING_SIZE) \<and> released r' = released r @ (if b then [a] else [])"
proof -
  have pos: "releaseWriteIndex r \<noteq> - 1" using assms(2) by (simp add: numbers_left_pos)
  have "releaseWriteIndex r' = releaseWriteIndex r \<or> releaseWriteIndex r' = releaseWriteIndex r + 1"
    using assms(3,1) by (cases rule: tryWriteReleaseE) auto
  then have "numbers_left (releaseWriteIndex r) \<le> numbers_left (releaseWriteIndex r') + 1"
    using numbers_left_inc [OF pos] by auto
  then show ?thesis using tryWriteRelease_ok [OF assms(3,1) pos] by simp
qed

interpretation submit_ring: bounded_fifo ring_ok "\<lambda>r. numbers_left (writeIndex r)" RING_SIZE submitted
  plain_slot put_submit tryRead
proof
  fix r a b r' assume "ring_ok r" "put_submit a r = Some (b, r')" "plain_slot a r"
    "0 < numbers_left (writeIndex r)"
  then show "ring_ok r' \<and> numbers_left (writeIndex r) \<le> numbers_left (writeIndex r') + 1 \<and>
      (\<forall>x. plain_slot x r' = plain_slot x r) \<and> b = (length (submitted r) < RING_SIZE) \<and>
      submitted r' = submitted r @ (if b then [a] else [])"
    using put_submit_law by (simp add: plain_slot_def)
next
  fix r s r' assume "ring_ok r" "tryRead r = (s, r')"
  then show "ring_ok r' \<and> numbers_left (writeIndex r') = numbers_left (writeIndex r) \<and>
      (\<forall>x. plain_slot x r' = plain_slot x r) \<and>
      (case submitted r of [] \<Rightarrow> s = None \<and> r' = r | x # xs \<Rightarrow> s = Some x \<and> submitted r' = xs)"
    using tryRead_ok by (simp add: plain_slot_def)
qed (simp_all add: ring_bounded put_submit_def)

interpretation release_ring: bounded_fifo ring_ok "\<lambda>r. numbers_left (releaseWriteIndex r)" RING_SIZE released
  pool_index tryWriteRelease tryReadRelease
proof
  fix r a b r' assume "ring_ok r" "tryWriteRelease a r = Some (b, r')" "0 < numbers_left (releaseWriteIndex r)"
  then show "ring_ok r' \<and> numbers_left (releaseWriteIndex r) \<le> numbers_left (releaseWriteIndex r') + 1 \<and>
      (\<forall>x. pool_index x r' = pool_index x r) \<and> b = (length (released r) < RING_SIZE) \<and>
      released r' = released r @ (if b then [a] else [])"
    using put_release_law by (simp add: pool_index_def)
next
  fix r s r' assume "ring_ok r" "tryReadRelease r = (s, r')"
  then show "ring_ok r' \<and> numbers_left (releaseWriteIndex r') = numbers_left (releaseWriteIndex r) \<and>
      (\<forall>x. pool_index x r' = pool_index x r) \<and>
      (case released r of [] \<Rightarrow> s = None \<and> r' = r | x # xs \<Rightarrow> s = Some x \<and> released r' = xs)"
    using tryReadRelease_ok by (simp add: pool_index_def)
qed (simp_all add: ring_bounded tryWriteRelease_defined pool_index_def)

text \<open>
  C15: from a new control ring, any sequence of submissions by the renderer and reads
  by the HAL, fewer submissions than a 32-bit index numbers: the HAL reads exactly the
  accepted slots, in their order, up to at most 16 that are still in the ring.
\<close>

theorem submit_ring_fifo:
  assumes "list_all (\<lambda>s. rs_flags s = 0) (puts ops)" "length (puts ops) < 2 ^ 32"
  shows "\<exists>accepted read r. channel_run put_submit tryRead ops new_ring = Some (accepted, read, r) \<and>
    accepted = read @ submitted r \<and> length (submitted r) \<le> 16"
proof -
  have "length (puts ops) \<le> numbers_left (writeIndex new_ring)"
    using assms(2) by (simp add: numbers_left_def new_ring_def unsigned_minus_1_eq_mask mask_eq_exp_minus_1)
  then obtain acc del t where "channel_run put_submit tryRead ops new_ring = Some (acc, del, t)"
      "ring_ok t" "acc = del @ submitted t"
    using submit_ring.run_in_order [of new_ring ops] assms(1) by (auto simp: plain_slot_def)
  then show ?thesis using ring_bounded [of t] by (auto simp: RING_SIZE_def)
qed

definition demo_slot :: ring_slot where
  "demo_slot = \<lparr>rs_bufferIndex = 2, rs_fenceFd = -1, rs_timestampNs = 100, rs_flags = 0\<rparr>"

lemma submit_ring_fifo_witness:
  "\<exists>accepted read r. channel_run put_submit tryRead [Put demo_slot, Get, Get] new_ring = Some (accepted, read, r) \<and>
    accepted = read @ submitted r \<and> length (submitted r) \<le> 16"
  by (rule submit_ring_fifo) (simp_all add: demo_slot_def)

text \<open>
  The reader compares indices with \<open>>=\<close>, the writer by their difference.
  When the writer's index wraps to 0 before the reader has caught up, the reader reports an
  empty ring although slots are available, and keeps doing so while the writer fills the
  ring.
\<close>

theorem index_wrap_stalls:
  assumes "readIndex r = - 1" "writeIndex r = 0"
  shows "available r = 1 \<and> tryRead r = (None, r) \<and> ring_peek r = None \<and> fst (tryWrite b fd t r)"
  using assms by (simp add: available_def tryRead_def ring_peek_def tryWrite_def Let_def RING_SIZE_def word_le_nat_alt)

lemma index_wrap_stalls_witness:
  "tryRead (new_ring\<lparr>readIndex := - 1\<rparr>) = (None, new_ring\<lparr>readIndex := - 1\<rparr>)"
  using index_wrap_stalls [of "new_ring\<lparr>readIndex := - 1\<rparr>"] by (simp add: new_ring_def)

end
