(* ===== verification/Buffer_Pool.thy ===== *)
theory Buffer_Pool
  imports Control_Ring Stable_Hal
begin

text \<open>
  \<open>v2-shared-memory/SharedBufferPool.h\<close>, class \<open>SharedBufferPool\<close>: the buffers and the
  control ring that renderer and HAL share. The creator allocates them, the receiver
  attaches to the ring and gets the buffers over a socket. Each process has a pool object of
  its own; the ring is the shared part and is passed beside it.
\<close>

record pool_config =
  pc_width :: int
  pc_height :: int
  pc_format :: int
  pc_bufferCount :: int
  pc_usage :: "64 word"

record pool =
  mConfig :: pool_config
  mMapped :: bool
  mControlRingFd :: int
  mBuffers :: "ahb option list"
  mBufferCount :: int
  mOwner :: bool

definition pool_init :: pool where
  "pool_init = \<lparr>mConfig = \<lparr>pc_width = 0, pc_height = 0, pc_format = 0, pc_bufferCount = 0, pc_usage = 0\<rparr>,
     mMapped = False, mControlRingFd = -1, mBuffers = replicate (nat MAX_BUFFERS) None,
     mBufferCount = 0, mOwner = False\<rparr>"

text \<open>
  The platform: shared memory and its mapping, descriptors, and hardware buffers, which are
  allocated or received (\<open>None\<close> on an error) and released.
\<close>

record 'w platform =
  pf_create :: "'w \<Rightarrow> int \<times> 'w"
  pf_mmap :: "int \<Rightarrow> 'w \<Rightarrow> bool \<times> 'w"
  pf_munmap :: "'w \<Rightarrow> 'w"
  pf_dup :: "int \<Rightarrow> 'w \<Rightarrow> int \<times> 'w"
  pf_close :: "int \<Rightarrow> 'w \<Rightarrow> 'w"
  pf_allocate :: "pool_config \<Rightarrow> 'w \<Rightarrow> ahb option \<times> 'w"
  pf_release :: "ahb \<Rightarrow> 'w \<Rightarrow> 'w"
  pf_recv :: "int \<Rightarrow> 'w \<Rightarrow> ahb option \<times> 'w"
  pf_send :: "ahb option \<Rightarrow> int \<Rightarrow> 'w \<Rightarrow> bool \<times> 'w"

section \<open>Release\<close>

text \<open>The loop of \<open>release\<close> over the buffers from index \<open>i\<close>.\<close>

definition release_one :: "'w platform \<Rightarrow> nat \<Rightarrow> ahb option list \<times> 'w \<Rightarrow> ahb option list \<times> 'w" where
  "release_one P i = (\<lambda>(bs, w). case bs ! i of
       None \<Rightarrow> (bs, w)
     | Some b \<Rightarrow> (bs[i := None], pf_release P b w))"

definition pool_release :: "'w platform \<Rightarrow> pool \<Rightarrow> 'w \<Rightarrow> pool \<times> 'w" where
  "pool_release P p w =
     (let (bs, w1) = fold (release_one P) [0..<nat (mBufferCount p)] (mBuffers p, w);
          w2 = (if mMapped p then pf_munmap P w1 else w1);
          w3 = (if 0 \<le> mControlRingFd p then pf_close P (mControlRingFd p) w2 else w2) in
      (p\<lparr>mBuffers := bs, mMapped := False, mControlRingFd := -1, mBufferCount := 0\<rparr>, w3))"

section \<open>Creating and attaching\<close>

text \<open>\<open>GPU_SAMPLED_IMAGE\<close> is bit 8 of the usage, \<open>GPU_COLOR_OUTPUT\<close> bit 9.\<close>

definition pool_usage :: "64 word \<Rightarrow> 64 word" where
  "pool_usage u = or (or u 0x100) 0x200"

text \<open>The loop that allocates the buffers; \<open>False\<close> at the first failure.\<close>

fun allocate_loop :: "'w platform \<Rightarrow> pool_config \<Rightarrow> nat list \<Rightarrow> ahb option list \<Rightarrow> 'w \<Rightarrow>
    bool \<times> ahb option list \<times> 'w" where
  "allocate_loop P c [] bs w = (True, bs, w)"
| "allocate_loop P c (i # is) bs w = (case pf_allocate P c w of
       (None, w1) \<Rightarrow> (False, bs, w1)
     | (Some b, w1) \<Rightarrow> allocate_loop P c is (bs[i := Some b]) w1)"

text \<open>Map the control ring behind a descriptor, or close the descriptor.\<close>

definition map_ring :: "'w platform \<Rightarrow> int \<Rightarrow> pool \<Rightarrow> 'w \<Rightarrow> bool \<times> pool \<times> 'w" where
  "map_ring P fd p w =
     (let (ok, w1) = pf_mmap P fd w in
      if ok then (True, p\<lparr>mControlRingFd := fd, mMapped := True\<rparr>, w1)
      else (False, p\<lparr>mControlRingFd := -1, mMapped := False\<rparr>, pf_close P fd w1))"

definition allocate_config :: "int \<Rightarrow> int \<Rightarrow> int \<Rightarrow> int \<Rightarrow> 64 word \<Rightarrow> pool_config" where
  "allocate_config width height format bufferCount usage = \<lparr>pc_width = width, pc_height = height,
     pc_format = format, pc_bufferCount = bufferCount, pc_usage = pool_usage usage\<rparr>"

definition pool_allocate :: "'w platform \<Rightarrow> int \<Rightarrow> int \<Rightarrow> int \<Rightarrow> int \<Rightarrow> 64 word \<Rightarrow>
    pool \<Rightarrow> control_ring \<Rightarrow> 'w \<Rightarrow> bool \<times> pool \<times> control_ring \<times> 'w" where
  "pool_allocate P width height format bufferCount usage p r w =
     (if MAX_BUFFERS < bufferCount \<or> bufferCount \<le> 0 then (False, p, r, w)
      else
        let c = allocate_config width height format bufferCount usage;
            p1 = p\<lparr>mConfig := c\<rparr>;
            (fd, w1) = pf_create P w in
        if fd < 0 then (False, p1\<lparr>mControlRingFd := fd\<rparr>, r, w1)
        else
          let (mapped, p2, w2) = map_ring P fd p1 w1 in
          if \<not> mapped then (False, p2, r, w2)
          else
            let (ok, bs, w3) = allocate_loop P c [0..<nat bufferCount] (mBuffers p2) w2;
                p3 = p2\<lparr>mBuffers := bs\<rparr> in
            if \<not> ok then let (p4, w4) = pool_release P p3 w3 in (False, p4, new_ring, w4)
            else (True, p3\<lparr>mBufferCount := bufferCount, mOwner := True\<rparr>, new_ring, w3))"

definition attachControlRing :: "'w platform \<Rightarrow> int \<Rightarrow> pool \<Rightarrow> 'w \<Rightarrow> bool \<times> pool \<times> 'w" where
  "attachControlRing P ringFd p w =
     (let (fd, w1) = pf_dup P ringFd w in
      if fd < 0 then (False, p\<lparr>mControlRingFd := fd\<rparr>, w1)
      else
        let (mapped, p1, w2) = map_ring P fd p w1 in
        if \<not> mapped then (False, p1, w2) else (True, p1\<lparr>mOwner := False\<rparr>, w2))"

text \<open>
  Receiving the buffers. On an error at index \<open>i\<close> the buffers received before it are
  released again.
\<close>

definition drop_received :: "'w platform \<Rightarrow> nat \<Rightarrow> ahb option list \<times> 'w \<Rightarrow> ahb option list \<times> 'w" where
  "drop_received P j = (\<lambda>(bs, w). (bs[j := None], (case bs ! j of None \<Rightarrow> w | Some b \<Rightarrow> pf_release P b w)))"

fun recv_loop :: "'w platform \<Rightarrow> int \<Rightarrow> nat list \<Rightarrow> ahb option list \<Rightarrow> 'w \<Rightarrow> bool \<times> ahb option list \<times> 'w" where
  "recv_loop P socket [] bs w = (True, bs, w)"
| "recv_loop P socket (i # is) bs w = (case pf_recv P socket w of
       (Some b, w1) \<Rightarrow> recv_loop P socket is (bs[i := Some b]) w1
     | (None, w1) \<Rightarrow> let (bs', w2) = fold (drop_received P) [0..<i] (bs, w1) in (False, bs', w2))"

definition recvBuffersFrom :: "'w platform \<Rightarrow> int \<Rightarrow> int \<Rightarrow> pool_config \<Rightarrow> pool \<Rightarrow> 'w \<Rightarrow> bool \<times> pool \<times> 'w" where
  "recvBuffersFrom P socket bufferCount config p w =
     (if MAX_BUFFERS < bufferCount \<or> bufferCount \<le> 0 then (False, p, w)
      else if \<not> mMapped p then (False, p, w)
      else
        let (ok, bs, w1) = recv_loop P socket [0..<nat bufferCount] (mBuffers p) w;
            p1 = p\<lparr>mConfig := config, mBuffers := bs\<rparr> in
        if ok then (True, p1\<lparr>mBufferCount := bufferCount\<rparr>, w1) else (False, p1, w1))"

fun send_loop :: "'w platform \<Rightarrow> int \<Rightarrow> ahb option list \<Rightarrow> 'w \<Rightarrow> bool \<times> 'w" where
  "send_loop P socket [] w = (True, w)"
| "send_loop P socket (b # bs) w =
     (let (ok, w1) = pf_send P b socket w in if ok then send_loop P socket bs w1 else (False, w1))"

definition sendBuffersTo :: "'w platform \<Rightarrow> int \<Rightarrow> pool \<Rightarrow> 'w \<Rightarrow> bool \<times> 'w" where
  "sendBuffersTo P socket p w = send_loop P socket (take (nat (mBufferCount p)) (mBuffers p)) w"

section \<open>Using the buffers\<close>

definition getBuffer :: "int \<Rightarrow> pool \<Rightarrow> ahb option" where
  "getBuffer index p = (if index < 0 \<or> mBufferCount p \<le> index then None else mBuffers p ! nat index)"

text \<open>The compare-and-exchange loop from index \<open>i\<close>: the first free buffer becomes taken.\<close>

fun acquire_from :: "nat list \<Rightarrow> control_ring \<Rightarrow> int \<times> control_ring" where
  "acquire_from [] r = (-1, r)"
| "acquire_from (i # is) r =
     (if bufferState r ! i = 0 then (int i, r\<lparr>bufferState := (bufferState r)[i := 1]\<rparr>)
      else acquire_from is r)"

definition acquireFreeBuffer :: "pool \<Rightarrow> control_ring \<Rightarrow> int \<times> control_ring" where
  "acquireFreeBuffer p r = (if \<not> mMapped p then (-1, r) else acquire_from [0..<nat (mBufferCount p)] r)"

definition releaseBuffer :: "int \<Rightarrow> pool \<Rightarrow> control_ring \<Rightarrow> control_ring" where
  "releaseBuffer index p r =
     (if 0 \<le> index \<and> index < mBufferCount p \<and> mMapped p
      then r\<lparr>bufferState := (bufferState r)[nat index := 0]\<rparr> else r)"

definition isBufferFree :: "int \<Rightarrow> pool \<Rightarrow> control_ring \<Rightarrow> bool" where
  "isBufferFree index p r =
     (if index < 0 \<or> mBufferCount p \<le> index \<or> \<not> mMapped p then False
      else bufferState r ! nat index = 0)"

end
