(* ===== verification/Shared_Frames.thy ===== *)
theory Shared_Frames
  imports Buffer_Pool
begin

text \<open>
  The two ends of the shared pool: \<open>v2-shared-memory/HalInterface.h\<close>, which reads frames
  and gives buffers back, and \<open>v2-shared-memory/RendererInterface.h\<close>, which takes free
  buffers and submits frames. Each side runs in its own process; before each access to the
  ring stands \<open>peer\<close>, whatever the other process did since.
\<close>

text \<open>What a call can end with besides its answer.\<close>

datatype fault = OutOfFuel | OutOfBounds

type_synonym 'a outcome = "fault + 'a"

record 'w shared_env =
  se_peer :: "control_ring \<Rightarrow> 'w \<Rightarrow> control_ring \<times> 'w"
  se_close :: "int \<Rightarrow> 'w \<Rightarrow> 'w"
  se_sync_wait :: "int \<Rightarrow> int \<Rightarrow> 'w \<Rightarrow> int \<times> 'w"
  se_usleep :: "int \<Rightarrow> 'w \<Rightarrow> 'w"

section \<open>The HAL's end\<close>

record hal_iface =
  hi_pool :: "pool option"
  hi_ring :: bool
  mDroppedFrames :: "32 word"
  mFrameCount :: "32 word"

definition hal_iface_init :: hal_iface where
  "hal_iface_init = \<lparr>hi_pool = None, hi_ring = False, mDroppedFrames = 0, mFrameCount = 0\<rparr>"

record acquired_frame =
  af_bufferIndex :: int
  af_buffer :: "ahb option"
  af_timestampNs :: int

definition no_frame :: acquired_frame where
  "no_frame = \<lparr>af_bufferIndex = -1, af_buffer = None, af_timestampNs = 0\<rparr>"

definition frame_valid :: "acquired_frame \<Rightarrow> bool" where
  "frame_valid f = (0 \<le> af_bufferIndex f)"

definition iface_initialize :: "pool \<Rightarrow> hal_iface \<Rightarrow> bool \<times> hal_iface" where
  "iface_initialize p h = (mMapped p, h\<lparr>hi_pool := Some p, hi_ring := mMapped p\<rparr>)"

definition iface_hasFrame :: "control_ring \<Rightarrow> hal_iface \<Rightarrow> bool" where
  "iface_hasFrame r h = (hi_ring h \<and> 0 < available r)"

text \<open>The read of the ring after the peer has run.\<close>

definition peer_read :: "'w shared_env \<Rightarrow> control_ring \<Rightarrow> 'w \<Rightarrow> ring_slot option \<times> control_ring \<times> 'w" where
  "peer_read E r w = (let (r1, w1) = se_peer E r w; (s, r2) = tryRead r1 in (s, r2, w1))"

text \<open>A skipped frame: close its fence, give its buffer back, count it.\<close>

definition skip_frame :: "'w shared_env \<Rightarrow> ring_slot \<Rightarrow> hal_iface \<Rightarrow> control_ring \<Rightarrow> 'w \<Rightarrow>
    (hal_iface \<times> control_ring \<times> 'w) outcome" where
  "skip_frame E old h r w =
     (let w1 = (if 0 \<le> rs_fenceFd old then se_close E (rs_fenceFd old) w else w);
          (r1, w2) = se_peer E r w1 in
      case tryWriteRelease (rs_bufferIndex old) r1 of
        None \<Rightarrow> Inl OutOfBounds
      | Some (ok, r2) \<Rightarrow> Inr (h\<lparr>mDroppedFrames := mDroppedFrames h + 1\<rparr>, r2, w2))"

text \<open>The drain loop of \<open>acquireLatestFrame\<close>, keeping the latest slot.\<close>

fun drain_loop :: "'w shared_env \<Rightarrow> nat \<Rightarrow> ring_slot option \<Rightarrow> hal_iface \<Rightarrow> control_ring \<Rightarrow> 'w \<Rightarrow>
    (ring_slot option \<times> hal_iface \<times> control_ring \<times> 'w) outcome" where
  "drain_loop E 0 latest h r w = Inl OutOfFuel"
| "drain_loop E (Suc fuel) latest h r w = (case peer_read E r w of
       (None, r1, w1) \<Rightarrow> Inr (latest, h, r1, w1)
     | (Some s, r1, w1) \<Rightarrow> (case latest of
           None \<Rightarrow> drain_loop E fuel (Some s) h r1 w1
         | Some old \<Rightarrow> (case skip_frame E old h r1 w1 of
               Inl e \<Rightarrow> Inl e
             | Inr (h2, r2, w2) \<Rightarrow> drain_loop E fuel (Some s) h2 r2 w2)))"

text \<open>
  The wait loops: \<open>n\<close> rounds are left, each reads the ring and sleeps when there is
  nothing. The flag of the result tells whether a slot was read before the rounds ran out.
\<close>

fun wait_loop :: "'w shared_env \<Rightarrow> int \<Rightarrow> nat \<Rightarrow> control_ring \<Rightarrow> 'w \<Rightarrow> ring_slot option \<times> control_ring \<times> 'w" where
  "wait_loop E pause 0 r w = (None, r, w)"
| "wait_loop E pause (Suc n) r w = (case peer_read E r w of
       (Some s, r1, w1) \<Rightarrow> (Some s, r1, w1)
     | (None, r1, w1) \<Rightarrow> wait_loop E pause n r1 (se_usleep E pause w1))"

text \<open>
  The end of both acquisitions. The unsigned buffer index becomes a signed one; a null
  \<open>mPool\<close> does not occur once the ring is set.
\<close>

definition finish_frame :: "'w shared_env \<Rightarrow> ring_slot \<Rightarrow> hal_iface \<Rightarrow> 'w \<Rightarrow>
    acquired_frame \<times> hal_iface \<times> 'w" where
  "finish_frame E s h w =
     (let w2 = (if 0 \<le> rs_fenceFd s
         then se_close E (rs_fenceFd s) (snd (se_sync_wait E (rs_fenceFd s) 1000 w)) else w);
          index = sint (rs_bufferIndex s) in
      (\<lparr>af_bufferIndex = index,
        af_buffer = (case hi_pool h of None \<Rightarrow> None | Some p \<Rightarrow> getBuffer index p),
        af_timestampNs = rs_timestampNs s\<rparr>,
       h\<lparr>mFrameCount := mFrameCount h + 1\<rparr>, w2))"

definition acquireLatestFrame :: "'w shared_env \<Rightarrow> nat \<Rightarrow> int \<Rightarrow> hal_iface \<Rightarrow> control_ring \<Rightarrow> 'w \<Rightarrow>
    (acquired_frame \<times> hal_iface \<times> control_ring \<times> 'w) outcome" where
  "acquireLatestFrame E fuel timeoutMs h r w =
     (if \<not> hi_ring h then Inr (no_frame, h, r, w)
      else case drain_loop E fuel None h r w of
        Inl e \<Rightarrow> Inl e
      | Inr (latest, h1, r1, w1) \<Rightarrow>
          let (found, r2, w2) = (if latest = None \<and> 0 < timeoutMs
                then wait_loop E 100 (nat timeoutMs) r1 w1 else (latest, r1, w1)) in
          case found of
            None \<Rightarrow> Inr (no_frame, h1, r2, w2)
          | Some s \<Rightarrow> let (f, h2, w3) = finish_frame E s h1 w2 in Inr (f, h2, r2, w3))"

definition acquireNextFrame :: "'w shared_env \<Rightarrow> int \<Rightarrow> hal_iface \<Rightarrow> control_ring \<Rightarrow> 'w \<Rightarrow>
    acquired_frame \<times> hal_iface \<times> control_ring \<times> 'w" where
  "acquireNextFrame E timeoutMs h r w =
     (if \<not> hi_ring h then (no_frame, h, r, w)
      else
        let (first, r1, w1) = peer_read E r w;
            (found, r2, w2) = (if first \<noteq> None then (first, r1, w1)
              else if timeoutMs \<le> 0 then (None, r1, w1)
              else wait_loop E 1000 (nat timeoutMs) r1 w1) in
        case found of
          None \<Rightarrow> (no_frame, h, r2, w2)
        | Some s \<Rightarrow> let (f, h1, w3) = finish_frame E s h w2 in (f, h1, r2, w3))"

definition iface_releaseFrame :: "'w shared_env \<Rightarrow> acquired_frame \<Rightarrow> hal_iface \<Rightarrow> control_ring \<Rightarrow> 'w \<Rightarrow>
    (control_ring \<times> 'w) outcome" where
  "iface_releaseFrame E f h r w =
     (if frame_valid f \<and> hi_ring h then
        let (r1, w1) = se_peer E r w in
        case tryWriteRelease (word_of_int (af_bufferIndex f)) r1 of
          None \<Rightarrow> Inl OutOfBounds
        | Some (ok, r2) \<Rightarrow> Inr (r2, w1)
      else Inr (r, w))"

section \<open>The renderer's end\<close>

record 'w gl =
  gl_extensions :: bool
  gl_image :: "ahb option \<Rightarrow> 'w \<Rightarrow> nat \<times> 'w"
  gl_destroyImage :: "(nat \<Rightarrow> 'w \<Rightarrow> 'w) option"
  gl_texture :: "nat \<Rightarrow> 'w \<Rightarrow> nat \<times> 'w"
  gl_framebuffer :: "nat \<Rightarrow> 'w \<Rightarrow> nat \<times> 'w"
  gl_complete :: "nat \<Rightarrow> 'w \<Rightarrow> bool \<times> 'w"
  gl_deleteFramebuffer :: "nat \<Rightarrow> 'w \<Rightarrow> 'w"
  gl_deleteTexture :: "nat \<Rightarrow> 'w \<Rightarrow> 'w"
  gl_bind :: "nat \<Rightarrow> 'w \<Rightarrow> 'w"
  gl_fence :: "'w \<Rightarrow> int \<times> 'w"
  gl_clock :: "'w \<Rightarrow> int \<times> 'w"

text \<open>0 stands for \<open>EGL_NO_IMAGE_KHR\<close>, no texture and no framebuffer.\<close>

record renderer =
  rd_pool :: "pool option"
  mInitialized :: bool
  mLastNegotiationSeq :: "32 word"
  mEglImages :: "nat list"
  mTextures :: "nat list"
  mFramebuffers :: "nat list"

definition renderer_init :: renderer where
  "renderer_init = \<lparr>rd_pool = None, mInitialized = False, mLastNegotiationSeq = 0,
     mEglImages = replicate 4 0, mTextures = replicate 4 0, mFramebuffers = replicate 4 0\<rparr>"

definition shutdown_one :: "'w gl \<Rightarrow> nat \<Rightarrow> renderer \<times> 'w \<Rightarrow> renderer \<times> 'w" where
  "shutdown_one G i = (\<lambda>(d, w).
     let (d1, w1) = (if mFramebuffers d ! i \<noteq> 0
           then (d\<lparr>mFramebuffers := (mFramebuffers d)[i := 0]\<rparr>, gl_deleteFramebuffer G (mFramebuffers d ! i) w)
           else (d, w));
         (d2, w2) = (if mTextures d1 ! i \<noteq> 0
           then (d1\<lparr>mTextures := (mTextures d1)[i := 0]\<rparr>, gl_deleteTexture G (mTextures d1 ! i) w1)
           else (d1, w1)) in
     case gl_destroyImage G of
       Some destroy \<Rightarrow> if mEglImages d2 ! i \<noteq> 0
         then (d2\<lparr>mEglImages := (mEglImages d2)[i := 0]\<rparr>, destroy (mEglImages d2 ! i) w2) else (d2, w2)
     | None \<Rightarrow> (d2, w2))"

definition renderer_shutdown :: "'w gl \<Rightarrow> renderer \<Rightarrow> 'w \<Rightarrow> renderer \<times> 'w" where
  "renderer_shutdown G d w =
     (if \<not> mInitialized d then (d, w)
      else let (d1, w1) = fold (shutdown_one G) [0..<nat MAX_BUFFERS] (d, w) in
        (d1\<lparr>mInitialized := False\<rparr>, w1))"

text \<open>One buffer's image, texture and framebuffer; \<open>False\<close> when one is unusable.\<close>

definition setup_one :: "'w gl \<Rightarrow> pool \<Rightarrow> nat \<Rightarrow> renderer \<Rightarrow> 'w \<Rightarrow> bool \<times> renderer \<times> 'w" where
  "setup_one G p i d w =
     (let (image, w1) = gl_image G (getBuffer (int i) p) w;
          d1 = d\<lparr>mEglImages := (mEglImages d)[i := image]\<rparr> in
      if image = 0 then (False, d1, w1)
      else
        let (tex, w2) = gl_texture G image w1;
            (fbo, w3) = gl_framebuffer G tex w2;
            d2 = d1\<lparr>mTextures := (mTextures d1)[i := tex], mFramebuffers := (mFramebuffers d1)[i := fbo]\<rparr>;
            (complete, w4) = gl_complete G fbo w3 in
        (complete, d2, w4))"

fun setup_loop :: "'w gl \<Rightarrow> pool \<Rightarrow> nat list \<Rightarrow> renderer \<Rightarrow> 'w \<Rightarrow> bool \<times> renderer \<times> 'w" where
  "setup_loop G p [] d w = (True, d, w)"
| "setup_loop G p (i # is) d w =
     (let (ok, d1, w1) = setup_one G p i d w in
      if ok then setup_loop G p is d1 w1
      else let (d2, w2) = renderer_shutdown G d1 w1 in (False, d2, w2))"

definition renderer_initialize :: "'w gl \<Rightarrow> pool \<Rightarrow> renderer \<Rightarrow> 'w \<Rightarrow> bool \<times> renderer \<times> 'w" where
  "renderer_initialize G p d w =
     (let d1 = d\<lparr>rd_pool := Some p\<rparr> in
      if \<not> gl_extensions G then (False, d1, w)
      else
        let (ok, d2, w1) = setup_loop G p [0..<nat (mBufferCount p)] d1 w in
        if ok then (True, d2\<lparr>mInitialized := True\<rparr>, gl_bind G 0 w1) else (False, d2, w1))"

fun drainReleaseRing :: "'w shared_env \<Rightarrow> nat \<Rightarrow> control_ring \<Rightarrow> 'w \<Rightarrow> (control_ring \<times> 'w) outcome" where
  "drainReleaseRing E 0 r w = Inl OutOfFuel"
| "drainReleaseRing E (Suc fuel) r w =
     (let (r1, w1) = se_peer E r w in
      case tryReadRelease r1 of
        (None, r2) \<Rightarrow> Inr (r2, w1)
      | (Some b, r2) \<Rightarrow> drainReleaseRing E fuel r2 w1)"

record render_frame =
  rf_bufferIndex :: int
  rf_buffer :: "ahb option"
  rf_eglImage :: nat
  rf_texture :: nat
  rf_framebuffer :: nat
  rf_timestampNs :: int

definition no_render_frame :: render_frame where
  "no_render_frame = \<lparr>rf_bufferIndex = -1, rf_buffer = None, rf_eglImage = 0, rf_texture = 0,
     rf_framebuffer = 0, rf_timestampNs = 0\<rparr>"

definition beginFrame :: "'w shared_env \<Rightarrow> 'w gl \<Rightarrow> nat \<Rightarrow> pool \<Rightarrow> renderer \<Rightarrow> control_ring \<Rightarrow> 'w \<Rightarrow>
    (render_frame \<times> control_ring \<times> 'w) outcome" where
  "beginFrame E G fuel p d r w =
     (case (if mMapped p then drainReleaseRing E fuel r w else Inr (r, w)) of
        Inl e \<Rightarrow> Inl e
      | Inr (r1, w1) \<Rightarrow>
          let (r2, w2) = se_peer E r1 w1;
              (i, r3) = acquireFreeBuffer p r2 in
          if i < 0 then Inr (no_render_frame, r3, w2)
          else
            let (now, w3) = gl_clock G w2 in
            Inr (\<lparr>rf_bufferIndex = i, rf_buffer = getBuffer i p, rf_eglImage = mEglImages d ! nat i,
                   rf_texture = mTextures d ! nat i, rf_framebuffer = mFramebuffers d ! nat i,
                   rf_timestampNs = now\<rparr>,
                 r3, gl_bind G (mFramebuffers d ! nat i) w3))"

definition submitFrame :: "'w shared_env \<Rightarrow> 'w gl \<Rightarrow> pool \<Rightarrow> render_frame \<Rightarrow> control_ring \<Rightarrow> 'w \<Rightarrow>
    bool \<times> control_ring \<times> 'w" where
  "submitFrame E G p f r w =
     (if rf_bufferIndex f < 0 then (False, r, w)
      else
        let (fenceFd, w1) = gl_fence G (gl_bind G 0 w);
            (r1, w2) = se_peer E r w1;
            (ok, r2) = tryWrite (word_of_int (rf_bufferIndex f)) fenceFd (rf_timestampNs f) r1 in
        if ok then (True, r2, w2)
        else (False, releaseBuffer (rf_bufferIndex f) p r2, if 0 \<le> fenceFd then se_close E fenceFd w2 else w2))"

section \<open>Format negotiation\<close>

record format_request =
  fr_format :: int
  fr_width :: int
  fr_height :: int
  fr_usage :: "64 word"

text \<open>\<open>VirtualCameraFrameSourceV2::requestFormat\<close> and the renderer's poll.\<close>

definition requestFormat :: "format_request \<Rightarrow> pool \<Rightarrow> control_ring \<Rightarrow> control_ring" where
  "requestFormat q p r =
     (if \<not> mMapped p then r
      else r\<lparr>neg_format := fr_format q, neg_width := fr_width q, neg_height := fr_height q,
             neg_usage := fr_usage q, neg_seq := neg_seq r + 1\<rparr>)"

definition checkNegotiation :: "control_ring \<Rightarrow> renderer \<Rightarrow> format_request option \<times> renderer" where
  "checkNegotiation r d = (case rd_pool d of
       None \<Rightarrow> (None, d)
     | Some p \<Rightarrow>
         if \<not> mMapped p then (None, d)
         else if neg_seq r = mLastNegotiationSeq d then (None, d)
         else (Some \<lparr>fr_format = neg_format r, fr_width = neg_width r, fr_height = neg_height r,
                 fr_usage = neg_usage r\<rparr>, d\<lparr>mLastNegotiationSeq := neg_seq r\<rparr>))"

end
