(* ===== verification/Shared_Pool.thy ===== *)
theory Shared_Pool
  imports Shared_Frames "HOL-Library.Multiset"
begin

text \<open>
  Renderer and HAL together on one control ring: which side owns which buffer. The system
  moves by single accesses to the ring, in any order.
\<close>

section \<open>The joint system\<close>

text \<open>
  \<open>y_rendering\<close> are the frames the renderer has begun and not yet submitted, \<open>y_held\<close> the
  buffers of the frames the HAL has read and not yet given back. \<open>y_drained\<close> is the point of
  \<open>beginFrame\<close> between its drain of the release ring and its search for a free buffer.
\<close>

record pool_system =
  y_ring :: control_ring
  y_rendering :: "nat list"
  y_held :: "nat list"
  y_drained :: bool

inductive pool_step :: "pool \<Rightarrow> pool_system \<Rightarrow> pool_system \<Rightarrow> bool" for p where
  drain: "tryReadRelease (y_ring y) = (Some b, r) \<Longrightarrow> pool_step p y (y\<lparr>y_ring := r, y_drained := False\<rparr>)"
| drained: "tryReadRelease (y_ring y) = (None, r) \<Longrightarrow> pool_step p y (y\<lparr>y_ring := r, y_drained := True\<rparr>)"
| begin_frame: "y_drained y \<Longrightarrow> acquireFreeBuffer p (y_ring y) = (i, r) \<Longrightarrow>
    pool_step p y (y\<lparr>y_ring := r, y_drained := False,
      y_rendering := (if 0 \<le> i then nat i # y_rendering y else y_rendering y)\<rparr>)"
| submit: "i \<in> set (y_rendering y) \<Longrightarrow> writeIndex (y_ring y) \<noteq> - 1 \<Longrightarrow>
    tryWrite (of_nat i) fd t (y_ring y) = (ok, r) \<Longrightarrow>
    pool_step p y (y\<lparr>y_ring := (if ok then r else releaseBuffer (int i) p r),
      y_rendering := remove1 i (y_rendering y)\<rparr>)"
| cancel: "i \<in> set (y_rendering y) \<Longrightarrow>
    pool_step p y (y\<lparr>y_ring := releaseBuffer (int i) p (y_ring y), y_rendering := remove1 i (y_rendering y)\<rparr>)"
| take: "tryRead (y_ring y) = (Some s, r) \<Longrightarrow>
    pool_step p y (y\<lparr>y_ring := r, y_held := unat (rs_bufferIndex s) # y_held y\<rparr>)"
| give_back: "b \<in> set (y_held y) \<Longrightarrow> releaseWriteIndex (y_ring y) \<noteq> - 1 \<Longrightarrow>
    tryWriteRelease (of_nat b) (y_ring y) = Some (ok, r) \<Longrightarrow>
    pool_step p y (y\<lparr>y_ring := r, y_held := remove1 b (y_held y)\<rparr>)"

text \<open>
  An index stops short of wrapping around (the side conditions). \<open>cancel\<close> is a buffer that the
  renderer gives back unused, as the CPU writer does when it cannot lock the buffer.
\<close>

inductive_cases pool_stepE: "pool_step p y y'"

definition pool_start :: pool_system where
  "pool_start = \<lparr>y_ring = new_ring, y_rendering = [], y_held = [], y_drained = False\<rparr>"

text \<open>A pool of a successful \<open>allocate\<close> or \<open>recvBuffersFrom\<close>.\<close>

definition pool_ready :: "pool \<Rightarrow> bool" where
  "pool_ready p \<longleftrightarrow> mMapped p \<and> 0 < mBufferCount p \<and> mBufferCount p \<le> MAX_BUFFERS"

section \<open>Ownership\<close>

text \<open>The buffers in use, and the release notices that are not stale.\<close>

definition in_use :: "pool_system \<Rightarrow> nat list" where
  "in_use y = y_rendering y @ map (unat \<circ> rs_bufferIndex) (submitted (y_ring y)) @ y_held y"

definition notices :: "pool_system \<Rightarrow> nat list" where
  "notices y = map unat (released (y_ring y))"

text \<open>
  At most one notice is stale: that of the buffer the renderer took between its drain and
  its search.
\<close>

definition notices_ok :: "pool_system \<Rightarrow> bool" where
  "notices_ok y \<longleftrightarrow> (\<exists>b. distinct (remove1 b (notices y)) \<and>
     set (remove1 b (notices y)) \<inter> set (in_use y) = {} \<and>
     (y_drained y \<longrightarrow> b \<notin> set (notices y)))"

definition owned_ok :: "pool \<Rightarrow> pool_system \<Rightarrow> bool" where
  "owned_ok p y \<longleftrightarrow> distinct (in_use y) \<and>
     (\<forall>i \<in> set (in_use y) \<union> set (notices y). int i < mBufferCount p) \<and>
     (\<forall>i. int i < mBufferCount p \<longrightarrow> (bufferState (y_ring y) ! i = 0 \<longleftrightarrow> i \<notin> set (in_use y)))"

definition pool_inv :: "pool \<Rightarrow> pool_system \<Rightarrow> bool" where
  "pool_inv p y \<longleftrightarrow> ring_ok (y_ring y) \<and> owned_ok p y \<and> notices_ok y"

lemma pool_inv_start: "pool_ready p \<Longrightarrow> pool_inv p pool_start"
  by (auto simp: pool_inv_def owned_ok_def notices_ok_def in_use_def notices_def pool_start_def
      pool_ready_def new_ring_def MAX_BUFFERS_def submitted_def released_def ring_ok_def indices_ok_def
      nth_Cons numeral_eq_Suc split: nat.splits)

lemma distinct_bound: "distinct xs \<Longrightarrow> (\<forall>i \<in> set xs. int i < n) \<Longrightarrow> int (length xs) \<le> n \<or> xs = []"
proof -
  assume d: "distinct xs" and b: "\<forall>i \<in> set xs. int i < n"
  have "set xs \<subseteq> {..<nat n}" using b by auto
  then have "length xs \<le> nat n" using d by (metis card_lessThan card_mono distinct_card finite_lessThan)
  then show ?thesis using b by (cases xs) auto
qed

text \<open>Neither ring ever fills up: at most four slots are submitted, at most five notices wait.\<close>

lemma pool_inv_room:
  assumes inv: "pool_inv p y" and p: "pool_ready p"
  shows "length (submitted (y_ring y)) < RING_SIZE" and "length (released (y_ring y)) < RING_SIZE"
proof -
  have "distinct (in_use y)" "\<forall>i \<in> set (in_use y). int i < mBufferCount p"
    using inv by (auto simp: pool_inv_def owned_ok_def)
  then have "int (length (in_use y)) \<le> 4"
    using distinct_bound [of "in_use y"] p by (fastforce simp: pool_ready_def MAX_BUFFERS_def)
  then show "length (submitted (y_ring y)) < RING_SIZE"
    by (simp add: in_use_def RING_SIZE_def)
  obtain b where "distinct (remove1 b (notices y))" using inv by (auto simp: pool_inv_def notices_ok_def)
  moreover have "\<forall>i \<in> set (remove1 b (notices y)). int i < mBufferCount p"
    using inv notin_set_remove1 by (fastforce simp: pool_inv_def owned_ok_def)
  ultimately have "int (length (remove1 b (notices y))) \<le> 4"
    using distinct_bound p by (fastforce simp: pool_ready_def MAX_BUFFERS_def)
  then have "length (notices y) \<le> 5" by (cases "b \<in> set (notices y)") (auto simp: length_remove1 remove1_idem)
  then show "length (released (y_ring y)) < RING_SIZE" by (simp add: notices_def RING_SIZE_def)
qed

section \<open>Every step keeps the invariant\<close>

lemma notices_ok_sub:
  assumes "notices_ok y" "notices y' = notices y" "set (in_use y') \<subseteq> set (in_use y)"
    "y_drained y' \<longrightarrow> y_drained y"
  shows "notices_ok y'"
  using assms unfolding notices_ok_def by (auto 4 4)

lemma drain_keeps:
  assumes inv: "pool_inv p y" and run: "tryReadRelease (y_ring y) = (Some b, r)"
  shows "pool_inv p (y\<lparr>y_ring := r, y_drained := False\<rparr>)"
proof -
  let ?y' = "y\<lparr>y_ring := r, y_drained := False\<rparr>"
  have ring: "ring_ok (y_ring y)" using inv by (simp add: pool_inv_def)
  note effect = tryReadRelease_ok [OF run ring]
  obtain xs where xs: "released (y_ring y) = b # xs" "released r = xs"
    using effect by (auto split: list.splits)
  have use: "in_use ?y' = in_use y" using effect by (simp add: in_use_def)
  have same_notices: "notices y = unat b # notices ?y'" using xs by (simp add: notices_def)
  obtain c where c: "distinct (remove1 c (notices y))" "set (remove1 c (notices y)) \<inter> set (in_use y) = {}"
    using inv by (auto simp: pool_inv_def notices_ok_def)
  have "notices_ok ?y'"
  proof (cases "unat b = c")
    case True
    have "set (remove1 c (notices ?y')) \<subseteq> set (notices ?y')" by (rule set_remove1_subset)
    then show ?thesis using c same_notices True use
      unfolding notices_ok_def by (intro exI [of _ c]) (auto intro: distinct_remove1)
  next
    case False
    then show ?thesis using c same_notices use unfolding notices_ok_def by (intro exI [of _ c]) auto
  qed
  then show ?thesis
    using inv effect use same_notices by (auto simp: pool_inv_def owned_ok_def)
qed

lemma drained_keeps:
  assumes inv: "pool_inv p y" and run: "tryReadRelease (y_ring y) = (None, r)"
  shows "pool_inv p (y\<lparr>y_ring := r, y_drained := True\<rparr>)"
proof -
  have ring: "ring_ok (y_ring y)" using inv by (simp add: pool_inv_def)
  have "r = y_ring y" "released (y_ring y) = []"
    using tryReadRelease_ok [OF run ring] by (auto split: list.splits)
  then show ?thesis using inv
    by (simp add: pool_inv_def owned_ok_def notices_ok_def in_use_def notices_def)
qed

lemma acquire_from_result:
  "acquire_from is r = (i, r') \<Longrightarrow>
   (0 \<le> i \<and> nat i \<in> set is \<and> bufferState r ! nat i = 0 \<and> r' = r\<lparr>bufferState := (bufferState r)[nat i := 1]\<rparr>) \<or>
   (i = -1 \<and> r' = r \<and> (\<forall>j \<in> set is. bufferState r ! j \<noteq> 0))"
  by (induction "is") (auto split: if_splits)

lemma begin_keeps:
  assumes inv: "pool_inv p y" and p: "pool_ready p" and ready: "y_drained y"
    and run: "acquireFreeBuffer p (y_ring y) = (i, r)"
  shows "pool_inv p (y\<lparr>y_ring := r, y_drained := False,
      y_rendering := (if 0 \<le> i then nat i # y_rendering y else y_rendering y)\<rparr>)" (is "pool_inv p ?y'")
proof -
  have "acquire_from [0..<nat (mBufferCount p)] (y_ring y) = (i, r)"
    using run p by (simp add: acquireFreeBuffer_def pool_ready_def)
  from acquire_from_result [OF this] consider
      (got) "0 \<le> i" "nat i < nat (mBufferCount p)" "bufferState (y_ring y) ! nat i = 0"
        "r = (y_ring y)\<lparr>bufferState := (bufferState (y_ring y))[nat i := 1]\<rparr>"
    | (none) "i = -1" "r = y_ring y"
    by auto
  then show ?thesis
  proof cases
    case none
    then show ?thesis using inv
      by (auto simp: pool_inv_def owned_ok_def notices_ok_def in_use_def notices_def)
  next
    case got
    let ?i = "nat i"
    have use: "in_use ?y' = ?i # in_use y" and same_notices: "notices ?y' = notices y"
      using got by (simp_all add: in_use_def notices_def submitted_def released_def)
    have free: "?i \<notin> set (in_use y)" using inv got by (auto simp: pool_inv_def owned_ok_def)
    have len: "?i < length (bufferState (y_ring y))"
      using inv got p by (simp add: pool_inv_def ring_ok_def pool_ready_def)
    have state: "bufferState r = (bufferState (y_ring y))[?i := 1]" using got by simp
    have "owned_ok p ?y'"
      unfolding owned_ok_def use same_notices
      using inv free len got(1,2) by (auto simp: pool_inv_def owned_ok_def state nth_list_update)
    moreover have "distinct (notices y)" "set (notices y) \<inter> set (in_use y) = {}"
      using inv ready by (auto simp: pool_inv_def notices_ok_def remove1_idem)
    then have "notices_ok ?y'"
      unfolding notices_ok_def use same_notices by (intro exI [of _ ?i]) auto
    moreover have "ring_ok r" using inv got by (simp add: pool_inv_def ring_ok_def)
    ultimately show ?thesis by (simp add: pool_inv_def)
  qed
qed

lemma small_index: "i < 4 \<Longrightarrow> unat (of_nat i :: 32 word) = i"
  by (simp add: unat_of_nat)

lemma used_small: "pool_inv p y \<Longrightarrow> pool_ready p \<Longrightarrow> i \<in> set (in_use y) \<Longrightarrow> i < 4"
  by (force simp: pool_inv_def owned_ok_def pool_ready_def MAX_BUFFERS_def)

lemma submit_keeps:
  assumes inv: "pool_inv p y" and p: "pool_ready p" and i: "i \<in> set (y_rendering y)"
    and ix: "writeIndex (y_ring y) \<noteq> - 1"
    and run: "tryWrite (of_nat i) fd t (y_ring y) = (ok, r)"
  shows "ok" and "pool_inv p (y\<lparr>y_ring := (if ok then r else releaseBuffer (int i) p r),
      y_rendering := remove1 i (y_rendering y)\<rparr>)" (is "pool_inv p ?y'")
proof -
  have ring: "ring_ok (y_ring y)" using inv by (simp add: pool_inv_def)
  note effect = tryWrite_ok [OF run ring ix]
  show ok: "ok" using effect pool_inv_room(1) [OF inv p] by simp
  have "i \<in> set (in_use y)" using i by (simp add: in_use_def)
  note i4 = used_small [OF inv p this]
  have "mset (in_use ?y') = mset (in_use y)"
    using effect ok i i4 by (simp add: in_use_def small_index)
  then have use: "set (in_use ?y') = set (in_use y)" "distinct (in_use ?y') = distinct (in_use y)"
    by (metis set_mset_mset, metis mset_eq_imp_distinct_iff)
  have same_notices: "notices ?y' = notices y" using effect ok by (simp add: notices_def)
  have "notices_ok ?y'"
    by (rule notices_ok_sub [of y]) (use inv use same_notices in \<open>simp_all add: pool_inv_def\<close>)
  then show "pool_inv p ?y'"
    using inv effect ok use same_notices by (simp add: pool_inv_def owned_ok_def)
qed

lemma cancel_keeps:
  assumes inv: "pool_inv p y" and p: "pool_ready p" and i: "i \<in> set (y_rendering y)"
  shows "pool_inv p (y\<lparr>y_ring := releaseBuffer (int i) p (y_ring y),
      y_rendering := remove1 i (y_rendering y)\<rparr>)" (is "pool_inv p ?y'")
proof -
  have used: "i \<in> set (in_use y)" using i by (simp add: in_use_def)
  have dist: "distinct (in_use y)" and count: "int i < mBufferCount p"
    using inv used by (auto simp: pool_inv_def owned_ok_def)
  have r: "releaseBuffer (int i) p (y_ring y) = (y_ring y)\<lparr>bufferState := (bufferState (y_ring y))[i := 0]\<rparr>"
    using p count by (simp add: releaseBuffer_def pool_ready_def)
  have use: "in_use ?y' = remove1 i (in_use y)"
    using i r by (simp add: in_use_def submitted_def remove1_append)
  have same_notices: "notices ?y' = notices y" using r by (simp add: notices_def released_def)
  have len: "i < length (bufferState (y_ring y))"
    using inv used_small [OF inv p used] by (simp add: pool_inv_def ring_ok_def MAX_BUFFERS_def)
  have "owned_ok p ?y'"
    unfolding owned_ok_def use same_notices
    using inv used dist len by (auto simp: pool_inv_def owned_ok_def r nth_list_update)
  moreover have "notices_ok ?y'"
    by (rule notices_ok_sub [of y]) (use inv use same_notices dist in \<open>auto simp: pool_inv_def\<close>)
  moreover have "ring_ok (releaseBuffer (int i) p (y_ring y))" using inv r by (simp add: pool_inv_def ring_ok_def)
  ultimately show ?thesis by (simp add: pool_inv_def)
qed

lemma take_keeps:
  assumes inv: "pool_inv p y" and run: "tryRead (y_ring y) = (Some s, r)"
  shows "pool_inv p (y\<lparr>y_ring := r, y_held := unat (rs_bufferIndex s) # y_held y\<rparr>)" (is "pool_inv p ?y'")
proof -
  have ring: "ring_ok (y_ring y)" using inv by (simp add: pool_inv_def)
  note effect = tryRead_ok [OF run ring]
  have "mset (in_use ?y') = mset (in_use y)"
    using effect by (auto simp: in_use_def split: list.splits)
  then have use: "set (in_use ?y') = set (in_use y)" "distinct (in_use ?y') = distinct (in_use y)"
    by (metis set_mset_mset, metis mset_eq_imp_distinct_iff)
  have same_notices: "notices ?y' = notices y" using effect by (simp add: notices_def)
  have "notices_ok ?y'"
    by (rule notices_ok_sub [of y]) (use inv use same_notices in \<open>simp_all add: pool_inv_def\<close>)
  then show ?thesis using inv effect use same_notices by (simp add: pool_inv_def owned_ok_def)
qed

lemma give_back_keeps:
  assumes inv: "pool_inv p y" and p: "pool_ready p" and b: "b \<in> set (y_held y)"
    and ix: "releaseWriteIndex (y_ring y) \<noteq> - 1"
    and run: "tryWriteRelease (of_nat b) (y_ring y) = Some (ok, r)"
  shows "ok" and "pool_inv p (y\<lparr>y_ring := r, y_held := remove1 b (y_held y)\<rparr>)" (is "pool_inv p ?y'")
proof -
  have ring: "ring_ok (y_ring y)" using inv by (simp add: pool_inv_def)
  note effect = tryWriteRelease_ok [OF run ring ix]
  show ok: "ok" using effect pool_inv_room(2) [OF inv p] by simp
  have used: "b \<in> set (in_use y)" using b by (simp add: in_use_def)
  note b4 = used_small [OF inv p used]
  have dist: "distinct (in_use y)" using inv by (simp add: pool_inv_def owned_ok_def)
  have "mset (in_use ?y') = mset (in_use y) - {#b#}"
    using effect b by (simp add: in_use_def)
  then have m: "mset (in_use ?y') = mset (remove1 b (in_use y))" by simp
  then have use: "set (in_use ?y') = set (in_use y) - {b}" "distinct (in_use ?y')"
    using dist by (metis set_mset_mset set_remove1_eq, metis mset_eq_imp_distinct_iff distinct_remove1)
  have same_notices: "notices ?y' = notices y @ [b]" using effect ok b4 by (simp add: notices_def small_index)
  have state: "bufferState r = (bufferState (y_ring y))[b := 0]" using effect ok b4 by (simp add: small_index)
  have len: "b < length (bufferState (y_ring y))"
    using ring b4 by (simp add: ring_ok_def MAX_BUFFERS_def)
  have "owned_ok p ?y'"
    unfolding owned_ok_def use same_notices
    using inv used use(2) len by (auto simp: pool_inv_def owned_ok_def state nth_list_update)
  moreover have "notices_ok ?y'"
  proof -
    obtain c where c: "distinct (remove1 c (notices y))" "set (remove1 c (notices y)) \<inter> set (in_use y) = {}"
        "y_drained y \<longrightarrow> c \<notin> set (notices y)"
      using inv by (auto simp: pool_inv_def notices_ok_def)
    show ?thesis
    proof (cases "c \<in> set (notices y)")
      case True
      then show ?thesis using c used
        unfolding notices_ok_def same_notices use(1) by (intro exI [of _ c]) (auto simp: remove1_append)
    next
      case False
      obtain n :: nat where "n \<notin> set (notices y @ [b])" using ex_new_if_finite [OF infinite_UNIV_nat] by blast
      then show ?thesis using c used False
        unfolding notices_ok_def same_notices use(1) by (intro exI [of _ n]) (auto simp: remove1_idem)
    qed
  qed
  ultimately show "pool_inv p ?y'" using effect by (simp add: pool_inv_def)
qed

lemma pool_step_inv: "pool_step p y y' \<Longrightarrow> pool_ready p \<Longrightarrow> pool_inv p y \<Longrightarrow> pool_inv p y'"
  by (erule pool_stepE)
    (use drain_keeps drained_keeps begin_keeps submit_keeps(2) cancel_keeps take_keeps give_back_keeps(2) in simp_all)

lemma pool_run_inv: "(pool_step p)\<^sup>*\<^sup>* pool_start y \<Longrightarrow> pool_ready p \<Longrightarrow> pool_inv p y"
  by (induction rule: rtranclp_induct) (auto intro: pool_inv_start pool_step_inv)

end
