(* ===== verification/Shared_Theorems.thy ===== *)
theory Shared_Theorems
  imports Shared_Pool
begin

text \<open>
  What the shared pool guarantees: exclusive buffers, no lost release, the newest frame for
  the HAL, complete or no reception, and format negotiation. Two error paths that keep
  resources are stated as what they are.
\<close>

section \<open>Exclusive buffers\<close>

text \<open>
  C16: whatever renderer and HAL do, each buffer has at most one owner, a frame
  being rendered, a submitted slot or a frame the HAL holds, and the shared ownership byte
  says free exactly when it has none.
\<close>

theorem shared_pool_ownership:
  assumes "pool_ready p" "(pool_step p)\<^sup>*\<^sup>* pool_start y"
  shows "distinct (in_use y) \<and>
    (\<forall>i. int i < mBufferCount p \<longrightarrow> isBufferFree (int i) p (y_ring y) = (i \<notin> set (in_use y)))"
  using pool_run_inv [OF assms(2,1)] assms(1)
  by (auto simp: pool_inv_def owned_ok_def isBufferFree_def pool_ready_def)

definition demo_pool :: pool where
  "demo_pool = pool_init\<lparr>mMapped := True, mControlRingFd := 20, mBufferCount := 2,
     mBuffers := [Some 50, Some 51, None, None]\<rparr>"

lemma demo_pool_ready: "pool_ready demo_pool"
  by (simp add: pool_ready_def demo_pool_def MAX_BUFFERS_def)

text \<open>The renderer drains and begins its first frame.\<close>

definition demo_begun :: pool_system where
  "demo_begun = \<lparr>y_ring = new_ring\<lparr>bufferState := [1, 0, 0, 0]\<rparr>, y_rendering = [0], y_held = [],
     y_drained = False\<rparr>"

lemma demo_begin_run: "(pool_step demo_pool)\<^sup>*\<^sup>* pool_start demo_begun"
proof -
  have "tryReadRelease (y_ring pool_start) = (None, new_ring)"
    by (simp add: pool_start_def tryReadRelease_def new_ring_def)
  from pool_step.drained [OF this]
  have one: "pool_step demo_pool pool_start (pool_start\<lparr>y_ring := new_ring, y_drained := True\<rparr>)" .
  have "acquireFreeBuffer demo_pool new_ring = (0, new_ring\<lparr>bufferState := [1, 0, 0, 0]\<rparr>)"
    by (simp add: acquireFreeBuffer_def demo_pool_def new_ring_def MAX_BUFFERS_def numeral_2_eq_2
        upt_conv_Cons eval_nat_numeral)
  then have two: "pool_step demo_pool (pool_start\<lparr>y_ring := new_ring, y_drained := True\<rparr>) demo_begun"
    using pool_step.begin_frame [of "pool_start\<lparr>y_ring := new_ring, y_drained := True\<rparr>" demo_pool 0]
    by (simp add: demo_begun_def pool_start_def)
  from one two show ?thesis by (meson converse_rtranclp_into_rtranclp rtranclp.rtrancl_refl)
qed

lemma shared_pool_ownership_witness: "distinct (in_use demo_begun) \<and> in_use demo_begun = [0]"
  using shared_pool_ownership [OF demo_pool_ready demo_begin_run]
  by (simp add: in_use_def demo_begun_def submitted_def new_ring_def)



section \<open>The newest frame\<close>

definition quiet :: "'w shared_env \<Rightarrow> bool" where
  "quiet E \<longleftrightarrow> (\<forall>r w. se_peer E r w = (r, w))"

text \<open>Room for \<open>n\<close> more release notices.\<close>

definition room_for :: "nat \<Rightarrow> control_ring \<Rightarrow> bool" where
  "room_for n r \<longleftrightarrow> length (released r) + n \<le> RING_SIZE \<and> n \<le> numbers_left (releaseWriteIndex r)"

definition valid_slot :: "ring_slot \<Rightarrow> bool" where
  "valid_slot s \<longleftrightarrow> unat (rs_bufferIndex s) < nat MAX_BUFFERS"

lemma skip_quiet:
  assumes "quiet E" "ring_ok r" "room_for (Suc n) r" "valid_slot s"
  shows "\<exists>r' w'. skip_frame E s h r w = Inr (h\<lparr>mDroppedFrames := mDroppedFrames h + 1\<rparr>, r', w') \<and>
    ring_ok r' \<and> room_for n r' \<and> submitted r' = submitted r \<and> released r' = released r @ [rs_bufferIndex s]"
proof -
  obtain ok r' where run: "tryWriteRelease (rs_bufferIndex s) r = Some (ok, r')"
    using tryWriteRelease_defined [of r "rs_bufferIndex s"] assms by (fastforce simp: valid_slot_def)
  have pos: "0 < numbers_left (releaseWriteIndex r)" using assms(3) by (simp add: room_for_def)
  note law = put_release_law [OF assms(2) pos run] tryWriteRelease_ok [OF run assms(2)]
  have "ok" using law(1) assms(3) by (simp add: room_for_def)
  then show ?thesis
    using run law assms(1,3) pos
    by (simp add: skip_frame_def quiet_def room_for_def numbers_left_pos Let_def)
qed

definition slots_of :: "ring_slot option \<Rightarrow> ring_slot list" where
  "slots_of latest = (case latest of None \<Rightarrow> [] | Some s \<Rightarrow> [s])"

lemma slots_of_simps [simp]: "slots_of None = []" "slots_of (Some s) = [s]"
  by (simp_all add: slots_of_def)

text \<open>What the drain of a quiet ring leaves: all of \<open>ss\<close> read, all but the last given back.\<close>

definition drained_to :: "ring_slot list \<Rightarrow> hal_iface \<Rightarrow> control_ring \<Rightarrow> hal_iface \<Rightarrow> control_ring \<Rightarrow> bool" where
  "drained_to ss h r h' r' \<longleftrightarrow> ring_ok r' \<and> submitted r' = [] \<and>
     h' = h\<lparr>mDroppedFrames := mDroppedFrames h + of_nat (length ss - 1)\<rparr> \<and>
     released r' = released r @ map rs_bufferIndex (butlast ss)"

lemma drain_quiet:
  assumes "quiet E"
  shows "ring_ok r \<Longrightarrow> submitted r = ss \<Longrightarrow> list_all valid_slot (slots_of latest @ ss) \<Longrightarrow>
    room_for (length (slots_of latest @ ss) - 1) r \<Longrightarrow> length ss < fuel \<Longrightarrow>
    \<exists>h' r' w'. drain_loop E fuel latest h r w =
      Inr (if ss = [] then latest else Some (last ss), h', r', w') \<and>
      drained_to (slots_of latest @ ss) h r h' r'"
proof (induction ss arbitrary: r h latest fuel w)
  case Nil
  obtain n where fuel: "fuel = Suc n" using Nil.prems(5) by (cases fuel) auto
  have "tryRead r = (None, r)"
    using tryRead_ok [of r "fst (tryRead r)" "snd (tryRead r)"] Nil.prems(1,2) by (simp add: prod_eq_iff)
  then have "drain_loop E fuel latest h r w = Inr (latest, h, r, w)"
    using assms by (simp add: fuel peer_read_def quiet_def)
  then show ?case using Nil.prems(1,2) by (cases latest) (auto simp: drained_to_def)
next
  case (Cons s ss)
  obtain n where fuel: "fuel = Suc n" using Cons.prems(5) by (cases fuel) auto
  obtain t r1 where read0: "tryRead r = (t, r1)" by fastforce
  have read: "tryRead r = (Some s, r1)" and r1: "ring_ok r1" "submitted r1 = ss"
      "released r1 = released r" "releaseWriteIndex r1 = releaseWriteIndex r"
    using tryRead_ok [OF read0 Cons.prems(1)] Cons.prems(2) read0 by simp_all
  have peer: "peer_read E r w = (Some s, r1, w)" using assms read by (simp add: peer_read_def quiet_def)
  show ?case
  proof (cases latest)
    case None
    obtain h' r' w' where "drain_loop E n (Some s) h r1 w =
        Inr (if ss = [] then Some s else Some (last ss), h', r', w')" "drained_to (s # ss) h r1 h' r'"
      using Cons.IH [OF r1(1,2), of "Some s" n h w] Cons.prems(3,4,5) None r1(3,4) fuel
      by (auto simp: room_for_def)
    then show ?thesis using peer None r1(3) by (simp add: fuel drained_to_def)
  next
    case (Some old)
    have room: "room_for (Suc (length ss)) r1" using Cons.prems(4) Some r1(3,4) by (simp add: room_for_def)
    have "valid_slot old" using Cons.prems(3) Some by simp
    from skip_quiet [OF assms r1(1) room this, of h w]
    obtain r2 w2 where skip: "skip_frame E old h r1 w =
        Inr (h\<lparr>mDroppedFrames := mDroppedFrames h + 1\<rparr>, r2, w2)" "ring_ok r2" "room_for (length ss) r2"
        "submitted r2 = ss" "released r2 = released r1 @ [rs_bufferIndex old]"
      using r1(2) by auto
    obtain h' r' w' where "drain_loop E n (Some s) (h\<lparr>mDroppedFrames := mDroppedFrames h + 1\<rparr>) r2 w2 =
        Inr (if ss = [] then Some s else Some (last ss), h', r', w')"
        "drained_to (s # ss) (h\<lparr>mDroppedFrames := mDroppedFrames h + 1\<rparr>) r2 h' r'"
      using Cons.IH [OF skip(2,4), of "Some s" n "h\<lparr>mDroppedFrames := mDroppedFrames h + 1\<rparr>" w2]
        Cons.prems(3,5) Some skip(3) fuel by auto
    then show ?thesis using peer Some skip r1(3) by (simp add: fuel drained_to_def)
  qed
qed

lemma small_signed: "0 \<le> k \<Longrightarrow> k < 4 \<Longrightarrow> signed_take_bit 31 k = k" for k :: int
  by (rule signed_take_bit_int_eq_self) simp_all

lemma sint_small:
  fixes x :: "32 word"
  assumes "unat x < 4"
  shows "sint x = int (unat x)"
proof -
  have u: "uint x = int (unat x)" by (rule uint_nat)
  have "signed_take_bit 31 (uint x) = uint x"
    unfolding u using assms by (intro small_signed) linarith+
  moreover have "sint x = signed_take_bit 31 (uint x)" by (simp add: sint_uint)
  ultimately show ?thesis by (simp only: u)
qed

text \<open>
  C18: as long as the renderer does not submit meanwhile, \<open>acquireLatestFrame\<close> returns
  the newest submitted frame, gives back the buffers of all older ones in their order,
  counts them as dropped, and leaves the ring empty. Fuel for one more round than there are
  slots suffices.
\<close>

theorem newest_frame:
  assumes "quiet E" "hi_ring h" "ring_ok r" "submitted r = ss @ [s]" "list_all valid_slot (ss @ [s])"
    and "room_for (length ss) r" "length ss + 1 < fuel"
  shows "\<exists>f h' r' w'. acquireLatestFrame E fuel timeout h r w = Inr (f, h', r', w') \<and>
    af_bufferIndex f = int (unat (rs_bufferIndex s)) \<and> af_timestampNs f = rs_timestampNs s \<and>
    submitted r' = [] \<and> released r' = released r @ map rs_bufferIndex ss \<and>
    mDroppedFrames h' = mDroppedFrames h + of_nat (length ss) \<and> mFrameCount h' = mFrameCount h + 1"
proof -
  obtain h1 r1 w1 where "drain_loop E fuel None h r w = Inr (Some s, h1, r1, w1)"
      "drained_to (ss @ [s]) h r h1 r1"
    using drain_quiet [OF assms(1,3,4), of None fuel h w] assms(5,6,7) by auto
  moreover have "sint (rs_bufferIndex s) = int (unat (rs_bufferIndex s))"
    using assms(5) by (intro sint_small) (simp add: valid_slot_def MAX_BUFFERS_def)
  ultimately show ?thesis
    using assms(2) by (auto simp: acquireLatestFrame_def finish_frame_def drained_to_def Let_def)
qed

definition demo_peer :: "unit shared_env" where
  "demo_peer = \<lparr>se_peer = (\<lambda>r w. (r, w)), se_close = (\<lambda>_ w. w), se_sync_wait = (\<lambda>_ _ w. (0, w)),
     se_usleep = (\<lambda>_ w. w)\<rparr>"

text \<open>Two frames submitted to a new ring.\<close>

definition demo_ring :: control_ring where
  "demo_ring = snd (tryWrite 1 (-1) 200 (snd (tryWrite 0 (-1) 100 new_ring)))"

lemma demo_ring_state:
  "ring_ok demo_ring" "released demo_ring = []" "releaseWriteIndex demo_ring = 0"
  "submitted demo_ring = [\<lparr>rs_bufferIndex = 0, rs_fenceFd = -1, rs_timestampNs = 100, rs_flags = 0\<rparr>,
     \<lparr>rs_bufferIndex = 1, rs_fenceFd = -1, rs_timestampNs = 200, rs_flags = 0\<rparr>]"
  by code_simp+

lemma newest_frame_witness:
  "\<exists>f h' r' w'. acquireLatestFrame demo_peer 3 16 (snd (iface_initialize demo_pool hal_iface_init)) demo_ring () =
      Inr (f, h', r', w') \<and> af_timestampNs f = 200 \<and> released r' = [0]"
proof -
  let ?h = "snd (iface_initialize demo_pool hal_iface_init)"
  have "hi_ring ?h" by (simp add: iface_initialize_def demo_pool_def)
  then show ?thesis
    using newest_frame [of demo_peer ?h demo_ring
        "[\<lparr>rs_bufferIndex = 0, rs_fenceFd = -1, rs_timestampNs = 100, rs_flags = 0\<rparr>]"
        "\<lparr>rs_bufferIndex = 1, rs_fenceFd = -1, rs_timestampNs = 200, rs_flags = 0\<rparr>" 3 16 "()"]
    by (auto simp: demo_ring_state quiet_def demo_peer_def valid_slot_def room_for_def RING_SIZE_def
        MAX_BUFFERS_def numbers_left_def unsigned_minus_1_eq_mask mask_eq_exp_minus_1)
qed

section \<open>Format negotiation\<close>

text \<open>
  A format the HAL requests reaches the renderer's next poll unchanged, once:
  the poll after that reports nothing.
\<close>

theorem negotiation_roundtrip:
  assumes "mMapped p" "rd_pool d = Some p'" "mMapped p'" "mLastNegotiationSeq d = neg_seq r"
  shows "\<exists>d'. checkNegotiation (requestFormat q p r) d = (Some q, d') \<and>
    checkNegotiation (requestFormat q p r) d' = (None, d')"
  using assms by (auto simp: checkNegotiation_def requestFormat_def)

lemma negotiation_roundtrip_witness:
  "fst (checkNegotiation (requestFormat \<lparr>fr_format = 1, fr_width = 1280, fr_height = 720, fr_usage = 256\<rparr>
     demo_pool new_ring) (renderer_init\<lparr>rd_pool := Some demo_pool\<rparr>)) =
   Some \<lparr>fr_format = 1, fr_width = 1280, fr_height = 720, fr_usage = 256\<rparr>"
  using negotiation_roundtrip [of demo_pool "renderer_init\<lparr>rd_pool := Some demo_pool\<rparr>" demo_pool new_ring
      "\<lparr>fr_format = 1, fr_width = 1280, fr_height = 720, fr_usage = 256\<rparr>"]
  by (auto simp: demo_pool_def renderer_init_def new_ring_def)

section \<open>Receiving buffers\<close>

lemma drop_received_effect:
  "fold (drop_received P) [0..<i] (bs, w) = (bs', w') \<Longrightarrow>
   length bs' = length bs \<and> (\<forall>j < length bs. bs' ! j = (if j < i then None else bs ! j))"
proof (induction i arbitrary: bs' w')
  case 0
  then show ?case by simp
next
  case (Suc i)
  obtain bs1 w1 where one: "fold (drop_received P) [0..<i] (bs, w) = (bs1, w1)" by fastforce
  then have "drop_received P i (bs1, w1) = (bs', w')" using Suc.prems by simp
  then have "bs' = bs1[i := None]" by (simp add: drop_received_def)
  then show ?case using Suc.IH [OF one] by (auto simp: nth_list_update less_Suc_eq)
qed

lemma recv_loop_effect:
  "recv_loop P socket [i..<n] bs w = (ok, bs', w') \<Longrightarrow> i \<le> n \<Longrightarrow> n \<le> length bs \<Longrightarrow>
   (\<forall>j < i. bs ! j \<noteq> None) \<Longrightarrow> (\<forall>j < length bs. i \<le> j \<longrightarrow> bs ! j = None) \<Longrightarrow>
   length bs' = length bs \<and>
   (\<forall>j < length bs. if ok then (bs' ! j \<noteq> None) = (j < n) else bs' ! j = None)"
proof (induction "n - i" arbitrary: i bs w)
  case 0
  then show ?case by auto
next
  case (Suc k)
  then have lt: "i < n" by simp
  then have up: "[i..<n] = i # [Suc i..<n]" by (rule upt_conv_Cons)
  obtain r w1 where recv: "pf_recv P socket w = (r, w1)" by fastforce
  show ?case
  proof (cases r)
    case None
    then show ?thesis
      using Suc.prems up recv drop_received_effect [of P i bs w1] by (auto split: prod.splits)
  next
    case (Some b)
    have "recv_loop P socket [Suc i..<n] (bs[i := Some b]) w1 = (ok, bs', w')"
      using Suc.prems(1) up recv Some by simp
    moreover have "k = n - Suc i" using Suc.hyps(2) by simp
    ultimately show ?thesis
      using Suc.hyps(1) [of "Suc i" "bs[i := Some b]" w1] Suc.prems lt
      by (auto simp: nth_list_update less_Suc_eq)
  qed
qed

lemma recvE:
  assumes "recvBuffersFrom P socket n config p w = (ok, p', w')"
    and "mBuffers p = replicate (nat MAX_BUFFERS) None"
  obtains (refused) "\<not> ok" "p' = p" "MAX_BUFFERS < n \<or> n \<le> 0 \<or> \<not> mMapped p"
  | (failed) "\<not> ok" "p' = p\<lparr>mConfig := config\<rparr>"
  | (received) bs where "ok" "mMapped p" "0 < n" "n \<le> MAX_BUFFERS"
      "p' = p\<lparr>mConfig := config, mBuffers := bs, mBufferCount := n\<rparr>"
      "length bs = nat MAX_BUFFERS" "\<forall>j < nat MAX_BUFFERS. (bs ! j \<noteq> None) = (j < nat n)"
proof (cases "MAX_BUFFERS < n \<or> n \<le> 0 \<or> \<not> mMapped p")
  case True
  then show thesis using assms refused by (auto simp: recvBuffersFrom_def split: if_splits)
next
  case False
  obtain bs w1 ok' where loop: "recv_loop P socket [0..<nat n] (mBuffers p) w = (ok', bs, w1)"
    by (metis prod_cases3)
  have "n \<le> 4" using False by (simp add: MAX_BUFFERS_def)
  then have len: "nat n \<le> length (mBuffers p)" using assms(2) by (simp add: MAX_BUFFERS_def nat_le_iff)
  have bs: "length bs = nat MAX_BUFFERS \<and>
      (\<forall>j < nat MAX_BUFFERS. if ok' then (bs ! j \<noteq> None) = (j < nat n) else bs ! j = None)"
    using recv_loop_effect [OF loop _ len] assms(2) by (cases ok') auto
  have res: "ok = ok'" "p' = (if ok' then p\<lparr>mConfig := config, mBuffers := bs, mBufferCount := n\<rparr>
      else p\<lparr>mConfig := config, mBuffers := bs\<rparr>)"
    using assms(1) loop False by (auto simp: recvBuffersFrom_def Let_def split: if_splits)
  show thesis
  proof (cases ok')
    case True
    then show thesis using res bs False by (intro received [of bs]) auto
  next
    case no: False
    then have "bs = mBuffers p" using bs assms(2) by (auto intro!: nth_equalityI)
    then show thesis using no res by (intro failed) simp_all
  qed
qed

lemma received_buffers:
  assumes "\<forall>j < nat MAX_BUFFERS. (mBuffers p ! j \<noteq> None) = (j < nat n)" "0 < n" "n \<le> MAX_BUFFERS"
    "mBufferCount p = n"
  shows "(getBuffer i p \<noteq> None) = (0 \<le> i \<and> i < n)"
  using assms by (auto simp: getBuffer_def MAX_BUFFERS_def)

text \<open>
  Into an empty pool, \<open>recvBuffersFrom\<close> either receives every announced
  buffer, and \<open>getBuffer\<close> then answers a buffer for exactly the announced indices, or it
  fails and the pool holds none.
\<close>

theorem receive_all_or_nothing:
  assumes "recvBuffersFrom P socket n config p w = (ok, p', w')"
    and "mBuffers p = replicate (nat MAX_BUFFERS) None" "mBufferCount p = 0"
  shows "(ok \<longrightarrow> mBufferCount p' = n \<and> (\<forall>i. (getBuffer i p' \<noteq> None) = (0 \<le> i \<and> i < n))) \<and>
    (\<not> ok \<longrightarrow> mBuffers p' = replicate (nat MAX_BUFFERS) None \<and> mBufferCount p' = 0)"
  using assms(1,2)
proof (cases rule: recvE)
  case (received bs)
  then show ?thesis using received_buffers [of p' n] by simp
qed (simp_all add: assms(2,3))

definition demo_platform :: "nat platform" where
  "demo_platform = \<lparr>pf_create = (\<lambda>w. (20, w)), pf_mmap = (\<lambda>_ w. (True, w)), pf_munmap = (\<lambda>w. w),
     pf_dup = (\<lambda>fd w. (fd + 1, w)), pf_close = (\<lambda>_ w. w),
     pf_allocate = (\<lambda>_ w. if w = 0 then (None, w) else (Some (w + 50), w - 1)),
     pf_release = (\<lambda>_ w. w), pf_recv = (\<lambda>_ w. if w = 0 then (None, w) else (Some (w + 50), w - 1)),
     pf_send = (\<lambda>_ _ w. (True, w))\<rparr>"

lemma receive_all_or_nothing_witness:
  "\<not> fst (recvBuffersFrom demo_platform 9 3 (mConfig pool_init) (pool_init\<lparr>mMapped := True\<rparr>) 2) \<and>
   mBuffers (fst (snd (recvBuffersFrom demo_platform 9 3 (mConfig pool_init) (pool_init\<lparr>mMapped := True\<rparr>) 2))) =
     replicate (nat MAX_BUFFERS) None"
proof -
  have no: "\<not> fst (recvBuffersFrom demo_platform 9 3 (mConfig pool_init) (pool_init\<lparr>mMapped := True\<rparr>) 2)"
    by code_simp
  obtain ok p' w' where run:
    "recvBuffersFrom demo_platform 9 3 (mConfig pool_init) (pool_init\<lparr>mMapped := True\<rparr>) 2 = (ok, p', w')"
    by (metis prod_cases3)
  show ?thesis
    using receive_all_or_nothing [OF run] no run by (simp add: pool_init_def)
qed

section \<open>Two error paths that keep resources\<close>

text \<open>
  When allocating a buffer fails after others were allocated, the \<open>release\<close>
  on the error path frees none of them, because it counts buffers by \<open>mBufferCount\<close>, which
  is still 0: the pool keeps them, and no later \<open>release\<close> frees them either.
\<close>

lemma release_none: "mBufferCount p = 0 \<Longrightarrow> mBuffers (fst (pool_release P p w)) = mBuffers p \<and>
    mBufferCount (fst (pool_release P p w)) = 0"
  by (simp add: pool_release_def Let_def)

theorem failed_allocate_leaks:
  assumes "pf_create P w = (fd, w1)" "0 \<le> fd" "pf_mmap P fd w1 = (True, w2)"
    and "0 < n" "n \<le> MAX_BUFFERS" "mBufferCount p = 0"
    and "allocate_loop P (allocate_config width height format n usage) [0..<nat n] (mBuffers p) w2 = (False, bs, w3)"
    and "pool_allocate P width height format n usage p r w = (ok, p', r', w')"
  shows "\<not> ok \<and> mBuffers p' = bs \<and> mBufferCount p' = 0 \<and>
    mBuffers (fst (pool_release P p' w'')) = bs"
proof -
  let ?p2 = "p\<lparr>mConfig := allocate_config width height format n usage, mControlRingFd := fd, mMapped := True\<rparr>"
  have "\<not> ok" "p' = fst (pool_release P (?p2\<lparr>mBuffers := bs\<rparr>) w3)"
    using assms by (auto simp: pool_allocate_def map_ring_def Let_def split: prod.splits)
  then show ?thesis using release_none [of "?p2\<lparr>mBuffers := bs\<rparr>" P w3] release_none [of p' P w''] assms(6)
    by simp
qed

lemma failed_allocate_leaks_witness:
  "mBuffers (fst (snd (pool_allocate demo_platform 640 480 1 3 0 pool_init new_ring 2))) ! 0 = Some 52"
proof -
  obtain ok p' r' w' where run: "pool_allocate demo_platform 640 480 1 3 0 pool_init new_ring 2 = (ok, p', r', w')"
    by (metis prod_cases4)
  have loop: "allocate_loop demo_platform (allocate_config 640 480 1 3 0) [0..<nat 3] (mBuffers pool_init) 2 =
      (False, [Some 52, Some 51, None, None], 0)"
    by (simp add: demo_platform_def pool_init_def MAX_BUFFERS_def upt_conv_Cons eval_nat_numeral)
  have start: "pf_create demo_platform 2 = (20, 2)" "pf_mmap demo_platform 20 2 = (True, 2)"
    by (simp_all add: demo_platform_def)
  show ?thesis
    using failed_allocate_leaks [OF start(1) _ start(2) _ _ _ loop run] run
    by (simp add: pool_init_def MAX_BUFFERS_def)
qed

end
