(* ===== verification/Frame_Source_V2.thy ===== *)
theory Frame_Source_V2
  imports Shared_Theorems
begin

text \<open>
  \<open>hal/core/VirtualCameraFrameSourceV2.{h,cpp}\<close>: the HAL's socket server for shared pools. A
  renderer connects, announces its pool in a header, passes the descriptor of the control
  ring, and then the buffers; after that the connection is closed and frames flow through
  the ring.
\<close>

record setup_header =
  h_magic :: "32 word"
  h_version :: "32 word"
  h_width :: int
  h_height :: int
  h_format :: int
  h_bufferCount :: int
  h_usage :: "64 word"

definition VCM2_MAGIC :: "32 word" where "VCM2_MAGIC = 0x56434D32"

definition VCM2_VERSION :: "32 word" where "VCM2_VERSION = 2"

record source_v2 =
  v_serverFd :: int
  v_running :: bool
  v_active :: bool
  v_pool :: pool
  v_iface :: hal_iface

definition source_v2_init :: source_v2 where
  "source_v2_init = \<lparr>v_serverFd = -1, v_running = False, v_active = False, v_pool = pool_init,
     v_iface = hal_iface_init\<rparr>"

text \<open>
  Sockets. A header is \<open>None\<close> when fewer bytes than its size arrive. A received message is
  its length and its first control message, whether it carries descriptors, and the
  descriptor in it.
\<close>

record 'w net =
  nt_socket :: "'w \<Rightarrow> int \<times> 'w"
  nt_unlink :: "'w \<Rightarrow> 'w"
  nt_bind :: "int \<Rightarrow> 'w \<Rightarrow> int \<times> 'w"
  nt_chmod :: "'w \<Rightarrow> 'w"
  nt_listen :: "int \<Rightarrow> 'w \<Rightarrow> int \<times> 'w"
  nt_shutdown :: "int \<Rightarrow> 'w \<Rightarrow> 'w"
  nt_accept :: "int \<Rightarrow> 'w \<Rightarrow> int \<times> 'w"
  nt_header :: "int \<Rightarrow> 'w \<Rightarrow> setup_header option \<times> 'w"
  nt_recvmsg :: "int \<Rightarrow> 'w \<Rightarrow> (int \<times> (bool \<times> int) option) \<times> 'w"
  nt_ack :: "int \<Rightarrow> 'w \<Rightarrow> 'w"
  nt_others :: "source_v2 \<Rightarrow> 'w \<Rightarrow> source_v2 \<times> 'w"

definition v2_start :: "'w net \<Rightarrow> 'w platform \<Rightarrow> source_v2 \<Rightarrow> 'w \<Rightarrow> bool \<times> source_v2 \<times> 'w" where
  "v2_start N P s w =
     (if v_running s then (True, s, w)
      else
        let (fd, w1) = nt_socket N w in
        if fd < 0 then (False, s\<lparr>v_serverFd := fd\<rparr>, w1)
        else
          let (b, w2) = nt_bind N fd (nt_unlink N w1) in
          if b < 0 then (False, s\<lparr>v_serverFd := -1\<rparr>, pf_close P fd w2)
          else
            let (l, w3) = nt_listen N fd (nt_chmod N w2) in
            if l < 0 then (False, s\<lparr>v_serverFd := -1\<rparr>, pf_close P fd w3)
            else (True, s\<lparr>v_serverFd := fd, v_running := True\<rparr>, w3))"

text \<open>The accept thread has been joined before the pool is released.\<close>

definition v2_stop :: "'w net \<Rightarrow> 'w platform \<Rightarrow> source_v2 \<Rightarrow> 'w \<Rightarrow> source_v2 \<times> 'w" where
  "v2_stop N P s w =
     (let w1 = (if 0 \<le> v_serverFd s then pf_close P (v_serverFd s) (nt_shutdown N (v_serverFd s) w) else w);
          (p, w2) = pool_release P (v_pool s) w1 in
      (s\<lparr>v_running := False, v_active := False, v_serverFd := -1, v_pool := p\<rparr>, nt_unlink N w2))"

definition receiveFdViaSCM :: "'w net \<Rightarrow> int \<Rightarrow> 'w \<Rightarrow> int \<times> 'w" where
  "receiveFdViaSCM N client w =
     (let ((n, cmsg), w1) = nt_recvmsg N client w in
      if n < 0 then (-1, w1)
      else case cmsg of
          Some (True, fd) \<Rightarrow> (fd, w1)
        | _ \<Rightarrow> (-1, w1))"

definition header_ok :: "setup_header \<Rightarrow> bool" where
  "header_ok h = (\<not> (h_magic h \<noteq> VCM2_MAGIC \<or> h_version h \<noteq> VCM2_VERSION) \<and>
     \<not> (h_bufferCount h \<le> 0 \<or> MAX_BUFFERS < h_bufferCount h))"

definition config_of_header :: "setup_header \<Rightarrow> pool_config" where
  "config_of_header h = \<lparr>pc_width = h_width h, pc_height = h_height h, pc_format = h_format h,
     pc_bufferCount = h_bufferCount h, pc_usage = h_usage h\<rparr>"

definition handleConnection :: "'w net \<Rightarrow> 'w platform \<Rightarrow> int \<Rightarrow> source_v2 \<Rightarrow> 'w \<Rightarrow> bool \<times> source_v2 \<times> 'w" where
  "handleConnection N P client s w = (case nt_header N client w of
       (None, w1) \<Rightarrow> (False, s, w1)
     | (Some h, w1) \<Rightarrow>
         if \<not> header_ok h then (False, s, w1)
         else
           let (ringFd, w2) = receiveFdViaSCM N client w1 in
           if ringFd < 0 then (False, s, w2)
           else
             let (p0, w3) = pool_release P (v_pool s) w2;
                 s0 = s\<lparr>v_active := False, v_pool := p0\<rparr>;
                 (attached, p1, w4) = attachControlRing P ringFd p0 w3;
                 w5 = pf_close P ringFd w4 in
             if \<not> attached then (False, s0\<lparr>v_pool := p1\<rparr>, w5)
             else
               let (received, p2, w6) = recvBuffersFrom P client (h_bufferCount h) (config_of_header h) p1 w5 in
               if \<not> received then let (p3, w7) = pool_release P p2 w6 in (False, s0\<lparr>v_pool := p3\<rparr>, w7)
               else
                 let (ready, i) = iface_initialize p2 (v_iface s) in
                 if \<not> ready then let (p3, w7) = pool_release P p2 w6 in
                   (False, s0\<lparr>v_pool := p3, v_iface := i\<rparr>, w7)
                 else (True, s0\<lparr>v_pool := p2, v_iface := i, v_active := True\<rparr>, nt_ack N client w6))"

definition accept_once :: "'w net \<Rightarrow> 'w platform \<Rightarrow> source_v2 \<Rightarrow> 'w \<Rightarrow> source_v2 \<times> 'w" where
  "accept_once N P s w =
     (let (client, w1) = nt_accept N (v_serverFd s) w in
      if client < 0 then (s, w1)
      else let (ok, s1, w2) = handleConnection N P client s w1 in (s1, pf_close P client w2))"

text \<open>
  The accept loop runs until another thread clears \<open>mRunning\<close>. \<open>None\<close>: still running after
  \<open>fuel\<close> rounds.
\<close>

fun acceptLoop :: "'w net \<Rightarrow> 'w platform \<Rightarrow> nat \<Rightarrow> source_v2 \<Rightarrow> 'w \<Rightarrow> (source_v2 \<times> 'w) option" where
  "acceptLoop N P 0 s w = None"
| "acceptLoop N P (Suc fuel) s w =
     (let (s1, w1) = nt_others N s w in
      if v_running s1 then let (s2, w2) = accept_once N P s1 w1 in acceptLoop N P fuel s2 w2
      else Some (s1, w1))"

definition getHalInterface :: "source_v2 \<Rightarrow> hal_iface option" where
  "getHalInterface s = (if v_active s then Some (v_iface s) else None)"

definition getConfig :: "source_v2 \<Rightarrow> (int \<times> int \<times> int) option" where
  "getConfig s = (if v_active s
     then Some (pc_width (mConfig (v_pool s)), pc_height (mConfig (v_pool s)), pc_format (mConfig (v_pool s)))
     else None)"

section \<open>An active source has a complete pool\<close>

definition pool_complete :: "pool \<Rightarrow> bool" where
  "pool_complete p \<longleftrightarrow> pool_ready p \<and> (\<forall>i. (getBuffer i p \<noteq> None) = (0 \<le> i \<and> i < mBufferCount p))"

definition source_ok :: "source_v2 \<Rightarrow> bool" where
  "source_ok s \<longleftrightarrow> length (mBuffers (v_pool s)) = nat MAX_BUFFERS \<and>
     0 \<le> mBufferCount (v_pool s) \<and> mBufferCount (v_pool s) \<le> MAX_BUFFERS \<and>
     (\<forall>j < nat MAX_BUFFERS. nat (mBufferCount (v_pool s)) \<le> j \<longrightarrow> mBuffers (v_pool s) ! j = None) \<and>
     (v_active s \<longrightarrow> pool_complete (v_pool s) \<and> hi_pool (v_iface s) = Some (v_pool s) \<and> hi_ring (v_iface s))"

lemma source_init_ok: "source_ok source_v2_init"
  by (simp add: source_ok_def source_v2_init_def pool_init_def MAX_BUFFERS_def)

lemma release_fold_effect:
  "fold (release_one P) [0..<i] (bs, w) = (bs', w') \<Longrightarrow> i \<le> length bs \<Longrightarrow>
   length bs' = length bs \<and> (\<forall>j < length bs. bs' ! j = (if j < i then None else bs ! j))"
proof (induction i arbitrary: bs' w')
  case 0
  then show ?case by simp
next
  case (Suc i)
  obtain bs1 w1 where one: "fold (release_one P) [0..<i] (bs, w) = (bs1, w1)" by fastforce
  note IH = Suc.IH [OF one]
  have "release_one P i (bs1, w1) = (bs', w')" using Suc.prems(1) one by simp
  then have "bs' = (case bs1 ! i of None \<Rightarrow> bs1 | Some b \<Rightarrow> bs1[i := None])"
    by (auto simp: release_one_def split: option.splits)
  then show ?case using IH Suc.prems(2) by (auto simp: nth_list_update less_Suc_eq split: option.splits)
qed

text \<open>Releasing a pool empties it.\<close>

lemma pool_release_empty:
  assumes run: "pool_release P p w = (p', w')" and len: "length (mBuffers p) = nat MAX_BUFFERS"
    and cnt: "0 \<le> mBufferCount p" "mBufferCount p \<le> MAX_BUFFERS"
    and rest: "\<forall>j < nat MAX_BUFFERS. nat (mBufferCount p) \<le> j \<longrightarrow> mBuffers p ! j = None"
  shows "mBuffers p' = replicate (nat MAX_BUFFERS) None \<and> mBufferCount p' = 0 \<and> \<not> mMapped p' \<and>
    mControlRingFd p' = -1"
proof -
  obtain bs w1 where fold: "fold (release_one P) [0..<nat (mBufferCount p)] (mBuffers p, w) = (bs, w1)"
    by fastforce
  have le: "nat (mBufferCount p) \<le> length (mBuffers p)" using len cnt by simp
  have p': "p' = p\<lparr>mBuffers := bs, mMapped := False, mControlRingFd := -1, mBufferCount := 0\<rparr>"
    using run fold by (simp add: pool_release_def Let_def)
  have "bs = replicate (nat MAX_BUFFERS) None"
    using release_fold_effect [OF fold le] len rest by (intro nth_equalityI) auto
  then show ?thesis using p' by simp
qed

lemma attach_effect:
  "attachControlRing P fd p w = (ok, p', w') \<Longrightarrow>
   mBuffers p' = mBuffers p \<and> mBufferCount p' = mBufferCount p \<and> (mMapped p' \<longrightarrow> ok \<or> mMapped p) \<and> (ok \<longrightarrow> mMapped p')"
  by (auto simp: attachControlRing_def map_ring_def Let_def split: prod.splits if_splits)

text \<open>What a connection leaves: the source as it was, an inactive empty one, or an active one.\<close>

lemma handleConnectionE:
  assumes run: "handleConnection N P client s w = (ok, s', w')" and s: "source_ok s"
  obtains (refused) "\<not> ok" "s' = s"
  | (failed) "\<not> ok" "\<not> v_active s'" "mBuffers (v_pool s') = replicate (nat MAX_BUFFERS) None"
      "mBufferCount (v_pool s') = 0"
  | (active) p h where "ok" "s' = s\<lparr>v_active := True, v_pool := p,
        v_iface := (v_iface s)\<lparr>hi_pool := Some p, hi_ring := True\<rparr>\<rparr>"
      "pool_complete p" "mConfig p = config_of_header h" "mBufferCount p = h_bufferCount h" "header_ok h"
      "length (mBuffers p) = nat MAX_BUFFERS"
      "\<forall>j < nat MAX_BUFFERS. nat (mBufferCount p) \<le> j \<longrightarrow> mBuffers p ! j = None"
proof (cases "nt_header N client w")
  case (Pair ho w1)
  note head = Pair
  show thesis
  proof (cases "ho = None \<or> \<not> header_ok (the ho) \<or> fst (receiveFdViaSCM N client w1) < 0")
    case True
    then show thesis
      using run head by (intro refused) (auto simp: handleConnection_def split: prod.splits option.splits if_splits)
  next
    case False
    then obtain h where h: "ho = Some h" "header_ok h" by auto
    obtain ringFd w2 where fd: "receiveFdViaSCM N client w1 = (ringFd, w2)" by fastforce
    obtain p0 w3 where rel: "pool_release P (v_pool s) w2 = (p0, w3)" by fastforce
    obtain attached p1 w4 where att: "attachControlRing P ringFd p0 w3 = (attached, p1, w4)" by (metis prod_cases3)
    obtain received p2 w6 where recv: "recvBuffersFrom P client (h_bufferCount h) (config_of_header h) p1
        (pf_close P ringFd w4) = (received, p2, w6)" by (metis prod_cases3)
    obtain p3 w7 where rel2: "pool_release P p2 w6 = (p3, w7)" by fastforce
    have p0: "mBuffers p0 = replicate (nat MAX_BUFFERS) None" "mBufferCount p0 = 0" "\<not> mMapped p0"
      using pool_release_empty [OF rel] s by (auto simp: source_ok_def)
    then have p1: "mBuffers p1 = replicate (nat MAX_BUFFERS) None" "mBufferCount p1 = 0" "mMapped p1 = attached"
      using attach_effect [OF att] by auto
    have steps: "(ok, s') = (if \<not> attached then (False, s\<lparr>v_active := False, v_pool := p1\<rparr>)
        else if \<not> received then (False, s\<lparr>v_active := False, v_pool := p3\<rparr>)
        else if \<not> mMapped p2 then (False, s\<lparr>v_active := False, v_pool := p3,
            v_iface := (v_iface s)\<lparr>hi_pool := Some p2, hi_ring := mMapped p2\<rparr>\<rparr>)
        else (True, s\<lparr>v_active := True, v_pool := p2,
            v_iface := (v_iface s)\<lparr>hi_pool := Some p2, hi_ring := mMapped p2\<rparr>\<rparr>))"
      using run head h fd rel att recv rel2 False
      by (auto simp: handleConnection_def iface_initialize_def Let_def split: if_splits)
    show thesis
    proof (cases "attached")
      case no: False
      then show thesis using steps p1 by (intro failed) auto
    next
      case att': True
      from recv p1(1) show thesis
      proof (cases rule: recvE)
        case refused
        then show thesis using p1 att' h by (auto simp: header_ok_def)
      next
        case failed': failed
        have "p3 = p2\<lparr>mBuffers := mBuffers p2, mMapped := False, mControlRingFd := -1, mBufferCount := 0\<rparr>"
          using rel2 failed' p1 by (auto simp: pool_release_def Let_def)
        then show thesis using steps att' failed' p1 by (intro failed) auto
      next
        case (received bs)
        have "pool_complete p2"
          using received received_buffers [of p2 "h_bufferCount h"]
          by (auto simp: pool_complete_def pool_ready_def)
        then show thesis
          using steps att' received h by (intro active [of p2 h]) auto
      qed
    qed
  qed
qed

lemma handleConnection_ok:
  assumes "handleConnection N P client s w = (ok, s', w')" "source_ok s"
  shows "source_ok s'"
  using assms
proof (cases rule: handleConnectionE)
  case failed
  then show ?thesis by (simp add: source_ok_def MAX_BUFFERS_def)
next
  case (active p h)
  then show ?thesis by (simp add: source_ok_def pool_complete_def pool_ready_def)
qed (use assms in simp)

lemma accept_once_ok: "source_ok s \<Longrightarrow> source_ok (fst (accept_once N P s w))"
  by (auto simp: accept_once_def Let_def split: prod.splits intro: handleConnection_ok)

lemma acceptLoop_ok:
  assumes others: "\<And>s w. source_ok s \<Longrightarrow> source_ok (fst (nt_others N s w))"
  shows "acceptLoop N P fuel s w = Some (s', w') \<Longrightarrow> source_ok s \<Longrightarrow> source_ok s'"
proof (induction fuel arbitrary: s w)
  case 0
  then show ?case by simp
next
  case (Suc fuel)
  obtain s1 w1 where o: "nt_others N s w = (s1, w1)" by fastforce
  have s1: "source_ok s1" using others [OF Suc.prems(2), of w] o by simp
  obtain s2 w2 where a: "accept_once N P s1 w1 = (s2, w2)" by fastforce
  then have "source_ok s2" using accept_once_ok [OF s1, of N P w1] by simp
  then show ?case using Suc.IH Suc.prems(1) o a s1 by (auto split: if_splits)
qed

lemma stop_ok:
  assumes "source_ok s" "v2_stop N P s w = (s', w')"
  shows "source_ok s' \<and> \<not> v_active s' \<and> \<not> mMapped (v_pool s')"
proof -
  obtain p w1 where rel: "pool_release P (v_pool s)
      (if 0 \<le> v_serverFd s then pf_close P (v_serverFd s) (nt_shutdown N (v_serverFd s) w) else w) = (p, w1)"
    by fastforce
  have "mBuffers p = replicate (nat MAX_BUFFERS) None \<and> mBufferCount p = 0 \<and> \<not> mMapped p"
    using pool_release_empty [OF rel] assms(1) by (auto simp: source_ok_def)
  then show ?thesis using assms(2) rel by (auto simp: v2_stop_def Let_def source_ok_def MAX_BUFFERS_def)
qed


text \<open>
  Renderers that announce two buffers; the world counts the buffers they can still send, and the
  server is told to stop when fewer than three are left.
\<close>

definition demo_header :: setup_header where
  "demo_header = \<lparr>h_magic = 0x56434D32, h_version = 2, h_width = 640, h_height = 480, h_format = 1,
     h_bufferCount = 2, h_usage = 256\<rparr>"

definition demo_net :: "nat net" where
  "demo_net = \<lparr>nt_socket = (\<lambda>w. (5, w)), nt_unlink = (\<lambda>w. w), nt_bind = (\<lambda>_ w. (0, w)), nt_chmod = (\<lambda>w. w),
     nt_listen = (\<lambda>_ w. (0, w)), nt_shutdown = (\<lambda>_ w. w), nt_accept = (\<lambda>_ w. (if w < 3 then -1 else 6, w)),
     nt_header = (\<lambda>_ w. (Some demo_header, w)), nt_recvmsg = (\<lambda>_ w. ((1, Some (True, 7)), w)),
     nt_ack = (\<lambda>_ w. w), nt_others = (\<lambda>s w. (if w < 3 then s\<lparr>v_running := False\<rparr> else s, w))\<rparr>"


end
