(* ===== verification/Frame_Source_V1.thy ===== *)
theory Frame_Source_V1
  imports Shared_Frames
begin

text \<open>
  The first transport: \<open>hal/core/VirtualCameraSocket.{h,cpp}\<close>, which receives one shared memory
  descriptor from a renderer, and \<open>hal/core/VirtualCameraFrameSource.{h,cpp}\<close>, which maps it
  and copies frames out. The renderer writes the header and the pixels of the mapping at any
  time; one call of the source sees one state of them.
\<close>

section \<open>The shared header\<close>

record frame_header =
  fh_magic :: "32 word"
  fh_version :: "32 word"
  fh_width :: "32 word"
  fh_height :: "32 word"
  fh_format :: "32 word"
  fh_stride :: "32 word"
  fh_frameNumber :: "64 word"
  fh_timestamp :: "64 word"
  fh_dataOffset :: "32 word"
  fh_dataSize :: "32 word"
  fh_flags :: "32 word"
  fh_requestedFormat :: "32 word"
  fh_requestedWidth :: "32 word"
  fh_requestedHeight :: "32 word"

definition VCMF_MAGIC :: "32 word" where "VCMF_MAGIC = 0x56434D46"

definition FLAG_RENDERER_ACTIVE :: "32 word" where "FLAG_RENDERER_ACTIVE = 2"

definition FORMAT_YUV_420 :: "32 word" where "FORMAT_YUV_420 = 2"

definition renderer_flag :: "frame_header \<Rightarrow> bool" where
  "renderer_flag h = (and (fh_flags h) FLAG_RENDERER_ACTIVE \<noteq> 0)"

text \<open>
  The kernel. \<open>k_header\<close> and \<open>k_bytes\<close> read the mapping of the source, \<open>k_store\<close> writes its
  header. A received message is its length, the size in its payload, and its first control
  message as in the second transport.
\<close>

type_synonym bytes = "int \<Rightarrow> 8 word"

record 'w kernel =
  k_socket :: "'w \<Rightarrow> int \<times> 'w"
  k_unlink :: "'w \<Rightarrow> 'w"
  k_bind :: "int \<Rightarrow> 'w \<Rightarrow> int \<times> 'w"
  k_chmod :: "'w \<Rightarrow> 'w"
  k_listen :: "int \<Rightarrow> 'w \<Rightarrow> int \<times> 'w"
  k_shutdown :: "int \<Rightarrow> 'w \<Rightarrow> 'w"
  k_accept :: "int \<Rightarrow> 'w \<Rightarrow> int \<times> 'w"
  k_recvmsg :: "int \<Rightarrow> 'w \<Rightarrow> (int \<times> nat \<times> (bool \<times> int) option) \<times> 'w"
  k_close :: "int \<Rightarrow> 'w \<Rightarrow> 'w"
  k_mmap :: "int \<Rightarrow> nat \<Rightarrow> 'w \<Rightarrow> bool \<times> 'w"
  k_munmap :: "nat \<Rightarrow> 'w \<Rightarrow> 'w"
  k_header :: "'w \<Rightarrow> frame_header"
  k_bytes :: "'w \<Rightarrow> bytes"
  k_store :: "frame_header \<Rightarrow> 'w \<Rightarrow> 'w"

section \<open>The frame source\<close>

record source_v1 =
  mShmFd :: int
  mMappedSize :: "nat option"
  mFrameData :: "nat option"
  mLastReadTimestamp :: "64 word"
  mServerFd :: int
  mSharedMemFd :: int
  mRunning :: bool

definition source_v1_init :: source_v1 where
  "source_v1_init = \<lparr>mShmFd = -1, mMappedSize = None, mFrameData = None, mLastReadTimestamp = 0,
     mServerFd = -1, mSharedMemFd = -1, mRunning = False\<rparr>"

definition unmapSharedMemory :: "'w kernel \<Rightarrow> source_v1 \<Rightarrow> 'w \<Rightarrow> source_v1 \<times> 'w" where
  "unmapSharedMemory Q s w =
     (let (s1, w1) = (case mMappedSize s of
            None \<Rightarrow> (s, w)
          | Some sz \<Rightarrow> (s\<lparr>mMappedSize := None, mFrameData := None\<rparr>, k_munmap Q sz w)) in
      if 0 \<le> mShmFd s1 then (s1\<lparr>mShmFd := -1\<rparr>, k_close Q (mShmFd s1) w1) else (s1, w1))"

text \<open>
  Map, check the magic number and the data offset. On a failure the mapping is undone; the
  frame data pointer of an earlier mapping was cleared before.
\<close>

definition mapSharedMemory :: "'w kernel \<Rightarrow> int \<Rightarrow> nat \<Rightarrow> source_v1 \<Rightarrow> 'w \<Rightarrow> bool \<times> source_v1 \<times> 'w" where
  "mapSharedMemory Q fd sz s w =
     (let (ok, w1) = k_mmap Q fd sz w in
      if \<not> ok then (False, s\<lparr>mMappedSize := None\<rparr>, w1)
      else
        let h = k_header Q w1 in
        if fh_magic h \<noteq> VCMF_MAGIC then (False, s\<lparr>mMappedSize := None\<rparr>, k_munmap Q sz w1)
        else if sz \<le> unat (fh_dataOffset h) then (False, s\<lparr>mMappedSize := None\<rparr>, k_munmap Q sz w1)
        else (True, s\<lparr>mMappedSize := Some sz, mFrameData := Some (unat (fh_dataOffset h))\<rparr>, w1))"

definition onFdReceived :: "'w kernel \<Rightarrow> int \<Rightarrow> nat \<Rightarrow> source_v1 \<Rightarrow> 'w \<Rightarrow> source_v1 \<times> 'w" where
  "onFdReceived Q fd sz s w =
     (let (s1, w1) = unmapSharedMemory Q s w;
          (ok, s2, w2) = mapSharedMemory Q fd sz s1 w1 in
      if \<not> ok then (s2, k_close Q fd w2) else (s2\<lparr>mShmFd := fd\<rparr>, w2))"

definition isRendererActive :: "'w kernel \<Rightarrow> source_v1 \<Rightarrow> 'w \<Rightarrow> bool" where
  "isRendererActive Q s w = (mMappedSize s \<noteq> None \<and> renderer_flag (k_header Q w))"

record v1_frame =
  vf_data :: bytes
  vf_dataSize :: nat
  vf_width :: "32 word"
  vf_height :: "32 word"
  vf_timestamp :: "64 word"

text \<open>
  The size of the data is checked against the destination. \<open>OutOfBounds\<close> is the copy that
  reads past the end of the mapping, undefined in C++.
\<close>

definition acquireFrame :: "'w kernel \<Rightarrow> nat \<Rightarrow> source_v1 \<Rightarrow> 'w \<Rightarrow> (v1_frame option \<times> source_v1) outcome" where
  "acquireFrame Q destSize s w = (case (mMappedSize s, mFrameData s) of
       (Some sz, Some offset) \<Rightarrow>
         let h = k_header Q w in
         if \<not> renderer_flag h then Inr (None, s)
         else
           let s1 = s\<lparr>mLastReadTimestamp := fh_timestamp h\<rparr>; n = unat (fh_dataSize h) in
           if destSize < n then Inr (None, s1)
           else if sz < offset + n then Inl OutOfBounds
           else Inr (Some \<lparr>vf_data = (\<lambda>i. if 0 \<le> i \<and> i < int n then k_bytes Q w (int offset + i) else 0),
                  vf_dataSize = n, vf_width = fh_width h, vf_height = fh_height h,
                  vf_timestamp = fh_timestamp h\<rparr>, s1)
     | _ \<Rightarrow> Inr (None, s))"

definition getFrameInfo :: "'w kernel \<Rightarrow> source_v1 \<Rightarrow> 'w \<Rightarrow> (32 word \<times> 32 word \<times> 32 word) option" where
  "getFrameInfo Q s w =
     (if mMappedSize s = None then None
      else let h = k_header Q w in Some (fh_width h, fh_height h, fh_format h))"

definition v1_requestFormat :: "'w kernel \<Rightarrow> 32 word \<Rightarrow> 32 word \<Rightarrow> 32 word \<Rightarrow> source_v1 \<Rightarrow> 'w \<Rightarrow> 'w" where
  "v1_requestFormat Q format width height s w =
     (if mMappedSize s = None then w
      else k_store Q ((k_header Q w)\<lparr>fh_requestedFormat := format, fh_requestedWidth := width,
        fh_requestedHeight := height\<rparr>) w)"

section \<open>The socket\<close>

definition v1_start :: "'w kernel \<Rightarrow> source_v1 \<Rightarrow> 'w \<Rightarrow> bool \<times> source_v1 \<times> 'w" where
  "v1_start Q s w =
     (if mRunning s then (True, s, w)
      else
        let (fd, w1) = k_socket Q w in
        if fd < 0 then (False, s\<lparr>mServerFd := fd\<rparr>, w1)
        else
          let (b, w2) = k_bind Q fd (k_unlink Q w1) in
          if b < 0 then (False, s\<lparr>mServerFd := -1\<rparr>, k_close Q fd w2)
          else
            let (l, w3) = k_listen Q fd (k_chmod Q w2) in
            if l < 0 then (False, s\<lparr>mServerFd := -1\<rparr>, k_close Q fd w3)
            else (True, s\<lparr>mServerFd := fd, mRunning := True\<rparr>, w3))"

text \<open>The size is a \<open>size_t\<close>, eight bytes.\<close>

definition receiveFd :: "'w kernel \<Rightarrow> int \<Rightarrow> 'w \<Rightarrow> (int \<times> nat) \<times> 'w" where
  "receiveFd Q client w =
     (let ((n, sz, cmsg), w1) = k_recvmsg Q client w in
      if n < 0 then ((-1, 0), w1)
      else if n \<noteq> 8 then ((-1, 0), w1)
      else case cmsg of
          Some (True, fd) \<Rightarrow> ((fd, sz), w1)
        | _ \<Rightarrow> ((-1, 0), w1))"

definition v1_accept_once :: "'w kernel \<Rightarrow> source_v1 \<Rightarrow> 'w \<Rightarrow> source_v1 \<times> 'w" where
  "v1_accept_once Q s w =
     (let (client, w1) = k_accept Q (mServerFd s) w in
      if client < 0 then (s, w1)
      else
        let ((shmFd, sz), w2) = receiveFd Q client w1;
            w3 = k_close Q client w2 in
        if 0 \<le> shmFd then
          let oldFd = mSharedMemFd s;
              w4 = (if 0 \<le> oldFd then k_close Q oldFd w3 else w3) in
          onFdReceived Q shmFd sz (s\<lparr>mSharedMemFd := shmFd\<rparr>) w4
        else (s, w3))"

definition socket_stop :: "'w kernel \<Rightarrow> source_v1 \<Rightarrow> 'w \<Rightarrow> source_v1 \<times> 'w" where
  "socket_stop Q s w =
     (let w1 = (if 0 \<le> mServerFd s then k_close Q (mServerFd s) (k_shutdown Q (mServerFd s) w) else w);
          w2 = (if 0 \<le> mSharedMemFd s then k_close Q (mSharedMemFd s) w1 else w1) in
      (s\<lparr>mRunning := False, mServerFd := -1, mSharedMemFd := -1\<rparr>, k_unlink Q w2))"

definition v1_stop :: "'w kernel \<Rightarrow> source_v1 \<Rightarrow> 'w \<Rightarrow> source_v1 \<times> 'w" where
  "v1_stop Q s w = (let (s1, w1) = socket_stop Q s w in unmapSharedMemory Q s1 w1)"

section \<open>What the mapping guarantees\<close>

text \<open>A mapped source has its data inside the mapping and its descriptor open.\<close>

definition mapped_ok :: "source_v1 \<Rightarrow> bool" where
  "mapped_ok s \<longleftrightarrow> (case mMappedSize s of
       None \<Rightarrow> mFrameData s = None
     | Some sz \<Rightarrow> (\<exists>offset. mFrameData s = Some offset \<and> offset < sz))"

lemma unmap_effect:
  "unmapSharedMemory Q s w = (s', w') \<Longrightarrow> mapped_ok s \<Longrightarrow>
   mMappedSize s' = None \<and> mFrameData s' = None \<and> mShmFd s' < 0 \<and> mSharedMemFd s' = mSharedMemFd s"
  by (auto simp: unmapSharedMemory_def mapped_ok_def Let_def split: option.splits if_splits)

lemma onFdReceived_ok:
  assumes "onFdReceived Q fd sz s w = (s', w')" "mapped_ok s"
  shows "mapped_ok s' \<and> (mMappedSize s' \<noteq> None \<longrightarrow> mShmFd s' = fd \<and> mMappedSize s' = Some sz)"
proof -
  obtain s1 w1 where un: "unmapSharedMemory Q s w = (s1, w1)" by fastforce
  note e = unmap_effect [OF un assms(2)]
  show ?thesis
    using assms(1) un e
    by (auto simp: onFdReceived_def mapSharedMemory_def mapped_ok_def Let_def split: if_splits prod.splits)
qed

lemma onFdReceived_mapped: "mapped_ok s \<Longrightarrow> mapped_ok (fst (onFdReceived Q fd sz s w))"
  by (metis onFdReceived_ok prod.collapse)

lemma mapped_ok_fd [simp]: "mapped_ok (s\<lparr>mSharedMemFd := fd\<rparr>) = mapped_ok s"
  by (cases "mMappedSize s") (simp_all add: mapped_ok_def)

lemma accept_once_mapped: "mapped_ok s \<Longrightarrow> mapped_ok (fst (v1_accept_once Q s w))"
  by (simp add: v1_accept_once_def Let_def onFdReceived_mapped split: prod.splits)

text \<open>
  A frame handed out fits the caller's buffer, its bytes are the mapping's
  bytes from the announced offset, all of them inside the mapping.
\<close>

theorem v1_frame_within_mapping:
  assumes "mapped_ok s" "acquireFrame Q destSize s w = Inr (Some f, s')"
  shows "vf_dataSize f \<le> destSize \<and> (\<exists>sz offset. mMappedSize s = Some sz \<and> mFrameData s = Some offset \<and>
    offset + vf_dataSize f \<le> sz \<and>
    (\<forall>i. 0 \<le> i \<and> i < int (vf_dataSize f) \<longrightarrow> vf_data f i = k_bytes Q w (int offset + i)))"
  using assms by (auto simp: acquireFrame_def mapped_ok_def Let_def split: option.splits if_splits)

text \<open>
  The data size comes from the renderer and is not compared with the
  mapping: a size that fits the caller's buffer but not the mapping makes the copy read past
  the end of the shared memory.
\<close>

theorem v1_oversized_frame_overreads:
  assumes "mMappedSize s = Some sz" "mFrameData s = Some offset" "renderer_flag (k_header Q w)"
    and "sz < offset + unat (fh_dataSize (k_header Q w))" "unat (fh_dataSize (k_header Q w)) \<le> destSize"
  shows "acquireFrame Q destSize s w = Inl OutOfBounds"
  using assms by (simp add: acquireFrame_def Let_def)

section \<open>Two owners of one descriptor\<close>

text \<open>
  The socket and the frame source both keep a received descriptor and both
  close it. When a second renderer connects, the socket closes the descriptor of the first,
  and the source then closes the same number again, after the new descriptor has been
  received.
\<close>

theorem v1_descriptor_closed_twice:
  assumes "0 \<le> a" "mSharedMemFd s = a" "mShmFd s = a" "mMappedSize s = Some old"
    and "k_accept Q (mServerFd s) w = (client, w1)" "0 \<le> client"
    and "receiveFd Q client w1 = ((b, sz), w2)" "0 \<le> b"
  shows "v1_accept_once Q s w =
    (let w3 = k_close Q a (k_munmap Q old (k_close Q a (k_close Q client w2)));
         (ok, s2, w4) = mapSharedMemory Q b sz
            (s\<lparr>mSharedMemFd := b, mMappedSize := None, mFrameData := None, mShmFd := -1\<rparr>) w3 in
     if \<not> ok then (s2, k_close Q b w4) else (s2\<lparr>mShmFd := b\<rparr>, w4))"
  using assms by (simp add: v1_accept_once_def onFdReceived_def unmapSharedMemory_def Let_def)

section \<open>A demo kernel\<close>

text \<open>It logs the closed descriptors; every message brings descriptor 30 with size 64.\<close>

definition demo_v1_header :: frame_header where
  "demo_v1_header = \<lparr>fh_magic = 0x56434D46, fh_version = 1, fh_width = 2, fh_height = 2, fh_format = 1,
     fh_stride = 8, fh_frameNumber = 1, fh_timestamp = 9, fh_dataOffset = 16, fh_dataSize = 16,
     fh_flags = 2, fh_requestedFormat = 0, fh_requestedWidth = 0, fh_requestedHeight = 0\<rparr>"

definition demo_kernel :: "32 word \<Rightarrow> int list kernel" where
  "demo_kernel n = \<lparr>k_socket = (\<lambda>w. (3, w)), k_unlink = (\<lambda>w. w), k_bind = (\<lambda>_ w. (0, w)), k_chmod = (\<lambda>w. w),
     k_listen = (\<lambda>_ w. (0, w)), k_shutdown = (\<lambda>_ w. w), k_accept = (\<lambda>_ w. (4, w)),
     k_recvmsg = (\<lambda>_ w. ((8, 64, Some (True, 30)), w)), k_close = (\<lambda>fd w. w @ [fd]),
     k_mmap = (\<lambda>_ _ w. (True, w)), k_munmap = (\<lambda>_ w. w),
     k_header = (\<lambda>w. demo_v1_header\<lparr>fh_dataSize := n\<rparr>), k_bytes = (\<lambda>w i. word_of_int i),
     k_store = (\<lambda>_ w. w)\<rparr>"

definition demo_v1 :: source_v1 where
  "demo_v1 = source_v1_init\<lparr>mShmFd := 20, mSharedMemFd := 20, mMappedSize := Some 64, mFrameData := Some 16,
     mServerFd := 3, mRunning := True\<rparr>"

lemmas demo_v1_defs = demo_kernel_def demo_v1_def demo_v1_header_def source_v1_init_def

lemma v1_frame_within_mapping_witness:
  "\<exists>f s'. acquireFrame (demo_kernel 16) 16 demo_v1 [] = Inr (Some f, s') \<and> vf_dataSize f \<le> 16"
proof -
  have ok: "mapped_ok demo_v1" by (simp add: mapped_ok_def demo_v1_defs)
  obtain f s' where run: "acquireFrame (demo_kernel 16) 16 demo_v1 [] = Inr (Some f, s')"
    by (simp add: acquireFrame_def demo_v1_defs renderer_flag_def FLAG_RENDERER_ACTIVE_def)
  show ?thesis using v1_frame_within_mapping [OF ok run] run by simp
qed

lemma v1_oversized_frame_overreads_witness:
  "acquireFrame (demo_kernel 100) 128 demo_v1 [] = Inl OutOfBounds"
  by (rule v1_oversized_frame_overreads [of _ 64 16])
    (simp_all add: demo_v1_defs renderer_flag_def FLAG_RENDERER_ACTIVE_def)

lemma v1_descriptor_closed_twice_witness: "snd (v1_accept_once (demo_kernel 16) demo_v1 []) = [4, 20, 20]"
  using v1_descriptor_closed_twice [of 20 demo_v1 64 "demo_kernel 16" "[]" 4 "[]" 30 64 "[]"]
  by (simp add: demo_v1_defs receiveFd_def mapSharedMemory_def VCMF_MAGIC_def)

end
