(* ===== verification/Shared_Progress.thy ===== *)
theory Shared_Progress
  imports Shared_Theorems
begin

text \<open>
  Progress of the shared pool: the renderer is never starved for good, since the HAL can give
  every buffer that was submitted back through the release ring.
\<close>

text \<open>Reading the release ring to its end changes nothing but the ring's notices.\<close>

lemma drains_to_end:
  assumes "pool_ready p"
  shows "pool_inv p y \<Longrightarrow> \<exists>y'. (pool_step p)\<^sup>*\<^sup>* y y' \<and> y_drained y' \<and> y_rendering y' = y_rendering y \<and>
    bufferState (y_ring y') = bufferState (y_ring y) \<and> pool_inv p y'"
proof (induction "length (released (y_ring y))" arbitrary: y)
  case 0
  obtain s r where read: "tryReadRelease (y_ring y) = (s, r)" by fastforce
  have "s = None" "r = y_ring y"
    using tryReadRelease_ok [OF read] 0 by (simp_all add: pool_inv_def)
  then have one: "pool_step p y (y\<lparr>y_ring := r, y_drained := True\<rparr>)" using read pool_step.drained by blast
  then show ?case
    using pool_step_inv [OF one assms 0(2)] \<open>r = y_ring y\<close> by (intro exI [of _ "y\<lparr>y_ring := r, y_drained := True\<rparr>"]) auto
next
  case (Suc n)
  obtain s r where read: "tryReadRelease (y_ring y) = (s, r)" by fastforce
  obtain b where s: "s = Some b" "n = length (released r)" "bufferState r = bufferState (y_ring y)"
    using tryReadRelease_ok [OF read] Suc(2,3) by (auto simp: pool_inv_def split: list.splits)
  define y1 where "y1 = y\<lparr>y_ring := r, y_drained := False\<rparr>"
  have one: "pool_step p y y1" using read s(1) pool_step.drain unfolding y1_def by blast
  have "pool_inv p y1" by (rule pool_step_inv [OF one assms Suc(3)])
  then obtain y' where "(pool_step p)\<^sup>*\<^sup>* y1 y'" "y_drained y'" "y_rendering y' = y_rendering y1"
      "bufferState (y_ring y') = bufferState (y_ring y1)" "pool_inv p y'"
    using Suc(1) [of y1] s(2) by (auto simp: y1_def)
  then show ?case
    using one s(3) by (intro exI [of _ y']) (auto simp: y1_def intro: converse_rtranclp_into_rtranclp)
qed

text \<open>With a free buffer the renderer begins a frame.\<close>

lemma free_buffer_begins:
  assumes "pool_ready p" "pool_inv p y" "int i < mBufferCount p" "i \<notin> set (in_use y)"
  shows "\<exists>y' b. (pool_step p)\<^sup>*\<^sup>* y y' \<and> y_rendering y' = b # y_rendering y"
proof -
  obtain y1 where run: "(pool_step p)\<^sup>*\<^sup>* y y1" and y1: "y_drained y1" "y_rendering y1 = y_rendering y"
      "bufferState (y_ring y1) = bufferState (y_ring y)"
    using drains_to_end [OF assms(1,2)] by blast
  have free: "bufferState (y_ring y1) ! i = 0" using assms(2,3,4) y1(3) by (simp add: pool_inv_def owned_ok_def)
  obtain b r where take: "acquireFreeBuffer p (y_ring y1) = (b, r)" by fastforce
  then have "acquire_from [0..<nat (mBufferCount p)] (y_ring y1) = (b, r)"
    using assms(1) by (simp add: acquireFreeBuffer_def pool_ready_def)
  from acquire_from_result [OF this] have "0 \<le> b" using free assms(3) by auto
  then have "pool_step p y1 (y1\<lparr>y_ring := r, y_drained := False, y_rendering := nat b # y_rendering y1\<rparr>)"
    using pool_step.begin_frame [OF y1(1) take] by simp
  then show ?thesis
    using run y1(2) by (intro exI [of _ "y1\<lparr>y_ring := r, y_drained := False, y_rendering := nat b # y_rendering y1\<rparr>"]) auto
qed

text \<open>The HAL gives a buffer back that it holds; then that buffer is free.\<close>

lemma gives_back:
  assumes "pool_ready p" "pool_inv p y" "b \<in> set (y_held y)" "releaseWriteIndex (y_ring y) \<noteq> - 1"
  shows "\<exists>y'. pool_step p y y' \<and> pool_inv p y' \<and> y_rendering y' = y_rendering y \<and> b \<notin> set (in_use y') \<and>
    int b < mBufferCount p"
proof -
  have used: "b \<in> set (in_use y)" using assms(3) by (simp add: in_use_def)
  note b4 = used_small [OF assms(2,1) used]
  obtain ok r where run: "tryWriteRelease (of_nat b) (y_ring y) = Some (ok, r)"
    using tryWriteRelease_defined [of "y_ring y" "of_nat b"] assms(2) b4
    by (fastforce simp: pool_inv_def MAX_BUFFERS_def small_index)
  let ?y' = "y\<lparr>y_ring := r, y_held := remove1 b (y_held y)\<rparr>"
  have step: "pool_step p y ?y'" by (rule pool_step.give_back [OF assms(3,4) run])
  have ring: "ring_ok (y_ring y)" and dist: "distinct (in_use y)" and small: "int b < mBufferCount p"
    using assms(2) used by (auto simp: pool_inv_def owned_ok_def)
  have "submitted r = submitted (y_ring y)" using tryWriteRelease_ok [OF run ring assms(4)] by simp
  then have "b \<notin> set (in_use ?y')" using dist assms(3) by (auto simp: in_use_def)
  moreover have "pool_inv p ?y'" by (rule pool_step_inv [OF step assms(1,2)])
  ultimately show ?thesis using step small by (intro exI [of _ ?y']) simp
qed

lemma takes_submitted:
  assumes "pool_ready p" "pool_inv p y" "submitted (y_ring y) \<noteq> []"
  shows "\<exists>y' b. pool_step p y y' \<and> pool_inv p y' \<and> y_rendering y' = y_rendering y \<and> b \<in> set (y_held y') \<and>
    releaseWriteIndex (y_ring y') = releaseWriteIndex (y_ring y)"
proof -
  obtain s r where read: "tryRead (y_ring y) = (s, r)" by fastforce
  then obtain t where t: "tryRead (y_ring y) = (Some t, r)" "releaseWriteIndex r = releaseWriteIndex (y_ring y)"
    using tryRead_ok [OF read] assms(2,3) by (auto simp: pool_inv_def split: list.splits)
  from pool_step.take [OF t(1)] show ?thesis
    using pool_step_inv [OF pool_step.take [OF t(1)] assms(1,2)] t(2)
    by (intro exI [of _ "y\<lparr>y_ring := r, y_held := unat (rs_bufferIndex t) # y_held y\<rparr>"]
        exI [of _ "unat (rs_bufferIndex t)"]) simp
qed

lemma unused_buffer:
  assumes "pool_inv p y" "int (length (in_use y)) < mBufferCount p"
  shows "\<exists>i. int i < mBufferCount p \<and> i \<notin> set (in_use y)"
proof (rule ccontr)
  assume "\<not> ?thesis"
  then have "{..<nat (mBufferCount p)} \<subseteq> set (in_use y)" by auto
  then have "nat (mBufferCount p) \<le> card (set (in_use y))" by (metis card_lessThan card_mono List.finite_set)
  then show False using card_length [of "in_use y"] assms(2) by linarith
qed



end
