(* ===== verification/Frame_Filler.thy ===== *)
theory Frame_Filler
  imports Frame_Source_V1 Frame_Source_V2
begin

text \<open>
  \<open>hal/core/FrameFiller.{h,cpp}\<close>: filling a YCbCr output buffer on the CPU, from frames of the
  socket renderer, from a shared pool, or from a single hardware buffer. The target's memory is a map from
  addresses to bytes. A source is a different buffer, locked for reading, so its memory is
  another map that does not change. Indices are computed in unbounded integers: the code's
  \<open>int\<close> and \<open>uint32_t\<close> products stay in range for buffers that fit their address space.
\<close>

type_synonym mem = "int \<Rightarrow> 8 word"

section \<open>BT.601\<close>

text \<open>The right shift of a negative \<open>int\<close> is arithmetic, rounding down like \<open>div\<close>.\<close>

definition clamp8 :: "int \<Rightarrow> 8 word" where
  "clamp8 v = word_of_int (min 255 (max 0 v))"

definition luma :: "int \<Rightarrow> int \<Rightarrow> int \<Rightarrow> int" where
  "luma r g b = (66 * r + 129 * g + 25 * b + 128) div 256 + 16"

definition chroma_blue :: "int \<Rightarrow> int \<Rightarrow> int \<Rightarrow> int" where
  "chroma_blue r g b = (-38 * r - 74 * g + 112 * b + 128) div 256 + 128"

definition chroma_red :: "int \<Rightarrow> int \<Rightarrow> int \<Rightarrow> int" where
  "chroma_red r g b = (112 * r - 94 * g - 18 * b + 128) div 256 + 128"

definition rgbaToYuv :: "8 word \<Rightarrow> 8 word \<Rightarrow> 8 word \<Rightarrow> 8 word \<times> 8 word \<times> 8 word" where
  "rgbaToYuv r g b = (clamp8 (luma (uint r) (uint g) (uint b)),
     clamp8 (chroma_blue (uint r) (uint g) (uint b)), clamp8 (chroma_red (uint r) (uint g) (uint b)))"

section \<open>Loops and planes\<close>

definition for_range :: "int \<Rightarrow> (int \<Rightarrow> 's \<Rightarrow> 's) \<Rightarrow> 's \<Rightarrow> 's" where
  "for_range n body = fold (\<lambda>i. body (int i)) [0..<nat n]"

definition memcpy :: "int \<Rightarrow> int \<Rightarrow> int \<Rightarrow> mem \<Rightarrow> mem \<Rightarrow> mem" where
  "memcpy dst src n s = for_range n (\<lambda>i m. m(dst + i := s (src + i)))"

text \<open>A locked YCbCr target, and the planes of a locked YCbCr source.\<close>

record ycbcr =
  yc_y :: int
  yc_cb :: int
  yc_cr :: int
  yc_ystride :: int
  yc_cstride :: int
  yc_chroma_step :: int

record src_planes =
  sp_y :: int
  sp_cb :: int
  sp_cr :: int
  sp_yStride :: int
  sp_cStride :: int
  sp_cPixelStride :: int

record ahb_desc =
  ad_width :: int
  ad_height :: int
  ad_format :: int
  ad_stride :: int

text \<open>The two chroma bytes of one sample pair, interleaved or planar.\<close>

definition put_chroma :: "ycbcr \<Rightarrow> int \<Rightarrow> int \<Rightarrow> 8 word \<Rightarrow> 8 word \<Rightarrow> mem \<Rightarrow> mem" where
  "put_chroma d cx cy cb cr m =
     (if yc_chroma_step d = 2
      then m(yc_cb d + (cy * yc_cstride d + cx * 2) := cb, yc_cr d + (cy * yc_cstride d + cx * 2) := cr)
      else m(yc_cb d + (cy * yc_cstride d + cx) := cb, yc_cr d + (cy * yc_cstride d + cx) := cr))"

section \<open>The conversion loops\<close>

text \<open>\<open>fillBufferFromV2Rgba\<close>: rows of RGBA pixels at \<open>base\<close>, \<open>stride\<close> bytes apart.\<close>

definition pixel :: "mem \<Rightarrow> int \<Rightarrow> 8 word \<times> 8 word \<times> 8 word" where
  "pixel s a = (s a, s (a + 1), s (a + 2))"

definition rgba_yuv_at :: "mem \<Rightarrow> int \<Rightarrow> 8 word \<times> 8 word \<times> 8 word" where
  "rgba_yuv_at s a = (case pixel s a of (r, g, b) \<Rightarrow> rgbaToYuv r g b)"

definition rgba_loops :: "mem \<Rightarrow> int \<Rightarrow> int \<Rightarrow> ycbcr \<Rightarrow> int \<Rightarrow> int \<Rightarrow> mem \<Rightarrow> mem" where
  "rgba_loops s base stride d w h m =
     (let m1 = for_range h (\<lambda>y. for_range w (\<lambda>x m.
            m(yc_y d + y * yc_ystride d + x := fst (rgba_yuv_at s (base + y * stride + x * 4))))) m in
      for_range (h div 2) (\<lambda>cy. for_range (w div 2) (\<lambda>cx.
        put_chroma d cx cy (fst (snd (rgba_yuv_at s (base + cy * 2 * stride + cx * 2 * 4))))
          (snd (snd (rgba_yuv_at s (base + cy * 2 * stride + cx * 2 * 4)))))) m1)"

text \<open>\<open>fillBufferFromV2Yuv\<close>: whole chroma rows when strides and steps agree, else by pairs.\<close>

definition same_layout :: "src_planes \<Rightarrow> ycbcr \<Rightarrow> bool" where
  "same_layout p d = (sp_cPixelStride p = yc_chroma_step d \<and> sp_cStride p = yc_cstride d)"

definition yuv_loops :: "mem \<Rightarrow> src_planes \<Rightarrow> ycbcr \<Rightarrow> int \<Rightarrow> int \<Rightarrow> mem \<Rightarrow> mem" where
  "yuv_loops s p d w h m =
     (let m1 = for_range h (\<lambda>y. memcpy (yc_y d + y * yc_ystride d) (sp_y p + y * sp_yStride p) w s) m;
          chromaW = w div 2;
          chromaH = h div 2 in
      if same_layout p d then
        for_range chromaH (\<lambda>y m.
          let m2 = memcpy (yc_cb d + y * yc_cstride d) (sp_cb p + y * sp_cStride p)
                (chromaW * yc_chroma_step d) s m in
          if yc_chroma_step d = 1
          then memcpy (yc_cr d + y * yc_cstride d) (sp_cr p + y * sp_cStride p)
                (chromaW * yc_chroma_step d) s m2
          else m2) m1
      else
        for_range chromaH (\<lambda>cy. for_range chromaW (\<lambda>cx.
          put_chroma d cx cy (s (sp_cb p + (cy * sp_cStride p + cx * sp_cPixelStride p)))
            (s (sp_cr p + (cy * sp_cStride p + cx * sp_cPixelStride p))))) m1)"

text \<open>\<open>fillYuvBufferFromRenderer\<close>, NV12 passthrough: \<open>s\<close> holds the packed frame at 0.\<close>

definition nv12_loops :: "mem \<Rightarrow> ycbcr \<Rightarrow> int \<Rightarrow> int \<Rightarrow> mem \<Rightarrow> mem" where
  "nv12_loops s d width height m =
     (let srcUV = width * height;
          m1 = for_range height (\<lambda>y. memcpy (yc_y d + y * yc_ystride d) (y * width) width s) m in
      if yc_chroma_step d = 2 then
        for_range (height div 2) (\<lambda>cy. memcpy (yc_cb d + cy * yc_cstride d) (srcUV + cy * width) width s) m1
      else
        for_range (height div 2) (\<lambda>cy. for_range (width div 2) (\<lambda>cx m.
          m(yc_cb d + (cy * yc_cstride d + cx) := s (srcUV + (cy * width + cx * 2)),
            yc_cr d + (cy * yc_cstride d + cx) := s (srcUV + (cy * width + cx * 2 + 1))))) m1)"

text \<open>The colour bars shown without a renderer, scrolled by \<open>shift\<close> pixels.\<close>

definition kBarY :: "8 word list" where "kBarY = [235, 210, 170, 145, 106, 81, 41, 16]"

definition kBarCb :: "8 word list" where "kBarCb = [128, 16, 166, 54, 202, 90, 240, 128]"

definition kBarCr :: "8 word list" where "kBarCr = [128, 146, 16, 34, 222, 240, 110, 128]"

definition bar_at :: "int \<Rightarrow> int \<Rightarrow> int \<Rightarrow> nat" where
  "bar_at width shift x = nat ((x + shift) div (if 8 \<le> width then width div 8 else 1) mod 8)"

definition bar_loops :: "ycbcr \<Rightarrow> int \<Rightarrow> int \<Rightarrow> int \<Rightarrow> mem \<Rightarrow> mem" where
  "bar_loops d width height shift m =
     (let m1 = for_range height (\<lambda>y. for_range width (\<lambda>x m.
            m(yc_y d + y * yc_ystride d + x := kBarY ! bar_at width shift x))) m in
      for_range (height div 2) (\<lambda>y.
        if yc_chroma_step d = 2
        then for_range (width div 2) (\<lambda>i m.
          m(yc_cb d + (y * yc_cstride d + i * 2) := kBarCb ! bar_at width shift (i * 2),
            yc_cb d + (y * yc_cstride d + i * 2 + 1) := kBarCr ! bar_at width shift (i * 2)))
        else for_range (width div 2) (\<lambda>cx m.
          m(yc_cb d + (y * yc_cstride d + cx) := kBarCb ! bar_at width shift (cx * 2),
            yc_cr d + (y * yc_cstride d + cx) := kBarCr ! bar_at width shift (cx * 2)))) m1)"

section \<open>Locking, filling, unlocking\<close>

text \<open>
  The gralloc mapper and the hardware buffer library. A lock answers \<open>None\<close> when it fails.
  \<open>fe_bytes\<close> reads the memory behind a locked source.
\<close>

record 'w filler_env =
  fe_lockYCbCr :: "nat \<Rightarrow> int \<Rightarrow> int \<Rightarrow> 'w \<Rightarrow> ycbcr option \<times> 'w"
  fe_unlock :: "nat \<Rightarrow> 'w \<Rightarrow> 'w"
  fe_describe :: "ahb \<Rightarrow> ahb_desc"
  fe_lockPlanes :: "ahb \<Rightarrow> 'w \<Rightarrow> src_planes option \<times> 'w"
  fe_lock :: "ahb \<Rightarrow> 'w \<Rightarrow> int option \<times> 'w"
  fe_unlockAhb :: "ahb \<Rightarrow> 'w \<Rightarrow> 'w"
  fe_bytes :: "'w \<Rightarrow> mem"
  fe_nowMs :: "'w \<Rightarrow> int \<times> 'w"

definition fillBufferFromV2Yuv :: "'w filler_env \<Rightarrow> nat \<Rightarrow> int \<Rightarrow> int \<Rightarrow> ahb \<Rightarrow> mem \<Rightarrow> 'w \<Rightarrow> bool \<times> mem \<times> 'w" where
  "fillBufferFromV2Yuv F handle width height src m w =
     (let desc = fe_describe F src in
      case fe_lockPlanes F src w of
        (None, w1) \<Rightarrow> (False, m, w1)
      | (Some p, w1) \<Rightarrow> (case fe_lockYCbCr F handle width height w1 of
            (None, w2) \<Rightarrow> (False, m, fe_unlockAhb F src w2)
          | (Some d, w2) \<Rightarrow>
              (True, yuv_loops (fe_bytes F w2) p d (min width (ad_width desc)) (min height (ad_height desc)) m,
               fe_unlockAhb F src (fe_unlock F handle w2))))"

definition fillBufferFromV2Rgba :: "'w filler_env \<Rightarrow> nat \<Rightarrow> int \<Rightarrow> int \<Rightarrow> ahb \<Rightarrow> mem \<Rightarrow> 'w \<Rightarrow> bool \<times> mem \<times> 'w" where
  "fillBufferFromV2Rgba F handle width height src m w =
     (let desc = fe_describe F src in
      case fe_lock F src w of
        (None, w1) \<Rightarrow> (False, m, w1)
      | (Some base, w1) \<Rightarrow> (case fe_lockYCbCr F handle width height w1 of
            (None, w2) \<Rightarrow> (False, m, fe_unlockAhb F src w2)
          | (Some d, w2) \<Rightarrow>
              (True, rgba_loops (fe_bytes F w2) base (ad_stride desc * 4) d
                 (min width (ad_width desc)) (min height (ad_height desc)) m,
               fe_unlockAhb F src (fe_unlock F handle w2))))"

text \<open>Formats: \<open>Y8Cb8Cr8_420\<close> is 0x23, \<open>R8G8B8A8_UNORM\<close> 1, \<open>R8G8B8X8_UNORM\<close> 2.\<close>

definition fillFromAHardwareBuffer ::
  "'w filler_env \<Rightarrow> nat \<Rightarrow> int \<Rightarrow> int \<Rightarrow> ahb option \<Rightarrow> mem \<Rightarrow> 'w \<Rightarrow> bool \<times> mem \<times> 'w" where
  "fillFromAHardwareBuffer F handle width height src m w = (case src of
       None \<Rightarrow> (False, m, w)
     | Some a \<Rightarrow>
         let format = ad_format (fe_describe F a) in
         if format = 0x23 then fillBufferFromV2Yuv F handle width height a m w
         else if format = 1 \<or> format = 2 then fillBufferFromV2Rgba F handle width height a m w
         else (False, m, w))"

text \<open>
  From the shared pool: take the latest frame, fill, give it back. A frame without a buffer
  (an index out of the pool) is undefined for the description call.
\<close>

definition fillBufferFromV2 ::
  "'w filler_env \<Rightarrow> 'w shared_env \<Rightarrow> nat \<Rightarrow> nat \<Rightarrow> int \<Rightarrow> int \<Rightarrow> source_v2 \<Rightarrow> control_ring \<Rightarrow> mem \<Rightarrow> 'w \<Rightarrow>
    (bool \<times> source_v2 \<times> control_ring \<times> mem \<times> 'w) outcome" where
  "fillBufferFromV2 F E fuel handle width height s r m w = (case getHalInterface s of
       None \<Rightarrow> Inr (False, s, r, m, w)
     | Some h \<Rightarrow> (case acquireLatestFrame E fuel 16 h r w of
           Inl e \<Rightarrow> Inl e
         | Inr (f, h1, r1, w1) \<Rightarrow>
             let s1 = s\<lparr>v_iface := h1\<rparr> in
             if \<not> frame_valid f then Inr (False, s1, r1, m, w1)
             else case af_buffer f of
                 None \<Rightarrow> Inl OutOfBounds
               | Some a \<Rightarrow>
                   let (ok, m1, w2) = fillFromAHardwareBuffer F handle width height (Some a) m w1 in
                   case iface_releaseFrame E f h1 r1 w2 of
                     Inl e \<Rightarrow> Inl e
                   | Inr (r2, w3) \<Rightarrow> Inr (ok, s1, r2, m1, w3)))"

text \<open>
  From the socket renderer: the frame's bytes land at the start of a zeroed buffer of the
  expected size, the dimensions are compared as \<open>uint32_t\<close>.
\<close>

definition renderer_fill :: "'w kernel \<Rightarrow> source_v1 \<Rightarrow> ycbcr \<Rightarrow> int \<Rightarrow> int \<Rightarrow> mem \<Rightarrow> 'w \<Rightarrow>
    (bool \<times> source_v1 \<times> mem) outcome" where
  "renderer_fill Q s d width height m w =
     (if \<not> isRendererActive Q s w then Inr (False, s, m)
      else
        let format = (case getFrameInfo Q s w of None \<Rightarrow> 0 | Some (_, _, f) \<Rightarrow> f);
            bufSize = (if format = FORMAT_YUV_420 then width * height * 3 div 2 else width * height * 4) in
        case acquireFrame Q (nat bufSize) s w of
          Inl e \<Rightarrow> Inl e
        | Inr (None, s1) \<Rightarrow> Inr (False, s1, m)
        | Inr (Some f, s1) \<Rightarrow>
            if vf_width f = word_of_int width \<and> vf_height f = word_of_int height
            then Inr (True, s1, if format = FORMAT_YUV_420 then nv12_loops (vf_data f) d width height m
                  else rgba_loops (vf_data f) 0 (width * 4) d width height m)
            else Inr (False, s1, m))"

definition fillYuvBufferFromRenderer ::
  "'w filler_env \<Rightarrow> 'w kernel \<Rightarrow> source_v1 option \<Rightarrow> nat option \<Rightarrow> int \<Rightarrow> int \<Rightarrow> mem \<Rightarrow> 'w \<Rightarrow>
    (bool \<times> source_v1 option \<times> mem \<times> 'w) outcome" where
  "fillYuvBufferFromRenderer F Q source handle width height m w = (case handle of
       None \<Rightarrow> Inr (False, source, m, w)
     | Some b \<Rightarrow> (case fe_lockYCbCr F b width height w of
           (None, w1) \<Rightarrow> Inr (False, source, m, w1)
         | (Some d, w1) \<Rightarrow>
             (case (case source of None \<Rightarrow> Inr (False, source, m)
                | Some s \<Rightarrow> map_sum id (\<lambda>(used, s1, m1). (used, Some s1, m1)) (renderer_fill Q s d width height m w1)) of
               Inl e \<Rightarrow> Inl e
             | Inr (True, source1, m1) \<Rightarrow> Inr (True, source1, m1, fe_unlock F b w1)
             | Inr (False, source1, m1) \<Rightarrow>
                 let (nowMs, w2) = fe_nowMs F w1 in
                 Inr (False, source1, bar_loops d width height (nowMs div 8 mod width) m1, fe_unlock F b w2))))"

end
