(* ===== verification/Fill_Theorems.thy ===== *)
theory Fill_Theorems
  imports Frame_Filler "HOL-Library.Multiset"
begin

text \<open>
  The CPU fill paths write the right samples to the right addresses and nothing else, stay
  in video range, and unlock what they lock.
\<close>

section \<open>Loops as lists of stores\<close>

definition writes :: "(int \<times> 8 word) list \<Rightarrow> mem \<Rightarrow> mem" where
  "writes ps = fold (\<lambda>(a, v) m. m(a := v)) ps"

named_theorems store_lists

lemma writes_Nil [simp]: "writes [] m = m"
  and writes_Cons [simp]: "writes ((a, v) # ps) m = writes ps (m(a := v))"
  by (simp_all add: writes_def)

lemma writes_append: "writes (ps @ qs) m = writes qs (writes ps m)"
  by (simp add: writes_def)

lemma writes_outside: "a \<notin> fst ` set ps \<Longrightarrow> writes ps m a = m a"
  by (induction ps arbitrary: m) (auto simp: writes_def)

text \<open>An address that always receives the same value ends with it.\<close>

lemma writes_functional:
  "(a, v) \<in> set ps \<Longrightarrow> (\<And>v'. (a, v') \<in> set ps \<Longrightarrow> v' = v) \<Longrightarrow> writes ps m a = v"
proof (induction ps arbitrary: m)
  case Nil
  then show ?case by simp
next
  case (Cons p ps)
  obtain b u where p: "p = (b, u)" by (cases p)
  show ?case
  proof (cases "(a, v) \<in> set ps")
    case True
    have "\<And>v'. (a, v') \<in> set ps \<Longrightarrow> v' = v" using Cons.prems(2) by simp
    then show ?thesis unfolding p writes_Cons by (rule Cons.IH [OF True])
  next
    case False
    then have "p = (a, v)" using Cons.prems(1) by simp
    moreover have "a \<notin> fst ` set ps" using False Cons.prems(2) by fastforce
    ultimately show ?thesis by (simp add: writes_outside)
  qed
qed

lemma writes_distinct: "distinct (map fst ps) \<Longrightarrow> (a, v) \<in> set ps \<Longrightarrow> writes ps m a = v"
  by (rule writes_functional) (auto dest: eq_key_imp_eq_value)

definition upto_list :: "int \<Rightarrow> int list" where
  "upto_list n = map int [0..<nat n]"

lemma set_upto_list [simp]: "set (upto_list n) = {i. 0 \<le> i \<and> i < n}"
  by (auto simp: upto_list_def image_iff intro!: bexI [of _ "nat _"])

lemma for_range_list: "for_range n body s = fold body (upto_list n) s"
  by (simp add: for_range_def upto_list_def fold_map comp_def)

lemma fold_writes:
  assumes "\<And>i m. body i m = writes (ws i) m"
  shows "fold body xs m = writes (concat (map ws xs)) m"
  by (induction xs arbitrary: m) (simp_all add: assms writes_append)

lemma for_range_writes [store_lists]:
  "(\<And>i m. body i m = writes (ws i) m) \<Longrightarrow> for_range n body m = writes (concat (map ws (upto_list n))) m"
  by (simp add: for_range_list fold_writes)

lemma memcpy_writes [store_lists]:
  "memcpy dst src n s m = writes (map (\<lambda>i. (dst + i, s (src + i))) (upto_list n)) m"
proof -
  have "memcpy dst src n s m = writes (concat (map (\<lambda>i. [(dst + i, s (src + i))]) (upto_list n))) m"
    unfolding memcpy_def by (rule for_range_writes) simp
  then show ?thesis by (simp add: concat_map_singleton)
qed

section \<open>Where the samples are\<close>

text \<open>
  The step between two chroma samples of a row, 2 interleaved and 1 otherwise, and the
  addresses of the samples of a \<open>w\<close> by \<open>h\<close> picture.
\<close>

definition step :: "ycbcr \<Rightarrow> int" where
  "step d = (if yc_chroma_step d = 2 then 2 else 1)"

definition y_addr :: "ycbcr \<Rightarrow> int \<Rightarrow> int \<Rightarrow> int" where
  "y_addr d x y = yc_y d + y * yc_ystride d + x"

definition cb_addr :: "ycbcr \<Rightarrow> int \<Rightarrow> int \<Rightarrow> int" where
  "cb_addr d cx cy = yc_cb d + (cy * yc_cstride d + cx * step d)"

definition cr_addr :: "ycbcr \<Rightarrow> int \<Rightarrow> int \<Rightarrow> int" where
  "cr_addr d cx cy = yc_cr d + (cy * yc_cstride d + cx * step d)"

definition grid :: "(int \<Rightarrow> int \<Rightarrow> 'a list) \<Rightarrow> int \<Rightarrow> int \<Rightarrow> 'a list" where
  "grid f w h = concat (map (\<lambda>y. concat (map (\<lambda>x. f x y) (upto_list w))) (upto_list h))"

lemma set_grid: "set (grid f w h) = (\<Union>y \<in> {y. 0 \<le> y \<and> y < h}. \<Union>x \<in> {x. 0 \<le> x \<and> x < w}. set (f x y))"
  by (auto simp: grid_def)

lemma map_grid: "map g (grid f w h) = grid (\<lambda>x y. map g (f x y)) w h"
  by (simp add: grid_def map_concat comp_def)

lemma for_grid [store_lists]:
  assumes "\<And>x y m. body y x m = writes (f x y) m"
  shows "for_range h (\<lambda>y. for_range w (body y)) m = writes (grid f w h) m"
  unfolding grid_def by (intro for_range_writes) (simp add: assms for_range_writes)

text \<open>The stores of a picture with the samples \<open>ly\<close>, \<open>lb\<close> and \<open>lr\<close>.\<close>

definition picture :: "ycbcr \<Rightarrow> (int \<Rightarrow> int \<Rightarrow> 8 word) \<Rightarrow> (int \<Rightarrow> int \<Rightarrow> 8 word) \<Rightarrow> (int \<Rightarrow> int \<Rightarrow> 8 word) \<Rightarrow>
    int \<Rightarrow> int \<Rightarrow> (int \<times> 8 word) list" where
  "picture d ly lb lr w h = grid (\<lambda>x y. [(y_addr d x y, ly x y)]) w h @
     grid (\<lambda>cx cy. [(cb_addr d cx cy, lb cx cy), (cr_addr d cx cy, lr cx cy)]) (w div 2) (h div 2)"

text \<open>
  No two samples share an address. This is what a layout has to provide: rows no longer than
  their stride and planes that do not overlap.
\<close>

definition samples_distinct :: "ycbcr \<Rightarrow> int \<Rightarrow> int \<Rightarrow> bool" where
  "samples_distinct d w h \<longleftrightarrow> distinct (map fst (picture d (\<lambda>_ _. 0) (\<lambda>_ _. 0) (\<lambda>_ _. 0) w h))"

definition sample_addresses :: "ycbcr \<Rightarrow> int \<Rightarrow> int \<Rightarrow> int set" where
  "sample_addresses d w h = {a. \<exists>x y. 0 \<le> x \<and> x < w \<and> 0 \<le> y \<and> y < h \<and> a = y_addr d x y} \<union>
     {a. \<exists>x y. 0 \<le> x \<and> x < w div 2 \<and> 0 \<le> y \<and> y < h div 2 \<and> (a = cb_addr d x y \<or> a = cr_addr d x y)}"

definition shows_picture :: "ycbcr \<Rightarrow> (int \<Rightarrow> int \<Rightarrow> 8 word) \<Rightarrow> (int \<Rightarrow> int \<Rightarrow> 8 word) \<Rightarrow> (int \<Rightarrow> int \<Rightarrow> 8 word) \<Rightarrow>
    int \<Rightarrow> int \<Rightarrow> mem \<Rightarrow> mem \<Rightarrow> bool" where
  "shows_picture d ly lb lr w h m m' \<longleftrightarrow>
     (\<forall>x y. 0 \<le> x \<and> x < w \<and> 0 \<le> y \<and> y < h \<longrightarrow> m' (y_addr d x y) = ly x y) \<and>
     (\<forall>x y. 0 \<le> x \<and> x < w div 2 \<and> 0 \<le> y \<and> y < h div 2 \<longrightarrow>
        m' (cb_addr d x y) = lb x y \<and> m' (cr_addr d x y) = lr x y) \<and>
     (\<forall>a. a \<notin> sample_addresses d w h \<longrightarrow> m' a = m a)"

lemma picture_addresses: "map fst (picture d ly lb lr w h) = map fst (picture d (\<lambda>_ _. 0) (\<lambda>_ _. 0) (\<lambda>_ _. 0) w h)"
  by (simp add: picture_def map_grid)

lemma set_picture: "p \<in> set (picture d ly lb lr w h) \<longleftrightarrow>
    (\<exists>x y. 0 \<le> x \<and> x < w \<and> 0 \<le> y \<and> y < h \<and> p = (y_addr d x y, ly x y)) \<or>
    (\<exists>x y. 0 \<le> x \<and> x < w div 2 \<and> 0 \<le> y \<and> y < h div 2 \<and>
      (p = (cb_addr d x y, lb x y) \<or> p = (cr_addr d x y, lr x y)))"
  unfolding picture_def set_append set_grid by (cases p) fastforce

lemma in_picture: "(a, v) \<in> set (picture d ly lb lr w h) \<Longrightarrow> a \<in> sample_addresses d w h"
  unfolding set_picture sample_addresses_def by blast

text \<open>Any order of the stores shows the picture.\<close>

lemma picture_shown:
  assumes distinct_samples: "samples_distinct d w h"
    and same: "\<And>p. p \<in> set ps \<longleftrightarrow> p \<in> set (picture d ly lb lr w h)"
  shows "shows_picture d ly lb lr w h m (writes ps m)"
proof -
  have dist: "distinct (map fst (picture d ly lb lr w h))"
    using distinct_samples picture_addresses [of d ly lb lr w h] by (simp add: samples_distinct_def)
  have stored: "writes ps m a = v" if "(a, v) \<in> set (picture d ly lb lr w h)" for a v
    using that dist by (intro writes_functional) (auto simp: same dest: eq_key_imp_eq_value)
  have kept: "writes ps m a = m a" if "a \<notin> sample_addresses d w h" for a
    using that in_picture by (intro writes_outside) (auto simp: same)
  show ?thesis
    unfolding shows_picture_def
    by (intro conjI allI impI) (rule kept, assumption | rule stored, auto simp: set_picture)+
qed

section \<open>The conversion from RGBA\<close>

lemma rgba_loops_picture:
  "rgba_loops s base stride d w h m = writes (picture d
     (\<lambda>x y. fst (rgba_yuv_at s (base + y * stride + x * 4)))
     (\<lambda>x y. fst (snd (rgba_yuv_at s (base + y * 2 * stride + x * 2 * 4))))
     (\<lambda>x y. snd (snd (rgba_yuv_at s (base + y * 2 * stride + x * 2 * 4)))) w h) m"
proof -
  have y: "for_range h (\<lambda>y. for_range w (\<lambda>x m.
        m(yc_y d + y * yc_ystride d + x := fst (rgba_yuv_at s (base + y * stride + x * 4))))) m =
      writes (grid (\<lambda>x y. [(y_addr d x y, fst (rgba_yuv_at s (base + y * stride + x * 4)))]) w h) m" for m
    by (rule for_grid) (simp add: y_addr_def)
  have c: "for_range (h div 2) (\<lambda>cy. for_range (w div 2) (\<lambda>cx.
        put_chroma d cx cy (fst (snd (rgba_yuv_at s (base + cy * 2 * stride + cx * 2 * 4))))
          (snd (snd (rgba_yuv_at s (base + cy * 2 * stride + cx * 2 * 4)))))) m =
      writes (grid (\<lambda>x y. [(cb_addr d x y, fst (snd (rgba_yuv_at s (base + y * 2 * stride + x * 2 * 4)))),
        (cr_addr d x y, snd (snd (rgba_yuv_at s (base + y * 2 * stride + x * 2 * 4))))]) (w div 2) (h div 2)) m" for m
    by (rule for_grid) (simp add: put_chroma_def cb_addr_def cr_addr_def step_def)
  show ?thesis by (simp only: rgba_loops_def picture_def writes_append Let_def y c)
qed

lemma rgba_converted_aux:
  assumes "samples_distinct d w h"
  shows "shows_picture d (\<lambda>x y. fst (rgba_yuv_at s (base + y * stride + x * 4)))
    (\<lambda>x y. fst (snd (rgba_yuv_at s (base + y * 2 * stride + x * 2 * 4))))
    (\<lambda>x y. snd (snd (rgba_yuv_at s (base + y * 2 * stride + x * 2 * 4)))) w h m
    (rgba_loops s base stride d w h m)"
  unfolding rgba_loops_picture by (rule picture_shown [OF assms]) simp

section \<open>The copy from YCbCr\<close>

lemma set_memcpy: "p \<in> set (map (\<lambda>i. (dst + i, s (src + i))) (upto_list n)) \<longleftrightarrow>
    (\<exists>i. 0 \<le> i \<and> i < n \<and> p = (dst + i, s (src + i)))"
  by auto

lemma pairs_upto: "(\<exists>i. 0 \<le> i \<and> i < n * 2 \<and> P i) \<longleftrightarrow> (\<exists>k::int. 0 \<le> k \<and> k < n \<and> (P (k * 2) \<or> P (k * 2 + 1)))"
proof
  assume "\<exists>i. 0 \<le> i \<and> i < n * 2 \<and> P i"
  then obtain i where i: "0 \<le> i" "i < n * 2" "P i" by blast
  have "i div 2 * 2 = i \<or> i div 2 * 2 + 1 = i" by presburger
  then have "P (i div 2 * 2) \<or> P (i div 2 * 2 + 1)" using i(3) by metis
  moreover have "0 \<le> i div 2" "i div 2 < n" using i(1,2) by presburger+
  ultimately show "\<exists>k. 0 \<le> k \<and> k < n \<and> (P (k * 2) \<or> P (k * 2 + 1))" by blast
next
  assume "\<exists>k. 0 \<le> k \<and> k < n \<and> (P (k * 2) \<or> P (k * 2 + 1))"
  then obtain k where k: "0 \<le> k" "k < n" "P (k * 2) \<or> P (k * 2 + 1)" by blast
  then show "\<exists>i. 0 \<le> i \<and> i < n * 2 \<and> P i"
    by (elim disjE) (rule exI [of _ "k * 2"], simp, rule exI [of _ "k * 2 + 1"], simp)
qed

text \<open>Rows of a plane copied one by one.\<close>

definition rows :: "(int \<Rightarrow> int) \<Rightarrow> (int \<Rightarrow> int) \<Rightarrow> int \<Rightarrow> mem \<Rightarrow> int \<Rightarrow> (int \<times> 8 word) list" where
  "rows dst src n s h = concat (map (\<lambda>y. map (\<lambda>i. (dst y + i, s (src y + i))) (upto_list n)) (upto_list h))"

lemma set_rows: "p \<in> set (rows dst src n s h) \<longleftrightarrow>
    (\<exists>y. 0 \<le> y \<and> y < h \<and> (\<exists>i. 0 \<le> i \<and> i < n \<and> p = (dst y + i, s (src y + i))))"
  unfolding rows_def by auto

lemma for_rows [store_lists]:
  "for_range h (\<lambda>y. memcpy (dst y) (src y) n s) m = writes (rows dst src n s h) m"
  unfolding rows_def by (rule for_range_writes) (rule memcpy_writes)

text \<open>A bulk copy of interleaved chroma needs Cr right after Cb on both sides.\<close>

definition copies_chroma :: "src_planes \<Rightarrow> ycbcr \<Rightarrow> bool" where
  "copies_chroma p d \<longleftrightarrow> (yc_chroma_step d = 1 \<or> yc_chroma_step d = 2) \<and>
     (same_layout p d \<and> yc_chroma_step d = 2 \<longrightarrow> yc_cr d = yc_cb d + 1 \<and> sp_cr p = sp_cb p + 1)"

definition src_luma :: "mem \<Rightarrow> src_planes \<Rightarrow> int \<Rightarrow> int \<Rightarrow> 8 word" where
  "src_luma s p x y = s (sp_y p + y * sp_yStride p + x)"

definition src_cb :: "mem \<Rightarrow> src_planes \<Rightarrow> int \<Rightarrow> int \<Rightarrow> 8 word" where
  "src_cb s p x y = s (sp_cb p + (y * sp_cStride p + x * sp_cPixelStride p))"

definition src_cr :: "mem \<Rightarrow> src_planes \<Rightarrow> int \<Rightarrow> int \<Rightarrow> 8 word" where
  "src_cr s p x y = s (sp_cr p + (y * sp_cStride p + x * sp_cPixelStride p))"

lemma yuv_picture_shown:
  assumes dist: "samples_distinct d w h" and ok: "copies_chroma p d"
  shows "shows_picture d (src_luma s p) (src_cb s p) (src_cr s p) w h m (yuv_loops s p d w h m)"
proof -
  define luma_rows where "luma_rows = rows (\<lambda>y. yc_y d + y * yc_ystride d) (\<lambda>y. sp_y p + y * sp_yStride p) w s h"
  have luma: "q \<in> set luma_rows \<longleftrightarrow> (\<exists>x y. 0 \<le> x \<and> x < w \<and> 0 \<le> y \<and> y < h \<and> q = (y_addr d x y, src_luma s p x y))" for q
    unfolding luma_rows_def set_rows y_addr_def src_luma_def by blast
  consider (pairs) "same_layout p d" "yc_chroma_step d = 2" | (planes) "same_layout p d" "yc_chroma_step d = 1"
    | (mixed) "\<not> same_layout p d" using ok by (auto simp: copies_chroma_def)
  then show ?thesis
  proof cases
    case pairs
    define qs where "qs = rows (\<lambda>y. yc_cb d + y * yc_cstride d) (\<lambda>y. sp_cb p + y * sp_cStride p) (w div 2 * 2) s (h div 2)"
    have "yuv_loops s p d w h m = writes (luma_rows @ qs) m"
      using pairs by (simp add: yuv_loops_def Let_def luma_rows_def qs_def for_rows writes_append)
    moreover have "q \<in> set (luma_rows @ qs) \<longleftrightarrow> q \<in> set (picture d (src_luma s p) (src_cb s p) (src_cr s p) w h)" for q
      using pairs ok unfolding set_append Un_iff luma set_picture qs_def set_rows pairs_upto
      by (simp add: copies_chroma_def same_layout_def cb_addr_def cr_addr_def src_cb_def src_cr_def step_def algebra_simps) blast
    ultimately show ?thesis using picture_shown [OF dist] by metis
  next
    case planes
    define qs where "qs = concat (map (\<lambda>y.
      map (\<lambda>i. (yc_cb d + y * yc_cstride d + i, s (sp_cb p + y * sp_cStride p + i))) (upto_list (w div 2)) @
      map (\<lambda>i. (yc_cr d + y * yc_cstride d + i, s (sp_cr p + y * sp_cStride p + i))) (upto_list (w div 2))) (upto_list (h div 2)))"
    have "yuv_loops s p d w h m = writes (luma_rows @ qs) m"
      unfolding qs_def writes_append yuv_loops_def Let_def luma_rows_def for_rows
      using planes by (subst for_range_writes) (simp_all add: memcpy_writes writes_append)
    moreover have "q \<in> set (luma_rows @ qs) \<longleftrightarrow> q \<in> set (picture d (src_luma s p) (src_cb s p) (src_cr s p) w h)" for q
      using planes ok unfolding set_append Un_iff luma set_picture qs_def
      by (auto simp: copies_chroma_def same_layout_def cb_addr_def cr_addr_def src_cb_def src_cr_def step_def algebra_simps)
    ultimately show ?thesis using picture_shown [OF dist] by metis
  next
    case mixed
    define qs where "qs = grid (\<lambda>cx cy. [(cb_addr d cx cy, src_cb s p cx cy), (cr_addr d cx cy, src_cr s p cx cy)]) (w div 2) (h div 2)"
    have "yuv_loops s p d w h m = writes (luma_rows @ qs) m"
      unfolding qs_def writes_append yuv_loops_def Let_def luma_rows_def for_rows
      using mixed by (subst for_grid) (simp_all add: put_chroma_def cb_addr_def cr_addr_def src_cb_def src_cr_def step_def)
    moreover have "q \<in> set (luma_rows @ qs) \<longleftrightarrow> q \<in> set (picture d (src_luma s p) (src_cb s p) (src_cr s p) w h)" for q
      unfolding set_append Un_iff luma set_picture qs_def set_grid by auto
    ultimately show ?thesis using picture_shown [OF dist] by metis
  qed
qed

text \<open>
  With Cr before Cb (NV21) on both sides the bulk copy runs one byte past the last chroma
  sample: it starts at Cb and copies whole pairs.
\<close>

lemma nv21_overrun_aux:
  assumes "same_layout p d" "yc_chroma_step d = 2" "0 < w div 2" "0 < h div 2" "w div 2 * 2 \<le> yc_cstride d"
  shows "yuv_loops s p d w h m (cb_addr d (w div 2 - 1) (h div 2 - 1) + 1)
      = s (sp_cb p + (h div 2 - 1) * sp_cStride p + (w div 2 * 2 - 1))"
proof -
  define qs where "qs = rows (\<lambda>y. yc_cb d + y * yc_cstride d) (\<lambda>y. sp_cb p + y * sp_cStride p) (w div 2 * 2) s (h div 2)"
  define a where "a = yc_cb d + (h div 2 - 1) * yc_cstride d + (w div 2 * 2 - 1)"
  define v where "v = s (sp_cb p + (h div 2 - 1) * sp_cStride p + (w div 2 * 2 - 1))"
  have row: "y = y'" if "y * c + i = y' * c + i'" "0 \<le> i" "0 \<le> i'" "i < n" "i' < n" "n \<le> c" for y y' i i' n c :: int
  proof -
    have "i < c" "i' < c" using that by linarith+
    then have "(y * c + i) div c = y" "(y' * c + i') div c = y'" using that(2,3) by simp_all
    then show ?thesis using that(1) by metis
  qed
  have "(a, v) \<in> set qs"
    unfolding qs_def set_rows a_def v_def using assms(3,4) by (intro exI [of _ "h div 2 - 1"] exI [of _ "w div 2 * 2 - 1"] conjI) auto
  moreover have "v' = v" if entry: "(a, v') \<in> set qs" for v'
  proof -
    obtain y i where i: "0 \<le> y" "y < h div 2" "0 \<le> i" "i < w div 2 * 2" "a = yc_cb d + y * yc_cstride d + i"
        "v' = s (sp_cb p + y * sp_cStride p + i)"
      using entry unfolding qs_def set_rows by blast
    have "y = h div 2 - 1"
      by (rule row [of y "yc_cstride d" i _ "w div 2 * 2 - 1" "w div 2 * 2"]) (use i assms in \<open>auto simp: a_def\<close>)
    then show ?thesis using i by (simp add: v_def a_def)
  qed
  ultimately have "writes qs m' a = v" for m' by (rule writes_functional)
  moreover have "yuv_loops s p d w h m = writes qs (writes (rows (\<lambda>y. yc_y d + y * yc_ystride d) (\<lambda>y. sp_y p + y * sp_yStride p) w s h) m)"
    using assms by (simp add: yuv_loops_def Let_def qs_def for_rows)
  moreover have "a = cb_addr d (w div 2 - 1) (h div 2 - 1) + 1"
    using assms(2) by (simp add: a_def cb_addr_def step_def algebra_simps)
  ultimately show ?thesis by (simp add: v_def)
qed

lemma below_overrun:
  assumes "yc_chroma_step d = 2" "yc_cr d = yc_cb d - 1" "w div 2 * 2 \<le> yc_cstride d"
    and "0 \<le> x" "x < w div 2" "0 \<le> y" "y < h div 2"
  shows "cr_addr d x y < cb_addr d (w div 2 - 1) (h div 2 - 1) + 1 \<and> cb_addr d x y < cb_addr d (w div 2 - 1) (h div 2 - 1) + 1"
proof -
  have "y * yc_cstride d \<le> (h div 2 - 1) * yc_cstride d" using assms by (intro mult_right_mono) auto
  moreover have "step d = 2" using assms(1) by (simp add: step_def)
  moreover have "x * 2 \<le> (w div 2 - 1) * 2" using assms(5) by simp
  ultimately show ?thesis unfolding cb_addr_def cr_addr_def assms(2) by (elim ssubst, intro conjI) linarith+
qed

section \<open>Properties of the fills\<close>

text \<open>
  The conversion stays in BT.601 video range (luma 16..235, chroma 16..240), so the clamp
  never acts, and grey pixels have neutral chroma.
\<close>

theorem conversion_in_video_range:
  "(case rgbaToYuv r g b of (y, cb, cr) \<Rightarrow> uint y \<in> {16..235} \<and> uint cb \<in> {16..240} \<and> uint cr \<in> {16..240} \<and>
      uint y = luma (uint r) (uint g) (uint b) \<and> uint cb = chroma_blue (uint r) (uint g) (uint b) \<and>
      uint cr = chroma_red (uint r) (uint g) (uint b)) \<and>
   snd (rgbaToYuv v v v) = (128, 128)"
proof -
  have byte: "0 \<le> uint u \<and> uint u \<le> 255" for u :: "8 word"
    using uint_bounded [of u] by simp
  have ranges: "luma x y z \<in> {16..235} \<and> chroma_blue x y z \<in> {16..240} \<and> chroma_red x y z \<in> {16..240}"
    if "0 \<le> x \<and> x \<le> 255" "0 \<le> y \<and> y \<le> 255" "0 \<le> z \<and> z \<le> 255" for x y z
    using that unfolding luma_def chroma_blue_def chroma_red_def atLeastAtMost_iff by (intro conjI) linarith+
  have clamped: "uint (clamp8 k) = k" if "0 \<le> k" "k \<le> 255" for k
    using that by (simp add: clamp8_def uint_word_of_int)
  have grey: "chroma_blue x x x = 128 \<and> chroma_red x x x = 128" for x
    by (simp add: chroma_blue_def chroma_red_def)
  have "clamp8 128 = 128" by (simp add: clamp8_def)
  then show ?thesis
    using ranges [OF byte [of r] byte [of g] byte [of b]] by (simp add: rgbaToYuv_def clamped grey)
qed

text \<open>
  When both buffers lock, an RGBA fill stores exactly the converted picture of the common size: every
  luma sample from its pixel, every chroma pair from the top left pixel of its square, and
  no byte that is not a sample.
\<close>

theorem rgba_fill_correct:
  assumes "fe_lock F src w = (Some base, w1)" "fe_lockYCbCr F handle width height w1 = (Some d, w2)"
    and "cw = min width (ad_width (fe_describe F src))" "ch = min height (ad_height (fe_describe F src))"
    and "samples_distinct d cw ch"
  shows "fst (fillBufferFromV2Rgba F handle width height src m w) \<and>
    shows_picture d
      (\<lambda>x y. fst (rgba_yuv_at (fe_bytes F w2) (base + y * (ad_stride (fe_describe F src) * 4) + x * 4)))
      (\<lambda>x y. fst (snd (rgba_yuv_at (fe_bytes F w2) (base + y * 2 * (ad_stride (fe_describe F src) * 4) + x * 2 * 4))))
      (\<lambda>x y. snd (snd (rgba_yuv_at (fe_bytes F w2) (base + y * 2 * (ad_stride (fe_describe F src) * 4) + x * 2 * 4))))
      cw ch m (fst (snd (fillBufferFromV2Rgba F handle width height src m w)))"
  unfolding fillBufferFromV2Rgba_def Let_def assms(1,2) prod.case option.case fst_conv snd_conv assms(3,4) [symmetric]
  using rgba_converted_aux [OF assms(5)] by blast

text \<open>
  C20: When both buffers lock, a YCbCr fill copies exactly the samples of the common size, whatever the
  strides, for planar targets, for mixed layouts, and for interleaved ones with Cr after Cb.
\<close>

theorem yuv_fill_correct:
  assumes "fe_lockPlanes F src w = (Some p, w1)" "fe_lockYCbCr F handle width height w1 = (Some d, w2)"
    and "cw = min width (ad_width (fe_describe F src))" "ch = min height (ad_height (fe_describe F src))"
    and "samples_distinct d cw ch" "copies_chroma p d"
  shows "fst (fillBufferFromV2Yuv F handle width height src m w) \<and>
    shows_picture d (src_luma (fe_bytes F w2) p) (src_cb (fe_bytes F w2) p) (src_cr (fe_bytes F w2) p) cw ch m
      (fst (snd (fillBufferFromV2Yuv F handle width height src m w)))"
  using assms yuv_picture_shown [OF assms(5,6)] by (simp add: fillBufferFromV2Yuv_def Let_def)

text \<open>
  With Cr before Cb on both sides (NV21) the bulk copy writes the byte after the last chroma
  sample of the target, which belongs to no sample pair.
\<close>

theorem nv21_copy_overruns:
  assumes "same_layout p d" "yc_chroma_step d = 2" "yc_cr d = yc_cb d - 1"
    and "0 < w div 2" "0 < h div 2" "w div 2 * 2 \<le> yc_cstride d"
  shows "\<exists>a. (\<forall>x y. 0 \<le> x \<and> x < w div 2 \<and> 0 \<le> y \<and> y < h div 2 \<longrightarrow> cb_addr d x y < a \<and> cr_addr d x y < a) \<and>
    yuv_loops s p d w h m a = s (sp_cb p + (h div 2 - 1) * sp_cStride p + (w div 2 * 2 - 1))"
proof (intro exI conjI allI impI)
  show "yuv_loops s p d w h m (cb_addr d (w div 2 - 1) (h div 2 - 1) + 1)
      = s (sp_cb p + (h div 2 - 1) * sp_cStride p + (w div 2 * 2 - 1))"
    by (rule nv21_overrun_aux) (use assms in auto)
qed (use below_overrun assms in blast)+

text \<open>Locks as a multiset of what is held, targets and sources.\<close>

definition tracks_locks :: "'w filler_env \<Rightarrow> ('w \<Rightarrow> (nat + ahb) multiset) \<Rightarrow> bool" where
  "tracks_locks F held \<longleftrightarrow>
     (\<forall>b x y w. held (snd (fe_lockYCbCr F b x y w)) =
        (if fst (fe_lockYCbCr F b x y w) = None then held w else add_mset (Inl b) (held w))) \<and>
     (\<forall>a w. held (snd (fe_lockPlanes F a w)) =
        (if fst (fe_lockPlanes F a w) = None then held w else add_mset (Inr a) (held w))) \<and>
     (\<forall>a w. held (snd (fe_lock F a w)) =
        (if fst (fe_lock F a w) = None then held w else add_mset (Inr a) (held w))) \<and>
     (\<forall>b w. held (fe_unlock F b w) = held w - {#Inl b#}) \<and>
     (\<forall>a w. held (fe_unlockAhb F a w) = held w - {#Inr a#}) \<and>
     (\<forall>w. held (snd (fe_nowMs F w)) = held w)"

lemma locks:
  assumes "tracks_locks F held"
  shows "fe_lockYCbCr F b x y w = (None, w') \<Longrightarrow> held w' = held w"
    and "fe_lockYCbCr F b x y w = (Some d, w') \<Longrightarrow> held w' = add_mset (Inl b) (held w)"
    and "fe_lockPlanes F a w = (None, w') \<Longrightarrow> held w' = held w"
    and "fe_lockPlanes F a w = (Some p, w') \<Longrightarrow> held w' = add_mset (Inr a) (held w)"
    and "fe_lock F a w = (None, w') \<Longrightarrow> held w' = held w"
    and "fe_lock F a w = (Some q, w') \<Longrightarrow> held w' = add_mset (Inr a) (held w)"
    and "held (fe_unlock F b w) = held w - {#Inl b#}"
    and "held (fe_unlockAhb F a w) = held w - {#Inr a#}"
    and "fe_nowMs F w = (n, w') \<Longrightarrow> held w' = held w"
  using assms unfolding tracks_locks_def by (metis fst_conv snd_conv option.distinct(1))+

lemma yuv_unlocks:
  assumes "tracks_locks F held"
  shows "held (snd (snd (fillBufferFromV2Yuv F handle width height src m w))) = held w"
  unfolding fillBufferFromV2Yuv_def Let_def
  by (auto simp: locks(7,8) [OF assms] split: prod.split option.split dest!: locks(1,2,3,4) [OF assms])

lemma rgba_unlocks:
  assumes "tracks_locks F held"
  shows "held (snd (snd (fillBufferFromV2Rgba F handle width height src m w))) = held w"
  unfolding fillBufferFromV2Rgba_def Let_def
  by (auto simp: locks(7,8) [OF assms] split: prod.split option.split dest!: locks(1,2,5,6) [OF assms])

lemma renderer_unlocks:
  assumes "tracks_locks F held" "fillYuvBufferFromRenderer F Q source target width height m w = Inr (used, source1, m1, w1)"
  shows "held w1 = held w"
  using assms(2) unfolding fillYuvBufferFromRenderer_def Let_def
  by (auto simp: locks(7) [OF assms(1)] split: prod.splits option.splits sum.splits bool.splits
      dest!: locks(1,2,9) [OF assms(1)])

text \<open>
  C21: Every path through a fill, failed locks included, gives back
  the locks it took.
\<close>

theorem fills_unlock:
  assumes "tracks_locks F held"
  shows "held (snd (snd (fillFromAHardwareBuffer F handle width height src m w))) = held w \<and>
    (\<forall>used source1 m1 w1. fillYuvBufferFromRenderer F Q source target width height m w = Inr (used, source1, m1, w1) \<longrightarrow>
      held w1 = held w)"
  using assms renderer_unlocks by (auto simp: fillFromAHardwareBuffer_def Let_def yuv_unlocks rgba_unlocks split: option.split)

section \<open>Witnesses\<close>

text \<open>
  A mapper that counts locks: the target is 4 by 2, planar or (handle 2) interleaved, the
  sources hold the low byte of each address.
\<close>

definition planar_target :: ycbcr where
  "planar_target = \<lparr>yc_y = 0, yc_cb = 8, yc_cr = 10, yc_ystride = 4, yc_cstride = 2, yc_chroma_step = 1\<rparr>"

definition nv21_target :: ycbcr where
  "nv21_target = \<lparr>yc_y = 0, yc_cb = 9, yc_cr = 8, yc_ystride = 4, yc_cstride = 4, yc_chroma_step = 2\<rparr>"

definition nv12_source :: src_planes where
  "nv12_source = \<lparr>sp_y = 0, sp_cb = 8, sp_cr = 9, sp_yStride = 4, sp_cStride = 4, sp_cPixelStride = 2\<rparr>"

definition demo_fill :: "(nat + ahb) multiset filler_env" where
  "demo_fill = \<lparr>fe_lockYCbCr = (\<lambda>b x y w. (Some planar_target, add_mset (Inl b) w)),
     fe_unlock = (\<lambda>b w. w - {#Inl b#}), fe_describe = (\<lambda>a. \<lparr>ad_width = 4, ad_height = 2, ad_format = int a, ad_stride = 4\<rparr>),
     fe_lockPlanes = (\<lambda>a w. (Some nv12_source, add_mset (Inr a) w)),
     fe_lock = (\<lambda>a w. (Some 0, add_mset (Inr a) w)), fe_unlockAhb = (\<lambda>a w. w - {#Inr a#}),
     fe_bytes = (\<lambda>w. word_of_int), fe_nowMs = (\<lambda>w. (0, w))\<rparr>"

lemma demo_distinct: "samples_distinct planar_target 4 2"
  by code_simp

theorem rgba_fill_correct_witness:
  "fst (fillBufferFromV2Rgba demo_fill 1 4 2 1 (\<lambda>_. 0) {#}) \<and>
    (fst (snd (fillBufferFromV2Rgba demo_fill 1 4 2 1 (\<lambda>_. 0) {#}))) (y_addr planar_target 3 1) =
      fst (rgba_yuv_at word_of_int (1 * 16 + 3 * 4))"
  using rgba_fill_correct [of demo_fill 1 "{#}" 0 "{#Inr 1#}" 1 4 2 planar_target "{#Inl 1, Inr 1#}" 4 2 "\<lambda>_. 0"]
  by (simp add: demo_fill_def demo_distinct shows_picture_def)

theorem yuv_fill_correct_witness:
  "fst (fillBufferFromV2Yuv demo_fill 1 4 2 35 (\<lambda>_. 0) {#}) \<and>
    fst (snd (fillBufferFromV2Yuv demo_fill 1 4 2 35 (\<lambda>_. 0) {#})) (cr_addr planar_target 1 0) =
      src_cr word_of_int nv12_source 1 0"
  using yuv_fill_correct [of demo_fill 35 "{#}" nv12_source "{#Inr 35#}" 1 4 2 planar_target "{#Inl 1, Inr 35#}" 4 2 "\<lambda>_. 0"]
  by (simp add: demo_fill_def demo_distinct shows_picture_def copies_chroma_def planar_target_def [THEN arg_cong [of _ _ yc_chroma_step]]
      same_layout_def nv12_source_def [THEN arg_cong [of _ _ sp_cPixelStride]])

theorem nv21_copy_overruns_witness:
  "\<exists>a. (\<forall>x y. 0 \<le> x \<and> x < 2 \<and> 0 \<le> y \<and> y < 1 \<longrightarrow> cb_addr nv21_target x y < a \<and> cr_addr nv21_target x y < a) \<and>
    yuv_loops word_of_int (nv12_source\<lparr>sp_cb := 9, sp_cr := 8\<rparr>) nv21_target 4 2 (\<lambda>_. 0) a = 12"
  using nv21_copy_overruns [of "nv12_source\<lparr>sp_cb := 9, sp_cr := 8\<rparr>" nv21_target 4 2 word_of_int "\<lambda>_. 0"]
  by (simp add: nv21_target_def nv12_source_def same_layout_def)

lemma demo_tracks: "tracks_locks demo_fill id"
  by (simp add: tracks_locks_def demo_fill_def)

theorem fills_unlock_witness:
  "snd (snd (fillFromAHardwareBuffer demo_fill 1 4 2 (Some 35) (\<lambda>_. 0) {#})) = {#} \<and>
   snd (snd (fillFromAHardwareBuffer demo_fill 1 4 2 (Some 1) (\<lambda>_. 0) {#})) = {#}"
  using fills_unlock [OF demo_tracks, of 1 4 2 "Some 35" "\<lambda>_. 0" "{#}"]
    fills_unlock [OF demo_tracks, of 1 4 2 "Some 1" "\<lambda>_. 0" "{#}"] by simp

end
