(* ===== verification/Session_Termination.thy ===== *)
theory Session_Termination
  imports Session_Results
begin

text \<open>
  Every batch of capture requests returns. The two polls of a request have one deadline and
  sleep at least until it or two milliseconds at a time, unless they are cancelled, so with
  budgets of at most two seconds a thousand and one rounds are enough. The rates the
  budgets are computed from stay positive, except for one kind of request.
\<close>

section \<open>Time\<close>

text \<open>
  What the polls rely on: the steady clock never runs backwards, a timed wait ends at its
  deadline or because the request of this epoch is being cancelled (\<open>woken\<close>), and then the
  next look at the session shows it.
\<close>

definition onward :: "('w \<Rightarrow> int) \<Rightarrow> ('w \<Rightarrow> bool) \<Rightarrow> 'w \<Rightarrow> 'w \<Rightarrow> bool" where
  "onward clock woken w w' \<longleftrightarrow> clock w \<le> clock w' \<and> (woken w \<longrightarrow> woken w')"

definition clocked :: "'w env \<Rightarrow> ('w \<Rightarrow> int) \<Rightarrow> (64 word \<Rightarrow> 'w \<Rightarrow> bool) \<Rightarrow> bool" where
  "clocked E clock woken \<longleftrightarrow> (\<forall>epoch.
     (\<forall>fd t w. onward clock (woken epoch) w (snd (sys_sync_wait (e_sys E) fd t w))) \<and>
     (\<forall>f g w. onward clock (woken epoch) w (snd (sys_sync_merge (e_sys E) f g w))) \<and>
     (\<forall>fd w. onward clock (woken epoch) w (snd (sys_dup (e_sys E) fd w))) \<and>
     (\<forall>fd w. onward clock (woken epoch) w (sys_close (e_sys E) fd w)) \<and>
     (\<forall>a w. onward clock (woken epoch) w (gfx_acquire (e_gfx E) a w)) \<and>
     (\<forall>x. onward clock (woken epoch) (x_world x) (x_world (e_others E x))) \<and>
     (\<forall>w. onward clock (woken epoch) w (snd (e_now E w)) \<and> clock w \<le> fst (e_now E w) \<and>
        fst (e_now E w) \<le> clock (snd (e_now E w))) \<and>
     (\<forall>d w. onward clock (woken epoch) w (e_waitUntil E d w) \<and>
        (d \<le> clock (e_waitUntil E d w) \<or> woken epoch (e_waitUntil E d w))) \<and>
     (\<forall>x. woken epoch (x_world x) \<longrightarrow>
        s_closed (x_session (e_others E x)) \<or> s_cancelEpoch (x_session (e_others E x)) \<noteq> epoch))"

lemma onward_refl [simp]: "onward clock wk w w"
  and onward_trans: "onward clock wk w w' \<Longrightarrow> onward clock wk w' w'' \<Longrightarrow> onward clock wk w w''"
  by (auto simp: onward_def)

lemma clockedD:
  assumes "clocked E clock woken"
  shows "onward clock (woken epoch) w (snd (sys_sync_wait (e_sys E) fd t w))"
    and "onward clock (woken epoch) w (snd (sys_sync_merge (e_sys E) f g w))"
    and "onward clock (woken epoch) w (snd (sys_dup (e_sys E) fd w))"
    and "onward clock (woken epoch) w (sys_close (e_sys E) fd w)"
    and "onward clock (woken epoch) w (gfx_acquire (e_gfx E) a w)"
    and "onward clock (woken epoch) (x_world x) (x_world (e_others E x))"
    and "onward clock (woken epoch) w (snd (e_now E w))" "clock w \<le> fst (e_now E w)"
    and "onward clock (woken epoch) w (e_waitUntil E d w)"
    and "d \<le> clock (e_waitUntil E d w) \<or> woken epoch (e_waitUntil E d w)"
    and "woken epoch (x_world x) \<Longrightarrow>
      s_closed (x_session (e_others E x)) \<or> s_cancelEpoch (x_session (e_others E x)) \<noteq> epoch"
    and "fst (e_now E w) \<le> clock (snd (e_now E w))"
  using assms unfolding clocked_def by blast+

lemma clocked_after:
  assumes "clocked E clock woken" "onward clock (woken epoch) w w'"
  shows "onward clock (woken epoch) w (snd (sys_sync_wait (e_sys E) fd t w'))"
    and "onward clock (woken epoch) w (snd (sys_sync_merge (e_sys E) f g w'))"
    and "onward clock (woken epoch) w (snd (sys_dup (e_sys E) fd w'))"
    and "onward clock (woken epoch) w (sys_close (e_sys E) fd w')"
    and "onward clock (woken epoch) w (gfx_acquire (e_gfx E) a w')"
  using onward_trans [OF assms(2)] clockedD [OF assms(1)] by blast+

text \<open>At least \<open>T\<close>, or on the way out.\<close>

definition since :: "('w \<Rightarrow> int) \<Rightarrow> ('w \<Rightarrow> bool) \<Rightarrow> int \<Rightarrow> 'w sstate \<Rightarrow> bool" where
  "since clock wk T x \<longleftrightarrow> T \<le> clock (x_world x) \<or> wk (x_world x)"

lemma since_onward: "since clock wk T x \<Longrightarrow> onward clock wk (x_world x) (x_world x') \<Longrightarrow> since clock wk T x'"
  by (auto simp: since_def onward_def)

lemma since_mono: "since clock wk T x \<Longrightarrow> T' \<le> T \<Longrightarrow> since clock wk T' x"
  by (auto simp: since_def)

text \<open>Actions that move the clock only forward.\<close>

definition forward :: "('w \<Rightarrow> int) \<Rightarrow> ('w \<Rightarrow> bool) \<Rightarrow> ('w, 'a) sm \<Rightarrow> bool" where
  "forward clock wk m \<longleftrightarrow> (\<forall>x. onward clock wk (x_world x) (x_world (snd (run_state m x))))"

lemma forward_since: "forward clock wk m \<Longrightarrow> stable (since clock wk T) m"
  and forward_after: "forward clock wk m \<Longrightarrow> stable (\<lambda>x. T \<le> clock (x_world x)) m"
  unfolding stable_def triple_def forward_def since_def onward_def
  by (auto simp: split_beta) (metis order_trans)+

lemma forward_world: "(\<And>w. onward clock wk w (snd (f w))) \<Longrightarrow> forward clock wk (in_world f)"
  by (simp add: forward_def in_world_def split_beta)

lemma forward_session: "forward clock wk (modify_session g)"
  by (simp add: forward_def modify_session_def)

lemma forward_others: "clocked E clock woken \<Longrightarrow> forward clock (woken epoch) (others E)"
  by (simp add: forward_def others_def clockedD(6))

text \<open>Consolidating fences, and with it taking a frame, moves the clock only forward.\<close>

lemma prune_onward:
  assumes "clocked E clock woken"
  shows "onward clock (woken epoch) w (snd (pruneReadFences (e_sys E) fds w))"
proof (induction fds arbitrary: w)
  case Nil
  show ?case by simp
next
  case (Cons fd fds)
  have "onward clock (woken epoch) w' (snd (pruneReadFences (e_sys E) fds w'')) "
    if "onward clock (woken epoch) w' w''" for w' w''
    using that Cons.IH by (rule onward_trans)
  then show ?case by (simp add: split_beta Let_def clocked_after [OF assms])
qed

lemma merge_onward:
  assumes "clocked E clock woken"
  shows "onward clock (woken epoch) w (snd (snd (mergeLoop (e_sys E) fds w)))"
proof (induction "e_sys E" fds w rule: mergeLoop.induct)
  case (1 f g fds w)
  note step = clockedD(2,4) [OF assms, where epoch = epoch]
  obtain c w1 where m: "sys_sync_merge (e_sys E) f (last (g # fds)) w = (c, w1)" by fastforce
  then have w1: "onward clock (woken epoch) w w1" using step(1) [of w f "last (g # fds)"] by simp
  let ?w2 = "sys_close (e_sys E) (last (g # fds)) (sys_close (e_sys E) f w1)"
  have w2: "onward clock (woken epoch) w ?w2" by (rule onward_trans [OF w1 onward_trans [OF step(2) step(2)]])
  show ?case
  proof (cases "c < 0")
    case True
    then show ?thesis using m w1 by (simp add: Let_def)
  next
    case False
    have "onward clock (woken epoch) ?w2 (snd (snd (mergeLoop (e_sys E) (c # butlast (g # fds)) ?w2)))"
      by (rule "1" [OF refl m [symmetric] refl False])
    then show ?thesis using m False by (simp add: Let_def onward_trans [OF w2])
  qed
qed simp_all

lemma consolidate_onward:
  assumes "clocked E clock woken"
  shows "onward clock (woken epoch) w (snd (snd (consolidateReadFences (e_sys E) fds w)))"
  using onward_trans [OF prune_onward [OF assms] merge_onward [OF assms]]
  by (simp add: consolidateReadFences_def split_beta Let_def)

lemma acquire_onward:
  assumes "clocked E clock woken"
  shows "onward clock (woken epoch) w (snd (snd (snd (acquireLatest (e_sys E) (e_gfx E) slot a b n t h w))))"
  using consolidate_onward [OF assms, of epoch w "f_readFences (mLatest h slot)"]
  by (auto simp: acquireLatest_def duplicateAcquireFence_def Let_def split_beta clocked_after [OF assms]
      split: option.split)

lemma forward_acquire: "clocked E clock woken \<Longrightarrow> forward clock (woken epoch) (hal_acquireLatest E s)"
  by (auto simp: forward_def hal_acquireLatest_def in_hal_def split_beta acquire_onward split: option.split)

lemma forward_current: "clocked E clock woken \<Longrightarrow> forward clock (woken epoch) (hal_isFrameCurrent E s a seq)"
  by (auto simp: forward_def hal_isFrameCurrent_def others_def in_hal_def split_beta clockedD(6) split: option.split)

section \<open>The polls\<close>

text \<open>Rounds of two milliseconds until the deadline, and the one that sees it.\<close>

definition rounds :: "int \<Rightarrow> int \<Rightarrow> nat" where
  "rounds deadline t = nat ((deadline - t + 1999999) div 2000000) + 1"

lemma rounds_less:
  assumes "t < deadline"
  shows "rounds deadline (min deadline (t + 2000000)) < rounds deadline t"
proof (cases "deadline \<le> t + 2000000")
  case True
  have "1 \<le> (deadline - t + 1999999) div 2000000" using assms by linarith
  then show ?thesis using True by (simp add: rounds_def)
next
  case False
  have "(deadline - (t + 2000000) + 1999999) div 2000000 = (deadline - t + 1999999) div 2000000 - 1"
    by linarith
  moreover have "1 \<le> (deadline - t + 1999999) div 2000000" using False by linarith
  ultimately show ?thesis using False by (simp add: rounds_def)
qed

lemma cancelled_since:
  assumes "clocked E clock woken"
  shows "triple (since clock (woken epoch) T) (cancelled E epoch)
    (\<lambda>stop x. since clock (woken epoch) T x \<and> (stop \<or> T \<le> clock (x_world x)))"
proof (rule tripleI)
  fix x stop x' assume pre: "since clock (woken epoch) T x" and run: "run_state (cancelled E epoch) x = (stop, x')"
  have x': "x' = e_others E x"
      "stop = (s_closed (x_session x') \<or> s_cancelEpoch (x_session x') \<noteq> epoch)"
    using run by (auto simp: cancelled_def others_def session_def)
  have "onward clock (woken epoch) (x_world x) (x_world x')" using x'(1) clockedD(6) [OF assms] by simp
  then show "since clock (woken epoch) T x' \<and> (stop \<or> T \<le> clock (x_world x'))"
    using pre x' clockedD(11) [OF assms, where epoch = epoch and x = x] by (auto simp: since_def onward_def)
qed

lemma now_since:
  assumes "clocked E clock woken"
  shows "triple (\<lambda>x. T \<le> clock (x_world x)) (in_world (e_now E)) (\<lambda>now x. T \<le> now \<and> T \<le> clock (x_world x))"
proof (rule tripleI)
  fix x now x' assume pre: "T \<le> clock (x_world x)" and run: "run_state (in_world (e_now E)) x = (now, x')"
  have "now = fst (e_now E (x_world x))" "x_world x' = snd (e_now E (x_world x))"
    using run by (auto simp: in_world_def split_beta)
  moreover have "clock (x_world x) \<le> clock (snd (e_now E (x_world x)))"
    using clockedD(7) [OF assms, where w = "x_world x"] by (simp add: onward_def)
  ultimately show "T \<le> now \<and> T \<le> clock (x_world x')"
    using pre clockedD(8) [OF assms, where w = "x_world x"] by (metis order_trans)
qed

lemma pause_since:
  assumes "clocked E clock woken"
  shows "triple (\<lambda>x. T \<le> clock (x_world x)) (poll_pause E deadline)
    (\<lambda>_. since clock (woken epoch) (min deadline (T + 2000000)))"
  unfolding poll_pause_def
proof (rule triple_bind [OF now_since [OF assms]], rule triple_pure, rule tripleI)
  fix now x a x' assume now: "T \<le> now" and run: "run_state (on_world (e_waitUntil E (min deadline (now + 2000000)))) x = (a, x')"
  then have x': "x_world x' = e_waitUntil E (min deadline (now + 2000000)) (x_world x)" by (auto simp: on_world_def)
  have "min deadline (T + 2000000) \<le> min deadline (now + 2000000)" using now by simp
  then show "since clock (woken epoch) (min deadline (T + 2000000)) x'"
    using clockedD(10) [OF assms, where d = "min deadline (now + 2000000)" and w = "x_world x" and epoch = epoch]
    unfolding since_def x' by (meson order_trans)
qed

lemma acquireLoop_returns:
  assumes "clocked E clock woken" "rounds deadline T \<le> fuel"
  shows "triple (since clock (woken epoch) T) (acquireLoop E fuel epoch s deadline fence)
    (\<lambda>r x. r \<noteq> None \<and> since clock (woken epoch) T x)"
  using assms(2)
proof (induction fuel arbitrary: T fence)
  case 0
  then show ?case by (simp add: rounds_def)
next
  case (Suc fuel)
  let ?Q = "\<lambda>r x. r \<noteq> None \<and> since clock (woken epoch) T x" and ?on = "\<lambda>x. T \<le> clock (x_world x)"
  note after = forward_after [OF forward_others [OF assms(1)]] forward_after [OF forward_acquire [OF assms(1)]]
  have answer: "triple ?on (ret (Some v)) ?Q" for v by (rule triple_return) (simp add: since_def)
  have again: "triple ?on (do { poll_pause E deadline; acquireLoop E fuel epoch s deadline fd }) ?Q"
    if "T < deadline" for fd
  proof (rule triple_bind [OF pause_since [OF assms(1)]])
    have "rounds deadline (min deadline (T + 2000000)) \<le> fuel" using rounds_less [OF that] Suc.prems by simp
    from Suc.IH [OF this, of fd]
    show "triple (since clock (woken epoch) (min deadline (T + 2000000))) (acquireLoop E fuel epoch s deadline fd) ?Q"
      by (rule triple_post) (use that in \<open>auto intro: since_mono\<close>)
  qed
  have look: "triple ?on (do { now \<leftarrow> in_world (e_now E);
      if deadline \<le> now then ret (Some (None, fd))
      else do { poll_pause E deadline; acquireLoop E fuel epoch s deadline fd } }) ?Q" for fd
    by (intro triple_bind [OF now_since [OF assms(1)]] triple_pure triple_if answer again) linarith
  have live: "triple ?on (do { others E; (r, fd) \<leftarrow> hal_acquireLatest E s;
      if r \<noteq> None then ret (Some (r, fd))
      else do { now \<leftarrow> in_world (e_now E);
        if deadline \<le> now then ret (Some (None, fd))
        else do { poll_pause E deadline; acquireLoop E fuel epoch s deadline fd } } }) ?Q"
    by (intro triple_skip [OF after(1)] triple_skip [OF after(2)] triple_prod triple_if answer look)
  show ?case
    unfolding acquireLoop.simps
  proof (rule triple_bind [OF cancelled_since [OF assms(1)]], rule triple_if)
    fix stop assume "stop"
    then show "triple (\<lambda>x. since clock (woken epoch) T x \<and> (stop \<or> ?on x)) (ret (Some (None, fence))) ?Q"
      by (simp add: triple_return)
  next
    fix stop :: bool assume "\<not> stop"
    then show "triple (\<lambda>x. since clock (woken epoch) T x \<and> (stop \<or> ?on x)) (do { others E; (r, fd) \<leftarrow> hal_acquireLatest E s;
      if r \<noteq> None then ret (Some (r, fd))
      else do { now \<leftarrow> in_world (e_now E);
        if deadline \<le> now then ret (Some (None, fd))
        else do { poll_pause E deadline; acquireLoop E fuel epoch s deadline fd } } }) ?Q"
      by (intro triple_pre [OF live]) simp
  qed
qed

lemma fenceLoop_returns:
  assumes "clocked E clock woken" "rounds deadline T \<le> fuel"
  shows "triple (since clock (woken epoch) T) (fenceLoop E fuel epoch s deadline a seq fence) (\<lambda>r _. r \<noteq> None)"
  using assms(2)
proof (induction fuel arbitrary: T)
  case 0
  then show ?case by (simp add: rounds_def)
next
  case (Suc fuel)
  let ?Q = "\<lambda>r _. r \<noteq> (None :: bool option)" and ?on = "\<lambda>x. T \<le> clock (x_world x)"
  have answer: "triple P (ret (Some v)) ?Q" for P :: "'a sstate \<Rightarrow> bool" and v by (rule triple_return) simp
  have wait: "stable (since clock (woken epoch) T) (in_world (sys_sync_wait (e_sys E) fence 0))"
    by (intro forward_since forward_world clockedD(1) assms)
  have again: "triple ?on (do { poll_pause E deadline; fenceLoop E fuel epoch s deadline a seq fence }) ?Q"
    if "T < deadline"
  proof (rule triple_bind [OF pause_since [OF assms(1)]])
    have "rounds deadline (min deadline (T + 2000000)) \<le> fuel" using rounds_less [OF that] Suc.prems by simp
    from Suc.IH [OF this]
    show "triple (since clock (woken epoch) (min deadline (T + 2000000))) (fenceLoop E fuel epoch s deadline a seq fence) ?Q" .
  qed
  have live: "triple ?on (do {
      current \<leftarrow> hal_isFrameCurrent E s a seq;
      late \<leftarrow> (if \<not> current then ret True else do { now \<leftarrow> in_world (e_now E); ret (deadline \<le> now) });
      if late then ret (Some False)
      else do { poll_pause E deadline; fenceLoop E fuel epoch s deadline a seq fence } }) ?Q"
  proof (rule triple_skip [OF forward_after [OF forward_current [OF assms(1)]]])
    fix current :: bool
    have "triple ?on (if \<not> current then ret True else do { now \<leftarrow> in_world (e_now E); ret (deadline \<le> now) })
        (\<lambda>late x. (late \<or> T < deadline) \<and> ?on x)"
      by (intro triple_if triple_bind [OF now_since [OF assms(1)]] triple_return) auto
    then show "triple ?on (do {
        late \<leftarrow> (if \<not> current then ret True else do { now \<leftarrow> in_world (e_now E); ret (deadline \<le> now) });
        if late then ret (Some False)
        else do { poll_pause E deadline; fenceLoop E fuel epoch s deadline a seq fence } }) ?Q"
      by (rule triple_bind) (intro triple_pure triple_if answer again, auto)
  qed
  show ?case
    unfolding fenceLoop.simps
  proof (intro triple_if answer triple_skip [OF wait], rule triple_bind [OF cancelled_since [OF assms(1)]])
    fix stop :: bool
    show "triple (\<lambda>x. since clock (woken epoch) T x \<and> (stop \<or> ?on x)) (do {
        current \<leftarrow> (if stop then ret False else hal_isFrameCurrent E s a seq);
        late \<leftarrow> (if stop \<or> \<not> current then ret True
           else do { now \<leftarrow> in_world (e_now E); ret (deadline \<le> now) });
        if late then ret (Some False)
        else do { poll_pause E deadline; fenceLoop E fuel epoch s deadline a seq fence } }) ?Q"
    proof (cases stop)
      case True
      then show ?thesis by (simp del: not_None_eq add: answer)
    next
      case False
      then have "triple (\<lambda>x. since clock (woken epoch) T x \<and> (stop \<or> ?on x)) (do {
        current \<leftarrow> hal_isFrameCurrent E s a seq;
        late \<leftarrow> (if \<not> current then ret True else do { now \<leftarrow> in_world (e_now E); ret (deadline \<le> now) });
        if late then ret (Some False)
        else do { poll_pause E deadline; fenceLoop E fuel epoch s deadline a seq fence } }) ?Q"
        by (intro triple_pre [OF live]) simp
      then show ?thesis using False by (simp del: not_None_eq)
    qed
  qed
qed

section \<open>Requests\<close>

lemma triple_any: "triple P m (\<lambda>_ _. True)"
  by (simp add: triple_def)

lemma triple_ends: "(\<And>a. triple (\<lambda>_. True) (f a) Q) \<Longrightarrow> triple P (State_Monad.bind m f) Q"
  by (rule triple_bind [OF triple_any])

lemma withFrame_returns:
  assumes "clocked E clock woken" "rounds deadline T \<le> fuel"
  shows "triple (since clock (woken epoch) T) (withFrame E fuel epoch s deadline rq timestamp pending q fence)
    (\<lambda>r _. r \<noteq> None)"
proof -
  let ?Q = "\<lambda>r _. r \<noteq> (None :: camera_status option)"
  have answer: "triple P (ret (Some v)) ?Q" for P :: "'a sstate \<Rightarrow> bool" and v by (rule triple_return) simp
  have waited: "triple (\<lambda>x. waited \<noteq> None) (case waited of None \<Rightarrow> ret None | Some False \<Rightarrow> m | Some True \<Rightarrow> n) ?Q"
    if "triple (\<lambda>_. True) m ?Q" "triple (\<lambda>_. True) n ?Q" for waited and m n :: "('a, camera_status option) sm"
    using that by (auto simp: triple_def split: option.split bool.split)
  show ?thesis
    unfolding withFrame_def
    by (intro triple_skip [OF forward_since [OF forward_session]]
        triple_bind [OF fenceLoop_returns [OF assms]] waited)
      (intro triple_ends triple_if triple_prod answer)+
qed

text \<open>Budgets of at most two seconds.\<close>

lemma budget_rounds:
  assumes "0 < fps" "frames \<le> 2"
  shows "rounds (now + (if startup then max (frame_interval fps * frames) 200000000 else frame_interval fps * frames)) now \<le> 1001"
proof -
  have "0 \<le> frame_interval fps" using assms by (simp add: frame_interval_def pos_imp_zdiv_nonneg_iff)
  moreover have "frame_interval fps \<le> 1000000000"
  proof -
    have "(1000000000 + fps - 1) div fps \<le> (1000000000 * fps) div fps"
      using assms(1) by (intro zdiv_mono1) auto
    then show ?thesis using assms(1) by (simp add: frame_interval_def)
  qed
  moreover have "frame_interval fps * frames \<le> frame_interval fps * 2"
    using calculation(1) assms(2) by (intro mult_left_mono) auto
  ultimately have "(if startup then max (frame_interval fps * frames) 200000000 else frame_interval fps * frames) \<le> 2000000000"
    by auto
  then show ?thesis by (simp add: rounds_def)
qed

text \<open>
  The rates of a session: the target rate is positive, so the C++ divisions by it are
  defined, and the profile deadline is one or two frames.
\<close>

definition rates :: "'w env \<Rightarrow> 'w sstate \<Rightarrow> bool" where
  "rates E x \<longleftrightarrow> (others_private E \<longrightarrow>
     caps_valid (s_capabilities (x_session x)) \<and> 0 < s_targetFps (x_session x) \<and> s_deadlineFrames (x_session x) \<le> 2)"

lemma private_deadline: "private_same s t \<Longrightarrow> s_deadlineFrames t = s_deadlineFrames s"
  by (auto simp: private_same_def)

lemma rates_others:
  assumes "rates E x"
  shows "rates E (e_others E x)"
  unfolding rates_def
proof
  assume E: "others_private E"
  then have same: "private_same (x_session x) (x_session (e_others E x))" by (simp add: others_private_def)
  show "caps_valid (s_capabilities (x_session (e_others E x))) \<and> 0 < s_targetFps (x_session (e_others E x)) \<and>
      s_deadlineFrames (x_session (e_others E x)) \<le> 2"
    using assms E private_deadline [OF same] private_same_fields(7,9) [OF same] by (simp add: rates_def)
qed

interpretation rates: session_base E "rates E" for E
  by unfold_locales (simp_all add: rates_others, simp_all add: rates_def)

lemma rates_hal: "stable (rates E) (in_hal d f)"
  by (auto simp: stable_def triple_def in_hal_def rates_def split: prod.splits option.splits)

lemma rates_modify:
  "(\<And>s. s_capabilities (g s) = s_capabilities s \<and> s_targetFps (g s) = s_targetFps s \<and>
     s_deadlineFrames (g s) = s_deadlineFrames s) \<Longrightarrow> stable (rates E) (modify_session g)"
  by (simp add: stable_def triple_def modify_session_def rates_def)

lemma rates_acquire: "stable (rates E) (acquireLoop E fuel epoch s deadline fence)"
  by (induction fuel arbitrary: fence)
    (auto intro!: stable_rules rates_hal rates.in_world_stable rates.others_stable rates.cancelled_stable
      rates.pause_stable simp: hal_acquireLatest_def)

lemma rates_emit: "stable (rates E) (emit e)"
  by (simp add: stable_def triple_def emit_def rates_def)

lemma rates_fail: "stable (rates E) (failUntouched rq pending)"
  unfolding failUntouched_def by (intro stable_rules rates_emit)

lemma rates_release: "stable (rates E) (releaseSource E s r a fs)"
  unfolding releaseSource_def by (intro stable_rules rates.others_stable rates_hal)

lemma rates_close: "stable (rates E) (session_close E)"
  unfolding session_close_def by (intro stable_rules rates.others_stable rates_hal rates_modify) simp

lemma rates_withFrame: "stable (rates E) (withFrame E fuel epoch s deadline rq ts pending q fence)"
  unfolding withFrame_def sendResult_def
  by (intro stable_rules rates_modify rates_fail rates_release rates_emit rates.fenceLoop_stable
      rates.cancelled_stable rates.current_stable rates.close_fd_stable rates.processOutputs_stable) simp

lemma rates_capture: "stable (rates E) (captureSource E fuel epoch rq ts pending)"
  unfolding captureSource_def
  by (intro stable_rules rates_modify rates_fail rates_release rates_acquire rates_withFrame
      rates.in_world_stable rates.cancelled_stable) simp

lemma rates_request: "stable (rates E) (processSingleRequest E fuel rq epoch)"
  unfolding processSingleRequest_def
  by (intro stable_rules rates_close rates_fail rates_capture rates.dupFences_stable rates.importAll_stable
      rates.waitDestinations_stable rates.paceFrame_stable rates.cancelled_stable rates.close_fd_stable)

text \<open>
  A rate entry whose upper bound is zero is not checked by \<open>select\<close>, which reads a zero as
  "any rate", and becomes the target rate.
\<close>

definition rate_ok :: "settings \<Rightarrow> bool" where
  "rate_ok st = (case st of Settings (Some [low, high]) q \<Rightarrow> high \<noteq> 0 | _ \<Rightarrow> True)"

lemma requested_rate:
  assumes "requested_mode s rate = Some (m, fps)" "rate_ok (Settings rate q)" "0 < s_targetFps s"
  shows "0 < fps"
proof (cases rate)
  case None
  then show ?thesis using assms by (simp add: requested_mode_def)
next
  case (Some r)
  then obtain low high where r: "r = [low, high]" and sel: "select (s_capabilities s) (s_outputs s) low high = Some m"
      and fps: "fps = min high (m_maxFps m)"
    using assms(1) by (auto simp: requested_mode_def split: list.splits option.splits)
  have "high \<noteq> 0" using assms(2) Some r by (simp add: rate_ok_def)
  then have "1 \<le> high" "0 < m_maxFps m"
    using select_SomeD(9) [OF sel] select_mode_ok [OF sel] by (auto simp: candidate_def rate_skipped_def mode_ok_def)
  then show ?thesis using fps by simp
qed

lemma rates_session_bind:
  assumes "\<And>s. (others_private E \<longrightarrow> 0 < s_targetFps s \<and> s_deadlineFrames s \<le> 2) \<Longrightarrow> triple (rates E) (f s) Q"
  shows "triple (rates E) (State_Monad.bind session f) Q"
proof -
  have "triple (rates E) session (\<lambda>s x. (others_private E \<longrightarrow> 0 < s_targetFps s \<and> s_deadlineFrames s \<le> 2) \<and> rates E x)"
    by (rule tripleI) (auto simp: session_def rates_def)
  then show ?thesis by (rule triple_bind) (rule triple_pure, rule assms)
qed

lemma rates_configure: "stable (rates E) (hal_notifyStreamsConfigured E slot owner w h fps)"
  unfolding hal_notifyStreamsConfigured_def by (rule rates_hal)

lemma rates_finish: "stable (rates E) (finish_settings quality)"
  unfolding finish_settings_def by (intro stable_rules rates_modify) simp

lemma rates_current: "stable (rates E) (hal_registrationCurrent slot reg)"
  unfolding hal_registrationCurrent_def by (rule rates_hal)

lemma rates_rate:
  assumes "others_private E \<longrightarrow> 0 < fps"
  shows "stable (rates E) (modify_session (\<lambda>s. s\<lparr>s_token := t, s_sourceMode := m, s_targetFps := fps,
    s_nextFrameNs := 0, s_startupWaitPending := True\<rparr>))"
  using assms by (simp add: stable_def triple_def modify_session_def rates_def)

lemma rates_settings:
  assumes "rate_ok st"
  shows "stable (rates E) (updateTargetFps E st)"
  unfolding updateTargetFps_def
proof (rule stable_bind [OF rates.others_stable], unfold stable_def, rule rates_session_bind)
  fix s :: session
  assume s: "others_private E \<longrightarrow> 0 < s_targetFps s \<and> s_deadlineFrames s \<le> 2"
  have set: "stable (rates E) (case requested_mode s rate of
            None \<Rightarrow> ret False
          | Some (m, fps) \<Rightarrow>
              if fps = s_targetFps s \<and> m_id m = m_id (s_sourceMode s) then finish_settings quality
              else if \<not> present then ret False
              else do {
                others E;
                token \<leftarrow> hal_notifyStreamsConfigured E (s_slot s) (s_identity s) (m_width m) (m_height m) fps;
                if token \<le> 0 then ret False
                else do {
                  modify_session (\<lambda>s. s\<lparr>s_token := token, s_sourceMode := m, s_targetFps := fps,
                    s_nextFrameNs := 0, s_startupWaitPending := True\<rparr>);
                  finish_settings quality } })" if st: "st = Settings rate quality" for rate quality present
  proof (cases "requested_mode s rate")
    case None
    then show ?thesis by (simp add: stable_return)
  next
    case (Some mf)
    obtain m fps where mf: "mf = (m, fps)" by (cases mf)
    have "others_private E \<longrightarrow> 0 < fps"
      using requested_rate [of s rate m fps quality] Some mf s assms st by auto
    note modify = rates_rate [OF this]
    show ?thesis
      unfolding Some mf option.case prod.case
      by (intro stable_if stable_bind stable_return rates_finish rates.others_stable rates_configure modify)
  qed
  show "triple (rates E) (do {
     present \<leftarrow> has_hal;
     current \<leftarrow> (if s_enforce s then hal_registrationCurrent (s_slot s) (registration (s_capabilities s))
        else ret True);
     if \<not> current then ret False
     else case st of
       NoSettings \<Rightarrow> ret True
     | Malformed \<Rightarrow> ret False
     | Settings rate quality \<Rightarrow>
         (case requested_mode s rate of
            None \<Rightarrow> ret False
          | Some (m, fps) \<Rightarrow>
              if fps = s_targetFps s \<and> m_id m = m_id (s_sourceMode s) then finish_settings quality
              else if \<not> present then ret False
              else do {
                others E;
                token \<leftarrow> hal_notifyStreamsConfigured E (s_slot s) (s_identity s) (m_width m) (m_height m) fps;
                if token \<le> 0 then ret False
                else do {
                  modify_session (\<lambda>s. s\<lparr>s_token := token, s_sourceMode := m, s_targetFps := fps,
                    s_nextFrameNs := 0, s_startupWaitPending := True\<rparr>);
                  finish_settings quality } }) }) (\<lambda>_. rates E)"
    unfolding stable_def [symmetric]
    by (intro stable_bind stable_has_hal stable_if stable_return rates_current, cases st)
      (simp_all only: settings.case stable_return set)
qed

lemma captureSource_returns:
  assumes "others_private E" "clocked E clock woken" "1001 \<le> fuel"
  shows "triple (rates E) (captureSource E fuel epoch rq ts pending) (\<lambda>r _. r \<noteq> None)"
  unfolding captureSource_def
proof (rule rates_session_bind, rule triple_ends)
  fix s :: session and present :: bool
  let ?Q = "\<lambda>r _. r \<noteq> (None :: camera_status option)"
  let ?budget = "frame_interval (s_targetFps s) * s_deadlineFrames s"
  assume "others_private E \<longrightarrow> 0 < s_targetFps s \<and> s_deadlineFrames s \<le> 2"
  then have s: "0 < s_targetFps s" "s_deadlineFrames s \<le> 2" using assms(1) by auto
  have answer: "triple P (ret (Some v)) ?Q" for P :: "'a sstate \<Rightarrow> bool" and v by (rule triple_return) simp
  let ?deadline = "\<lambda>now. now + (if s_startupWaitPending s then max ?budget 200000000 else ?budget)"
  have enough: "rounds (?deadline now) now \<le> fuel" for now
    using budget_rounds [OF s, of now "s_startupWaitPending s"] assms(3) by (rule order_trans)
  have now: "triple (\<lambda>_. True) (in_world (e_now E)) (\<lambda>now. since clock (woken epoch) now)"
    by (rule tripleI) (auto simp: in_world_def split_beta since_def clockedD(12) [OF assms(2)])
  note poll = acquireLoop_returns [OF assms(2) enough] and fill = withFrame_returns [OF assms(2) enough]
  have got: "triple (\<lambda>x. got \<noteq> None \<and> since clock (woken epoch) now x) (case got of
         None \<Rightarrow> ret None
       | Some (None, fence) \<Rightarrow> do { failUntouched rq pending; ret (Some CS_OK) }
       | Some (Some q, fence) \<Rightarrow> do {
           stop \<leftarrow> cancelled E epoch;
           if stop then do {
             failUntouched rq pending;
             releaseSource E s (Some q) fence [];
             ret (Some CS_OK) }
           else withFrame E fuel epoch s (?deadline now) rq ts pending q fence }) ?Q" for got now
  proof (rule triple_pure)
    assume "got \<noteq> None"
    then obtain r fence where got: "got = Some (r, fence)" by auto
    show "triple (since clock (woken epoch) now) (case got of
         None \<Rightarrow> ret None
       | Some (None, fence) \<Rightarrow> do { failUntouched rq pending; ret (Some CS_OK) }
       | Some (Some q, fence) \<Rightarrow> do {
           stop \<leftarrow> cancelled E epoch;
           if stop then do {
             failUntouched rq pending;
             releaseSource E s (Some q) fence [];
             ret (Some CS_OK) }
           else withFrame E fuel epoch s (?deadline now) rq ts pending q fence }) ?Q"
    proof (cases r)
      case None
      then show ?thesis unfolding got by (simp del: not_None_eq) (intro triple_ends answer)
    next
      case (Some q)
      have "triple (\<lambda>x. since clock (woken epoch) now x \<and> (stop \<or> now \<le> clock (x_world x)))
          (if stop then do { failUntouched rq pending; releaseSource E s (Some q) fence []; ret (Some CS_OK) }
           else withFrame E fuel epoch s (?deadline now) rq ts pending q fence) ?Q" for stop
        by (intro triple_if triple_ends answer triple_pre [OF fill]) simp
      then show ?thesis
        unfolding got Some option.case prod.case by (rule triple_bind [OF cancelled_since [OF assms(2)]])
    qed
  qed
  show "triple (\<lambda>_. True) (if \<not> present \<or> s_token s \<le> 0 then do { failUntouched rq pending; ret (Some CS_OK) }
     else do {
       let budget = ?budget;
       modify_session (\<lambda>s. s\<lparr>s_startupWaitPending := False\<rparr>);
       now \<leftarrow> in_world (e_now E);
       let deadline = now + (if s_startupWaitPending s then max budget 200000000 else budget);
       got \<leftarrow> acquireLoop E fuel epoch s deadline (-1);
       case got of
         None \<Rightarrow> ret None
       | Some (None, fence) \<Rightarrow> do { failUntouched rq pending; ret (Some CS_OK) }
       | Some (Some q, fence) \<Rightarrow> do {
           stop \<leftarrow> cancelled E epoch;
           if stop then do {
             failUntouched rq pending;
             releaseSource E s (Some q) fence [];
             ret (Some CS_OK) }
           else withFrame E fuel epoch s deadline rq ts pending q fence } }) ?Q"
    unfolding Let_def
    by (rule triple_if, (intro triple_ends answer)[1], rule triple_ends, rule triple_bind [OF now],
        rule triple_bind [OF poll], rule got)
qed

lemma processSingleRequest_returns:
  assumes "others_private E" "clocked E clock woken" "1001 \<le> fuel"
  shows "triple (rates E) (processSingleRequest E fuel rq epoch) (\<lambda>r x. r \<noteq> None \<and> rates E x)"
proof -
  have answer: "triple P (ret (Some v)) (\<lambda>r _. r \<noteq> (None :: camera_status option))" for P :: "'a sstate \<Rightarrow> bool" and v
    by (rule triple_return) simp
  have waited: "triple P (case failed of None \<Rightarrow> m | Some l \<Rightarrow> n l) Q"
    if "triple P m Q" "\<And>l. triple P (n l) Q" for P failed Q and m :: "('a, camera_status option) sm" and n :: "int list \<Rightarrow> ('a, camera_status option) sm"
    using that by (cases failed) simp_all
  have "triple (rates E) (processSingleRequest E fuel rq epoch) (\<lambda>r _. r \<noteq> None)"
    unfolding processSingleRequest_def Let_def
    by (intro triple_skip [OF rates.dupFences_stable] triple_prod triple_if triple_ends answer waited
        triple_skip [OF rates.importAll_stable] triple_skip [OF rates.waitDestinations_stable]
        triple_skip [OF rates.paceFrame_stable] triple_skip [OF rates.cancelled_stable] captureSource_returns [OF assms])
  moreover have "triple (rates E) (processSingleRequest E fuel rq epoch) (\<lambda>_. rates E)"
    using rates_request by (rule stable_triple)
  ultimately show ?thesis by (auto simp: triple_def split_beta)
qed

lemma processRequests_returns:
  assumes "others_private E" "clocked E clock woken" "1001 \<le> fuel" "\<And>rq. rq \<in> set rqs \<Longrightarrow> rate_ok (rq_settings rq)"
  shows "triple (rates E) (processRequests E fuel epoch n rqs) (\<lambda>r x. r \<noteq> None \<and> rates E x)"
  using assms(4)
proof (induction rqs arbitrary: n)
  case Nil
  show ?case by (simp add: triple_return)
next
  case (Cons rq rqs)
  let ?Q = "\<lambda>r x. r \<noteq> None \<and> rates E x"
  have answer: "triple (rates E) (ret (Some v)) ?Q" for v :: "camera_status \<times> int" by (rule triple_return) simp
  have next': "triple (\<lambda>x. st \<noteq> None \<and> rates E x) (case st of
           None \<Rightarrow> ret None
         | Some CS_OK \<Rightarrow> processRequests E fuel epoch (n + 1) rqs
         | Some code \<Rightarrow> ret (Some (code, n))) ?Q" for st
  proof (rule triple_pure)
    have rest: "triple (rates E) (processRequests E fuel epoch (n + 1) rqs) ?Q" using Cons by simp
    assume "st \<noteq> None"
    then obtain code where "st = Some code" by auto
    then show "triple (rates E) (case st of
           None \<Rightarrow> ret None
         | Some CS_OK \<Rightarrow> processRequests E fuel epoch (n + 1) rqs
         | Some code \<Rightarrow> ret (Some (code, n))) ?Q"
      using rest answer by (cases code) (simp_all del: not_None_eq)
  qed
  show ?case
    unfolding processRequests.simps
    by (intro triple_skip [OF stable_session] triple_if answer triple_skip [OF rates_settings] Cons.prems
        triple_bind [OF processSingleRequest_returns [OF assms(1-3)] next']) simp
qed


text \<open>
  A rate range with an upper bound of zero is accepted for every selectable mode: the rate it
  asks for is zero, and the frame interval, the next thing computed from it, divides by it.
\<close>

theorem zero_rate_accepted:
  assumes "select (s_capabilities s) (s_outputs s) low 0 = Some m"
  shows "requested_mode s (Some [low, 0]) = Some (m, 0)"
proof -
  have "0 < m_maxFps m" using select_mode_ok [OF assms] by (simp add: mode_ok_def)
  then show ?thesis using assms by (simp add: requested_mode_def)
qed

text \<open>A world that is only its clock.\<close>

definition clock_env :: "int env" where
  "clock_env = \<lparr>e_sys = \<lparr>sys_dup = (\<lambda>fd w. (fd, w)), sys_close = (\<lambda>_ w. w), sys_sync_wait = (\<lambda>_ _ w. (1, w)),
       sys_sync_merge = (\<lambda>f _ w. (f, w))\<rparr>,
     e_gfx = \<lparr>gfx_acquire = (\<lambda>_ w. w), gfx_release = (\<lambda>_ w. w), gfx_dupFromAidl = (\<lambda>_ w. (None, w)),
       gfx_createFromHandle = (\<lambda>_ _ w. (0, None, w)), gfx_closeHandle = (\<lambda>_ w. w)\<rparr>,
     e_others = (\<lambda>x. x), e_now = (\<lambda>w. (w, w)), e_waitUntil = max,
     e_makeFromAidl = (\<lambda>_ w. (None, w)), e_deleteHandle = (\<lambda>_ w. w), e_importBuffer = (\<lambda>_ w. (None, w)),
     e_freeBuffer = (\<lambda>_ w. w), e_lock = (\<lambda>_ _ w. (False, w)), e_unlock = (\<lambda>_ w. w),
     e_lockYCbCr = (\<lambda>_ _ _ w. (False, w)), e_encodeToBlob = (\<lambda>_ _ _ _ _ _ _ w. (0, w)),
     e_compositeToYcbcr = (\<lambda>_ _ _ _ _ w. (False, w)), e_composite = (\<lambda>_ _ _ _ _ _ w. (False, -1, w)),
     e_fillFromAHardwareBuffer = (\<lambda>_ _ _ _ w. (False, w))\<rparr>"

definition clock_state :: "int sstate" where
  "clock_state = \<lparr>x_session = demo_session, x_hal = None, x_world = 5, x_events = []\<rparr>"


theorem zero_rate_accepted_witness:
  "requested_mode ((session_init 0 None False 1)\<lparr>s_outputs := [\<lparr>o_format = 0x23, o_width = 640, o_height = 480\<rparr>]\<rparr>)
     (Some [0, 0]) = Some (modes diagnostic ! 3, 0)"
proof -
  have "select (s_capabilities ((session_init 0 None False 1)\<lparr>s_outputs := [\<lparr>o_format = 0x23, o_width = 640, o_height = 480\<rparr>]\<rparr>))
      (s_outputs ((session_init 0 None False 1)\<lparr>s_outputs := [\<lparr>o_format = 0x23, o_width = 640, o_height = 480\<rparr>]\<rparr>)) 0 0 =
      Some (modes diagnostic ! 3)" by code_simp
  then show ?thesis by (rule zero_rate_accepted)
qed

end
