(* ===== verification/Device.thy ===== *)
theory Device
  imports Hal_Theorems Session_Guarantee
begin

text \<open>
  \<open>hal/aidl-v1/VirtualCameraDevice.{h,cpp}\<close> and the lookup of a device in
  \<open>VirtualCameraProvider::getCameraDeviceInterface\<close>: how an enumerated camera becomes a
  session of the stable build.
\<close>

section \<open>A camera device\<close>

record device =
  dv_cameraId :: string
  dv_slot :: int
  dv_capabilities :: "ProducerCapabilities option"
  dv_characteristics :: metadata

definition device_create :: "string \<Rightarrow> int \<Rightarrow> ProducerCapabilities option \<Rightarrow> device" where
  "device_create cameraId slot capabilities = \<lparr>dv_cameraId = cameraId, dv_slot = slot,
     dv_capabilities = capabilities, dv_characteristics = buildCameraCharacteristics capabilities\<rparr>"

definition getCameraCharacteristics :: "device \<Rightarrow> camera_status \<times> metadata" where
  "getCameraCharacteristics d = (CS_OK, dv_characteristics d)"

definition getPhysicalCameraCharacteristics :: "string \<Rightarrow> device \<Rightarrow> camera_status" where
  "getPhysicalCameraCharacteristics physicalCameraId d = ILLEGAL_ARGUMENT"

text \<open>The cost and the list of conflicting devices.\<close>

definition getResourceCost :: "device \<Rightarrow> camera_status \<times> int \<times> string list" where
  "getResourceCost d = (CS_OK, 50, [])"

definition device_isStreamCombinationSupported :: "stream list \<Rightarrow> device \<Rightarrow> camera_status \<times> bool" where
  "device_isStreamCombinationSupported streams d =
     (CS_OK, isStreamCombinationSupported (map desc_of_stream streams) (dv_capabilities d))"

text \<open>
  \<open>open\<close>: without a callback nothing is created. The property \<open>vendor.vcam.yuv.cpu\<close>, read by the
  session's constructor, is \<open>forceCpuYuv\<close>.
\<close>

definition device_open :: "bool \<Rightarrow> nat option \<Rightarrow> device \<Rightarrow> hal option \<Rightarrow> camera_status \<times> session option \<times> hal option" where
  "device_open forceCpuYuv callback d hal_opt = (case callback of
       None \<Rightarrow> (ILLEGAL_ARGUMENT, None, hal_opt)
     | Some cb \<Rightarrow> let (s, hal1) = session_create (dv_slot d) (dv_capabilities d) forceCpuYuv hal_opt in
         (CS_OK, Some s, hal1))"

definition openInjectionSession :: "device \<Rightarrow> camera_status" where
  "openInjectionSession d = OPERATION_NOT_SUPPORTED"

definition setTorchMode :: "bool \<Rightarrow> device \<Rightarrow> camera_status" where
  "setTorchMode torch d = OPERATION_NOT_SUPPORTED"

definition turnOnTorchWithStrengthLevel :: "int \<Rightarrow> device \<Rightarrow> camera_status" where
  "turnOnTorchWithStrengthLevel strength d = OPERATION_NOT_SUPPORTED"

definition getTorchStrengthLevel :: "device \<Rightarrow> camera_status" where
  "getTorchStrengthLevel d = OPERATION_NOT_SUPPORTED"

text \<open>
  The provider's lookup. \<open>VirtualCameraStableHal::get()\<close> is the published instance, if any;
  the exception of \<open>std::stoi\<close> is not caught.
\<close>

definition getCameraDeviceInterface :: "string \<Rightarrow> hal option \<Rightarrow> cxx_exception + (camera_status \<times> device option)" where
  "getCameraDeviceInterface cameraDeviceId hal_opt = (case slotForDeviceId cameraDeviceId of
       Inl e \<Rightarrow> Inl e
     | Inr slot \<Rightarrow>
         if slot < 0 then Inr (ILLEGAL_ARGUMENT, None)
         else case (case hal_opt of None \<Rightarrow> None | Some h \<Rightarrow> hal_capabilities slot h) of
             None \<Rightarrow> Inr (ILLEGAL_ARGUMENT, None)
           | Some c \<Rightarrow> Inr (CS_OK, Some (device_create cameraDeviceId slot (Some c))))"

section \<open>Enumerated cameras open\<close>

lemma valid_slot_id: "validSlot slot \<Longrightarrow> slotForDeviceId (deviceIdForSlot slot) = Inr slot"
  by (subst slotForDeviceId_deviceIdForSlot)
    (simp_all add: validSlot_def kFirstVirtualCameraNumber_def kMaxVirtualCameras_def INT32_MAX_def)

lemma lookup_capabilities:
  "validSlot slot \<Longrightarrow> getCameraDeviceInterface (deviceIdForSlot slot) (Some h) = (case hal_capabilities slot h of
       None \<Rightarrow> Inr (ILLEGAL_ARGUMENT, None)
     | Some c \<Rightarrow> Inr (CS_OK, Some (device_create (deviceIdForSlot slot) slot (Some c))))"
  by (simp add: getCameraDeviceInterface_def valid_slot_id) (simp add: validSlot_def)

lemma lookup_slot:
  "getCameraDeviceInterface i (Some h) = Inr (st, Some d) \<Longrightarrow>
   validSlot (dv_slot d) \<and> dv_capabilities d = hal_capabilities (dv_slot d) h \<and> dv_capabilities d \<noteq> None"
  using slotForDeviceId_range [of i]
  by (auto simp: getCameraDeviceInterface_def device_create_def split: sum.splits if_splits option.splits)

lemma presence_listed:
  assumes "presence_inv h" "mProvider h = Some p" "validSlot slot"
  shows "deviceIdForSlot slot \<in> set (getCameraIdList p) \<longleftrightarrow> hal_capabilities slot h \<noteq> None"
proof -
  have "deviceIdForSlot slot \<in> set (getCameraIdList p) \<longleftrightarrow> mSlotPresent p slot"
    using assms(3) deviceIdForSlot_inj [of slot] by (auto simp: getCameraIdList_def validSlot_def)
  then show ?thesis using assms by (auto simp: presence_inv_def hal_capabilities_def)
qed

text \<open>
  C23: In every reachable state of the service, an enumerated camera has a device with the
  producer's valid capabilities and their characteristics, and opening it gives a session
  that enforces these capabilities, for that slot, with an identity above every one handed
  out before, so that the session can take the slot over. The device answers for a stream
  combination as the session does. A camera of a slot that is not enumerated has no device.
\<close>

theorem listed_camera_opens:
  assumes "hal_start h0" and "1 \<le> K" and "hal_run S G K (h0, w0) (h, w)"
    and "mProvider h = Some p" and "validSlot slot" and "mNextIdentity h < INT64_MAX"
  shows "(if deviceIdForSlot slot \<in> set (getCameraIdList p)
     then \<exists>d c s h'. getCameraDeviceInterface (deviceIdForSlot slot) (Some h) = Inr (CS_OK, Some d) \<and>
       dv_slot d = slot \<and> dv_capabilities d = Some c \<and> caps_valid c \<and>
       getCameraCharacteristics d = (CS_OK, buildCameraCharacteristics (Some c)) \<and>
       device_open f (Some cb) d (Some h) = (CS_OK, Some s, Some h') \<and>
       s_slot s = slot \<and> s_enforce s \<and> s_capabilities s = c \<and> \<not> s_closed s \<and>
       s_identity s = mNextIdentity h' \<and> mNextIdentity h < s_identity s \<and> mSessionOwners h slot < s_identity s \<and>
       (\<forall>streams. device_isStreamCombinationSupported streams d =
          (CS_OK, isStreamCombinationSupported (map desc_of_stream streams) (Some (s_capabilities s))))
     else getCameraDeviceInterface (deviceIdForSlot slot) (Some h) = Inr (ILLEGAL_ARGUMENT, None))"
proof -
  have inv: "hal_inv K h" using reachable_inv [OF assms(3,1,2)] .
  then have presence: "presence_inv h" and core: "core_inv K h" by (simp_all add: hal_inv_def)
  note listed = presence_listed [OF presence assms(4,5)]
  show ?thesis
  proof (cases "hal_capabilities slot h")
    case None
    then show ?thesis using listed assms(5) by (simp add: lookup_capabilities)
  next
    case (Some c)
    have valid: "caps_valid c" using presence Some assms(5) by (simp add: presence_inv_def hal_capabilities_def)
    define d where "d = device_create (deviceIdForSlot slot) slot (Some c)"
    obtain s h' where open': "device_open f (Some cb) d (Some h) = (CS_OK, Some s, Some h')"
        and h': "h' = h\<lparr>mNextIdentity := mNextIdentity h + 1\<rparr>"
        and s: "s = session_init slot (Some c) f (mNextIdentity h + 1)"
      using assms(6) by (simp add: device_open_def session_create_def allocateSessionIdentity_def d_def device_create_def)
    have "mSessionOwners h slot \<le> mNextIdentity h" using core by (simp add: core_inv_def identity_inv_def within_def)
    then have "\<exists>d c s h'. getCameraDeviceInterface (deviceIdForSlot slot) (Some h) = Inr (CS_OK, Some d) \<and>
       dv_slot d = slot \<and> dv_capabilities d = Some c \<and> caps_valid c \<and>
       getCameraCharacteristics d = (CS_OK, buildCameraCharacteristics (Some c)) \<and>
       device_open f (Some cb) d (Some h) = (CS_OK, Some s, Some h') \<and>
       s_slot s = slot \<and> s_enforce s \<and> s_capabilities s = c \<and> \<not> s_closed s \<and>
       s_identity s = mNextIdentity h' \<and> mNextIdentity h < s_identity s \<and> mSessionOwners h slot < s_identity s \<and>
       (\<forall>streams. device_isStreamCombinationSupported streams d =
          (CS_OK, isStreamCombinationSupported (map desc_of_stream streams) (Some (s_capabilities s))))"
      using Some valid open' h' s assms(5)
      by (intro exI [of _ d] exI [of _ c] exI [of _ s] exI [of _ h'])
        (simp add: lookup_capabilities d_def device_create_def getCameraCharacteristics_def session_init_def
          device_isStreamCombinationSupported_def capabilities_or_diagnostic_def)
    then show ?thesis using listed Some by simp
  qed
qed

theorem listed_camera_opens_witness:
  "\<exists>d. getCameraDeviceInterface (deviceIdForSlot 2) (Some demo_hal) = Inr (CS_OK, Some d) \<and> dv_slot d = 2"
proof -
  obtain p where p: "mProvider demo_hal = Some p" using demo_fields by auto
  have slot: "validSlot 2" by (simp add: validSlot_def kMaxVirtualCameras_def)
  have "hal_inv 1 demo_hal" using reachable_inv [OF demo_run demo_start(1)] by simp
  moreover have "hal_capabilities 2 demo_hal \<noteq> None" using slot by (simp add: hal_capabilities_def demo_fields)
  ultimately have listed: "deviceIdForSlot 2 \<in> set (getCameraIdList p)"
    using presence_listed [OF _ p slot] by (simp add: hal_inv_def)
  have "mNextIdentity demo_hal < INT64_MAX" by (simp add: demo_fields INT64_MAX_def)
  from listed_camera_opens [OF demo_start(1) _ demo_run p slot this, of False 1] listed show ?thesis by auto
qed

section \<open>Unusual device ids\<close>

text \<open>
  An id with more digits than an \<open>int\<close> holds makes the lookup throw, and leading zeros name a
  camera under an id that is not in the list.
\<close>

theorem long_id_throws:
  "getCameraDeviceInterface (device_prefix @ ''99999999999'') hal_opt = Inl StdOutOfRange"
proof -
  have "digits_value ''99999999999'' = 99999999999" by (simp add: digits_value_def digit_val_def)
  moreover have "\<forall>c \<in> set ''99999999999''. is_digit c" by (simp add: is_digit_def)
  ultimately have "slotForDeviceId (device_prefix @ ''99999999999'') = Inl StdOutOfRange"
    by (simp add: slotForDeviceId_def stoi_digits_def INT32_MAX_def Let_def)
  then show ?thesis by (simp add: getCameraDeviceInterface_def)
qed

theorem leading_zeros_accepted:
  "slotForDeviceId (device_prefix @ ''0100'') = Inr 0 \<and> deviceIdForSlot 0 \<noteq> device_prefix @ ''0100''"
  by code_simp

end
