(* ===== verification/Jpeg_Blob.thy ===== *)
theory Jpeg_Blob
  imports Fill_Theorems
begin

text \<open>
  \<open>hal/core/JpegEncoder.{h,cpp}\<close>: a still image in a BLOB buffer. libjpeg is a parameter: from
  the quality and the rows it is given it makes a byte string, or none. Modelled are the checks,
  the rows read from the source, and the layout of the buffer with the trailer the framework
  reads.
\<close>

section \<open>The trailer\<close>

text \<open>
  \<open>struct JpegBlob\<close>: a 16-bit id, two bytes of padding with no defined value (\<open>pad\<close>), and the
  32-bit size, both little endian.
\<close>

definition kJpegBlobId :: int where "kJpegBlobId = 0x00FF"

definition sizeof_JpegBlob :: int where "sizeof_JpegBlob = 8"

definition byte_of :: "int \<Rightarrow> nat \<Rightarrow> 8 word" where
  "byte_of v k = word_of_int (v div 256 ^ k)"

definition jpeg_trailer :: "8 word \<Rightarrow> 8 word \<Rightarrow> int \<Rightarrow> 8 word list" where
  "jpeg_trailer pad1 pad2 n =
     [byte_of kJpegBlobId 0, byte_of kJpegBlobId 1, pad1, pad2,
      byte_of n 0, byte_of n 1, byte_of n 2, byte_of n 3]"

definition put_bytes :: "int \<Rightarrow> 8 word list \<Rightarrow> mem \<Rightarrow> mem" where
  "put_bytes a bs = fold (\<lambda>i m. m(a + int i := bs ! i)) [0..<length bs]"

section \<open>Encoding\<close>

text \<open>
  The library and graphics calls: \<open>je_compress\<close> gets the quality, the width and the rows.
\<close>

record 'w jpeg_env =
  je_describe :: "ahb \<Rightarrow> ahb_desc"
  je_wait :: "int \<Rightarrow> int \<Rightarrow> 'w \<Rightarrow> int \<times> 'w"
  je_lock :: "ahb \<Rightarrow> 'w \<Rightarrow> int option \<times> 'w"
  je_bytes :: "'w \<Rightarrow> mem"
  je_compress :: "int \<Rightarrow> int \<Rightarrow> 8 word list list \<Rightarrow> 8 word list"
  je_unlock :: "ahb \<Rightarrow> 'w \<Rightarrow> 'w"
  je_pad :: "'w \<Rightarrow> 8 word \<times> 8 word"

definition same_size :: "ahb_desc \<Rightarrow> int \<Rightarrow> int \<Rightarrow> bool" where
  "same_size d width height = (ad_width d = width \<and> ad_height d = height)"

text \<open>The source address of pixel \<open>x\<close> of output row \<open>y\<close>, and an output row of RGBA bytes.\<close>

definition source_pixel :: "ahb_desc \<Rightarrow> int \<Rightarrow> int \<Rightarrow> int \<Rightarrow> int \<Rightarrow> int \<Rightarrow> int" where
  "source_pixel d base width height x y =
     (if same_size d width height then base + y * (ad_stride d * 4) + x * 4
      else base + y * ad_height d div height * (ad_stride d * 4) + x * ad_width d div width * 4)"

definition jpeg_line :: "mem \<Rightarrow> ahb_desc \<Rightarrow> int \<Rightarrow> int \<Rightarrow> int \<Rightarrow> int \<Rightarrow> 8 word list" where
  "jpeg_line s d base width height y = concat (map (\<lambda>x.
     map (\<lambda>k. s (source_pixel d base width height (int x) y + k)) [0, 1, 2, 3]) [0..<nat width])"

definition jpeg_quality :: "int \<Rightarrow> int" where
  "jpeg_quality quality = (if 0 < quality \<and> quality \<le> 100 then quality else 90)"

text \<open>
  \<open>acquireFenceReady\<close> with a GPU wait that always fails: no fence, or the CPU wait succeeds.
\<close>

definition encodeToBlob ::
  "'w jpeg_env \<Rightarrow> ahb option \<Rightarrow> int \<Rightarrow> int \<Rightarrow> int \<Rightarrow> int \<Rightarrow> int option \<Rightarrow> int \<Rightarrow> mem \<Rightarrow> 'w \<Rightarrow> int \<times> mem \<times> 'w" where
  "encodeToBlob J src acquireFenceFd width height quality dst capacity m w = (case (src, dst) of
       (Some a, Some at) \<Rightarrow>
         if width \<le> 0 \<or> height \<le> 0 \<or> capacity \<le> sizeof_JpegBlob then (0, m, w)
         else
           let d = je_describe J a in
           if ad_format d \<noteq> 1 \<and> ad_format d \<noteq> 2 then (0, m, w)
           else
             let (ready, w1) = acquireFenceReady acquireFenceFd (\<lambda>fd w. (False, w)) (je_wait J) w in
             if \<not> ready then (0, m, w1)
             else (case je_lock J a w1 of
                 (None, w2) \<Rightarrow> (0, m, w2)
               | (Some base, w2) \<Rightarrow>
                   let out = je_compress J (jpeg_quality quality) width
                         (map (\<lambda>y. jpeg_line (je_bytes J w2) d base width height (int y)) [0..<nat height]);
                       n = int (length out);
                       w3 = je_unlock J a w2 in
                   if 0 < n \<and> n + sizeof_JpegBlob \<le> capacity
                   then (n, put_bytes (at + capacity - sizeof_JpegBlob)
                       (jpeg_trailer (fst (je_pad J w3)) (snd (je_pad J w3)) n) (put_bytes at out m), w3)
                   else (0, m, w3))
     | _ \<Rightarrow> (0, m, w))"

text \<open>What the framework reads: the id and the size in the last eight bytes of the buffer.\<close>

definition le_value :: "mem \<Rightarrow> int \<Rightarrow> nat \<Rightarrow> int" where
  "le_value m a n = sum_list (map (\<lambda>i. uint (m (a + int i)) * 256 ^ i) [0..<n])"

definition read_blob :: "mem \<Rightarrow> int \<Rightarrow> int \<Rightarrow> int option" where
  "read_blob m a capacity =
     (if le_value m (a + capacity - sizeof_JpegBlob) 2 = kJpegBlobId
      then Some (le_value m (a + capacity - 4) 4) else None)"

section \<open>The blob is found\<close>

lemma put_bytes_at: "put_bytes a bs m b = (if a \<le> b \<and> b < a + int (length bs) then bs ! nat (b - a) else m b)"
proof -
  have "fold (\<lambda>i m. m(a + int i := bs ! i)) [0..<k] m b = (if a \<le> b \<and> b < a + int k then bs ! nat (b - a) else m b)" for k
    by (induction k) auto
  then show ?thesis by (simp add: put_bytes_def)
qed

lemma byte_value: "uint (byte_of v k) = v div 256 ^ k mod 256"
  by (simp add: byte_of_def uint_word_of_int)

lemma four_bytes:
  fixes n :: int
  assumes "0 \<le> n" "n < 4294967296"
  shows "n mod 256 + n div 256 mod 256 * 256 + n div 65536 mod 256 * 65536 + n div 16777216 mod 256 * 16777216 = n"
proof -
  define a b c where "a = n div 256" and "b = a div 256" and "c = b div 256"
  have "n div 65536 = b" "n div 16777216 = c"
    unfolding a_def b_def c_def by (simp_all add: zdiv_zmult2_eq [symmetric])
  moreover have "n = 256 * a + n mod 256" "a = 256 * b + a mod 256" "b = 256 * c + b mod 256"
    unfolding a_def b_def c_def by simp_all
  moreover have "0 \<le> c" "c < 256" using assms calculation(2) by (auto simp: pos_imp_zdiv_nonneg_iff)
  ultimately show ?thesis unfolding a_def [symmetric] by simp
qed

lemma trailer_found:
  assumes "0 \<le> n" "n < 4294967296"
  shows "read_blob (put_bytes (at + capacity - sizeof_JpegBlob) (jpeg_trailer p q n) m) at capacity = Some n"
proof -
  have two: "[0..<2] = [0, 1 :: nat]" by (simp add: upt_rec)
  have id: "le_value (put_bytes (at + capacity - sizeof_JpegBlob) (jpeg_trailer p q n) m) (at + capacity - sizeof_JpegBlob) 2
      = kJpegBlobId"
    by (simp add: le_value_def two put_bytes_at jpeg_trailer_def byte_value kJpegBlobId_def sizeof_JpegBlob_def)
  have four: "[0..<4] = [0, 1, 2, 3 :: nat]" by (simp add: upt_rec)
  have "le_value (put_bytes (at + capacity - sizeof_JpegBlob) (jpeg_trailer p q n) m) (at + capacity - 4) 4 =
      n mod 256 + n div 256 mod 256 * 256 + n div 65536 mod 256 * 65536 + n div 16777216 mod 256 * 16777216"
    by (simp add: le_value_def four put_bytes_at jpeg_trailer_def byte_value sizeof_JpegBlob_def)
  then have "le_value (put_bytes (at + capacity - sizeof_JpegBlob) (jpeg_trailer p q n) m) (at + capacity - 4) 4 = n"
    by (rule trans) (rule four_bytes [OF assms])
  then show ?thesis using id by (simp add: read_blob_def)
qed

lemma encodeE:
  assumes "encodeToBlob J src fence width height quality dst capacity m w = (n, m', w')"
  obtains (none) "n = 0" "m' = m"
  | (blob) at out p q where "dst = Some at" "n = int (length out)" "0 < n" "n + sizeof_JpegBlob \<le> capacity"
      "m' = put_bytes (at + capacity - sizeof_JpegBlob) (jpeg_trailer p q n) (put_bytes at out m)"
proof (cases "\<exists>a at. src = Some a \<and> dst = Some at \<and> \<not> (width \<le> 0 \<or> height \<le> 0 \<or> capacity \<le> sizeof_JpegBlob)")
  case False
  then show thesis using assms by (intro none) (auto simp: encodeToBlob_def split: option.splits if_splits)
next
  case True
  then obtain a at where ptr: "src = Some a" "dst = Some at"
    and ok: "(width \<le> 0 \<or> height \<le> 0 \<or> capacity \<le> sizeof_JpegBlob) = False" by auto
  obtain ready w1 where wait: "acquireFenceReady fence (\<lambda>fd w. (False, w)) (je_wait J) w = (ready, w1)" by fastforce
  obtain base w2 where lock: "je_lock J a w1 = (base, w2)" by fastforce
  show thesis
  proof (cases "base = None \<or> \<not> ready \<or> ad_format (je_describe J a) \<noteq> 1 \<and> ad_format (je_describe J a) \<noteq> 2")
    case True
    then show thesis using assms ptr ok wait lock
      by (intro none) (auto simp: encodeToBlob_def Let_def split: if_splits)
  next
    case False
    then obtain b where b: "base = Some b" by auto
    define out where "out = je_compress J (jpeg_quality quality) width
      (map (\<lambda>y. jpeg_line (je_bytes J w2) (je_describe J a) b width height (int y)) [0..<nat height])"
    define w3 where "w3 = je_unlock J a w2"
    have run: "(n, m', w') = (if 0 < int (length out) \<and> int (length out) + sizeof_JpegBlob \<le> capacity
      then (int (length out), put_bytes (at + capacity - sizeof_JpegBlob)
        (jpeg_trailer (fst (je_pad J w3)) (snd (je_pad J w3)) (int (length out))) (put_bytes at out m), w3)
      else (0, m, w3))"
      using assms False ptr ok wait lock b
      by (simp only: encodeToBlob_def Let_def out_def w3_def option.case prod.case if_False) auto
    show thesis
    proof (cases "0 < int (length out) \<and> int (length out) + sizeof_JpegBlob \<le> capacity")
      case True
      then show thesis using run ptr(2) blob [of at out "fst (je_pad J w3)" "snd (je_pad J w3)"] by simp
    next
      case False
      then show thesis using run none by auto
    qed
  qed
qed


text \<open>
  Every pixel read for the encoder is a pixel of the source, whatever the sizes: the
  nearest-neighbour index never leaves the source's rows and columns.
\<close>

theorem jpeg_reads_in_bounds:
  assumes "0 < ad_width d" "0 < ad_height d" "0 \<le> x" "x < width" "0 \<le> y" "y < height"
  shows "\<exists>sx sy. 0 \<le> sx \<and> sx < ad_width d \<and> 0 \<le> sy \<and> sy < ad_height d \<and>
    source_pixel d base width height x y = base + sy * (ad_stride d * 4) + sx * 4"
proof -
  have scale: "0 \<le> i * n div k \<and> i * n div k < n" if "0 \<le> i" "i < k" "0 < n" for i n k :: int
  proof
    show "0 \<le> i * n div k" using that by (simp add: pos_imp_zdiv_nonneg_iff)
    have "i * n < n * k" using that by (simp add: mult.commute)
    moreover have "i * n div k * k \<le> i * n" using that div_mult_mod_eq [of "i * n" k] pos_mod_sign [of k "i * n"] by linarith
    ultimately have "i * n div k * k < n * k" by linarith
    then show "i * n div k < n" using that by simp
  qed
  show ?thesis
  proof (cases "same_size d width height")
    case True
    then show ?thesis using assms
      by (intro exI [of _ x] exI [of _ y]) (auto simp: same_size_def source_pixel_def)
  next
    case False
    then show ?thesis using scale [OF assms(3,4,1)] scale [OF assms(5,6,2)]
      by (intro exI [of _ "x * ad_width d div width"] exI [of _ "y * ad_height d div height"]) (simp add: source_pixel_def)
  qed
qed

text \<open>A source of 8 by 4 pixels, compressed to four bytes.\<close>

definition demo_jpeg :: "unit jpeg_env" where
  "demo_jpeg = \<lparr>je_describe = (\<lambda>_. \<lparr>ad_width = 8, ad_height = 4, ad_format = 1, ad_stride = 8\<rparr>), je_wait = (\<lambda>_ _ w. (0, w)),
     je_lock = (\<lambda>_ w. (Some 100, w)), je_bytes = (\<lambda>_. word_of_int), je_compress = (\<lambda>q width rows. map hd rows),
     je_unlock = (\<lambda>_ w. w), je_pad = (\<lambda>_. (7, 9))\<rparr>"


theorem jpeg_reads_in_bounds_witness:
  "\<exists>sx sy. 0 \<le> sx \<and> sx < 8 \<and> 0 \<le> sy \<and> sy < 4 \<and>
    source_pixel (je_describe demo_jpeg 3) 100 3 3 2 2 = 100 + sy * (ad_stride (je_describe demo_jpeg 3) * 4) + sx * 4"
  using jpeg_reads_in_bounds [of "je_describe demo_jpeg 3" 2 3 2 3 100] by (simp add: demo_jpeg_def)

end
