(* ===== verification/Frame_Profile.thy ===== *)
theory Frame_Profile
  imports Slots
begin

text \<open>
  \<open>hal/core/FrameProfile.h\<close>: opt-in timing of capture requests. Times are nanoseconds of the
  steady clock, passed to the operations that call \<open>now()\<close>; files are a parameter.
\<close>

section \<open>Rows\<close>

datatype phase = PImport | PDestinationWait | PPace | PSourceWait | PSourceFenceWait | POutput | PCallback | PCleanup

definition all_phases :: "phase list" where
  "all_phases = [PImport, PDestinationWait, PPace, PSourceWait, PSourceFenceWait, POutput, PCallback, PCleanup]"

datatype failure = FNone | FFenceDup | FInvalidImport | FDestinationTimeout | FCancelled |
  FNoSource | FSourceFenceTimeout | FStaleSource | FNoFilledOutput

primrec failure_code :: "failure \<Rightarrow> int" where
  "failure_code FNone = 0"
| "failure_code FFenceDup = 1"
| "failure_code FInvalidImport = 2"
| "failure_code FDestinationTimeout = 3"
| "failure_code FCancelled = 4"
| "failure_code FNoSource = 5"
| "failure_code FSourceFenceTimeout = 6"
| "failure_code FStaleSource = 7"
| "failure_code FNoFilledOutput = 8"

record profile_row =
  pr_start :: int
  pr_total :: int
  pr_token :: int
  pr_producer :: int
  pr_acquired :: int
  pr_deadline :: int
  pr_fenceSignal :: int
  pr_fenceObserved :: int
  pr_fenceStatus :: int
  pr_sequence :: "64 word"
  pr_frame :: int
  pr_fps :: int
  pr_width :: int
  pr_height :: int
  pr_failure :: failure
  pr_ns :: "phase \<Rightarrow> int"
  pr_gpuCpu :: "int list"

definition empty_row :: profile_row where
  "empty_row = \<lparr>pr_start = 0, pr_total = 0, pr_token = 0, pr_producer = 0, pr_acquired = 0, pr_deadline = 0,
     pr_fenceSignal = 0, pr_fenceObserved = 0, pr_fenceStatus = -2, pr_sequence = 0, pr_frame = 0, pr_fps = 0,
     pr_width = 0, pr_height = 0, pr_failure = FNone, pr_ns = (\<lambda>_. 0), pr_gpuCpu = replicate 6 0\<rparr>"

record frame_profile =
  mRun :: int
  mProfileSlot :: int
  mProfileSession :: int
  mDropped :: nat
  mWritten :: bool
  mRows :: "profile_row list"

definition profile_init :: frame_profile where
  "profile_init = \<lparr>mRun = 0, mProfileSlot = 0, mProfileSession = 0, mDropped = 0, mWritten = False, mRows = []\<rparr>"

definition kLimit :: nat where "kLimit = 16384"

definition profile_enable :: "int \<Rightarrow> int \<Rightarrow> int \<Rightarrow> frame_profile \<Rightarrow> frame_profile" where
  "profile_enable r slot session_id p = p\<lparr>mRun := r, mProfileSlot := slot, mProfileSession := session_id\<rparr>"

definition profile_enabled :: "frame_profile \<Rightarrow> bool" where
  "profile_enabled p = (0 < mRun p)"

section \<open>The scope of one request\<close>

text \<open>\<open>sc_on\<close>: the owner pointer is not null.\<close>

record profile_scope =
  sc_on :: bool
  sc_row :: profile_row
  sc_last :: int

definition scope_create :: "frame_profile \<Rightarrow> int \<Rightarrow> int \<Rightarrow> int \<Rightarrow> int \<Rightarrow> int \<Rightarrow> int \<Rightarrow> profile_scope" where
  "scope_create p nr fps width height token now =
     (if \<not> profile_enabled p then \<lparr>sc_on = False, sc_row = empty_row, sc_last = 0\<rparr>
      else \<lparr>sc_on = True, sc_row = empty_row\<lparr>pr_frame := nr, pr_fps := fps, pr_width := width,
        pr_height := height, pr_token := token, pr_start := now\<rparr>, sc_last = now\<rparr>)"

definition scope_mark :: "phase \<Rightarrow> int \<Rightarrow> profile_scope \<Rightarrow> profile_scope" where
  "scope_mark ph t sc =
     (if \<not> sc_on sc then sc
      else sc\<lparr>sc_row := (sc_row sc)\<lparr>pr_ns := (pr_ns (sc_row sc))(ph := pr_ns (sc_row sc) ph + (t - sc_last sc))\<rparr>,
        sc_last := t\<rparr>)"

definition scope_fail :: "failure \<Rightarrow> phase \<Rightarrow> int \<Rightarrow> profile_scope \<Rightarrow> profile_scope" where
  "scope_fail f ph t sc =
     (if \<not> sc_on sc then sc
      else let sc1 = scope_mark ph t sc in sc1\<lparr>sc_row := (sc_row sc1)\<lparr>pr_failure := f\<rparr>\<rparr>)"

definition scope_gpuCpu :: "int list \<Rightarrow> profile_scope \<Rightarrow> profile_scope" where
  "scope_gpuCpu phases sc = (if sc_on sc then sc\<lparr>sc_row := (sc_row sc)\<lparr>pr_gpuCpu := phases\<rparr>\<rparr> else sc)"

definition scope_source :: "64 word \<Rightarrow> int \<Rightarrow> int \<Rightarrow> profile_scope \<Rightarrow> profile_scope" where
  "scope_source sequence timestamp t sc = (if sc_on sc
     then sc\<lparr>sc_row := (sc_row sc)\<lparr>pr_sequence := sequence, pr_producer := timestamp, pr_acquired := t\<rparr>\<rparr> else sc)"

definition scope_fence :: "int \<Rightarrow> int \<Rightarrow> int \<Rightarrow> int \<Rightarrow> profile_scope \<Rightarrow> profile_scope" where
  "scope_fence deadline signal status t sc = (if sc_on sc
     then sc\<lparr>sc_row := (sc_row sc)\<lparr>pr_deadline := deadline, pr_fenceSignal := signal, pr_fenceStatus := status,
       pr_fenceObserved := t\<rparr>\<rparr> else sc)"

definition scope_finish :: "int \<Rightarrow> profile_scope \<Rightarrow> frame_profile \<Rightarrow> profile_scope \<times> frame_profile" where
  "scope_finish t sc p =
     (if \<not> sc_on sc then (sc, p)
      else
        let sc1 = scope_mark PCleanup t sc;
            row = (sc_row sc1)\<lparr>pr_total := sc_last sc1 - pr_start (sc_row sc1)\<rparr> in
        (sc1\<lparr>sc_on := False, sc_row := row\<rparr>,
         if length (mRows p) < kLimit then p\<lparr>mRows := mRows p @ [row]\<rparr> else p\<lparr>mDropped := mDropped p + 1\<rparr>))"

section \<open>The exported file\<close>

definition to_unsigned :: "64 word \<Rightarrow> string" where
  "to_unsigned n = to_string (uint n)"

definition csv_header :: "string list" where
  "csv_header = [''start_ns'', ''frame'', ''fps'', ''width'', ''height'', ''token'', ''source_sequence'',
     ''producer_ns'', ''failure'', ''import_ns'', ''destination_wait_ns'', ''pace_ns'', ''source_wait_ns'',
     ''source_fence_wait_ns'', ''output_ns'', ''callback_ns'', ''cleanup_ns'', ''total_ns'',
     ''source_acquired_ns'', ''deadline_ns'', ''fence_signal_ns'', ''fence_observed_ns'', ''fence_status'',
     ''gpu_context_ns'', ''gpu_source_import_ns'', ''gpu_destination_import_ns'', ''gpu_draw_submit_ns'',
     ''gpu_fence_submit_ns'', ''gpu_cleanup_ns'']"

definition csv_row :: "profile_row \<Rightarrow> string list" where
  "csv_row r = [to_string (pr_start r), to_string (pr_frame r), to_string (pr_fps r), to_string (pr_width r),
     to_string (pr_height r), to_string (pr_token r), to_unsigned (pr_sequence r), to_string (pr_producer r),
     to_string (failure_code (pr_failure r))] @
     map (\<lambda>ph. to_string (pr_ns r ph)) all_phases @
     [to_string (pr_total r), to_string (pr_acquired r), to_string (pr_deadline r), to_string (pr_fenceSignal r),
      to_string (pr_fenceObserved r), to_string (pr_fenceStatus r)] @
     map to_string (pr_gpuCpu r)"

fun join :: "string list \<Rightarrow> string" where
  "join [] = ''''"
| "join [s] = s"
| "join (s # t # ss) = s @ CHR '','' # join (t # ss)"

definition csv_lines :: "frame_profile \<Rightarrow> string list" where
  "csv_lines p =
     (''# schema=3 run='' @ to_string (mRun p) @ '' session='' @ to_string (mProfileSession p) @
        '' dropped='' @ to_string (int (mDropped p))) #
     join csv_header # map (\<lambda>r. join (csv_row r)) (mRows p)"

text \<open>
  \<open>snprintf\<close> into 512 bytes. \<open>pw_open\<close> is the exclusive creation of the file, \<open>pw_fdopen\<close> the
  stream on it, \<open>pw_write\<close> writes all lines and closes, with the conjunction of both results.
\<close>

record 'w profile_files =
  pw_getpid :: int
  pw_open :: "string \<Rightarrow> 'w \<Rightarrow> int \<times> 'w"
  pw_fdopen :: "int \<Rightarrow> 'w \<Rightarrow> bool \<times> 'w"
  pw_close :: "int \<Rightarrow> 'w \<Rightarrow> 'w"
  pw_write :: "int \<Rightarrow> string list \<Rightarrow> 'w \<Rightarrow> bool \<times> 'w"

definition profile_path :: "int \<Rightarrow> string \<Rightarrow> frame_profile \<Rightarrow> string" where
  "profile_path pid directory p = take 511 (directory @ ''/hal-'' @ to_string (mRun p) @ ''-'' @ to_string pid @
     ''-'' @ to_string (mProfileSlot p) @ ''-'' @ to_string (mProfileSession p) @ ''.csv'')"

definition profile_write :: "'w profile_files \<Rightarrow> string \<Rightarrow> frame_profile \<Rightarrow> 'w \<Rightarrow> bool \<times> frame_profile \<times> 'w" where
  "profile_write W directory p w =
     (if \<not> profile_enabled p \<or> mWritten p then (True, p, w)
      else
        let (fd, w1) = pw_open W (profile_path (pw_getpid W) directory p) w in
        if fd < 0 then (False, p, w1)
        else
          let (ok, w2) = pw_fdopen W fd w1 in
          if \<not> ok then (False, p, pw_close W fd w2)
          else
            let (good, w3) = pw_write W fd (csv_lines p) w2 in
            (good, p\<lparr>mWritten := good\<rparr>, w3))"

section \<open>The phases account for the whole request\<close>

datatype scope_op = Mark phase int | Fail failure phase int | GpuCpu "int list" | Source "64 word" int int |
  Fence int int int int

primrec scope_exec :: "scope_op \<Rightarrow> profile_scope \<Rightarrow> profile_scope" where
  "scope_exec (Mark ph t) sc = scope_mark ph t sc"
| "scope_exec (Fail f ph t) sc = scope_fail f ph t sc"
| "scope_exec (GpuCpu xs) sc = scope_gpuCpu xs sc"
| "scope_exec (Source n ts t) sc = scope_source n ts t sc"
| "scope_exec (Fence d s st t) sc = scope_fence d s st t sc"

definition phase_sum :: "profile_row \<Rightarrow> int" where
  "phase_sum r = sum_list (map (pr_ns r) all_phases)"

definition scope_ok :: "profile_scope \<Rightarrow> bool" where
  "scope_ok sc \<longleftrightarrow> (sc_on sc \<longrightarrow> phase_sum (sc_row sc) = sc_last sc - pr_start (sc_row sc))"

lemma phase_sum_add: "phase_sum (r\<lparr>pr_ns := (pr_ns r)(ph := pr_ns r ph + d)\<rparr>) = phase_sum r + d"
  by (cases ph) (simp_all add: phase_sum_def all_phases_def)

lemma mark_ok: "scope_ok sc \<Longrightarrow> scope_ok (scope_mark ph t sc)"
  by (auto simp: scope_ok_def scope_mark_def phase_sum_add)

lemma phase_sum_other [simp]:
  "phase_sum (r\<lparr>pr_failure := f\<rparr>) = phase_sum r" "phase_sum (r\<lparr>pr_gpuCpu := xs\<rparr>) = phase_sum r"
  "phase_sum (r\<lparr>pr_sequence := n, pr_producer := ts, pr_acquired := t\<rparr>) = phase_sum r"
  "phase_sum (r\<lparr>pr_deadline := d, pr_fenceSignal := s, pr_fenceStatus := st, pr_fenceObserved := t\<rparr>) = phase_sum r"
  "phase_sum (r\<lparr>pr_total := t\<rparr>) = phase_sum r"
  by (simp_all add: phase_sum_def)

lemma exec_ok: "scope_ok sc \<Longrightarrow> scope_ok (scope_exec x sc)"
  using mark_ok [of sc]
  by (cases x) (auto simp: scope_fail_def scope_gpuCpu_def scope_source_def scope_fence_def Let_def scope_ok_def
      split: if_splits)

lemma create_ok: "scope_ok (scope_create p nr fps w h token t)"
  by (simp add: scope_create_def scope_ok_def phase_sum_def all_phases_def empty_row_def)

lemma run_ok: "scope_ok sc \<Longrightarrow> scope_ok (fold scope_exec xs sc)"
  by (induction xs arbitrary: sc) (auto intro: exec_ok)

lemma run_on: "sc_on (fold scope_exec xs sc) = sc_on sc"
proof (induction xs arbitrary: sc)
  case (Cons a xs)
  have "sc_on (scope_exec a sc) = sc_on sc"
    by (cases a) (simp_all add: scope_mark_def scope_fail_def scope_gpuCpu_def scope_source_def scope_fence_def Let_def)
  then show ?case using Cons.IH by simp
qed simp

text \<open>
  Whatever is recorded during a request, its row is stored complete or counted as dropped, the
  number of rows stays bounded, the phase times of the row add up to its total, and the
  exported line has a value for every named column.
\<close>

theorem profile_phases_add_up:
  assumes "profile_enabled p" "length (mRows p) \<le> kLimit"
    and "scope_finish t (fold scope_exec ops (scope_create p nr fps width height token t0)) p = (sc, p')"
  shows "length (mRows p') \<le> kLimit \<and>
    (mDropped p' = mDropped p + 1 \<and> mRows p' = mRows p \<or>
     mDropped p' = mDropped p \<and> mRows p' = mRows p @ [sc_row sc]) \<and>
    phase_sum (sc_row sc) = pr_total (sc_row sc) \<and> \<not> sc_on sc \<and>
    (length (pr_gpuCpu (sc_row sc)) = 6 \<longrightarrow> length (csv_row (sc_row sc)) = length csv_header)"
proof -
  let ?s = "fold scope_exec ops (scope_create p nr fps width height token t0)"
  have live: "sc_on ?s" using assms(1) by (simp add: run_on scope_create_def)
  have "scope_ok (scope_mark PCleanup t ?s)" by (intro mark_ok run_ok create_ok)
  moreover have "sc_on (scope_mark PCleanup t ?s)" using live by (simp add: scope_mark_def)
  moreover have "length (csv_row r) = length csv_header" if "length (pr_gpuCpu r) = 6" for r
    using that by (simp add: csv_row_def csv_header_def all_phases_def)
  ultimately show ?thesis
    using assms(2,3) live by (auto simp: scope_finish_def Let_def scope_ok_def kLimit_def split: if_splits)
qed

theorem profile_phases_add_up_witness:
  "phase_sum (sc_row (fst (scope_finish 90 (scope_mark PPace 70 (scope_create (profile_enable 1 0 5 profile_init) 7 30 640 480 2 50))
     (profile_enable 1 0 5 profile_init)))) = 40"
proof -
  obtain sc p' where run: "scope_finish 90 (fold scope_exec [Mark PPace 70]
      (scope_create (profile_enable 1 0 5 profile_init) 7 30 640 480 2 50)) (profile_enable 1 0 5 profile_init) = (sc, p')"
    by fastforce
  have "pr_total (sc_row (fst (scope_finish 90 (fold scope_exec [Mark PPace 70]
      (scope_create (profile_enable 1 0 5 profile_init) 7 30 640 480 2 50)) (profile_enable 1 0 5 profile_init)))) = 40"
    by code_simp
  moreover have "profile_enabled (profile_enable 1 0 5 profile_init)" "length (mRows (profile_enable 1 0 5 profile_init)) \<le> kLimit"
    by (simp_all add: profile_enabled_def profile_enable_def profile_init_def kLimit_def)
  ultimately show ?thesis using profile_phases_add_up [OF _ _ run] run by simp
qed

end
