(* ===== verification/Aidl_Source.thy ===== *)
theory Aidl_Source
  imports Fill_Theorems
begin

text \<open>
  The sources of the platform relay build: \<open>hal/core/AidlFrameSource.{h,cpp}\<close>, a buffer queue
  whose surface is handed to a producer app, and \<open>hal/core/AvailabilityBridge.{h,cpp}\<close>, which
  tells the provider whether a producer is registered.
\<close>

section \<open>The frame source\<close>

text \<open>
  A queue item: its graphic buffer, if any, and whether it has a valid fence.
\<close>

record queue_item =
  qi_id :: nat
  qi_buffer :: "ahb option"
  qi_fence :: "int option"

record aidl_source =
  as_manager :: bool
  as_width :: int
  as_height :: int
  as_fps :: int
  as_configured :: bool
  as_cameraId :: int
  as_consumer :: "nat option"
  as_held :: "queue_item option"
  as_framesFilled :: "64 word"
  as_lastRetry :: int

definition aidl_source_init :: aidl_source where
  "aidl_source_init = \<lparr>as_manager = False, as_width = 0, as_height = 0, as_fps = 30, as_configured = False,
     as_cameraId = -1, as_consumer = None, as_held = None, as_framesFilled = 0, as_lastRetry = 0\<rparr>"

text \<open>
  Service manager, the manager's binder calls, and the queue. \<open>bq_acquire\<close> answers \<open>None\<close> when
  nothing is queued (or the queue refuses). The steady clock counts nanoseconds from an
  origin long before the process.
\<close>

record 'w relay =
  rl_checkService :: "'w \<Rightarrow> bool \<times> 'w"
  rl_getRegisteredCameraIds :: "'w \<Rightarrow> int list option \<times> 'w"
  rl_notifyCameraOpened :: "int \<Rightarrow> 'w \<Rightarrow> 'w"
  rl_notifyStreamsConfigured :: "int \<Rightarrow> int \<Rightarrow> int \<Rightarrow> int \<Rightarrow> nat \<Rightarrow> 'w \<Rightarrow> bool \<times> 'w"
  rl_notifyCaptureStarted :: "int \<Rightarrow> int \<Rightarrow> 'w \<Rightarrow> 'w"
  rl_notifyCaptureStopped :: "int \<Rightarrow> 'w \<Rightarrow> 'w"
  rl_notifyCameraClosed :: "int \<Rightarrow> 'w \<Rightarrow> 'w"
  bq_create :: "int \<Rightarrow> int \<Rightarrow> 'w \<Rightarrow> nat \<times> 'w"
  bq_acquire :: "nat \<Rightarrow> 'w \<Rightarrow> queue_item option \<times> 'w"
  bq_release :: "nat \<Rightarrow> queue_item \<Rightarrow> 'w \<Rightarrow> 'w"
  bq_abandon :: "nat \<Rightarrow> 'w \<Rightarrow> 'w"
  rl_waitForever :: "int \<Rightarrow> 'w \<Rightarrow> 'w"
  rl_now :: "'w \<Rightarrow> int \<times> 'w"

definition getManager :: "'w relay \<Rightarrow> aidl_source \<Rightarrow> 'w \<Rightarrow> bool \<times> aidl_source \<times> 'w" where
  "getManager R s w =
     (if as_manager s then (True, s, w)
      else let (found, w1) = rl_checkService R w in (found, s\<lparr>as_manager := found\<rparr>, w1))"

definition teardownLocked :: "'w relay \<Rightarrow> aidl_source \<Rightarrow> 'w \<Rightarrow> aidl_source \<times> 'w" where
  "teardownLocked R s w =
     (let w1 = (case (as_held s, as_consumer s) of (Some i, Some c) \<Rightarrow> bq_release R c i w | _ \<Rightarrow> w);
          w2 = (case as_consumer s of None \<Rightarrow> w1 | Some c \<Rightarrow> bq_abandon R c w1) in
      (s\<lparr>as_held := None, as_consumer := None, as_configured := False\<rparr>, w2))"

definition doConfigureLocked :: "'w relay \<Rightarrow> aidl_source \<Rightarrow> 'w \<Rightarrow> bool \<times> aidl_source \<times> 'w" where
  "doConfigureLocked R s w =
     (let (mgr, s1, w1) = getManager R s w in
      if \<not> mgr then (False, s1, w1)
      else (case rl_getRegisteredCameraIds R w1 of
          (None, w2) \<Rightarrow> (False, s1\<lparr>as_manager := False\<rparr>, w2)
        | (Some [], w2) \<Rightarrow> (False, s1, w2)
        | (Some (camera # _), w2) \<Rightarrow>
            let (c, w3) = bq_create R (as_width s1) (as_height s1) w2;
                s2 = s1\<lparr>as_cameraId := camera, as_consumer := Some c\<rparr>;
                w4 = rl_notifyCameraOpened R camera w3;
                (ok, w5) = rl_notifyStreamsConfigured R camera (as_width s1) (as_height s1) (as_fps s1) c w4 in
            if \<not> ok then let (s3, w6) = teardownLocked R s2 w5 in (False, s3, w6)
            else (True, s2\<lparr>as_configured := True, as_framesFilled := 0\<rparr>, rl_notifyCaptureStarted R camera (as_fps s1) w5)))"

definition aidl_configureStreams :: "'w relay \<Rightarrow> int \<Rightarrow> int \<Rightarrow> int \<Rightarrow> aidl_source \<Rightarrow> 'w \<Rightarrow> bool \<times> aidl_source \<times> 'w" where
  "aidl_configureStreams R width height fps s w =
     (let (s1, w1) = teardownLocked R (s\<lparr>as_width := width, as_height := height,
            as_fps := (if 0 < fps then fps else 30)\<rparr>) w in
      doConfigureLocked R s1 w1)"

definition retryIfNeeded :: "'w relay \<Rightarrow> aidl_source \<Rightarrow> 'w \<Rightarrow> aidl_source \<times> 'w" where
  "retryIfNeeded R s w =
     (if as_configured s \<or> as_width s \<le> 0 then (s, w)
      else
        let (now, w1) = rl_now R w in
        if now - as_lastRetry s < 1000000000 then (s, w1)
        else snd (doConfigureLocked R (s\<lparr>as_lastRetry := now\<rparr>) w1))"

definition sessionClosed :: "'w relay \<Rightarrow> aidl_source \<Rightarrow> 'w \<Rightarrow> aidl_source \<times> 'w" where
  "sessionClosed R s w =
     (let w1 = (if as_configured s \<and> as_manager s \<and> 0 \<le> as_cameraId s
            then rl_notifyCameraClosed R (as_cameraId s) (rl_notifyCaptureStopped R (as_cameraId s) w) else w) in
      teardownLocked R s w1)"

definition aidl_isActive :: "aidl_source \<Rightarrow> bool" where
  "aidl_isActive s = as_configured s"

text \<open>
  \<open>fillLatestInto\<close>: drain the queue down to the newest item, wait for its fence, convert. The
  drain ends when the queue is empty; \<open>None\<close> when it did not within \<open>fuel\<close> items.
\<close>

fun drain_queue :: "'w relay \<Rightarrow> nat \<Rightarrow> nat \<Rightarrow> queue_item option \<Rightarrow> 'w \<Rightarrow> (queue_item option \<times> 'w) option" where
  "drain_queue R 0 c held w = None"
| "drain_queue R (Suc fuel) c held w = (case bq_acquire R c w of
       (None, w1) \<Rightarrow> Some (held, w1)
     | (Some i, w1) \<Rightarrow> drain_queue R fuel c (Some i) (case held of None \<Rightarrow> w1 | Some old \<Rightarrow> bq_release R c old w1))"

definition fill_held :: "'w filler_env \<Rightarrow> nat \<Rightarrow> int \<Rightarrow> int \<Rightarrow> ahb \<Rightarrow> mem \<Rightarrow> 'w \<Rightarrow> bool \<times> mem \<times> 'w" where
  "fill_held F handle width height gb m w = (case fe_lock F gb w of
       (None, w1) \<Rightarrow> (False, m, w1)
     | (Some base, w1) \<Rightarrow> (case fe_lockYCbCr F handle width height w1 of
           (None, w2) \<Rightarrow> (False, m, fe_unlockAhb F gb w2)
         | (Some d, w2) \<Rightarrow>
             (True, rgba_loops (fe_bytes F w2) base (ad_stride (fe_describe F gb) * 4) d
                (min width (ad_width (fe_describe F gb))) (min height (ad_height (fe_describe F gb))) m,
              fe_unlockAhb F gb (fe_unlock F handle w2))))"

definition fillLatestInto :: "'w relay \<Rightarrow> 'w filler_env \<Rightarrow> nat \<Rightarrow> nat option \<Rightarrow> int \<Rightarrow> int \<Rightarrow> aidl_source \<Rightarrow> mem \<Rightarrow> 'w \<Rightarrow>
    (bool \<times> aidl_source \<times> mem \<times> 'w) option" where
  "fillLatestInto R F fuel handle width height s m w = (case (as_configured s, as_consumer s, handle) of
       (True, Some c, Some b) \<Rightarrow> (case drain_queue R fuel c (as_held s) w of
           None \<Rightarrow> None
         | Some (None, w1) \<Rightarrow> Some (False, s\<lparr>as_held := None\<rparr>, m, w1)
         | Some (Some i, w1) \<Rightarrow>
             let s1 = s\<lparr>as_held := Some i\<rparr> in
             (case qi_buffer i of
                None \<Rightarrow> Some (False, s1, m, w1)
              | Some gb \<Rightarrow>
                  let w2 = (case qi_fence i of None \<Rightarrow> w1 | Some f \<Rightarrow> rl_waitForever R f w1);
                      (ok, m1, w3) = fill_held F b width height gb m w2 in
                  Some (ok, if ok then s1\<lparr>as_framesFilled := as_framesFilled s1 + 1\<rparr> else s1, m1, w3)))
     | _ \<Rightarrow> Some (False, s, m, w))"

section \<open>The availability bridge\<close>

text \<open>
  The callback is the provider's \<open>setProducerPresent\<close>. The listener and the death recipient
  live with the connection. \<open>ab_setHalListener\<close> pushes the current availability before it
  returns; its result is that availability and whether the call worked.
\<close>

record bridge =
  ab_running :: bool
  ab_stop :: bool
  ab_connected :: bool

definition bridge_init :: bridge where
  "bridge_init = \<lparr>ab_running = False, ab_stop = False, ab_connected = False\<rparr>"

record 'w bridge_env =
  ab_checkService :: "'w \<Rightarrow> bool \<times> 'w"
  ab_linkToDeath :: "'w \<Rightarrow> 'w"
  ab_unlinkToDeath :: "'w \<Rightarrow> 'w"
  ab_setHalListener :: "'w \<Rightarrow> (bool list \<times> bool) \<times> 'w"
  ab_callback :: "bool \<Rightarrow> 'w \<Rightarrow> 'w"

definition bridge_start :: "bridge \<Rightarrow> bridge" where
  "bridge_start b = (if ab_running b then b else b\<lparr>ab_stop := False, ab_running := True\<rparr>)"

text \<open>\<open>stop\<close> joins the thread.\<close>

definition bridge_stop :: "bridge \<Rightarrow> bridge" where
  "bridge_stop b = b\<lparr>ab_stop := True, ab_running := False\<rparr>"

definition onAvailability :: "'w bridge_env \<Rightarrow> bool \<Rightarrow> 'w \<Rightarrow> 'w" where
  "onAvailability A present w = ab_callback A present w"

definition onManagerDied :: "'w bridge_env \<Rightarrow> bridge \<Rightarrow> 'w \<Rightarrow> bridge \<times> 'w" where
  "onManagerDied A b w = (b\<lparr>ab_connected := False\<rparr>, ab_callback A False w)"

definition connectLocked :: "'w bridge_env \<Rightarrow> bridge \<Rightarrow> 'w \<Rightarrow> bool \<times> bridge \<times> 'w" where
  "connectLocked A b w =
     (let (found, w1) = ab_checkService A w in
      if \<not> found then (False, b, w1)
      else
        let ((pushed, ok), w2) = ab_setHalListener A (ab_linkToDeath A w1);
            w3 = fold (onAvailability A) pushed w2 in
        if \<not> ok then (False, b, ab_unlinkToDeath A w3)
        else (True, b\<lparr>ab_connected := True\<rparr>, w3))"

text \<open>One round of the thread up to its wait, and how long it waits, in seconds.\<close>

definition thread_round :: "'w bridge_env \<Rightarrow> bridge \<Rightarrow> 'w \<Rightarrow> (int \<times> bridge \<times> 'w) option" where
  "thread_round A b w =
     (if ab_stop b then None
      else let (b1, w1) = (if ab_connected b then (b, w) else snd (connectLocked A b w)) in
        Some (if ab_connected b1 then 3600 else 2, b1, w1))"

section \<open>Items of the queue\<close>

text \<open>
  The queue's account of items the consumer holds. Only acquiring and releasing change it.
\<close>

definition tracks_items :: "'w relay \<Rightarrow> ('w \<Rightarrow> queue_item multiset) \<Rightarrow> bool" where
  "tracks_items R acquired \<longleftrightarrow>
     (\<forall>c w. acquired (snd (bq_acquire R c w)) = acquired w +
        (case fst (bq_acquire R c w) of None \<Rightarrow> {#} | Some i \<Rightarrow> {#i#})) \<and>
     (\<forall>c i w. acquired (bq_release R c i w) = acquired w - {#i#}) \<and>
     (\<forall>c w. acquired (bq_abandon R c w) = acquired w) \<and>
     (\<forall>w. acquired (snd (rl_checkService R w)) = acquired w) \<and>
     (\<forall>w. acquired (snd (rl_getRegisteredCameraIds R w)) = acquired w) \<and>
     (\<forall>a w. acquired (rl_notifyCameraOpened R a w) = acquired w) \<and>
     (\<forall>a x y f c w. acquired (snd (rl_notifyStreamsConfigured R a x y f c w)) = acquired w) \<and>
     (\<forall>a f w. acquired (rl_notifyCaptureStarted R a f w) = acquired w) \<and>
     (\<forall>a w. acquired (rl_notifyCaptureStopped R a w) = acquired w) \<and>
     (\<forall>a w. acquired (rl_notifyCameraClosed R a w) = acquired w) \<and>
     (\<forall>x y w. acquired (snd (bq_create R x y w)) = acquired w) \<and>
     (\<forall>f w. acquired (rl_waitForever R f w) = acquired w) \<and>
     (\<forall>w. acquired (snd (rl_now R w)) = acquired w)"

text \<open>The source holds exactly the acquired items, and none without a queue.\<close>

definition held_items :: "aidl_source \<Rightarrow> queue_item multiset" where
  "held_items s = (case as_held s of None \<Rightarrow> {#} | Some i \<Rightarrow> {#i#})"

definition items_ok :: "('w \<Rightarrow> queue_item multiset) \<Rightarrow> aidl_source \<Rightarrow> 'w \<Rightarrow> bool" where
  "items_ok acquired s w \<longleftrightarrow> acquired w = held_items s \<and> (as_consumer s = None \<longrightarrow> as_held s = None) \<and>
     (as_configured s \<longleftrightarrow> as_consumer s \<noteq> None)"

lemma itemsD:
  assumes "tracks_items R acquired"
  shows "acquired (snd (bq_acquire R c w)) = acquired w + (case fst (bq_acquire R c w) of None \<Rightarrow> {#} | Some i \<Rightarrow> {#i#})"
    and "acquired (bq_release R c i w) = acquired w - {#i#}" "acquired (bq_abandon R c w) = acquired w"
    and "acquired (snd (rl_checkService R w)) = acquired w"
    and "acquired (snd (rl_getRegisteredCameraIds R w)) = acquired w"
    and "acquired (rl_notifyCameraOpened R a w) = acquired w"
    and "acquired (snd (rl_notifyStreamsConfigured R a x y f c w)) = acquired w"
    and "acquired (rl_notifyCaptureStarted R a f w) = acquired w"
    and "acquired (rl_notifyCaptureStopped R a w) = acquired w"
    and "acquired (rl_notifyCameraClosed R a w) = acquired w"
    and "acquired (snd (bq_create R x y w)) = acquired w"
    and "acquired (rl_waitForever R fd w) = acquired w"
    and "acquired (snd (rl_now R w)) = acquired w"
  using assms by (simp_all add: tracks_items_def)

lemma teardown_items:
  assumes "tracks_items R acquired" "acquired w = held_items s" "as_consumer s = None \<longrightarrow> as_held s = None"
    and "teardownLocked R s w = (s', w')"
  shows "acquired w' = {#} \<and> as_held s' = None \<and> as_consumer s' = None \<and> \<not> as_configured s'"
  using assms(2,3,4)
  by (auto simp: teardownLocked_def Let_def held_items_def itemsD(2,3) [OF assms(1)] split: option.splits)

lemma manager_items:
  assumes "tracks_items R acquired" "getManager R s w = (ok, s', w')"
  shows "acquired w' = acquired w \<and> as_held s' = as_held s \<and> as_consumer s' = as_consumer s \<and> as_configured s' = as_configured s"
  using assms(2) itemsD(4) [OF assms(1), of w] by (auto simp: getManager_def split: if_splits prod.splits)

lemma configure_items:
  assumes track: "tracks_items R acquired" and free: "acquired w = {#}" "as_held s = None" "as_consumer s = None" "\<not> as_configured s"
    and run: "doConfigureLocked R s w = (ok, s', w')"
  shows "items_ok acquired s' w' \<and> ok = as_configured s'"
proof -
  obtain mgr s1 w1 where mgr: "getManager R s w = (mgr, s1, w1)" by (metis prod_cases3)
  note same = manager_items [OF track mgr]
  obtain ids w2 where ids: "rl_getRegisteredCameraIds R w1 = (ids, w2)" by fastforce
  then have w2: "acquired w2 = {#}" using itemsD(5) [OF track, of w1] same free by simp
  show ?thesis
  proof (cases "mgr \<and> ids \<noteq> None \<and> ids \<noteq> Some []")
    case False
    then consider "\<not> mgr" | "mgr" "ids = None" | "mgr" "ids = Some []" by auto
    then show ?thesis
      by cases (use run mgr ids same free w2 in \<open>auto simp: doConfigureLocked_def items_ok_def held_items_def\<close>)
  next
    case True
    then obtain camera rest where some: "ids = Some (camera # rest)" by (cases ids) (auto simp: neq_Nil_conv)
    obtain c w3 where c: "bq_create R (as_width s1) (as_height s1) w2 = (c, w3)" by fastforce
    define s2 where "s2 = s1\<lparr>as_cameraId := camera, as_consumer := Some c\<rparr>"
    obtain good w5 where note5: "rl_notifyStreamsConfigured R camera (as_width s1) (as_height s1) (as_fps s1) c
        (rl_notifyCameraOpened R camera w3) = (good, w5)" by fastforce
    have w5: "acquired w5 = {#}"
      using itemsD(7) [OF track, of camera "as_width s1" "as_height s1" "as_fps s1" c "rl_notifyCameraOpened R camera w3"]
        itemsD(6) [OF track, of camera w3] itemsD(11) [OF track, of "as_width s1" "as_height s1" w2] c note5 w2 by simp
    obtain s3 w6 where down: "teardownLocked R s2 w5 = (s3, w6)" by fastforce
    have s2: "as_held s2 = None" using same free by (simp add: s2_def)
    have "acquired w6 = {#} \<and> as_held s3 = None \<and> as_consumer s3 = None \<and> \<not> as_configured s3"
      by (rule teardown_items [OF track _ _ down]) (simp_all add: held_items_def s2 w5)
    then show ?thesis
      using run mgr ids some True c note5 down s2 w5 itemsD(8) [OF track]
      by (auto simp: doConfigureLocked_def Let_def s2_def [symmetric] items_ok_def held_items_def split: if_splits)
        (simp_all add: s2_def)
  qed
qed

lemma drain_items:
  assumes track: "tracks_items R acquired"
  shows "drain_queue R fuel c held w = Some (held', w') \<Longrightarrow>
    acquired w = (case held of None \<Rightarrow> {#} | Some i \<Rightarrow> {#i#}) \<Longrightarrow>
    acquired w' = (case held' of None \<Rightarrow> {#} | Some i \<Rightarrow> {#i#})"
proof (induction fuel arbitrary: held w)
  case (Suc fuel)
  obtain r w1 where r: "bq_acquire R c w = (r, w1)" by fastforce
  have w1: "acquired w1 = acquired w + (case r of None \<Rightarrow> {#} | Some i \<Rightarrow> {#i#})"
    using itemsD(1) [OF track, of c w] r by simp
  show ?case
  proof (cases r)
    case None
    then show ?thesis using Suc.prems r w1 by simp
  next
    case (Some i)
    show ?thesis
      by (rule Suc.IH [of "Some i" "case held of None \<Rightarrow> w1 | Some old \<Rightarrow> bq_release R c old w1"])
        (use Suc.prems r Some w1 in \<open>auto simp: itemsD(2) [OF track] split: option.splits\<close>)
  qed
qed simp

text \<open>The buffers' locks are not the queue's business.\<close>

definition apart :: "'w filler_env \<Rightarrow> ('w \<Rightarrow> queue_item multiset) \<Rightarrow> bool" where
  "apart F acquired \<longleftrightarrow>
     (\<forall>a w. acquired (snd (fe_lock F a w)) = acquired w) \<and>
     (\<forall>b x y w. acquired (snd (fe_lockYCbCr F b x y w)) = acquired w) \<and>
     (\<forall>a w. acquired (fe_unlockAhb F a w) = acquired w) \<and> (\<forall>b w. acquired (fe_unlock F b w) = acquired w)"

lemma fill_held_items:
  assumes "apart F acquired" "fill_held F b width height gb m w = (ok, m', w')"
  shows "acquired w' = acquired w"
proof -
  have lock: "fe_lock F a v = (r, v') \<Longrightarrow> acquired v' = acquired v" for a v r v'
    using assms(1) by (metis apart_def snd_conv)
  have planes: "fe_lockYCbCr F c x y v = (r, v') \<Longrightarrow> acquired v' = acquired v" for c x y v r v'
    using assms(1) by (metis apart_def snd_conv)
  show ?thesis
    using assms by (auto simp: fill_held_def apart_def split: prod.splits option.splits dest!: lock planes)
qed

lemma fill_items:
  assumes track: "tracks_items R acquired" and apart: "apart F acquired" and ok: "items_ok acquired s w"
    and run: "fillLatestInto R F fuel handle width height s m w = Some (done', s', m', w')"
  shows "items_ok acquired s' w'"
proof (cases "as_configured s \<and> handle \<noteq> None")
  case False
  then show ?thesis using run ok by (auto simp: fillLatestInto_def split: option.splits bool.splits)
next
  case True
  then obtain b c where here: "handle = Some b" "as_consumer s = Some c" "as_configured s"
    using ok by (auto simp: items_ok_def)
  then obtain held w1 where drain: "drain_queue R fuel c (as_held s) w = Some (held, w1)"
    using run by (auto simp: fillLatestInto_def split: option.splits)
  have w1: "acquired w1 = (case held of None \<Rightarrow> {#} | Some i \<Rightarrow> {#i#})"
    by (rule drain_items [OF track drain]) (use ok in \<open>simp add: items_ok_def held_items_def\<close>)
  show ?thesis
    using run here drain w1 itemsD(12) [OF track]
    by (auto simp: fillLatestInto_def items_ok_def held_items_def Let_def
        split: option.splits prod.splits if_splits dest!: fill_held_items [OF apart])
qed

section \<open>Calls in any order\<close>

inductive aidl_call :: "'w relay \<Rightarrow> 'w filler_env \<Rightarrow> aidl_source \<times> 'w \<Rightarrow> aidl_source \<times> 'w \<Rightarrow> bool"
  for R :: "'w relay" and F :: "'w filler_env" where
  call_configure: "aidl_configureStreams R width height fps s w = (ok, s', w') \<Longrightarrow> aidl_call R F (s, w) (s', w')"
| call_retry: "retryIfNeeded R s w = (s', w') \<Longrightarrow> aidl_call R F (s, w) (s', w')"
| call_fill: "fillLatestInto R F fuel handle width height s m w = Some (ok, s', m', w') \<Longrightarrow> aidl_call R F (s, w) (s', w')"
| call_closed: "sessionClosed R s w = (s', w') \<Longrightarrow> aidl_call R F (s, w) (s', w')"

inductive_cases aidl_callE: "aidl_call R F (s, w) (s', w')"

lemma restart_items:
  assumes "tracks_items R acquired" "items_ok acquired s w" "retryIfNeeded R s w = (s', w')"
  shows "items_ok acquired s' w'"
proof (cases "as_configured s \<or> as_width s \<le> 0")
  case True
  then show ?thesis using assms by (simp add: retryIfNeeded_def)
next
  case False
  obtain now w1 where now: "rl_now R w = (now, w1)" by fastforce
  have w1: "acquired w1 = acquired w" using itemsD(13) [OF assms(1), of w] now by simp
  have free: "acquired w = {#}" "as_held s = None" "as_consumer s = None"
    using assms(2) False by (auto simp: items_ok_def held_items_def)
  obtain ok s2 w2 where run: "doConfigureLocked R (s\<lparr>as_lastRetry := now\<rparr>) w1 = (ok, s2, w2)" by (metis prod_cases3)
  have "items_ok acquired s2 w2"
    using configure_items [OF assms(1) _ _ _ _ run] w1 free False by simp
  then show ?thesis
    using assms(2,3) False now run w1 by (auto simp: retryIfNeeded_def items_ok_def held_items_def split: if_splits)
qed

lemma closed_items:
  assumes "tracks_items R acquired" "items_ok acquired s w" "sessionClosed R s w = (s', w')"
  shows "acquired w' = {#} \<and> items_ok acquired s' w'"
proof -
  define w1 where "w1 = (if as_configured s \<and> as_manager s \<and> 0 \<le> as_cameraId s
      then rl_notifyCameraClosed R (as_cameraId s) (rl_notifyCaptureStopped R (as_cameraId s) w) else w)"
  have "acquired w1 = acquired w" using itemsD(9,10) [OF assms(1)] by (simp add: w1_def)
  moreover have "teardownLocked R s w1 = (s', w')" using assms(3) by (simp add: sessionClosed_def w1_def)
  ultimately show ?thesis
    using teardown_items [OF assms(1), of w1 s s' w'] assms(2) by (auto simp: items_ok_def held_items_def)
qed

lemma reconfigure_items:
  assumes "tracks_items R acquired" "items_ok acquired s w" "aidl_configureStreams R width height fps s w = (ok, s', w')"
  shows "items_ok acquired s' w'"
proof -
  obtain s1 w1 where down: "teardownLocked R (s\<lparr>as_width := width, as_height := height,
      as_fps := (if 0 < fps then fps else 30)\<rparr>) w = (s1, w1)" by fastforce
  have "acquired w1 = {#} \<and> as_held s1 = None \<and> as_consumer s1 = None \<and> \<not> as_configured s1"
    by (rule teardown_items [OF assms(1) _ _ down]) (use assms(2) in \<open>auto simp: items_ok_def held_items_def\<close>)
  then show ?thesis
    using assms(3) down configure_items [OF assms(1), of w1 s1 ok s' w'] by (simp add: aidl_configureStreams_def)
qed

lemma call_items:
  assumes track: "tracks_items R acquired" and apart: "apart F acquired" and ok: "items_ok acquired s w"
    and call: "aidl_call R F (s, w) (s', w')"
  shows "items_ok acquired s' w'"
  using call reconfigure_items [OF track ok] restart_items [OF track ok] fill_items [OF track apart ok]
    closed_items [OF track ok] by (elim aidl_callE) blast+

lemma run_items:
  assumes "(aidl_call R F)\<^sup>*\<^sup>* (aidl_source_init, w0) (s, w)"
    and "tracks_items R acquired" "apart F acquired" "acquired w0 = {#}"
  shows "items_ok acquired s w"
  using assms(1)
proof (induction "(s, w)" arbitrary: s w rule: rtranclp_induct)
  case base
  then show ?case using assms(4) by (simp add: items_ok_def held_items_def aidl_source_init_def)
next
  case (step p)
  obtain s1 w1 where "p = (s1, w1)" by fastforce
  then show ?case using step.hyps(2,3) call_items [OF assms(2,3)] by blast
qed

text \<open>
  C25: Whatever calls the HAL made on the source, in any order and with any of the
  relay's answers, the source holds exactly the queue items it acquired, never more than one,
  and none once the session is closed or before the stream is configured: no item of the
  producer's queue is lost.
\<close>

theorem queue_items_returned:
  assumes "(aidl_call R F)\<^sup>*\<^sup>* (aidl_source_init, w0) (s, w)"
    and "tracks_items R acquired" "apart F acquired" "acquired w0 = {#}"
    and "sessionClosed R s w = (s', w')"
  shows "acquired w = held_items s \<and> size (acquired w) \<le> 1 \<and> (\<not> aidl_isActive s \<longrightarrow> acquired w = {#}) \<and>
    acquired w' = {#} \<and> \<not> aidl_isActive s'"
proof -
  have ok: "items_ok acquired s w" by (rule run_items [OF assms(1-4)])
  have "acquired w' = {#}" "items_ok acquired s' w'" using closed_items [OF assms(2) ok assms(5)] by auto
  moreover have "\<not> aidl_isActive s'"
    using assms(5) by (auto simp: sessionClosed_def teardownLocked_def aidl_isActive_def Let_def)
  ultimately show ?thesis
    using ok by (auto simp: items_ok_def held_items_def aidl_isActive_def split: option.splits)
qed

text \<open>
  A relay with one registered camera, whose producer has queued two frames; the world is what is
  still queued and what is acquired.
\<close>

definition demo_relay :: "(queue_item list \<times> queue_item multiset) relay" where
  "demo_relay = \<lparr>rl_checkService = (\<lambda>w. (True, w)), rl_getRegisteredCameraIds = (\<lambda>w. (Some [100], w)),
     rl_notifyCameraOpened = (\<lambda>_ w. w), rl_notifyStreamsConfigured = (\<lambda>_ _ _ _ _ w. (True, w)),
     rl_notifyCaptureStarted = (\<lambda>_ _ w. w), rl_notifyCaptureStopped = (\<lambda>_ w. w), rl_notifyCameraClosed = (\<lambda>_ w. w),
     bq_create = (\<lambda>_ _ w. (7, w)),
     bq_acquire = (\<lambda>_ w. case fst w of [] \<Rightarrow> (None, w) | i # q \<Rightarrow> (Some i, (q, add_mset i (snd w)))),
     bq_release = (\<lambda>_ i w. (fst w, snd w - {#i#})), bq_abandon = (\<lambda>_ w. w), rl_waitForever = (\<lambda>_ w. w),
     rl_now = (\<lambda>w. (5000000000, w))\<rparr>"

definition demo_lock :: "(queue_item list \<times> queue_item multiset) filler_env" where
  "demo_lock = \<lparr>fe_lockYCbCr = (\<lambda>b x y w. (None, w)), fe_unlock = (\<lambda>b w. w),
     fe_describe = (\<lambda>a. \<lparr>ad_width = 4, ad_height = 2, ad_format = 1, ad_stride = 4\<rparr>),
     fe_lockPlanes = (\<lambda>a w. (None, w)), fe_lock = (\<lambda>a w. (Some 0, w)), fe_unlockAhb = (\<lambda>a w. w),
     fe_bytes = (\<lambda>_ _. 0), fe_nowMs = (\<lambda>w. (0, w))\<rparr>"

definition frame_item :: "nat \<Rightarrow> queue_item" where
  "frame_item n = \<lparr>qi_id = n, qi_buffer = Some n, qi_fence = Some 9\<rparr>"

definition demo_configured :: "bool \<times> aidl_source \<times> queue_item list \<times> queue_item multiset" where
  "demo_configured = aidl_configureStreams demo_relay 4 2 0 aidl_source_init ([frame_item 1, frame_item 2], {#})"

lemma demo_relay_tracks: "tracks_items demo_relay snd" "apart demo_lock snd"
  by (auto simp: tracks_items_def apart_def demo_relay_def demo_lock_def split: list.splits)

theorem queue_items_returned_witness:
  "\<exists>s w s' w'. (aidl_call demo_relay demo_lock)\<^sup>*\<^sup>* (aidl_source_init, [frame_item 1, frame_item 2], {#}) (s, w) \<and>
     snd w = {#frame_item 2#} \<and> sessionClosed demo_relay s w = (s', w') \<and> snd w' = {#} \<and> size (snd w) \<le> 1"
proof -
  define s1 where "s1 = fst (snd demo_configured)"
  define q where "q = the (fillLatestInto demo_relay demo_lock 3 (Some 1) 4 2 s1 (\<lambda>_. 0) (snd (snd demo_configured)))"
  define s2 where "s2 = fst (snd q)"
  define w2 where "w2 = snd (snd (snd q))"
  note defs = demo_configured_def aidl_configureStreams_def teardownLocked_def doConfigureLocked_def getManager_def
    demo_relay_def demo_lock_def aidl_source_init_def frame_item_def fillLatestInto_def fill_held_def Let_def numeral_3_eq_3
  have calls: "aidl_configureStreams demo_relay 4 2 0 aidl_source_init ([frame_item 1, frame_item 2], {#})
        = (True, s1, snd (snd demo_configured))"
    "fillLatestInto demo_relay demo_lock 3 (Some 1) 4 2 s1 (\<lambda>_. 0) (snd (snd demo_configured)) = Some (fst q, s2, fst (snd (snd q)), w2)"
    "snd w2 = {#frame_item 2#}"
    by (simp_all add: s1_def q_def s2_def w2_def defs)
  have run: "(aidl_call demo_relay demo_lock)\<^sup>*\<^sup>* (aidl_source_init, [frame_item 1, frame_item 2], {#}) (s2, w2)"
    using call_configure [OF calls(1), of demo_lock] call_fill [OF calls(2)]
    by (meson converse_rtranclp_into_rtranclp r_into_rtranclp)
  obtain s' w' where close: "sessionClosed demo_relay s2 w2 = (s', w')" by (metis surj_pair)
  have "size (snd w2) \<le> 1 \<and> snd w' = {#}"
    using queue_items_returned [OF run demo_relay_tracks snd_conv close] by blast
  then show ?thesis using run close calls(3) by blast
qed

end
