(* ===== verification/Relay.thy ===== *)
theory Relay
  imports Stable_Hal "HOL-Library.Word"
begin

text \<open>
  \<open>platform-jni/VirtualCameraRelayJni.cpp\<close>: the platform's end of the stable boundary. It
  owns one buffer queue per slot, forwards every frame of it to the vendor HAL, and follows
  the connection to the HAL through its death and return.
\<close>

section \<open>State\<close>

definition kMaxSlots :: int where "kMaxSlots = 4"

definition relay_slot :: "int \<Rightarrow> bool" where
  "relay_slot slot \<longleftrightarrow> 0 \<le> slot \<and> slot < kMaxSlots"

type_synonym epoch = "64 word"

record configuration_state =
  cs_token :: int
  cs_closed :: bool

text \<open>A buffer item: its graphic buffer, if any, its fence, if valid, and its timestamp.\<close>

record relay_item =
  ri_buffer :: "ahb option"
  ri_fence :: "int option"
  ri_timestamp :: int

text \<open>A queue object is identified by the consumer that was created with it.\<close>

record relay_queue =
  ry_consumer :: nat
  ry_held :: "relay_item option"
  ry_connection :: epoch
  ry_generation :: "64 word"
  ry_framesPushed :: "64 word"
  ry_configurationToken :: int

record relay =
  gHal :: "nat option"
  gHalVersion :: int
  gCallback :: "epoch option"
  gConnectionEpoch :: epoch
  gNextConnectionEpoch :: epoch
  gConnectionReady :: bool
  gRegistrations :: "int \<Rightarrow> int"
  gConfigurations :: "int \<Rightarrow> configuration_state"
  gSlots :: "int \<Rightarrow> relay_queue option"
  gQueueGenerations :: "int \<Rightarrow> 64 word"

definition fresh_configurations :: "int \<Rightarrow> configuration_state" where
  "fresh_configurations = (\<lambda>_. \<lparr>cs_token = 0, cs_closed = False\<rparr>)"

definition relay_init :: relay where
  "relay_init = \<lparr>gHal = None, gHalVersion = 0, gCallback = None, gConnectionEpoch = 0,
     gNextConnectionEpoch = 0, gConnectionReady = False, gRegistrations = (\<lambda>_. 0),
     gConfigurations = fresh_configurations, gSlots = (\<lambda>_. None), gQueueGenerations = (\<lambda>_. 0)\<rparr>"

text \<open>The thread local context of a callback; a \<open>CallbackScope\<close> is a value passed down.\<close>

record callback_scope =
  sc_epoch :: epoch
  sc_configuration :: int
  sc_registration :: int

definition no_scope :: callback_scope where
  "no_scope = \<lparr>sc_epoch = 0, sc_configuration = 0, sc_registration = 0\<rparr>"

section \<open>Surroundings\<close>

text \<open>
  Remote calls end well, with a service specific error, or with a transport failure that
  tells nothing about what the other side did.
\<close>

datatype rpc = Accepted | Refused int | Broken

datatype java_call = JavaStreamsConfigured int int int int | JavaCameraClosed int | JavaHalDied

datatype queue_call =
    QueueForConfiguration int int ahb int int
  | QueueForCamera int ahb int int
  | QueueFenced ahb int int
  | QueueLegacy ahb int

text \<open>
  \<open>re_peer\<close> is what the other threads do at a point where the current one does not hold
  \<open>gLock\<close>. \<open>re_java\<close> is the call into Java (nothing without a JVM), which may call back.
  \<open>re_queue\<close> answers with the status and the descriptor of the release fence, -1 for none.
\<close>

record 'w relay_env =
  re_peer :: "relay \<Rightarrow> 'w \<Rightarrow> relay \<times> 'w"
  re_java :: "java_call \<Rightarrow> callback_scope \<Rightarrow> relay \<Rightarrow> 'w \<Rightarrow> relay \<times> 'w"
  re_checkService :: "'w \<Rightarrow> nat option \<times> 'w"
  re_version :: "nat \<Rightarrow> 'w \<Rightarrow> int option \<times> 'w"
  re_link :: "nat \<Rightarrow> epoch \<Rightarrow> 'w \<Rightarrow> bool \<times> 'w"
  re_unlink :: "nat \<Rightarrow> epoch \<Rightarrow> 'w \<Rightarrow> 'w"
  re_setCallback :: "nat \<Rightarrow> epoch \<Rightarrow> 'w \<Rightarrow> bool \<times> 'w"
  re_registerProducer :: "nat \<Rightarrow> int \<Rightarrow> ProducerDescriptor \<Rightarrow> epoch option \<Rightarrow> 'w \<Rightarrow> bool \<times> 'w"
  re_removeProducer :: "nat \<Rightarrow> int \<Rightarrow> int \<Rightarrow> epoch option \<Rightarrow> 'w \<Rightarrow> 'w"
  re_setConfigurationReady :: "nat \<Rightarrow> int \<Rightarrow> int \<Rightarrow> bool \<Rightarrow> 'w \<Rightarrow> bool \<times> 'w"
  re_getMaxCameras :: "nat \<Rightarrow> 'w \<Rightarrow> int option \<times> 'w"
  re_setCameraPresent :: "nat \<Rightarrow> int \<Rightarrow> bool \<Rightarrow> 'w \<Rightarrow> 'w"
  re_setProducerAvailable :: "nat \<Rightarrow> bool \<Rightarrow> 'w \<Rightarrow> 'w"
  re_queue :: "nat \<Rightarrow> queue_call \<Rightarrow> 'w \<Rightarrow> (rpc \<times> int) \<times> 'w"
  re_dup :: "int \<Rightarrow> 'w \<Rightarrow> int \<times> 'w"
  re_close :: "int \<Rightarrow> 'w \<Rightarrow> 'w"
  re_create :: "int \<Rightarrow> int \<Rightarrow> int \<Rightarrow> 'w \<Rightarrow> nat \<times> 'w"
  re_acquire :: "nat \<Rightarrow> bool \<Rightarrow> 'w \<Rightarrow> relay_item option \<times> 'w"
  re_release :: "nat \<Rightarrow> relay_item \<Rightarrow> int option \<Rightarrow> 'w \<Rightarrow> 'w"
  re_abandon :: "nat \<Rightarrow> 'w \<Rightarrow> 'w"

definition close_valid :: "'w relay_env \<Rightarrow> int \<Rightarrow> 'w \<Rightarrow> 'w" where
  "close_valid R fd w = (if 0 \<le> fd then re_close R fd w else w)"

section \<open>Connections\<close>

definition isCurrentConnection :: "epoch \<Rightarrow> relay \<Rightarrow> bool" where
  "isCurrentConnection e g \<longleftrightarrow> e \<noteq> 0 \<and> gHal g \<noteq> None \<and> gConnectionEpoch g = e"

definition abandonQueueLocked :: "'w relay_env \<Rightarrow> int \<Rightarrow> relay \<Rightarrow> 'w \<Rightarrow> relay \<times> 'w" where
  "abandonQueueLocked R slot g w = (case gSlots g slot of
       None \<Rightarrow> (g, w)
     | Some old \<Rightarrow> (g\<lparr>gSlots := (gSlots g)(slot := None)\<rparr>, re_abandon R (ry_consumer old) w))"

definition releaseQueue :: "'w relay_env \<Rightarrow> int \<Rightarrow> epoch \<Rightarrow> int \<Rightarrow> relay \<Rightarrow> 'w \<Rightarrow> relay \<times> 'w" where
  "releaseQueue R slot expected token g w =
     (if \<not> relay_slot slot then (g, w)
      else case gSlots g slot of
        None \<Rightarrow> (g, w)
      | Some q \<Rightarrow>
          if expected \<noteq> 0 \<and> ry_connection q \<noteq> expected then (g, w)
          else if token \<noteq> 0 \<and> ry_configurationToken q \<noteq> token then (g, w)
          else abandonQueueLocked R slot g w)"

text \<open>The locked section of \<open>onHalDiedCb\<close>: whether this death ends the current connection.\<close>

definition disconnect :: "epoch \<Rightarrow> relay \<Rightarrow> relay option" where
  "disconnect dead g =
     (if dead = 0 \<or> dead \<noteq> gConnectionEpoch g \<or> gHal g = None then None
      else Some (g\<lparr>gHal := None, gCallback := None, gHalVersion := 0, gConnectionEpoch := 0,
             gConnectionReady := False\<rparr>))"

definition reap_slot :: "'w relay_env \<Rightarrow> epoch \<Rightarrow> int \<Rightarrow> relay \<times> 'w \<Rightarrow> relay \<times> 'w" where
  "reap_slot R dead slot = (\<lambda>(g, w). let (g1, w1) = re_peer R g w in releaseQueue R slot dead 0 g1 w1)"

definition onHalDiedCb :: "'w relay_env \<Rightarrow> epoch \<Rightarrow> relay \<Rightarrow> 'w \<Rightarrow> relay \<times> 'w" where
  "onHalDiedCb R dead g w = (case disconnect dead g of
       None \<Rightarrow> (g, w)
     | Some g1 \<Rightarrow>
         let (g2, w2) = fold (reap_slot R dead) [0..kMaxSlots - 1] (g1, w);
             (g3, w3) = re_peer R g2 w2 in
         re_java R JavaHalDied (no_scope\<lparr>sc_epoch := dead\<rparr>) g3 w3)"

text \<open>
  \<open>hal()\<close>: the connected HAL, connecting to it first when there is none. Another thread may
  have connected before this one gets \<open>gConnectLock\<close>, and the HAL may die while it is given
  its callback.
\<close>

definition next_epoch :: "epoch \<Rightarrow> epoch" where
  "next_epoch e = (if e + 1 = 0 then e + 2 else e + 1)"

definition connect_publish :: "nat \<Rightarrow> int \<Rightarrow> relay \<Rightarrow> relay" where
  "connect_publish h version g =
     (let e = next_epoch (gNextConnectionEpoch g) in
      g\<lparr>gNextConnectionEpoch := e, gHal := Some h, gCallback := Some e, gConnectionEpoch := e,
        gHalVersion := version, gConnectionReady := False, gConfigurations := fresh_configurations,
        gRegistrations := (\<lambda>_. 0)\<rparr>)"

definition connect_failed :: "epoch \<Rightarrow> relay \<Rightarrow> relay" where
  "connect_failed e g =
     (if gConnectionEpoch g = e
      then g\<lparr>gHal := None, gCallback := None, gConnectionEpoch := 0, gHalVersion := 0, gConnectionReady := False\<rparr>
      else g)"

definition relay_connect :: "'w relay_env \<Rightarrow> relay \<Rightarrow> 'w \<Rightarrow> nat option \<times> relay \<times> 'w" where
  "relay_connect R g w = (case re_checkService R w of
       (None, w1) \<Rightarrow> (None, g, w1)
     | (Some h, w1) \<Rightarrow> (case re_version R h w1 of
           (None, w2) \<Rightarrow> (None, g, w2)
         | (Some version, w2) \<Rightarrow>
             if version < 6 then (None, g, w2)
             else
               let (g1, w3) = re_peer R g w2;
                   g2 = connect_publish h version g1;
                   e = gConnectionEpoch g2;
                   (linked, w4) = re_link R h e w3;
                   (set_ok, w5) = (if linked then re_setCallback R h e w4 else (False, w4)) in
               if \<not> linked \<or> \<not> set_ok then
                 let w6 = (if linked then re_unlink R h e w5 else w5);
                     (g3, w7) = re_peer R g2 w6 in
                 (None, connect_failed e g3, w7)
               else
                 let (g3, w6) = re_peer R g2 w5 in
                 if gConnectionEpoch g3 \<noteq> e \<or> gHal g3 \<noteq> Some h then (None, g3, w6)
                 else (Some h, g3\<lparr>gConnectionReady := True\<rparr>, w6)))"

definition hal_get :: "'w relay_env \<Rightarrow> relay \<Rightarrow> 'w \<Rightarrow> nat option \<times> relay \<times> 'w" where
  "hal_get R g w =
     (if gHal g \<noteq> None \<and> gConnectionReady g then (gHal g, g, w)
      else
        let (g1, w1) = re_peer R g w in
        if gHal g1 \<noteq> None \<and> gConnectionReady g1 then (gHal g1, g1, w1)
        else relay_connect R g1 w1)"

section \<open>Callbacks of the HAL\<close>

definition admit :: "epoch \<Rightarrow> int \<Rightarrow> int \<Rightarrow> bool \<Rightarrow> int \<Rightarrow> relay \<Rightarrow> bool \<times> relay" where
  "admit conn slot token closed reg g =
     (if \<not> relay_slot slot \<or> token \<le> 0 \<or> gHal g = None \<or> gConnectionEpoch g \<noteq> conn then (False, g)
      else if 6 \<le> gHalVersion g \<and> (reg \<le> 0 \<or> gRegistrations g slot \<noteq> reg) then (False, g)
      else
        let st = gConfigurations g slot in
        if token < cs_token st \<or> (token = cs_token st \<and> (\<not> closed \<or> cs_closed st)) then (False, g)
        else (True, g\<lparr>gConfigurations := (gConfigurations g)(slot := \<lparr>cs_token = token, cs_closed = closed\<rparr>)\<rparr>))"

definition scoped_callback :: "'w relay_env \<Rightarrow> epoch \<Rightarrow> int \<Rightarrow> int \<Rightarrow> bool \<Rightarrow> int \<Rightarrow> java_call \<Rightarrow> relay \<Rightarrow> 'w \<Rightarrow>
    status \<times> relay \<times> 'w" where
  "scoped_callback R conn slot token closed reg call g w =
     (let (ok, g1) = admit conn slot token closed reg g in
      if \<not> ok then (Ok, g1, w)
      else
        let (g2, w2) = re_peer R g1 w;
            (g3, w3) = re_java R call \<lparr>sc_epoch = conn, sc_configuration = token, sc_registration = reg\<rparr> g2 w2 in
        (Ok, g3, w3))"

definition onStreamsConfiguredForProducer ::
  "'w relay_env \<Rightarrow> epoch \<Rightarrow> int \<Rightarrow> int \<Rightarrow> int \<Rightarrow> int \<Rightarrow> int \<Rightarrow> int \<Rightarrow> relay \<Rightarrow> 'w \<Rightarrow> status \<times> relay \<times> 'w" where
  "onStreamsConfiguredForProducer R conn slot reg token width height fps =
     scoped_callback R conn slot token False reg (JavaStreamsConfigured slot width height fps)"

definition onCameraClosedForProducer ::
  "'w relay_env \<Rightarrow> epoch \<Rightarrow> int \<Rightarrow> int \<Rightarrow> int \<Rightarrow> relay \<Rightarrow> 'w \<Rightarrow> status \<times> relay \<times> 'w" where
  "onCameraClosedForProducer R conn slot reg token =
     scoped_callback R conn slot token True reg (JavaCameraClosed slot)"

definition onStreamsConfiguredForConfiguration ::
  "'w relay_env \<Rightarrow> epoch \<Rightarrow> int \<Rightarrow> int \<Rightarrow> int \<Rightarrow> int \<Rightarrow> int \<Rightarrow> relay \<Rightarrow> 'w \<Rightarrow> status \<times> relay \<times> 'w" where
  "onStreamsConfiguredForConfiguration R conn slot token width height fps =
     scoped_callback R conn slot token False 0 (JavaStreamsConfigured slot width height fps)"

definition onCameraClosedForConfiguration ::
  "'w relay_env \<Rightarrow> epoch \<Rightarrow> int \<Rightarrow> int \<Rightarrow> relay \<Rightarrow> 'w \<Rightarrow> status \<times> relay \<times> 'w" where
  "onCameraClosedForConfiguration R conn slot token =
     scoped_callback R conn slot token True 0 (JavaCameraClosed slot)"

text \<open>The callbacks without a token are refused.\<close>

definition onStreamsConfiguredForCamera :: "int \<Rightarrow> int \<Rightarrow> int \<Rightarrow> int \<Rightarrow> status" where
  "onStreamsConfiguredForCamera slot width height fps = ServiceSpecific 7"

definition onCameraClosedForCamera :: "int \<Rightarrow> status" where
  "onCameraClosedForCamera slot = ServiceSpecific 7"

definition onStreamsConfigured :: "int \<Rightarrow> int \<Rightarrow> int \<Rightarrow> status" where
  "onStreamsConfigured width height fps = onStreamsConfiguredForCamera 0 width height fps"

definition onCameraClosed :: status where
  "onCameraClosed = onCameraClosedForCamera 0"

end
