(* ===== verification/Relay_Queue.thy ===== *)
theory Relay_Queue
  imports Relay
begin

text \<open>
  The frame pump of \<open>platform-jni/VirtualCameraRelayJni.cpp\<close>: creating the queue of a slot and
  forwarding its frames. Both run under the gate of the slot.
\<close>

section \<open>Forwarding a frame\<close>

text \<open>
  \<open>releaseHeld\<close>: a release fence that is not used is closed by its owner.
\<close>

definition releaseHeld :: "'w relay_env \<Rightarrow> relay_queue \<Rightarrow> int \<Rightarrow> 'w \<Rightarrow> relay_queue \<times> 'w" where
  "releaseHeld R q fence w = (case ry_held q of
       None \<Rightarrow> (q, close_valid R fence w)
     | Some i \<Rightarrow> (q\<lparr>ry_held := None\<rparr>,
         re_release R (ry_consumer q) i (if 0 \<le> fence then Some fence else None) w))"

text \<open>
  The call for the version of the HAL, if there is one: before version 3 only slot 0 exists.
\<close>

definition queue_call_for :: "int \<Rightarrow> int \<Rightarrow> relay_queue \<Rightarrow> ahb \<Rightarrow> int \<Rightarrow> int \<Rightarrow> queue_call option" where
  "queue_call_for version slot q gb timestamp acquire =
     (if 4 \<le> version then Some (QueueForConfiguration slot (ry_configurationToken q) gb timestamp acquire)
      else if 3 \<le> version then Some (QueueForCamera slot gb timestamp acquire)
      else if slot = 0 \<and> 2 \<le> version then Some (QueueFenced gb timestamp acquire)
      else if slot = 0 then Some (QueueLegacy gb timestamp)
      else None)"

text \<open>The producer's fence for the HAL: -1 for none, and whether it could be duplicated.\<close>

definition dup_fence :: "'w relay_env \<Rightarrow> int \<Rightarrow> relay_item \<Rightarrow> 'w \<Rightarrow> int \<times> bool \<times> 'w" where
  "dup_fence R version i w = (case ri_fence i of
       None \<Rightarrow> (-1, True, w)
     | Some f \<Rightarrow> if 2 \<le> version then let (fd, w1) = re_dup R f w in (fd, 0 \<le> fd, w1) else (-1, True, w))"

text \<open>
  Submitting one item: the status of the call (\<open>Refused 3\<close> when none was made), the release
  fence, and whether the producer's fence could be passed on.
\<close>

definition submit_item :: "'w relay_env \<Rightarrow> nat \<Rightarrow> int \<Rightarrow> int \<Rightarrow> relay_queue \<Rightarrow> relay_item \<Rightarrow> ahb \<Rightarrow> 'w \<Rightarrow>
    rpc \<times> int \<times> bool \<times> 'w" where
  "submit_item R h version slot q i gb w =
     (let (acquire, preserved, w1) = dup_fence R version i w in
      if \<not> preserved then (Refused 3, -1, False, w1)
      else case queue_call_for version slot q gb (ri_timestamp i) acquire of
        None \<Rightarrow> (Refused 3, -1, True, close_valid R acquire w1)
      | Some call \<Rightarrow>
          let ((status, retired), w2) = re_queue R h call w1 in
          (status, case call of QueueLegacy _ _ \<Rightarrow> -1 | _ \<Rightarrow> retired, True, close_valid R acquire w2))"

definition count_pushed :: "relay_queue \<Rightarrow> relay_queue" where
  "count_pushed q = q\<lparr>ry_framesPushed := ry_framesPushed q + 1\<rparr>"

text \<open>The end of \<open>onFrameAvailable\<close>: keep the item and free the one it replaces, or give it back.\<close>

definition commit_item :: "'w relay_env \<Rightarrow> int \<Rightarrow> relay_item \<Rightarrow> bool \<Rightarrow> int \<Rightarrow> relay_queue \<Rightarrow> 'w \<Rightarrow> relay_queue \<times> 'w" where
  "commit_item R version i queued retired q w =
     (if 2 \<le> version \<and> queued
      then let (q1, w1) = releaseHeld R q retired w in (count_pushed (q1\<lparr>ry_held := Some i\<rparr>), w1)
      else let w1 = re_release R (ry_consumer q) i (ri_fence i) w in
        (if queued then count_pushed q else q, close_valid R retired w1))"

definition onFrameAvailable :: "'w relay_env \<Rightarrow> int \<Rightarrow> nat \<Rightarrow> relay \<Rightarrow> 'w \<Rightarrow> relay \<times> 'w" where
  "onFrameAvailable R slot consumer g w = (case gSlots g slot of
       None \<Rightarrow> (g, w)
     | Some q \<Rightarrow>
         if ry_consumer q \<noteq> consumer then (g, w)
         else (case gHal g of
             None \<Rightarrow> (g, w)
           | Some h \<Rightarrow>
               if gConnectionEpoch g \<noteq> ry_connection q then (g, w)
               else
                 let version = gHalVersion g;
                     (item, w1) = re_acquire R consumer (\<not> 2 \<le> version) w in
                 (case item of
                    None \<Rightarrow> (g, w1)
                  | Some i \<Rightarrow> (case ri_buffer i of
                        None \<Rightarrow> let (q1, w2) = commit_item R version i False (-1) q w1 in
                          (g\<lparr>gSlots := (gSlots g)(slot := Some q1)\<rparr>, w2)
                      | Some gb \<Rightarrow>
                          let (status, retired, preserved, w2) = submit_item R h version slot q i gb w1;
                              (g1, w3) = re_peer R g w2 in
                          if preserved \<and> status = Broken then
                            let (g2, w4) = abandonQueueLocked R slot g1 w3 in (g2, close_valid R retired w4)
                          else
                            let (q1, w4) = commit_item R version i (preserved \<and> status = Accepted) retired q w3 in
                            (g1\<lparr>gSlots := (gSlots g1)(slot := Some q1)\<rparr>, w4)))))"

section \<open>Creating the queue of a slot\<close>

text \<open>
  \<open>createRelayQueue\<close> in its three locked sections: admission, the check of the connection once
  the queue exists, and the installation.
\<close>

definition create_admitted :: "int \<Rightarrow> int \<Rightarrow> int \<Rightarrow> callback_scope \<Rightarrow> relay \<Rightarrow> bool" where
  "create_admitted slot width height sc g \<longleftrightarrow>
     relay_slot slot \<and> 0 < width \<and> 0 < height \<and> gHal g \<noteq> None \<and> gConnectionEpoch g \<noteq> 0 \<and>
     (sc_epoch sc = 0 \<or> sc_epoch sc = gConnectionEpoch g) \<and>
     (4 \<le> gHalVersion g \<longrightarrow> 0 < sc_configuration sc \<and>
        cs_token (gConfigurations g slot) = sc_configuration sc \<and> \<not> cs_closed (gConfigurations g slot))"

definition new_queue :: "nat \<Rightarrow> epoch \<Rightarrow> int \<Rightarrow> 64 word \<Rightarrow> relay_queue" where
  "new_queue consumer e token generation = \<lparr>ry_consumer = consumer, ry_held = None, ry_connection = e,
     ry_generation = generation, ry_framesPushed = 0, ry_configurationToken = token\<rparr>"

definition installable :: "int \<Rightarrow> relay_queue \<Rightarrow> relay \<Rightarrow> bool" where
  "installable slot q g \<longleftrightarrow> gHal g \<noteq> None \<and> gConnectionEpoch g = ry_connection q \<and>
     (gHalVersion g < 4 \<or> (cs_token (gConfigurations g slot) = ry_configurationToken q \<and>
        \<not> cs_closed (gConfigurations g slot)))"

definition install_queue :: "'w relay_env \<Rightarrow> int \<Rightarrow> relay_queue \<Rightarrow> relay \<Rightarrow> 'w \<Rightarrow> nat option \<times> relay \<times> 'w" where
  "install_queue R slot q g w =
     (if installable slot q g
      then (Some (ry_consumer q), g\<lparr>gSlots := (gSlots g)(slot := Some q)\<rparr>, w)
      else (None, g, re_abandon R (ry_consumer q) w))"

definition createRelayQueue :: "'w relay_env \<Rightarrow> int \<Rightarrow> int \<Rightarrow> int \<Rightarrow> callback_scope \<Rightarrow> relay \<Rightarrow> 'w \<Rightarrow>
    nat option \<times> relay \<times> 'w" where
  "createRelayQueue R slot width height sc g w =
     (if \<not> create_admitted slot width height sc g then (None, g, w)
      else
        let e = gConnectionEpoch g;
            (g1, w1) = re_peer R g w;
            (consumer, w2) = re_create R slot width height w1;
            generation = gQueueGenerations g1 slot + 1;
            g2 = g1\<lparr>gQueueGenerations := (gQueueGenerations g1)(slot := generation)\<rparr>;
            q = new_queue consumer e (sc_configuration sc) generation in
        if \<not> isCurrentConnection e g2 then (None, g2, re_abandon R consumer w2)
        else
          let (g3, w3) = abandonQueueLocked R slot g2 w2;
              (g4, w4) = re_peer R g3 w3 in
          install_queue R slot q g4 w4)"

end
