(* ===== verification/Relay_Jni.thy ===== *)
theory Relay_Jni
  imports Relay_Queue
begin

text \<open>
  The entry points Java calls in \<open>platform-jni/VirtualCameraRelayJni.cpp\<close>, and the packed form
  of a producer descriptor they take, written by \<open>service/ProducerCapabilities.java\<close>.
\<close>

section \<open>Packed descriptors\<close>

definition pack_mode :: "AidlProducerMode \<Rightarrow> int list" where
  "pack_mode m = [d_id m, d_width m, d_height m, d_minFps m, d_maxFps m,
     if d_allowDownscale m then 1 else 0, int (length (d_outputFormats m))] @ d_outputFormats m"

definition pack_descriptor :: "ProducerDescriptor \<Rightarrow> int list" where
  "pack_descriptor d = [d_facing d, d_orientation d, d_maxOutputStreams d, int (length (d_modes d))] @
     concat (map pack_mode (d_modes d))"

fun unpack_mode :: "int list \<Rightarrow> (AidlProducerMode \<times> int list) option" where
  "unpack_mode (i # width # height # min_fps # max_fps # downscale # n # v) =
     (if n < 1 \<or> 4 < n \<or> int (length v) < n then None
      else Some (\<lparr>d_id = i, d_width = width, d_height = height, d_minFps = min_fps, d_maxFps = max_fps,
              d_outputFormats = take (nat n) v, d_allowDownscale = (downscale \<noteq> 0)\<rparr>, drop (nat n) v))"
| "unpack_mode _ = None"

primrec unpack_modes :: "nat \<Rightarrow> int list \<Rightarrow> (AidlProducerMode list \<times> int list) option" where
  "unpack_modes 0 v = Some ([], v)"
| "unpack_modes (Suc k) v = (case unpack_mode v of
       None \<Rightarrow> None
     | Some (m, v1) \<Rightarrow> (case unpack_modes k v1 of None \<Rightarrow> None | Some (ms, v2) \<Rightarrow> Some (m # ms, v2)))"

definition unpack_descriptor :: "int \<Rightarrow> int list \<Rightarrow> ProducerDescriptor option" where
  "unpack_descriptor reg v =
     (if length v < 4 \<or> 400 < length v then None
      else if v ! 3 < 1 \<or> 32 < v ! 3 then None
      else case unpack_modes (nat (v ! 3)) (drop 4 v) of
        Some (ms, []) \<Rightarrow> Some \<lparr>d_registration = reg, d_facing = v ! 0, d_orientation = v ! 1,
          d_maxOutputStreams = v ! 2, d_modes = ms\<rparr>
      | _ \<Rightarrow> None)"

section \<open>Entry points\<close>

definition nativeIsHalUp :: "'w relay_env \<Rightarrow> relay \<Rightarrow> 'w \<Rightarrow> bool \<times> relay \<times> 'w" where
  "nativeIsHalUp R g w = (let (h, g1, w1) = hal_get R g w in (h \<noteq> None, g1, w1))"

definition nativeGetMaxCameras :: "'w relay_env \<Rightarrow> relay \<Rightarrow> 'w \<Rightarrow> int \<times> relay \<times> 'w" where
  "nativeGetMaxCameras R g w = (case hal_get R g w of
       (None, g1, w1) \<Rightarrow> (0, g1, w1)
     | (Some h, g1, w1) \<Rightarrow>
         let (g2, w2) = re_peer R g1 w1 in
         if gHal g2 \<noteq> Some h then (0, g2, w2)
         else if gHalVersion g2 < 3 then (1, g2, w2)
         else (case re_getMaxCameras R h w2 of
             (None, w3) \<Rightarrow> (1, g2, w3)
           | (Some n, w3) \<Rightarrow> (if kMaxSlots < n then kMaxSlots else n, g2, w3)))"

text \<open>\<open>packed\<close> is \<open>None\<close> for a null array.\<close>

definition nativeRegisterProducer :: "'w relay_env \<Rightarrow> int \<Rightarrow> int \<Rightarrow> int list option \<Rightarrow> relay \<Rightarrow> 'w \<Rightarrow> bool \<times> relay \<times> 'w" where
  "nativeRegisterProducer R slot reg packed g w =
     (if \<not> relay_slot slot \<or> reg \<le> 0 then (False, g, w)
      else case Option.bind packed (unpack_descriptor reg) of
        None \<Rightarrow> (False, g, w)
      | Some d \<Rightarrow> (case hal_get R g w of
            (None, g1, w1) \<Rightarrow> (False, g1, w1)
          | (Some h, g1, w1) \<Rightarrow>
              let (g2, w2) = re_peer R g1 w1 in
              if gHal g2 \<noteq> Some h then (False, g2, w2)
              else
                let previous = gRegistrations g2 slot;
                    g3 = g2\<lparr>gRegistrations := (gRegistrations g2)(slot := reg)\<rparr>;
                    (ok, w3) = re_registerProducer R h slot d (gCallback g2) w2;
                    (g4, w4) = re_peer R g3 w3 in
                (ok, if \<not> ok \<and> gHal g4 = Some h \<and> gRegistrations g4 slot = reg
                     then g4\<lparr>gRegistrations := (gRegistrations g4)(slot := previous)\<rparr> else g4, w4)))"

definition nativeRemoveProducer :: "'w relay_env \<Rightarrow> int \<Rightarrow> int \<Rightarrow> relay \<Rightarrow> 'w \<Rightarrow> relay \<times> 'w" where
  "nativeRemoveProducer R slot reg g w = (case hal_get R g w of
       (None, g1, w1) \<Rightarrow> (g1, w1)
     | (Some h, g1, w1) \<Rightarrow>
         let (g2, w2) = re_peer R g1 w1 in
         if gHal g2 \<noteq> Some h \<or> \<not> relay_slot slot \<or> gRegistrations g2 slot \<noteq> reg then (g2, w2)
         else
           let g3 = g2\<lparr>gRegistrations := (gRegistrations g2)(slot := 0),
                 gConfigurations := (gConfigurations g2)(slot := (gConfigurations g2 slot)\<lparr>cs_closed := True\<rparr>)\<rparr> in
           (g3, re_removeProducer R h slot reg (gCallback g2) w2))"

definition nativeSetConfigurationReady :: "'w relay_env \<Rightarrow> int \<Rightarrow> int \<Rightarrow> int \<Rightarrow> bool \<Rightarrow> relay \<Rightarrow> 'w \<Rightarrow> bool \<times> relay \<times> 'w" where
  "nativeSetConfigurationReady R slot connection token ready g w = (case hal_get R g w of
       (None, g1, w1) \<Rightarrow> (False, g1, w1)
     | (Some h, g1, w1) \<Rightarrow>
         let (g2, w2) = re_peer R g1 w1 in
         if gHal g2 \<noteq> Some h \<or> gConnectionEpoch g2 \<noteq> word_of_int connection then (False, g2, w2)
         else let (ok, w3) = re_setConfigurationReady R h slot token ready w2 in (ok, g2, w3))"

definition nativeSetCameraPresent :: "'w relay_env \<Rightarrow> callback_scope \<Rightarrow> int \<Rightarrow> bool \<Rightarrow> relay \<Rightarrow> 'w \<Rightarrow> relay \<times> 'w" where
  "nativeSetCameraPresent R sc slot present g w =
     (if \<not> relay_slot slot then (g, w)
      else case hal_get R g w of
        (None, g1, w1) \<Rightarrow> (g1, w1)
      | (Some h, g1, w1) \<Rightarrow>
          let (g2, w2) = re_peer R g1 w1 in
          if gHal g2 \<noteq> Some h \<or> (sc_epoch sc \<noteq> 0 \<and> sc_epoch sc \<noteq> gConnectionEpoch g2) then (g2, w2)
          else if 3 \<le> gHalVersion g2 then (g2, re_setCameraPresent R h slot present w2)
          else if slot = 0 then (g2, re_setProducerAvailable R h present w2)
          else (g2, w2))"

definition nativeCreateSurface :: "'w relay_env \<Rightarrow> callback_scope \<Rightarrow> int \<Rightarrow> int \<Rightarrow> int \<Rightarrow> relay \<Rightarrow> 'w \<Rightarrow> nat option \<times> relay \<times> 'w" where
  "nativeCreateSurface R sc slot width height g w = createRelayQueue R slot width height sc g w"

definition nativeReleaseSurface :: "'w relay_env \<Rightarrow> callback_scope \<Rightarrow> int \<Rightarrow> relay \<Rightarrow> 'w \<Rightarrow> relay \<times> 'w" where
  "nativeReleaseSurface R sc slot g w = releaseQueue R slot (sc_epoch sc) (sc_configuration sc) g w"

definition nativeCallbackEpoch :: "callback_scope \<Rightarrow> int" where
  "nativeCallbackEpoch sc = sint (sc_epoch sc)"

definition nativeCallbackConfiguration :: "callback_scope \<Rightarrow> int" where
  "nativeCallbackConfiguration sc = sc_configuration sc"

definition nativeCallbackRegistration :: "callback_scope \<Rightarrow> int" where
  "nativeCallbackRegistration sc = sc_registration sc"

definition nativeIsCurrentConnection :: "int \<Rightarrow> relay \<Rightarrow> bool" where
  "nativeIsCurrentConnection e g = isCurrentConnection (word_of_int e) g"

definition nativeCreateSurfaceForEpoch :: "'w relay_env \<Rightarrow> int \<Rightarrow> int \<Rightarrow> int \<Rightarrow> int \<Rightarrow> int \<Rightarrow> relay \<Rightarrow> 'w \<Rightarrow>
    nat option \<times> relay \<times> 'w" where
  "nativeCreateSurfaceForEpoch R slot width height e token g w =
     nativeCreateSurface R \<lparr>sc_epoch = word_of_int e, sc_configuration = token, sc_registration = 0\<rparr> slot width height g w"

definition nativeReleaseSurfaceForEpoch :: "'w relay_env \<Rightarrow> int \<Rightarrow> int \<Rightarrow> int \<Rightarrow> relay \<Rightarrow> 'w \<Rightarrow> relay \<times> 'w" where
  "nativeReleaseSurfaceForEpoch R slot e token g w =
     (if e = 0 then (g, w)
      else nativeReleaseSurface R \<lparr>sc_epoch = word_of_int e, sc_configuration = token, sc_registration = 0\<rparr> slot g w)"

end
