(* ===== verification/Relay_Theorems.thy ===== *)
theory Relay_Theorems
  imports Relay_Jni "HOL-Library.Product_Lexorder"
begin

text \<open>
  What crosses the boundary unchanged: producer descriptors, and the newest configuration of
  a camera whatever the order its callbacks arrive in.
\<close>

section \<open>Descriptors\<close>

definition small_mode :: "AidlProducerMode \<Rightarrow> bool" where
  "small_mode m \<longleftrightarrow> d_outputFormats m \<noteq> [] \<and> length (d_outputFormats m) \<le> 4"

lemma unpack_pack_mode:
  assumes "small_mode m"
  shows "unpack_mode (pack_mode m @ v) = Some (m, v)"
proof -
  have "1 \<le> int (length (d_outputFormats m))" using assms by (cases "d_outputFormats m") (auto simp: small_mode_def)
  then show ?thesis using assms by (simp add: pack_mode_def small_mode_def)
qed

lemma unpack_pack_modes:
  "list_all small_mode ms \<Longrightarrow> unpack_modes (length ms) (concat (map pack_mode ms) @ v) = Some (ms, v)"
  by (induction ms) (simp_all add: unpack_pack_mode)

lemma pack_modes_length: "list_all small_mode ms \<Longrightarrow> length (concat (map pack_mode ms)) \<le> 11 * length ms"
  by (induction ms) (auto simp: pack_mode_def small_mode_def)

lemma valid_modes_small: "modes_valid ids (map mode_of_aidl ms) \<Longrightarrow> list_all small_mode ms"
  by (induction ms arbitrary: ids) (auto simp: mode_of_aidl_def small_mode_def split: if_splits)

lemma unpack_pack:
  assumes "list_all small_mode (d_modes d)" "d_modes d \<noteq> []" "length (d_modes d) \<le> 32"
  shows "unpack_descriptor (d_registration d) (pack_descriptor d) = Some d"
proof -
  have "length (pack_descriptor d) \<le> 400"
    using pack_modes_length [OF assms(1)] assms(3) by (simp add: pack_descriptor_def)
  moreover have "1 \<le> int (length (d_modes d))" using assms(2) by (cases "d_modes d") auto
  ultimately show ?thesis
    using assms(2,3) unpack_pack_modes [OF assms(1), of "[]"]
    by (simp add: unpack_descriptor_def pack_descriptor_def)
qed

lemma valid_unpacks:
  assumes "caps_valid (caps_of_descriptor d)"
  shows "unpack_descriptor (d_registration d) (pack_descriptor d) = Some d"
  by (rule unpack_pack)
    (use assms in \<open>auto simp: caps_valid_def caps_of_descriptor_def split: if_splits intro: valid_modes_small\<close>)

definition peers_quiet :: "'w relay_env \<Rightarrow> bool" where
  "peers_quiet R \<longleftrightarrow> (\<forall>g w. re_peer R g w = (g, w))"

text \<open>
  A descriptor the HAL can accept, packed by the platform service and handed to the relay
  of a connected HAL, reaches the HAL's registration call as the same descriptor; the relay
  then remembers the registration exactly when the call succeeded.
\<close>

theorem descriptor_roundtrip:
  assumes "caps_valid (caps_of_descriptor d)" "relay_slot slot" "gHal g = Some h" "gConnectionReady g" "peers_quiet R"
    and "re_registerProducer R h slot d (gCallback g) w = (ok, w1)"
  shows "\<exists>g1. nativeRegisterProducer R slot (d_registration d) (Some (pack_descriptor d)) g w = (ok, g1, w1) \<and>
    gRegistrations g1 slot = (if ok then d_registration d else gRegistrations g slot)"
proof -
  have "0 < d_registration d" using assms(1) by (auto simp: caps_valid_def caps_of_descriptor_def split: if_splits)
  then show ?thesis
    using assms valid_unpacks [OF assms(1)]
    by (auto simp: nativeRegisterProducer_def hal_get_def peers_quiet_def Let_def)
qed

section \<open>Callbacks in any order\<close>

text \<open>An admitted callback: its token and whether it closes the camera.\<close>

definition admit_all :: "epoch \<Rightarrow> int \<Rightarrow> int \<Rightarrow> (int \<times> bool) list \<Rightarrow> relay \<Rightarrow> relay" where
  "admit_all conn slot reg es g = fold (\<lambda>(token, closed) g. snd (admit conn slot token closed reg g)) es g"

definition configuration_of :: "relay \<Rightarrow> int \<Rightarrow> int \<times> bool" where
  "configuration_of g slot = (cs_token (gConfigurations g slot), cs_closed (gConfigurations g slot))"

definition admits :: "epoch \<Rightarrow> int \<Rightarrow> int \<Rightarrow> relay \<Rightarrow> bool" where
  "admits conn slot reg g \<longleftrightarrow> relay_slot slot \<and> gHal g \<noteq> None \<and> gConnectionEpoch g = conn \<and>
     (6 \<le> gHalVersion g \<longrightarrow> 0 < reg \<and> gRegistrations g slot = reg)"

lemma admit_max:
  assumes "admits conn slot reg g" "0 < token"
  shows "admits conn slot reg (snd (admit conn slot token closed reg g)) \<and>
    configuration_of (snd (admit conn slot token closed reg g)) slot = max (configuration_of g slot) (token, closed) \<and>
    fst (admit conn slot token closed reg g) = (configuration_of g slot < (token, closed))"
  using assms by (auto simp: admit_def admits_def configuration_of_def max_def Let_def less_bool_def le_bool_def)

lemma admit_all_max:
  "admits conn slot reg g \<Longrightarrow> \<forall>e \<in> set es. 0 < fst e \<Longrightarrow>
   configuration_of (admit_all conn slot reg es g) slot = Max (insert (configuration_of g slot) (set es))"
proof (induction es arbitrary: g)
  case Nil
  then show ?case by (simp add: admit_all_def)
next
  case (Cons e es)
  obtain token closed where e: "e = (token, closed)" by fastforce
  let ?g = "snd (admit conn slot token closed reg g)"
  have one: "admits conn slot reg ?g" "configuration_of ?g slot = max (configuration_of g slot) e"
    using admit_max [OF Cons.prems(1), of token closed] Cons.prems(2) e by auto
  have "configuration_of (admit_all conn slot reg es ?g) slot = Max (insert (max (configuration_of g slot) e) (set es))"
    using Cons.IH [OF one(1)] Cons.prems(2) one(2) by simp
  moreover have "admit_all conn slot reg (e # es) g = admit_all conn slot reg es ?g" by (simp add: admit_all_def e)
  moreover have "Max (insert (max a b) S) = Max (insert a (insert b S))" if "finite S" for a b :: "int \<times> bool" and S
    using that by (cases "S = {}") (simp_all add: max.assoc)
  ultimately show ?case by simp
qed

text \<open>
  C28: The configuration a slot ends up with after any callbacks of one registration depends
  only on which callbacks there were, not on their order or repetition: it is the newest one, and
  it is closed once its close arrived, before or after its opening.
\<close>

theorem callbacks_any_order:
  assumes "admits conn slot reg g" "\<forall>e \<in> set es. 0 < fst e" "set es' = set es"
  shows "configuration_of (admit_all conn slot reg es g) slot = Max (insert (configuration_of g slot) (set es)) \<and>
    configuration_of (admit_all conn slot reg es' g) slot = configuration_of (admit_all conn slot reg es g) slot"
  using admit_all_max [OF assms(1), of es] admit_all_max [OF assms(1), of es'] assms(2,3) by simp

section \<open>A relay that is alone\<close>

text \<open>
  The world: the number of the next consumer, and the consumers not abandoned. The HAL takes
  every registration and every frame.
\<close>

definition demo_relay_env :: "(nat \<times> nat list) relay_env" where
  "demo_relay_env = \<lparr>re_peer = (\<lambda>g w. (g, w)), re_java = (\<lambda>_ _ g w. (g, w)), re_checkService = (\<lambda>w. (Some 7, w)),
     re_version = (\<lambda>_ w. (Some 6, w)), re_link = (\<lambda>_ _ w. (True, w)), re_unlink = (\<lambda>_ _ w. w),
     re_setCallback = (\<lambda>_ _ w. (True, w)), re_registerProducer = (\<lambda>_ _ _ _ w. (True, w)),
     re_removeProducer = (\<lambda>_ _ _ _ w. w), re_setConfigurationReady = (\<lambda>_ _ _ _ w. (True, w)),
     re_getMaxCameras = (\<lambda>_ w. (Some 4, w)), re_setCameraPresent = (\<lambda>_ _ _ w. w),
     re_setProducerAvailable = (\<lambda>_ _ w. w), re_queue = (\<lambda>_ _ w. ((Accepted, -1), w)),
     re_dup = (\<lambda>fd w. (fd + 1, w)), re_close = (\<lambda>_ w. w),
     re_create = (\<lambda>_ _ _ w. (fst w, fst w + 1, fst w # snd w)), re_acquire = (\<lambda>_ _ w. (None, w)),
     re_release = (\<lambda>_ _ _ w. w), re_abandon = (\<lambda>c w. (fst w, removeAll c (snd w)))\<rparr>"

definition demo_relay_connected :: relay where
  "demo_relay_connected = fst (snd (hal_get demo_relay_env relay_init (0, [])))"

definition demo_descriptor :: ProducerDescriptor where
  "demo_descriptor = \<lparr>d_registration = 41, d_facing = 1, d_orientation = 90, d_maxOutputStreams = 2,
     d_modes = [\<lparr>d_id = 1, d_width = 1920, d_height = 1080, d_minFps = 15, d_maxFps = 30,
       d_outputFormats = [34, 35], d_allowDownscale = True\<rparr>]\<rparr>"

lemma demo_connected: "gHal demo_relay_connected = Some 7" "gConnectionReady demo_relay_connected"
    "gConnectionEpoch demo_relay_connected = 1"
  by code_simp+

theorem descriptor_roundtrip_witness:
  "\<exists>g. nativeRegisterProducer demo_relay_env 2 41 (Some [1, 90, 2, 1, 1, 1920, 1080, 15, 30, 1, 2, 34, 35])
     demo_relay_connected (0, []) = (True, g, 0, []) \<and> gRegistrations g 2 = 41"
proof -
  have v: "caps_valid (caps_of_descriptor demo_descriptor)" by code_simp
  have p: "pack_descriptor demo_descriptor = [1, 90, 2, 1, 1, 1920, 1080, 15, 30, 1, 2, 34, 35]" by code_simp
  have r: "re_registerProducer demo_relay_env 7 2 demo_descriptor (gCallback demo_relay_connected) (0, []) = (True, 0, [])"
    by (simp add: demo_relay_env_def)
  show ?thesis
    using descriptor_roundtrip [OF v _ demo_connected(1,2) _ r] p
    by (auto simp: relay_slot_def kMaxSlots_def peers_quiet_def demo_relay_env_def demo_descriptor_def)
qed

theorem callbacks_any_order_witness:
  "configuration_of (admit_all 1 2 41 [(5, True), (5, False), (3, False)]
     (demo_relay_connected\<lparr>gRegistrations := (\<lambda>_. 41)\<rparr>)) 2 = (5, True)"
proof -
  let ?g = "demo_relay_connected\<lparr>gRegistrations := (\<lambda>_. 41)\<rparr>"
  have "admits 1 2 41 ?g" using demo_connected by (simp add: admits_def relay_slot_def kMaxSlots_def)
  moreover have "configuration_of ?g 2 = (0, False)" by code_simp
  ultimately show ?thesis
    using callbacks_any_order [of 1 2 41 ?g "[(5, True), (5, False), (3, False)]" "[(5, True), (5, False), (3, False)]"]
    by (simp add: max_def)
qed

end
