(* ===== verification/Relay_System.thy ===== *)
theory Relay_System
  imports Relay_Theorems
begin

text \<open>
  The relay under concurrency: its threads move by locked sections, one gate per slot, in any
  order. A queue never outlives its connection to the HAL by more than the run of the death
  handler, and no queue is leaked.
\<close>

section \<open>Sections as steps\<close>

text \<open>
  What the holder of a slot's gate is in the middle of: \<open>createRelayQueue\<close> after its admission,
  or with its new queue before and after it abandoned the old one; or \<open>onFrameAvailable\<close> with
  an acquired item.
\<close>

datatype gate = Idle | Admitted epoch int | Creating relay_queue bool | Forwarding relay_item int

text \<open>
  \<open>z_reap\<close>: the slots that running death handlers still have to release, each with its dead
  connection. \<open>z_known\<close>: the HALs that \<open>hal()\<close> has handed out. A HAL that comes back is another
  binder object.
\<close>

record 'w relay_system =
  z_relay :: relay
  z_world :: 'w
  z_gate :: "int \<Rightarrow> gate"
  z_reap :: "(epoch \<times> int) set"
  z_known :: "nat set"

inductive relay_step :: "'w relay_env \<Rightarrow> 'w relay_system \<Rightarrow> 'w relay_system \<Rightarrow> bool" for R :: "'w relay_env" where
  st_connect: "\<not> (gHal (z_relay z) \<noteq> None \<and> gConnectionReady (z_relay z)) \<Longrightarrow> h \<notin> z_known z \<Longrightarrow> 6 \<le> version \<Longrightarrow>
    gNextConnectionEpoch (z_relay z) \<noteq> - 1 \<Longrightarrow>
    relay_step R z (z\<lparr>z_relay := connect_publish h version (z_relay z)\<rparr>)"
| st_ready: "gHal (z_relay z) = Some h \<Longrightarrow>
    relay_step R z (z\<lparr>z_relay := (z_relay z)\<lparr>gConnectionReady := True\<rparr>, z_known := insert h (z_known z)\<rparr>)"
| st_failed: "\<not> gConnectionReady (z_relay z) \<Longrightarrow> e \<noteq> 0 \<Longrightarrow>
    relay_step R z (z\<lparr>z_relay := connect_failed e (z_relay z)\<rparr>)"
| st_died: "disconnect dead (z_relay z) = Some g \<Longrightarrow>
    relay_step R z (z\<lparr>z_relay := g, z_reap := z_reap z \<union> {dead} \<times> {0..kMaxSlots - 1}\<rparr>)"
| st_reap: "(dead, slot) \<in> z_reap z \<Longrightarrow> z_gate z slot = Idle \<Longrightarrow>
    releaseQueue R slot dead 0 (z_relay z) (z_world z) = (g, w) \<Longrightarrow>
    relay_step R z (z\<lparr>z_relay := g, z_world := w, z_reap := z_reap z - {(dead, slot)}\<rparr>)"
| st_release: "z_gate z slot = Idle \<Longrightarrow> releaseQueue R slot e token (z_relay z) (z_world z) = (g, w) \<Longrightarrow>
    relay_step R z (z\<lparr>z_relay := g, z_world := w\<rparr>)"
| st_register: "gHal (z_relay z) = Some h \<Longrightarrow> h \<in> z_known z \<Longrightarrow>
    relay_step R z (z\<lparr>z_relay := (z_relay z)\<lparr>gRegistrations := (gRegistrations (z_relay z))(slot := reg)\<rparr>\<rparr>)"
| st_remove: "gHal (z_relay z) = Some h \<Longrightarrow> h \<in> z_known z \<Longrightarrow>
    relay_step R z (z\<lparr>z_relay := (z_relay z)\<lparr>gRegistrations := (gRegistrations (z_relay z))(slot := 0),
      gConfigurations := (gConfigurations (z_relay z))(slot := (gConfigurations (z_relay z) slot)\<lparr>cs_closed := True\<rparr>)\<rparr>\<rparr>)"
| st_admit: "admit conn slot token closed reg (z_relay z) = (ok, g) \<Longrightarrow> relay_step R z (z\<lparr>z_relay := g\<rparr>)"
| st_enter: "z_gate z slot = Idle \<Longrightarrow> create_admitted slot width height sc (z_relay z) \<Longrightarrow>
    relay_step R z (z\<lparr>z_gate := (z_gate z)(slot := Admitted (gConnectionEpoch (z_relay z)) (sc_configuration sc))\<rparr>)"
| st_create: "z_gate z slot = Admitted e token \<Longrightarrow> re_create R slot width height (z_world z) = (c, w) \<Longrightarrow>
    generation = gQueueGenerations (z_relay z) slot + 1 \<Longrightarrow>
    relay_step R z (z\<lparr>z_relay := (z_relay z)\<lparr>gQueueGenerations := (gQueueGenerations (z_relay z))(slot := generation)\<rparr>,
      z_world := w, z_gate := (z_gate z)(slot := Creating (new_queue c e token generation) False)\<rparr>)"
| st_stale: "z_gate z slot = Creating q False \<Longrightarrow> \<not> isCurrentConnection (ry_connection q) (z_relay z) \<Longrightarrow>
    relay_step R z (z\<lparr>z_world := re_abandon R (ry_consumer q) (z_world z), z_gate := (z_gate z)(slot := Idle)\<rparr>)"
| st_replace: "z_gate z slot = Creating q False \<Longrightarrow> isCurrentConnection (ry_connection q) (z_relay z) \<Longrightarrow>
    abandonQueueLocked R slot (z_relay z) (z_world z) = (g, w) \<Longrightarrow>
    relay_step R z (z\<lparr>z_relay := g, z_world := w, z_gate := (z_gate z)(slot := Creating q True)\<rparr>)"
| st_install: "z_gate z slot = Creating q True \<Longrightarrow> install_queue R slot q (z_relay z) (z_world z) = (r, g, w) \<Longrightarrow>
    relay_step R z (z\<lparr>z_relay := g, z_world := w, z_gate := (z_gate z)(slot := Idle)\<rparr>)"
| st_acquire: "z_gate z slot = Idle \<Longrightarrow> gSlots (z_relay z) slot = Some q \<Longrightarrow>
    gConnectionEpoch (z_relay z) = ry_connection q \<Longrightarrow> version = gHalVersion (z_relay z) \<Longrightarrow>
    re_acquire R (ry_consumer q) (\<not> 2 \<le> version) (z_world z) = (Some i, w) \<Longrightarrow>
    relay_step R z (z\<lparr>z_world := w, z_gate := (z_gate z)(slot := Forwarding i version)\<rparr>)"
| st_submit: "z_gate z slot = Forwarding i version \<Longrightarrow> gSlots (z_relay z) slot = Some q \<Longrightarrow>
    submit_item R h version slot q i gb (z_world z) = (status, retired, preserved, w) \<Longrightarrow>
    relay_step R z (z\<lparr>z_world := w\<rparr>)"
| st_commit: "z_gate z slot = Forwarding i version \<Longrightarrow> gSlots (z_relay z) slot = Some q \<Longrightarrow>
    commit_item R version i queued retired q (z_world z) = (q1, w) \<Longrightarrow>
    relay_step R z (z\<lparr>z_relay := (z_relay z)\<lparr>gSlots := (gSlots (z_relay z))(slot := Some q1)\<rparr>, z_world := w,
      z_gate := (z_gate z)(slot := Idle)\<rparr>)"
| st_broken: "z_gate z slot = Forwarding i version \<Longrightarrow> abandonQueueLocked R slot (z_relay z) (z_world z) = (g, w) \<Longrightarrow>
    relay_step R z (z\<lparr>z_relay := g, z_world := close_valid R retired w, z_gate := (z_gate z)(slot := Idle)\<rparr>)"

definition relay_start :: "'w \<Rightarrow> 'w relay_system" where
  "relay_start w = \<lparr>z_relay = relay_init, z_world = w, z_gate = (\<lambda>_. Idle), z_reap = {}, z_known = {}\<rparr>"

section \<open>Connections\<close>

definition epochs_ok :: "'w relay_system \<Rightarrow> bool" where
  "epochs_ok z \<longleftrightarrow> (gHal (z_relay z) = None \<longleftrightarrow> gConnectionEpoch (z_relay z) = 0) \<and>
     (gHal (z_relay z) \<noteq> None \<longrightarrow> 6 \<le> gHalVersion (z_relay z)) \<and>
     gConnectionEpoch (z_relay z) \<le> gNextConnectionEpoch (z_relay z) \<and>
     (\<forall>(dead, slot) \<in> z_reap z. dead \<noteq> 0 \<and> dead \<noteq> gConnectionEpoch (z_relay z) \<and> dead \<le> gNextConnectionEpoch (z_relay z))"

text \<open>Until a connection is ready, nothing is registered or configured on it.\<close>

definition blank_ok :: "'w relay_system \<Rightarrow> bool" where
  "blank_ok z \<longleftrightarrow> (\<forall>h. gHal (z_relay z) = Some h \<and> \<not> gConnectionReady (z_relay z) \<longrightarrow> h \<notin> z_known z \<and>
     (\<forall>slot. gRegistrations (z_relay z) slot = 0 \<and> cs_token (gConfigurations (z_relay z) slot) = 0))"

definition live_epoch :: "epoch \<Rightarrow> 'w relay_system \<Rightarrow> bool" where
  "live_epoch e z \<longleftrightarrow> e \<noteq> 0 \<and> e \<le> gNextConnectionEpoch (z_relay z) \<and>
     (e = gConnectionEpoch (z_relay z) \<longrightarrow> gConnectionReady (z_relay z))"

definition gate_ok :: "'w relay_system \<Rightarrow> int \<Rightarrow> gate \<Rightarrow> bool" where
  "gate_ok z slot k \<longleftrightarrow> (case k of
       Admitted e _ \<Rightarrow> relay_slot slot \<and> live_epoch e z
     | Creating q cleared \<Rightarrow> relay_slot slot \<and> live_epoch (ry_connection q) z \<and> (cleared \<longrightarrow> gSlots (z_relay z) slot = None)
     | _ \<Rightarrow> True)"

definition queue_ok :: "'w relay_system \<Rightarrow> int \<Rightarrow> relay_queue \<Rightarrow> bool" where
  "queue_ok z slot q \<longleftrightarrow> relay_slot slot \<and> live_epoch (ry_connection q) z \<and>
     (ry_connection q = gConnectionEpoch (z_relay z) \<or> (ry_connection q, slot) \<in> z_reap z)"

definition connections_ok :: "'w relay_system \<Rightarrow> bool" where
  "connections_ok z \<longleftrightarrow> epochs_ok z \<and> blank_ok z \<and> (\<forall>slot. gate_ok z slot (z_gate z slot)) \<and>
     (\<forall>slot q. gSlots (z_relay z) slot = Some q \<longrightarrow> queue_ok z slot q)"

lemma start_connections: "connections_ok (relay_start w)"
  by (simp add: connections_ok_def epochs_ok_def blank_ok_def gate_ok_def relay_start_def relay_init_def)

lemma fresh_epoch:
  assumes "e \<le> n" "n \<noteq> - 1"
  shows "e < next_epoch n" "next_epoch n \<noteq> 0"
proof -
  have up: "n < n + 1" by (rule word_less_inc [OF assms(2)])
  then have "n + 1 \<noteq> 0" by (metis word_zero_le leD)
  then show "next_epoch n \<noteq> 0" "e < next_epoch n"
    using up assms(1) by (auto simp: next_epoch_def)
qed

lemma abandon_cases:
  assumes "abandonQueueLocked R slot g w = (g', w')"
  obtains "gSlots g slot = None" "g' = g" "w' = w"
  | q where "gSlots g slot = Some q" "g' = g\<lparr>gSlots := (gSlots g)(slot := None)\<rparr>" "w' = re_abandon R (ry_consumer q) w"
  using assms by (auto simp: abandonQueueLocked_def split: option.splits)

lemma release_cases:
  assumes "releaseQueue R slot e token g w = (g', w')"
  obtains "g' = g" "w' = w" "\<And>q. relay_slot slot \<Longrightarrow> gSlots g slot = Some q \<Longrightarrow> token = 0 \<Longrightarrow> ry_connection q \<noteq> e"
  | q where "gSlots g slot = Some q" "g' = g\<lparr>gSlots := (gSlots g)(slot := None)\<rparr>" "w' = re_abandon R (ry_consumer q) w"
  using assms by (auto simp: releaseQueue_def abandonQueueLocked_def split: option.splits if_splits)

text \<open>
  A step keeps the connections in order when it keeps the epochs, a gate it does not touch stays
  good as long as no queue appears behind it, and its queues are good.
\<close>

lemma keep_connections:
  assumes "connections_ok z" "epochs_ok z'" "blank_ok z'"
    and "\<And>e. live_epoch e z \<Longrightarrow> live_epoch e z'"
    and "\<And>slot. z_gate z' slot = z_gate z slot \<and>
        (gSlots (z_relay z) slot = None \<longrightarrow> gSlots (z_relay z') slot = None) \<or> gate_ok z' slot (z_gate z' slot)"
    and "\<And>slot q. gSlots (z_relay z') slot = Some q \<Longrightarrow> queue_ok z' slot q"
  shows "connections_ok z'"
proof -
  have "gate_ok z' slot (z_gate z' slot)" for slot
  proof (rule disjE [OF assms(5) [of slot]])
    assume same: "z_gate z' slot = z_gate z slot \<and> (gSlots (z_relay z) slot = None \<longrightarrow> gSlots (z_relay z') slot = None)"
    have "gate_ok z slot (z_gate z slot)" using assms(1) by (simp add: connections_ok_def)
    then show "gate_ok z' slot (z_gate z' slot)"
      using same assms(4) by (simp add: gate_ok_def split: gate.splits)
  qed
  then show ?thesis using assms(2,3,6) by (simp add: connections_ok_def)
qed

text \<open>The parts of the relay that are not queues, unchanged.\<close>

definition same_core :: "relay \<Rightarrow> relay \<Rightarrow> bool" where
  "same_core g g' \<longleftrightarrow> gHal g' = gHal g \<and> gHalVersion g' = gHalVersion g \<and> gConnectionEpoch g' = gConnectionEpoch g \<and>
     gNextConnectionEpoch g' = gNextConnectionEpoch g \<and> gConnectionReady g' = gConnectionReady g \<and>
     gRegistrations g' = gRegistrations g \<and> gConfigurations g' = gConfigurations g"

lemma core_connections:
  assumes "connections_ok z" "same_core (z_relay z) (z_relay z')" "z_known z' = z_known z" "z_reap z' \<subseteq> z_reap z"
    and "\<And>slot. z_gate z' slot = z_gate z slot \<and>
        (gSlots (z_relay z) slot = None \<longrightarrow> gSlots (z_relay z') slot = None) \<or> gate_ok z' slot (z_gate z' slot)"
    and "\<And>slot q. gSlots (z_relay z') slot = Some q \<Longrightarrow> queue_ok z' slot q"
  shows "connections_ok z'"
proof (rule keep_connections [OF assms(1) _ _ _ assms(5,6)])
  have ok: "epochs_ok z" "blank_ok z" using assms(1) by (simp_all add: connections_ok_def)
  note core = assms(2) [unfolded same_core_def]
  show "epochs_ok z'" using ok(1) core assms(4) unfolding epochs_ok_def by auto
  show "blank_ok z'" using ok(2) core assms(3) unfolding blank_ok_def by simp
  show "live_epoch e z'" if "live_epoch e z" for e using that core by (simp add: live_epoch_def)
qed

lemma core_refl [simp]:
  "same_core g g" "same_core g (g\<lparr>gSlots := x\<rparr>)" "same_core g (g\<lparr>gQueueGenerations := y\<rparr>)"
  by (simp_all add: same_core_def)

lemma core_live: "same_core (z_relay z) (z_relay z') \<Longrightarrow> live_epoch e z' = live_epoch e z"
  by (simp add: same_core_def live_epoch_def)

lemma core_queue:
  "same_core (z_relay z) (z_relay z') \<Longrightarrow> z_reap z' = z_reap z \<Longrightarrow> queue_ok z' slot q = queue_ok z slot q"
  using core_live [of z z'] by (simp add: queue_ok_def same_core_def)

lemma old_queue: "connections_ok z \<Longrightarrow> gSlots (z_relay z) slot = Some q \<Longrightarrow> queue_ok z slot q"
  by (simp add: connections_ok_def)

text \<open>Steps that only take a queue away, or only move a gate.\<close>

lemma drop_connections:
  assumes "connections_ok z" "z_relay z' = (z_relay z)\<lparr>gSlots := (gSlots (z_relay z))(slot := None)\<rparr>"
    and "z_known z' = z_known z" "z_reap z' = z_reap z"
    and "\<And>i. z_gate z' i = z_gate z i \<or> gate_ok z' i (z_gate z' i)"
  shows "connections_ok z'"
proof (rule core_connections [OF assms(1) _ assms(3)])
  have core: "same_core (z_relay z) (z_relay z')" using assms(2) by simp
  then show "same_core (z_relay z) (z_relay z')" .
  show "z_gate z' i = z_gate z i \<and> (gSlots (z_relay z) i = None \<longrightarrow> gSlots (z_relay z') i = None) \<or>
      gate_ok z' i (z_gate z' i)" for i
    using assms(2,5) by auto
  show "queue_ok z' i q" if "gSlots (z_relay z') i = Some q" for i q
    using that assms(2) old_queue [OF assms(1), of i q] core_queue [OF core assms(4)] by (auto split: if_splits)
qed (use assms(4) in simp)

lemma gate_connections:
  assumes "connections_ok z" "same_core (z_relay z) (z_relay z')" "gSlots (z_relay z') = gSlots (z_relay z)"
    and "z_known z' = z_known z" "z_reap z' = z_reap z"
    and "\<And>i. z_gate z' i = z_gate z i \<or> gate_ok z' i (z_gate z' i)"
  shows "connections_ok z'"
proof (rule core_connections [OF assms(1,2,4)])
  show "z_gate z' i = z_gate z i \<and> (gSlots (z_relay z) i = None \<longrightarrow> gSlots (z_relay z') i = None) \<or>
      gate_ok z' i (z_gate z' i)" for i
    using assms(3,6) by auto
  show "queue_ok z' i q" if "gSlots (z_relay z') i = Some q" for i q
    using that assms(3) old_queue [OF assms(1), of i q] core_queue [OF assms(2,5)] by simp
qed (use assms(5) in simp)

lemma put_connections:
  assumes "connections_ok z" "z_relay z' = (z_relay z)\<lparr>gSlots := (gSlots (z_relay z))(slot := Some q)\<rparr>"
    and "z_known z' = z_known z" "z_reap z' = z_reap z" "z_gate z' = (z_gate z)(slot := Idle)" "queue_ok z slot q"
  shows "connections_ok z'"
proof (rule core_connections [OF assms(1) _ assms(3)])
  have core: "same_core (z_relay z) (z_relay z')" using assms(2) by simp
  then show "same_core (z_relay z) (z_relay z')" .
  show "z_gate z' i = z_gate z i \<and> (gSlots (z_relay z) i = None \<longrightarrow> gSlots (z_relay z') i = None) \<or>
      gate_ok z' i (z_gate z' i)" for i
    using assms(2,5) by (cases "i = slot") (auto simp: gate_ok_def)
  show "queue_ok z' i p" if "gSlots (z_relay z') i = Some p" for i p
    using that assms(2,6) old_queue [OF assms(1), of i p] core_queue [OF core assms(4)] by (auto split: if_splits)
qed (use assms(4) in simp)

section \<open>Steps of the connection\<close>

lemma connect_connections:
  assumes ok: "connections_ok z" and free: "\<not> (gHal (z_relay z) \<noteq> None \<and> gConnectionReady (z_relay z))"
    and h: "h \<notin> z_known z" "6 \<le> version" and room: "gNextConnectionEpoch (z_relay z) \<noteq> - 1"
  shows "connections_ok (z\<lparr>z_relay := connect_publish h version (z_relay z)\<rparr>)" (is "connections_ok ?z")
proof (rule keep_connections [OF ok])
  let ?n = "gNextConnectionEpoch (z_relay z)"
  have new: "next_epoch ?n \<noteq> 0" "e \<le> ?n \<Longrightarrow> e \<le> next_epoch ?n \<and> e \<noteq> next_epoch ?n" for e
    using fresh_epoch [OF _ room] by (auto simp: order_less_imp_le)
  have pub: "gConnectionEpoch (z_relay ?z) = next_epoch ?n" "gNextConnectionEpoch (z_relay ?z) = next_epoch ?n"
      "gSlots (z_relay ?z) = gSlots (z_relay z)" "gHal (z_relay ?z) = Some h" "gHalVersion (z_relay ?z) = version"
    by (simp_all add: connect_publish_def Let_def)
  have e: "epochs_ok z" using ok by (simp add: connections_ok_def)
  then show "epochs_ok ?z" using new h(2) pub unfolding epochs_ok_def by fastforce
  show "blank_ok ?z" using h(1) by (simp add: blank_ok_def connect_publish_def Let_def fresh_configurations_def)
  show live: "live_epoch i ?z" if "live_epoch i z" for i
    using that new(2) [of i] pub by (simp add: live_epoch_def)
  show "queue_ok ?z slot q" if "gSlots (z_relay ?z) slot = Some q" for slot q
  proof -
    have q: "queue_ok z slot q" using old_queue [OF ok] that pub(3) by simp
    have "(ry_connection q, slot) \<in> z_reap z"
      using q free e by (auto simp: queue_ok_def live_epoch_def epochs_ok_def)
    then show ?thesis using q live by (simp add: queue_ok_def)
  qed
qed (simp add: connect_publish_def Let_def)

lemma ready_connections:
  assumes ok: "connections_ok z"
  shows "connections_ok (z\<lparr>z_relay := (z_relay z)\<lparr>gConnectionReady := True\<rparr>, z_known := insert h (z_known z)\<rparr>)" (is "connections_ok ?z")
proof (rule keep_connections [OF ok])
  show "epochs_ok ?z" using ok by (auto simp: connections_ok_def epochs_ok_def)
  show live: "live_epoch e ?z" if "live_epoch e z" for e using that by (simp add: live_epoch_def)
  show "queue_ok ?z slot q" if "gSlots (z_relay ?z) slot = Some q" for slot q
    using old_queue [OF ok, of slot q] that live by (simp add: queue_ok_def)
qed (simp_all add: blank_ok_def)

lemma failed_connections:
  assumes ok: "connections_ok z" and free: "\<not> gConnectionReady (z_relay z)" "e \<noteq> 0"
  shows "connections_ok (z\<lparr>z_relay := connect_failed e (z_relay z)\<rparr>)" (is "connections_ok ?z")
proof (cases "gConnectionEpoch (z_relay z) = e")
  case False
  then show ?thesis using ok by (simp add: connect_failed_def)
next
  case True
  have eo: "epochs_ok z" using ok by (simp add: connections_ok_def)
  show ?thesis
  proof (rule keep_connections [OF ok])
    show "epochs_ok ?z" using eo True by (auto simp: epochs_ok_def connect_failed_def)
    show "blank_ok ?z" using True by (simp add: blank_ok_def connect_failed_def)
    show live: "live_epoch i ?z" if "live_epoch i z" for i
      using that True by (simp add: live_epoch_def connect_failed_def)
    show "queue_ok ?z slot q" if "gSlots (z_relay ?z) slot = Some q" for slot q
      using old_queue [OF ok, of slot q] that True free live
      by (auto simp: queue_ok_def connect_failed_def live_epoch_def)
  qed (simp add: connect_failed_def)
qed

lemma died_connections:
  assumes ok: "connections_ok z" and died: "disconnect dead (z_relay z) = Some g"
  shows "connections_ok (z\<lparr>z_relay := g, z_reap := z_reap z \<union> {dead} \<times> {0..kMaxSlots - 1}\<rparr>)" (is "connections_ok ?z")
proof (rule keep_connections [OF ok])
  have d: "dead \<noteq> 0" "dead = gConnectionEpoch (z_relay z)"
      "g = (z_relay z)\<lparr>gHal := None, gCallback := None, gHalVersion := 0, gConnectionEpoch := 0, gConnectionReady := False\<rparr>"
    using died by (auto simp: disconnect_def split: if_splits)
  show "epochs_ok ?z" using ok d by (auto simp: connections_ok_def epochs_ok_def)
  show "blank_ok ?z" using d by (simp add: blank_ok_def)
  show live: "live_epoch e ?z" if "live_epoch e z" for e using that d by (simp add: live_epoch_def)
  show "queue_ok ?z slot q" if "gSlots (z_relay ?z) slot = Some q" for slot q
  proof -
    have q: "queue_ok z slot q" using old_queue [OF ok] that d by simp
    then have "slot \<in> {0..kMaxSlots - 1}" by (simp add: queue_ok_def relay_slot_def)
    then show ?thesis using q live d(2) by (auto simp: queue_ok_def)
  qed
qed (use died in \<open>auto simp: disconnect_def split: if_splits\<close>)

lemma reap_connections:
  assumes ok: "connections_ok z" and reap: "(dead, slot) \<in> z_reap z"
    and run: "releaseQueue R slot dead 0 (z_relay z) (z_world z) = (g, w)"
  shows "connections_ok (z\<lparr>z_relay := g, z_world := w, z_reap := z_reap z - {(dead, slot)}\<rparr>)" (is "connections_ok ?z")
  using run
proof (cases rule: release_cases)
  case 1
  show ?thesis
  proof (rule core_connections [OF ok])
    have core: "same_core (z_relay z) (z_relay ?z)" using 1 by simp
    then show "same_core (z_relay z) (z_relay ?z)" .
    show "queue_ok ?z i q" if "gSlots (z_relay ?z) i = Some q" for i q
    proof -
      have q: "queue_ok z i q" using old_queue [OF ok] that 1 by simp
      then have "i = slot \<Longrightarrow> ry_connection q \<noteq> dead" using 1(3) that 1(1) by (simp add: queue_ok_def)
      then show ?thesis using q 1(1) core_live [OF core] by (auto simp: queue_ok_def)
    qed
  qed (use 1 in auto)
next
  case (2 p)
  show ?thesis
  proof (rule core_connections [OF ok])
    have core: "same_core (z_relay z) (z_relay ?z)" using 2 by simp
    then show "same_core (z_relay z) (z_relay ?z)" .
    show "queue_ok ?z i q" if "gSlots (z_relay ?z) i = Some q" for i q
    proof -
      have "i \<noteq> slot" "queue_ok z i q" using old_queue [OF ok] that 2 by (auto split: if_splits)
      then show ?thesis using 2 core_live [OF core] by (auto simp: queue_ok_def)
    qed
  qed (use 2 in auto)
qed

lemma configured_connections:
  assumes ok: "connections_ok z" and ready: "gConnectionReady (z_relay z)"
    and g: "g = (z_relay z)\<lparr>gRegistrations := r, gConfigurations := c\<rparr>"
  shows "connections_ok (z\<lparr>z_relay := g\<rparr>)" (is "connections_ok ?z")
proof (rule keep_connections [OF ok])
  show "epochs_ok ?z" using ok g by (auto simp: connections_ok_def epochs_ok_def)
  show "blank_ok ?z" using ready g by (simp add: blank_ok_def)
  show live: "live_epoch e ?z" if "live_epoch e z" for e using that g by (simp add: live_epoch_def)
  show "queue_ok ?z slot q" if "gSlots (z_relay ?z) slot = Some q" for slot q
    using old_queue [OF ok, of slot q] that g live by (simp add: queue_ok_def)
qed (simp add: g)

lemma known_ready: "connections_ok z \<Longrightarrow> gHal (z_relay z) = Some h \<Longrightarrow> h \<in> z_known z \<Longrightarrow> gConnectionReady (z_relay z)"
  by (auto simp: connections_ok_def blank_ok_def)

text \<open>Nothing is admitted on a connection that is not ready.\<close>

lemma admit_connections:
  assumes ok: "connections_ok z" and run: "admit conn slot token closed reg (z_relay z) = (k, g)"
  shows "connections_ok (z\<lparr>z_relay := g\<rparr>)"
proof (cases "k")
  case False
  then have "g = z_relay z" using run by (auto simp: admit_def Let_def split: if_splits)
  then show ?thesis using ok by simp
next
  case True
  have "gConnectionReady (z_relay z)"
    using ok run True by (auto simp: admit_def Let_def connections_ok_def epochs_ok_def blank_ok_def split: if_splits)
  moreover have "\<exists>c. g = (z_relay z)\<lparr>gRegistrations := gRegistrations (z_relay z), gConfigurations := c\<rparr>"
    using run True by (auto simp: admit_def Let_def split: if_splits)
  ultimately show ?thesis using configured_connections [OF ok] by blast
qed

lemma enter_connections:
  assumes ok: "connections_ok z" and enter: "create_admitted slot width height sc (z_relay z)"
  shows "connections_ok (z\<lparr>z_gate := (z_gate z)(slot := Admitted (gConnectionEpoch (z_relay z)) (sc_configuration sc))\<rparr>)"
proof (rule gate_connections [OF ok])
  have ready: "gConnectionReady (z_relay z)"
    using ok enter by (auto simp: create_admitted_def connections_ok_def epochs_ok_def blank_ok_def)
  show "z_gate (z\<lparr>z_gate := (z_gate z)(slot := Admitted (gConnectionEpoch (z_relay z)) (sc_configuration sc))\<rparr>) i = z_gate z i \<or>
      gate_ok (z\<lparr>z_gate := (z_gate z)(slot := Admitted (gConnectionEpoch (z_relay z)) (sc_configuration sc))\<rparr>) i
        (z_gate (z\<lparr>z_gate := (z_gate z)(slot := Admitted (gConnectionEpoch (z_relay z)) (sc_configuration sc))\<rparr>) i)" for i
    using ok enter ready
    by (cases "i = slot") (simp_all add: gate_ok_def live_epoch_def create_admitted_def connections_ok_def epochs_ok_def)
qed simp_all

lemma release_connections:
  assumes ok: "connections_ok z" and run: "releaseQueue R slot e token (z_relay z) (z_world z) = (g, w)"
  shows "connections_ok (z\<lparr>z_relay := g, z_world := w\<rparr>)"
  using run
proof (cases rule: release_cases)
  case 1
  then show ?thesis using gate_connections [OF ok, of "z\<lparr>z_relay := g, z_world := w\<rparr>"] by simp
next
  case 2
  then show ?thesis using drop_connections [OF ok, of "z\<lparr>z_relay := g, z_world := w\<rparr>" slot] by simp
qed

lemma gate_of: "connections_ok z \<Longrightarrow> z_gate z slot = k \<Longrightarrow> gate_ok z slot k"
  by (auto simp: connections_ok_def)

text \<open>Abandoning the slot's queue and leaving the gate good.\<close>

lemma abandon_connections:
  fixes z :: "'w relay_system"
  assumes ok: "connections_ok z" and run: "abandonQueueLocked R slot (z_relay z) (z_world z) = (g, w)"
    and k: "\<And>z' :: 'w relay_system. same_core (z_relay z) (z_relay z') \<Longrightarrow> gSlots (z_relay z') slot = None \<Longrightarrow> gate_ok z' slot k"
  shows "connections_ok (z\<lparr>z_relay := g, z_world := v, z_gate := (z_gate z)(slot := k)\<rparr>)" (is "connections_ok ?z")
  using run
proof (cases rule: abandon_cases)
  case 1
  have "gate_ok ?z slot k" by (rule k) (use 1 in simp_all)
  then show ?thesis using gate_connections [OF ok, of ?z] 1 by simp
next
  case 2
  have "gate_ok ?z slot k" by (rule k) (use 2 in simp_all)
  then show ?thesis using drop_connections [OF ok, of ?z slot] 2 by simp
qed

section \<open>Every step\<close>

lemma commit_same:
  assumes "commit_item R version i queued retired q w = (q', w')"
  shows "ry_consumer q' = ry_consumer q \<and> ry_connection q' = ry_connection q"
  using assms by (auto simp: commit_item_def releaseHeld_def count_pushed_def split: if_splits option.splits prod.splits)

lemma step_connections:
  assumes "relay_step R z z'" "connections_ok z"
  shows "connections_ok z'"
  using assms
proof (cases rule: relay_step.cases)
  case (st_connect h version)
  then show ?thesis using connect_connections assms(2) by blast
next
  case (st_ready h)
  then show ?thesis using ready_connections assms(2) by blast
next
  case (st_failed e)
  then show ?thesis using failed_connections assms(2) by blast
next
  case (st_died dead g)
  then show ?thesis using died_connections assms(2) by blast
next
  case (st_reap dead slot g w)
  then show ?thesis using reap_connections [OF assms(2)] by simp
next
  case (st_release slot e token g w)
  then show ?thesis using release_connections [OF assms(2)] by simp
next
  case (st_register h slot reg)
  then show ?thesis
    using configured_connections [OF assms(2) known_ready [OF assms(2) st_register(2,3)], where
        r = "(gRegistrations (z_relay z))(slot := reg)" and c = "gConfigurations (z_relay z)"] by simp
next
  case (st_remove h slot)
  then show ?thesis using configured_connections [OF assms(2) known_ready [OF assms(2) st_remove(2,3)]] by blast
next
  case (st_admit conn slot token closed reg ok g)
  then show ?thesis using admit_connections [OF assms(2)] by blast
next
  case (st_enter slot width height sc)
  then show ?thesis using enter_connections [OF assms(2)] by blast
next
  case (st_create slot e token width height c w generation)
  have "relay_slot slot" "live_epoch e z" using gate_of [OF assms(2) st_create(2)] by (simp_all add: gate_ok_def)
  then show ?thesis
    using gate_connections [OF assms(2), of z'] by (simp add: st_create(1) gate_ok_def new_queue_def live_epoch_def)
next
  case (st_stale slot q)
  then show ?thesis using gate_connections [OF assms(2), of z'] by (simp add: gate_ok_def)
next
  case (st_replace slot q g w)
  have "relay_slot slot" "live_epoch (ry_connection q) z"
    using gate_of [OF assms(2) st_replace(2)] by (simp_all add: gate_ok_def)
  then show ?thesis
    unfolding st_replace(1) by (intro abandon_connections [OF assms(2) st_replace(4)]) (simp add: gate_ok_def core_live)
next
  case (st_install slot q r g w)
  have q: "relay_slot slot" "live_epoch (ry_connection q) z"
    using gate_of [OF assms(2) st_install(2)] by (simp_all add: gate_ok_def)
  show ?thesis
  proof (cases "installable slot q (z_relay z)")
    case True
    then have "queue_ok z slot q" using q by (simp add: queue_ok_def installable_def)
    then show ?thesis
      using put_connections [OF assms(2), of z' slot q] st_install True by (simp add: install_queue_def)
  next
    case False
    then show ?thesis
      using gate_connections [OF assms(2), of z'] st_install by (simp add: install_queue_def gate_ok_def)
  qed
next
  case (st_acquire slot q version i w)
  then show ?thesis using gate_connections [OF assms(2), of z'] by (simp add: gate_ok_def)
next
  case (st_submit slot i version q h gb status retired preserved w)
  then show ?thesis using gate_connections [OF assms(2), of z'] by simp
next
  case (st_commit slot i version q queued retired q1 w)
  have "queue_ok z slot q1"
    using old_queue [OF assms(2) st_commit(3)] commit_same [OF st_commit(4)] by (simp add: queue_ok_def)
  then show ?thesis using put_connections [OF assms(2), of z' slot q1] st_commit(1) by simp
next
  case (st_broken slot i version g w retired)
  show ?thesis
    unfolding st_broken(1) by (intro abandon_connections [OF assms(2) st_broken(3)]) (simp add: gate_ok_def)
qed

lemma run_connections: "(relay_step R)\<^sup>*\<^sup>* (relay_start w) z \<Longrightarrow> connections_ok z"
  by (induction rule: rtranclp_induct) (auto intro: start_connections step_connections)

section \<open>No queue is leaked\<close>

text \<open>The world's account of the consumers that exist and are not abandoned.\<close>

definition tracks_queues :: "'w relay_env \<Rightarrow> ('w \<Rightarrow> nat set) \<Rightarrow> bool" where
  "tracks_queues R alive \<longleftrightarrow>
     (\<forall>slot x y w. fst (re_create R slot x y w) \<notin> alive w \<and>
        alive (snd (re_create R slot x y w)) = insert (fst (re_create R slot x y w)) (alive w)) \<and>
     (\<forall>c w. alive (re_abandon R c w) = alive w - {c}) \<and>
     (\<forall>c b w. alive (snd (re_acquire R c b w)) = alive w) \<and> (\<forall>c i f w. alive (re_release R c i f w) = alive w) \<and>
     (\<forall>h c w. alive (snd (re_queue R h c w)) = alive w) \<and> (\<forall>f w. alive (snd (re_dup R f w)) = alive w) \<and>
     (\<forall>f w. alive (re_close R f w) = alive w)"

text \<open>Every place that owns a consumer owns another one, and together they own \<open>S\<close>.\<close>

definition one_each :: "('p \<Rightarrow> nat option) \<Rightarrow> nat set \<Rightarrow> bool" where
  "one_each m S \<longleftrightarrow> (\<forall>c. c \<in> S \<longleftrightarrow> (\<exists>p. m p = Some c)) \<and>
     (\<forall>p p' c. m p = Some c \<longrightarrow> m p' = Some c \<longrightarrow> p = p')"

lemma one_eachI:
  assumes "\<And>c. c \<in> S \<Longrightarrow> \<exists>p. m p = Some c" "\<And>p c. m p = Some c \<Longrightarrow> c \<in> S"
    and "\<And>p p' c. m p = Some c \<Longrightarrow> m p' = Some c \<Longrightarrow> p = p'"
  shows "one_each m S"
  using assms unfolding one_each_def by blast

lemma one_eachD:
  assumes "one_each m S"
  shows "c \<in> S \<Longrightarrow> \<exists>p. m p = Some c" "m p = Some c \<Longrightarrow> c \<in> S" "m p = Some c \<Longrightarrow> m p' = Some c \<Longrightarrow> p = p'"
  using assms unfolding one_each_def by blast+

lemma one_each_remove:
  assumes one: "one_each m S" and p: "m p = Some c"
  shows "one_each (m(p := None)) (S - {c})"
proof (rule one_eachI)
  fix d assume "d \<in> S - {c}"
  then obtain a where "m a = Some d" "d \<noteq> c" using one_eachD(1) [OF one] by blast
  then show "\<exists>a. (m(p := None)) a = Some d" using p by (intro exI [of _ a]) auto
next
  fix a d assume "(m(p := None)) a = Some d"
  then show "d \<in> S - {c}" using one_eachD(2,3) [OF one] p by (auto split: if_splits)
qed (auto split: if_splits dest: one_eachD(3) [OF one])

lemma one_each_insert:
  assumes one: "one_each m S" and p: "m p = None" and c: "c \<notin> S"
  shows "one_each (m(p := Some c)) (insert c S)"
proof (rule one_eachI)
  fix d assume "d \<in> insert c S"
  then show "\<exists>a. (m(p := Some c)) a = Some d"
  proof
    assume "d \<in> S"
    then obtain a where "m a = Some d" using one_eachD(1) [OF one] by blast
    then show ?thesis using p by (intro exI [of _ a]) auto
  qed (intro exI [of _ p], simp)
qed (use c in \<open>auto split: if_splits dest: one_eachD(2,3) [OF one]\<close>)

lemma one_each_move:
  assumes "one_each m S" "m p = Some c" "m p' = None"
  shows "one_each (m(p := None, p' := Some c)) S"
proof -
  have "c \<in> S" using assms(1,2) by (auto simp: one_each_def)
  moreover have "p \<noteq> p'" using assms(2,3) by auto
  ultimately show ?thesis
    using one_each_insert [OF one_each_remove [OF assms(1,2)], of p' c] assms(3) by (simp add: insert_absorb)
qed

text \<open>A slot has two places: its queue, and the one its gate is creating.\<close>

definition consumer_at :: "'w relay_system \<Rightarrow> int \<times> bool \<Rightarrow> nat option" where
  "consumer_at z = (\<lambda>(slot, creating).
     if creating then (case z_gate z slot of Creating q _ \<Rightarrow> Some (ry_consumer q) | _ \<Rightarrow> None)
     else map_option ry_consumer (gSlots (z_relay z) slot))"

definition consumers_ok :: "('w \<Rightarrow> nat set) \<Rightarrow> 'w relay_system \<Rightarrow> bool" where
  "consumers_ok alive z \<longleftrightarrow> one_each (consumer_at z) (alive (z_world z))"

lemma queuesD:
  assumes "tracks_queues R alive"
  shows "alive (re_abandon R c w) = alive w - {c}" "alive (re_release R c i fence w) = alive w" "alive (re_close R fd w) = alive w"
  using assms by (simp_all add: tracks_queues_def)

lemma created_alive:
  assumes "tracks_queues R alive" "re_create R slot x y w = (n, w')"
  shows "n \<notin> alive w \<and> alive w' = insert n (alive w)"
proof -
  have "fst (re_create R slot x y w) \<notin> alive w \<and>
      alive (snd (re_create R slot x y w)) = insert (fst (re_create R slot x y w)) (alive w)"
    using assms(1) by (simp add: tracks_queues_def)
  then show ?thesis using assms(2) by simp
qed

lemma calls_alive:
  assumes "tracks_queues R alive"
  shows "re_acquire R c b w = (r, w') \<Longrightarrow> alive w' = alive w"
    and "re_queue R h call w = (a, w') \<Longrightarrow> alive w' = alive w" and "re_dup R f w = (d, w') \<Longrightarrow> alive w' = alive w"
proof -
  have "alive (snd (re_acquire R c b w)) = alive w" "alive (snd (re_queue R h call w)) = alive w"
      "alive (snd (re_dup R f w)) = alive w"
    using assms by (simp_all add: tracks_queues_def)
  then show "re_acquire R c b w = (r, w') \<Longrightarrow> alive w' = alive w"
      "re_queue R h call w = (a, w') \<Longrightarrow> alive w' = alive w" "re_dup R f w = (d, w') \<Longrightarrow> alive w' = alive w"
    by simp_all
qed

lemma close_valid_live: "tracks_queues R alive \<Longrightarrow> alive (close_valid R fd w) = alive w"
  by (simp add: close_valid_def queuesD)

lemma dup_fence_live:
  assumes "tracks_queues R alive" "dup_fence R version i w = (acquire, kept, w')"
  shows "alive w' = alive w"
proof (cases "ri_fence i")
  case (Some f)
  obtain d v where "re_dup R f w = (d, v)" by fastforce
  then show ?thesis using Some assms(2) calls_alive(3) [OF assms(1)] by (auto simp: dup_fence_def split: if_splits)
qed (use assms(2) in \<open>simp add: dup_fence_def\<close>)

lemma submit_live:
  assumes "tracks_queues R alive" "submit_item R h version slot q i gb w = (status, retired, preserved, w')"
  shows "alive w' = alive w"
proof -
  obtain acquire kept w1 where fence: "dup_fence R version i w = (acquire, kept, w1)" by (rule prod_cases3)
  note w1 = dup_fence_live [OF assms(1) fence]
  show ?thesis
  proof (cases "kept \<and> queue_call_for version slot q gb (ri_timestamp i) acquire \<noteq> None")
    case False
    then show ?thesis
      using assms(2) w1 close_valid_live [OF assms(1), of acquire w1]
      by (cases kept) (auto simp: submit_item_def fence)
  next
    case True
    then obtain call where some: "kept" "queue_call_for version slot q gb (ri_timestamp i) acquire = Some call" by auto
    obtain a w2 where call: "re_queue R h call w1 = (a, w2)" by fastforce
    then have "alive w2 = alive w" using w1 calls_alive(2) [OF assms(1)] by simp
    then show ?thesis
      using assms(2) some call close_valid_live [OF assms(1), of acquire w2]
      by (cases a) (auto simp: submit_item_def fence)
  qed
qed

lemma commit_live:
  assumes "tracks_queues R alive" "commit_item R version i queued retired q w = (q', w')"
  shows "alive w' = alive w"
  using assms(2)
  by (auto simp: commit_item_def releaseHeld_def Let_def close_valid_live [OF assms(1)] queuesD(2) [OF assms(1)]
      split: option.splits prod.splits if_splits)

lemma same_consumers: "consumer_at z' = consumer_at z \<Longrightarrow> alive (z_world z') = alive (z_world z) \<Longrightarrow>
    consumers_ok alive z \<Longrightarrow> consumers_ok alive z'"
  by (simp add: consumers_ok_def)

text \<open>A place gives its consumer up, and it is abandoned.\<close>

lemma lost_consumer:
  assumes "consumers_ok alive z" "consumer_at z p = Some c" "consumer_at z' = (consumer_at z)(p := None)"
    and "alive (z_world z') = alive (z_world z) - {c}"
  shows "consumers_ok alive z'"
  using one_each_remove assms by (fastforce simp: consumers_ok_def)

lemma consumer_slots:
  assumes "gSlots (z_relay z') = (gSlots (z_relay z))(slot := k)" "z_gate z' = z_gate z"
  shows "consumer_at z' = (consumer_at z)((slot, False) := map_option ry_consumer k)"
  using assms by (auto simp: consumer_at_def fun_eq_iff)

lemma consumer_gates:
  assumes "gSlots (z_relay z') = gSlots (z_relay z)" "z_gate z' = (z_gate z)(slot := k)"
  shows "consumer_at z' = (consumer_at z)((slot, True) := (case k of Creating q _ \<Rightarrow> Some (ry_consumer q) | _ \<Rightarrow> None))"
  using assms by (auto simp: consumer_at_def fun_eq_iff)

lemma consumer_both:
  assumes "gSlots (z_relay z') = (gSlots (z_relay z))(slot := k)" "z_gate z' = (z_gate z)(slot := j)"
  shows "consumer_at z' = (consumer_at z)((slot, True) := (case j of Creating q _ \<Rightarrow> Some (ry_consumer q) | _ \<Rightarrow> None),
     (slot, False) := map_option ry_consumer k)"
  using assms by (auto simp: consumer_at_def fun_eq_iff)

lemma same_places:
  "gSlots (z_relay z') = gSlots (z_relay z) \<Longrightarrow> z_gate z' = z_gate z \<Longrightarrow> consumer_at z' = consumer_at z"
  by (simp add: consumer_at_def fun_eq_iff)

lemma connection_slots:
  "gSlots (connect_publish h version g) = gSlots g" "gSlots (connect_failed e g) = gSlots g"
  "disconnect dead g = Some g' \<Longrightarrow> gSlots g' = gSlots g" "admit conn slot token closed reg g = (ok, g') \<Longrightarrow> gSlots g' = gSlots g"
  by (auto simp: connect_publish_def connect_failed_def disconnect_def admit_def Let_def split: if_splits)

lemma released_consumers:
  assumes track: "tracks_queues R alive" and ok: "consumers_ok alive z"
    and run: "releaseQueue R slot e token (z_relay z) (z_world z) = (g, w)"
    and z': "z_relay z' = g" "z_world z' = w" "z_gate z' = z_gate z"
  shows "consumers_ok alive z'"
  using run
proof (cases rule: release_cases)
  case 1
  then show ?thesis using same_consumers [OF same_places, of z' z alive] ok z' by simp
next
  case (2 q)
  have "consumer_at z (slot, False) = Some (ry_consumer q)" using 2 by (simp add: consumer_at_def)
  moreover have "consumer_at z' = (consumer_at z)((slot, False) := None)"
    using consumer_slots [of z' z slot None] 2 z' by simp
  ultimately show ?thesis
    using lost_consumer [OF ok] 2 z' queuesD(1) [OF track] by simp
qed

lemma replaced_consumers:
  assumes track: "tracks_queues R alive" and ok: "consumers_ok alive z"
    and run: "abandonQueueLocked R slot (z_relay z) (z_world z) = (g, w)"
    and z': "z_relay z' = g" "alive (z_world z') = alive w" "z_gate z' = (z_gate z)(slot := k)"
    and k: "(case k of Creating q _ \<Rightarrow> Some (ry_consumer q) | _ \<Rightarrow> None) = consumer_at z (slot, True)"
  shows "consumers_ok alive z'"
  using run
proof (cases rule: abandon_cases)
  case 1
  then have "consumer_at z' = consumer_at z" using consumer_gates [of z' z slot k] z' k by (auto simp: fun_eq_iff)
  then show ?thesis using same_consumers [OF _ _ ok] z' 1 by simp
next
  case (2 q)
  have at: "consumer_at z (slot, False) = Some (ry_consumer q)" using 2 by (simp add: consumer_at_def)
  have "consumer_at z' = (consumer_at z)((slot, False) := None)"
    using consumer_both [of z' z slot None k] 2 z' k by (auto simp: fun_eq_iff)
  then show ?thesis
    using lost_consumer [OF ok at] 2 z' queuesD(1) [OF track] by simp
qed

lemma created_consumers:
  assumes track: "tracks_queues R alive" and ok: "consumers_ok alive z"
    and run: "re_create R slot x y (z_world z) = (c, w)" and free: "consumer_at z (slot, True) = None"
    and z': "gSlots (z_relay z') = gSlots (z_relay z)" "z_world z' = w" "z_gate z' = (z_gate z)(slot := Creating q b)"
    and q: "ry_consumer q = c"
  shows "consumers_ok alive z'"
  using one_each_insert [OF ok [unfolded consumers_ok_def] free] created_alive [OF track run]
    consumer_gates [OF z'(1,3)] z'(2) q by (simp add: consumers_ok_def)

lemma stale_consumers:
  assumes track: "tracks_queues R alive" and ok: "consumers_ok alive z" and gate: "z_gate z slot = Creating q b"
    and z': "gSlots (z_relay z') = gSlots (z_relay z)" "z_world z' = re_abandon R (ry_consumer q) (z_world z)"
      "z_gate z' = (z_gate z)(slot := Idle)"
  shows "consumers_ok alive z'"
proof (rule lost_consumer [OF ok])
  show "consumer_at z (slot, True) = Some (ry_consumer q)" using gate by (simp add: consumer_at_def)
  show "consumer_at z' = (consumer_at z)((slot, True) := None)" using consumer_gates [OF z'(1,3)] by simp
qed (use z'(2) queuesD(1) [OF track] in simp)

lemma installed_consumers:
  assumes ok: "consumers_ok alive z" and gate: "z_gate z slot = Creating q b" "gSlots (z_relay z) slot = None"
    and z': "gSlots (z_relay z') = (gSlots (z_relay z))(slot := Some q)" "z_world z' = z_world z"
      "z_gate z' = (z_gate z)(slot := Idle)"
  shows "consumers_ok alive z'"
proof -
  have "one_each ((consumer_at z)((slot, True) := None, (slot, False) := Some (ry_consumer q))) (alive (z_world z))"
    by (rule one_each_move) (use ok gate in \<open>simp_all add: consumers_ok_def consumer_at_def\<close>)
  then show ?thesis using consumer_both [OF z'(1,3)] z'(2) by (simp add: consumers_ok_def)
qed

text \<open>A gate that is not creating a queue changes without effect on the consumers.\<close>

lemma moved_consumers:
  assumes ok: "consumers_ok alive z" and "consumer_at z (slot, True) = None"
    and "(case k of Creating q _ \<Rightarrow> Some (ry_consumer q) | _ \<Rightarrow> None) = None"
    and "gSlots (z_relay z') = gSlots (z_relay z)" "alive (z_world z') = alive (z_world z)"
      "z_gate z' = (z_gate z)(slot := k)"
  shows "consumers_ok alive z'"
  by (rule same_consumers [OF _ assms(5) ok])
    (use consumer_gates [OF assms(4,6)] assms(2,3) in \<open>auto simp: fun_eq_iff\<close>)

lemma step_consumers:
  assumes "relay_step R z z'" "tracks_queues R alive" "connections_ok z" "consumers_ok alive z"
  shows "consumers_ok alive z'"
  using assms(1)
proof (cases rule: relay_step.cases)
  case (st_connect h version)
  then show ?thesis using same_consumers [OF same_places _ assms(4), of z'] by (simp add: connection_slots)
next
  case (st_ready h)
  then show ?thesis using same_consumers [OF same_places _ assms(4), of z'] by simp
next
  case (st_failed e)
  then show ?thesis using same_consumers [OF same_places _ assms(4), of z'] by (simp add: connection_slots)
next
  case (st_died dead g)
  then show ?thesis using same_consumers [OF same_places _ assms(4), of z'] by (simp add: connection_slots)
next
  case (st_reap dead slot g w)
  then show ?thesis using released_consumers [OF assms(2,4) st_reap(4), of z'] by simp
next
  case (st_release slot e token g w)
  then show ?thesis using released_consumers [OF assms(2,4) st_release(3), of z'] by simp
next
  case (st_register h slot reg)
  then show ?thesis using same_consumers [OF same_places _ assms(4), of z'] by simp
next
  case (st_remove h slot)
  then show ?thesis using same_consumers [OF same_places _ assms(4), of z'] by simp
next
  case (st_admit conn slot token closed reg ok g)
  then show ?thesis using same_consumers [OF same_places _ assms(4), of z'] by (simp add: connection_slots)
next
  case (st_enter slot width height sc)
  then show ?thesis
    by (intro moved_consumers [OF assms(4), of slot "Admitted (gConnectionEpoch (z_relay z)) (sc_configuration sc)"])
      (simp_all add: consumer_at_def)
next
  case (st_create slot e token width height c w generation)
  have "ry_consumer (new_queue c e token generation) = c" by (simp add: new_queue_def)
  from created_consumers [OF assms(2,4) st_create(3) _ _ _ _ this, of z' False] show ?thesis
    using st_create by (simp add: consumer_at_def)
next
  case (st_stale slot q)
  then show ?thesis by (intro stale_consumers [OF assms(2,4) st_stale(2)]) simp_all
next
  case (st_replace slot q g w)
  then show ?thesis
    by (intro replaced_consumers [OF assms(2,4) st_replace(4), of z' "Creating q True"]) (simp_all add: consumer_at_def)
next
  case (st_install slot q r g w)
  have none: "gSlots (z_relay z) slot = None" using gate_of [OF assms(3) st_install(2)] by (simp add: gate_ok_def)
  show ?thesis
  proof (cases "installable slot q (z_relay z)")
    case True
    then show ?thesis
      using st_install by (intro installed_consumers [OF assms(4) st_install(2) none]) (auto simp: install_queue_def)
  next
    case False
    then show ?thesis
      using st_install by (intro stale_consumers [OF assms(2,4) st_install(2)]) (auto simp: install_queue_def)
  qed
next
  case (st_acquire slot q version i w)
  then show ?thesis
    using calls_alive(1) [OF assms(2) st_acquire(6)]
    by (intro moved_consumers [OF assms(4), of slot "Forwarding i version"]) (simp_all add: consumer_at_def)
next
  case (st_submit slot i version q h gb status retired preserved w)
  then show ?thesis
    using submit_live [OF assms(2) st_submit(4)] same_consumers [OF same_places _ assms(4), of z'] by simp
next
  case (st_commit slot i version q queued retired q1 w)
  have "consumer_at z' = consumer_at z"
    using consumer_both [of z' z slot "Some q1" Idle] st_commit commit_same [OF st_commit(4)]
    by (auto simp: fun_eq_iff consumer_at_def)
  then show ?thesis using same_consumers [OF _ _ assms(4)] st_commit(1) commit_live [OF assms(2) st_commit(4)] by simp
next
  case (st_broken slot i version g w retired)
  then show ?thesis
    using close_valid_live [OF assms(2), of retired w]
    by (intro replaced_consumers [OF assms(2,4) st_broken(3), of z' Idle]) (simp_all add: consumer_at_def)
qed

lemma run_consumers:
  assumes "(relay_step R)\<^sup>*\<^sup>* (relay_start w0) z" "tracks_queues R alive" "alive w0 = {}"
  shows "consumers_ok alive z"
  using assms(1)
proof (induction rule: rtranclp_induct)
  case base
  show ?case
    by (simp add: consumers_ok_def one_each_def consumer_at_def relay_start_def relay_init_def assms(3))
next
  case (step y z)
  then show ?case using step_consumers [OF _ assms(2) run_connections] by blast
qed

text \<open>
  C27: However connections, deaths, callbacks, queue creations and frames interleave, the
  queue of a slot belongs to the present connection, which is ready, unless the death handler of
  its connection has yet to release that slot; and when no gate is held, the queues that were
  created and not abandoned are exactly the queues of the slots.
\<close>

theorem relay_queues_current:
  assumes "(relay_step R)\<^sup>*\<^sup>* (relay_start w0) z" "tracks_queues R alive" "alive w0 = {}"
  shows "(\<forall>slot q. gSlots (z_relay z) slot = Some q \<longrightarrow> (ry_connection q, slot) \<notin> z_reap z \<longrightarrow>
      isCurrentConnection (ry_connection q) (z_relay z) \<and> gConnectionReady (z_relay z)) \<and>
    ((\<forall>slot. z_gate z slot = Idle) \<longrightarrow>
      alive (z_world z) = {c. \<exists>slot q. gSlots (z_relay z) slot = Some q \<and> ry_consumer q = c})"
proof (intro conjI allI impI)
  note ok = run_connections [OF assms(1)]
  fix slot q assume q: "gSlots (z_relay z) slot = Some q" "(ry_connection q, slot) \<notin> z_reap z"
  show "isCurrentConnection (ry_connection q) (z_relay z)" "gConnectionReady (z_relay z)"
    using old_queue [OF ok q(1)] q(2) ok
    by (auto simp: queue_ok_def isCurrentConnection_def live_epoch_def connections_ok_def epochs_ok_def)
next
  assume idle: "\<forall>slot. z_gate z slot = Idle"
  have one: "one_each (consumer_at z) (alive (z_world z))" using run_consumers [OF assms] by (simp add: consumers_ok_def)
  have at: "consumer_at z p = Some c \<longleftrightarrow> (\<exists>slot q. p = (slot, False) \<and> gSlots (z_relay z) slot = Some q \<and> ry_consumer q = c)"
    for p c using idle by (cases p) (auto simp: consumer_at_def)
  show "alive (z_world z) = {c. \<exists>slot q. gSlots (z_relay z) slot = Some q \<and> ry_consumer q = c}"
    using one_eachD(1,2) [OF one] unfolding at by blast
qed

text \<open>A HAL connects, a producer registers, its camera is configured and its queue installed.\<close>

definition demo_scope :: callback_scope where
  "demo_scope = \<lparr>sc_epoch = 1, sc_configuration = 5, sc_registration = 41\<rparr>"

definition demo_ready :: relay where
  "demo_ready = snd (admit 1 2 5 False 41 ((connect_publish 7 6 relay_init)
     \<lparr>gConnectionReady := True, gRegistrations := (\<lambda>_. 0)(2 := 41)\<rparr>))"

definition demo_queue :: relay_queue where
  "demo_queue = new_queue 0 1 5 1"

definition demo_installed :: "(nat \<times> nat list) relay_system" where
  "demo_installed = \<lparr>z_relay = demo_ready\<lparr>gQueueGenerations := (\<lambda>_. 0)(2 := 1), gSlots := (\<lambda>_. None)(2 := Some demo_queue)\<rparr>,
     z_world = (1, [0]), z_gate = (\<lambda>_. Idle), z_reap = {}, z_known = {7}\<rparr>"

definition demo_alive :: "nat \<times> nat list \<Rightarrow> nat set" where
  "demo_alive w = {c \<in> set (snd w). c < fst w}"

lemma demo_tracks_queues: "tracks_queues demo_relay_env demo_alive"
  by (auto simp: tracks_queues_def demo_relay_env_def demo_alive_def)

lemma demo_install_run: "(relay_step demo_relay_env)\<^sup>*\<^sup>* (relay_start (0, [])) demo_installed"
proof -
  define z1 where "z1 = (relay_start (0 :: nat, [] :: nat list))\<lparr>z_relay := connect_publish 7 6 relay_init\<rparr>"
  define z2 where "z2 = z1\<lparr>z_relay := (z_relay z1)\<lparr>gConnectionReady := True\<rparr>, z_known := {7}\<rparr>"
  define z3 where "z3 = z2\<lparr>z_relay := (z_relay z2)\<lparr>gRegistrations := (gRegistrations (z_relay z2))(2 := 41)\<rparr>\<rparr>"
  define z4 where "z4 = z3\<lparr>z_relay := demo_ready\<rparr>"
  define z5 where "z5 = z4\<lparr>z_gate := (z_gate z4)(2 := Admitted 1 5)\<rparr>"
  define z6 where "z6 = z5\<lparr>z_relay := demo_ready\<lparr>gQueueGenerations := (\<lambda>_. 0)(2 := 1)\<rparr>, z_world := (1, [0]),
    z_gate := (z_gate z5)(2 := Creating demo_queue False)\<rparr>"
  define z7 where "z7 = z6\<lparr>z_gate := (z_gate z6)(2 := Creating demo_queue True)\<rparr>"
  note defs = relay_start_def relay_init_def connect_publish_def next_epoch_def demo_ready_def admit_def relay_slot_def
    kMaxSlots_def fresh_configurations_def demo_queue_def new_queue_def demo_scope_def
  note zs = z1_def z2_def z3_def z4_def z5_def z6_def z7_def
  have "relay_step demo_relay_env (relay_start (0, [])) z1"
    unfolding z1_def using relay_step.st_connect [of "relay_start (0, [])" 7 6 demo_relay_env] by (simp add: relay_start_def relay_init_def)
  moreover have "relay_step demo_relay_env z1 z2"
    using relay_step.st_ready [of z1 7] by (simp add: z1_def z2_def defs Let_def)
  moreover have "relay_step demo_relay_env z2 z3"
    using relay_step.st_register [of z2 7 demo_relay_env 2 41] by (simp add: zs defs Let_def)
  moreover have "relay_step demo_relay_env z3 z4"
    unfolding z4_def by (rule relay_step.st_admit [of 1 2 5 False 41 _ True]) (simp add: zs defs Let_def)
  moreover have "relay_step demo_relay_env z4 z5"
    using relay_step.st_enter [of z4 2 640 480 demo_scope] by (simp add: zs defs Let_def create_admitted_def)
  moreover have "relay_step demo_relay_env z5 z6"
    using relay_step.st_create [of z5 2 1 5 demo_relay_env 640 480 0 "(1, [0])" 1]
    by (simp add: zs defs Let_def demo_relay_env_def)
  moreover have "relay_step demo_relay_env z6 z7"
    using relay_step.st_replace [of z6 2 demo_queue demo_relay_env "z_relay z6" "z_world z6"]
    by (simp add: zs defs Let_def isCurrentConnection_def abandonQueueLocked_def)
  moreover have idle: "(\<lambda>_ :: int. Idle)(2 := Idle) = (\<lambda>_. Idle)" by auto
  moreover have "relay_step demo_relay_env z7 demo_installed"
    using relay_step.st_install [of z7 2 demo_queue demo_relay_env "Some 0" "z_relay demo_installed" "z_world z7"]
    by (simp add: zs defs Let_def install_queue_def installable_def demo_installed_def idle)
  ultimately show ?thesis by (meson converse_rtranclp_into_rtranclp rtranclp.rtrancl_refl)
qed

theorem relay_queues_current_witness:
  "isCurrentConnection (ry_connection demo_queue) (z_relay demo_installed) \<and> demo_alive (z_world demo_installed) = {0}"
proof -
  have "demo_alive (0, []) = {}" by (simp add: demo_alive_def)
  note current = relay_queues_current [OF demo_install_run demo_tracks_queues this]
  have "gSlots (z_relay demo_installed) 2 = Some demo_queue" "z_reap demo_installed = {}"
    by (simp_all add: demo_installed_def)
  moreover have "{c. \<exists>slot q. gSlots (z_relay demo_installed) slot = Some q \<and> ry_consumer q = c} = {0}"
    by (auto simp: demo_installed_def demo_queue_def new_queue_def)
  moreover have "\<forall>slot. z_gate demo_installed slot = Idle" by (simp add: demo_installed_def)
  ultimately show ?thesis using current by auto
qed

section \<open>The creation of a queue is a run of its sections\<close>

text \<open>
  Between two sections the other threads take any steps, but none that needs the gate of
  \<open>slot\<close>, so they leave that gate as it is.
\<close>

definition peers_run :: "'w relay_env \<Rightarrow> int \<Rightarrow> bool" where
  "peers_run R slot \<longleftrightarrow> (\<forall>z g w. re_peer R (z_relay z) (z_world z) = (g, w) \<longrightarrow>
     (\<exists>z'. (relay_step R)\<^sup>*\<^sup>* z z' \<and> z_relay z' = g \<and> z_world z' = w \<and> z_gate z' slot = z_gate z slot))"

lemma peers_runD:
  assumes "peers_run R slot" "re_peer R (z_relay z) (z_world z) = (g, w)"
  obtains z' where "(relay_step R)\<^sup>*\<^sup>* z z'" "z_relay z' = g" "z_world z' = w" "z_gate z' slot = z_gate z slot"
  using assms unfolding peers_run_def by blast

text \<open>
  Creating the queue of a slot, with whatever the other threads do between its locked
  sections, is a run of those sections, and it gives the gate back. A surface is returned only
  when the queue was installed on the connection, and for the open configuration, it was admitted
  for.
\<close>

theorem create_refines_sections:
  assumes peers: "peers_run R slot" and gate: "z_gate z slot = Idle"
    and run: "createRelayQueue R slot width height sc (z_relay z) (z_world z) = (r, g, w)"
  shows "\<exists>z'. (relay_step R)\<^sup>*\<^sup>* z z' \<and> z_relay z' = g \<and> z_world z' = w \<and> z_gate z' slot = Idle \<and>
    (\<forall>c. r = Some c \<longrightarrow> (\<exists>q. gSlots g slot = Some q \<and> ry_consumer q = c \<and> installable slot q g \<and>
       ry_connection q = gConnectionEpoch (z_relay z) \<and> ry_configurationToken q = sc_configuration sc))"
proof (cases "create_admitted slot width height sc (z_relay z)")
  case False
  then show ?thesis using run gate by (auto simp: createRelayQueue_def)
next
  case True
  define e where "e = gConnectionEpoch (z_relay z)"
  define z1 where "z1 = z\<lparr>z_gate := (z_gate z)(slot := Admitted e (sc_configuration sc))\<rparr>"
  have s1: "relay_step R z z1" unfolding z1_def e_def by (rule relay_step.st_enter [OF gate True])
  obtain g1 w1 where p1: "re_peer R (z_relay z) (z_world z) = (g1, w1)" by fastforce
  then obtain z2 where z2: "(relay_step R)\<^sup>*\<^sup>* z1 z2" "z_relay z2 = g1" "z_world z2 = w1" "z_gate z2 slot = Admitted e (sc_configuration sc)"
    using peers_runD [OF peers, of z1 g1 w1] by (auto simp: z1_def)
  obtain c w2 where c: "re_create R slot width height w1 = (c, w2)" by fastforce
  define generation where "generation = gQueueGenerations g1 slot + 1"
  define q where "q = new_queue c e (sc_configuration sc) generation"
  define z3 where "z3 = z2\<lparr>z_relay := g1\<lparr>gQueueGenerations := (gQueueGenerations g1)(slot := generation)\<rparr>,
      z_world := w2, z_gate := (z_gate z2)(slot := Creating q False)\<rparr>"
  have s3: "relay_step R z2 z3"
    using relay_step.st_create [OF z2(4), of R width height c w2 generation] z2(2,3) c
    by (simp add: z3_def q_def generation_def)
  have to3: "(relay_step R)\<^sup>*\<^sup>* z z3" using s1 z2(1) s3 by (meson converse_rtranclp_into_rtranclp rtranclp.rtrancl_into_rtrancl)
  have gate3: "z_gate z3 slot = Creating q False" by (simp add: z3_def)
  have q: "ry_connection q = e" "ry_consumer q = c" "ry_configurationToken q = sc_configuration sc"
    by (simp_all add: q_def new_queue_def)
  note body = run [unfolded createRelayQueue_def Let_def, simplified True p1 c, simplified,
      folded e_def generation_def q_def]
  show ?thesis
  proof (cases "isCurrentConnection e (z_relay z3)")
    case False
    have "relay_step R z3 (z3\<lparr>z_world := re_abandon R c w2, z_gate := (z_gate z3)(slot := Idle)\<rparr>)"
      using relay_step.st_stale [OF gate3] False q by (simp add: z3_def)
    then show ?thesis
      using to3 body False
      by (intro exI [of _ "z3\<lparr>z_world := re_abandon R c w2, z_gate := (z_gate z3)(slot := Idle)\<rparr>"])
        (auto simp: z3_def True c q intro: rtranclp.rtrancl_into_rtrancl)
  next
    case current: True
    obtain g3 w3 where drop: "abandonQueueLocked R slot (z_relay z3) w2 = (g3, w3)" by fastforce
    define z4 where "z4 = z3\<lparr>z_relay := g3, z_world := w3, z_gate := (z_gate z3)(slot := Creating q True)\<rparr>"
    have s4: "relay_step R z3 z4"
      using relay_step.st_replace [OF gate3, of R g3 w3] current drop q by (simp add: z4_def z3_def)
    obtain g4 w4 where p4: "re_peer R g3 w3 = (g4, w4)" by fastforce
    then obtain z5 where z5: "(relay_step R)\<^sup>*\<^sup>* z4 z5" "z_relay z5 = g4" "z_world z5 = w4" "z_gate z5 slot = Creating q True"
      using peers_runD [OF peers, of z4 g4 w4] by (auto simp: z4_def)
    have inst: "install_queue R slot q g4 w4 = (r, g, w)"
      using body current drop p4 by (simp add: z3_def True c q_def)
    have "relay_step R z5 (z5\<lparr>z_relay := g, z_world := w, z_gate := (z_gate z5)(slot := Idle)\<rparr>)"
      using relay_step.st_install [OF z5(4)] inst z5(2,3) by simp
    then have "(relay_step R)\<^sup>*\<^sup>* z (z5\<lparr>z_relay := g, z_world := w, z_gate := (z_gate z5)(slot := Idle)\<rparr>)"
      using to3 s4 z5(1) by (meson rtranclp.rtrancl_into_rtrancl rtranclp_trans)
    moreover have "r = Some i \<Longrightarrow> gSlots g slot = Some q \<and> i = c \<and> installable slot q g" for i
      using inst q by (auto simp: install_queue_def installable_def split: if_splits)
    ultimately show ?thesis using q e_def by (intro exI) auto
  qed
qed

theorem create_refines_sections_witness:
  "\<exists>z. (relay_step demo_relay_env)\<^sup>*\<^sup>* demo_installed z \<and> z_world z = (2, [1]) \<and> z_gate z 2 = Idle"
proof -
  have peers: "peers_run demo_relay_env 2" by (auto simp: peers_run_def demo_relay_env_def)
  have idle: "z_gate demo_installed 2 = Idle" by (simp add: demo_installed_def)
  obtain r g w where run: "createRelayQueue demo_relay_env 2 640 480 demo_scope (z_relay demo_installed) (z_world demo_installed) = (r, g, w)"
    by (rule prod_cases3)
  have "snd (snd (createRelayQueue demo_relay_env 2 640 480 demo_scope (z_relay demo_installed) (z_world demo_installed))) = (2, [1])"
    by code_simp
  then have "w = (2, [1])" using run by simp
  then show ?thesis using create_refines_sections [OF peers idle run] by blast
qed

end
