(* ===== verification/Frame_Writer_V2.thy ===== *)
theory Frame_Writer_V2
  imports Frame_Source_V2 Shared_Progress "HOL-Library.Sublist"
begin

text \<open>
  \<open>unified-test/app/src/main/cpp/virtual_camera_writer_v2.{h,cpp}\<close>, class
  \<open>VirtualCameraWriterV2\<close>: the application's end of the shared pool when it draws with the
  CPU. It allocates the pool, announces and sends it to the HAL's socket, and then locks,
  fills and submits one buffer after the other.
\<close>

section \<open>State and environment\<close>

record writer_v2 =
  w2_pool :: pool
  w2_width :: "32 word"
  w2_height :: "32 word"
  w2_format :: int
  w2_socketFd :: int
  w2_initialized :: bool
  w2_currentBufferIndex :: int
  w2_lockedPtr :: "nat option"
  w2_currentTimestampNs :: int
  w2_lastNegotiationSeq :: "32 word"

definition writer_v2_init :: writer_v2 where
  "writer_v2_init = \<lparr>w2_pool = pool_init, w2_width = 0, w2_height = 0, w2_format = 0, w2_socketFd = -1,
     w2_initialized = False, w2_currentBufferIndex = -1, w2_lockedPtr = None, w2_currentTimestampNs = 0,
     w2_lastNegotiationSeq = 0\<rparr>"

text \<open>
  The property \<open>ro.hardware\<close>, the client side of the socket, buffer locks and the clock.
  \<open>we_send\<close> answers whether the whole header went out; \<open>we_recv\<close> the count and the byte
  received (0 when none came); \<open>we_lock\<close> the error code and the mapped address, if any.
\<close>

record 'w writer_env =
  we_hardware :: string
  we_socket :: "'w \<Rightarrow> int \<times> 'w"
  we_connect :: "int \<Rightarrow> 'w \<Rightarrow> int \<times> 'w"
  we_send :: "int \<Rightarrow> setup_header \<Rightarrow> 'w \<Rightarrow> bool \<times> 'w"
  we_sendmsg :: "int \<Rightarrow> int \<Rightarrow> 'w \<Rightarrow> int \<times> 'w"
  we_recv :: "int \<Rightarrow> 'w \<Rightarrow> (int \<times> 8 word) \<times> 'w"
  we_lock :: "ahb \<Rightarrow> 'w \<Rightarrow> (int \<times> nat option) \<times> 'w"
  we_unlock :: "ahb option \<Rightarrow> 'w \<Rightarrow> 'w"
  we_clock :: "'w \<Rightarrow> int \<times> 'w"

section \<open>Connecting\<close>

text \<open>Virtual devices, on which processes do not share buffer contents.\<close>

definition virtual_device :: "string \<Rightarrow> bool" where
  "virtual_device hw = (sublist ''cutf'' hw \<or> sublist ''goldfish'' hw \<or> sublist ''ranchu'' hw)"

text \<open>\<open>CPU_WRITE_OFTEN\<close>, \<open>CPU_READ_OFTEN\<close>, \<open>GPU_SAMPLED_IMAGE\<close>, \<open>GPU_COLOR_OUTPUT\<close>.\<close>

definition writer_usage :: "64 word" where
  "writer_usage = or (or (or 0x30 0x3) 0x100) 0x200"

definition sendFdViaSCM :: "'w writer_env \<Rightarrow> int \<Rightarrow> int \<Rightarrow> 'w \<Rightarrow> int \<times> 'w" where
  "sendFdViaSCM W socket fd w = (let (n, w1) = we_sendmsg W socket fd w in (if 0 \<le> n then 0 else -1, w1))"

definition writer_header :: "writer_v2 \<Rightarrow> setup_header" where
  "writer_header wr = \<lparr>h_magic = 0x56434D32, h_version = 2, h_width = sint (w2_width wr),
     h_height = sint (w2_height wr), h_format = w2_format wr, h_bufferCount = mBufferCount (w2_pool wr),
     h_usage = pc_usage (mConfig (w2_pool wr))\<rparr>"

text \<open>Every failure after \<open>socket\<close> closes the descriptor and forgets it.\<close>

definition connectToHal :: "'w platform \<Rightarrow> 'w writer_env \<Rightarrow> writer_v2 \<Rightarrow> 'w \<Rightarrow> bool \<times> writer_v2 \<times> 'w" where
  "connectToHal P W wr w =
     (let (fd, w1) = we_socket W w;
          wr1 = wr\<lparr>w2_socketFd := fd\<rparr>;
          fail = (\<lambda>v. (False, wr1\<lparr>w2_socketFd := -1\<rparr>, pf_close P fd v)) in
      if fd < 0 then (False, wr1, w1)
      else
        let (c, w2) = we_connect W fd w1 in
        if c < 0 then fail w2
        else
          let (sent, w3) = we_send W fd (writer_header wr1) w2 in
          if \<not> sent then fail w3
          else
            let (passed, w4) = sendFdViaSCM W fd (mControlRingFd (w2_pool wr1)) w3 in
            if passed < 0 then fail w4
            else
              let (buffers, w5) = sendBuffersTo P fd (w2_pool wr1) w4 in
              if \<not> buffers then fail w5
              else
                let ((n, ack), w6) = we_recv W fd w5 in
                if n \<noteq> 1 \<or> ack \<noteq> 1 then fail w6 else (True, wr1, w6))"

definition writer_initialize :: "'w platform \<Rightarrow> 'w writer_env \<Rightarrow> 32 word \<Rightarrow> 32 word \<Rightarrow> int \<Rightarrow> int \<Rightarrow>
    writer_v2 \<Rightarrow> control_ring \<Rightarrow> 'w \<Rightarrow> bool \<times> writer_v2 \<times> control_ring \<times> 'w" where
  "writer_initialize P W width height format bufferCount wr r w =
     (if w2_initialized wr then (False, wr, r, w)
      else
        let wr1 = wr\<lparr>w2_width := width, w2_height := height, w2_format := format\<rparr> in
        if virtual_device (we_hardware W) then (False, wr1, r, w)
        else
          let (allocated, p, r1, w1) = pool_allocate P (sint width) (sint height) format bufferCount
                writer_usage (w2_pool wr1) r w;
              wr2 = wr1\<lparr>w2_pool := p\<rparr> in
          if \<not> allocated then (False, wr2, r1, w1)
          else
            let (connected, wr3, w2) = connectToHal P W wr2 w1 in
            if \<not> connected then let (p', w3) = pool_release P (w2_pool wr3) w2 in (False, wr3\<lparr>w2_pool := p'\<rparr>, r1, w3)
            else (True, wr3\<lparr>w2_initialized := True\<rparr>, r1, w2))"

section \<open>Frames\<close>

definition writer_beginFrame :: "'w shared_env \<Rightarrow> 'w writer_env \<Rightarrow> nat \<Rightarrow> writer_v2 \<Rightarrow> control_ring \<Rightarrow> 'w \<Rightarrow>
    (nat option \<times> writer_v2 \<times> control_ring \<times> 'w) outcome" where
  "writer_beginFrame E W fuel wr r w =
     (let p = w2_pool wr in
      if \<not> w2_initialized wr then Inr (None, wr, r, w)
      else case (if mMapped p then drainReleaseRing E fuel r w else Inr (r, w)) of
        Inl e \<Rightarrow> Inl e
      | Inr (r1, w1) \<Rightarrow>
          let (r2, w2) = se_peer E r1 w1;
              (i, r3) = acquireFreeBuffer p r2 in
          if i < 0 then Inr (None, wr, r3, w2)
          else (case getBuffer i p of
              None \<Rightarrow> let (r4, w3) = se_peer E r3 w2 in Inr (None, wr, releaseBuffer i p r4, w3)
            | Some b \<Rightarrow>
                let ((result, ptr), w3) = we_lock W b w2 in
                if result \<noteq> 0 \<or> ptr = None
                then let (r4, w4) = se_peer E r3 w3 in Inr (None, wr, releaseBuffer i p r4, w4)
                else let (now, w4) = we_clock W w3 in
                  Inr (ptr, wr\<lparr>w2_currentBufferIndex := i, w2_lockedPtr := ptr, w2_currentTimestampNs := now\<rparr>,
                    r3, w4)))"

definition writer_endFrame :: "'w shared_env \<Rightarrow> 'w writer_env \<Rightarrow> writer_v2 \<Rightarrow> control_ring \<Rightarrow> 'w \<Rightarrow>
    writer_v2 \<times> control_ring \<times> 'w" where
  "writer_endFrame E W wr r w =
     (let p = w2_pool wr; i = w2_currentBufferIndex wr in
      if i < 0 \<or> w2_lockedPtr wr = None then (wr, r, w)
      else
        let w1 = we_unlock W (getBuffer i p) w;
            wr1 = wr\<lparr>w2_lockedPtr := None, w2_currentBufferIndex := -1\<rparr>;
            (r1, w2) = se_peer E r w1 in
        if mMapped p then
          let (ok, r2) = tryWrite (word_of_int i) (-1) (w2_currentTimestampNs wr) r1 in
          if ok then (wr1, r2, w2)
          else let (r3, w3) = se_peer E r2 w2 in (wr1, releaseBuffer i p r3, w3)
        else (wr1, releaseBuffer i p r1, w2))"

definition writer_shutdown :: "'w shared_env \<Rightarrow> 'w platform \<Rightarrow> 'w writer_env \<Rightarrow> writer_v2 \<Rightarrow> control_ring \<Rightarrow> 'w \<Rightarrow>
    writer_v2 \<times> control_ring \<times> 'w" where
  "writer_shutdown E P W wr r w =
     (let i = w2_currentBufferIndex wr;
          (wr1, r1, w1) = (if w2_lockedPtr wr \<noteq> None \<and> 0 \<le> i then
              let (ra, wa) = se_peer E r (we_unlock W (getBuffer i (w2_pool wr)) w) in
              (wr\<lparr>w2_lockedPtr := None, w2_currentBufferIndex := -1\<rparr>, releaseBuffer i (w2_pool wr) ra, wa)
            else (wr, r, w));
          (wr2, w2) = (if 0 \<le> w2_socketFd wr1
            then (wr1\<lparr>w2_socketFd := -1\<rparr>, pf_close P (w2_socketFd wr1) w1) else (wr1, w1));
          (p, w3) = pool_release P (w2_pool wr2) w2 in
      (wr2\<lparr>w2_pool := p, w2_initialized := False, w2_width := 0, w2_height := 0, w2_format := 0,
         w2_lastNegotiationSeq := 0\<rparr>, r1, w3))"

definition writer_checkNegotiation :: "control_ring \<Rightarrow> writer_v2 \<Rightarrow> format_request option \<times> writer_v2" where
  "writer_checkNegotiation r wr =
     (if \<not> w2_initialized wr then (None, wr)
      else if \<not> mMapped (w2_pool wr) then (None, wr)
      else if neg_seq r = w2_lastNegotiationSeq wr then (None, wr)
      else (Some \<lparr>fr_format = neg_format r, fr_width = neg_width r, fr_height = neg_height r,
              fr_usage = neg_usage r\<rparr>, wr\<lparr>w2_lastNegotiationSeq := neg_seq r\<rparr>))"

section \<open>The handshake with the server\<close>

text \<open>
  What crosses the socket. The descriptor of the ring arrives under a number of the receiver's
  own.
\<close>

datatype wire_msg = Header setup_header | RingFd int | Buffer "ahb option"

text \<open>
  The writer's side of the socket: \<open>log\<close> are the messages sent, and only the three send calls
  add to it.
\<close>

definition writer_logs :: "'w platform \<Rightarrow> 'w writer_env \<Rightarrow> ('w \<Rightarrow> wire_msg list) \<Rightarrow> bool" where
  "writer_logs P W log \<longleftrightarrow>
     (\<forall>fd h w. fst (we_send W fd h w) \<longrightarrow> log (snd (we_send W fd h w)) = log w @ [Header h]) \<and>
     (\<forall>fd g w. 0 \<le> fst (we_sendmsg W fd g w) \<longrightarrow> log (snd (we_sendmsg W fd g w)) = log w @ [RingFd g]) \<and>
     (\<forall>b fd w. fst (pf_send P b fd w) \<longrightarrow> log (snd (pf_send P b fd w)) = log w @ [Buffer b]) \<and>
     (\<forall>w. log (snd (pf_create P w)) = log w) \<and> (\<forall>fd w. log (snd (pf_mmap P fd w)) = log w) \<and>
     (\<forall>c w. log (snd (pf_allocate P c w)) = log w) \<and> (\<forall>w. log (snd (we_socket W w)) = log w) \<and>
     (\<forall>fd w. log (snd (we_connect W fd w)) = log w) \<and> (\<forall>fd w. log (snd (we_recv W fd w)) = log w)"

text \<open>
  The server's side: \<open>inbox\<close> are the messages still to be received, in order, and only the
  receiving calls take from it. Duplicating and mapping the ring succeed.
\<close>

definition server_reads :: "'v net \<Rightarrow> 'v platform \<Rightarrow> ('v \<Rightarrow> wire_msg list) \<Rightarrow> bool" where
  "server_reads N P inbox \<longleftrightarrow>
     (\<forall>fd v h q. inbox v = Header h # q \<longrightarrow>
        fst (nt_header N fd v) = Some h \<and> inbox (snd (nt_header N fd v)) = q) \<and>
     (\<forall>fd v g q. inbox v = RingFd g # q \<longrightarrow>
        (\<exists>n g'. fst (nt_recvmsg N fd v) = (n, Some (True, g')) \<and> 0 \<le> n \<and> 0 \<le> g') \<and>
        inbox (snd (nt_recvmsg N fd v)) = q) \<and>
     (\<forall>fd v b q. inbox v = Buffer (Some b) # q \<longrightarrow>
        fst (pf_recv P fd v) = Some b \<and> inbox (snd (pf_recv P fd v)) = q) \<and>
     (\<forall>v. inbox (pf_munmap P v) = inbox v) \<and> (\<forall>b v. inbox (pf_release P b v) = inbox v) \<and>
     (\<forall>fd v. inbox (pf_close P fd v) = inbox v) \<and>
     (\<forall>fd v. 0 \<le> fst (pf_dup P fd v) \<and> inbox (snd (pf_dup P fd v)) = inbox v) \<and>
     (\<forall>fd v. fst (pf_mmap P fd v) \<and> inbox (snd (pf_mmap P fd v)) = inbox v)"

lemma reads_header: "server_reads N P inbox \<Longrightarrow> inbox v = Header h # q \<Longrightarrow>
    fst (nt_header N fd v) = Some h \<and> inbox (snd (nt_header N fd v)) = q"
  and reads_fd: "server_reads N P inbox \<Longrightarrow> inbox v = RingFd g # q \<Longrightarrow>
    (\<exists>n g'. fst (nt_recvmsg N fd v) = (n, Some (True, g')) \<and> 0 \<le> n \<and> 0 \<le> g') \<and>
    inbox (snd (nt_recvmsg N fd v)) = q"
  and reads_buffer: "server_reads N P inbox \<Longrightarrow> inbox v = Buffer (Some b) # q \<Longrightarrow>
    fst (pf_recv P fd v) = Some b \<and> inbox (snd (pf_recv P fd v)) = q"
  by (simp_all add: server_reads_def)

lemma send_loop_log:
  "send_loop P fd bs w = (True, w') \<Longrightarrow> writer_logs P W log \<Longrightarrow> log w' = log w @ map Buffer bs"
proof (induction bs arbitrary: w)
  case Nil
  then show ?case by simp
next
  case (Cons b bs)
  obtain ok w1 where one: "pf_send P b fd w = (ok, w1)" by fastforce
  have ok: "ok" and rest: "send_loop P fd bs w1 = (True, w')"
    using Cons.prems(1) one by (auto split: if_splits)
  have "log w1 = log w @ [Buffer b]"
    using Cons.prems(2) one ok unfolding writer_logs_def by (metis fst_conv snd_conv)
  then show ?case using Cons.IH [OF rest Cons.prems(2)] by simp
qed

text \<open>A successful connection has sent the header, the ring and the buffers, in this order.\<close>

lemma connectToHal_log:
  assumes run: "connectToHal P W wr w = (True, wr', w')" and logs: "writer_logs P W log"
  shows "wr' = wr\<lparr>w2_socketFd := w2_socketFd wr'\<rparr> \<and>
    log w' = log w @ [Header (writer_header wr), RingFd (mControlRingFd (w2_pool wr))] @
      map Buffer (take (nat (mBufferCount (w2_pool wr))) (mBuffers (w2_pool wr)))"
proof -
  obtain fd w1 where a: "we_socket W w = (fd, w1)" by fastforce
  obtain c w2 where b: "we_connect W fd w1 = (c, w2)" by fastforce
  obtain sent w3 where d: "we_send W fd (writer_header (wr\<lparr>w2_socketFd := fd\<rparr>)) w2 = (sent, w3)" by fastforce
  obtain n w4 where e: "we_sendmsg W fd (mControlRingFd (w2_pool wr)) w3 = (n, w4)" by fastforce
  obtain bufs w5 where f: "sendBuffersTo P fd (w2_pool wr) w4 = (bufs, w5)" by fastforce
  obtain k ack w6 where g: "we_recv W fd w5 = ((k, ack), w6)" by (metis surj_pair)
  have res: "sent" "0 \<le> n" "bufs" "wr' = wr\<lparr>w2_socketFd := fd\<rparr>" "w' = w6"
    using run a b d e f g by (auto simp: connectToHal_def sendFdViaSCM_def Let_def split: if_splits)
  have h: "writer_header (wr\<lparr>w2_socketFd := fd\<rparr>) = writer_header wr" by (simp add: writer_header_def)
  have "log w1 = log w" "log w2 = log w1" "log w6 = log w5"
    using logs a b g unfolding writer_logs_def by (metis snd_conv)+
  moreover have "log w3 = log w2 @ [Header (writer_header wr)]"
    using logs d res(1) h unfolding writer_logs_def by (metis fst_conv snd_conv)
  moreover have "log w4 = log w3 @ [RingFd (mControlRingFd (w2_pool wr))]"
    using logs e res(2) unfolding writer_logs_def by (metis fst_conv snd_conv)
  moreover have "log w5 = log w4 @ map Buffer (take (nat (mBufferCount (w2_pool wr))) (mBuffers (w2_pool wr)))"
    using send_loop_log [OF _ logs] f res(3) by (simp add: sendBuffersTo_def)
  ultimately show ?thesis using res by simp
qed

lemma allocate_loop_effect:
  "allocate_loop P c [i..<n] bs w = (True, bs', w') \<Longrightarrow> i \<le> n \<Longrightarrow> n \<le> length bs \<Longrightarrow>
   length bs' = length bs \<and> (\<forall>j < length bs. if i \<le> j \<and> j < n then bs' ! j \<noteq> None else bs' ! j = bs ! j)"
proof (induction "n - i" arbitrary: i bs w)
  case 0
  then have "i = n" "bs' = bs" by auto
  then show ?case by (simp, linarith)
next
  case (Suc k)
  have up: "[i..<n] = i # [Suc i..<n]" using Suc.hyps(2) by (simp add: upt_conv_Cons)
  obtain b w1 where one: "pf_allocate P c w = (Some b, w1)" "allocate_loop P c [Suc i..<n] (bs[i := Some b]) w1 = (True, bs', w')"
    using Suc.prems(1) up by (cases "pf_allocate P c w") (auto split: option.splits)
  have "k = n - Suc i" using Suc.hyps(2) by simp
  then show ?case using Suc.hyps(1) [OF _ one(2)] Suc.prems Suc.hyps(2)
    by (auto simp: nth_list_update split: if_splits)
qed

lemma allocate_loop_log:
  "allocate_loop P c is bs w = (ok, bs', w') \<Longrightarrow> writer_logs P W log \<Longrightarrow> log w' = log w"
proof (induction "is" arbitrary: bs w)
  case Nil
  then show ?case by simp
next
  case (Cons i "is")
  obtain o' w1 where one: "pf_allocate P c w = (o', w1)" by fastforce
  have same: "log w1 = log w" using Cons.prems(2) one unfolding writer_logs_def by (metis snd_conv)
  show ?case
  proof (cases o')
    case None
    then show ?thesis using Cons.prems(1) one same by simp
  next
    case (Some b)
    then have "allocate_loop P c is (bs[i := Some b]) w1 = (ok, bs', w')" using Cons.prems(1) one by simp
    then show ?thesis using Cons.IH Cons.prems(2) same by simp
  qed
qed

text \<open>A pool that was allocated into an empty one.\<close>

definition pool_full :: "pool \<Rightarrow> bool" where
  "pool_full p \<longleftrightarrow> length (mBuffers p) = nat MAX_BUFFERS \<and> 0 < mBufferCount p \<and> mBufferCount p \<le> MAX_BUFFERS \<and>
     mMapped p \<and> (\<forall>j < nat MAX_BUFFERS. (mBuffers p ! j \<noteq> None) = (j < nat (mBufferCount p)))"

lemma pool_allocate_full:
  assumes run: "pool_allocate P wd hg fm n us p r w = (True, p', r', w')"
    and empty: "mBuffers p = replicate (nat MAX_BUFFERS) None"
  shows "pool_full p' \<and> mBufferCount p' = n \<and> mConfig p' = allocate_config wd hg fm n us \<and> r' = new_ring"
proof -
  obtain fd w1 where fd: "pf_create P w = (fd, w1)" by fastforce
  obtain m p2 w2 where m: "map_ring P fd (p\<lparr>mConfig := allocate_config wd hg fm n us\<rparr>) w1 = (m, p2, w2)"
    by (rule prod_cases3)
  obtain ok bs w3 where l: "allocate_loop P (allocate_config wd hg fm n us) [0..<nat n] (mBuffers p2) w2 = (ok, bs, w3)"
    by (rule prod_cases3)
  have n: "0 < n" "n \<le> MAX_BUFFERS" and "0 \<le> fd" and m': "m" and ok: "ok"
      and res: "p' = p2\<lparr>mBuffers := bs, mBufferCount := n, mOwner := True\<rparr>" "r' = new_ring"
    using run fd m l by (auto simp: pool_allocate_def Let_def split: if_splits prod.splits)
  have p2: "p2 = p\<lparr>mConfig := allocate_config wd hg fm n us, mControlRingFd := fd, mMapped := True\<rparr>"
    using m m' by (auto simp: map_ring_def Let_def split: if_splits prod.splits)
  have "nat n \<le> length (mBuffers p2)" using n p2 empty by (simp add: nat_le_iff MAX_BUFFERS_def)
  moreover have "allocate_loop P (allocate_config wd hg fm n us) [0..<nat n] (mBuffers p2) w2 = (True, bs, w3)"
    using l ok by simp
  ultimately have "length bs = length (mBuffers p2) \<and>
      (\<forall>j < length (mBuffers p2). if j < nat n then bs ! j \<noteq> None else bs ! j = mBuffers p2 ! j)"
    using allocate_loop_effect [of P _ 0 "nat n" "mBuffers p2" w2 bs w3] by simp
  then have eff: "length bs = nat MAX_BUFFERS" "if j < nat n then bs ! j \<noteq> None else bs ! j = None"
    if "j < nat MAX_BUFFERS" for j
    using p2 empty that by simp_all
  have "length bs = nat MAX_BUFFERS" using eff(1) [of 0] by (simp add: MAX_BUFFERS_def)
  moreover have "(bs ! j \<noteq> None) = (j < nat n)" if "j < nat MAX_BUFFERS" for j
    using eff(2) [OF that] by (simp split: if_splits)
  ultimately show ?thesis using n p2 res by (simp add: pool_full_def)
qed

lemma pool_allocate_log:
  assumes run: "pool_allocate P wd hg fm n us p r w = (True, p', r', w')" and logs: "writer_logs P W log"
  shows "log w' = log w"
proof -
  obtain fd w1 where fd: "pf_create P w = (fd, w1)" by fastforce
  obtain m p2 w2 where m: "map_ring P fd (p\<lparr>mConfig := allocate_config wd hg fm n us\<rparr>) w1 = (m, p2, w2)"
    by (rule prod_cases3)
  obtain ok bs w3 where l: "allocate_loop P (allocate_config wd hg fm n us) [0..<nat n] (mBuffers p2) w2 = (ok, bs, w3)"
    by (rule prod_cases3)
  have m': "m" and res: "w' = w3"
    using run fd m l by (auto simp: pool_allocate_def Let_def split: if_splits prod.splits)
  have "w2 = snd (pf_mmap P fd w1)"
    using m m' by (auto simp: map_ring_def Let_def split: if_splits prod.splits)
  then show ?thesis
    using logs fd allocate_loop_log [OF l logs] res unfolding writer_logs_def by (metis snd_conv)
qed

text \<open>Receiving what was sent.\<close>

lemma recv_loop_gets:
  "server_reads N P inbox \<Longrightarrow> inbox v = map (\<lambda>b. Buffer (Some b)) xs @ q \<Longrightarrow> i + length xs \<le> length bs \<Longrightarrow>
   \<exists>v'. recv_loop P fd [i..<i + length xs] bs v = (True, take i bs @ map Some xs @ drop (i + length xs) bs, v')"
proof (induction xs arbitrary: i bs v)
  case Nil
  then show ?case by simp
next
  case (Cons x xs)
  have up: "[i..<i + length (x # xs)] = i # [Suc i..<Suc i + length xs]" by (simp add: upt_conv_Cons del: upt_Suc)
  obtain v1 where one: "pf_recv P fd v = (Some x, v1)" "inbox v1 = map (\<lambda>b. Buffer (Some b)) xs @ q"
  proof -
    have "inbox v = Buffer (Some x) # (map (\<lambda>b. Buffer (Some b)) xs @ q)" using Cons.prems(2) by simp
    from reads_buffer [OF Cons.prems(1) this]
    have "fst (pf_recv P fd v) = Some x \<and> inbox (snd (pf_recv P fd v)) = map (\<lambda>b. Buffer (Some b)) xs @ q" .
    then show thesis using that by (metis prod.collapse)
  qed
  have "Suc i + length xs \<le> length (bs[i := Some x])" using Cons.prems(3) by simp
  from Cons.IH [OF Cons.prems(1) one(2) this] obtain v' where
    "recv_loop P fd [Suc i..<Suc i + length xs] (bs[i := Some x]) v1 =
      (True, take (Suc i) (bs[i := Some x]) @ map Some xs @ drop (Suc i + length xs) (bs[i := Some x]), v')"
    by blast
  moreover have "take (Suc i) (bs[i := Some x]) @ map Some xs @ drop (Suc i + length xs) (bs[i := Some x]) =
      take i bs @ map Some (x # xs) @ drop (i + length (x # xs)) bs"
    using Cons.prems(3) by (simp add: take_Suc_conv_app_nth)
  ultimately show ?case using up one(1) by simp
qed

text \<open>What the server makes of the writer's messages.\<close>

lemma receiveFd_gets:
  assumes "server_reads N P inbox" "inbox v = RingFd g # q"
  obtains g' v' where "receiveFdViaSCM N fd v = (g', v')" "0 \<le> g'" "inbox v' = q"
proof -
  obtain n g' where m: "fst (nt_recvmsg N fd v) = (n, Some (True, g'))" "0 \<le> n" "0 \<le> g'"
      "inbox (snd (nt_recvmsg N fd v)) = q"
    using reads_fd [OF assms] by blast
  then have "receiveFdViaSCM N fd v = (g', snd (nt_recvmsg N fd v))"
    by (cases "nt_recvmsg N fd v") (simp add: receiveFdViaSCM_def)
  then show thesis using that m by blast
qed

lemma release_fold_inbox:
  "server_reads N P inbox \<Longrightarrow> inbox (snd (fold (release_one P) is (bs, v))) = inbox v"
proof (induction "is" arbitrary: bs v)
  case Nil
  then show ?case by simp
next
  case (Cons i "is")
  obtain bs1 v1 where one: "release_one P i (bs, v) = (bs1, v1)" by fastforce
  then have "inbox v1 = inbox v"
    using Cons.prems by (auto simp: release_one_def server_reads_def split: option.splits)
  then show ?case using Cons.IH [OF Cons.prems, of bs1 v1] one by simp
qed

lemma pool_release_inbox:
  assumes "server_reads N P inbox" "pool_release P p v = (p', v')"
  shows "inbox v' = inbox v"
proof -
  obtain bs v1 where f: "fold (release_one P) [0..<nat (mBufferCount p)] (mBuffers p, v) = (bs, v1)"
    by fastforce
  have "inbox v1 = inbox v" using release_fold_inbox [OF assms(1)] f by (metis snd_conv)
  moreover have "inbox v' = inbox v1"
    using assms f by (auto simp: pool_release_def Let_def server_reads_def)
  ultimately show ?thesis by simp
qed

lemma attach_succeeds:
  assumes "server_reads N P inbox"
  obtains fd v' where "attachControlRing P g p v =
    (True, p\<lparr>mControlRingFd := fd, mMapped := True, mOwner := False\<rparr>, v')" "inbox v' = inbox v"
proof -
  obtain fd v1 where d: "pf_dup P g v = (fd, v1)" by fastforce
  obtain m v2 where m: "pf_mmap P fd v1 = (m, v2)" by fastforce
  have "0 \<le> fd" "inbox v1 = inbox v" "m" "inbox v2 = inbox v1"
    using assms d m unfolding server_reads_def by (metis fst_conv snd_conv)+
  then show thesis using that d m by (simp add: attachControlRing_def map_ring_def)
qed

lemma server_accepts:
  assumes reads: "server_reads N P inbox" and s: "source_ok s" and h: "header_ok h"
    and inbox: "inbox v = Header h # RingFd g # map (\<lambda>b. Buffer (Some b)) xs"
    and xs: "length xs = nat (h_bufferCount h)"
    and run: "handleConnection N P client s v = (ok, s', v')"
  shows "ok \<and> v_active s' \<and> mConfig (v_pool s') = config_of_header h \<and>
    mBufferCount (v_pool s') = h_bufferCount h \<and>
    mBuffers (v_pool s') = map Some xs @ replicate (nat MAX_BUFFERS - length xs) None"
proof -
  have "fst (nt_header N client v) = Some h \<and>
      inbox (snd (nt_header N client v)) = RingFd g # map (\<lambda>b. Buffer (Some b)) xs"
    by (rule reads_header [OF reads inbox])
  then obtain v1 where head: "nt_header N client v = (Some h, v1)"
      and in1: "inbox v1 = RingFd g # map (\<lambda>b. Buffer (Some b)) xs"
    by (metis prod.collapse)
  obtain g' v2 where fd: "receiveFdViaSCM N client v1 = (g', v2)" "0 \<le> g'"
      and in2: "inbox v2 = map (\<lambda>b. Buffer (Some b)) xs"
    by (rule receiveFd_gets [OF reads in1])
  obtain p0 v3 where rel: "pool_release P (v_pool s) v2 = (p0, v3)" by fastforce
  have p0: "mBuffers p0 = replicate (nat MAX_BUFFERS) None"
    using pool_release_empty [OF rel] s by (auto simp: source_ok_def)
  obtain nfd v4 where att: "attachControlRing P g' p0 v3 =
      (True, p0\<lparr>mControlRingFd := nfd, mMapped := True, mOwner := False\<rparr>, v4)" and in4: "inbox v4 = inbox v3"
    by (rule attach_succeeds [OF reads])
  let ?p1 = "p0\<lparr>mControlRingFd := nfd, mMapped := True, mOwner := False\<rparr>"
  have in5: "inbox (pf_close P g' v4) = map (\<lambda>b. Buffer (Some b)) xs @ []"
    using reads in2 in4 pool_release_inbox [OF reads rel] by (simp add: server_reads_def)
  have n: "0 < h_bufferCount h" "h_bufferCount h \<le> MAX_BUFFERS" using h by (auto simp: header_ok_def)
  then have "0 + length xs \<le> length (mBuffers ?p1)" using xs p0 by simp
  from recv_loop_gets [OF reads in5 this] obtain v6 where recv:
    "recv_loop P client [0..<nat (h_bufferCount h)] (mBuffers ?p1) (pf_close P g' v4) =
      (True, map Some xs @ drop (length xs) (mBuffers ?p1), v6)"
    using xs by auto
  show ?thesis
    using run head h fd rel att recv n xs p0
    by (auto simp: handleConnection_def recvBuffersFrom_def iface_initialize_def Let_def)
qed

text \<open>
  C29: When the writer's \<open>initialize\<close> succeeds, what it has sent makes the
  HAL's server accept: the server becomes active with the writer's configuration, and holds the
  very buffers of the writer's pool, each under the writer's index.
\<close>

theorem handshake_shares_pool:
  assumes "writer_initialize P W wd hg fm n wr r w = (True, wr', r', w')"
    and "writer_logs P W log" "log w = []" "mBuffers (w2_pool wr) = replicate (nat MAX_BUFFERS) None"
    and "server_reads N Q inbox" "inbox v = log w'" "source_ok s"
    and "handleConnection N Q client s v = (ok, s', v')"
  shows "ok \<and> getConfig s' = Some (sint wd, sint hg, fm) \<and> mConfig (v_pool s') = mConfig (w2_pool wr') \<and>
    mBufferCount (v_pool s') = mBufferCount (w2_pool wr') \<and> mBuffers (v_pool s') = mBuffers (w2_pool wr') \<and>
    pool_full (w2_pool wr') \<and> r' = new_ring"
proof -
  let ?wr1 = "wr\<lparr>w2_width := wd, w2_height := hg, w2_format := fm\<rparr>"
  obtain a p r1 w1 where al: "pool_allocate P (sint wd) (sint hg) fm n writer_usage (w2_pool wr) r w = (a, p, r1, w1)"
    by (metis prod_cases4)
  obtain c wr3 w2 where co: "connectToHal P W (?wr1\<lparr>w2_pool := p\<rparr>) w1 = (c, wr3, w2)" by (rule prod_cases3)
  have res: "a" "c" "wr' = wr3\<lparr>w2_initialized := True\<rparr>" "r' = r1" "w' = w2"
    using assms(1) al co by (auto simp: writer_initialize_def Let_def split: if_splits prod.splits)
  have full: "pool_full p" "mBufferCount p = n" "r1 = new_ring"
      "mConfig p = allocate_config (sint wd) (sint hg) fm n writer_usage"
    using pool_allocate_full [of P "sint wd" "sint hg" fm n writer_usage "w2_pool wr" r w p r1 w1] assms(4) al res(1)
    by simp_all
  have "log w1 = []" using pool_allocate_log [OF _ assms(2)] al res(1) assms(3) by metis
  then have sent: "wr3 = ?wr1\<lparr>w2_pool := p, w2_socketFd := w2_socketFd wr3\<rparr>"
      "log w2 = Header (writer_header (?wr1\<lparr>w2_pool := p\<rparr>)) # RingFd (mControlRingFd p) #
        map Buffer (take (nat n) (mBuffers p))"
    using connectToHal_log [OF _ assms(2), of "?wr1\<lparr>w2_pool := p\<rparr>" w1 wr3 w2] co res(2) full(2) \<open>log w1 = []\<close>
    by simp_all
  let ?h = "writer_header (?wr1\<lparr>w2_pool := p\<rparr>)"
  have n: "0 < n" "n \<le> MAX_BUFFERS" and len: "length (mBuffers p) = nat MAX_BUFFERS"
    using full(1,2) by (auto simp: pool_full_def)
  have h: "header_ok ?h" "h_bufferCount ?h = n" "config_of_header ?h = mConfig p"
    using n full by (simp_all add: header_ok_def writer_header_def VCM2_MAGIC_def VCM2_VERSION_def
        config_of_header_def allocate_config_def)
  define xs where "xs = map the (take (nat n) (mBuffers p))"
  have some: "take (nat n) (mBuffers p) = map Some xs"
    using full n len unfolding xs_def pool_full_def by (intro nth_equalityI) auto
  have rest: "drop (nat n) (mBuffers p) = replicate (nat MAX_BUFFERS - nat n) None"
  proof (intro nth_equalityI)
    fix i
    assume "i < length (drop (nat n) (mBuffers p))"
    then have "nat n + i < nat MAX_BUFFERS" using len by simp
    then have "\<not> mBuffers p ! (nat n + i) \<noteq> None" using full unfolding pool_full_def by (metis not_add_less1)
    then show "drop (nat n) (mBuffers p) ! i = replicate (nat MAX_BUFFERS - nat n) None ! i"
      using len \<open>nat n + i < nat MAX_BUFFERS\<close> by simp
  qed (use len in simp)
  have lx: "length xs = nat n" using n len by (simp add: xs_def)
  have "inbox v = Header ?h # RingFd (mControlRingFd p) # map (\<lambda>b. Buffer (Some b)) xs"
    using assms(6) res(5) sent(2) some by (simp add: comp_def)
  from server_accepts [OF assms(5,7) h(1) this _ assms(8)]
  have acc: "ok \<and> v_active s' \<and> mConfig (v_pool s') = mConfig p \<and> mBufferCount (v_pool s') = n \<and>
      mBuffers (v_pool s') = map Some xs @ replicate (nat MAX_BUFFERS - nat n) None"
    using h lx by simp
  moreover have "map Some xs @ replicate (nat MAX_BUFFERS - nat n) None = mBuffers p"
    using some rest append_take_drop_id [of "nat n" "mBuffers p"] by simp
  moreover have "w2_pool wr' = p" using arg_cong [OF sent(1), of w2_pool] res(3) by simp
  ultimately show ?thesis using full res by (simp add: getConfig_def allocate_config_def)
qed

text \<open>A writer and a server whose worlds are the messages in the socket.\<close>

definition wire_platform :: "wire_msg list platform" where
  "wire_platform = \<lparr>pf_create = (\<lambda>w. (20, w)), pf_mmap = (\<lambda>_ w. (True, w)), pf_munmap = (\<lambda>w. w),
     pf_dup = (\<lambda>fd w. (30, w)), pf_close = (\<lambda>_ w. w), pf_allocate = (\<lambda>c w. (Some 51, w)),
     pf_release = (\<lambda>_ w. w),
     pf_recv = (\<lambda>_ w. case w of Buffer b # q \<Rightarrow> (b, q) | _ \<Rightarrow> (None, w)),
     pf_send = (\<lambda>b _ w. (True, w @ [Buffer b]))\<rparr>"

definition wire_writer :: "wire_msg list writer_env" where
  "wire_writer = \<lparr>we_hardware = ''qcom'', we_socket = (\<lambda>w. (8, w)), we_connect = (\<lambda>_ w. (0, w)),
     we_send = (\<lambda>_ h w. (True, w @ [Header h])), we_sendmsg = (\<lambda>_ g w. (1, w @ [RingFd g])),
     we_recv = (\<lambda>_ w. ((1, 1), w)), we_lock = (\<lambda>_ w. ((0, Some 4096), w)), we_unlock = (\<lambda>_ w. w),
     we_clock = (\<lambda>w. (7, w))\<rparr>"

definition wire_net :: "wire_msg list net" where
  "wire_net = \<lparr>nt_socket = (\<lambda>w. (5, w)), nt_unlink = (\<lambda>w. w), nt_bind = (\<lambda>_ w. (0, w)), nt_chmod = (\<lambda>w. w),
     nt_listen = (\<lambda>_ w. (0, w)), nt_shutdown = (\<lambda>_ w. w), nt_accept = (\<lambda>_ w. (6, w)),
     nt_header = (\<lambda>_ w. case w of Header h # q \<Rightarrow> (Some h, q) | _ \<Rightarrow> (None, w)),
     nt_recvmsg = (\<lambda>_ w. case w of RingFd g # q \<Rightarrow> ((1, Some (True, 9)), q) | _ \<Rightarrow> ((0, None), w)),
     nt_ack = (\<lambda>_ w. w), nt_others = (\<lambda>s w. (s, w))\<rparr>"

lemma handshake_shares_pool_witness:
  "\<exists>s' v'. handleConnection wire_net wire_platform 6 source_v2_init
      (snd (snd (snd (writer_initialize wire_platform wire_writer 640 480 1 2 writer_v2_init new_ring [])))) =
      (True, s', v') \<and> getConfig s' = Some (640, 480, 1) \<and>
      mBuffers (v_pool s') = [Some 51, Some 51, None, None]"
proof -
  let ?run = "writer_initialize wire_platform wire_writer 640 480 1 2 writer_v2_init new_ring []"
  obtain ok wr' r' w' where run: "?run = (ok, wr', r', w')" by (metis prod_cases4)
  have "fst ?run \<and> mBuffers (w2_pool (fst (snd ?run))) = [Some 51, Some 51, None, None]" by code_simp
  then have ok: "?run = (True, wr', r', w')" and bufs: "mBuffers (w2_pool wr') = [Some 51, Some 51, None, None]"
    using run by simp_all
  have logs: "writer_logs wire_platform wire_writer (\<lambda>w. w)" and reads: "server_reads wire_net wire_platform (\<lambda>w. w)"
    by (auto simp: writer_logs_def server_reads_def wire_platform_def wire_writer_def wire_net_def)
  have empty: "mBuffers (w2_pool writer_v2_init) = replicate (nat MAX_BUFFERS) None"
    by (simp add: writer_v2_init_def pool_init_def)
  obtain ok2 s' v' where serve: "handleConnection wire_net wire_platform 6 source_v2_init w' = (ok2, s', v')"
    by (rule prod_cases3)
  from handshake_shares_pool [OF ok logs refl empty reads refl source_init_ok serve]
  have "ok2 \<and> getConfig s' = Some (640, 480, 1) \<and> mBuffers (v_pool s') = [Some 51, Some 51, None, None]"
    using bufs by simp
  then show ?thesis using serve ok by simp
qed

section \<open>The writer's frames in the pool\<close>

text \<open>Steps of the HAL: the renderer's frames and its progress in \<open>beginFrame\<close> stay.\<close>

definition hal_step :: "pool \<Rightarrow> pool_system \<Rightarrow> pool_system \<Rightarrow> bool" where
  "hal_step p y y' \<longleftrightarrow> pool_step p y y' \<and> y_rendering y' = y_rendering y \<and> y_drained y' = y_drained y"

text \<open>
  The peer is the HAL: between two accesses of the writer it makes steps of its own, and
  \<open>held\<close> are the frames it then has in hand. The writer's other calls do not change them.
\<close>

definition peer_is_hal :: "pool \<Rightarrow> 'w shared_env \<Rightarrow> ('w \<Rightarrow> nat list) \<Rightarrow> bool" where
  "peer_is_hal p E held \<longleftrightarrow> (\<forall>y w. y_held y = held w \<longrightarrow>
     (hal_step p)\<^sup>*\<^sup>* y (y\<lparr>y_ring := fst (se_peer E (y_ring y) w), y_held := held (snd (se_peer E (y_ring y) w))\<rparr>))"

definition calls_keep_held :: "'w writer_env \<Rightarrow> ('w \<Rightarrow> nat list) \<Rightarrow> bool" where
  "calls_keep_held W held \<longleftrightarrow> (\<forall>b w. held (snd (we_lock W b w)) = held w) \<and>
     (\<forall>b w. held (we_unlock W b w) = held w) \<and> (\<forall>w. held (snd (we_clock W w)) = held w)"

text \<open>The frame the writer has begun and not yet ended.\<close>

definition writer_frames :: "writer_v2 \<Rightarrow> nat list" where
  "writer_frames wr = (if w2_lockedPtr wr = None then [] else [nat (w2_currentBufferIndex wr)])"

text \<open>A reachable state of the joint system that matches the writer's view.\<close>

definition tracks :: "pool \<Rightarrow> ('w \<Rightarrow> nat list) \<Rightarrow> control_ring \<Rightarrow> 'w \<Rightarrow> nat list \<Rightarrow> pool_system \<Rightarrow> bool" where
  "tracks p held r w fs y \<longleftrightarrow> (pool_step p)\<^sup>*\<^sup>* pool_start y \<and> y_ring y = r \<and> y_held y = held w \<and> y_rendering y = fs"

lemma hal_run_pool: "(hal_step p)\<^sup>*\<^sup>* y y' \<Longrightarrow> (pool_step p)\<^sup>*\<^sup>* y y'"
  by (induction rule: rtranclp_induct) (auto simp: hal_step_def intro: rtranclp.rtrancl_into_rtrancl)

lemma tracks_peer:
  assumes "tracks p held r w fs y" "se_peer E r w = (r', w')" "peer_is_hal p E held"
  shows "tracks p held r' w' fs (y\<lparr>y_ring := r', y_held := held w'\<rparr>)"
    and "(hal_step p)\<^sup>*\<^sup>* y (y\<lparr>y_ring := r', y_held := held w'\<rparr>)"
proof -
  show run: "(hal_step p)\<^sup>*\<^sup>* y (y\<lparr>y_ring := r', y_held := held w'\<rparr>)"
    using assms unfolding tracks_def peer_is_hal_def by (metis fst_conv snd_conv)
  then show "tracks p held r' w' fs (y\<lparr>y_ring := r', y_held := held w'\<rparr>)"
    using assms(1) hal_run_pool [OF run] by (auto simp: tracks_def)
qed

lemma tracks_step:
  "tracks p held r w fs y \<Longrightarrow> pool_step p y y' \<Longrightarrow> y_held y' = held w' \<Longrightarrow> tracks p held (y_ring y') w' (y_rendering y') y'"
  by (auto simp: tracks_def)

lemma tracks_drain:
  "drainReleaseRing E fuel r w = Inr (r', w') \<Longrightarrow> tracks p held r w fs y \<Longrightarrow> peer_is_hal p E held \<Longrightarrow>
   \<exists>y'. tracks p held r' w' fs y' \<and> y_drained y'"
proof (induction fuel arbitrary: r w y)
  case 0
  then show ?case by simp
next
  case (Suc fuel)
  obtain r1 w1 where peer: "se_peer E r w = (r1, w1)" by fastforce
  let ?y1 = "y\<lparr>y_ring := r1, y_held := held w1\<rparr>"
  have t1: "tracks p held r1 w1 fs ?y1" by (rule tracks_peer(1) [OF Suc.prems(2) peer Suc.prems(3)])
  obtain b r2 where read: "tryReadRelease r1 = (b, r2)" by fastforce
  show ?case
  proof (cases b)
    case None
    have "pool_step p ?y1 (?y1\<lparr>y_ring := r2, y_drained := True\<rparr>)"
      by (rule pool_step.drained) (use read None in simp)
    from tracks_step [OF t1 this, of w1] show ?thesis
      using Suc.prems(1) peer read None t1 by (auto simp: tracks_def)
  next
    case (Some c)
    have "pool_step p ?y1 (?y1\<lparr>y_ring := r2, y_drained := False\<rparr>)"
      by (rule pool_step.drain) (use read Some in simp)
    from tracks_step [OF t1 this, of w1]
    have "tracks p held r2 w1 fs (?y1\<lparr>y_ring := r2, y_drained := False\<rparr>)" using t1 by (simp add: tracks_def)
    then show ?thesis using Suc.IH Suc.prems(1,3) peer read Some by simp
  qed
qed

lemma tracks_cancel:
  assumes "tracks p held r w [i] y" "se_peer E r w = (r', w')" "peer_is_hal p E held"
  shows "\<exists>y'. tracks p held (releaseBuffer (int i) p r') w' [] y'"
proof -
  let ?y1 = "y\<lparr>y_ring := r', y_held := held w'\<rparr>"
  have t1: "tracks p held r' w' [i] ?y1" by (rule tracks_peer(1) [OF assms])
  have "pool_step p ?y1 (?y1\<lparr>y_ring := releaseBuffer (int i) p (y_ring ?y1), y_rendering := remove1 i (y_rendering ?y1)\<rparr>)"
    by (rule pool_step.cancel) (use t1 in \<open>simp add: tracks_def\<close>)
  from tracks_step [OF t1 this, of w'] show ?thesis using t1 by (auto simp: tracks_def)
qed

lemma acquire_result: "acquireFreeBuffer p r = (i, r') \<Longrightarrow> 0 \<le> i \<or> i = -1 \<and> r' = r"
  using acquire_from_result by (fastforce simp: acquireFreeBuffer_def split: if_splits)

lemma tracks_begin:
  assumes run: "writer_beginFrame E W fuel wr r w = Inr (ptr, wr', r', w')"
    and t: "tracks (w2_pool wr) held r w [] y" and wr: "w2_lockedPtr wr = None" "mMapped (w2_pool wr)"
    and peer: "peer_is_hal (w2_pool wr) E held" and keep: "calls_keep_held W held"
  shows "\<exists>y'. tracks (w2_pool wr) held r' w' (writer_frames wr') y'"
    and "w2_pool wr' = w2_pool wr \<and> (w2_lockedPtr wr' \<noteq> None \<longrightarrow> 0 \<le> w2_currentBufferIndex wr')"
proof -
  let ?p = "w2_pool wr"
  have none: "writer_frames wr = []" using wr by (simp add: writer_frames_def)
  show "w2_pool wr' = w2_pool wr \<and> (w2_lockedPtr wr' \<noteq> None \<longrightarrow> 0 \<le> w2_currentBufferIndex wr')"
    using run wr by (auto simp: writer_beginFrame_def Let_def split: sum.splits if_splits prod.splits option.splits)
  show "\<exists>y'. tracks ?p held r' w' (writer_frames wr') y'"
  proof (cases "w2_initialized wr")
    case False
    then show ?thesis using run t none by (auto simp: writer_beginFrame_def)
  next
    case init: True
    obtain r1 w1 where drain: "drainReleaseRing E fuel r w = Inr (r1, w1)"
      using run init wr(2) by (cases "drainReleaseRing E fuel r w") (auto simp: writer_beginFrame_def Let_def)
    from tracks_drain [OF this t peer] obtain y1 where y1: "tracks ?p held r1 w1 [] y1" "y_drained y1" by blast
    obtain r2 w2 where p2: "se_peer E r1 w1 = (r2, w2)" by fastforce
    let ?y2 = "y1\<lparr>y_ring := r2, y_held := held w2\<rparr>"
    have t2: "tracks ?p held r2 w2 [] ?y2" by (rule tracks_peer(1) [OF y1(1) p2 peer])
    obtain i r3 where acq: "acquireFreeBuffer ?p r2 = (i, r3)" by fastforce
    show ?thesis
    proof (cases "i < 0")
      case True
      then show ?thesis using run init wr(2) drain p2 acq none t2 acquire_result [OF acq]
        by (auto simp: writer_beginFrame_def)
    next
      case False
      have taken: "pool_step ?p ?y2 (?y2\<lparr>y_ring := r3, y_drained := False,
          y_rendering := (if 0 \<le> i then nat i # y_rendering ?y2 else y_rendering ?y2)\<rparr>)"
        by (rule pool_step.begin_frame) (use y1(2) acq in simp_all)
      have "y_rendering y1 = []" using y1(1) by (simp add: tracks_def)
      then have t3: "\<exists>y. tracks ?p held r3 v [nat i] y" if "held v = held w2" for v
        using tracks_step [OF t2 taken, of v] False that by auto
      obtain b where b: "getBuffer i ?p = b" by blast
      show ?thesis
      proof (cases b)
        case None
        obtain r4 w3 where p4: "se_peer E r3 w2 = (r4, w3)" by fastforce
        obtain y3 where "tracks ?p held r3 w2 [nat i] y3" using t3 by blast
        from tracks_cancel [OF this p4 peer] show ?thesis
          using run init wr(2) drain p2 acq none False b None p4 by (auto simp: writer_beginFrame_def)
      next
        case (Some buf)
        obtain res p w3 where lock: "we_lock W buf w2 = ((res, p), w3)" by (metis surj_pair)
        have h3: "held w3 = held w2" using keep lock unfolding calls_keep_held_def by (metis snd_conv)
        obtain y3 where y3: "tracks ?p held r3 w3 [nat i] y3" using t3 [OF h3] by blast
        show ?thesis
        proof (cases "res \<noteq> 0 \<or> p = None")
          case True
          obtain r4 w4 where p4: "se_peer E r3 w3 = (r4, w4)" by fastforce
          from tracks_cancel [OF y3 p4 peer] show ?thesis
            using run init wr(2) drain p2 acq none False b Some lock True p4 by (auto simp: writer_beginFrame_def)
        next
          case ok: False
          obtain now w4 where clock: "we_clock W w3 = (now, w4)" by fastforce
          have "held w4 = held w2" using keep clock h3 unfolding calls_keep_held_def by (metis snd_conv)
          from t3 [OF this] have "\<exists>y. tracks ?p held r3 w4 [nat i] y" .
          moreover have "r' = r3" "w' = w4" "writer_frames wr' = [nat i]"
            using run init wr(2) drain p2 acq False b Some lock ok clock
            by (auto simp: writer_beginFrame_def writer_frames_def)
          ultimately show ?thesis by simp
        qed
      qed
    qed
  qed
qed

text \<open>HAL steps do not move the renderer's index.\<close>

lemma hal_step_writeIndex: "hal_step p y y' \<Longrightarrow> writeIndex (y_ring y') = writeIndex (y_ring y)"
proof -
  assume h: "hal_step p y y'"
  have short: "remove1 i xs \<noteq> xs" if "i \<in> set xs" for i :: nat and xs
    using that by (metis length_remove1 One_nat_def Suc_pred length_pos_if_in_set n_not_Suc_n)
  show ?thesis
    using h unfolding hal_step_def
    by (auto elim!: pool_stepE dest: short
        simp: tryReadRelease_def tryRead_def tryWriteRelease_def Let_def acquireFreeBuffer_def
        split: if_splits dest!: acquire_from_result)
qed

lemma hal_run_writeIndex: "(hal_step p)\<^sup>*\<^sup>* y y' \<Longrightarrow> writeIndex (y_ring y') = writeIndex (y_ring y)"
  by (induction rule: rtranclp_induct) (auto dest: hal_step_writeIndex)

lemma tracks_end:
  assumes run: "writer_endFrame E W wr r w = (wr', r', w')"
    and t: "tracks (w2_pool wr) held r w (writer_frames wr) y"
    and wr: "pool_ready (w2_pool wr)" "w2_lockedPtr wr \<noteq> None \<longrightarrow> 0 \<le> w2_currentBufferIndex wr"
    and ix: "writeIndex r \<noteq> - 1"
    and peer: "peer_is_hal (w2_pool wr) E held" and keep: "calls_keep_held W held"
  shows "\<exists>y'. tracks (w2_pool wr) held r' w' (writer_frames wr') y'"
    and "w2_pool wr' = w2_pool wr \<and> (w2_lockedPtr wr' \<noteq> None \<longrightarrow> 0 \<le> w2_currentBufferIndex wr')"
proof -
  let ?p = "w2_pool wr" and ?i = "w2_currentBufferIndex wr"
  show "w2_pool wr' = w2_pool wr \<and> (w2_lockedPtr wr' \<noteq> None \<longrightarrow> 0 \<le> w2_currentBufferIndex wr')"
    using run wr(2) by (auto simp: writer_endFrame_def Let_def split: if_splits prod.splits)
  show "\<exists>y'. tracks (w2_pool wr) held r' w' (writer_frames wr') y'"
  proof (cases "w2_lockedPtr wr = None")
    case True
    then show ?thesis using run t by (auto simp: writer_endFrame_def)
  next
    case False
    then have i: "0 \<le> ?i" and frames: "writer_frames wr = [nat ?i]" using wr(2) by (auto simp: writer_frames_def)
    let ?w1 = "we_unlock W (getBuffer ?i ?p) w"
    have t1: "tracks ?p held r ?w1 [nat ?i] y"
      using t frames keep by (simp add: tracks_def calls_keep_held_def)
    obtain r1 w2 where p1: "se_peer E r ?w1 = (r1, w2)" by fastforce
    let ?y2 = "y\<lparr>y_ring := r1, y_held := held w2\<rparr>"
    have t2: "tracks ?p held r1 w2 [nat ?i] ?y2" by (rule tracks_peer(1) [OF t1 p1 peer])
    have "writeIndex r1 = writeIndex r"
      using hal_run_writeIndex [OF tracks_peer(2) [OF t1 p1 peer]] t1 by (simp add: tracks_def)
    then have ix1: "writeIndex (y_ring ?y2) \<noteq> - 1" using ix by simp
    have in1: "nat ?i \<in> set (y_rendering ?y2)" using t2 by (simp add: tracks_def)
    obtain ok r2 where tw: "tryWrite (of_nat (nat ?i)) (-1) (w2_currentTimestampNs wr) (y_ring ?y2) = (ok, r2)"
      by fastforce
    have inv: "pool_inv ?p ?y2" using t2 wr(1) pool_run_inv by (auto simp: tracks_def)
    have ok: "ok" by (rule submit_keeps(1) [OF inv wr(1) in1 ix1 tw])
    from tracks_step [OF t2 pool_step.submit [OF in1 ix1 tw], of w2] t2
    have "\<exists>y'. tracks ?p held r2 w2 [] y'" using ok by (auto simp: tracks_def)
    moreover have "writer_frames wr' = []" "r' = r2" "w' = w2"
      using run False i p1 wr(1) tw ok
      by (auto simp: writer_endFrame_def writer_frames_def Let_def pool_ready_def split: if_splits prod.splits)
    ultimately show ?thesis by simp
  qed
qed

text \<open>
  What an application does with a writer: frames one after the other, polls of the
  negotiation, and pauses.
\<close>

inductive writer_move :: "'w shared_env \<Rightarrow> 'w writer_env \<Rightarrow> nat \<Rightarrow>
    writer_v2 \<times> control_ring \<times> 'w \<Rightarrow> writer_v2 \<times> control_ring \<times> 'w \<Rightarrow> bool" for E W fuel where
  begun: "w2_lockedPtr wr = None \<Longrightarrow> writer_beginFrame E W fuel wr r w = Inr (ptr, wr', r', w') \<Longrightarrow>
    writer_move E W fuel (wr, r, w) (wr', r', w')"
| finish: "writeIndex r \<noteq> - 1 \<Longrightarrow> writer_move E W fuel (wr, r, w) (writer_endFrame E W wr r w)"
| negotiate: "writer_move E W fuel (wr, r, w) (snd (writer_checkNegotiation r wr), r, w)"
| pause: "se_peer E r w = (r', w') \<Longrightarrow> writer_move E W fuel (wr, r, w) (wr, r', w')"

definition writer_sound :: "pool \<Rightarrow> ('w \<Rightarrow> nat list) \<Rightarrow> writer_v2 \<times> control_ring \<times> 'w \<Rightarrow> bool" where
  "writer_sound p held = (\<lambda>(wr, r, w). w2_pool wr = p \<and>
     (w2_lockedPtr wr \<noteq> None \<longrightarrow> 0 \<le> w2_currentBufferIndex wr) \<and> (\<exists>y. tracks p held r w (writer_frames wr) y))"

lemma writer_move_sound:
  assumes "writer_move E W fuel s s'" "writer_sound p held s"
    and p: "pool_ready p" "peer_is_hal p E held" "calls_keep_held W held"
  shows "writer_sound p held s'"
  using assms(1,2)
proof (cases rule: writer_move.cases)
  case (begun wr r w ptr wr' r' w')
  have "mMapped p" using p(1) by (simp add: pool_ready_def)
  then show ?thesis using begun assms(2) p tracks_begin [OF begun(4)] unfolding writer_sound_def
    by (auto simp: writer_frames_def)
next
  case (finish r wr w)
  obtain wr' r' w' where e: "writer_endFrame E W wr r w = (wr', r', w')" by (rule prod_cases3)
  show ?thesis using finish assms(2) p tracks_end [OF e] e unfolding writer_sound_def by auto
next
  case (negotiate wr r w)
  then show ?thesis using assms(2)
    by (auto simp: writer_sound_def writer_checkNegotiation_def writer_frames_def)
next
  case (pause r w r' w' wr)
  then show ?thesis using assms(2) tracks_peer(1) [OF _ pause(3) p(2)] by (auto simp: writer_sound_def)
qed

lemma writer_run_sound:
  assumes "(writer_move E W fuel)\<^sup>*\<^sup>* s s'" "writer_sound p held s"
    and "pool_ready p" "peer_is_hal p E held" "calls_keep_held W held"
  shows "writer_sound p held s'"
  using assms(1)
proof (induction rule: rtranclp_induct)
  case base
  then show ?case using assms(2) .
next
  case (step t u)
  then show ?case using writer_move_sound assms(3-5) by blast
qed


text \<open>A HAL that takes every frame it sees and keeps it; the world is what it holds.\<close>

definition taking_env :: "nat list shared_env" where
  "taking_env = \<lparr>se_peer = (\<lambda>r w. case tryRead r of
       (None, r') \<Rightarrow> (r', w) | (Some s, r') \<Rightarrow> (r', unat (rs_bufferIndex s) # w)),
     se_close = (\<lambda>_ w. w), se_sync_wait = (\<lambda>_ _ w. (0, w)), se_usleep = (\<lambda>_ w. w)\<rparr>"

definition taking_writer :: "nat list writer_env" where
  "taking_writer = \<lparr>we_hardware = ''qcom'', we_socket = (\<lambda>w. (8, w)), we_connect = (\<lambda>_ w. (0, w)),
     we_send = (\<lambda>_ h w. (True, w)), we_sendmsg = (\<lambda>_ g w. (1, w)), we_recv = (\<lambda>_ w. ((1, 1), w)),
     we_lock = (\<lambda>_ w. ((0, Some 4096), w)), we_unlock = (\<lambda>_ w. w), we_clock = (\<lambda>w. (7, w))\<rparr>"

definition ready_writer :: writer_v2 where
  "ready_writer = writer_v2_init\<lparr>w2_initialized := True,
     w2_pool := pool_init\<lparr>mMapped := True, mBufferCount := 2, mBuffers := [Some 51, Some 52, None, None]\<rparr>\<rparr>"

lemma taking_is_hal: "peer_is_hal p taking_env (\<lambda>w. w)"
proof -
  have "(hal_step p)\<^sup>*\<^sup>* y (y\<lparr>y_ring := fst (se_peer taking_env (y_ring y) (y_held y)),
      y_held := snd (se_peer taking_env (y_ring y) (y_held y))\<rparr>)" for y
  proof (cases "tryRead (y_ring y)")
    case (Pair s r)
    show ?thesis
    proof (cases s)
      case None
      then have "r = y_ring y" using Pair by (auto simp: tryRead_def Let_def split: if_splits)
      then show ?thesis using Pair None by (simp add: taking_env_def)
    next
      case (Some t)
      have "hal_step p y (y\<lparr>y_ring := r, y_held := unat (rs_bufferIndex t) # y_held y\<rparr>)"
        unfolding hal_step_def using pool_step.take [of y t r p] Pair Some by simp
      then show ?thesis using Pair Some by (simp add: taking_env_def)
    qed
  qed
  then show ?thesis unfolding peer_is_hal_def by metis
qed


text \<open>
  \<open>beginFrame\<close> does not ask whether a frame is begun already. A second one forgets the first
  buffer: it stays marked as taken, although nobody holds it, and it stays locked.
\<close>

definition still_env :: "unit shared_env" where
  "still_env = \<lparr>se_peer = (\<lambda>r w. (r, w)), se_close = (\<lambda>_ w. w), se_sync_wait = (\<lambda>_ _ w. (0, w)), se_usleep = (\<lambda>_ w. w)\<rparr>"

definition still_writer :: "unit writer_env" where
  "still_writer = \<lparr>we_hardware = ''qcom'', we_socket = (\<lambda>w. (8, w)), we_connect = (\<lambda>_ w. (0, w)),
     we_send = (\<lambda>_ h w. (True, w)), we_sendmsg = (\<lambda>_ g w. (1, w)), we_recv = (\<lambda>_ w. ((1, 1), w)),
     we_lock = (\<lambda>_ w. ((0, Some 4096), w)), we_unlock = (\<lambda>_ w. w), we_clock = (\<lambda>w. (7, w))\<rparr>"

theorem second_begin_loses_buffer:
  "case writer_beginFrame still_env still_writer 3 ready_writer new_ring () of Inl e \<Rightarrow> False
   | Inr (ptr, wr1, r1, w1) \<Rightarrow>
      (case writer_beginFrame still_env still_writer 3 wr1 r1 w1 of Inl e \<Rightarrow> False
       | Inr (ptr2, wr2, r2, w2) \<Rightarrow>
          let (wr3, r3, w3) = writer_endFrame still_env still_writer wr2 r2 w2 in
          bufferState r3 ! 0 = 1 \<and> w2_lockedPtr wr3 = None \<and>
          map rs_bufferIndex (map (\<lambda>i. slots r3 ! i) [unat (readIndex r3)..<unat (writeIndex r3)]) = [1])"
  by code_simp

end
