(* ===== verification/Frame_Writer_V1.thy ===== *)
theory Frame_Writer_V1
  imports Frame_Source_V1
begin

text \<open>
  The applications' end of the first transport, three classes that share one layout of memory:
  \<open>VirtualCameraWriter\<close> of \<open>unified-test/app/src/main/cpp/virtual_camera_writer.{h,cpp}\<close>,
  \<open>VirtualCameraWriter\<close> of \<open>renderer-lib/VirtualCameraWriter.{h,cpp}\<close>, and
  \<open>VirtualCameraClient\<close> of \<open>renderer-lib/VirtualCameraClient.{h,cpp}\<close>. Each maps a region, puts the
  header at its start and the pixels 4096 bytes behind, and writes frames there.
\<close>

section \<open>The shared region and the environment\<close>

record shm =
  shm_header :: frame_header
  shm_bytes :: bytes

text \<open>A region the kernel has just created or truncated is zero.\<close>

definition zero_shm :: shm where
  "zero_shm = \<lparr>shm_header = \<lparr>fh_magic = 0, fh_version = 0, fh_width = 0, fh_height = 0, fh_format = 0,
     fh_stride = 0, fh_frameNumber = 0, fh_timestamp = 0, fh_dataOffset = 0, fh_dataSize = 0, fh_flags = 0,
     fh_requestedFormat = 0, fh_requestedWidth = 0, fh_requestedHeight = 0\<rparr>, shm_bytes = (\<lambda>_. 0)\<rparr>"

text \<open>How a file is opened: as it is, created if missing, or created and truncated.\<close>

datatype open_mode = ReadWrite | Create | CreateTrunc

record 'w app_kernel =
  ak_open :: "open_mode \<Rightarrow> 'w \<Rightarrow> int \<times> 'w"
  ak_create :: "nat \<Rightarrow> 'w \<Rightarrow> int \<times> 'w"
  ak_ftruncate :: "int \<Rightarrow> nat \<Rightarrow> 'w \<Rightarrow> int \<times> 'w"
  ak_fstat :: "int \<Rightarrow> 'w \<Rightarrow> nat option \<times> 'w"
  ak_mmap :: "int \<Rightarrow> nat \<Rightarrow> 'w \<Rightarrow> bool \<times> 'w"
  ak_munmap :: "nat \<Rightarrow> 'w \<Rightarrow> 'w"
  ak_close :: "int \<Rightarrow> 'w \<Rightarrow> 'w"
  ak_socket :: "'w \<Rightarrow> int \<times> 'w"
  ak_connect :: "int \<Rightarrow> 'w \<Rightarrow> int \<times> 'w"
  ak_sendmsg :: "int \<Rightarrow> nat \<Rightarrow> int \<Rightarrow> 'w \<Rightarrow> int \<times> 'w"
  ak_usleep :: "int \<Rightarrow> 'w \<Rightarrow> 'w"
  ak_clock :: "'w \<Rightarrow> int \<times> 'w"

text \<open>
  The members the three classes have in common. \<open>sw_mapped\<close> and \<open>sw_header\<close> tell whether
  \<open>mMappedAddr\<close> and \<open>mHeader\<close> are not null; \<open>sw_frameData\<close> is the offset \<open>mFrameData\<close> points to.
\<close>

record shm_writer =
  sw_fd :: int
  sw_mapped :: bool
  sw_mappedSize :: nat
  sw_header :: bool
  sw_frameData :: "nat option"
  sw_width :: "32 word"
  sw_height :: "32 word"
  sw_frameNumber :: "64 word"

definition FLAG_NEW_FRAME :: "32 word" where "FLAG_NEW_FRAME = 1"

definition FORMAT_RGBA_8888 :: "32 word" where "FORMAT_RGBA_8888 = 1"

definition VCMF_VERSION :: "32 word" where "VCMF_VERSION = 1"

text \<open>The header's size, 64 bytes (56 in the library's shorter version), rounded up to 4096.\<close>

definition data_offset :: "64 word \<Rightarrow> 64 word" where
  "data_offset sizeof_header = and (sizeof_header + 4095) (not 4095)"

text \<open>The products are computed in 32 bits and only then widened.\<close>

definition rgba_size :: "32 word \<Rightarrow> 32 word \<Rightarrow> nat" where
  "rgba_size width height = unat (width * height * 4)"

definition init_header :: "32 word \<Rightarrow> 32 word \<Rightarrow> 64 word \<Rightarrow> frame_header \<Rightarrow> frame_header" where
  "init_header width height offset h = h\<lparr>fh_magic := VCMF_MAGIC, fh_version := VCMF_VERSION,
     fh_width := width, fh_height := height, fh_format := FORMAT_RGBA_8888, fh_stride := width * 4,
     fh_frameNumber := 0, fh_timestamp := 0, fh_dataOffset := ucast offset,
     fh_dataSize := of_nat (rgba_size width height), fh_flags := FLAG_RENDERER_ACTIVE\<rparr>"

text \<open>Bytes \<open>0\<close> to \<open>n - 1\<close> of \<open>data\<close>, copied to an offset of the region.\<close>

definition copy_in :: "nat \<Rightarrow> nat \<Rightarrow> bytes \<Rightarrow> shm \<Rightarrow> shm" where
  "copy_in offset n data m = m\<lparr>shm_bytes := (\<lambda>i. if int offset \<le> i \<and> i < int (offset + n)
     then data (i - int offset) else shm_bytes m i)\<rparr>"

text \<open>What \<open>initialize\<close> does with a new mapping: header, frame data pointer, black frame.\<close>

definition init_region :: "32 word \<Rightarrow> 32 word \<Rightarrow> 64 word \<Rightarrow> 'a shm_writer_scheme \<Rightarrow> shm \<Rightarrow> 'a shm_writer_scheme \<times> shm" where
  "init_region width height offset s m =
     (s\<lparr>sw_mapped := True, sw_header := True, sw_frameData := Some (unat offset)\<rparr>,
      copy_in (unat offset) (rgba_size width height) (\<lambda>_. 0)
        (m\<lparr>shm_header := init_header width height offset (shm_header m)\<rparr>))"

text \<open>
  The \<open>shutdown\<close> of all three classes. \<open>OutOfBounds\<close> is the access to the header after its
  mapping is gone.
\<close>

definition sw_shutdown :: "'w app_kernel \<Rightarrow> 'a shm_writer_scheme \<Rightarrow> shm \<Rightarrow> 'w \<Rightarrow>
    ('a shm_writer_scheme \<times> shm \<times> 'w) outcome" where
  "sw_shutdown K s m w =
     (if sw_header s \<and> \<not> sw_mapped s then Inl OutOfBounds
      else
        let m1 = (if sw_header s then m\<lparr>shm_header := (shm_header m)\<lparr>fh_flags :=
                and (fh_flags (shm_header m)) (not FLAG_RENDERER_ACTIVE)\<rparr>\<rparr> else m);
            (s1, w1) = (if sw_mapped s
              then (s\<lparr>sw_mapped := False, sw_header := False, sw_frameData := None\<rparr>,
                    ak_munmap K (sw_mappedSize s) w) else (s, w));
            (s2, w2) = (if 0 \<le> sw_fd s1 then (s1\<lparr>sw_fd := -1\<rparr>, ak_close K (sw_fd s1) w1) else (s1, w1)) in
        Inr (s2\<lparr>sw_width := 0, sw_height := 0, sw_mappedSize := 0\<rparr>, m1, w2))"

text \<open>The message with the size of the region and its descriptor.\<close>

definition send_region :: "'w app_kernel \<Rightarrow> int \<Rightarrow> nat \<Rightarrow> int \<Rightarrow> 'w \<Rightarrow> bool \<times> 'w" where
  "send_region K sock sz fd w =
     (let (n, w1) = ak_sendmsg K sock sz fd w; w2 = ak_close K sock w1 in (\<not> n < 0, w2))"

section \<open>The writer of the unified test application\<close>

record writer_v1 = shm_writer +
  sw_format :: "32 word"

definition writer_v1_init :: writer_v1 where
  "writer_v1_init = \<lparr>sw_fd = -1, sw_mapped = False, sw_mappedSize = 0, sw_header = False, sw_frameData = None,
     sw_width = 0, sw_height = 0, sw_frameNumber = 0, sw_format = FORMAT_RGBA_8888\<rparr>"

definition sendFdToHal :: "'w app_kernel \<Rightarrow> writer_v1 \<Rightarrow> 'w \<Rightarrow> bool \<times> 'w" where
  "sendFdToHal K s w =
     (let (sock, w1) = ak_socket K w in
      if sock < 0 then (False, w1)
      else
        let (c, w2) = ak_connect K sock w1 in
        if c < 0 then (False, ak_close K sock w2) else send_region K sock (sw_mappedSize s) (sw_fd s) w2)"

definition open_file :: "'w app_kernel \<Rightarrow> 'w \<Rightarrow> int \<times> 'w" where
  "open_file K w =
     (let (fd, w1) = ak_open K ReadWrite w in if fd < 0 then ak_open K Create w1 else (fd, w1))"

text \<open>Whether the file has the size, by \<open>ftruncate\<close> or already.\<close>

definition size_file :: "'w app_kernel \<Rightarrow> int \<Rightarrow> nat \<Rightarrow> 'w \<Rightarrow> bool \<times> 'w" where
  "size_file K fd sz w =
     (let (t, w1) = ak_ftruncate K fd sz w in
      if t < 0 then let (st, w2) = ak_fstat K fd w1 in
        (case st of None \<Rightarrow> (False, w2) | Some n \<Rightarrow> (sz \<le> n, w2))
      else (True, w1))"

text \<open>The memory \<open>m\<close> is what the file holds before.\<close>

definition uw_initialize :: "'w app_kernel \<Rightarrow> 32 word \<Rightarrow> 32 word \<Rightarrow> writer_v1 \<Rightarrow> shm \<Rightarrow> 'w \<Rightarrow>
    bool \<times> writer_v1 \<times> shm \<times> 'w" where
  "uw_initialize K width height s m w =
     (if sw_mapped s then (False, s, m, w)
      else
        let offset = data_offset 64;
            s1 = s\<lparr>sw_width := width, sw_height := height,
                   sw_mappedSize := unat offset + rgba_size width height\<rparr>;
            (fd, w1) = open_file K w in
        if fd < 0 then (False, s1\<lparr>sw_fd := fd\<rparr>, m, w1)
        else
          let (sized, w2) = size_file K fd (sw_mappedSize s1) w1 in
          if \<not> sized then (False, s1\<lparr>sw_fd := -1\<rparr>, m, ak_close K fd w2)
          else
            let (mapped, w3) = ak_mmap K fd (sw_mappedSize s1) w2 in
            if \<not> mapped then (False, s1\<lparr>sw_fd := -1\<rparr>, m, ak_close K fd w3)
            else
              let (s2, m1) = init_region width height offset (s1\<lparr>sw_fd := fd\<rparr>) m;
                  (sent, w4) = sendFdToHal K s2 w3 in
              (True, s2, m1, w4))"

definition getRequestedFormat :: "writer_v1 \<Rightarrow> shm \<Rightarrow> 32 word" where
  "getRequestedFormat s m = (if \<not> sw_header s then 0 else fh_requestedFormat (shm_header m))"

definition format_size :: "32 word \<Rightarrow> 32 word \<Rightarrow> 32 word \<Rightarrow> nat" where
  "format_size format width height = (if format = FORMAT_YUV_420 then unat (width * height * 3 div 2)
     else unat (width * height * 4))"

definition setOutputFormat :: "32 word \<Rightarrow> writer_v1 \<Rightarrow> shm \<Rightarrow> writer_v1 \<times> shm" where
  "setOutputFormat format s m =
     (s\<lparr>sw_format := format\<rparr>,
      if sw_header s then m\<lparr>shm_header := (shm_header m)\<lparr>fh_format := format,
        fh_dataSize := of_nat (format_size format (sw_width s) (sw_height s)), fh_stride := sw_width s\<rparr>\<rparr>
      else m)"

text \<open>\<open>OutOfBounds\<close> is a copy that leaves the mapping.\<close>

definition uw_writeFrame :: "'w app_kernel \<Rightarrow> bytes \<Rightarrow> nat \<Rightarrow> writer_v1 \<Rightarrow> shm \<Rightarrow> 'w \<Rightarrow>
    (writer_v1 \<times> shm \<times> 'w) outcome" where
  "uw_writeFrame K data n s m w = (case sw_frameData s of
       None \<Rightarrow> Inr (s, m, w)
     | Some offset \<Rightarrow>
         if \<not> sw_header s then Inr (s, m, w)
         else if n \<noteq> format_size (sw_format s) (sw_width s) (sw_height s) then Inr (s, m, w)
         else if sw_mappedSize s < offset + n then Inl OutOfBounds
         else
           let m1 = copy_in offset n data m; (ns, w1) = ak_clock K w; k = sw_frameNumber s + 1 in
           Inr (s\<lparr>sw_frameNumber := k\<rparr>,
             m1\<lparr>shm_header := (shm_header m1)\<lparr>fh_frameNumber := k, fh_timestamp := word_of_int ns,
               fh_flags := or (fh_flags (shm_header m1)) FLAG_NEW_FRAME\<rparr>\<rparr>, w1))"

section \<open>The writer of the renderer library\<close>

definition lw_initialize :: "'w app_kernel \<Rightarrow> 32 word \<Rightarrow> 32 word \<Rightarrow> shm_writer \<Rightarrow> shm \<Rightarrow> 'w \<Rightarrow>
    bool \<times> shm_writer \<times> shm \<times> 'w" where
  "lw_initialize K width height s m w =
     (if sw_mapped s then (False, s, m, w)
      else
        let offset = data_offset 56;
            s1 = s\<lparr>sw_width := width, sw_height := height,
                   sw_mappedSize := unat offset + rgba_size width height\<rparr>;
            (fd, w1) = ak_open K CreateTrunc w in
        if fd < 0 then (False, s1\<lparr>sw_fd := fd\<rparr>, m, w1)
        else
          let (t, w2) = ak_ftruncate K fd (sw_mappedSize s1) w1 in
          if t < 0 then (False, s1\<lparr>sw_fd := -1\<rparr>, zero_shm, ak_close K fd w2)
          else
            let (mapped, w3) = ak_mmap K fd (sw_mappedSize s1) w2 in
            if \<not> mapped then (False, s1\<lparr>sw_fd := -1\<rparr>, zero_shm, ak_close K fd w3)
            else let (s2, m1) = init_region width height offset (s1\<lparr>sw_fd := fd\<rparr>) zero_shm in
              (True, s2, m1, w3))"

definition lw_beginFrame :: "shm_writer \<Rightarrow> nat option" where
  "lw_beginFrame s = sw_frameData s"

definition getBufferSize :: "shm_writer \<Rightarrow> nat" where
  "getBufferSize s = rgba_size (sw_width s) (sw_height s)"

definition lw_endFrame :: "'w app_kernel \<Rightarrow> shm_writer \<Rightarrow> shm \<Rightarrow> 'w \<Rightarrow> shm_writer \<times> shm \<times> 'w" where
  "lw_endFrame K s m w =
     (if \<not> sw_header s then (s, m, w)
      else
        let (ns, w1) = ak_clock K w; k = sw_frameNumber s + 1 in
        (s\<lparr>sw_frameNumber := k\<rparr>,
         m\<lparr>shm_header := (shm_header m)\<lparr>fh_frameNumber := k, fh_timestamp := word_of_int ns,
           fh_flags := or (fh_flags (shm_header m)) FLAG_NEW_FRAME\<rparr>\<rparr>, w1))"

section \<open>The client of the renderer library\<close>

record client = shm_writer +
  cl_connected :: bool

definition client_init :: client where
  "client_init = \<lparr>sw_fd = -1, sw_mapped = False, sw_mappedSize = 0, sw_header = False, sw_frameData = None,
     sw_width = 0, sw_height = 0, sw_frameNumber = 0, cl_connected = False\<rparr>"

definition createSharedMemory :: "'w app_kernel \<Rightarrow> client \<Rightarrow> shm \<Rightarrow> 'w \<Rightarrow> bool \<times> client \<times> shm \<times> 'w" where
  "createSharedMemory K s m w =
     (let offset = data_offset 56;
          s1 = s\<lparr>sw_mappedSize := unat offset + rgba_size (sw_width s) (sw_height s)\<rparr>;
          (fd, w1) = ak_create K (sw_mappedSize s1) w in
      if fd < 0 then (False, s1\<lparr>sw_fd := fd\<rparr>, m, w1)
      else
        let (mapped, w2) = ak_mmap K fd (sw_mappedSize s1) w1 in
        if \<not> mapped then (False, s1\<lparr>sw_fd := -1\<rparr>, m, ak_close K fd w2)
        else let (s2, m1) = init_region (sw_width s) (sw_height s) offset (s1\<lparr>sw_fd := fd\<rparr>) zero_shm in
          (True, s2, m1, w2))"

text \<open>The attempts left; the last one that fails closes the socket.\<close>

fun connect_loop :: "'w app_kernel \<Rightarrow> int \<Rightarrow> nat \<Rightarrow> 'w \<Rightarrow> bool \<times> 'w" where
  "connect_loop K sock 0 w = (True, w)"
| "connect_loop K sock (Suc n) w =
     (let (c, w1) = ak_connect K sock w in
      if c = 0 then (True, w1)
      else if n = 0 then (False, ak_close K sock w1)
      else connect_loop K sock n (ak_usleep K 500000 w1))"

definition client_connect :: "'w app_kernel \<Rightarrow> client \<Rightarrow> 'w \<Rightarrow> bool \<times> 'w" where
  "client_connect K s w =
     (let (sock, w1) = ak_socket K w in
      if sock < 0 then (False, w1)
      else
        let (ok, w2) = connect_loop K sock 10 w1 in
        if \<not> ok then (False, w2) else send_region K sock (sw_mappedSize s) (sw_fd s) w2)"

definition client_initialize :: "'w app_kernel \<Rightarrow> 32 word \<Rightarrow> 32 word \<Rightarrow> client \<Rightarrow> shm \<Rightarrow> 'w \<Rightarrow>
    bool \<times> client \<times> shm \<times> 'w" where
  "client_initialize K width height s m w =
     (if sw_mapped s then (False, s, m, w)
      else
        let (created, s1, m1, w1) = createSharedMemory K (s\<lparr>sw_width := width, sw_height := height\<rparr>) m w in
        if \<not> created then (False, s1, m1, w1)
        else
          let (connected, w2) = client_connect K s1 w1 in
          if \<not> connected
          then (False, s1\<lparr>sw_mapped := False, sw_fd := -1\<rparr>, m1,
                ak_close K (sw_fd s1) (ak_munmap K (sw_mappedSize s1) w2))
          else (True, s1\<lparr>cl_connected := True\<rparr>, m1, w2))"

definition client_shutdown :: "'w app_kernel \<Rightarrow> client \<Rightarrow> shm \<Rightarrow> 'w \<Rightarrow> (client \<times> shm \<times> 'w) outcome" where
  "client_shutdown K s m w = (case sw_shutdown K s m w of
       Inl e \<Rightarrow> Inl e
     | Inr (s1, m1, w1) \<Rightarrow> Inr (s1\<lparr>cl_connected := False\<rparr>, m1, w1))"

definition client_writeFrame :: "'w app_kernel \<Rightarrow> bytes \<Rightarrow> nat \<Rightarrow> client \<Rightarrow> shm \<Rightarrow> 'w \<Rightarrow>
    (client \<times> shm \<times> 'w) outcome" where
  "client_writeFrame K data n s m w = (case sw_frameData s of
       None \<Rightarrow> Inr (s, m, w)
     | Some offset \<Rightarrow>
         if \<not> sw_header s then Inr (s, m, w)
         else if n \<noteq> rgba_size (sw_width s) (sw_height s) then Inr (s, m, w)
         else if \<not> sw_mapped s \<or> sw_mappedSize s < offset + n then Inl OutOfBounds
         else
           let m1 = copy_in offset n data m; (ns, w1) = ak_clock K w; k = sw_frameNumber s + 1 in
           Inr (s\<lparr>sw_frameNumber := k\<rparr>,
             m1\<lparr>shm_header := (shm_header m1)\<lparr>fh_frameNumber := k, fh_timestamp := word_of_int ns\<rparr>\<rparr>, w1))"

section \<open>A written frame reaches the HAL\<close>

text \<open>The frame source reads the region the writer writes.\<close>

definition sees :: "'v kernel \<Rightarrow> shm \<Rightarrow> 'v \<Rightarrow> bool" where
  "sees Q m v \<longleftrightarrow> k_header Q v = shm_header m \<and> k_bytes Q v = shm_bytes m"

text \<open>Header and pixels start where both sides expect them.\<close>

lemma data_offset_4096 [simp]: "data_offset 64 = 4096" "data_offset 56 = 4096"
  by (simp_all add: data_offset_def)

definition fits :: "32 word \<Rightarrow> 32 word \<Rightarrow> bool" where
  "fits wd hg \<longleftrightarrow> unat wd * unat hg * 4 < 2 ^ 32"

lemma fits_sizes:
  assumes "fits wd hg"
  shows "unat (wd * hg * 4) = unat wd * unat hg * 4" "unat (wd * hg * 3) = unat wd * unat hg * 3"
proof -
  have "unat wd * unat hg < 2 ^ 32" using assms unfolding fits_def by linarith
  moreover have three: "unat wd * unat hg * 3 < 2 ^ 32" using assms unfolding fits_def by linarith
  ultimately have "unat (wd * hg) = unat wd * unat hg" by (simp add: unat_word_ariths)
  then show "unat (wd * hg * 4) = unat wd * unat hg * 4" "unat (wd * hg * 3) = unat wd * unat hg * 3"
    using assms three by (simp_all add: unat_word_ariths fits_def)
qed

lemma format_size_fits: "fits wd hg \<Longrightarrow> format_size fm wd hg \<le> rgba_size wd hg"
  unfolding format_size_def rgba_size_def by (auto simp: fits_sizes unat_div intro: div_le_dividend le_trans)

lemma format_size_word: "unat (of_nat (format_size fm wd hg) :: 32 word) = format_size fm wd hg"
  by (simp add: format_size_def)

text \<open>The state of a writer between \<open>initialize\<close> and \<open>shutdown\<close>, and what it keeps in the region.\<close>

definition writing :: "writer_v1 \<Rightarrow> shm \<Rightarrow> bool" where
  "writing s m \<longleftrightarrow> sw_mapped s \<and> sw_header s \<and> sw_frameData s = Some 4096 \<and>
     sw_mappedSize s = 4096 + rgba_size (sw_width s) (sw_height s) \<and>
     fh_magic (shm_header m) = VCMF_MAGIC \<and> fh_width (shm_header m) = sw_width s \<and>
     fh_height (shm_header m) = sw_height s \<and> fh_dataOffset (shm_header m) = 4096 \<and>
     renderer_flag (shm_header m)"

lemma initialize_writing:
  assumes "uw_initialize K wd hg s m w = (True, s', m', w')"
  shows "writing s' m' \<and> sw_width s' = wd \<and> sw_height s' = hg \<and> sw_format s' = sw_format s \<and>
    fh_format (shm_header m') = FORMAT_RGBA_8888 \<and> unat (fh_dataSize (shm_header m')) = rgba_size wd hg \<and>
    fh_stride (shm_header m') = wd * 4"
  using assms
  by (auto simp: uw_initialize_def init_region_def init_header_def copy_in_def writing_def renderer_flag_def
      FLAG_RENDERER_ACTIVE_def rgba_size_def Let_def split: prod.splits if_splits)

lemma setOutputFormat_writing:
  assumes "writing s m" "setOutputFormat fm s m = (s', m')"
  shows "writing s' m' \<and> sw_width s' = sw_width s \<and> sw_height s' = sw_height s \<and> sw_mappedSize s' = sw_mappedSize s \<and>
    sw_format s' = fm \<and> unat (fh_dataSize (shm_header m')) = format_size fm (sw_width s) (sw_height s)"
  using assms by (auto simp: setOutputFormat_def writing_def renderer_flag_def format_size_word)

lemma or_keeps_flag: "and (or x FLAG_NEW_FRAME) FLAG_RENDERER_ACTIVE = and x FLAG_RENDERER_ACTIVE"
  unfolding FLAG_NEW_FRAME_def FLAG_RENDERER_ACTIVE_def
  by (rule bit_word_eqI) (auto simp: bit_simps)

text \<open>A frame of the expected size is accepted and then lies in the region.\<close>

lemma write_effect:
  assumes s: "writing s m" "fits (sw_width s) (sw_height s)"
    and n: "n = format_size (sw_format s) (sw_width s) (sw_height s)"
  obtains s' m' w' where "uw_writeFrame K data n s m w = Inr (s', m', w')" "writing s' m'"
    "fh_dataSize (shm_header m') = fh_dataSize (shm_header m)" "sw_width s' = sw_width s" "sw_height s' = sw_height s"
    "\<And>i. 0 \<le> i \<Longrightarrow> i < int n \<Longrightarrow> shm_bytes m' (4096 + i) = data i"
    "fh_frameNumber (shm_header m') = sw_frameNumber s + 1"
proof -
  obtain ns v where clock: "ak_clock K w = (ns, v)" by fastforce
  have room: "\<not> sw_mappedSize s < 4096 + n"
    using s n format_size_fits [OF s(2), of "sw_format s"] by (simp add: writing_def)
  show thesis
  proof (rule that)
    show "uw_writeFrame K data n s m w = Inr (s\<lparr>sw_frameNumber := sw_frameNumber s + 1\<rparr>,
        (copy_in 4096 n data m)\<lparr>shm_header := (shm_header m)\<lparr>fh_frameNumber := sw_frameNumber s + 1,
          fh_timestamp := word_of_int ns, fh_flags := or (fh_flags (shm_header m)) FLAG_NEW_FRAME\<rparr>\<rparr>, v)"
      using s(1) n room clock by (simp add: uw_writeFrame_def writing_def copy_in_def Let_def)
  qed (use s(1) in \<open>simp_all add: writing_def copy_in_def renderer_flag_def or_keeps_flag\<close>)
qed

text \<open>The source that maps the region of a writer finds its frames there.\<close>

lemma received_region:
  assumes "writing s m" "unmapSharedMemory Q src v = (src0, v0)" "k_mmap Q fd (sw_mappedSize s) v0 = (True, v1)"
    and "sees Q m v1" "onFdReceived Q fd (sw_mappedSize s) src v = (src1, v2)"
    and "0 < rgba_size (sw_width s) (sw_height s)"
  shows "mMappedSize src1 = Some (sw_mappedSize s) \<and> mFrameData src1 = Some 4096"
  using assms by (auto simp: onFdReceived_def mapSharedMemory_def sees_def writing_def Let_def)


section \<open>Where the writers go wrong\<close>

text \<open>
  The sizes are 32-bit products. For 32768 by 32768 pixels \<open>initialize\<close> maps the header page
  alone, and a frame of the size \<open>writeFrame\<close> then expects runs past the mapping.
\<close>

theorem wrapped_size_overruns:
  assumes "uw_initialize K 32768 32768 s m w = (True, s1, m1, w1)" "setOutputFormat FORMAT_YUV_420 s1 m1 = (s2, m2)"
  shows "sw_mappedSize s1 = 4096 \<and> uw_writeFrame K data 1610612736 s2 m2 w2 = Inl OutOfBounds"
proof -
  have "writing s1 m1" "sw_width s1 = 32768" "sw_height s1 = 32768" using initialize_writing [OF assms(1)] by auto
  then show ?thesis
    using assms(2) by (auto simp: writing_def setOutputFormat_def uw_writeFrame_def rgba_size_def format_size_def)
qed

text \<open>
  The format chosen with \<open>setOutputFormat\<close> outlives \<open>shutdown\<close>, but the next \<open>initialize\<close>
  announces RGBA: the writer then accepts only frames of the size of the old format, and the
  header promises more bytes than it writes.
\<close>

theorem format_outlives_shutdown:
  assumes "setOutputFormat FORMAT_YUV_420 s0 m0 = (s1, m1)" "sw_shutdown K s1 m1 w = Inr (s2, m2, w2)"
    and "uw_initialize K 640 480 s2 m2 w2 = (True, s3, m3, w3)"
  shows "fh_format (shm_header m3) = FORMAT_RGBA_8888 \<and> unat (fh_dataSize (shm_header m3)) = 1228800 \<and>
    uw_writeFrame K data 1228800 s3 m3 w4 = Inr (s3, m3, w4) \<and>
    (\<exists>s5 m5 w5. uw_writeFrame K data 460800 s3 m3 w4 = Inr (s5, m5, w5) \<and>
      fh_frameNumber (shm_header m5) = sw_frameNumber s3 + 1)"
proof -
  have "sw_format s2 = FORMAT_YUV_420"
    using assms(1,2) by (auto simp: setOutputFormat_def sw_shutdown_def Let_def split: if_splits prod.splits)
  then have s3: "writing s3 m3" "sw_width s3 = 640" "sw_height s3 = 480" "sw_format s3 = FORMAT_YUV_420"
      "fh_format (shm_header m3) = FORMAT_RGBA_8888" "unat (fh_dataSize (shm_header m3)) = rgba_size 640 480"
    using initialize_writing [OF assms(3)] by auto
  have n: "460800 = format_size (sw_format s3) (sw_width s3) (sw_height s3)" and "fits (sw_width s3) (sw_height s3)"
    using s3 by (simp_all add: format_size_def fits_def)
  from write_effect [OF s3(1) this(2,1)] have "\<exists>s5 m5 w5. uw_writeFrame K data 460800 s3 m3 w4 = Inr (s5, m5, w5) \<and>
      fh_frameNumber (shm_header m5) = sw_frameNumber s3 + 1" by metis
  moreover have "uw_writeFrame K data 1228800 s3 m3 w4 = Inr (s3, m3, w4)"
    using s3 by (simp add: uw_writeFrame_def writing_def format_size_def)
  ultimately show ?thesis using s3 by (simp add: rgba_size_def)
qed

text \<open>
  When the client cannot reach the HAL, \<open>initialize\<close> unmaps its region but keeps the pointers into
  it: the next \<open>shutdown\<close>, which the destructor calls too, writes to the unmapped header.
\<close>

theorem failed_connect_leaves_dangling:
  assumes "\<not> sw_mapped s" "createSharedMemory K (s\<lparr>sw_width := wd, sw_height := hg\<rparr>) m w = (True, s1, m1, w1)"
    and "client_connect K s1 w1 = (False, w2)"
  shows "\<exists>s' m' w'. client_initialize K wd hg s m w = (False, s', m', w') \<and>
    client_shutdown K s' m' w' = Inl OutOfBounds"
proof -
  have "sw_header s1"
    using assms(2) by (auto simp: createSharedMemory_def init_region_def Let_def split: if_splits prod.splits)
  then show ?thesis using assms by (simp add: client_initialize_def client_shutdown_def sw_shutdown_def)
qed

text \<open>\<open>initialize\<close> counts the stride in bytes, \<open>setOutputFormat\<close> in pixels, also for RGBA.\<close>

theorem stride_units_differ:
  assumes "uw_initialize K 640 480 s m w = (True, s1, m1, w1)" "setOutputFormat FORMAT_RGBA_8888 s1 m1 = (s2, m2)"
  shows "fh_format (shm_header m2) = fh_format (shm_header m1) \<and> fh_stride (shm_header m1) = 2560 \<and>
    fh_stride (shm_header m2) = 640"
  using assms initialize_writing [OF assms(1)] by (auto simp: setOutputFormat_def writing_def)

text \<open>An application whose calls succeed, and a HAL whose world is the region itself.\<close>

definition demo_app :: "unit app_kernel" where
  "demo_app = \<lparr>ak_open = (\<lambda>_ w. (10, w)), ak_create = (\<lambda>_ w. (11, w)), ak_ftruncate = (\<lambda>_ _ w. (0, w)),
     ak_fstat = (\<lambda>_ w. (None, w)), ak_mmap = (\<lambda>_ _ w. (True, w)), ak_munmap = (\<lambda>_ w. w), ak_close = (\<lambda>_ w. w),
     ak_socket = (\<lambda>w. (12, w)), ak_connect = (\<lambda>_ w. (-1, w)), ak_sendmsg = (\<lambda>_ _ _ w. (8, w)),
     ak_usleep = (\<lambda>_ w. w), ak_clock = (\<lambda>w. (99, w))\<rparr>"

definition region_kernel :: "shm kernel" where
  "region_kernel = \<lparr>k_socket = (\<lambda>w. (3, w)), k_unlink = (\<lambda>w. w), k_bind = (\<lambda>_ w. (0, w)), k_chmod = (\<lambda>w. w),
     k_listen = (\<lambda>_ w. (0, w)), k_shutdown = (\<lambda>_ w. w), k_accept = (\<lambda>_ w. (4, w)),
     k_recvmsg = (\<lambda>_ w. ((8, 4112, Some (True, 30)), w)), k_close = (\<lambda>_ w. w), k_mmap = (\<lambda>_ _ w. (True, w)),
     k_munmap = (\<lambda>_ w. w), k_header = shm_header, k_bytes = shm_bytes, k_store = (\<lambda>h w. w\<lparr>shm_header := h\<rparr>)\<rparr>"


lemma wrapped_size_overruns_witness:
  "\<exists>s1 m1 s2 m2. uw_initialize demo_app 32768 32768 writer_v1_init zero_shm () = (True, s1, m1, ()) \<and>
     setOutputFormat FORMAT_YUV_420 s1 m1 = (s2, m2) \<and>
     uw_writeFrame demo_app (\<lambda>_. 0) 1610612736 s2 m2 () = Inl OutOfBounds"
proof -
  obtain s1 m1 where init: "uw_initialize demo_app 32768 32768 writer_v1_init zero_shm () = (True, s1, m1, ())"
    by (simp add: uw_initialize_def writer_v1_init_def demo_app_def open_file_def size_file_def init_region_def)
  obtain s2 m2 where fmt: "setOutputFormat FORMAT_YUV_420 s1 m1 = (s2, m2)" by fastforce
  show ?thesis using wrapped_size_overruns [OF init fmt] init fmt by blast
qed

lemma failed_connect_leaves_dangling_witness:
  "\<exists>s' m' w'. client_initialize demo_app 2 2 client_init zero_shm () = (False, s', m', w') \<and>
     client_shutdown demo_app s' m' w' = Inl OutOfBounds"
proof -
  obtain s1 m1 where create: "createSharedMemory demo_app (client_init\<lparr>sw_width := 2, sw_height := 2\<rparr>) zero_shm () =
      (True, s1, m1, ())"
    by (simp add: createSharedMemory_def demo_app_def init_region_def)
  have "client_connect demo_app s1 () = (False, ())"
    by (simp add: client_connect_def demo_app_def eval_nat_numeral)
  then show ?thesis using failed_connect_leaves_dangling [OF _ create] by (simp add: client_init_def)
qed

end
