(* ===== verification/Pair_Lists.thy ===== *)
theory Pair_Lists
  imports Main "HOL-Library.AList" "HOL-Library.Multiset"
begin

text \<open>
  The unordered maps of the code as lists of pairs with distinct keys: what inserting a new key
  and erasing a key do to the list and to the multiset of the values.
\<close>

lemma new_key_update: "k \<notin> set (map fst xs) \<Longrightarrow> AList.update k x xs = xs @ [(k, x)]"
  by (induction xs) auto

lemma map_of_value: "map_of xs k = Some x \<Longrightarrow> x \<in># mset (map snd xs)"
  by (auto dest!: map_of_SomeD intro!: rev_image_eqI)

lemma no_key_delete: "k \<notin> set (map fst xs) \<Longrightarrow> AList.delete k xs = xs"
  by (induction xs) auto

lemma delete_value:
  "distinct (map fst xs) \<Longrightarrow> map_of xs k = Some x \<Longrightarrow>
   mset (map snd xs) = add_mset x (mset (map snd (AList.delete k xs)))"
proof (induction xs)
  case Nil
  then show ?case by simp
next
  case (Cons p xs)
  obtain j y where p: "p = (j, y)" by fastforce
  show ?case
  proof (cases "j = k")
    case True
    then have "k \<notin> set (map fst xs)" using Cons.prems(1) p by simp
    then have "AList.delete k xs = xs" by (rule no_key_delete)
    then show ?thesis using True Cons.prems(2) p by simp
  next
    case False
    then show ?thesis using Cons p by simp
  qed
qed

lemma mset_delete_key:
  "distinct (map fst xs) \<Longrightarrow> map_of xs k = Some x \<Longrightarrow>
   mset (map snd (AList.delete k xs)) = mset (map snd xs) - {#x#}"
  using delete_value [of xs k x] by simp

lemma no_key: "map_of xs k = None \<Longrightarrow> k \<notin> set (map fst xs)"
  by (simp add: map_of_eq_None_iff)

end
