(* ===== verification/Virtual_Mic.thy ===== *)
theory Virtual_Mic
  imports Interfaces Pair_Lists Complex_Main
begin

text \<open>
  \<open>virtual-mic/hal/VirtualMicModule.{h,cpp}\<close> and \<open>VirtualMicStreamIn.{h,cpp}\<close>: the audio module
  with one virtual microphone, its ports, patches and port configurations, the ring into which
  a renderer writes samples, and the input stream. Methods that only refuse or answer a
  constant are grouped at the end.
\<close>

section \<open>State\<close>

datatype mic_status = MicOk | UnsupportedOperation | IllegalArgument

datatype port_ext = DeviceExt string | MixExt int

datatype channel_layout = Mono | Stereo

record audio_port =
  ap_id :: int
  ap_name :: string
  ap_flags :: int
  ap_sampleRates :: "int list"
  ap_channelMasks :: "channel_layout list"
  ap_ext :: port_ext

text \<open>What a patch or a configuration holds besides its id is the framework's.\<close>

record 'c identified =
  id_id :: int
  id_rest :: 'c

record audio_route =
  ar_sinkPortId :: int
  ar_sourcePortIds :: "int list"
  ar_isExclusive :: bool

definition kRingBufferSizeBytes :: nat where "kRingBufferSizeBytes = 48000 * 2 * 2 * 1"

text \<open>The maps are lists of pairs; the order in which an unordered map is listed is not specified.\<close>

record 'c mic_module =
  mNextPortId :: int
  mNextPortConfigId :: int
  mNextPatchId :: int
  mPorts :: "(int \<times> audio_port) list"
  mPortConfigs :: "(int \<times> 'c identified) list"
  mPatches :: "(int \<times> 'c identified) list"
  mStreamActive :: bool
  mMicMute :: bool
  mRingBuffer :: "8 word list"
  mRingBufferWritePos :: nat
  mRingBufferReadPos :: nat

section \<open>Ports\<close>

definition mic_rates :: "int list" where "mic_rates = [48000, 44100, 16000]"

definition createVirtualMicPort :: "'c mic_module \<Rightarrow> audio_port \<times> 'c mic_module" where
  "createVirtualMicPort m =
     (\<lparr>ap_id = mNextPortId m, ap_name = ''Virtual Microphone'', ap_flags = 0, ap_sampleRates = mic_rates,
       ap_channelMasks = [Mono, Stereo], ap_ext = DeviceExt ''virtual_mic_0''\<rparr>,
      m\<lparr>mNextPortId := mNextPortId m + 1\<rparr>)"

text \<open>The flags of the mix port are constants of the audio interfaces.\<close>

definition initializePorts :: "int \<Rightarrow> 'c mic_module \<Rightarrow> 'c mic_module" where
  "initializePorts mixFlags m =
     (let (micPort, m1) = createVirtualMicPort m;
          m2 = m1\<lparr>mPorts := AList.update (ap_id micPort) micPort (mPorts m1)\<rparr>;
          mixPort = \<lparr>ap_id = mNextPortId m2, ap_name = ''virtual_mic_input'', ap_flags = mixFlags,
            ap_sampleRates = mic_rates, ap_channelMasks = [Mono, Stereo], ap_ext = MixExt 1\<rparr> in
      m2\<lparr>mNextPortId := mNextPortId m2 + 1, mPorts := AList.update (ap_id mixPort) mixPort (mPorts m2)\<rparr>)"

definition mic_module_create :: "int \<Rightarrow> 'c mic_module" where
  "mic_module_create mixFlags = initializePorts mixFlags
     \<lparr>mNextPortId = 1, mNextPortConfigId = 1, mNextPatchId = 1, mPorts = [], mPortConfigs = [], mPatches = [],
      mStreamActive = False, mMicMute = False, mRingBuffer = replicate kRingBufferSizeBytes 0,
      mRingBufferWritePos = 0, mRingBufferReadPos = 0\<rparr>"

definition getAudioPort :: "int \<Rightarrow> 'c mic_module \<Rightarrow> mic_status \<times> audio_port option" where
  "getAudioPort portId m = (case map_of (mPorts m) portId of
       None \<Rightarrow> (IllegalArgument, None) | Some p \<Rightarrow> (MicOk, Some p))"

definition getAudioPorts :: "'c mic_module \<Rightarrow> mic_status \<times> audio_port list" where
  "getAudioPorts m = (MicOk, map snd (mPorts m))"

definition getAudioRoutes :: "'c mic_module \<Rightarrow> mic_status \<times> audio_route list" where
  "getAudioRoutes m = (MicOk, [\<lparr>ar_sinkPortId = 2, ar_sourcePortIds = [1], ar_isExclusive = True\<rparr>])"

definition getAudioRoutesForAudioPort :: "int \<Rightarrow> 'c mic_module \<Rightarrow> mic_status \<times> audio_route list" where
  "getAudioRoutesForAudioPort portId m = getAudioRoutes m"

section \<open>Patches and port configurations\<close>

definition getAudioPatches :: "'c mic_module \<Rightarrow> mic_status \<times> 'c identified list" where
  "getAudioPatches m = (MicOk, map snd (mPatches m))"

definition getAudioPortConfigs :: "'c mic_module \<Rightarrow> mic_status \<times> 'c identified list" where
  "getAudioPortConfigs m = (MicOk, map snd (mPortConfigs m))"

definition setAudioPatch :: "'c identified \<Rightarrow> 'c mic_module \<Rightarrow> (mic_status \<times> 'c identified) \<times> 'c mic_module" where
  "setAudioPatch requested m =
     (let patch = requested\<lparr>id_id := mNextPatchId m\<rparr> in
      ((MicOk, patch), m\<lparr>mNextPatchId := mNextPatchId m + 1, mPatches := AList.update (id_id patch) patch (mPatches m)\<rparr>))"

definition setAudioPortConfig :: "'c identified \<Rightarrow> 'c mic_module \<Rightarrow>
    (mic_status \<times> 'c identified \<times> bool) \<times> 'c mic_module" where
  "setAudioPortConfig requested m =
     (let (config, m1) = (if id_id requested = 0
            then (requested\<lparr>id_id := mNextPortConfigId m\<rparr>, m\<lparr>mNextPortConfigId := mNextPortConfigId m + 1\<rparr>)
            else (requested, m)) in
      ((MicOk, config, True), m1\<lparr>mPortConfigs := AList.update (id_id config) config (mPortConfigs m1)\<rparr>))"

definition resetAudioPatch :: "int \<Rightarrow> 'c mic_module \<Rightarrow> mic_status \<times> 'c mic_module" where
  "resetAudioPatch patchId m = (MicOk, m\<lparr>mPatches := AList.delete patchId (mPatches m)\<rparr>)"

definition resetAudioPortConfig :: "int \<Rightarrow> 'c mic_module \<Rightarrow> mic_status \<times> 'c mic_module" where
  "resetAudioPortConfig portConfigId m = (MicOk, m\<lparr>mPortConfigs := AList.delete portConfigId (mPortConfigs m)\<rparr>)"

section \<open>Streams and samples\<close>

record 'd mic_stream =
  ms_closed :: bool
  ms_direction :: 'd
  ms_fieldDimension :: rat
  ms_hwGain :: "rat list"

record 'd open_return =
  or_stream :: "'d mic_stream"
  or_portId :: int
  or_bufferSizeFrames :: int

text \<open>Directions are an enumeration of the audio interfaces, \<open>front\<close> its \<open>FRONT\<close>; they are only stored.\<close>

definition mic_stream_create :: "'d \<Rightarrow> 'd mic_stream" where
  "mic_stream_create front = \<lparr>ms_closed = False, ms_direction = front, ms_fieldDimension = 0, ms_hwGain = [1, 1]\<rparr>"

definition openInputStream :: "'d \<Rightarrow> int \<Rightarrow> 'c mic_module \<Rightarrow> (mic_status \<times> 'd open_return) \<times> 'c mic_module" where
  "openInputStream front portConfigId m =
     ((MicOk, \<lparr>or_stream = mic_stream_create front, or_portId = portConfigId, or_bufferSizeFrames = 960\<rparr>),
      m\<lparr>mStreamActive := True\<rparr>)"

definition stream_close :: "'d mic_stream \<Rightarrow> mic_status \<times> 'd mic_stream" where
  "stream_close s = (MicOk, s\<lparr>ms_closed := True\<rparr>)"

text \<open>The loop of \<open>writeAudioData\<close> from position \<open>p\<close>.\<close>

fun write_bytes :: "8 word list \<Rightarrow> nat \<Rightarrow> 8 word list \<Rightarrow> 8 word list" where
  "write_bytes [] p ring = ring"
| "write_bytes (b # bs) p ring = write_bytes bs (p + 1) (ring[p mod kRingBufferSizeBytes := b])"

definition writeAudioData :: "8 word list \<Rightarrow> 'c mic_module \<Rightarrow> bool \<times> 'c mic_module" where
  "writeAudioData src m =
     (if \<not> mStreamActive m then (False, m)
      else (True, m\<lparr>mRingBuffer := write_bytes src (mRingBufferWritePos m) (mRingBuffer m),
             mRingBufferWritePos := (mRingBufferWritePos m + length src) mod kRingBufferSizeBytes\<rparr>))"

text \<open>The bytes a read puts into the caller's buffer.\<close>

definition readAudioData :: "nat \<Rightarrow> 'd mic_stream \<Rightarrow> 8 word list" where
  "readAudioData sizeBytes s = (if ms_closed s then [] else replicate sizeBytes 0)"

definition getMicMute :: "'c mic_module \<Rightarrow> mic_status \<times> bool" where "getMicMute m = (MicOk, mMicMute m)"

definition setMicMute :: "bool \<Rightarrow> 'c mic_module \<Rightarrow> mic_status \<times> 'c mic_module" where
  "setMicMute mute m = (MicOk, m\<lparr>mMicMute := mute\<rparr>)"

text \<open>The function's static counter is the argument.\<close>

definition generateHwAvSyncId :: "int \<Rightarrow> (mic_status \<times> int) \<times> int" where
  "generateHwAvSyncId next = ((MicOk, next), next + 1)"

definition getMicrophoneDirection :: "'d mic_stream \<Rightarrow> mic_status \<times> 'd" where
  "getMicrophoneDirection s = (MicOk, ms_direction s)"

definition setMicrophoneDirection :: "'d \<Rightarrow> 'd mic_stream \<Rightarrow> mic_status \<times> 'd mic_stream" where
  "setMicrophoneDirection d s = (MicOk, s\<lparr>ms_direction := d\<rparr>)"

definition getMicrophoneFieldDimension :: "'d mic_stream \<Rightarrow> mic_status \<times> rat" where
  "getMicrophoneFieldDimension s = (MicOk, ms_fieldDimension s)"

definition setMicrophoneFieldDimension :: "rat \<Rightarrow> 'd mic_stream \<Rightarrow> mic_status \<times> 'd mic_stream" where
  "setMicrophoneFieldDimension z s = (MicOk, s\<lparr>ms_fieldDimension := z\<rparr>)"

definition getHwGain :: "'d mic_stream \<Rightarrow> mic_status \<times> rat list" where
  "getHwGain s = (MicOk, ms_hwGain s)"

definition setHwGain :: "rat list \<Rightarrow> 'd mic_stream \<Rightarrow> mic_status \<times> 'd mic_stream" where
  "setHwGain gains s = (MicOk, s\<lparr>ms_hwGain := gains\<rparr>)"

section \<open>The ring holds the end of the sample stream\<close>

text \<open>
  \<open>stream\<close> are all bytes accepted so far. Byte \<open>j\<close> lies at \<open>j\<close> modulo the size of the ring until
  it is overwritten a second later.
\<close>

definition ring_holds :: "8 word list \<Rightarrow> nat \<Rightarrow> 8 word list \<Rightarrow> bool" where
  "ring_holds ring wp stream \<longleftrightarrow> length ring = kRingBufferSizeBytes \<and> wp = length stream mod kRingBufferSizeBytes \<and>
     (\<forall>j < length stream. length stream \<le> j + kRingBufferSizeBytes \<longrightarrow> ring ! (j mod kRingBufferSizeBytes) = stream ! j)"

lemma ring_size_pos: "0 < kRingBufferSizeBytes"
  by (simp add: kRingBufferSizeBytes_def)

lemma mod_apart: "j < n \<Longrightarrow> n < j + k \<Longrightarrow> j mod k \<noteq> n mod (k :: nat)"
  by (metis add_diff_inverse_nat mod_eq_dvd_iff_nat less_imp_le_nat less_diff_conv2 nat_dvd_not_less
      not_less zero_less_diff add.commute)

lemma ring_holds_write:
  "ring_holds ring wp stream \<Longrightarrow> p mod kRingBufferSizeBytes = length stream mod kRingBufferSizeBytes \<Longrightarrow>
   ring_holds (write_bytes bs p ring) ((wp + length bs) mod kRingBufferSizeBytes) (stream @ bs)"
proof (induction bs arbitrary: ring wp stream p)
  case Nil
  then show ?case by (simp add: ring_holds_def)
next
  case (Cons b bs)
  let ?N = kRingBufferSizeBytes
  let ?ring = "ring[p mod ?N := b]" and ?stream = "stream @ [b]"
  have one: "ring_holds ?ring ((wp + 1) mod ?N) ?stream"
    unfolding ring_holds_def
  proof (intro conjI allI impI)
    fix j
    assume j: "j < length ?stream" "length ?stream \<le> j + ?N"
    show "?ring ! (j mod ?N) = ?stream ! j"
    proof (cases "j = length stream")
      case True
      then show ?thesis using Cons.prems ring_size_pos by (simp add: ring_holds_def)
    next
      case False
      then have "j < length stream" using j(1) by simp
      moreover have "j mod ?N \<noteq> length stream mod ?N" using mod_apart [of j "length stream" ?N] calculation j(2) by simp
      ultimately show ?thesis using Cons.prems j(2) by (simp add: ring_holds_def nth_append)
    qed
  qed (use Cons.prems in \<open>simp_all add: ring_holds_def mod_Suc_eq\<close>)
  have "Suc p mod ?N = length ?stream mod ?N" using Cons.prems(2) by (metis length_append_singleton mod_Suc_eq)
  from Cons.IH [OF one this] show ?case by (simp add: mod_simps)
qed

section \<open>The module over time\<close>

text \<open>
  What clients do with a module, and the bytes accepted so far.
\<close>

inductive mic_step :: "'c mic_module \<times> 8 word list \<Rightarrow> 'c mic_module \<times> 8 word list \<Rightarrow> bool" where
  open_stream: "openInputStream () c m = (ret, m') \<Longrightarrow> mic_step (m, bs) (m', bs)"
| write_data: "writeAudioData d m = (ok, m') \<Longrightarrow> mic_step (m, bs) (m', if ok then bs @ d else bs)"
| set_patch: "setAudioPatch q m = (ret, m') \<Longrightarrow> mic_step (m, bs) (m', bs)"
| reset_patch: "resetAudioPatch i m = (st, m') \<Longrightarrow> mic_step (m, bs) (m', bs)"
| set_config: "setAudioPortConfig q m = (ret, m') \<Longrightarrow> mic_step (m, bs) (m', bs)"
| reset_config: "resetAudioPortConfig i m = (st, m') \<Longrightarrow> mic_step (m, bs) (m', bs)"
| mute: "setMicMute b m = (st, m') \<Longrightarrow> mic_step (m, bs) (m', bs)"

inductive_cases mic_stepE: "mic_step s s'"

lemmas mic_op_defs = openInputStream_def writeAudioData_def setAudioPatch_def resetAudioPatch_def
  setAudioPortConfig_def resetAudioPortConfig_def setMicMute_def

text \<open>Patches have distinct ids below the next one; configurations have distinct ids; ports stay.\<close>

definition mic_inv :: "int \<Rightarrow> 'c mic_module \<times> 8 word list \<Rightarrow> bool" where
  "mic_inv flags = (\<lambda>(m, bs). ring_holds (mRingBuffer m) (mRingBufferWritePos m) bs \<and>
     mPorts m = mPorts (mic_module_create flags :: 'c mic_module) \<and>
     distinct (map fst (mPatches m)) \<and> (\<forall>i x. (i, x) \<in> set (mPatches m) \<longrightarrow> i < mNextPatchId m \<and> id_id x = i) \<and> distinct (map fst (mPortConfigs m)) \<and>
     (\<not> mStreamActive m \<longrightarrow> bs = []))"

lemma mic_inv_create: "mic_inv flags (mic_module_create flags, [])"
  by (simp add: mic_inv_def mic_module_create_def initializePorts_def createVirtualMicPort_def ring_holds_def)

lemma mic_inv_write:
  assumes "writeAudioData d m = (ok, m')" "mic_inv flags (m, bs)"
  shows "mic_inv flags (m', if ok then bs @ d else bs)"
proof (cases "mStreamActive m")
  case True
  have ring: "ring_holds (mRingBuffer m) (mRingBufferWritePos m) bs" using assms(2) by (simp add: mic_inv_def)
  then have "mRingBufferWritePos m mod kRingBufferSizeBytes = length bs mod kRingBufferSizeBytes"
    by (simp add: ring_holds_def)
  from ring_holds_write [OF ring this, of d] True assms show ?thesis
    by (auto simp: writeAudioData_def mic_inv_def)
next
  case False
  then show ?thesis using assms by (auto simp: writeAudioData_def)
qed

lemma update_keys: "distinct (map fst xs) \<Longrightarrow> distinct (map fst (AList.update k x xs))"
  by (rule distinct_update)

lemma delete_keys: "distinct (map fst xs) \<Longrightarrow> distinct (map fst (AList.delete k xs))"
  by (rule distinct_delete)

lemma delete_subset: "set (AList.delete k xs) \<subseteq> set xs"
  by (auto simp: AList.delete_eq)

lemma fresh_patch: "mic_inv flags (m, bs) \<Longrightarrow> mNextPatchId m \<notin> set (map fst (mPatches m))"
  unfolding mic_inv_def by force

lemma mic_step_inv: "mic_step s s' \<Longrightarrow> mic_inv flags s \<Longrightarrow> mic_inv flags s'"
proof (induction rule: mic_step.induct)
  case (write_data d m ok m' bs)
  then show ?case using mic_inv_write by blast
next
  case (set_patch q m ret m' bs)
  have "mNextPatchId m \<notin> set (map fst (mPatches m))" by (rule fresh_patch [OF set_patch.prems])
  then show ?case using set_patch
    by (auto simp: setAudioPatch_def mic_inv_def Let_def new_key_update) (meson less_imp_le)+
next
  case (reset_patch i m st m' bs)
  have "m' = m\<lparr>mPatches := AList.delete i (mPatches m)\<rparr>" using reset_patch.hyps by (simp add: resetAudioPatch_def)
  then show ?case using reset_patch.prems delete_subset [of i "mPatches m"] delete_keys [of "mPatches m" i]
    by (auto simp: mic_inv_def)
next
  case (set_config q m ret m' bs)
  then show ?case
    by (auto simp: setAudioPortConfig_def mic_inv_def Let_def intro!: update_keys split: if_splits)
next
  case (reset_config i m st m' bs)
  then show ?case by (auto simp: resetAudioPortConfig_def mic_inv_def intro!: delete_keys)
qed (auto simp: mic_op_defs mic_inv_def)

lemma mic_run_inv: "mic_step\<^sup>*\<^sup>* (mic_module_create flags, []) s \<Longrightarrow> mic_inv flags s"
  by (induction rule: rtranclp_induct) (auto intro: mic_inv_create mic_step_inv)

text \<open>
  C32: Whatever clients do, the ring holds the last 192000 bytes that were
  accepted, each at its place in the stream modulo the size of the ring, and the write position
  is the end of the stream.
\<close>

theorem ring_keeps_last_second:
  assumes "mic_step\<^sup>*\<^sup>* (mic_module_create flags, []) (m, bs)"
  shows "length (mRingBuffer m) = 192000 \<and> mRingBufferWritePos m = length bs mod 192000 \<and>
    (\<forall>j < length bs. length bs \<le> j + 192000 \<longrightarrow> mRingBuffer m ! (j mod 192000) = bs ! j)"
  using mic_run_inv [OF assms] by (simp add: mic_inv_def ring_holds_def kRingBufferSizeBytes_def)

lemma ring_keeps_last_second_witness:
  "\<exists>m. mic_step\<^sup>*\<^sup>* (mic_module_create 0 :: unit mic_module, []) (m, [5, 6]) \<and> mRingBuffer m ! 1 = 6 \<and>
    mRingBufferWritePos m = 2"
proof -
  obtain ret m1 where one: "openInputStream () 7 (mic_module_create 0 :: unit mic_module) = (ret, m1)" by fastforce
  obtain ok m2 where two: "writeAudioData [5, 6] m1 = (ok, m2)" by fastforce
  have "ok" using one two by (auto simp: openInputStream_def writeAudioData_def)
  have "mic_step\<^sup>*\<^sup>* (mic_module_create 0 :: unit mic_module, []) (m2, [5, 6])"
    using mic_step.open_stream [OF one, of "[]"] mic_step.write_data [OF two, of "[]"] \<open>ok\<close>
    by (simp add: converse_rtranclp_into_rtranclp)
  then show ?thesis using ring_keeps_last_second [of 0 m2 "[5, 6]"] by force
qed

section \<open>Ids of patches and configurations\<close>

definition alloc_patch :: "'c identified \<Rightarrow> 'c mic_module \<times> 8 word list \<Rightarrow> int option \<times> 'c mic_module \<times> 8 word list" where
  "alloc_patch q = (\<lambda>(m, bs). case setAudioPatch q m of ((st, p), m') \<Rightarrow> (Some (id_id p), (m', bs)))"

interpretation patch_ids: token_supply mic_step "\<lambda>_. True" "\<lambda>(m, bs). mNextPatchId m - 1" alloc_patch
proof unfold_locales
  fix s s' :: "'c mic_module \<times> 8 word list"
  assume "mic_step s s'"
  then show "(case s of (m, bs) \<Rightarrow> mNextPatchId m - 1) \<le> (case s' of (m, bs) \<Rightarrow> mNextPatchId m - 1)"
    by (cases rule: mic_step.cases) (auto simp: mic_op_defs Let_def split: if_splits)
next
  fix q :: "'c identified" and s s' t
  assume "alloc_patch q s = (Some t, s')"
  then show "mic_step s s'"
    using mic_step.set_patch [of q "fst s" _ "fst s'" "snd s"]
    by (cases s; cases s') (auto simp: alloc_patch_def split: prod.splits)
next
  fix q :: "'c identified" and s s' t
  assume "alloc_patch q s = (Some t, s')"
  then show "(case s of (m, bs) \<Rightarrow> mNextPatchId m - 1) < t \<and> t \<le> (case s' of (m, bs) \<Rightarrow> mNextPatchId m - 1)"
    by (auto simp: alloc_patch_def setAudioPatch_def Let_def split: prod.splits)
qed simp_all

text \<open>
  A new patch gets an id that no earlier patch had, also not one that was
  reset since, and the other patches stay as they are.
\<close>

theorem patch_ids_fresh:
  assumes "mic_step\<^sup>*\<^sup>* (mic_module_create flags, []) (m, bs)" "setAudioPatch q m = ((st, p), m1)"
    and "mic_step\<^sup>*\<^sup>* (m1, bs) (m2, bs2)" "setAudioPatch q2 m2 = ((st2, p2), m3)"
  shows "id_id p < id_id p2 \<and> getAudioPatches m1 = (MicOk, snd (getAudioPatches m) @ [p]) \<and>
    id_id p \<notin> set (map id_id (snd (getAudioPatches m)))"
proof -
  have inv: "mic_inv flags (m, bs)" by (rule mic_run_inv [OF assms(1)])
  note new = fresh_patch [OF inv]
  have p: "id_id p = mNextPatchId m" "m1 = m\<lparr>mNextPatchId := mNextPatchId m + 1, mPatches := mPatches m @ [(mNextPatchId m, p)]\<rparr>"
    using assms(2) new by (auto simp: setAudioPatch_def Let_def new_key_update)
  have "alloc_patch q (m, bs) = (Some (id_id p), (m1, bs))" "alloc_patch q2 (m2, bs2) = (Some (id_id p2), (m3, bs2))"
    using assms(2,4) by (simp_all add: alloc_patch_def)
  then have "id_id p < id_id p2" using patch_ids.never_reused [OF TrueI _ assms(3)] by blast
  moreover have "id_id p \<notin> set (map id_id (map snd (mPatches m)))" using inv p(1) by (fastforce simp: mic_inv_def)
  ultimately show ?thesis using p(2) by (simp add: getAudioPatches_def)
qed

lemma patch_ids_fresh_witness:
  "\<exists>p m1 p2 m3. setAudioPatch \<lparr>id_id = 9, id_rest = ()\<rparr> (mic_module_create 0) = ((MicOk, p), m1) \<and>
     setAudioPatch \<lparr>id_id = 9, id_rest = ()\<rparr> m1 = ((MicOk, p2), m3) \<and> id_id p < id_id p2"
proof -
  let ?q = "\<lparr>id_id = 9, id_rest = ()\<rparr>"
  obtain p m1 where one: "setAudioPatch ?q (mic_module_create 0) = ((MicOk, p), m1)"
    by (simp add: setAudioPatch_def Let_def)
  obtain p2 m3 where two: "setAudioPatch ?q m1 = ((MicOk, p2), m3)" by (simp add: setAudioPatch_def Let_def)
  from patch_ids_fresh [OF rtranclp.rtrancl_refl one rtranclp.rtrancl_refl two] one two show ?thesis by blast
qed

text \<open>
  A configuration the framework stores under an id of its own choice is replaced by the next
  one whose id the module generates.
\<close>

theorem generated_config_overwrites:
  assumes "id_id q = mNextPortConfigId m" "id_id q \<noteq> 0" "id_id q2 = 0"
    and "setAudioPortConfig q m = (ret, m1)" "setAudioPortConfig q2 m1 = (ret2, m2)"
  shows "fst (snd ret2) = q2\<lparr>id_id := id_id q\<rparr> \<and>
    map_of (mPortConfigs m1) (id_id q) = Some q \<and> map_of (mPortConfigs m2) (id_id q) = Some (q2\<lparr>id_id := id_id q\<rparr>)"
  using assms by (auto simp: setAudioPortConfig_def Let_def update_conv')

section \<open>The rest of the two interfaces\<close>

text \<open>Calls the module refuses, answers with nothing, or accepts without an effect.\<close>

definition connectExternalDevice :: mic_status where "connectExternalDevice = UnsupportedOperation"
definition disconnectExternalDevice :: mic_status where "disconnectExternalDevice = UnsupportedOperation"
definition openOutputStream :: mic_status where "openOutputStream = UnsupportedOperation"
definition addDeviceEffect :: mic_status where "addDeviceEffect = UnsupportedOperation"
definition removeDeviceEffect :: mic_status where "removeDeviceEffect = UnsupportedOperation"
definition stream_addEffect :: mic_status where "stream_addEffect = UnsupportedOperation"
definition stream_removeEffect :: mic_status where "stream_removeEffect = UnsupportedOperation"
definition getMasterMute :: "mic_status \<times> bool" where "getMasterMute = (MicOk, False)"
definition getMasterVolume :: "mic_status \<times> rat" where "getMasterVolume = (MicOk, 1)"
definition getSupportedPlaybackRateFactors :: "mic_status \<times> rat list" where
  "getSupportedPlaybackRateFactors = (MicOk, [1, 1, 1, 1])"
definition supportsVariableLatency :: "mic_status \<times> bool" where "supportsVariableLatency = (MicOk, False)"
definition getAAudioMixerBurstCount :: "mic_status \<times> int" where "getAAudioMixerBurstCount = (MicOk, 2)"
definition getAAudioHardwareBurstMinUsec :: "mic_status \<times> int" where "getAAudioHardwareBurstMinUsec = (MicOk, 2000)"

record microphone_info =
  mi_id :: string
  mi_group :: int
  mi_indexInTheGroup :: int
  mi_sensitivity :: rat
  mi_maxSpl :: rat
  mi_minSpl :: rat

definition getMicrophones :: "mic_status \<times> microphone_info list" where
  "getMicrophones = (MicOk, [\<lparr>mi_id = ''virtual_mic_0'', mi_group = 0, mi_indexInTheGroup = 0,
     mi_sensitivity = -37, mi_maxSpl = 265 / 2, mi_minSpl = 57 / 2\<rparr>])"

end
