(* ===== verification/Camera_Adapter.thy ===== *)
theory Camera_Adapter
  imports Session Pair_Lists
begin

text \<open>
  \<open>hal/aidl-v2/VirtualCamera{Provider,Device,Session}.{h,cpp}\<close>, the second build of the camera
  service: one fixed camera, fed by the socket sources alone. The session's records of streams,
  requests and results are those of \<open>Session\<close>, which talks the same interface.
\<close>

section \<open>State\<close>

text \<open>
  The platform: the steady clock, native handles and the importer; and the provider's two frame
  sources with the fills of \<open>FrameFiller\<close> on them, which \<open>Frame_Filler\<close> models.
\<close>

record 'w adapter_env =
  av_now :: "'w \<Rightarrow> int \<times> 'w"
  av_makeFromAidl :: "native_handle \<Rightarrow> 'w \<Rightarrow> (nat \<times> int) option \<times> 'w"
  av_closeHandle :: "nat \<Rightarrow> 'w \<Rightarrow> 'w"
  av_importBuffer :: "nat \<Rightarrow> 'w \<Rightarrow> nat option \<times> 'w"
  av_freeBuffer :: "nat \<Rightarrow> 'w \<Rightarrow> 'w"
  av_v2_active :: "'w \<Rightarrow> bool \<times> 'w"
  av_fillBufferFromV2 :: "nat \<Rightarrow> int \<Rightarrow> int \<Rightarrow> 'w \<Rightarrow> bool \<times> 'w"
  av_fillYuvBufferFromRenderer :: "nat \<Rightarrow> int \<Rightarrow> int \<Rightarrow> 32 word \<Rightarrow> 'w \<Rightarrow> 'w"
  av_v2_requestFormat :: "int \<Rightarrow> int \<Rightarrow> int \<Rightarrow> 64 word \<Rightarrow> 'w \<Rightarrow> 'w"
  av_v1_requestFormat :: "32 word \<Rightarrow> int \<Rightarrow> int \<Rightarrow> 'w \<Rightarrow> 'w"

text \<open>
  The session with the world and the callbacks it has sent. The cache is a list of pairs with
  distinct keys; the order in which the hash map is walked when it is cleared is not specified.
\<close>

record 'w adapter =
  ad_closed :: bool
  ad_streams :: "int \<Rightarrow> stream option"
  ad_cache :: "((int \<times> int) \<times> nat) list"
  ad_frameCounter :: "32 word"
  ad_hasV1 :: bool
  ad_hasV2 :: bool
  ad_world :: 'w
  ad_events :: "camera_event list"

definition adapter_create :: "bool \<Rightarrow> bool \<Rightarrow> 'w \<Rightarrow> 'w adapter" where
  "adapter_create v1 v2 w = \<lparr>ad_closed = False, ad_streams = (\<lambda>_. None), ad_cache = [], ad_frameCounter = 0,
     ad_hasV1 = v1, ad_hasV2 = v2, ad_world = w, ad_events = []\<rparr>"

section \<open>The buffer cache\<close>

fun free_all :: "'w adapter_env \<Rightarrow> ((int \<times> int) \<times> nat) list \<Rightarrow> 'w \<Rightarrow> 'w" where
  "free_all V [] w = w"
| "free_all V ((k, b) # c) w = free_all V c (av_freeBuffer V b w)"

definition clear_cache :: "'w adapter_env \<Rightarrow> 'w adapter \<Rightarrow> 'w adapter" where
  "clear_cache V a = a\<lparr>ad_world := free_all V (ad_cache a) (ad_world a), ad_cache := []\<rparr>"

definition adapter_importBuffer :: "'w adapter_env \<Rightarrow> stream_buffer \<Rightarrow> 'w adapter \<Rightarrow> nat option \<times> 'w adapter" where
  "adapter_importBuffer V b a =
     (let key = (sb_streamId b, sb_bufferId b) in
      case map_of (ad_cache a) key of
        Some handle \<Rightarrow> (Some handle, a)
      | None \<Rightarrow>
          if nh_fds (sb_buffer b) = [] then (None, a)
          else (case av_makeFromAidl V (sb_buffer b) (ad_world a) of
              (None, w1) \<Rightarrow> (None, a\<lparr>ad_world := w1\<rparr>)
            | (Some (native, numFds), w1) \<Rightarrow>
                if numFds < 1 then (None, a\<lparr>ad_world := av_closeHandle V native w1\<rparr>)
                else (case av_importBuffer V native w1 of
                    (None, w2) \<Rightarrow> (None, a\<lparr>ad_world := av_closeHandle V native w2\<rparr>)
                  | (Some handle, w2) \<Rightarrow>
                      (Some handle, a\<lparr>ad_world := w2, ad_cache := AList.update key handle (ad_cache a)\<rparr>))))"

definition remove_cached :: "'w adapter_env \<Rightarrow> int \<times> int \<Rightarrow> 'w adapter \<Rightarrow> 'w adapter" where
  "remove_cached V key a = (case map_of (ad_cache a) key of
       None \<Rightarrow> a
     | Some b \<Rightarrow> a\<lparr>ad_world := av_freeBuffer V b (ad_world a), ad_cache := AList.delete key (ad_cache a)\<rparr>)"

definition adapter_removeBuffersFromCache :: "'w adapter_env \<Rightarrow> (int \<times> int) list \<Rightarrow> 'w adapter \<Rightarrow> 'w adapter" where
  "adapter_removeBuffersFromCache V keys a = fold (remove_cached V) keys a"

section \<open>Session calls\<close>

definition adapter_close :: "'w adapter \<Rightarrow> 'w adapter" where
  "adapter_close a = a\<lparr>ad_closed := True\<rparr>"

definition adapter_destroy :: "'w adapter_env \<Rightarrow> 'w adapter \<Rightarrow> 'w adapter" where
  "adapter_destroy V a = adapter_close (clear_cache V a)"

definition adapter_hal_stream :: "stream \<Rightarrow> hal_stream" where
  "adapter_hal_stream s = \<lparr>hs_id = st_id s, hs_overrideFormat = st_format s,
     hs_producerUsage = [CPU_WRITE_OFTEN, CAMERA_OUTPUT], hs_maxBuffers = 4,
     hs_overrideDataSpace = st_dataSpace s\<rparr>"

text \<open>\<open>YCbCr_420_888\<close> (0x23) maps to \<open>Y8Cb8Cr8_420\<close> (0x23), everything else to \<open>R8G8B8A8_UNORM\<close> (1).\<close>

definition ahb_format :: "int \<Rightarrow> int" where
  "ahb_format f = (if f = 0x23 then 0x23 else 1)"

definition adapter_usage :: "64 word" where
  "adapter_usage = or (or 0x100 0x200) 0x3"

definition publish_format :: "'w adapter_env \<Rightarrow> stream list \<Rightarrow> 'w adapter \<Rightarrow> 'w adapter" where
  "publish_format V ss a = (case ss of
       [] \<Rightarrow> a
     | primary # _ \<Rightarrow>
         let w1 = (if ad_hasV2 a then av_v2_requestFormat V (ahb_format (st_format primary)) (st_width primary)
               (st_height primary) adapter_usage (ad_world a) else ad_world a);
             w2 = (if ad_hasV1 a then av_v1_requestFormat V 2 (st_width primary) (st_height primary) w1 else w1) in
         a\<lparr>ad_world := w2\<rparr>)"

definition adapter_configureStreams :: "'w adapter_env \<Rightarrow> stream list \<Rightarrow> 'w adapter \<Rightarrow>
    (camera_status \<times> hal_stream list) \<times> 'w adapter" where
  "adapter_configureStreams V ss a =
     (if ad_closed a then ((INTERNAL_ERROR, []), a)
      else
        let a1 = clear_cache V (a\<lparr>ad_streams := (\<lambda>_. None)\<rparr>);
            a2 = a1\<lparr>ad_streams := fold (\<lambda>s m. m(st_id s \<mapsto> s)) ss (ad_streams a1)\<rparr> in
        ((CS_OK, map adapter_hal_stream ss), publish_format V ss a2))"

text \<open>Filling one output buffer: the second transport first, then the first one or the bars.\<close>

definition fill_output :: "'w adapter_env \<Rightarrow> nat \<Rightarrow> stream \<Rightarrow> 'w adapter \<Rightarrow> 'w adapter" where
  "fill_output V handle s a =
     (let (v2, w1) = (if ad_hasV2 a then av_v2_active V (ad_world a) else (False, ad_world a));
          (filled, w2) = (if v2 then av_fillBufferFromV2 V handle (st_width s) (st_height s) w1 else (False, w1));
          w3 = (if filled then w2
            else av_fillYuvBufferFromRenderer V handle (st_width s) (st_height s) (ad_frameCounter a) w2) in
      a\<lparr>ad_world := w3\<rparr>)"

definition adapter_output :: "'w adapter_env \<Rightarrow> stream_buffer \<Rightarrow> 'w adapter \<Rightarrow> out_buffer \<times> 'w adapter" where
  "adapter_output V b a =
     (let (handle, a1) = adapter_importBuffer V b a;
          a2 = (case (ad_streams a1 (sb_streamId b), handle) of
              (Some s, Some h) \<Rightarrow> fill_output V h s a1
            | _ \<Rightarrow> a1) in
      (\<lparr>ob_streamId = sb_streamId b, ob_bufferId = sb_bufferId b, ob_ok = True, ob_releaseFence = -1\<rparr>,
       a2\<lparr>ad_frameCounter := ad_frameCounter a2 + 1\<rparr>))"

fun adapter_outputs :: "'w adapter_env \<Rightarrow> stream_buffer list \<Rightarrow> 'w adapter \<Rightarrow> out_buffer list \<times> 'w adapter" where
  "adapter_outputs V [] a = ([], a)"
| "adapter_outputs V (b # bs) a =
     (let (ob, a1) = adapter_output V b a; (rest, a2) = adapter_outputs V bs a1 in (ob # rest, a2))"

text \<open>The result's metadata uses the defaults of \<open>buildResultMetadata\<close>.\<close>

definition adapter_processSingleRequest :: "'w adapter_env \<Rightarrow> capture_request \<Rightarrow> 'w adapter \<Rightarrow>
    camera_status \<times> 'w adapter" where
  "adapter_processSingleRequest V rq a =
     (let (now, w1) = av_now V (ad_world a);
          a1 = a\<lparr>ad_world := w1, ad_events := ad_events a @ [Notify [Shutter (rq_frameNumber rq) now now]]\<rparr>;
          (obs, a2) = adapter_outputs V (rq_outputBuffers rq) a1 in
      (CS_OK, a2\<lparr>ad_events := ad_events a2 @ [CaptureResult \<lparr>cr_frameNumber = rq_frameNumber rq,
         cr_outputBuffers = obs, cr_partialResult = 1,
         cr_metadata = buildResultMetadata now 33333333 0 3840 2160\<rparr>]\<rparr>))"

fun adapter_requests :: "'w adapter_env \<Rightarrow> capture_request list \<Rightarrow> int \<Rightarrow> 'w adapter \<Rightarrow> int \<times> 'w adapter" where
  "adapter_requests V [] n a = (n, a)"
| "adapter_requests V (rq # rqs) n a =
     (let (st, a1) = adapter_processSingleRequest V rq a in
      if st \<noteq> CS_OK then (n, a1) else adapter_requests V rqs (n + 1) a1)"

definition adapter_processCaptureRequest :: "'w adapter_env \<Rightarrow> capture_request list \<Rightarrow> (int \<times> int) list \<Rightarrow>
    'w adapter \<Rightarrow> (camera_status \<times> int) \<times> 'w adapter" where
  "adapter_processCaptureRequest V rqs keys a =
     (if ad_closed a then ((INTERNAL_ERROR, 0), a)
      else
        let a1 = (if keys \<noteq> [] then adapter_removeBuffersFromCache V keys a else a);
            (n, a2) = adapter_requests V rqs 0 a1 in
        ((CS_OK, n), a2))"

definition adapter_constructDefaultRequestSettings :: "metadata" where
  "adapter_constructDefaultRequestSettings = buildDefaultRequestSettings None"

definition adapter_isReconfigurationRequired :: "camera_status \<times> bool" where
  "adapter_isReconfigurationRequired = (CS_OK, False)"

definition adapter_switchToOffline :: camera_status where
  "adapter_switchToOffline = OPERATION_NOT_SUPPORTED"

section \<open>Provider and device\<close>

definition kVirtualCameraId :: string where "kVirtualCameraId = ''device@1.0/virtual_renderer/100''"

definition adapter_getCameraIdList :: "camera_status \<times> string list" where
  "adapter_getCameraIdList = (CS_OK, [kVirtualCameraId])"

text \<open>A device is its id and its characteristics; it shares the provider's sources.\<close>

record adapter_device =
  vd_cameraId :: string
  vd_characteristics :: metadata

definition adapter_getCameraDeviceInterface :: "string \<Rightarrow> camera_status \<times> adapter_device option" where
  "adapter_getCameraDeviceInterface cameraDeviceId =
     (if cameraDeviceId \<noteq> kVirtualCameraId then (ILLEGAL_ARGUMENT, None)
      else (CS_OK, Some \<lparr>vd_cameraId = cameraDeviceId, vd_characteristics = buildCameraCharacteristics None\<rparr>))"

definition adapter_getCameraCharacteristics :: "adapter_device \<Rightarrow> camera_status \<times> metadata" where
  "adapter_getCameraCharacteristics d = (CS_OK, vd_characteristics d)"

definition adapter_isStreamCombinationSupported :: "stream list \<Rightarrow> camera_status \<times> bool" where
  "adapter_isStreamCombinationSupported ss = (CS_OK, True)"

definition adapter_open :: "bool \<Rightarrow> bool \<Rightarrow> nat option \<Rightarrow> 'w \<Rightarrow> camera_status \<times> 'w adapter option" where
  "adapter_open v1 v2 callback w = (case callback of
       None \<Rightarrow> (ILLEGAL_ARGUMENT, None)
     | Some cb \<Rightarrow> (CS_OK, Some (adapter_create v1 v2 w)))"

section \<open>Every batch is answered\<close>

definition adapter_answer :: "capture_request \<Rightarrow> int \<Rightarrow> camera_event list" where
  "adapter_answer rq t = [Notify [Shutter (rq_frameNumber rq) t t],
     CaptureResult \<lparr>cr_frameNumber = rq_frameNumber rq,
       cr_outputBuffers = map (\<lambda>b. \<lparr>ob_streamId = sb_streamId b, ob_bufferId = sb_bufferId b, ob_ok = True,
         ob_releaseFence = -1\<rparr>) (rq_outputBuffers rq),
       cr_partialResult = 1, cr_metadata = buildResultMetadata t 33333333 0 3840 2160\<rparr>]"

lemma import_events: "adapter_importBuffer V b a = (h, a') \<Longrightarrow> ad_events a' = ad_events a \<and> ad_closed a' = ad_closed a"
  by (auto simp: adapter_importBuffer_def Let_def split: option.splits prod.splits if_splits)

lemma fill_events: "ad_events (fill_output V h s a) = ad_events a \<and> ad_closed (fill_output V h s a) = ad_closed a"
  by (auto simp: fill_output_def Let_def split: prod.splits)

lemma output_answers:
  assumes "adapter_output V b a = (ob, a')"
  shows "ob = \<lparr>ob_streamId = sb_streamId b, ob_bufferId = sb_bufferId b, ob_ok = True, ob_releaseFence = -1\<rparr> \<and>
    ad_events a' = ad_events a \<and> ad_closed a' = ad_closed a"
proof -
  obtain h a1 where i: "adapter_importBuffer V b a = (h, a1)" by fastforce
  show ?thesis using assms i import_events [OF i]
    by (auto simp: adapter_output_def Let_def fill_events split: option.splits)
qed

lemma outputs_answer:
  "adapter_outputs V bs a = (obs, a') \<Longrightarrow>
   obs = map (\<lambda>b. \<lparr>ob_streamId = sb_streamId b, ob_bufferId = sb_bufferId b, ob_ok = True, ob_releaseFence = -1\<rparr>) bs \<and>
   ad_events a' = ad_events a \<and> ad_closed a' = ad_closed a"
proof (induction bs arbitrary: a obs a')
  case Nil
  then show ?case by simp
next
  case (Cons b bs)
  obtain ob a1 where one: "adapter_output V b a = (ob, a1)" by fastforce
  obtain rest a2 where two: "adapter_outputs V bs a1 = (rest, a2)" by fastforce
  show ?case using Cons.prems one two output_answers [OF one] Cons.IH [OF two] by auto
qed

lemma request_answers:
  assumes "adapter_processSingleRequest V rq a = (st, a')"
  shows "\<exists>t. st = CS_OK \<and> ad_events a' = ad_events a @ adapter_answer rq t"
proof -
  obtain t w1 where n: "av_now V (ad_world a) = (t, w1)" by fastforce
  obtain obs a2 where o: "adapter_outputs V (rq_outputBuffers rq) (a\<lparr>ad_world := w1,
      ad_events := ad_events a @ [Notify [Shutter (rq_frameNumber rq) t t]]\<rparr>) = (obs, a2)" by fastforce
  show ?thesis using assms n o outputs_answer [OF o]
    by (auto simp: adapter_processSingleRequest_def adapter_answer_def Let_def)
qed

lemma requests_answer:
  "adapter_requests V rqs n a = (k, a') \<Longrightarrow> k = n + int (length rqs) \<and>
   (\<exists>ts. length ts = length rqs \<and> ad_events a' = ad_events a @ concat (map2 adapter_answer rqs ts))"
proof (induction rqs arbitrary: n a)
  case Nil
  then show ?case by simp
next
  case (Cons rq rqs)
  obtain st a1 where one: "adapter_processSingleRequest V rq a = (st, a1)" by fastforce
  then obtain t where t: "st = CS_OK" "ad_events a1 = ad_events a @ adapter_answer rq t"
    using request_answers by blast
  have "adapter_requests V rqs (n + 1) a1 = (k, a')" using Cons.prems one t(1) by simp
  from Cons.IH [OF this] obtain ts where "k = n + 1 + int (length rqs)" "length ts = length rqs"
      "ad_events a' = ad_events a1 @ concat (map2 adapter_answer rqs ts)" by blast
  then show ?case using t(2) by (intro conjI exI [of _ "t # ts"]) simp_all
qed

lemma remove_events: "ad_events (adapter_removeBuffersFromCache V keys a) = ad_events a"
  unfolding adapter_removeBuffersFromCache_def
  by (induction keys arbitrary: a) (auto simp: remove_cached_def split: option.splits)

text \<open>
  Every request of a batch is answered, in order, by one shutter
  notification and one result that returns exactly its buffers; a closed session answers none
  and reports an error.
\<close>

theorem adapter_answers_batch:
  assumes "adapter_processCaptureRequest V rqs keys a = ((st, n), a')"
  shows "if ad_closed a then st = INTERNAL_ERROR \<and> n = 0 \<and> a' = a
    else st = CS_OK \<and> n = int (length rqs) \<and>
      (\<exists>ts. length ts = length rqs \<and> ad_events a' = ad_events a @ concat (map2 adapter_answer rqs ts))"
proof (cases "ad_closed a")
  case True
  then show ?thesis using assms by (simp add: adapter_processCaptureRequest_def)
next
  case False
  let ?a1 = "if keys \<noteq> [] then adapter_removeBuffersFromCache V keys a else a"
  obtain k a2 where run: "adapter_requests V rqs 0 ?a1 = (k, a2)" by fastforce
  have "ad_events ?a1 = ad_events a" by (simp add: remove_events)
  then show ?thesis using assms False run requests_answer [OF run]
    by (simp add: adapter_processCaptureRequest_def Let_def)
qed

section \<open>Imported buffers are freed\<close>

text \<open>
  \<open>alive\<close> are the imported handles that were not freed yet; the importer's two calls change it,
  every other call leaves it.
\<close>

definition importer_laws :: "'w adapter_env \<Rightarrow> ('w \<Rightarrow> nat multiset) \<Rightarrow> bool" where
  "importer_laws V alive \<longleftrightarrow>
     (\<forall>h w. alive (snd (av_importBuffer V h w)) = alive w +
       (case fst (av_importBuffer V h w) of None \<Rightarrow> {#} | Some b \<Rightarrow> {#b#})) \<and>
     (\<forall>b w. alive (av_freeBuffer V b w) = alive w - {#b#}) \<and>
     (\<forall>w. alive (snd (av_now V w)) = alive w) \<and> (\<forall>h w. alive (snd (av_makeFromAidl V h w)) = alive w) \<and>
     (\<forall>h w. alive (av_closeHandle V h w) = alive w) \<and> (\<forall>w. alive (snd (av_v2_active V w)) = alive w) \<and>
     (\<forall>b x y w. alive (snd (av_fillBufferFromV2 V b x y w)) = alive w) \<and>
     (\<forall>b x y n w. alive (av_fillYuvBufferFromRenderer V b x y n w) = alive w) \<and>
     (\<forall>f x y u w. alive (av_v2_requestFormat V f x y u w) = alive w) \<and>
     (\<forall>f x y w. alive (av_v1_requestFormat V f x y w) = alive w)"

definition cache_ok :: "('w \<Rightarrow> nat multiset) \<Rightarrow> 'w adapter \<Rightarrow> bool" where
  "cache_ok alive a \<longleftrightarrow> distinct (map fst (ad_cache a)) \<and> alive (ad_world a) = mset (map snd (ad_cache a))"

lemma free_all_alive:
  "importer_laws V alive \<Longrightarrow> alive w = mset (map snd c) + X \<Longrightarrow> alive (free_all V c w) = X"
proof (induction c arbitrary: w)
  case Nil
  then show ?case by simp
next
  case (Cons p c)
  obtain k b where p: "p = (k, b)" by fastforce
  have "alive (av_freeBuffer V b w) = mset (map snd c) + X"
    using Cons.prems p by (simp add: importer_laws_def)
  then show ?case using Cons.IH Cons.prems(1) p by simp
qed

lemma clear_cache_ok:
  assumes "importer_laws V alive" "cache_ok alive a"
  shows "cache_ok alive (clear_cache V a) \<and> alive (ad_world (clear_cache V a)) = {#}"
  using free_all_alive [OF assms(1), of "ad_world a" "ad_cache a" "{#}"] assms(2)
  by (simp add: cache_ok_def clear_cache_def)

lemma cache_ok_world: "cache_ok alive a \<Longrightarrow> alive w = alive (ad_world a) \<Longrightarrow> cache_ok alive (a\<lparr>ad_world := w\<rparr>)"
  by (simp add: cache_ok_def)

lemma import_cache_ok:
  assumes laws: "importer_laws V alive" and ok: "cache_ok alive a" and run: "adapter_importBuffer V b a = (h, a')"
  shows "cache_ok alive a'"
proof -
  let ?key = "(sb_streamId b, sb_bufferId b)"
  have keep: "\<And>h w. alive (snd (av_makeFromAidl V h w)) = alive w" "\<And>h w. alive (av_closeHandle V h w) = alive w"
    using laws by (simp_all add: importer_laws_def)
  have imp: "alive w2 = alive w + (case r of None \<Rightarrow> {#} | Some b \<Rightarrow> {#b#})"
    if "av_importBuffer V n w = (r, w2)" for n w r w2
    using laws that unfolding importer_laws_def by (metis fst_conv snd_conv)
  show ?thesis
  proof (cases "map_of (ad_cache a) ?key = None \<and> nh_fds (sb_buffer b) \<noteq> []")
    case False
    then show ?thesis using run ok by (auto simp: adapter_importBuffer_def Let_def split: option.splits if_splits)
  next
    case True
    obtain made w1 where m: "av_makeFromAidl V (sb_buffer b) (ad_world a) = (made, w1)" by fastforce
    have w1: "alive w1 = alive (ad_world a)" using keep(1) m by (metis snd_conv)
    show ?thesis
    proof (cases made)
      case None
      then show ?thesis using run True m w1 ok by (auto simp: adapter_importBuffer_def intro: cache_ok_world)
    next
      case (Some q)
      obtain native fds where q: "q = (native, fds)" by fastforce
      obtain r w2 where i: "av_importBuffer V native w1 = (r, w2)" by fastforce
      note w2 = imp [OF i]
      show ?thesis
      proof (cases "fds < 1 \<or> r = None")
        case bad: True
        then show ?thesis using run True m Some q i w1 w2 keep ok
          by (auto simp: adapter_importBuffer_def Let_def split: if_splits intro!: cache_ok_world)
      next
        case good: False
        then obtain x where x: "r = Some x" by auto
        have new: "?key \<notin> set (map fst (ad_cache a))" by (rule no_key) (use True in simp)
        show ?thesis using run True m Some q i good x w1 w2 ok new
          by (auto simp: adapter_importBuffer_def cache_ok_def new_key_update)
      qed
    qed
  qed
qed

lemma fill_cache_ok:
  assumes "importer_laws V alive" "cache_ok alive a"
  shows "cache_ok alive (fill_output V h s a)"
proof -
  obtain v2 w1 where v: "(if ad_hasV2 a then av_v2_active V (ad_world a) else (False, ad_world a)) = (v2, w1)" by fastforce
  obtain f w2 where f: "(if v2 then av_fillBufferFromV2 V h (st_width s) (st_height s) w1 else (False, w1)) = (f, w2)" by fastforce
  have "alive w1 = alive (ad_world a)" "alive w2 = alive w1"
    using assms(1) v f unfolding importer_laws_def by (metis snd_conv)+
  then show ?thesis using assms v f
    by (auto simp: fill_output_def importer_laws_def Let_def intro!: cache_ok_world)
qed

lemma output_cache_ok:
  assumes "importer_laws V alive" "cache_ok alive a" "adapter_output V b a = (ob, a')"
  shows "cache_ok alive a'"
proof -
  obtain h a1 where i: "adapter_importBuffer V b a = (h, a1)" by fastforce
  have a1: "cache_ok alive a1" by (rule import_cache_ok [OF assms(1,2) i])
  then have "cache_ok alive (fill_output V x s a1)" for x s by (rule fill_cache_ok [OF assms(1)])
  then show ?thesis using assms(3) i a1
    by (auto simp: adapter_output_def cache_ok_def Let_def split: option.splits)
qed

lemma outputs_cache_ok:
  "importer_laws V alive \<Longrightarrow> cache_ok alive a \<Longrightarrow> cache_ok alive (snd (adapter_outputs V bs a))"
proof (induction bs arbitrary: a)
  case Nil
  then show ?case by simp
next
  case (Cons b bs)
  obtain ob a1 where one: "adapter_output V b a = (ob, a1)" by fastforce
  show ?case using Cons.IH [OF Cons.prems(1) output_cache_ok [OF Cons.prems one]] one
    by (auto split: prod.splits)
qed

lemma requests_cache_ok:
  "importer_laws V alive \<Longrightarrow> cache_ok alive a \<Longrightarrow> cache_ok alive (snd (adapter_requests V rqs n a))"
proof (induction rqs arbitrary: n a)
  case Nil
  then show ?case by simp
next
  case (Cons rq rqs)
  obtain t w1 where t: "av_now V (ad_world a) = (t, w1)" by fastforce
  have w1: "alive w1 = alive (ad_world a)" using Cons.prems(1) t unfolding importer_laws_def by (metis snd_conv)
  obtain st a1 where one: "adapter_processSingleRequest V rq a = (st, a1)" by fastforce
  have "cache_ok alive (a\<lparr>ad_world := w1, ad_events := es\<rparr>)" for es
    using Cons.prems(2) w1 by (simp add: cache_ok_def)
  from outputs_cache_ok [OF Cons.prems(1) this]
  have "cache_ok alive (snd (adapter_outputs V (rq_outputBuffers rq) (a\<lparr>ad_world := w1,
      ad_events := ad_events a @ [Notify [Shutter (rq_frameNumber rq) t t]]\<rparr>)))" .
  then have "cache_ok alive a1" using one t
    by (auto simp: adapter_processSingleRequest_def cache_ok_def Let_def split: prod.splits)
  from Cons.IH [OF Cons.prems(1) this] show ?case using one \<open>cache_ok alive a1\<close> by simp
qed

lemma remove_cache_ok:
  "importer_laws V alive \<Longrightarrow> cache_ok alive a \<Longrightarrow> cache_ok alive (adapter_removeBuffersFromCache V keys a)"
  unfolding adapter_removeBuffersFromCache_def
proof (induction keys arbitrary: a)
  case Nil
  then show ?case by simp
next
  case (Cons k keys)
  have "cache_ok alive (remove_cached V k a)"
    using Cons.prems
    by (simp add: remove_cached_def cache_ok_def importer_laws_def distinct_delete mset_delete_key
        del: mset_map split: option.splits)
  then show ?case using Cons by simp
qed

inductive adapter_step :: "'w adapter_env \<Rightarrow> 'w adapter \<Rightarrow> 'w adapter \<Rightarrow> bool" for V where
  configure: "adapter_configureStreams V ss a = (res, a') \<Longrightarrow> adapter_step V a a'"
| process: "adapter_processCaptureRequest V rqs keys a = (res, a') \<Longrightarrow> adapter_step V a a'"
| close: "adapter_step V a (adapter_close a)"

lemma step_cache_ok:
  assumes "adapter_step V a a'" "importer_laws V alive" "cache_ok alive a"
  shows "cache_ok alive a'"
  using assms(1)
proof (cases rule: adapter_step.cases)
  case (configure ss res)
  have "cache_ok alive (a\<lparr>ad_streams := (\<lambda>_. None)\<rparr>)" using assms(3) by (simp add: cache_ok_def)
  from clear_cache_ok [OF assms(2) this]
  have a2: "cache_ok alive ((clear_cache V (a\<lparr>ad_streams := (\<lambda>_. None)\<rparr>))\<lparr>ad_streams := m\<rparr>)" for m
    by (simp add: cache_ok_def)
  have "cache_ok alive (publish_format V ss b)" if "cache_ok alive b" for b
    using that assms(2) by (auto simp: publish_format_def importer_laws_def Let_def split: list.splits intro!: cache_ok_world)
  then show ?thesis using configure assms(3) a2 by (auto simp: adapter_configureStreams_def Let_def split: if_splits)
next
  case (process rqs keys res)
  show ?thesis
  proof (cases "ad_closed a")
    case True
    then show ?thesis using process assms(3) by (simp add: adapter_processCaptureRequest_def)
  next
    case False
    have "cache_ok alive (if keys \<noteq> [] then adapter_removeBuffersFromCache V keys a else a)"
      using remove_cache_ok [OF assms(2,3)] assms(3) by simp
    from requests_cache_ok [OF assms(2) this, of rqs 0] show ?thesis
      using process False by (auto simp: adapter_processCaptureRequest_def Let_def split: prod.splits)
  qed
next
  case close
  then show ?thesis using assms(3) by (simp add: adapter_close_def cache_ok_def)
qed

text \<open>
  C33: However a session is configured, fed and closed, the handles it has
  imported and not freed are exactly those of its cache, each once; configuring streams and
  destroying the session free all of them.
\<close>

theorem adapter_frees_buffers:
  assumes "importer_laws V alive" "alive w = {#}" "(adapter_step V)\<^sup>*\<^sup>* (adapter_create v1 v2 w) a"
  shows "alive (ad_world a) = mset (map snd (ad_cache a)) \<and>
    (\<not> ad_closed a \<longrightarrow> alive (ad_world (snd (adapter_configureStreams V ss a))) = {#}) \<and>
    alive (ad_world (adapter_destroy V a)) = {#}"
proof -
  have ok: "cache_ok alive a"
    using assms(3)
  proof (induction rule: rtranclp_induct)
    case base
    then show ?case using assms(2) by (simp add: cache_ok_def adapter_create_def)
  next
    case (step y z)
    then show ?case using step_cache_ok assms(1) by blast
  qed
  have "cache_ok alive (a\<lparr>ad_streams := (\<lambda>_. None)\<rparr>)" using ok by (simp add: cache_ok_def)
  from clear_cache_ok [OF assms(1) this]
  have "alive (ad_world (clear_cache V (a\<lparr>ad_streams := (\<lambda>_. None)\<rparr>))) = {#}" by simp
  moreover have "alive (ad_world (publish_format V ss b)) = alive (ad_world b)" for b
    using assms(1) by (auto simp: publish_format_def importer_laws_def Let_def split: list.splits)
  ultimately have "\<not> ad_closed a \<longrightarrow> alive (ad_world (snd (adapter_configureStreams V ss a))) = {#}"
    by (simp add: adapter_configureStreams_def Let_def)
  moreover have "alive (ad_world (adapter_destroy V a)) = {#}"
    using clear_cache_ok [OF assms(1) ok] by (simp add: adapter_destroy_def adapter_close_def)
  ultimately show ?thesis using ok by (simp add: cache_ok_def)
qed

text \<open>An importer whose world lists the handles that are alive; every import makes handle 7.\<close>

definition listing_env :: "nat list adapter_env" where
  "listing_env = \<lparr>av_now = (\<lambda>w. (5, w)), av_makeFromAidl = (\<lambda>_ w. (Some (3, 1), w)), av_closeHandle = (\<lambda>_ w. w),
     av_importBuffer = (\<lambda>_ w. (Some 7, 7 # w)), av_freeBuffer = (\<lambda>b w. remove1 b w),
     av_v2_active = (\<lambda>w. (False, w)), av_fillBufferFromV2 = (\<lambda>_ _ _ w. (False, w)),
     av_fillYuvBufferFromRenderer = (\<lambda>_ _ _ _ w. w), av_v2_requestFormat = (\<lambda>_ _ _ _ w. w),
     av_v1_requestFormat = (\<lambda>_ _ _ w. w)\<rparr>"

definition one_buffer_request :: capture_request where
  "one_buffer_request = \<lparr>rq_frameNumber = 1,
     rq_outputBuffers = [\<lparr>sb_streamId = 0, sb_bufferId = 4, sb_buffer = \<lparr>nh_fds = [20], nh_ints = []\<rparr>,
       sb_acquireFence = \<lparr>nh_fds = [], nh_ints = []\<rparr>\<rparr>],
     rq_inputStreamId = -1, rq_settings = NoSettings, rq_fmqSettingsSize = 0\<rparr>"

lemma listing_laws: "importer_laws listing_env mset"
  by (simp add: importer_laws_def listing_env_def)

lemma adapter_frees_buffers_witness:
  "\<exists>a. (adapter_step listing_env)\<^sup>*\<^sup>* (adapter_create True True []) a \<and> ad_world a = [7] \<and>
    mset (ad_world (adapter_destroy listing_env a)) = {#}"
proof -
  let ?run = "adapter_processCaptureRequest listing_env [one_buffer_request] [] (adapter_create True True [])"
  obtain res a where run: "?run = (res, a)" by fastforce
  have "ad_world (snd ?run) = [7]" by code_simp
  then have w: "ad_world a = [7]" using run by simp
  have steps: "(adapter_step listing_env)\<^sup>*\<^sup>* (adapter_create True True []) a"
    using adapter_step.process [OF run] by blast
  from adapter_frees_buffers [OF listing_laws _ steps] show ?thesis using steps w by auto
qed

end
