(* ===== verification/Gpu_Planes.thy ===== *)
theory Gpu_Planes
  imports Complex_Main Fill_Theorems
begin

text \<open>
  The pixel side of \<open>hal/core/GpuCompositor.cpp\<close>: the extension test, the two fragment
  shaders that write packed luma and chroma planes, and the rows that are copied from those
  planes into the output buffer. The shaders are evaluated in exact rationals with the
  texture state the code sets (linear filter, clamped to the edge); a colour byte is stored
  rounded to nearest, as OpenGL ES prescribes. Rounding inside the driver's floats is not
  modelled.
\<close>

section \<open>The extension list\<close>

text \<open>\<open>strstr\<close>: the text before the first occurrence, and the rest that starts with it.\<close>

fun strstr :: "string \<Rightarrow> string \<Rightarrow> (string \<times> string) option" where
  "strstr p [] = (if p = [] then Some ([], []) else None)"
| "strstr p (c # cs) = (if take (length p) (c # cs) = p then Some ([], c # cs)
     else map_option (\<lambda>(pre, rest). (c # pre, rest)) (strstr p cs))"

lemma strstr_SomeD:
  "strstr p s = Some (pre, rest) \<Longrightarrow> s = pre @ rest \<and> take (length p) rest = p"
  by (induction s arbitrary: pre) (auto split: if_splits)

text \<open>
  \<open>before\<close> is the text already passed, \<open>p[-1]\<close> its last character. The loop advances by
  the length of a non-empty name.
\<close>

function extension_loop :: "string \<Rightarrow> string \<Rightarrow> string \<Rightarrow> bool" where
  "extension_loop name before s = (case strstr name s of
       None \<Rightarrow> False
     | Some (pre, rest) \<Rightarrow>
         if (before @ pre = [] \<or> last (before @ pre) = CHR '' '') \<and>
            (drop (length name) rest = [] \<or> hd (drop (length name) rest) = CHR '' '') then True
         else if name = [] then False
         else extension_loop name (before @ pre @ name) (drop (length name) rest))"
  by pat_completeness auto
termination
proof (relation "measure (\<lambda>(name, before, s). length s)", simp, clarsimp)
  fix name before s pre rest
  assume s: "strstr name s = Some (pre, rest)" and ne: "name \<noteq> ([] :: string)"
  then have "s = pre @ rest" "take (length name) rest = name" using strstr_SomeD by auto
  then show "length rest - length name < length s"
    using ne by (metis diff_less length_append length_greater_0_conv less_le_trans le_add2 take_eq_Nil2)
qed

declare extension_loop.simps [simp del]

definition hasExtension :: "string option \<Rightarrow> string \<Rightarrow> bool" where
  "hasExtension list name = (case list of None \<Rightarrow> False | Some s \<Rightarrow> extension_loop name [] s)"

text \<open>The words of a list of extensions.\<close>

fun words_of :: "string \<Rightarrow> string list" where
  "words_of [] = [[]]"
| "words_of (c # cs) = (if c = CHR '' '' then [] # words_of cs
     else (c # hd (words_of cs)) # tl (words_of cs))"

section \<open>Sampling\<close>

type_synonym picture = "int \<Rightarrow> int \<Rightarrow> 8 word \<times> 8 word \<times> 8 word"

definition clamp_edge :: "int \<Rightarrow> int \<Rightarrow> int" where
  "clamp_edge n i = min (n - 1) (max 0 i)"

text \<open>One channel of a texture at the normalized coordinates \<open>(u, v)\<close>.\<close>

definition sample_linear :: "(int \<Rightarrow> int \<Rightarrow> rat) \<Rightarrow> int \<Rightarrow> int \<Rightarrow> rat \<Rightarrow> rat \<Rightarrow> rat" where
  "sample_linear t W H u v =
     (let x = u * of_int W - 1 / 2; y = v * of_int H - 1 / 2;
          i = floor x; j = floor y; a = x - of_int i; b = y - of_int j;
          f = (\<lambda>i j. t (clamp_edge W i) (clamp_edge H j)) in
      (1 - a) * (1 - b) * f i j + a * (1 - b) * f (i + 1) j +
      (1 - a) * b * f i (j + 1) + a * b * f (i + 1) (j + 1))"

definition unorm :: "8 word \<Rightarrow> rat" where
  "unorm b = of_int (uint b) / 255"

definition texture2D :: "picture \<Rightarrow> int \<Rightarrow> int \<Rightarrow> rat \<Rightarrow> rat \<Rightarrow> rat \<times> rat \<times> rat" where
  "texture2D p W H u v =
     (sample_linear (\<lambda>x y. unorm (fst (p x y))) W H u v,
      sample_linear (\<lambda>x y. unorm (fst (snd (p x y)))) W H u v,
      sample_linear (\<lambda>x y. unorm (snd (snd (p x y)))) W H u v)"

definition store_unorm :: "rat \<Rightarrow> 8 word" where
  "store_unorm q = word_of_int (floor (min 1 (max 0 q) * 255 + 1 / 2))"

section \<open>The shaders\<close>

text \<open>\<open>kFragY\<close> and \<open>kFragUv\<close>; the texture is \<open>W\<close> by \<open>H\<close>, \<open>uSize\<close> is \<open>(sx, sy)\<close>.\<close>

definition dot3 :: "rat \<times> rat \<times> rat \<Rightarrow> rat \<Rightarrow> rat \<Rightarrow> rat \<Rightarrow> rat" where
  "dot3 c x y z = (case c of (r, g, b) \<Rightarrow> r * x + g * y + b * z)"

definition shader_luma :: "picture \<Rightarrow> int \<Rightarrow> int \<Rightarrow> rat \<Rightarrow> rat \<Rightarrow> rat" where
  "shader_luma p W H u v = dot3 (texture2D p W H u v) 66 129 25 / 256 + 16 / 255"

definition kFragY :: "picture \<Rightarrow> int \<Rightarrow> int \<Rightarrow> rat \<times> rat \<Rightarrow> rat \<times> rat \<Rightarrow> rat list" where
  "kFragY p W H uSize coord = (case (uSize, coord) of ((sx, sy), (fx, fy)) \<Rightarrow>
     let x0 = (fx - 1 / 2) * 4; v = fy / sy in
     [shader_luma p W H ((x0 + 1 / 2) / sx) v, shader_luma p W H ((x0 + 3 / 2) / sx) v,
      shader_luma p W H ((x0 + 5 / 2) / sx) v, shader_luma p W H ((x0 + 7 / 2) / sx) v])"

definition shader_chroma :: "picture \<Rightarrow> int \<Rightarrow> int \<Rightarrow> rat \<Rightarrow> rat \<Rightarrow> rat \<Rightarrow> rat list" where
  "shader_chroma p W H uSwap u' v' =
     (let c = texture2D p W H u' v';
          u = dot3 c (-38) (-74) 112 / 256 + 128 / 255;
          v = dot3 c 112 (-94) (-18) / 256 + 128 / 255 in
      if uSwap > 1 / 2 then [v, u] else [u, v])"

definition kFragUv :: "picture \<Rightarrow> int \<Rightarrow> int \<Rightarrow> rat \<times> rat \<Rightarrow> rat \<Rightarrow> rat \<times> rat \<Rightarrow> rat list" where
  "kFragUv p W H uSize uSwap coord = (case (uSize, coord) of ((sx, sy), (fx, fy)) \<Rightarrow>
     let x0 = (fx - 1 / 2) * 4; y = (fy - 1 / 2) * 2 + 1 in
     shader_chroma p W H uSwap ((x0 + 1) / sx) (y / sy) @
     shader_chroma p W H uSwap ((x0 + 3) / sx) (y / sy))"

text \<open>
  A pass over a target runs the shader at the centre of each texel and stores four bytes
  there. \<open>holds_pass\<close> says that the locked target at \<open>base\<close>, whose rows are
  \<open>row\<close> bytes apart, holds the result.
\<close>

definition texel_centre :: "int \<Rightarrow> rat" where
  "texel_centre i = of_int i + 1 / 2"

definition holds_pass :: "(rat \<times> rat \<Rightarrow> rat list) \<Rightarrow> int \<Rightarrow> int \<Rightarrow> mem \<Rightarrow> int \<Rightarrow> int \<Rightarrow> bool" where
  "holds_pass shader tw th s base row \<longleftrightarrow>
     (\<forall>X Y. 0 \<le> X \<and> X < tw \<and> 0 \<le> Y \<and> Y < th \<longrightarrow>
        map (\<lambda>i. s (base + Y * row + 4 * X + i)) [0, 1, 2, 3] =
        map store_unorm (shader (texel_centre X, texel_centre Y)))"

section \<open>Copying the packed planes\<close>

definition is_nv21 :: "ycbcr \<Rightarrow> bool" where
  "is_nv21 d = (yc_chroma_step d = 2 \<and> yc_cb d = yc_cr d + 1)"

definition copy_planes :: "mem \<Rightarrow> int \<Rightarrow> int \<Rightarrow> int \<Rightarrow> int \<Rightarrow> ycbcr \<Rightarrow> int \<Rightarrow> int \<Rightarrow> mem \<Rightarrow> mem" where
  "copy_planes s yp yRow uvp uvRow d width height m =
     (let m1 = for_range height (\<lambda>r. memcpy (yc_y d + r * yc_ystride d) (yp + r * yRow) width s) m;
          chromaH = height div 2; chromaW = width div 2 in
      if yc_chroma_step d = 2 then
        let base = (if is_nv21 d then yc_cr d else yc_cb d) in
        for_range chromaH (\<lambda>r. memcpy (base + r * yc_cstride d) (uvp + r * uvRow) width s) m1
      else
        for_range chromaH (\<lambda>r. for_range chromaW (\<lambda>c m.
          m(yc_cb d + r * yc_cstride d + c := s (uvp + r * uvRow + 2 * c),
            yc_cr d + r * yc_cstride d + c := s (uvp + r * uvRow + (2 * c + 1))))) m1)"

section \<open>The extension test finds words\<close>

definition delimited :: "string \<Rightarrow> string \<Rightarrow> string \<Rightarrow> bool" where
  "delimited name before s \<longleftrightarrow> (\<exists>pre post. s = pre @ name @ post \<and>
     (before @ pre = [] \<or> last (before @ pre) = CHR '' '') \<and> (post = [] \<or> hd post = CHR '' ''))"

lemma strstr_None: "strstr p s = None \<Longrightarrow> s \<noteq> pre @ p @ post"
proof (induction s arbitrary: pre)
  case Nil
  then show ?case by (auto split: if_splits)
next
  case (Cons c cs)
  then show ?case by (cases pre) (auto split: if_splits)
qed

lemma strstr_first: "strstr p s = Some (pre, rest) \<Longrightarrow> s = pre' @ p @ post \<Longrightarrow> length pre \<le> length pre'"
proof (induction s arbitrary: pre pre')
  case Nil
  then show ?case by (auto split: if_splits)
next
  case (Cons c cs)
  show ?case
  proof (cases pre')
    case Nil
    then have "take (length p) (c # cs) = p" using Cons.prems(2) by simp
    then show ?thesis using Cons.prems(1) by simp
  next
    case (Cons a as)
    then show ?thesis using Cons.IH Cons.prems by (auto split: if_splits)
  qed
qed

lemma skipped_hit:
  assumes s: "strstr name s = Some (pre, rest)" and name: "name \<noteq> []" "CHR '' '' \<notin> set name"
    and miss: "\<not> ((before @ pre = [] \<or> last (before @ pre) = CHR '' '') \<and>
      (drop (length name) rest = [] \<or> hd (drop (length name) rest) = CHR '' ''))"
  shows "delimited name before s = delimited name (before @ pre @ name) (drop (length name) rest)"
proof
  have rest: "s = pre @ name @ drop (length name) rest"
    using strstr_SomeD [OF s] by (metis append_take_drop_id)
  assume "delimited name before s"
  then obtain p q where pq: "s = p @ name @ q" "before @ p = [] \<or> last (before @ p) = CHR '' ''"
    "q = [] \<or> hd q = CHR '' ''" by (auto simp: delimited_def)
  have le: "length pre \<le> length p" using strstr_first [OF s pq(1)] .
  define k where "k = length p - length pre"
  have p: "p = pre @ take k (name @ drop (length name) rest)"
    using arg_cong [OF trans [OF pq(1) [symmetric] rest], of "take (length p)"] le by (simp add: k_def)
  have q: "name @ q = drop k (name @ drop (length name) rest)"
    using arg_cong [OF trans [OF pq(1) [symmetric] rest], of "drop (length p)"] le by (simp add: k_def)
  have "k \<noteq> 0"
  proof
    assume "k = 0"
    then have "p = pre" "q = drop (length name) rest" using p q by simp_all
    then show False using miss pq(2,3) by blast
  qed
  moreover have "\<not> k < length name"
  proof
    assume k: "k < length name"
    then have "p = pre @ take k name" using p by simp
    then have "last (before @ p) = name ! (k - 1)" using k \<open>k \<noteq> 0\<close> name(1)
      by (simp add: last_append last_conv_nth)
    moreover have "before @ p \<noteq> []" using \<open>p = pre @ take k name\<close> k \<open>k \<noteq> 0\<close> by auto
    ultimately show False using pq(2) name(2) k by (metis nth_mem less_imp_diff_less)
  qed
  ultimately obtain j where k: "k = length name + j" by (metis add_diff_inverse_nat)
  have "drop (length name) rest = take j (drop (length name) rest) @ name @ q"
    using q k by (metis append_take_drop_id append_eq_conv_conj drop_append diff_add_inverse drop_all append_Nil le_add1)
  moreover have "last ((before @ pre @ name) @ take j (drop (length name) rest)) = CHR '' ''"
    using pq(2) p k name(1) by (simp split: if_splits)
  ultimately show "delimited name (before @ pre @ name) (drop (length name) rest)"
    using pq(3) unfolding delimited_def by blast
next
  have rest: "s = pre @ name @ drop (length name) rest"
    using strstr_SomeD [OF s] by (metis append_take_drop_id)
  assume "delimited name (before @ pre @ name) (drop (length name) rest)"
  then obtain p q where "drop (length name) rest = p @ name @ q" "last (before @ (pre @ name @ p)) = CHR '' ''"
      "q = [] \<or> hd q = CHR '' ''" using name(1) by (auto simp: delimited_def)
  then show "delimited name before s"
    using rest unfolding delimited_def by (metis append.assoc)
qed

lemma extension_loop_delimited:
  "name \<noteq> [] \<Longrightarrow> CHR '' '' \<notin> set name \<Longrightarrow> extension_loop name before s = delimited name before s"
proof (induction name before s rule: extension_loop.induct)
  case (1 name before s)
  show ?case
  proof (cases "strstr name s")
    case None
    then show ?thesis
      using strstr_None [OF None] by (simp add: extension_loop.simps [of name before s] delimited_def)
  next
    case (Some pr)
    obtain pre rest where s: "strstr name s = Some (pre, rest)" using Some by (cases pr) auto
    have rest: "s = pre @ name @ drop (length name) rest"
      using strstr_SomeD [OF s] by (metis append_take_drop_id)
    show ?thesis
    proof (cases "(before @ pre = [] \<or> last (before @ pre) = CHR '' '') \<and>
        (drop (length name) rest = [] \<or> hd (drop (length name) rest) = CHR '' '')")
      case True
      then have "delimited name before s" using rest unfolding delimited_def by blast
      then show ?thesis using s True by (simp add: extension_loop.simps [of name before s])
    next
      case False
      have "extension_loop name (before @ pre @ name) (drop (length name) rest) =
          delimited name (before @ pre @ name) (drop (length name) rest)"
        using 1(1) [OF s refl False 1(2)] 1(2,3) by simp
      then show ?thesis
        using skipped_hit [OF s 1(2,3) False] False s
        by (subst extension_loop.simps) (simp only: option.case prod.case if_False 1(2) simp_thms)
    qed
  qed
qed

lemma words_first: "hd (words_of s) = takeWhile (\<lambda>c. c \<noteq> CHR '' '') s" "words_of s \<noteq> []"
  by (induction s) auto

lemma first_word:
  assumes "CHR '' '' \<notin> set name"
  shows "takeWhile (\<lambda>c. c \<noteq> CHR '' '') s = name \<longleftrightarrow> (\<exists>post. s = name @ post \<and> (post = [] \<or> hd post = CHR '' ''))"
proof
  assume t: "takeWhile (\<lambda>c. c \<noteq> CHR '' '') s = name"
  show "\<exists>post. s = name @ post \<and> (post = [] \<or> hd post = CHR '' '')"
    using t takeWhile_dropWhile_id [of "\<lambda>c. c \<noteq> CHR '' ''" s] hd_dropWhile [of "\<lambda>c. c \<noteq> CHR '' ''" s] by metis
next
  assume "\<exists>post. s = name @ post \<and> (post = [] \<or> hd post = CHR '' '')"
  then obtain post where s: "s = name @ post" "post = [] \<or> hd post = CHR '' ''" by blast
  then show "takeWhile (\<lambda>c. c \<noteq> CHR '' '') s = name"
    using assms by (cases post) (auto simp: takeWhile_append takeWhile_eq_all_conv)
qed

lemma later_word:
  assumes "CHR '' '' \<notin> set name"
  shows "name \<in> set (tl (words_of s)) \<longleftrightarrow>
    (\<exists>pre post. s = pre @ CHR '' '' # name @ post \<and> (post = [] \<or> hd post = CHR '' ''))"
proof (induction s)
  case Nil
  then show ?case by simp
next
  case (Cons c cs)
  have split: "name \<in> set (words_of cs) \<longleftrightarrow> takeWhile (\<lambda>c. c \<noteq> CHR '' '') cs = name \<or> name \<in> set (tl (words_of cs))"
    using words_first [of cs] by (cases "words_of cs") auto
  have "name \<in> set (tl (words_of (c # cs))) \<longleftrightarrow>
      (c = CHR '' '' \<and> takeWhile (\<lambda>c. c \<noteq> CHR '' '') cs = name) \<or> name \<in> set (tl (words_of cs))"
    using split by auto
  also have "\<dots> \<longleftrightarrow> (\<exists>pre post. c # cs = pre @ CHR '' '' # name @ post \<and> (post = [] \<or> hd post = CHR '' ''))"
    unfolding Cons.IH first_word [OF assms] by (auto simp: Cons_eq_append_conv)
  finally show ?case .
qed

lemma word_delimited:
  assumes "CHR '' '' \<notin> set name"
  shows "name \<in> set (words_of s) = delimited name [] s"
proof -
  have "name \<in> set (words_of s) \<longleftrightarrow> takeWhile (\<lambda>c. c \<noteq> CHR '' '') s = name \<or> name \<in> set (tl (words_of s))"
    using words_first [of s] by (cases "words_of s") auto
  also have "\<dots> \<longleftrightarrow> delimited name [] s"
  proof -
    have split: "(\<exists>p post. s = p @ name @ post \<and> (p = [] \<or> (\<exists>pre. p = pre @ [CHR '' ''])) \<and> D post) \<longleftrightarrow>
        (\<exists>post. s = name @ post \<and> D post) \<or> (\<exists>pre post. s = pre @ CHR '' '' # name @ post \<and> D post)" for D
    proof
      assume "\<exists>p post. s = p @ name @ post \<and> (p = [] \<or> (\<exists>pre. p = pre @ [CHR '' ''])) \<and> D post"
      then show "(\<exists>post. s = name @ post \<and> D post) \<or> (\<exists>pre post. s = pre @ CHR '' '' # name @ post \<and> D post)"
        by (elim exE conjE disjE) (simp_all, blast)
    next
      assume "(\<exists>post. s = name @ post \<and> D post) \<or> (\<exists>pre post. s = pre @ CHR '' '' # name @ post \<and> D post)"
      then show "\<exists>p post. s = p @ name @ post \<and> (p = [] \<or> (\<exists>pre. p = pre @ [CHR '' ''])) \<and> D post"
      proof (elim disjE exE conjE)
        fix post assume "s = name @ post" "D post"
        then show ?thesis by (intro exI [of _ "[]"] exI [of _ post]) simp
      next
        fix pre post assume "s = pre @ CHR '' '' # name @ post" "D post"
        then show ?thesis by (intro exI [of _ "pre @ [CHR '' '']"] exI [of _ post]) simp
      qed
    qed
    have end_space: "(p = [] \<or> last p = CHR '' '') \<longleftrightarrow> p = [] \<or> (\<exists>pre. p = pre @ [CHR '' ''])" for p :: string
      by (metis append_butlast_last_id last_snoc)
    have "delimited name [] s \<longleftrightarrow> (\<exists>post. s = name @ post \<and> (post = [] \<or> hd post = CHR '' '')) \<or>
        (\<exists>pre post. s = pre @ CHR '' '' # name @ post \<and> (post = [] \<or> hd post = CHR '' ''))"
      unfolding delimited_def append_Nil end_space by (rule split)
    then show ?thesis unfolding first_word [OF assms] later_word [OF assms] by blast
  qed
  finally show ?thesis .
qed

text \<open>
  A device has an extension exactly when its name is one of the words of the list the
  driver reports; a name that only begins or ends another one is not found. (The code asks
  for one fixed name; with an empty name its loop would not end.)
\<close>

theorem extension_is_word:
  assumes "name \<noteq> []" "CHR '' '' \<notin> set name"
  shows "hasExtension (Some s) name = (name \<in> set (words_of s)) \<and> \<not> hasExtension None name"
  by (simp add: hasExtension_def extension_loop_delimited [OF assms] word_delimited [OF assms(2)])

theorem extension_is_word_witness:
  "hasExtension (Some ''fence_x fence'') ''fence'' \<and>
   \<not> hasExtension (Some ''fence_x'') ''fence''"
proof -
  have name: "''fence'' \<noteq> []" "CHR '' '' \<notin> set ''fence''" by simp_all
  have "''fence'' \<in> set (words_of ''fence_x fence'')"
      "''fence'' \<notin> set (words_of ''fence_x'')"
    by simp_all
  then show ?thesis
    using extension_is_word [OF name, of "''fence_x fence''"]
      extension_is_word [OF name, of "''fence_x''"] by blast
qed

section \<open>What the shaders store\<close>

lemma floor_half: "floor (of_int n + 1 / 2 :: rat) = n"
  by (rule floor_unique) simp_all

lemma floor_quotient: "0 < d \<Longrightarrow> floor (of_int n / of_int d + of_int k :: rat) = n div d + k"
  by (simp add: floor_divide_of_int_eq)

text \<open>At the centre of a texel the filter reads that texel, at a corner the mean of four.\<close>

lemma sample_at_centre:
  assumes "0 \<le> x" "x < W" "0 \<le> y" "y < H"
  shows "sample_linear t W H ((of_int x + 1 / 2) / of_int W) ((of_int y + 1 / 2) / of_int H) = t x y"
proof -
  have c: "(of_int x + 1 / 2) / of_int W * of_int W - 1 / 2 = (of_int x :: rat)"
      "(of_int y + 1 / 2) / of_int H * of_int H - 1 / 2 = (of_int y :: rat)"
    using assms by simp_all
  have e: "clamp_edge W x = x" "clamp_edge H y = y" using assms by (simp_all add: clamp_edge_def)
  show ?thesis unfolding sample_linear_def Let_def c floor_of_int by (simp add: e)
qed

lemma sample_at_corner:
  assumes "0 \<le> x" "x + 1 < W" "0 \<le> y" "y + 1 < H"
  shows "sample_linear t W H ((of_int x + 1) / of_int W) ((of_int y + 1) / of_int H) =
    (t x y + t (x + 1) y + t x (y + 1) + t (x + 1) (y + 1)) / 4"
proof -
  have c: "(of_int x + 1) / of_int W * of_int W - 1 / 2 = (of_int x + 1 / 2 :: rat)"
      "(of_int y + 1) / of_int H * of_int H - 1 / 2 = (of_int y + 1 / 2 :: rat)"
    using assms by simp_all
  have e: "clamp_edge W x = x" "clamp_edge W (x + 1) = x + 1" "clamp_edge H y = y" "clamp_edge H (y + 1) = y + 1"
    using assms by (simp_all add: clamp_edge_def)
  show ?thesis unfolding sample_linear_def Let_def c floor_half e by (simp add: field_simps)
qed

text \<open>A quotient of the video range is stored as the rounded quotient.\<close>

lemma store_quotient:
  assumes "q = of_int n / of_int d / 255 + of_int k / 255" "0 < d" "even d"
    and "0 \<le> n + k * d" "n + k * d \<le> 255 * d"
  shows "store_unorm q = word_of_int ((n + d div 2) div d + k)"
proof -
  obtain e where d: "d = 2 * e" using assms(3) by blast
  have "0 \<le> (of_int (n + k * d) :: rat)" "(of_int (n + k * d) :: rat) \<le> of_int (255 * d)"
    using assms(4,5) by (simp_all only: of_int_le_iff of_int_0_le_iff)
  moreover have "q = of_int (n + k * d) / of_int (255 * d)"
    using assms(1,2) by (simp add: field_simps)
  moreover have "0 < (of_int (255 * d) :: rat)" using assms(2) by simp
  ultimately have q: "0 \<le> q" "q \<le> 1" by (simp_all only: divide_nonneg_pos divide_le_eq_1_pos)
  have "min 1 (max 0 q) * 255 + 1 / 2 = of_int (n + e) / of_int d + of_int k"
    using q assms(1,2) d by (simp add: max_absorb2 min_absorb2) (simp add: field_simps)
  then have "floor (min 1 (max 0 q) * 255 + 1 / 2) = (n + e) div d + k"
    by (simp only: floor_quotient [OF assms(2)])
  then show ?thesis using d assms(2) by (simp add: store_unorm_def)
qed

lemma byte_bounds: "0 \<le> uint (b :: 8 word)" "uint (b :: 8 word) \<le> 255"
  using uint_lt2p [of b] by simp_all

lemma clamp8_inside: "0 \<le> v \<Longrightarrow> v \<le> 255 \<Longrightarrow> clamp8 v = word_of_int v"
  by (simp add: clamp8_def)

lemma stored_luma:
  assumes xy: "0 \<le> x" "x < W" "0 \<le> y" "y < H"
  shows "store_unorm (shader_luma p W H ((of_int x + 1 / 2) / of_int W) ((of_int y + 1 / 2) / of_int H)) =
    (case p x y of (r, g, b) \<Rightarrow> fst (rgbaToYuv r g b))"
proof -
  obtain r g b where p: "p x y = (r, g, b)" by (cases "p x y") auto
  let ?n = "66 * uint r + 129 * uint g + 25 * uint b"
  have n: "0 \<le> ?n" "?n \<le> 239 * 256" using byte_bounds [of r] byte_bounds [of g] byte_bounds [of b] by simp_all
  have tex: "texture2D p W H ((of_int x + 1 / 2) / of_int W) ((of_int y + 1 / 2) / of_int H) = (unorm r, unorm g, unorm b)"
    unfolding texture2D_def by (subst (1 2 3) sample_at_centre [OF xy]) (simp add: p)
  have "store_unorm (shader_luma p W H ((of_int x + 1 / 2) / of_int W) ((of_int y + 1 / 2) / of_int H)) =
      word_of_int ((?n + 256 div 2) div 256 + 16)"
    unfolding shader_luma_def tex
    by (rule store_quotient) (use n in \<open>simp_all add: dot3_def unorm_def field_simps\<close>)
  also have "\<dots> = clamp8 (luma (uint r) (uint g) (uint b))"
  proof -
    have "0 \<le> (N + 128) div 256 + 16 \<and> (N + 128) div 256 + 16 \<le> 255" if "0 \<le> N" "N \<le> 239 * 256" for N :: int
      using that zdiv_mono1 [of "N + 128" "239 * 256 + 128" 256] by (simp add: pos_imp_zdiv_nonneg_iff)
    note bounds = this [OF n]
    have "clamp8 (luma (uint r) (uint g) (uint b)) = word_of_int (luma (uint r) (uint g) (uint b))"
      using bounds by (intro clamp8_inside) (simp_all only: luma_def)
    then show ?thesis by (simp add: luma_def)
  qed
  finally show ?thesis by (simp add: p rgbaToYuv_def)
qed

text \<open>The mean chroma of a square of four pixels, rounded once.\<close>

definition square_sum :: "(int \<Rightarrow> int \<Rightarrow> 8 word) \<Rightarrow> int \<Rightarrow> int \<Rightarrow> int" where
  "square_sum t cx cy = uint (t (2 * cx) (2 * cy)) + uint (t (2 * cx + 1) (2 * cy)) +
     uint (t (2 * cx) (2 * cy + 1)) + uint (t (2 * cx + 1) (2 * cy + 1))"

definition mean_chroma :: "int \<Rightarrow> int \<Rightarrow> int \<Rightarrow> picture \<Rightarrow> int \<Rightarrow> int \<Rightarrow> 8 word" where
  "mean_chroma cr cg cb p cx cy = word_of_int
     ((cr * square_sum (\<lambda>x y. fst (p x y)) cx cy + cg * square_sum (\<lambda>x y. fst (snd (p x y))) cx cy +
       cb * square_sum (\<lambda>x y. snd (snd (p x y))) cx cy + 512) div 1024 + 128)"

lemma square_sum_bounds: "0 \<le> square_sum t cx cy" "square_sum t cx cy \<le> 1020"
  unfolding square_sum_def
  using byte_bounds [of "t (2 * cx) (2 * cy)"] byte_bounds [of "t (2 * cx + 1) (2 * cy)"]
    byte_bounds [of "t (2 * cx) (2 * cy + 1)"] byte_bounds [of "t (2 * cx + 1) (2 * cy + 1)"] by simp_all

lemma texture_at_corner:
  assumes "0 \<le> cx" "2 * cx + 1 < W" "0 \<le> cy" "2 * cy + 1 < H"
    and "u = (of_int (2 * cx) + 1) / of_int W" "v = (of_int (2 * cy) + 1) / of_int H"
  shows "texture2D p W H u v =
    (of_int (square_sum (\<lambda>x y. fst (p x y)) cx cy) / 1020,
     of_int (square_sum (\<lambda>x y. fst (snd (p x y))) cx cy) / 1020,
     of_int (square_sum (\<lambda>x y. snd (snd (p x y))) cx cy) / 1020)"
  unfolding texture2D_def assms(5,6)
  by (subst (1 2 3) sample_at_corner) (use assms(1-4) in \<open>simp_all add: square_sum_def unorm_def\<close>)

lemma stored_chroma:
  assumes cxy: "0 \<le> cx" "2 * cx + 1 < W" "0 \<le> cy" "2 * cy + 1 < H"
    and uv: "u = (of_int (2 * cx) + 1) / of_int W" "v = (of_int (2 * cy) + 1) / of_int H"
  shows "map store_unorm (shader_chroma p W H uSwap u v) =
    (if uSwap > 1 / 2 then [mean_chroma 112 (-94) (-18) p cx cy, mean_chroma (-38) (-74) 112 p cx cy]
     else [mean_chroma (-38) (-74) 112 p cx cy, mean_chroma 112 (-94) (-18) p cx cy])"
proof -
  define R G B where "R = square_sum (\<lambda>x y. fst (p x y)) cx cy" and "G = square_sum (\<lambda>x y. fst (snd (p x y))) cx cy"
    and "B = square_sum (\<lambda>x y. snd (snd (p x y))) cx cy"
  have bounds: "0 \<le> R" "R \<le> 1020" "0 \<le> G" "G \<le> 1020" "0 \<le> B" "B \<le> 1020"
    unfolding R_def G_def B_def by (rule square_sum_bounds)+
  have cb: "store_unorm (dot3 (of_int R / 1020, of_int G / 1020, of_int B / 1020) (-38) (-74) 112 / 256 + 128 / 255) =
      word_of_int (((-38 * R + -74 * G + 112 * B) + 1024 div 2) div 1024 + 128)"
    by (rule store_quotient) (use bounds in \<open>simp_all add: dot3_def field_simps\<close>)
  have cr: "store_unorm (dot3 (of_int R / 1020, of_int G / 1020, of_int B / 1020) 112 (-94) (-18) / 256 + 128 / 255) =
      word_of_int (((112 * R + -94 * G + -18 * B) + 1024 div 2) div 1024 + 128)"
    by (rule store_quotient) (use bounds in \<open>simp_all add: dot3_def field_simps\<close>)
  have means: "mean_chroma (-38) (-74) 112 p cx cy = word_of_int (((-38 * R + -74 * G + 112 * B) + 1024 div 2) div 1024 + 128)"
      "mean_chroma 112 (-94) (-18) p cx cy = word_of_int (((112 * R + -94 * G + -18 * B) + 1024 div 2) div 1024 + 128)"
    unfolding mean_chroma_def R_def G_def B_def by simp_all
  have tex: "texture2D p W H u v = (of_int R / 1020, of_int G / 1020, of_int B / 1020)"
    unfolding R_def G_def B_def by (rule texture_at_corner [OF cxy uv])
  show ?thesis unfolding shader_chroma_def Let_def tex means cb [symmetric] cr [symmetric] by simp
qed

section \<open>The picture in the output buffer\<close>

lemma copy_planes_shown:
  assumes dist: "samples_distinct d w h" and even_width: "w div 2 * 2 = w"
    and layout: "yc_chroma_step d = 2 \<longrightarrow> yc_cr d = yc_cb d + 1 \<or> yc_cb d = yc_cr d + 1"
  shows "shows_picture d (\<lambda>x y. s (yp + y * yRow + x))
    (\<lambda>x y. s (uvp + y * uvRow + (2 * x + (if is_nv21 d then 1 else 0))))
    (\<lambda>x y. s (uvp + y * uvRow + (2 * x + (if is_nv21 d then 0 else 1)))) w h m
    (copy_planes s yp yRow uvp uvRow d w h m)"
    (is "shows_picture d ?ly ?lb ?lr w h m _")
proof -
  define luma_rows where "luma_rows = rows (\<lambda>y. yc_y d + y * yc_ystride d) (\<lambda>y. yp + y * yRow) w s h"
  have luma: "q \<in> set luma_rows \<longleftrightarrow> (\<exists>x y. 0 \<le> x \<and> x < w \<and> 0 \<le> y \<and> y < h \<and> q = (y_addr d x y, ?ly x y))" for q
    unfolding luma_rows_def set_rows y_addr_def by blast
  consider (nv21) "is_nv21 d" | (nv12) "yc_chroma_step d = 2" "\<not> is_nv21 d" | (planar) "yc_chroma_step d \<noteq> 2" by blast
  then show ?thesis
  proof cases
    case nv21
    define qs where "qs = rows (\<lambda>y. yc_cr d + y * yc_cstride d) (\<lambda>y. uvp + y * uvRow) (w div 2 * 2) s (h div 2)"
    have "copy_planes s yp yRow uvp uvRow d w h m = writes (luma_rows @ qs) m"
      using nv21 even_width by (simp add: copy_planes_def Let_def luma_rows_def qs_def for_rows writes_append is_nv21_def)
    moreover have "q \<in> set (luma_rows @ qs) \<longleftrightarrow> q \<in> set (picture d ?ly ?lb ?lr w h)" for q
      using nv21 unfolding set_append Un_iff luma set_picture qs_def set_rows pairs_upto
      by (simp add: is_nv21_def cb_addr_def cr_addr_def step_def algebra_simps) blast
    ultimately show ?thesis using picture_shown [OF dist] by metis
  next
    case nv12
    define qs where "qs = rows (\<lambda>y. yc_cb d + y * yc_cstride d) (\<lambda>y. uvp + y * uvRow) (w div 2 * 2) s (h div 2)"
    have cr: "yc_cr d = yc_cb d + 1" using nv12 layout by (simp add: is_nv21_def)
    have "copy_planes s yp yRow uvp uvRow d w h m = writes (luma_rows @ qs) m"
      using nv12 even_width by (simp add: copy_planes_def Let_def luma_rows_def qs_def for_rows writes_append)
    moreover have "q \<in> set (luma_rows @ qs) \<longleftrightarrow> q \<in> set (picture d ?ly ?lb ?lr w h)" for q
      using nv12 cr unfolding set_append Un_iff luma set_picture qs_def set_rows pairs_upto
      by (simp add: cb_addr_def cr_addr_def step_def algebra_simps) blast
    ultimately show ?thesis using picture_shown [OF dist] by metis
  next
    case planar
    define qs where "qs = grid (\<lambda>x y. [(cb_addr d x y, ?lb x y), (cr_addr d x y, ?lr x y)]) (w div 2) (h div 2)"
    have not21: "\<not> is_nv21 d" using planar by (simp add: is_nv21_def)
    have "copy_planes s yp yRow uvp uvRow d w h m = writes (luma_rows @ qs) m"
      unfolding qs_def writes_append copy_planes_def Let_def luma_rows_def for_rows
      using planar not21 by (subst for_grid) (simp_all add: cb_addr_def cr_addr_def step_def add.assoc)
    moreover have "q \<in> set (luma_rows @ qs) \<longleftrightarrow> q \<in> set (picture d ?ly ?lb ?lr w h)" for q
      unfolding set_append Un_iff luma set_picture qs_def set_grid by auto
    ultimately show ?thesis using picture_shown [OF dist] by metis
  qed
qed

lemma shows_picture_cong:
  assumes "shows_picture d ly lb lr w h m m'"
    and "\<And>x y. 0 \<le> x \<Longrightarrow> x < w \<Longrightarrow> 0 \<le> y \<Longrightarrow> y < h \<Longrightarrow> ly x y = ly' x y"
    and "\<And>x y. 0 \<le> x \<Longrightarrow> x < w div 2 \<Longrightarrow> 0 \<le> y \<Longrightarrow> y < h div 2 \<Longrightarrow> lb x y = lb' x y \<and> lr x y = lr' x y"
  shows "shows_picture d ly' lb' lr' w h m m'"
  using assms unfolding shows_picture_def by metis

lemma shows_picture_unique:
  assumes "shows_picture d ly lb lr w h m m1" "shows_picture d ly lb lr w h m m2"
  shows "m1 = m2"
proof
  fix a
  show "m1 a = m2 a"
  proof (cases "a \<in> sample_addresses d w h")
    case True
    then show ?thesis using assms unfolding sample_addresses_def shows_picture_def by fastforce
  next
    case False
    then show ?thesis using assms unfolding shows_picture_def by metis
  qed
qed

lemma pass_bytes:
  assumes "holds_pass shader tw th s base row" "0 \<le> X" "X < tw" "0 \<le> Y" "Y < th"
    and "map store_unorm (shader (texel_centre X, texel_centre Y)) = [b0, b1, b2, b3]"
  shows "s (base + Y * row + 4 * X) = b0" "s (base + Y * row + (4 * X + 1)) = b1"
    "s (base + Y * row + (4 * X + 2)) = b2" "s (base + Y * row + (4 * X + 3)) = b3"
proof -
  have "map (\<lambda>i. s (base + Y * row + 4 * X + i)) [0, 1, 2, 3] = [b0, b1, b2, b3]"
    using assms unfolding holds_pass_def by metis
  then show "s (base + Y * row + 4 * X) = b0" "s (base + Y * row + (4 * X + 1)) = b1"
      "s (base + Y * row + (4 * X + 2)) = b2" "s (base + Y * row + (4 * X + 3)) = b3"
    by (simp_all add: add.assoc)
qed

lemma luma_bytes:
  assumes pass: "holds_pass (kFragY p W H (of_int W, of_int H)) (W div 4) H s base row"
    and "W mod 4 = 0" "0 \<le> x" "x < W" "0 \<le> y" "y < H"
  shows "s (base + y * row + x) = (case p x y of (r, g, b) \<Rightarrow> fst (rgbaToYuv r g b))"
proof -
  define X where "X = x div 4"
  have X: "0 \<le> X" "X < W div 4" "x = 4 * X \<or> x = 4 * X + 1 \<or> x = 4 * X + 2 \<or> x = 4 * X + 3"
    using assms(2-4) unfolding X_def by presburger+
  have columns: "4 * X < W" "4 * X + 1 < W" "4 * X + 2 < W" "4 * X + 3 < W"
    using X(2) assms(2) by presburger+
  define Z where "Z i = (case p (4 * X + i) y of (r, g, b) \<Rightarrow> fst (rgbaToYuv r g b))" for i
  have stored: "store_unorm (shader_luma p W H ((of_int (4 * X + i) + 1 / 2) / of_int W) ((of_int y + 1 / 2) / of_int H)) = Z i"
    if "0 \<le> i" "i < 4" for i
    unfolding Z_def using that columns X(1) assms(5,6) by (intro stored_luma) simp_all
  have "map store_unorm (kFragY p W H (of_int W, of_int H) (texel_centre X, texel_centre y)) = [Z 0, Z 1, Z 2, Z 3]"
    using stored [of 0] stored [of 1] stored [of 2] stored [of 3]
    by (simp add: kFragY_def texel_centre_def Let_def algebra_simps)
  note bytes = pass_bytes [OF pass X(1,2) assms(5,6) this]
  show ?thesis using X(3) bytes by (auto simp: Z_def)
qed

lemma chroma_bytes:
  assumes pass: "holds_pass (kFragUv p W H (of_int W, of_int H) uSwap) (W div 4) (H div 2) s base row"
    and "W mod 4 = 0" "0 \<le> x" "x < W div 2" "0 \<le> y" "y < H div 2"
  shows "s (base + y * row + 2 * x) =
      (if uSwap > 1 / 2 then mean_chroma 112 (-94) (-18) p x y else mean_chroma (-38) (-74) 112 p x y)"
    and "s (base + y * row + (2 * x + 1)) =
      (if uSwap > 1 / 2 then mean_chroma (-38) (-74) 112 p x y else mean_chroma 112 (-94) (-18) p x y)"
proof -
  define X where "X = x div 2"
  have X: "0 \<le> X" "X < W div 4" "x = 2 * X \<or> x = 2 * X + 1"
    using assms(2-4) unfolding X_def by presburger+
  have columns: "2 * (2 * X) + 1 < W" "2 * (2 * X + 1) + 1 < W" "2 * y + 1 < H"
    using X(2) assms(2,6) by presburger+
  define U V where "U c = mean_chroma (-38) (-74) 112 p c y" and "V c = mean_chroma 112 (-94) (-18) p c y" for c
  have stored: "map store_unorm (shader_chroma p W H uSwap ((of_int (2 * c) + 1) / of_int W) ((of_int (2 * y) + 1) / of_int H)) =
      (if uSwap > 1 / 2 then [V c, U c] else [U c, V c])" if "0 \<le> c" "2 * c + 1 < W" for c
    unfolding U_def V_def by (rule stored_chroma) (use that columns assms(5) in simp_all)
  have "map store_unorm (kFragUv p W H (of_int W, of_int H) uSwap (texel_centre X, texel_centre y)) =
      (if uSwap > 1 / 2 then [V (2 * X), U (2 * X), V (2 * X + 1), U (2 * X + 1)]
       else [U (2 * X), V (2 * X), U (2 * X + 1), V (2 * X + 1)])"
    using stored [of "2 * X"] stored [of "2 * X + 1"] X(1) columns
    by (simp add: kFragUv_def texel_centre_def Let_def algebra_simps)
  then have quad: "map store_unorm (kFragUv p W H (of_int W, of_int H) uSwap (texel_centre X, texel_centre y)) =
      [if uSwap > 1 / 2 then V (2 * X) else U (2 * X), if uSwap > 1 / 2 then U (2 * X) else V (2 * X),
       if uSwap > 1 / 2 then V (2 * X + 1) else U (2 * X + 1), if uSwap > 1 / 2 then U (2 * X + 1) else V (2 * X + 1)]"
    by simp
  note bytes = pass_bytes [OF pass X(1,2) assms(5,6) quad]
  show "s (base + y * row + 2 * x) =
      (if uSwap > 1 / 2 then mean_chroma 112 (-94) (-18) p x y else mean_chroma (-38) (-74) 112 p x y)"
    using X(3) bytes by (auto simp: U_def V_def algebra_simps)
  show "s (base + y * row + (2 * x + 1)) =
      (if uSwap > 1 / 2 then mean_chroma (-38) (-74) 112 p x y else mean_chroma 112 (-94) (-18) p x y)"
    using X(3) bytes by (auto simp: U_def V_def algebra_simps)
qed

text \<open>The squares of one colour, where a mean is the colour itself.\<close>

definition flat_squares :: "picture \<Rightarrow> int \<Rightarrow> int \<Rightarrow> bool" where
  "flat_squares p W H \<longleftrightarrow> (\<forall>x y. 0 \<le> x \<and> x < W div 2 \<and> 0 \<le> y \<and> y < H div 2 \<longrightarrow>
     p (2 * x + 1) (2 * y) = p (2 * x) (2 * y) \<and> p (2 * x) (2 * y + 1) = p (2 * x) (2 * y) \<and>
     p (2 * x + 1) (2 * y + 1) = p (2 * x) (2 * y))"

lemma flat_mean:
  assumes "p (2 * x + 1) (2 * y) = p (2 * x) (2 * y)" "p (2 * x) (2 * y + 1) = p (2 * x) (2 * y)"
    and "p (2 * x + 1) (2 * y + 1) = p (2 * x) (2 * y)" and p: "p (2 * x) (2 * y) = (r, g, b)"
  shows "mean_chroma (-38) (-74) 112 p x y = fst (snd (rgbaToYuv r g b))"
    and "mean_chroma 112 (-94) (-18) p x y = snd (snd (rgbaToYuv r g b))"
proof -
  have scale: "(4 * N + 512) div 1024 = (N + 128) div 256" for N :: int
    using div_mult_mult1 [of 4 "N + 128" 256] by simp
  have inside: "0 \<le> (N + 128) div 256 + 128 \<and> (N + 128) div 256 + 128 \<le> 255"
    if "-28560 \<le> N" "N \<le> 28560" for N :: int
    using that zdiv_mono1 [of "N + 128" "28560 + 128" 256] zdiv_mono1 [of "-28560 + 128" "N + 128" 256] by simp
  have cb: "-38 * uint r - 74 * uint g + 112 * uint b \<in> {-28560..28560}"
    and cr: "112 * uint r - 94 * uint g - 18 * uint b \<in> {-28560..28560}"
    unfolding atLeastAtMost_iff using byte_bounds [of r] byte_bounds [of g] byte_bounds [of b] by linarith+
  have "clamp8 (chroma_blue (uint r) (uint g) (uint b)) = word_of_int (chroma_blue (uint r) (uint g) (uint b))"
    using inside [of "-38 * uint r - 74 * uint g + 112 * uint b"] cb
    by (intro clamp8_inside) (auto simp only: chroma_blue_def atLeastAtMost_iff)
  then show "mean_chroma (-38) (-74) 112 p x y = fst (snd (rgbaToYuv r g b))"
    using scale [of "-38 * uint r - 74 * uint g + 112 * uint b"]
    by (simp add: mean_chroma_def square_sum_def assms rgbaToYuv_def chroma_blue_def)
  have "clamp8 (chroma_red (uint r) (uint g) (uint b)) = word_of_int (chroma_red (uint r) (uint g) (uint b))"
    using inside [of "112 * uint r - 94 * uint g - 18 * uint b"] cr
    by (intro clamp8_inside) (auto simp only: chroma_red_def atLeastAtMost_iff)
  then show "mean_chroma 112 (-94) (-18) p x y = snd (snd (rgbaToYuv r g b))"
    using scale [of "112 * uint r - 94 * uint g - 18 * uint b"]
    by (simp add: mean_chroma_def square_sum_def assms rgbaToYuv_def chroma_red_def)
qed

text \<open>
  C35: When the packed targets hold what the two shaders draw from a source of the output's
  size, the copied rows show exactly the CPU converter's luma and the rounded mean chroma of
  each square, for planar, NV12 and NV21 targets; and where every square has one colour,
  the output memory is the one the CPU conversion writes, byte for byte.
\<close>

theorem gpu_picture_correct:
  assumes "samples_distinct d W H" "W mod 4 = 0"
    and "yc_chroma_step d = 2 \<longrightarrow> yc_cr d = yc_cb d + 1 \<or> yc_cb d = yc_cr d + 1"
    and "holds_pass (kFragY p W H (of_int W, of_int H)) (W div 4) H s yp yRow"
    and "holds_pass (kFragUv p W H (of_int W, of_int H) (if is_nv21 d then 1 else 0)) (W div 4) (H div 2) s uvp uvRow"
  shows "shows_picture d (\<lambda>x y. case p x y of (r, g, b) \<Rightarrow> fst (rgbaToYuv r g b))
      (mean_chroma (-38) (-74) 112 p) (mean_chroma 112 (-94) (-18) p) W H m
      (copy_planes s yp yRow uvp uvRow d W H m) \<and>
    (flat_squares p W H \<and>
      (\<forall>x y. 0 \<le> x \<and> x < W \<and> 0 \<le> y \<and> y < H \<longrightarrow> pixel t (base + y * stride + x * 4) = p x y) \<longrightarrow>
      copy_planes s yp yRow uvp uvRow d W H m = rgba_loops t base stride d W H m)"
proof -
  have even_width: "W div 2 * 2 = W" using assms(2) by presburger
  have shown: "shows_picture d (\<lambda>x y. case p x y of (r, g, b) \<Rightarrow> fst (rgbaToYuv r g b))
      (mean_chroma (-38) (-74) 112 p) (mean_chroma 112 (-94) (-18) p) W H m
      (copy_planes s yp yRow uvp uvRow d W H m)"
    using copy_planes_shown [OF assms(1) even_width assms(3), of s yp yRow uvp uvRow m]
    by (rule shows_picture_cong)
      (use assms(2) luma_bytes [OF assms(4,2)] chroma_bytes [OF assms(5,2)] in \<open>simp_all split: if_splits\<close>)
  have "copy_planes s yp yRow uvp uvRow d W H m = rgba_loops t base stride d W H m"
    if flat: "flat_squares p W H" 
      and px: "\<forall>x y. 0 \<le> x \<and> x < W \<and> 0 \<le> y \<and> y < H \<longrightarrow> pixel t (base + y * stride + x * 4) = p x y"
  proof -
    have cpu: "rgba_yuv_at t (base + y * stride + x * 4) = (case p x y of (r, g, b) \<Rightarrow> rgbaToYuv r g b)"
      if "0 \<le> x" "x < W" "0 \<le> y" "y < H" for x y
      using px that by (simp add: rgba_yuv_at_def)
    have cpu2: "rgba_yuv_at t (base + y * 2 * stride + x * 2 * 4) = (case p (2 * x) (2 * y) of (r, g, b) \<Rightarrow> rgbaToYuv r g b)"
      if "0 \<le> x" "x < W div 2" "0 \<le> y" "y < H div 2" for x y
      using cpu [of "2 * x" "2 * y"] that by (simp add: mult.commute [of _ 2])
    have means: "fst (snd (rgba_yuv_at t (base + y * 2 * stride + x * 2 * 4))) = mean_chroma (-38) (-74) 112 p x y \<and>
        snd (snd (rgba_yuv_at t (base + y * 2 * stride + x * 2 * 4))) = mean_chroma 112 (-94) (-18) p x y"
      if xy: "0 \<le> x" "x < W div 2" "0 \<le> y" "y < H div 2" for x y
    proof -
      obtain r g b where p: "p (2 * x) (2 * y) = (r, g, b)" by (cases "p (2 * x) (2 * y)") auto
      have "p (2 * x + 1) (2 * y) = p (2 * x) (2 * y)" "p (2 * x) (2 * y + 1) = p (2 * x) (2 * y)"
          "p (2 * x + 1) (2 * y + 1) = p (2 * x) (2 * y)" using flat xy by (simp_all add: flat_squares_def)
      then show ?thesis using flat_mean [of p x y r g b] p cpu2 [OF xy] by simp
    qed
    have "shows_picture d (\<lambda>x y. case p x y of (r, g, b) \<Rightarrow> fst (rgbaToYuv r g b))
        (mean_chroma (-38) (-74) 112 p) (mean_chroma 112 (-94) (-18) p) W H m (rgba_loops t base stride d W H m)"
      using rgba_converted_aux [OF assms(1), of t base stride m]
      by (rule shows_picture_cong) (use means in \<open>simp_all add: cpu split: prod.split\<close>)
    then show ?thesis using shows_picture_unique shown by blast
  qed
  then show ?thesis using shown by blast
qed

text \<open>A 4 by 2 source with a red and a blue square, and the packed targets it gives.\<close>

definition two_squares :: picture where
  "two_squares x y = (if x < 2 then (255, 0, 0) else (0, 0, 255))"

definition packed_squares :: mem where
  "packed_squares a = [82, 82, 41, 41, 82, 82, 41, 41, 90, 240, 240, 110] ! nat a"

definition rgba_squares :: mem where
  "rgba_squares a = (if a mod 16 < 8 then if a mod 4 = 0 then 255 else 0 else if a mod 4 = 2 then 255 else 0)"

lemma luma_pass_squares:
  "map store_unorm (kFragY two_squares 4 2 (4, 2) (1 / 2, 1 / 2)) = [82, 82, 41, 41]"
  "map store_unorm (kFragY two_squares 4 2 (4, 2) (1 / 2, 3 / 2)) = [82, 82, 41, 41]"
  using stored_luma [of 0 4 0 2 two_squares] stored_luma [of 1 4 0 2 two_squares]
    stored_luma [of 2 4 0 2 two_squares] stored_luma [of 3 4 0 2 two_squares]
    stored_luma [of 0 4 1 2 two_squares] stored_luma [of 1 4 1 2 two_squares]
    stored_luma [of 2 4 1 2 two_squares] stored_luma [of 3 4 1 2 two_squares]
  by (simp_all add: kFragY_def Let_def two_squares_def [of 0] two_squares_def [of 1] two_squares_def [of 2]
      two_squares_def [of 3] rgbaToYuv_def luma_def clamp8_def)

lemma chroma_pass_squares:
  "map store_unorm (kFragUv two_squares 4 2 (4, 2) 0 (1 / 2, 1 / 2)) = [90, 240, 240, 110]"
proof -
  have "map store_unorm (shader_chroma two_squares 4 2 0 (1 / 4) (1 / 2)) = [90, 240]"
    using stored_chroma [of 0 4 0 2 "1 / 4" "1 / 2" two_squares 0]
    by (simp add: mean_chroma_def square_sum_def two_squares_def)
  moreover have "map store_unorm (shader_chroma two_squares 4 2 0 (3 / 4) (1 / 2)) = [240, 110]"
    using stored_chroma [of 1 4 0 2 "3 / 4" "1 / 2" two_squares 0]
    by (simp add: mean_chroma_def square_sum_def two_squares_def)
  ultimately show ?thesis by (simp add: kFragUv_def Let_def)
qed

lemma squares_pixels:
  assumes "0 \<le> x" "x < 4" "0 \<le> y" "y < 2"
  shows "pixel rgba_squares (0 + y * 16 + x * 4) = two_squares x y"
proof -
  have "x = 0 \<or> x = 1 \<or> x = 2 \<or> x = 3" "y = 0 \<or> y = 1" using assms by presburger+
  then show ?thesis
    by (elim disjE) (simp_all add: pixel_def rgba_squares_def two_squares_def)
qed

theorem gpu_picture_correct_witness:
  "copy_planes packed_squares 0 4 8 4 planar_target 4 2 (\<lambda>_. 0) = rgba_loops rgba_squares 0 16 planar_target 4 2 (\<lambda>_. 0)"
proof -
  have x: "X = 0" if "0 \<le> X" "X < 4 div 4" for X :: int using that by simp
  have y: "Y = 0 \<or> Y = 1" if "0 \<le> Y" "Y < 2" for Y :: int using that by auto
  have luma: "holds_pass (kFragY two_squares 4 2 (of_int 4, of_int 2)) (4 div 4) 2 packed_squares 0 4"
    unfolding holds_pass_def
    using luma_pass_squares by (auto dest!: x y simp: texel_centre_def packed_squares_def)
  have chroma: "holds_pass (kFragUv two_squares 4 2 (of_int 4, of_int 2) (if is_nv21 planar_target then 1 else 0))
      (4 div 4) (2 div 2) packed_squares 8 4"
    unfolding holds_pass_def
    using chroma_pass_squares by (auto dest!: x simp: texel_centre_def packed_squares_def is_nv21_def planar_target_def)
  have "flat_squares two_squares 4 2"
    by (auto simp: flat_squares_def two_squares_def)
  then show ?thesis
    using gpu_picture_correct [OF demo_distinct _ _ luma chroma, of "\<lambda>_. 0" rgba_squares 0 16] squares_pixels
    by (simp add: planar_target_def)
qed

end
