(* ===== verification/Gpu_Compositor.thy ===== *)
theory Gpu_Compositor
  imports Session_Logic Gpu_Planes Read_Fences
begin

text \<open>
  \<open>hal/core/GpuCompositor.{h,cpp}\<close>: the compositor that fills output buffers on the GPU.
  EGL, OpenGL ES, the hardware buffer library and the clock are parameters; the order of the
  calls, the objects the compositor owns, the current context and every early return are the
  model's. Both entry points hold \<open>mLock\<close>, so each is one step.
\<close>

section \<open>The graphics stack\<close>

text \<open>
  The sources of the shaders, and the draws: the program, the viewport, and the uniforms that
  differ. Attribute and uniform locations are numbers that only go back to OpenGL, and are
  part of the program here.
\<close>

datatype shader_source = KVert | KFrag | KVertYuv | KFragY | KFragUv

datatype gpu_pass = Blit nat int int bool | Luma nat int int | Chroma nat int int bool

text \<open>
  A name 0 is what OpenGL answers when it cannot create an object, \<open>None\<close> a null handle.
  \<open>ge_createShader\<close> creates, sources and compiles; \<open>ge_link\<close> attaches two shaders, links
  and reads the status; \<open>ge_attach\<close> binds the framebuffer, attaches a renderbuffer and
  tells whether it is complete.
\<close>

record 'w gpu_env =
  ge_entryPoints :: bool
  ge_extensions :: "string option"
  ge_fenceCalls :: bool
  ge_initialize :: "'w \<Rightarrow> bool \<times> 'w"
  ge_chooseConfig :: "'w \<Rightarrow> bool \<times> 'w"
  ge_createContext :: "'w \<Rightarrow> nat option \<times> 'w"
  ge_createPbuffer :: "'w \<Rightarrow> nat option \<times> 'w"
  ge_makeCurrent :: "nat option \<Rightarrow> nat option \<Rightarrow> 'w \<Rightarrow> bool \<times> 'w"
  ge_createShader :: "shader_source \<Rightarrow> 'w \<Rightarrow> nat \<times> 'w"
  ge_compiled :: "nat \<Rightarrow> 'w \<Rightarrow> bool \<times> 'w"
  ge_deleteShader :: "nat \<Rightarrow> 'w \<Rightarrow> 'w"
  ge_createProgram :: "'w \<Rightarrow> nat \<times> 'w"
  ge_link :: "nat \<Rightarrow> nat \<Rightarrow> nat \<Rightarrow> 'w \<Rightarrow> bool \<times> 'w"
  ge_deleteProgram :: "nat \<Rightarrow> 'w \<Rightarrow> 'w"
  ge_genTexture :: "'w \<Rightarrow> nat \<times> 'w"
  ge_genFramebuffer :: "'w \<Rightarrow> nat \<times> 'w"
  ge_clientBuffer :: "ahb \<Rightarrow> bool"
  ge_createImage :: "ahb \<Rightarrow> 'w \<Rightarrow> nat option \<times> 'w"
  ge_destroyImage :: "nat \<Rightarrow> 'w \<Rightarrow> 'w"
  ge_createFromHandle :: "nat \<Rightarrow> int \<Rightarrow> int \<Rightarrow> int \<Rightarrow> 64 word \<Rightarrow> int \<Rightarrow> 'w \<Rightarrow> ahb option \<times> 'w"
  ge_allocate :: "int \<Rightarrow> int \<Rightarrow> 'w \<Rightarrow> ahb option \<times> 'w"
  ge_release :: "ahb \<Rightarrow> 'w \<Rightarrow> 'w"
  ge_genRenderbuffer :: "'w \<Rightarrow> nat \<times> 'w"
  ge_storage :: "nat \<Rightarrow> nat \<Rightarrow> 'w \<Rightarrow> 'w"
  ge_deleteRenderbuffer :: "nat \<Rightarrow> 'w \<Rightarrow> 'w"
  ge_texture :: "nat \<Rightarrow> nat \<Rightarrow> 'w \<Rightarrow> 'w"
  ge_attach :: "nat \<Rightarrow> nat \<Rightarrow> 'w \<Rightarrow> bool \<times> 'w"
  ge_draw :: "gpu_pass \<Rightarrow> 'w \<Rightarrow> 'w"
  ge_noError :: "'w \<Rightarrow> bool \<times> 'w"
  ge_unbind :: "'w \<Rightarrow> 'w"
  ge_flush :: "'w \<Rightarrow> 'w"
  ge_finish :: "'w \<Rightarrow> 'w"
  ge_createSync :: "int option \<Rightarrow> 'w \<Rightarrow> nat option \<times> 'w"
  ge_waitSync :: "nat \<Rightarrow> 'w \<Rightarrow> bool \<times> 'w"
  ge_destroySync :: "nat \<Rightarrow> 'w \<Rightarrow> 'w"
  ge_dupFence :: "nat \<Rightarrow> 'w \<Rightarrow> int \<times> 'w"
  ge_stride :: "ahb \<Rightarrow> int"
  ge_lock :: "ahb \<Rightarrow> 'w \<Rightarrow> int option \<times> 'w"
  ge_unlock :: "ahb \<Rightarrow> 'w \<Rightarrow> 'w"
  ge_bytes :: "'w \<Rightarrow> mem"
  ge_now :: "'w \<Rightarrow> int \<times> 'w"

section \<open>State\<close>

record gpu =
  mTried :: bool
  mOk :: bool
  mCtx :: "nat option"
  mPbuf :: "nat option"
  mNativeFence :: bool
  mProg :: nat
  mSrcTex :: nat
  mFbo :: nat
  mYuvW :: int
  mYuvH :: int
  mYPack :: "ahb option"
  mUvPack :: "ahb option"
  mYImg :: "nat option"
  mUvImg :: "nat option"
  mYRb :: nat
  mUvRb :: nat
  mProgY :: nat
  mProgUv :: nat

definition gpu_init :: gpu where
  "gpu_init = \<lparr>mTried = False, mOk = False, mCtx = None, mPbuf = None, mNativeFence = False, mProg = 0,
     mSrcTex = 0, mFbo = 0, mYuvW = 0, mYuvH = 0, mYPack = None, mUvPack = None, mYImg = None, mUvImg = None,
     mYRb = 0, mUvRb = 0, mProgY = 0, mProgUv = 0\<rparr>"

type_synonym ('w, 'a) gm = "(gpu \<times> 'w, 'a) state"

abbreviation gret :: "'a \<Rightarrow> ('w, 'a) gm" where
  "gret \<equiv> State_Monad.return"

definition this_gpu :: "('w, gpu) gm" where
  "this_gpu = State (\<lambda>x. (fst x, x))"

definition set_gpu :: "(gpu \<Rightarrow> gpu) \<Rightarrow> ('w, unit) gm" where
  "set_gpu f = State (\<lambda>x. ((), (f (fst x), snd x)))"

definition ask :: "('w \<Rightarrow> 'a \<times> 'w) \<Rightarrow> ('w, 'a) gm" where
  "ask f = State (\<lambda>x. let (a, w) = f (snd x) in (a, (fst x, w)))"

definition act :: "('w \<Rightarrow> 'w) \<Rightarrow> ('w, unit) gm" where
  "act f = State (\<lambda>x. ((), (fst x, f (snd x))))"

section \<open>Shaders and set-up\<close>

text \<open>\<open>compile\<close>, \<open>buildProgram\<close>, \<open>ensureInit\<close>, \<open>available\<close>.\<close>

definition compile_shader :: "'w gpu_env \<Rightarrow> shader_source \<Rightarrow> ('w, nat) gm" where
  "compile_shader E source = do {
     s \<leftarrow> ask (ge_createShader E source);
     ok \<leftarrow> ask (ge_compiled E s);
     if \<not> ok then do { act (ge_deleteShader E s); gret 0 } else gret s }"

definition buildProgram :: "'w gpu_env \<Rightarrow> shader_source \<Rightarrow> shader_source \<Rightarrow> ('w, nat) gm" where
  "buildProgram E vert frag = do {
     vs \<leftarrow> compile_shader E vert;
     fs \<leftarrow> compile_shader E frag;
     if vs = 0 \<or> fs = 0 then gret 0
     else do {
       prog \<leftarrow> ask (ge_createProgram E);
       linked \<leftarrow> ask (ge_link E prog vs fs);
       act (ge_deleteShader E vs);
       act (ge_deleteShader E fs);
       if \<not> linked then do { act (ge_deleteProgram E prog); gret 0 } else gret prog } }"

definition native_fences :: "'w gpu_env \<Rightarrow> bool" where
  "native_fences E = (hasExtension (ge_extensions E) ''EGL_ANDROID_native_fence_sync'' \<and> ge_fenceCalls E)"

definition releaseContext :: "'w gpu_env \<Rightarrow> ('w, unit) gm" where
  "releaseContext E = do { ask (ge_makeCurrent E None None); gret () }"

text \<open>From the current context on: the program of the blit, the texture and the framebuffer.\<close>

definition init_objects :: "'w gpu_env \<Rightarrow> ('w, bool) gm" where
  "init_objects E = do {
     prog \<leftarrow> ask (ge_createProgram E);
     set_gpu (\<lambda>g. g\<lparr>mProg := prog\<rparr>);
     vs \<leftarrow> compile_shader E KVert;
     fs \<leftarrow> compile_shader E KFrag;
     if vs = 0 \<or> fs = 0 then gret False
     else do {
       linked \<leftarrow> ask (ge_link E prog vs fs);
       if \<not> linked then gret False
       else do {
         tex \<leftarrow> ask (ge_genTexture E);
         fbo \<leftarrow> ask (ge_genFramebuffer E);
         set_gpu (\<lambda>g. g\<lparr>mSrcTex := tex, mFbo := fbo, mNativeFence := native_fences E, mOk := True\<rparr>);
         releaseContext E;
         gret True } } }"

definition ensureInit :: "'w gpu_env \<Rightarrow> ('w, bool) gm" where
  "ensureInit E = do {
     g \<leftarrow> this_gpu;
     if mTried g then gret (mOk g)
     else do {
       set_gpu (\<lambda>g. g\<lparr>mTried := True\<rparr>);
       if \<not> ge_entryPoints E then gret False
       else do {
         up \<leftarrow> ask (ge_initialize E);
         if \<not> up then gret False
         else do {
           cfg \<leftarrow> ask (ge_chooseConfig E);
           if \<not> cfg then gret False
           else do {
             ctx \<leftarrow> ask (ge_createContext E);
             set_gpu (\<lambda>g. g\<lparr>mCtx := ctx\<rparr>);
             if ctx = None then gret False
             else do {
               pbuf \<leftarrow> ask (ge_createPbuffer E);
               set_gpu (\<lambda>g. g\<lparr>mPbuf := pbuf\<rparr>);
               cur \<leftarrow> ask (ge_makeCurrent E pbuf ctx);
               if \<not> cur then gret False else init_objects E } } } } } }"

section \<open>Images\<close>

definition imageFromAhb :: "'w gpu_env \<Rightarrow> ahb \<Rightarrow> ('w, nat option) gm" where
  "imageFromAhb E a = (if \<not> ge_clientBuffer E a then gret None else ask (ge_createImage E a))"

text \<open>The image, and the wrapped buffer to keep alive with it.\<close>

definition imageFromHandle :: "'w gpu_env \<Rightarrow> nat \<Rightarrow> int \<Rightarrow> int \<Rightarrow> int \<Rightarrow> 64 word \<Rightarrow> int \<Rightarrow> ('w, (nat \<times> ahb) option) gm" where
  "imageFromHandle E h w hgt fmt usage stride = do {
     wrapped \<leftarrow> ask (ge_createFromHandle E h w hgt fmt usage stride);
     case wrapped of
       None \<Rightarrow> gret None
     | Some a \<Rightarrow>
         if \<not> ge_clientBuffer E a then do { act (ge_release E a); gret None }
         else do {
           img \<leftarrow> ask (ge_createImage E a);
           case img of
             None \<Rightarrow> do { act (ge_release E a); gret None }
           | Some i \<Rightarrow> gret (Some (i, a)) } }"

section \<open>The packed targets\<close>

definition when_some :: "'a option \<Rightarrow> ('a \<Rightarrow> ('w, unit) gm) \<Rightarrow> ('w, unit) gm" where
  "when_some x f = (case x of None \<Rightarrow> gret () | Some a \<Rightarrow> f a)"

definition releaseYuvTargets :: "'w gpu_env \<Rightarrow> ('w, unit) gm" where
  "releaseYuvTargets E = do {
     g \<leftarrow> this_gpu;
     (if mYRb g \<noteq> 0 then act (ge_deleteRenderbuffer E (mYRb g)) else gret ());
     (if mUvRb g \<noteq> 0 then act (ge_deleteRenderbuffer E (mUvRb g)) else gret ());
     when_some (mYImg g) (\<lambda>i. act (ge_destroyImage E i));
     when_some (mUvImg g) (\<lambda>i. act (ge_destroyImage E i));
     when_some (mYPack g) (\<lambda>a. act (ge_release E a));
     when_some (mUvPack g) (\<lambda>a. act (ge_release E a));
     set_gpu (\<lambda>g. g\<lparr>mYRb := 0, mUvRb := 0, mYImg := None, mUvImg := None, mYPack := None, mUvPack := None,
       mYuvW := 0, mYuvH := 0\<rparr>) }"

definition ensurePrograms :: "'w gpu_env \<Rightarrow> ('w, bool) gm" where
  "ensurePrograms E = do {
     g \<leftarrow> this_gpu;
     if mProgY g \<noteq> 0 then gret True
     else do {
       y \<leftarrow> buildProgram E KVertYuv KFragY;
       set_gpu (\<lambda>g. g\<lparr>mProgY := y\<rparr>);
       uv \<leftarrow> buildProgram E KVertYuv KFragUv;
       set_gpu (\<lambda>g. g\<lparr>mProgUv := uv\<rparr>);
       gret (y \<noteq> 0 \<and> uv \<noteq> 0) } }"

definition bindTarget :: "'w gpu_env \<Rightarrow> nat option \<Rightarrow> ('w, nat) gm" where
  "bindTarget E img = do {
     rb \<leftarrow> ask (ge_genRenderbuffer E);
     when_some img (\<lambda>i. act (ge_storage E rb i));
     gret rb }"

definition optional_image :: "'w gpu_env \<Rightarrow> ahb option \<Rightarrow> ('w, nat option) gm" where
  "optional_image E a = (case a of None \<Rightarrow> gret None | Some b \<Rightarrow> imageFromAhb E b)"

text \<open>The images of the two buffers, then their renderbuffers; without an image nothing is kept.\<close>

definition image_targets :: "'w gpu_env \<Rightarrow> ahb option \<Rightarrow> ahb option \<Rightarrow> int \<Rightarrow> int \<Rightarrow> ('w, bool) gm" where
  "image_targets E yPack uvPack width height = do {
     yImg \<leftarrow> optional_image E yPack;
     set_gpu (\<lambda>g. g\<lparr>mYImg := yImg\<rparr>);
     uvImg \<leftarrow> optional_image E uvPack;
     set_gpu (\<lambda>g. g\<lparr>mUvImg := uvImg\<rparr>);
     if yImg = None \<or> uvImg = None then do { releaseYuvTargets E; gret False }
     else do {
       yRb \<leftarrow> bindTarget E yImg;
       set_gpu (\<lambda>g. g\<lparr>mYRb := yRb\<rparr>);
       uvRb \<leftarrow> bindTarget E uvImg;
       set_gpu (\<lambda>g. g\<lparr>mUvRb := uvRb\<rparr>);
       set_gpu (\<lambda>g. g\<lparr>mYuvW := width, mYuvH := height\<rparr>);
       gret True } }"

definition allocate_targets :: "'w gpu_env \<Rightarrow> int \<Rightarrow> int \<Rightarrow> ('w, bool) gm" where
  "allocate_targets E width height = do {
     yPack \<leftarrow> ask (ge_allocate E (width div 4) height);
     set_gpu (\<lambda>g. g\<lparr>mYPack := yPack\<rparr>);
     uvPack \<leftarrow> ask (ge_allocate E (width div 4) (height div 2));
     set_gpu (\<lambda>g. g\<lparr>mUvPack := uvPack\<rparr>);
     if yPack = None \<or> uvPack = None then do { releaseYuvTargets E; gret False }
     else image_targets E yPack uvPack width height }"

definition ensureYuvTargets :: "'w gpu_env \<Rightarrow> int \<Rightarrow> int \<Rightarrow> ('w, bool) gm" where
  "ensureYuvTargets E width height = do {
     g \<leftarrow> this_gpu;
     if mYPack g \<noteq> None \<and> mYuvW g = width \<and> mYuvH g = height then gret True
     else do {
       releaseYuvTargets E;
       built \<leftarrow> ensurePrograms E;
       if \<not> built then gret False else allocate_targets E width height } }"

section \<open>The source fence\<close>

definition gpuWait :: "'w gpu_env \<Rightarrow> 'w sys \<Rightarrow> bool \<Rightarrow> int \<Rightarrow> 'w \<Rightarrow> bool \<times> 'w" where
  "gpuWait E S native sourceFd w =
     (if \<not> native then (False, w)
      else let (fd, w1) = sys_dup S sourceFd w in
        if fd < 0 then (False, w1)
        else case ge_createSync E (Some fd) w1 of
            (None, w2) \<Rightarrow> (False, sys_close S fd w2)
          | (Some s, w2) \<Rightarrow>
              let (waited, w3) = ge_waitSync E s w2 in (waited, ge_destroySync E s w3))"

definition waitForSourceFence :: "'w gpu_env \<Rightarrow> 'w sys \<Rightarrow> int \<Rightarrow> ('w, bool) gm" where
  "waitForSourceFence E S fd = do {
     g \<leftarrow> this_gpu;
     ask (acquireFenceReady fd (gpuWait E S (mNativeFence g)) (sys_sync_wait S)) }"

section \<open>YCbCr outputs\<close>

text \<open>Both passes; whether every step succeeded.\<close>

definition draw_planes :: "'w gpu_env \<Rightarrow> gpu \<Rightarrow> bool \<Rightarrow> int \<Rightarrow> int \<Rightarrow> ('w, bool) gm" where
  "draw_planes E g nv21 width height = do {
     yOk \<leftarrow> ask (ge_attach E (mFbo g) (mYRb g));
     (if yOk then act (ge_draw E (Luma (mProgY g) width height)) else gret ());
     uvOk \<leftarrow> ask (ge_attach E (mFbo g) (mUvRb g));
     (if yOk \<and> uvOk then act (ge_draw E (Chroma (mProgUv g) width height nv21)) else gret ());
     act (ge_finish E);
     noErr \<leftarrow> ask (ge_noError E);
     act (ge_unbind E);
     gret (yOk \<and> uvOk \<and> noErr) }"

text \<open>Lock both targets, copy, unlock.\<close>

definition read_planes :: "'w gpu_env \<Rightarrow> ahb \<Rightarrow> ahb \<Rightarrow> ycbcr \<Rightarrow> int \<Rightarrow> int \<Rightarrow> mem \<Rightarrow> ('w, bool \<times> mem) gm" where
  "read_planes E yPack uvPack d width height m = do {
     yp \<leftarrow> ask (ge_lock E yPack);
     case yp of
       None \<Rightarrow> gret (False, m)
     | Some ya \<Rightarrow> do {
         uvp \<leftarrow> ask (ge_lock E uvPack);
         case uvp of
           None \<Rightarrow> do { act (ge_unlock E yPack); gret (False, m) }
         | Some uva \<Rightarrow> do {
             s \<leftarrow> ask (\<lambda>w. (ge_bytes E w, w));
             act (ge_unlock E yPack);
             act (ge_unlock E uvPack);
             gret (True, copy_planes s ya (ge_stride E yPack * 4) uva (ge_stride E uvPack * 4) d width height m) } } }"

definition planes_in_context :: "'w gpu_env \<Rightarrow> 'w sys \<Rightarrow> ahb \<Rightarrow> int \<Rightarrow> ycbcr \<Rightarrow> int \<Rightarrow> int \<Rightarrow> mem \<Rightarrow> ('w, bool \<times> mem) gm" where
  "planes_in_context E S src srcAcquireFence d width height m = do {
     targets \<leftarrow> ensureYuvTargets E width height;
     if \<not> targets then gret (False, m)
     else do {
       ready \<leftarrow> waitForSourceFence E S srcAcquireFence;
       if \<not> ready then gret (False, m)
       else do {
         img \<leftarrow> imageFromAhb E src;
         case img of
           None \<Rightarrow> gret (False, m)
         | Some srcImg \<Rightarrow> do {
             g \<leftarrow> this_gpu;
             act (ge_texture E (mSrcTex g) srcImg);
             ok \<leftarrow> draw_planes E g (is_nv21 d) width height;
             act (ge_destroyImage E srcImg);
             if \<not> ok then gret (False, m)
             else case (mYPack g, mUvPack g) of
                 (Some yPack, Some uvPack) \<Rightarrow> read_planes E yPack uvPack d width height m
               | _ \<Rightarrow> gret (False, m) } } } }"

definition compositeToYcbcr :: "'w gpu_env \<Rightarrow> 'w sys \<Rightarrow> ahb \<Rightarrow> int \<Rightarrow> ycbcr \<Rightarrow> int \<Rightarrow> int \<Rightarrow> mem \<Rightarrow> ('w, bool \<times> mem) gm" where
  "compositeToYcbcr E S src srcAcquireFence d width height m =
     (if yc_y d = 0 \<or> yc_cb d = 0 \<or> yc_cr d = 0 \<or> width mod 4 \<noteq> 0 \<or> height mod 2 \<noteq> 0 then gret (False, m)
      else do {
        ok \<leftarrow> ensureInit E;
        if \<not> ok then gret (False, m)
        else do {
          g \<leftarrow> this_gpu;
          cur \<leftarrow> ask (ge_makeCurrent E (mPbuf g) (mCtx g));
          if \<not> cur then gret (False, m)
          else do {
            r \<leftarrow> planes_in_context E S src srcAcquireFence d width height m;
            releaseContext E;
            gret r } } })"

section \<open>RGBA outputs\<close>

text \<open>The phases of the profile, the last time taken; without a profile no time is taken.\<close>

definition mark_phase :: "'w gpu_env \<Rightarrow> nat \<Rightarrow> int list option \<times> int \<Rightarrow> ('w, int list option \<times> int) gm" where
  "mark_phase E phase p = (case p of
       (None, t) \<Rightarrow> gret (None, t)
     | (Some ph, t) \<Rightarrow> do {
         now \<leftarrow> ask (ge_now E);
         gret (Some (ph[phase := now - t]), now) })"

definition start_phases :: "'w gpu_env \<Rightarrow> bool \<Rightarrow> ('w, int list option \<times> int) gm" where
  "start_phases E profile = (if profile then do { now \<leftarrow> ask (ge_now E); gret (Some (replicate 6 0), now) }
     else gret (None, 0))"

text \<open>The fence of the finished blit, -1 without one (then the GPU is waited for).\<close>

definition completion :: "'w gpu_env \<Rightarrow> bool \<Rightarrow> bool \<Rightarrow> bool \<Rightarrow> ('w, int) gm" where
  "completion E result native wantFence = do {
     fence \<leftarrow> (if result \<and> native \<and> wantFence then do {
         sync \<leftarrow> ask (ge_createSync E None);
         case sync of
           None \<Rightarrow> gret (-1)
         | Some s \<Rightarrow> do {
             act (ge_flush E);
             fd \<leftarrow> ask (ge_dupFence E s);
             act (ge_destroySync E s);
             gret fd } }
       else gret (-1));
     if 0 \<le> fence then gret fence else do { act (ge_finish E); gret (-1) } }"

definition blit :: "'w gpu_env \<Rightarrow> gpu \<Rightarrow> nat \<Rightarrow> nat \<Rightarrow> int \<Rightarrow> int \<Rightarrow> bool \<Rightarrow> bool \<Rightarrow> int list option \<times> int \<Rightarrow>
    ('w, bool \<times> int \<times> int list option \<times> int) gm" where
  "blit E g dstImg dstRb width height wantFence clear p = do {
     act (ge_storage E dstRb dstImg);
     fboOk \<leftarrow> ask (ge_attach E (mFbo g) dstRb);
     if \<not> fboOk then do { ask (ge_noError E); gret (False, -1, p) }
     else do {
       act (ge_draw E (Blit (mProg g) width height clear));
       result \<leftarrow> ask (ge_noError E);
       p3 \<leftarrow> mark_phase E 3 p;
       fence \<leftarrow> completion E result (mNativeFence g) wantFence;
       gret (result, fence, p3) } }"

text \<open>Unbind, delete, destroy, release the context, and take the last phases.\<close>

definition teardown :: "'w gpu_env \<Rightarrow> nat \<Rightarrow> nat \<Rightarrow> ahb \<Rightarrow> nat \<Rightarrow> int list option \<times> int \<Rightarrow> ('w, int list option) gm" where
  "teardown E srcImg dstImg dstGb dstRb p3 = do {
     p4 \<leftarrow> mark_phase E 4 p3;
     act (ge_unbind E);
     act (ge_deleteRenderbuffer E dstRb);
     act (ge_destroyImage E dstImg);
     act (ge_destroyImage E srcImg);
     act (ge_release E dstGb);
     releaseContext E;
     p5 \<leftarrow> mark_phase E 5 p4;
     gret (fst p5) }"

definition blit_images :: "'w gpu_env \<Rightarrow> nat \<Rightarrow> nat \<Rightarrow> ahb \<Rightarrow> int \<Rightarrow> int \<Rightarrow> bool \<Rightarrow> bool \<Rightarrow> int list option \<times> int \<Rightarrow>
    ('w, bool \<times> int \<times> int list option) gm" where
  "blit_images E srcImg dstImg dstGb width height wantFence clear p2 = do {
     g \<leftarrow> this_gpu;
     act (ge_texture E (mSrcTex g) srcImg);
     dstRb \<leftarrow> ask (ge_genRenderbuffer E);
     (result, fence, p3) \<leftarrow> blit E g dstImg dstRb width height wantFence clear p2;
     ph \<leftarrow> teardown E srcImg dstImg dstGb dstRb p3;
     gret (result, fence, ph) }"

definition blit_in_context :: "'w gpu_env \<Rightarrow> 'w sys \<Rightarrow> ahb \<Rightarrow> int \<Rightarrow> nat \<Rightarrow> int \<Rightarrow> int \<Rightarrow> int \<Rightarrow> int \<Rightarrow> 64 word \<Rightarrow> bool \<Rightarrow>
    bool \<Rightarrow> int list option \<times> int \<Rightarrow> ('w, bool \<times> int \<times> int list option) gm" where
  "blit_in_context E S src srcAcquireFence dst width height stride dstFormat dstUsage wantFence clear p = do {
     ready \<leftarrow> waitForSourceFence E S srcAcquireFence;
     if \<not> ready then do { releaseContext E; gret (False, -1, fst p) }
     else do {
       p0 \<leftarrow> mark_phase E 0 p;
       img \<leftarrow> imageFromAhb E src;
       case img of
         None \<Rightarrow> do { releaseContext E; gret (False, -1, fst p0) }
       | Some srcImg \<Rightarrow> do {
           p1 \<leftarrow> mark_phase E 1 p0;
           target \<leftarrow> imageFromHandle E dst width height dstFormat dstUsage stride;
           case target of
             None \<Rightarrow> do { act (ge_destroyImage E srcImg); releaseContext E; gret (False, -1, fst p1) }
           | Some (dstImg, dstGb) \<Rightarrow> do {
               p2 \<leftarrow> mark_phase E 2 p1;
               blit_images E srcImg dstImg dstGb width height wantFence clear p2 } } } }"

text \<open>Formats: \<open>kFmtRGBA8888\<close> is 1, \<open>kFmtRGBX8888\<close> 2.\<close>

definition composite :: "'w gpu_env \<Rightarrow> 'w sys \<Rightarrow> ahb \<Rightarrow> int \<Rightarrow> nat \<Rightarrow> int \<Rightarrow> int \<Rightarrow> int \<Rightarrow> int \<Rightarrow> 64 word \<Rightarrow> bool \<Rightarrow>
    bool \<Rightarrow> bool \<Rightarrow> ('w, bool \<times> int \<times> int list option) gm" where
  "composite E S src srcAcquireFence dst width height stride dstFormat dstUsage wantFence clear profile = do {
     p \<leftarrow> start_phases E profile;
     if dstFormat \<noteq> 1 \<and> dstFormat \<noteq> 2 then gret (False, -1, fst p)
     else do {
       ok \<leftarrow> ensureInit E;
       if \<not> ok then gret (False, -1, fst p)
       else do {
         g \<leftarrow> this_gpu;
         cur \<leftarrow> ask (ge_makeCurrent E (mPbuf g) (mCtx g));
         if \<not> cur then gret (False, -1, fst p)
         else blit_in_context E S src srcAcquireFence dst width height stride dstFormat dstUsage wantFence clear p } } }"

section \<open>Sequences of calls\<close>

text \<open>
  The requests of the session, in order, each with what its caller passes, and the fences
  that are handed back.
\<close>

datatype gpu_request = IsAvailable |
  ToRgba ahb int nat int int int int "64 word" bool bool bool |
  ToYcbcr ahb int ycbcr int int mem

fun gpu_call :: "'w gpu_env \<Rightarrow> 'w sys \<Rightarrow> gpu_request \<Rightarrow> ('w, int) gm" where
  "gpu_call E S IsAvailable = do { ensureInit E; gret (-1) }"
| "gpu_call E S (ToRgba src fence dst width height stride fmt usage wantFence clear profile) = do {
     r \<leftarrow> composite E S src fence dst width height stride fmt usage wantFence clear profile;
     gret (fst (snd r)) }"
| "gpu_call E S (ToYcbcr src fence d width height m) = do {
     compositeToYcbcr E S src fence d width height m;
     gret (-1) }"

fun gpu_calls :: "'w gpu_env \<Rightarrow> 'w sys \<Rightarrow> gpu_request list \<Rightarrow> ('w, int list) gm" where
  "gpu_calls E S [] = gret []"
| "gpu_calls E S (c # cs) = do {
     fd \<leftarrow> gpu_call E S c;
     fds \<leftarrow> gpu_calls E S cs;
     gret (if 0 \<le> fd then fd # fds else fds) }"

end
