(* ===== verification/Gpu_Theorems.thy ===== *)
theory Gpu_Theorems
  imports Gpu_Compositor
begin

text \<open>
  What the compositor leaves behind: after any sequence of calls, failed ones included, the
  graphics objects it holds are its cached plane targets, no context is current on the
  calling thread, and the only descriptor it added is the completion fence it returned.
\<close>

section \<open>What is observed\<close>

datatype gpu_object = Image nat | Renderbuffer nat | Buffer ahb | Sync nat | Mapped ahb

record 'w gpu_view =
  gv_held :: "'w \<Rightarrow> gpu_object multiset"
  gv_current :: "'w \<Rightarrow> bool"
  gv_fds :: "'w \<Rightarrow> int set"

definition some_object :: "('a \<Rightarrow> gpu_object) \<Rightarrow> 'a option \<Rightarrow> gpu_object multiset" where
  "some_object f x = (case x of None \<Rightarrow> {#} | Some a \<Rightarrow> {#f a#})"

lemma some_object_simps [simp]: "some_object f None = {#}" "some_object f (Some a) = {#f a#}"
  by (simp_all add: some_object_def)

text \<open>A call moves the observation \<open>(held, current, descriptors)\<close> as \<open>k\<close> says.\<close>

type_synonym gpu_obs = "gpu_object multiset \<times> bool \<times> int set"

definition gobs :: "'w gpu_view \<Rightarrow> 'w \<Rightarrow> gpu_obs" where
  "gobs V w = (gv_held V w, gv_current V w, gv_fds V w)"

definition moves :: "'w gpu_view \<Rightarrow> ('w \<Rightarrow> 'a \<times> 'w) \<Rightarrow> ('a \<Rightarrow> gpu_obs \<Rightarrow> gpu_obs \<Rightarrow> bool) \<Rightarrow> bool" where
  "moves V f k \<longleftrightarrow> (\<forall>w a w'. f w = (a, w') \<longrightarrow> k a (gobs V w) (gobs V w'))"

abbreviation keeps :: "'w gpu_view \<Rightarrow> ('w \<Rightarrow> 'a \<times> 'w) \<Rightarrow> bool" where
  "keeps V f \<equiv> moves V f (\<lambda>_ o1 o2. o2 = o1)"

definition plain :: "('w \<Rightarrow> 'w) \<Rightarrow> 'w \<Rightarrow> unit \<times> 'w" where
  "plain f w = ((), f w)"

definition gains :: "('a \<Rightarrow> gpu_object multiset) \<Rightarrow> 'a \<Rightarrow> gpu_obs \<Rightarrow> gpu_obs \<Rightarrow> bool" where
  "gains r a o1 o2 \<longleftrightarrow> (case o1 of (B, c, F) \<Rightarrow> o2 = (B + r a, c, F))"

definition loses :: "gpu_object \<Rightarrow> 'a \<Rightarrow> gpu_obs \<Rightarrow> gpu_obs \<Rightarrow> bool" where
  "loses x a o1 o2 \<longleftrightarrow> (case o1 of (B, c, F) \<Rightarrow> o2 = (B - {#x#}, c, F))"

definition opens_fd :: "int \<Rightarrow> gpu_obs \<Rightarrow> gpu_obs \<Rightarrow> bool" where
  "opens_fd fd o1 o2 \<longleftrightarrow> (case o1 of (B, c, F) \<Rightarrow>
     if fd < 0 then o2 = o1 else fd \<notin> F \<and> o2 = (B, c, insert fd F))"

text \<open>
  The documented effects. A sync object created from a descriptor owns it; releasing the
  context always succeeds; names of generated objects are never 0.
\<close>

definition gpu_quiet :: "'w gpu_env \<Rightarrow> 'w gpu_view \<Rightarrow> bool" where
  "gpu_quiet E V \<longleftrightarrow> keeps V (ge_initialize E) \<and> keeps V (ge_chooseConfig E) \<and> keeps V (ge_createContext E) \<and>
     keeps V (ge_createPbuffer E) \<and> (\<forall>x. keeps V (ge_createShader E x)) \<and> (\<forall>s. keeps V (ge_compiled E s)) \<and>
     (\<forall>s. keeps V (plain (ge_deleteShader E s))) \<and> keeps V (ge_createProgram E) \<and>
     (\<forall>p v f. keeps V (ge_link E p v f)) \<and> (\<forall>p. keeps V (plain (ge_deleteProgram E p))) \<and>
     keeps V (ge_genTexture E) \<and> keeps V (ge_genFramebuffer E) \<and> (\<forall>r i. keeps V (plain (ge_storage E r i))) \<and>
     (\<forall>t i. keeps V (plain (ge_texture E t i))) \<and> (\<forall>f r. keeps V (ge_attach E f r)) \<and>
     (\<forall>p. keeps V (plain (ge_draw E p))) \<and> keeps V (ge_noError E) \<and> keeps V (plain (ge_unbind E)) \<and>
     keeps V (plain (ge_flush E)) \<and> keeps V (plain (ge_finish E)) \<and> (\<forall>s. keeps V (ge_waitSync E s)) \<and>
     keeps V (ge_now E)"

definition gpu_owns :: "'w gpu_env \<Rightarrow> 'w gpu_view \<Rightarrow> bool" where
  "gpu_owns E V \<longleftrightarrow> (\<forall>a. moves V (ge_createImage E a) (gains (some_object Image))) \<and>
     (\<forall>i. moves V (plain (ge_destroyImage E i)) (loses (Image i))) \<and>
     (\<forall>h w hg f u s. moves V (ge_createFromHandle E h w hg f u s) (gains (some_object Buffer))) \<and>
     (\<forall>w h. moves V (ge_allocate E w h) (gains (some_object Buffer))) \<and>
     (\<forall>a. moves V (plain (ge_release E a)) (loses (Buffer a))) \<and>
     moves V (ge_genRenderbuffer E) (\<lambda>r o1 o2. r \<noteq> 0 \<and> gains (\<lambda>r. {#Renderbuffer r#}) r o1 o2) \<and>
     (\<forall>r. moves V (plain (ge_deleteRenderbuffer E r)) (loses (Renderbuffer r))) \<and>
     (\<forall>a. moves V (ge_lock E a) (gains (\<lambda>p. some_object (\<lambda>_. Mapped a) p))) \<and>
     (\<forall>a. moves V (plain (ge_unlock E a)) (loses (Mapped a)))"

definition gpu_fences :: "'w gpu_env \<Rightarrow> 'w sys \<Rightarrow> 'w gpu_view \<Rightarrow> bool" where
  "gpu_fences E S V \<longleftrightarrow> (\<forall>fd. moves V (ge_createSync E fd) (\<lambda>s o1 o2. case o1 of (B, c, F) \<Rightarrow>
        o2 = (B + some_object Sync s, c, if s = None then F else F - set_option fd))) \<and>
     (\<forall>s. moves V (plain (ge_destroySync E s)) (loses (Sync s))) \<and>
     (\<forall>s. moves V (ge_dupFence E s) opens_fd) \<and> (\<forall>fd. moves V (sys_dup S fd) opens_fd) \<and>
     (\<forall>fd. moves V (plain (sys_close S fd)) (\<lambda>_ o1 o2. case o1 of (B, c, F) \<Rightarrow> o2 = (B, c, F - {fd}))) \<and>
     (\<forall>fd t. keeps V (sys_sync_wait S fd t))"

definition gpu_contexts :: "'w gpu_env \<Rightarrow> 'w gpu_view \<Rightarrow> bool" where
  "gpu_contexts E V \<longleftrightarrow> (\<forall>s c. moves V (ge_makeCurrent E s c) (\<lambda>ok o1 o2. case o1 of (B, cur, F) \<Rightarrow>
     o2 = (B, if c = None then False else if ok then True else cur, F)))"

definition gpu_laws :: "'w gpu_env \<Rightarrow> 'w sys \<Rightarrow> 'w gpu_view \<Rightarrow> bool" where
  "gpu_laws E S V \<longleftrightarrow> gpu_quiet E V \<and> gpu_owns E V \<and> gpu_fences E S V \<and> gpu_contexts E V"

section \<open>The logic of the calls\<close>

type_synonym yuv_targets = "ahb option \<times> ahb option \<times> nat option \<times> nat option \<times> nat \<times> nat"

definition targets :: "gpu \<Rightarrow> yuv_targets" where
  "targets g = (mYPack g, mUvPack g, mYImg g, mUvImg g, mYRb g, mUvRb g)"

definition some_rb :: "nat \<Rightarrow> gpu_object multiset" where
  "some_rb r = (if r = 0 then {#} else {#Renderbuffer r#})"

definition target_objects :: "yuv_targets \<Rightarrow> gpu_object multiset" where
  "target_objects T = (case T of (yp, uvp, yi, uvi, yr, uvr) \<Rightarrow>
     some_object Buffer yp + some_object Buffer uvp + some_object Image yi + some_object Image uvi + some_rb yr + some_rb uvr)"

definition no_targets :: yuv_targets where
  "no_targets = (None, None, None, None, 0, 0)"

text \<open>Both packed buffers, or nothing at all.\<close>

definition whole_targets :: "yuv_targets \<Rightarrow> bool" where
  "whole_targets T \<longleftrightarrow> T = no_targets \<or> (fst T \<noteq> None \<and> fst (snd T) \<noteq> None)"

text \<open>\<open>stage\<close> fixes the observation and the targets while the compositor is working.\<close>

definition stage :: "'w gpu_view \<Rightarrow> gpu_object multiset \<Rightarrow> bool \<Rightarrow> int set \<Rightarrow> yuv_targets \<Rightarrow> gpu \<times> 'w \<Rightarrow> bool" where
  "stage V B c F T x \<longleftrightarrow> mOk (fst x) \<and> mTried (fst x) \<and> gobs V (snd x) = (B, c, F) \<and> targets (fst x) = T"

lemma triple_ask:
  assumes "moves V f k" and "\<And>a o2. k a (B, c, F) o2 \<Longrightarrow> o2 = (B' a, c' a, F' a)"
  shows "triple (stage V B c F T) (ask f) (\<lambda>a. stage V (B' a) (c' a) (F' a) T)"
proof (rule tripleI)
  fix x a x'
  assume x: "stage V B c F T x" and run: "run_state (ask f) x = (a, x')"
  then have f: "f (snd x) = (a, snd x')" "fst x' = fst x" by (auto simp: ask_def split: prod.splits)
  then have "k a (gobs V (snd x)) (gobs V (snd x'))" using assms(1) by (simp add: moves_def)
  then show "stage V (B' a) (c' a) (F' a) T x'" using assms(2) x f(2) by (simp add: stage_def)
qed

lemma triple_act:
  assumes "moves V (plain f) k" and "\<And>o2. k () (B, c, F) o2 \<Longrightarrow> o2 = (B', c', F')"
  shows "triple (stage V B c F T) (act f) (\<lambda>_. stage V B' c' F' T)"
proof (rule tripleI)
  fix x a x'
  assume x: "stage V B c F T x" and run: "run_state (act f) x = (a, x')"
  then have f: "x' = (fst x, f (snd x))" by (auto simp: act_def)
  then have "k () (gobs V (snd x)) (gobs V (snd x'))" using assms(1) by (simp add: moves_def plain_def)
  then show "stage V B' c' F' T x'" using assms(2) x f by (simp add: stage_def)
qed

lemma ask_gains: "moves V f (gains r) \<Longrightarrow> triple (stage V B c F T) (ask f) (\<lambda>a. stage V (B + r a) c F T)"
  by (erule triple_ask) (simp add: gains_def)

lemma act_loses: "moves V (plain f) (loses y) \<Longrightarrow> triple (stage V B c F T) (act f) (\<lambda>_. stage V (B - {#y#}) c F T)"
  by (erule triple_act) (simp add: loses_def)

lemma created_sync:
  assumes "\<forall>fd. moves V (ge_createSync E fd) (\<lambda>s o1 o2. case o1 of (B, c, F) \<Rightarrow>
    o2 = (B + some_object Sync s, c, if s = None then F else F - set_option fd))"
  shows "triple (stage V B c F T) (ask (ge_createSync E None)) (\<lambda>s. stage V (B + some_object Sync s) c F T)"
  by (rule triple_ask [OF assms [rule_format, of None]]) simp

lemma triple_this: "(\<And>g. mOk g \<Longrightarrow> targets g = T \<Longrightarrow> triple (stage V B c F T) (f g) Q) \<Longrightarrow>
    triple (stage V B c F T) (State_Monad.bind this_gpu f) Q"
  by (fastforce simp: triple_def this_gpu_def stage_def)

lemma triple_set:
  assumes "\<And>g. mOk g \<Longrightarrow> mTried g \<Longrightarrow> targets g = T \<Longrightarrow> mOk (u g) \<and> mTried (u g) \<and> targets (u g) = T'"
  shows "triple (stage V B c F T) (set_gpu u) (\<lambda>_. stage V B c F T')"
  using assms by (auto simp: triple_def set_gpu_def stage_def)

lemma triple_exists: "(\<And>T. C T \<Longrightarrow> triple (P T) m Q) \<Longrightarrow> triple (\<lambda>x. \<exists>T. C T \<and> P T x) m Q"
proof (rule tripleI)
  fix x a x'
  assume "\<And>T. C T \<Longrightarrow> triple (P T) m Q" "\<exists>T. C T \<and> P T x" "run_state m x = (a, x')"
  then show "Q a x'" using tripleD by metis
qed

text \<open>\<open>targets_at\<close>: besides \<open>R\<close>, the compositor holds its targets.\<close>

definition targets_at :: "'w gpu_view \<Rightarrow> gpu_object multiset \<Rightarrow> bool \<Rightarrow> int set \<Rightarrow> gpu \<times> 'w \<Rightarrow> bool" where
  "targets_at V R c F x \<longleftrightarrow> (\<exists>T. whole_targets T \<and> stage V (R + target_objects T) c F T x)"

lemma triple_targets:
  "(\<And>T. whole_targets T \<Longrightarrow> triple (stage V (R + target_objects T) c F T) m Q) \<Longrightarrow> triple (targets_at V R c F) m Q"
  unfolding targets_at_def by (rule triple_exists)

lemma triple_post_targets:
  "whole_targets T \<Longrightarrow> triple P m (\<lambda>a. stage V (R + target_objects T) c F T) \<Longrightarrow> triple P m (\<lambda>_. targets_at V R c F)"
  by (erule triple_post) (unfold targets_at_def, intro exI conjI)

section \<open>The calls of the graphics stack\<close>

text \<open>Calls that move no object, for any property of the observation.\<close>

locale gpu_observer =
  fixes V :: "'w gpu_view" and I :: "gpu \<times> 'w \<Rightarrow> bool"
  assumes observed: "I (g, w) \<Longrightarrow> gobs V w' = gobs V w \<Longrightarrow> I (g, w')"
begin

lemma ask_stable: "keeps V f \<Longrightarrow> stable I (ask f)"
  by (auto simp: stable_def triple_def ask_def moves_def split: prod.splits intro: observed)

lemma act_stable: "keeps V (plain f) \<Longrightarrow> stable I (act f)"
  by (auto simp: stable_def triple_def act_def moves_def plain_def intro: observed)

lemma this_stable: "stable I this_gpu"
  by (simp add: stable_def triple_def this_gpu_def)

lemma quiet_calls:
  assumes "gpu_quiet E V"
  shows "stable I (ask (ge_initialize E))" "stable I (ask (ge_chooseConfig E))" "stable I (ask (ge_createContext E))"
    "stable I (ask (ge_createPbuffer E))" "stable I (ask (ge_createShader E sh))" "stable I (ask (ge_compiled E n))"
    "stable I (act (ge_deleteShader E n))" "stable I (ask (ge_createProgram E))" "stable I (ask (ge_link E n n2 n3))"
    "stable I (act (ge_deleteProgram E n))" "stable I (ask (ge_genTexture E))" "stable I (ask (ge_genFramebuffer E))"
    "stable I (act (ge_storage E n n2))" "stable I (act (ge_texture E n n2))" "stable I (ask (ge_attach E n n2))"
    "stable I (act (ge_draw E pass))" "stable I (ask (ge_noError E))" "stable I (act (ge_unbind E))"
    "stable I (act (ge_flush E))" "stable I (act (ge_finish E))" "stable I (ask (ge_now E))"
  by (rule ask_stable act_stable, use assms in \<open>simp add: gpu_quiet_def\<close>)+

lemma peek_stable: "stable I (ask (\<lambda>w. (h w, w)))"
  by (rule ask_stable) (simp add: moves_def)

lemma compile_stable: "gpu_quiet E V \<Longrightarrow> stable I (compile_shader E sh)"
  unfolding compile_shader_def by (intro stable_bind stable_if stable_return quiet_calls)

lemma build_stable: "gpu_quiet E V \<Longrightarrow> stable I (buildProgram E vert frag)"
  unfolding buildProgram_def by (intro stable_bind stable_if stable_return quiet_calls compile_stable)

lemma mark_stable: "gpu_quiet E V \<Longrightarrow> stable I (mark_phase E phase p)"
  unfolding mark_phase_def by (intro stable_prod stable_option stable_bind stable_return quiet_calls)

lemma start_stable: "gpu_quiet E V \<Longrightarrow> stable I (start_phases E profile)"
  unfolding start_phases_def by (intro stable_if stable_bind stable_return quiet_calls)

lemma draw_stable: "gpu_quiet E V \<Longrightarrow> stable I (draw_planes E g nv21 width height)"
  unfolding draw_planes_def by (intro stable_bind stable_if stable_return quiet_calls)

end

interpretation stage: gpu_observer V "stage V B c F T" for V B c F T
  by unfold_locales (simp add: stage_def)

lemma owning_calls:
  assumes "gpu_laws E S V"
  shows "triple (stage V B c F T) (ask (ge_createImage E a)) (\<lambda>i. stage V (B + some_object Image i) c F T)"
    and "triple (stage V B c F T) (act (ge_destroyImage E i)) (\<lambda>_. stage V (B - {#Image i#}) c F T)"
    and "triple (stage V B c F T) (ask (ge_createFromHandle E h w hg f u st)) (\<lambda>a. stage V (B + some_object Buffer a) c F T)"
    and "triple (stage V B c F T) (ask (ge_allocate E w hg)) (\<lambda>a. stage V (B + some_object Buffer a) c F T)"
    and "triple (stage V B c F T) (act (ge_release E a)) (\<lambda>_. stage V (B - {#Buffer a#}) c F T)"
    and "triple (stage V B c F T) (act (ge_deleteRenderbuffer E r)) (\<lambda>_. stage V (B - {#Renderbuffer r#}) c F T)"
    and "triple (stage V B c F T) (ask (ge_lock E a)) (\<lambda>p. stage V (B + some_object (\<lambda>_. Mapped a) p) c F T)"
    and "triple (stage V B c F T) (act (ge_unlock E a)) (\<lambda>_. stage V (B - {#Mapped a#}) c F T)"
    and "triple (stage V B c F T) (act (ge_destroySync E s)) (\<lambda>_. stage V (B - {#Sync s#}) c F T)"
    and "triple (stage V B c F T) (ask (ge_createSync E None)) (\<lambda>s. stage V (B + some_object Sync s) c F T)"
proof -
  have laws: "gpu_owns E V" "gpu_fences E S V" using assms by (simp_all add: gpu_laws_def)
  show "triple (stage V B c F T) (ask (ge_createSync E None)) (\<lambda>s. stage V (B + some_object Sync s) c F T)"
    using laws by (intro created_sync) (simp add: gpu_fences_def)
qed (rule ask_gains act_loses, use assms in \<open>simp add: gpu_laws_def gpu_owns_def gpu_fences_def\<close>)+

lemma context_calls:
  assumes "gpu_laws E S V"
  shows "triple (stage V B c F T) (ask (ge_makeCurrent E s None)) (\<lambda>_. stage V B False F T)"
    and "triple (stage V B c F T) (ask (ge_makeCurrent E s (Some ctx))) (\<lambda>ok. stage V B (if ok then True else c) F T)"
proof -
  have move: "moves V (ge_makeCurrent E s c') (\<lambda>ok o1 o2. case o1 of (B, cur, F) \<Rightarrow>
      o2 = (B, if c' = None then False else if ok then True else cur, F))" for c'
    using assms unfolding gpu_laws_def gpu_contexts_def by blast
  show "triple (stage V B c F T) (ask (ge_makeCurrent E s None)) (\<lambda>_. stage V B False F T)"
    by (rule triple_ask [OF move]) simp
  show "triple (stage V B c F T) (ask (ge_makeCurrent E s (Some ctx))) (\<lambda>ok. stage V B (if ok then True else c) F T)"
    by (rule triple_ask [OF move]) simp
qed

lemma release_context:
  assumes "gpu_laws E S V"
  shows "triple (stage V B c F T) (releaseContext E) (\<lambda>_. stage V B False F T)"
  unfolding releaseContext_def by (rule triple_bind [OF context_calls(1) [OF assms]]) (simp add: triple_return)

lemma new_renderbuffer:
  assumes "gpu_laws E S V"
  shows "triple (stage V B c F T) (ask (ge_genRenderbuffer E)) (\<lambda>r x. r \<noteq> 0 \<and> stage V (B + {#Renderbuffer r#}) c F T x)"
proof (rule tripleI)
  fix x a x'
  assume x: "stage V B c F T x" and run: "run_state (ask (ge_genRenderbuffer E)) x = (a, x')"
  then have f: "ge_genRenderbuffer E (snd x) = (a, snd x')" "fst x' = fst x" by (auto simp: ask_def split: prod.splits)
  moreover have "moves V (ge_genRenderbuffer E) (\<lambda>r o1 o2. r \<noteq> 0 \<and> gains (\<lambda>r. {#Renderbuffer r#}) r o1 o2)"
    using assms by (simp add: gpu_laws_def gpu_owns_def)
  ultimately have "a \<noteq> 0 \<and> gains (\<lambda>r. {#Renderbuffer r#}) a (gobs V (snd x)) (gobs V (snd x'))"
    by (simp add: moves_def)
  then show "a \<noteq> 0 \<and> stage V (B + {#Renderbuffer a#}) c F T x'" using x f(2) by (simp add: stage_def gains_def)
qed

lemma laws_quiet: "gpu_laws E S V \<Longrightarrow> gpu_quiet E V"
  by (simp add: gpu_laws_def)

lemma giving_back:
  assumes "gpu_laws E S V"
  shows "triple (stage V (B + {#Image x0#}) c F T) (act (ge_destroyImage E x0)) (\<lambda>_. stage V B c F T)"
    and "triple (stage V (B + {#Buffer x1#}) c F T) (act (ge_release E x1)) (\<lambda>_. stage V B c F T)"
    and "triple (stage V (B + {#Renderbuffer x2#}) c F T) (act (ge_deleteRenderbuffer E x2)) (\<lambda>_. stage V B c F T)"
    and "triple (stage V (B + {#Mapped x3#}) c F T) (act (ge_unlock E x3)) (\<lambda>_. stage V B c F T)"
    and "triple (stage V (B + {#Sync x4#}) c F T) (act (ge_destroySync E x4)) (\<lambda>_. stage V B c F T)"
  using owning_calls(2) [OF assms, of "B + {#Image x0#}" c F T x0]
    owning_calls(5) [OF assms, of "B + {#Buffer x1#}" c F T x1]
    owning_calls(6) [OF assms, of "B + {#Renderbuffer x2#}" c F T x2]
    owning_calls(8) [OF assms, of "B + {#Mapped x3#}" c F T x3]
    owning_calls(9) [OF assms, of "B + {#Sync x4#}" c F T x4]
  by simp_all

section \<open>Images and targets\<close>

lemma set_stable:
  assumes "\<And>g. mOk g \<Longrightarrow> mTried g \<Longrightarrow> mOk (u g) \<and> mTried (u g) \<and> targets (u g) = targets g"
  shows "stable (stage V B c F T) (set_gpu u)"
  unfolding stable_def by (rule triple_set) (simp add: assms)

lemma image_from_buffer:
  assumes "gpu_laws E S V"
  shows "triple (stage V B c F T) (imageFromAhb E a) (\<lambda>i. stage V (B + some_object Image i) c F T)"
  unfolding imageFromAhb_def
  by (intro triple_if triple_return owning_calls(1) [OF assms]) simp

lemma optional_image_taken:
  assumes "gpu_laws E S V"
  shows "triple (stage V B c F T) (optional_image E a) (\<lambda>i. stage V (B + some_object Image i) c F T)"
  unfolding optional_image_def
  by (cases a) (simp_all add: triple_return image_from_buffer [OF assms])

definition wrapped_objects :: "(nat \<times> ahb) option \<Rightarrow> gpu_object multiset" where
  "wrapped_objects t = (case t of None \<Rightarrow> {#} | Some (i, a) \<Rightarrow> {#Image i, Buffer a#})"

lemma image_from_handle:
  assumes "gpu_laws E S V"
  shows "triple (stage V B c F T) (imageFromHandle E h w hgt fmt usage stride)
    (\<lambda>t. stage V (B + wrapped_objects t) c F T)"
  unfolding imageFromHandle_def
proof (rule triple_bind [OF owning_calls(3) [OF assms]])
  fix wrapped
  have drop: "triple (stage V (B + {#Buffer a#}) c F T) (do { act (ge_release E a); gret None })
      (\<lambda>t. stage V (B + wrapped_objects t) c F T)" for a
    by (rule triple_bind [OF owning_calls(5) [OF assms]]) (rule triple_return, simp add: wrapped_objects_def)
  have wrap: "triple (stage V (B + {#Buffer a#}) c F T) (do {
        img \<leftarrow> ask (ge_createImage E a);
        case img of None \<Rightarrow> do { act (ge_release E a); gret None } | Some i \<Rightarrow> gret (Some (i, a)) })
      (\<lambda>t. stage V (B + wrapped_objects t) c F T)" for a
  proof (rule triple_bind [OF owning_calls(1) [OF assms]])
    fix img
    show "triple (stage V (B + {#Buffer a#} + some_object Image img) c F T)
        (case img of None \<Rightarrow> do { act (ge_release E a); gret None } | Some i \<Rightarrow> gret (Some (i, a)))
        (\<lambda>t. stage V (B + wrapped_objects t) c F T)"
      using drop [of a] by (cases img) (simp_all add: triple_return wrapped_objects_def add_mset_commute)
  qed
  show "triple (stage V (B + some_object Buffer wrapped) c F T) (case wrapped of
        None \<Rightarrow> gret None
      | Some a \<Rightarrow> if \<not> ge_clientBuffer E a then do { act (ge_release E a); gret None } else do {
          img \<leftarrow> ask (ge_createImage E a);
          case img of None \<Rightarrow> do { act (ge_release E a); gret None } | Some i \<Rightarrow> gret (Some (i, a)) })
      (\<lambda>t. stage V (B + wrapped_objects t) c F T)"
    using drop wrap by (cases wrapped) (auto simp: triple_return wrapped_objects_def)
qed

lemma drop_renderbuffer:
  assumes "gpu_laws E S V"
  shows "triple (stage V (B + some_rb r) c F T) (if r \<noteq> 0 then act (ge_deleteRenderbuffer E r) else gret ())
    (\<lambda>_. stage V B c F T)"
  using giving_back(3) [OF assms, of B r c F T] by (simp add: some_rb_def triple_return)

lemma drop_object:
  assumes "\<And>a. triple (stage V (B + {#f a#}) c F T) (h a) (\<lambda>_. stage V B c F T)"
  shows "triple (stage V (B + some_object f x) c F T) (when_some x h) (\<lambda>_. stage V B c F T)"
  using assms by (cases x) (simp_all add: when_some_def triple_return)

lemma drop_image:
  assumes "gpu_laws E S V"
  shows "triple (stage V (B + some_object Image x) c F T) (when_some x (\<lambda>i. act (ge_destroyImage E i))) (\<lambda>_. stage V B c F T)"
  by (rule drop_object [OF giving_back(1) [OF assms]])

lemma drop_buffer:
  assumes "gpu_laws E S V"
  shows "triple (stage V (B + some_object Buffer x) c F T) (when_some x (\<lambda>a. act (ge_release E a))) (\<lambda>_. stage V B c F T)"
  by (rule drop_object [OF giving_back(2) [OF assms]])

lemma targets_released:
  assumes laws: "gpu_laws E S V" and B: "B = R + target_objects T"
  shows "triple (stage V B c F T) (releaseYuvTargets E) (\<lambda>_. stage V R c F no_targets)"
  unfolding releaseYuvTargets_def
proof (rule triple_this)
  fix g assume g: "mOk g" "targets g = T"
  have order: "B = R + some_object Buffer (mUvPack g) + some_object Buffer (mYPack g) + some_object Image (mUvImg g) +
      some_object Image (mYImg g) + some_rb (mUvRb g) + some_rb (mYRb g)"
    using g(2) B by (auto simp: target_objects_def targets_def ac_simps)
  show "triple (stage V B c F T) (do {
     (if mYRb g \<noteq> 0 then act (ge_deleteRenderbuffer E (mYRb g)) else gret ());
     (if mUvRb g \<noteq> 0 then act (ge_deleteRenderbuffer E (mUvRb g)) else gret ());
     when_some (mYImg g) (\<lambda>i. act (ge_destroyImage E i));
     when_some (mUvImg g) (\<lambda>i. act (ge_destroyImage E i));
     when_some (mYPack g) (\<lambda>a. act (ge_release E a));
     when_some (mUvPack g) (\<lambda>a. act (ge_release E a));
     set_gpu (\<lambda>g. g\<lparr>mYRb := 0, mUvRb := 0, mYImg := None, mUvImg := None, mYPack := None, mUvPack := None,
       mYuvW := 0, mYuvH := 0\<rparr>) }) (\<lambda>_. stage V R c F no_targets)"
    unfolding order
    by (rule triple_bind [OF drop_renderbuffer [OF laws]], rule triple_bind [OF drop_renderbuffer [OF laws]],
        rule triple_bind [OF drop_image [OF laws]], rule triple_bind [OF drop_image [OF laws]],
        rule triple_bind [OF drop_buffer [OF laws]], rule triple_bind [OF drop_buffer [OF laws]],
        rule triple_set) (simp add: targets_def no_targets_def)
qed

lemma programs_stable:
  assumes "gpu_laws E S V"
  shows "stable (stage V B c F T) (ensurePrograms E)"
  unfolding ensurePrograms_def
  by (intro stable_bind stable_if stable_return stage.this_stable stage.build_stable [OF laws_quiet [OF assms]] set_stable)
    (simp_all add: targets_def)

lemma target_bound:
  assumes "gpu_laws E S V"
  shows "triple (stage V B c F T) (bindTarget E img) (\<lambda>r x. r \<noteq> 0 \<and> stage V (B + {#Renderbuffer r#}) c F T x)"
  unfolding bindTarget_def
proof (rule triple_bind [OF new_renderbuffer [OF assms]], rule triple_pure)
  fix rb :: nat assume rb: "rb \<noteq> 0"
  have "stable (stage V (B + {#Renderbuffer rb#}) c F T) (when_some img (\<lambda>i. act (ge_storage E rb i)))"
    unfolding when_some_def
    by (intro stable_option stable_return stage.quiet_calls [OF laws_quiet [OF assms]])
  then show "triple (stage V (B + {#Renderbuffer rb#}) c F T)
      (do { when_some img (\<lambda>i. act (ge_storage E rb i)); gret rb })
      (\<lambda>r x. r \<noteq> 0 \<and> stage V (B + {#Renderbuffer r#}) c F T x)"
    by (rule triple_skip) (rule triple_return, simp add: rb)
qed

lemma targets_atI: "stage V (R + target_objects T) c F T x \<Longrightarrow> whole_targets T \<Longrightarrow> targets_at V R c F x"
  unfolding targets_at_def by (intro exI conjI)

lemma objects_of_none [simp]: "target_objects no_targets = {#}" "whole_targets no_targets"
  by (simp_all add: target_objects_def no_targets_def some_rb_def whole_targets_def)

lemma no_targets_at: "stage V R c F no_targets x \<Longrightarrow> targets_at V R c F x"
  by (rule targets_atI [of _ _ no_targets]) simp_all

lemma triple_released:
  assumes "gpu_laws E S V"
  shows "triple (stage V (R + target_objects T) c F T) (do { releaseYuvTargets E; gret a }) (\<lambda>_. targets_at V R c F)"
  by (rule triple_bind [OF targets_released [OF assms refl]]) (rule triple_return, rule no_targets_at)

text \<open>A new object goes into its field.\<close>

lemma triple_field:
  assumes "triple (stage V (R + target_objects T) c F T) m (\<lambda>a. stage V (R + target_objects T + X a) c F T)"
    and "\<And>g a. mOk (u a g) = mOk g \<and> mTried (u a g) = mTried g \<and> (targets g = T \<longrightarrow> targets (u a g) = T' a)"
    and "\<And>a. target_objects (T' a) = target_objects T + X a"
    and "\<And>a. triple (stage V (R + target_objects (T' a)) c F (T' a)) (k a) Q"
  shows "triple (stage V (R + target_objects T) c F T) (do { a \<leftarrow> m; set_gpu (u a); k a }) Q"
proof (rule triple_bind [OF assms(1)])
  fix a
  have "triple (stage V (R + target_objects T + X a) c F T) (set_gpu (u a)) (\<lambda>_. stage V (R + target_objects T + X a) c F (T' a))"
    by (rule triple_set) (simp add: assms(2))
  then show "triple (stage V (R + target_objects T + X a) c F T) (do { set_gpu (u a); k a }) Q"
    by (rule triple_bind) (use assms(4) [of a] in \<open>simp add: assms(3) add.assoc\<close>)
qed

lemma triple_renderbuffer:
  assumes "gpu_laws E S V"
    and "\<And>g r. mOk (u r g) = mOk g \<and> mTried (u r g) = mTried g \<and> (targets g = T \<longrightarrow> targets (u r g) = T' r)"
    and "\<And>r. r \<noteq> 0 \<Longrightarrow> target_objects (T' r) = target_objects T + {#Renderbuffer r#}"
    and "\<And>r. triple (stage V (R + target_objects (T' r)) c F (T' r)) (k r) Q"
  shows "triple (stage V (R + target_objects T) c F T) (do { r \<leftarrow> bindTarget E img; set_gpu (u r); k r }) Q"
proof (rule triple_bind [OF target_bound [OF assms(1)]], rule triple_pure)
  fix r :: nat assume r: "r \<noteq> 0"
  have "triple (stage V (R + target_objects T + {#Renderbuffer r#}) c F T) (set_gpu (u r))
      (\<lambda>_. stage V (R + target_objects T + {#Renderbuffer r#}) c F (T' r))"
    by (rule triple_set) (simp add: assms(2))
  then show "triple (stage V (R + target_objects T + {#Renderbuffer r#}) c F T) (do { set_gpu (u r); k r }) Q"
    by (rule triple_bind) (use assms(4) [of r] in \<open>simp add: assms(3) [OF r] add.assoc\<close>)
qed

lemma targets_imaged:
  assumes laws: "gpu_laws E S V" and some: "yPack \<noteq> None" "uvPack \<noteq> None" and T: "T = (yPack, uvPack, None, None, 0, 0)"
  shows "triple (stage V (R + target_objects T) c F T) (image_targets E yPack uvPack width height) (\<lambda>_. targets_at V R c F)"
proof -
  have finish: "triple (stage V (R + target_objects (yPack, uvPack, yi, uvi, yr, uvr)) c F (yPack, uvPack, yi, uvi, yr, uvr))
      (do { set_gpu (\<lambda>g. g\<lparr>mYuvW := width, mYuvH := height\<rparr>); gret True }) (\<lambda>_. targets_at V R c F)" for yi uvi yr uvr
    by (rule triple_skip, rule set_stable, simp add: targets_def, rule triple_return, erule targets_atI)
      (use some in \<open>simp add: whole_targets_def\<close>)
  have second: "triple (stage V (R + target_objects (yPack, uvPack, yi, uvi, yr, 0)) c F (yPack, uvPack, yi, uvi, yr, 0))
      (do { uvRb \<leftarrow> bindTarget E uvi; set_gpu (\<lambda>g. g\<lparr>mUvRb := uvRb\<rparr>);
        set_gpu (\<lambda>g. g\<lparr>mYuvW := width, mYuvH := height\<rparr>); gret True }) (\<lambda>_. targets_at V R c F)" for yi uvi yr
    by (rule triple_renderbuffer [where T' = "\<lambda>uvr. (yPack, uvPack, yi, uvi, yr, uvr)", OF laws])
      (simp add: targets_def, simp add: target_objects_def some_rb_def, rule finish)
  have first: "triple (stage V (R + target_objects (yPack, uvPack, yi, uvi, 0, 0)) c F (yPack, uvPack, yi, uvi, 0, 0))
      (do { yRb \<leftarrow> bindTarget E yi; set_gpu (\<lambda>g. g\<lparr>mYRb := yRb\<rparr>);
        uvRb \<leftarrow> bindTarget E uvi; set_gpu (\<lambda>g. g\<lparr>mUvRb := uvRb\<rparr>);
        set_gpu (\<lambda>g. g\<lparr>mYuvW := width, mYuvH := height\<rparr>); gret True }) (\<lambda>_. targets_at V R c F)" for yi uvi
    by (rule triple_renderbuffer [where T' = "\<lambda>yr. (yPack, uvPack, yi, uvi, yr, 0)", OF laws])
      (simp add: targets_def, simp add: target_objects_def some_rb_def, rule second)
  have images: "triple (stage V (R + target_objects (yPack, uvPack, yi, None, 0, 0)) c F (yPack, uvPack, yi, None, 0, 0))
      (do { uvImg \<leftarrow> optional_image E uvPack; set_gpu (\<lambda>g. g\<lparr>mUvImg := uvImg\<rparr>);
        if yi = None \<or> uvImg = None then do { releaseYuvTargets E; gret False }
        else do { yRb \<leftarrow> bindTarget E yi; set_gpu (\<lambda>g. g\<lparr>mYRb := yRb\<rparr>);
          uvRb \<leftarrow> bindTarget E uvImg; set_gpu (\<lambda>g. g\<lparr>mUvRb := uvRb\<rparr>);
          set_gpu (\<lambda>g. g\<lparr>mYuvW := width, mYuvH := height\<rparr>); gret True } }) (\<lambda>_. targets_at V R c F)" for yi
    by (rule triple_field [where T' = "\<lambda>uvi. (yPack, uvPack, yi, uvi, 0, 0)"], rule optional_image_taken [OF laws])
      (simp add: targets_def, simp add: target_objects_def, rule triple_if, rule triple_released [OF laws], rule first)
  show ?thesis
    unfolding image_targets_def T
    by (rule triple_field [where T' = "\<lambda>yi. (yPack, uvPack, yi, None, 0, 0)"], rule optional_image_taken [OF laws])
      (simp add: targets_def, simp add: target_objects_def, rule images)
qed

lemma targets_allocated:
  assumes laws: "gpu_laws E S V"
  shows "triple (stage V R c F no_targets) (allocate_targets E width height) (\<lambda>_. targets_at V R c F)"
proof -
  have second: "triple (stage V (R + target_objects (y, None, None, None, 0, 0)) c F (y, None, None, None, 0, 0))
      (do { uvPack \<leftarrow> ask (ge_allocate E (width div 4) (height div 2)); set_gpu (\<lambda>g. g\<lparr>mUvPack := uvPack\<rparr>);
        if y = None \<or> uvPack = None then do { releaseYuvTargets E; gret False }
        else image_targets E y uvPack width height }) (\<lambda>_. targets_at V R c F)" for y
    by (rule triple_field [where T' = "\<lambda>uv. (y, uv, None, None, 0, 0)"], rule owning_calls(4) [OF laws])
      (simp add: targets_def, simp add: target_objects_def, rule triple_if, rule triple_released [OF laws],
       rule targets_imaged [OF laws], auto)
  have "triple (stage V (R + target_objects (None, None, None, None, 0, 0)) c F (None, None, None, None, 0, 0))
      (allocate_targets E width height) (\<lambda>_. targets_at V R c F)"
    unfolding allocate_targets_def
    by (rule triple_field [where T' = "\<lambda>y. (y, None, None, None, 0, 0)"], rule owning_calls(4) [OF laws])
      (simp add: targets_def, simp add: target_objects_def, rule second)
  then show ?thesis by (simp add: no_targets_def [symmetric])
qed

lemma targets_ensured:
  assumes laws: "gpu_laws E S V" and whole: "whole_targets T"
  shows "triple (stage V (R + target_objects T) c F T) (ensureYuvTargets E width height) (\<lambda>_. targets_at V R c F)"
  unfolding ensureYuvTargets_def
proof (rule triple_this, rule triple_if)
  show "triple (stage V (R + target_objects T) c F T) (gret True) (\<lambda>_. targets_at V R c F)"
    by (rule triple_return) (erule targets_atI [OF _ whole])
next
  show "triple (stage V (R + target_objects T) c F T) (do {
       releaseYuvTargets E;
       built \<leftarrow> ensurePrograms E;
       if \<not> built then gret False else allocate_targets E width height }) (\<lambda>_. targets_at V R c F)"
    by (rule triple_bind [OF targets_released [OF laws refl]], rule triple_skip [OF programs_stable [OF laws]],
        rule triple_if, rule triple_return, erule no_targets_at, rule targets_allocated [OF laws])
qed

section \<open>The source fence is neither consumed nor leaked\<close>

lemma gpu_wait_keeps:
  assumes "gpu_laws E S V"
  shows "keeps V (gpuWait E S native fd)"
  unfolding moves_def
proof (intro allI impI)
  fix w a w'
  assume run: "gpuWait E S native fd w = (a, w')"
  have laws: "gpu_quiet E V" "gpu_fences E S V" using assms by (simp_all add: gpu_laws_def)
  obtain B c F where w: "gobs V w = (B, c, F)" by (cases "gobs V w") auto
  show "gobs V w' = gobs V w"
  proof (cases native)
    case False
    then show ?thesis using run by (simp add: gpuWait_def)
  next
    case True
    obtain d w1 where dup: "sys_dup S fd w = (d, w1)" by fastforce
    have d: "opens_fd d (gobs V w) (gobs V w1)" using laws dup by (simp add: gpu_fences_def moves_def)
    show ?thesis
    proof (cases "d < 0")
      case True
      then show ?thesis using run \<open>native\<close> dup d w by (simp add: gpuWait_def opens_fd_def)
    next
      case False
      then have w1: "gobs V w1 = (B, c, insert d F)" "d \<notin> F" using d w by (simp_all add: opens_fd_def)
      obtain s w2 where sync: "ge_createSync E (Some d) w1 = (s, w2)" by fastforce
      have "case gobs V w1 of (B, c, F) \<Rightarrow>
          gobs V w2 = (B + some_object Sync s, c, if s = None then F else F - set_option (Some d))"
        using laws(2) sync by (simp add: gpu_fences_def moves_def)
      then have w2: "gobs V w2 = (B + some_object Sync s, c, if s = None then insert d F else F)"
        using w1 by (auto split: if_splits)
      show ?thesis
      proof (cases s)
        case None
        then have "w' = sys_close S d w2" using run \<open>native\<close> dup False sync by (simp add: gpuWait_def)
        moreover have "case gobs V w2 of (B, c, F) \<Rightarrow> gobs V (sys_close S d w2) = (B, c, F - {d})"
          using laws(2) by (simp add: gpu_fences_def moves_def plain_def)
        ultimately show ?thesis using w w1 w2 None by simp
      next
        case (Some y)
        obtain r w3 where waited: "ge_waitSync E y w2 = (r, w3)" by fastforce
        have "gobs V w3 = gobs V w2" using laws(1) waited by (simp add: gpu_quiet_def moves_def)
        moreover have "w' = ge_destroySync E y w3" using run \<open>native\<close> dup False sync Some waited by (simp add: gpuWait_def)
        moreover have "loses (Sync y) () (gobs V w3) (gobs V (ge_destroySync E y w3))"
          using laws(2) by (simp add: gpu_fences_def moves_def plain_def)
        ultimately show ?thesis using w w2 Some by (simp add: loses_def)
      qed
    qed
  qed
qed

lemma ready_keeps:
  assumes "gpu_laws E S V"
  shows "keeps V (acquireFenceReady fd (gpuWait E S native) (sys_sync_wait S))"
proof -
  have "keeps V (sys_sync_wait S fd 100)" using assms by (simp add: gpu_laws_def gpu_fences_def)
  then show ?thesis
    using gpu_wait_keeps [OF assms, of native fd]
    by (auto simp: moves_def acquireFenceReady_def Let_def split: if_splits prod.splits)
qed

lemma wait_stable:
  assumes "gpu_laws E S V"
  shows "stable (stage V B c F T) (waitForSourceFence E S fd)"
  unfolding waitForSourceFence_def
  by (intro stable_bind stage.this_stable stage.ask_stable ready_keeps [OF assms])

section \<open>The two outputs\<close>

lemma planes_read:
  assumes laws: "gpu_laws E S V"
  shows "stable (stage V B c F T) (read_planes E y uv d width height m)"
proof -
  note unlock = giving_back(4) [OF laws]
  have copy: "triple (stage V (B + {#Mapped y#} + {#Mapped uv#}) c F T) (do {
        s \<leftarrow> ask (\<lambda>w. (ge_bytes E w, w));
        act (ge_unlock E y);
        act (ge_unlock E uv);
        gret (True, f s) }) (\<lambda>_. stage V B c F T)" for f :: "mem \<Rightarrow> mem"
  proof (rule triple_skip [OF stage.peek_stable])
    fix s
    have swap: "B + {#Mapped y#} + {#Mapped uv#} = B + {#Mapped uv#} + {#Mapped y#}" by (simp add: add_mset_commute)
    show "triple (stage V (B + {#Mapped y#} + {#Mapped uv#}) c F T)
        (do { act (ge_unlock E y); act (ge_unlock E uv); gret (True, f s) }) (\<lambda>_. stage V B c F T)"
      unfolding swap by (rule triple_bind [OF unlock], rule triple_bind [OF unlock], rule triple_return)
  qed
  have second: "triple (stage V (B + {#Mapped y#} + some_object (\<lambda>_. Mapped uv) uvp) c F T)
      (case uvp of
        None \<Rightarrow> do { act (ge_unlock E y); gret (False, m) }
      | Some uva \<Rightarrow> do {
          s \<leftarrow> ask (\<lambda>w. (ge_bytes E w, w));
          act (ge_unlock E y);
          act (ge_unlock E uv);
          gret (True, copy_planes s ya (ge_stride E y * 4) uva (ge_stride E uv * 4) d width height m) })
      (\<lambda>_. stage V B c F T)" for ya uvp
  proof (cases uvp)
    case None
    have "triple (stage V (B + {#Mapped y#}) c F T) (do { act (ge_unlock E y); gret (False, m) }) (\<lambda>_. stage V B c F T)"
      by (rule triple_bind [OF unlock], rule triple_return)
    then show ?thesis using None by simp
  next
    case (Some uva)
    then show ?thesis using copy by simp
  qed
  show ?thesis
    unfolding stable_def read_planes_def
  proof (rule triple_bind [OF owning_calls(7) [OF laws]])
    fix yp
    show "triple (stage V (B + some_object (\<lambda>_. Mapped y) yp) c F T)
        (case yp of
          None \<Rightarrow> gret (False, m)
        | Some ya \<Rightarrow> do {
            uvp \<leftarrow> ask (ge_lock E uv);
            case uvp of
              None \<Rightarrow> do { act (ge_unlock E y); gret (False, m) }
            | Some uva \<Rightarrow> do {
                s \<leftarrow> ask (\<lambda>w. (ge_bytes E w, w));
                act (ge_unlock E y);
                act (ge_unlock E uv);
                gret (True, copy_planes s ya (ge_stride E y * 4) uva (ge_stride E uv * 4) d width height m) } })
        (\<lambda>_. stage V B c F T)"
    proof (cases yp)
      case None
      then show ?thesis by (simp add: triple_return)
    next
      case (Some ya)
      then show ?thesis
        using triple_bind [OF owning_calls(7) [OF laws] second] by simp
    qed
  qed
qed

lemma planes_drawn:
  assumes laws: "gpu_laws E S V"
  shows "triple (targets_at V R c F) (planes_in_context E S src fd d width height m) (\<lambda>_. targets_at V R c F)"
  unfolding planes_in_context_def
proof (rule triple_targets, rule triple_bind [OF targets_ensured [OF laws]], assumption, rule triple_if,
    rule triple_return, assumption, rule triple_targets)
  fix T assume T: "whole_targets T"
  let ?B = "R + target_objects T"
  have leave: "triple (stage V ?B c F T) (gret r) (\<lambda>_. targets_at V R c F)" for r :: "bool \<times> mem"
    by (rule triple_return) (erule targets_atI [OF _ T])
  note drop = giving_back(1) [OF laws]
  have read: "triple (stage V ?B c F T) (case (yp, uvp) of
        (Some y, Some uv) \<Rightarrow> read_planes E y uv d width height m | _ \<Rightarrow> gret (False, m)) (\<lambda>_. targets_at V R c F)" for yp uvp
  proof -
    have "triple (stage V ?B c F T) (read_planes E y uv d width height m) (\<lambda>_. targets_at V R c F)" for y uv
      by (rule triple_post [OF stable_triple [OF planes_read [OF laws]]]) (erule targets_atI [OF _ T])
    then show ?thesis using leave by (auto split: option.split)
  qed
  show "triple (stage V ?B c F T) (do {
       ready \<leftarrow> waitForSourceFence E S fd;
       if \<not> ready then gret (False, m)
       else do {
         img \<leftarrow> imageFromAhb E src;
         case img of
           None \<Rightarrow> gret (False, m)
         | Some srcImg \<Rightarrow> do {
             g \<leftarrow> this_gpu;
             act (ge_texture E (mSrcTex g) srcImg);
             ok \<leftarrow> draw_planes E g (is_nv21 d) width height;
             act (ge_destroyImage E srcImg);
             if \<not> ok then gret (False, m)
             else case (mYPack g, mUvPack g) of
                 (Some yPack, Some uvPack) \<Rightarrow> read_planes E yPack uvPack d width height m
               | _ \<Rightarrow> gret (False, m) } } }) (\<lambda>_. targets_at V R c F)"
  proof (rule triple_skip [OF wait_stable [OF laws]], rule triple_if, rule leave,
      rule triple_bind [OF image_from_buffer [OF laws]])
    fix img
    have "triple (stage V (?B + {#Image i#}) c F T) (do {
             g \<leftarrow> this_gpu;
             act (ge_texture E (mSrcTex g) i);
             ok \<leftarrow> draw_planes E g (is_nv21 d) width height;
             act (ge_destroyImage E i);
             if \<not> ok then gret (False, m)
             else case (mYPack g, mUvPack g) of
                 (Some yPack, Some uvPack) \<Rightarrow> read_planes E yPack uvPack d width height m
               | _ \<Rightarrow> gret (False, m) }) (\<lambda>_. targets_at V R c F)" for i
      by (rule triple_skip [OF stage.this_stable], rule triple_skip, rule stage.quiet_calls [OF laws_quiet [OF laws]],
          rule triple_skip [OF stage.draw_stable [OF laws_quiet [OF laws]]], rule triple_bind [OF drop],
          rule triple_if, rule leave, rule read)
    then show "triple (stage V (?B + some_object Image img) c F T) (case img of
           None \<Rightarrow> gret (False, m)
         | Some srcImg \<Rightarrow> do {
             g \<leftarrow> this_gpu;
             act (ge_texture E (mSrcTex g) srcImg);
             ok \<leftarrow> draw_planes E g (is_nv21 d) width height;
             act (ge_destroyImage E srcImg);
             if \<not> ok then gret (False, m)
             else case (mYPack g, mUvPack g) of
                 (Some yPack, Some uvPack) \<Rightarrow> read_planes E yPack uvPack d width height m
               | _ \<Rightarrow> gret (False, m) }) (\<lambda>_. targets_at V R c F)"
      using leave by (cases img) simp_all
  qed
qed

section \<open>The blit\<close>

text \<open>At most one new descriptor, the fence that is returned.\<close>

definition fenced :: "'w gpu_view \<Rightarrow> gpu_object multiset \<Rightarrow> bool \<Rightarrow> int set \<Rightarrow> yuv_targets \<Rightarrow> int \<Rightarrow> gpu \<times> 'w \<Rightarrow> bool" where
  "fenced V B c F T fd x \<longleftrightarrow> (if 0 \<le> fd then fd \<notin> F \<and> stage V B c (insert fd F) T x else fd = -1 \<and> stage V B c F T x)"

lemma fenced_none: "stage V B c F T x \<Longrightarrow> fenced V B c F T (-1) x"
  by (simp add: fenced_def)

lemma fence_duplicated:
  assumes "gpu_laws E S V"
  shows "triple (stage V B c F T) (ask (ge_dupFence E s))
    (\<lambda>fd x. if 0 \<le> fd then fd \<notin> F \<and> stage V B c (insert fd F) T x else stage V B c F T x)"
proof (rule tripleI)
  fix x a x'
  assume x: "stage V B c F T x" and run: "run_state (ask (ge_dupFence E s)) x = (a, x')"
  then have f: "ge_dupFence E s (snd x) = (a, snd x')" "fst x' = fst x" by (auto simp: ask_def split: prod.splits)
  have "moves V (ge_dupFence E s) opens_fd" using assms by (simp add: gpu_laws_def gpu_fences_def)
  then have "opens_fd a (gobs V (snd x)) (gobs V (snd x'))" using f by (simp add: moves_def)
  then show "if 0 \<le> a then a \<notin> F \<and> stage V B c (insert a F) T x' else stage V B c F T x'"
    using x f(2) by (auto simp: stage_def opens_fd_def split: if_splits)
qed

lemma completion_fenced:
  assumes laws: "gpu_laws E S V"
  shows "triple (stage V B c F T) (completion E result native wantFence) (\<lambda>fd. fenced V B c F T fd)"
proof -
  let ?dup = "\<lambda>B fd x. if 0 \<le> fd then fd \<notin> F \<and> stage V B c (insert fd F) T x else stage V B c F T x"
  have none: "triple (stage V B c F T) (gret (-1)) (?dup B)" for B
    by (rule triple_return) simp
  have destroyed: "triple (?dup (B + {#Sync s#}) fd) (do { act (ge_destroySync E s); gret fd }) (?dup B)" for s fd
  proof (cases "0 \<le> fd")
    case True
    have "triple (stage V (B + {#Sync s#}) c (insert fd F) T) (do { act (ge_destroySync E s); gret fd })
        (\<lambda>r x. r = fd \<and> stage V B c (insert fd F) T x)"
      by (rule triple_bind [OF giving_back(5) [OF laws]], rule triple_return) simp
    then show ?thesis using True by (auto simp: triple_def split: prod.splits)
  next
    case False
    have "triple (stage V (B + {#Sync s#}) c F T) (do { act (ge_destroySync E s); gret fd })
        (\<lambda>r x. r = fd \<and> stage V B c F T x)"
      by (rule triple_bind [OF giving_back(5) [OF laws]], rule triple_return) simp
    then show ?thesis using False by (auto simp: triple_def split: prod.splits)
  qed
  have got: "triple (stage V (B + some_object Sync sync) c F T)
      (case sync of None \<Rightarrow> gret (-1) | Some s \<Rightarrow> do {
         act (ge_flush E); fd \<leftarrow> ask (ge_dupFence E s); act (ge_destroySync E s); gret fd }) (?dup B)" for sync
  proof (cases sync)
    case None
    then show ?thesis using none by simp
  next
    case (Some s)
    have "triple (stage V (B + {#Sync s#}) c F T) (do {
         act (ge_flush E); fd \<leftarrow> ask (ge_dupFence E s); act (ge_destroySync E s); gret fd }) (?dup B)"
      by (rule triple_skip, rule stage.quiet_calls [OF laws_quiet [OF laws]],
          rule triple_bind [OF fence_duplicated [OF laws] destroyed])
    then show ?thesis using Some by simp
  qed
  have finish: "triple (?dup B fd) (if 0 \<le> fd then gret fd else do { act (ge_finish E); gret (-1) })
      (\<lambda>fd. fenced V B c F T fd)" for fd
  proof (cases "0 \<le> fd")
    case True
    then show ?thesis by (simp add: triple_def fenced_def)
  next
    case False
    have "triple (stage V B c F T) (do { act (ge_finish E); gret (-1) }) (\<lambda>fd. fenced V B c F T fd)"
      by (rule triple_skip, rule stage.quiet_calls [OF laws_quiet [OF laws]], rule triple_return, erule fenced_none)
    then show ?thesis using False by simp
  qed
  show ?thesis
    unfolding completion_def
    by (rule triple_bind [OF _ finish]) (intro triple_if triple_bind [OF owning_calls(10) [OF laws] got] none)
qed

lemma blit_fenced:
  assumes laws: "gpu_laws E S V"
  shows "triple (stage V B c F T) (blit E g dstImg dstRb width height wantFence clear p)
    (\<lambda>r. fenced V B c F T (fst (snd r)))"
  unfolding blit_def
proof (rule triple_skip, rule stage.quiet_calls [OF laws_quiet [OF laws]],
    rule triple_skip, rule stage.quiet_calls [OF laws_quiet [OF laws]], rule triple_if)
  show "triple (stage V B c F T) (do { ask (ge_noError E); gret (False, -1, p) }) (\<lambda>r. fenced V B c F T (fst (snd r)))"
    by (rule triple_skip, rule stage.quiet_calls [OF laws_quiet [OF laws]], rule triple_return)
      (simp add: fenced_none)
next
  show "triple (stage V B c F T) (do {
       act (ge_draw E (Blit (mProg g) width height clear));
       result \<leftarrow> ask (ge_noError E);
       p3 \<leftarrow> mark_phase E 3 p;
       fence \<leftarrow> completion E result (mNativeFence g) wantFence;
       gret (result, fence, p3) }) (\<lambda>r. fenced V B c F T (fst (snd r)))"
    by (rule triple_skip, rule stage.quiet_calls [OF laws_quiet [OF laws]],
        rule triple_skip, rule stage.quiet_calls [OF laws_quiet [OF laws]],
        rule triple_skip [OF stage.mark_stable [OF laws_quiet [OF laws]]],
        rule triple_bind [OF completion_fenced [OF laws]], rule triple_return) simp
qed

text \<open>Whatever a call does in every stage, it does when a fence was added.\<close>

lemma fenced_step:
  assumes "\<And>F. triple (stage V B c F T) m (\<lambda>_. stage V B' c' F T)"
  shows "triple (fenced V B c F T fd) m (\<lambda>_. fenced V B' c' F T fd)"
  using assms [of F] assms [of "insert fd F"]
  by (cases "0 \<le> fd") (auto simp: triple_def fenced_def split: prod.splits)

lemma fenced_skip:
  assumes "\<And>F. stable (stage V B c F T) m"
  shows "stable (fenced V B c F T fd) m"
  unfolding stable_def by (rule fenced_step [OF stable_triple [OF assms]])

lemma torn_down:
  assumes laws: "gpu_laws E S V"
  shows "triple (fenced V (B + {#Image i#} + {#Buffer a#} + {#Image j#} + {#Renderbuffer r#}) c F T fd)
    (teardown E i j a r p3) (\<lambda>_. fenced V B False F T fd)"
  unfolding teardown_def
proof (rule triple_skip [OF fenced_skip [OF stage.mark_stable [OF laws_quiet [OF laws]]]],
    rule triple_skip [OF fenced_skip], rule stage.quiet_calls [OF laws_quiet [OF laws]],
    rule triple_bind [OF fenced_step [OF giving_back(3) [OF laws]]],
    rule triple_bind [OF fenced_step [OF giving_back(1) [OF laws]]])
  fix p4
  have swap: "B + {#Image i#} + {#Buffer a#} = B + {#Buffer a#} + {#Image i#}" by (simp add: add_mset_commute)
  show "triple (fenced V (B + {#Image i#} + {#Buffer a#}) c F T fd) (do {
      act (ge_destroyImage E i);
      act (ge_release E a);
      releaseContext E;
      p5 \<leftarrow> mark_phase E 5 p4;
      gret (fst p5) }) (\<lambda>_. fenced V B False F T fd)"
    unfolding swap
    by (rule triple_bind [OF fenced_step [OF giving_back(1) [OF laws]]],
        rule triple_bind [OF fenced_step [OF giving_back(2) [OF laws]]],
        rule triple_bind [OF fenced_step [OF release_context [OF laws]]],
        rule triple_skip [OF fenced_skip [OF stage.mark_stable [OF laws_quiet [OF laws]]]], rule triple_return)
qed

lemma images_blitted:
  assumes laws: "gpu_laws E S V"
  shows "triple (stage V (B + {#Image i#} + {#Buffer a#} + {#Image j#}) c F T)
    (blit_images E i j a width height wantFence clear p2) (\<lambda>r. fenced V B False F T (fst (snd r)))"
  unfolding blit_images_def
proof (rule triple_skip [OF stage.this_stable], rule triple_skip, rule stage.quiet_calls [OF laws_quiet [OF laws]],
    rule triple_bind [OF new_renderbuffer [OF laws]], rule triple_pure, rule triple_bind [OF blit_fenced [OF laws]])
  fix g :: gpu and r :: nat and res :: "bool \<times> int \<times> int list option \<times> int"
  obtain result fence p3 where res: "res = (result, fence, p3)" by (cases res) auto
  show "triple (fenced V (B + {#Image i#} + {#Buffer a#} + {#Image j#} + {#Renderbuffer r#}) c F T (fst (snd res)))
      (case res of (result, fence, p3) \<Rightarrow> do { ph \<leftarrow> teardown E i j a r p3; gret (result, fence, ph) })
      (\<lambda>r. fenced V B False F T (fst (snd r)))"
    unfolding res prod.case fst_conv snd_conv
    by (rule triple_bind [OF torn_down [OF laws]], rule triple_return) simp
qed

lemma left_early:
  assumes laws: "gpu_laws E S V"
  shows "triple (stage V B c F T) (do { releaseContext E; gret (False, -1, ph) }) (\<lambda>r. fenced V B False F T (fst (snd r)))"
    and "triple (stage V (B + {#Image i#}) c F T) (do { act (ge_destroyImage E i); releaseContext E; gret (False, -1, ph) })
      (\<lambda>r. fenced V B False F T (fst (snd r)))"
proof -
  show leave: "triple (stage V B c F T) (do { releaseContext E; gret (False, -1, ph) })
      (\<lambda>r. fenced V B False F T (fst (snd r)))"
    by (rule triple_bind [OF release_context [OF laws]], rule triple_return) (simp add: fenced_none)
  show "triple (stage V (B + {#Image i#}) c F T) (do { act (ge_destroyImage E i); releaseContext E; gret (False, -1, ph) })
      (\<lambda>r. fenced V B False F T (fst (snd r)))"
    by (rule triple_bind [OF giving_back(1) [OF laws] leave])
qed

lemma blit_in_context_fenced:
  assumes laws: "gpu_laws E S V"
  shows "triple (stage V B c F T) (blit_in_context E S src fd dst width height stride dstFormat dstUsage wantFence clear p)
    (\<lambda>r. fenced V B False F T (fst (snd r)))"
proof -
  note quiet = laws_quiet [OF laws]
  have handled: "triple (stage V (B + {#Image i#} + wrapped_objects t) c F T) (case t of
         None \<Rightarrow> do { act (ge_destroyImage E i); releaseContext E; gret (False, -1, fst p1) }
       | Some (dstImg, dstGb) \<Rightarrow> do {
           p2 \<leftarrow> mark_phase E 2 p1;
           blit_images E i dstImg dstGb width height wantFence clear p2 }) (\<lambda>r. fenced V B False F T (fst (snd r)))" for i t p1
  proof (cases t)
    case None
    then show ?thesis using left_early(2) [OF laws] by (simp add: wrapped_objects_def)
  next
    case (Some ja)
    then obtain j a where ja: "t = Some (j, a)" by (cases ja) auto
    have order: "B + {#Image i#} + {#Image j, Buffer a#} = B + {#Image i#} + {#Buffer a#} + {#Image j#}"
      by (simp add: add_mset_commute)
    show ?thesis
      unfolding ja option.case prod.case wrapped_objects_def order
      by (rule triple_skip [OF stage.mark_stable [OF quiet] images_blitted [OF laws]])
  qed
  have imported: "triple (stage V (B + some_object Image img) c F T) (case img of
         None \<Rightarrow> do { releaseContext E; gret (False, -1, fst p0) }
       | Some srcImg \<Rightarrow> do {
           p1 \<leftarrow> mark_phase E 1 p0;
           target \<leftarrow> imageFromHandle E dst width height dstFormat dstUsage stride;
           case target of
             None \<Rightarrow> do { act (ge_destroyImage E srcImg); releaseContext E; gret (False, -1, fst p1) }
           | Some (dstImg, dstGb) \<Rightarrow> do {
               p2 \<leftarrow> mark_phase E 2 p1;
               blit_images E srcImg dstImg dstGb width height wantFence clear p2 } })
      (\<lambda>r. fenced V B False F T (fst (snd r)))" for img p0
  proof (cases img)
    case None
    then show ?thesis using left_early(1) [OF laws] by simp
  next
    case (Some i)
    show ?thesis
      unfolding Some option.case some_object_simps
      by (rule triple_skip [OF stage.mark_stable [OF quiet]], rule triple_bind [OF image_from_handle [OF laws] handled])
  qed
  show ?thesis
    unfolding blit_in_context_def
    by (rule triple_skip [OF wait_stable [OF laws]], rule triple_if, rule left_early(1) [OF laws],
      rule triple_skip [OF stage.mark_stable [OF quiet]], rule triple_bind [OF image_from_buffer [OF laws] imported])
qed

section \<open>Set-up\<close>

text \<open>Tried, and not yet (or never) usable.\<close>

definition setting_up :: "'w gpu_view \<Rightarrow> gpu_object multiset \<Rightarrow> int set \<Rightarrow> yuv_targets \<Rightarrow> gpu \<times> 'w \<Rightarrow> bool" where
  "setting_up V B F T x \<longleftrightarrow> (\<exists>c. gobs V (snd x) = (B, c, F)) \<and> targets (fst x) = T \<and> mTried (fst x) \<and> \<not> mOk (fst x)"

interpretation preparing: gpu_observer V "setting_up V B F T" for V B F T
  by unfold_locales (simp add: setting_up_def)

lemma setup_set:
  assumes "\<And>g. mTried (u g) = mTried g \<and> mOk (u g) = mOk g \<and> targets (u g) = targets g"
  shows "stable (setting_up V B F T) (set_gpu u)"
  using assms by (auto simp: stable_def triple_def set_gpu_def setting_up_def)

lemma setup_current:
  assumes "gpu_laws E S V"
  shows "stable (setting_up V B F T) (ask (ge_makeCurrent E s c))"
proof -
  have "moves V (ge_makeCurrent E s c) (\<lambda>ok o1 o2. case o1 of (B, cur, F) \<Rightarrow>
      o2 = (B, if c = None then False else if ok then True else cur, F))"
    using assms unfolding gpu_laws_def gpu_contexts_def by blast
  then show ?thesis
    by (fastforce simp: stable_def triple_def ask_def setting_up_def moves_def split: prod.splits)
qed

lemma objects_initialized:
  assumes laws: "gpu_laws E S V"
  shows "triple (setting_up V B F T) (init_objects E) (\<lambda>ok x. if ok then stage V B False F T x else setting_up V B F T x)"
    (is "triple ?I _ ?Q")
proof -
  note quiet = laws_quiet [OF laws]
  have failed: "triple ?I (gret False) ?Q" by (rule triple_return) simp
  have usable: "triple ?I (set_gpu (\<lambda>g. g\<lparr>mSrcTex := tex, mFbo := fbo, mNativeFence := native_fences E, mOk := True\<rparr>))
      (\<lambda>_ x. \<exists>c. True \<and> stage V B c F T x)" for tex fbo
    by (auto simp: triple_def set_gpu_def setting_up_def stage_def targets_def)
  have released: "triple (\<lambda>x. \<exists>c. True \<and> stage V B c F T x) (do { releaseContext E; gret True }) ?Q"
    by (rule triple_exists, rule triple_bind [OF release_context [OF laws]], rule triple_return) simp
  show ?thesis
    unfolding init_objects_def
    by (rule triple_skip, rule preparing.quiet_calls [OF quiet], rule triple_skip, rule setup_set, simp add: targets_def,
        rule triple_skip [OF preparing.compile_stable [OF quiet]], rule triple_skip [OF preparing.compile_stable [OF quiet]],
        rule triple_if, rule failed, rule triple_skip, rule preparing.quiet_calls [OF quiet], rule triple_if, rule failed,
        rule triple_skip, rule preparing.quiet_calls [OF quiet], rule triple_skip, rule preparing.quiet_calls [OF quiet],
        rule triple_bind [OF usable released])
qed

text \<open>\<open>settled\<close>: between two calls.\<close>

definition settled :: "'w gpu_view \<Rightarrow> gpu_object multiset \<Rightarrow> int set \<Rightarrow> gpu \<times> 'w \<Rightarrow> bool" where
  "settled V R F x \<longleftrightarrow> whole_targets (targets (fst x)) \<and> (mOk (fst x) \<longrightarrow> mTried (fst x)) \<and>
     (\<exists>c. gobs V (snd x) = (R + target_objects (targets (fst x)), c, F) \<and> (mOk (fst x) \<longrightarrow> \<not> c))"

lemma settled_stage: "stage V (R + target_objects T) False F T x \<Longrightarrow> whole_targets T \<Longrightarrow> settled V R F x"
  by (auto simp: settled_def stage_def)

lemma settled_targets: "targets_at V R False F x \<Longrightarrow> settled V R F x"
  unfolding targets_at_def using settled_stage by blast

lemma settled_setup: "setting_up V (R + target_objects T) F T x \<Longrightarrow> whole_targets T \<Longrightarrow> settled V R F x"
  by (auto simp: settled_def setting_up_def)

lemma set_up_once:
  assumes laws: "gpu_laws E S V" and whole: "whole_targets T"
  shows "triple (setting_up V (R + target_objects T) F T) (do {
       if \<not> ge_entryPoints E then gret False
       else do {
         up \<leftarrow> ask (ge_initialize E);
         if \<not> up then gret False
         else do {
           cfg \<leftarrow> ask (ge_chooseConfig E);
           if \<not> cfg then gret False
           else do {
             ctx \<leftarrow> ask (ge_createContext E);
             set_gpu (\<lambda>g. g\<lparr>mCtx := ctx\<rparr>);
             if ctx = None then gret False
             else do {
               pbuf \<leftarrow> ask (ge_createPbuffer E);
               set_gpu (\<lambda>g. g\<lparr>mPbuf := pbuf\<rparr>);
               cur \<leftarrow> ask (ge_makeCurrent E pbuf ctx);
               if \<not> cur then gret False else init_objects E } } } } })
    (\<lambda>ok x. if ok then targets_at V R False F x else settled V R F x)" (is "triple ?I _ ?Q")
proof -
  note quiet = laws_quiet [OF laws]
  have failed: "triple ?I (gret False) ?Q"
    by (rule triple_return) (simp add: settled_setup [OF _ whole])
  have objects: "triple ?I (init_objects E) ?Q"
    by (rule triple_post [OF objects_initialized [OF laws]])
      (auto split: if_splits intro: targets_atI [OF _ whole] settled_setup [OF _ whole])
  show ?thesis
    by (rule triple_if, rule failed, rule triple_skip, rule preparing.quiet_calls [OF quiet], rule triple_if, rule failed,
        rule triple_skip, rule preparing.quiet_calls [OF quiet], rule triple_if, rule failed,
        rule triple_skip, rule preparing.quiet_calls [OF quiet], rule triple_skip, rule setup_set, simp add: targets_def,
        rule triple_if, rule failed, rule triple_skip, rule preparing.quiet_calls [OF quiet],
        rule triple_skip, rule setup_set, simp add: targets_def, rule triple_skip [OF setup_current [OF laws]],
        rule triple_if, rule failed, rule objects)
qed

lemma initialized:
  assumes laws: "gpu_laws E S V"
  shows "triple (settled V R F) (ensureInit E) (\<lambda>ok x. if ok then targets_at V R False F x else settled V R F x)"
proof (rule tripleI)
  fix x ok x'
  assume x: "settled V R F x" and run: "run_state (ensureInit E) x = (ok, x')"
  obtain g w where gw: "x = (g, w)" by (cases x) auto
  have whole: "whole_targets (targets g)" using x gw by (simp add: settled_def)
  show "if ok then targets_at V R False F x' else settled V R F x'"
  proof (cases "mTried g")
    case True
    then have "ok = mOk g" "x' = x" using run gw by (auto simp: ensureInit_def this_gpu_def)
    then show ?thesis
      using x gw True whole by (auto simp: settled_def stage_def intro!: targets_atI [of _ _ "targets g"])
  next
    case False
    let ?x = "(g\<lparr>mTried := True\<rparr>, w)"
    have up: "setting_up V (R + target_objects (targets g)) F (targets g) ?x"
      using x gw False by (auto simp: settled_def setting_up_def targets_def)
    show ?thesis
      using run tripleD [OF set_up_once [OF laws whole] _ up]
      by (simp add: gw False ensureInit_def this_gpu_def set_gpu_def)
  qed
qed

section \<open>Between the calls\<close>

text \<open>After a call that returned \<open>fd\<close>.\<close>

definition settled_with :: "'w gpu_view \<Rightarrow> gpu_object multiset \<Rightarrow> int set \<Rightarrow> int \<Rightarrow> gpu \<times> 'w \<Rightarrow> bool" where
  "settled_with V R F fd x \<longleftrightarrow> (if 0 \<le> fd then fd \<notin> F \<and> settled V R (insert fd F) x else settled V R F x)"

lemma settled_fence: "fenced V (R + target_objects T) False F T fd x \<Longrightarrow> whole_targets T \<Longrightarrow> settled_with V R F fd x"
  by (auto simp: fenced_def settled_with_def settled_stage split: if_splits)

lemma now_settled:
  assumes "gpu_laws E S V"
  shows "keeps V f \<Longrightarrow> stable (settled V R F) (ask f)"
  by (auto simp: stable_def triple_def ask_def settled_def moves_def split: prod.splits)

lemma start_settled:
  assumes "gpu_laws E S V"
  shows "stable (settled V R F) (start_phases E profile)"
proof -
  have "keeps V (ge_now E)" using assms by (simp add: gpu_laws_def gpu_quiet_def)
  then show ?thesis
    unfolding start_phases_def by (intro stable_if stable_bind stable_return now_settled [OF assms])
qed

text \<open>\<open>eglMakeCurrent\<close> on the compositor's own context.\<close>

lemma own_context:
  assumes "gpu_laws E S V"
  shows "triple (stage V B False F T) (ask (ge_makeCurrent E s c)) (\<lambda>ok. stage V B (ok \<and> c \<noteq> None) F T)"
proof -
  have "moves V (ge_makeCurrent E s c) (\<lambda>ok o1 o2. case o1 of (B, cur, F) \<Rightarrow>
      o2 = (B, if c = None then False else if ok then True else cur, F))"
    using assms unfolding gpu_laws_def gpu_contexts_def by blast
  then show ?thesis by (rule triple_ask) auto
qed

lemma ycbcr_settled:
  assumes laws: "gpu_laws E S V"
  shows "stable (settled V R F) (compositeToYcbcr E S src fd d width height m)"
proof -
  have leave: "triple (settled V R F) (gret r) (\<lambda>_. settled V R F)" for r :: "bool \<times> mem"
    by (rule triple_return)
  have drawn: "triple (targets_at V R c F) (do {
        r \<leftarrow> planes_in_context E S src fd d width height m; releaseContext E; gret r }) (\<lambda>_. settled V R F)" for c
    by (rule triple_bind [OF planes_drawn [OF laws]], rule triple_targets, rule triple_bind [OF release_context [OF laws]],
        rule triple_return, erule settled_stage)
  have current: "triple (targets_at V R False F) (do {
        g \<leftarrow> this_gpu;
        cur \<leftarrow> ask (ge_makeCurrent E (mPbuf g) (mCtx g));
        if \<not> cur then gret (False, m)
        else do { r \<leftarrow> planes_in_context E S src fd d width height m; releaseContext E; gret r } }) (\<lambda>_. settled V R F)"
  proof (rule triple_targets, rule triple_this, rule triple_bind [OF own_context [OF laws]])
    fix T g cur assume T: "whole_targets T"
    let ?body = "do { r \<leftarrow> planes_in_context E S src fd d width height m; releaseContext E; gret r }"
    show "triple (stage V (R + target_objects T) (cur \<and> mCtx g \<noteq> None) F T)
        (if \<not> cur then gret (False, m) else ?body) (\<lambda>_. settled V R F)"
    proof (cases cur)
      case True
      then show ?thesis using triple_pre [OF drawn targets_atI [OF _ T]] by simp
    next
      case False
      then show ?thesis by (simp add: triple_return settled_stage [OF _ T])
    qed
  qed
  have started: "triple (\<lambda>x. if ok then targets_at V R False F x else settled V R F x) (if \<not> ok then gret (False, m) else do {
        g \<leftarrow> this_gpu;
        cur \<leftarrow> ask (ge_makeCurrent E (mPbuf g) (mCtx g));
        if \<not> cur then gret (False, m)
        else do { r \<leftarrow> planes_in_context E S src fd d width height m; releaseContext E; gret r } }) (\<lambda>_. settled V R F)" for ok
    using current leave by simp
  show ?thesis
    unfolding compositeToYcbcr_def stable_def
    by (rule triple_if, rule leave, rule triple_bind [OF initialized [OF laws] started])
qed

lemma rgba_settled:
  assumes laws: "gpu_laws E S V"
  shows "triple (settled V R F) (composite E S src fd dst width height stride fmt usage wantFence clear profile)
    (\<lambda>r. settled_with V R F (fst (snd r)))"
proof -
  let ?Q = "\<lambda>r. settled_with V R F (fst (snd (r :: bool \<times> int \<times> int list option)))"
  have leave: "triple (settled V R F) (gret (False, -1, ph)) ?Q" for ph
    by (rule triple_return) (simp add: settled_with_def)
  have blitted: "triple (stage V (R + target_objects T) c F T)
      (blit_in_context E S src fd dst width height stride fmt usage wantFence clear p) ?Q" if T: "whole_targets T" for T c p
    by (rule triple_post [OF blit_in_context_fenced [OF laws]]) (erule settled_fence [OF _ T])
  have current: "triple (targets_at V R False F) (do {
        g \<leftarrow> this_gpu;
        cur \<leftarrow> ask (ge_makeCurrent E (mPbuf g) (mCtx g));
        if \<not> cur then gret (False, -1, fst p)
        else blit_in_context E S src fd dst width height stride fmt usage wantFence clear p }) ?Q" for p
  proof (rule triple_targets, rule triple_this, rule triple_bind [OF own_context [OF laws]])
    fix T g cur assume T: "whole_targets T"
    show "triple (stage V (R + target_objects T) (cur \<and> mCtx g \<noteq> None) F T) (if \<not> cur then gret (False, -1, fst p)
        else blit_in_context E S src fd dst width height stride fmt usage wantFence clear p) ?Q"
    proof (cases cur)
      case True
      then show ?thesis using blitted [OF T] by simp
    next
      case False
      then show ?thesis by (simp add: triple_return settled_with_def settled_stage [OF _ T])
    qed
  qed
  have started: "triple (\<lambda>x. if ok then targets_at V R False F x else settled V R F x) (if \<not> ok then gret (False, -1, fst p) else do {
        g \<leftarrow> this_gpu;
        cur \<leftarrow> ask (ge_makeCurrent E (mPbuf g) (mCtx g));
        if \<not> cur then gret (False, -1, fst p)
        else blit_in_context E S src fd dst width height stride fmt usage wantFence clear p }) ?Q" for ok p
    using current leave by simp
  show ?thesis
    unfolding composite_def
    by (rule triple_skip [OF start_settled [OF laws]], rule triple_if, rule leave,
        rule triple_bind [OF initialized [OF laws] started])
qed

lemma call_settled:
  assumes laws: "gpu_laws E S V"
  shows "triple (settled V R F) (gpu_call E S c) (\<lambda>fd. settled_with V R F fd)"
proof (cases c)
  case IsAvailable
  have "triple (settled V R F) (ensureInit E) (\<lambda>_. settled V R F)"
    by (rule triple_post [OF initialized [OF laws]]) (auto split: if_splits intro: settled_targets)
  then have "triple (settled V R F) (do { ensureInit E; gret (-1) }) (\<lambda>fd. settled_with V R F fd)"
    by (rule triple_bind) (rule triple_return, simp add: settled_with_def)
  then show ?thesis using IsAvailable by simp
next
  case (ToRgba src fence dst width height stride fmt usage wantFence clear profile)
  have "triple (settled V R F) (do {
      r \<leftarrow> composite E S src fence dst width height stride fmt usage wantFence clear profile; gret (fst (snd r)) })
      (\<lambda>fd. settled_with V R F fd)"
    by (rule triple_bind [OF rgba_settled [OF laws]], rule triple_return)
  then show ?thesis using ToRgba by simp
next
  case (ToYcbcr src fence d width height m)
  have "triple (settled V R F) (do { compositeToYcbcr E S src fence d width height m; gret (-1) })
      (\<lambda>fd. settled_with V R F fd)"
    by (rule triple_skip [OF ycbcr_settled [OF laws]], rule triple_return) (simp add: settled_with_def)
  then show ?thesis using ToYcbcr by simp
qed

lemma calls_settled:
  assumes laws: "gpu_laws E S V"
  shows "settled V R F x \<Longrightarrow> run_state (gpu_calls E S cs) x = (fds, x') \<Longrightarrow>
    distinct fds \<and> set fds \<inter> F = {} \<and> settled V R (F \<union> set fds) x'"
proof (induction cs arbitrary: F x fds)
  case Nil
  then show ?case by simp
next
  case (Cons c cs)
  obtain fd y where c: "run_state (gpu_call E S c) x = (fd, y)" by (metis surj_pair)
  obtain gs where rest: "run_state (gpu_calls E S cs) y = (gs, x')" "fds = (if 0 \<le> fd then fd # gs else gs)"
    using Cons.prems(2) c by (auto split: prod.splits)
  have y: "settled_with V R F fd y" using tripleD [OF call_settled [OF laws] c Cons.prems(1)] .
  show ?case
  proof (cases "0 \<le> fd")
    case True
    then show ?thesis using Cons.IH [of "insert fd F" y gs] y rest by (auto simp: settled_with_def)
  next
    case False
    then show ?thesis using Cons.IH [of F y gs] y rest by (auto simp: settled_with_def)
  qed
qed


section \<open>Two slips of the set-up\<close>

definition stuck :: "'w gpu_view \<Rightarrow> gpu \<times> 'w \<Rightarrow> bool" where
  "stuck V x \<longleftrightarrow> mTried (fst x) \<and> \<not> mOk (fst x) \<and> gv_current V (snd x)"

definition unusable :: "gpu \<times> 'w \<Rightarrow> bool" where
  "unusable x \<longleftrightarrow> mTried (fst x) \<and> \<not> mOk (fst x)"

interpretation stuck: gpu_observer V "stuck V" for V
  by unfold_locales (simp add: stuck_def gobs_def)

interpretation unusable: gpu_observer V unusable for V
  by unfold_locales (simp add: unusable_def)

lemma triple_known_answer:
  "(\<And>w. A (fst (f w))) \<Longrightarrow> stable I (ask f) \<Longrightarrow> triple I (ask f) (\<lambda>a x. A a \<and> I x)"
proof (rule tripleI)
  fix x a x'
  assume "\<And>w. A (fst (f w))" "stable I (ask f)" "I x" and run: "run_state (ask f) x = (a, x')"
  moreover have "a = fst (f (snd x))" using run by (auto simp: ask_def split: prod.splits)
  ultimately show "A a \<and> I x'" using stableD [OF _ run] by simp
qed

lemma set_unusable: "(\<And>g. mOk (u g) = mOk g \<and> mTried (u g) = mTried g) \<Longrightarrow> stable unusable (set_gpu u)"
  by (simp add: stable_def triple_def set_gpu_def unusable_def)

lemma no_shader:
  assumes "gpu_quiet E V" "\<And>s w. \<not> fst (ge_compiled E s w)"
  shows "triple (stuck V) (compile_shader E sh) (\<lambda>s x. s = 0 \<and> stuck V x)"
  unfolding compile_shader_def
proof (rule triple_skip, rule stuck.quiet_calls [OF assms(1)],
    rule triple_bind, rule triple_known_answer [where A = "\<lambda>ok. \<not> ok"], rule assms(2), rule stuck.quiet_calls [OF assms(1)],
    rule triple_pure)
  fix s ok assume "\<not> ok"
  have "triple (stuck V) (do { act (ge_deleteShader E s); gret 0 }) (\<lambda>s x. s = 0 \<and> stuck V x)"
    by (rule triple_skip, rule stuck.quiet_calls [OF assms(1)], rule triple_return) simp
  then show "triple (stuck V) (if \<not> ok then do { act (ge_deleteShader E s); gret 0 } else gret s) (\<lambda>s x. s = 0 \<and> stuck V x)"
    using \<open>\<not> ok\<close> by simp
qed

text \<open>
  When the driver cannot compile the shaders, set-up fails after the context was made
  current, and nothing releases it: the thread keeps it for good, since set-up is not tried
  again.
\<close>

theorem failed_init_keeps_context:
  assumes "gpu_laws E S V" "ge_entryPoints E" "\<And>w. fst (ge_initialize E w)" "\<And>w. fst (ge_chooseConfig E w)"
    and "\<And>w. fst (ge_createContext E w) \<noteq> None" "\<And>s c w. fst (ge_makeCurrent E s c w)"
    and "\<And>s w. \<not> fst (ge_compiled E s w)"
    and "run_state (ensureInit E) (gpu_init, w) = (ok, (g, w'))"
  shows "\<not> ok \<and> gv_current V w' \<and> run_state (ensureInit E) (g, w') = (False, (g, w'))"
proof -
  note quiet = laws_quiet [OF assms(1)]
  have mc: "triple unusable (ask (ge_makeCurrent E s (Some c))) (\<lambda>ok x. ok \<and> stuck V x)" for s c
  proof (rule tripleI)
    fix x ok x'
    assume x: "unusable x" and run: "run_state (ask (ge_makeCurrent E s (Some c))) x = (ok, x')"
    then have f: "ge_makeCurrent E s (Some c) (snd x) = (ok, snd x')" "fst x' = fst x" by (auto simp: ask_def split: prod.splits)
    have ok using assms(6) [of s "Some c" "snd x"] f(1) by simp
    have "moves V (ge_makeCurrent E s (Some c)) (\<lambda>ok o1 o2. case o1 of (B, cur, F) \<Rightarrow>
        o2 = (B, if Some c = None then False else if ok then True else cur, F))"
      using assms(1) unfolding gpu_laws_def gpu_contexts_def by blast
    then show "ok \<and> stuck V x'" using f x \<open>ok\<close> by (fastforce simp: moves_def gobs_def stuck_def unusable_def)
  qed
  have failed: "triple (stuck V) (init_objects E) (\<lambda>ok x. \<not> ok \<and> stuck V x)"
  proof -
    have set: "stable (stuck V) (set_gpu (\<lambda>g. g\<lparr>mProg := prog\<rparr>))" for prog
      by (simp add: stable_def triple_def set_gpu_def stuck_def)
    show ?thesis
      unfolding init_objects_def
      by (rule triple_skip, rule stuck.quiet_calls [OF quiet], rule triple_skip [OF set],
          rule triple_bind [OF no_shader [OF quiet assms(7)]], rule triple_pure,
          rule triple_bind [OF no_shader [OF quiet assms(7)]], rule triple_pure) (simp add: triple_return)
  qed
  have made: "triple unusable (do { cur \<leftarrow> ask (ge_makeCurrent E pbuf ctx);
      if \<not> cur then gret False else init_objects E }) (\<lambda>ok x. \<not> ok \<and> stuck V x)" if ctx: "ctx \<noteq> None" for pbuf ctx
  proof -
    obtain c where c: "ctx = Some c" using ctx by blast
    show ?thesis unfolding c by (rule triple_bind [OF mc], rule triple_pure) (simp add: failed)
  qed
  have created: "triple unusable (do {
         ctx \<leftarrow> ask (ge_createContext E);
         set_gpu (\<lambda>g. g\<lparr>mCtx := ctx\<rparr>);
         if ctx = None then gret False
         else do {
           pbuf \<leftarrow> ask (ge_createPbuffer E);
           set_gpu (\<lambda>g. g\<lparr>mPbuf := pbuf\<rparr>);
           cur \<leftarrow> ask (ge_makeCurrent E pbuf ctx);
           if \<not> cur then gret False else init_objects E } }) (\<lambda>ok x. \<not> ok \<and> stuck V x)"
  proof (rule triple_bind [OF triple_known_answer [where A = "\<lambda>ctx. ctx \<noteq> None"]], rule assms(5),
      rule unusable.quiet_calls [OF quiet], rule triple_pure, rule triple_skip, rule set_unusable, simp)
    fix ctx :: "nat option" assume ctx: "ctx \<noteq> None"
    have "triple unusable (do {
           pbuf \<leftarrow> ask (ge_createPbuffer E);
           set_gpu (\<lambda>g. g\<lparr>mPbuf := pbuf\<rparr>);
           cur \<leftarrow> ask (ge_makeCurrent E pbuf ctx);
           if \<not> cur then gret False else init_objects E }) (\<lambda>ok x. \<not> ok \<and> stuck V x)"
      by (rule triple_skip, rule unusable.quiet_calls [OF quiet], rule triple_skip, rule set_unusable, simp, rule made [OF ctx])
    then show "triple unusable (if ctx = None then gret False
         else do {
           pbuf \<leftarrow> ask (ge_createPbuffer E);
           set_gpu (\<lambda>g. g\<lparr>mPbuf := pbuf\<rparr>);
           cur \<leftarrow> ask (ge_makeCurrent E pbuf ctx);
           if \<not> cur then gret False else init_objects E }) (\<lambda>ok x. \<not> ok \<and> stuck V x)"
      using ctx by (simp del: not_None_eq)
  qed
  have up: "fst (ge_initialize E v) = True" "fst (ge_chooseConfig E v) = True" for v using assms(3,4) by simp_all
  have "run_state (ensureInit E) (gpu_init, w) = run_state (do {
         ctx \<leftarrow> ask (ge_createContext E);
         set_gpu (\<lambda>g. g\<lparr>mCtx := ctx\<rparr>);
         if ctx = None then gret False
         else do {
           pbuf \<leftarrow> ask (ge_createPbuffer E);
           set_gpu (\<lambda>g. g\<lparr>mPbuf := pbuf\<rparr>);
           cur \<leftarrow> ask (ge_makeCurrent E pbuf ctx);
           if \<not> cur then gret False else init_objects E } })
      (gpu_init\<lparr>mTried := True\<rparr>, snd (ge_chooseConfig E (snd (ge_initialize E w))))"
    using assms(2) up by (simp add: ensureInit_def this_gpu_def set_gpu_def ask_def gpu_init_def case_prod_beta)
  then have "\<not> ok \<and> stuck V (g, w')"
    using tripleD [OF created, of "(gpu_init\<lparr>mTried := True\<rparr>, snd (ge_chooseConfig E (snd (ge_initialize E w))))"] assms(8)
    by (simp add: unusable_def gpu_init_def)
  then show ?thesis by (simp add: ensureInit_def this_gpu_def stuck_def)
qed

lemma calls_same: "stable (\<lambda>y. fst y = g) (ask h)" "stable (\<lambda>y. fst y = g) (act k)"
  by (simp_all add: stable_def triple_def ask_def act_def split: prod.split)

lemma build_same: "stable (\<lambda>y. fst y = g) (buildProgram E vert frag)"
  unfolding buildProgram_def compile_shader_def by (intro stable_bind stable_if stable_return calls_same)

text \<open>
  When the luma program links but the chroma program does not, the call fails, and the next
  one takes the programs for built: it draws with program 0.
\<close>

theorem half_built_programs_pass:
  assumes "run_state (ensurePrograms E) (g, w) = (False, (g', w'))" and "mProgY g' \<noteq> 0"
  shows "mProgUv g' = 0 \<and> run_state (ensurePrograms E) (g', w') = (True, (g', w'))"
proof -
  have same: "fst x' = fst x" if "run_state (buildProgram E v f) x = (r, x')" for v f x r x'
    using stableD [OF build_same that] by simp
  have "mProgY g = 0" using assms(1) by (auto simp: ensurePrograms_def this_gpu_def split: if_splits)
  then show ?thesis
    using assms by (auto simp: ensurePrograms_def this_gpu_def set_gpu_def split: prod.splits dest!: same)
qed

section \<open>Witnesses\<close>

text \<open>
  A driver whose world is the observation itself; \<open>compiles\<close> tells whether shaders
  compile. Descriptor 5 is free when it is not in use.
\<close>

definition gain :: "'a \<Rightarrow> gpu_object multiset \<Rightarrow> gpu_obs \<Rightarrow> 'a \<times> gpu_obs" where
  "gain a r w = (a, (fst w + r, snd w))"

definition give_up :: "gpu_object \<Rightarrow> gpu_obs \<Rightarrow> gpu_obs" where
  "give_up x w = (fst w - {#x#}, snd w)"

definition free_fd :: "gpu_obs \<Rightarrow> int \<times> gpu_obs" where
  "free_fd w = (if 5 \<in> snd (snd w) then (-1, w) else (5, (fst w, fst (snd w), insert 5 (snd (snd w)))))"

definition demo_gpu :: "bool \<Rightarrow> gpu_obs gpu_env" where
  "demo_gpu compiles = \<lparr>ge_entryPoints = True, ge_extensions = Some ''EGL_ANDROID_native_fence_sync'', ge_fenceCalls = True,
     ge_initialize = Pair True, ge_chooseConfig = Pair True, ge_createContext = Pair (Some 1), ge_createPbuffer = Pair (Some 2),
     ge_makeCurrent = (\<lambda>s c w. (True, (fst w, c \<noteq> None, snd (snd w)))),
     ge_createShader = (\<lambda>_. Pair 1), ge_compiled = (\<lambda>_. Pair compiles), ge_deleteShader = (\<lambda>_. id),
     ge_createProgram = Pair 1, ge_link = (\<lambda>_ _ _. Pair True), ge_deleteProgram = (\<lambda>_. id),
     ge_genTexture = Pair 1, ge_genFramebuffer = Pair 1, ge_clientBuffer = (\<lambda>_. True),
     ge_createImage = (\<lambda>a. gain (Some a) {#Image a#}), ge_destroyImage = (\<lambda>i. give_up (Image i)),
     ge_createFromHandle = (\<lambda>h _ _ _ _ _. gain (Some 9) {#Buffer 9#}), ge_allocate = (\<lambda>_ _. gain (Some 8) {#Buffer 8#}),
     ge_release = (\<lambda>a. give_up (Buffer a)), ge_genRenderbuffer = gain 3 {#Renderbuffer 3#}, ge_storage = (\<lambda>_ _. id),
     ge_deleteRenderbuffer = (\<lambda>r. give_up (Renderbuffer r)), ge_texture = (\<lambda>_ _. id), ge_attach = (\<lambda>_ _. Pair True),
     ge_draw = (\<lambda>_. id), ge_noError = Pair True, ge_unbind = id, ge_flush = id, ge_finish = id,
     ge_createSync = (\<lambda>fd w. (Some 4, (add_mset (Sync 4) (fst w), fst (snd w), snd (snd w) - set_option fd))),
     ge_waitSync = (\<lambda>_. Pair True), ge_destroySync = (\<lambda>s. give_up (Sync s)), ge_dupFence = (\<lambda>_. free_fd),
     ge_stride = (\<lambda>_. 4), ge_lock = (\<lambda>a. gain (Some 0) {#Mapped a#}), ge_unlock = (\<lambda>a. give_up (Mapped a)),
     ge_bytes = (\<lambda>w a. 0), ge_now = Pair 0\<rparr>"

definition demo_gpu_sys :: "gpu_obs sys" where
  "demo_gpu_sys = \<lparr>sys_dup = (\<lambda>_. free_fd), sys_close = (\<lambda>fd w. (fst w, fst (snd w), snd (snd w) - {fd})),
     sys_sync_wait = (\<lambda>_ _. Pair 0), sys_sync_merge = (\<lambda>_ _. Pair (-1))\<rparr>"

definition demo_gpu_view :: "gpu_obs gpu_view" where
  "demo_gpu_view = \<lparr>gv_held = fst, gv_current = (\<lambda>w. fst (snd w)), gv_fds = (\<lambda>w. snd (snd w))\<rparr>"

lemma demo_gpu_laws: "gpu_laws (demo_gpu compiles) demo_gpu_sys demo_gpu_view"
proof -
  have obs: "gobs demo_gpu_view w = w" for w by (simp add: gobs_def demo_gpu_view_def)
  have "gpu_quiet (demo_gpu compiles) demo_gpu_view"
    by (simp add: gpu_quiet_def demo_gpu_def moves_def plain_def)
  moreover have "gpu_owns (demo_gpu compiles) demo_gpu_view"
    by (auto simp: gpu_owns_def demo_gpu_def moves_def plain_def obs gains_def loses_def gain_def give_up_def)
  moreover have "gpu_fences (demo_gpu compiles) demo_gpu_sys demo_gpu_view"
    by (auto simp: gpu_fences_def demo_gpu_def demo_gpu_sys_def moves_def plain_def obs opens_fd_def free_fd_def
        loses_def give_up_def split: if_splits)
  moreover have "gpu_contexts (demo_gpu compiles) demo_gpu_view"
    by (auto simp: gpu_contexts_def demo_gpu_def moves_def obs)
  ultimately show ?thesis by (simp add: gpu_laws_def)
qed


theorem failed_init_keeps_context_witness:
  "\<exists>ok g w'. run_state (ensureInit (demo_gpu False)) (gpu_init, ({#}, False, {})) = (ok, (g, w')) \<and>
    \<not> ok \<and> fst (snd w') \<and> run_state (ensureInit (demo_gpu False)) (g, w') = (False, (g, w'))"
proof -
  obtain ok g w' where run: "run_state (ensureInit (demo_gpu False)) (gpu_init, ({#}, False, {})) = (ok, (g, w'))"
    by (metis surj_pair)
  have "\<not> ok \<and> gv_current demo_gpu_view w' \<and> run_state (ensureInit (demo_gpu False)) (g, w') = (False, (g, w'))"
    by (rule failed_init_keeps_context [OF demo_gpu_laws _ _ _ _ _ _ run]) (simp_all add: demo_gpu_def)
  then show ?thesis using run by (intro exI [of _ ok] exI [of _ g] exI [of _ w']) (simp add: demo_gpu_view_def)
qed

text \<open>A driver that links one program only.\<close>

definition one_program :: "gpu_obs gpu_env" where
  "one_program = (demo_gpu True)\<lparr>ge_createProgram := (\<lambda>w. gain (Suc (size (fst w))) {#Image 0#} w),
     ge_link := (\<lambda>p _ _. Pair (p = 1)), ge_deleteProgram := (\<lambda>_. id)\<rparr>"

theorem half_built_programs_pass_witness:
  "\<exists>g' w'. run_state (ensurePrograms one_program) (gpu_init, ({#}, False, {})) = (False, (g', w')) \<and>
    mProgY g' = 1 \<and> mProgUv g' = 0 \<and> run_state (ensurePrograms one_program) (g', w') = (True, (g', w'))"
proof -
  let ?g = "gpu_init\<lparr>mProgY := 1, mProgUv := 0\<rparr>" and ?w = "({#Image 0, Image 0#}, False, {})"
  have run: "run_state (ensurePrograms one_program) (gpu_init, ({#}, False, {})) = (False, (?g, ?w))"
    by (simp add: ensurePrograms_def buildProgram_def compile_shader_def ask_def act_def this_gpu_def set_gpu_def
        one_program_def demo_gpu_def gain_def gpu_init_def)
  from half_built_programs_pass [OF run] run show ?thesis by (intro exI [of _ ?g] exI [of _ ?w]) simp
qed

end
