(* ===== verification/Ashmem_Renderer.thy ===== *)
theory Ashmem_Renderer
  imports Frame_Writer_V1 Frame_Filler
begin

text \<open>
  \<open>renderer-lib/src/main/cpp/VirtualCameraRenderer.{h,cpp}\<close> and its JNI entry points: an
  application's renderer that puts its frames into an ashmem region of its own, behind a
  header of 56 bytes. The kernel calls are parameters. The theorems: whatever Java calls, one
  region and one descriptor exist exactly while the renderer is ready, and the buffer handed
  to Java lies inside the region.
\<close>

section \<open>The renderer\<close>

record 'w ashmem =
  as_open :: "'w \<Rightarrow> int \<times> 'w"
  as_setName :: "int \<Rightarrow> 'w \<Rightarrow> int \<times> 'w"
  as_setSize :: "int \<Rightarrow> nat \<Rightarrow> 'w \<Rightarrow> int \<times> 'w"
  as_mmap :: "int \<Rightarrow> nat \<Rightarrow> 'w \<Rightarrow> bool \<times> 'w"
  as_munmap :: "nat \<Rightarrow> 'w \<Rightarrow> 'w"
  as_close :: "int \<Rightarrow> 'w \<Rightarrow> 'w"
  as_unlink :: "'w \<Rightarrow> 'w"
  as_symlink :: "int \<Rightarrow> 'w \<Rightarrow> int \<times> 'w"
  as_clock :: "'w \<Rightarrow> int \<times> 'w"

text \<open>\<open>ar_mapped\<close> and \<open>ar_header\<close> tell whether \<open>mMappedAddr\<close> and \<open>mHeader\<close> are not null.\<close>

record ashmem_renderer =
  ar_initialized :: bool
  ar_fd :: int
  ar_mapped :: bool
  ar_mappedSize :: nat
  ar_header :: bool
  ar_frameData :: "nat option"
  ar_width :: "32 word"
  ar_height :: "32 word"
  ar_stride :: "32 word"
  ar_frameSize :: nat
  ar_format :: "32 word"
  ar_frameNumber :: "64 word"

definition PixelFormat_YUV_420_888 :: "32 word" where "PixelFormat_YUV_420_888 = 35"

definition PixelFormat_IMPLEMENTATION_DEFINED :: "32 word" where "PixelFormat_IMPLEMENTATION_DEFINED = 34"

definition ashmem_renderer_init :: ashmem_renderer where
  "ashmem_renderer_init = \<lparr>ar_initialized = False, ar_fd = -1, ar_mapped = False, ar_mappedSize = 0,
     ar_header = False, ar_frameData = None, ar_width = 0, ar_height = 0, ar_stride = 0, ar_frameSize = 0,
     ar_format = PixelFormat_YUV_420_888, ar_frameNumber = 0\<rparr>"

text \<open>\<open>sizeof(FrameHeader)\<close>: 52 bytes of members, aligned to 8.\<close>

definition ashmem_header_size :: nat where "ashmem_header_size = 56"

text \<open>The products wrap at 32 bits before they are widened.\<close>

definition calculateFrameSize :: "32 word \<Rightarrow> 32 word \<Rightarrow> 32 word \<Rightarrow> nat" where
  "calculateFrameSize width height format =
     (if format = FORMAT_RGBA_8888 then unat (width * height * 4)
      else if format = PixelFormat_YUV_420_888 \<or> format = PixelFormat_IMPLEMENTATION_DEFINED
      then unat (width * height + width * height div 2)
      else unat (width * height * 4))"

text \<open>A new region is zero. A failed symbolic link is only logged.\<close>

definition ar_createSharedMemory :: "'w ashmem \<Rightarrow> ashmem_renderer \<Rightarrow> shm \<Rightarrow> 'w \<Rightarrow> bool \<times> ashmem_renderer \<times> shm \<times> 'w" where
  "ar_createSharedMemory K s m w =
     (let s0 = s\<lparr>ar_mappedSize := ashmem_header_size + ar_frameSize s\<rparr>; (fd, w1) = as_open K w in
      if fd < 0 then (False, s0\<lparr>ar_fd := fd\<rparr>, m, w1)
      else
        let (named, w2) = as_setName K fd w1 in
        if named < 0 then (False, s0\<lparr>ar_fd := -1\<rparr>, m, as_close K fd w2)
        else
          let (sized, w3) = as_setSize K fd (ar_mappedSize s0) w2 in
          if sized < 0 then (False, s0\<lparr>ar_fd := -1\<rparr>, m, as_close K fd w3)
          else
            let (mapped, w4) = as_mmap K fd (ar_mappedSize s0) w3 in
            if \<not> mapped then (False, s0\<lparr>ar_fd := -1, ar_mapped := False\<rparr>, m, as_close K fd w4)
            else
              let (linked, w5) = as_symlink K fd (as_unlink K w4) in
              (True, s0\<lparr>ar_fd := fd, ar_mapped := True, ar_header := True, ar_frameData := Some ashmem_header_size\<rparr>,
               zero_shm, w5))"

definition ar_initialize :: "'w ashmem \<Rightarrow> 32 word \<Rightarrow> 32 word \<Rightarrow> 32 word \<Rightarrow> ashmem_renderer \<Rightarrow> shm \<Rightarrow> 'w \<Rightarrow>
    bool \<times> ashmem_renderer \<times> shm \<times> 'w" where
  "ar_initialize K width height format s m w =
     (if ar_initialized s then (False, s, m, w)
      else
        let (ok, s1, m1, w1) = ar_createSharedMemory K (s\<lparr>ar_width := width, ar_height := height, ar_format := format,
              ar_stride := width, ar_frameSize := calculateFrameSize width height format\<rparr>) m w in
        if \<not> ok then (False, s1, m1, w1)
        else (True, s1\<lparr>ar_initialized := True\<rparr>,
          m1\<lparr>shm_header := (shm_header m1)\<lparr>fh_magic := VCMF_MAGIC, fh_version := VCMF_VERSION, fh_width := width,
            fh_height := height, fh_format := format, fh_stride := ar_stride s1, fh_frameNumber := 0,
            fh_timestamp := 0, fh_dataOffset := of_nat ashmem_header_size, fh_dataSize := of_nat (ar_frameSize s1),
            fh_flags := FLAG_RENDERER_ACTIVE\<rparr>\<rparr>, w1))"

definition set_flags :: "32 word \<Rightarrow> shm \<Rightarrow> shm" where
  "set_flags flags m = m\<lparr>shm_header := (shm_header m)\<lparr>fh_flags := flags\<rparr>\<rparr>"

definition ar_destroySharedMemory :: "'w ashmem \<Rightarrow> ashmem_renderer \<Rightarrow> shm \<Rightarrow> 'w \<Rightarrow> ashmem_renderer \<times> shm \<times> 'w" where
  "ar_destroySharedMemory K s m w =
     (let (s1, m1, w1) = (if ar_mapped s
            then (s\<lparr>ar_mapped := False, ar_header := False, ar_frameData := None\<rparr>,
                  if ar_header s then set_flags 0 m else m, as_munmap K (ar_mappedSize s) w)
            else (s, m, w));
          (s2, w2) = (if 0 \<le> ar_fd s1 then (s1\<lparr>ar_fd := -1\<rparr>, as_close K (ar_fd s1) w1) else (s1, w1)) in
      (s2, m1, as_unlink K w2))"

definition ar_shutdown :: "'w ashmem \<Rightarrow> ashmem_renderer \<Rightarrow> shm \<Rightarrow> 'w \<Rightarrow> ashmem_renderer \<times> shm \<times> 'w" where
  "ar_shutdown K s m w =
     (if \<not> ar_initialized s then (s, m, w)
      else let (s1, m1, w1) = ar_destroySharedMemory K s m w in
        (s1\<lparr>ar_initialized := False, ar_frameNumber := 0\<rparr>, m1, w1))"

definition ar_beginFrame :: "ashmem_renderer \<Rightarrow> shm \<Rightarrow> nat option \<times> shm" where
  "ar_beginFrame s m =
     (if \<not> ar_initialized s \<or> ar_frameData s = None then (None, m)
      else (ar_frameData s, set_flags FLAG_RENDERER_ACTIVE m))"

definition ar_endFrame :: "'w ashmem \<Rightarrow> 64 word \<Rightarrow> ashmem_renderer \<Rightarrow> shm \<Rightarrow> 'w \<Rightarrow> ashmem_renderer \<times> shm \<times> 'w" where
  "ar_endFrame K timestamp s m w =
     (if \<not> ar_initialized s \<or> \<not> ar_header s then (s, m, w)
      else
        let k = ar_frameNumber s + 1;
            (ts, w1) = (if timestamp = 0 then let (ns, w') = as_clock K w in (word_of_int ns, w') else (timestamp, w)) in
        (s\<lparr>ar_frameNumber := k\<rparr>,
         m\<lparr>shm_header := (shm_header m)\<lparr>fh_frameNumber := k, fh_timestamp := ts,
           fh_flags := or FLAG_RENDERER_ACTIVE FLAG_NEW_FRAME\<rparr>\<rparr>, w1))"

section \<open>The entry points\<close>

text \<open>
  \<open>sRenderer\<close> is the only state; Java's \<open>int\<close>s arrive as 32 bit words. Deleting the object
  runs its destructor, a second \<open>shutdown\<close>.
\<close>

record native_state =
  ns_renderer :: "ashmem_renderer option"
  ns_shm :: shm

definition drop_renderer :: "'w ashmem \<Rightarrow> native_state \<Rightarrow> 'w \<Rightarrow> native_state \<times> 'w" where
  "drop_renderer K n w = (case ns_renderer n of
       None \<Rightarrow> (n, w)
     | Some s \<Rightarrow>
         let (s1, m1, w1) = ar_shutdown K s (ns_shm n) w; (s2, m2, w2) = ar_shutdown K s1 m1 w1 in
         (n\<lparr>ns_renderer := None, ns_shm := m2\<rparr>, w2))"

definition nativeInitialize :: "'w ashmem \<Rightarrow> 32 word \<Rightarrow> 32 word \<Rightarrow> 32 word \<Rightarrow> native_state \<Rightarrow> 'w \<Rightarrow>
    bool \<times> native_state \<times> 'w" where
  "nativeInitialize K width height format n w =
     (let (n1, w1) = drop_renderer K n w;
          (ok, s, m, w2) = ar_initialize K width height format ashmem_renderer_init (ns_shm n1) w1 in
      (ok, n1\<lparr>ns_renderer := Some s, ns_shm := m\<rparr>, w2))"

definition nativeShutdown :: "'w ashmem \<Rightarrow> native_state \<Rightarrow> 'w \<Rightarrow> native_state \<times> 'w" where
  "nativeShutdown = drop_renderer"

definition nativeIsReady :: "native_state \<Rightarrow> bool" where
  "nativeIsReady n = (case ns_renderer n of None \<Rightarrow> False | Some s \<Rightarrow> ar_initialized s)"

text \<open>The buffer as its offset in the region and its capacity.\<close>

definition nativeBeginFrame :: "native_state \<Rightarrow> (nat \<times> nat) option \<times> native_state" where
  "nativeBeginFrame n = (case ns_renderer n of
       None \<Rightarrow> (None, n)
     | Some s \<Rightarrow>
         if \<not> ar_initialized s then (None, n)
         else let (buffer, m) = ar_beginFrame s (ns_shm n) in
           (map_option (\<lambda>b. (b, ar_frameSize s)) buffer, n\<lparr>ns_shm := m\<rparr>))"

definition nativeEndFrame :: "'w ashmem \<Rightarrow> 64 word \<Rightarrow> native_state \<Rightarrow> 'w \<Rightarrow> native_state \<times> 'w" where
  "nativeEndFrame K timestamp n w = (case ns_renderer n of
       None \<Rightarrow> (n, w)
     | Some s \<Rightarrow> let (s1, m, w1) = ar_endFrame K timestamp s (ns_shm n) w in
         (n\<lparr>ns_renderer := Some s1, ns_shm := m\<rparr>, w1))"

definition nativeGetWidth :: "native_state \<Rightarrow> 32 word" where
  "nativeGetWidth n = (case ns_renderer n of None \<Rightarrow> 0 | Some s \<Rightarrow> ar_width s)"

definition nativeGetHeight :: "native_state \<Rightarrow> 32 word" where
  "nativeGetHeight n = (case ns_renderer n of None \<Rightarrow> 0 | Some s \<Rightarrow> ar_height s)"

definition nativeGetFrameSize :: "native_state \<Rightarrow> 32 word" where
  "nativeGetFrameSize n = (case ns_renderer n of None \<Rightarrow> 0 | Some s \<Rightarrow> of_nat (ar_frameSize s))"

section \<open>What the entry points keep\<close>

text \<open>
  What exists outside: the open descriptors and the mapped sizes. A descriptor that is
  opened is new.
\<close>

record 'w ashmem_view =
  av_fds :: "'w \<Rightarrow> int set"
  av_maps :: "'w \<Rightarrow> nat list"

definition ashmem_laws :: "'w ashmem \<Rightarrow> 'w ashmem_view \<Rightarrow> bool" where
  "ashmem_laws K V \<longleftrightarrow>
     (\<forall>w fd w'. as_open K w = (fd, w') \<longrightarrow> av_maps V w' = av_maps V w \<and>
        (if fd < 0 then av_fds V w' = av_fds V w else fd \<notin> av_fds V w \<and> av_fds V w' = insert fd (av_fds V w))) \<and>
     (\<forall>fd w. av_fds V (snd (as_setName K fd w)) = av_fds V w \<and> av_maps V (snd (as_setName K fd w)) = av_maps V w) \<and>
     (\<forall>fd n w. av_fds V (snd (as_setSize K fd n w)) = av_fds V w \<and> av_maps V (snd (as_setSize K fd n w)) = av_maps V w) \<and>
     (\<forall>fd n w. av_fds V (snd (as_mmap K fd n w)) = av_fds V w \<and>
        av_maps V (snd (as_mmap K fd n w)) = (if fst (as_mmap K fd n w) then n # av_maps V w else av_maps V w)) \<and>
     (\<forall>n w. av_fds V (as_munmap K n w) = av_fds V w \<and> av_maps V (as_munmap K n w) = remove1 n (av_maps V w)) \<and>
     (\<forall>fd w. av_fds V (as_close K fd w) = av_fds V w - {fd} \<and> av_maps V (as_close K fd w) = av_maps V w) \<and>
     (\<forall>w. av_fds V (as_unlink K w) = av_fds V w \<and> av_maps V (as_unlink K w) = av_maps V w) \<and>
     (\<forall>fd w. av_fds V (snd (as_symlink K fd w)) = av_fds V w \<and> av_maps V (snd (as_symlink K fd w)) = av_maps V w) \<and>
     (\<forall>w. av_fds V (snd (as_clock K w)) = av_fds V w \<and> av_maps V (snd (as_clock K w)) = av_maps V w)"

text \<open>
  \<open>renders F M n w\<close>: besides \<open>F\<close> and \<open>M\<close>, the region of the ready renderer and its
  descriptor exist, and nothing when there is none.
\<close>

definition renders :: "'w ashmem_view \<Rightarrow> int set \<Rightarrow> nat list \<Rightarrow> native_state \<Rightarrow> 'w \<Rightarrow> bool" where
  "renders V F M n w \<longleftrightarrow> (case ns_renderer n of
       None \<Rightarrow> av_fds V w = F \<and> av_maps V w = M
     | Some s \<Rightarrow>
         if ar_initialized s then ar_fd s \<notin> F \<and> 0 \<le> ar_fd s \<and> av_fds V w = insert (ar_fd s) F \<and>
           av_maps V w = ar_mappedSize s # M \<and> ar_mapped s \<and> ar_header s \<and>
           ar_frameData s = Some ashmem_header_size \<and> ar_mappedSize s = ashmem_header_size + ar_frameSize s \<and>
           ar_frameSize s = calculateFrameSize (ar_width s) (ar_height s) (ar_format s)
         else av_fds V w = F \<and> av_maps V w = M)"

lemma ashmem_calls:
  assumes "ashmem_laws K V"
  shows "as_open K w = (fd, w') \<Longrightarrow> av_maps V w' = av_maps V w"
    and "as_open K w = (fd, w') \<Longrightarrow> fd < 0 \<Longrightarrow> av_fds V w' = av_fds V w"
    and "as_open K w = (fd, w') \<Longrightarrow> 0 \<le> fd \<Longrightarrow> fd \<notin> av_fds V w \<and> av_fds V w' = insert fd (av_fds V w)"
    and "as_setName K d w = (r, w') \<Longrightarrow> av_fds V w' = av_fds V w \<and> av_maps V w' = av_maps V w"
    and "as_setSize K d n w = (r, w') \<Longrightarrow> av_fds V w' = av_fds V w \<and> av_maps V w' = av_maps V w"
    and "as_mmap K d n w = (b, w') \<Longrightarrow> av_fds V w' = av_fds V w \<and> av_maps V w' = (if b then n # av_maps V w else av_maps V w)"
    and "as_symlink K d w = (r, w') \<Longrightarrow> av_fds V w' = av_fds V w \<and> av_maps V w' = av_maps V w"
    and "as_clock K w = (r, w') \<Longrightarrow> av_fds V w' = av_fds V w \<and> av_maps V w' = av_maps V w"
proof -
  show "as_open K w = (fd, w') \<Longrightarrow> av_maps V w' = av_maps V w"
    "as_open K w = (fd, w') \<Longrightarrow> fd < 0 \<Longrightarrow> av_fds V w' = av_fds V w"
    "as_open K w = (fd, w') \<Longrightarrow> 0 \<le> fd \<Longrightarrow> fd \<notin> av_fds V w \<and> av_fds V w' = insert fd (av_fds V w)"
    using assms unfolding ashmem_laws_def by (metis linorder_not_less)+
qed (use assms in \<open>unfold ashmem_laws_def, metis fst_conv snd_conv\<close>)+

lemma ashmem_drops:
  assumes "ashmem_laws K V"
  shows "av_fds V (as_munmap K n w) = av_fds V w" "av_maps V (as_munmap K n w) = remove1 n (av_maps V w)"
    "av_fds V (as_close K d w) = av_fds V w - {d}" "av_maps V (as_close K d w) = av_maps V w"
    "av_fds V (as_unlink K w) = av_fds V w" "av_maps V (as_unlink K w) = av_maps V w"
  using assms unfolding ashmem_laws_def by simp_all

lemma region_created:
  assumes laws: "ashmem_laws K V" and run: "ar_createSharedMemory K s m w = (ok, s', m', w')"
  shows "if ok then \<exists>fd. 0 \<le> fd \<and> fd \<notin> av_fds V w \<and> av_fds V w' = insert fd (av_fds V w) \<and>
      av_maps V w' = (ashmem_header_size + ar_frameSize s) # av_maps V w \<and> m' = zero_shm \<and>
      s' = s\<lparr>ar_mappedSize := ashmem_header_size + ar_frameSize s, ar_fd := fd, ar_mapped := True, ar_header := True,
        ar_frameData := Some ashmem_header_size\<rparr>
    else av_fds V w' = av_fds V w \<and> av_maps V w' = av_maps V w \<and> ar_initialized s' = ar_initialized s"
proof -
  obtain fd w1 where o: "as_open K w = (fd, w1)" by (metis surj_pair)
  show ?thesis
  proof (cases "fd < 0")
    case True
    then show ?thesis using run o ashmem_calls(1,2) [OF laws o] by (auto simp: ar_createSharedMemory_def Let_def)
  next
    case False
    note opened = ashmem_calls(1) [OF laws o] ashmem_calls(3) [OF laws o]
    obtain r1 w2 where n: "as_setName K fd w1 = (r1, w2)" by (metis surj_pair)
    obtain r2 w3 where z: "as_setSize K fd (ashmem_header_size + ar_frameSize s) w2 = (r2, w3)" by (metis surj_pair)
    obtain b w4 where p: "as_mmap K fd (ashmem_header_size + ar_frameSize s) w3 = (b, w4)" by (metis surj_pair)
    obtain r3 w5 where l: "as_symlink K fd (as_unlink K w4) = (r3, w5)" by (metis surj_pair)
    note kept = ashmem_calls(4) [OF laws n] ashmem_calls(5) [OF laws z] ashmem_calls(6) [OF laws p] ashmem_calls(7) [OF laws l]
    show ?thesis
      using run False o n z p l opened kept
      by (auto simp: ar_createSharedMemory_def Let_def ashmem_drops [OF laws] split: if_splits intro!: exI [of _ fd])
  qed
qed

lemma ashmem_init_idle [simp]: "\<not> ar_initialized ashmem_renderer_init"
  by (simp add: ashmem_renderer_init_def)

lemma initialize_renders:
  assumes laws: "ashmem_laws K V" and w: "av_fds V w = F" "av_maps V w = M"
    and run: "ar_initialize K width height format ashmem_renderer_init m w = (ok, s, m', w')"
  shows "renders V F M (n\<lparr>ns_renderer := Some s, ns_shm := m'\<rparr>) w' \<and> ok = ar_initialized s"
proof -
  let ?s = "ashmem_renderer_init\<lparr>ar_width := width, ar_height := height, ar_format := format,
    ar_stride := width, ar_frameSize := calculateFrameSize width height format\<rparr>"
  obtain ok1 s1 m1 w1 where c: "ar_createSharedMemory K ?s m w = (ok1, s1, m1, w1)" by (metis prod_cases4)
  note region = region_created [OF laws c]
  show ?thesis
  proof (cases ok1)
    case True
    then obtain fd where "0 \<le> fd" "fd \<notin> F" "av_fds V w1 = insert fd F" "av_maps V w1 = ar_mappedSize s1 # M"
        "s1 = ?s\<lparr>ar_mappedSize := ashmem_header_size + ar_frameSize ?s, ar_fd := fd, ar_mapped := True, ar_header := True,
          ar_frameData := Some ashmem_header_size\<rparr>"
      using region w by auto
    moreover have "s = s1\<lparr>ar_initialized := True\<rparr>" "w' = w1" ok using run c True by (auto simp: ar_initialize_def Let_def)
    ultimately show ?thesis by (simp add: renders_def)
  next
    case False
    then have "s = s1" "w' = w1" "\<not> ok" using run c by (auto simp: ar_initialize_def Let_def)
    then show ?thesis using region False w by (simp add: renders_def)
  qed
qed

lemma shutdown_renders:
  assumes laws: "ashmem_laws K V" and n: "renders V F M n w" "ns_renderer n = Some s"
    and run: "ar_shutdown K s m w = (s', m', w')"
  shows "av_fds V w' = F \<and> av_maps V w' = M \<and> \<not> ar_initialized s'"
proof (cases "ar_initialized s")
  case True
  have "ar_destroySharedMemory K s m w =
      (s\<lparr>ar_mapped := False, ar_header := False, ar_frameData := None, ar_fd := -1\<rparr>, set_flags 0 m,
       as_unlink K (as_close K (ar_fd s) (as_munmap K (ar_mappedSize s) w)))"
    using n True by (simp add: renders_def ar_destroySharedMemory_def)
  then show ?thesis
    using run n True by (auto simp: ar_shutdown_def renders_def ashmem_drops [OF laws])
next
  case False
  then show ?thesis using run n by (auto simp: ar_shutdown_def renders_def)
qed

lemma drop_renders:
  assumes laws: "ashmem_laws K V" and n: "renders V F M n w" and run: "drop_renderer K n w = (n', w')"
  shows "renders V F M n' w' \<and> ns_renderer n' = None"
proof (cases "ns_renderer n")
  case None
  then show ?thesis using n run by (simp add: drop_renderer_def)
next
  case (Some s)
  obtain s1 m1 w1 where d: "ar_shutdown K s (ns_shm n) w = (s1, m1, w1)" by (metis prod_cases3)
  note shut = shutdown_renders [OF laws n Some d]
  then have "ar_shutdown K s1 m1 w1 = (s1, m1, w1)" by (simp add: ar_shutdown_def)
  then show ?thesis using run Some d shut by (auto simp: drop_renderer_def renders_def)
qed

section \<open>Sequences of calls from Java\<close>

datatype java_request = JInitialize "32 word" "32 word" "32 word" | JShutdown | JBeginFrame | JEndFrame "64 word"

fun java_call :: "'w ashmem \<Rightarrow> java_request \<Rightarrow> native_state \<times> 'w \<Rightarrow> native_state \<times> 'w" where
  "java_call K (JInitialize width height format) (n, w) = snd (nativeInitialize K width height format n w)"
| "java_call K JShutdown (n, w) = nativeShutdown K n w"
| "java_call K JBeginFrame (n, w) = (snd (nativeBeginFrame n), w)"
| "java_call K (JEndFrame timestamp) (n, w) = nativeEndFrame K timestamp n w"

lemma java_call_renders:
  assumes laws: "ashmem_laws K V" and n: "renders V F M n w" and run: "java_call K c (n, w) = (n', w')"
  shows "renders V F M n' w'"
proof (cases c)
  case (JInitialize width height format)
  obtain n1 w1 where d: "drop_renderer K n w = (n1, w1)" by (metis surj_pair)
  obtain ok s m w2 where i: "ar_initialize K width height format ashmem_renderer_init (ns_shm n1) w1 = (ok, s, m, w2)"
    by (metis prod_cases4)
  have "av_fds V w1 = F" "av_maps V w1 = M" using drop_renders [OF laws n d] by (auto simp: renders_def)
  from initialize_renders [OF laws this i, of n1] show ?thesis
    using run JInitialize d i by (simp add: nativeInitialize_def)
next
  case JShutdown
  then show ?thesis using run drop_renders [OF laws n] by (simp add: nativeShutdown_def)
next
  case JBeginFrame
  then have "ns_renderer n' = ns_renderer n" "w' = w"
    using run by (auto simp: nativeBeginFrame_def split: option.splits if_splits prod.splits)
  then show ?thesis using n by (simp add: renders_def)
next
  case (JEndFrame timestamp)
  show ?thesis
  proof (cases "ns_renderer n")
    case None
    then show ?thesis using run n JEndFrame by (simp add: nativeEndFrame_def)
  next
    case (Some s)
    obtain ts w1 where t: "as_clock K w = (ts, w1)" by (metis surj_pair)
    note kept = ashmem_calls(8) [OF laws t]
    show ?thesis
      using run n JEndFrame Some t kept
      by (auto simp: nativeEndFrame_def ar_endFrame_def renders_def Let_def split: if_splits)
  qed
qed

lemma java_calls_render:
  "ashmem_laws K V \<Longrightarrow> renders V F M (fst x) (snd x) \<Longrightarrow> renders V F M (fst (fold (java_call K) cs x)) (snd (fold (java_call K) cs x))"
proof (induction cs arbitrary: x)
  case Nil
  then show ?case by simp
next
  case (Cons c cs)
  have "renders V F M (fst (java_call K c x)) (snd (java_call K c x))"
    using java_call_renders [OF Cons.prems(1), of F M "fst x" "snd x" c] Cons.prems(2) by simp
  then show ?case using Cons.IH [OF Cons.prems(1)] by simp
qed

text \<open>
  Whatever Java calls, in whatever order, a renderer that is ready has exactly one region
  and one descriptor more than the process had before, and none otherwise; and a buffer
  handed out lies inside that region, from its header to its end.
\<close>

theorem java_buffer_in_region:
  assumes "ashmem_laws K V"
    and "fold (java_call K) cs (\<lparr>ns_renderer = None, ns_shm = zero_shm\<rparr>, w) = (n, w')"
  shows "(if nativeIsReady n
      then \<exists>fd region. 0 \<le> fd \<and> fd \<notin> av_fds V w \<and> av_fds V w' = insert fd (av_fds V w) \<and> av_maps V w' = region # av_maps V w \<and>
        (\<forall>offset capacity. fst (nativeBeginFrame n) = Some (offset, capacity) \<longrightarrow>
          offset = 56 \<and> offset + capacity = region)
      else av_fds V w' = av_fds V w \<and> av_maps V w' = av_maps V w \<and> fst (nativeBeginFrame n) = None)"
proof -
  have "renders V (av_fds V w) (av_maps V w) n w'"
    using java_calls_render [OF assms(1), of "av_fds V w" "av_maps V w" "(\<lparr>ns_renderer = None, ns_shm = zero_shm\<rparr>, w)" cs]
      assms(2) by (simp add: renders_def)
  then show ?thesis
    by (cases "ns_renderer n")
      (auto simp: renders_def nativeIsReady_def nativeBeginFrame_def ar_beginFrame_def ashmem_header_size_def split: if_splits)
qed

text \<open>
  A frame in the library's own YCbCr format carries the number 35, which is none of the
  HAL's formats: when the HAL shows it at all, it converts it as if it were RGBA.
\<close>

theorem ycbcr_frame_shown_as_rgba:
  assumes "ar_initialize K width height PixelFormat_YUV_420_888 s m w = (True, s', m', w')"
    and "fh_format (k_header Q v) = fh_format (shm_header m')"
    and "renderer_fill Q source d W H t v = Inr (True, source', t')"
  shows "\<exists>bytes. t' = rgba_loops bytes 0 (W * 4) d W H t"
proof -
  have "fh_format (shm_header m') = 35"
    using assms(1) by (auto simp: ar_initialize_def Let_def PixelFormat_YUV_420_888_def split: if_splits prod.splits)
  then show ?thesis
    using assms(2,3)
    by (auto simp: renderer_fill_def getFrameInfo_def FORMAT_YUV_420_def Let_def split: if_splits option.splits sum.splits prod.splits)
qed

section \<open>Witnesses\<close>

text \<open>A kernel that counts descriptors up from 3 and keeps the mappings.\<close>

definition demo_ashmem :: "(int set \<times> nat list) ashmem" where
  "demo_ashmem = \<lparr>as_open = (\<lambda>(F, M). if 3 \<in> F then (-1, (F, M)) else (3, (insert 3 F, M))),
     as_setName = (\<lambda>_. Pair 0), as_setSize = (\<lambda>_ _. Pair 0), as_mmap = (\<lambda>_ n (F, M). (True, (F, n # M))),
     as_munmap = (\<lambda>n (F, M). (F, remove1 n M)), as_close = (\<lambda>fd (F, M). (F - {fd}, M)), as_unlink = id,
     as_symlink = (\<lambda>_. Pair 0), as_clock = Pair 7\<rparr>"

lemma demo_ashmem_laws: "ashmem_laws demo_ashmem \<lparr>av_fds = fst, av_maps = snd\<rparr>"
  by (auto simp: ashmem_laws_def demo_ashmem_def split: if_splits)

theorem java_buffer_in_region_witness:
  "\<exists>n. fold (java_call demo_ashmem) [JInitialize 4 2 1, JBeginFrame, JEndFrame 0] (\<lparr>ns_renderer = None, ns_shm = zero_shm\<rparr>, ({}, [])) =
      (n, ({3}, [88])) \<and> nativeIsReady n \<and> fst (nativeBeginFrame n) = Some (56, 32)"
proof -
  obtain n w where run: "fold (java_call demo_ashmem) [JInitialize 4 2 1, JBeginFrame, JEndFrame 0]
      (\<lparr>ns_renderer = None, ns_shm = zero_shm\<rparr>, ({}, [])) = (n, w)" by (metis surj_pair)
  have "nativeIsReady n \<and> w = ({3}, [88]) \<and> (\<exists>o1 c. fst (nativeBeginFrame n) = Some (o1, c))"
    using run by (auto simp: nativeInitialize_def drop_renderer_def ar_initialize_def ar_createSharedMemory_def demo_ashmem_def
        ashmem_renderer_init_def Let_def nativeBeginFrame_def ar_beginFrame_def nativeEndFrame_def ar_endFrame_def
        nativeIsReady_def calculateFrameSize_def FORMAT_RGBA_8888_def ashmem_header_size_def)
  then show ?thesis
    using java_buffer_in_region [OF demo_ashmem_laws run] run by auto
qed

end
