(* ===== verification/Cube_Geometry.thy ===== *)
theory Cube_Geometry
  imports VCam_Prelude Complex_Main "HOL-Library.Word"
begin

text \<open>
  The constant data of the sample renderer: the golden cube of \<open>cube_geometry.h\<close>, and the
  compiled shaders of \<open>shaders.h\<close>. Coordinates and colours are the decimal numbers of the
  source; that a colour is rounded to a 32-bit float is not modelled.
\<close>

section \<open>The vertex format\<close>

type_synonym vec3 = "rat \<times> rat \<times> rat"

record vertex =
  pos :: vec3
  normal :: vec3
  color :: vec3

abbreviation vert :: "vec3 \<Rightarrow> vec3 \<Rightarrow> vec3 \<Rightarrow> vertex" where
  "vert p n c \<equiv> \<lparr>pos = p, normal = n, color = c\<rparr>"

datatype vk_format = R8G8B8A8_UNORM | D32_SFLOAT | R32G32B32_SFLOAT

text \<open>Three vectors of three 32-bit floats, without padding.\<close>

definition sizeof_vec3 :: nat where
  "sizeof_vec3 = 3 * 4"

definition sizeof_Vertex :: nat where
  "sizeof_Vertex = 3 * sizeof_vec3"

datatype input_rate = INPUT_RATE_VERTEX | INPUT_RATE_INSTANCE

record binding_description =
  bd_binding :: nat
  bd_stride :: nat
  bd_inputRate :: input_rate

record attribute_description =
  ad_binding :: nat
  ad_location :: nat
  ad_format :: vk_format
  ad_offset :: nat

definition getBindingDescription :: binding_description where
  "getBindingDescription = \<lparr>bd_binding = 0, bd_stride = sizeof_Vertex, bd_inputRate = INPUT_RATE_VERTEX\<rparr>"

definition getAttributeDescriptions :: "attribute_description list" where
  "getAttributeDescriptions =
    [\<lparr>ad_binding = 0, ad_location = 0, ad_format = R32G32B32_SFLOAT, ad_offset = 0\<rparr>,
     \<lparr>ad_binding = 0, ad_location = 1, ad_format = R32G32B32_SFLOAT, ad_offset = sizeof_vec3\<rparr>,
     \<lparr>ad_binding = 0, ad_location = 2, ad_format = R32G32B32_SFLOAT, ad_offset = 2 * sizeof_vec3\<rparr>]"

section \<open>The cube\<close>

definition GOLD :: vec3 where
  "GOLD = (1, 843 / 1000, 0)"

definition GOLD_DARK :: vec3 where
  "GOLD_DARK = (4 / 5, 337 / 500, 0)"

definition GOLD_LIGHT :: vec3 where
  "GOLD_LIGHT = (1, 9 / 10, 2 / 5)"

definition getVertices :: "vertex list" where
  "getVertices =
    [vert (- 1 / 2, - 1 / 2, 1 / 2) (0, 0, 1) GOLD,
     vert (1 / 2, - 1 / 2, 1 / 2) (0, 0, 1) GOLD,
     vert (1 / 2, 1 / 2, 1 / 2) (0, 0, 1) GOLD_LIGHT,
     vert (- 1 / 2, 1 / 2, 1 / 2) (0, 0, 1) GOLD_LIGHT,
     vert (1 / 2, - 1 / 2, - 1 / 2) (0, 0, - 1) GOLD,
     vert (- 1 / 2, - 1 / 2, - 1 / 2) (0, 0, - 1) GOLD,
     vert (- 1 / 2, 1 / 2, - 1 / 2) (0, 0, - 1) GOLD_LIGHT,
     vert (1 / 2, 1 / 2, - 1 / 2) (0, 0, - 1) GOLD_LIGHT,
     vert (1 / 2, - 1 / 2, 1 / 2) (1, 0, 0) GOLD,
     vert (1 / 2, - 1 / 2, - 1 / 2) (1, 0, 0) GOLD,
     vert (1 / 2, 1 / 2, - 1 / 2) (1, 0, 0) GOLD_LIGHT,
     vert (1 / 2, 1 / 2, 1 / 2) (1, 0, 0) GOLD_LIGHT,
     vert (- 1 / 2, - 1 / 2, - 1 / 2) (- 1, 0, 0) GOLD_DARK,
     vert (- 1 / 2, - 1 / 2, 1 / 2) (- 1, 0, 0) GOLD_DARK,
     vert (- 1 / 2, 1 / 2, 1 / 2) (- 1, 0, 0) GOLD,
     vert (- 1 / 2, 1 / 2, - 1 / 2) (- 1, 0, 0) GOLD,
     vert (- 1 / 2, 1 / 2, 1 / 2) (0, 1, 0) GOLD_LIGHT,
     vert (1 / 2, 1 / 2, 1 / 2) (0, 1, 0) GOLD_LIGHT,
     vert (1 / 2, 1 / 2, - 1 / 2) (0, 1, 0) GOLD_LIGHT,
     vert (- 1 / 2, 1 / 2, - 1 / 2) (0, 1, 0) GOLD_LIGHT,
     vert (- 1 / 2, - 1 / 2, - 1 / 2) (0, - 1, 0) GOLD_DARK,
     vert (1 / 2, - 1 / 2, - 1 / 2) (0, - 1, 0) GOLD_DARK,
     vert (1 / 2, - 1 / 2, 1 / 2) (0, - 1, 0) GOLD_DARK,
     vert (- 1 / 2, - 1 / 2, 1 / 2) (0, - 1, 0) GOLD_DARK]"

definition getIndices :: "16 word list" where
  "getIndices =
    [0, 1, 2, 2, 3, 0,
     4, 5, 6, 6, 7, 4,
     8, 9, 10, 10, 11, 8,
     12, 13, 14, 14, 15, 12,
     16, 17, 18, 18, 19, 16,
     20, 21, 22, 22, 23, 20]"

section \<open>The shaders\<close>

definition getVertexShaderCode :: "32 word list" where
  "getVertexShaderCode =
    [
     0x07230203, 0x00010000, 0x000d000b, 0x00000028, 0x00000000, 0x00020011, 0x00000001, 0x0006000b,
     0x00000001, 0x4c534c47, 0x6474732e, 0x3035342e, 0x00000000, 0x0003000e, 0x00000000, 0x00000001,
     0x000a000f, 0x00000000, 0x00000004, 0x6e69616d, 0x00000000, 0x0000000d, 0x00000019, 0x00000024,
     0x00000025, 0x00000027, 0x00030003, 0x00000002, 0x000001c2, 0x000a0004, 0x475f4c47, 0x4c474f4f,
     0x70635f45, 0x74735f70, 0x5f656c79, 0x656e696c, 0x7269645f, 0x69746365, 0x00006576, 0x00080004,
     0x475f4c47, 0x4c474f4f, 0x6e695f45, 0x64756c63, 0x69645f65, 0x74636572, 0x00657669, 0x00040005,
     0x00000004, 0x6e69616d, 0x00000000, 0x00060005, 0x0000000b, 0x505f6c67, 0x65567265, 0x78657472,
     0x00000000, 0x00060006, 0x0000000b, 0x00000000, 0x505f6c67, 0x7469736f, 0x006e6f69, 0x00070006,
     0x0000000b, 0x00000001, 0x505f6c67, 0x746e696f, 0x657a6953, 0x00000000, 0x00070006, 0x0000000b,
     0x00000002, 0x435f6c67, 0x4470696c, 0x61747369, 0x0065636e, 0x00070006, 0x0000000b, 0x00000003,
     0x435f6c67, 0x446c6c75, 0x61747369, 0x0065636e, 0x00030005, 0x0000000d, 0x00000000, 0x00030005,
     0x00000011, 0x004f4255, 0x00040006, 0x00000011, 0x00000000, 0x0070766d, 0x00030005, 0x00000013,
     0x006f6275, 0x00050005, 0x00000019, 0x6f506e69, 0x69746973, 0x006e6f00, 0x00050005, 0x00000024,
     0x67617266, 0x6f6c6f43, 0x00000072, 0x00040005, 0x00000025, 0x6f436e69, 0x00726f6c, 0x00050005,
     0x00000027, 0x6f4e6e69, 0x6c616d72, 0x00000000, 0x00030047, 0x0000000b, 0x00000002, 0x00050048,
     0x0000000b, 0x00000000, 0x0000000b, 0x00000000, 0x00050048, 0x0000000b, 0x00000001, 0x0000000b,
     0x00000001, 0x00050048, 0x0000000b, 0x00000002, 0x0000000b, 0x00000003, 0x00050048, 0x0000000b,
     0x00000003, 0x0000000b, 0x00000004, 0x00030047, 0x00000011, 0x00000002, 0x00040048, 0x00000011,
     0x00000000, 0x00000005, 0x00050048, 0x00000011, 0x00000000, 0x00000007, 0x00000010, 0x00050048,
     0x00000011, 0x00000000, 0x00000023, 0x00000000, 0x00040047, 0x00000013, 0x00000021, 0x00000000,
     0x00040047, 0x00000013, 0x00000022, 0x00000000, 0x00040047, 0x00000019, 0x0000001e, 0x00000000,
     0x00040047, 0x00000024, 0x0000001e, 0x00000000, 0x00040047, 0x00000025, 0x0000001e, 0x00000002,
     0x00040047, 0x00000027, 0x0000001e, 0x00000001, 0x00020013, 0x00000002, 0x00030021, 0x00000003,
     0x00000002, 0x00030016, 0x00000006, 0x00000020, 0x00040017, 0x00000007, 0x00000006, 0x00000004,
     0x00040015, 0x00000008, 0x00000020, 0x00000000, 0x0004002b, 0x00000008, 0x00000009, 0x00000001,
     0x0004001c, 0x0000000a, 0x00000006, 0x00000009, 0x0006001e, 0x0000000b, 0x00000007, 0x00000006,
     0x0000000a, 0x0000000a, 0x00040020, 0x0000000c, 0x00000003, 0x0000000b, 0x0004003b, 0x0000000c,
     0x0000000d, 0x00000003, 0x00040015, 0x0000000e, 0x00000020, 0x00000001, 0x0004002b, 0x0000000e,
     0x0000000f, 0x00000000, 0x00040018, 0x00000010, 0x00000007, 0x00000004, 0x0003001e, 0x00000011,
     0x00000010, 0x00040020, 0x00000012, 0x00000002, 0x00000011, 0x0004003b, 0x00000012, 0x00000013,
     0x00000002, 0x00040020, 0x00000014, 0x00000002, 0x00000010, 0x00040017, 0x00000017, 0x00000006,
     0x00000003, 0x00040020, 0x00000018, 0x00000001, 0x00000017, 0x0004003b, 0x00000018, 0x00000019,
     0x00000001, 0x0004002b, 0x00000006, 0x0000001b, 0x3f800000, 0x00040020, 0x00000021, 0x00000003,
     0x00000007, 0x00040020, 0x00000023, 0x00000003, 0x00000017, 0x0004003b, 0x00000023, 0x00000024,
     0x00000003, 0x0004003b, 0x00000018, 0x00000025, 0x00000001, 0x0004003b, 0x00000018, 0x00000027,
     0x00000001, 0x00050036, 0x00000002, 0x00000004, 0x00000000, 0x00000003, 0x000200f8, 0x00000005,
     0x00050041, 0x00000014, 0x00000015, 0x00000013, 0x0000000f, 0x0004003d, 0x00000010, 0x00000016,
     0x00000015, 0x0004003d, 0x00000017, 0x0000001a, 0x00000019, 0x00050051, 0x00000006, 0x0000001c,
     0x0000001a, 0x00000000, 0x00050051, 0x00000006, 0x0000001d, 0x0000001a, 0x00000001, 0x00050051,
     0x00000006, 0x0000001e, 0x0000001a, 0x00000002, 0x00070050, 0x00000007, 0x0000001f, 0x0000001c,
     0x0000001d, 0x0000001e, 0x0000001b, 0x00050091, 0x00000007, 0x00000020, 0x00000016, 0x0000001f,
     0x00050041, 0x00000021, 0x00000022, 0x0000000d, 0x0000000f, 0x0003003e, 0x00000022, 0x00000020,
     0x0004003d, 0x00000017, 0x00000026, 0x00000025, 0x0003003e, 0x00000024, 0x00000026, 0x000100fd,
     0x00010038]"

definition getFragmentShaderCode :: "32 word list" where
  "getFragmentShaderCode =
    [
     0x07230203, 0x00010000, 0x000d000b, 0x00000013, 0x00000000, 0x00020011, 0x00000001, 0x0006000b,
     0x00000001, 0x4c534c47, 0x6474732e, 0x3035342e, 0x00000000, 0x0003000e, 0x00000000, 0x00000001,
     0x0007000f, 0x00000004, 0x00000004, 0x6e69616d, 0x00000000, 0x00000009, 0x0000000c, 0x00030010,
     0x00000004, 0x00000007, 0x00030003, 0x00000002, 0x000001c2, 0x000a0004, 0x475f4c47, 0x4c474f4f,
     0x70635f45, 0x74735f70, 0x5f656c79, 0x656e696c, 0x7269645f, 0x69746365, 0x00006576, 0x00080004,
     0x475f4c47, 0x4c474f4f, 0x6e695f45, 0x64756c63, 0x69645f65, 0x74636572, 0x00657669, 0x00040005,
     0x00000004, 0x6e69616d, 0x00000000, 0x00050005, 0x00000009, 0x4374756f, 0x726f6c6f, 0x00000000,
     0x00050005, 0x0000000c, 0x67617266, 0x6f6c6f43, 0x00000072, 0x00040047, 0x00000009, 0x0000001e,
     0x00000000, 0x00040047, 0x0000000c, 0x0000001e, 0x00000000, 0x00020013, 0x00000002, 0x00030021,
     0x00000003, 0x00000002, 0x00030016, 0x00000006, 0x00000020, 0x00040017, 0x00000007, 0x00000006,
     0x00000004, 0x00040020, 0x00000008, 0x00000003, 0x00000007, 0x0004003b, 0x00000008, 0x00000009,
     0x00000003, 0x00040017, 0x0000000a, 0x00000006, 0x00000003, 0x00040020, 0x0000000b, 0x00000001,
     0x0000000a, 0x0004003b, 0x0000000b, 0x0000000c, 0x00000001, 0x0004002b, 0x00000006, 0x0000000e,
     0x3f800000, 0x00050036, 0x00000002, 0x00000004, 0x00000000, 0x00000003, 0x000200f8, 0x00000005,
     0x0004003d, 0x0000000a, 0x0000000d, 0x0000000c, 0x00050051, 0x00000006, 0x0000000f, 0x0000000d,
     0x00000000, 0x00050051, 0x00000006, 0x00000010, 0x0000000d, 0x00000001, 0x00050051, 0x00000006,
     0x00000011, 0x0000000d, 0x00000002, 0x00070050, 0x00000007, 0x00000012, 0x0000000f, 0x00000010,
     0x00000011, 0x0000000e, 0x0003003e, 0x00000009, 0x00000012, 0x000100fd, 0x00010038]"

end
