(* ===== verification/Cube_Theorems.thy ===== *)
theory Cube_Theorems
  imports Cube_Geometry
begin

unbundle bit_operations_syntax

text \<open>
  What the constant data of the sample renderer means: the triangles enclose the cube and
  face outwards, and the compiled shaders do what their sources say, at the locations where
  the pipeline feeds them.
\<close>

section \<open>Reading a SPIR-V module\<close>

text \<open>
  A module is a header of five words, then instructions: the low half of an instruction's
  first word is its opcode, the high half its length in words. Only what the two shaders
  use is given a meaning: they have one function of one block, and store to outputs only.
\<close>

definition opcode :: "32 word \<Rightarrow> nat" where
  "opcode w = unat (w AND 0xffff)"

definition word_count :: "32 word \<Rightarrow> nat" where
  "word_count w = unat (drop_bit 16 w)"

function spirv_instrs :: "32 word list \<Rightarrow> (nat \<times> nat list) list option" where
  "spirv_instrs [] = Some []"
| "spirv_instrs (w # ws) =
    (if word_count w = 0 \<or> length ws < word_count w - 1 then None
     else map_option (Cons (opcode w, map unat (take (word_count w - 1) ws)))
            (spirv_instrs (drop (word_count w - 1) ws)))"
  by pat_completeness auto

termination
  by (relation "measure length") auto

definition spirv_module :: "32 word list \<Rightarrow> (nat \<times> nat list) list option" where
  "spirv_module ws = (if 5 \<le> length ws \<and> ws ! 0 = 0x07230203 then spirv_instrs (drop 5 ws) else None)"

section \<open>Decorations and types\<close>

text \<open>
  \<open>OpDecorate\<close> is 71, \<open>OpMemberDecorate\<close> 72, \<open>OpTypePointer\<close> 32, \<open>OpVariable\<close> 59; the
  decorations \<open>Location\<close> 30, \<open>Binding\<close> 33, \<open>DescriptorSet\<close> 34, \<open>BuiltIn\<close> 11 (of which
  \<open>Position\<close> is 0); the storage classes \<open>Input\<close> 1, \<open>Uniform\<close> 2, \<open>Output\<close> 3.
\<close>

definition decoration :: "(nat \<times> nat list) list \<Rightarrow> nat \<Rightarrow> nat \<Rightarrow> nat option" where
  "decoration prog x d = (case filter (\<lambda>(opc, args). opc = 71 \<and> take 2 args = [x, d]) prog of
     [] \<Rightarrow> None | (_, args) # _ \<Rightarrow> (case drop 2 args of [] \<Rightarrow> None | v # _ \<Rightarrow> Some v))"

definition pointee :: "(nat \<times> nat list) list \<Rightarrow> nat \<Rightarrow> nat option" where
  "pointee prog t = (case filter (\<lambda>(opc, args). opc = 32 \<and> take 1 args = [t]) prog of
     [] \<Rightarrow> None | (_, args) # _ \<Rightarrow> (case args of [_, _, u] \<Rightarrow> Some u | _ \<Rightarrow> None))"

text \<open>The variables of a storage class: their identifiers and the types they hold.\<close>

definition variables :: "(nat \<times> nat list) list \<Rightarrow> nat \<Rightarrow> (nat \<times> nat option) list" where
  "variables prog c = List.map_filter (\<lambda>(opc, args). case args of [t, x, c'] \<Rightarrow>
     if opc = 59 \<and> c' = c then Some (x, pointee prog t) else None | _ \<Rightarrow> None) prog"

text \<open>\<open>OpTypeFloat\<close> is 22, \<open>OpTypeVector\<close> 23: the width of a component and their number.\<close>

definition vector_shape :: "(nat \<times> nat list) list \<Rightarrow> nat option \<Rightarrow> (nat \<times> nat) option" where
  "vector_shape prog t = (case filter (\<lambda>(opc, args). opc = 23 \<and> Some (take 1 args) = map_option (\<lambda>u. [u]) t) prog of
     [] \<Rightarrow> None
   | (_, args) # _ \<Rightarrow> (case args of [_, u, n] \<Rightarrow>
       (case filter (\<lambda>(opc, as). opc = 22 \<and> take 1 as = [u]) prog of
          [] \<Rightarrow> None | (_, as) # _ \<Rightarrow> (case as of [_, w] \<Rightarrow> Some (w, n) | _ \<Rightarrow> None)) | _ \<Rightarrow> None))"

text \<open>Locations with the shapes at them, for the variables that have a location.\<close>

definition interface_of :: "(nat \<times> nat list) list \<Rightarrow> nat \<Rightarrow> (nat \<times> (nat \<times> nat) option) list" where
  "interface_of prog c = List.map_filter (\<lambda>(x, t). map_option (\<lambda>k. (k, vector_shape prog t)) (decoration prog x 30))
     (variables prog c)"

section \<open>Executing a shader\<close>

datatype sval = Num rat | Vec "sval list" | Idx nat | Ptr nat "nat list"

fun fetch :: "sval \<Rightarrow> nat list \<Rightarrow> sval option" where
  "fetch v [] = Some v"
| "fetch (Vec vs) (i # is) = (if i < length vs then fetch (vs ! i) is else None)"
| "fetch _ _ = None"

text \<open>A 32-bit float, when it is a normal number; other constants are indices.\<close>

definition float_of_bits :: "nat \<Rightarrow> rat option" where
  "float_of_bits n = (let e = (n div 2 ^ 23) mod 256; m = rat_of_nat (n mod 2 ^ 23); s = (if n div 2 ^ 31 = 1 then -1 else 1) in
     if e = 0 \<or> e = 255 then None
     else Some (s * (1 + m / 2 ^ 23) * (if 127 \<le> e then 2 ^ (e - 127) else 1 / 2 ^ (127 - e))))"

definition constant_value :: "(nat \<times> nat list) list \<Rightarrow> nat \<Rightarrow> nat \<Rightarrow> sval option" where
  "constant_value prog t n = (if \<exists>i \<in> set prog. fst i = 22 \<and> take 1 (snd i) = [t]
     then map_option Num (float_of_bits n) else Some (Idx n))"

fun numbers :: "sval list \<Rightarrow> rat list option" where
  "numbers [] = Some []"
| "numbers (Num a # vs) = map_option (Cons a) (numbers vs)"
| "numbers _ = None"

text \<open>A matrix is the vector of its columns.\<close>

fun times_vector :: "sval list \<Rightarrow> rat list \<Rightarrow> rat list option" where
  "times_vector [Vec c] [x] = map_option (map (\<lambda>a. a * x)) (numbers c)"
| "times_vector (Vec c # cs) (x # xs) = (case (numbers c, times_vector cs xs) of
     (Some as, Some bs) \<Rightarrow> Some (map2 (\<lambda>a b. a * x + b) as bs) | _ \<Rightarrow> None)"
| "times_vector _ _ = None"

fun all_some :: "'a option list \<Rightarrow> 'a list option" where
  "all_some [] = Some []"
| "all_some (None # _) = None"
| "all_some (Some a # xs) = map_option (Cons a) (all_some xs)"

fun indices_of :: "sval list \<Rightarrow> nat list option" where
  "indices_of [] = Some []"
| "indices_of (Idx i # vs) = map_option (Cons i) (indices_of vs)"
| "indices_of _ = None"

type_synonym store = "nat \<times> nat list \<times> sval"

text \<open>
  One instruction: the values of the identifiers, and the stores so far. \<open>memory\<close> holds the
  inputs and uniforms. Names, types and decorations have no effect here; neither have the
  brackets of the function.
\<close>

fun spirv_step :: "(nat \<times> nat list) list \<Rightarrow> (nat \<Rightarrow> sval option) \<Rightarrow> nat \<times> nat list \<Rightarrow>
    (nat \<Rightarrow> sval option) \<times> store list \<Rightarrow> ((nat \<Rightarrow> sval option) \<times> store list) option" where
  "spirv_step prog memory (opc, args) (ids, out) =
    (if opc \<in> set [3, 4, 5, 6, 11, 14, 15, 16, 17, 19, 21, 22, 23, 24, 28, 30, 32, 33, 54, 56, 71, 72, 248, 253] then Some (ids, out)
     else if opc = 43 then
       (case args of [t, x, n] \<Rightarrow> map_option (\<lambda>v. (ids(x \<mapsto> v), out)) (constant_value prog t n) | _ \<Rightarrow> None)
     else if opc = 59 then (case args of [_, x, _] \<Rightarrow> Some (ids(x \<mapsto> Ptr x []), out) | _ \<Rightarrow> None)
     else if opc = 61 then
       (case args of [_, x, p] \<Rightarrow> (case ids p of Some (Ptr v path) \<Rightarrow>
          (case memory v of Some c \<Rightarrow> map_option (\<lambda>a. (ids(x \<mapsto> a), out)) (fetch c path) | None \<Rightarrow> None) | _ \<Rightarrow> None) | _ \<Rightarrow> None)
     else if opc = 62 then
       (case args of [p, a] \<Rightarrow> (case (ids p, ids a) of (Some (Ptr v path), Some c) \<Rightarrow> Some (ids, out @ [(v, path, c)]) | _ \<Rightarrow> None)
        | _ \<Rightarrow> None)
     else if opc = 65 then
       (case args of _ # x # p # is \<Rightarrow> (case (ids p, Option.bind (all_some (map ids is)) indices_of) of
          (Some (Ptr v path), Some js) \<Rightarrow> Some (ids(x \<mapsto> Ptr v (path @ js)), out) | _ \<Rightarrow> None) | _ \<Rightarrow> None)
     else if opc = 80 then
       (case args of _ # x # cs \<Rightarrow> map_option (\<lambda>vs. (ids(x \<mapsto> Vec vs), out)) (all_some (map ids cs)) | _ \<Rightarrow> None)
     else if opc = 81 then
       (case args of _ # x # c # path \<Rightarrow> (case ids c of Some v \<Rightarrow> map_option (\<lambda>a. (ids(x \<mapsto> a), out)) (fetch v path) | None \<Rightarrow> None)
        | _ \<Rightarrow> None)
     else if opc = 145 then
       (case args of [_, x, m, v] \<Rightarrow> (case (ids m, ids v) of
          (Some (Vec cols), Some (Vec xs)) \<Rightarrow>
            map_option (\<lambda>as. (ids(x \<mapsto> Vec (map Num as)), out)) (Option.bind (numbers xs) (times_vector cols)) | _ \<Rightarrow> None) | _ \<Rightarrow> None)
     else None)"

fun spirv_exec :: "(nat \<times> nat list) list \<Rightarrow> (nat \<Rightarrow> sval option) \<Rightarrow> (nat \<times> nat list) list \<Rightarrow>
    (nat \<Rightarrow> sval option) \<times> store list \<Rightarrow> store list option" where
  "spirv_exec prog memory [] s = Some (snd s)"
| "spirv_exec prog memory (i # is) s = (case spirv_step prog memory i s of
     None \<Rightarrow> None | Some s' \<Rightarrow> spirv_exec prog memory is s')"

text \<open>The memory of a run: inputs by location, uniforms by set and binding.\<close>

definition shader_memory :: "(nat \<times> nat list) list \<Rightarrow> (nat \<Rightarrow> sval option) \<Rightarrow> (nat \<times> nat \<Rightarrow> sval option) \<Rightarrow> nat \<Rightarrow> sval option" where
  "shader_memory prog inputs uniforms x =
    (if x \<in> set (map fst (variables prog 1)) then Option.bind (decoration prog x 30) inputs
     else if x \<in> set (map fst (variables prog 2)) then
       (case (decoration prog x 34, decoration prog x 33) of (Some s, Some b) \<Rightarrow> uniforms (s, b) | _ \<Rightarrow> None)
     else None)"

datatype target = Position | Location nat | Elsewhere

text \<open>Where a store goes: a location, or the member of the built-in block that is \<open>Position\<close>.\<close>

definition target_of :: "(nat \<times> nat list) list \<Rightarrow> nat \<Rightarrow> nat list \<Rightarrow> target" where
  "target_of prog x path = (case (decoration prog x 30, path) of
     (Some k, []) \<Rightarrow> Location k
   | (None, [m]) \<Rightarrow> (case map_of (variables prog 3) x of
        Some (Some t) \<Rightarrow> if (72, [t, m, 11, 0]) \<in> set prog then Position else Elsewhere | _ \<Rightarrow> Elsewhere)
   | _ \<Rightarrow> Elsewhere)"

definition run_shader :: "32 word list \<Rightarrow> (nat \<Rightarrow> sval option) \<Rightarrow> (nat \<times> nat \<Rightarrow> sval option) \<Rightarrow> (target \<times> sval) list option" where
  "run_shader code inputs uniforms = (case spirv_module code of
     None \<Rightarrow> None
   | Some prog \<Rightarrow> map_option (map (\<lambda>(x, path, v). (target_of prog x path, v)))
       (spirv_exec prog (shader_memory prog inputs uniforms) prog (Map.empty, [])))"

section \<open>The two modules\<close>

definition vertex_module :: "(nat \<times> nat list) list" where
  "vertex_module =
    [(17, [1]), (11, [1, 1280527431, 1685353262, 808793134, 0]), (14, [0, 1]),
     (15, [0, 4, 1852399981, 0, 13, 25, 36, 37, 39]), (3, [2, 450]),
     (4, [1197427783, 1279741775, 1885560645, 1953718128, 1600482425, 1701734764, 1919509599, 1769235301, 25974]),
     (4, [1197427783, 1279741775, 1852399429, 1685417059, 1768185701, 1952671090, 6649449]), (5, [4, 1852399981, 0]),
     (5, [11, 1348430951, 1700164197, 2019914866, 0]), (6, [11, 0, 1348430951, 1953067887, 7237481]),
     (6, [11, 1, 1348430951, 1953393007, 1702521171, 0]), (6, [11, 2, 1130327143, 1148217708, 1635021673, 6644590]),
     (6, [11, 3, 1130327143, 1147956341, 1635021673, 6644590]), (5, [13, 0]), (5, [17, 5194325]),
     (6, [17, 0, 7370349]), (5, [19, 7299701]), (5, [25, 1867542121, 1769236851, 7237376]),
     (5, [36, 1734439526, 1869377347, 114]), (5, [37, 1866690153, 7499628]), (5, [39, 1867411049, 1818324338, 0]),
     (71, [11, 2]), (72, [11, 0, 11, 0]), (72, [11, 1, 11, 1]), (72, [11, 2, 11, 3]), (72, [11, 3, 11, 4]),
     (71, [17, 2]), (72, [17, 0, 5]), (72, [17, 0, 7, 16]), (72, [17, 0, 35, 0]), (71, [19, 33, 0]),
     (71, [19, 34, 0]), (71, [25, 30, 0]), (71, [36, 30, 0]), (71, [37, 30, 2]), (71, [39, 30, 1]), (19, [2]),
     (33, [3, 2]), (22, [6, 32]), (23, [7, 6, 4]), (21, [8, 32, 0]), (43, [8, 9, 1]), (28, [10, 6, 9]),
     (30, [11, 7, 6, 10, 10]), (32, [12, 3, 11]), (59, [12, 13, 3]), (21, [14, 32, 1]), (43, [14, 15, 0]),
     (24, [16, 7, 4]), (30, [17, 16]), (32, [18, 2, 17]), (59, [18, 19, 2]), (32, [20, 2, 16]), (23, [23, 6, 3]),
     (32, [24, 1, 23]), (59, [24, 25, 1]), (43, [6, 27, 1065353216]), (32, [33, 3, 7]), (32, [35, 3, 23]),
     (59, [35, 36, 3]), (59, [24, 37, 1]), (59, [24, 39, 1]), (54, [2, 4, 0, 3]), (248, [5]), (65, [20, 21, 19, 15]),
     (61, [16, 22, 21]), (61, [23, 26, 25]), (81, [6, 28, 26, 0]), (81, [6, 29, 26, 1]), (81, [6, 30, 26, 2]),
     (80, [7, 31, 28, 29, 30, 27]), (145, [7, 32, 22, 31]), (65, [33, 34, 13, 15]), (62, [34, 32]),
     (61, [23, 38, 37]), (62, [36, 38]), (253, []), (56, [])]"

lemma vertex_module: "spirv_module getVertexShaderCode = Some vertex_module"
  unfolding spirv_module_def getVertexShaderCode_def vertex_module_def
  by (simp add: opcode_def word_count_def drop_bit_eq_div unsigned_and_eq)

definition fragment_module :: "(nat \<times> nat list) list" where
  "fragment_module =
    [(17, [1]), (11, [1, 1280527431, 1685353262, 808793134, 0]), (14, [0, 1]), (15, [4, 4, 1852399981, 0, 9, 12]),
     (16, [4, 7]), (3, [2, 450]),
     (4, [1197427783, 1279741775, 1885560645, 1953718128, 1600482425, 1701734764, 1919509599, 1769235301, 25974]),
     (4, [1197427783, 1279741775, 1852399429, 1685417059, 1768185701, 1952671090, 6649449]), (5, [4, 1852399981, 0]),
     (5, [9, 1131705711, 1919904879, 0]), (5, [12, 1734439526, 1869377347, 114]), (71, [9, 30, 0]),
     (71, [12, 30, 0]), (19, [2]), (33, [3, 2]), (22, [6, 32]), (23, [7, 6, 4]), (32, [8, 3, 7]), (59, [8, 9, 3]),
     (23, [10, 6, 3]), (32, [11, 1, 10]), (59, [11, 12, 1]), (43, [6, 14, 1065353216]), (54, [2, 4, 0, 3]),
     (248, [5]), (61, [10, 13, 12]), (81, [6, 15, 13, 0]), (81, [6, 16, 13, 1]), (81, [6, 17, 13, 2]),
     (80, [7, 18, 15, 16, 17, 14]), (62, [9, 18]), (253, []), (56, [])]"

lemma fragment_module: "spirv_module getFragmentShaderCode = Some fragment_module"
  unfolding spirv_module_def getFragmentShaderCode_def fragment_module_def
  by (simp add: opcode_def word_count_def drop_bit_eq_div unsigned_and_eq)

section \<open>What the shaders compute\<close>

text \<open>
  \<open>shaders/cube.vert\<close>: \<open>gl_Position = ubo.mvp * vec4(inPosition, 1.0)\<close> and
  \<open>fragColor = inColor\<close>. \<open>shaders/cube.frag\<close>: \<open>outColor = vec4(fragColor, 1.0)\<close>.
\<close>

type_synonym vec4 = "rat \<times> rat \<times> rat \<times> rat"

record mat4 =
  col0 :: vec4
  col1 :: vec4
  col2 :: vec4
  col3 :: vec4

definition combine :: "vec4 \<Rightarrow> rat \<Rightarrow> vec4 \<Rightarrow> vec4" where
  "combine = (\<lambda>(a, b, c, d) x (a', b', c', d'). (a * x + a', b * x + b', c * x + c', d * x + d'))"

definition transformed :: "mat4 \<Rightarrow> vec4 \<Rightarrow> vec4" where
  "transformed M = (\<lambda>(x, y, z, w). combine (col0 M) x (combine (col1 M) y (combine (col2 M) z (combine (col3 M) w (0, 0, 0, 0)))))"

definition cube_vert :: "mat4 \<Rightarrow> vec3 \<Rightarrow> vec3 \<Rightarrow> vec4 \<times> vec3" where
  "cube_vert mvp inPosition inColor = (case inPosition of (x, y, z) \<Rightarrow> (transformed mvp (x, y, z, 1), inColor))"

definition cube_frag :: "vec3 \<Rightarrow> vec4" where
  "cube_frag = (\<lambda>(r, g, b). (r, g, b, 1))"

text \<open>How these values appear in a module.\<close>

definition sval3 :: "vec3 \<Rightarrow> sval" where
  "sval3 = (\<lambda>(x, y, z). Vec [Num x, Num y, Num z])"

definition sval4 :: "vec4 \<Rightarrow> sval" where
  "sval4 = (\<lambda>(x, y, z, w). Vec [Num x, Num y, Num z, Num w])"

definition ubo_value :: "mat4 \<Rightarrow> sval" where
  "ubo_value M = Vec [Vec [sval4 (col0 M), sval4 (col1 M), sval4 (col2 M), sval4 (col3 M)]]"

lemmas module_reading = decoration_def pointee_def variables_def List.map_filter_def shader_memory_def
  target_of_def constant_value_def float_of_bits_def

lemma vertex_variables:
  "variables vertex_module 1 = [(25, Some 23), (37, Some 23), (39, Some 23)]"
  "variables vertex_module 2 = [(19, Some 17)]"
  "variables vertex_module 3 = [(13, Some 11), (36, Some 23)]"
  by (simp_all add: vertex_module_def variables_def pointee_def List.map_filter_def)

lemma fragment_variables:
  "variables fragment_module 1 = [(12, Some 10)]"
  "variables fragment_module 2 = []"
  "variables fragment_module 3 = [(9, Some 7)]"
  by (simp_all add: fragment_module_def variables_def pointee_def List.map_filter_def)

lemma vertex_decorations:
  "decoration vertex_module 25 30 = Some 0" "decoration vertex_module 37 30 = Some 2"
  "decoration vertex_module 39 30 = Some 1" "decoration vertex_module 36 30 = Some 0"
  "decoration vertex_module 13 30 = None"
  "decoration vertex_module 19 33 = Some 0" "decoration vertex_module 19 34 = Some 0"
  by (simp_all add: vertex_module_def decoration_def)

lemma fragment_decorations:
  "decoration fragment_module 12 30 = Some 0" "decoration fragment_module 9 30 = Some 0"
  by (simp_all add: fragment_module_def decoration_def)

lemma one_constant: "constant_value vertex_module 6 1065353216 = Some (Num 1)"
    "constant_value fragment_module 6 1065353216 = Some (Num 1)"
  by (simp_all add: constant_value_def vertex_module_def fragment_module_def float_of_bits_def Let_def)

lemma index_constants: "constant_value vertex_module 8 1 = Some (Idx 1)" "constant_value vertex_module 14 0 = Some (Idx 0)"
  by (simp_all add: constant_value_def vertex_module_def)

lemma vertex_exec:
  assumes "\<And>t n. constant_value P t n = constant_value vertex_module t n"
    and "memory 19 = Some (Vec [Vec [Vec [Num a0, Num a1, Num a2, Num a3], Vec [Num b0, Num b1, Num b2, Num b3],
           Vec [Num c0, Num c1, Num c2, Num c3], Vec [Num d0, Num d1, Num d2, Num d3]]])"
    and "memory 25 = Some (Vec [Num x, Num y, Num z])" "memory 37 = Some colour"
  shows "spirv_exec P memory vertex_module (Map.empty, []) =
    Some [(13, [0], Vec [Num (a0 * x + (b0 * y + (c0 * z + d0))), Num (a1 * x + (b1 * y + (c1 * z + d1))),
                         Num (a2 * x + (b2 * y + (c2 * z + d2))), Num (a3 * x + (b3 * y + (c3 * z + d3)))]),
          (36, [], colour)]"
  using assms(2-) unfolding vertex_module_def by (simp add: assms(1) one_constant index_constants del: One_nat_def)

lemma fragment_exec:
  assumes "\<And>t n. constant_value P t n = constant_value fragment_module t n"
    and "memory 12 = Some (Vec [Num r, Num g, Num b])"
  shows "spirv_exec P memory fragment_module (Map.empty, []) = Some [(9, [], Vec [Num r, Num g, Num b, Num 1])]"
  using assms(2-) unfolding fragment_module_def by (simp add: assms(1) one_constant del: One_nat_def)

text \<open>
  The compiled shaders of the sample renderer do what their sources say. Fed with a position at
  location 0 and a colour at location 2, and with the matrix at set 0, binding 0, the vertex
  shader's words write \<open>mvp * vec4(inPosition, 1.0)\<close> to the built-in position and the colour
  to location 0; fed with that colour at location 0, the fragment shader's words write it,
  opaque, to location 0. The normal at location 1 is never read.
\<close>

theorem shaders_compute:
  "run_shader getVertexShaderCode [0 \<mapsto> sval3 p, 1 \<mapsto> n, 2 \<mapsto> sval3 c] [(0, 0) \<mapsto> ubo_value M] =
     Some [(Position, sval4 (fst (cube_vert M p c))), (Location 0, sval3 (snd (cube_vert M p c)))] \<and>
   run_shader getFragmentShaderCode [0 \<mapsto> sval3 c] Map.empty = Some [(Location 0, sval4 (cube_frag c))]"
proof -
  obtain x y z where p: "p = (x, y, z)" by (rule prod_cases3)
  obtain r g b where c: "c = (r, g, b)" by (rule prod_cases3)
  obtain a0 a1 a2 a3 where c0: "col0 M = (a0, a1, a2, a3)" by (rule prod_cases4)
  obtain b0 b1 b2 b3 where c1: "col1 M = (b0, b1, b2, b3)" by (rule prod_cases4)
  obtain e0 e1 e2 e3 where c2: "col2 M = (e0, e1, e2, e3)" by (rule prod_cases4)
  obtain d0 d1 d2 d3 where c3: "col3 M = (d0, d1, d2, d3)" by (rule prod_cases4)
  have position: "(72, [11, 0, 11, 0]) \<in> set vertex_module" by (simp add: vertex_module_def)
  show ?thesis
    by (simp add: run_shader_def vertex_module fragment_module vertex_exec [where P = vertex_module]
          fragment_exec [where P = fragment_module] shader_memory_def vertex_variables vertex_decorations
          fragment_variables fragment_decorations target_of_def position p c c0 c1 c2 c3 ubo_value_def sval3_def sval4_def
          cube_vert_def cube_frag_def transformed_def combine_def del: One_nat_def)
qed

section \<open>The interface of the pipeline\<close>

text \<open>The component width and count of an attribute's format.\<close>

definition format_shape :: "vk_format \<Rightarrow> (nat \<times> nat) option" where
  "format_shape f = (case f of R32G32B32_SFLOAT \<Rightarrow> Some (32, 3) | _ \<Rightarrow> None)"

lemma vector_shapes:
  "vector_shape vertex_module (Some 23) = Some (32, 3)" "vector_shape fragment_module (Some 10) = Some (32, 3)"
  by (simp_all add: vector_shape_def vertex_module_def fragment_module_def)

lemma interfaces:
  "interface_of vertex_module 1 = [(0, Some (32, 3)), (2, Some (32, 3)), (1, Some (32, 3))]"
  "interface_of vertex_module 3 = [(0, Some (32, 3))]"
  "interface_of fragment_module 1 = [(0, Some (32, 3))]"
  by (simp_all add: interface_of_def vertex_variables fragment_variables vertex_decorations fragment_decorations
       vector_shapes List.map_filter_def del: One_nat_def)

text \<open>
  The vertex format, the vertex shader and the fragment shader agree. Every attribute that
  the pipeline describes comes from the one binding, has the shape of the shader input at its
  location, and every input has its attribute; the attributes follow each other without gap
  or overlap and fill the stride; and the fragment shader reads exactly what the vertex
  shader writes.
\<close>

theorem pipeline_interface:
  "map_option (\<lambda>prog. set (interface_of prog 1)) (spirv_module getVertexShaderCode) =
     Some ((\<lambda>a. (ad_location a, format_shape (ad_format a))) ` set getAttributeDescriptions) \<and>
   map ad_binding getAttributeDescriptions = replicate 3 (bd_binding getBindingDescription) \<and>
   map ad_offset getAttributeDescriptions @ [bd_stride getBindingDescription] = map (\<lambda>i. i * sizeof_vec3) [0..<4] \<and>
   map_option (\<lambda>prog. interface_of prog 3) (spirv_module getVertexShaderCode) =
     map_option (\<lambda>prog. interface_of prog 1) (spirv_module getFragmentShaderCode)"
proof -
  have four: "[0..<4] = [0, 1, 2, 3]" by (simp add: upt_rec)
  show ?thesis
    by (simp add: vertex_module fragment_module interfaces getAttributeDescriptions_def getBindingDescription_def
         format_shape_def sizeof_Vertex_def four insert_commute numeral_3_eq_3 [THEN arg_cong, of "\<lambda>n. replicate n 0"]
         del: One_nat_def)
qed

section \<open>The mesh\<close>

definition minus3 :: "vec3 \<Rightarrow> vec3 \<Rightarrow> vec3" where
  "minus3 = (\<lambda>(a, b, c) (a', b', c'). (a - a', b - b', c - c'))"

definition cross :: "vec3 \<Rightarrow> vec3 \<Rightarrow> vec3" where
  "cross = (\<lambda>(a, b, c) (a', b', c'). (b * c' - c * b', c * a' - a * c', a * b' - b * a'))"

definition dot :: "vec3 \<Rightarrow> vec3 \<Rightarrow> rat" where
  "dot = (\<lambda>(a, b, c) (a', b', c'). a * a' + b * b' + c * c')"

text \<open>\<open>vkCmdDrawIndexed\<close> with a triangle list: three indices, three vertices, one triangle.\<close>

fun triangles :: "'a list \<Rightarrow> ('a \<times> 'a \<times> 'a) list" where
  "triangles (a # b # c # is) = (a, b, c) # triangles is"
| "triangles _ = []"

definition cube_triangles :: "(vertex \<times> vertex \<times> vertex) list" where
  "cube_triangles = map (\<lambda>(i, j, k). (getVertices ! unat i, getVertices ! unat j, getVertices ! unat k))
     (triangles getIndices)"

text \<open>
  A triangle is seen counter-clockwise from outside when the cross product of two edges
  taken in order points along the normal its corners carry, away from the centre.
\<close>

definition faces_outward :: "vertex \<times> vertex \<times> vertex \<Rightarrow> bool" where
  "faces_outward = (\<lambda>(u, v, w). normal u = normal v \<and> normal v = normal w \<and>
     cross (minus3 (pos v) (pos u)) (minus3 (pos w) (pos v)) = normal u \<and> dot (pos u) (normal u) = 1 / 2)"

text \<open>The directed edges of the triangles, as pairs of positions.\<close>

definition mesh_edges :: "(vertex \<times> vertex \<times> vertex) list \<Rightarrow> (vec3 \<times> vec3) list" where
  "mesh_edges ts = concat (map (\<lambda>(u, v, w). [(pos u, pos v), (pos v, pos w), (pos w, pos u)]) ts)"

definition reversed :: "'a \<times> 'a \<Rightarrow> 'a \<times> 'a" where
  "reversed e = (snd e, fst e)"

lemmas cube_evaluation = cube_triangles_def getIndices_def getVertices_def mesh_edges_def

lemma cube_triangles_eq:
  "cube_triangles = map (\<lambda>(i, j, k). (getVertices ! i, getVertices ! j, getVertices ! k))
     [(0, 1, 2), (2, 3, 0), (4, 5, 6), (6, 7, 4), (8, 9, 10), (10, 11, 8),
      (12, 13, 14), (14, 15, 12), (16, 17, 18), (18, 19, 16), (20, 21, 22), (22, 23, 20)]"
  by (simp add: cube_triangles_def getIndices_def)

lemma cube_faces: "list_all faces_outward cube_triangles"
  by (simp add: cube_triangles_eq getVertices_def faces_outward_def minus3_def cross_def dot_def)

lemma cube_edges_distinct: "distinct (mesh_edges cube_triangles)"
  by (simp add: cube_triangles_eq getVertices_def mesh_edges_def)

lemma cube_edges_closed: "list_all (\<lambda>e. reversed e \<in> set (mesh_edges cube_triangles)) (mesh_edges cube_triangles)"
  by (simp add: cube_triangles_eq getVertices_def mesh_edges_def reversed_def)

text \<open>
  The golden cube is a closed surface seen from outside. Every index names a vertex, the
  twelve triangles are counter-clockwise as seen from outside and lie on the faces of the
  cube of side 1, and no directed edge occurs twice while each occurs reversed: the faces
  fit together without a gap.
\<close>

theorem cube_is_closed:
  "list_all (\<lambda>i. unat i < length getVertices) getIndices \<and>
   length cube_triangles = length getIndices div 3 \<and>
   list_all faces_outward cube_triangles \<and>
   distinct (mesh_edges cube_triangles) \<and>
   reversed ` set (mesh_edges cube_triangles) \<subseteq> set (mesh_edges cube_triangles)"
proof -
  have "list_all (\<lambda>i. unat i < length getVertices) getIndices"
    by (simp add: getIndices_def getVertices_def)
  moreover have "length cube_triangles = length getIndices div 3"
    by (simp add: cube_triangles_eq getIndices_def)
  moreover have "reversed ` set (mesh_edges cube_triangles) \<subseteq> set (mesh_edges cube_triangles)"
    using cube_edges_closed by (auto simp: list_all_iff)
  ultimately show ?thesis using cube_faces cube_edges_distinct by simp
qed

end
