(* ===== verification/Vulkan_Objects.thy ===== *)
theory Vulkan_Objects
  imports Session_Logic Cube_Geometry "HOL-Library.Multiset"
begin

unbundle bit_operations_syntax

text \<open>
  The state of the sample renderer (\<open>sample-renderer/.../vulkan_renderer.h\<close>) and what it
  tells the graphics driver. Vulkan, GLM and the window system are parameters: a driver
  answers from the history of the calls made so far, and the model records every call that
  creates, destroys, waits, submits or writes. Handles are numbers, 0 is \<open>VK_NULL_HANDLE\<close>.
\<close>

section \<open>What is created\<close>

datatype vk_kind = VkInstance | VkDevice | VkSurface | VkSwapchain | VkImageView | VkImage | VkMemory | VkRenderPass |
  VkFramebuffer | VkSetLayout | VkShaderModule | VkPipelineLayout | VkPipeline | VkBuffer | VkDescriptorPool |
  VkCommandPool | VkSemaphore | VkFence | NativeWindow

datatype image_layout = LAYOUT_UNDEFINED | LAYOUT_COLOR_ATTACHMENT | LAYOUT_DEPTH_STENCIL_ATTACHMENT | LAYOUT_PRESENT_SRC

datatype attachment_op = OP_CLEAR | OP_STORE | OP_DONT_CARE

datatype image_aspect = ASPECT_COLOR | ASPECT_DEPTH

datatype shader_stage = STAGE_VERTEX | STAGE_FRAGMENT

datatype dynamic_state = DYNAMIC_VIEWPORT | DYNAMIC_SCISSOR

datatype pipeline_stage = COLOR_ATTACHMENT_OUTPUT | EARLY_FRAGMENT_TESTS

datatype access_mask = COLOR_ATTACHMENT_WRITE | DEPTH_STENCIL_ATTACHMENT_WRITE

record swapchain_info =
  sc_surface :: nat
  sc_minImageCount :: "32 word"
  sc_imageFormat :: vk_format
  sc_imageExtent :: "32 word \<times> 32 word"
  sc_imageArrayLayers :: nat
  sc_preTransform :: nat

record attachment =
  at_format :: vk_format
  at_loadOp :: attachment_op
  at_storeOp :: attachment_op
  at_stencilLoadOp :: attachment_op
  at_stencilStoreOp :: attachment_op
  at_initialLayout :: image_layout
  at_finalLayout :: image_layout

record render_pass_info =
  rp_attachments :: "attachment list"
  rp_colorRefs :: "(nat \<times> image_layout) list"
  rp_depthRef :: "(nat \<times> image_layout) option"
  rp_srcStages :: "pipeline_stage list"
  rp_dstStages :: "pipeline_stage list"
  rp_srcAccess :: "access_mask list"
  rp_dstAccess :: "access_mask list"

record image_info =
  im_width :: "32 word"
  im_height :: "32 word"
  im_format :: vk_format
  im_depthUsage :: bool

record framebuffer_info =
  fb_renderPass :: nat
  fb_attachments :: "nat list"
  fb_extent :: "32 word \<times> 32 word"

record set_layout_info =
  sl_binding :: nat
  sl_count :: nat
  sl_stages :: "shader_stage list"

text \<open>The pipeline: the fields that are not left at their default.\<close>

record pipeline_info =
  pi_stages :: "(shader_stage \<times> nat \<times> string) list"
  pi_binding :: binding_description
  pi_attributes :: "attribute_description list"
  pi_triangleList :: bool
  pi_primitiveRestart :: bool
  pi_viewports :: nat
  pi_scissors :: nat
  pi_depthClamp :: bool
  pi_rasterizerDiscard :: bool
  pi_polygonFill :: bool
  pi_lineWidth :: rat
  pi_cullBack :: bool
  pi_counterClockwise :: bool
  pi_depthBias :: bool
  pi_sampleShading :: bool
  pi_depthTest :: bool
  pi_depthWrite :: bool
  pi_depthLess :: bool
  pi_depthBounds :: bool
  pi_stencilTest :: bool
  pi_blend :: bool
  pi_writeMask :: "bool list"
  pi_logicOp :: bool
  pi_dynamicStates :: "dynamic_state list"
  pi_layout :: nat
  pi_renderPass :: nat
  pi_subpass :: nat

datatype buffer_usage = VERTEX_BUFFER | INDEX_BUFFER | UNIFORM_BUFFER

datatype vk_info =
    InstanceInfo string string "nat \<times> nat" "string list"
  | DeviceInfo nat nat "string list"
  | SurfaceInfo nat
  | SwapchainInfo swapchain_info
  | ViewInfo nat vk_format image_aspect
  | ImageInfo image_info
  | MemoryInfo nat nat
  | RenderPassInfo render_pass_info
  | FramebufferInfo framebuffer_info
  | SetLayoutInfo set_layout_info
  | ShaderInfo "32 word list" nat
  | PipelineLayoutInfo "nat list"
  | PipelineInfo pipeline_info
  | BufferInfo nat buffer_usage
  | DescriptorPoolInfo nat nat
  | CommandPoolInfo bool nat
  | SemaphoreInfo
  | FenceInfo bool

fun kind_of :: "vk_info \<Rightarrow> vk_kind" where
  "kind_of (InstanceInfo _ _ _ _) = VkInstance"
| "kind_of (DeviceInfo _ _ _) = VkDevice"
| "kind_of (SurfaceInfo _) = VkSurface"
| "kind_of (SwapchainInfo _) = VkSwapchain"
| "kind_of (ViewInfo _ _ _) = VkImageView"
| "kind_of (ImageInfo _) = VkImage"
| "kind_of (MemoryInfo _ _) = VkMemory"
| "kind_of (RenderPassInfo _) = VkRenderPass"
| "kind_of (FramebufferInfo _) = VkFramebuffer"
| "kind_of (SetLayoutInfo _) = VkSetLayout"
| "kind_of (ShaderInfo _ _) = VkShaderModule"
| "kind_of (PipelineLayoutInfo _) = VkPipelineLayout"
| "kind_of (PipelineInfo _) = VkPipeline"
| "kind_of (BufferInfo _ _) = VkBuffer"
| "kind_of (DescriptorPoolInfo _ _) = VkDescriptorPool"
| "kind_of (CommandPoolInfo _ _) = VkCommandPool"
| "kind_of SemaphoreInfo = VkSemaphore"
| "kind_of (FenceInfo _) = VkFence"

section \<open>What is recorded and submitted\<close>

datatype vk_command =
    CmdBeginRenderPass nat nat "32 word \<times> 32 word" "rat list" "rat \<times> nat"
  | CmdBindPipeline nat
  | CmdSetViewport "32 word \<times> 32 word"
  | CmdSetScissor "32 word \<times> 32 word"
  | CmdBindVertexBuffers nat
  | CmdBindIndexBuffer nat
  | CmdBindDescriptorSets nat nat
  | CmdDrawIndexed nat
  | CmdEndRenderPass

datatype vk_result = VK_SUCCESS | VK_SUBOPTIMAL | VK_OUT_OF_DATE | VK_OTHER_ERROR

type_synonym matrix = "rat list"

datatype upload = Vertices "vertex list" | Indices "16 word list" | Uniforms matrix

text \<open>
  \<open>Submitted buffer wait signal fence accepted\<close>; \<open>Acquired semaphore result index\<close>;
  \<open>WildWrite\<close> is a copy through a pointer that no mapping gave.
\<close>

datatype vk_event =
    Created vk_info nat
  | CreateFailed vk_info
  | Destroyed vk_kind nat
  | WindowTaken nat
  | WindowReleased nat
  | WindowGeometry nat int int
  | Bound vk_kind nat nat
  | Uploaded nat upload
  | WildWrite
  | SetAllocated nat nat nat
  | SetUpdated nat nat
  | CommandsAllocated nat "nat list"
  | WaitedIdle
  | WaitedFence nat
  | Acquired nat vk_result nat
  | ResetFence nat
  | Recorded nat "vk_command list"
  | Submitted nat nat nat nat bool
  | Presented nat nat nat

section \<open>The driver and the mathematics library\<close>

text \<open>
  \<open>dr_create\<close>: the new handle, \<open>None\<close> unless \<open>VK_SUCCESS\<close>. \<open>dr_wait\<close>: whether a wait
  without a timeout on a fence returns. \<open>dr_acquire\<close>: the result, and what is then in
  \<open>imageIndex\<close>. Floats are their values; operations that round are functions of \<open>glm\<close>.
\<close>

record vk_driver =
  dr_create :: "vk_event list \<Rightarrow> vk_info \<Rightarrow> nat option"
  dr_physicalDevices :: "nat \<Rightarrow> nat list"
  dr_queueFlags :: "nat \<Rightarrow> 32 word list"
  dr_memoryTypes :: "nat \<Rightarrow> 32 word list"
  dr_capabilities :: "vk_event list \<Rightarrow> nat \<Rightarrow> 32 word \<times> 32 word \<times> nat"
  dr_swapchainImages :: "nat \<Rightarrow> nat list"
  dr_requirements :: "vk_event list \<Rightarrow> vk_kind \<Rightarrow> nat \<Rightarrow> nat \<times> 32 word"
  dr_map :: "vk_event list \<Rightarrow> nat \<Rightarrow> bool"
  dr_allocateSet :: "vk_event list \<Rightarrow> nat \<Rightarrow> nat option"
  dr_allocateCommands :: "vk_event list \<Rightarrow> nat \<Rightarrow> nat \<Rightarrow> nat list option"
  dr_wait :: "vk_event list \<Rightarrow> nat \<Rightarrow> bool"
  dr_acquire :: "vk_event list \<Rightarrow> nat \<Rightarrow> vk_result \<times> nat"
  dr_submit :: "vk_event list \<Rightarrow> bool"

record glm =
  gl_rotate :: "matrix \<Rightarrow> rat \<Rightarrow> vec3 \<Rightarrow> matrix"
  gl_lookAt :: "vec3 \<Rightarrow> vec3 \<Rightarrow> vec3 \<Rightarrow> matrix"
  gl_perspective :: "rat \<Rightarrow> rat \<Rightarrow> rat \<Rightarrow> rat \<Rightarrow> matrix"
  gl_radians :: "rat \<Rightarrow> rat"
  gl_times :: "matrix \<Rightarrow> matrix \<Rightarrow> matrix"
  fl_add :: "rat \<Rightarrow> rat \<Rightarrow> rat"
  fl_aspect :: "32 word \<Rightarrow> 32 word \<Rightarrow> rat"

section \<open>The renderer\<close>

definition MAX_FRAMES_IN_FLIGHT :: nat where
  "MAX_FRAMES_IN_FLIGHT = 2"

record vk_renderer =
  mInstance :: nat
  mPhysicalDevice :: nat
  mDevice :: nat
  mGraphicsQueueFamily :: nat
  mSurface :: nat
  mSwapchain :: nat
  mSwapchainImages :: "nat list"
  mSwapchainImageViews :: "nat list"
  mSwapchainExtent :: "32 word \<times> 32 word"
  mRenderPass :: nat
  mFramebuffers :: "nat list"
  mDepthImage :: nat
  mDepthMemory :: nat
  mDepthImageView :: nat
  mPipelineLayout :: nat
  mGraphicsPipeline :: nat
  mVertexBuffer :: nat
  mVertexBufferMemory :: nat
  mIndexBuffer :: nat
  mIndexBufferMemory :: nat
  mUniformBuffer :: nat
  mUniformBufferMemory :: nat
  mUniformBufferMapped :: "nat option"
  mDescriptorSetLayout :: nat
  mDescriptorPool :: nat
  mDescriptorSet :: nat
  mCommandPool :: nat
  mCommandBuffers :: "nat list"
  mImageAvailableSemaphores :: "nat list"
  mRenderFinishedSemaphores :: "nat list"
  mInFlightFences :: "nat list"
  mCurrentFrame :: nat
  mWindow :: nat
  mWidth :: int
  mHeight :: int
  mRendering :: bool
  mRenderThread :: bool
  mRotationX :: rat
  mRotationY :: rat
  mAutoRotation :: rat
  mIndexCount :: nat

text \<open>The members' initial values; \<open>mRenderThread\<close> says whether the thread is joinable.\<close>

definition vk_renderer_init :: vk_renderer where
  "vk_renderer_init = \<lparr>mInstance = 0, mPhysicalDevice = 0, mDevice = 0, mGraphicsQueueFamily = 0, mSurface = 0,
     mSwapchain = 0, mSwapchainImages = [], mSwapchainImageViews = [], mSwapchainExtent = (0, 0), mRenderPass = 0,
     mFramebuffers = [], mDepthImage = 0, mDepthMemory = 0, mDepthImageView = 0, mPipelineLayout = 0,
     mGraphicsPipeline = 0, mVertexBuffer = 0, mVertexBufferMemory = 0, mIndexBuffer = 0, mIndexBufferMemory = 0,
     mUniformBuffer = 0, mUniformBufferMemory = 0, mUniformBufferMapped = None, mDescriptorSetLayout = 0,
     mDescriptorPool = 0, mDescriptorSet = 0, mCommandPool = 0, mCommandBuffers = [], mImageAvailableSemaphores = [],
     mRenderFinishedSemaphores = [], mInFlightFences = [], mCurrentFrame = 0, mWindow = 0, mWidth = 0, mHeight = 0,
     mRendering = False, mRenderThread = False, mRotationX = 0, mRotationY = 0, mAutoRotation = 0, mIndexCount = 0\<rparr>"

type_synonym 'a vkm = "(vk_renderer \<times> vk_event list, 'a) state"

abbreviation vret :: "'a \<Rightarrow> 'a vkm" where
  "vret \<equiv> State_Monad.return"

definition this_vk :: "vk_renderer vkm" where
  "this_vk = State (\<lambda>x. (fst x, x))"

definition set_vk :: "(vk_renderer \<Rightarrow> vk_renderer) \<Rightarrow> unit vkm" where
  "set_vk f = State (\<lambda>x. ((), (f (fst x), snd x)))"

definition history :: "vk_event list vkm" where
  "history = State (\<lambda>x. (snd x, x))"

definition vk_emit :: "vk_event \<Rightarrow> unit vkm" where
  "vk_emit e = State (\<lambda>x. ((), (fst x, e # snd x)))"

section \<open>Creating and destroying\<close>

definition create :: "vk_driver \<Rightarrow> vk_info \<Rightarrow> nat option vkm" where
  "create D info = State (\<lambda>(r, l). case dr_create D l info of
     None \<Rightarrow> (None, (r, CreateFailed info # l))
   | Some h \<Rightarrow> (Some h, (r, Created info h # l)))"

text \<open>\<open>if (vkCreate...(..., &member) != VK_SUCCESS) return false; return true;\<close>\<close>

definition create_into :: "vk_driver \<Rightarrow> vk_info \<Rightarrow> (nat \<Rightarrow> vk_renderer \<Rightarrow> vk_renderer) \<Rightarrow> bool vkm" where
  "create_into D info store = do {
     x \<leftarrow> create D info;
     case x of None \<Rightarrow> vret False | Some h \<Rightarrow> do { set_vk (store h); vret True } }"

text \<open>\<open>vkDestroy...\<close> ignores a null handle; most calls are guarded all the same.\<close>

definition destroy :: "vk_kind \<Rightarrow> nat \<Rightarrow> unit vkm" where
  "destroy k h = vk_emit (Destroyed k h)"

definition destroy_if :: "vk_kind \<Rightarrow> nat \<Rightarrow> unit vkm" where
  "destroy_if k h = (if h \<noteq> 0 then destroy k h else vret ())"

fun destroy_all :: "vk_kind \<Rightarrow> nat list \<Rightarrow> unit vkm" where
  "destroy_all k [] = vret ()"
| "destroy_all k (h # hs) = do { destroy k h; destroy_all k hs }"

text \<open>A chain of \<open>if (!create...()) return false;\<close>\<close>

fun all_ok :: "bool vkm list \<Rightarrow> bool vkm" where
  "all_ok [] = vret True"
| "all_ok (m # ms) = do { ok \<leftarrow> m; if \<not> ok then vret False else all_ok ms }"

text \<open>\<open>std::vector::resize\<close>: new elements are null handles.\<close>

definition resized :: "nat \<Rightarrow> nat list \<Rightarrow> nat list" where
  "resized n xs = take n xs @ replicate (n - length xs) 0"

end
