(* ===== verification/Vulkan_Renderer.thy ===== *)
theory Vulkan_Renderer
  imports Vulkan_Objects
begin

unbundle bit_operations_syntax

text \<open>
  \<open>sample-renderer/.../vulkan_renderer.cpp\<close> and its JNI entry points, call by call. Log lines
  are left out, and of the structures that describe an object the fields that are one
  constant at every use (colour space, sharing, samples, layers).
\<close>

section \<open>Memory\<close>

definition findMemoryType :: "vk_driver \<Rightarrow> nat \<Rightarrow> 32 word \<Rightarrow> 32 word \<Rightarrow> nat" where
  "findMemoryType D phys typeFilter properties =
    (let types = dr_memoryTypes D phys in
     case find (\<lambda>i. bit typeFilter i \<and> types ! i AND properties = properties) [0..<length types] of
       Some i \<Rightarrow> i | None \<Rightarrow> 0)"

text \<open>\<open>DEVICE_LOCAL\<close> is 1; \<open>HOST_VISIBLE | HOST_COHERENT\<close> is 2 | 4.\<close>

definition allocate_for :: "vk_driver \<Rightarrow> vk_kind \<Rightarrow> nat \<Rightarrow> 32 word \<Rightarrow> (nat \<Rightarrow> vk_renderer \<Rightarrow> vk_renderer) \<Rightarrow> bool vkm" where
  "allocate_for D kind obj properties setMemory = do {
     r \<leftarrow> this_vk;
     l \<leftarrow> history;
     let (bytes, typeBits) = dr_requirements D l kind obj;
     x \<leftarrow> create D (MemoryInfo bytes (findMemoryType D (mPhysicalDevice r) typeBits properties));
     case x of
       None \<Rightarrow> vret False
     | Some m \<Rightarrow> do { set_vk (setMemory m); vk_emit (Bound kind obj m); vret True } }"

definition createBuffer :: "vk_driver \<Rightarrow> nat \<Rightarrow> buffer_usage \<Rightarrow> 32 word \<Rightarrow> (nat \<Rightarrow> vk_renderer \<Rightarrow> vk_renderer) \<Rightarrow>
    (nat \<Rightarrow> vk_renderer \<Rightarrow> vk_renderer) \<Rightarrow> bool vkm" where
  "createBuffer D bytes usage properties setBuffer setMemory = do {
     x \<leftarrow> create D (BufferInfo bytes usage);
     case x of
       None \<Rightarrow> vret False
     | Some b \<Rightarrow> do { set_vk (setBuffer b); allocate_for D VkBuffer b properties setMemory } }"

definition createImage :: "vk_driver \<Rightarrow> 32 word \<Rightarrow> 32 word \<Rightarrow> vk_format \<Rightarrow> bool \<Rightarrow> 32 word \<Rightarrow> (nat \<Rightarrow> vk_renderer \<Rightarrow> vk_renderer) \<Rightarrow>
    (nat \<Rightarrow> vk_renderer \<Rightarrow> vk_renderer) \<Rightarrow> bool vkm" where
  "createImage D width height format depthUsage properties setImage setMemory = do {
     x \<leftarrow> create D (ImageInfo \<lparr>im_width = width, im_height = height, im_format = format, im_depthUsage = depthUsage\<rparr>);
     case x of
       None \<Rightarrow> vret False
     | Some i \<Rightarrow> do { set_vk (setImage i); allocate_for D VkImage i properties setMemory } }"

definition createImageView :: "vk_driver \<Rightarrow> nat \<Rightarrow> vk_format \<Rightarrow> image_aspect \<Rightarrow> nat vkm" where
  "createImageView D img format aspect = do {
     x \<leftarrow> create D (ViewInfo img format aspect);
     case x of None \<Rightarrow> vret 0 | Some v \<Rightarrow> vret v }"

section \<open>Instance and device\<close>

definition createInstance :: "vk_driver \<Rightarrow> bool vkm" where
  "createInstance D = create_into D
     (InstanceInfo ''VCamRenderer'' ''No Engine'' (1, 1) [''VK_KHR_surface'', ''VK_KHR_android_surface''])
     (\<lambda>h r. r\<lparr>mInstance := h\<rparr>)"

definition pickPhysicalDevice :: "vk_driver \<Rightarrow> bool vkm" where
  "pickPhysicalDevice D = do {
     r \<leftarrow> this_vk;
     case dr_physicalDevices D (mInstance r) of
       [] \<Rightarrow> vret False
     | d # _ \<Rightarrow> do { set_vk (\<lambda>r. r\<lparr>mPhysicalDevice := d\<rparr>); vret True } }"

text \<open>The first family with the graphics bit (1); without one the member keeps its value.\<close>

definition graphics_family :: "32 word list \<Rightarrow> nat \<Rightarrow> nat" where
  "graphics_family flags old = (case find (\<lambda>i. flags ! i AND 1 \<noteq> 0) [0..<length flags] of Some i \<Rightarrow> i | None \<Rightarrow> old)"

definition createDevice :: "vk_driver \<Rightarrow> bool vkm" where
  "createDevice D = do {
     set_vk (\<lambda>r. r\<lparr>mGraphicsQueueFamily := graphics_family (dr_queueFlags D (mPhysicalDevice r)) (mGraphicsQueueFamily r)\<rparr>);
     r \<leftarrow> this_vk;
     create_into D (DeviceInfo (mPhysicalDevice r) (mGraphicsQueueFamily r) [''VK_KHR_swapchain'']) (\<lambda>h r. r\<lparr>mDevice := h\<rparr>) }"

definition vk_initialize :: "vk_driver \<Rightarrow> bool vkm" where
  "vk_initialize D = all_ok [createInstance D, pickPhysicalDevice D, createDevice D]"

section \<open>Surface, swapchain and attachments\<close>

definition createSurface :: "vk_driver \<Rightarrow> bool vkm" where
  "createSurface D = do {
     r \<leftarrow> this_vk;
     create_into D (SurfaceInfo (mWindow r)) (\<lambda>h r. r\<lparr>mSurface := h\<rparr>) }"

definition image_count :: "32 word \<Rightarrow> 32 word \<Rightarrow> 32 word" where
  "image_count minImageCount maxImageCount =
    (let n = minImageCount + 1 in if 0 < maxImageCount \<and> maxImageCount < n then maxImageCount else n)"

fun create_views :: "vk_driver \<Rightarrow> nat list \<Rightarrow> nat list vkm" where
  "create_views D [] = vret []"
| "create_views D (i # is) = do {
     v \<leftarrow> createImageView D i R8G8B8A8_UNORM ASPECT_COLOR;
     vs \<leftarrow> create_views D is;
     vret (v # vs) }"

definition createSwapchain :: "vk_driver \<Rightarrow> bool vkm" where
  "createSwapchain D = do {
     r \<leftarrow> this_vk;
     l \<leftarrow> history;
     let (minCount, maxCount, transform) = dr_capabilities D l (mSurface r);
     let extent = (word_of_int (mWidth r), word_of_int (mHeight r));
     set_vk (\<lambda>r. r\<lparr>mSwapchainExtent := extent\<rparr>);
     ok \<leftarrow> create_into D (SwapchainInfo \<lparr>sc_surface = mSurface r, sc_minImageCount = image_count minCount maxCount,
         sc_imageFormat = R8G8B8A8_UNORM, sc_imageExtent = extent, sc_imageArrayLayers = 1, sc_preTransform = transform\<rparr>)
       (\<lambda>h r. r\<lparr>mSwapchain := h\<rparr>);
     if \<not> ok then vret False
     else do {
       r \<leftarrow> this_vk;
       let images = dr_swapchainImages D (mSwapchain r);
       set_vk (\<lambda>r. r\<lparr>mSwapchainImages := images\<rparr>);
       views \<leftarrow> create_views D images;
       set_vk (\<lambda>r. r\<lparr>mSwapchainImageViews := views\<rparr>);
       vret True } }"

definition color_attachment :: attachment where
  "color_attachment = \<lparr>at_format = R8G8B8A8_UNORM, at_loadOp = OP_CLEAR, at_storeOp = OP_STORE, at_stencilLoadOp = OP_DONT_CARE,
     at_stencilStoreOp = OP_DONT_CARE, at_initialLayout = LAYOUT_UNDEFINED, at_finalLayout = LAYOUT_PRESENT_SRC\<rparr>"

definition depth_attachment :: attachment where
  "depth_attachment = \<lparr>at_format = D32_SFLOAT, at_loadOp = OP_CLEAR, at_storeOp = OP_DONT_CARE, at_stencilLoadOp = OP_DONT_CARE,
     at_stencilStoreOp = OP_DONT_CARE, at_initialLayout = LAYOUT_UNDEFINED, at_finalLayout = LAYOUT_DEPTH_STENCIL_ATTACHMENT\<rparr>"

definition createRenderPass :: "vk_driver \<Rightarrow> bool vkm" where
  "createRenderPass D = create_into D (RenderPassInfo
     \<lparr>rp_attachments = [color_attachment, depth_attachment],
      rp_colorRefs = [(0, LAYOUT_COLOR_ATTACHMENT)], rp_depthRef = Some (1, LAYOUT_DEPTH_STENCIL_ATTACHMENT),
      rp_srcStages = [COLOR_ATTACHMENT_OUTPUT, EARLY_FRAGMENT_TESTS], rp_dstStages = [COLOR_ATTACHMENT_OUTPUT, EARLY_FRAGMENT_TESTS],
      rp_srcAccess = [], rp_dstAccess = [COLOR_ATTACHMENT_WRITE, DEPTH_STENCIL_ATTACHMENT_WRITE]\<rparr>)
     (\<lambda>h r. r\<lparr>mRenderPass := h\<rparr>)"

definition createDepthResources :: "vk_driver \<Rightarrow> bool vkm" where
  "createDepthResources D = do {
     r \<leftarrow> this_vk;
     ok \<leftarrow> createImage D (fst (mSwapchainExtent r)) (snd (mSwapchainExtent r)) D32_SFLOAT True 1
       (\<lambda>h r. r\<lparr>mDepthImage := h\<rparr>) (\<lambda>h r. r\<lparr>mDepthMemory := h\<rparr>);
     if \<not> ok then vret False
     else do {
       r \<leftarrow> this_vk;
       v \<leftarrow> createImageView D (mDepthImage r) D32_SFLOAT ASPECT_DEPTH;
       set_vk (\<lambda>r. r\<lparr>mDepthImageView := v\<rparr>);
       vret (v \<noteq> 0) } }"

text \<open>One framebuffer per view, from index \<open>i\<close> on.\<close>

fun framebuffers_from :: "vk_driver \<Rightarrow> nat \<Rightarrow> nat list \<Rightarrow> bool vkm" where
  "framebuffers_from D i [] = vret True"
| "framebuffers_from D i (view # views) = do {
     r \<leftarrow> this_vk;
     ok \<leftarrow> create_into D (FramebufferInfo \<lparr>fb_renderPass = mRenderPass r, fb_attachments = [view, mDepthImageView r],
         fb_extent = mSwapchainExtent r\<rparr>) (\<lambda>h r. r\<lparr>mFramebuffers := (mFramebuffers r)[i := h]\<rparr>);
     if \<not> ok then vret False else framebuffers_from D (i + 1) views }"

definition createFramebuffers :: "vk_driver \<Rightarrow> bool vkm" where
  "createFramebuffers D = do {
     set_vk (\<lambda>r. r\<lparr>mFramebuffers := resized (length (mSwapchainImageViews r)) (mFramebuffers r)\<rparr>);
     r \<leftarrow> this_vk;
     framebuffers_from D 0 (mSwapchainImageViews r) }"

section \<open>Buffers\<close>

text \<open>\<open>vkMapMemory\<close>, \<open>memcpy\<close>, \<open>vkUnmapMemory\<close>; the result of the mapping is not looked at.\<close>

definition upload_to :: "vk_driver \<Rightarrow> nat \<Rightarrow> upload \<Rightarrow> unit vkm" where
  "upload_to D memory u = do {
     l \<leftarrow> history;
     vk_emit (if dr_map D l memory then Uploaded memory u else WildWrite) }"

definition createVertexBuffer :: "vk_driver \<Rightarrow> bool vkm" where
  "createVertexBuffer D = do {
     ok \<leftarrow> createBuffer D (sizeof_Vertex * length getVertices) VERTEX_BUFFER (2 OR 4)
       (\<lambda>h r. r\<lparr>mVertexBuffer := h\<rparr>) (\<lambda>h r. r\<lparr>mVertexBufferMemory := h\<rparr>);
     if \<not> ok then vret False
     else do { r \<leftarrow> this_vk; upload_to D (mVertexBufferMemory r) (Vertices getVertices); vret True } }"

definition createIndexBuffer :: "vk_driver \<Rightarrow> bool vkm" where
  "createIndexBuffer D = do {
     set_vk (\<lambda>r. r\<lparr>mIndexCount := length getIndices\<rparr>);
     ok \<leftarrow> createBuffer D (2 * length getIndices) INDEX_BUFFER (2 OR 4)
       (\<lambda>h r. r\<lparr>mIndexBuffer := h\<rparr>) (\<lambda>h r. r\<lparr>mIndexBufferMemory := h\<rparr>);
     if \<not> ok then vret False
     else do { r \<leftarrow> this_vk; upload_to D (mIndexBufferMemory r) (Indices getIndices); vret True } }"

text \<open>A matrix of 16 floats.\<close>

definition sizeof_UniformBufferObject :: nat where
  "sizeof_UniformBufferObject = 64"

definition createUniformBuffer :: "vk_driver \<Rightarrow> bool vkm" where
  "createUniformBuffer D = do {
     ok \<leftarrow> createBuffer D sizeof_UniformBufferObject UNIFORM_BUFFER (2 OR 4)
       (\<lambda>h r. r\<lparr>mUniformBuffer := h\<rparr>) (\<lambda>h r. r\<lparr>mUniformBufferMemory := h\<rparr>);
     if \<not> ok then vret False
     else do {
       l \<leftarrow> history;
       set_vk (\<lambda>r. r\<lparr>mUniformBufferMapped := (if dr_map D l (mUniformBufferMemory r) then Some (mUniformBufferMemory r) else None)\<rparr>);
       vret True } }"

section \<open>Descriptors and the pipeline\<close>

definition createDescriptorSetLayout :: "vk_driver \<Rightarrow> bool vkm" where
  "createDescriptorSetLayout D = create_into D
     (SetLayoutInfo \<lparr>sl_binding = 0, sl_count = 1, sl_stages = [STAGE_VERTEX, STAGE_FRAGMENT]\<rparr>)
     (\<lambda>h r. r\<lparr>mDescriptorSetLayout := h\<rparr>)"

definition createShaderModule :: "vk_driver \<Rightarrow> 32 word list \<Rightarrow> nat \<Rightarrow> nat vkm" where
  "createShaderModule D code bytes = do {
     x \<leftarrow> create D (ShaderInfo code bytes);
     case x of None \<Rightarrow> vret 0 | Some m \<Rightarrow> vret m }"

definition cube_pipeline :: "nat \<Rightarrow> nat \<Rightarrow> nat \<Rightarrow> nat \<Rightarrow> pipeline_info" where
  "cube_pipeline vertModule fragModule layout renderPass =
    \<lparr>pi_stages = [(STAGE_VERTEX, vertModule, ''main''), (STAGE_FRAGMENT, fragModule, ''main'')],
     pi_binding = getBindingDescription, pi_attributes = getAttributeDescriptions,
     pi_triangleList = True, pi_primitiveRestart = False, pi_viewports = 1, pi_scissors = 1,
     pi_depthClamp = False, pi_rasterizerDiscard = False, pi_polygonFill = True, pi_lineWidth = 1,
     pi_cullBack = True, pi_counterClockwise = True, pi_depthBias = False, pi_sampleShading = False,
     pi_depthTest = True, pi_depthWrite = True, pi_depthLess = True, pi_depthBounds = False, pi_stencilTest = False,
     pi_blend = False, pi_writeMask = [True, True, True, True], pi_logicOp = False,
     pi_dynamicStates = [DYNAMIC_VIEWPORT, DYNAMIC_SCISSOR],
     pi_layout = layout, pi_renderPass = renderPass, pi_subpass = 0\<rparr>"

text \<open>From the two shader modules on: the layout, then the pipeline; the modules go either way.\<close>

definition pipeline_with :: "vk_driver \<Rightarrow> nat \<Rightarrow> nat \<Rightarrow> bool vkm" where
  "pipeline_with D vertModule fragModule = do {
     r \<leftarrow> this_vk;
     laid \<leftarrow> create_into D (PipelineLayoutInfo [mDescriptorSetLayout r]) (\<lambda>h r. r\<lparr>mPipelineLayout := h\<rparr>);
     if \<not> laid then do { destroy VkShaderModule vertModule; destroy VkShaderModule fragModule; vret False }
     else do {
       r \<leftarrow> this_vk;
       ok \<leftarrow> create_into D (PipelineInfo (cube_pipeline vertModule fragModule (mPipelineLayout r) (mRenderPass r)))
         (\<lambda>h r. r\<lparr>mGraphicsPipeline := h\<rparr>);
       destroy VkShaderModule vertModule;
       destroy VkShaderModule fragModule;
       vret ok } }"

definition createGraphicsPipeline :: "vk_driver \<Rightarrow> bool vkm" where
  "createGraphicsPipeline D = do {
     vertModule \<leftarrow> createShaderModule D getVertexShaderCode (length getVertexShaderCode * 4);
     fragModule \<leftarrow> createShaderModule D getFragmentShaderCode (length getFragmentShaderCode * 4);
     if vertModule = 0 \<or> fragModule = 0 then vret False else pipeline_with D vertModule fragModule }"

definition createDescriptorPool :: "vk_driver \<Rightarrow> bool vkm" where
  "createDescriptorPool D = create_into D (DescriptorPoolInfo 1 1) (\<lambda>h r. r\<lparr>mDescriptorPool := h\<rparr>)"

definition createDescriptorSets :: "vk_driver \<Rightarrow> bool vkm" where
  "createDescriptorSets D = do {
     r \<leftarrow> this_vk;
     l \<leftarrow> history;
     case dr_allocateSet D l (mDescriptorPool r) of
       None \<Rightarrow> vret False
     | Some s \<Rightarrow> do {
         vk_emit (SetAllocated (mDescriptorPool r) (mDescriptorSetLayout r) s);
         set_vk (\<lambda>r. r\<lparr>mDescriptorSet := s\<rparr>);
         vk_emit (SetUpdated s (mUniformBuffer r));
         vret True } }"

section \<open>Commands and synchronisation\<close>

definition createCommandPool :: "vk_driver \<Rightarrow> bool vkm" where
  "createCommandPool D = do {
     r \<leftarrow> this_vk;
     create_into D (CommandPoolInfo True (mGraphicsQueueFamily r)) (\<lambda>h r. r\<lparr>mCommandPool := h\<rparr>) }"

definition createCommandBuffers :: "vk_driver \<Rightarrow> bool vkm" where
  "createCommandBuffers D = do {
     set_vk (\<lambda>r. r\<lparr>mCommandBuffers := resized MAX_FRAMES_IN_FLIGHT (mCommandBuffers r)\<rparr>);
     r \<leftarrow> this_vk;
     l \<leftarrow> history;
     case dr_allocateCommands D l (mCommandPool r) (length (mCommandBuffers r)) of
       None \<Rightarrow> vret False
     | Some bs \<Rightarrow> do {
         vk_emit (CommandsAllocated (mCommandPool r) bs);
         set_vk (\<lambda>r. r\<lparr>mCommandBuffers := bs\<rparr>);
         vret True } }"

text \<open>The loop over the frames in flight, from frame \<open>i\<close> on, \<open>n\<close> of them.\<close>

fun sync_from :: "vk_driver \<Rightarrow> nat \<Rightarrow> nat \<Rightarrow> bool vkm" where
  "sync_from D i 0 = vret True"
| "sync_from D i (Suc n) = do {
     ok \<leftarrow> all_ok [
       create_into D SemaphoreInfo (\<lambda>h r. r\<lparr>mImageAvailableSemaphores := (mImageAvailableSemaphores r)[i := h]\<rparr>),
       create_into D SemaphoreInfo (\<lambda>h r. r\<lparr>mRenderFinishedSemaphores := (mRenderFinishedSemaphores r)[i := h]\<rparr>),
       create_into D (FenceInfo True) (\<lambda>h r. r\<lparr>mInFlightFences := (mInFlightFences r)[i := h]\<rparr>)];
     if \<not> ok then vret False else sync_from D (i + 1) n }"

definition createSyncObjects :: "vk_driver \<Rightarrow> bool vkm" where
  "createSyncObjects D = do {
     set_vk (\<lambda>r. r\<lparr>mImageAvailableSemaphores := resized MAX_FRAMES_IN_FLIGHT (mImageAvailableSemaphores r)\<rparr>);
     set_vk (\<lambda>r. r\<lparr>mRenderFinishedSemaphores := resized MAX_FRAMES_IN_FLIGHT (mRenderFinishedSemaphores r)\<rparr>);
     set_vk (\<lambda>r. r\<lparr>mInFlightFences := resized MAX_FRAMES_IN_FLIGHT (mInFlightFences r)\<rparr>);
     sync_from D 0 MAX_FRAMES_IN_FLIGHT }"

definition setSurface :: "vk_driver \<Rightarrow> nat \<Rightarrow> int \<Rightarrow> int \<Rightarrow> bool vkm" where
  "setSurface D window width height = do {
     set_vk (\<lambda>r. r\<lparr>mWindow := window, mWidth := width, mHeight := height\<rparr>);
     vk_emit (WindowGeometry window width height);
     all_ok [createSurface D, createSwapchain D, createRenderPass D, createDepthResources D, createFramebuffers D,
       createDescriptorSetLayout D, createGraphicsPipeline D, createVertexBuffer D, createIndexBuffer D, createUniformBuffer D,
       createDescriptorPool D, createDescriptorSets D, createCommandPool D, createCommandBuffers D, createSyncObjects D] }"

section \<open>Tearing down\<close>

definition cleanupSwapchain :: "unit vkm" where
  "cleanupSwapchain = do {
     r \<leftarrow> this_vk;
     destroy_if VkImageView (mDepthImageView r);
     destroy_if VkImage (mDepthImage r);
     destroy_if VkMemory (mDepthMemory r);
     destroy_all VkFramebuffer (mFramebuffers r);
     set_vk (\<lambda>r. r\<lparr>mFramebuffers := []\<rparr>);
     destroy_if VkPipeline (mGraphicsPipeline r);
     destroy_if VkPipelineLayout (mPipelineLayout r);
     destroy_if VkRenderPass (mRenderPass r);
     destroy_all VkImageView (mSwapchainImageViews r);
     set_vk (\<lambda>r. r\<lparr>mSwapchainImageViews := []\<rparr>);
     destroy_if VkSwapchain (mSwapchain r);
     set_vk (\<lambda>r. r\<lparr>mDepthImageView := 0, mDepthImage := 0, mDepthMemory := 0, mGraphicsPipeline := 0,
       mPipelineLayout := 0, mRenderPass := 0, mSwapchain := 0\<rparr>) }"

text \<open>The results of the five steps are not looked at.\<close>

definition recreateSwapchain :: "vk_driver \<Rightarrow> unit vkm" where
  "recreateSwapchain D = do {
     vk_emit WaitedIdle;
     cleanupSwapchain;
     createSwapchain D;
     createRenderPass D;
     createDepthResources D;
     createFramebuffers D;
     createGraphicsPipeline D;
     vret () }"

definition stopRenderLoop :: "unit vkm" where
  "stopRenderLoop = do {
     set_vk (\<lambda>r. r\<lparr>mRendering := False\<rparr>);
     set_vk (\<lambda>r. if mRenderThread r then r\<lparr>mRenderThread := False\<rparr> else r) }"

definition release_device :: "unit vkm" where
  "release_device = do {
     vk_emit WaitedIdle;
     cleanupSwapchain;
     r \<leftarrow> this_vk;
     destroy_if VkDescriptorPool (mDescriptorPool r);
     destroy_if VkSetLayout (mDescriptorSetLayout r);
     destroy_if VkBuffer (mUniformBuffer r);
     destroy_if VkMemory (mUniformBufferMemory r);
     destroy_if VkBuffer (mIndexBuffer r);
     destroy_if VkMemory (mIndexBufferMemory r);
     destroy_if VkBuffer (mVertexBuffer r);
     destroy_if VkMemory (mVertexBufferMemory r);
     destroy_all VkSemaphore (mImageAvailableSemaphores r);
     destroy_all VkSemaphore (mRenderFinishedSemaphores r);
     destroy_all VkFence (mInFlightFences r);
     destroy_if VkCommandPool (mCommandPool r);
     destroy VkDevice (mDevice r) }"

definition vk_shutdown :: "unit vkm" where
  "vk_shutdown = do {
     stopRenderLoop;
     r \<leftarrow> this_vk;
     (if mDevice r \<noteq> 0 then release_device else vret ());
     (if mSurface r \<noteq> 0 \<and> mInstance r \<noteq> 0 then destroy VkSurface (mSurface r) else vret ());
     destroy_if VkInstance (mInstance r);
     (if mWindow r \<noteq> 0 then vk_emit (WindowReleased (mWindow r)) else vret ()) }"

section \<open>One frame\<close>

text \<open>
  \<open>Blocked\<close>: the wait for the frame's fence never returns. \<open>Undefined\<close>: a vector is read out
  of its range, or the matrix is copied without a mapping.
\<close>

datatype frame_outcome = Drawn | Recreated | Blocked | Undefined

definition identity4 :: matrix where
  "identity4 = [1, 0, 0, 0, 0, 1, 0, 0, 0, 0, 1, 0, 0, 0, 0, 1]"

text \<open>\<open>proj[1][1] *= -1\<close>: the second entry of the second column.\<close>

definition flip_y :: "matrix \<Rightarrow> matrix" where
  "flip_y m = m[5 := m ! 5 * - 1]"

definition frame_matrix :: "glm \<Rightarrow> vk_renderer \<Rightarrow> matrix" where
  "frame_matrix G r =
    (let model = gl_rotate G (gl_rotate G identity4 (fl_add G (mAutoRotation r) (mRotationY r)) (0, 1, 0)) (mRotationX r) (1, 0, 0);
         view = gl_lookAt G (5 / 2, 5 / 2, 5 / 2) (0, 0, 0) (0, 1, 0);
         aspect = fl_aspect G (fst (mSwapchainExtent r)) (snd (mSwapchainExtent r));
         proj = flip_y (gl_perspective G (gl_radians G 45) aspect (1 / 10) 100)
     in gl_times G (gl_times G proj view) model)"

definition updateUniformBuffer :: "glm \<Rightarrow> bool vkm" where
  "updateUniformBuffer G = do {
     set_vk (\<lambda>r. r\<lparr>mAutoRotation := fl_add G (mAutoRotation r) (1 / 100)\<rparr>);
     r \<leftarrow> this_vk;
     case mUniformBufferMapped r of
       None \<Rightarrow> do { vk_emit WildWrite; vret False }
     | Some m \<Rightarrow> do { vk_emit (Uploaded m (Uniforms (frame_matrix G r))); vret True } }"

definition cube_commands :: "vk_renderer \<Rightarrow> nat \<Rightarrow> vk_command list" where
  "cube_commands r framebuffer =
    [CmdBeginRenderPass (mRenderPass r) framebuffer (mSwapchainExtent r) [1 / 10, 1 / 10, 3 / 20, 1] (1, 0),
     CmdBindPipeline (mGraphicsPipeline r),
     CmdSetViewport (mSwapchainExtent r),
     CmdSetScissor (mSwapchainExtent r),
     CmdBindVertexBuffers (mVertexBuffer r),
     CmdBindIndexBuffer (mIndexBuffer r),
     CmdBindDescriptorSets (mPipelineLayout r) (mDescriptorSet r),
     CmdDrawIndexed (mIndexCount r),
     CmdEndRenderPass]"

definition recordCommandBuffer :: "nat \<Rightarrow> nat \<Rightarrow> bool vkm" where
  "recordCommandBuffer cmd imageIndex = do {
     r \<leftarrow> this_vk;
     if imageIndex < length (mFramebuffers r)
     then do { vk_emit (Recorded cmd (cube_commands r (mFramebuffers r ! imageIndex))); vret True }
     else vret False }"

text \<open>Whether the vectors have an element for the current frame.\<close>

definition frame_ready :: "vk_renderer \<Rightarrow> bool" where
  "frame_ready r \<longleftrightarrow> mCurrentFrame r < length (mInFlightFences r) \<and> mCurrentFrame r < length (mImageAvailableSemaphores r) \<and>
     mCurrentFrame r < length (mRenderFinishedSemaphores r) \<and> mCurrentFrame r < length (mCommandBuffers r)"

text \<open>From the recorded commands on: submit, present, next frame.\<close>

definition submit_frame :: "vk_driver \<Rightarrow> nat \<Rightarrow> unit vkm" where
  "submit_frame D imageIndex = do {
     r \<leftarrow> this_vk;
     l \<leftarrow> history;
     let i = mCurrentFrame r;
     vk_emit (Submitted (mCommandBuffers r ! i) (mImageAvailableSemaphores r ! i) (mRenderFinishedSemaphores r ! i)
       (mInFlightFences r ! i) (dr_submit D l));
     vk_emit (Presented (mSwapchain r) (mRenderFinishedSemaphores r ! i) imageIndex);
     set_vk (\<lambda>r. r\<lparr>mCurrentFrame := (mCurrentFrame r + 1) mod MAX_FRAMES_IN_FLIGHT\<rparr>) }"

definition draw_image :: "vk_driver \<Rightarrow> glm \<Rightarrow> nat \<Rightarrow> frame_outcome vkm" where
  "draw_image D G imageIndex = do {
     r \<leftarrow> this_vk;
     vk_emit (ResetFence (mInFlightFences r ! mCurrentFrame r));
     written \<leftarrow> updateUniformBuffer G;
     if \<not> written then vret Undefined
     else do {
       recorded \<leftarrow> recordCommandBuffer (mCommandBuffers r ! mCurrentFrame r) imageIndex;
       if \<not> recorded then vret Undefined
       else do { submit_frame D imageIndex; vret Drawn } } }"

definition renderFrame :: "vk_driver \<Rightarrow> glm \<Rightarrow> frame_outcome vkm" where
  "renderFrame D G = do {
     r \<leftarrow> this_vk;
     if \<not> frame_ready r then vret Undefined
     else do {
       l \<leftarrow> history;
       if \<not> dr_wait D l (mInFlightFences r ! mCurrentFrame r) then vret Blocked
       else do {
         vk_emit (WaitedFence (mInFlightFences r ! mCurrentFrame r));
         l \<leftarrow> history;
         let (result, imageIndex) = dr_acquire D l (mSwapchain r);
         vk_emit (Acquired (mImageAvailableSemaphores r ! mCurrentFrame r) result imageIndex);
         if result = VK_OUT_OF_DATE then do { recreateSwapchain D; vret Recreated }
         else draw_image D G imageIndex } } }"

section \<open>The render thread\<close>

text \<open>Whether a thread was started.\<close>

definition startRenderLoop :: "bool vkm" where
  "startRenderLoop = do {
     r \<leftarrow> this_vk;
     set_vk (\<lambda>r. r\<lparr>mRendering := True\<rparr>);
     if mRendering r then vret False
     else do { set_vk (\<lambda>r. r\<lparr>mRenderThread := True\<rparr>); vret True } }"

definition setRotation :: "rat \<Rightarrow> rat \<Rightarrow> unit vkm" where
  "setRotation angleX angleY = set_vk (\<lambda>r. r\<lparr>mRotationX := angleX, mRotationY := angleY\<rparr>)"

text \<open>
  \<open>renderLoop\<close> while \<open>mRendering\<close> stays set, for at most \<open>n\<close> frames; it ends early where the
  thread never comes back or what follows is undefined.
\<close>

fun renderLoop :: "vk_driver \<Rightarrow> glm \<Rightarrow> nat \<Rightarrow> frame_outcome list vkm" where
  "renderLoop D G 0 = vret []"
| "renderLoop D G (Suc n) = do {
     out \<leftarrow> renderFrame D G;
     if out = Blocked \<or> out = Undefined then vret [out]
     else do { outs \<leftarrow> renderLoop D G n; vret (out # outs) } }"

section \<open>The entry points\<close>

text \<open>
  The context is the renderer, \<open>None\<close> for 0. Deleting it runs the destructor, which shuts
  the renderer down.
\<close>

definition nativeInit :: "vk_driver \<Rightarrow> vk_event list \<Rightarrow> vk_renderer option \<times> vk_event list" where
  "nativeInit D l = (case run_state (vk_initialize D) (vk_renderer_init, l) of
     (True, (r, l')) \<Rightarrow> (Some r, l')
   | (False, (r, l')) \<Rightarrow> (None, snd (snd (run_state vk_shutdown (r, l')))))"

definition nativeDestroy :: "vk_renderer option \<Rightarrow> vk_event list \<Rightarrow> vk_event list" where
  "nativeDestroy ctx l = (case ctx of
     None \<Rightarrow> l
   | Some r \<Rightarrow> snd (snd (run_state (do { vk_shutdown; vk_shutdown }) (r, l))))"

text \<open>\<open>window\<close>: what \<open>ANativeWindow_fromSurface\<close> returns, with a reference.\<close>

definition nativeSetSurface :: "vk_driver \<Rightarrow> nat option \<Rightarrow> int \<Rightarrow> int \<Rightarrow> vk_renderer option \<Rightarrow> vk_event list \<Rightarrow>
    bool \<times> vk_renderer option \<times> vk_event list" where
  "nativeSetSurface D window width height ctx l = (case (ctx, window) of
     (Some r, Some w) \<Rightarrow>
       (case run_state (setSurface D w width height) (r, WindowTaken w # l) of (ok, (r', l')) \<Rightarrow> (ok, Some r', l'))
   | _ \<Rightarrow> (False, ctx, l))"

definition nativeStartRendering :: "vk_renderer option \<Rightarrow> vk_renderer option" where
  "nativeStartRendering = map_option (\<lambda>r. fst (snd (run_state startRenderLoop (r, []))))"

definition nativeStopRendering :: "vk_renderer option \<Rightarrow> vk_renderer option" where
  "nativeStopRendering = map_option (\<lambda>r. fst (snd (run_state stopRenderLoop (r, []))))"

definition nativeSetRotation :: "rat \<Rightarrow> rat \<Rightarrow> vk_renderer option \<Rightarrow> vk_renderer option" where
  "nativeSetRotation x y = map_option (\<lambda>r. fst (snd (run_state (setRotation x y) (r, []))))"

end
