(* ===== verification/Vulkan_Ownership.thy ===== *)
theory Vulkan_Ownership
  imports Vulkan_Renderer
begin

text \<open>
  Who owns what: every Vulkan object that exists is held by exactly one member of the
  renderer, through every creation that fails half-way and every recreation of the
  swapchain, so that shutting down once destroys each object once, children first.
\<close>

section \<open>The objects that exist\<close>

text \<open>Read off the history, newest event first. Destroying a null handle has no effect.\<close>

type_synonym vk_object = "vk_kind \<times> nat"

fun objects_of :: "vk_event list \<Rightarrow> vk_object multiset" where
  "objects_of [] = {#}"
| "objects_of (Created i h # l) = add_mset (kind_of i, h) (objects_of l)"
| "objects_of (Destroyed k h # l) = (if h = 0 then objects_of l else objects_of l - {#(k, h)#})"
| "objects_of (WindowTaken w # l) = add_mset (NativeWindow, w) (objects_of l)"
| "objects_of (WindowReleased w # l) = objects_of l - {#(NativeWindow, w)#}"
| "objects_of (_ # l) = objects_of l"

text \<open>
  What a destruction needs: the object exists; with a device, only its parents and siblings
  are left, or shader modules; with an instance, no device and no surface.
\<close>

definition may_destroy :: "vk_kind \<Rightarrow> vk_object multiset \<Rightarrow> bool" where
  "may_destroy k L = (case k of
     VkDevice \<Rightarrow> \<forall>x \<in># L. fst x \<in> {VkInstance, VkSurface, NativeWindow, VkShaderModule}
   | VkInstance \<Rightarrow> \<forall>x \<in># L. fst x \<in> {NativeWindow, VkShaderModule}
   | _ \<Rightarrow> True)"

fun destroys_ok :: "vk_event list \<Rightarrow> bool" where
  "destroys_ok [] = True"
| "destroys_ok (Destroyed k h # l) = (destroys_ok l \<and>
     (h \<noteq> 0 \<longrightarrow> (k, h) \<in># objects_of l \<and> may_destroy k (objects_of l - {#(k, h)#})))"
| "destroys_ok (WindowReleased w # l) = (destroys_ok l \<and> (NativeWindow, w) \<in># objects_of l)"
| "destroys_ok (_ # l) = destroys_ok l"

definition real_handles :: "vk_driver \<Rightarrow> bool" where
  "real_handles D \<longleftrightarrow> (\<forall>l i h. dr_create D l i = Some h \<longrightarrow> h \<noteq> 0)"

text \<open>What a creation that failed half-way can leave: shader modules, if a driver refuses one.\<close>

definition leftover :: "vk_driver \<Rightarrow> vk_object multiset \<Rightarrow> bool" where
  "leftover D M \<longleftrightarrow> (\<forall>x \<in># M. fst x = VkShaderModule) \<and> ((\<forall>l c n. dr_create D l (ShaderInfo c n) \<noteq> None) \<longrightarrow> M = {#})"

lemma leftover_empty [simp]: "leftover D {#}"
  by (simp add: leftover_def)

lemma leftover_plus: "leftover D M \<Longrightarrow> leftover D N \<Longrightarrow> leftover D (M + N)"
  by (auto simp: leftover_def)

section \<open>The members that hold them\<close>

datatype part = PInstance | PDevice | PSurface | PSwapchain | PViews | PRenderPass | PFramebuffers | PDepthImage |
  PDepthMemory | PDepthView | PPipelineLayout | PPipeline | PVertexBuffer | PVertexMemory | PIndexBuffer | PIndexMemory |
  PUniformBuffer | PUniformMemory | PSetLayout | PDescriptorPool | PCommandPool | PAvailable | PFinished | PFences | PWindow

fun part_kind :: "part \<Rightarrow> vk_kind" where
  "part_kind PInstance = VkInstance" | "part_kind PDevice = VkDevice" | "part_kind PSurface = VkSurface"
| "part_kind PSwapchain = VkSwapchain" | "part_kind PViews = VkImageView" | "part_kind PRenderPass = VkRenderPass"
| "part_kind PFramebuffers = VkFramebuffer" | "part_kind PDepthImage = VkImage" | "part_kind PDepthMemory = VkMemory"
| "part_kind PDepthView = VkImageView" | "part_kind PPipelineLayout = VkPipelineLayout" | "part_kind PPipeline = VkPipeline"
| "part_kind PVertexBuffer = VkBuffer" | "part_kind PVertexMemory = VkMemory" | "part_kind PIndexBuffer = VkBuffer"
| "part_kind PIndexMemory = VkMemory" | "part_kind PUniformBuffer = VkBuffer" | "part_kind PUniformMemory = VkMemory"
| "part_kind PSetLayout = VkSetLayout" | "part_kind PDescriptorPool = VkDescriptorPool"
| "part_kind PCommandPool = VkCommandPool" | "part_kind PAvailable = VkSemaphore" | "part_kind PFinished = VkSemaphore"
| "part_kind PFences = VkFence" | "part_kind PWindow = NativeWindow"

fun handles :: "part \<Rightarrow> vk_renderer \<Rightarrow> nat list" where
  "handles PInstance r = [mInstance r]" | "handles PDevice r = [mDevice r]" | "handles PSurface r = [mSurface r]"
| "handles PSwapchain r = [mSwapchain r]" | "handles PViews r = mSwapchainImageViews r" | "handles PRenderPass r = [mRenderPass r]"
| "handles PFramebuffers r = mFramebuffers r" | "handles PDepthImage r = [mDepthImage r]" | "handles PDepthMemory r = [mDepthMemory r]"
| "handles PDepthView r = [mDepthImageView r]" | "handles PPipelineLayout r = [mPipelineLayout r]"
| "handles PPipeline r = [mGraphicsPipeline r]" | "handles PVertexBuffer r = [mVertexBuffer r]"
| "handles PVertexMemory r = [mVertexBufferMemory r]" | "handles PIndexBuffer r = [mIndexBuffer r]"
| "handles PIndexMemory r = [mIndexBufferMemory r]" | "handles PUniformBuffer r = [mUniformBuffer r]"
| "handles PUniformMemory r = [mUniformBufferMemory r]" | "handles PSetLayout r = [mDescriptorSetLayout r]"
| "handles PDescriptorPool r = [mDescriptorPool r]" | "handles PCommandPool r = [mCommandPool r]"
| "handles PAvailable r = mImageAvailableSemaphores r" | "handles PFinished r = mRenderFinishedSemaphores r"
| "handles PFences r = mInFlightFences r" | "handles PWindow r = [mWindow r]"

definition held :: "vk_kind \<Rightarrow> nat list \<Rightarrow> vk_object multiset" where
  "held k hs = mset (map (Pair k) (filter (\<lambda>h. h \<noteq> 0) hs))"

lemma held_simps [simp]:
  "held k [] = {#}"
  "held k (h # hs) = (if h = 0 then held k hs else add_mset (k, h) (held k hs))"
  by (simp_all add: held_def)

lemma held_append [simp]: "held k (xs @ ys) = held k xs + held k ys"
  by (simp add: held_def)

lemma held_replicate [simp]: "held k (replicate n 0) = {#}"
  by (induction n) auto

lemma held_empty_iff: "held k hs = {#} \<longleftrightarrow> (\<forall>h \<in> set hs. h = 0)"
  by (induction hs) auto

lemma held_update: "i < length hs \<Longrightarrow> hs ! i = 0 \<Longrightarrow> held k (hs[i := h]) = held k hs + held k [h]"
  by (induction hs arbitrary: i) (auto split: nat.splits)

lemma held_kind: "x \<in># held k hs \<Longrightarrow> fst x = k"
  by (auto simp: held_def)

definition owned_by :: "part \<Rightarrow> vk_renderer \<Rightarrow> vk_object multiset" where
  "owned_by p r = held (part_kind p) (handles p r)"

definition all_parts :: "part list" where
  "all_parts = [PInstance, PDevice, PSurface, PSwapchain, PViews, PRenderPass, PFramebuffers, PDepthImage, PDepthMemory,
     PDepthView, PPipelineLayout, PPipeline, PVertexBuffer, PVertexMemory, PIndexBuffer, PIndexMemory, PUniformBuffer,
     PUniformMemory, PSetLayout, PDescriptorPool, PCommandPool, PAvailable, PFinished, PFences, PWindow]"

lemma all_parts: "set all_parts = UNIV" "distinct all_parts"
proof -
  have "p \<in> set all_parts" for p by (cases p) (simp_all add: all_parts_def)
  then show "set all_parts = UNIV" by auto
qed (simp add: all_parts_def)

lemma finite_parts [simp]: "finite (P :: part set)"
  using all_parts(1) by (metis List.finite_set rev_finite_subset subset_UNIV)

definition owned :: "part set \<Rightarrow> vk_renderer \<Rightarrow> vk_object multiset" where
  "owned P r = (\<Sum>p\<in>P. owned_by p r)"

lemma owned_simps [simp]:
  "owned {} r = {#}"
  "p \<notin> P \<Longrightarrow> owned (insert p P) r = owned_by p r + owned P r"
  by (simp_all add: owned_def)

lemma owned_cong: "(\<And>p. p \<in> P \<Longrightarrow> handles p r = handles p r') \<Longrightarrow> owned P r = owned P r'"
  unfolding owned_def by (rule sum.cong) (auto simp: owned_by_def)

lemma owned_union: "P \<inter> Q = {} \<Longrightarrow> owned (P \<union> Q) r = owned P r + owned Q r"
  by (simp add: owned_def sum.union_disjoint)

lemma owned_none: "(\<And>p. p \<in> P \<Longrightarrow> owned_by p r = {#}) \<Longrightarrow> owned P r = {#}"
  by (simp add: owned_def)

lemma owned_split: "owned UNIV r = owned P r + owned (- P) r"
  by (metis Compl_partition Int_commute inf_compl_bot owned_union)

section \<open>Actions that fill empty members\<close>

text \<open>
  \<open>makes D P m\<close>: started with the members of \<open>P\<close> empty, \<open>m\<close> touches no other member, and
  what exists afterwards is what existed before, what is now in \<open>P\<close>, and leftovers.
\<close>

definition makes :: "vk_driver \<Rightarrow> part set \<Rightarrow> 'a vkm \<Rightarrow> bool" where
  "makes D P m \<longleftrightarrow> (\<forall>r l a r' l'. (\<forall>p\<in>P. owned_by p r = {#}) \<longrightarrow> run_state m (r, l) = (a, (r', l')) \<longrightarrow>
     (\<forall>q. q \<notin> P \<longrightarrow> handles q r' = handles q r) \<and>
     (\<exists>M. leftover D M \<and> objects_of l' = objects_of l + owned P r' + M) \<and>
     (destroys_ok l \<longrightarrow> destroys_ok l'))"

lemma makesD:
  assumes "makes D P m" "run_state m (r, l) = (a, (r', l'))" "\<And>p. p \<in> P \<Longrightarrow> owned_by p r = {#}"
  shows "\<And>q. q \<notin> P \<Longrightarrow> handles q r' = handles q r"
    "\<exists>M. leftover D M \<and> objects_of l' = objects_of l + owned P r' + M"
    "destroys_ok l \<Longrightarrow> destroys_ok l'"
  using assms unfolding makes_def by blast+

lemma makesI:
  assumes "\<And>r l a r' l'. (\<And>p. p \<in> P \<Longrightarrow> owned_by p r = {#}) \<Longrightarrow> run_state m (r, l) = (a, (r', l')) \<Longrightarrow>
     (\<forall>q. q \<notin> P \<longrightarrow> handles q r' = handles q r) \<and>
     (\<exists>M. leftover D M \<and> objects_of l' = objects_of l + owned P r' + M) \<and> (destroys_ok l \<longrightarrow> destroys_ok l')"
  shows "makes D P m"
  unfolding makes_def using assms by blast

named_theorems making \<open>actions that fill empty members\<close>

lemma makes_return [making]: "makes D {} (vret a)"
  by (rule makesI) (auto intro: exI [of _ "{#}"])

lemma makes_weaken:
  assumes "makes D P m" "P \<subseteq> Q"
  shows "makes D Q m"
proof (rule makesI)
  fix r l a r' l'
  assume none: "\<And>p. p \<in> Q \<Longrightarrow> owned_by p r = {#}" and run: "run_state m (r, l) = (a, (r', l'))"
  have P: "\<And>p. p \<in> P \<Longrightarrow> owned_by p r = {#}" using none assms(2) by auto
  note made = makesD [OF assms(1) run P]
  have "owned (Q - P) r' = {#}"
    using made(1) none by (intro owned_none) (auto simp: owned_by_def)
  then have "owned Q r' = owned P r'"
    using owned_union [of P "Q - P" r'] assms(2) by (simp add: Un_absorb1)
  then show "(\<forall>q. q \<notin> Q \<longrightarrow> handles q r' = handles q r) \<and>
     (\<exists>M. leftover D M \<and> objects_of l' = objects_of l + owned Q r' + M) \<and> (destroys_ok l \<longrightarrow> destroys_ok l')"
    using made assms(2) by auto
qed

lemma makes_bind:
  assumes "makes D P m" "\<And>a. makes D Q (f a)" "P \<inter> Q = {}"
  shows "makes D (P \<union> Q) (State_Monad.bind m f)"
proof (rule makesI)
  fix r l b r2 l2
  assume none: "\<And>p. p \<in> P \<union> Q \<Longrightarrow> owned_by p r = {#}" and "run_state (State_Monad.bind m f) (r, l) = (b, (r2, l2))"
  then obtain a r1 l1 where run1: "run_state m (r, l) = (a, (r1, l1))" and run2: "run_state (f a) (r1, l1) = (b, (r2, l2))"
    by (auto split: prod.splits)
  have P: "\<And>p. p \<in> P \<Longrightarrow> owned_by p r = {#}" using none by auto
  note first = makesD [OF assms(1) run1 P]
  have Q: "\<And>p. p \<in> Q \<Longrightarrow> owned_by p r1 = {#}" proof -
    fix p assume "p \<in> Q"
    then have "p \<notin> P" "owned_by p r = {#}" using assms(3) none by auto
    then show "owned_by p r1 = {#}" using first(1) by (simp add: owned_by_def)
  qed
  note second = makesD [OF assms(2) run2 Q]
  obtain M where M: "leftover D M" "objects_of l1 = objects_of l + owned P r1 + M" using first(2) by blast
  obtain N where N: "leftover D N" "objects_of l2 = objects_of l1 + owned Q r2 + N" using second(2) by blast
  have "owned P r2 = owned P r1" by (rule owned_cong) (use second(1) assms(3) in auto)
  then have "objects_of l2 = objects_of l + owned (P \<union> Q) r2 + (M + N)"
    using M(2) N(2) by (simp add: owned_union [OF assms(3)] ac_simps)
  then show "(\<forall>q. q \<notin> P \<union> Q \<longrightarrow> handles q r2 = handles q r) \<and>
     (\<exists>M. leftover D M \<and> objects_of l2 = objects_of l + owned (P \<union> Q) r2 + M) \<and> (destroys_ok l \<longrightarrow> destroys_ok l2)"
    using first(1,3) second(1,3) leftover_plus [OF M(1) N(1)] by auto
qed

lemma makes_if: "makes D P m \<Longrightarrow> makes D P n \<Longrightarrow> makes D P (if b then m else n)"
  by simp

lemma makes_this: "(\<And>r. makes D P (f r)) \<Longrightarrow> makes D P (State_Monad.bind this_vk f)"
  by (simp add: this_vk_def makes_def)

lemma makes_history: "(\<And>l. makes D P (f l)) \<Longrightarrow> makes D P (State_Monad.bind history f)"
  by (simp add: history_def makes_def)

lemma makes_option: "makes D P m \<Longrightarrow> (\<And>a. makes D P (f a)) \<Longrightarrow> makes D P (case x of None \<Rightarrow> m | Some a \<Rightarrow> f a)"
  by (cases x) auto

lemma makes_set:
  assumes "\<And>r. list_all (\<lambda>q. handles q (f r) = handles q r) all_parts"
  shows "makes D {} (set_vk f)"
proof -
  have "handles q (f r) = handles q r" for q r using assms [of r] all_parts(1) by (simp add: list_all_iff)
  then show ?thesis by (intro makesI) (auto simp: set_vk_def intro: exI [of _ "{#}"])
qed

text \<open>An event that neither creates nor destroys.\<close>

definition quiet :: "vk_event \<Rightarrow> bool" where
  "quiet e \<longleftrightarrow> (\<forall>l. objects_of (e # l) = objects_of l \<and> destroys_ok (e # l) = destroys_ok l)"

lemma makes_emit: "quiet e \<Longrightarrow> makes D {} (vk_emit e)"
  by (rule makesI) (auto simp: vk_emit_def quiet_def intro: exI [of _ "{#}"])

lemma makes_emit' [making]: "quiet e \<Longrightarrow> makes D Q m \<Longrightarrow> makes D Q (State_Monad.bind (vk_emit e) (\<lambda>_. m))"
  using makes_bind [OF makes_emit [of e D], of Q "\<lambda>_. m"] by simp

lemma quiet_events [simp]:
  "quiet (CreateFailed info)" "quiet (WindowGeometry w x y)" "quiet (Bound k h m)" "quiet (Uploaded m u)" "quiet WildWrite"
  "quiet (SetAllocated a b c)" "quiet (SetUpdated a b)" "quiet (CommandsAllocated p bs)" "quiet WaitedIdle"
  "quiet (WaitedFence f)" "quiet (Acquired s res i)" "quiet (ResetFence f)" "quiet (Recorded b cs)"
  "quiet (Submitted b w s f ok)" "quiet (Presented c s i)"
  by (simp_all add: quiet_def)

section \<open>Creating into a member\<close>

definition stores :: "part \<Rightarrow> (nat \<Rightarrow> vk_renderer \<Rightarrow> vk_renderer) \<Rightarrow> bool" where
  "stores p st \<longleftrightarrow> (\<forall>h r. handles p (st h r) = [h]) \<and> (\<forall>h r q. q \<noteq> p \<longrightarrow> handles q (st h r) = handles q r)"

lemma storesI:
  assumes "\<And>h r. handles p (st h r) = [h]" "\<And>h r. list_all (\<lambda>q. q = p \<or> handles q (st h r) = handles q r) all_parts"
  shows "stores p st"
  using assms all_parts(1) unfolding stores_def list_all_iff by blast

lemma stores_members [simp]:
  "stores PInstance (\<lambda>h r. r\<lparr>mInstance := h\<rparr>)" "stores PDevice (\<lambda>h r. r\<lparr>mDevice := h\<rparr>)"
  "stores PSurface (\<lambda>h r. r\<lparr>mSurface := h\<rparr>)" "stores PSwapchain (\<lambda>h r. r\<lparr>mSwapchain := h\<rparr>)"
  "stores PRenderPass (\<lambda>h r. r\<lparr>mRenderPass := h\<rparr>)" "stores PDepthImage (\<lambda>h r. r\<lparr>mDepthImage := h\<rparr>)"
  "stores PDepthMemory (\<lambda>h r. r\<lparr>mDepthMemory := h\<rparr>)" "stores PDepthView (\<lambda>h r. r\<lparr>mDepthImageView := h\<rparr>)"
  "stores PPipelineLayout (\<lambda>h r. r\<lparr>mPipelineLayout := h\<rparr>)" "stores PPipeline (\<lambda>h r. r\<lparr>mGraphicsPipeline := h\<rparr>)"
  "stores PVertexBuffer (\<lambda>h r. r\<lparr>mVertexBuffer := h\<rparr>)" "stores PVertexMemory (\<lambda>h r. r\<lparr>mVertexBufferMemory := h\<rparr>)"
  "stores PIndexBuffer (\<lambda>h r. r\<lparr>mIndexBuffer := h\<rparr>)" "stores PIndexMemory (\<lambda>h r. r\<lparr>mIndexBufferMemory := h\<rparr>)"
  "stores PUniformBuffer (\<lambda>h r. r\<lparr>mUniformBuffer := h\<rparr>)" "stores PUniformMemory (\<lambda>h r. r\<lparr>mUniformBufferMemory := h\<rparr>)"
  "stores PSetLayout (\<lambda>h r. r\<lparr>mDescriptorSetLayout := h\<rparr>)" "stores PDescriptorPool (\<lambda>h r. r\<lparr>mDescriptorPool := h\<rparr>)"
  "stores PCommandPool (\<lambda>h r. r\<lparr>mCommandPool := h\<rparr>)"
  by (rule storesI; simp add: all_parts_def)+

lemma makes_created:
  assumes D: "real_handles D" and p: "stores p st" "part_kind p = kind_of info" "p \<notin> Q"
    and n: "makes D {} n" and k: "\<And>h. makes D Q (k h)"
  shows "makes D (insert p Q) (State_Monad.bind (create D info) (\<lambda>x. case x of
     None \<Rightarrow> n | Some h \<Rightarrow> State_Monad.bind (set_vk (st h)) (\<lambda>_. k h)))"
proof (rule makesI)
  fix r l a r' l'
  assume none: "\<And>q. q \<in> insert p Q \<Longrightarrow> owned_by q r = {#}"
    and run: "run_state (State_Monad.bind (create D info) (\<lambda>x. case x of
     None \<Rightarrow> n | Some h \<Rightarrow> State_Monad.bind (set_vk (st h)) (\<lambda>_. k h))) (r, l) = (a, (r', l'))"
  show "(\<forall>q. q \<notin> insert p Q \<longrightarrow> handles q r' = handles q r) \<and>
     (\<exists>M. leftover D M \<and> objects_of l' = objects_of l + owned (insert p Q) r' + M) \<and> (destroys_ok l \<longrightarrow> destroys_ok l')"
  proof (cases "dr_create D l info")
    case None
    then have "run_state n (r, CreateFailed info # l) = (a, (r', l'))" using run by (simp add: create_def)
    note made = makesD [OF makes_weaken [OF n empty_subsetI [of "insert p Q"]] this none]
    show ?thesis using made by simp
  next
    case (Some h)
    then have rest: "run_state (k h) (st h r, Created info h # l) = (a, (r', l'))" using run by (simp add: create_def set_vk_def)
    have empty: "\<And>q. q \<in> Q \<Longrightarrow> owned_by q (st h r) = {#}"
    proof -
      fix q assume q: "q \<in> Q"
      then have "q \<noteq> p" using p(3) by auto
      then show "owned_by q (st h r) = {#}" using none [of q] p(1) q by (simp add: owned_by_def stores_def)
    qed
    note made = makesD [OF k rest empty]
    have "owned_by p r' = {#(kind_of info, h)#}"
      using made(1) p Some D by (auto simp: owned_by_def stores_def real_handles_def)
    then show ?thesis using made p by (auto simp: stores_def ac_simps)
  qed
qed

lemma makes_create_into [making]:
  assumes "real_handles D" "stores p st" "part_kind p = kind_of info"
  shows "makes D {p} (create_into D info st)"
  unfolding create_into_def using assms by (intro makes_created) (auto intro: makes_return)

lemma makes_allocate [making]:
  assumes "real_handles D" "stores p st" "part_kind p = VkMemory"
  shows "makes D {p} (allocate_for D kind obj props st)"
proof -
  have "makes D {p} (State_Monad.bind (create D (MemoryInfo a b)) (\<lambda>x. case x of None \<Rightarrow> vret False
     | Some m \<Rightarrow> State_Monad.bind (set_vk (st m)) (\<lambda>_. State_Monad.bind (vk_emit (Bound kind obj m)) (\<lambda>_. vret True))))" for a b
    using assms by (intro makes_created makes_emit' makes_return) auto
  then show ?thesis
    unfolding allocate_for_def by (intro makes_this makes_history) (simp add: Let_def split_beta)
qed

lemma makes_buffer [making]:
  assumes "real_handles D" "stores p st" "part_kind p = VkBuffer" "stores q st'" "part_kind q = VkMemory"
  shows "makes D {p, q} (createBuffer D bytes usage props st st')"
  unfolding createBuffer_def using assms by (intro makes_created making) auto

lemma makes_image [making]:
  assumes "real_handles D" "stores p st" "part_kind p = VkImage" "stores q st'" "part_kind q = VkMemory"
  shows "makes D {p, q} (createImage D w h f u props st st')"
  unfolding createImage_def using assms by (intro makes_created making) auto

text \<open>A view that is stored whether it exists or not.\<close>

lemma makes_view [making]:
  assumes D: "real_handles D" and p: "stores p st" "part_kind p = VkImageView"
  shows "makes D {p} (State_Monad.bind (createImageView D i f a) (\<lambda>v. State_Monad.bind (set_vk (st v)) (\<lambda>_. vret (c v))))"
  using assms by (intro makesI)
    (auto simp: createImageView_def create_def set_vk_def stores_def owned_by_def real_handles_def split: option.splits
       intro: exI [of _ "{#}"])

section \<open>The steps of the renderer\<close>

lemma makes_join: "makes D P m \<Longrightarrow> (\<And>a. makes D Q (f a)) \<Longrightarrow> P \<inter> Q = {} \<Longrightarrow> R = P \<union> Q \<Longrightarrow> makes D R (State_Monad.bind m f)"
  by (simp add: makes_bind)

lemma makes_ok_then:
  assumes "makes D P m" "makes D Q n" "P \<inter> Q = {}" "R = P \<union> Q"
  shows "makes D R (State_Monad.bind m (\<lambda>ok. if \<not> ok then vret False else n))"
  using assms by (intro makes_join [OF assms(1), where Q = Q]) (auto intro: makes_weaken [OF makes_return])

lemma makes_all_ok:
  assumes "list_all2 (makes D) Ps ms" "distinct (concat (map (\<lambda>P. filter (\<lambda>p. p \<in> P) all_parts) Ps))"
  shows "makes D (\<Union> (set Ps)) (all_ok ms)"
  using assms
proof (induction rule: list_all2_induct)
  case Nil
  then show ?case by (simp add: makes_return)
next
  case (Cons P Ps m ms)
  have "P \<inter> \<Union> (set Ps) = {}" using Cons.prems all_parts(1) by auto
  then show ?case using Cons by (auto intro: makes_ok_then)
qed

lemma makes_instance: "real_handles D \<Longrightarrow> makes D {PInstance} (createInstance D)"
  unfolding createInstance_def by (rule makes_create_into) auto

lemma makes_physical: "makes D {} (pickPhysicalDevice D)"
  unfolding pickPhysicalDevice_def
proof (rule makes_this)
  fix r
  have "makes D {} (State_Monad.bind (set_vk (\<lambda>r. r\<lparr>mPhysicalDevice := d\<rparr>)) (\<lambda>_. vret True))" for d
    by (rule makes_join [OF makes_set makes_return]) (simp_all add: all_parts_def)
  then show "makes D {} (case dr_physicalDevices D (mInstance r) of [] \<Rightarrow> vret False
     | d # xs \<Rightarrow> State_Monad.bind (set_vk (\<lambda>r. r\<lparr>mPhysicalDevice := d\<rparr>)) (\<lambda>_. vret True))"
    by (auto simp: makes_return split: list.splits)
qed

lemma makes_device: "real_handles D \<Longrightarrow> makes D {PDevice} (createDevice D)"
  unfolding createDevice_def
  by (rule makes_join [OF makes_set makes_this], simp add: all_parts_def, rule makes_create_into) auto

lemma makes_initialize: "real_handles D \<Longrightarrow> makes D {PInstance, PDevice} (vk_initialize D)"
  unfolding vk_initialize_def
  using makes_all_ok [of D "[{PInstance}, {}, {PDevice}]" "[createInstance D, pickPhysicalDevice D, createDevice D]"]
    makes_instance makes_physical makes_device
  by (simp add: all_parts_def insert_commute del: all_ok.simps)

lemma makes_surface: "real_handles D \<Longrightarrow> makes D {PSurface} (createSurface D)"
  unfolding createSurface_def by (intro makes_this makes_create_into) auto

lemma makes_render_pass: "real_handles D \<Longrightarrow> makes D {PRenderPass} (createRenderPass D)"
  unfolding createRenderPass_def by (intro makes_create_into) auto

lemma makes_depth: "real_handles D \<Longrightarrow> makes D {PDepthImage, PDepthMemory, PDepthView} (createDepthResources D)"
  unfolding createDepthResources_def
  by (intro makes_this makes_ok_then [OF makes_image [where p = PDepthImage and q = PDepthMemory]
        makes_this [OF makes_view [where p = PDepthView]]]) auto

lemma makes_set_layout: "real_handles D \<Longrightarrow> makes D {PSetLayout} (createDescriptorSetLayout D)"
  unfolding createDescriptorSetLayout_def by (intro makes_create_into) auto

lemma makes_descriptor_pool: "real_handles D \<Longrightarrow> makes D {PDescriptorPool} (createDescriptorPool D)"
  unfolding createDescriptorPool_def by (intro makes_create_into) auto

lemma makes_command_pool: "real_handles D \<Longrightarrow> makes D {PCommandPool} (createCommandPool D)"
  unfolding createCommandPool_def by (intro makes_this makes_create_into) auto

lemma makes_upload: "makes D {} (State_Monad.bind (upload_to D m u) (\<lambda>_. vret b))"
  unfolding upload_to_def by (intro makes_join [OF makes_history [OF makes_emit] makes_return]) auto

lemma makes_vertex: "real_handles D \<Longrightarrow> makes D {PVertexBuffer, PVertexMemory} (createVertexBuffer D)"
  unfolding createVertexBuffer_def
  by (intro makes_ok_then [OF makes_buffer makes_this [OF makes_upload]]) auto

lemma makes_index: "real_handles D \<Longrightarrow> makes D {PIndexBuffer, PIndexMemory} (createIndexBuffer D)"
  unfolding createIndexBuffer_def
  by (rule makes_join [OF makes_set makes_ok_then [OF makes_buffer makes_this [OF makes_upload]]])
    (auto simp: all_parts_def)

lemma makes_uniform: "real_handles D \<Longrightarrow> makes D {PUniformBuffer, PUniformMemory} (createUniformBuffer D)"
  unfolding createUniformBuffer_def
  by (rule makes_ok_then [OF makes_buffer makes_history [OF makes_join [OF makes_set makes_return]]])
    (auto simp: all_parts_def)

lemma makes_sets: "makes D {} (createDescriptorSets D)"
proof -
  have "makes D {} (State_Monad.bind (vk_emit (SetAllocated a b s)) (\<lambda>_. State_Monad.bind (set_vk (\<lambda>r. r\<lparr>mDescriptorSet := s\<rparr>))
      (\<lambda>_. State_Monad.bind (vk_emit (SetUpdated s c)) (\<lambda>_. vret True))))" for a b c s
    by (intro makes_emit' makes_join [OF makes_set makes_emit']) (auto simp: all_parts_def makes_return)
  then show ?thesis
    unfolding createDescriptorSets_def by (intro makes_this makes_history makes_option makes_return)
qed

lemma makes_command_buffers: "makes D {} (createCommandBuffers D)"
proof -
  have kept: "makes D {} (set_vk (\<lambda>r. r\<lparr>mCommandBuffers := f r\<rparr>))" for f
    by (rule makes_set) (simp add: all_parts_def)
  have "makes D {} (State_Monad.bind (vk_emit (CommandsAllocated p bs)) (\<lambda>_. State_Monad.bind (set_vk (\<lambda>r. r\<lparr>mCommandBuffers := bs\<rparr>))
      (\<lambda>_. vret True)))" for p bs
    by (intro makes_emit' makes_join [OF kept makes_return]) auto
  then show ?thesis
    unfolding createCommandBuffers_def
    by (intro makes_join [OF kept makes_this] makes_history makes_option) (auto intro: makes_return)
qed

section \<open>Members that are lists\<close>

text \<open>What exists and what the members hold change together.\<close>

definition balanced :: "vk_renderer \<Rightarrow> vk_event list \<Rightarrow> vk_renderer \<Rightarrow> vk_event list \<Rightarrow> bool" where
  "balanced r l r' l' \<longleftrightarrow> objects_of l' + owned UNIV r = objects_of l + owned UNIV r' \<and> (destroys_ok l \<longrightarrow> destroys_ok l')"

lemma balanced_refl [simp]: "balanced r l r l"
  by (simp add: balanced_def)

lemma balanced_trans:
  assumes "balanced r l r1 l1" "balanced r1 l1 r2 l2"
  shows "balanced r l r2 l2"
proof -
  have "objects_of l2 + owned UNIV r + (objects_of l1 + owned UNIV r1) = objects_of l + owned UNIV r2 + (objects_of l1 + owned UNIV r1)"
    using assms unfolding balanced_def by (metis (no_types, lifting) add.assoc add.commute)
  then show ?thesis using assms by (simp add: balanced_def)
qed

lemma owned_change:
  assumes "\<And>q. q \<noteq> p \<Longrightarrow> handles q r' = handles q r"
  shows "owned UNIV r' + owned_by p r = owned UNIV r + owned_by p r'"
proof -
  have "owned (- {p}) r' = owned (- {p}) r" by (rule owned_cong) (use assms in auto)
  then show ?thesis using owned_split [of r' "{p}"] owned_split [of r "{p}"] by (simp add: ac_simps)
qed

lemma makes_balanced:
  assumes "\<And>r l a r' l'. (\<And>p. p \<in> P \<Longrightarrow> owned_by p r = {#}) \<Longrightarrow> run_state m (r, l) = (a, (r', l')) \<Longrightarrow>
     balanced r l r' l' \<and> (\<forall>q. q \<notin> P \<longrightarrow> handles q r' = handles q r)"
  shows "makes D P m"
proof (rule makesI)
  fix r l a r' l'
  assume none: "\<And>p. p \<in> P \<Longrightarrow> owned_by p r = {#}" and run: "run_state m (r, l) = (a, (r', l'))"
  note b = assms [OF none run]
  have "owned (- P) r' = owned (- P) r" by (rule owned_cong) (use b in auto)
  moreover have "owned P r = {#}" by (rule owned_none) (rule none)
  ultimately have "objects_of l' = objects_of l + owned P r'"
    using b owned_split [of r P] owned_split [of r' P] by (simp add: balanced_def)
  then show "(\<forall>q. q \<notin> P \<longrightarrow> handles q r' = handles q r) \<and>
     (\<exists>M. leftover D M \<and> objects_of l' = objects_of l + owned P r' + M) \<and> (destroys_ok l \<longrightarrow> destroys_ok l')"
    using b by (auto simp: balanced_def intro: exI [of _ "{#}"])
qed

text \<open>\<open>puts p i m\<close>: \<open>m\<close> replaces the null handle at index \<open>i\<close> of a member.\<close>

definition puts :: "part \<Rightarrow> nat \<Rightarrow> bool vkm \<Rightarrow> bool" where
  "puts p i m \<longleftrightarrow> (\<forall>r l a r' l'. i < length (handles p r) \<longrightarrow> handles p r ! i = 0 \<longrightarrow> run_state m (r, l) = (a, (r', l')) \<longrightarrow>
     balanced r l r' l' \<and> (\<forall>q. q \<noteq> p \<longrightarrow> handles q r' = handles q r) \<and> (\<exists>h. handles p r' = (handles p r)[i := h]))"

lemma putsD:
  assumes "puts p i m" "run_state m (r, l) = (a, (r', l'))" "i < length (handles p r)" "handles p r ! i = 0"
  shows "balanced r l r' l'" "\<forall>q. q \<noteq> p \<longrightarrow> handles q r' = handles q r" "\<exists>h. handles p r' = (handles p r)[i := h]"
  using assms unfolding puts_def by blast+

lemma create_into_run:
  "run_state (create_into D info st) (r, l) = (case dr_create D l info of
     None \<Rightarrow> (False, (r, CreateFailed info # l)) | Some h \<Rightarrow> (True, (st h r, Created info h # l)))"
  by (simp add: create_into_def create_def set_vk_def split: option.splits)

lemma puts_create:
  assumes "real_handles D" "part_kind p = kind_of info"
    and at: "\<And>h r. handles p (st h r) = (handles p r)[i := h]" "\<And>h r q. q \<noteq> p \<Longrightarrow> handles q (st h r) = handles q r"
  shows "puts p i (create_into D info st)"
  unfolding puts_def
proof (intro allI impI)
  fix r l a r' l'
  assume i: "i < length (handles p r)" "handles p r ! i = 0" and run: "run_state (create_into D info st) (r, l) = (a, (r', l'))"
  show "balanced r l r' l' \<and> (\<forall>q. q \<noteq> p \<longrightarrow> handles q r' = handles q r) \<and> (\<exists>h. handles p r' = (handles p r)[i := h])"
  proof (cases "dr_create D l info")
    case None
    then have e: "r' = r" "l' = CreateFailed info # l" using run by (simp_all add: create_into_run)
    then show ?thesis using i by (auto simp: balanced_def intro!: exI [of _ 0] list_update_same_conv [THEN iffD2, symmetric])
  next
    case (Some h)
    then have e: "r' = st h r" "l' = Created info h # l" using run by (simp_all add: create_into_run)
    have h: "h \<noteq> 0" using Some assms(1) by (simp add: real_handles_def)
    have "owned_by p r' = owned_by p r + {#(kind_of info, h)#}"
      using held_update [OF i, of _ h] h by (simp add: owned_by_def e at assms(2))
    then have "owned UNIV r' = add_mset (kind_of info, h) (owned UNIV r)"
      using owned_change [of p r' r] at(2) by (simp add: e)
    then show ?thesis using at by (auto simp: balanced_def e)
  qed
qed

lemma puts_all:
  assumes "list_all2 (\<lambda>p m. puts p i m) ps ms" "distinct ps"
    and "\<And>p. p \<in> set ps \<Longrightarrow> i < length (handles p r) \<and> handles p r ! i = 0"
    and "run_state (all_ok ms) (r, l) = (a, (r', l'))"
  shows "balanced r l r' l' \<and> (\<forall>q. q \<notin> set ps \<longrightarrow> handles q r' = handles q r) \<and>
     (\<forall>p \<in> set ps. \<exists>h. handles p r' = (handles p r)[i := h])"
  using assms
proof (induction arbitrary: r l rule: list_all2_induct)
  case Nil
  then show ?case by simp
next
  case (Cons p ps m ms)
  obtain ok r1 l1 where run1: "run_state m (r, l) = (ok, (r1, l1))" by (rule prod_cases3)
  have one: "balanced r l r1 l1" "\<And>q. q \<noteq> p \<Longrightarrow> handles q r1 = handles q r" "\<exists>h. handles p r1 = (handles p r)[i := h]"
    using Cons.hyps(1) Cons.prems(2) [of p] run1 unfolding puts_def by auto
  have same: "q \<in> set ps \<Longrightarrow> handles q r1 = handles q r" for q
    by (rule one(2)) (use Cons.prems(1) in auto)
  have unchanged: "\<exists>h. handles q r = (handles q r)[i := h]" for q by (metis list_update_id)
  show ?case
  proof (cases ok)
    case False
    then have "r' = r1" "l' = l1" using Cons.prems(3) run1 by simp_all
    then show ?thesis using one same unchanged by auto
  next
    case True
    then have run2: "run_state (all_ok ms) (r1, l1) = (a, (r', l'))" using Cons.prems(3) run1 by simp
    have "balanced r1 l1 r' l' \<and> (\<forall>q. q \<notin> set ps \<longrightarrow> handles q r' = handles q r1) \<and>
        (\<forall>p \<in> set ps. \<exists>h. handles p r' = (handles p r1)[i := h])"
      by (rule Cons.IH [OF _ _ run2]) (use Cons.prems same in auto)
    then show ?thesis using one same balanced_trans [OF one(1)] Cons.prems(1) by auto
  qed
qed

text \<open>Null from index \<open>i\<close> on.\<close>

definition null_from :: "nat \<Rightarrow> nat list \<Rightarrow> bool" where
  "null_from i hs \<longleftrightarrow> (\<forall>j. i \<le> j \<longrightarrow> j < length hs \<longrightarrow> hs ! j = 0)"

lemma null_from_update: "null_from i hs \<Longrightarrow> null_from (Suc i) (hs[i := h])"
  by (simp add: null_from_def nth_list_update)

lemma resized_null: "held k hs = {#} \<Longrightarrow> h \<in> set (resized n hs) \<Longrightarrow> h = 0"
  unfolding resized_def held_empty_iff by (auto dest: in_set_takeD)

lemma null_from_empty: "held k hs = {#} \<Longrightarrow> null_from 0 (resized n hs)"
  unfolding null_from_def by (blast intro: resized_null nth_mem)

lemma held_resized: "held k hs = {#} \<Longrightarrow> held k (resized n hs) = {#}"
  using resized_null held_empty_iff by metis

lemma length_resized [simp]: "length (resized n hs) = n"
  by (simp add: resized_def)

lemma framebuffers_from_run:
  assumes D: "real_handles D"
  shows "null_from i (mFramebuffers r) \<Longrightarrow> length (mFramebuffers r) = i + length views \<Longrightarrow>
    run_state (framebuffers_from D i views) (r, l) = (a, (r', l')) \<Longrightarrow>
    balanced r l r' l' \<and> (\<forall>q. q \<noteq> PFramebuffers \<longrightarrow> handles q r' = handles q r)"
proof (induction views arbitrary: i r l)
  case Nil
  then show ?case by simp
next
  case (Cons view views)
  let ?m = "create_into D (FramebufferInfo \<lparr>fb_renderPass = mRenderPass r, fb_attachments = [view, mDepthImageView r],
         fb_extent = mSwapchainExtent r\<rparr>) (\<lambda>h r. r\<lparr>mFramebuffers := (mFramebuffers r)[i := h]\<rparr>)"
  obtain ok r1 l1 where run1: "run_state ?m (r, l) = (ok, (r1, l1))" by (rule prod_cases3)
  have other: "q \<noteq> PFramebuffers \<Longrightarrow> handles q (r\<lparr>mFramebuffers := (mFramebuffers r)[i := h]\<rparr>) = handles q r" for q r h
    by (cases q) simp_all
  have put: "puts PFramebuffers i ?m" by (rule puts_create [OF D _ _ other]) simp_all
  have slot: "i < length (handles PFramebuffers r)" "handles PFramebuffers r ! i = 0"
    using Cons.prems(1,2) by (simp_all add: null_from_def)
  note one = putsD [OF put run1 slot, simplified handles.simps]
  show ?case
  proof (cases ok)
    case False
    then show ?thesis using Cons.prems(3) run1 one by (simp add: this_vk_def)
  next
    case True
    then have run2: "run_state (framebuffers_from D (i + 1) views) (r1, l1) = (a, (r', l'))"
      using Cons.prems(3) run1 by (simp add: this_vk_def)
    have "balanced r1 l1 r' l' \<and> (\<forall>q. q \<noteq> PFramebuffers \<longrightarrow> handles q r' = handles q r1)"
      using one(3) Cons.prems(1,2) by (intro Cons.IH [OF _ _ run2]) (auto simp: null_from_update)
    then show ?thesis using one balanced_trans by auto
  qed
qed

lemma makes_framebuffers:
  assumes "real_handles D"
  shows "makes D {PFramebuffers} (createFramebuffers D)"
proof (rule makes_balanced)
  fix r l a r' l'
  assume none: "\<And>p. p \<in> {PFramebuffers} \<Longrightarrow> owned_by p r = {#}"
    and run: "run_state (createFramebuffers D) (r, l) = (a, (r', l'))"
  let ?r = "r\<lparr>mFramebuffers := resized (length (mSwapchainImageViews r)) (mFramebuffers r)\<rparr>"
  have empty: "held VkFramebuffer (mFramebuffers r) = {#}" using none [of PFramebuffers] by (simp add: owned_by_def)
  have same: "q \<noteq> PFramebuffers \<Longrightarrow> handles q ?r = handles q r" for q by (cases q) simp_all
  have "owned_by PFramebuffers ?r = owned_by PFramebuffers r" using empty held_resized by (simp add: owned_by_def)
  then have "balanced r l ?r l" using owned_change [of PFramebuffers ?r r, OF same] by (simp add: balanced_def)
  moreover have "balanced ?r l r' l' \<and> (\<forall>q. q \<noteq> PFramebuffers \<longrightarrow> handles q r' = handles q ?r)"
    by (rule framebuffers_from_run [OF assms, where i = 0 and views = "mSwapchainImageViews r"])
      (use run null_from_empty [OF empty] in \<open>simp_all add: createFramebuffers_def set_vk_def this_vk_def\<close>)
  ultimately show "balanced r l r' l' \<and> (\<forall>q. q \<notin> {PFramebuffers} \<longrightarrow> handles q r' = handles q r)"
    using balanced_trans same by auto
qed

lemma create_views_run:
  assumes "real_handles D"
  shows "run_state (create_views D is) (r, l) = (vs, (r', l')) \<Longrightarrow>
    r' = r \<and> length vs = length is \<and> objects_of l' = objects_of l + held VkImageView vs \<and> (destroys_ok l \<longrightarrow> destroys_ok l')"
proof (induction "is" arbitrary: l vs)
  case (Cons i "is")
  let ?v = "dr_create D l (ViewInfo i R8G8B8A8_UNORM ASPECT_COLOR)"
  obtain us s l1 where rest: "run_state (create_views D is) (r, (case ?v of None \<Rightarrow> CreateFailed (ViewInfo i R8G8B8A8_UNORM ASPECT_COLOR)
      | Some h \<Rightarrow> Created (ViewInfo i R8G8B8A8_UNORM ASPECT_COLOR) h) # l) = (us, (s, l1))" by (rule prod_cases3)
  then have e: "vs = (case ?v of None \<Rightarrow> 0 | Some h \<Rightarrow> h) # us" "s = r'" "l1 = l'"
    using Cons.prems by (auto simp: createImageView_def create_def split: option.splits)
  then show ?case using Cons.IH [OF rest [unfolded e(2,3)]] assms by (auto simp: real_handles_def split: option.splits)
qed auto

lemma makes_views:
  assumes "real_handles D"
  shows "makes D {PViews} (State_Monad.bind (create_views D is) (\<lambda>vs.
    State_Monad.bind (set_vk (\<lambda>r. r\<lparr>mSwapchainImageViews := vs\<rparr>)) (\<lambda>_. vret b)))"
proof (rule makesI)
  fix r l a r' l'
  assume "run_state (State_Monad.bind (create_views D is) (\<lambda>vs.
    State_Monad.bind (set_vk (\<lambda>r. r\<lparr>mSwapchainImageViews := vs\<rparr>)) (\<lambda>_. vret b))) (r, l) = (a, (r', l'))"
  moreover obtain vs r1 l1 where run: "run_state (create_views D is) (r, l) = (vs, (r1, l1))" by (rule prod_cases3)
  ultimately have e: "r' = r1\<lparr>mSwapchainImageViews := vs\<rparr>" "l' = l1" by (auto simp: set_vk_def)
  have "q \<noteq> PViews \<Longrightarrow> handles q r' = handles q r1" for q by (cases q) (simp_all add: e)
  then show "(\<forall>q. q \<notin> {PViews} \<longrightarrow> handles q r' = handles q r) \<and>
     (\<exists>M. leftover D M \<and> objects_of l' = objects_of l + owned {PViews} r' + M) \<and> (destroys_ok l \<longrightarrow> destroys_ok l')"
    using create_views_run [OF assms run] by (auto simp: e owned_by_def intro: exI [of _ "{#}"])
qed

lemma makes_swapchain:
  assumes "real_handles D"
  shows "makes D {PSwapchain, PViews} (createSwapchain D)"
proof -
  have extent: "makes D {} (set_vk (\<lambda>r. r\<lparr>mSwapchainExtent := e\<rparr>))" for e by (rule makes_set) (simp add: all_parts_def)
  have images: "makes D {} (set_vk (\<lambda>r. r\<lparr>mSwapchainImages := e\<rparr>))" for e by (rule makes_set) (simp add: all_parts_def)
  show ?thesis
    unfolding createSwapchain_def Let_def split_beta
    by (intro makes_this makes_history makes_join [OF extent] makes_ok_then [OF makes_create_into [where p = PSwapchain]]
         makes_join [OF images makes_views]) (use assms in auto)
qed

lemma sync_from_run:
  assumes D: "real_handles D"
  shows "(\<And>p. p \<in> {PAvailable, PFinished, PFences} \<Longrightarrow> null_from i (handles p r) \<and> length (handles p r) = i + n) \<Longrightarrow>
    run_state (sync_from D i n) (r, l) = (a, (r', l')) \<Longrightarrow>
    balanced r l r' l' \<and> (\<forall>q. q \<notin> {PAvailable, PFinished, PFences} \<longrightarrow> handles q r' = handles q r)"
proof (induction n arbitrary: i r l)
  case 0
  then show ?case by simp
next
  case (Suc n)
  let ?ms = "[create_into D SemaphoreInfo (\<lambda>h r. r\<lparr>mImageAvailableSemaphores := (mImageAvailableSemaphores r)[i := h]\<rparr>),
       create_into D SemaphoreInfo (\<lambda>h r. r\<lparr>mRenderFinishedSemaphores := (mRenderFinishedSemaphores r)[i := h]\<rparr>),
       create_into D (FenceInfo True) (\<lambda>h r. r\<lparr>mInFlightFences := (mInFlightFences r)[i := h]\<rparr>)]"
  let ?ps = "[PAvailable, PFinished, PFences]"
  obtain ok r1 l1 where run1: "run_state (all_ok ?ms) (r, l) = (ok, (r1, l1))" by (rule prod_cases3)
  have others:
    "q \<noteq> PAvailable \<Longrightarrow> handles q (r\<lparr>mImageAvailableSemaphores := (mImageAvailableSemaphores r)[i := h]\<rparr>) = handles q r"
    "q \<noteq> PFinished \<Longrightarrow> handles q (r\<lparr>mRenderFinishedSemaphores := (mRenderFinishedSemaphores r)[i := h]\<rparr>) = handles q r"
    "q \<noteq> PFences \<Longrightarrow> handles q (r\<lparr>mInFlightFences := (mInFlightFences r)[i := h]\<rparr>) = handles q r" for q r h
    by (cases q; simp)+
  have puts: "list_all2 (\<lambda>p m. puts p i m) ?ps ?ms"
    unfolding list.rel_inject(2) list_all2_Nil
    by (intro conjI; (rule puts_create [OF D _ _ others(1)] puts_create [OF D _ _ others(2)] puts_create [OF D _ _ others(3)])?) simp_all
  have slots: "p \<in> set ?ps \<Longrightarrow> i < length (handles p r) \<and> handles p r ! i = 0" for p
    using Suc.prems(1) [of p] by (auto simp: null_from_def)
  have one: "balanced r l r1 l1 \<and> (\<forall>q. q \<notin> set ?ps \<longrightarrow> handles q r1 = handles q r) \<and>
      (\<forall>p \<in> set ?ps. \<exists>h. handles p r1 = (handles p r)[i := h])"
    by (rule puts_all [OF puts _ slots run1]) simp
  show ?case
  proof (cases ok)
    case False
    then have "r' = r1" "l' = l1" using Suc.prems(2) run1 by (simp_all del: all_ok.simps)
    then show ?thesis using one by simp
  next
    case True
    then have run2: "run_state (sync_from D (i + 1) n) (r1, l1) = (a, (r', l'))"
      using Suc.prems(2) run1 by (simp del: all_ok.simps)
    have "null_from (i + 1) (handles p r1) \<and> length (handles p r1) = (i + 1) + n" if p: "p \<in> {PAvailable, PFinished, PFences}" for p
    proof -
      obtain h where "handles p r1 = (handles p r)[i := h]" using one p by auto
      then show ?thesis using Suc.prems(1) [OF p] by (simp add: null_from_update)
    qed
    then have "balanced r1 l1 r' l' \<and> (\<forall>q. q \<notin> {PAvailable, PFinished, PFences} \<longrightarrow> handles q r' = handles q r1)"
      by (rule Suc.IH [OF _ run2])
    then show ?thesis using one balanced_trans by auto
  qed
qed

lemma balanced_set:
  assumes "\<And>q. owned_by q r' = owned_by q r"
  shows "balanced r l r' l"
  by (simp add: balanced_def owned_def assms)

lemma makes_sync:
  assumes "real_handles D"
  shows "makes D {PAvailable, PFinished, PFences} (createSyncObjects D)"
proof (rule makes_balanced)
  fix r l a r' l'
  assume none: "\<And>p. p \<in> {PAvailable, PFinished, PFences} \<Longrightarrow> owned_by p r = {#}"
    and run: "run_state (createSyncObjects D) (r, l) = (a, (r', l'))"
  let ?r = "r\<lparr>mImageAvailableSemaphores := resized 2 (mImageAvailableSemaphores r),
     mRenderFinishedSemaphores := resized 2 (mRenderFinishedSemaphores r), mInFlightFences := resized 2 (mInFlightFences r)\<rparr>"
  have empty: "held VkSemaphore (mImageAvailableSemaphores r) = {#}" "held VkSemaphore (mRenderFinishedSemaphores r) = {#}"
      "held VkFence (mInFlightFences r) = {#}"
    using none [of PAvailable] none [of PFinished] none [of PFences] by (simp_all add: owned_by_def)
  have same: "q \<notin> {PAvailable, PFinished, PFences} \<Longrightarrow> handles q ?r = handles q r" for q by (cases q) simp_all
  have "owned_by q ?r = owned_by q r" for q
    using empty by (cases q) (simp_all add: owned_by_def held_resized)
  then have first: "balanced r l ?r l" by (rule balanced_set)
  have rest: "run_state (sync_from D 0 2) (?r, l) = (a, (r', l'))"
    using run by (simp add: createSyncObjects_def set_vk_def MAX_FRAMES_IN_FLIGHT_def)
  have slots: "null_from 0 (handles p ?r) \<and> length (handles p ?r) = 0 + 2" if "p \<in> {PAvailable, PFinished, PFences}" for p
    using that by (auto simp: null_from_empty [OF empty(1)] null_from_empty [OF empty(2)] null_from_empty [OF empty(3)])
  have "balanced ?r l r' l' \<and> (\<forall>q. q \<notin> {PAvailable, PFinished, PFences} \<longrightarrow> handles q r' = handles q ?r)"
    by (rule sync_from_run [OF assms slots rest])
  then show "balanced r l r' l' \<and> (\<forall>q. q \<notin> {PAvailable, PFinished, PFences} \<longrightarrow> handles q r' = handles q r)"
    using balanced_trans [OF first] same by auto
qed

section \<open>The pipeline and its shader modules\<close>

lemma pipeline_with_run:
  assumes "real_handles D" "v \<noteq> 0" "f \<noteq> 0" "owned_by PPipelineLayout r = {#}" "owned_by PPipeline r = {#}"
    and L: "objects_of l = add_mset (VkShaderModule, v) (add_mset (VkShaderModule, f) L)"
    and run: "run_state (pipeline_with D v f) (r, l) = (a, (r', l'))"
  shows "(\<forall>q. q \<notin> {PPipelineLayout, PPipeline} \<longrightarrow> handles q r' = handles q r) \<and>
    objects_of l' = L + owned {PPipelineLayout, PPipeline} r' \<and> (destroys_ok l \<longrightarrow> destroys_ok l')"
proof -
  have same: "q \<notin> {PPipelineLayout, PPipeline} \<Longrightarrow> handles q (r\<lparr>mPipelineLayout := h\<rparr>) = handles q r"
      "q \<notin> {PPipelineLayout, PPipeline} \<Longrightarrow> handles q (r\<lparr>mPipelineLayout := h, mGraphicsPipeline := h'\<rparr>) = handles q r" for q h h'
    by (cases q; simp)+
  have null: "mPipelineLayout r = 0" "mGraphicsPipeline r = 0"
    using assms(4,5) by (auto simp: owned_by_def split: if_splits)
  have nz: "dr_create D l i \<noteq> Some 0" for l i using assms(1) by (auto simp: real_handles_def)
  show ?thesis
    using run assms(2,3) L same null
    by (auto simp: pipeline_with_def this_vk_def create_into_run destroy_def vk_emit_def may_destroy_def owned_by_def nz
        split: option.splits)
qed

lemma makes_pipeline:
  assumes D: "real_handles D"
  shows "makes D {PPipelineLayout, PPipeline} (createGraphicsPipeline D)"
proof (rule makesI)
  fix r l a r' l'
  assume none: "\<And>p. p \<in> {PPipelineLayout, PPipeline} \<Longrightarrow> owned_by p r = {#}"
    and run: "run_state (createGraphicsPipeline D) (r, l) = (a, (r', l'))"
  define vi where "vi = ShaderInfo getVertexShaderCode (length getVertexShaderCode * 4)"
  define fi where "fi = ShaderInfo getFragmentShaderCode (length getFragmentShaderCode * 4)"
  define l1 where "l1 = (case dr_create D l vi of None \<Rightarrow> CreateFailed vi | Some v \<Rightarrow> Created vi v) # l"
  define l2 where "l2 = (case dr_create D l1 fi of None \<Rightarrow> CreateFailed fi | Some f \<Rightarrow> Created fi f) # l1"
  have null: "owned {PPipelineLayout, PPipeline} r = {#}" by (rule owned_none) (rule none)
  have kinds: "kind_of vi = VkShaderModule" "kind_of fi = VkShaderModule" by (simp_all add: vi_def fi_def)
  show "(\<forall>q. q \<notin> {PPipelineLayout, PPipeline} \<longrightarrow> handles q r' = handles q r) \<and>
     (\<exists>M. leftover D M \<and> objects_of l' = objects_of l + owned {PPipelineLayout, PPipeline} r' + M) \<and> (destroys_ok l \<longrightarrow> destroys_ok l')"
  proof (cases "dr_create D l vi = None \<or> dr_create D l1 fi = None")
    case True
    then have "r' = r" "l' = l2"
      using run D by (auto simp: createGraphicsPipeline_def createShaderModule_def create_def real_handles_def l1_def l2_def
          vi_def [symmetric] fi_def [symmetric] split: option.splits)
    moreover have "leftover D {#(VkShaderModule, h)#}" for h
      using True by (auto simp: leftover_def vi_def fi_def)
    ultimately show ?thesis
      using null kinds True by (auto simp: l1_def l2_def split: option.splits intro: exI [of _ "{#}"])
  next
    case False
    then obtain v f where vf: "dr_create D l vi = Some v" "dr_create D l1 fi = Some f" by auto
    then have nz: "v \<noteq> 0" "f \<noteq> 0" using D by (auto simp: real_handles_def)
    have rest: "run_state (pipeline_with D v f) (r, l2) = (a, (r', l'))"
      using run vf nz by (simp add: createGraphicsPipeline_def createShaderModule_def create_def l1_def l2_def
          vi_def [symmetric] fi_def [symmetric])
    have "objects_of l2 = add_mset (VkShaderModule, v) (add_mset (VkShaderModule, f) (objects_of l))"
      using vf kinds by (simp add: l1_def l2_def)
    from pipeline_with_run [OF D nz none none this rest]
    show ?thesis using vf by (auto simp: l1_def l2_def intro: exI [of _ "{#}"])
  qed
qed

text \<open>The members that \<open>setSurface\<close> fills, step by step.\<close>

definition surface_parts :: "part set list" where
  "surface_parts = [{PSurface}, {PSwapchain, PViews}, {PRenderPass}, {PDepthImage, PDepthMemory, PDepthView}, {PFramebuffers},
     {PSetLayout}, {PPipelineLayout, PPipeline}, {PVertexBuffer, PVertexMemory}, {PIndexBuffer, PIndexMemory},
     {PUniformBuffer, PUniformMemory}, {PDescriptorPool}, {}, {PCommandPool}, {}, {PAvailable, PFinished, PFences}]"

lemma makes_surface_steps:
  assumes "real_handles D"
  shows "makes D (\<Union> (set surface_parts)) (all_ok [createSurface D, createSwapchain D, createRenderPass D, createDepthResources D,
     createFramebuffers D, createDescriptorSetLayout D, createGraphicsPipeline D, createVertexBuffer D, createIndexBuffer D,
     createUniformBuffer D, createDescriptorPool D, createDescriptorSets D, createCommandPool D, createCommandBuffers D,
     createSyncObjects D])"
  unfolding surface_parts_def
  by (rule makes_all_ok)
    (simp_all add: assms all_parts_def makes_surface makes_swapchain makes_render_pass makes_depth makes_framebuffers makes_set_layout
      makes_pipeline makes_vertex makes_index makes_uniform makes_descriptor_pool makes_sets makes_command_pool
      makes_command_buffers makes_sync)

end
