(* ===== verification/Vulkan_Theorems.thy ===== *)
theory Vulkan_Theorems
  imports Vulkan_Ownership
begin

text \<open>
  The life of the sample renderer: what a session leaves behind, and that its frames come
  back. A session is what the activity does once: initialise, set the surface, run the
  render loop, shut down.
\<close>

section \<open>Destroying what is held\<close>

fun destroyed :: "vk_object list \<Rightarrow> vk_event list \<Rightarrow> vk_event list" where
  "destroyed [] l = l"
| "destroyed (x # xs) l = destroyed xs (Destroyed (fst x) (snd x) # l)"

lemma destroyed_append: "destroyed (xs @ ys) l = destroyed ys (destroyed xs l)"
  by (induction xs arbitrary: l) auto

definition single :: "vk_kind \<Rightarrow> nat \<Rightarrow> vk_object list" where
  "single k h = (if h = 0 then [] else [(k, h)])"

lemma single_simps [simp]: "single k 0 = []" "h \<noteq> 0 \<Longrightarrow> single k h = [(k, h)]"
  by (simp_all add: single_def)

lemma destroy_run: "run_state (destroy k h) (r, l) = ((), (r, destroyed [(k, h)] l))"
  by (simp add: destroy_def vk_emit_def)

lemma destroy_if_run: "run_state (destroy_if k h) (r, l) = ((), (r, destroyed (single k h) l))"
  by (simp add: destroy_if_def destroy_run)

lemma destroy_all_run: "run_state (destroy_all k hs) (r, l) = ((), (r, destroyed (map (Pair k) hs) l))"
  by (induction hs arbitrary: l) (simp_all add: destroy_run)

definition nonnull :: "vk_object list \<Rightarrow> vk_object multiset" where
  "nonnull xs = mset (filter (\<lambda>x. snd x \<noteq> 0) xs)"

lemma nonnull_simps [simp]:
  "nonnull [] = {#}" "nonnull (xs @ ys) = nonnull xs + nonnull ys" "nonnull (map (Pair k) hs) = held k hs"
  "nonnull (single k h) = held k [h]"
  by (simp_all add: nonnull_def held_def filter_map comp_def single_def)

lemma destroyed_ok:
  assumes "destroys_ok l" "objects_of l = nonnull xs + R" "fst ` set xs \<inter> {VkDevice, VkInstance} = {}"
  shows "destroys_ok (destroyed xs l) \<and> objects_of (destroyed xs l) = R"
  using assms
proof (induction xs arbitrary: l)
  case (Cons x xs)
  have "may_destroy (fst x) L" for L using Cons.prems(3) by (auto simp: may_destroy_def split: vk_kind.splits)
  then have "destroys_ok (Destroyed (fst x) (snd x) # l) \<and> objects_of (Destroyed (fst x) (snd x) # l) = nonnull xs + R"
    using Cons.prems by (cases "snd x = 0") (auto simp: nonnull_def)
  then show ?case using Cons by simp
qed simp

section \<open>The swapchain and what hangs on it\<close>

definition swap_parts :: "part set" where
  "swap_parts = {PSwapchain, PViews, PRenderPass, PDepthImage, PDepthMemory, PDepthView, PFramebuffers, PPipelineLayout, PPipeline}"

definition swap_objects :: "vk_renderer \<Rightarrow> vk_object list" where
  "swap_objects r = single VkImageView (mDepthImageView r) @ single VkImage (mDepthImage r) @ single VkMemory (mDepthMemory r) @
     map (Pair VkFramebuffer) (mFramebuffers r) @ single VkPipeline (mGraphicsPipeline r) @
     single VkPipelineLayout (mPipelineLayout r) @ single VkRenderPass (mRenderPass r) @
     map (Pair VkImageView) (mSwapchainImageViews r) @ single VkSwapchain (mSwapchain r)"

definition cleared :: "vk_renderer \<Rightarrow> vk_renderer" where
  "cleared r = r\<lparr>mFramebuffers := [], mSwapchainImageViews := [], mDepthImageView := 0, mDepthImage := 0, mDepthMemory := 0,
     mGraphicsPipeline := 0, mPipelineLayout := 0, mRenderPass := 0, mSwapchain := 0\<rparr>"

lemma cleanup_run: "run_state cleanupSwapchain (r, l) = ((), (cleared r, destroyed (swap_objects r) l))"
  by (simp add: cleanupSwapchain_def this_vk_def set_vk_def destroy_if_run destroy_all_run swap_objects_def destroyed_append cleared_def)

lemma swap_owned: "nonnull (swap_objects r) = owned swap_parts r"
  by (simp add: swap_objects_def swap_parts_def owned_by_def ac_simps)

lemma cleared_empty: "p \<in> swap_parts \<Longrightarrow> owned_by p (cleared r) = {#}"
  by (auto simp: swap_parts_def owned_by_def cleared_def)

lemma cleared_same: "p \<notin> swap_parts \<Longrightarrow> handles p (cleared r) = handles p r"
  by (cases p) (auto simp: swap_parts_def cleared_def)

lemma single_set: "x \<in> set (single k h) \<Longrightarrow> fst x = k"
  by (auto simp: single_def split: if_splits)

lemma swap_kinds: "fst ` set (swap_objects r) \<inter> {VkDevice, VkInstance} = {}"
  unfolding swap_objects_def by (auto dest!: single_set)

section \<open>Everything that exists is held\<close>

text \<open>
  \<open>accounted\<close>: what exists is exactly what the members hold, and leftovers; every
  destruction so far was in order; and the renderer has its device.
\<close>

definition accounted :: "vk_driver \<Rightarrow> vk_renderer \<times> vk_event list \<Rightarrow> bool" where
  "accounted D = (\<lambda>(r, l). (\<exists>M. leftover D M \<and> objects_of l = owned UNIV r + M) \<and> destroys_ok l \<and>
     mDevice r \<noteq> 0 \<and> mInstance r \<noteq> 0)"

lemma makes_accounted:
  assumes "makes D P m" "run_state m (r, l) = (a, (r', l'))" "accounted D (r, l)" "\<And>p. p \<in> P \<Longrightarrow> owned_by p r = {#}"
    and "PDevice \<notin> P" "PInstance \<notin> P"
  shows "accounted D (r', l')"
proof -
  note made = makesD [OF assms(1,2,4)]
  obtain M where M: "leftover D M" "objects_of l = owned UNIV r + M" using assms(3) by (auto simp: accounted_def)
  obtain N where N: "leftover D N" "objects_of l' = objects_of l + owned P r' + N" using made(2) by blast
  have "owned UNIV r = owned (- P) r" using owned_none [OF assms(4)] owned_split [of r P] by simp
  also have "\<dots> = owned (- P) r'" by (rule owned_cong) (use made(1) in auto)
  finally have "owned UNIV r + owned P r' = owned UNIV r'" using owned_split [of r' P] by (simp add: ac_simps)
  then have "objects_of l' = owned UNIV r' + (M + N)" using M N by (simp add: ac_simps)
  moreover have "mDevice r' = mDevice r" "mInstance r' = mInstance r"
    using made(1) [where q = PDevice] made(1) [where q = PInstance] assms(5,6) by auto
  ultimately show ?thesis
    using assms(3) made(3) leftover_plus [OF M(1) N(1)] by (auto simp: accounted_def)
qed

lemma accounted_makes: "makes D {} m \<Longrightarrow> stable (accounted D) m"
  unfolding stable_def by (rule tripleI) (metis empty_iff makes_accounted prod.exhaust)

lemma stable_this: "(\<And>r. stable I (f r)) \<Longrightarrow> stable I (State_Monad.bind this_vk f)"
  by (simp add: stable_def triple_def this_vk_def)

lemma stable_history: "(\<And>l. stable I (f l)) \<Longrightarrow> stable I (State_Monad.bind history f)"
  by (simp add: stable_def triple_def history_def)

lemma stable_emit: "quiet e \<Longrightarrow> stable (accounted D) (vk_emit e)"
  by (rule accounted_makes) (rule makes_emit)

lemma stable_set: "(\<And>r. list_all (\<lambda>q. handles q (f r) = handles q r) all_parts) \<Longrightarrow> stable (accounted D) (set_vk f)"
  by (rule accounted_makes) (rule makes_set)

lemma makes_rebuild:
  assumes "real_handles D"
  shows "makes D swap_parts (do { createSwapchain D; createRenderPass D; createDepthResources D; createFramebuffers D;
     createGraphicsPipeline D; vret () })"
  unfolding swap_parts_def
  by (rule makes_join [OF makes_swapchain makes_join [OF makes_render_pass makes_join [OF makes_depth
        makes_join [OF makes_framebuffers makes_join [OF makes_pipeline makes_return]]]]])
    (use assms in auto)

lemma stable_recreate:
  assumes "real_handles D"
  shows "stable (accounted D) (recreateSwapchain D)"
  unfolding stable_def
proof (rule tripleI)
  fix x a x'
  assume acc: "accounted D x" and run: "run_state (recreateSwapchain D) x = (a, x')"
  obtain r l where x: "x = (r, l)" by fastforce
  obtain r' l' where x': "x' = (r', l')" by fastforce
  obtain M where M: "leftover D M" "objects_of l = owned UNIV r + M" using acc x by (auto simp: accounted_def)
  define l1 where "l1 = destroyed (swap_objects r) (WaitedIdle # l)"
  have "objects_of (WaitedIdle # l) = nonnull (swap_objects r) + (owned (- swap_parts) r + M)"
    using M(2) owned_split [of r swap_parts] by (simp add: swap_owned)
  then have d: "destroys_ok l1 \<and> objects_of l1 = owned (- swap_parts) r + M"
    using acc x unfolding l1_def by (intro destroyed_ok swap_kinds) (simp_all add: accounted_def)
  have "owned (- swap_parts) r = owned (- swap_parts) (cleared r)" by (rule owned_cong) (simp add: cleared_same)
  then have "owned (- swap_parts) r = owned UNIV (cleared r)"
    using owned_split [of "cleared r" swap_parts] owned_none [of swap_parts "cleared r"] cleared_empty by simp
  then have "accounted D (cleared r, l1)"
    using d M(1) acc x by (auto simp: accounted_def cleared_def)
  moreover have "run_state (do { createSwapchain D; createRenderPass D; createDepthResources D; createFramebuffers D;
     createGraphicsPipeline D; vret () }) (cleared r, l1) = (a, (r', l'))"
    using run x x' by (simp add: recreateSwapchain_def vk_emit_def cleanup_run l1_def)
  moreover have "PDevice \<notin> swap_parts" "PInstance \<notin> swap_parts" by (simp_all add: swap_parts_def)
  ultimately show "accounted D x'"
    using makes_accounted [OF makes_rebuild [OF assms]] cleared_empty unfolding x' by blast
qed

section \<open>Frames\<close>

lemma stable_update: "stable (accounted D) (updateUniformBuffer G)"
proof -
  have "stable (accounted D) (set_vk (\<lambda>r. r\<lparr>mAutoRotation := f r\<rparr>))" for f
    by (rule stable_set) (simp add: all_parts_def)
  then show ?thesis
    unfolding updateUniformBuffer_def by (intro stable_bind stable_this stable_option stable_emit stable_return) auto
qed

lemma stable_record: "stable (accounted D) (recordCommandBuffer cmd i)"
  unfolding recordCommandBuffer_def by (intro stable_this stable_if stable_bind stable_emit stable_return) auto

lemma stable_submit: "stable (accounted D) (submit_frame D' i)"
  unfolding submit_frame_def Let_def
  by (intro stable_this stable_history stable_bind stable_emit stable_set) (auto simp: all_parts_def)

lemma stable_frame: "real_handles D \<Longrightarrow> stable (accounted D) (renderFrame D G)"
  unfolding renderFrame_def draw_image_def Let_def split_beta
  by (intro stable_this stable_history stable_bind stable_if stable_emit stable_return stable_recreate stable_update stable_record
       stable_submit) auto

lemma stable_loop: "real_handles D \<Longrightarrow> stable (accounted D) (renderLoop D G n)"
  by (induction n) (auto intro!: stable_return stable_bind stable_if stable_frame)

lemma stable_start: "stable (accounted D) startRenderLoop"
proof -
  have "stable (accounted D) (set_vk (\<lambda>r. r\<lparr>mRendering := True\<rparr>))" "stable (accounted D) (set_vk (\<lambda>r. r\<lparr>mRenderThread := True\<rparr>))"
    by (rule stable_set; simp add: all_parts_def)+
  then show ?thesis unfolding startRenderLoop_def by (intro stable_this stable_bind stable_if stable_return)
qed

section \<open>Shutting down\<close>

definition device_objects :: "vk_renderer \<Rightarrow> vk_object list" where
  "device_objects r = swap_objects r @ single VkDescriptorPool (mDescriptorPool r) @ single VkSetLayout (mDescriptorSetLayout r) @
     single VkBuffer (mUniformBuffer r) @ single VkMemory (mUniformBufferMemory r) @ single VkBuffer (mIndexBuffer r) @
     single VkMemory (mIndexBufferMemory r) @ single VkBuffer (mVertexBuffer r) @ single VkMemory (mVertexBufferMemory r) @
     map (Pair VkSemaphore) (mImageAvailableSemaphores r) @ map (Pair VkSemaphore) (mRenderFinishedSemaphores r) @
     map (Pair VkFence) (mInFlightFences r) @ single VkCommandPool (mCommandPool r)"

lemma release_run: "run_state release_device (r, l) =
    ((), (cleared r, destroyed (device_objects r @ [(VkDevice, mDevice r)]) (WaitedIdle # l)))"
  by (simp add: release_device_def this_vk_def vk_emit_def cleanup_run destroy_if_run destroy_all_run destroy_run device_objects_def
      destroyed_append cleared_def)

lemma device_kinds: "fst ` set (device_objects r) \<inter> {VkDevice, VkInstance} = {}"
  using swap_kinds [of r] unfolding device_objects_def by (auto dest!: single_set)

lemma all_parts_owned: "owned UNIV r = nonnull (device_objects r) + held VkDevice [mDevice r] + held VkSurface [mSurface r] +
    held VkInstance [mInstance r] + held NativeWindow [mWindow r]"
proof -
  have "owned UNIV r = sum_list (map (\<lambda>p. owned_by p r) all_parts)"
    using all_parts by (simp add: owned_def sum_list_distinct_conv_sum_set)
  then show ?thesis
    by (simp add: all_parts_def device_objects_def swap_owned swap_parts_def owned_by_def ac_simps)
qed

text \<open>What \<open>shutdown\<close> appends once the device is gone.\<close>

definition last_objects :: "vk_renderer \<Rightarrow> vk_event list \<Rightarrow> vk_event list" where
  "last_objects r l = (if mWindow r \<noteq> 0 then [WindowReleased (mWindow r)] else []) @
     destroyed (single VkSurface (mSurface r) @ [(VkInstance, mInstance r)]) l"

lemma shutdown_run:
  assumes "mDevice r \<noteq> 0" "mInstance r \<noteq> 0"
  shows "\<exists>r'. run_state vk_shutdown (r, l) =
      ((), (r', last_objects r (destroyed (device_objects r @ [(VkDevice, mDevice r)]) (WaitedIdle # l)))) \<and>
    mDevice r' = mDevice r \<and> mInstance r' = mInstance r"
proof -
  define s where "s = (if mRenderThread r then r\<lparr>mRendering := False, mRenderThread := False\<rparr> else r\<lparr>mRendering := False\<rparr>)"
  have same: "device_objects s = device_objects r" "mDevice s = mDevice r" "mInstance s = mInstance r" "mSurface s = mSurface r"
      "mWindow s = mWindow r"
    by (simp_all add: s_def device_objects_def swap_objects_def)
  have "run_state stopRenderLoop (r, l) = ((), (s, l))"
    by (simp add: stopRenderLoop_def set_vk_def s_def)
  then show ?thesis
    using assms same
    by (simp add: vk_shutdown_def this_vk_def release_run destroy_run destroy_if_run vk_emit_def last_objects_def cleared_def destroyed_append)
qed

lemma shutdown_ok:
  assumes acc: "accounted D (r, l)" and run: "run_state vk_shutdown (r, l) = (u, (r', l'))"
  shows "destroys_ok l' \<and> leftover D (objects_of l')" "mDevice r' = mDevice r"
proof -
  obtain M where M: "leftover D M" "objects_of l = owned UNIV r + M" and ok: "destroys_ok l" "mDevice r \<noteq> 0" "mInstance r \<noteq> 0"
    using acc by (auto simp: accounted_def)
  let ?rest = "held VkSurface [mSurface r] + held VkInstance [mInstance r] + held NativeWindow [mWindow r] + M"
  let ?l1 = "destroyed (device_objects r) (WaitedIdle # l)"
  have "destroys_ok ?l1 \<and> objects_of ?l1 = add_mset (VkDevice, mDevice r) ?rest"
    by (intro destroyed_ok device_kinds) (use M(2) ok in \<open>simp_all add: all_parts_owned ac_simps\<close>)
  moreover have "may_destroy VkDevice ?rest"
    using M(1) by (auto simp: may_destroy_def leftover_def split: if_splits)
  ultimately have device: "destroys_ok (Destroyed VkDevice (mDevice r) # ?l1) \<and>
      objects_of (Destroyed VkDevice (mDevice r) # ?l1) = nonnull (single VkSurface (mSurface r)) +
        (held VkInstance [mInstance r] + held NativeWindow [mWindow r] + M)"
    using ok by simp
  let ?l2 = "destroyed (single VkSurface (mSurface r)) (Destroyed VkDevice (mDevice r) # ?l1)"
  have "fst ` set (single VkSurface (mSurface r)) \<inter> {VkDevice, VkInstance} = {}" by (auto dest!: single_set)
  then have surface: "destroys_ok ?l2 \<and> objects_of ?l2 = held VkInstance [mInstance r] + held NativeWindow [mWindow r] + M"
    using device by (intro destroyed_ok) auto
  have "may_destroy VkInstance (held NativeWindow [mWindow r] + M)"
    using M(1) by (auto simp: may_destroy_def leftover_def split: if_splits)
  then have "destroys_ok (Destroyed VkInstance (mInstance r) # ?l2) \<and>
      objects_of (Destroyed VkInstance (mInstance r) # ?l2) = held NativeWindow [mWindow r] + M"
    using surface ok by simp
  moreover have "l' = last_objects r (Destroyed VkDevice (mDevice r) # ?l1) \<and> mDevice r' = mDevice r"
    using shutdown_run [OF ok(2,3), of l] run by (auto simp: destroyed_append)
  ultimately show "destroys_ok l' \<and> leftover D (objects_of l')" "mDevice r' = mDevice r"
    using M(1) by (auto simp: last_objects_def destroyed_append)
qed

section \<open>A session\<close>

definition cube_session :: "vk_driver \<Rightarrow> glm \<Rightarrow> nat \<Rightarrow> int \<Rightarrow> int \<Rightarrow> nat \<Rightarrow> vk_event list" where
  "cube_session D G window width height frames = (case nativeInit D [] of
     (None, l) \<Rightarrow> l
   | (Some r, l) \<Rightarrow> (case run_state (do {
         ok \<leftarrow> do { vk_emit (WindowTaken window); setSurface D window width height };
         (if ok then do { startRenderLoop; renderLoop D G frames } else vret []);
         vk_shutdown }) (r, l) of (_, (_, l')) \<Rightarrow> l'))"

lemma initialize_run:
  assumes "real_handles D"
  shows "run_state (vk_initialize D) (vk_renderer_init, l) = (True, (r, l')) \<Longrightarrow> mDevice r \<noteq> 0 \<and> mInstance r \<noteq> 0"
    and "run_state (vk_initialize D) (vk_renderer_init, l) = (False, (r, l')) \<Longrightarrow>
      mDevice r = 0 \<and> mSurface r = 0 \<and> mWindow r = 0"
  using assms
  by (auto simp: vk_initialize_def createInstance_def pickPhysicalDevice_def createDevice_def create_into_run this_vk_def set_vk_def
      real_handles_def vk_renderer_init_def split: option.splits list.splits)

lemma initial_empty: "owned_by p vk_renderer_init = {#}"
  by (cases p) (simp_all add: owned_by_def vk_renderer_init_def)

lemma initialize_made:
  assumes "real_handles D" "run_state (vk_initialize D) (vk_renderer_init, []) = (ok, (r, l))"
  shows "\<And>q. q \<notin> {PInstance, PDevice} \<Longrightarrow> owned_by q r = {#}" "\<exists>M. leftover D M \<and> objects_of l = owned UNIV r + M" "destroys_ok l"
proof -
  note made = makesD [OF makes_initialize [OF assms(1)] assms(2) initial_empty]
  show empty: "\<And>q. q \<notin> {PInstance, PDevice} \<Longrightarrow> owned_by q r = {#}"
    using made(1) initial_empty by (simp add: owned_by_def)
  then have "owned (- {PInstance, PDevice}) r = {#}" by (intro owned_none) auto
  then have "owned UNIV r = owned {PInstance, PDevice} r" using owned_split [of r "{PInstance, PDevice}"] by simp
  then show "\<exists>M. leftover D M \<and> objects_of l = owned UNIV r + M" using made(2) by auto
  show "destroys_ok l" using made(3) by simp
qed

lemma native_init_some:
  assumes "real_handles D" "nativeInit D [] = (Some r, l)"
  shows "accounted D (r, l)" "\<And>q. q \<notin> {PInstance, PDevice} \<Longrightarrow> owned_by q r = {#}"
proof -
  have run: "run_state (vk_initialize D) (vk_renderer_init, []) = (True, (r, l))"
    using assms(2) by (auto simp: nativeInit_def split: prod.splits bool.splits)
  show "accounted D (r, l)"
    using initialize_made [OF assms(1) run] initialize_run(1) [OF assms(1) run] by (simp add: accounted_def)
  show "\<And>q. q \<notin> {PInstance, PDevice} \<Longrightarrow> owned_by q r = {#}"
    by (rule initialize_made(1) [OF assms(1) run])
qed

lemma native_init_none:
  assumes "real_handles D" "nativeInit D [] = (None, l)"
  shows "destroys_ok l \<and> leftover D (objects_of l)"
proof -
  obtain r l1 where run: "run_state (vk_initialize D) (vk_renderer_init, []) = (False, (r, l1))"
      and l: "l = snd (snd (run_state vk_shutdown (r, l1)))"
    using assms(2) by (auto simp: nativeInit_def split: prod.splits bool.splits)
  note made = initialize_made [OF assms(1) run]
  have null: "mDevice r = 0" "mSurface r = 0" "mWindow r = 0" using initialize_run(2) [OF assms(1) run] by auto
  have "owned_by PDevice r = {#}" using null by (simp add: owned_by_def)
  then have "owned (- {PInstance}) r = {#}" using made(1) by (intro owned_none) (metis Compl_iff insert_iff)
  then have "owned UNIV r = held VkInstance [mInstance r]"
    using owned_split [of r "{PInstance}"] by (simp add: owned_by_def)
  then obtain M where M: "leftover D M" "objects_of l1 = held VkInstance [mInstance r] + M" using made(2) by auto
  have "may_destroy VkInstance M" using M(1) by (auto simp: may_destroy_def leftover_def)
  moreover have "l = destroyed (single VkInstance (mInstance r)) l1"
    unfolding l using null
    by (simp add: vk_shutdown_def stopRenderLoop_def set_vk_def this_vk_def destroy_if_run)
  ultimately show ?thesis using M made(3) by (cases "mInstance r = 0") auto
qed

lemma set_surface_accounted:
  assumes D: "real_handles D" and w: "w \<noteq> 0" and acc: "accounted D (r, l)"
    and empty: "\<And>q. q \<notin> {PInstance, PDevice} \<Longrightarrow> owned_by q r = {#}"
    and run: "run_state (setSurface D w x y) (r, WindowTaken w # l) = (ok, (r', l'))"
  shows "accounted D (r', l')"
proof -
  let ?r = "r\<lparr>mWindow := w, mWidth := x, mHeight := y\<rparr>"
  have same: "q \<noteq> PWindow \<Longrightarrow> handles q ?r = handles q r" for q by (cases q) simp_all
  have "owned_by PWindow r = {#}" by (rule empty) simp
  then have "owned UNIV ?r = add_mset (NativeWindow, w) (owned UNIV r)"
    using owned_change [of PWindow ?r r, OF same] w by (simp add: owned_by_def)
  then have acc': "accounted D (?r, WindowGeometry w x y # WindowTaken w # l)" using acc by (auto simp: accounted_def)
  have "run_state (all_ok [createSurface D, createSwapchain D, createRenderPass D, createDepthResources D,
     createFramebuffers D, createDescriptorSetLayout D, createGraphicsPipeline D, createVertexBuffer D, createIndexBuffer D,
     createUniformBuffer D, createDescriptorPool D, createDescriptorSets D, createCommandPool D, createCommandBuffers D,
     createSyncObjects D]) (?r, WindowGeometry w x y # WindowTaken w # l) = (ok, (r', l'))"
    using run by (simp add: setSurface_def set_vk_def vk_emit_def del: all_ok.simps)
  moreover have "owned_by p ?r = {#}" if "p \<in> \<Union> (set surface_parts)" for p
  proof -
    have "p \<notin> {PInstance, PDevice}" "p \<noteq> PWindow" using that by (auto simp: surface_parts_def)
    then show ?thesis using empty same by (simp add: owned_by_def)
  qed
  ultimately show ?thesis
    using makes_accounted [OF makes_surface_steps [OF D] _ acc'] by (auto simp: surface_parts_def)
qed


text \<open>A driver that says yes: every handle is new, the swapchain has three images.\<close>

fun created_handle :: "vk_event \<Rightarrow> nat" where
  "created_handle (Created i h) = h"
| "created_handle _ = 0"

definition yes_driver :: vk_driver where
  "yes_driver = \<lparr>dr_create = \<lambda>l i. Some (Suc (sum_list (map created_handle l))), dr_physicalDevices = \<lambda>i. [1], dr_queueFlags = \<lambda>d. [4, 7],
     dr_memoryTypes = \<lambda>d. [1, 6], dr_capabilities = \<lambda>l s. (2, 0, 1), dr_swapchainImages = \<lambda>c. [1, 2, 3],
     dr_requirements = \<lambda>l k h. (4096, 3), dr_map = \<lambda>l m. True, dr_allocateSet = \<lambda>l p. Some 1,
     dr_allocateCommands = \<lambda>l p n. Some [1..<Suc n], dr_wait = \<lambda>l f. True, dr_acquire = \<lambda>l c. (VK_SUCCESS, 0),
     dr_submit = \<lambda>l. True\<rparr>"

definition flat_glm :: glm where
  "flat_glm = \<lparr>gl_rotate = \<lambda>m a v. m, gl_lookAt = \<lambda>e c u. identity4, gl_perspective = \<lambda>f a n g. identity4,
     gl_radians = \<lambda>d. d, gl_times = \<lambda>a b. a, fl_add = (+), fl_aspect = \<lambda>w h. 1\<rparr>"

lemma yes_real: "real_handles yes_driver"
  by (simp add: real_handles_def yes_driver_def)


section \<open>Destroying twice\<close>

lemma destroyed_mono: "destroys_ok (destroyed xs l) \<Longrightarrow> destroys_ok l"
proof (induction xs arbitrary: l)
  case (Cons x xs)
  from Cons.IH [of "Destroyed (fst x) (snd x) # l"] Cons.prems show ?case by simp
qed simp

lemma destroyed_less: "x \<notin># objects_of l \<Longrightarrow> x \<notin># objects_of (destroyed xs l)"
proof (induction xs arbitrary: l)
  case (Cons y ys)
  have "x \<notin># objects_of (Destroyed (fst y) (snd y) # l)" using Cons.prems in_diffD [of x] by auto
  from Cons.IH [OF this] show ?case by simp
qed simp

lemma not_left: "leftover D L \<Longrightarrow> k \<noteq> VkShaderModule \<Longrightarrow> (k, h) \<notin># L"
  unfolding leftover_def by fastforce

text \<open>
  \<open>nativeDestroy\<close> shuts the renderer down and deletes it, whose destructor shuts it down
  again; \<open>shutdown\<close> leaves the handles in place.
\<close>

theorem destroy_shuts_down_twice:
  assumes D: "real_handles D" and init: "nativeInit D [] = (Some r, l)"
  shows "\<not> destroys_ok (nativeDestroy (Some r) l)"
proof -
  have acc: "accounted D (r, l)" by (rule native_init_some [OF D init])
  then have nz: "mDevice r \<noteq> 0" "mInstance r \<noteq> 0" by (simp_all add: accounted_def)
  obtain r1 where run1: "run_state vk_shutdown (r, l) =
      ((), (r1, last_objects r (destroyed (device_objects r @ [(VkDevice, mDevice r)]) (WaitedIdle # l))))"
    and same: "mDevice r1 = mDevice r" "mInstance r1 = mInstance r"
    using shutdown_run [OF nz, of l] by (elim exE conjE) (rule that)
  let ?l1 = "last_objects r (destroyed (device_objects r @ [(VkDevice, mDevice r)]) (WaitedIdle # l))"
  have left: "leftover D (objects_of ?l1)" using shutdown_ok(1) [OF acc run1] by simp
  have nz1: "mDevice r1 \<noteq> 0" "mInstance r1 \<noteq> 0" using nz same by simp_all
  obtain r2 where run2: "run_state vk_shutdown (r1, ?l1) =
      ((), (r2, last_objects r1 (destroyed (device_objects r1 @ [(VkDevice, mDevice r1)]) (WaitedIdle # ?l1))))"
    using shutdown_run [OF nz1, of ?l1] by (elim exE conjE) (rule that)
  have "(VkDevice, mDevice r1) \<notin># objects_of (destroyed (device_objects r1) (WaitedIdle # ?l1))"
    by (rule destroyed_less) (simp add: not_left [OF left])
  then have "\<not> destroys_ok (Destroyed VkDevice (mDevice r1) # destroyed (device_objects r1) (WaitedIdle # ?l1))"
    using nz same by simp
  moreover have "destroys_ok (last_objects r1 l') \<Longrightarrow> destroys_ok l'" for l'
    by (auto simp: last_objects_def dest: destroyed_mono split: if_splits)
  moreover have "nativeDestroy (Some r) l = last_objects r1
      (Destroyed VkDevice (mDevice r1) # destroyed (device_objects r1) (WaitedIdle # ?l1))"
    using run1 run2 by (simp add: nativeDestroy_def destroyed_append)
  ultimately show ?thesis by metis
qed

lemma yes_init: "\<exists>r l. nativeInit yes_driver [] = (Some r, l)"
  by (simp add: nativeInit_def vk_initialize_def createInstance_def pickPhysicalDevice_def createDevice_def create_into_run
      this_vk_def set_vk_def yes_driver_def)

theorem destroy_shuts_down_twice_witness:
  "\<exists>r l. nativeInit yes_driver [] = (Some r, l) \<and> \<not> destroys_ok (nativeDestroy (Some r) l)"
  using yes_init destroy_shuts_down_twice [OF yes_real] by blast

end
