(* ===== verification/Vulkan_Frames.thy ===== *)
theory Vulkan_Frames
  imports Vulkan_Theorems
begin

unbundle bit_operations_syntax

text \<open>
  Whether frames come back. A frame waits, without a timeout, for the fence that the
  submission before last was given; the wait returns when that submission was accepted and
  could run, that is, when the semaphore it waits for was signalled by an acquired image.
\<close>

section \<open>Fences and semaphores\<close>

text \<open>Read off the history, newest event first.\<close>

fun sem_signalled :: "vk_event list \<Rightarrow> nat \<Rightarrow> bool" where
  "sem_signalled [] s = False"
| "sem_signalled (Acquired s' res i # l) s = (if s' = s \<and> (res = VK_SUCCESS \<or> res = VK_SUBOPTIMAL) then True else sem_signalled l s)"
| "sem_signalled (Submitted b w s' f ok # l) s = (if ok \<and> w = s then False else if ok \<and> s' = s then True else sem_signalled l s)"
| "sem_signalled (Presented c s' i # l) s = (if s' = s then False else sem_signalled l s)"
| "sem_signalled (_ # l) s = sem_signalled l s"

datatype fence_status = NoFence | Signalled | Unsignalled | Running | Stuck

fun fence_state :: "vk_event list \<Rightarrow> nat \<Rightarrow> fence_status" where
  "fence_state [] f = NoFence"
| "fence_state (Created info h # l) f =
    (case info of FenceInfo b \<Rightarrow> if h = f then (if b then Signalled else Unsignalled) else fence_state l f | _ \<Rightarrow> fence_state l f)"
| "fence_state (Destroyed k h # l) f = (if k = VkFence \<and> h = f then NoFence else fence_state l f)"
| "fence_state (WaitedFence h # l) f = (if h = f then Signalled else fence_state l f)"
| "fence_state (ResetFence h # l) f = (if h = f then Unsignalled else fence_state l f)"
| "fence_state (Submitted b w s h ok # l) f =
    (if ok \<and> h = f then (if sem_signalled l w then Running else Stuck) else fence_state l f)"
| "fence_state (_ # l) f = fence_state l f"

definition will_signal :: "vk_event list \<Rightarrow> nat \<Rightarrow> bool" where
  "will_signal l f \<longleftrightarrow> fence_state l f \<in> {Signalled, Running}"

text \<open>
  The laws of a driver in good health, from the Vulkan specification: a handle it returns is
  new; a wait returns when the fence is signalled or its submission can run; nothing is
  refused; an image that is acquired is one of the swapchain's.
\<close>

definition obliging :: "vk_driver \<Rightarrow> bool" where
  "obliging D \<longleftrightarrow> (\<forall>l i. \<exists>h. dr_create D l i = Some h \<and> h \<noteq> 0 \<and> (kind_of i, h) \<notin># objects_of l) \<and>
     (\<forall>l f. will_signal l f \<longrightarrow> dr_wait D l f) \<and> (\<forall>l. dr_submit D l) \<and> (\<forall>l m. dr_map D l m) \<and>
     (\<forall>i. dr_physicalDevices D i \<noteq> []) \<and> (\<forall>l p. dr_allocateSet D l p \<noteq> None) \<and>
     (\<forall>l p n. \<exists>bs. dr_allocateCommands D l p n = Some bs \<and> length bs = n) \<and>
     (\<forall>l c. (case dr_acquire D l c of (res, i) \<Rightarrow>
        res = VK_OUT_OF_DATE \<or> (res = VK_SUCCESS \<or> res = VK_SUBOPTIMAL) \<and> i < length (dr_swapchainImages D c)))"

lemma obligingD:
  assumes "obliging D"
  shows "\<exists>h. dr_create D l i = Some h \<and> h \<noteq> 0 \<and> (kind_of i, h) \<notin># objects_of l"
    "will_signal l f \<Longrightarrow> dr_wait D l f" "dr_submit D l" "dr_map D l m" "dr_physicalDevices D k \<noteq> []"
    "\<exists>s. dr_allocateSet D l p = Some s" "\<exists>bs. dr_allocateCommands D l p n = Some bs \<and> length bs = n"
    "dr_acquire D l c = (res, j) \<Longrightarrow>
      res = VK_OUT_OF_DATE \<or> (res = VK_SUCCESS \<or> res = VK_SUBOPTIMAL) \<and> j < length (dr_swapchainImages D c)"
  using assms unfolding obliging_def by (fastforce split: prod.splits)+

lemma obliging_real: "obliging D \<Longrightarrow> real_handles D"
  unfolding real_handles_def by (metis obligingD(1) option.inject)

text \<open>What every frame finds: its vectors, a mapped matrix, fences that will signal, framebuffers.\<close>

definition frames_set_up :: "vk_driver \<Rightarrow> vk_renderer \<Rightarrow> bool" where
  "frames_set_up D r \<longleftrightarrow> length (mInFlightFences r) = 2 \<and> distinct (mInFlightFences r) \<and> length (mImageAvailableSemaphores r) = 2 \<and>
     length (mRenderFinishedSemaphores r) = 2 \<and> length (mCommandBuffers r) = 2 \<and> mCurrentFrame r < 2 \<and>
     mUniformBufferMapped r \<noteq> None \<and> length (mFramebuffers r) = length (dr_swapchainImages D (mSwapchain r))"

definition fences_fine :: "vk_renderer \<times> vk_event list \<Rightarrow> bool" where
  "fences_fine = (\<lambda>(r, l). \<forall>f \<in> set (mInFlightFences r). will_signal l f)"

section \<open>Recreating the swapchain\<close>

text \<open>An event that changes no fence.\<close>

fun no_fence :: "vk_event \<Rightarrow> bool" where
  "no_fence (Created (FenceInfo _) _) = False"
| "no_fence (Destroyed k _) = (k \<noteq> VkFence)"
| "no_fence (WaitedFence _) = False"
| "no_fence (ResetFence _) = False"
| "no_fence (Submitted _ _ _ _ ok) = (\<not> ok)"
| "no_fence _ = True"

lemma no_fence_state: "no_fence e \<Longrightarrow> fence_state (e # l) f = fence_state l f"
  by (cases e rule: no_fence.cases) auto

text \<open>
  \<open>calm R m\<close>: \<open>m\<close> appends events that change no fence, and relates the renderers before and
  after by \<open>R\<close>.
\<close>

definition calm :: "(vk_renderer \<Rightarrow> 'a \<Rightarrow> vk_renderer \<Rightarrow> bool) \<Rightarrow> 'a vkm \<Rightarrow> bool" where
  "calm R m \<longleftrightarrow> (\<forall>r l a r' l'. run_state m (r, l) = (a, (r', l')) \<longrightarrow> R r a r' \<and> (\<forall>f. fence_state l' f = fence_state l f))"

lemma calmI: "(\<And>r l a r' l'. run_state m (r, l) = (a, (r', l')) \<Longrightarrow> R r a r' \<and> (\<forall>f. fence_state l' f = fence_state l f)) \<Longrightarrow> calm R m"
  by (auto simp: calm_def)

lemma calmD: "calm R m \<Longrightarrow> run_state m (r, l) = (a, (r', l')) \<Longrightarrow> R r a r' \<and> (\<forall>f. fence_state l' f = fence_state l f)"
  unfolding calm_def by blast

lemma calm_bind:
  assumes "calm R m" "\<And>a. calm (S a) (f a)" "\<And>r a r1 b r2. R r a r1 \<Longrightarrow> S a r1 b r2 \<Longrightarrow> T r b r2"
  shows "calm T (State_Monad.bind m f)"
proof (rule calmI)
  fix r l b r2 l2
  assume "run_state (State_Monad.bind m f) (r, l) = (b, (r2, l2))"
  then obtain a r1 l1 where "run_state m (r, l) = (a, (r1, l1))" "run_state (f a) (r1, l1) = (b, (r2, l2))"
    by (auto split: prod.splits)
  then show "T r b r2 \<and> (\<forall>f. fence_state l2 f = fence_state l f)"
    using calmD [OF assms(1)] calmD [OF assms(2)] assms(3) by metis
qed

section \<open>The steps under an obliging driver\<close>

text \<open>What the steps of the set-up leave alone.\<close>

definition vitals :: "vk_renderer \<Rightarrow> nat list \<times> nat list \<times> nat list \<times> nat \<times> nat \<times> nat option" where
  "vitals r = (mInFlightFences r, mImageAvailableSemaphores r, mRenderFinishedSemaphores r, length (mCommandBuffers r),
     mCurrentFrame r, mUniformBufferMapped r)"

definition screen :: "vk_renderer \<Rightarrow> nat \<times> nat \<times> nat" where
  "screen r = (mSwapchain r, length (mSwapchainImageViews r), length (mFramebuffers r))"

definition keeps :: "vk_renderer \<Rightarrow> bool \<Rightarrow> vk_renderer \<Rightarrow> bool" where
  "keeps r ok r' \<longleftrightarrow> ok \<and> vitals r' = vitals r \<and> screen r' = screen r"

lemma calm_create_into:
  assumes "obliging D" "\<And>b. info \<noteq> FenceInfo b"
  shows "calm (\<lambda>r ok r'. ok \<and> (\<exists>h. r' = st h r)) (create_into D info st)"
proof (rule calmI)
  fix r l a r' l'
  assume run: "run_state (create_into D info st) (r, l) = (a, (r', l'))"
  obtain h where "dr_create D l info = Some h" using obligingD(1) [OF assms(1)] by blast
  then show "(a \<and> (\<exists>h. r' = st h r)) \<and> (\<forall>f. fence_state l' f = fence_state l f)"
    using run assms(2) by (auto simp: create_into_run split: vk_info.splits)
qed

lemma calm_keeps_create:
  assumes "obliging D" "\<And>b. info \<noteq> FenceInfo b" "\<And>h r. vitals (st h r) = vitals r \<and> screen (st h r) = screen r"
  shows "calm keeps (create_into D info st)"
  using calm_create_into [OF assms(1,2), of st] assms(3) unfolding calm_def keeps_def by blast

lemma calm_this: "(\<And>r. calm (\<lambda>r1 a r2. r1 = r \<longrightarrow> R r1 a r2) (f r)) \<Longrightarrow> calm R (State_Monad.bind this_vk f)"
  unfolding calm_def by (auto simp: this_vk_def)

lemma calm_weaken: "calm R m \<Longrightarrow> (\<And>r a r'. R r a r' \<Longrightarrow> S r a r') \<Longrightarrow> calm S m"
  unfolding calm_def by blast

lemma calm_history: "(\<And>l. calm R (f l)) \<Longrightarrow> calm R (State_Monad.bind history f)"
  unfolding calm_def by (auto simp: history_def)

lemma calm_allocate:
  assumes "obliging D"
  shows "calm (\<lambda>r ok r'. ok \<and> (\<exists>m. r' = st m r)) (allocate_for D kind obj props st)"
proof (rule calmI)
  fix r l a r' l'
  assume run: "run_state (allocate_for D kind obj props st) (r, l) = (a, (r', l'))"
  let ?q = "dr_requirements D l kind obj"
  let ?i = "MemoryInfo (fst ?q) (findMemoryType D (mPhysicalDevice r) (snd ?q) props)"
  obtain h where h: "dr_create D l ?i = Some h" using obligingD(1) [OF assms] by blast
  show "(a \<and> (\<exists>m. r' = st m r)) \<and> (\<forall>f. fence_state l' f = fence_state l f)"
    using run by (auto simp: allocate_for_def this_vk_def history_def create_def set_vk_def vk_emit_def split_beta h)
qed

lemma calm_set: "(\<And>r. R r () (f r)) \<Longrightarrow> calm R (set_vk f)"
  by (rule calmI) (auto simp: set_vk_def)

lemma calm_emit: "no_fence e \<Longrightarrow> calm (\<lambda>r a r'. r' = r) (vk_emit e)"
  by (rule calmI) (auto simp: vk_emit_def no_fence_state)

lemma calm_return: "calm (\<lambda>r b r'. b = a \<and> r' = r) (vret a)"
  by (rule calmI) auto

lemma calm_with_memory:
  assumes D: "obliging D" and i: "\<And>b. info \<noteq> FenceInfo b"
  shows "calm (\<lambda>r ok r'. ok \<and> (\<exists>b m. r' = st' m (st b r))) (State_Monad.bind (create D info) (\<lambda>x. case x of
     None \<Rightarrow> vret False | Some b \<Rightarrow> State_Monad.bind (set_vk (st b)) (\<lambda>_. allocate_for D kind b props st')))"
proof (rule calmI)
  fix r l a r' l'
  assume run: "run_state (State_Monad.bind (create D info) (\<lambda>x. case x of
     None \<Rightarrow> vret False | Some b \<Rightarrow> State_Monad.bind (set_vk (st b)) (\<lambda>_. allocate_for D kind b props st'))) (r, l) = (a, (r', l'))"
  obtain b where b: "dr_create D l info = Some b" using obligingD(1) [OF D] by blast
  then have "run_state (allocate_for D kind b props st') (st b r, Created info b # l) = (a, (r', l'))"
    using run by (simp add: create_def set_vk_def)
  from calmD [OF calm_allocate [OF D] this]
  show "(a \<and> (\<exists>b m. r' = st' m (st b r))) \<and> (\<forall>f. fence_state l' f = fence_state l f)"
    using i by (auto split: vk_info.splits)
qed

lemma calm_buffer:
  "obliging D \<Longrightarrow> calm (\<lambda>r ok r'. ok \<and> (\<exists>b m. r' = st' m (st b r))) (createBuffer D bytes usage props st st')"
  unfolding createBuffer_def by (rule calm_with_memory) auto

lemma calm_image:
  "obliging D \<Longrightarrow> calm (\<lambda>r ok r'. ok \<and> (\<exists>b m. r' = st' m (st b r))) (createImage D w h f u props st st')"
  unfolding createImage_def by (rule calm_with_memory) auto

lemma calm_view: "obliging D \<Longrightarrow> calm (\<lambda>r v r'. v \<noteq> 0 \<and> r' = r) (createImageView D i f a)"
proof (rule calmI)
  fix r l v r' l'
  assume D: "obliging D" and run: "run_state (createImageView D i f a) (r, l) = (v, (r', l'))"
  obtain h where "dr_create D l (ViewInfo i f a) = Some h" "h \<noteq> 0" using obligingD(1) [OF D] by blast
  then show "(v \<noteq> 0 \<and> r' = r) \<and> (\<forall>f. fence_state l' f = fence_state l f)"
    using run by (auto simp: createImageView_def create_def)
qed

lemma calm_upload: "calm (\<lambda>r a r'. r' = r) (upload_to D m u)"
  unfolding upload_to_def by (intro calm_history calm_emit) auto

lemma calm_views: "obliging D \<Longrightarrow> calm (\<lambda>r vs r'. length vs = length is \<and> r' = r) (create_views D is)"
proof (induction "is")
  case Nil
  then show ?case by (auto intro: calm_weaken [OF calm_return])
next
  case (Cons i "is")
  show ?case
    unfolding create_views.simps
    by (rule calm_bind [OF calm_view [OF Cons.prems]], rule calm_bind [OF Cons.IH [OF Cons.prems]], rule calm_return) auto
qed

definition screens :: "vk_driver \<Rightarrow> vk_renderer \<Rightarrow> bool \<Rightarrow> vk_renderer \<Rightarrow> bool" where
  "screens D r ok r' \<longleftrightarrow> ok \<and> vitals r' = vitals r \<and>
     length (mSwapchainImageViews r') = length (dr_swapchainImages D (mSwapchain r'))"

definition frames_it :: "vk_driver \<Rightarrow> vk_renderer \<Rightarrow> bool \<Rightarrow> vk_renderer \<Rightarrow> bool" where
  "frames_it D r ok r' \<longleftrightarrow> ok \<and> vitals r' = vitals r \<and>
     screen r' = (mSwapchain r, length (mSwapchainImageViews r), length (mSwapchainImageViews r))"

lemmas members = vitals_def screen_def

lemma calm_surface: "obliging D \<Longrightarrow> calm keeps (createSurface D)"
  unfolding createSurface_def
  by (rule calm_this, rule calm_weaken [OF calm_keeps_create]) (auto simp: members)

lemma calm_swapchain:
  assumes D: "obliging D"
  shows "calm (screens D) (createSwapchain D)"
proof (rule calmI)
  fix r l a r' l'
  assume run: "run_state (createSwapchain D) (r, l) = (a, (r', l'))"
  let ?c = "dr_capabilities D l (mSurface r)"
  let ?e = "(word_of_int (mWidth r), word_of_int (mHeight r))"
  let ?i = "SwapchainInfo \<lparr>sc_surface = mSurface r, sc_minImageCount = image_count (fst ?c) (fst (snd ?c)),
     sc_imageFormat = R8G8B8A8_UNORM, sc_imageExtent = ?e, sc_imageArrayLayers = 1, sc_preTransform = snd (snd ?c)\<rparr>"
  obtain h where h: "dr_create D l ?i = Some h" using obligingD(1) [OF D] by blast
  let ?r = "r\<lparr>mSwapchainExtent := ?e, mSwapchain := h, mSwapchainImages := dr_swapchainImages D h\<rparr>"
  obtain vs r1 l1 where views: "run_state (create_views D (dr_swapchainImages D h)) (?r, Created ?i h # l) = (vs, (r1, l1))"
    by (rule prod_cases3)
  then have "a \<and> r' = r1\<lparr>mSwapchainImageViews := vs\<rparr> \<and> l' = l1"
    using run h by (simp add: createSwapchain_def this_vk_def history_def set_vk_def split_beta Let_def create_into_run)
  then show "screens D r a r' \<and> (\<forall>f. fence_state l' f = fence_state l f)"
    using calmD [OF calm_views [OF D] views] by (auto simp: screens_def members)
qed

lemma calm_render_pass: "obliging D \<Longrightarrow> calm keeps (createRenderPass D)"
  unfolding createRenderPass_def by (rule calm_keeps_create) (auto simp: members)

lemma calm_set_layout: "obliging D \<Longrightarrow> calm keeps (createDescriptorSetLayout D)"
  unfolding createDescriptorSetLayout_def by (rule calm_keeps_create) (auto simp: members)

lemma calm_descriptor_pool: "obliging D \<Longrightarrow> calm keeps (createDescriptorPool D)"
  unfolding createDescriptorPool_def by (rule calm_keeps_create) (auto simp: members)

lemma calm_command_pool: "obliging D \<Longrightarrow> calm keeps (createCommandPool D)"
  unfolding createCommandPool_def
  by (rule calm_this, rule calm_weaken [OF calm_keeps_create]) (auto simp: members)

lemma calm_then:
  assumes "calm R m" "calm S n" "\<And>r r1 b r2. R r True r1 \<Longrightarrow> S r1 b r2 \<Longrightarrow> T r b r2" "\<And>r ok r1. R r ok r1 \<Longrightarrow> ok"
  shows "calm T (State_Monad.bind m (\<lambda>ok. if \<not> ok then vret False else n))"
proof (rule calm_bind [OF assms(1)])
  fix ok
  show "calm (\<lambda>r b r'. ok \<longrightarrow> S r b r') (if \<not> ok then vret False else n)"
    using assms(2) by (cases ok) (auto intro: calm_weaken [OF calm_return])
next
  fix r ok r1 b r2
  assume "R r ok r1" "ok \<longrightarrow> S r1 b r2"
  then show "T r b r2" using assms(3,4) by (metis (full_types))
qed

lemma calm_depth:
  assumes D: "obliging D"
  shows "calm keeps (createDepthResources D)"
proof -
  have "calm (\<lambda>r b r'. b = (v \<noteq> 0) \<and> r' = r\<lparr>mDepthImageView := v\<rparr>)
      (State_Monad.bind (set_vk (\<lambda>r. r\<lparr>mDepthImageView := v\<rparr>)) (\<lambda>_. vret (v \<noteq> 0)))" for v
    by (rule calmI) (auto simp: set_vk_def)
  note store = this
  have "calm (\<lambda>r b r'. b \<and> (\<exists>v. r' = r\<lparr>mDepthImageView := v\<rparr>)) (State_Monad.bind (createImageView D i D32_SFLOAT ASPECT_DEPTH)
      (\<lambda>v. State_Monad.bind (set_vk (\<lambda>r. r\<lparr>mDepthImageView := v\<rparr>)) (\<lambda>_. vret (v \<noteq> 0))))" for i
    by (rule calm_bind [OF calm_view [OF D]], rule store) auto
  note shown = this
  have view: "calm (\<lambda>r b r'. b \<and> (\<exists>v. r' = r\<lparr>mDepthImageView := v\<rparr>)) (State_Monad.bind this_vk (\<lambda>r.
      State_Monad.bind (createImageView D (mDepthImage r) D32_SFLOAT ASPECT_DEPTH)
      (\<lambda>v. State_Monad.bind (set_vk (\<lambda>r. r\<lparr>mDepthImageView := v\<rparr>)) (\<lambda>_. vret (v \<noteq> 0)))))"
    by (rule calm_this, rule calm_weaken [OF shown]) blast
  show ?thesis
    unfolding createDepthResources_def
    by (rule calm_this, rule calm_then [OF calm_image [OF D] view]) (auto simp: keeps_def members)
qed

lemma calm_framebuffers_from:
  assumes D: "obliging D"
  shows "calm (\<lambda>r ok r'. ok \<and> (\<exists>fs. length fs = length (mFramebuffers r) \<and> r' = r\<lparr>mFramebuffers := fs\<rparr>)) (framebuffers_from D i views)"
proof (induction views arbitrary: i)
  case Nil
  have "\<exists>fs. length fs = length (mFramebuffers r) \<and> r = r\<lparr>mFramebuffers := fs\<rparr>" for r
    by (rule exI [of _ "mFramebuffers r"]) simp
  then show ?case unfolding framebuffers_from.simps by (intro calm_weaken [OF calm_return]) auto
next
  case (Cons view views)
  show ?case
    unfolding framebuffers_from.simps
  proof (rule calm_this, rule calm_then [OF calm_create_into [OF D] Cons.IH])
    fix r r1 r2 r3 b
    assume "True \<and> (\<exists>h. r2 = r1\<lparr>mFramebuffers := (mFramebuffers r1)[i := h]\<rparr>)"
      "b \<and> (\<exists>fs. length fs = length (mFramebuffers r2) \<and> r3 = r2\<lparr>mFramebuffers := fs\<rparr>)"
    then show "r1 = r \<longrightarrow> b \<and> (\<exists>fs. length fs = length (mFramebuffers r1) \<and> r3 = r1\<lparr>mFramebuffers := fs\<rparr>)" by auto
  qed auto
qed

lemma calm_framebuffers:
  assumes "obliging D"
  shows "calm (frames_it D) (createFramebuffers D)"
  unfolding createFramebuffers_def
  by (rule calm_bind [OF calm_set [where R = "\<lambda>r _ r'. r' = r\<lparr>mFramebuffers := resized (length (mSwapchainImageViews r)) (mFramebuffers r)\<rparr>"]],
      rule refl, rule calm_this, rule calm_weaken [OF calm_framebuffers_from [OF assms]], rule impI, assumption)
    (auto simp: frames_it_def members)

lemma calm_pipeline_with:
  assumes D: "obliging D"
  shows "calm keeps (pipeline_with D v f)"
proof (rule calmI)
  fix r l a r' l'
  assume run: "run_state (pipeline_with D v f) (r, l) = (a, (r', l'))"
  let ?i = "PipelineLayoutInfo [mDescriptorSetLayout r]"
  obtain h where h: "dr_create D l ?i = Some h" using obligingD(1) [OF D] by blast
  let ?j = "PipelineInfo (cube_pipeline v f h (mRenderPass r))"
  obtain k where "dr_create D (Created ?i h # l) ?j = Some k" using obligingD(1) [OF D] by blast
  then have "a \<and> r' = r\<lparr>mPipelineLayout := h, mGraphicsPipeline := k\<rparr> \<and>
      l' = Destroyed VkShaderModule f # Destroyed VkShaderModule v # Created ?j k # Created ?i h # l"
    using run h by (auto simp: pipeline_with_def this_vk_def create_into_run destroy_def vk_emit_def)
  then show "keeps r a r' \<and> (\<forall>f. fence_state l' f = fence_state l f)"
    by (auto simp: keeps_def members)
qed

lemma calm_module: "obliging D \<Longrightarrow> calm (\<lambda>r v r'. v \<noteq> 0 \<and> r' = r) (createShaderModule D code n)"
proof (rule calmI)
  fix r l v r' l'
  assume D: "obliging D" and run: "run_state (createShaderModule D code n) (r, l) = (v, (r', l'))"
  obtain h where "dr_create D l (ShaderInfo code n) = Some h" "h \<noteq> 0" using obligingD(1) [OF D] by blast
  then show "(v \<noteq> 0 \<and> r' = r) \<and> (\<forall>f. fence_state l' f = fence_state l f)"
    using run by (auto simp: createShaderModule_def create_def)
qed

lemma calm_pipeline:
  assumes D: "obliging D"
  shows "calm keeps (createGraphicsPipeline D)"
proof -
  have "calm (\<lambda>r a r'. v \<noteq> 0 \<and> f \<noteq> 0 \<longrightarrow> keeps r a r') (if v = 0 \<or> f = 0 then vret False else pipeline_with D v f)" for v f
    using calm_pipeline_with [OF D, of v f] by (auto intro: calm_weaken [OF calm_return])
  note rest = this
  have "calm (\<lambda>r a r'. v \<noteq> 0 \<longrightarrow> keeps r a r') (State_Monad.bind
      (createShaderModule D getFragmentShaderCode (length getFragmentShaderCode * 4))
      (\<lambda>f. if v = 0 \<or> f = 0 then vret False else pipeline_with D v f))" for v
    by (rule calm_bind [OF calm_module [OF D]], rule rest) auto
  note rest' = this
  show ?thesis
    unfolding createGraphicsPipeline_def by (rule calm_bind [OF calm_module [OF D]], rule rest') auto
qed

lemma calm_fill:
  "calm (\<lambda>r b r'. b \<and> r' = r) (State_Monad.bind this_vk (\<lambda>r. State_Monad.bind (upload_to D (m r) u) (\<lambda>_. vret True)))"
  by (rule calm_this, rule calm_bind [OF calm_upload], rule calm_return) auto

lemma calm_vertex:
  assumes "obliging D"
  shows "calm keeps (createVertexBuffer D)"
  unfolding createVertexBuffer_def
  by (rule calm_then [OF calm_buffer [OF assms] calm_fill]) (auto simp: keeps_def members)

lemma calm_index:
  assumes "obliging D"
  shows "calm keeps (createIndexBuffer D)"
proof -
  have rest: "calm keeps (State_Monad.bind (createBuffer D (2 * length getIndices) INDEX_BUFFER (2 OR 4)
       (\<lambda>h r. r\<lparr>mIndexBuffer := h\<rparr>) (\<lambda>h r. r\<lparr>mIndexBufferMemory := h\<rparr>)) (\<lambda>ok. if \<not> ok then vret False
     else State_Monad.bind this_vk (\<lambda>r. State_Monad.bind (upload_to D (mIndexBufferMemory r) (Indices getIndices)) (\<lambda>_. vret True))))"
    by (rule calm_then [OF calm_buffer [OF assms] calm_fill]) (auto simp: keeps_def members)
  show ?thesis
    unfolding createIndexBuffer_def
    by (rule calm_bind [OF calm_set [where R = "\<lambda>r _ r'. r' = r\<lparr>mIndexCount := length getIndices\<rparr>"] rest])
      (auto simp: keeps_def members)
qed

definition maps_it :: "vk_renderer \<Rightarrow> bool \<Rightarrow> vk_renderer \<Rightarrow> bool" where
  "maps_it r ok r' \<longleftrightarrow> ok \<and> screen r' = screen r \<and> mUniformBufferMapped r' \<noteq> None \<and>
     vitals (r'\<lparr>mUniformBufferMapped := None\<rparr>) = vitals (r\<lparr>mUniformBufferMapped := None\<rparr>)"

lemma calm_uniform:
  assumes D: "obliging D"
  shows "calm maps_it (createUniformBuffer D)"
proof -
  have mapping: "calm (\<lambda>r b r'. b \<and> r' = r\<lparr>mUniformBufferMapped := Some (mUniformBufferMemory r)\<rparr>)
      (State_Monad.bind history (\<lambda>l. State_Monad.bind
        (set_vk (\<lambda>r. r\<lparr>mUniformBufferMapped := (if dr_map D l (mUniformBufferMemory r) then Some (mUniformBufferMemory r) else None)\<rparr>))
        (\<lambda>_. vret True)))"
    by (rule calmI) (auto simp: history_def set_vk_def obligingD(4) [OF D])
  show ?thesis
    unfolding createUniformBuffer_def
    by (rule calm_then [OF calm_buffer [OF D] mapping]) (auto simp: maps_it_def members)
qed

lemma calm_sets:
  assumes D: "obliging D"
  shows "calm keeps (createDescriptorSets D)"
proof (rule calmI)
  fix r l a r' l'
  assume run: "run_state (createDescriptorSets D) (r, l) = (a, (r', l'))"
  obtain s where "dr_allocateSet D l (mDescriptorPool r) = Some s" using obligingD(6) [OF D] by blast
  then show "keeps r a r' \<and> (\<forall>f. fence_state l' f = fence_state l f)"
    using run by (auto simp: createDescriptorSets_def this_vk_def history_def vk_emit_def set_vk_def keeps_def members)
qed

definition two_buffers :: "vk_renderer \<Rightarrow> bool \<Rightarrow> vk_renderer \<Rightarrow> bool" where
  "two_buffers r ok r' \<longleftrightarrow> ok \<and> length (mCommandBuffers r') = 2 \<and> (\<exists>bs. r' = r\<lparr>mCommandBuffers := bs\<rparr>)"

lemma calm_command_buffers:
  assumes D: "obliging D"
  shows "calm two_buffers (createCommandBuffers D)"
proof (rule calmI)
  fix r l a r' l'
  assume run: "run_state (createCommandBuffers D) (r, l) = (a, (r', l'))"
  obtain bs where "dr_allocateCommands D l (mCommandPool r) 2 = Some bs" "length bs = 2" using obligingD(7) [OF D] by blast
  then show "two_buffers r a r' \<and> (\<forall>f. fence_state l' f = fence_state l f)"
    using run by (auto simp: createCommandBuffers_def this_vk_def history_def vk_emit_def set_vk_def two_buffers_def MAX_FRAMES_IN_FLIGHT_def)
qed

section \<open>The set-up\<close>

lemma run_all_ok_append: "run_state (all_ok (xs @ ys)) s =
    (case run_state (all_ok xs) s of (ok, s') \<Rightarrow> if ok then run_state (all_ok ys) s' else (False, s'))"
  by (induction xs arbitrary: s) (auto split: prod.splits)

text \<open>
  \<open>sets A B C\<close>: a step that succeeds, keeps the vectors of the frames, and sets up the
  framebuffers, the mapping or the command buffers, or else keeps them.
\<close>

definition sets :: "vk_driver \<Rightarrow> bool \<Rightarrow> bool \<Rightarrow> bool \<Rightarrow> vk_renderer \<Rightarrow> bool \<Rightarrow> vk_renderer \<Rightarrow> bool" where
  "sets D A B C r ok r' \<longleftrightarrow> ok \<and>
     (mInFlightFences r', mImageAvailableSemaphores r', mRenderFinishedSemaphores r', mCurrentFrame r') =
       (mInFlightFences r, mImageAvailableSemaphores r, mRenderFinishedSemaphores r, mCurrentFrame r) \<and>
     (if A then length (mFramebuffers r') = length (dr_swapchainImages D (mSwapchain r')) else screen r' = screen r) \<and>
     (if B then mUniformBufferMapped r' \<noteq> None else mUniformBufferMapped r' = mUniformBufferMapped r) \<and>
     (if C then length (mCommandBuffers r') = 2 else length (mCommandBuffers r') = length (mCommandBuffers r))"

lemma sets_then: "sets D A B C r True r1 \<Longrightarrow> sets D A' B' C' r1 b r2 \<Longrightarrow> sets D (A \<or> A') (B \<or> B') (C \<or> C') r b r2"
  by (auto simp: sets_def screen_def split: if_splits)

lemma keeps_sets: "keeps r ok r' \<Longrightarrow> sets D False False False r ok r'"
  by (simp add: keeps_def sets_def vitals_def)

lemma calm_all_Nil: "calm (sets D False False False) (all_ok [])"
  by (rule calmI) (simp add: sets_def)

lemma calm_all_Cons:
  assumes "calm R m" "\<And>r ok r'. R r ok r' \<Longrightarrow> sets D A B C r ok r'" "calm (sets D A' B' C') (all_ok ms)"
  shows "calm (sets D (A \<or> A') (B \<or> B') (C \<or> C')) (all_ok (m # ms))"
proof -
  have ok: "R r ok r1 \<Longrightarrow> ok" for r ok r1 using assms(2) [of r ok r1] by (simp add: sets_def)
  show ?thesis
    unfolding all_ok.simps by (rule calm_then [OF assms(1,3)]) (blast intro: sets_then assms(2) ok)+
qed

lemma calm_rebuild:
  assumes D: "obliging D"
  shows "calm (sets D True False False) (all_ok [createSwapchain D, createRenderPass D, createDepthResources D, createFramebuffers D])"
proof -
  have views: "screens D r b r1 \<Longrightarrow> keeps r1 b1 r2 \<Longrightarrow> screens D r b1 r2" for r b r1 b1 r2
    by (auto simp: screens_def keeps_def members)
  have last: "screens D r b r1 \<Longrightarrow> frames_it D r1 b1 r2 \<Longrightarrow> sets D True False False r b1 r2" for r b r1 b1 r2
    by (auto simp: screens_def frames_it_def sets_def members)
  have one: "calm (frames_it D) (all_ok [createFramebuffers D])"
    unfolding all_ok.simps by (rule calm_then [OF calm_framebuffers [OF D] calm_return]) (auto simp: frames_it_def)
  show ?thesis
    unfolding all_ok.simps(2) [of "createSwapchain D"] all_ok.simps(2) [of "createRenderPass D"] all_ok.simps(2) [of "createDepthResources D"]
    by (rule calm_then [where R = "screens D" and S = "\<lambda>r b r'. \<forall>s c. screens D s c r \<longrightarrow> sets D True False False s b r'",
          OF calm_swapchain [OF D] calm_then [where R = keeps and
            S = "\<lambda>r b r'. \<forall>s c. screens D s c r \<longrightarrow> sets D True False False s b r'", OF calm_render_pass [OF D]
            calm_then [where R = keeps and S = "frames_it D", OF calm_depth [OF D] one]]])
      (blast intro: views last | simp add: screens_def keeps_def)+
qed

lemma calm_setup:
  assumes D: "obliging D"
  shows "calm (sets D True True True) (all_ok [createSurface D, createSwapchain D, createRenderPass D, createDepthResources D,
     createFramebuffers D, createDescriptorSetLayout D, createGraphicsPipeline D, createVertexBuffer D, createIndexBuffer D,
     createUniformBuffer D, createDescriptorPool D, createDescriptorSets D, createCommandPool D, createCommandBuffers D])"
proof -
  have maps: "maps_it r ok r' \<Longrightarrow> sets D False True False r ok r'" for r ok r'
    by (simp add: maps_it_def sets_def vitals_def)
  have bufs: "two_buffers r ok r' \<Longrightarrow> sets D False False True r ok r'" for r ok r'
    by (auto simp: two_buffers_def sets_def members)
  note nil = calm_all_Nil [of D]
  have "calm (sets D (False \<or> False \<or> False \<or> False \<or> False \<or> False \<or> False \<or> False \<or> False \<or> False)
      (False \<or> False \<or> False \<or> False \<or> True \<or> False \<or> False \<or> False \<or> False \<or> False)
      (False \<or> False \<or> False \<or> False \<or> False \<or> False \<or> False \<or> False \<or> True \<or> False))
    (all_ok [createDescriptorSetLayout D, createGraphicsPipeline D, createVertexBuffer D, createIndexBuffer D,
     createUniformBuffer D, createDescriptorPool D, createDescriptorSets D, createCommandPool D, createCommandBuffers D])"
    by (intro calm_all_Cons [OF calm_set_layout] calm_all_Cons [OF calm_pipeline] calm_all_Cons [OF calm_vertex]
         calm_all_Cons [OF calm_index] calm_all_Cons [OF calm_uniform] calm_all_Cons [OF calm_descriptor_pool]
         calm_all_Cons [OF calm_sets] calm_all_Cons [OF calm_command_pool] calm_all_Cons [OF calm_command_buffers] nil)
      (rule D | erule keeps_sets | erule maps | erule bufs)+
  then have tail: "calm (sets D False True True) (all_ok [createDescriptorSetLayout D, createGraphicsPipeline D, createVertexBuffer D,
     createIndexBuffer D, createUniformBuffer D, createDescriptorPool D, createDescriptorSets D, createCommandPool D,
     createCommandBuffers D])" by simp
  show ?thesis
  proof (rule calmI)
    fix r l a r' l'
    let ?mid = "[createSwapchain D, createRenderPass D, createDepthResources D, createFramebuffers D]"
    let ?tail = "[createDescriptorSetLayout D, createGraphicsPipeline D, createVertexBuffer D,
     createIndexBuffer D, createUniformBuffer D, createDescriptorPool D, createDescriptorSets D, createCommandPool D,
     createCommandBuffers D]"
    assume run: "run_state (all_ok [createSurface D, createSwapchain D, createRenderPass D, createDepthResources D,
     createFramebuffers D, createDescriptorSetLayout D, createGraphicsPipeline D, createVertexBuffer D, createIndexBuffer D,
     createUniformBuffer D, createDescriptorPool D, createDescriptorSets D, createCommandPool D, createCommandBuffers D]) (r, l)
     = (a, (r', l'))"
    obtain a1 r1 l1 where run1: "run_state (createSurface D) (r, l) = (a1, (r1, l1))" by (rule prod_cases3)
    obtain a2 r2 l2 where run2: "run_state (all_ok ?mid) (r1, l1) = (a2, (r2, l2))" by (rule prod_cases3)
    note first = calmD [OF calm_surface [OF D] run1]
    note second = calmD [OF calm_rebuild [OF D] run2]
    have "all_ok (createSurface D # ?mid @ ?tail) = State_Monad.bind (createSurface D) (\<lambda>ok. if \<not> ok then vret False else all_ok (?mid @ ?tail))"
      by (rule all_ok.simps(2))
    then have "run_state (all_ok (?mid @ ?tail)) (r1, l1) = (a, (r', l'))"
      using run run1 first by (simp add: keeps_def del: all_ok.simps)
    then have "run_state (all_ok ?tail) (r2, l2) = (a, (r', l'))"
      using second unfolding run_all_ok_append run2 by (simp add: sets_def del: all_ok.simps)
    from calmD [OF tail this] first second sets_then [OF sets_then, of D False False False r r1 True False False r2 False True True a r']
    show "sets D True True True r a r' \<and> (\<forall>f. fence_state l' f = fence_state l f)"
      using keeps_sets [of r a1 r1 D] by (auto simp: keeps_def sets_def)
  qed
qed

lemma created_objects: "obliging D \<Longrightarrow> dr_create D l i = Some h \<Longrightarrow> (kind_of i, h) \<notin># objects_of l"
  by (metis obligingD(1) option.inject)

lemma length_two: "length zs = 2 \<Longrightarrow> \<exists>x y. zs = [x, y]"
  by (auto simp: numeral_2_eq_2 length_Suc_conv)

lemma sync_run:
  assumes D: "obliging D" and run: "run_state (createSyncObjects D) (r, l) = (ok, (r', l'))"
  shows "\<exists>as fs es. ok \<and> r' = r\<lparr>mImageAvailableSemaphores := as, mRenderFinishedSemaphores := fs, mInFlightFences := es\<rparr> \<and>
    length as = 2 \<and> length fs = 2 \<and> length es = 2 \<and> distinct es \<and> fences_fine (r', l')"
proof -
  have step: "\<exists>h. dr_create D l i = Some h" for l i using obligingD(1) [OF D] by blast
  obtain a0 where a0: "dr_create D l SemaphoreInfo = Some a0" using step by blast
  let ?l1 = "Created SemaphoreInfo a0 # l"
  obtain f0 where f0: "dr_create D ?l1 SemaphoreInfo = Some f0" using step by blast
  let ?l2 = "Created SemaphoreInfo f0 # ?l1"
  obtain e0 where e0: "dr_create D ?l2 (FenceInfo True) = Some e0" using step by blast
  let ?l3 = "Created (FenceInfo True) e0 # ?l2"
  obtain a1 where a1: "dr_create D ?l3 SemaphoreInfo = Some a1" using step by blast
  let ?l4 = "Created SemaphoreInfo a1 # ?l3"
  obtain f1 where f1: "dr_create D ?l4 SemaphoreInfo = Some f1" using step by blast
  let ?l5 = "Created SemaphoreInfo f1 # ?l4"
  obtain e1 where e1: "dr_create D ?l5 (FenceInfo True) = Some e1" using step by blast
  have "e1 \<noteq> e0" using created_objects [OF D e1] by auto
  moreover have two: "\<exists>x y. resized 2 xs = [x, y]" for xs
    by (rule length_two) simp
  obtain x0 x1 where x: "resized 2 (mImageAvailableSemaphores r) = [x0, x1]" using two by blast
  obtain y0 y1 where y: "resized 2 (mRenderFinishedSemaphores r) = [y0, y1]" using two by blast
  obtain z0 z1 where z: "resized 2 (mInFlightFences r) = [z0, z1]" using two by blast
  have "ok \<and> r' = r\<lparr>mImageAvailableSemaphores := [a0, a1], mRenderFinishedSemaphores := [f0, f1], mInFlightFences := [e0, e1]\<rparr> \<and>
      l' = Created (FenceInfo True) e1 # ?l5"
    using run a0 f0 e0 a1 f1 e1 x y z
    by (simp add: createSyncObjects_def MAX_FRAMES_IN_FLIGHT_def numeral_2_eq_2 set_vk_def create_into_run)
  ultimately show ?thesis
    by (intro exI [of _ "[a0, a1]"] exI [of _ "[f0, f1]"] exI [of _ "[e0, e1]"]) (auto simp: fences_fine_def will_signal_def)
qed

lemma set_surface_run:
  assumes D: "obliging D" and run: "run_state (setSurface D w x y) (r, l) = (ok, (r', l'))" and frame: "mCurrentFrame r < 2"
  shows "ok \<and> frames_set_up D r' \<and> fences_fine (r', l')"
proof -
  let ?ms = "[createSurface D, createSwapchain D, createRenderPass D, createDepthResources D,
     createFramebuffers D, createDescriptorSetLayout D, createGraphicsPipeline D, createVertexBuffer D, createIndexBuffer D,
     createUniformBuffer D, createDescriptorPool D, createDescriptorSets D, createCommandPool D, createCommandBuffers D]"
  let ?r = "r\<lparr>mWindow := w, mWidth := x, mHeight := y\<rparr>"
  obtain a1 r1 l1 where run1: "run_state (all_ok ?ms) (?r, WindowGeometry w x y # l) = (a1, (r1, l1))" by (rule prod_cases3)
  note first = calmD [OF calm_setup [OF D] run1]
  have "run_state (all_ok (?ms @ [createSyncObjects D])) (?r, WindowGeometry w x y # l) = (ok, (r', l'))"
    using run by (simp add: setSurface_def set_vk_def vk_emit_def del: all_ok.simps)
  then have rest: "run_state (all_ok [createSyncObjects D]) (r1, l1) = (ok, (r', l'))"
    unfolding run_all_ok_append run1 using first by (simp add: sets_def del: all_ok.simps)
  obtain b r2 l2 where run2: "run_state (createSyncObjects D) (r1, l1) = (b, (r2, l2))" by (rule prod_cases3)
  then have e: "ok = b" "r2 = r'" "l2 = l'" using rest by (auto split: if_splits)
  from sync_run [OF D run2 [unfolded e(2,3)]] first frame show ?thesis
    by (auto simp: e(1) frames_set_up_def sets_def)
qed

section \<open>Recreating the swapchain\<close>

lemma destroyed_no_fence: "VkFence \<notin> fst ` set xs \<Longrightarrow> fence_state (destroyed xs l) f = fence_state l f"
  by (induction xs arbitrary: l) auto

lemma calm_recreate:
  assumes D: "obliging D"
  shows "calm (\<lambda>r u r'. sets D True False False r True r') (recreateSwapchain D)"
proof (rule calmI)
  fix r l u r' l'
  assume run: "run_state (recreateSwapchain D) (r, l) = (u, (r', l'))"
  let ?l1 = "destroyed (swap_objects r) (WaitedIdle # l)"
  let ?ms = "[createSwapchain D, createRenderPass D, createDepthResources D, createFramebuffers D]"
  obtain b r2 l2 where run2: "run_state (all_ok ?ms) (cleared r, ?l1) = (b, (r2, l2))" by (rule prod_cases3)
  note mid = calmD [OF calm_rebuild [OF D] run2]
  obtain c r3 l3 where run3: "run_state (createGraphicsPipeline D) (r2, l2) = (c, (r3, l3))" by (rule prod_cases3)
  note last = calmD [OF calm_pipeline [OF D] run3]
  have b: "b" using mid by (simp add: sets_def)
  have "run_state (do { createSwapchain D; createRenderPass D; createDepthResources D; createFramebuffers D }) (cleared r, ?l1) = (True, (r2, l2))"
    using run2 b by (auto split: prod.splits if_splits)
  then have e: "r' = r3" "l' = l3"
    using run run3 by (auto simp: recreateSwapchain_def vk_emit_def cleanup_run split: prod.splits)
  have "VkFence \<notin> fst ` set (swap_objects r)" unfolding swap_objects_def by (auto dest!: single_set)
  then have "\<forall>f. fence_state ?l1 f = fence_state l f" by (simp add: destroyed_no_fence)
  moreover have "sets D True False False (cleared r) True r3"
    using sets_then [of D True False False "cleared r" r2 False False False c r3] mid last keeps_sets [of r2 c r3 D] b
    by (auto simp: keeps_def)
  then have "sets D True False False r True r3" by (auto simp: sets_def cleared_def)
  ultimately show "sets D True False False r True r' \<and> (\<forall>f. fence_state l' f = fence_state l f)"
    using mid last by (simp add: e)
qed

section \<open>Frames\<close>

lemma acquired_image: "obliging D \<Longrightarrow> dr_acquire D l c = (res, j) \<Longrightarrow> res \<noteq> VK_OUT_OF_DATE \<Longrightarrow>
    (res = VK_SUCCESS \<or> res = VK_SUBOPTIMAL) \<and> j < length (dr_swapchainImages D c)"
  using obligingD(8) by blast

text \<open>A frame whose fence will signal: what it appends, apart from a recreated swapchain.\<close>

lemma frame_run:
  assumes D: "obliging (D\<lparr>dr_submit := \<lambda>_. True\<rparr>)" and r: "frames_set_up D r" and fine: "will_signal l (mInFlightFences r ! mCurrentFrame r)"
    and run: "run_state (renderFrame D G) (r, l) = (out, (r', l'))"
  shows "(\<exists>m u cs i c j res. (res = VK_SUCCESS \<or> res = VK_SUBOPTIMAL) \<and> out = Drawn \<and>
      frames_set_up D r' \<and> mInFlightFences r' = mInFlightFences r \<and> mCurrentFrame r' = (mCurrentFrame r + 1) mod 2 \<and>
      l' = Presented c (mRenderFinishedSemaphores r ! mCurrentFrame r) i #
        Submitted j (mImageAvailableSemaphores r ! mCurrentFrame r) (mRenderFinishedSemaphores r ! mCurrentFrame r)
          (mInFlightFences r ! mCurrentFrame r) (dr_submit D (Recorded j cs # Uploaded m u # ResetFence (mInFlightFences r ! mCurrentFrame r) #
            Acquired (mImageAvailableSemaphores r ! mCurrentFrame r) res i # WaitedFence (mInFlightFences r ! mCurrentFrame r) # l)) #
        Recorded j cs # Uploaded m u # ResetFence (mInFlightFences r ! mCurrentFrame r) #
        Acquired (mImageAvailableSemaphores r ! mCurrentFrame r) res i # WaitedFence (mInFlightFences r ! mCurrentFrame r) # l) \<or>
    (\<exists>i. out = Recreated \<and> run_state (recreateSwapchain D)
      (r, Acquired (mImageAvailableSemaphores r ! mCurrentFrame r) VK_OUT_OF_DATE i # WaitedFence (mInFlightFences r ! mCurrentFrame r) # l)
      = ((), (r', l')))"
proof -
  let ?f = "mInFlightFences r ! mCurrentFrame r"
  have ready: "frame_ready r" using r by (simp add: frames_set_up_def frame_ready_def)
  have "dr_wait D l ?f" using obligingD(2) [OF D fine] by simp
  obtain res i where acq: "dr_acquire D (WaitedFence ?f # l) (mSwapchain r) = (res, i)" by fastforce
  show ?thesis
  proof (cases "res = VK_OUT_OF_DATE")
    case True
    then show ?thesis
      using run ready \<open>dr_wait D l ?f\<close> acq
      by (auto simp: renderFrame_def this_vk_def history_def vk_emit_def split: prod.splits)
  next
    case False
    then have good: "res = VK_SUCCESS \<or> res = VK_SUBOPTIMAL" "i < length (mFramebuffers r)"
      using acquired_image [OF D, of "WaitedFence ?f # l" "mSwapchain r" res i] acq r by (auto simp: frames_set_up_def)
    obtain m where m: "mUniformBufferMapped r = Some m" using r by (auto simp: frames_set_up_def)
    let ?r = "r\<lparr>mAutoRotation := fl_add G (mAutoRotation r) (1 / 100)\<rparr>"
    have "out = Drawn \<and> r' = ?r\<lparr>mCurrentFrame := (mCurrentFrame r + 1) mod 2\<rparr> \<and>
      l' = Presented (mSwapchain r) (mRenderFinishedSemaphores r ! mCurrentFrame r) i #
        Submitted (mCommandBuffers r ! mCurrentFrame r) (mImageAvailableSemaphores r ! mCurrentFrame r) (mRenderFinishedSemaphores r ! mCurrentFrame r)
          ?f (dr_submit D (Recorded (mCommandBuffers r ! mCurrentFrame r) (cube_commands ?r (mFramebuffers r ! i)) #
             Uploaded m (Uniforms (frame_matrix G ?r)) # ResetFence ?f #
            Acquired (mImageAvailableSemaphores r ! mCurrentFrame r) res i # WaitedFence ?f # l)) #
        Recorded (mCommandBuffers r ! mCurrentFrame r) (cube_commands ?r (mFramebuffers r ! i)) #
        Uploaded m (Uniforms (frame_matrix G ?r)) # ResetFence ?f #
        Acquired (mImageAvailableSemaphores r ! mCurrentFrame r) res i # WaitedFence ?f # l"
      using run ready \<open>dr_wait D l ?f\<close> acq False good(2) m
      by (simp add: renderFrame_def draw_image_def updateUniformBuffer_def recordCommandBuffer_def submit_frame_def this_vk_def
          history_def vk_emit_def set_vk_def Let_def MAX_FRAMES_IN_FLIGHT_def)
    moreover from this have "frames_set_up D r'" "mInFlightFences r' = mInFlightFences r" "mCurrentFrame r' = (mCurrentFrame r + 1) mod 2"
      using r by (simp_all add: frames_set_up_def)
    ultimately show ?thesis using good(1) by blast
  qed
qed

lemma frames_keep:
  assumes D: "obliging D" and r: "frames_set_up D r" and fine: "fences_fine (r, l)"
    and run: "run_state (renderFrame D G) (r, l) = (out, (r', l'))"
  shows "out \<in> {Drawn, Recreated} \<and> frames_set_up D r' \<and> fences_fine (r', l')"
proof -
  let ?f = "mInFlightFences r ! mCurrentFrame r"
  have D': "obliging (D\<lparr>dr_submit := \<lambda>_. True\<rparr>)" using D by (auto simp: obliging_def)
  have cur: "will_signal l ?f" using r fine by (auto simp: frames_set_up_def fences_fine_def)
  from frame_run [OF D' r cur run] show ?thesis
  proof (elim disjE exE conjE, goal_cases)
    case (1 m u cs i c j res)
    then show ?case using fine obligingD(3) [OF D] by (auto simp: fences_fine_def will_signal_def)
  next
    case (2 m u cs i c j res)
    then show ?case using fine obligingD(3) [OF D] by (auto simp: fences_fine_def will_signal_def)
  next
    case (3 i)
    from calmD [OF calm_recreate [OF D] 3(2)] r fine 3(1) show ?case
      by (auto simp: fences_fine_def will_signal_def sets_def frames_set_up_def split: if_splits)
  qed
qed

lemma loop_keeps:
  assumes D: "obliging D"
  shows "frames_set_up D r \<Longrightarrow> fences_fine (r, l) \<Longrightarrow> run_state (renderLoop D G n) (r, l) = (outs, (r', l')) \<Longrightarrow>
    length outs = n \<and> set outs \<subseteq> {Drawn, Recreated}"
proof (induction n arbitrary: r l outs)
  case (Suc n)
  obtain out r1 l1 where run1: "run_state (renderFrame D G) (r, l) = (out, (r1, l1))" by (rule prod_cases3)
  note one = frames_keep [OF D Suc.prems(1,2) run1]
  obtain os r2 l2 where run2: "run_state (renderLoop D G n) (r1, l1) = (os, (r2, l2))" by (rule prod_cases3)
  have "outs = out # os" "r2 = r'" "l2 = l'" using Suc.prems(3) run1 run2 one by auto
  then show ?case using Suc.IH [of r1 l1 os] one run2 by auto
qed simp

definition cube_frames :: "vk_driver \<Rightarrow> glm \<Rightarrow> nat \<Rightarrow> int \<Rightarrow> int \<Rightarrow> nat \<Rightarrow> frame_outcome list" where
  "cube_frames D G window width height n = fst (run_state (do {
     ok \<leftarrow> all_ok [vk_initialize D, setSurface D window width height];
     if ok then renderLoop D G n else vret [] }) (vk_renderer_init, []))"

lemma initialize_obliging:
  assumes D: "obliging D" and run: "run_state (vk_initialize D) (vk_renderer_init, l) = (b, (r, l'))"
  shows "b \<and> mCurrentFrame r = 0"
proof -
  have "dr_create D l i \<noteq> None" "dr_physicalDevices D k \<noteq> []" for l i k
    using obligingD(1,5) [OF D] by (metis option.distinct(1))+
  then show ?thesis
    using run by (auto simp: vk_initialize_def createInstance_def pickPhysicalDevice_def createDevice_def create_into_run
        this_vk_def set_vk_def vk_renderer_init_def simp del: not_None_eq split: option.splits list.splits)
qed

text \<open>
  C37: With a driver in good health every frame of the render loop comes back: whenever the
  wait for a frame's fence starts, the fence is signalled or belongs to a submission that
  can run, however often the swapchain was out of date in between. No frame blocks the
  render thread, and none reads its vectors out of range.
\<close>

theorem frames_come_back:
  assumes "obliging D"
  shows "length (cube_frames D G window width height n) = n \<and> set (cube_frames D G window width height n) \<subseteq> {Drawn, Recreated}"
proof -
  obtain b r1 l1 where run1: "run_state (vk_initialize D) (vk_renderer_init, []) = (b, (r1, l1))" by (rule prod_cases3)
  note first = initialize_obliging [OF assms run1]
  obtain c r2 l2 where run2: "run_state (setSurface D window width height) (r1, l1) = (c, (r2, l2))" by (rule prod_cases3)
  have second: "c \<and> frames_set_up D r2 \<and> fences_fine (r2, l2)"
    by (rule set_surface_run [OF assms run2]) (simp add: first)
  obtain outs r3 l3 where run3: "run_state (renderLoop D G n) (r2, l2) = (outs, (r3, l3))" by (rule prod_cases3)
  have "cube_frames D G window width height n = outs"
    using first second by (simp add: cube_frames_def run1 run2 run3)
  then show ?thesis using loop_keeps [OF assms _ _ run3] second by simp
qed

lemma objects_bounded: "(k, h) \<in># objects_of l \<Longrightarrow> k \<noteq> NativeWindow \<Longrightarrow> h \<le> sum_list (map created_handle l)"
proof (induction l)
  case (Cons e l)
  then show ?case by (cases e) (auto dest: in_diffD split: if_splits)
qed simp

lemma not_a_window: "kind_of i \<noteq> NativeWindow"
  by (cases i) auto

lemma yes_obliging: "obliging yes_driver"
  using objects_bounded [OF _ not_a_window] by (fastforce simp: obliging_def yes_driver_def)

theorem frames_come_back_witness:
  "length (cube_frames yes_driver flat_glm 5 640 480 4) = 4 \<and> set (cube_frames yes_driver flat_glm 5 640 480 4) \<subseteq> {Drawn, Recreated}"
  using frames_come_back [OF yes_obliging] by blast

section \<open>Refused submissions\<close>

text \<open>
  A frame resets its fence before it submits, and goes on when the submission is refused:
  the fence is then never signalled, and the frame after next, which waits for it without
  a timeout, does not come back.
\<close>

theorem refused_submission_blocks:
  assumes D: "obliging (D\<lparr>dr_submit := \<lambda>_. True\<rparr>)" and refuse: "\<And>l. \<not> dr_submit D l"
    and wait: "\<And>l f. fence_state l f = Unsignalled \<Longrightarrow> \<not> dr_wait D l f"
    and never: "\<And>l c. fst (dr_acquire D l c) \<noteq> VK_OUT_OF_DATE"
    and r: "frames_set_up D r" "fences_fine (r, l)" "mCurrentFrame r = 0"
  shows "fst (run_state (renderLoop D G 3) (r, l)) = [Drawn, Drawn, Blocked]"
proof -
  have drawn: "out = Drawn \<and> frames_set_up D r' \<and> mInFlightFences r' = mInFlightFences r \<and> mCurrentFrame r' = (mCurrentFrame r + 1) mod 2 \<and>
      fence_state l' (mInFlightFences r ! mCurrentFrame r) = Unsignalled \<and>
      (\<forall>f. f \<noteq> mInFlightFences r ! mCurrentFrame r \<longrightarrow> fence_state l' f = fence_state l f)"
    if "frames_set_up D r" "will_signal l (mInFlightFences r ! mCurrentFrame r)" "run_state (renderFrame D G) (r, l) = (out, (r', l'))"
    for r l out r' l'
    using frame_run [OF D that] refuse
  proof (elim disjE exE conjE, goal_cases)
    case (3 i)
    let ?l = "WaitedFence (mInFlightFences r ! mCurrentFrame r) # l"
    have ready: "frame_ready r" using that(1) by (simp add: frames_set_up_def frame_ready_def)
    have "dr_wait D l (mInFlightFences r ! mCurrentFrame r)" using obligingD(2) [OF D that(2)] by simp
    then have "out \<noteq> Recreated"
      using that(3) ready never [of ?l "mSwapchain r"]
      by (auto simp: renderFrame_def draw_image_def this_vk_def history_def vk_emit_def Let_def split: prod.splits if_splits)
    then show ?case using 3(2) by simp
  qed auto
  obtain e0 e1 where e: "mInFlightFences r = [e0, e1]" "e0 \<noteq> e1"
    using r(1) length_two [of "mInFlightFences r"] by (auto simp: frames_set_up_def)
  obtain o1 r1 l1 where run1: "run_state (renderFrame D G) (r, l) = (o1, (r1, l1))" by (rule prod_cases3)
  have fine: "will_signal l e0" "will_signal l e1" using r(2) e by (simp_all add: fences_fine_def)
  note first = drawn [OF r(1) _ run1, unfolded r(3) e nth_Cons_0, OF fine(1)]
  obtain o2 r2 l2 where run2: "run_state (renderFrame D G) (r1, l1) = (o2, (r2, l2))" by (rule prod_cases3)
  have "will_signal l1 e1" using first e fine by (auto simp: will_signal_def)
  then have second: "o2 = Drawn \<and> frames_set_up D r2 \<and> mInFlightFences r2 = [e0, e1] \<and> mCurrentFrame r2 = 0 \<and> fence_state l2 e0 = Unsignalled"
    using drawn [OF _ _ run2] first e by auto
  have "frame_ready r2" using second by (auto simp: frames_set_up_def frame_ready_def)
  then have "run_state (renderFrame D G) (r2, l2) = (Blocked, (r2, l2))"
    using second wait [of l2 e0] by (simp add: renderFrame_def this_vk_def history_def)
  then show ?thesis
    using run1 run2 first second by (simp add: numeral_3_eq_3)
qed

definition refusing_driver :: vk_driver where
  "refusing_driver = yes_driver\<lparr>dr_wait := \<lambda>l f. fence_state l f \<noteq> Unsignalled, dr_submit := \<lambda>l. False\<rparr>"

lemma refusing_obliging: "obliging (refusing_driver\<lparr>dr_submit := \<lambda>_. True\<rparr>)"
  using yes_obliging by (auto simp: obliging_def refusing_driver_def yes_driver_def will_signal_def)

theorem refused_submission_blocks_witness:
  "\<exists>r l. fst (run_state (renderLoop refusing_driver flat_glm 3) (r, l)) = [Drawn, Drawn, Blocked]"
proof -
  let ?D = "refusing_driver\<lparr>dr_submit := \<lambda>_. True\<rparr>"
  obtain c r l where run: "run_state (setSurface ?D 5 640 480) (vk_renderer_init, []) = (c, (r, l))" by (rule prod_cases3)
  have set_up: "c \<and> frames_set_up ?D r \<and> fences_fine (r, l)"
    by (rule set_surface_run [OF refusing_obliging run]) (simp add: vk_renderer_init_def)
  have "mCurrentFrame r = 0"
  proof -
    let ?ms = "[createSurface ?D, createSwapchain ?D, createRenderPass ?D, createDepthResources ?D,
       createFramebuffers ?D, createDescriptorSetLayout ?D, createGraphicsPipeline ?D, createVertexBuffer ?D, createIndexBuffer ?D,
       createUniformBuffer ?D, createDescriptorPool ?D, createDescriptorSets ?D, createCommandPool ?D, createCommandBuffers ?D]"
    let ?r = "vk_renderer_init\<lparr>mWindow := 5, mWidth := 640, mHeight := 480\<rparr>"
    obtain a1 r1 l1 where run1: "run_state (all_ok ?ms) (?r, [WindowGeometry 5 640 480]) = (a1, (r1, l1))" by (rule prod_cases3)
    note first = calmD [OF calm_setup [OF refusing_obliging] run1]
    have "run_state (all_ok (?ms @ [createSyncObjects ?D])) (?r, [WindowGeometry 5 640 480]) = (c, (r, l))"
      using run by (simp add: setSurface_def set_vk_def vk_emit_def del: all_ok.simps)
    then have rest: "run_state (all_ok [createSyncObjects ?D]) (r1, l1) = (c, (r, l))"
      unfolding run_all_ok_append run1 using first by (simp add: sets_def del: all_ok.simps)
    obtain b r2 l2 where run2: "run_state (createSyncObjects ?D) (r1, l1) = (b, (r2, l2))" by (rule prod_cases3)
    then have "r2 = r" "l2 = l" using rest by (auto split: if_splits)
    with sync_run [OF refusing_obliging run2] first show ?thesis by (auto simp: sets_def vk_renderer_init_def)
  qed
  moreover have "frames_set_up refusing_driver r" using set_up by (simp add: frames_set_up_def)
  moreover have "\<not> dr_submit refusing_driver l" "fst (dr_acquire refusing_driver l k) \<noteq> VK_OUT_OF_DATE"
      "fence_state l f = Unsignalled \<Longrightarrow> \<not> dr_wait refusing_driver l f" for l k f
    by (simp_all add: refusing_driver_def yes_driver_def)
  ultimately show ?thesis
    using refused_submission_blocks [OF refusing_obliging] set_up by blast
qed

section \<open>A second surface\<close>

text \<open>
  Pressing start again calls \<open>setSurface\<close> on a renderer that has its objects: the members
  are overwritten, and what they named is never destroyed.
\<close>

lemma surface_owner: "(VkSurface, s) \<in># owned UNIV r \<longleftrightarrow> s = mSurface r \<and> s \<noteq> 0"
proof -
  have "\<not> (VkSurface, s) \<in># nonnull (device_objects r)"
    unfolding nonnull_def device_objects_def swap_objects_def by (auto dest!: single_set)
  then show ?thesis by (auto simp: all_parts_owned)
qed

theorem second_surface_leaks:
  assumes D: "obliging D" and acc: "accounted D (r, l)" and s: "mSurface r \<noteq> 0"
    and run: "run_state (createSurface D) (r, l) = (ok, (r', l'))"
  shows "ok \<and> (VkSurface, mSurface r) \<in># objects_of l' \<and> (VkSurface, mSurface r) \<notin># owned UNIV r'"
proof -
  obtain h where h: "dr_create D l (SurfaceInfo (mWindow r)) = Some h" "(VkSurface, h) \<notin># objects_of l"
    using obligingD(1) [OF D, of l "SurfaceInfo (mWindow r)"] by auto
  have old: "(VkSurface, mSurface r) \<in># objects_of l" using acc s by (auto simp: accounted_def surface_owner)
  then have "h \<noteq> mSurface r" using h(2) by auto
  then show ?thesis
    using run h(1) old by (auto simp: createSurface_def this_vk_def create_into_run surface_owner)
qed

section \<open>Memory types\<close>

definition type_fits :: "vk_driver \<Rightarrow> nat \<Rightarrow> 32 word \<Rightarrow> 32 word \<Rightarrow> nat \<Rightarrow> bool" where
  "type_fits D phys typeFilter properties i \<longleftrightarrow>
     i < length (dr_memoryTypes D phys) \<and> bit typeFilter i \<and> dr_memoryTypes D phys ! i AND properties = properties"

lemma memory_type_found:
  assumes "type_fits D phys flt props i"
  shows "type_fits D phys flt props (findMemoryType D phys flt props) \<and>
    (\<forall>j < findMemoryType D phys flt props. \<not> type_fits D phys flt props j)"
proof -
  let ?P = "\<lambda>i. bit flt i \<and> dr_memoryTypes D phys ! i AND props = props"
  obtain k where k: "find ?P [0..<length (dr_memoryTypes D phys)] = Some k"
    using assms by (fastforce simp: type_fits_def find_None_iff)
  then have "findMemoryType D phys flt props = k" by (simp add: findMemoryType_def Let_def)
  then show ?thesis using k by (auto simp: type_fits_def find_Some_iff)
qed

lemma no_memory_type: "(\<And>i. \<not> type_fits D phys flt props i) \<Longrightarrow> findMemoryType D phys flt props = 0"
  by (auto simp: findMemoryType_def type_fits_def find_Some_iff Let_def split: option.splits)

end
