(* ===== verification/Test_Pattern.thy ===== *)
theory Test_Pattern
  imports Gpu_Planes Slots
begin

unbundle bit_operations_syntax

text \<open>
  What \<open>unified-test/app/src/main/cpp/unified_renderer.cpp\<close> draws with the CPU: a rotating wave
  under a grid, with a text line over its top rows, as RGBA and, in one pass, also as NV12.
  A buffer is its address in a map from addresses to bytes. The accuracy of \<open>sinf\<close>,
  \<open>cosf\<close> and \<open>sqrtf\<close> is the implementation's choice: they are a parameter. The arithmetic around
  them is exact, and a cast to \<open>uint8_t\<close> drops the fraction.
\<close>

section \<open>Text\<close>

definition FONT_5X7 :: "8 word list list" where
  "FONT_5X7 = [
     [0x0E, 0x11, 0x13, 0x15, 0x19, 0x11, 0x0E],
     [0x04, 0x0C, 0x04, 0x04, 0x04, 0x04, 0x0E],
     [0x0E, 0x11, 0x01, 0x06, 0x08, 0x10, 0x1F],
     [0x0E, 0x11, 0x01, 0x06, 0x01, 0x11, 0x0E],
     [0x02, 0x06, 0x0A, 0x12, 0x1F, 0x02, 0x02],
     [0x1F, 0x10, 0x1E, 0x01, 0x01, 0x11, 0x0E],
     [0x06, 0x08, 0x10, 0x1E, 0x11, 0x11, 0x0E],
     [0x1F, 0x01, 0x02, 0x04, 0x08, 0x08, 0x08],
     [0x0E, 0x11, 0x11, 0x0E, 0x11, 0x11, 0x0E],
     [0x0E, 0x11, 0x11, 0x0F, 0x01, 0x02, 0x0C],
     [0x00, 0x00, 0x00, 0x00, 0x00, 0x00, 0x00],
     [0x00, 0x04, 0x04, 0x04, 0x04, 0x00, 0x04],
     [0x0E, 0x11, 0x06, 0x08, 0x10, 0x00, 0x10],
     [0x00, 0x00, 0x00, 0x1F, 0x00, 0x00, 0x00],
     [0x0E, 0x11, 0x06, 0x04, 0x04, 0x00, 0x04],
     [0x1E, 0x11, 0x1E, 0x14, 0x12, 0x11, 0x00]]"

type_synonym rgb = "8 word \<times> 8 word \<times> 8 word"

definition put_rgba :: "int \<Rightarrow> rgb \<Rightarrow> 8 word \<Rightarrow> mem \<Rightarrow> mem" where
  "put_rgba a c alpha m = (case c of (r, g, b) \<Rightarrow> m(a := r, a + 1 := g, a + 2 := b, a + 3 := alpha))"

definition pixel_addr :: "int \<Rightarrow> int \<Rightarrow> int \<Rightarrow> int \<Rightarrow> int" where
  "pixel_addr buf w x y = buf + (y * w + x) * 4"

definition glyph_dot :: "int \<Rightarrow> int \<Rightarrow> int \<Rightarrow> bool" where
  "glyph_dot ci row col = ((FONT_5X7 ! nat ci ! nat row) AND drop_bit (nat col) 0x10 \<noteq> 0)"

definition drawChar :: "int \<Rightarrow> int \<Rightarrow> int \<Rightarrow> int \<Rightarrow> int \<Rightarrow> int \<Rightarrow> rgb \<Rightarrow> mem \<Rightarrow> mem" where
  "drawChar buf w h cx cy ci c m =
     (if ci < 0 \<or> 15 < ci then m
      else for_range 7 (\<lambda>row. for_range 5 (\<lambda>col m.
        if glyph_dot ci row col \<and> 0 \<le> cx + col \<and> cx + col < w \<and> 0 \<le> cy + row \<and> cy + row < h
        then put_rgba (pixel_addr buf w (cx + col) (cy + row)) c 255 m else m)) m)"

text \<open>The printed number, character by character; the new horizontal position.\<close>

definition char_index :: "char \<Rightarrow> int" where
  "char_index c = (if is_digit c then int (digit_val c) else 10)"

fun draw_string :: "int \<Rightarrow> int \<Rightarrow> int \<Rightarrow> int \<Rightarrow> int \<Rightarrow> string \<Rightarrow> rgb \<Rightarrow> mem \<Rightarrow> int \<times> mem" where
  "draw_string buf w h x y [] c m = (x, m)"
| "draw_string buf w h x y (ch # s) c m =
     draw_string buf w h (x + 6) y s c (drawChar buf w h x y (char_index ch) c m)"

definition drawNumber :: "int \<Rightarrow> int \<Rightarrow> int \<Rightarrow> int \<Rightarrow> int \<Rightarrow> int \<Rightarrow> rgb \<Rightarrow> mem \<Rightarrow> int \<times> mem" where
  "drawNumber buf w h x y num c m = draw_string buf w h x y (to_string num) c m"

definition overlay_bar :: "int \<Rightarrow> int \<Rightarrow> mem \<Rightarrow> mem" where
  "overlay_bar buf w = for_range 20 (\<lambda>y. for_range w (\<lambda>x. put_rgba (pixel_addr buf w x y) (0, 0, 0) 200))"

text \<open>
  \<open>V2\<close> in green, the frame number in white behind yellow letters, the time behind cyan ones,
  the rate in green.
\<close>

definition drawOverlay :: "int \<Rightarrow> int \<Rightarrow> int \<Rightarrow> int \<Rightarrow> int \<Rightarrow> int \<Rightarrow> bool \<Rightarrow> mem \<Rightarrow> mem" where
  "drawOverlay buf w h frame timestampMs fps v2Active m =
     (let y = 6;
          green = (0, 255, 0); yellow = (255, 255, 0); cyan = (0, 255, 255); white = (255, 255, 255);
          m0 = overlay_bar buf w m;
          (x1, m1) = (if v2Active then (4 + 8, drawChar buf w h 4 y 2 green m0) else (4, m0));
          m2 = drawChar buf w h x1 y 14 yellow m1;
          m3 = drawChar buf w h (x1 + 6) y 11 yellow m2;
          (x4, m4) = drawNumber buf w h (x1 + 12) y frame white m3;
          x5 = x4 + 12;
          m5 = drawChar buf w h x5 y 7 cyan m4;
          m6 = drawChar buf w h (x5 + 6) y 11 cyan m5;
          (x7, m7) = drawNumber buf w h (x5 + 12) y timestampMs white m6;
          x8 = x7 + 12;
          (x9, m9) = drawNumber buf w h x8 y fps green m7;
          m10 = drawChar buf w h x9 y 14 green m9;
          m11 = drawChar buf w h (x9 + 6) y 1 green m10 in
      drawChar buf w h (x9 + 12) y 5 green m11)"

section \<open>The pattern\<close>

record libm =
  lm_cos :: "rat \<Rightarrow> rat"
  lm_sin :: "rat \<Rightarrow> rat"
  lm_sqrt :: "rat \<Rightarrow> rat"

definition to_u8 :: "rat \<Rightarrow> 8 word" where
  "to_u8 q = word_of_int (floor q)"

text \<open>The wave at a point whose coordinates are measured from the centre.\<close>

definition wave_at :: "libm \<Rightarrow> rat \<Rightarrow> rat \<Rightarrow> rat \<Rightarrow> rat" where
  "wave_at L fx fy time =
     (let rx = fx * lm_cos L time - fy * lm_sin L time;
          ry = fx * lm_sin L time + fy * lm_cos L time;
          dist = lm_sqrt L (rx * rx + ry * ry) in
      lm_sin L (dist * 10 - time * 2) * (1 / 2) + 1 / 2)"

definition computePixel :: "libm \<Rightarrow> int \<Rightarrow> int \<Rightarrow> int \<Rightarrow> int \<Rightarrow> rat \<Rightarrow> rgb" where
  "computePixel L x y width height time =
     (let wave = wave_at L (of_int x / of_int width - 1 / 2) (of_int y / of_int height - 1 / 2) time in
      if x mod 64 < 2 \<or> y mod 64 < 2 then (255, 255, 255)
      else (to_u8 (200 * wave + 55), to_u8 (150 * wave + 50), to_u8 (50 * wave + 20)))"

definition frame_time :: "int \<Rightarrow> rat" where
  "frame_time frame = of_int frame * (5 / 100)"

definition pattern_loops :: "libm \<Rightarrow> int \<Rightarrow> int \<Rightarrow> int \<Rightarrow> int \<Rightarrow> mem \<Rightarrow> mem" where
  "pattern_loops L buf width height frame = for_range height (\<lambda>y. for_range width (\<lambda>x.
     put_rgba (pixel_addr buf width x y) (computePixel L x y width height (frame_time frame)) 255))"

definition renderTestPattern :: "libm \<Rightarrow> int \<Rightarrow> int \<Rightarrow> int \<Rightarrow> int \<Rightarrow> int \<Rightarrow> int \<Rightarrow> bool \<Rightarrow> mem \<Rightarrow> mem" where
  "renderTestPattern L buf width height frame timestampMs fps v2Active m =
     drawOverlay buf width height frame timestampMs fps v2Active (pattern_loops L buf width height frame m)"

text \<open>One pixel into both buffers, then the pass over the grid; the chroma plane follows the luma plane.\<close>

definition dual_pixel :: "libm \<Rightarrow> int \<Rightarrow> int \<Rightarrow> int \<Rightarrow> int \<Rightarrow> int \<Rightarrow> int \<Rightarrow> int \<Rightarrow> mem \<times> mem \<Rightarrow> mem \<times> mem" where
  "dual_pixel L buf yuv width height frame y x mm =
     (case (computePixel L x y width height (frame_time frame), mm) of ((r, g, b), (m, n)) \<Rightarrow>
        let uvPlane = yuv + width * height;
            n1 = n(yuv + (y * width + x) := clamp8 (luma (uint r) (uint g) (uint b)));
            uvIdx = y div 2 * width + x in
        (put_rgba (pixel_addr buf width x y) (r, g, b) 255 m,
         if even x \<and> even y
         then n1(uvPlane + uvIdx := clamp8 (chroma_blue (uint r) (uint g) (uint b)),
                 uvPlane + (uvIdx + 1) := clamp8 (chroma_red (uint r) (uint g) (uint b)))
         else n1))"

definition renderTestPatternDual ::
  "libm \<Rightarrow> int \<Rightarrow> int \<Rightarrow> int \<Rightarrow> int \<Rightarrow> int \<Rightarrow> int \<Rightarrow> int \<Rightarrow> bool \<Rightarrow> mem \<times> mem \<Rightarrow> mem \<times> mem" where
  "renderTestPatternDual L rgbaOut yuvOut width height frame timestampMs fps v2Active mm =
     (case for_range height (\<lambda>y. for_range width (dual_pixel L rgbaOut yuvOut width height frame y)) mm of
        (m, n) \<Rightarrow> (drawOverlay rgbaOut width height frame timestampMs fps v2Active m, n))"

section \<open>What is written where\<close>

definition touches :: "int set \<Rightarrow> (mem \<Rightarrow> mem) \<Rightarrow> bool" where
  "touches A f \<longleftrightarrow> (\<forall>m a. a \<notin> A \<longrightarrow> f m a = m a)"

lemma touchesD: "touches A f \<Longrightarrow> a \<notin> A \<Longrightarrow> f m a = m a"
  by (simp add: touches_def)

lemma touches_fold: "(\<And>i. i \<in> set xs \<Longrightarrow> touches A (body i)) \<Longrightarrow> touches A (fold body xs)"
proof (induction xs)
  case Nil
  then show ?case by (simp add: touches_def)
next
  case (Cons x xs)
  then have "touches A (body x)" "touches A (fold body xs)" by auto
  then show ?case by (simp add: touches_def)
qed

lemma touches_range: "(\<And>i. 0 \<le> i \<Longrightarrow> i < n \<Longrightarrow> touches A (body i)) \<Longrightarrow> touches A (for_range n body)"
  unfolding touches_def for_range_list
  using touches_fold [of "upto_list n" A body] by (auto simp: touches_def)

lemma touches_put: "{a..a + 3} \<subseteq> A \<Longrightarrow> touches A (put_rgba a c alpha)"
  by (auto simp: touches_def put_rgba_def subset_iff split: prod.split)

lemma touches_if: "(P \<Longrightarrow> touches A f) \<Longrightarrow> touches A (\<lambda>m. if P then f m else m)"
  by (auto simp: touches_def)

lemma pixel_in_rows:
  assumes "0 \<le> x" "x < w" "0 \<le> y" "y < n"
  shows "{pixel_addr buf w x y..pixel_addr buf w x y + 3} \<subseteq> {buf..<buf + n * w * 4}"
proof -
  have "(y + 1) * w \<le> n * w" using assms by (intro mult_right_mono) auto
  moreover have "0 \<le> y * w" using assms by simp
  ultimately have "0 \<le> y * w + x" "y * w + x < n * w" using assms by (simp_all add: algebra_simps)
  then show ?thesis by (auto simp: pixel_addr_def)
qed

lemma char_touches:
  assumes "0 \<le> cy" "cy + 7 \<le> n"
  shows "touches {buf..<buf + n * w * 4} (drawChar buf w h cx cy ci c)"
proof -
  have dot: "touches {buf..<buf + n * w * 4} (\<lambda>m. if glyph_dot ci row col \<and> 0 \<le> cx + col \<and> cx + col < w \<and>
        0 \<le> cy + row \<and> cy + row < h then put_rgba (pixel_addr buf w (cx + col) (cy + row)) c 255 m else m)"
    if "0 \<le> row" "row < 7" for row col
    by (intro touches_if touches_put pixel_in_rows) (use assms that in linarith)+
  have "touches {buf..<buf + n * w * 4} (for_range 7 (\<lambda>row. for_range 5 (\<lambda>col m.
        if glyph_dot ci row col \<and> 0 \<le> cx + col \<and> cx + col < w \<and> 0 \<le> cy + row \<and> cy + row < h
        then put_rgba (pixel_addr buf w (cx + col) (cy + row)) c 255 m else m)))"
    by (rule touches_range, rule touches_range, rule dot)
  then show ?thesis by (simp only: touches_def drawChar_def split: if_split) blast
qed

lemma string_touches:
  "0 \<le> y \<Longrightarrow> y + 7 \<le> n \<Longrightarrow> touches {buf..<buf + n * w * 4} (\<lambda>m. snd (draw_string buf w h x y s c m))"
proof (induction s arbitrary: x)
  case Nil
  then show ?case by (simp add: touches_def)
next
  case (Cons ch s)
  then show ?case
    using char_touches [OF Cons.prems, of buf w h x "char_index ch" c] by (simp add: touches_def)
qed

lemma bar_touches: "touches {buf..<buf + 20 * w * 4} (overlay_bar buf w)"
  unfolding overlay_bar_def by (intro touches_range touches_put pixel_in_rows) auto

lemma overlay_touches: "touches {buf..<buf + 20 * w * 4} (drawOverlay buf w h frame ts fps v2)"
proof -
  define A where "A = {buf..<buf + 20 * w * 4}"
  have c: "a \<notin> A \<Longrightarrow> drawChar buf w h x 6 ci c m a = m a" for a x ci c m
    unfolding A_def by (rule touchesD [OF char_touches]) auto
  have n: "a \<notin> A \<Longrightarrow> snd (drawNumber buf w h x 6 num c m) a = m a" for a x num c m
    unfolding A_def drawNumber_def by (rule touchesD [OF string_touches]) auto
  have b: "a \<notin> A \<Longrightarrow> overlay_bar buf w m a = m a" for a m
    unfolding A_def by (rule touchesD [OF bar_touches])
  have "touches A (drawOverlay buf w h frame ts fps v2)"
    unfolding touches_def drawOverlay_def Let_def split_beta by (cases v2) (simp_all add: c n b)
  then show ?thesis by (simp only: A_def)
qed

end
