(* ===== verification/Pattern_Theorems.thy ===== *)
theory Pattern_Theorems
  imports Test_Pattern
begin

text \<open>
  The test pattern stays in its buffer and shows the wave below the text line; the colours
  fit their bytes; the single pass over both buffers is the plain pattern together with the
  conversion the camera's own CPU fill makes of it.
\<close>

section \<open>Colours\<close>

text \<open>Documented of the C library: a sine is between -1 and 1.\<close>

definition libm_laws :: "libm \<Rightarrow> bool" where
  "libm_laws L \<longleftrightarrow> (\<forall>a. -1 \<le> lm_sin L a \<and> lm_sin L a \<le> 1)"

lemma wave_bounds: "libm_laws L \<Longrightarrow> 0 \<le> wave_at L fx fy t \<and> wave_at L fx fy t \<le> 1"
proof -
  assume L: "libm_laws L"
  have "0 \<le> s * (1 / 2) + 1 / 2 \<and> s * (1 / 2) + 1 / 2 \<le> 1" if "-1 \<le> s" "s \<le> 1" for s :: rat
    using that by linarith
  then have "0 \<le> lm_sin L a * (1 / 2) + 1 / 2 \<and> lm_sin L a * (1 / 2) + 1 / 2 \<le> 1" for a
    using L unfolding libm_laws_def by blast
  then show ?thesis unfolding wave_at_def Let_def .
qed

lemma cast_fits:
  assumes "0 \<le> wave" "wave \<le> 1" "0 \<le> a" "0 \<le> b" "a + b \<le> 255"
  shows "uint (to_u8 (of_int a * wave + of_int b)) = floor (of_int a * wave + of_int b :: rat)"
    "b \<le> uint (to_u8 (of_int a * wave + of_int b))" "uint (to_u8 (of_int a * wave + of_int b)) \<le> a + b"
proof -
  define q :: rat where "q = of_int a * wave + of_int b"
  have "of_int a * 0 \<le> of_int a * wave" "of_int a * wave \<le> of_int a * 1"
    using assms by (intro mult_left_mono; simp)+
  then have "of_int b \<le> q" "q < of_int (a + b) + 1" by (simp_all add: q_def)
  then have fl: "b \<le> floor q" "floor q \<le> a + b" by (simp_all add: le_floor_iff floor_le_iff)
  then have "0 \<le> floor q" "floor q < 256" using assms by linarith+
  then have "uint (to_u8 q) = floor q" by (simp add: to_u8_def uint_word_of_int)
  then show "uint (to_u8 (of_int a * wave + of_int b)) = floor (of_int a * wave + of_int b :: rat)"
    "b \<le> uint (to_u8 (of_int a * wave + of_int b))" "uint (to_u8 (of_int a * wave + of_int b)) \<le> a + b"
    using fl by (simp_all add: q_def)
qed

text \<open>No cast of the pattern overflows; grid lines are white, the rest keeps to its colour range.\<close>

lemma pixel_colours:
  assumes "libm_laws L" "computePixel L x y w h t = (r, g, b)"
  shows "(r, g, b) = (255, 255, 255) \<and> (x mod 64 < 2 \<or> y mod 64 < 2) \<or>
    55 \<le> uint r \<and> 50 \<le> uint g \<and> uint g \<le> 200 \<and> 20 \<le> uint b \<and> uint b \<le> 70"
proof -
  define wave where "wave = wave_at L (of_int x / of_int w - 1 / 2) (of_int y / of_int h - 1 / 2) t"
  have wave: "0 \<le> wave" "wave \<le> 1" unfolding wave_def using wave_bounds [OF assms(1)] by auto
  show ?thesis
    using assms(2) cast_fits [OF wave, of 200 55] cast_fits [OF wave, of 150 50] cast_fits [OF wave, of 50 20]
    by (auto simp: computePixel_def Let_def simp flip: wave_def split: if_splits)
qed

section \<open>The picture in the buffer\<close>

lemma put_writes: "put_rgba a (r, g, b) alpha m = writes [(a, r), (a + 1, g), (a + 2, b), (a + 3, alpha)] m"
  by (simp add: put_rgba_def)

definition pixel_stores :: "libm \<Rightarrow> int \<Rightarrow> int \<Rightarrow> int \<Rightarrow> int \<Rightarrow> int \<Rightarrow> int \<Rightarrow> (int \<times> 8 word) list" where
  "pixel_stores L buf w h frame x y = (case computePixel L x y w h (frame_time frame) of (r, g, b) \<Rightarrow>
     [(pixel_addr buf w x y, r), (pixel_addr buf w x y + 1, g), (pixel_addr buf w x y + 2, b), (pixel_addr buf w x y + 3, 255)])"

lemma loops_writes: "pattern_loops L buf w h frame m = writes (grid (pixel_stores L buf w h frame) w h) m"
  unfolding pattern_loops_def
  by (rule for_grid) (simp add: pixel_stores_def put_writes split: prod.split)

lemma pixel_place:
  assumes "pixel_addr buf w x y + k = pixel_addr buf w x' y' + k'" "0 \<le> k" "k < 4" "0 \<le> k'" "k' < 4"
    and "0 \<le> x" "x < w" "0 \<le> x'" "x' < w"
  shows "x = x' \<and> y = y' \<and> k = k'"
proof -
  have "(y * w + x) * 4 + k = (y' * w + x') * 4 + k'" using assms(1) by (simp add: pixel_addr_def)
  then have k: "k = k'" "y * w + x = y' * w + x'" using assms(2-5) by presburger+
  moreover have "(x + y * w) div w = y" "(x' + y' * w) div w = y'" using assms(6-9) by simp_all
  ultimately have "y = y'" by (simp add: add.commute)
  then show ?thesis using k by simp
qed

lemma stores_place:
  "(a, v) \<in> set (pixel_stores L buf w h frame x y) \<longleftrightarrow> (\<exists>k. 0 \<le> k \<and> k < 4 \<and> a = pixel_addr buf w x y + k \<and>
     v = (case computePixel L x y w h (frame_time frame) of (r, g, b) \<Rightarrow> [r, g, b, 255] ! nat k))"
proof -
  have four: "(\<exists>k::int. 0 \<le> k \<and> k < 4 \<and> P k) \<longleftrightarrow> P 0 \<or> P 1 \<or> P 2 \<or> P 3" for P
  proof
    assume "\<exists>k. 0 \<le> k \<and> k < 4 \<and> P k"
    then obtain k where k: "0 \<le> k" "k < 4" "P k" by blast
    then have "k = 0 \<or> k = 1 \<or> k = 2 \<or> k = 3" by presburger
    then show "P 0 \<or> P 1 \<or> P 2 \<or> P 3" using k(3) by auto
  next
    assume "P 0 \<or> P 1 \<or> P 2 \<or> P 3"
    then show "\<exists>k. 0 \<le> k \<and> k < 4 \<and> P k" by (elim disjE) (rule exI, intro conjI; simp)+
  qed
  obtain r g b where "computePixel L x y w h (frame_time frame) = (r, g, b)" by (rule prod_cases3)
  then show ?thesis unfolding four by (simp add: pixel_stores_def)
qed

lemma loops_byte:
  assumes "0 \<le> x" "x < w" "0 \<le> y" "y < h" "0 \<le> k" "k < 4"
  shows "pattern_loops L buf w h frame m (pixel_addr buf w x y + k) =
    (case computePixel L x y w h (frame_time frame) of (r, g, b) \<Rightarrow> [r, g, b, 255] ! nat k)"
  unfolding loops_writes
proof (rule writes_functional)
  have "(pixel_addr buf w x y + k, case computePixel L x y w h (frame_time frame) of (r, g, b) \<Rightarrow> [r, g, b, 255] ! nat k)
      \<in> set (pixel_stores L buf w h frame x y)"
    unfolding stores_place using assms(5,6) by (intro exI [of _ k]) simp
  then show "(pixel_addr buf w x y + k, case computePixel L x y w h (frame_time frame) of (r, g, b) \<Rightarrow> [r, g, b, 255] ! nat k)
      \<in> set (grid (pixel_stores L buf w h frame) w h)"
    unfolding set_grid using assms(1-4) by (intro UN_I [of y] UN_I [of x]) simp_all
next
  fix v'
  assume "(pixel_addr buf w x y + k, v') \<in> set (grid (pixel_stores L buf w h frame) w h)"
  then obtain x' y' k' where p: "0 \<le> x'" "x' < w" "0 \<le> k'" "k' < 4"
      "pixel_addr buf w x y + k = pixel_addr buf w x' y' + k'"
      "v' = (case computePixel L x' y' w h (frame_time frame) of (r, g, b) \<Rightarrow> [r, g, b, 255] ! nat k')"
    unfolding set_grid by (auto simp: stores_place)
  show "v' = (case computePixel L x y w h (frame_time frame) of (r, g, b) \<Rightarrow> [r, g, b, 255] ! nat k)"
    using pixel_place [OF p(5) assms(5,6) p(3,4) assms(1,2) p(1,2)] p(6) by simp
qed

lemma loops_touches: "touches {buf..<buf + h * w * 4} (pattern_loops L buf w h frame)"
  unfolding pattern_loops_def by (intro touches_range touches_put pixel_in_rows)

lemma loops_pixel:
  assumes "0 \<le> x" "x < w" "0 \<le> y" "y < h"
  shows "pixel (pattern_loops L buf w h frame m) (pixel_addr buf w x y) = computePixel L x y w h (frame_time frame)"
  using loops_byte [OF assms, of 0] loops_byte [OF assms, of 1] loops_byte [OF assms, of 2]
  by (simp add: pixel_def numeral_2_eq_2 split: prod.splits)

lemma pattern_outside:
  assumes "0 \<le> w" "20 \<le> h" "a < buf \<or> buf + w * h * 4 \<le> a"
  shows "renderTestPattern L buf w h frame ts fps v2 m a = m a"
proof -
  have "20 * w \<le> h * w" using assms by (intro mult_right_mono)
  then have "a \<notin> {buf..<buf + 20 * w * 4}" "a \<notin> {buf..<buf + h * w * 4}"
    using assms(3) unfolding mult.commute [of w h] atLeastLessThan_iff by linarith+
  then show ?thesis using touchesD [OF overlay_touches] touchesD [OF loops_touches] by (simp add: renderTestPattern_def)
qed

lemma pattern_pixel:
  assumes "0 \<le> x" "x < w" "20 \<le> y" "y < h"
  shows "pixel (renderTestPattern L buf w h frame ts fps v2 m) (pixel_addr buf w x y) = computePixel L x y w h (frame_time frame) \<and>
    renderTestPattern L buf w h frame ts fps v2 m (pixel_addr buf w x y + 3) = 255"
proof -
  have below: "pixel_addr buf w x y + k \<notin> {buf..<buf + 20 * w * 4}" if "0 \<le> k" for k
  proof -
    have "20 * w \<le> y * w" using assms by (intro mult_right_mono) auto
    then show ?thesis using assms that unfolding pixel_addr_def atLeastLessThan_iff distrib_right by linarith
  qed
  have same: "renderTestPattern L buf w h frame ts fps v2 m (pixel_addr buf w x y + k) =
      pattern_loops L buf w h frame m (pixel_addr buf w x y + k)" if "0 \<le> k" for k
    using touchesD [OF overlay_touches below [OF that]] by (simp add: renderTestPattern_def)
  show ?thesis
    using loops_pixel [of x w y h L buf frame m] loops_byte [of x w y h 3 L buf frame m]
      same [of 0] same [of 1] same [of 2] same [of 3] assms
    by (simp add: pixel_def numeral_3_eq_3 split: prod.splits)
qed

text \<open>
  A picture of at least 20 rows is written inside its buffer and
  nowhere else, and below the text line every pixel is the opaque colour of the pattern.
\<close>

theorem pattern_stays_inside:
  assumes "0 \<le> w" "20 \<le> h" "m' = renderTestPattern L buf w h frame ts fps v2 m"
  shows "(\<forall>a. a < buf \<or> buf + w * h * 4 \<le> a \<longrightarrow> m' a = m a) \<and>
    (\<forall>x y. 0 \<le> x \<and> x < w \<and> 20 \<le> y \<and> y < h \<longrightarrow>
      pixel m' (pixel_addr buf w x y) = computePixel L x y w h (frame_time frame) \<and> m' (pixel_addr buf w x y + 3) = 255)"
  unfolding assms(3) using pattern_outside [OF assms(1,2)] pattern_pixel by blast

section \<open>One pass over two buffers\<close>

lemma for_range_pair:
  "for_range n (\<lambda>i p. (f i (fst p), g i (snd p))) (m, k) = (for_range n f m, for_range n g k)"
proof -
  have "fold (\<lambda>i p. (f i (fst p), g i (snd p))) xs (m, k) = (fold f xs m, fold g xs k)" for xs
    by (induction xs arbitrary: m k) simp_all
  then show ?thesis by (simp add: for_range_list)
qed

text \<open>The stores of one pixel into the YUV buffer.\<close>

definition nv12_planes :: "int \<Rightarrow> int \<Rightarrow> int \<Rightarrow> ycbcr" where
  "nv12_planes yuv w h = \<lparr>yc_y = yuv, yc_cb = yuv + w * h, yc_cr = yuv + w * h + 1, yc_ystride = w,
     yc_cstride = w, yc_chroma_step = 2\<rparr>"

definition yuv_stores :: "(int \<Rightarrow> int \<Rightarrow> rgb) \<Rightarrow> int \<Rightarrow> int \<Rightarrow> int \<Rightarrow> int \<Rightarrow> int \<Rightarrow> (int \<times> 8 word) list" where
  "yuv_stores c yuv w h x y = (case c x y of (r, g, b) \<Rightarrow> case rgbaToYuv r g b of (ly, lb, lr) \<Rightarrow>
     (y_addr (nv12_planes yuv w h) x y, ly) #
     (if even x \<and> even y
      then [(cb_addr (nv12_planes yuv w h) (x div 2) (y div 2), lb), (cr_addr (nv12_planes yuv w h) (x div 2) (y div 2), lr)]
      else []))"

lemma dual_pixel_eq:
  "dual_pixel L buf yuv w h frame y x =
     (\<lambda>p. (put_rgba (pixel_addr buf w x y) (computePixel L x y w h (frame_time frame)) 255 (fst p),
           writes (yuv_stores (\<lambda>x y. computePixel L x y w h (frame_time frame)) yuv w h x y) (snd p)))"
proof
  fix p :: "mem \<times> mem"
  obtain r g b where c: "computePixel L x y w h (frame_time frame) = (r, g, b)" by (rule prod_cases3)
  have "even x \<Longrightarrow> x div 2 * 2 = x" by simp
  then show "dual_pixel L buf yuv w h frame y x p = (put_rgba (pixel_addr buf w x y)
      (computePixel L x y w h (frame_time frame)) 255 (fst p),
      writes (yuv_stores (\<lambda>x y. computePixel L x y w h (frame_time frame)) yuv w h x y) (snd p))"
    by (cases p) (simp add: dual_pixel_def yuv_stores_def rgbaToYuv_def c Let_def y_addr_def cb_addr_def cr_addr_def
      step_def nv12_planes_def add.assoc add.commute add.left_commute)
qed

lemma dual_run:
  "renderTestPatternDual L buf yuv w h frame ts fps v2 (m, n) =
     (renderTestPattern L buf w h frame ts fps v2 m,
      writes (grid (yuv_stores (\<lambda>x y. computePixel L x y w h (frame_time frame)) yuv w h) w h) n)"
proof -
  let ?c = "\<lambda>x y. computePixel L x y w h (frame_time frame)"
  have row: "for_range w (dual_pixel L buf yuv w h frame y) = (\<lambda>p.
      (for_range w (\<lambda>x. put_rgba (pixel_addr buf w x y) (?c x y) 255) (fst p),
       for_range w (\<lambda>x. writes (yuv_stores ?c yuv w h x y)) (snd p)))" for y
  proof
    fix p :: "mem \<times> mem"
    have body: "dual_pixel L buf yuv w h frame y = (\<lambda>x p. (put_rgba (pixel_addr buf w x y) (?c x y) 255 (fst p),
        writes (yuv_stores ?c yuv w h x y) (snd p)))"
      by (rule ext) (rule dual_pixel_eq)
    show "for_range w (dual_pixel L buf yuv w h frame y) p =
        (for_range w (\<lambda>x. put_rgba (pixel_addr buf w x y) (?c x y) 255) (fst p),
         for_range w (\<lambda>x. writes (yuv_stores ?c yuv w h x y)) (snd p))"
      using for_range_pair [of w "\<lambda>x. put_rgba (pixel_addr buf w x y) (?c x y) 255"
        "\<lambda>x. writes (yuv_stores ?c yuv w h x y)" "fst p" "snd p"]
      by (simp only: body prod.collapse)
  qed
  have "for_range h (\<lambda>y. for_range w (dual_pixel L buf yuv w h frame y)) (m, n) =
      (pattern_loops L buf w h frame m, for_range h (\<lambda>y. for_range w (\<lambda>x. writes (yuv_stores ?c yuv w h x y))) n)"
    using for_range_pair [of h "\<lambda>y. for_range w (\<lambda>x. put_rgba (pixel_addr buf w x y) (?c x y) 255)"
      "\<lambda>y. for_range w (\<lambda>x. writes (yuv_stores ?c yuv w h x y))" m n]
    by (simp only: row pattern_loops_def)
  moreover have "for_range h (\<lambda>y. for_range w (\<lambda>x. writes (yuv_stores ?c yuv w h x y))) n =
      writes (grid (yuv_stores ?c yuv w h) w h) n"
    by (rule for_grid) (rule refl)
  ultimately show ?thesis by (simp add: renderTestPatternDual_def renderTestPattern_def)
qed

text \<open>Two lists with the same stores, one value for each address, do the same.\<close>

lemma writes_same_stores:
  assumes "set ps = set qs" "\<And>a v v'. (a, v) \<in> set qs \<Longrightarrow> (a, v') \<in> set qs \<Longrightarrow> v' = v"
  shows "writes ps m = writes qs m"
proof
  fix a
  show "writes ps m a = writes qs m a"
  proof (cases "a \<in> fst ` set qs")
    case True
    then obtain v where v: "(a, v) \<in> set qs" by auto
    then have "writes qs m a = v" "writes ps m a = v" using assms by (auto intro!: writes_functional)
    then show ?thesis by simp
  next
    case False
    then show ?thesis using assms(1) by (simp add: writes_outside)
  qed
qed

text \<open>The places of a packed picture: rows of luma, then rows of pairs.\<close>

lemma row_col:
  assumes "b * w + a = b' * w + (a' :: int)" "0 \<le> a" "a < w" "0 \<le> a'" "a' < w"
  shows "a = a' \<and> b = b'"
proof -
  have "(a + b * w) div w = b" "(a' + b' * w) div w = b'" using assms by simp_all
  then have "b = b'" using assms(1) by (simp add: add.commute)
  then show ?thesis using assms(1) by simp
qed

lemma nv12_at:
  "y_addr (nv12_planes yuv w h) x y = yuv + (y * w + x)"
  "cb_addr (nv12_planes yuv w h) x y = yuv + w * h + (y * w + x * 2)"
  "cr_addr (nv12_planes yuv w h) x y = yuv + w * h + (y * w + (x * 2 + 1))"
  by (simp_all add: nv12_planes_def y_addr_def cb_addr_def cr_addr_def step_def)

lemma luma_place:
  "y_addr (nv12_planes yuv w h) x y = y_addr (nv12_planes yuv w h) x' y' \<Longrightarrow> 0 \<le> x \<Longrightarrow> x < w \<Longrightarrow> 0 \<le> x' \<Longrightarrow> x' < w \<Longrightarrow>
   x = x' \<and> y = y'"
  using row_col [of y w x y' x'] by (simp add: nv12_at)

lemma chroma_place:
  assumes "0 \<le> x" "x < w div 2" "0 \<le> x'" "x' < w div 2"
  shows "cb_addr (nv12_planes yuv w h) x y = cb_addr (nv12_planes yuv w h) x' y' \<Longrightarrow> x = x' \<and> y = y'"
    and "cr_addr (nv12_planes yuv w h) x y = cr_addr (nv12_planes yuv w h) x' y' \<Longrightarrow> x = x' \<and> y = y'"
    and "cb_addr (nv12_planes yuv w h) x y \<noteq> cr_addr (nv12_planes yuv w h) x' y'"
proof -
  have wide: "x * 2 + 1 < w" "x' * 2 + 1 < w" using assms by linarith+
  show "cb_addr (nv12_planes yuv w h) x y = cb_addr (nv12_planes yuv w h) x' y' \<Longrightarrow> x = x' \<and> y = y'"
    using row_col [of y w "x * 2" y' "x' * 2"] assms wide by (simp add: nv12_at)
  show "cr_addr (nv12_planes yuv w h) x y = cr_addr (nv12_planes yuv w h) x' y' \<Longrightarrow> x = x' \<and> y = y'"
    using row_col [of y w "x * 2 + 1" y' "x' * 2 + 1"] assms wide by (simp add: nv12_at)
  have "x * 2 \<noteq> x' * 2 + 1" by presburger
  then show "cb_addr (nv12_planes yuv w h) x y \<noteq> cr_addr (nv12_planes yuv w h) x' y'"
    using row_col [of y w "x * 2" y' "x' * 2 + 1"] assms wide by (auto simp: nv12_at)
qed

lemma planes_apart:
  assumes "0 \<le> x" "x < w" "0 \<le> y" "y < h" "0 \<le> cx" "0 \<le> cy"
  shows "y_addr (nv12_planes yuv w h) x y < cb_addr (nv12_planes yuv w h) cx cy"
    "y_addr (nv12_planes yuv w h) x y < cr_addr (nv12_planes yuv w h) cx cy"
proof -
  have "(y + 1) * w \<le> h * w" "0 \<le> cy * w" using assms by (intro mult_right_mono mult_nonneg_nonneg; linarith)+
  then have "y * w + x < w * h" "0 \<le> cy * w" using assms by (simp_all add: algebra_simps)
  then show "y_addr (nv12_planes yuv w h) x y < cb_addr (nv12_planes yuv w h) cx cy"
    "y_addr (nv12_planes yuv w h) x y < cr_addr (nv12_planes yuv w h) cx cy" using assms(5) by (simp_all add: nv12_at)
qed

lemma in_picture_cases [consumes 1, case_names luma cb cr]:
  assumes "(a, v) \<in> set (picture d ly lb lr w h)"
  obtains x y where "0 \<le> x" "x < w" "0 \<le> y" "y < h" "a = y_addr d x y" "v = ly x y"
  | x y where "0 \<le> x" "x < w div 2" "0 \<le> y" "y < h div 2" "a = cb_addr d x y" "v = lb x y"
  | x y where "0 \<le> x" "x < w div 2" "0 \<le> y" "y < h div 2" "a = cr_addr d x y" "v = lr x y"
  using assms unfolding set_picture prod.inject by blast

lemma nv12_functional:
  assumes "(a, v) \<in> set (picture (nv12_planes yuv w h) ly lb lr w h)" "(a, v') \<in> set (picture (nv12_planes yuv w h) ly lb lr w h)"
  shows "v' = v"
  using assms(1)
proof (cases rule: in_picture_cases)
  case p: (luma x y)
  from assms(2) show ?thesis
  proof (cases rule: in_picture_cases)
    case (luma x' y')
    then show ?thesis using p luma_place [of yuv w h x y x' y'] by simp
  next
    case (cb x' y')
    then show ?thesis using p planes_apart [of x w y h x' y' yuv] by simp
  next
    case (cr x' y')
    then show ?thesis using p planes_apart [of x w y h x' y' yuv] by simp
  qed
next
  case p: (cb x y)
  from assms(2) show ?thesis
  proof (cases rule: in_picture_cases)
    case (luma x' y')
    then show ?thesis using p planes_apart [of x' w y' h x y yuv] by simp
  next
    case (cb x' y')
    then show ?thesis using p chroma_place(1) [of x w x' yuv h y y'] by simp
  next
    case (cr x' y')
    then show ?thesis using p chroma_place(3) [of x w x' yuv h y y'] by simp
  qed
next
  case p: (cr x y)
  from assms(2) show ?thesis
  proof (cases rule: in_picture_cases)
    case (luma x' y')
    then show ?thesis using p planes_apart [of x' w y' h x y yuv] by simp
  next
    case (cb x' y')
    then show ?thesis using p chroma_place(3) [of x' w x yuv h y' y] by simp
  next
    case (cr x' y')
    then show ?thesis using p chroma_place(2) [of x w x' yuv h y y'] by simp
  qed
qed

text \<open>Going over the even pixels is going over the pairs.\<close>

lemma yuv_stores_picture:
  assumes "even w" "even h"
  shows "set (grid (yuv_stores c yuv w h) w h) = set (picture (nv12_planes yuv w h)
    (\<lambda>x y. fst (case c x y of (r, g, b) \<Rightarrow> rgbaToYuv r g b))
    (\<lambda>x y. fst (snd (case c (x * 2) (y * 2) of (r, g, b) \<Rightarrow> rgbaToYuv r g b)))
    (\<lambda>x y. snd (snd (case c (x * 2) (y * 2) of (r, g, b) \<Rightarrow> rgbaToYuv r g b))) w h)" (is "?A = ?B")
proof (rule set_eqI)
  fix p :: "int \<times> 8 word"
  let ?d = "nv12_planes yuv w h"
  let ?v = "\<lambda>x y. case c x y of (r, g, b) \<Rightarrow> rgbaToYuv r g b"
  have one: "p \<in> set (yuv_stores c yuv w h x y) \<longleftrightarrow> p = (y_addr ?d x y, fst (?v x y)) \<or>
      even x \<and> even y \<and> (p = (cb_addr ?d (x div 2) (y div 2), fst (snd (?v x y))) \<or>
        p = (cr_addr ?d (x div 2) (y div 2), snd (snd (?v x y))))" for x y
  proof -
    obtain r g b where rgb: "c x y = (r, g, b)" by (rule prod_cases3)
    obtain ly lb lr where "rgbaToYuv r g b = (ly, lb, lr)" by (rule prod_cases3)
    then show ?thesis using rgb by (simp add: yuv_stores_def)
  qed
  let ?P = "\<lambda>cx cy. p = (cb_addr ?d cx cy, fst (snd (?v (cx * 2) (cy * 2)))) \<or> p = (cr_addr ?d cx cy, snd (snd (?v (cx * 2) (cy * 2))))"
  have half: "(\<exists>x y. 0 \<le> x \<and> x < w \<and> 0 \<le> y \<and> y < h \<and> even x \<and> even y \<and>
        (p = (cb_addr ?d (x div 2) (y div 2), fst (snd (?v x y))) \<or> p = (cr_addr ?d (x div 2) (y div 2), snd (snd (?v x y))))) \<longleftrightarrow>
      (\<exists>cx cy. 0 \<le> cx \<and> cx < w div 2 \<and> 0 \<le> cy \<and> cy < h div 2 \<and> ?P cx cy)" (is "?L \<longleftrightarrow> ?R")
  proof
    assume ?L
    then obtain x y where xy: "0 \<le> x" "x < w" "0 \<le> y" "y < h" "even x" "even y"
      "p = (cb_addr ?d (x div 2) (y div 2), fst (snd (?v x y))) \<or> p = (cr_addr ?d (x div 2) (y div 2), snd (snd (?v x y)))"
      by (elim exE conjE) (rule that)
    have "x div 2 * 2 = x" "y div 2 * 2 = y" "x div 2 < w div 2" "y div 2 < h div 2" using xy(1-6) assms by presburger+
    then have "0 \<le> x div 2 \<and> x div 2 < w div 2 \<and> 0 \<le> y div 2 \<and> y div 2 < h div 2 \<and> ?P (x div 2) (y div 2)"
      using xy by simp
    then show ?R by (intro exI)
  next
    assume ?R
    then obtain cx cy where c: "0 \<le> cx" "cx < w div 2" "0 \<le> cy" "cy < h div 2" "?P cx cy"
      by (elim exE conjE) (rule that)
    have "cx * 2 < w" "cy * 2 < h" using c(2,4) by linarith+
    then have "0 \<le> cx * 2 \<and> cx * 2 < w \<and> 0 \<le> cy * 2 \<and> cy * 2 < h \<and> even (cx * 2) \<and> even (cy * 2) \<and>
        (p = (cb_addr ?d (cx * 2 div 2) (cy * 2 div 2), fst (snd (?v (cx * 2) (cy * 2)))) \<or>
         p = (cr_addr ?d (cx * 2 div 2) (cy * 2 div 2), snd (snd (?v (cx * 2) (cy * 2)))))"
      using c by simp
    then show ?L by (intro exI)
  qed
  show "p \<in> ?A \<longleftrightarrow> p \<in> ?B"
    unfolding set_grid set_picture half [symmetric] by (auto simp: one)
qed

lemma picture_values:
  assumes "\<And>x y. 0 \<le> x \<Longrightarrow> x < w \<Longrightarrow> 0 \<le> y \<Longrightarrow> y < h \<Longrightarrow> ly x y = ly' x y"
    and "\<And>x y. 0 \<le> x \<Longrightarrow> x < w div 2 \<Longrightarrow> 0 \<le> y \<Longrightarrow> y < h div 2 \<Longrightarrow> lb x y = lb' x y \<and> lr x y = lr' x y"
  shows "set (picture d ly lb lr w h) = set (picture d ly' lb' lr' w h)"
proof -
  have "grid (\<lambda>x y. [(y_addr d x y, ly x y)]) w h = grid (\<lambda>x y. [(y_addr d x y, ly' x y)]) w h"
    unfolding grid_def by (intro arg_cong [of _ _ concat] map_cong refl) (simp add: assms(1))
  moreover have "grid (\<lambda>x y. [(cb_addr d x y, lb x y), (cr_addr d x y, lr x y)]) (w div 2) (h div 2) =
      grid (\<lambda>x y. [(cb_addr d x y, lb' x y), (cr_addr d x y, lr' x y)]) (w div 2) (h div 2)"
    unfolding grid_def by (intro arg_cong [of _ _ concat] map_cong refl) (simp add: assms(2))
  ultimately show ?thesis by (simp add: picture_def)
qed

lemma converted_pixel:
  assumes "0 \<le> x" "x < w" "0 \<le> y" "y < h"
  shows "rgba_yuv_at (pattern_loops L buf w h frame m) (buf + y * (w * 4) + x * 4) =
    (case computePixel L x y w h (frame_time frame) of (r, g, b) \<Rightarrow> rgbaToYuv r g b)"
proof -
  have "buf + y * (w * 4) + x * 4 = pixel_addr buf w x y" by (simp add: pixel_addr_def)
  then show ?thesis using loops_pixel [OF assms] by (simp add: rgba_yuv_at_def)
qed

text \<open>
  For even sizes the single pass over both buffers is two passes:
  the RGBA buffer ends as the plain pattern leaves it, and the NV12 buffer as the camera's CPU
  fill would leave it when it converts the pattern without the text line into packed planes.
\<close>

theorem dual_equals_two_pass:
  assumes "even w" "even h"
  shows "renderTestPatternDual L buf yuv w h frame ts fps v2 (m, n) =
    (renderTestPattern L buf w h frame ts fps v2 m,
     rgba_loops (pattern_loops L buf w h frame m) buf (w * 4) (nv12_planes yuv w h) w h n)"
proof -
  let ?c = "\<lambda>x y. computePixel L x y w h (frame_time frame)"
  let ?v = "\<lambda>x y. case ?c x y of (r, g, b) \<Rightarrow> rgbaToYuv r g b"
  let ?s = "pattern_loops L buf w h frame m"
  let ?ps = "picture (nv12_planes yuv w h) (\<lambda>x y. fst (rgba_yuv_at ?s (buf + y * (w * 4) + x * 4)))
     (\<lambda>x y. fst (snd (rgba_yuv_at ?s (buf + y * 2 * (w * 4) + x * 2 * 4))))
     (\<lambda>x y. snd (snd (rgba_yuv_at ?s (buf + y * 2 * (w * 4) + x * 2 * 4)))) w h"
  have "set ?ps = set (picture (nv12_planes yuv w h) (\<lambda>x y. fst (?v x y)) (\<lambda>x y. fst (snd (?v (x * 2) (y * 2))))
      (\<lambda>x y. snd (snd (?v (x * 2) (y * 2)))) w h)"
  proof (rule picture_values)
    fix x y
    assume "0 \<le> x" "x < w div 2" "0 \<le> y" "y < h div 2"
    then have "0 \<le> x * 2" "x * 2 < w" "0 \<le> y * 2" "y * 2 < h" by linarith+
    then have "rgba_yuv_at ?s (buf + y * 2 * (w * 4) + x * 2 * 4) = ?v (x * 2) (y * 2)" by (rule converted_pixel)
    then show "fst (snd (rgba_yuv_at ?s (buf + y * 2 * (w * 4) + x * 2 * 4))) = fst (snd (?v (x * 2) (y * 2))) \<and>
        snd (snd (rgba_yuv_at ?s (buf + y * 2 * (w * 4) + x * 2 * 4))) = snd (snd (?v (x * 2) (y * 2)))" by simp
  qed (simp add: converted_pixel)
  then have "set (grid (yuv_stores ?c yuv w h) w h) = set ?ps" using yuv_stores_picture [OF assms] by simp
  then have "writes (grid (yuv_stores ?c yuv w h) w h) n = writes ?ps n"
    by (rule writes_same_stores) (rule nv12_functional)
  then show ?thesis by (simp add: dual_run rgba_loops_picture)
qed

section \<open>The text line\<close>

text \<open>
  The bar is 20 rows high whatever the picture's height is: in a lower picture it is written
  past the end of the buffer.
\<close>

lemma bar_bytes:
  assumes "0 \<le> x" "x < w" "0 \<le> y" "y < 20"
  shows "overlay_bar buf w m (pixel_addr buf w x y + 3) = 200"
proof -
  have "overlay_bar buf w m = writes (grid (\<lambda>x y. [(pixel_addr buf w x y, 0), (pixel_addr buf w x y + 1, 0),
      (pixel_addr buf w x y + 2, 0), (pixel_addr buf w x y + 3, 200)]) w 20) m"
    unfolding overlay_bar_def by (rule for_grid) (simp add: put_writes)
  moreover have "writes (grid (\<lambda>x y. [(pixel_addr buf w x y, 0), (pixel_addr buf w x y + 1, 0),
      (pixel_addr buf w x y + 2, 0), (pixel_addr buf w x y + 3, 200)]) w 20) m (pixel_addr buf w x y + 3) = 200"
  proof (rule writes_functional)
    show "(pixel_addr buf w x y + 3, 200) \<in> set (grid (\<lambda>x y. [(pixel_addr buf w x y, 0), (pixel_addr buf w x y + 1, 0),
        (pixel_addr buf w x y + 2, 0), (pixel_addr buf w x y + 3, 200)]) w 20)"
      unfolding set_grid using assms by auto
  next
    fix v :: "8 word"
    assume "(pixel_addr buf w x y + 3, v) \<in> set (grid (\<lambda>x y. [(pixel_addr buf w x y, 0), (pixel_addr buf w x y + 1, 0),
        (pixel_addr buf w x y + 2, 0), (pixel_addr buf w x y + 3, 200)]) w 20)"
    then obtain x' y' where "0 \<le> x'" "x' < w" "(pixel_addr buf w x y + 3, v) \<in> set [(pixel_addr buf w x' y', 0 :: 8 word),
        (pixel_addr buf w x' y' + 1, 0), (pixel_addr buf w x' y' + 2, 0), (pixel_addr buf w x' y' + 3, 200)]"
      unfolding set_grid by blast
    then show "v = 200"
      using pixel_place [of buf w x y 3 x' y' 0] pixel_place [of buf w x y 3 x' y' 1] pixel_place [of buf w x y 3 x' y' 2]
        assms by auto
  qed
  ultimately show ?thesis by simp
qed

lemma char_above: "0 \<le> cy \<Longrightarrow> a \<notin> {buf + cy * w * 4..<buf + (cy + 7) * w * 4} \<Longrightarrow> drawChar buf w h cx cy ci c m a = m a"
proof -
  assume cy: "0 \<le> cy" and a: "a \<notin> {buf + cy * w * 4..<buf + (cy + 7) * w * 4}"
  let ?b = "buf + cy * w * 4"
  have "touches {?b..<?b + 7 * w * 4} (\<lambda>m. if glyph_dot ci row col \<and> 0 \<le> cx + col \<and> cx + col < w \<and>
        0 \<le> cy + row \<and> cy + row < h then put_rgba (pixel_addr buf w (cx + col) (cy + row)) c 255 m else m)"
    if "0 \<le> row" "row < 7" for row col
  proof (rule touches_if, rule touches_put)
    assume "glyph_dot ci row col \<and> 0 \<le> cx + col \<and> cx + col < w \<and> 0 \<le> cy + row \<and> cy + row < h"
    then have "{pixel_addr ?b w (cx + col) row..pixel_addr ?b w (cx + col) row + 3} \<subseteq> {?b..<?b + 7 * w * 4}"
      using that by (intro pixel_in_rows) auto
    moreover have "pixel_addr ?b w (cx + col) row = pixel_addr buf w (cx + col) (cy + row)"
      by (simp add: pixel_addr_def algebra_simps)
    ultimately show "{pixel_addr buf w (cx + col) (cy + row)..pixel_addr buf w (cx + col) (cy + row) + 3} \<subseteq> {?b..<?b + 7 * w * 4}"
      by simp
  qed
  then have "touches {?b..<?b + 7 * w * 4} (for_range 7 (\<lambda>row. for_range 5 (\<lambda>col m.
        if glyph_dot ci row col \<and> 0 \<le> cx + col \<and> cx + col < w \<and> 0 \<le> cy + row \<and> cy + row < h
        then put_rgba (pixel_addr buf w (cx + col) (cy + row)) c 255 m else m)))"
    by (intro touches_range)
  moreover have "a \<notin> {?b..<?b + 7 * w * 4}" using a by (simp add: algebra_simps)
  ultimately show ?thesis by (simp add: drawChar_def touches_def)
qed

lemma string_above: "0 \<le> y \<Longrightarrow> a \<notin> {buf + y * w * 4..<buf + (y + 7) * w * 4} \<Longrightarrow> snd (draw_string buf w h x y s c m) a = m a"
  by (induction s arbitrary: x m) (simp_all add: char_above)

lemma overlay_below_text:
  assumes "a \<notin> {buf + 6 * w * 4..<buf + 13 * w * 4}"
  shows "drawOverlay buf w h frame ts fps v2 m a = overlay_bar buf w m a"
proof -
  define A where "A = {buf + 6 * w * 4..<buf + 13 * w * 4}"
  have a: "a \<notin> A" using assms by (simp add: A_def)
  have c: "a \<notin> A \<Longrightarrow> drawChar buf w h x 6 ci c m a = m a" for a x ci c m
    unfolding A_def by (rule char_above) auto
  have n: "a \<notin> A \<Longrightarrow> snd (drawNumber buf w h x 6 num c m) a = m a" for a x num c m
    unfolding A_def drawNumber_def by (rule string_above) auto
  show ?thesis unfolding drawOverlay_def Let_def split_beta using a by (cases v2) (simp_all add: c n)
qed

theorem short_image_overruns:
  assumes "0 < w" "0 \<le> h" "h < 20"
  shows "\<exists>a. buf + w * h * 4 \<le> a \<and> renderTestPattern L buf w h frame ts fps v2 m a = 200"
proof -
  let ?a = "pixel_addr buf w 0 19 + 3"
  have out: "h * w \<le> 19 * w" using assms by (intro mult_right_mono) auto
  have "renderTestPattern L buf w h frame ts fps v2 m ?a = 200"
    unfolding renderTestPattern_def
    using overlay_below_text [of ?a buf w] bar_bytes [of 0 w 19 buf] assms(1) by (simp add: pixel_addr_def)
  moreover have "buf + w * h * 4 \<le> ?a" using out unfolding pixel_addr_def mult.commute [of w h] distrib_right by linarith
  ultimately show ?thesis by blast
qed

section \<open>Witnesses\<close>

definition flat_libm :: libm where
  "flat_libm = \<lparr>lm_cos = (\<lambda>_. 1), lm_sin = (\<lambda>_. 0), lm_sqrt = (\<lambda>q. q)\<rparr>"

lemma flat_laws: "libm_laws flat_libm"
  by (simp add: libm_laws_def flat_libm_def)

lemma flat_pixel: "computePixel flat_libm x y w h t = (if x mod 64 < 2 \<or> y mod 64 < 2 then (255, 255, 255) else (155, 125, 45))"
  by (simp add: computePixel_def wave_at_def flat_libm_def to_u8_def Let_def)

theorem pattern_stays_inside_witness:
  "pixel (renderTestPattern flat_libm 1000 70 21 3 40 60 True (\<lambda>_. 7)) (pixel_addr 1000 70 2 20) = (155, 125, 45) \<and>
   renderTestPattern flat_libm 1000 70 21 3 40 60 True (\<lambda>_. 7) 999 = 7 \<and>
   renderTestPattern flat_libm 1000 70 21 3 40 60 True (\<lambda>_. 7) 6880 = 7"
proof -
  note p = pattern_stays_inside [of 70 21 "renderTestPattern flat_libm 1000 70 21 3 40 60 True (\<lambda>_. 7)" flat_libm 1000 3 40 60 True "\<lambda>_. 7"]
  have in_row: "pixel (renderTestPattern flat_libm 1000 70 21 3 40 60 True (\<lambda>_. 7)) (pixel_addr 1000 70 x y) =
      computePixel flat_libm x y 70 21 (frame_time 3)" if "0 \<le> x" "x < 70" "20 \<le> y" "y < 21" for x y
    using p that by simp
  show ?thesis using p in_row [of 2 20] by (simp add: flat_pixel)
qed

theorem dual_equals_two_pass_witness:
  "snd (renderTestPatternDual flat_libm 0 9000 4 2 5 1 60 False ((\<lambda>_. 0), (\<lambda>_. 0))) =
    rgba_loops (pattern_loops flat_libm 0 4 2 5 (\<lambda>_. 0)) 0 16 (nv12_planes 9000 4 2) 4 2 (\<lambda>_. 0)"
  using dual_equals_two_pass [of 4 2 flat_libm 0 9000 5 1 60 False "\<lambda>_. 0" "\<lambda>_. 0"] by simp

theorem short_image_overruns_witness: "\<exists>a. 320 \<le> a \<and> renderTestPattern flat_libm 0 8 10 0 0 0 False (\<lambda>_. 0) a = 200"
  using short_image_overruns [of 8 10 0 flat_libm 0 0 0 False "\<lambda>_. 0"] by simp

end
