(* ===== verification/Test_Gpu.thy ===== *)
theory Test_Gpu
  imports Session_Logic Test_Pattern
begin

text \<open>
  \<open>unified-test/app/src/main/cpp/gpu_renderer.{h,cpp}\<close>: the class that draws the same pattern with
  three fragment shaders and reads it back as NV12 and RGBA. EGL and OpenGL ES are parameters;
  the order of the calls, the objects kept and every early return are the model's. The
  shaders are evaluated in exact rationals.
\<close>

section \<open>The shaders\<close>

datatype test_shader = KVertQuad | KYFrag | KUvFrag | KRgbaFrag

text \<open>Position and texture coordinate of the four corners.\<close>

definition kQuad :: "((rat \<times> rat) \<times> (rat \<times> rat)) list" where
  "kQuad = [((-1, -1), (0, 0)), ((1, -1), (1, 0)), ((-1, 1), (0, 1)), ((1, 1), (1, 1))]"

definition glsl_mod :: "rat \<Rightarrow> rat \<Rightarrow> rat" where
  "glsl_mod x y = x - y * of_int (floor (x / y))"

definition pattern_glsl :: "libm \<Rightarrow> rat \<Rightarrow> rat \<Rightarrow> rat \<times> rat \<Rightarrow> rat \<Rightarrow> rat \<times> rat \<times> rat" where
  "pattern_glsl G WIDTH HEIGHT uv time =
     (let wave = wave_at G (fst uv - 1 / 2) (snd uv - 1 / 2) time in
      if glsl_mod (fst uv * WIDTH) 64 < 2 \<or> glsl_mod (snd uv * HEIGHT) 64 < 2 then (1, 1, 1)
      else ((200 * wave + 55) / 255, (150 * wave + 50) / 255, (50 * wave + 20) / 255))"

text \<open>The colour a shader writes at a texture coordinate.\<close>

fun frag_color :: "libm \<Rightarrow> test_shader \<Rightarrow> rat \<Rightarrow> rat \<Rightarrow> rat \<Rightarrow> rat \<times> rat \<Rightarrow> rat list" where
  "frag_color G KYFrag time WIDTH HEIGHT uv = (case pattern_glsl G WIDTH HEIGHT uv time of (r, g, b) \<Rightarrow>
     [257 / 1000 * r + 504 / 1000 * g + 98 / 1000 * b + 625 / 10000, 0, 0, 1])"
| "frag_color G KUvFrag time WIDTH HEIGHT uv = (case pattern_glsl G WIDTH HEIGHT uv time of (r, g, b) \<Rightarrow>
     [- 148 / 1000 * r - 291 / 1000 * g + 439 / 1000 * b + 1 / 2,
      439 / 1000 * r - 368 / 1000 * g - 71 / 1000 * b + 1 / 2, 0, 1])"
| "frag_color G KRgbaFrag time WIDTH HEIGHT uv = (case pattern_glsl G WIDTH HEIGHT uv time of (r, g, b) \<Rightarrow> [r, g, b, 1])"
| "frag_color G KVertQuad time WIDTH HEIGHT uv = []"

section \<open>The graphics stack\<close>

datatype pixel_format = FmtR8 | FmtRg8 | FmtRgba8

definition channels :: "pixel_format \<Rightarrow> int" where
  "channels f = (case f of FmtR8 \<Rightarrow> 1 | FmtRg8 \<Rightarrow> 2 | FmtRgba8 \<Rightarrow> 4)"

text \<open>
  \<open>tl_chooseConfig\<close> answers what \<open>n\<close> and \<open>cfg\<close> hold after the call, \<open>tl_compiled\<close> and \<open>tl_linked\<close>
  what \<open>ok\<close> holds. \<open>tl_createShader\<close> creates, sources and compiles, \<open>tl_link\<close> attaches and
  links, \<open>tl_texImage\<close> binds the texture and gives it storage and its filter, \<open>tl_quad\<close> binds both
  names and fills and describes the buffer. \<open>tl_pass\<close> binds the framebuffer, sets viewport, program,
  time and size and draws; \<open>tl_readPixels\<close> answers channel \<open>k\<close> of pixel \<open>(x, y)\<close>.
\<close>

record 'w test_gl =
  tl_display :: "'w \<Rightarrow> nat option \<times> 'w"
  tl_initialize :: "nat option \<Rightarrow> 'w \<Rightarrow> 'w"
  tl_chooseConfig :: "nat option \<Rightarrow> 'w \<Rightarrow> (int \<times> nat) \<times> 'w"
  tl_createContext :: "nat option \<Rightarrow> nat \<Rightarrow> 'w \<Rightarrow> nat option \<times> 'w"
  tl_createPbuffer :: "nat option \<Rightarrow> nat \<Rightarrow> 'w \<Rightarrow> nat option \<times> 'w"
  tl_makeCurrent :: "nat option \<Rightarrow> nat option \<Rightarrow> nat option \<Rightarrow> 'w \<Rightarrow> 'w"
  tl_createShader :: "test_shader \<Rightarrow> 'w \<Rightarrow> nat \<times> 'w"
  tl_compiled :: "nat \<Rightarrow> 'w \<Rightarrow> bool \<times> 'w"
  tl_deleteShader :: "nat \<Rightarrow> 'w \<Rightarrow> 'w"
  tl_createProgram :: "'w \<Rightarrow> nat \<times> 'w"
  tl_link :: "nat \<Rightarrow> nat \<Rightarrow> nat \<Rightarrow> 'w \<Rightarrow> 'w"
  tl_linked :: "nat \<Rightarrow> 'w \<Rightarrow> bool \<times> 'w"
  tl_deleteProgram :: "nat \<Rightarrow> 'w \<Rightarrow> 'w"
  tl_genTexture :: "'w \<Rightarrow> nat \<times> 'w"
  tl_texImage :: "nat \<Rightarrow> pixel_format \<Rightarrow> int \<Rightarrow> int \<Rightarrow> 'w \<Rightarrow> 'w"
  tl_deleteTexture :: "nat \<Rightarrow> 'w \<Rightarrow> 'w"
  tl_genFramebuffer :: "'w \<Rightarrow> nat \<times> 'w"
  tl_attach :: "nat \<Rightarrow> nat \<Rightarrow> 'w \<Rightarrow> 'w"
  tl_deleteFramebuffer :: "nat \<Rightarrow> 'w \<Rightarrow> 'w"
  tl_genVertexArray :: "'w \<Rightarrow> nat \<times> 'w"
  tl_genBuffer :: "'w \<Rightarrow> nat \<times> 'w"
  tl_quad :: "nat \<Rightarrow> nat \<Rightarrow> ((rat \<times> rat) \<times> (rat \<times> rat)) list \<Rightarrow> 'w \<Rightarrow> 'w"
  tl_deleteVertexArray :: "nat \<Rightarrow> 'w \<Rightarrow> 'w"
  tl_deleteBuffer :: "nat \<Rightarrow> 'w \<Rightarrow> 'w"
  tl_bindFramebuffer :: "nat \<Rightarrow> 'w \<Rightarrow> 'w"
  tl_bindVertexArray :: "nat \<Rightarrow> 'w \<Rightarrow> 'w"
  tl_pass :: "nat \<Rightarrow> nat \<Rightarrow> int \<Rightarrow> int \<Rightarrow> rat \<Rightarrow> rat \<Rightarrow> rat \<Rightarrow> 'w \<Rightarrow> 'w"
  tl_readPixels :: "int \<Rightarrow> int \<Rightarrow> pixel_format \<Rightarrow> 'w \<Rightarrow> (int \<Rightarrow> int \<Rightarrow> int \<Rightarrow> 8 word) \<times> 'w"
  tl_destroySurface :: "nat option \<Rightarrow> nat \<Rightarrow> 'w \<Rightarrow> 'w"
  tl_destroyContext :: "nat option \<Rightarrow> nat \<Rightarrow> 'w \<Rightarrow> 'w"
  tl_terminate :: "nat option \<Rightarrow> 'w \<Rightarrow> 'w"

section \<open>State\<close>

record test_gpu =
  tg_width :: int
  tg_height :: int
  tg_initialized :: bool
  tg_display :: "nat option"
  tg_context :: "nat option"
  tg_surface :: "nat option"
  tg_yFbo :: nat
  tg_yTex :: nat
  tg_uvFbo :: nat
  tg_uvTex :: nat
  tg_rgbaFbo :: nat
  tg_rgbaTex :: nat
  tg_yProgram :: nat
  tg_uvProgram :: nat
  tg_rgbaProgram :: nat
  tg_quadVao :: nat
  tg_quadVbo :: nat

definition test_gpu_init :: test_gpu where
  "test_gpu_init = \<lparr>tg_width = 0, tg_height = 0, tg_initialized = False, tg_display = None, tg_context = None,
     tg_surface = None, tg_yFbo = 0, tg_yTex = 0, tg_uvFbo = 0, tg_uvTex = 0, tg_rgbaFbo = 0, tg_rgbaTex = 0,
     tg_yProgram = 0, tg_uvProgram = 0, tg_rgbaProgram = 0, tg_quadVao = 0, tg_quadVbo = 0\<rparr>"

type_synonym ('w, 'a) tm = "(test_gpu \<times> 'w, 'a) state"

definition this_tg :: "('w, test_gpu) tm" where
  "this_tg = State (\<lambda>x. (fst x, x))"

definition set_tg :: "(test_gpu \<Rightarrow> test_gpu) \<Rightarrow> ('w, unit) tm" where
  "set_tg f = State (\<lambda>x. ((), (f (fst x), snd x)))"

definition tg_ask :: "('w \<Rightarrow> 'a \<times> 'w) \<Rightarrow> ('w, 'a) tm" where
  "tg_ask f = State (\<lambda>x. let (a, w) = f (snd x) in (a, (fst x, w)))"

definition tg_act :: "('w \<Rightarrow> 'w) \<Rightarrow> ('w, unit) tm" where
  "tg_act f = State (\<lambda>x. ((), (fst x, f (snd x))))"

abbreviation tret :: "'a \<Rightarrow> ('w, 'a) tm" where
  "tret \<equiv> State_Monad.return"

section \<open>Programs and targets\<close>

definition createShader :: "'w test_gl \<Rightarrow> test_shader \<Rightarrow> ('w, nat) tm" where
  "createShader E source = do {
     s \<leftarrow> tg_ask (tl_createShader E source);
     ok \<leftarrow> tg_ask (tl_compiled E s);
     if \<not> ok then do { tg_act (tl_deleteShader E s); tret 0 } else tret s }"

text \<open>A shader whose partner does not compile is not deleted.\<close>

definition createProgram :: "'w test_gl \<Rightarrow> test_shader \<Rightarrow> test_shader \<Rightarrow> ('w, nat) tm" where
  "createProgram E vertSrc fragSrc = do {
     v \<leftarrow> createShader E vertSrc;
     f \<leftarrow> createShader E fragSrc;
     if v = 0 \<or> f = 0 then tret 0
     else do {
       p \<leftarrow> tg_ask (tl_createProgram E);
       tg_act (tl_link E p v f);
       tg_act (tl_deleteShader E v);
       tg_act (tl_deleteShader E f);
       ok \<leftarrow> tg_ask (tl_linked E p);
       if \<not> ok then do { tg_act (tl_deleteProgram E p); tret 0 } else tret p } }"

text \<open>The lambda \<open>makeFbo\<close>: the texture and the framebuffer.\<close>

definition makeFbo :: "'w test_gl \<Rightarrow> pixel_format \<Rightarrow> int \<Rightarrow> int \<Rightarrow> ('w, nat \<times> nat) tm" where
  "makeFbo E fmt w h = do {
     tex \<leftarrow> tg_ask (tl_genTexture E);
     tg_act (tl_texImage E tex fmt w h);
     fbo \<leftarrow> tg_ask (tl_genFramebuffer E);
     tg_act (tl_attach E fbo tex);
     tret (tex, fbo) }"

section \<open>Shutdown\<close>

text \<open>Delete a name and forget it, unless it is 0.\<close>

definition drop_name :: "('w test_gl \<Rightarrow> nat \<Rightarrow> 'w \<Rightarrow> 'w) \<Rightarrow> (test_gpu \<Rightarrow> nat) \<Rightarrow> (test_gpu \<Rightarrow> test_gpu) \<Rightarrow> 'w test_gl \<Rightarrow>
    ('w, unit) tm" where
  "drop_name del get clear E = do {
     g \<leftarrow> this_tg;
     if get g \<noteq> 0 then do { tg_act (del E (get g)); set_tg clear } else tret () }"

definition drop_objects :: "'w test_gl \<Rightarrow> ('w, unit) tm" where
  "drop_objects E = do {
     drop_name tl_deleteTexture tg_yTex (\<lambda>g. g\<lparr>tg_yTex := 0\<rparr>) E;
     drop_name tl_deleteFramebuffer tg_yFbo (\<lambda>g. g\<lparr>tg_yFbo := 0\<rparr>) E;
     drop_name tl_deleteTexture tg_uvTex (\<lambda>g. g\<lparr>tg_uvTex := 0\<rparr>) E;
     drop_name tl_deleteFramebuffer tg_uvFbo (\<lambda>g. g\<lparr>tg_uvFbo := 0\<rparr>) E;
     drop_name tl_deleteTexture tg_rgbaTex (\<lambda>g. g\<lparr>tg_rgbaTex := 0\<rparr>) E;
     drop_name tl_deleteFramebuffer tg_rgbaFbo (\<lambda>g. g\<lparr>tg_rgbaFbo := 0\<rparr>) E;
     drop_name tl_deleteVertexArray tg_quadVao (\<lambda>g. g\<lparr>tg_quadVao := 0\<rparr>) E;
     drop_name tl_deleteBuffer tg_quadVbo (\<lambda>g. g\<lparr>tg_quadVbo := 0\<rparr>) E;
     drop_name tl_deleteProgram tg_yProgram (\<lambda>g. g\<lparr>tg_yProgram := 0\<rparr>) E;
     drop_name tl_deleteProgram tg_uvProgram (\<lambda>g. g\<lparr>tg_uvProgram := 0\<rparr>) E;
     drop_name tl_deleteProgram tg_rgbaProgram (\<lambda>g. g\<lparr>tg_rgbaProgram := 0\<rparr>) E }"

definition when_handle :: "nat option \<Rightarrow> (nat \<Rightarrow> ('w, unit) tm) \<Rightarrow> ('w, unit) tm" where
  "when_handle x f = (case x of None \<Rightarrow> tret () | Some a \<Rightarrow> f a)"

definition gr_shutdown :: "'w test_gl \<Rightarrow> ('w, unit) tm" where
  "gr_shutdown E = do {
     g \<leftarrow> this_tg;
     when_handle (tg_display g) (\<lambda>_. tg_act (tl_makeCurrent E (tg_display g) (tg_surface g) (tg_context g)));
     drop_objects E;
     g \<leftarrow> this_tg;
     when_handle (tg_display g) (\<lambda>_. do {
       tg_act (tl_makeCurrent E (tg_display g) None None);
       when_handle (tg_surface g) (\<lambda>s. tg_act (tl_destroySurface E (tg_display g) s));
       when_handle (tg_context g) (\<lambda>c. tg_act (tl_destroyContext E (tg_display g) c));
       tg_act (tl_terminate E (tg_display g)) });
     set_tg (\<lambda>g. g\<lparr>tg_display := None, tg_context := None, tg_surface := None, tg_initialized := False\<rparr>) }"

section \<open>Set-up\<close>

text \<open>From the compiled programs on.\<close>

definition gr_targets :: "'w test_gl \<Rightarrow> int \<Rightarrow> int \<Rightarrow> ('w, bool) tm" where
  "gr_targets E width height = do {
     y \<leftarrow> makeFbo E FmtR8 width height;
     set_tg (\<lambda>g. g\<lparr>tg_yTex := fst y, tg_yFbo := snd y\<rparr>);
     uv \<leftarrow> makeFbo E FmtRg8 (width div 2) (height div 2);
     set_tg (\<lambda>g. g\<lparr>tg_uvTex := fst uv, tg_uvFbo := snd uv\<rparr>);
     rgba \<leftarrow> makeFbo E FmtRgba8 width height;
     set_tg (\<lambda>g. g\<lparr>tg_rgbaTex := fst rgba, tg_rgbaFbo := snd rgba\<rparr>);
     vao \<leftarrow> tg_ask (tl_genVertexArray E);
     vbo \<leftarrow> tg_ask (tl_genBuffer E);
     set_tg (\<lambda>g. g\<lparr>tg_quadVao := vao, tg_quadVbo := vbo\<rparr>);
     tg_act (tl_quad E vao vbo kQuad);
     tg_act (tl_bindFramebuffer E 0);
     set_tg (\<lambda>g. g\<lparr>tg_initialized := True\<rparr>);
     tret True }"

definition gr_programs :: "'w test_gl \<Rightarrow> int \<Rightarrow> int \<Rightarrow> ('w, bool) tm" where
  "gr_programs E width height = do {
     y \<leftarrow> createProgram E KVertQuad KYFrag;
     set_tg (\<lambda>g. g\<lparr>tg_yProgram := y\<rparr>);
     uv \<leftarrow> createProgram E KVertQuad KUvFrag;
     set_tg (\<lambda>g. g\<lparr>tg_uvProgram := uv\<rparr>);
     rgba \<leftarrow> createProgram E KVertQuad KRgbaFrag;
     set_tg (\<lambda>g. g\<lparr>tg_rgbaProgram := rgba\<rparr>);
     if y = 0 \<or> uv = 0 \<or> rgba = 0 then do { gr_shutdown E; tret False }
     else gr_targets E width height }"

definition gr_initialize :: "'w test_gl \<Rightarrow> int \<Rightarrow> int \<Rightarrow> ('w, bool) tm" where
  "gr_initialize E width height = do {
     set_tg (\<lambda>g. g\<lparr>tg_width := width, tg_height := height\<rparr>);
     dpy \<leftarrow> tg_ask (tl_display E);
     set_tg (\<lambda>g. g\<lparr>tg_display := dpy\<rparr>);
     tg_act (tl_initialize E dpy);
     chosen \<leftarrow> tg_ask (tl_chooseConfig E dpy);
     if fst chosen = 0 then tret False
     else do {
       ctx \<leftarrow> tg_ask (tl_createContext E dpy (snd chosen));
       set_tg (\<lambda>g. g\<lparr>tg_context := ctx\<rparr>);
       surf \<leftarrow> tg_ask (tl_createPbuffer E dpy (snd chosen));
       set_tg (\<lambda>g. g\<lparr>tg_surface := surf\<rparr>);
       tg_act (tl_makeCurrent E dpy surf ctx);
       gr_programs E width height } }"

section \<open>Frames\<close>

text \<open>
  \<open>glReadPixels\<close> into memory: \<open>GL_PACK_ALIGNMENT\<close> is left at 4, so that every row starts at a
  multiple of four bytes from the first.
\<close>

definition packed_row :: "pixel_format \<Rightarrow> int \<Rightarrow> int" where
  "packed_row f w = (w * channels f + 3) div 4 * 4"

definition store_pixels :: "int \<Rightarrow> pixel_format \<Rightarrow> int \<Rightarrow> int \<Rightarrow> (int \<Rightarrow> int \<Rightarrow> int \<Rightarrow> 8 word) \<Rightarrow> mem \<Rightarrow> mem" where
  "store_pixels dst f w h px = for_range h (\<lambda>y. for_range w (\<lambda>x. for_range (channels f) (\<lambda>k m.
     m(dst + (y * packed_row f w + x * channels f) + k := px x y k))))"

definition renderPass :: "'w test_gl \<Rightarrow> nat \<Rightarrow> nat \<Rightarrow> int \<Rightarrow> int \<Rightarrow> int \<Rightarrow> ('w, unit) tm" where
  "renderPass E program fbo vpW vpH frame = do {
     g \<leftarrow> this_tg;
     tg_act (tl_pass E program fbo vpW vpH (frame_time frame) (of_int (tg_width g)) (of_int (tg_height g))) }"

definition read_into :: "'w test_gl \<Rightarrow> int \<Rightarrow> int \<Rightarrow> pixel_format \<Rightarrow> int \<Rightarrow> mem \<Rightarrow> ('w, mem) tm" where
  "read_into E w h f dst m = do {
     px \<leftarrow> tg_ask (tl_readPixels E w h f);
     tret (store_pixels dst f w h px m) }"

text \<open>\<open>rgbaOut\<close> and \<open>nv12Out\<close> are two buffers; the answer is what they hold afterwards.\<close>

definition gr_renderFrame :: "'w test_gl \<Rightarrow> int \<Rightarrow> mem \<Rightarrow> mem \<Rightarrow> ('w, mem \<times> mem) tm" where
  "gr_renderFrame E frameIndex rgbaOut nv12Out = do {
     g \<leftarrow> this_tg;
     if \<not> tg_initialized g then tret (rgbaOut, nv12Out)
     else do {
       let W = tg_width g; H = tg_height g in do {
         tg_act (tl_makeCurrent E (tg_display g) (tg_surface g) (tg_context g));
         tg_act (tl_bindVertexArray E (tg_quadVao g));
         renderPass E (tg_yProgram g) (tg_yFbo g) W H frameIndex;
         n1 \<leftarrow> read_into E W H FmtR8 0 nv12Out;
         renderPass E (tg_uvProgram g) (tg_uvFbo g) (W div 2) (H div 2) frameIndex;
         n2 \<leftarrow> read_into E (W div 2) (H div 2) FmtRg8 (W * H) n1;
         renderPass E (tg_rgbaProgram g) (tg_rgbaFbo g) W H frameIndex;
         m1 \<leftarrow> read_into E W H FmtRgba8 0 rgbaOut;
         tg_act (tl_bindFramebuffer E 0);
         tret (m1, n2) } } }"

end
