(* ===== verification/Test_Gpu_Objects.thy ===== *)
theory Test_Gpu_Objects
  imports Test_Gpu "HOL-Library.Multiset"
begin

text \<open>
  What the test application's GPU renderer holds: set up or not, it owns exactly the surface
  and the context it remembers and no OpenGL object without a context; after \<open>shutdown\<close>, and
  after a set-up that failed, it owns nothing and no context is current.
\<close>

section \<open>What is observed\<close>

datatype gl_kind = Shaders | Programs | Textures | Framebuffers | VertexArrays | VertexBuffers

datatype test_object = EglSurface nat | EglContext nat | GlName gl_kind nat

record 'w test_view =
  tv_held :: "'w \<Rightarrow> test_object multiset"
  tv_current :: "'w \<Rightarrow> bool"

fun is_gl :: "test_object \<Rightarrow> bool" where
  "is_gl (GlName k n) = True"
| "is_gl x = False"

definition gl_part :: "test_object multiset \<Rightarrow> test_object multiset" where
  "gl_part M = filter_mset is_gl M"

definition egl_part :: "test_object multiset \<Rightarrow> test_object multiset" where
  "egl_part M = filter_mset (\<lambda>x. \<not> is_gl x) M"

lemma parts_union: "M = egl_part M + gl_part M"
  unfolding egl_part_def gl_part_def by (metis add.commute multiset_partition)

lemma no_parts [simp]: "egl_part {#} = {#}" "gl_part {#} = {#}"
  by (simp_all add: egl_part_def gl_part_def)

lemma parts_empty: "egl_part M = {#} \<Longrightarrow> gl_part M = {#} \<Longrightarrow> M = {#}"
  using parts_union [of M] by (metis add_0)

definition handle_object :: "(nat \<Rightarrow> test_object) \<Rightarrow> nat option \<Rightarrow> test_object multiset" where
  "handle_object f x = (case x of None \<Rightarrow> {#} | Some a \<Rightarrow> {#f a#})"

lemma handle_object_simps [simp]: "handle_object f None = {#}" "handle_object f (Some a) = {#f a#}"
  by (simp_all add: handle_object_def)

text \<open>
  A call of OpenGL makes and deletes OpenGL objects only, does not change the current context,
  and makes nothing while none is current.
\<close>

definition gl_call :: "'w test_view \<Rightarrow> 'w \<Rightarrow> 'w \<Rightarrow> bool" where
  "gl_call V w w' \<longleftrightarrow> egl_part (tv_held V w') = egl_part (tv_held V w) \<and> tv_current V w' = tv_current V w \<and>
     (\<not> tv_current V w \<longrightarrow> gl_part (tv_held V w') \<subseteq># gl_part (tv_held V w))"

definition gl_calls :: "'w test_gl \<Rightarrow> 'w test_view \<Rightarrow> bool" where
  "gl_calls E V \<longleftrightarrow> (\<forall>w. gl_call V w (snd (tl_display E w))) \<and> (\<forall>d w. gl_call V w (tl_initialize E d w)) \<and>
     (\<forall>d w. gl_call V w (snd (tl_chooseConfig E d w))) \<and> (\<forall>s w. gl_call V w (snd (tl_createShader E s w))) \<and>
     (\<forall>n w. gl_call V w (snd (tl_compiled E n w))) \<and> (\<forall>n w. gl_call V w (tl_deleteShader E n w)) \<and>
     (\<forall>w. gl_call V w (snd (tl_createProgram E w))) \<and> (\<forall>p v f w. gl_call V w (tl_link E p v f w)) \<and>
     (\<forall>n w. gl_call V w (snd (tl_linked E n w))) \<and> (\<forall>n w. gl_call V w (tl_deleteProgram E n w)) \<and>
     (\<forall>w. gl_call V w (snd (tl_genTexture E w))) \<and> (\<forall>t f x y w. gl_call V w (tl_texImage E t f x y w)) \<and>
     (\<forall>n w. gl_call V w (tl_deleteTexture E n w)) \<and> (\<forall>w. gl_call V w (snd (tl_genFramebuffer E w))) \<and>
     (\<forall>b t w. gl_call V w (tl_attach E b t w)) \<and> (\<forall>n w. gl_call V w (tl_deleteFramebuffer E n w)) \<and>
     (\<forall>w. gl_call V w (snd (tl_genVertexArray E w))) \<and> (\<forall>w. gl_call V w (snd (tl_genBuffer E w))) \<and>
     (\<forall>a b q w. gl_call V w (tl_quad E a b q w)) \<and> (\<forall>n w. gl_call V w (tl_deleteVertexArray E n w)) \<and>
     (\<forall>n w. gl_call V w (tl_deleteBuffer E n w)) \<and> (\<forall>n w. gl_call V w (tl_bindFramebuffer E n w)) \<and>
     (\<forall>n w. gl_call V w (tl_bindVertexArray E n w)) \<and>
     (\<forall>p b x y t W H w. gl_call V w (tl_pass E p b x y t W H w)) \<and>
     (\<forall>x y f w. gl_call V w (snd (tl_readPixels E x y f w))) \<and> (\<forall>d w. gl_call V w (tl_terminate E d w))"

text \<open>
  EGL as documented, on one thread: only a valid display creates; without surface and context
  nothing stays current, otherwise the context given may become current; a context that is not
  current goes with all objects in it.
\<close>

definition egl_calls :: "'w test_gl \<Rightarrow> 'w test_view \<Rightarrow> bool" where
  "egl_calls E V \<longleftrightarrow>
     (\<forall>d c w. let r = tl_createContext E d c w in (d = None \<longrightarrow> fst r = None) \<and>
        tv_held V (snd r) = tv_held V w + handle_object EglContext (fst r) \<and> tv_current V (snd r) = tv_current V w) \<and>
     (\<forall>d c w. let r = tl_createPbuffer E d c w in (d = None \<longrightarrow> fst r = None) \<and>
        tv_held V (snd r) = tv_held V w + handle_object EglSurface (fst r) \<and> tv_current V (snd r) = tv_current V w) \<and>
     (\<forall>d s c w. let w' = tl_makeCurrent E d s c w in tv_held V w' = tv_held V w \<and>
        (if s = None \<and> c = None then \<not> tv_current V w' else tv_current V w' \<longrightarrow> tv_current V w \<or> c \<noteq> None)) \<and>
     (\<forall>d s w. let w' = tl_destroySurface E d s w in
        tv_held V w' = tv_held V w - {#EglSurface s#} \<and> tv_current V w' = tv_current V w) \<and>
     (\<forall>d c w. \<not> tv_current V w \<longrightarrow> (let w' = tl_destroyContext E d c w in
        tv_held V w' = egl_part (tv_held V w) - {#EglContext c#} \<and> \<not> tv_current V w'))"

section \<open>The invariant\<close>

definition owns_egl :: "'w test_view \<Rightarrow> test_gpu \<times> 'w \<Rightarrow> bool" where
  "owns_egl V x \<longleftrightarrow> (case x of (g, w) \<Rightarrow>
     egl_part (tv_held V w) = handle_object EglSurface (tg_surface g) + handle_object EglContext (tg_context g) \<and>
     (tg_context g = None \<longrightarrow> gl_part (tv_held V w) = {#} \<and> \<not> tv_current V w) \<and>
     (tg_display g = None \<longrightarrow> tg_surface g = None \<and> tg_context g = None))"

definition owns_nothing :: "'w test_view \<Rightarrow> test_gpu \<times> 'w \<Rightarrow> bool" where
  "owns_nothing V x \<longleftrightarrow> tv_held V (snd x) = {#} \<and> \<not> tv_current V (snd x) \<and> \<not> tg_initialized (fst x) \<and>
     tg_surface (fst x) = None \<and> tg_context (fst x) = None"

lemma owns_nothing_egl: "owns_nothing V x \<Longrightarrow> owns_egl V x"
  by (auto simp: owns_nothing_def owns_egl_def egl_part_def gl_part_def split: prod.split)

lemma owns_egl_empty:
  assumes "owns_egl V x" "tg_surface (fst x) = None" "tg_context (fst x) = None"
  shows "tv_held V (snd x) = {#} \<and> \<not> tv_current V (snd x)"
  using assms parts_union [of "tv_held V (snd x)"] by (auto simp: owns_egl_def split: prod.splits)

lemma gl_call_owns: "gl_call V w w' \<Longrightarrow> owns_egl V (g, w) \<Longrightarrow> owns_egl V (g, w')"
  by (auto simp: gl_call_def owns_egl_def)

lemma ask_owns: "(\<And>w. gl_call V w (snd (f w))) \<Longrightarrow> stable (owns_egl V) (tg_ask f)"
  by (auto simp: stable_def triple_def tg_ask_def split_beta intro: gl_call_owns)

lemma act_owns: "(\<And>w. gl_call V w (f w)) \<Longrightarrow> stable (owns_egl V) (tg_act f)"
  by (auto simp: stable_def triple_def tg_act_def intro: gl_call_owns)

lemma set_owns:
  assumes "\<And>g. tg_surface (u g) = tg_surface g \<and> tg_context (u g) = tg_context g \<and> tg_display (u g) = tg_display g"
  shows "stable (owns_egl V) (set_tg u)"
  using assms by (auto simp: stable_def triple_def set_tg_def owns_egl_def)

lemma this_owns: "stable I this_tg"
  by (simp add: stable_def triple_def this_tg_def)

lemma handle_owns: "(\<And>a. stable I (f a)) \<Longrightarrow> stable I (when_handle x f)"
  by (cases x) (simp_all add: when_handle_def stable_return)

lemma make_current:
  assumes "egl_calls E V"
  shows "tv_held V (tl_makeCurrent E d s c w) = tv_held V w" "\<not> tv_current V (tl_makeCurrent E d None None w)"
    "c = None \<Longrightarrow> \<not> tv_current V w \<Longrightarrow> \<not> tv_current V (tl_makeCurrent E d s c w)"
proof -
  have law: "tv_held V (tl_makeCurrent E d s c w) = tv_held V w \<and> (if s = None \<and> c = None then
      \<not> tv_current V (tl_makeCurrent E d s c w) else tv_current V (tl_makeCurrent E d s c w) \<longrightarrow> tv_current V w \<or> c \<noteq> None)"
    for d s c w using assms unfolding egl_calls_def Let_def by blast
  show "tv_held V (tl_makeCurrent E d s c w) = tv_held V w" using law by blast
  show "\<not> tv_current V (tl_makeCurrent E d None None w)" using law [of d None None w] by simp
  show "c = None \<Longrightarrow> \<not> tv_current V w \<Longrightarrow> \<not> tv_current V (tl_makeCurrent E d s c w)"
    using law [of d s c w] by (simp split: if_splits)
qed

lemma current_owns:
  assumes "egl_calls E V"
  shows "owns_egl V (g, w) \<Longrightarrow> owns_egl V (g, tl_makeCurrent E d s (tg_context g) w)"
  using make_current [OF assms] by (auto simp: owns_egl_def)

section \<open>Set-up, frames and shutdown\<close>

lemma shader_owns: "gl_calls E V \<Longrightarrow> stable (owns_egl V) (createShader E s)"
  unfolding createShader_def gl_calls_def
  by (intro stable_bind stable_if stable_return ask_owns act_owns) auto

lemma program_owns: "gl_calls E V \<Longrightarrow> stable (owns_egl V) (createProgram E vert frag)"
  unfolding createProgram_def
  by (intro stable_bind stable_if stable_return shader_owns ask_owns act_owns) (auto simp: gl_calls_def)

lemma fbo_owns: "gl_calls E V \<Longrightarrow> stable (owns_egl V) (makeFbo E f w h)"
  unfolding makeFbo_def by (intro stable_bind stable_return ask_owns act_owns) (auto simp: gl_calls_def)

lemma drop_owns: "gl_calls E V \<Longrightarrow> stable (owns_egl V) (drop_objects E)"
  unfolding drop_objects_def drop_name_def
  by (intro stable_bind stable_if stable_return this_owns act_owns set_owns) (auto simp: gl_calls_def)

lemma targets_owns: "gl_calls E V \<Longrightarrow> stable (owns_egl V) (gr_targets E w h)"
  unfolding gr_targets_def
  by (intro stable_bind stable_return fbo_owns ask_owns act_owns set_owns) (auto simp: gl_calls_def)

lemma pass_owns: "gl_calls E V \<Longrightarrow> stable (owns_egl V) (renderPass E p b w h i)"
  unfolding renderPass_def by (intro stable_bind this_owns act_owns) (auto simp: gl_calls_def)

lemma read_owns: "gl_calls E V \<Longrightarrow> stable (owns_egl V) (read_into E w h f dst m)"
  unfolding read_into_def by (intro stable_bind stable_return ask_owns) (auto simp: gl_calls_def)

lemma frame_owns:
  assumes "gl_calls E V" "egl_calls E V"
  shows "stable (owns_egl V) (gr_renderFrame E i rgba nv12)"
proof -
  have rest: "stable (owns_egl V) (do {
         tg_act (tl_bindVertexArray E vao); renderPass E py yb W H i; n1 \<leftarrow> read_into E W H FmtR8 0 nv12;
         renderPass E pu bu W2 H2 i; n2 \<leftarrow> read_into E W2 H2 FmtRg8 off n1; renderPass E pr br W H i;
         m1 \<leftarrow> read_into E W H FmtRgba8 0 rgba; tg_act (tl_bindFramebuffer E 0); tret (m1, n2) })"
    for vao py yb W H pu bu W2 H2 off pr br
    by (intro stable_bind stable_return pass_owns [OF assms(1)] read_owns [OF assms(1)] act_owns)
      (use assms(1) in \<open>auto simp: gl_calls_def\<close>)
  show ?thesis
    unfolding stable_def
  proof (rule tripleI)
    fix x a x'
    assume x: "owns_egl V x" and run: "run_state (gr_renderFrame E i rgba nv12) x = (a, x')"
    obtain g w where gw: "x = (g, w)" by fastforce
    show "owns_egl V x'"
    proof (cases "tg_initialized g")
      case True
      let ?w = "tl_makeCurrent E (tg_display g) (tg_surface g) (tg_context g) w"
      have "owns_egl V (g, ?w)" using current_owns [OF assms(2)] x gw by blast
      moreover have "run_state (do {
         tg_act (tl_bindVertexArray E (tg_quadVao g)); renderPass E (tg_yProgram g) (tg_yFbo g) (tg_width g) (tg_height g) i;
         n1 \<leftarrow> read_into E (tg_width g) (tg_height g) FmtR8 0 nv12;
         renderPass E (tg_uvProgram g) (tg_uvFbo g) (tg_width g div 2) (tg_height g div 2) i;
         n2 \<leftarrow> read_into E (tg_width g div 2) (tg_height g div 2) FmtRg8 (tg_width g * tg_height g) n1;
         renderPass E (tg_rgbaProgram g) (tg_rgbaFbo g) (tg_width g) (tg_height g) i;
         m1 \<leftarrow> read_into E (tg_width g) (tg_height g) FmtRgba8 0 rgba; tg_act (tl_bindFramebuffer E 0); tret (m1, n2) }) (g, ?w) = (a, x')"
        using run gw True by (simp add: gr_renderFrame_def this_tg_def tg_act_def Let_def)
      ultimately show ?thesis using stableD [OF rest] by blast
    next
      case False
      then show ?thesis using run x gw by (simp add: gr_renderFrame_def this_tg_def)
    qed
  qed
qed

definition handles_are :: "nat option \<Rightarrow> nat option \<Rightarrow> nat option \<Rightarrow> test_gpu \<times> 'w \<Rightarrow> bool" where
  "handles_are d sf c x \<longleftrightarrow> tg_display (fst x) = d \<and> tg_surface (fst x) = sf \<and> tg_context (fst x) = c"

lemma handles_act: "stable (handles_are d sf c) (tg_act f)"
  by (simp add: stable_def triple_def tg_act_def handles_are_def)

lemma handles_set:
  "(\<And>g. tg_display (u g) = tg_display g \<and> tg_surface (u g) = tg_surface g \<and> tg_context (u g) = tg_context g) \<Longrightarrow>
   stable (handles_are d sf c) (set_tg u)"
  by (simp add: stable_def triple_def set_tg_def handles_are_def)

lemma drop_keeps_handles: "stable (handles_are d sf c) (drop_objects E)"
  unfolding drop_objects_def drop_name_def
  by (intro stable_bind stable_if stable_return this_owns handles_act handles_set) simp_all

lemma egl_destroys:
  assumes "egl_calls E V"
  shows "tv_held V (tl_destroySurface E d sf w) = tv_held V w - {#EglSurface sf#}"
    "tv_current V (tl_destroySurface E d sf w) = tv_current V w"
    "\<not> tv_current V w \<Longrightarrow> tv_held V (tl_destroyContext E d c w) = egl_part (tv_held V w) - {#EglContext c#}"
    "\<not> tv_current V w \<Longrightarrow> \<not> tv_current V (tl_destroyContext E d c w)"
  using assms unfolding egl_calls_def Let_def by blast+

text \<open>The end of \<open>shutdown\<close> with a display: release, destroy the surface, destroy the context.\<close>

lemma egl_emptied:
  assumes egl: "egl_calls E V" and owns: "owns_egl V (g, w)" and w1: "w1 = tl_makeCurrent E d None None w"
    and w2: "w2 = (case tg_surface g of None \<Rightarrow> w1 | Some s \<Rightarrow> tl_destroySurface E d s w1)"
    and w3: "w3 = (case tg_context g of None \<Rightarrow> w2 | Some c \<Rightarrow> tl_destroyContext E d c w2)"
  shows "tv_held V w3 = {#} \<and> \<not> tv_current V w3"
proof -
  define G where "G = gl_part (tv_held V w)"
  have held: "tv_held V w = handle_object EglSurface (tg_surface g) + handle_object EglContext (tg_context g) + G"
    using owns parts_union [of "tv_held V w"] by (simp add: owns_egl_def G_def)
  have a: "tv_held V w1 = tv_held V w" "\<not> tv_current V w1" using make_current [OF egl] w1 by simp_all
  have b: "tv_held V w2 = handle_object EglContext (tg_context g) + G" "\<not> tv_current V w2"
    using w2 a held egl_destroys(1,2) [OF egl] by (auto split: option.splits)
  have "egl_part (handle_object EglContext (tg_context g) + G) = handle_object EglContext (tg_context g)"
    by (cases "tg_context g") (simp_all add: egl_part_def gl_part_def G_def filter_filter_mset)
  moreover have "tg_context g = None \<Longrightarrow> G = {#}" using owns by (simp add: owns_egl_def G_def)
  ultimately show ?thesis
    using w3 b egl_destroys(3,4) [OF egl] by (auto split: option.splits)
qed

text \<open>Whatever state it is in, the renderer owns nothing after \<open>shutdown\<close>.\<close>

lemma shutdown_frees:
  assumes gl: "gl_calls E V" and egl: "egl_calls E V" and x: "owns_egl V x" and run: "run_state (gr_shutdown E) x = (u, x')"
  shows "owns_nothing V x'"
proof -
  obtain g w where gw: "x = (g, w)" by fastforce
  let ?w1 = "case tg_display g of None \<Rightarrow> w | Some _ \<Rightarrow> tl_makeCurrent E (tg_display g) (tg_surface g) (tg_context g) w"
  have start: "owns_egl V (g, ?w1)" using current_owns [OF egl] x gw by (simp split: option.split)
  obtain v g2 w2 where d: "run_state (drop_objects E) (g, ?w1) = (v, (g2, w2))" by (metis surj_pair)
  have dropped: "owns_egl V (g2, w2)" using stableD [OF drop_owns [OF gl] d start] .
  have same: "tg_display g2 = tg_display g" using stableD [OF drop_keeps_handles d] by (simp add: handles_are_def)
  let ?g = "g2\<lparr>tg_display := None, tg_context := None, tg_surface := None, tg_initialized := False\<rparr>"
  show ?thesis
  proof (cases "tg_display g")
    case None
    then have "x' = (?g, w2)" using run gw d same
      by (simp add: gr_shutdown_def this_tg_def set_tg_def tg_act_def when_handle_def)
    moreover have "tg_surface g2 = None" "tg_context g2 = None" using dropped None same by (simp_all add: owns_egl_def)
    ultimately show ?thesis using owns_egl_empty [OF dropped] by (simp add: owns_nothing_def)
  next
    case (Some dpy)
    define w3 where "w3 = tl_makeCurrent E (Some dpy) None None w2"
    define w4 where "w4 = (case tg_surface g2 of None \<Rightarrow> w3 | Some s \<Rightarrow> tl_destroySurface E (Some dpy) s w3)"
    define w5 where "w5 = (case tg_context g2 of None \<Rightarrow> w4 | Some c \<Rightarrow> tl_destroyContext E (Some dpy) c w4)"
    have x': "x' = (?g, tl_terminate E (Some dpy) w5)" using run gw d same Some
      by (auto simp: gr_shutdown_def this_tg_def set_tg_def tg_act_def when_handle_def w3_def w4_def w5_def split: option.splits)
    have "tv_held V w5 = {#} \<and> \<not> tv_current V w5" by (rule egl_emptied [OF egl dropped w3_def w4_def w5_def])
    moreover have "gl_call V w5 (tl_terminate E (Some dpy) w5)" using gl by (simp add: gl_calls_def)
    ultimately have "egl_part (tv_held V (tl_terminate E (Some dpy) w5)) = {#}"
        "gl_part (tv_held V (tl_terminate E (Some dpy) w5)) = {#}" "\<not> tv_current V (tl_terminate E (Some dpy) w5)"
      by (simp_all add: gl_call_def)
    then have "tv_held V (tl_terminate E (Some dpy) w5) = {#} \<and> \<not> tv_current V (tl_terminate E (Some dpy) w5)"
      by (blast intro: parts_empty)
    then show ?thesis using x' by (simp add: owns_nothing_def)
  qed
qed

text \<open>A set-up from nothing owns its surface and context, or nothing when it fails.\<close>

definition fresh_gpu :: "'w test_view \<Rightarrow> test_gpu \<times> 'w \<Rightarrow> bool" where
  "fresh_gpu V x \<longleftrightarrow> owns_egl V x \<and> (\<not> tg_initialized (fst x) \<longrightarrow> owns_nothing V x)"

lemma tg_triple_skip: "(\<And>a. triple (\<lambda>_. True) (f a) Q) \<Longrightarrow> triple (\<lambda>_. True) (State_Monad.bind m f) Q"
proof (rule tripleI)
  fix x b x'
  assume f: "\<And>a. triple (\<lambda>_. True) (f a) Q" and run: "run_state (State_Monad.bind m f) x = (b, x')"
  obtain a y where "run_state m x = (a, y)" by (rule prod.exhaust)
  then have "run_state (f a) y = (b, x')" using run by simp
  then show "Q b x'" using tripleD [OF f] by blast
qed

lemma targets_done:
  assumes "run_state (gr_targets E W H) x = (ok, x')"
  shows "ok \<and> tg_initialized (fst x')"
proof -
  have fin: "triple (\<lambda>_. True) (do { set_tg (\<lambda>g. g\<lparr>tg_initialized := True\<rparr>); tret True }) (\<lambda>ok x. ok \<and> tg_initialized (fst x))"
    by (simp add: triple_def set_tg_def)
  have "triple (\<lambda>_. True) (gr_targets E W H) (\<lambda>ok x. ok \<and> tg_initialized (fst x))"
    unfolding gr_targets_def
    by (intro fin tg_triple_skip)
  then show ?thesis by (rule tripleD [OF _ assms TrueI])
qed

lemma programs_fresh:
  assumes gl: "gl_calls E V" and egl: "egl_calls E V" and x: "owns_egl V x" and run: "run_state (gr_programs E W H) x = (ok, x')"
  shows "fresh_gpu V x' \<and> ok = tg_initialized (fst x')"
proof -
  let ?A = "do { y \<leftarrow> createProgram E KVertQuad KYFrag; set_tg (\<lambda>g. g\<lparr>tg_yProgram := y\<rparr>);
     uv \<leftarrow> createProgram E KVertQuad KUvFrag; set_tg (\<lambda>g. g\<lparr>tg_uvProgram := uv\<rparr>);
     rgba \<leftarrow> createProgram E KVertQuad KRgbaFrag; set_tg (\<lambda>g. g\<lparr>tg_rgbaProgram := rgba\<rparr>); tret (y, uv, rgba) }"
  obtain r x1 where r: "run_state ?A x = (r, x1)" by (rule prod.exhaust)
  obtain y uv rgba where "r = (y, uv, rgba)" by (rule prod_cases3)
  then have a: "run_state ?A x = ((y, uv, rgba), x1)" using r by simp
  have "stable (owns_egl V) ?A" by (intro stable_bind stable_return program_owns [OF gl] set_owns) simp_all
  then have x1: "owns_egl V x1" by (rule stableD [where I = "owns_egl V", OF _ a x])
  have rest: "run_state (if y = 0 \<or> uv = 0 \<or> rgba = 0 then do { gr_shutdown E; tret False } else gr_targets E W H) x1 = (ok, x')"
  proof -
    have "gr_programs E W H = State_Monad.bind ?A (\<lambda>(y, uv, rgba). if y = 0 \<or> uv = 0 \<or> rgba = 0
        then do { gr_shutdown E; tret False } else gr_targets E W H)"
      by (simp add: gr_programs_def)
    then have "run_state (gr_programs E W H) x = run_state (case (y, uv, rgba) of (y, uv, rgba) \<Rightarrow> if y = 0 \<or> uv = 0 \<or> rgba = 0
        then do { gr_shutdown E; tret False } else gr_targets E W H) x1"
      using a by (simp add: State_Monad.bind_def del: prod.case)
    then show ?thesis using run by simp
  qed
  show ?thesis
  proof (cases "y = 0 \<or> uv = 0 \<or> rgba = 0")
    case True
    obtain u x2 where s: "run_state (gr_shutdown E) x1 = (u, x2)" by (rule prod.exhaust)
    then have "x' = x2" "\<not> ok" using rest True by simp_all
    moreover have free: "owns_nothing V x2" by (rule shutdown_frees [OF gl egl x1 s])
    moreover from free have "\<not> tg_initialized (fst x2)" by (simp add: owns_nothing_def)
    ultimately show ?thesis using owns_nothing_egl [OF free] by (simp add: fresh_gpu_def)
  next
    case False
    then have r: "run_state (gr_targets E W H) x1 = (ok, x')" using rest by simp
    then show ?thesis using targets_done [OF r] stableD [OF targets_owns [OF gl] r x1] by (simp add: fresh_gpu_def)
  qed
qed

lemma gl_call_nothing:
  assumes "gl_call V w w'" "owns_nothing V (g, w)" "tg_surface g' = None" "tg_context g' = None" "\<not> tg_initialized g'"
  shows "owns_nothing V (g', w')"
proof -
  have "egl_part (tv_held V w') = {#}" "gl_part (tv_held V w') = {#}"
    using assms(1,2) by (simp_all add: gl_call_def owns_nothing_def)
  then have "tv_held V w' = {#}" by (rule parts_empty)
  then show ?thesis using assms by (simp add: owns_nothing_def gl_call_def)
qed

lemma initialize_fresh:
  assumes gl: "gl_calls E V" and egl: "egl_calls E V" and x: "owns_nothing V x" and run: "run_state (gr_initialize E W H) x = (ok, x')"
  shows "fresh_gpu V x' \<and> ok = tg_initialized (fst x')"
proof -
  obtain g w where gw: "x = (g, w)" by fastforce
  obtain dpy w1 where d: "tl_display E w = (dpy, w1)" by fastforce
  obtain n cfg w2 where c: "tl_chooseConfig E dpy (tl_initialize E dpy w1) = ((n, cfg), w2)" by (metis surj_pair)
  let ?g = "g\<lparr>tg_width := W, tg_height := H, tg_display := dpy\<rparr>"
  have calls: "gl_call V w w1" "gl_call V w1 (tl_initialize E dpy w1)" "gl_call V (tl_initialize E dpy w1) w2"
    using gl d c unfolding gl_calls_def by (metis snd_conv)+
  have none: "tg_surface ?g = None" "tg_context ?g = None" "\<not> tg_initialized ?g" using x gw by (simp_all add: owns_nothing_def)
  have empty: "owns_nothing V (?g, w2)"
    using gl_call_nothing [OF calls(3) _ none] gl_call_nothing [OF calls(2) _ none] gl_call_nothing [OF calls(1) _ none] x gw by blast
  show ?thesis
  proof (cases "n = 0")
    case True
    then have "x' = (?g, w2)" "\<not> ok" using run gw d c by (simp_all add: gr_initialize_def set_tg_def tg_ask_def tg_act_def)
    moreover have "\<not> tg_initialized g" using x gw by (simp add: owns_nothing_def)
    ultimately show ?thesis using empty owns_nothing_egl [OF empty] by (simp add: fresh_gpu_def)
  next
    case False
    obtain ctx w3 where k: "tl_createContext E dpy cfg w2 = (ctx, w3)" by fastforce
    obtain sf w4 where s: "tl_createPbuffer E dpy cfg w3 = (sf, w4)" by fastforce
    let ?g5 = "?g\<lparr>tg_context := ctx, tg_surface := sf\<rparr>"
    have made: "dpy = None \<longrightarrow> ctx = None" "tv_held V w3 = handle_object EglContext ctx" "\<not> tv_current V w3"
      using egl k empty unfolding egl_calls_def Let_def owns_nothing_def by (metis add_0 fst_conv snd_conv)+
    have made': "dpy = None \<longrightarrow> sf = None" "tv_held V w4 = handle_object EglContext ctx + handle_object EglSurface sf" "\<not> tv_current V w4"
      using egl s made unfolding egl_calls_def Let_def by (metis fst_conv snd_conv)+
    have "egl_part (tv_held V w4) = tv_held V w4" "gl_part (tv_held V w4) = {#}"
      using made'(2) by (cases ctx; cases sf; simp add: egl_part_def gl_part_def)+
    then have "owns_egl V (?g5, w4)" using made made' by (auto simp: owns_egl_def add.commute)
    then have owns: "owns_egl V (?g5, tl_makeCurrent E dpy sf ctx w4)" using current_owns [OF egl, of ?g5] by simp
    have "run_state (gr_programs E W H) (?g5, tl_makeCurrent E dpy sf ctx w4) = (ok, x')"
      using run gw d c k s False by (simp add: gr_initialize_def set_tg_def tg_ask_def tg_act_def)
    then show ?thesis by (rule programs_fresh [OF gl egl owns])
  qed
qed

section \<open>A session\<close>

lemma frame_keeps_gpu: "stable (\<lambda>x. fst x = g) (gr_renderFrame E i rgba nv12)"
proof -
  have "stable (\<lambda>x. fst x = g) (tg_ask f)" for f :: "'w \<Rightarrow> 'b \<times> 'w"
    by (simp add: stable_def triple_def tg_ask_def split_beta)
  moreover have "stable (\<lambda>x. fst x = g) (tg_act f)" for f :: "'w \<Rightarrow> 'w"
    by (simp add: stable_def triple_def tg_act_def)
  ultimately show ?thesis
    unfolding gr_renderFrame_def renderPass_def read_into_def Let_def
    by (intro stable_bind stable_if stable_return this_owns)
qed

text \<open>
  The calls the application makes: before each frame it sets the renderer up unless it is, and
  draws when that succeeded.
\<close>

fun gpu_uses :: "'w test_gl \<Rightarrow> int \<Rightarrow> int \<Rightarrow> int list \<Rightarrow> ('w, unit) tm" where
  "gpu_uses E W H [] = tret ()"
| "gpu_uses E W H (i # is) = do {
     g \<leftarrow> this_tg;
     ok \<leftarrow> (if tg_initialized g then tret True else gr_initialize E W H);
     (if ok then do { gr_renderFrame E i (\<lambda>_. 0) (\<lambda>_. 0); tret () } else tret ());
     gpu_uses E W H is }"

lemma uses_fresh:
  assumes gl: "gl_calls E V" and egl: "egl_calls E V"
  shows "fresh_gpu V x \<Longrightarrow> run_state (gpu_uses E W H is) x = (u, x') \<Longrightarrow> fresh_gpu V x'"
proof (induction "is" arbitrary: x)
  case Nil
  then show ?case by simp
next
  case (Cons i "is")
  obtain g w where x: "x = (g, w)" by fastforce
  obtain ok y where s: "run_state (if tg_initialized g then tret True else gr_initialize E W H) x = (ok, y)"
    by (rule prod.exhaust)
  have y: "fresh_gpu V y"
  proof (cases "tg_initialized g")
    case True
    then show ?thesis using s Cons.prems(1) by simp
  next
    case False
    then have "owns_nothing V x" using Cons.prems(1) x by (simp add: fresh_gpu_def)
    then show ?thesis using initialize_fresh [OF gl egl] s False by simp
  qed
  obtain v z where f: "run_state (if ok then do { gr_renderFrame E i (\<lambda>_. 0) (\<lambda>_. 0); tret () } else tret ()) y = (v, z)"
    by (rule prod.exhaust)
  have "fresh_gpu V z"
  proof (cases ok)
    case True
    then obtain a where r: "run_state (gr_renderFrame E i (\<lambda>_. 0) (\<lambda>_. 0)) y = (a, z)" using f by (auto split: prod.splits)
    have "fst z = fst y" using stableD [OF frame_keeps_gpu r] by blast
    moreover have "owns_egl V z" using stableD [OF frame_owns [OF gl egl] r] y by (simp add: fresh_gpu_def)
    moreover have "owns_nothing V z" if "\<not> tg_initialized (fst y)"
      using that r y by (cases y) (auto simp: gr_renderFrame_def this_tg_def fresh_gpu_def)
    ultimately show ?thesis by (simp add: fresh_gpu_def)
  next
    case False
    then show ?thesis using f y by simp
  qed
  moreover have "run_state (gpu_uses E W H is) z = (u, x')"
    using Cons.prems(2) x s f by (simp add: this_tg_def split: prod.splits)
  ultimately show ?case by (rule Cons.IH)
qed


section \<open>Witness\<close>

text \<open>A graphics stack that counts its objects.\<close>

definition counting_gl :: "(test_object multiset \<times> bool) test_gl" where
  "counting_gl = (let new = (\<lambda>k (M, c). (1, if c then (add_mset (GlName k 1) M, c) else (M, c)));
       del = (\<lambda>k (n :: nat) (M, c). (M - {#GlName k n#}, c)) in
     \<lparr>tl_display = (\<lambda>w. (Some 1, w)), tl_initialize = (\<lambda>_ w. w), tl_chooseConfig = (\<lambda>_ w. ((1, 1), w)),
     tl_createContext = (\<lambda>d _ (M, c). case d of None \<Rightarrow> (None, (M, c)) | Some _ \<Rightarrow> (Some 2, (add_mset (EglContext 2) M, c))),
     tl_createPbuffer = (\<lambda>d _ (M, c). case d of None \<Rightarrow> (None, (M, c)) | Some _ \<Rightarrow> (Some 3, (add_mset (EglSurface 3) M, c))),
     tl_makeCurrent = (\<lambda>_ _ c (M, _). (M, c \<noteq> None)), tl_createShader = (\<lambda>_. new Shaders),
     tl_compiled = (\<lambda>_ w. (True, w)), tl_deleteShader = del Shaders, tl_createProgram = new Programs,
     tl_link = (\<lambda>_ _ _ w. w), tl_linked = (\<lambda>_ w. (True, w)), tl_deleteProgram = del Programs,
     tl_genTexture = new Textures, tl_texImage = (\<lambda>_ _ _ _ w. w), tl_deleteTexture = del Textures,
     tl_genFramebuffer = new Framebuffers, tl_attach = (\<lambda>_ _ w. w), tl_deleteFramebuffer = del Framebuffers,
     tl_genVertexArray = new VertexArrays, tl_genBuffer = new VertexBuffers, tl_quad = (\<lambda>_ _ _ w. w),
     tl_deleteVertexArray = del VertexArrays, tl_deleteBuffer = del VertexBuffers, tl_bindFramebuffer = (\<lambda>_ w. w),
     tl_bindVertexArray = (\<lambda>_ w. w), tl_pass = (\<lambda>_ _ _ _ _ _ _ w. w), tl_readPixels = (\<lambda>_ _ _ w. (\<lambda>_ _ _. 0, w)),
     tl_destroySurface = (\<lambda>_ s (M, c). (M - {#EglSurface s#}, c)),
     tl_destroyContext = (\<lambda>_ k (M, c). if c then (M, c) else (egl_part M - {#EglContext k#}, False)),
     tl_terminate = (\<lambda>_ w. w)\<rparr>)"

definition counting_view :: "(test_object multiset \<times> bool) test_view" where
  "counting_view = \<lparr>tv_held = fst, tv_current = snd\<rparr>"

lemma part_diff: "egl_part (M - {#GlName k n#}) = egl_part M" "gl_part (M - {#GlName k n#}) \<subseteq># gl_part M"
  by (simp_all add: egl_part_def gl_part_def multiset_filter_mono)

lemma counting_gl_calls: "gl_calls counting_gl counting_view"
  unfolding gl_calls_def gl_call_def counting_gl_def counting_view_def Let_def
  by (simp add: part_diff egl_part_def gl_part_def split_beta)

lemma counting_egl_calls: "egl_calls counting_gl counting_view"
  unfolding egl_calls_def counting_gl_def counting_view_def Let_def
  by (auto simp: split_beta split: option.split)


end
