(* ===== verification/Test_Gpu_Frames.thy ===== *)
theory Test_Gpu_Frames
  imports Test_Gpu Pattern_Theorems
begin

text \<open>
  What the test application's GPU renderer puts into its two buffers: the planes of the
  pattern, at the places an NV12 frame has them, with the same grid the CPU draws.
\<close>

section \<open>Reading pixels into memory\<close>

lemma channels_pos [simp]: "0 < channels f" "channels FmtR8 = 1" "channels FmtRg8 = 2" "channels FmtRgba8 = 4"
  by (cases f) (simp_all add: channels_def)

lemma row_covers: "w * channels f \<le> packed_row f w"
  unfolding packed_row_def by presburger

lemma byte_place:
  assumes "dst + (y * packed_row f w + x * channels f) + k = dst + (y' * packed_row f w + x' * channels f) + k'"
    and "0 \<le> x" "x < w" "0 \<le> x'" "x' < w" "0 \<le> k" "k < channels f" "0 \<le> k'" "k' < channels f"
  shows "x = x' \<and> y = y' \<and> k = k'"
proof -
  have inside: "0 \<le> u * channels f + j" "u * channels f + j < packed_row f w"
    if "0 \<le> u" "u < w" "0 \<le> j" "j < channels f" for u j
  proof -
    have "(u + 1) * channels f \<le> w * channels f" using that by (intro mult_right_mono) auto
    then show "u * channels f + j < packed_row f w" using row_covers [of w f] that by (simp add: distrib_right)
    show "0 \<le> u * channels f + j" using that channels_pos(1) [of f] by simp
  qed
  have "y * packed_row f w + (x * channels f + k) = y' * packed_row f w + (x' * channels f + k')" using assms(1) by simp
  then have "x * channels f + k = x' * channels f + k' \<and> y = y'" using inside assms by (intro row_col) auto
  moreover from this have "k = k' \<and> x = x'" using assms by (intro row_col) auto
  ultimately show ?thesis by blast
qed

lemma store_pixels_writes: "store_pixels dst f w h px m = writes (grid (\<lambda>x y. concat (map (\<lambda>k.
    [(dst + (y * packed_row f w + x * channels f) + k, px x y k)]) (upto_list (channels f)))) w h) m"
  unfolding store_pixels_def by (rule for_grid, rule for_range_writes) simp

lemma store_pixels_byte:
  assumes "0 \<le> x" "x < w" "0 \<le> y" "y < h" "0 \<le> k" "k < channels f"
  shows "store_pixels dst f w h px m (dst + (y * packed_row f w + x * channels f) + k) = px x y k"
  unfolding store_pixels_writes
proof (rule writes_functional)
  show "(dst + (y * packed_row f w + x * channels f) + k, px x y k) \<in> set (grid (\<lambda>x y. concat (map (\<lambda>k.
    [(dst + (y * packed_row f w + x * channels f) + k, px x y k)]) (upto_list (channels f)))) w h)"
    unfolding set_grid using assms by auto
next
  fix v
  assume "(dst + (y * packed_row f w + x * channels f) + k, v) \<in> set (grid (\<lambda>x y. concat (map (\<lambda>k.
    [(dst + (y * packed_row f w + x * channels f) + k, px x y k)]) (upto_list (channels f)))) w h)"
  then obtain x' y' k' where p: "0 \<le> x'" "x' < w" "0 \<le> k'" "k' < channels f" "v = px x' y' k'"
      "dst + (y * packed_row f w + x * channels f) + k = dst + (y' * packed_row f w + x' * channels f) + k'"
    unfolding set_grid by auto
  show "v = px x y k" using byte_place [OF p(6) assms(1,2) p(1,2) assms(5,6) p(3,4)] p(5) by simp
qed

lemma store_pixels_touches: "touches {dst..<dst + h * packed_row f w} (store_pixels dst f w h px)"
proof -
  have "touches {dst..<dst + h * packed_row f w} (\<lambda>m. m(dst + (y * packed_row f w + x * channels f) + k := px x y k))"
    if "0 \<le> x" "x < w" "0 \<le> y" "y < h" "0 \<le> k" "k < channels f" for x y k
  proof -
    have "(x + 1) * channels f \<le> w * channels f" using that by (intro mult_right_mono) auto
    then have in_row: "x * channels f + k < packed_row f w" "0 \<le> x * channels f + k"
      using row_covers [of w f] that channels_pos(1) [of f] by (simp_all add: distrib_right)
    then have "(y + 1) * packed_row f w \<le> h * packed_row f w" "0 \<le> y * packed_row f w"
      using that by (intro mult_right_mono mult_nonneg_nonneg; linarith)+
    then have "dst + (y * packed_row f w + x * channels f) + k \<in> {dst..<dst + h * packed_row f w}"
      using in_row unfolding distrib_right atLeastLessThan_iff by linarith
    then show ?thesis by (auto simp: touches_def)
  qed
  then show ?thesis unfolding store_pixels_def by (intro touches_range)
qed

section \<open>The documented behaviour of OpenGL ES\<close>

text \<open>
  The part of a context's state that the renderer uses: the sources of shaders and linked
  programs, the storage of textures and framebuffers, the vertices of vertex arrays and the bound
  one. Names are fresh. Drawing a quad over the whole viewport runs the fragment shader at
  the centre of every pixel, and reading answers the colours rounded to bytes.
\<close>

record gl_store =
  gs_source :: "nat \<Rightarrow> test_shader option"
  gs_program :: "nat \<Rightarrow> test_shader option"
  gs_texture :: "nat \<Rightarrow> (pixel_format \<times> int \<times> int) option"
  gs_target :: "nat \<Rightarrow> (pixel_format \<times> int \<times> int) option"
  gs_array :: "nat \<Rightarrow> ((rat \<times> rat) \<times> (rat \<times> rat)) list option"
  gs_bound :: nat

definition gl_shaders :: "'w test_gl \<Rightarrow> ('w \<Rightarrow> gl_store) \<Rightarrow> bool" where
  "gl_shaders E S \<longleftrightarrow>
     (\<forall>s w. fst (tl_createShader E s w) \<noteq> 0 \<longrightarrow> S (snd (tl_createShader E s w)) =
        (S w)\<lparr>gs_source := (gs_source (S w))(fst (tl_createShader E s w) \<mapsto> s)\<rparr>) \<and>
     (\<forall>s w. fst (tl_createShader E s w) = 0 \<longrightarrow> S (snd (tl_createShader E s w)) = S w) \<and>
     (\<forall>n w. S (snd (tl_compiled E n w)) = S w) \<and>
     (\<forall>n w. S (tl_deleteShader E n w) = (S w)\<lparr>gs_source := (gs_source (S w))(n := None)\<rparr>) \<and>
     (\<forall>w. gs_program (S w) (fst (tl_createProgram E w)) = None \<and> S (snd (tl_createProgram E w)) = S w) \<and>
     (\<forall>p v f w. S (tl_link E p v f w) = (S w)\<lparr>gs_program := (gs_program (S w))(p := gs_source (S w) f)\<rparr>) \<and>
     (\<forall>p w. S (snd (tl_linked E p w)) = S w) \<and>
     (\<forall>p w. S (tl_deleteProgram E p w) = (S w)\<lparr>gs_program := (gs_program (S w))(p := None)\<rparr>)"

definition gl_targets :: "'w test_gl \<Rightarrow> ('w \<Rightarrow> gl_store) \<Rightarrow> bool" where
  "gl_targets E S \<longleftrightarrow>
     (\<forall>w. gs_texture (S w) (fst (tl_genTexture E w)) = None \<and> S (snd (tl_genTexture E w)) = S w) \<and>
     (\<forall>t f x y w. S (tl_texImage E t f x y w) = (S w)\<lparr>gs_texture := (gs_texture (S w))(t \<mapsto> (f, x, y))\<rparr>) \<and>
     (\<forall>w. gs_target (S w) (fst (tl_genFramebuffer E w)) = None \<and> S (snd (tl_genFramebuffer E w)) = S w) \<and>
     (\<forall>b t w. S (tl_attach E b t w) = (S w)\<lparr>gs_target := (gs_target (S w))(b := gs_texture (S w) t)\<rparr>) \<and>
     (\<forall>w. gs_array (S w) (fst (tl_genVertexArray E w)) = None \<and> S (snd (tl_genVertexArray E w)) = S w) \<and>
     (\<forall>w. S (snd (tl_genBuffer E w)) = S w) \<and>
     (\<forall>a b q w. S (tl_quad E a b q w) = (S w)\<lparr>gs_array := (gs_array (S w))(a \<mapsto> q), gs_bound := a\<rparr>) \<and>
     (\<forall>b w. S (tl_bindFramebuffer E b w) = S w)"

definition gl_draws :: "libm \<Rightarrow> 'w test_gl \<Rightarrow> ('w \<Rightarrow> gl_store) \<Rightarrow> bool" where
  "gl_draws G E S \<longleftrightarrow>
     (\<forall>d s c w. S (tl_makeCurrent E d s c w) = S w) \<and>
     (\<forall>a w. S (tl_bindVertexArray E a w) = (S w)\<lparr>gs_bound := a\<rparr>) \<and>
     (\<forall>p b x y t W H w. S (tl_pass E p b x y t W H w) = S w) \<and>
     (\<forall>x y f w. S (snd (tl_readPixels E x y f w)) = S w) \<and>
     (\<forall>p b vw vh t W H f s w x y k. gs_program (S w) p = Some s \<and> gs_target (S w) b = Some (f, vw, vh) \<and>
        gs_array (S w) (gs_bound (S w)) = Some kQuad \<and> 0 \<le> x \<and> x < vw \<and> 0 \<le> y \<and> y < vh \<and> 0 \<le> k \<and> k < channels f \<longrightarrow>
        fst (tl_readPixels E vw vh f (tl_pass E p b vw vh t W H w)) x y k =
          store_unorm (frag_color G s t W H (texel_centre x / of_int vw, texel_centre y / of_int vh) ! nat k))"

text \<open>What the renderer has set up and nobody may take away.\<close>

definition extends :: "gl_store \<Rightarrow> gl_store \<Rightarrow> bool" where
  "extends s s' \<longleftrightarrow> gs_program s \<subseteq>\<^sub>m gs_program s' \<and> gs_target s \<subseteq>\<^sub>m gs_target s' \<and> gs_array s \<subseteq>\<^sub>m gs_array s'"

lemma extends_refl [simp]: "extends s s"
  by (simp add: extends_def)

lemma extends_trans: "extends a b \<Longrightarrow> extends b c \<Longrightarrow> extends a c"
  unfolding extends_def by (meson map_le_trans)

definition grows :: "('w \<Rightarrow> gl_store) \<Rightarrow> ('w, 'a) tm \<Rightarrow> bool" where
  "grows S m \<longleftrightarrow> (\<forall>x. extends (S (snd x)) (S (snd (snd (run_state m x)))))"

lemma growsD: "grows S m \<Longrightarrow> run_state m x = (a, x') \<Longrightarrow> extends (S (snd x)) (S (snd x'))"
  unfolding grows_def by (metis snd_conv)

lemma grows_return: "grows S (State_Monad.return a)"
  by (simp add: grows_def)

lemma grows_bind: "grows S m \<Longrightarrow> (\<And>a. grows S (f a)) \<Longrightarrow> grows S (State_Monad.bind m f)"
proof -
  assume m: "grows S m" and f: "\<And>a. grows S (f a)"
  show ?thesis
    unfolding grows_def
  proof
    fix x
    obtain a y where r: "run_state m x = (a, y)" by (rule prod.exhaust)
    have "extends (S (snd x)) (S (snd y))" using growsD [OF m r] .
    moreover have "extends (S (snd y)) (S (snd (snd (run_state (f a) y))))" using f unfolding grows_def by blast
    ultimately show "extends (S (snd x)) (S (snd (snd (run_state (State_Monad.bind m f) x))))"
      using r extends_trans by simp
  qed
qed

lemma grows_if: "(b \<Longrightarrow> grows S m) \<Longrightarrow> (\<not> b \<Longrightarrow> grows S n) \<Longrightarrow> grows S (if b then m else n)"
  by simp

lemma grows_state: "grows S this_tg" "grows S (set_tg u)"
  by (simp_all add: grows_def this_tg_def set_tg_def)

lemma grows_ask: "(\<And>w. extends (S w) (S (snd (f w)))) \<Longrightarrow> grows S (tg_ask f)"
  by (simp add: grows_def tg_ask_def split_beta)

lemma grows_act: "(\<And>w. extends (S w) (S (f w))) \<Longrightarrow> grows S (tg_act f)"
  by (simp add: grows_def tg_act_def)

lemma run_ask: "run_state (tg_ask f) (g, w) = (a, x) \<longleftrightarrow> x = (g, snd (f w)) \<and> a = fst (f w)"
  by (auto simp: tg_ask_def split_beta)

lemma run_act: "run_state (tg_act f) (g, w) = (a, x) \<longleftrightarrow> x = (g, f w)"
  by (auto simp: tg_act_def)

section \<open>Set-up\<close>

lemma shader_run:
  assumes laws: "gl_shaders E S" and run: "run_state (createShader E s) (g, w) = (n, (g', w'))"
  shows "g' = g \<and> (\<exists>src. S w' = (S w)\<lparr>gs_source := src\<rparr> \<and> (n \<noteq> 0 \<longrightarrow> src n = Some s))"
proof -
  obtain n1 w1 where c: "tl_createShader E s w = (n1, w1)" by fastforce
  obtain ok w2 where k: "tl_compiled E n1 w1 = (ok, w2)" by fastforce
  have "S w1 = (if n1 = 0 then S w else (S w)\<lparr>gs_source := (gs_source (S w))(n1 \<mapsto> s)\<rparr>)"
    using laws c unfolding gl_shaders_def by (metis fst_conv snd_conv)
  moreover have "S w2 = S w1" using laws k unfolding gl_shaders_def by (metis snd_conv)
  moreover have "S (tl_deleteShader E n1 w2) = (S w2)\<lparr>gs_source := (gs_source (S w2))(n1 := None)\<rparr>"
    using laws unfolding gl_shaders_def by blast
  moreover have "g' = g" "w' = (if ok then w2 else tl_deleteShader E n1 w2)" "n = (if ok then n1 else 0)"
    using run c k by (auto simp: createShader_def tg_ask_def tg_act_def split: if_splits)
  ultimately show ?thesis
    by (cases ok; cases "n1 = 0") (auto intro: exI [of _ "gs_source (S w)"])
qed

lemma program_run:
  assumes laws: "gl_shaders E S" and run: "run_state (createProgram E vert frag) (g, w) = (p, (g', w'))"
  shows "g' = g \<and> extends (S w) (S w') \<and> (p \<noteq> 0 \<longrightarrow> gs_program (S w') p = Some frag)"
proof -
  obtain v g1 w1 where v: "run_state (createShader E vert) (g, w) = (v, (g1, w1))" by (metis surj_pair)
  obtain f g2 w2 where f: "run_state (createShader E frag) (g1, w1) = (f, (g2, w2))" by (metis surj_pair)
  obtain src where a: "g1 = g" "S w1 = (S w)\<lparr>gs_source := src\<rparr>" using shader_run [OF laws v] by blast
  obtain src' where b: "g2 = g1" "S w2 = (S w1)\<lparr>gs_source := src'\<rparr>" "f \<noteq> 0 \<longrightarrow> src' f = Some frag"
    using shader_run [OF laws f] by blast
  have same: "S w2 = (S w)\<lparr>gs_source := src'\<rparr>" using a b by simp
  show ?thesis
  proof (cases "v = 0 \<or> f = 0")
    case True
    then show ?thesis using run v f a b same by (auto simp: createProgram_def extends_def)
  next
    case False
    obtain q w3 where q: "tl_createProgram E w2 = (q, w3)" by fastforce
    let ?w5 = "tl_deleteShader E f (tl_deleteShader E v (tl_link E q v f w3))"
    obtain ok w6 where k: "tl_linked E q ?w5 = (ok, w6)" by fastforce
    have fresh: "gs_program (S w2) q = None" "S w3 = S w2" using laws q unfolding gl_shaders_def by (metis fst_conv snd_conv)+
    have "S w6 = S ?w5" using laws k unfolding gl_shaders_def by (metis snd_conv)
    moreover have "\<exists>s2. S ?w5 = (S w3)\<lparr>gs_program := (gs_program (S w3))(q := gs_source (S w3) f), gs_source := s2\<rparr>"
      using laws unfolding gl_shaders_def by auto
    ultimately obtain s2 where w6: "S w6 = (S w)\<lparr>gs_program := (gs_program (S w))(q \<mapsto> frag), gs_source := s2\<rparr>"
      using fresh(2) same b(3) False by auto
    have none: "gs_program (S w) q = None" using fresh(1) same by simp
    have del: "S (tl_deleteProgram E q w6) = (S w6)\<lparr>gs_program := (gs_program (S w6))(q := None)\<rparr>"
      using laws unfolding gl_shaders_def by blast
    have fin: "g' = g" "w' = (if ok then w6 else tl_deleteProgram E q w6)" "p = (if ok then q else 0)"
      using run v f a b q k False by (auto simp: createProgram_def tg_ask_def tg_act_def split: if_splits)
    have "gs_program (S w) \<subseteq>\<^sub>m (gs_program (S w))(q := x)" for x using none by (auto simp: map_le_def)
    then show ?thesis using fin del w6 by (auto simp: extends_def)
  qed
qed

lemma fbo_run:
  assumes laws: "gl_targets E S" and run: "run_state (makeFbo E fmt x y) (g, w) = ((t, b), (g', w'))"
  shows "g' = g \<and> extends (S w) (S w') \<and> gs_target (S w') b = Some (fmt, x, y)"
proof -
  obtain t1 w1 where t: "tl_genTexture E w = (t1, w1)" by fastforce
  obtain b1 w2 where b: "tl_genFramebuffer E (tl_texImage E t1 fmt x y w1) = (b1, w2)" by fastforce
  have res: "g' = g" "t = t1" "b = b1" "w' = tl_attach E b1 t1 w2"
    using run t b by (auto simp: makeFbo_def tg_ask_def tg_act_def)
  have "S w1 = S w" using laws t unfolding gl_targets_def by (metis snd_conv)
  moreover have "S (tl_texImage E t1 fmt x y w1) = (S w1)\<lparr>gs_texture := (gs_texture (S w1))(t1 \<mapsto> (fmt, x, y))\<rparr>"
    using laws unfolding gl_targets_def by blast
  moreover have "gs_target (S (tl_texImage E t1 fmt x y w1)) b1 = None" "S w2 = S (tl_texImage E t1 fmt x y w1)"
    using laws b unfolding gl_targets_def by (metis fst_conv snd_conv)+
  moreover have "S w' = (S w2)\<lparr>gs_target := (gs_target (S w2))(b1 := gs_texture (S w2) t1)\<rparr>"
    using laws res(4) unfolding gl_targets_def by blast
  ultimately show ?thesis using res by (auto simp: extends_def map_le_def)
qed

text \<open>Three programs, three targets of the right formats and sizes, and the quad.\<close>

definition gl_ready :: "('w \<Rightarrow> gl_store) \<Rightarrow> int \<Rightarrow> int \<Rightarrow> test_gpu \<Rightarrow> 'w \<Rightarrow> bool" where
  "gl_ready S W H g w \<longleftrightarrow> tg_initialized g \<and> tg_width g = W \<and> tg_height g = H \<and>
     gs_program (S w) (tg_yProgram g) = Some KYFrag \<and> gs_program (S w) (tg_uvProgram g) = Some KUvFrag \<and>
     gs_program (S w) (tg_rgbaProgram g) = Some KRgbaFrag \<and>
     gs_target (S w) (tg_yFbo g) = Some (FmtR8, W, H) \<and>
     gs_target (S w) (tg_uvFbo g) = Some (FmtRg8, W div 2, H div 2) \<and>
     gs_target (S w) (tg_rgbaFbo g) = Some (FmtRgba8, W, H) \<and> gs_array (S w) (tg_quadVao g) = Some kQuad"

lemma extendsD: "extends s s' \<Longrightarrow> gs_program s p = Some x \<Longrightarrow> gs_program s' p = Some x"
  "extends s s' \<Longrightarrow> gs_target s b = Some t \<Longrightarrow> gs_target s' b = Some t"
  "extends s s' \<Longrightarrow> gs_array s a = Some q \<Longrightarrow> gs_array s' a = Some q"
  by (auto simp: extends_def map_le_def) (metis domI)+

lemma targets_run:
  assumes laws: "gl_targets E S" and run: "run_state (gr_targets E W H) (g, w) = (True, (g', w'))"
    and programs: "gs_program (S w) (tg_yProgram g) = Some KYFrag" "gs_program (S w) (tg_uvProgram g) = Some KUvFrag"
      "gs_program (S w) (tg_rgbaProgram g) = Some KRgbaFrag"
    and size: "tg_width g = W" "tg_height g = H"
  shows "gl_ready S W H g' w'"
proof -
  obtain t1 b1 g1 w1 where y: "run_state (makeFbo E FmtR8 W H) (g, w) = ((t1, b1), (g1, w1))" by (metis surj_pair)
  let ?g1 = "g1\<lparr>tg_yTex := t1, tg_yFbo := b1\<rparr>"
  obtain t2 b2 g2 w2 where uv: "run_state (makeFbo E FmtRg8 (W div 2) (H div 2)) (?g1, w1) = ((t2, b2), (g2, w2))"
    by (metis surj_pair)
  let ?g2 = "g2\<lparr>tg_uvTex := t2, tg_uvFbo := b2\<rparr>"
  obtain t3 b3 g3 w3 where rgba: "run_state (makeFbo E FmtRgba8 W H) (?g2, w2) = ((t3, b3), (g3, w3))" by (metis surj_pair)
  obtain vao w4 where vao: "tl_genVertexArray E w3 = (vao, w4)" by fastforce
  obtain vbo w5 where vbo: "tl_genBuffer E w4 = (vbo, w5)" by fastforce
  note r = fbo_run [OF laws y] fbo_run [OF laws uv] fbo_run [OF laws rgba]
  have fin: "w' = tl_bindFramebuffer E 0 (tl_quad E vao vbo kQuad w5)"
    "g' = g3\<lparr>tg_rgbaTex := t3, tg_rgbaFbo := b3, tg_quadVao := vao, tg_quadVbo := vbo, tg_initialized := True\<rparr>"
    using run y uv rgba vao vbo by (auto simp: gr_targets_def tg_ask_def tg_act_def set_tg_def)
  have "gs_array (S w3) vao = None" "S w4 = S w3" "S w5 = S w4"
    using laws vao vbo unfolding gl_targets_def by (metis fst_conv snd_conv)+
  moreover have "S w' = (S w5)\<lparr>gs_array := (gs_array (S w5))(vao \<mapsto> kQuad), gs_bound := vao\<rparr>"
    using laws fin(1) unfolding gl_targets_def by simp
  ultimately have w': "S w' = (S w3)\<lparr>gs_array := (gs_array (S w3))(vao \<mapsto> kQuad), gs_bound := vao\<rparr>" by simp
  have "extends (S w1) (S w3)" "extends (S w) (S w3)" using r extends_trans by blast+
  then show ?thesis using r programs size fin(2) by (auto simp: gl_ready_def w' dest: extendsD)
qed

lemma initialize_ready:
  assumes laws: "gl_shaders E S" "gl_targets E S" and run: "run_state (gr_initialize E W H) (g, w) = (True, (g', w'))"
  shows "gl_ready S W H g' w'"
proof -
  obtain g0 w0 where start: "run_state (gr_programs E W H) (g0, w0) = (True, (g', w'))" "tg_width g0 = W" "tg_height g0 = H"
    using run by (auto simp: gr_initialize_def tg_ask_def tg_act_def set_tg_def split: prod.splits if_splits)
  obtain p1 g1 w1 where y: "run_state (createProgram E KVertQuad KYFrag) (g0, w0) = (p1, (g1, w1))" by (metis surj_pair)
  let ?g1 = "g1\<lparr>tg_yProgram := p1\<rparr>"
  obtain p2 g2 w2 where uv: "run_state (createProgram E KVertQuad KUvFrag) (?g1, w1) = (p2, (g2, w2))" by (metis surj_pair)
  let ?g2 = "g2\<lparr>tg_uvProgram := p2\<rparr>"
  obtain p3 g3 w3 where rgba: "run_state (createProgram E KVertQuad KRgbaFrag) (?g2, w2) = (p3, (g3, w3))" by (metis surj_pair)
  let ?g3 = "g3\<lparr>tg_rgbaProgram := p3\<rparr>"
  note r = program_run [OF laws(1) y] program_run [OF laws(1) uv] program_run [OF laws(1) rgba]
  have ok: "p1 \<noteq> 0" "p2 \<noteq> 0" "p3 \<noteq> 0" "run_state (gr_targets E W H) (?g3, w3) = (True, (g', w'))"
    using start(1) y uv rgba by (auto simp: gr_programs_def set_tg_def split: if_splits prod.splits)
  have "extends (S w1) (S w3)" using r extends_trans by blast
  then show ?thesis using r ok start(2,3) by (intro targets_run [OF laws(2) ok(4)]) (auto dest: extendsD)
qed

section \<open>The grid\<close>

definition on_grid :: "int \<Rightarrow> int \<Rightarrow> bool" where
  "on_grid x y \<longleftrightarrow> x mod 64 < 2 \<or> y mod 64 < 2"

definition centre_uv :: "int \<Rightarrow> int \<Rightarrow> int \<Rightarrow> int \<Rightarrow> rat \<times> rat" where
  "centre_uv w h x y = (texel_centre x / of_int w, texel_centre y / of_int h)"

lemma mod_half: "glsl_mod (of_int n + 1 / 2) 64 < 2 \<longleftrightarrow> n mod 64 < 2"
proof -
  have "floor ((of_int n + 1 / 2) / 64 :: rat) = n div 64"
  proof (rule floor_unique)
    have n: "n = 64 * (n div 64) + n mod 64" "0 \<le> n mod 64" "n mod 64 \<le> 63" by presburger+
    then have q: "(of_int n :: rat) = 64 * of_int (n div 64) + of_int (n mod 64)" "(0 :: rat) \<le> of_int (n mod 64)"
      "(of_int (n mod 64) :: rat) \<le> 63" by (metis of_int_add of_int_mult of_int_numeral) (use n in simp_all)
    show "of_int (n div 64) \<le> (of_int n + 1 / 2) / (64 :: rat)" "(of_int n + 1 / 2) / (64 :: rat) < of_int (n div 64) + 1"
      unfolding q(1) using q(2,3) by (simp_all add: field_simps)
  qed
  then have "glsl_mod (of_int n + 1 / 2) 64 = of_int (n mod 64) + 1 / 2"
    by (simp add: glsl_mod_def minus_div_mult_eq_mod [symmetric] mult.commute)
  moreover have "of_int (n mod 64) + 1 / 2 < (2 :: rat) \<longleftrightarrow> n mod 64 < 2"
  proof -
    have "of_int (n mod 64) + 1 / 2 < (2 :: rat) \<longleftrightarrow> (of_int (2 * (n mod 64)) :: rat) < of_int 3"
      unfolding of_int_mult of_int_numeral by (rule iffI; linarith)
    then show ?thesis by (simp only: of_int_less_iff) presburger
  qed
  ultimately show ?thesis by simp
qed

lemma mod_odd: "glsl_mod (of_int (2 * n + 1)) 64 < 2 \<longleftrightarrow> (2 * n) mod 64 < 2"
proof -
  have "floor (of_int (2 * n + 1) / of_int 64 :: rat) = (2 * n + 1) div 64" by (rule floor_divide_of_int_eq)
  then have "glsl_mod (of_int (2 * n + 1)) 64 = of_int ((2 * n + 1) mod 64)"
    by (simp add: glsl_mod_def minus_div_mult_eq_mod [symmetric] mult.commute)
  moreover have "(of_int ((2 * n + 1) mod 64) :: rat) < 2 \<longleftrightarrow> (2 * n + 1) mod 64 < 2"
    by (metis of_int_less_iff of_int_numeral)
  moreover have "(2 * n + 1) mod 64 < 2 \<longleftrightarrow> (2 * n) mod 64 < 2"
  proof -
    have r: "(2 * n) mod 64 = 2 * (n mod 32)" using mult_mod_right [of 2 n 32] by simp
    have "0 \<le> n mod 32" "n mod 32 < 32" by simp_all
    then have "(2 * (n mod 32) + 1) mod 64 = 2 * (n mod 32) + 1" by (intro mod_pos_pos_trivial) linarith+
    then have "(2 * n + 1) mod 64 = 2 * (n mod 32) + 1" using mod_add_left_eq [of "2 * n" 64 1] r by simp
    moreover have "2 * k + 1 < 2 \<longleftrightarrow> 2 * k < 2" for k :: int by presburger
    ultimately show ?thesis unfolding r by (simp only:)
  qed
  ultimately show ?thesis by simp
qed

lemma white_pixel:
  assumes "0 < w" "0 < h" "on_grid x y"
  shows "pattern_glsl G (of_int w) (of_int h) (centre_uv w h x y) t = (1, 1, 1)"
proof -
  have "fst (centre_uv w h x y) * of_int w = of_int x + 1 / 2" "snd (centre_uv w h x y) * of_int h = of_int y + 1 / 2"
    using assms by (simp_all add: centre_uv_def texel_centre_def)
  then show ?thesis using assms(3) by (simp add: pattern_glsl_def mod_half on_grid_def Let_def)
qed

lemma white_pair:
  assumes "0 < w" "0 < h" "even w" "even h" "on_grid (2 * x) (2 * y)"
  shows "pattern_glsl G (of_int w) (of_int h) (centre_uv (w div 2) (h div 2) x y) t = (1, 1, 1)"
proof -
  have two: "texel_centre n / of_int (d div 2) * of_int d = of_int (2 * n + 1)" if "0 < d" "even d" for n d
  proof -
    have d: "(of_int d :: rat) = 2 * of_int (d div 2)" "(of_int (d div 2) :: rat) \<noteq> 0" using that
      by (metis dvd_mult_div_cancel of_int_mult of_int_numeral, auto elim: evenE)
    show ?thesis unfolding d(1) using d(2) by (simp add: texel_centre_def field_simps)
  qed
  have "fst (centre_uv (w div 2) (h div 2) x y) * of_int w = of_int (2 * x + 1)"
    "snd (centre_uv (w div 2) (h div 2) x y) * of_int h = of_int (2 * y + 1)"
    unfolding centre_uv_def fst_conv snd_conv using assms by (intro two; simp)+
  then show ?thesis using assms(5) mod_odd by (simp only: pattern_glsl_def on_grid_def Let_def if_True)
qed

lemma white_bytes: "store_unorm 1 = 255" "rgbaToYuv 255 255 255 = (235, 128, 128)"
  "store_unorm (257 / 1000 * 1 + 504 / 1000 * 1 + 98 / 1000 * 1 + 625 / 10000) = 235"
  "store_unorm (- 148 / 1000 * 1 - 291 / 1000 * 1 + 439 / 1000 * 1 + 1 / 2) = 128"
  "store_unorm (439 / 1000 * 1 - 368 / 1000 * 1 - 71 / 1000 * 1 + 1 / 2) = 128"
proof -
  have "floor (511 / 2 :: rat) = 255" "floor (94193 / 400 :: rat) = 235" by (rule floor_unique; simp)+
  then show "store_unorm 1 = 255" "rgbaToYuv 255 255 255 = (235, 128, 128)"
    "store_unorm (257 / 1000 * 1 + 504 / 1000 * 1 + 98 / 1000 * 1 + 625 / 10000) = 235"
    "store_unorm (- 148 / 1000 * 1 - 291 / 1000 * 1 + 439 / 1000 * 1 + 1 / 2) = 128"
    "store_unorm (439 / 1000 * 1 - 368 / 1000 * 1 - 71 / 1000 * 1 + 1 / 2) = 128"
    by (simp_all add: store_unorm_def rgbaToYuv_def luma_def chroma_blue_def chroma_red_def clamp8_def)
qed

lemma white_colors:
  assumes "pattern_glsl G WD HT uv t = (1, 1, 1)"
  shows "store_unorm (frag_color G KYFrag t WD HT uv ! 0) = 235" "store_unorm (frag_color G KUvFrag t WD HT uv ! 0) = 128"
    "store_unorm (frag_color G KUvFrag t WD HT uv ! 1) = 128"
    "0 \<le> k \<Longrightarrow> k < 3 \<Longrightarrow> store_unorm (frag_color G KRgbaFrag t WD HT uv ! nat k) = 255"
proof -
  show "store_unorm (frag_color G KYFrag t WD HT uv ! 0) = 235" "store_unorm (frag_color G KUvFrag t WD HT uv ! 0) = 128"
    "store_unorm (frag_color G KUvFrag t WD HT uv ! 1) = 128"
    using white_bytes(3-5) by (simp_all only: frag_color.simps assms prod.case nth_Cons_0 One_nat_def nth_Cons_Suc)
  assume "0 \<le> k" "k < 3"
  then have "k = 0 \<or> k = 1 \<or> k = 2" by presburger
  then show "store_unorm (frag_color G KRgbaFrag t WD HT uv ! nat k) = 255"
    using white_bytes(1) by (auto simp: assms numeral_2_eq_2)
qed

section \<open>A frame\<close>

lemma pass_reads:
  assumes laws: "gl_draws G E S" and ready: "gs_program (S w) p = Some s" "gs_target (S w) b = Some (f, vw, vh)"
      "gs_array (S w) (gs_bound (S w)) = Some kQuad"
    and run: "run_state (renderPass E p b vw vh i) (g, w) = (u, (g1, w1))"
      "run_state (read_into E vw vh f dst m) (g1, w1) = (m', (g2, w2))"
  shows "g2 = g \<and> S w2 = S w \<and> (\<exists>px. m' = store_pixels dst f vw vh px m \<and>
    (\<forall>x y k. 0 \<le> x \<and> x < vw \<and> 0 \<le> y \<and> y < vh \<and> 0 \<le> k \<and> k < channels f \<longrightarrow>
      px x y k = store_unorm (frag_color G s (frame_time i) (of_int (tg_width g)) (of_int (tg_height g)) (centre_uv vw vh x y) ! nat k)))"
proof -
  let ?w1 = "tl_pass E p b vw vh (frame_time i) (of_int (tg_width g)) (of_int (tg_height g)) w"
  have one: "g1 = g" "w1 = ?w1" using run(1) by (auto simp: renderPass_def this_tg_def tg_act_def)
  obtain px w3 where r: "tl_readPixels E vw vh f ?w1 = (px, w3)" by (rule prod.exhaust)
  have two: "m' = store_pixels dst f vw vh px m" "g2 = g" "w2 = w3"
    using run(2) one r by (auto simp: read_into_def tg_ask_def)
  have "S ?w1 = S w" "S w3 = S ?w1" using laws r unfolding gl_draws_def by (metis snd_conv)+
  moreover have "px x y k = store_unorm (frag_color G s (frame_time i) (of_int (tg_width g)) (of_int (tg_height g))
      (texel_centre x / of_int vw, texel_centre y / of_int vh) ! nat k)"
    if "0 \<le> x \<and> x < vw \<and> 0 \<le> y \<and> y < vh \<and> 0 \<le> k \<and> k < channels f" for x y k
  proof -
    have "fst (tl_readPixels E vw vh f ?w1) x y k = store_unorm (frag_color G s (frame_time i) (of_int (tg_width g))
        (of_int (tg_height g)) (texel_centre x / of_int vw, texel_centre y / of_int vh) ! nat k)"
      using laws ready that unfolding gl_draws_def by blast
    then show ?thesis using r by simp
  qed
  ultimately show ?thesis using two unfolding centre_uv_def by (intro conjI exI [of _ px]) auto
qed

lemma gpu_frame_run:
  assumes laws: "gl_draws G E S" "gl_targets E S" and ready: "gl_ready S W H g w"
    and run: "run_state (gr_renderFrame E i rgba nv12) (g, w) = ((m, n), (g', w'))"
  shows "gl_ready S W H g' w' \<and> g' = g \<and> (\<exists>py puv prgba. n = store_pixels (W * H) FmtRg8 (W div 2) (H div 2) puv
      (store_pixels 0 FmtR8 W H py nv12) \<and> m = store_pixels 0 FmtRgba8 W H prgba rgba \<and>
    (\<forall>x y. 0 \<le> x \<and> x < W \<and> 0 \<le> y \<and> y < H \<longrightarrow>
       py x y 0 = store_unorm (frag_color G KYFrag (frame_time i) (of_int W) (of_int H) (centre_uv W H x y) ! 0) \<and>
       (\<forall>k. 0 \<le> k \<and> k < 4 \<longrightarrow>
          prgba x y k = store_unorm (frag_color G KRgbaFrag (frame_time i) (of_int W) (of_int H) (centre_uv W H x y) ! nat k))) \<and>
    (\<forall>x y k. 0 \<le> x \<and> x < W div 2 \<and> 0 \<le> y \<and> y < H div 2 \<and> 0 \<le> k \<and> k < 2 \<longrightarrow>
       puv x y k = store_unorm (frag_color G KUvFrag (frame_time i) (of_int W) (of_int H) (centre_uv (W div 2) (H div 2) x y) ! nat k)))"
proof -
  have g: "tg_initialized g" "tg_width g = W" "tg_height g = H" using ready by (simp_all add: gl_ready_def)
  let ?w0 = "tl_bindVertexArray E (tg_quadVao g) (tl_makeCurrent E (tg_display g) (tg_surface g) (tg_context g) w)"
  have s0: "S ?w0 = (S w)\<lparr>gs_bound := tg_quadVao g\<rparr>" using laws(1) unfolding gl_draws_def by auto
  obtain g1 w1 where p1: "run_state (renderPass E (tg_yProgram g) (tg_yFbo g) W H i) (g, ?w0) = ((), (g1, w1))"
    by (metis surj_pair old.unit.exhaust)
  obtain n1 g2 w2 where r1: "run_state (read_into E W H FmtR8 0 nv12) (g1, w1) = (n1, (g2, w2))" by (metis surj_pair)
  obtain g3 w3 where p2: "run_state (renderPass E (tg_uvProgram g) (tg_uvFbo g) (W div 2) (H div 2) i) (g2, w2) = ((), (g3, w3))"
    by (metis surj_pair old.unit.exhaust)
  obtain n2 g4 w4 where r2: "run_state (read_into E (W div 2) (H div 2) FmtRg8 (W * H) n1) (g3, w3) = (n2, (g4, w4))"
    by (metis surj_pair)
  obtain g5 w5 where p3: "run_state (renderPass E (tg_rgbaProgram g) (tg_rgbaFbo g) W H i) (g4, w4) = ((), (g5, w5))"
    by (metis surj_pair old.unit.exhaust)
  obtain m1 g6 w6 where r3: "run_state (read_into E W H FmtRgba8 0 rgba) (g5, w5) = (m1, (g6, w6))" by (metis surj_pair)
  have fin: "m = m1" "n = n2" "g' = g6" "w' = tl_bindFramebuffer E 0 w6"
    using run g p1 r1 p2 r2 p3 r3 by (auto simp: gr_renderFrame_def this_tg_def tg_act_def)
  have st: "gs_program (S ?w0) (tg_yProgram g) = Some KYFrag" "gs_program (S ?w0) (tg_uvProgram g) = Some KUvFrag"
    "gs_program (S ?w0) (tg_rgbaProgram g) = Some KRgbaFrag" "gs_target (S ?w0) (tg_yFbo g) = Some (FmtR8, W, H)"
    "gs_target (S ?w0) (tg_uvFbo g) = Some (FmtRg8, W div 2, H div 2)" "gs_target (S ?w0) (tg_rgbaFbo g) = Some (FmtRgba8, W, H)"
    "gs_array (S ?w0) (gs_bound (S ?w0)) = Some kQuad"
    using ready s0 by (simp_all add: gl_ready_def)
  note a = pass_reads [OF laws(1) st(1) st(4) st(7) p1 r1]
  then have a': "g2 = g" "S w2 = S ?w0" by auto
  note b = pass_reads [OF laws(1) _ _ _ p2 r2, unfolded a', OF st(2) st(5) st(7)]
  then have b': "g4 = g" "S w4 = S ?w0" by auto
  note c = pass_reads [OF laws(1) _ _ _ p3 r3, unfolded b', OF st(3) st(6) st(7)]
  have "S (tl_bindFramebuffer E 0 w6) = S w6" using laws(2) unfolding gl_targets_def by blast
  then have "S w' = S ?w0" "g' = g" using c fin by simp_all
  moreover from this have "gl_ready S W H g' w'" using ready s0 by (simp add: gl_ready_def)
  moreover obtain py where py: "n1 = store_pixels 0 FmtR8 W H py nv12" "\<forall>x y k. 0 \<le> x \<and> x < W \<and> 0 \<le> y \<and> y < H \<and> 0 \<le> k \<and>
      k < channels FmtR8 \<longrightarrow> py x y k = store_unorm (frag_color G KYFrag (frame_time i) (of_int W) (of_int H) (centre_uv W H x y) ! nat k)"
    using a g by auto
  moreover obtain puv where puv: "n2 = store_pixels (W * H) FmtRg8 (W div 2) (H div 2) puv n1"
      "\<forall>x y k. 0 \<le> x \<and> x < W div 2 \<and> 0 \<le> y \<and> y < H div 2 \<and> 0 \<le> k \<and> k < channels FmtRg8 \<longrightarrow>
        puv x y k = store_unorm (frag_color G KUvFrag (frame_time i) (of_int W) (of_int H) (centre_uv (W div 2) (H div 2) x y) ! nat k)"
    using b g by auto
  moreover obtain prgba where prgba: "m1 = store_pixels 0 FmtRgba8 W H prgba rgba"
      "\<forall>x y k. 0 \<le> x \<and> x < W \<and> 0 \<le> y \<and> y < H \<and> 0 \<le> k \<and> k < channels FmtRgba8 \<longrightarrow>
        prgba x y k = store_unorm (frag_color G KRgbaFrag (frame_time i) (of_int W) (of_int H) (centre_uv W H x y) ! nat k)"
    using c g by auto
  ultimately show ?thesis using fin(1,2) by (intro conjI exI [of _ py] exI [of _ puv] exI [of _ prgba]) auto
qed

text \<open>Rows of a multiple of four bytes follow each other without a gap.\<close>

lemma packed_rows:
  "W mod 4 = 0 \<Longrightarrow> packed_row FmtR8 W = W" "W mod 4 = 0 \<Longrightarrow> packed_row FmtRg8 (W div 2) = W" "packed_row FmtRgba8 W = W * 4"
proof -
  have "(W + 3) div 4 * 4 = W" "(W div 2 * 2 + 3) div 4 * 4 = W" if "W mod 4 = 0" using that by presburger+
  then show "W mod 4 = 0 \<Longrightarrow> packed_row FmtR8 W = W" "W mod 4 = 0 \<Longrightarrow> packed_row FmtRg8 (W div 2) = W"
    by (simp_all add: packed_row_def)
  have "(W * 4 + 3) div 4 * 4 = W * 4" by presburger
  then show "packed_row FmtRgba8 W = W * 4" by (simp add: packed_row_def)
qed

lemma nv12_bytes:
  assumes "W mod 4 = 0" "even H" "0 \<le> W" "0 \<le> H"
    and n: "n = store_pixels (W * H) FmtRg8 (W div 2) (H div 2) puv (store_pixels 0 FmtR8 W H py nv12)"
  shows "0 \<le> x \<Longrightarrow> x < W \<Longrightarrow> 0 \<le> y \<Longrightarrow> y < H \<Longrightarrow> n (y * W + x) = py x y 0"
    and "0 \<le> x \<Longrightarrow> x < W div 2 \<Longrightarrow> 0 \<le> y \<Longrightarrow> y < H div 2 \<Longrightarrow> 0 \<le> k \<Longrightarrow> k < 2 \<Longrightarrow> n (W * H + (y * W + 2 * x) + k) = puv x y k"
    and "a < 0 \<or> W * H * 3 div 2 \<le> a \<Longrightarrow> n a = nv12 a"
proof -
  note rows = packed_rows(1,2) [OF assms(1)]
  show "n (W * H + (y * W + 2 * x) + k) = puv x y k"
    if "0 \<le> x" "x < W div 2" "0 \<le> y" "y < H div 2" "0 \<le> k" "k < 2"
    using store_pixels_byte [of x "W div 2" y "H div 2" k FmtRg8 "W * H" puv "store_pixels 0 FmtR8 W H py nv12"] that
    by (simp add: n rows mult.commute)
  have uv: "n a = store_pixels 0 FmtR8 W H py nv12 a" if "a < W * H \<or> W * H + H div 2 * W \<le> a" for a
    unfolding n by (rule touchesD [OF store_pixels_touches]) (use that in \<open>auto simp: rows\<close>)
  show "n (y * W + x) = py x y 0" if "0 \<le> x" "x < W" "0 \<le> y" "y < H"
  proof -
    have "(y + 1) * W \<le> H * W" using that by (intro mult_right_mono) auto
    then have "y * W + x < W * H" using that by (simp add: algebra_simps)
    then show ?thesis using uv [of "y * W + x"] store_pixels_byte [of x W y H 0 FmtR8 0 py nv12] that by (simp add: rows)
  qed
  show "n a = nv12 a" if a: "a < 0 \<or> W * H * 3 div 2 \<le> a"
  proof -
    obtain k where k: "H = 2 * k" using assms(2) by (elim evenE)
    have "W * H * 3 div 2 = W * H + H div 2 * W" unfolding k by simp
    moreover have "0 \<le> W * H" "0 \<le> H div 2 * W" using assms by simp_all
    ultimately have "a < W * H \<or> W * H + H div 2 * W \<le> a" "a \<notin> {0..<0 + H * packed_row FmtR8 W}"
      using a by (auto simp: rows mult.commute)
    then show ?thesis using uv touchesD [OF store_pixels_touches] by simp
  qed
qed

lemma rgba_bytes:
  assumes m: "m = store_pixels 0 FmtRgba8 W H px rgba"
  shows "0 \<le> x \<Longrightarrow> x < W \<Longrightarrow> 0 \<le> y \<Longrightarrow> y < H \<Longrightarrow> 0 \<le> k \<Longrightarrow> k < 4 \<Longrightarrow> m (pixel_addr 0 W x y + k) = px x y k"
    and "a < 0 \<or> W * H * 4 \<le> a \<Longrightarrow> m a = rgba a"
proof -
  show "m (pixel_addr 0 W x y + k) = px x y k" if "0 \<le> x" "x < W" "0 \<le> y" "y < H" "0 \<le> k" "k < 4"
    using store_pixels_byte [of x W y H k FmtRgba8 0 px rgba] that
    by (simp add: m packed_rows(3) pixel_addr_def algebra_simps)
  show "m a = rgba a" if a: "a < 0 \<or> W * H * 4 \<le> a"
    unfolding m by (rule touchesD [OF store_pixels_touches]) (use a in \<open>auto simp: packed_rows(3) algebra_simps\<close>)
qed


section \<open>Witness\<close>

text \<open>A graphics stack that keeps its names in lists and shades pixels when they are read.\<close>

record demo_gl =
  dg_src :: "(nat \<times> test_shader) list"
  dg_prog :: "(nat \<times> test_shader) list"
  dg_tex :: "(nat \<times> (pixel_format \<times> int \<times> int)) list"
  dg_tgt :: "(nat \<times> (pixel_format \<times> int \<times> int)) list"
  dg_arr :: "(nat \<times> ((rat \<times> rat) \<times> (rat \<times> rat)) list) list"
  dg_bound :: nat
  dg_last :: "nat \<times> rat \<times> rat \<times> rat"

definition unused :: "(nat \<times> 'a) list \<Rightarrow> nat" where
  "unused l = Suc (foldr (\<lambda>p n. max (fst p) n) l 0)"

definition bind_name :: "nat \<Rightarrow> 'a option \<Rightarrow> (nat \<times> 'a) list \<Rightarrow> (nat \<times> 'a) list" where
  "bind_name k v l = (case v of None \<Rightarrow> filter (\<lambda>p. fst p \<noteq> k) l | Some a \<Rightarrow> (k, a) # l)"

lemma unused_none: "map_of l (unused l) = None"
proof -
  have "k \<le> foldr (\<lambda>p n. max (fst p) n) l 0" if "(k, v) \<in> set l" for k v
    using that by (induction l) (auto simp: max.coboundedI2)
  then show ?thesis by (fastforce simp: unused_def map_of_eq_None_iff)
qed

lemma bind_name_map: "map_of (bind_name k v l) = (map_of l)(k := v)"
  by (induction l) (auto simp: bind_name_def fun_eq_iff split: option.splits)

definition demo_store :: "demo_gl \<Rightarrow> gl_store" where
  "demo_store w = \<lparr>gs_source = map_of (dg_src w), gs_program = map_of (dg_prog w), gs_texture = map_of (dg_tex w),
     gs_target = map_of (dg_tgt w), gs_array = map_of (dg_arr w), gs_bound = dg_bound w\<rparr>"

definition demo_stack :: "demo_gl test_gl" where
  "demo_stack = \<lparr>tl_display = (\<lambda>w. (Some 1, w)), tl_initialize = (\<lambda>_ w. w), tl_chooseConfig = (\<lambda>_ w. ((1, 1), w)),
     tl_createContext = (\<lambda>_ _ w. (Some 2, w)), tl_createPbuffer = (\<lambda>_ _ w. (Some 3, w)), tl_makeCurrent = (\<lambda>_ _ _ w. w),
     tl_createShader = (\<lambda>s w. (unused (dg_src w), w\<lparr>dg_src := bind_name (unused (dg_src w)) (Some s) (dg_src w)\<rparr>)),
     tl_compiled = (\<lambda>_ w. (True, w)), tl_deleteShader = (\<lambda>n w. w\<lparr>dg_src := bind_name n None (dg_src w)\<rparr>),
     tl_createProgram = (\<lambda>w. (unused (dg_prog w), w)),
     tl_link = (\<lambda>p v f w. w\<lparr>dg_prog := bind_name p (map_of (dg_src w) f) (dg_prog w)\<rparr>), tl_linked = (\<lambda>_ w. (True, w)),
     tl_deleteProgram = (\<lambda>p w. w\<lparr>dg_prog := bind_name p None (dg_prog w)\<rparr>),
     tl_genTexture = (\<lambda>w. (unused (dg_tex w), w)),
     tl_texImage = (\<lambda>t f x y w. w\<lparr>dg_tex := bind_name t (Some (f, x, y)) (dg_tex w)\<rparr>), tl_deleteTexture = (\<lambda>_ w. w),
     tl_genFramebuffer = (\<lambda>w. (unused (dg_tgt w), w)),
     tl_attach = (\<lambda>b t w. w\<lparr>dg_tgt := bind_name b (map_of (dg_tex w) t) (dg_tgt w)\<rparr>), tl_deleteFramebuffer = (\<lambda>_ w. w),
     tl_genVertexArray = (\<lambda>w. (unused (dg_arr w), w)), tl_genBuffer = (\<lambda>w. (1, w)),
     tl_quad = (\<lambda>a b q w. w\<lparr>dg_arr := bind_name a (Some q) (dg_arr w), dg_bound := a\<rparr>), tl_deleteVertexArray = (\<lambda>_ w. w),
     tl_deleteBuffer = (\<lambda>_ w. w), tl_bindFramebuffer = (\<lambda>_ w. w), tl_bindVertexArray = (\<lambda>a w. w\<lparr>dg_bound := a\<rparr>),
     tl_pass = (\<lambda>p b x y t W H w. w\<lparr>dg_last := (p, t, W, H)\<rparr>),
     tl_readPixels = (\<lambda>vw vh f w. (\<lambda>x y k. case dg_last w of (p, t, W, H) \<Rightarrow> case map_of (dg_prog w) p of None \<Rightarrow> 0
       | Some s \<Rightarrow> store_unorm (frag_color flat_libm s t W H (texel_centre x / of_int vw, texel_centre y / of_int vh) ! nat k), w)),
     tl_destroySurface = (\<lambda>_ _ w. w), tl_destroyContext = (\<lambda>_ _ w. w), tl_terminate = (\<lambda>_ w. w)\<rparr>"

definition demo_start :: demo_gl where
  "demo_start = \<lparr>dg_src = [], dg_prog = [], dg_tex = [], dg_tgt = [], dg_arr = [], dg_bound = 0, dg_last = (0, 0, 0, 0)\<rparr>"

lemma demo_shaders: "gl_shaders demo_stack demo_store"
  by (simp add: gl_shaders_def demo_stack_def demo_store_def bind_name_map unused_none) (simp add: unused_def)

lemma demo_targets: "gl_targets demo_stack demo_store"
  by (simp add: gl_targets_def demo_stack_def demo_store_def bind_name_map unused_none)

lemma demo_draws: "gl_draws flat_libm demo_stack demo_store"
  by (simp add: gl_draws_def demo_stack_def demo_store_def del: frag_color.simps)

lemma demo_set_up: "fst (run_state (gr_initialize demo_stack 4 2) (test_gpu_init, demo_start))"
  by (simp add: gr_initialize_def gr_programs_def gr_targets_def createProgram_def createShader_def makeFbo_def tg_ask_def
      tg_act_def set_tg_def demo_stack_def unused_def Let_def)


end
