(* ===== verification/Unified_Renderer.thy ===== *)
theory Unified_Renderer
  imports Test_Gpu_Objects Test_Gpu_Frames Frame_Writer_V1 Frame_Writer_V2
begin

text \<open>
  The native methods of \<open>unified-test/app/src/main/cpp/unified_renderer.cpp\<close>: a renderer that writes
  its pictures to the camera, over the second transport when the HAL offers it and else over
  the first, and shows them in a window. The window system, the clock, the kernel, the driver
  and the HAL's side of the shared memory are parameters.
\<close>

section \<open>State\<close>

record window_buffer =
  wb_bits :: int
  wb_stride :: int
  wb_height :: int

record 'w unified_env =
  un_app :: "'w app_kernel"
  un_platform :: "'w platform"
  un_writer :: "'w writer_env"
  un_shared :: "'w shared_env"
  un_gl :: "'w test_gl"
  un_libm :: libm
  un_fromSurface :: "'w \<Rightarrow> nat option \<times> 'w"
  un_size :: "nat \<Rightarrow> 'w \<Rightarrow> (int \<times> int) \<times> 'w"
  un_setGeometry :: "nat \<Rightarrow> int \<Rightarrow> int \<Rightarrow> 'w \<Rightarrow> 'w"
  un_lock :: "nat \<Rightarrow> 'w \<Rightarrow> window_buffer option \<times> 'w"
  un_unlockAndPost :: "nat \<Rightarrow> 'w \<Rightarrow> 'w"
  un_release :: "nat \<Rightarrow> 'w \<Rightarrow> 'w"
  un_nowMs :: "'w \<Rightarrow> int \<times> 'w"

text \<open>
  \<open>struct UnifiedRenderer\<close>. A vector is its bytes and its size.
\<close>

record unified =
  ur_window :: "nat option"
  ur_writerV1 :: writer_v1
  ur_writerV2 :: writer_v2
  ur_usingV2 :: bool
  ur_gpu :: test_gpu
  ur_frameBuffer :: mem
  ur_frameSize :: nat
  ur_yuvBuffer :: mem
  ur_yuvSize :: nat
  ur_width :: int
  ur_height :: int
  ur_camWidth :: int
  ur_camHeight :: int
  ur_frameCount :: int
  ur_initialized :: bool
  ur_startTimeMs :: int
  ur_lastFpsTime :: int
  ur_fpsFrameCount :: int
  ur_currentFps :: int

definition unified_init :: unified where
  "unified_init = \<lparr>ur_window = None, ur_writerV1 = writer_v1_init, ur_writerV2 = writer_v2_init, ur_usingV2 = False,
     ur_gpu = test_gpu_init, ur_frameBuffer = (\<lambda>_. 0), ur_frameSize = 0, ur_yuvBuffer = (\<lambda>_. 0), ur_yuvSize = 0,
     ur_width = 0, ur_height = 0, ur_camWidth = 0, ur_camHeight = 0, ur_frameCount = 0, ur_initialized = False,
     ur_startTimeMs = 0, ur_lastFpsTime = 0, ur_fpsFrameCount = 0, ur_currentFps = 0\<rparr>"

text \<open>
  What the renderer shares with others: the region of the first transport, the control ring and
  the locked hardware buffers of the second, and the window's memory.
\<close>

record 'w shared_view =
  sv_shm :: shm
  sv_ring :: control_ring
  sv_pixels :: mem
  sv_screen :: mem
  sv_world :: 'w

section \<open>Creating and deleting\<close>

text \<open>\<open>delete renderer\<close>: the destructors of the members, the last declared first.\<close>

definition delete_unified :: "'w unified_env \<Rightarrow> unified \<Rightarrow> 'w shared_view \<Rightarrow> 'w shared_view outcome" where
  "delete_unified U r v =
     (let (_, (_, w1)) = run_state (gr_shutdown (un_gl U)) (ur_gpu r, sv_world v);
          (_, ring, w2) = writer_shutdown (un_shared U) (un_platform U) (un_writer U) (ur_writerV2 r) (sv_ring v) w1 in
      case sw_shutdown (un_app U) (ur_writerV1 r) (sv_shm v) w2 of
        Inl e \<Rightarrow> Inl e
      | Inr (_, m, w3) \<Rightarrow> Inr (v\<lparr>sv_shm := m, sv_ring := ring, sv_world := w3\<rparr>))"

text \<open>A picture is 640 by 480; \<open>R8G8B8A8_UNORM\<close> is 1; the pool has four buffers.\<close>

definition start_writers :: "'w unified_env \<Rightarrow> unified \<Rightarrow> 'w shared_view \<Rightarrow> bool \<times> unified \<times> 'w shared_view" where
  "start_writers U r v =
     (let (ok2, w2r, ring, w1) = writer_initialize (un_platform U) (un_writer U) (of_int (ur_camWidth r))
            (of_int (ur_camHeight r)) 1 4 (ur_writerV2 r) (sv_ring v) (sv_world v);
          r1 = r\<lparr>ur_writerV2 := w2r\<rparr>; v1 = v\<lparr>sv_ring := ring, sv_world := w1\<rparr> in
      if ok2 then (True, r1\<lparr>ur_usingV2 := True\<rparr>, v1)
      else
        let (ok1, w1r, m, w2) = uw_initialize (un_app U) (of_int (ur_camWidth r)) (of_int (ur_camHeight r))
              (ur_writerV1 r1) (sv_shm v1) (sv_world v1) in
        (ok1, r1\<lparr>ur_writerV1 := w1r, ur_usingV2 := False\<rparr>, v1\<lparr>sv_shm := m, sv_world := w2\<rparr>))"

definition nativeCreateRenderer :: "'w unified_env \<Rightarrow> 'w shared_view \<Rightarrow> (unified option \<times> 'w shared_view) outcome" where
  "nativeCreateRenderer U v =
     (let (window, w1) = un_fromSurface U (sv_world v) in
      case window of
        None \<Rightarrow> (case delete_unified U unified_init (v\<lparr>sv_world := w1\<rparr>) of Inl e \<Rightarrow> Inl e | Inr v1 \<Rightarrow> Inr (None, v1))
      | Some win \<Rightarrow>
          let ((width, height), w2) = un_size U win w1;
              r = unified_init\<lparr>ur_window := Some win, ur_width := width, ur_height := height,
                    ur_camWidth := 640, ur_camHeight := 480\<rparr>;
              (ok, r1, v1) = start_writers U r (v\<lparr>sv_world := w2\<rparr>) in
          if \<not> ok then
            (case delete_unified U r1 (v1\<lparr>sv_world := un_release U win (sv_world v1)\<rparr>) of
               Inl e \<Rightarrow> Inl e | Inr v2 \<Rightarrow> Inr (None, v2))
          else
            Inr (Some (r1\<lparr>ur_frameBuffer := (\<lambda>_. 0), ur_frameSize := nat (ur_camWidth r1 * ur_camHeight r1 * 4),
                   ur_initialized := True\<rparr>),
                 v1\<lparr>sv_world := un_setGeometry U win (ur_camWidth r1) (ur_camHeight r1) (sv_world v1)\<rparr>))"

definition nativeDestroyRenderer :: "'w unified_env \<Rightarrow> unified option \<Rightarrow> 'w shared_view \<Rightarrow> 'w shared_view outcome" where
  "nativeDestroyRenderer U ptr v = (case ptr of
       None \<Rightarrow> Inr v
     | Some r \<Rightarrow>
         let (_, (g, w1)) = run_state (gr_shutdown (un_gl U)) (ur_gpu r, sv_world v);
             r1 = r\<lparr>ur_gpu := g\<rparr>; v1 = v\<lparr>sv_world := w1\<rparr> in
         case (if ur_usingV2 r1
               then let (w2r, ring, w2) = writer_shutdown (un_shared U) (un_platform U) (un_writer U) (ur_writerV2 r1)
                      (sv_ring v1) w1 in Inr (r1\<lparr>ur_writerV2 := w2r\<rparr>, v1\<lparr>sv_ring := ring, sv_world := w2\<rparr>)
               else case sw_shutdown (un_app U) (ur_writerV1 r1) (sv_shm v1) w1 of
                   Inl e \<Rightarrow> Inl e
                 | Inr (w1r, m, w2) \<Rightarrow> Inr (r1\<lparr>ur_writerV1 := w1r\<rparr>, v1\<lparr>sv_shm := m, sv_world := w2\<rparr>)) of
           Inl e \<Rightarrow> Inl e
         | Inr (r2, v2) \<Rightarrow>
             let v3 = (case ur_window r2 of None \<Rightarrow> v2 | Some win \<Rightarrow> v2\<lparr>sv_world := un_release U win (sv_world v2)\<rparr>) in
             delete_unified U r2 v3)"

section \<open>A frame\<close>

text \<open>The clocks of the text line.\<close>

definition tick :: "int \<Rightarrow> unified \<Rightarrow> unified" where
  "tick nowMs r =
     (let r1 = (if ur_startTimeMs r = 0 then r\<lparr>ur_startTimeMs := nowMs, ur_lastFpsTime := nowMs\<rparr> else r);
          r2 = r1\<lparr>ur_fpsFrameCount := ur_fpsFrameCount r1 + 1\<rparr> in
      if 1000 \<le> nowMs - ur_lastFpsTime r2
      then r2\<lparr>ur_currentFps := ur_fpsFrameCount r2, ur_fpsFrameCount := 0, ur_lastFpsTime := nowMs\<rparr> else r2)"

definition draw_pattern :: "'w unified_env \<Rightarrow> int \<Rightarrow> bool \<Rightarrow> unified \<Rightarrow> int \<Rightarrow> mem \<Rightarrow> mem" where
  "draw_pattern U timestampMs v2Active r buf = renderTestPattern (un_libm U) buf (ur_camWidth r) (ur_camHeight r)
     (ur_frameCount r) timestampMs (ur_currentFps r) v2Active"

text \<open>The second transport: into the locked buffer, then copied for the window.\<close>

definition render_v2 :: "'w unified_env \<Rightarrow> nat \<Rightarrow> int \<Rightarrow> unified \<Rightarrow> 'w shared_view \<Rightarrow> (unified \<times> 'w shared_view) outcome" where
  "render_v2 U fuel timestampMs r v =
     (case writer_beginFrame (un_shared U) (un_writer U) fuel (ur_writerV2 r) (sv_ring v) (sv_world v) of
        Inl e \<Rightarrow> Inl e
      | Inr (pixels, w2r, ring, w1) \<Rightarrow>
          let r1 = r\<lparr>ur_writerV2 := w2r\<rparr>; v1 = v\<lparr>sv_ring := ring, sv_world := w1\<rparr>;
              (r2, v2) = (case pixels of
                 Some p \<Rightarrow>
                   let px = draw_pattern U timestampMs True r1 (int p) (sv_pixels v1);
                       (w2e, ring2, w2) = writer_endFrame (un_shared U) (un_writer U) (ur_writerV2 r1) (sv_ring v1) (sv_world v1) in
                   (r1\<lparr>ur_writerV2 := w2e, ur_frameBuffer := memcpy 0 (int p) (ur_camWidth r * ur_camHeight r * 4) px
                        (ur_frameBuffer r1)\<rparr>, v1\<lparr>sv_pixels := px, sv_ring := ring2, sv_world := w2\<rparr>)
               | None \<Rightarrow> (r1\<lparr>ur_frameBuffer := draw_pattern U timestampMs True r1 0 (ur_frameBuffer r1)\<rparr>, v1));
              (_, w2n) = writer_checkNegotiation (sv_ring v2) (ur_writerV2 r2) in
          Inr (r2\<lparr>ur_writerV2 := w2n\<rparr>, v2))"

text \<open>
  The first transport. Each \<open>writeFrame\<close> hands over a whole vector; \<open>rgba_frame\<close> is the part behind
  the label \<open>cpu_rgba_path\<close>.
\<close>

definition publish :: "'w unified_env \<Rightarrow> mem \<Rightarrow> nat \<Rightarrow> unified \<Rightarrow> 'w shared_view \<Rightarrow> (unified \<times> 'w shared_view) outcome" where
  "publish U data n r v = (case uw_writeFrame (un_app U) data n (ur_writerV1 r) (sv_shm v) (sv_world v) of
       Inl e \<Rightarrow> Inl e
     | Inr (w1r, m, w1) \<Rightarrow> Inr (r\<lparr>ur_writerV1 := w1r\<rparr>, v\<lparr>sv_shm := m, sv_world := w1\<rparr>))"

definition set_format :: "32 word \<Rightarrow> unified \<Rightarrow> 'w shared_view \<Rightarrow> unified \<times> 'w shared_view" where
  "set_format fmt r v = (let (w1r, m) = setOutputFormat fmt (ur_writerV1 r) (sv_shm v) in
     (r\<lparr>ur_writerV1 := w1r\<rparr>, v\<lparr>sv_shm := m\<rparr>))"

definition negotiate :: "unified \<Rightarrow> 'w shared_view \<Rightarrow> unified \<times> 'w shared_view" where
  "negotiate r v = (if getRequestedFormat (ur_writerV1 r) (sv_shm v) = FORMAT_YUV_420 \<and> sw_format (ur_writerV1 r) \<noteq> FORMAT_YUV_420
     then set_format FORMAT_YUV_420 r v else (r, v))"

definition rgba_frame :: "'w unified_env \<Rightarrow> int \<Rightarrow> unified \<Rightarrow> 'w shared_view \<Rightarrow> (unified \<times> 'w shared_view) outcome" where
  "rgba_frame U timestampMs r v =
     (let r1 = r\<lparr>ur_frameBuffer := draw_pattern U timestampMs False r 0 (ur_frameBuffer r)\<rparr> in
      publish U (ur_frameBuffer r1) (ur_frameSize r1) r1 v)"

definition yuv_frame :: "'w unified_env \<Rightarrow> unified \<Rightarrow> 'w shared_view \<Rightarrow> (unified \<times> 'w shared_view) outcome" where
  "yuv_frame U r v =
     (let r1 = (if ur_yuvSize r = 0 then r\<lparr>ur_yuvBuffer := (\<lambda>_. 0),
                  ur_yuvSize := nat (ur_camWidth r * ur_camHeight r * 3 div 2)\<rparr> else r);
          ((rgba, nv12), (g, w1)) = run_state (gr_renderFrame (un_gl U) (ur_frameCount r1) (ur_frameBuffer r1) (ur_yuvBuffer r1))
            (ur_gpu r1, sv_world v);
          r2 = r1\<lparr>ur_frameBuffer := rgba, ur_yuvBuffer := nv12, ur_gpu := g\<rparr> in
      publish U (ur_yuvBuffer r2) (ur_yuvSize r2) r2 (v\<lparr>sv_world := w1\<rparr>))"

definition render_v1 :: "'w unified_env \<Rightarrow> int \<Rightarrow> unified \<Rightarrow> 'w shared_view \<Rightarrow> (unified \<times> 'w shared_view) outcome" where
  "render_v1 U timestampMs r0 v0 =
     (let (r, v) = negotiate r0 v0 in
      if sw_format (ur_writerV1 r) = FORMAT_YUV_420 then
        if tg_initialized (ur_gpu r) then yuv_frame U r v
        else
          let (ok, (g, w1)) = run_state (gr_initialize (un_gl U) (ur_camWidth r) (ur_camHeight r)) (ur_gpu r, sv_world v);
              r1 = r\<lparr>ur_gpu := g\<rparr>; v1 = v\<lparr>sv_world := w1\<rparr> in
          if \<not> ok then let (r2, v2) = set_format FORMAT_RGBA_8888 r1 v1 in rgba_frame U timestampMs r2 v2
          else yuv_frame U r1 v1
      else rgba_frame U timestampMs r v)"

text \<open>The window: rows that both pictures have, as far as both rows go.\<close>

definition show_frame :: "'w unified_env \<Rightarrow> unified \<Rightarrow> 'w shared_view \<Rightarrow> 'w shared_view" where
  "show_frame U r v = (case ur_window r of
       None \<Rightarrow> v
     | Some win \<Rightarrow> (case un_lock U win (sv_world v) of
          (None, w1) \<Rightarrow> v\<lparr>sv_world := w1\<rparr>
        | (Some b, w1) \<Rightarrow>
            let dstStride = wb_stride b * 4; srcStride = ur_camWidth r * 4;
                screen = for_range (min (ur_camHeight r) (wb_height b)) (\<lambda>y. memcpy (wb_bits b + y * dstStride) (y * srcStride)
                  (min srcStride dstStride) (ur_frameBuffer r)) (sv_screen v) in
            v\<lparr>sv_screen := screen, sv_world := un_unlockAndPost U win w1\<rparr>))"

definition nativeRenderFrame :: "'w unified_env \<Rightarrow> nat \<Rightarrow> unified option \<Rightarrow> 'w shared_view \<Rightarrow> (unified option \<times> 'w shared_view) outcome" where
  "nativeRenderFrame U fuel ptr v = (case ptr of
       None \<Rightarrow> Inr (ptr, v)
     | Some r0 \<Rightarrow>
         if \<not> ur_initialized r0 then Inr (ptr, v)
         else
           let (nowMs, w1) = un_nowMs U (sv_world v);
               r = tick nowMs r0; timestampMs = nowMs - ur_startTimeMs r; v1 = v\<lparr>sv_world := w1\<rparr> in
           case (if ur_usingV2 r then render_v2 U fuel timestampMs r v1 else render_v1 U timestampMs r v1) of
             Inl e \<Rightarrow> Inl e
           | Inr (r2, v2) \<Rightarrow> Inr (Some (r2\<lparr>ur_frameCount := ur_frameCount r2 + 1\<rparr>), show_frame U r2 v2))"

end
