(* ===== verification/Unified_Theorems.thy ===== *)
theory Unified_Theorems
  imports Unified_Renderer
begin

text \<open>
  The unified renderer hands the HAL one whole frame of the declared format in every call, also
  when the HAL changes its mind and when the GPU cannot be set up, and it leaves no buffer of
  the second transport locked between calls.
\<close>

section \<open>The first transport\<close>

definition v1_size :: "32 word \<Rightarrow> nat" where
  "v1_size fmt = (if fmt = FORMAT_YUV_420 then 460800 else 1228800)"

lemma v1_format_size: "format_size fmt 640 480 = v1_size fmt"
  by (simp add: format_size_def v1_size_def)

lemma v1_rgba_size: "rgba_size 640 480 = 1228800"
  by (simp add: rgba_size_def)

text \<open>
  Between two calls: the region is the writer's, and the announced format and size are
  those the writer accepts.
\<close>

definition v1_ready :: "unified \<Rightarrow> shm \<Rightarrow> bool" where
  "v1_ready r m \<longleftrightarrow> ur_initialized r \<and> \<not> ur_usingV2 r \<and> ur_camWidth r = 640 \<and> ur_camHeight r = 480 \<and>
     ur_frameSize r = 1228800 \<and> (ur_yuvSize r = 0 \<or> ur_yuvSize r = 460800) \<and>
     writing (ur_writerV1 r) m \<and> sw_width (ur_writerV1 r) = 640 \<and> sw_height (ur_writerV1 r) = 480 \<and>
     sw_format (ur_writerV1 r) \<in> {FORMAT_RGBA_8888, FORMAT_YUV_420} \<and>
     fh_format (shm_header m) = sw_format (ur_writerV1 r) \<and>
     unat (fh_dataSize (shm_header m)) = v1_size (sw_format (ur_writerV1 r)) \<and>
     fh_frameNumber (shm_header m) = sw_frameNumber (ur_writerV1 r)"

lemma format_values: "FORMAT_YUV_420 \<noteq> FORMAT_RGBA_8888"
  by (simp add: FORMAT_YUV_420_def FORMAT_RGBA_8888_def)

lemma publish_run:
  assumes ready: "v1_ready r (sv_shm v)" and n: "n = v1_size (sw_format (ur_writerV1 r))"
  shows "\<exists>w' m'. publish U data n r v = Inr (r\<lparr>ur_writerV1 := (ur_writerV1 r)\<lparr>sw_frameNumber :=
      sw_frameNumber (ur_writerV1 r) + 1\<rparr>\<rparr>, v\<lparr>sv_shm := m', sv_world := w'\<rparr>) \<and>
    v1_ready (r\<lparr>ur_writerV1 := (ur_writerV1 r)\<lparr>sw_frameNumber := sw_frameNumber (ur_writerV1 r) + 1\<rparr>\<rparr>) m' \<and>
    (\<forall>i. 0 \<le> i \<and> i < int n \<longrightarrow> shm_bytes m' (4096 + i) = data i)"
proof -
  let ?s = "ur_writerV1 r" and ?m = "sv_shm v"
  obtain ns w' where clock: "ak_clock (un_app U) (sv_world v) = (ns, w')" by fastforce
  let ?m' = "(copy_in 4096 n data ?m)\<lparr>shm_header := (shm_header ?m)\<lparr>fh_frameNumber := sw_frameNumber ?s + 1,
      fh_timestamp := word_of_int ns, fh_flags := or (fh_flags (shm_header ?m)) FLAG_NEW_FRAME\<rparr>\<rparr>"
  have wr: "sw_header ?s" "sw_frameData ?s = Some 4096" "sw_mappedSize ?s = 4096 + 1228800"
    using ready by (simp_all add: v1_ready_def writing_def v1_rgba_size)
  have size: "format_size (sw_format ?s) (sw_width ?s) (sw_height ?s) = n"
    using ready n by (simp add: v1_ready_def v1_format_size)
  have "n \<le> 1228800" using n by (simp add: v1_size_def)
  then have "uw_writeFrame (un_app U) data n ?s ?m (sv_world v) = Inr (?s\<lparr>sw_frameNumber := sw_frameNumber ?s + 1\<rparr>, ?m', w')"
    using wr size clock by (simp add: uw_writeFrame_def copy_in_def Let_def)
  then have "publish U data n r v = Inr (r\<lparr>ur_writerV1 := ?s\<lparr>sw_frameNumber := sw_frameNumber ?s + 1\<rparr>\<rparr>,
      v\<lparr>sv_shm := ?m', sv_world := w'\<rparr>)"
    by (simp add: publish_def)
  moreover have "v1_ready (r\<lparr>ur_writerV1 := ?s\<lparr>sw_frameNumber := sw_frameNumber ?s + 1\<rparr>\<rparr>) ?m'"
    using ready by (simp add: v1_ready_def writing_def renderer_flag_def or_keeps_flag)
  moreover have "\<forall>i. 0 \<le> i \<and> i < int n \<longrightarrow> shm_bytes ?m' (4096 + i) = data i" by (simp add: copy_in_def)
  ultimately show ?thesis by blast
qed

lemma set_format_ready:
  assumes ready: "v1_ready r (sv_shm v)" and fmt: "fmt \<in> {FORMAT_RGBA_8888, FORMAT_YUV_420}" and run: "set_format fmt r v = (r', v')"
  shows "v1_ready r' (sv_shm v') \<and> r' = r\<lparr>ur_writerV1 := (ur_writerV1 r)\<lparr>sw_format := fmt\<rparr>\<rparr>"
proof -
  let ?s = "ur_writerV1 r"
  have s: "sw_header ?s" "sw_width ?s = 640" "sw_height ?s = 480" "writing ?s (sv_shm v)"
    using ready by (simp_all add: v1_ready_def writing_def)
  obtain s' m' where f: "setOutputFormat fmt ?s (sv_shm v) = (s', m')" by fastforce
  have s': "s' = ?s\<lparr>sw_format := fmt\<rparr>" "fh_format (shm_header m') = fmt"
    "fh_frameNumber (shm_header m') = fh_frameNumber (shm_header (sv_shm v))"
    using f s(1) by (auto simp: setOutputFormat_def)
  have w: "writing s' m'" "unat (fh_dataSize (shm_header m')) = v1_size fmt"
    using setOutputFormat_writing [OF s(4) f] s(2,3) by (simp_all add: v1_format_size)
  have res: "r' = r\<lparr>ur_writerV1 := s'\<rparr>" "sv_shm v' = m'" using run f by (auto simp: set_format_def)
  show ?thesis unfolding res v1_ready_def using ready fmt s' w by (simp add: v1_ready_def)
qed

text \<open>What the region holds after a frame, and which vector it came from.\<close>

definition holds_frame :: "unified \<Rightarrow> shm \<Rightarrow> bool" where
  "holds_frame r m \<longleftrightarrow> (\<forall>i. 0 \<le> i \<and> i < int (v1_size (fh_format (shm_header m))) \<longrightarrow> shm_bytes m (4096 + i) =
     (if fh_format (shm_header m) = FORMAT_YUV_420 then ur_yuvBuffer r i else ur_frameBuffer r i))"

text \<open>An RGBA frame is the pattern with the call's number.\<close>

definition drawn :: "'w unified_env \<Rightarrow> int \<Rightarrow> unified \<Rightarrow> bool" where
  "drawn U k r \<longleftrightarrow> (sw_format (ur_writerV1 r) = FORMAT_RGBA_8888 \<longrightarrow>
     (\<exists>ts fps m. ur_frameBuffer r = renderTestPattern (un_libm U) 0 640 480 k ts fps False m))"

definition frame_published :: "'w unified_env \<Rightarrow> unified \<Rightarrow> unified \<Rightarrow> shm \<Rightarrow> bool" where
  "frame_published U r r' m \<longleftrightarrow> v1_ready r' m \<and> holds_frame r' m \<and> drawn U (ur_frameCount r) r' \<and>
     sw_frameNumber (ur_writerV1 r') = sw_frameNumber (ur_writerV1 r) + 1"

lemma rgba_published:
  assumes ready: "v1_ready r (sv_shm v)" and fmt: "sw_format (ur_writerV1 r) = FORMAT_RGBA_8888"
  shows "\<exists>r' v'. rgba_frame U ts r v = Inr (r', v') \<and> frame_published U r r' (sv_shm v') \<and> ur_frameCount r' = ur_frameCount r \<and>
    ur_window r' = ur_window r \<and> ur_frameBuffer r' = draw_pattern U ts False r 0 (ur_frameBuffer r)"
proof -
  define r1 where "r1 = r\<lparr>ur_frameBuffer := draw_pattern U ts False r 0 (ur_frameBuffer r)\<rparr>"
  have r1: "v1_ready r1 (sv_shm v)" using ready by (simp add: v1_ready_def r1_def)
  have "ur_frameSize r1 = v1_size (sw_format (ur_writerV1 r1))"
    using ready fmt format_values by (auto simp: v1_ready_def v1_size_def r1_def)
  from publish_run [OF r1 this, of U "ur_frameBuffer r1"] obtain w' m' where p:
      "publish U (ur_frameBuffer r1) (ur_frameSize r1) r1 v = Inr (r1\<lparr>ur_writerV1 := (ur_writerV1 r1)\<lparr>sw_frameNumber :=
        sw_frameNumber (ur_writerV1 r1) + 1\<rparr>\<rparr>, v\<lparr>sv_shm := m', sv_world := w'\<rparr>)"
      "v1_ready (r1\<lparr>ur_writerV1 := (ur_writerV1 r1)\<lparr>sw_frameNumber := sw_frameNumber (ur_writerV1 r1) + 1\<rparr>\<rparr>) m'"
      "\<forall>i. 0 \<le> i \<and> i < int (ur_frameSize r1) \<longrightarrow> shm_bytes m' (4096 + i) = ur_frameBuffer r1 i" by blast
  have "fh_format (shm_header m') = FORMAT_RGBA_8888" using p(2) fmt by (simp add: v1_ready_def r1_def)
  moreover have "ur_frameSize r1 = 1228800" using ready by (simp add: v1_ready_def r1_def)
  ultimately show ?thesis
    using p ready format_values
    by (auto simp: rgba_frame_def frame_published_def holds_frame_def v1_size_def drawn_def draw_pattern_def v1_ready_def Let_def r1_def)
qed

lemma yuv_published:
  assumes ready: "v1_ready r (sv_shm v)" and fmt: "sw_format (ur_writerV1 r) = FORMAT_YUV_420"
  shows "\<exists>r' v'. yuv_frame U r v = Inr (r', v') \<and> frame_published U r r' (sv_shm v') \<and> ur_frameCount r' = ur_frameCount r \<and>
    ur_window r' = ur_window r"
proof -
  define r1 where "r1 = (if ur_yuvSize r = 0 then r\<lparr>ur_yuvBuffer := (\<lambda>_. 0),
     ur_yuvSize := nat (ur_camWidth r * ur_camHeight r * 3 div 2)\<rparr> else r)"
  have r1: "v1_ready r1 (sv_shm v)" "ur_yuvSize r1 = 460800" "ur_writerV1 r1 = ur_writerV1 r"
    using ready by (auto simp: v1_ready_def r1_def)
  obtain rgba nv12 g w1 where f: "run_state (gr_renderFrame (un_gl U) (ur_frameCount r1) (ur_frameBuffer r1) (ur_yuvBuffer r1))
      (ur_gpu r1, sv_world v) = ((rgba, nv12), (g, w1))" by (metis surj_pair)
  define r2 where "r2 = r1\<lparr>ur_frameBuffer := rgba, ur_yuvBuffer := nv12, ur_gpu := g\<rparr>"
  have r2: "v1_ready r2 (sv_shm (v\<lparr>sv_world := w1\<rparr>))" using r1 by (simp add: v1_ready_def r2_def)
  have "ur_yuvSize r2 = v1_size (sw_format (ur_writerV1 r2))" using r1 fmt by (simp add: v1_size_def r2_def)
  from publish_run [OF r2 this, of U "ur_yuvBuffer r2"] obtain w' m' where p:
      "publish U (ur_yuvBuffer r2) (ur_yuvSize r2) r2 (v\<lparr>sv_world := w1\<rparr>) = Inr (r2\<lparr>ur_writerV1 := (ur_writerV1 r2)\<lparr>sw_frameNumber :=
        sw_frameNumber (ur_writerV1 r2) + 1\<rparr>\<rparr>, v\<lparr>sv_world := w1\<rparr>\<lparr>sv_shm := m', sv_world := w'\<rparr>)"
      "v1_ready (r2\<lparr>ur_writerV1 := (ur_writerV1 r2)\<lparr>sw_frameNumber := sw_frameNumber (ur_writerV1 r2) + 1\<rparr>\<rparr>) m'"
      "\<forall>i. 0 \<le> i \<and> i < int (ur_yuvSize r2) \<longrightarrow> shm_bytes m' (4096 + i) = ur_yuvBuffer r2 i" by blast
  have run: "yuv_frame U r v = publish U (ur_yuvBuffer r2) (ur_yuvSize r2) r2 (v\<lparr>sv_world := w1\<rparr>)"
    using f by (simp add: yuv_frame_def Let_def flip: r1_def) (simp add: r2_def)
  have "fh_format (shm_header m') = FORMAT_YUV_420" using p(2) fmt r1 by (simp add: v1_ready_def r2_def)
  moreover have "ur_yuvSize r2 = 460800" "ur_frameCount r2 = ur_frameCount r" "ur_window r2 = ur_window r"
    "ur_writerV1 r2 = ur_writerV1 r" using r1 by (simp_all add: r2_def, auto simp: r1_def)
  ultimately show ?thesis
    using p run fmt format_values by (auto simp: frame_published_def holds_frame_def v1_size_def drawn_def)
qed

lemma initialize_v1_ready:
  "v1_ready (r\<lparr>ur_gpu := g\<rparr>) m = v1_ready r m"
  by (simp add: v1_ready_def)

lemma rgba_path:
  assumes ready: "v1_ready r (sv_shm v)" and fmt: "sw_format (ur_writerV1 r) = FORMAT_RGBA_8888"
  shows "\<exists>r' v'. rgba_frame U ts r v = Inr (r', v') \<and> frame_published U r r' (sv_shm v') \<and> ur_frameCount r' = ur_frameCount r \<and>
    ur_window r' = ur_window r"
  using rgba_published [OF assms] by blast

text \<open>Every way through a call of the first transport ends with a published frame.\<close>

lemma render_v1_published:
  assumes ready: "v1_ready r (sv_shm v)"
  shows "\<exists>r' v'. render_v1 U ts r v = Inr (r', v') \<and> frame_published U r r' (sv_shm v') \<and> ur_frameCount r' = ur_frameCount r \<and>
    ur_window r' = ur_window r"
proof -
  obtain r1 v1 where n: "negotiate r v = (r1, v1)" by fastforce
  have r1: "v1_ready r1 (sv_shm v1)" "sw_frameNumber (ur_writerV1 r1) = sw_frameNumber (ur_writerV1 r)"
    "ur_frameCount r1 = ur_frameCount r" "ur_window r1 = ur_window r"
    using n ready set_format_ready [OF ready, of FORMAT_YUV_420 r1 v1] by (auto simp: negotiate_def split: if_splits)
  show ?thesis
  proof (cases "sw_format (ur_writerV1 r1) = FORMAT_YUV_420")
    case False
    then have "sw_format (ur_writerV1 r1) = FORMAT_RGBA_8888" using r1(1) by (simp add: v1_ready_def)
    from rgba_path [OF r1(1) this, of U ts] show ?thesis
      using n False r1 by (auto simp: render_v1_def frame_published_def)
  next
    case yuv: True
    show ?thesis
    proof (cases "tg_initialized (ur_gpu r1)")
      case True
      from yuv_published [OF r1(1) yuv, of U] show ?thesis
        using n True yuv r1 by (auto simp: render_v1_def frame_published_def)
    next
      case False
      obtain ok g w where i: "run_state (gr_initialize (un_gl U) (ur_camWidth r1) (ur_camHeight r1)) (ur_gpu r1, sv_world v1) = (ok, (g, w))"
        by (metis surj_pair)
      have r2: "v1_ready (r1\<lparr>ur_gpu := g\<rparr>) (sv_shm (v1\<lparr>sv_world := w\<rparr>))" using r1(1) by (simp add: initialize_v1_ready)
      show ?thesis
      proof (cases ok)
        case True
        from yuv_published [OF r2, of U] show ?thesis
          using n False yuv r1 i True by (auto simp: render_v1_def frame_published_def)
      next
        case failed: False
        obtain r3 v3 where s: "set_format FORMAT_RGBA_8888 (r1\<lparr>ur_gpu := g\<rparr>) (v1\<lparr>sv_world := w\<rparr>) = (r3, v3)" by fastforce
        have r3: "v1_ready r3 (sv_shm v3)" "r3 = (r1\<lparr>ur_gpu := g\<rparr>)\<lparr>ur_writerV1 := (ur_writerV1 r1)\<lparr>sw_format := FORMAT_RGBA_8888\<rparr>\<rparr>"
          using set_format_ready [OF r2 _ s] by (blast, simp)
        have "sw_format (ur_writerV1 r3) = FORMAT_RGBA_8888" using r3(2) by simp
        from rgba_path [OF r3(1) this, of U ts] obtain r' v' where q: "rgba_frame U ts r3 v3 = Inr (r', v')"
            "frame_published U r3 r' (sv_shm v')" "ur_frameCount r' = ur_frameCount r3" "ur_window r' = ur_window r3" by blast
        have "render_v1 U ts r v = Inr (r', v')" using n False yuv i failed s q(1) by (simp add: render_v1_def)
        then show ?thesis using q(2-4) r1 r3(2) by (simp add: frame_published_def)
      qed
    qed
  qed
qed

lemma tick_keeps:
  "v1_ready (tick t r) m = v1_ready r m" "ur_writerV1 (tick t r) = ur_writerV1 r" "ur_frameCount (tick t r) = ur_frameCount r"
  "ur_usingV2 (tick t r) = ur_usingV2 r" "ur_window (tick t r) = ur_window r" "ur_initialized (tick t r) = ur_initialized r"
  by (simp_all add: tick_def v1_ready_def Let_def)

lemma show_keeps: "sv_shm (show_frame U r v) = sv_shm v" "sv_ring (show_frame U r v) = sv_ring v"
  by (simp_all add: show_frame_def Let_def split: option.split prod.split)

lemma frame_call:
  assumes ready: "v1_ready r (sv_shm v)"
  shows "\<exists>r' v'. nativeRenderFrame U fuel (Some r) v = Inr (Some r', v') \<and> frame_published U r r' (sv_shm v') \<and>
    ur_frameCount r' = ur_frameCount r + 1"
proof -
  obtain t w where now: "un_nowMs U (sv_world v) = (t, w)" by fastforce
  have "v1_ready (tick t r) (sv_shm (v\<lparr>sv_world := w\<rparr>))" using ready by (simp add: tick_keeps)
  from render_v1_published [OF this, of U "t - ur_startTimeMs (tick t r)"] obtain r' v' where
      p: "render_v1 U (t - ur_startTimeMs (tick t r)) (tick t r) (v\<lparr>sv_world := w\<rparr>) = Inr (r', v')"
        "frame_published U (tick t r) r' (sv_shm v')" "ur_frameCount r' = ur_frameCount (tick t r)" by blast
  have "ur_initialized r" "\<not> ur_usingV2 r" using ready by (simp_all add: v1_ready_def)
  then have "nativeRenderFrame U fuel (Some r) v = Inr (Some (r'\<lparr>ur_frameCount := ur_frameCount r' + 1\<rparr>), show_frame U r' v')"
    using now p(1) by (simp add: nativeRenderFrame_def tick_keeps)
  moreover have "frame_published U r (r'\<lparr>ur_frameCount := ur_frameCount r' + 1\<rparr>) (sv_shm (show_frame U r' v'))"
    using p(2) by (simp add: frame_published_def v1_ready_def holds_frame_def drawn_def tick_keeps show_keeps)
  ultimately show ?thesis using p(3) by (simp add: tick_keeps)
qed

section \<open>A session of the first transport\<close>

text \<open>Between two calls the HAL, in its own process, may ask for another format or size.\<close>

definition hal_asks :: "32 word \<times> 32 word \<times> 32 word \<Rightarrow> shm \<Rightarrow> shm" where
  "hal_asks req m = (case req of (fmt, w, h) \<Rightarrow> m\<lparr>shm_header := (shm_header m)\<lparr>fh_requestedFormat := fmt,
     fh_requestedWidth := w, fh_requestedHeight := h\<rparr>\<rparr>)"

fun unified_frames :: "'w unified_env \<Rightarrow> nat \<Rightarrow> (32 word \<times> 32 word \<times> 32 word) list \<Rightarrow> unified option \<Rightarrow> 'w shared_view \<Rightarrow>
    (unified option \<times> 'w shared_view) outcome" where
  "unified_frames U fuel [] ptr v = Inr (ptr, v)"
| "unified_frames U fuel (req # reqs) ptr v =
     (case nativeRenderFrame U fuel ptr (v\<lparr>sv_shm := hal_asks req (sv_shm v)\<rparr>) of
        Inl e \<Rightarrow> Inl e
      | Inr (ptr', v') \<Rightarrow> unified_frames U fuel reqs ptr' v')"

lemma asks_ready: "v1_ready r (hal_asks req m) = v1_ready r m"
  by (cases req) (simp add: hal_asks_def v1_ready_def writing_def renderer_flag_def)

lemma frames_published:
  "v1_ready r (sv_shm v) \<Longrightarrow> \<exists>r' v'. unified_frames U fuel reqs (Some r) v = Inr (Some r', v') \<and> v1_ready r' (sv_shm v') \<and>
    (reqs \<noteq> [] \<longrightarrow> holds_frame r' (sv_shm v') \<and> drawn U (ur_frameCount r + int (length reqs) - 1) r') \<and>
    sw_frameNumber (ur_writerV1 r') = sw_frameNumber (ur_writerV1 r) + of_nat (length reqs)"
proof (induction reqs arbitrary: r v)
  case Nil
  then show ?case by simp
next
  case (Cons req reqs)
  have "v1_ready r (sv_shm (v\<lparr>sv_shm := hal_asks req (sv_shm v)\<rparr>))" using Cons.prems by (simp add: asks_ready)
  from frame_call [OF this, of U fuel] obtain r1 v1 where
      f: "nativeRenderFrame U fuel (Some r) (v\<lparr>sv_shm := hal_asks req (sv_shm v)\<rparr>) = Inr (Some r1, v1)"
      and p: "frame_published U r r1 (sv_shm v1)" "ur_frameCount r1 = ur_frameCount r + 1" by blast
  have r1: "v1_ready r1 (sv_shm v1)" "holds_frame r1 (sv_shm v1)"
    "sw_frameNumber (ur_writerV1 r1) = sw_frameNumber (ur_writerV1 r) + 1" using p by (simp_all add: frame_published_def)
  have d1: "drawn U (ur_frameCount r) r1" using p(1) by (simp add: frame_published_def)
  from Cons.IH [OF r1(1)] obtain r' v' where g: "unified_frames U fuel reqs (Some r1) v1 = Inr (Some r', v')" "v1_ready r' (sv_shm v')"
      "reqs \<noteq> [] \<longrightarrow> holds_frame r' (sv_shm v') \<and> drawn U (ur_frameCount r1 + int (length reqs) - 1) r'"
      "sw_frameNumber (ur_writerV1 r') = sw_frameNumber (ur_writerV1 r1) + of_nat (length reqs)" by blast
  have "holds_frame r' (sv_shm v') \<and> drawn U (ur_frameCount r + int (length (req # reqs)) - 1) r'"
    using g(1,3) r1(2) d1 p(2) by (cases reqs) (auto simp: algebra_simps)
  then show ?case using f g r1(3) by (intro exI [of _ r'] exI [of _ v']) simp
qed

text \<open>A renderer that fell back to the first transport starts ready.\<close>

lemma created_ready:
  assumes "nativeCreateRenderer U v = Inr (Some r, v1)" "\<not> ur_usingV2 r"
  shows "v1_ready r (sv_shm v1) \<and> sw_frameNumber (ur_writerV1 r) = 0 \<and> ur_frameCount r = 0"
proof -
  obtain win w1 where a: "un_fromSurface U (sv_world v) = (Some win, w1)"
    using assms(1) by (cases "un_fromSurface U (sv_world v)") (auto simp: nativeCreateRenderer_def split: option.splits sum.splits)
  obtain wd hg w2 where b: "un_size U win w1 = ((wd, hg), w2)" by (metis surj_pair)
  define r0 where "r0 = unified_init\<lparr>ur_window := Some win, ur_width := wd, ur_height := hg, ur_camWidth := 640, ur_camHeight := 480\<rparr>"
  obtain ok r1 v2 where s: "start_writers U r0 (v\<lparr>sv_world := w2\<rparr>) = (ok, r1, v2)" by (rule prod_cases3)
  have ok: "ok" "sv_shm v1 = sv_shm v2"
      "r = r1\<lparr>ur_frameBuffer := (\<lambda>_. 0), ur_frameSize := nat (ur_camWidth r1 * ur_camHeight r1 * 4), ur_initialized := True\<rparr>"
    using assms(1) a b s
    by (auto simp: nativeCreateRenderer_def Let_def simp flip: r0_def split: if_splits sum.splits)
  obtain ok2 w2r ring w3 where two: "writer_initialize (un_platform U) (un_writer U) 640 480 1 4 writer_v2_init
      (sv_ring v) w2 = (ok2, w2r, ring, w3)" by (metis surj_pair)
  obtain ok1 w1r m w4 where one: "uw_initialize (un_app U) 640 480 writer_v1_init (sv_shm v) w3 = (ok1, w1r, m, w4)"
    by (metis surj_pair)
  have "\<not> ur_usingV2 r1" using assms(2) ok(3) by simp
  then have r1: "\<not> ok2" "ok1" "sv_shm v2 = m" "r1 = r0\<lparr>ur_writerV2 := w2r, ur_writerV1 := w1r, ur_usingV2 := False\<rparr>"
    using s two one ok(1) by (auto simp: start_writers_def r0_def unified_init_def Let_def split: if_splits)
  have init: "uw_initialize (un_app U) 640 480 writer_v1_init (sv_shm v) w3 = (True, w1r, m, w4)" using one r1(2) by simp
  note i = initialize_writing [OF init]
  have num: "sw_frameNumber w1r = 0" "fh_frameNumber (shm_header m) = 0"
    using init by (auto simp: uw_initialize_def init_region_def init_header_def copy_in_def writer_v1_init_def Let_def
      split: prod.splits if_splits)
  have "unat (fh_dataSize (shm_header m)) = v1_size FORMAT_RGBA_8888"
    using i format_values by (simp add: v1_rgba_size v1_size_def)
  then show ?thesis using i num ok r1(3,4)
    by (simp add: v1_ready_def writer_v1_init_def r0_def unified_init_def)
qed

text \<open>The picture in the region, read with its header.\<close>

lemma region_pixel:
  assumes "holds_frame r m" "fh_format (shm_header m) = FORMAT_RGBA_8888"
    and "0 \<le> x" "x < 640" "0 \<le> y" "y < 480"
  shows "pixel (\<lambda>a. shm_bytes m (4096 + a)) (pixel_addr 0 640 x y) = pixel (ur_frameBuffer r) (pixel_addr 0 640 x y)"
proof -
  have same: "shm_bytes m (4096 + i) = ur_frameBuffer r i" if "0 \<le> i" "i < 1228800" for i
    using assms(1,2) format_values that by (auto simp: holds_frame_def v1_size_def)
  let ?a = "pixel_addr 0 640 x y"
  have "0 \<le> ?a" "?a + 2 < 1228800" using assms(3-6) by (simp_all add: pixel_addr_def)
  then show ?thesis using same [of ?a] same [of "?a + 1"] same [of "?a + 2"] by (simp add: pixel_def)
qed

text \<open>
  C38: When the renderer was created on the first transport, every call
  of \<open>nativeRenderFrame\<close> returns and publishes one frame, whatever the HAL asks for in between
  and whether or not the GPU can be set up: the frame number is the number of calls, the announced
  format and size are those the writer accepts, the region holds the whole picture in that
  format, and an RGBA picture shows the pattern of this call.
\<close>

theorem every_frame_published:
  assumes "nativeCreateRenderer U v = Inr (Some r, v1)" "\<not> ur_usingV2 r" "reqs \<noteq> []"
  shows "\<exists>r' v'. unified_frames U fuel reqs (Some r) v1 = Inr (Some r', v') \<and>
    fh_frameNumber (shm_header (sv_shm v')) = of_nat (length reqs) \<and>
    fh_format (shm_header (sv_shm v')) = sw_format (ur_writerV1 r') \<and>
    unat (fh_dataSize (shm_header (sv_shm v'))) = format_size (sw_format (ur_writerV1 r')) 640 480 \<and>
    holds_frame r' (sv_shm v') \<and>
    (fh_format (shm_header (sv_shm v')) = FORMAT_RGBA_8888 \<longrightarrow> (\<forall>x y. 0 \<le> x \<and> x < 640 \<and> 20 \<le> y \<and> y < 480 \<longrightarrow>
       pixel (\<lambda>a. shm_bytes (sv_shm v') (4096 + a)) (pixel_addr 0 640 x y) =
         computePixel (un_libm U) x y 640 480 (frame_time (int (length reqs) - 1))))"
proof -
  have start: "v1_ready r (sv_shm v1)" "sw_frameNumber (ur_writerV1 r) = 0" "ur_frameCount r = 0"
    using created_ready [OF assms(1,2)] by auto
  from frames_published [OF start(1), of U fuel reqs] obtain r' v' where f:
      "unified_frames U fuel reqs (Some r) v1 = Inr (Some r', v')" "v1_ready r' (sv_shm v')" "holds_frame r' (sv_shm v')"
      "sw_frameNumber (ur_writerV1 r') = of_nat (length reqs)" "drawn U (int (length reqs) - 1) r'"
    using assms(3) start(2,3) by auto
  have picture: "pixel (\<lambda>a. shm_bytes (sv_shm v') (4096 + a)) (pixel_addr 0 640 x y) =
      computePixel (un_libm U) x y 640 480 (frame_time (int (length reqs) - 1))"
    if fmt: "fh_format (shm_header (sv_shm v')) = FORMAT_RGBA_8888" and xy: "0 \<le> x" "x < 640" "20 \<le> y" "y < 480" for x y
  proof -
    obtain ts fps m where "ur_frameBuffer r' = renderTestPattern (un_libm U) 0 640 480 (int (length reqs) - 1) ts fps False m"
      using f(2,5) fmt by (auto simp: drawn_def v1_ready_def)
    then show ?thesis using region_pixel [OF f(3) fmt, of x y] pattern_pixel [OF xy] xy by simp
  qed
  show ?thesis
    using f(1-4) picture by (intro exI [of _ r'] exI [of _ v'] conjI) (auto simp: v1_ready_def v1_format_size)
qed

text \<open>
  A device on which the second transport is refused and whose driver gives no context: the HAL
  asks for the other format, and the renderer goes on with RGBA.
\<close>

definition no_gpu :: "unit test_gl" where
  "no_gpu = \<lparr>tl_display = (\<lambda>w. (Some 1, w)), tl_initialize = (\<lambda>_ w. w), tl_chooseConfig = (\<lambda>_ w. ((1, 1), w)),
     tl_createContext = (\<lambda>_ _ w. (None, w)), tl_createPbuffer = (\<lambda>_ _ w. (None, w)), tl_makeCurrent = (\<lambda>_ _ _ w. w),
     tl_createShader = (\<lambda>_ w. (0, w)), tl_compiled = (\<lambda>_ w. (False, w)), tl_deleteShader = (\<lambda>_ w. w),
     tl_createProgram = (\<lambda>w. (0, w)), tl_link = (\<lambda>_ _ _ w. w), tl_linked = (\<lambda>_ w. (False, w)),
     tl_deleteProgram = (\<lambda>_ w. w), tl_genTexture = (\<lambda>w. (0, w)), tl_texImage = (\<lambda>_ _ _ _ w. w),
     tl_deleteTexture = (\<lambda>_ w. w), tl_genFramebuffer = (\<lambda>w. (0, w)), tl_attach = (\<lambda>_ _ w. w),
     tl_deleteFramebuffer = (\<lambda>_ w. w), tl_genVertexArray = (\<lambda>w. (0, w)), tl_genBuffer = (\<lambda>w. (0, w)),
     tl_quad = (\<lambda>_ _ _ w. w), tl_deleteVertexArray = (\<lambda>_ w. w), tl_deleteBuffer = (\<lambda>_ w. w),
     tl_bindFramebuffer = (\<lambda>_ w. w), tl_bindVertexArray = (\<lambda>_ w. w), tl_pass = (\<lambda>_ _ _ _ _ _ _ w. w),
     tl_readPixels = (\<lambda>_ _ _ w. (\<lambda>_ _ _. 0, w)), tl_destroySurface = (\<lambda>_ _ w. w),
     tl_destroyContext = (\<lambda>_ _ w. w), tl_terminate = (\<lambda>_ w. w)\<rparr>"

definition plain_device :: "unit unified_env" where
  "plain_device = \<lparr>un_app = demo_app,
     un_platform = \<lparr>pf_create = (\<lambda>w. (20, w)), pf_mmap = (\<lambda>_ w. (True, w)), pf_munmap = (\<lambda>w. w), pf_dup = (\<lambda>_ w. (30, w)),
       pf_close = (\<lambda>_ w. w), pf_allocate = (\<lambda>_ w. (None, w)), pf_release = (\<lambda>_ w. w), pf_recv = (\<lambda>_ w. (None, w)),
       pf_send = (\<lambda>_ _ w. (True, w))\<rparr>,
     un_writer = still_writer\<lparr>we_hardware := ''cutf''\<rparr>, un_shared = still_env, un_gl = no_gpu, un_libm = flat_libm,
     un_fromSurface = (\<lambda>w. (Some 1, w)), un_size = (\<lambda>_ w. ((640, 480), w)), un_setGeometry = (\<lambda>_ _ _ w. w),
     un_lock = (\<lambda>_ w. (None, w)), un_unlockAndPost = (\<lambda>_ w. w), un_release = (\<lambda>_ w. w), un_nowMs = (\<lambda>w. (1000, w))\<rparr>"

definition plain_view :: "unit shared_view" where
  "plain_view = \<lparr>sv_shm = zero_shm, sv_ring = new_ring, sv_pixels = (\<lambda>_. 0), sv_screen = (\<lambda>_. 0), sv_world = ()\<rparr>"

lemma plain_starts:
  "\<exists>r v. nativeCreateRenderer plain_device plain_view = Inr (Some r, v) \<and> \<not> ur_usingV2 r"
proof -
  obtain ok1 s m w where one: "uw_initialize demo_app 640 480 writer_v1_init zero_shm () = (ok1, s, m, w)" by (metis prod_cases4)
  then have ok1 by (auto simp: uw_initialize_def writer_v1_init_def demo_app_def open_file_def size_file_def Let_def split: prod.splits)
  then show ?thesis
    using one
    by (simp add: nativeCreateRenderer_def start_writers_def plain_device_def plain_view_def unified_init_def
      writer_initialize_def writer_v2_init_def virtual_device_def still_writer_def Let_def)
qed

theorem every_frame_published_witness:
  "\<exists>r v r' v'. nativeCreateRenderer plain_device plain_view = Inr (Some r, v) \<and>
     unified_frames plain_device 8 [(0, 0, 0), (FORMAT_YUV_420, 640, 480)] (Some r) v = Inr (Some r', v') \<and>
     fh_frameNumber (shm_header (sv_shm v')) = 2 \<and> holds_frame r' (sv_shm v')"
proof -
  obtain r v where c: "nativeCreateRenderer plain_device plain_view = Inr (Some r, v)" "\<not> ur_usingV2 r"
    using plain_starts by blast
  have "[(0, 0, 0), (FORMAT_YUV_420, 640, 480)] \<noteq> ([] :: (32 word \<times> 32 word \<times> 32 word) list)" by simp
  from every_frame_published [OF c this, of 8] c(1) show ?thesis by fastforce
qed

section \<open>The second transport\<close>

text \<open>A buffer that is begun is ended in the same call, so that the writer never begins twice.\<close>

lemma begin_result:
  assumes "writer_beginFrame E W fuel wr r w = Inr (p, wr', r', w')" "w2_lockedPtr wr = None"
  shows "p = None \<and> wr' = wr \<or> (\<exists>a. p = Some a \<and> w2_lockedPtr wr' = Some a \<and> 0 \<le> w2_currentBufferIndex wr')"
  using assms
  by (auto simp: writer_beginFrame_def Let_def split: if_splits sum.splits prod.splits option.splits)

lemma end_unlocks:
  "writer_endFrame E W wr r w = (wr', r', w') \<Longrightarrow> w2_lockedPtr wr = Some a \<Longrightarrow> 0 \<le> w2_currentBufferIndex wr \<Longrightarrow> w2_lockedPtr wr' = None"
  by (auto simp: writer_endFrame_def Let_def split: if_splits prod.splits)

theorem no_frame_left_open:
  assumes "nativeRenderFrame U fuel (Some r) v = Inr (Some r', v')" "ur_usingV2 r" "w2_lockedPtr (ur_writerV2 r) = None"
  shows "w2_lockedPtr (ur_writerV2 r') = None \<and> ur_usingV2 r'"
proof -
  have keep: "ur_writerV2 (tick t r) = ur_writerV2 r" "ur_usingV2 (tick t r) = ur_usingV2 r" for t
    by (simp_all add: tick_def Let_def)
  have neg: "writer_checkNegotiation ring wr = (q, wr') \<Longrightarrow> w2_lockedPtr wr' = w2_lockedPtr wr" for ring wr q wr'
    by (auto simp: writer_checkNegotiation_def split: if_splits)
  have one: "w2_lockedPtr (ur_writerV2 r2) = None \<and> ur_usingV2 r2"
    if run: "render_v2 U fuel ts s sv = Inr (r2, v2)" and s: "w2_lockedPtr (ur_writerV2 s) = None" "ur_usingV2 s" for ts s sv r2 v2
  proof -
    obtain p wr ring w where b: "writer_beginFrame (un_shared U) (un_writer U) fuel (ur_writerV2 s) (sv_ring sv) (sv_world sv) =
        Inr (p, wr, ring, w)"
      using run by (auto simp: render_v2_def split: sum.splits)
    note res = begin_result [OF b s(1)]
    show ?thesis
      using run b res s neg
      by (auto simp: render_v2_def Let_def split: prod.splits option.splits dest: end_unlocks)
  qed
  show ?thesis
  proof (cases "ur_initialized r")
    case True
    then show ?thesis
      using assms one keep by (auto simp: nativeRenderFrame_def Let_def split: prod.splits sum.splits)
  next
    case False
    then show ?thesis using assms by (simp add: nativeRenderFrame_def)
  qed
qed

text \<open>
  The pattern is drawn as if rows followed each other without a gap. In a buffer whose rows are
  \<open>stride\<close> pixels apart the reader of pixel \<open>(x, y)\<close> finds another pixel of the pattern.
\<close>

theorem padded_rows_shear:
  assumes "0 < w" "20 \<le> h" "0 \<le> x" "0 \<le> y" "20 \<le> (y * stride + x) div w" "(y * stride + x) div w < h"
  shows "pixel (renderTestPattern L buf w h frame ts fps v2 m) (pixel_addr buf stride x y) =
    computePixel L ((y * stride + x) mod w) ((y * stride + x) div w) w h (frame_time frame)"
proof -
  let ?x = "(y * stride + x) mod w" and ?y = "(y * stride + x) div w"
  have "pixel_addr buf stride x y = pixel_addr buf w ?x ?y"
    using div_mult_mod_eq [of "y * stride + x" w] by (simp add: pixel_addr_def)
  moreover have "pixel (renderTestPattern L buf w h frame ts fps v2 m) (pixel_addr buf w ?x ?y) = computePixel L ?x ?y w h (frame_time frame)"
    using pattern_pixel [of ?x w ?y h] assms by simp
  ultimately show ?thesis by simp
qed

text \<open>Rows of 80 pixels hold a picture of 64: the reader of pixel 0 of row 21 finds pixel 16 of row 26.\<close>

theorem padded_rows_shear_witness:
  "pixel (renderTestPattern flat_libm 0 64 48 0 0 0 True (\<lambda>_. 0)) (pixel_addr 0 80 0 21) = (155, 125, 45) \<and>
   computePixel flat_libm 0 21 64 48 (frame_time 0) = (255, 255, 255)"
  using padded_rows_shear [of 64 48 0 21 80 flat_libm 0 0 0 0 True "\<lambda>_. 0"] by (simp add: flat_pixel)

end
