(* ===== verification/Spec2Isabelle.thy ===== *)
theory Spec2Isabelle
  imports VCam_Prelude Interfaces Slots Read_Fences Producer_Caps Provider Stable_Hal Hal_Invariants
    Hal_Runs Hal_Theorems Hal_Fds Metadata Session Session_Logic Session_Results Session_Guarantee
    Control_Ring Buffer_Pool Shared_Frames Shared_Pool Shared_Theorems Frame_Source_V2 Frame_Source_V1
    Shared_Progress Frame_Filler Fill_Theorems Session_Termination Device Jpeg_Blob Frame_Profile
    Aidl_Source Relay Relay_Queue Relay_Jni Relay_Theorems Relay_System Frame_Writer_V2 Frame_Writer_V1
    Pair_Lists Virtual_Mic Camera_Adapter Gpu_Planes Gpu_Compositor Gpu_Theorems
    Ashmem_Renderer Cube_Geometry Cube_Theorems Vulkan_Objects Vulkan_Renderer Vulkan_Ownership
    Vulkan_Theorems Vulkan_Frames Test_Pattern Pattern_Theorems Test_Gpu Test_Gpu_Objects
    Test_Gpu_Frames Unified_Renderer Unified_Theorems
begin

text \<open>
  A verification library for the Android virtual camera: a camera HAL whose pictures come from
  applications. An application (the producer or renderer) draws frames; the HAL hands them to
  camera service as the output of an ordinary camera.

  \<^bold>\<open>The program.\<close> Camera service talks to a provider, a device and a session
  (\<open>src/hal/aidl-v1\<close>, a second and simpler build in \<open>src/hal/aidl-v2\<close>). The session gets its frames
  from one of four sources: the stable vendor endpoint (\<open>VirtualCameraStableHal\<close>), fed across
  the vendor boundary by the platform relay (\<open>src/platform-jni\<close>); a relay source that owns a buffer
  queue (\<open>AidlFrameSource\<close>, \<open>AvailabilityBridge\<close>); a shared memory region received over a socket
  (first transport, \<open>VirtualCameraSocket\<close>, \<open>VirtualCameraFrameSource\<close>); and a pool of hardware
  buffers with a control ring in shared memory (second transport, \<open>VirtualCameraFrameSourceV2\<close>,
  \<open>src/v2-shared-memory\<close>). A frame is drawn into the output buffer by the GPU compositor, by the
  CPU filler, or by the JPEG encoder. Beside the camera stands a virtual microphone.

  \<^bold>\<open>Conventions.\<close> A class is a record of its fields under their names, a method is a definition
  that takes the record (and the state it shares) and returns it changed, and every early
  return, refusal and exception is a value. Machine integers keep their width (\<open>32 word\<close>, \<open>64 word\<close>)
  where the code relies on it or can wrap; \<open>int\<close> stands for C++ integers whose range is argued
  in the theory. What is not under src/ is a parameter: a record of functions on the state
  \<open>'w\<close> of the world (\<open>sys\<close>, \<open>gfx\<close>, \<open>env\<close>, \<open>platform\<close>, \<open>net\<close>, \<open>kernel\<close>, \<open>gpu_env\<close> and others). A theorem
  that needs more of such a function names its documented behaviour as a hypothesis
  (\<open>sync_laws\<close>, \<open>gpu_laws\<close>, \<open>tracks_locks\<close>, \<open>ashmem_laws\<close>), and a witness shows an instance. A method
  that runs under a lock is one step; where the code lets go of a lock, reads an atomic or
  shares memory, the model has a hole (\<open>others\<close>, \<open>intf\<close>, \<open>peer\<close>) that any step of the rest of
  the system can fill.

  \<^bold>\<open>Foundations.\<close> \<open>VCam_Prelude\<close> has status values, file descriptors and sync fences with their laws,
  and \<open>fd_exchange\<close>, the relation in which descriptors are proved neither leaked nor closed
  twice. \<open>Interfaces\<close> states two contracts as locales, \<open>token_supply\<close> (identities never handed out
  twice; interpreted on the HAL's sessions and configurations and the microphone's patches)
  and \<open>bounded_fifo\<close> (one writer, one reader; interpreted on both control rings).
  \<open>Session_Logic\<close> is a Hoare logic for the state monad, with the locales \<open>session_base\<close> and
  \<open>session_silent\<close> for what every phase of a request keeps. \<open>Pair_Lists\<close> has facts on association
  lists.

  \<^bold>\<open>The stable HAL\<close> (\<open>hal/core/VirtualCameraSlots.h\<close>, \<open>ReadFenceSet.h\<close>, \<open>AcquireFenceWait.h\<close>,
  \<open>ProducerCapabilities.h\<close>, \<open>hal/aidl-v1/VirtualCameraProvider\<close>, \<open>VirtualCameraStableHal\<close>): \<open>Slots\<close>,
  \<open>Read_Fences\<close>, \<open>Producer_Caps\<close>, \<open>Provider\<close>, \<open>Stable_Hal\<close> are the model. \<open>Hal_Invariants\<close> proves the
  invariant of every method, \<open>Hal_Runs\<close> makes a transition system of the critical sections and
  proves that \<open>enqueue\<close>, with anything running while it waits, is a run of it, \<open>Hal_Fds\<close> and
  \<open>Hal_Theorems\<close> give the promises: frames survive their readers, read fences are passed on,
  stale configurations are never served, tokens are fresh, presence and registration
  agree.

  \<^bold>\<open>Session, device, metadata\<close> (\<open>hal/aidl-v1/VirtualCameraSession\<close>, \<open>VirtualCameraDevice\<close>,
  \<open>hal/core/MetadataBuilder\<close>, \<open>VendorTags\<close>, \<open>JpegEncoder\<close>, \<open>FrameProfile.h\<close>): \<open>Metadata\<close>, \<open>Session\<close>,
  \<open>Device\<close>, \<open>Jpeg_Blob\<close>, \<open>Frame_Profile\<close>. \<open>Session_Results\<close>: one notification and one agreeing result
  for each accepted request. \<open>Session_Guarantee\<close>: the session only makes runs of the HAL and
  gives every frame back. \<open>Session_Termination\<close>: the polls of a request carry fuel, and 1001
  rounds are enough, because both have one deadline at most two seconds away and each round
  sleeps at least two milliseconds or to the deadline.

  \<^bold>\<open>The second transport\<close> (\<open>v2-shared-memory/*.h\<close>, \<open>hal/core/VirtualCameraFrameSourceV2\<close>,
  \<open>unified-test/.../virtual_camera_writer_v2\<close>): \<open>Control_Ring\<close>, \<open>Buffer_Pool\<close>, \<open>Shared_Frames\<close>,
  \<open>Frame_Source_V2\<close>, \<open>Frame_Writer_V2\<close>. \<open>Shared_Pool\<close> lets both processes interleave by single accesses
  and proves that every buffer has exactly one place; \<open>Shared_Theorems\<close>, \<open>Shared_Progress\<close> give no
  loss, newest frame and progress. The accept loop has fuel, one unit for each connection; the
  theorems hold for any number.

  \<^bold>\<open>The first transport\<close> (\<open>hal/core/VirtualCameraSocket\<close>, \<open>VirtualCameraFrameSource\<close>,
  \<open>unified-test/.../virtual_camera_writer\<close>, \<open>renderer-lib\<close>): \<open>Frame_Source_V1\<close> reads, \<open>Frame_Writer_V1\<close>
  writes in its three classes, and a frame written is the frame read. \<open>Ashmem_Renderer\<close> is the
  library's renderer with its JNI entry points.

  \<^bold>\<open>The relay\<close> (\<open>platform-jni/VirtualCameraRelayJni.cpp\<close>, \<open>hal/core/AidlFrameSource\<close>,
  \<open>AvailabilityBridge\<close>): \<open>Relay\<close>, \<open>Relay_Queue\<close>, \<open>Relay_Jni\<close>, \<open>Aidl_Source\<close>. \<open>Relay_System\<close> lets the relay's
  threads move by locked sections in any order: queues follow their connection and none is
  leaked. \<open>Relay_Theorems\<close>: configurations converge whatever the order of their callbacks,
  descriptors cross the boundary unchanged. The drain of a queue has fuel, one unit for each
  waiting item.

  \<^bold>\<open>Pixels\<close> (\<open>hal/core/FrameFiller\<close>, \<open>GpuCompositor\<close>): \<open>Frame_Filler\<close> works on memory byte by byte,
  \<open>Fill_Theorems\<close> says which picture each fill stores. \<open>Gpu_Planes\<close> evaluates the shaders in exact
  rationals and proves the packed planes, copied, to be the CPU's luma and the mean chroma;
  \<open>Gpu_Compositor\<close> is the order of the graphics calls, and \<open>Gpu_Theorems\<close> proves with the locale
  \<open>gpu_observer\<close> that no call, failed or not, leaves an object, a descriptor or a current
  context behind.

  \<^bold>\<open>The sample renderer\<close> (\<open>sample-renderer/.../vulkan_renderer\<close>, \<open>cube_geometry.h\<close>, \<open>shaders.h\<close>,
  \<open>vcam_renderer.cpp\<close>): \<open>Cube_Geometry\<close> is the mesh, the vertex description and the words of the
  compiled shaders, which \<open>Cube_Theorems\<close> executes; \<open>Vulkan_Objects\<close> is the driver, a parameter that
  answers each call from the history of calls, and \<open>Vulkan_Renderer\<close> the class.
  \<open>Vulkan_Ownership\<close> and \<open>Vulkan_Theorems\<close> assume that a successful call yields a real handle and
  prove that a session destroys each object it made once, whatever fails; \<open>Vulkan_Frames\<close>
  assumes a driver that does what it is asked and proves that no frame waits for a fence that
  nobody will signal.

  \<^bold>\<open>The test application\<close> (\<open>unified-test/.../unified_renderer.cpp\<close>, \<open>gpu_renderer\<close>): \<open>Test_Pattern\<close>
  draws the pattern and its line of text byte by byte, over sine, cosine and square root as
  parameters; \<open>Pattern_Theorems\<close> proves where it writes and what, from the bounds of these
  functions (\<open>libm_laws\<close>). \<open>Test_Gpu\<close> is the class that draws the same pattern with shaders:
  \<open>Test_Gpu_Objects\<close> proves that nothing it makes is left behind (\<open>gl_calls\<close>, \<open>egl_calls\<close>: what the
  documented calls do to the set of objects), \<open>Test_Gpu_Frames\<close> what it reads back (\<open>gl_shaders\<close>,
  \<open>gl_targets\<close>, \<open>gl_draws\<close>: names keep what they were given, a draw writes the shader's colour at
  each pixel centre). \<open>Unified_Renderer\<close> has the native methods, which hand these pictures to the
  two writers above; \<open>Unified_Theorems\<close> proves that each call publishes one whole frame of the
  announced format, also when the GPU cannot be set up.

  \<^bold>\<open>The rest\<close>: \<open>Camera_Adapter\<close> is the second camera service (\<open>hal/aidl-v2\<close>), \<open>Virtual_Mic\<close> the audio
  module (\<open>virtual-mic/hal\<close>).

  \<^bold>\<open>Findings.\<close> Where the code does something it does not mean to, the theory proves what it does
  (\<open>nv21_copy_overruns\<close>, \<open>second_begin_loses_buffer\<close>, \<open>wrapped_size_overruns\<close>,
  \<open>failed_connect_leaves_dangling\<close>, \<open>generated_config_overwrites\<close>, \<open>failed_init_keeps_context\<close>,
  \<open>half_built_programs_pass\<close>, \<open>ycbcr_frame_shown_as_rgba\<close>, \<open>destroy_shuts_down_twice\<close>,
  \<open>refused_submission_blocks\<close>, \<open>second_surface_leaks\<close>, \<open>short_image_overruns\<close>, \<open>padded_rows_shear\<close>
  and others).

  \<^bold>\<open>Not modelled.\<close> Main functions and registration with the service manager (\<open>service.cpp\<close>); the
  mapper shim \<open>HandleImporterCompat.h\<close>, which copies the fields of one structure into another;
  a second copy of some methods of the sample renderer that no build compiles
  (\<open>cube_geometry.cpp\<close>) and the empty \<open>vulkan_cube.cpp\<close>; the Java and Kotlin services and
  applications, scripts, policies and unit tests. Of the provider, the builds that start
  sockets or the bridge are modelled at the sources themselves, not at their construction.
  Logging is left out everywhere. Memory ordering is sequentially consistent; the theories of
  the rings say why that is faithful there. Rounding inside a driver's floats is left out.
\<close>

end
